(* ===== verification/Go_Prelude.thy ===== *)
theory Go_Prelude
  imports Main "HOL-Library.AList" "HOL-Library.Sublist"
begin

text \<open>
  The shared vocabulary of the development.

  \<^item> A Go map is an association list (\<open>gomap\<close>). The order of the list is the order in which
    one \<open>range\<close> loop visits the map; the theorems quantify over every list, so they hold for
    every order the runtime may choose. \<open>m[k]\<close> is \<open>map_of m k\<close>, \<open>m[k] = v\<close> is
    \<open>AList.update k v m\<close>, \<open>delete(m, k)\<close> is \<open>AList.delete k m\<close>.
  \<^item> A string or a byte slice is a list of bytes (\<open>string\<close>).
  \<^item> A call that may panic returns an \<open>outcome\<close>.
  \<^item> A call that returns either a value or an error is a sum, \<open>Inl\<close> for the error; a call that
    returns both is a pair.
\<close>

named_theorems go_simps \<open>rewrite rules for the operations on Go values\<close>
named_theorems go_defs \<open>definitions that the witnesses unfold\<close>

type_synonym bytes = string
type_synonym gtime = int
type_synonym ('k, 'v) gomap = "('k \<times> 'v) list"
type_synonym 'k goset = "('k \<times> unit) list"

section \<open>Outcomes: returning and panicking\<close>

datatype 'a outcome = Return (returned: 'a) | Panic string

primrec bindO :: "'a outcome \<Rightarrow> ('a \<Rightarrow> 'b outcome) \<Rightarrow> 'b outcome" where
  "bindO (Return x) f = f x"
| "bindO (Panic s) f = Panic s"

text \<open>A loop over a slice that threads a state and may panic.\<close>

primrec foldO :: "('a \<Rightarrow> 's \<Rightarrow> 's outcome) \<Rightarrow> 'a list \<Rightarrow> 's \<Rightarrow> 's outcome" where
  "foldO f [] s = Return s"
| "foldO f (x # xs) s = bindO (f x s) (foldO f xs)"

text \<open>A loop over a slice that builds one value per element and stops at the first error.\<close>

primrec mapE :: "('a \<Rightarrow> 'e + 'b) \<Rightarrow> 'a list \<Rightarrow> 'e + 'b list" where
  "mapE f [] = Inr []"
| "mapE f (x # xs) =
     (case f x of
        Inl e \<Rightarrow> Inl e
      | Inr y \<Rightarrow> (case mapE f xs of Inl e \<Rightarrow> Inl e | Inr ys \<Rightarrow> Inr (y # ys)))"

text \<open>A loop over a slice that threads a state and stops at the first error.\<close>

primrec foldE :: "('a \<Rightarrow> 's \<Rightarrow> 'e + 's) \<Rightarrow> 'a list \<Rightarrow> 's \<Rightarrow> 'e + 's" where
  "foldE f [] s = Inr s"
| "foldE f (x # xs) s = (case f x s of Inl e \<Rightarrow> Inl e | Inr t \<Rightarrow> foldE f xs t)"

section \<open>Maps\<close>

definition gomap_ok :: "('k, 'v) gomap \<Rightarrow> bool" where
  "gomap_ok m = distinct (map fst m)"

text \<open>\<open>for k, v := range src { m[k] = v }\<close>\<close>

definition put_all :: "('k, 'v) gomap \<Rightarrow> ('k, 'v) gomap \<Rightarrow> ('k, 'v) gomap" where
  "put_all src m = fold (\<lambda>(k, v) m. AList.update k v m) src m"

text \<open>\<open>for _, k := range ks { m[k] = struct{}{} }\<close>\<close>

definition put_keys :: "'k list \<Rightarrow> 'k goset \<Rightarrow> 'k goset" where
  "put_keys ks m = fold (\<lambda>k m. AList.update k () m) ks m"

text \<open>A map whose keys are renamed by a partial function, one entry after the other.\<close>

definition rekey :: "('k \<Rightarrow> 'n option) \<Rightarrow> ('k, 'v) gomap \<Rightarrow> ('n, 'v) gomap" where
  "rekey f m = map (\<lambda>(k, v). (the (f k), v)) m"

section \<open>Strings\<close>

definition digit_char :: "nat \<Rightarrow> char" where
  "digit_char n = char_of (48 + n)"

text \<open>\<open>fmt.Sprintf("%d", n)\<close> for a length.\<close>

fun dec :: "nat \<Rightarrow> string" where
  "dec n = (if n < 10 then [digit_char n] else dec (n div 10) @ [digit_char (n mod 10)])"

declare dec.simps [simp del]

text \<open>\<open>strings.Join\<close>\<close>

fun join_strings :: "string \<Rightarrow> string list \<Rightarrow> string" where
  "join_strings sep [] = []"
| "join_strings sep [x] = x"
| "join_strings sep (x # y # xs) = x @ sep @ join_strings sep (y # xs)"

section \<open>Lemmas on outcomes and loops\<close>

lemma bindO_Return_iff [simp]:
  "bindO m f = Return y \<longleftrightarrow> (\<exists>x. m = Return x \<and> f x = Return y)"
  by (cases m) auto

lemma bindO_assoc: "bindO (bindO m f) g = bindO m (\<lambda>x. bindO (f x) g)"
  by (cases m) auto

lemma foldO_append: "foldO f (xs @ ys) s = bindO (foldO f xs s) (foldO f ys)"
proof (induction xs arbitrary: s)
  case (Cons x xs)
  then show ?case by (cases "f x s") auto
qed simp

text \<open>The invariant rule of \<open>foldO\<close>: what every iteration keeps holds at the end.\<close>

lemma foldO_invariant:
  assumes "foldO f xs s = Return t" and "P s"
    and "\<And>x s t. x \<in> set xs \<Longrightarrow> P s \<Longrightarrow> f x s = Return t \<Longrightarrow> P t"
  shows "P t"
  using assms
proof (induction xs arbitrary: s)
  case Nil
  then show ?case by simp
next
  case (Cons x xs)
  from Cons.prems(1) obtain u where "f x s = Return u" and u: "foldO f xs u = Return t" by auto
  with Cons.prems(2,3) have "P u" by (meson list.set_intros(1))
  with u Cons.prems(3) show ?case by (intro Cons.IH) auto
qed

lemma foldO_total:
  assumes "\<And>x s. x \<in> set xs \<Longrightarrow> \<exists>t. f x s = Return t"
  shows "\<exists>t. foldO f xs s = Return t"
  using assms
proof (induction xs arbitrary: s)
  case Nil
  then show ?case by simp
next
  case (Cons x xs)
  from Cons.prems [of x s] obtain u where "f x s = Return u" by auto
  moreover have "\<exists>t. foldO f xs u = Return t" by (rule Cons.IH) (simp add: Cons.prems)
  ultimately show ?case by simp
qed

text \<open>A loop returns when every iteration returns and keeps what makes the next one return.\<close>

lemma foldO_total_invariant:
  assumes "P s" and "\<And>x s. x \<in> set xs \<Longrightarrow> P s \<Longrightarrow> \<exists>t. f x s = Return t \<and> P t"
  shows "\<exists>t. foldO f xs s = Return t \<and> P t"
  using assms
proof (induction xs arbitrary: s)
  case (Cons x xs)
  from Cons.prems(2) [of x s] Cons.prems(1) obtain u where "f x s = Return u" "P u" by auto
  moreover from \<open>P u\<close> have "\<exists>t. foldO f xs u = Return t \<and> P t" by (rule Cons.IH) (simp add: Cons.prems(2))
  ultimately show ?case by simp
qed simp

lemma mapE_Inr_iff:
  "mapE f xs = Inr ys \<longleftrightarrow> list_all2 (\<lambda>x y. f x = Inr y) xs ys"
proof (induction xs arbitrary: ys)
  case Nil
  then show ?case by auto
next
  case (Cons x xs)
  show ?case
    by (cases ys) (auto split: sum.splits simp: Cons.IH [symmetric])
qed

lemma mapE_Inr_mem: "mapE f xs = Inr ys \<Longrightarrow> x \<in> set xs \<Longrightarrow> \<exists>y \<in> set ys. f x = Inr y"
  by (induction xs arbitrary: ys) (auto split: sum.splits)

lemma mapE_Inr_source: "mapE f xs = Inr ys \<Longrightarrow> y \<in> set ys \<Longrightarrow> \<exists>x \<in> set xs. f x = Inr y"
  by (induction xs arbitrary: ys) (auto split: sum.splits)

lemma mapE_Inl_iff:
  "(\<exists>e. mapE f xs = Inl e) \<longleftrightarrow> (\<exists>x \<in> set xs. \<exists>e. f x = Inl e)"
  by (induction xs) (auto split: sum.splits)

lemma foldE_append:
  "foldE f (xs @ ys) s = (case foldE f xs s of Inl e \<Rightarrow> Inl e | Inr t \<Rightarrow> foldE f ys t)"
  by (induction xs arbitrary: s) (auto split: sum.splits)

section \<open>Lemmas on maps\<close>

lemma gomap_ok_Nil [simp]: "gomap_ok []"
  by (simp add: gomap_ok_def)

lemma gomap_ok_update [simp]: "gomap_ok m \<Longrightarrow> gomap_ok (AList.update k v m)"
  by (simp add: gomap_ok_def distinct_update)

lemma put_all_Nil [simp]: "put_all [] m = m"
  by (simp add: put_all_def)

lemma put_all_Cons [simp]: "put_all (kv # src) m = put_all src (AList.update (fst kv) (snd kv) m)"
  by (simp add: put_all_def case_prod_unfold)

lemma gomap_ok_put_all [simp]: "gomap_ok m \<Longrightarrow> gomap_ok (put_all src m)"
  by (induction src arbitrary: m) auto

text \<open>The last write to a key wins; over a well-formed source every key is written once.\<close>

lemma map_of_put_all: "map_of (put_all src m) = map_of m ++ map_of (rev src)"
proof (induction src arbitrary: m)
  case Nil
  then show ?case by simp
next
  case (Cons kv src)
  then show ?case
    by (cases kv) (auto simp: update_conv fun_eq_iff map_add_def split: option.splits)
qed

lemma map_of_rev: "gomap_ok m \<Longrightarrow> map_of (rev m) = map_of m"
  by (rule map_of_inject_set [THEN iffD2]) (auto simp: gomap_ok_def rev_map [symmetric])

lemma map_of_put_all_ok [go_simps]:
  "gomap_ok src \<Longrightarrow> map_of (put_all src m) = map_of m ++ map_of src"
  by (simp add: map_of_put_all map_of_rev)

lemma dom_put_all: "dom (map_of (put_all src m)) = fst ` set src \<union> dom (map_of m)"
  by (auto simp: map_of_put_all dom_map_of_conv_image_fst)

lemma keys_put_all: "fst ` set (put_all src m) = fst ` set src \<union> fst ` set m"
  using dom_put_all [of src m] by (simp add: dom_map_of_conv_image_fst)

lemma map_of_None_iff: "map_of m k = None \<longleftrightarrow> k \<notin> fst ` set m"
  by (simp add: map_of_eq_None_iff)

lemma put_keys_Nil [simp]: "put_keys [] m = m"
  by (simp add: put_keys_def)

lemma put_keys_Cons [simp]: "put_keys (k # ks) m = put_keys ks (AList.update k () m)"
  by (simp add: put_keys_def)

lemma map_of_put_keys [go_simps]:
  "map_of (put_keys ks m) k = (if k \<in> set ks then Some () else map_of m k)"
  by (induction ks arbitrary: m) (auto simp: update_conv)

lemma gomap_ok_put_keys [simp]: "gomap_ok m \<Longrightarrow> gomap_ok (put_keys ks m)"
  by (induction ks arbitrary: m) auto

lemma gomap_mem_iff: "gomap_ok m \<Longrightarrow> (k, v) \<in> set m \<longleftrightarrow> map_of m k = Some v"
  by (auto simp: gomap_ok_def map_of_eq_Some_iff)

lemma gomap_Ball:
  "gomap_ok m \<Longrightarrow> (\<forall>(k, v) \<in> set m. P k v) \<longleftrightarrow> (\<forall>k v. map_of m k = Some v \<longrightarrow> P k v)"
  using gomap_mem_iff by fastforce

lemma gomap_Bex:
  "gomap_ok m \<Longrightarrow> (\<exists>(k, v) \<in> set m. P k v) \<longleftrightarrow> (\<exists>k v. map_of m k = Some v \<and> P k v)"
  using gomap_mem_iff by fastforce

lemma gomap_key_iff: "k \<in> fst ` set m \<longleftrightarrow> (\<exists>v. map_of m k = Some v)"
  by (metis domD domI dom_map_of_conv_image_fst)

lemma gomap_values_iff: "gomap_ok m \<Longrightarrow> v \<in> snd ` set m \<longleftrightarrow> (\<exists>k. map_of m k = Some v)"
  by (force simp: gomap_mem_iff [symmetric])

lemma rekey_simps [simp]:
  "rekey f [] = []"
  "rekey f (kv # m) = (the (f (fst kv)), snd kv) # rekey f m"
  by (auto simp: rekey_def case_prod_unfold)

text \<open>An injective renaming of the keys is a well-formed map with the same values.\<close>

lemma gomap_ok_rekey:
  assumes "gomap_ok m" and "\<And>k k' n. f k = Some n \<Longrightarrow> f k' = Some n \<Longrightarrow> k = k'"
    and "\<And>k. k \<in> fst ` set m \<Longrightarrow> \<exists>n. f k = Some n"
  shows "gomap_ok (rekey f m)"
  using assms(1,3)
proof (induction m)
  case Nil
  then show ?case by simp
next
  case (Cons kv m)
  obtain k v where kv: "kv = (k, v)" by (cases kv)
  from Cons.prems(2) kv obtain n where n: "f k = Some n" by auto
  have "n \<notin> fst ` set (rekey f m)"
  proof
    assume "n \<in> fst ` set (rekey f m)"
    then obtain k' v' where k': "(k', v') \<in> set m" and "n = the (f k')"
      by (auto simp: rekey_def)
    moreover from k' Cons.prems(2) [of k'] obtain n' where "f k' = Some n'" by force
    ultimately have "k = k'" using assms(2) n by simp
    with k' kv Cons.prems(1) show False by (auto simp: gomap_ok_def rev_image_eqI)
  qed
  moreover have "gomap_ok (rekey f m)"
    using Cons.prems by (intro Cons.IH) (auto simp: gomap_ok_def)
  ultimately show ?case by (simp add: gomap_ok_def kv n)
qed

lemma map_of_rekey:
  assumes "gomap_ok m" and "\<And>k k' n. f k = Some n \<Longrightarrow> f k' = Some n \<Longrightarrow> k = k'"
    and "\<And>k. k \<in> fst ` set m \<Longrightarrow> \<exists>n. f k = Some n"
  shows "map_of (rekey f m) n = Some v \<longleftrightarrow> (\<exists>k. f k = Some n \<and> map_of m k = Some v)"
proof -
  have "gomap_ok (rekey f m)"
    by (rule gomap_ok_rekey [OF assms(1)]) (blast intro: assms(2,3))+
  then have "map_of (rekey f m) n = Some v \<longleftrightarrow> (n, v) \<in> set (rekey f m)"
    by (simp add: gomap_mem_iff)
  also have "\<dots> \<longleftrightarrow> (\<exists>k. (k, v) \<in> set m \<and> n = the (f k))"
    by (auto simp: rekey_def)
  also have "\<dots> \<longleftrightarrow> (\<exists>k. f k = Some n \<and> (k, v) \<in> set m)"
    using assms(3) by (metis fst_conv imageI option.sel)
  finally show ?thesis using assms(1) by (simp add: gomap_mem_iff)
qed

section \<open>Lemmas on decimal numerals\<close>

lemma digit_char_inj: "i < 10 \<Longrightarrow> j < 10 \<Longrightarrow> digit_char i = digit_char j \<Longrightarrow> i = j"
  using arg_cong [of "digit_char i" "digit_char j" "of_char :: char \<Rightarrow> nat"]
  by (simp add: digit_char_def)

lemma digit_char_not_space: "i < 10 \<Longrightarrow> digit_char i \<noteq> CHR '' ''"
proof
  assume "i < 10" and "digit_char i = CHR '' ''"
  then have "(of_char (digit_char i) :: nat) = of_char (CHR '' '')" by simp
  with \<open>i < 10\<close> show False by (simp add: digit_char_def)
qed

lemma dec_not_Nil [simp]: "dec n \<noteq> []" "[] \<noteq> dec n"
  by (simp_all add: dec.simps [of n])

lemma dec_no_space: "CHR '' '' \<notin> set (dec n)"
proof (induction n rule: dec.induct)
  case (1 n)
  have "digit_char (n mod 10) \<noteq> CHR '' ''"
    by (rule digit_char_not_space) simp
  with 1 show ?case
    using digit_char_not_space [of n] by (subst dec.simps) auto
qed

lemma dec_inj: "dec m = dec n \<Longrightarrow> m = n"
proof (induction m arbitrary: n rule: dec.induct)
  case (1 m)
  have mod10: "digit_char (m mod 10) = digit_char (n mod 10) \<Longrightarrow> m mod 10 = n mod 10" for m n
    by (rule digit_char_inj) auto
  show ?case
  proof (cases "m < 10 \<or> n < 10")
    case True
    with "1.prems" show ?thesis
      by (subst (asm) (1 2) dec.simps) (auto split: if_splits dest: digit_char_inj)
  next
    case False
    with "1.prems" have "dec (m div 10) = dec (n div 10)"
      and "digit_char (m mod 10) = digit_char (n mod 10)"
      by (subst (asm) (1 2) dec.simps, simp)+
    with False "1.IH" mod10 have "m div 10 = n div 10" and "m mod 10 = n mod 10" by auto
    then show ?thesis by (metis div_mult_mod_eq)
  qed
qed

text \<open>Splitting at the first separator is deterministic.\<close>

lemma append_sep_inj:
  assumes "xs @ c # ys = xs' @ c # ys'" and "c \<notin> set xs" and "c \<notin> set xs'"
  shows "xs = xs' \<and> ys = ys'"
  using assms
proof (induction xs arbitrary: xs')
  case Nil
  then show ?case by (cases xs') auto
next
  case (Cons x xs)
  then show ?case by (cases xs') auto
qed

end
