(* ===== verification/Crypto_Types.thy ===== *)
theory Crypto_Types
  imports Go_Prelude
begin

text \<open>
  The data that every component exchanges: hash functions, keys, certificates, verifiers and
  signers (package \<open>cryptoutil\<close>), and one type for the values of Go's \<open>error\<close> interface.

  An error keeps the structure the code gives it: a named error type of the repository is a
  constructor, \<open>fmt.Errorf(format, args...)\<close> is \<open>Errorf format args\<close>, and an error that a
  library returned is \<open>LibError\<close>. The strings the code formats are kept as a format and its
  arguments (\<open>FMsg\<close>); \<open>error_message\<close> gives the format of every \<open>Error()\<close> method.

  The cryptographic primitives, the X.509 and PEM codecs and the other libraries that
  \<open>cryptoutil\<close> calls are the fields of the record \<open>crypto_lib\<close>, an argument of every definition
  that uses them.
\<close>

section \<open>Hashes, keys and certificates\<close>

text \<open>The hash functions that the standard library's X.509 package links into every program
  that imports \<open>cryptoutil\<close>, so that \<open>Hash.New\<close> never panics.\<close>

datatype crypto_hash = SHA1 | SHA224 | SHA256 | SHA384 | SHA512

record digest_value =
  dv_Hash :: crypto_hash
  dv_GitOID :: bool
  dv_DirHash :: bool

type_synonym digest_set = "(digest_value, string) gomap"

text \<open>A key is its encoding; the public part of a private key is the first component.\<close>

datatype public_key =
    RSA_PublicKey bytes
  | ECDSA_PublicKey bytes
  | ED25519_PublicKey bytes
  | Other_PublicKey string bytes

datatype private_key =
    RSA_PrivateKey bytes bytes
  | ECDSA_PrivateKey bytes bytes
  | ED25519_PrivateKey bytes bytes
  | Other_PrivateKey string bytes

record certificate =
  cert_Raw :: bytes
  cert_PublicKey :: public_key
  cert_CommonName :: string
  cert_Organization :: "string list"
  cert_DNSNames :: "string list"
  cert_EmailAddresses :: "string list"
  cert_URIs :: "string list"
  cert_Extensions :: "(string \<times> bytes) list"

text \<open>What \<open>interface{}\<close> holds after a key or certificate was parsed.\<close>

datatype parsed_key =
    ParsedPrivate private_key
  | ParsedPublic public_key
  | ParsedCert certificate

record pem_block =
  pem_Type :: string
  pem_Headers :: "(string, string) gomap"
  pem_Bytes :: bytes

section \<open>Verifiers and signers\<close>

text \<open>
  The implementations of the interface \<open>Verifier\<close>: the four of \<open>cryptoutil\<close>, and
  \<open>OtherVerifier\<close> for one from outside the package (a KMS provider), known by a name.
\<close>

datatype verifier =
    RSAVerifier bytes crypto_hash
  | ECDSAVerifier bytes crypto_hash
  | ED25519Verifier bytes
  | X509Verifier certificate "certificate list" "certificate list" verifier gtime
  | OtherVerifier string

datatype signer =
    RSASigner bytes bytes crypto_hash
  | ECDSASigner bytes bytes crypto_hash
  | ED25519Signer bytes bytes
  | X509Signer certificate "certificate list" "certificate list" signer
  | OtherSigner string

text \<open>The implementations of \<open>timestamp.TimestampVerifier\<close>: \<open>TSPVerifier\<close> with its certificate
  pool (nil unless set) and hash, \<open>FakeTimestamper\<close>, and one from elsewhere.\<close>

datatype ts_verifier =
    TSPVerifier "certificate list option" crypto_hash
  | FakeTimestamper gtime
  | OtherTSVerifier string

text \<open>A JSON value, as \<open>encoding/json\<close> decodes it into \<open>interface{}\<close>.\<close>

datatype json =
    JNull
  | JBool bool
  | JNumber string
  | JString string
  | JArray "json list"
  | JObject "(string \<times> json) list"

section \<open>Errors\<close>

datatype gerr =
    Errorf string "fval list"
  | LibError string
  | ErrorsJoin "gerr list"
  | ErrUnsupportedHash string
  | ErrUnsupportedKeyType string
  | ErrUnsupportedPEM string
  | ErrInvalidPemBlock
  | ErrVerifyFailed
  | ErrInvalidSigner
  | ErrInvalidCertificate
  | ErrNoSignatures
  | ErrNoMatchingSigs "checked_verifier list"
  | ErrThresholdNotMet int int
  | ErrInvalidThreshold int
  | ErrDuplicateReference string
  | ErrAttestor string string string
  | ErrAttestationNotFound string
  | ErrAttestorNotFound string
  | ErrVerifyArtifactsFailed "fval list"
  | ErrNoCollections string
  | ErrMissingAttestation string string
  | ErrPolicyExpired gtime
  | ErrKeyIDMismatch string string
  | ErrUnknownStep string
  | ErrArtifactCycle string
  | ErrMismatchArtifact digest_set digest_set string
  | ErrRegoInvalidData string string json
  | ErrPolicyDenied "string list"
  | ErrConstraintCheckFailed "gerr list"
  | ErrInvalidOption string string
  | ErrClientNotConfigured
  | ErrURLNotConfigured
  | ErrInvalidToken string
  | ErrNotGitHub
  | ErrNotGitlab
  | ErrNotJenkins
  | ErrInvalidSVID string
and fval =
    FStr string
  | FInt int
  | FTime gtime
  | FStrs "string list"
  | FErr gerr
  | FErrs "gerr list"
  | FVals "fval list"
  | FMsg string "fval list"
  | FType json
and checked_verifier =
    CheckedVerifier (cv_Verifier: "verifier option")
      (cv_TimestampVerifiers: "ts_verifier list") (cv_Error: "gerr option")

text \<open>A reader: the bytes it yields up to its end, or the error a read returns.\<close>

type_synonym reader = "gerr + bytes"

section \<open>The libraries\<close>

record crypto_lib =
  lib_hash :: "crypto_hash \<Rightarrow> bytes \<Rightarrow> bytes"
  lib_gitoid :: "bool \<Rightarrow> bytes \<Rightarrow> gerr + string"
  lib_marshalPKIX :: "public_key \<Rightarrow> gerr + bytes"
  lib_pem_encode :: "string \<Rightarrow> bytes \<Rightarrow> bytes"
  lib_pem_decode :: "bytes \<Rightarrow> pem_block option"
  lib_parsePKCS8 :: "bytes \<Rightarrow> gerr + private_key"
  lib_parsePKCS1 :: "bytes \<Rightarrow> gerr + private_key"
  lib_parseEC :: "bytes \<Rightarrow> gerr + private_key"
  lib_parsePKIX :: "bytes \<Rightarrow> gerr + public_key"
  lib_parsePKCS1Public :: "bytes \<Rightarrow> gerr + public_key"
  lib_parseCert :: "bytes \<Rightarrow> gerr + certificate"
  lib_decryptPEM :: "pem_block \<Rightarrow> bytes \<Rightarrow> gerr + bytes"
  lib_sigstoreDecrypt :: "bytes \<Rightarrow> bytes \<Rightarrow> gerr + bytes"
  lib_parseCosign :: "bytes \<Rightarrow> bytes \<Rightarrow> gerr + parsed_key"
  lib_pemutilParse :: "bytes \<Rightarrow> bytes \<Rightarrow> gerr + parsed_key"
  lib_signPSS :: "bytes \<Rightarrow> crypto_hash \<Rightarrow> bytes \<Rightarrow> gerr + bytes"
  lib_verifyPSS :: "bytes \<Rightarrow> crypto_hash \<Rightarrow> bytes \<Rightarrow> bytes \<Rightarrow> gerr option"
  lib_verifyPKCS1v15 :: "bytes \<Rightarrow> crypto_hash \<Rightarrow> bytes \<Rightarrow> bytes \<Rightarrow> gerr option"
  lib_signECDSA :: "bytes \<Rightarrow> bytes \<Rightarrow> gerr + bytes"
  lib_verifyECDSA :: "bytes \<Rightarrow> bytes \<Rightarrow> bytes \<Rightarrow> bool"
  lib_signED25519 :: "bytes \<Rightarrow> bytes \<Rightarrow> bytes"
  lib_verifyED25519 :: "bytes \<Rightarrow> bytes \<Rightarrow> bytes \<Rightarrow> bool"
  lib_certVerify :: "certificate \<Rightarrow> certificate list \<Rightarrow> certificate list \<Rightarrow> gtime \<Rightarrow> gerr option"
  lib_otherKeyID :: "string \<Rightarrow> gerr + string"
  lib_otherVerify :: "string \<Rightarrow> bytes \<Rightarrow> bytes \<Rightarrow> gerr option"
  lib_otherBytes :: "string \<Rightarrow> gerr + bytes"
  lib_otherSign :: "string \<Rightarrow> bytes \<Rightarrow> gerr + bytes"
  lib_otherVerifier :: "string \<Rightarrow> gerr + verifier"
  lib_otherBundle :: "string \<Rightarrow> (certificate option \<times> certificate list) option"
  lib_parseTimestamp :: "bytes \<Rightarrow> gerr + (bytes \<times> gtime)"
  lib_pkcs7Parse :: "bytes \<Rightarrow> gerr + bytes"
  lib_pkcs7Verify :: "bytes \<Rightarrow> certificate list option \<Rightarrow> gerr option"
  lib_formatRFC3339 :: "gtime \<Rightarrow> string"
  lib_otherTimestampVerify :: "string \<Rightarrow> bytes \<Rightarrow> bytes \<Rightarrow> gerr + gtime"
  lib_hashDir :: "string \<Rightarrow> gerr + string list"

section \<open>The text of an error\<close>

text \<open>The format and arguments of every \<open>Error()\<close> method; the text of a library error is the
  library's.\<close>

fun error_message :: "gerr \<Rightarrow> fval" where
  "error_message (Errorf f args) = FMsg f args"
| "error_message (LibError s) = FStr s"
| "error_message (ErrorsJoin es) = FErrs es"
| "error_message (ErrUnsupportedHash s) = FMsg ''unsupported hash function: %v'' [FStr s]"
| "error_message (ErrUnsupportedKeyType t) = FMsg ''unsupported signer key type: %v'' [FStr t]"
| "error_message (ErrUnsupportedPEM t) = FMsg ''unsupported pem type: %v'' [FStr t]"
| "error_message ErrInvalidPemBlock = FStr ''invalid pem block''"
| "error_message ErrVerifyFailed = FStr ''verification failed''"
| "error_message ErrInvalidSigner = FStr ''signer must not be nil''"
| "error_message ErrInvalidCertificate = FStr ''certificate must not be nil''"
| "error_message ErrNoSignatures = FStr ''no signatures in dsse envelope''"
| "error_message (ErrNoMatchingSigs vs) =
     FMsg ''no valid signatures for the provided verifiers found for keyids: %v''
       [FErrs (List.map_filter cv_Error vs)]"
| "error_message (ErrThresholdNotMet t a) =
     FMsg ''envelope did not meet verifier threshold. expected %v valid verifiers but got %v''
       [FInt t, FInt a]"
| "error_message (ErrInvalidThreshold t) =
     FMsg ''invalid threshold (%v). thresholds must be greater than 0'' [FInt t]"
| "error_message (ErrDuplicateReference s) =
     FMsg ''references may only appear once in a memory source: %v'' [FStr s]"
| "error_message (ErrAttestor n t r) =
     FMsg ''error returned for attestor %s of run type %s: %s'' [FStr n, FStr t, FStr r]"
| "error_message (ErrAttestationNotFound s) = FMsg ''attestation not found: %v'' [FStr s]"
| "error_message (ErrAttestorNotFound s) = FMsg ''attestor not found: %v'' [FStr s]"
| "error_message (ErrVerifyArtifactsFailed rs) =
     FMsg ''failed to verify artifacts: %v'' [FVals rs]"
| "error_message (ErrNoCollections s) = FMsg ''no collections found for step %v'' [FStr s]"
| "error_message (ErrMissingAttestation s a) =
     FMsg ''missing attestation in collection for step %v: %v'' [FStr s, FStr a]"
| "error_message (ErrPolicyExpired t) = FMsg ''policy expired on %v'' [FTime t]"
| "error_message (ErrKeyIDMismatch e a) =
     FMsg ''public key in policy has expected key id %v but got %v'' [FStr e, FStr a]"
| "error_message (ErrUnknownStep s) = FMsg ''policy has no step named %v'' [FStr s]"
| "error_message (ErrArtifactCycle s) =
     FMsg ''cycle detected in step's artifact dependencies: %v'' [FStr s]"
| "error_message (ErrMismatchArtifact a m p) = FMsg ''mismatched digests for %v'' [FStr p]"
| "error_message (ErrRegoInvalidData p e a) =
     FMsg ''invalid data from rego at %v, expected %v but got %T'' [FStr p, FStr e, FType a]"
| "error_message (ErrPolicyDenied rs) =
     FMsg ''policy was denied due to: %v'' [FStr (join_strings '', '' rs)]"
| "error_message (ErrConstraintCheckFailed es) =
     FMsg ''cert failed constraints check: %+q'' [FErrs es]"
| "error_message (ErrInvalidOption opt r) = FMsg ''invalid option (%v): %v'' [FStr opt, FStr r]"
| "error_message ErrClientNotConfigured = FStr ''archivista client is not configured''"
| "error_message ErrURLNotConfigured = FStr ''archivista URL is not configured''"
| "error_message (ErrInvalidToken t) = FMsg (''invalid token: '' @ [CHR 0x22] @ ''%v'' @ [CHR 0x22]) [FStr t]"
| "error_message ErrNotGitHub = FStr ''not in a github ci job''"
| "error_message ErrNotGitlab = FStr ''not in a gitlab ci job''"
| "error_message ErrNotJenkins = FStr ''not in a jenkins ci job''"
| "error_message (ErrInvalidSVID s) = FMsg ''invalid svid: %v'' [FStr s]"

section \<open>A concrete instance of the libraries\<close>

text \<open>
  The theorems hold for every \<open>crypto_lib\<close>. The witnesses evaluate them on this one, in which
  hashing is the identity, a key's encoding starts with a letter for its type, a signature is the
  key followed by the digest, and a certificate is valid under any non-empty pool of roots.
\<close>

definition sample_cert :: "bytes \<Rightarrow> certificate" where
  "sample_cert b =
     \<lparr>cert_Raw = b, cert_PublicKey = ECDSA_PublicKey b, cert_CommonName = b,
      cert_Organization = [], cert_DNSNames = [], cert_EmailAddresses = [], cert_URIs = [],
      cert_Extensions = []\<rparr>"

fun sample_marshal :: "public_key \<Rightarrow> gerr + bytes" where
  "sample_marshal (RSA_PublicKey b) = Inr (CHR ''R'' # b)"
| "sample_marshal (ECDSA_PublicKey b) = Inr (CHR ''E'' # b)"
| "sample_marshal (ED25519_PublicKey b) = Inr (CHR ''D'' # b)"
| "sample_marshal (Other_PublicKey t b) = Inl (LibError t)"

fun sample_parsePKIX :: "bytes \<Rightarrow> gerr + public_key" where
  "sample_parsePKIX [] = Inl (LibError ''pkix'')"
| "sample_parsePKIX (c # b) =
     (if c = CHR ''R'' then Inr (RSA_PublicKey b)
      else if c = CHR ''E'' then Inr (ECDSA_PublicKey b)
      else if c = CHR ''D'' then Inr (ED25519_PublicKey b)
      else Inl (LibError ''pkix''))"

fun sample_parseCert :: "bytes \<Rightarrow> gerr + certificate" where
  "sample_parseCert [] = Inl (LibError ''x509'')"
| "sample_parseCert (c # b) = (if c = CHR ''C'' then Inr (sample_cert b) else Inl (LibError ''x509''))"

definition sample_lib :: crypto_lib where
  "sample_lib =
     \<lparr>lib_hash = \<lambda>h data. data,
      lib_gitoid = \<lambda>sha256 data. Inr (''gitoid:'' @ data),
      lib_marshalPKIX = sample_marshal,
      lib_pem_encode = \<lambda>t b. b,
      lib_pem_decode = \<lambda>b. if b = [] then None else Some \<lparr>pem_Type = ''PEM'', pem_Headers = [], pem_Bytes = b\<rparr>,
      lib_parsePKCS8 = \<lambda>b. Inl (LibError ''pkcs8''),
      lib_parsePKCS1 = \<lambda>b. Inl (LibError ''pkcs1''),
      lib_parseEC = \<lambda>b. Inl (LibError ''ec''),
      lib_parsePKIX = sample_parsePKIX,
      lib_parsePKCS1Public = \<lambda>b. Inl (LibError ''pkcs1''),
      lib_parseCert = sample_parseCert,
      lib_decryptPEM = \<lambda>blk pw. Inl (LibError ''decrypt''),
      lib_sigstoreDecrypt = \<lambda>b pw. Inl (LibError ''decrypt''),
      lib_parseCosign = \<lambda>b pw. Inl (LibError ''cosign''),
      lib_pemutilParse = \<lambda>b pw. Inl (LibError ''pemutil''),
      lib_signPSS = \<lambda>k h d. Inr (k @ d),
      lib_verifyPSS = \<lambda>k h d sig. if sig = k @ d then None else Some (LibError ''pss''),
      lib_verifyPKCS1v15 = \<lambda>k h d sig. Some (LibError ''pkcs1v15''),
      lib_signECDSA = \<lambda>k d. Inr (k @ d),
      lib_verifyECDSA = \<lambda>k d sig. sig = k @ d,
      lib_signED25519 = \<lambda>k m. k @ m,
      lib_verifyED25519 = \<lambda>k m sig. sig = k @ m,
      lib_certVerify = \<lambda>c roots ints t. if roots = [] then Some (LibError ''unknown authority'') else None,
      lib_otherKeyID = \<lambda>n. Inr n,
      lib_otherVerify = \<lambda>n m sig. Some (LibError ''kms''),
      lib_otherBytes = \<lambda>n. Inl (LibError ''kms''),
      lib_otherSign = \<lambda>n m. Inl (LibError ''kms''),
      lib_otherVerifier = \<lambda>n. Inl (LibError ''kms''),
      lib_otherBundle = \<lambda>n. None,
      lib_parseTimestamp = \<lambda>b. Inr (b, 0),
      lib_pkcs7Parse = \<lambda>b. Inr b,
      lib_pkcs7Verify = \<lambda>b certs. None,
      lib_formatRFC3339 = \<lambda>t. ''time'',
      lib_otherTimestampVerify = \<lambda>n ts sig. Inl (LibError ''tsa''),
      lib_hashDir = \<lambda>dir. Inr []\<rparr>"

end
