(* ===== verification/Digest_Set.thy ===== *)
theory Digest_Set
  imports Crypto_Types "HOL-Library.Word" "HOL-Library.Char_ord" "HOL-Library.List_Lexorder"
    "HOL-Library.Multiset"
begin

unbundle bit_operations_syntax

text \<open>
  Digest sets: \<open>cryptoutil/digestset.go\<close>, \<open>gitoid.go\<close>, \<open>dirhash.go\<close> and the hashing helpers of
  \<open>util.go\<close>.

  A \<open>DigestSet\<close> is a map from a digest kind (hash function, git object id or not, directory hash
  or not) to a digest string. The theory models its comparison, its conversions to and from names,
  and how digests of bytes, files and directories are computed. The lemmas characterise
  \<open>DigestSet_Equal\<close> independently of the iteration order, give the round trip through names and
  show that a directory hash does not depend on the order in which files are listed.
\<close>

section \<open>Names of hash functions\<close>

definition plain_digest :: "crypto_hash \<Rightarrow> digest_value" where
  "plain_digest h = \<lparr>dv_Hash = h, dv_GitOID = False, dv_DirHash = False\<rparr>"

definition gitoid_digest :: "crypto_hash \<Rightarrow> digest_value" where
  "gitoid_digest h = \<lparr>dv_Hash = h, dv_GitOID = True, dv_DirHash = False\<rparr>"

definition dir_digest :: digest_value where
  "dir_digest = \<lparr>dv_Hash = SHA256, dv_GitOID = False, dv_DirHash = True\<rparr>"

definition hashNames :: "(digest_value, string) gomap" where
  "hashNames =
     [(plain_digest SHA256, ''sha256''),
      (plain_digest SHA1, ''sha1''),
      (gitoid_digest SHA256, ''gitoid:sha256''),
      (gitoid_digest SHA1, ''gitoid:sha1''),
      (dir_digest, ''dirHash'')]"

definition hashesByName :: "(string, digest_value) gomap" where
  "hashesByName =
     [(''sha256'', plain_digest SHA256),
      (''sha1'', plain_digest SHA1),
      (''gitoid:sha256'', gitoid_digest SHA256),
      (''gitoid:sha1'', gitoid_digest SHA1),
      (''dirHash'', dir_digest)]"

text \<open>\<open>crypto.Hash.String\<close>, which a \<open>DigestValue\<close> inherits.\<close>

fun hash_string :: "crypto_hash \<Rightarrow> string" where
  "hash_string SHA1 = ''SHA-1''"
| "hash_string SHA224 = ''SHA-224''"
| "hash_string SHA256 = ''SHA-256''"
| "hash_string SHA384 = ''SHA-384''"
| "hash_string SHA512 = ''SHA-512''"

definition HashToString :: "crypto_hash \<Rightarrow> gerr + string" where
  "HashToString h =
     (case map_of hashNames (plain_digest h) of
        Some name \<Rightarrow> Inr name
      | None \<Rightarrow> Inl (ErrUnsupportedHash (hash_string h)))"

definition HashFromString :: "string \<Rightarrow> gerr + crypto_hash" where
  "HashFromString name =
     (case map_of hashesByName name of
        Some hash \<Rightarrow> Inr (dv_Hash hash)
      | None \<Rightarrow> Inl (ErrUnsupportedHash name))"

section \<open>Comparing digest sets\<close>

primrec digest_equal_loop :: "digest_set \<Rightarrow> digest_set \<Rightarrow> bool \<Rightarrow> bool" where
  "digest_equal_loop [] second hasMatchingDigest = hasMatchingDigest"
| "digest_equal_loop (entry # ds) second hasMatchingDigest =
     (case map_of second (fst entry) of
        None \<Rightarrow> digest_equal_loop ds second hasMatchingDigest
      | Some otherDigest \<Rightarrow>
          if snd entry = otherDigest then digest_equal_loop ds second True else False)"

definition DigestSet_Equal :: "digest_set \<Rightarrow> digest_set \<Rightarrow> bool" where
  "DigestSet_Equal ds second = digest_equal_loop ds second False"

section \<open>Conversions to and from names\<close>

primrec name_map_loop ::
  "digest_set \<Rightarrow> (string, string) gomap \<Rightarrow> (string, string) gomap \<times> gerr option" where
  "name_map_loop [] nameMap = (nameMap, None)"
| "name_map_loop (entry # ds) nameMap =
     (case map_of hashNames (fst entry) of
        None \<Rightarrow> (nameMap, Some (ErrUnsupportedHash (hash_string (dv_Hash (fst entry)))))
      | Some name \<Rightarrow> name_map_loop ds (AList.update name (snd entry) nameMap))"

definition ToNameMap :: "digest_set \<Rightarrow> (string, string) gomap \<times> gerr option" where
  "ToNameMap ds = name_map_loop ds []"

primrec digest_set_loop ::
  "(string, string) gomap \<Rightarrow> digest_set \<Rightarrow> digest_set \<times> gerr option" where
  "digest_set_loop [] ds = (ds, None)"
| "digest_set_loop (entry # digestsByName) ds =
     (case map_of hashesByName (fst entry) of
        None \<Rightarrow> (ds, Some (ErrUnsupportedHash (fst entry)))
      | Some hash \<Rightarrow> digest_set_loop digestsByName (AList.update hash (snd entry) ds))"

definition NewDigestSet :: "(string, string) gomap \<Rightarrow> digest_set \<times> gerr option" where
  "NewDigestSet digestsByName = digest_set_loop digestsByName []"

text \<open>\<open>MarshalJSON\<close> and \<open>UnmarshalJSON\<close> go through the map of names, encoded by
  \<open>encoding/json\<close> (the argument).\<close>

definition DigestSet_MarshalJSON ::
  "((string, string) gomap \<Rightarrow> gerr + bytes) \<Rightarrow> digest_set \<Rightarrow> gerr + bytes" where
  "DigestSet_MarshalJSON marshal ds =
     (case ToNameMap ds of
        (_, Some err) \<Rightarrow> Inl err
      | (nameMap, None) \<Rightarrow> marshal nameMap)"

definition DigestSet_UnmarshalJSON ::
  "(bytes \<Rightarrow> gerr + (string, string) gomap) \<Rightarrow> bytes \<Rightarrow> gerr + digest_set" where
  "DigestSet_UnmarshalJSON unmarshal data =
     (case unmarshal data of
        Inl err \<Rightarrow> Inl err
      | Inr nameMap \<Rightarrow>
          (case NewDigestSet nameMap of
             (_, Some err) \<Rightarrow> Inl err
           | (newDs, None) \<Rightarrow> Inr newDs))"

section \<open>Computing digests\<close>

definition hex_digit :: "nat \<Rightarrow> char" where
  "hex_digit n = (if n < 10 then char_of (48 + n) else char_of (87 + n))"

definition HexEncode :: "bytes \<Rightarrow> bytes" where
  "HexEncode src =
     concat (map (\<lambda>c. [hex_digit (of_char c div 16), hex_digit (of_char c mod 16)]) src)"

definition Digest :: "crypto_lib \<Rightarrow> reader \<Rightarrow> crypto_hash \<Rightarrow> gerr + bytes" where
  "Digest lib r hash = (case r of Inl err \<Rightarrow> Inl err | Inr data \<Rightarrow> Inr (lib_hash lib hash data))"

definition DigestBytes :: "crypto_lib \<Rightarrow> bytes \<Rightarrow> crypto_hash \<Rightarrow> gerr + bytes" where
  "DigestBytes lib data hash = Digest lib (Inr data) hash"

text \<open>A nil slice of supported functions allows every function; an empty one allows none.\<close>

definition isSupportedAlg :: "crypto_hash \<Rightarrow> crypto_hash list option \<Rightarrow> bool" where
  "isSupportedAlg alg supportedAlgs =
     (case supportedAlgs of None \<Rightarrow> True | Some algs \<Rightarrow> List.member algs alg)"

definition ComputeDigest ::
  "crypto_lib \<Rightarrow> reader \<Rightarrow> crypto_hash \<Rightarrow> crypto_hash list option \<Rightarrow> gerr + (bytes \<times> crypto_hash)"
where
  "ComputeDigest lib rawMessage hashFunc supportedHashFuncs =
     (if \<not> isSupportedAlg hashFunc supportedHashFuncs
      then Inl (Errorf ''unsupported hash algorithm: %q not in %v''
             [FStr (hash_string hashFunc),
              FStrs (map hash_string (case supportedHashFuncs of None \<Rightarrow> [] | Some hs \<Rightarrow> hs))])
      else (case Digest lib rawMessage hashFunc of
              Inl err \<Rightarrow> Inl err
            | Inr digest \<Rightarrow> Inr (digest, hashFunc)))"

text \<open>\<open>gitoidHasher\<close>: a buffer that \<open>Write\<close> extends and \<open>Sum\<close> turns into a git object id URI.\<close>

record gitoidHasher =
  gh_buf :: bytes
  gh_hash :: crypto_hash

definition gitoid_Write :: "gitoidHasher \<Rightarrow> bytes \<Rightarrow> gitoidHasher" where
  "gitoid_Write gh p = gh\<lparr>gh_buf := gh_buf gh @ p\<rparr>"

definition gitoid_Sum :: "crypto_lib \<Rightarrow> gitoidHasher \<Rightarrow> bytes \<Rightarrow> bytes" where
  "gitoid_Sum lib gh b =
     (case lib_gitoid lib (gh_hash gh = SHA256) (gh_buf gh) of
        Inl err \<Rightarrow> []
      | Inr uri \<Rightarrow> b @ uri)"

definition gitoid_Reset :: "gitoidHasher \<Rightarrow> gitoidHasher" where
  "gitoid_Reset gh = gh\<lparr>gh_buf := []\<rparr>"

fun hash_size :: "crypto_hash \<Rightarrow> nat" where
  "hash_size SHA1 = 20"
| "hash_size SHA224 = 28"
| "hash_size SHA256 = 32"
| "hash_size SHA384 = 48"
| "hash_size SHA512 = 64"

definition gitoid_Size :: "gitoidHasher \<Rightarrow> nat" where
  "gitoid_Size gh =
     (case HashToString (gh_hash gh) of
        Inl err \<Rightarrow> 0
      | Inr hashName \<Rightarrow>
          length (''gitoid:'' @ ''blob'' @ '':'' @ hashName @ '':'') + 2 * hash_size (gh_hash gh))"

text \<open>\<open>DigestValue.New\<close> followed by writing the data and \<open>Sum(nil)\<close>.\<close>

definition digest_sum :: "crypto_lib \<Rightarrow> digest_value \<Rightarrow> bytes \<Rightarrow> bytes" where
  "digest_sum lib dv data =
     (if dv_GitOID dv
      then gitoid_Sum lib (gitoid_Write \<lparr>gh_buf = [], gh_hash = dv_Hash dv\<rparr> data) []
      else lib_hash lib (dv_Hash dv) data)"

text \<open>The digest string of one kind: a git object id is already text, any other digest is
  hex encoded.\<close>

definition digest_string :: "crypto_lib \<Rightarrow> bytes \<Rightarrow> digest_value \<Rightarrow> string" where
  "digest_string lib data dv =
     (if dv_GitOID dv then digest_sum lib dv data else HexEncode (digest_sum lib dv data))"

definition CalculateDigestSet ::
  "crypto_lib \<Rightarrow> reader \<Rightarrow> digest_value list \<Rightarrow> digest_set \<times> gerr option" where
  "CalculateDigestSet lib r digestValues =
     (case r of
        Inl err \<Rightarrow> ([], Some err)
      | Inr data \<Rightarrow>
          (fold (\<lambda>dv digestSet. AList.update dv (digest_string lib data dv) digestSet)
             (map fst (put_keys digestValues [])) [], None))"

definition CalculateDigestSetFromBytes ::
  "crypto_lib \<Rightarrow> bytes \<Rightarrow> digest_value list \<Rightarrow> digest_set \<times> gerr option" where
  "CalculateDigestSetFromBytes lib data hashes = CalculateDigestSet lib (Inr data) hashes"

section \<open>Files and directories\<close>

text \<open>\<open>fs.FileMode\<close> is a 32-bit word; these are the bits of \<open>io/fs\<close>.\<close>

type_synonym file_mode = "32 word"

definition ModeDir :: file_mode where "ModeDir = push_bit 31 1"
definition ModeSymlink :: file_mode where "ModeSymlink = push_bit 27 1"
definition ModeDevice :: file_mode where "ModeDevice = push_bit 26 1"
definition ModeNamedPipe :: file_mode where "ModeNamedPipe = push_bit 25 1"
definition ModeSocket :: file_mode where "ModeSocket = push_bit 24 1"
definition ModeCharDevice :: file_mode where "ModeCharDevice = push_bit 21 1"
definition ModeIrregular :: file_mode where "ModeIrregular = push_bit 19 1"

definition ModeType :: file_mode where
  "ModeType = ModeDir OR ModeSymlink OR ModeNamedPipe OR ModeSocket OR ModeDevice
     OR ModeCharDevice OR ModeIrregular"

definition mode_IsRegular :: "file_mode \<Rightarrow> bool" where
  "mode_IsRegular m = (m AND ModeType = 0)"

definition mode_IsDir :: "file_mode \<Rightarrow> bool" where
  "mode_IsDir m = (m AND ModeDir \<noteq> 0)"

definition mode_Perm :: "file_mode \<Rightarrow> file_mode" where
  "mode_Perm m = m AND 511"

text \<open>An open file: what \<open>Stat\<close> returns and what reading it to the end returns.\<close>

record open_file =
  file_stat :: "gerr + file_mode"
  file_data :: reader

definition isHashableFile :: "open_file \<Rightarrow> gerr + bool" where
  "isHashableFile f =
     (case file_stat f of
        Inl err \<Rightarrow> Inl err
      | Inr mode \<Rightarrow>
          if mode AND ModeCharDevice \<noteq> 0 then Inr False
          else if mode_IsRegular mode then Inr True
          else if mode_IsDir (mode_Perm mode) then Inr True
          else if mode AND ModeSymlink = 1 then Inr True
          else Inr False)"

definition CalculateDigestSetFromFile ::
  "crypto_lib \<Rightarrow> (string \<Rightarrow> gerr + open_file) \<Rightarrow> string \<Rightarrow> digest_value list \<Rightarrow>
     digest_set \<times> gerr option" where
  "CalculateDigestSetFromFile lib os_Open path hashes =
     (case os_Open path of
        Inl err \<Rightarrow> ([], Some err)
      | Inr file \<Rightarrow>
          (case isHashableFile file of
             Inl err \<Rightarrow> ([], Some err)
           | Inr hashable \<Rightarrow>
               if \<not> hashable then ([], Some (Errorf ''%s is not a hashable file'' [FStr path]))
               else CalculateDigestSet lib (file_data file) hashes))"

text \<open>The loop of \<open>DirhHashSha256\<close> over the sorted names: the summary that is hashed at the end.
  \<open>open\<close> yields an \<open>os.File\<close> or, as \<open>None\<close>, another kind of reader.\<close>

primrec dirhash_loop ::
  "crypto_lib \<Rightarrow> (string \<Rightarrow> gerr + open_file option) \<Rightarrow> string list \<Rightarrow> bytes \<Rightarrow> gerr + bytes" where
  "dirhash_loop lib opener [] h = Inr h"
| "dirhash_loop lib opener (file # files) h =
     (if List.member file (CHR 0x0A)
      then Inl (Errorf ''dirhash: filenames with newlines are not supported'' [])
      else
        (case opener file of
           Inl err \<Rightarrow> Inl err
         | Inr None \<Rightarrow> Inl (Errorf ''dirhash: abstracted file is not an *os.File'' [])
         | Inr (Some r) \<Rightarrow>
             if (case file_stat r of Inr info \<Rightarrow> mode_IsDir info | Inl err \<Rightarrow> False)
             then dirhash_loop lib opener files h
             else
               (case file_data r of
                  Inl err \<Rightarrow> Inl err
                | Inr data \<Rightarrow>
                    dirhash_loop lib opener files
                      (h @ HexEncode (lib_hash lib SHA256 data) @ ''  '' @ file @ [CHR 0x0A]))))"

definition DirhHashSha256 ::
  "crypto_lib \<Rightarrow> string list \<Rightarrow> (string \<Rightarrow> gerr + open_file option) \<Rightarrow> gerr + string" where
  "DirhHashSha256 lib files opener =
     (case dirhash_loop lib opener (sort files) [] of
        Inl err \<Rightarrow> Inl err
      | Inr h \<Rightarrow> Inr (HexEncode (lib_hash lib SHA256 h)))"

text \<open>\<open>dirhash.HashDir\<close> of \<open>golang.org/x/mod\<close> lists the directory (\<open>lib_hashDir\<close>) and calls the
  hash function it is given with the names and a function that opens them.\<close>

definition CalculateDigestSetFromDir ::
  "crypto_lib \<Rightarrow> (string \<Rightarrow> gerr + open_file option) \<Rightarrow> string \<Rightarrow> digest_value list \<Rightarrow>
     digest_set \<times> gerr option" where
  "CalculateDigestSetFromDir lib opener dir hashes =
     (case lib_hashDir lib dir of
        Inl err \<Rightarrow> ([], Some err)
      | Inr files \<Rightarrow>
          (case DirhHashSha256 lib files opener of
             Inl err \<Rightarrow> ([], Some err)
           | Inr dirHash \<Rightarrow> NewDigestSet (AList.update ''dirHash'' dirHash [])))"

section \<open>Lemmas: comparing digest sets\<close>

lemma digest_equal_loop_iff:
  "digest_equal_loop ds second b \<longleftrightarrow>
     (\<forall>(h, d) \<in> set ds. \<forall>d'. map_of second h = Some d' \<longrightarrow> d = d') \<and>
     (b \<or> (\<exists>(h, d) \<in> set ds. map_of second h = Some d))"
proof (induction ds arbitrary: b)
  case Nil
  then show ?case by simp
next
  case (Cons e ds)
  obtain h d where "e = (h, d)" by (cases e)
  then show ?case by (auto simp: Cons.IH split: option.splits)
qed

lemma DigestSet_Equal_iff:
  assumes "gomap_ok ds"
  shows "DigestSet_Equal ds second \<longleftrightarrow>
     (\<exists>h d. map_of ds h = Some d \<and> map_of second h = Some d) \<and>
     (\<forall>h d d'. map_of ds h = Some d \<and> map_of second h = Some d' \<longrightarrow> d = d')"
  unfolding DigestSet_Equal_def digest_equal_loop_iff gomap_Ball [OF assms] gomap_Bex [OF assms]
  by auto

lemma DigestSet_Equal_sym:
  "gomap_ok ds \<Longrightarrow> gomap_ok second \<Longrightarrow> DigestSet_Equal ds second = DigestSet_Equal second ds"
  unfolding DigestSet_Equal_iff by blast

lemma DigestSet_Equal_refl: "gomap_ok ds \<Longrightarrow> DigestSet_Equal ds ds \<longleftrightarrow> ds \<noteq> []"
  by (cases ds) (auto simp: DigestSet_Equal_iff)

text \<open>Comparison depends on the maps only, not on the order in which they are visited.\<close>

lemma DigestSet_Equal_order:
  assumes "gomap_ok ds" and "gomap_ok ds'" and "map_of ds = map_of ds'"
    and "map_of second = map_of second'"
  shows "DigestSet_Equal ds second = DigestSet_Equal ds' second'"
  using assms by (simp add: DigestSet_Equal_iff)

section \<open>Lemmas: names\<close>

lemma hashNames_inverse: "map_of hashNames h = Some n \<longleftrightarrow> map_of hashesByName n = Some h"
  by (auto simp: hashNames_def hashesByName_def plain_digest_def gitoid_digest_def dir_digest_def
      split: if_splits)

lemma name_map_loop_iff:
  "name_map_loop ds nm = (nm', None) \<longleftrightarrow>
     (\<forall>h \<in> fst ` set ds. \<exists>n. map_of hashNames h = Some n) \<and>
     nm' = put_all (rekey (map_of hashNames) ds) nm"
  by (induction ds arbitrary: nm) (auto split: option.splits)

lemma digest_set_loop_iff:
  "digest_set_loop nm ds = (ds', None) \<longleftrightarrow>
     (\<forall>n \<in> fst ` set nm. \<exists>h. map_of hashesByName n = Some h) \<and>
     ds' = put_all (rekey (map_of hashesByName) nm) ds"
  by (induction nm arbitrary: ds) (auto split: option.splits)

lemma ToNameMap_ok:
  assumes "gomap_ok ds" and "ToNameMap ds = (nm, None)"
  shows "gomap_ok nm"
    and "map_of nm n = Some d \<longleftrightarrow> (\<exists>h. map_of hashNames h = Some n \<and> map_of ds h = Some d)"
proof -
  have inj: "map_of hashNames k = Some n \<Longrightarrow> map_of hashNames k' = Some n \<Longrightarrow> k = k'" for k k' n
    by (simp add: hashNames_inverse)
  have supp: "\<exists>n. map_of hashNames k = Some n" if "k \<in> fst ` set ds" for k
    using assms(2) that by (auto simp: ToNameMap_def name_map_loop_iff)
  have ok: "gomap_ok (rekey (map_of hashNames) ds)"
    by (rule gomap_ok_rekey [OF assms(1)]) (blast intro: inj supp)+
  have nm: "nm = put_all (rekey (map_of hashNames) ds) []"
    using assms(2) by (simp add: ToNameMap_def name_map_loop_iff)
  then show "gomap_ok nm" by simp
  show "map_of nm n = Some d \<longleftrightarrow> (\<exists>h. map_of hashNames h = Some n \<and> map_of ds h = Some d)"
    by (simp add: nm map_of_put_all_ok ok) (rule map_of_rekey [OF assms(1)], auto intro: inj supp)
qed

lemma NewDigestSet_ok:
  assumes "gomap_ok nm" and "NewDigestSet nm = (ds, None)"
  shows "gomap_ok ds"
    and "map_of ds h = Some d \<longleftrightarrow> (\<exists>n. map_of hashesByName n = Some h \<and> map_of nm n = Some d)"
proof -
  have inj: "map_of hashesByName k = Some h \<Longrightarrow> map_of hashesByName k' = Some h \<Longrightarrow> k = k'" for k k' h
    by (simp add: hashNames_inverse [symmetric])
  have supp: "\<exists>h. map_of hashesByName k = Some h" if "k \<in> fst ` set nm" for k
    using assms(2) that by (auto simp: NewDigestSet_def digest_set_loop_iff)
  have ok: "gomap_ok (rekey (map_of hashesByName) nm)"
    by (rule gomap_ok_rekey [OF assms(1)]) (blast intro: inj supp)+
  have ds: "ds = put_all (rekey (map_of hashesByName) nm) []"
    using assms(2) by (simp add: NewDigestSet_def digest_set_loop_iff)
  then show "gomap_ok ds" by simp
  show "map_of ds h = Some d \<longleftrightarrow> (\<exists>n. map_of hashesByName n = Some h \<and> map_of nm n = Some d)"
    by (simp add: ds map_of_put_all_ok ok) (rule map_of_rekey [OF assms(1)], auto intro: inj supp)
qed

lemma NewDigestSet_supported:
  assumes "\<forall>n \<in> fst ` set nm. \<exists>h. map_of hashesByName n = Some h"
  shows "\<exists>ds. NewDigestSet nm = (ds, None)"
  using assms by (simp add: NewDigestSet_def digest_set_loop_iff)

lemma names_roundtrip:
  assumes "gomap_ok ds" and "ToNameMap ds = (nm, None)"
    and "gomap_ok nm'" and "map_of nm' = map_of nm"
  obtains ds' where "NewDigestSet nm' = (ds', None)" and "gomap_ok ds'" and "map_of ds' = map_of ds"
proof -
  note names = ToNameMap_ok(2) [OF assms(1,2)]
  have "\<exists>h. map_of hashesByName n = Some h" if "n \<in> fst ` set nm'" for n
  proof -
    from that obtain d where "(n, d) \<in> set nm'" by auto
    with assms(3,4) have "map_of nm n = Some d" by (metis gomap_mem_iff)
    with names show ?thesis by (auto simp: hashNames_inverse)
  qed
  then obtain ds' where ds': "NewDigestSet nm' = (ds', None)"
    using NewDigestSet_supported by blast
  have supp: "\<exists>n. map_of hashNames h = Some n" if "map_of ds h = Some d" for h d
    using assms(2) map_of_SomeD [OF that] by (force simp: ToNameMap_def name_map_loop_iff)
  have "map_of ds' h = Some d \<longleftrightarrow> map_of ds h = Some d" for h d
    using NewDigestSet_ok(2) [OF assms(3) ds', of h d] assms(4) names supp [of h d]
    by (auto simp: hashNames_inverse)
  then have "map_of ds' = map_of ds" by (metis (no_types) ext not_None_eq)
  with that ds' NewDigestSet_ok(1) [OF assms(3) ds'] show thesis by blast
qed

section \<open>Lemmas: computed digests\<close>

lemma hex_digit_inj:
  assumes "m < 16" and "n < 16" and "hex_digit m = hex_digit n"
  shows "m = n"
proof -
  from assms(3) have "(of_char (hex_digit m) :: nat) = of_char (hex_digit n)" by simp
  with assms(1,2) show ?thesis by (simp add: hex_digit_def split: if_splits)
qed

lemma HexEncode_simps [simp]:
  "HexEncode [] = []"
  "HexEncode (c # cs) = hex_digit (of_char c div 16) # hex_digit (of_char c mod 16) # HexEncode cs"
  by (simp_all add: HexEncode_def)

lemma length_HexEncode [simp]: "length (HexEncode src) = 2 * length src"
  by (induction src) auto

lemma HexEncode_inject [simp]: "HexEncode xs = HexEncode ys \<longleftrightarrow> xs = ys"
proof (induction xs arbitrary: ys)
  case Nil
  then show ?case by (cases ys) auto
next
  case (Cons c cs)
  show ?case
  proof (cases ys)
    case (Cons d ds)
    have "c = d" if "hex_digit (of_char c div 16) = hex_digit (of_char d div 16)"
      and "hex_digit (of_char c mod 16) = hex_digit (of_char d mod 16)"
    proof -
      have lt: "(of_char c :: nat) div 16 < 16" for c
        by (rule less_mult_imp_div_less) (use nat_of_char_less_256 [of c] in simp)
      from that lt have "(of_char c :: nat) div 16 = of_char d div 16"
        and "(of_char c :: nat) mod 16 = of_char d mod 16"
        by (auto intro: hex_digit_inj)
      then have "(of_char c :: nat) = of_char d" by (metis div_mult_mod_eq)
      then show ?thesis by simp
    qed
    then show ?thesis using Cons.IH local.Cons by auto
  qed simp
qed

lemma fold_update_map_of:
  "map_of (fold (\<lambda>k. AList.update k (f k)) ks m) k = (if k \<in> set ks then Some (f k) else map_of m k)"
  by (induction ks arbitrary: m) (auto simp: update_conv)

lemma fold_update_ok: "gomap_ok m \<Longrightarrow> gomap_ok (fold (\<lambda>k. AList.update k (f k)) ks m)"
  by (induction ks arbitrary: m) auto

lemma keys_put_keys: "fst ` set (put_keys ks m) = set ks \<union> fst ` set m"
  by (simp only: set_eq_iff Un_iff gomap_key_iff map_of_put_keys) simp

lemma CalculateDigestSet_map_of:
  "map_of (fst (CalculateDigestSet lib (Inr data) dvs)) dv =
     (if dv \<in> set dvs then Some (digest_string lib data dv) else None)"
  using fold_update_map_of [of "digest_string lib data"]
  by (simp add: CalculateDigestSet_def keys_put_keys)

lemma CalculateDigestSet_ok: "gomap_ok (fst (CalculateDigestSet lib r dvs))"
  using fold_update_ok [of "[]" "digest_string lib data" for data]
  by (simp add: CalculateDigestSet_def split: sum.split)

lemma sort_mset_eq: "mset xs = mset ys \<Longrightarrow> sort xs = sort ys"
  by (rule properties_for_sort [symmetric]) simp_all

section \<open>Lemmas: file modes\<close>

lemmas mode_defs = ModeDir_def ModeSymlink_def ModeDevice_def ModeNamedPipe_def ModeSocket_def
  ModeCharDevice_def ModeIrregular_def ModeType_def mode_IsRegular_def mode_IsDir_def mode_Perm_def

lemma perm_is_never_dir: "\<not> mode_IsDir (mode_Perm m)"
proof -
  have "(511 :: file_mode) AND ModeDir = 0" by (simp add: ModeDir_def)
  then show ?thesis by (simp add: mode_IsDir_def mode_Perm_def and.assoc)
qed

lemma symlink_bit_is_never_one: "m AND ModeSymlink \<noteq> 1"
proof
  assume "m AND ModeSymlink = 1"
  then have "bit (m AND ModeSymlink) 0" by simp
  then show False by (simp add: ModeSymlink_def bit_simps)
qed

lemma char_device_not_regular: "m AND ModeCharDevice \<noteq> 0 \<Longrightarrow> m AND ModeType \<noteq> 0"
proof
  assume "m AND ModeType = 0"
  then have "(m AND ModeType) AND ModeCharDevice = 0" by simp
  moreover have "ModeType AND ModeCharDevice = ModeCharDevice"
    by (simp add: mode_defs)
  ultimately have "m AND ModeCharDevice = 0" by (simp add: and.assoc)
  then show "m AND ModeCharDevice \<noteq> 0 \<Longrightarrow> False" by simp
qed

section \<open>Properties\<close>

text \<open>Two digest sets are equal exactly when they share at least one digest of a common
  hash function and no common hash function has different digests, whatever order the maps are
  visited in; the comparison is symmetric.\<close>

theorem DigestSet_Equal_correct:
  assumes "gomap_ok ds" and "gomap_ok second"
  shows "(DigestSet_Equal ds second \<longleftrightarrow>
      (\<exists>h d. map_of ds h = Some d \<and> map_of second h = Some d) \<and>
      (\<forall>h d d'. map_of ds h = Some d \<and> map_of second h = Some d' \<longrightarrow> d = d')) \<and>
    DigestSet_Equal ds second = DigestSet_Equal second ds"
  using DigestSet_Equal_iff [OF assms(1)] DigestSet_Equal_sym [OF assms] by blast

theorem DigestSet_Equal_correct_witness:
  "DigestSet_Equal [(plain_digest SHA256, ''ab''), (plain_digest SHA1, ''cd'')]
     [(plain_digest SHA1, ''cd'')] =
   DigestSet_Equal [(plain_digest SHA1, ''cd'')]
     [(plain_digest SHA256, ''ab''), (plain_digest SHA1, ''cd'')]"
  by (rule DigestSet_Equal_correct [THEN conjunct2]) (simp_all add: gomap_ok_def plain_digest_def)

text \<open>Encoding a digest set as JSON and decoding it gives the same digest set back: every
  supported digest kind has one name, the names are distinct, and the decoder reads the encoder's
  map in any order.\<close>

theorem digest_json_roundtrip:
  assumes "gomap_ok ds" and "DigestSet_MarshalJSON marshal ds = Inr data"
    and "unmarshal data = Inr nm" and "gomap_ok nm" and "map_of nm = map_of (fst (ToNameMap ds))"
  shows "\<exists>ds'. DigestSet_UnmarshalJSON unmarshal data = Inr ds' \<and> gomap_ok ds' \<and> map_of ds' = map_of ds"
proof -
  from assms(2) have "ToNameMap ds = (fst (ToNameMap ds), None)"
    by (auto simp: DigestSet_MarshalJSON_def split: prod.splits option.splits)
  from names_roundtrip [OF assms(1) this assms(4,5)] obtain ds'
    where "NewDigestSet nm = (ds', None)" and "gomap_ok ds'" and "map_of ds' = map_of ds" .
  with assms(3) show ?thesis by (auto simp: DigestSet_UnmarshalJSON_def)
qed

theorem digest_json_roundtrip_witness:
  "\<exists>ds'. DigestSet_UnmarshalJSON (\<lambda>_. Inr [(''sha1'', ''cd''), (''sha256'', ''ab'')]) ''json'' = Inr ds' \<and>
     gomap_ok ds' \<and> map_of ds' = map_of [(plain_digest SHA256, ''ab''), (plain_digest SHA1, ''cd'')]"
  by (rule digest_json_roundtrip [where marshal = "\<lambda>_. Inr ''json''" and nm = "[(''sha1'', ''cd''), (''sha256'', ''ab'')]"])
    (auto simp: gomap_ok_def DigestSet_MarshalJSON_def ToNameMap_def hashNames_def plain_digest_def
      gitoid_digest_def dir_digest_def fun_eq_iff)

text \<open>Digest sets computed from bytes with a common hash function compare equal exactly when
  the bytes are equal, provided that hash function does not collide on them.\<close>

theorem digest_set_identifies_bytes:
  assumes "dv \<in> set hashes" and "\<not> dv_GitOID dv"
    and "lib_hash lib (dv_Hash dv) data = lib_hash lib (dv_Hash dv) data' \<Longrightarrow> data = data'"
  shows "DigestSet_Equal (fst (CalculateDigestSetFromBytes lib data hashes))
      (fst (CalculateDigestSetFromBytes lib data' hashes)) \<longleftrightarrow> data = data'"
    (is "DigestSet_Equal ?a ?b \<longleftrightarrow> _")
proof
  have str: "digest_string lib d dv = HexEncode (lib_hash lib (dv_Hash dv) d)" for d
    using assms(2) by (simp add: digest_string_def digest_sum_def)
  have look: "map_of (fst (CalculateDigestSetFromBytes lib d hashes)) dv = Some (digest_string lib d dv)" for d
    using assms(1) by (simp add: CalculateDigestSetFromBytes_def CalculateDigestSet_map_of)
  have ok: "gomap_ok (fst (CalculateDigestSetFromBytes lib d hashes))" for d
    by (simp add: CalculateDigestSetFromBytes_def CalculateDigestSet_ok)
  {
    assume "DigestSet_Equal ?a ?b"
    with ok look have "digest_string lib data dv = digest_string lib data' dv"
      by (metis DigestSet_Equal_iff)
    with str assms(3) show "data = data'" by simp
  next
    assume "data = data'"
    moreover from look [of data'] have "?b \<noteq> []" by auto
    ultimately show "DigestSet_Equal ?a ?b" using ok by (simp add: DigestSet_Equal_refl)
  }
qed

theorem digest_set_identifies_bytes_witness:
  "\<not> DigestSet_Equal (fst (CalculateDigestSetFromBytes sample_lib ''a'' [plain_digest SHA256]))
      (fst (CalculateDigestSetFromBytes sample_lib ''b'' [plain_digest SHA256]))"
  using digest_set_identifies_bytes
    [of "plain_digest SHA256" "[plain_digest SHA256]" sample_lib "''a''" "''b''"]
  by (simp add: sample_lib_def plain_digest_def)

text \<open>A file is hashable exactly when its mode has no type bit set: the branches of
  \<open>isHashableFile\<close> for directories and symbolic links are never taken.\<close>

theorem isHashableFile_regular_only:
  assumes "file_stat f = Inr mode"
  shows "isHashableFile f = Inr (mode AND ModeType = 0)"
  using assms perm_is_never_dir [of mode] symlink_bit_is_never_one [of mode]
    char_device_not_regular [of mode]
  by (auto simp: isHashableFile_def mode_IsRegular_def)

theorem isHashableFile_regular_only_witness:
  "isHashableFile \<lparr>file_stat = Inr (ModeDir OR 493), file_data = Inr []\<rparr> = Inr False"
  using isHashableFile_regular_only [of "\<lparr>file_stat = Inr (ModeDir OR 493), file_data = Inr []\<rparr>" "ModeDir OR 493"]
  by (simp add: mode_defs)

text \<open>The hash of a directory does not depend on the order in which its files are listed.\<close>

theorem DirhHashSha256_order:
  assumes "mset files = mset files'"
  shows "DirhHashSha256 lib files opener = DirhHashSha256 lib files' opener"
  using sort_mset_eq [OF assms] by (simp add: DirhHashSha256_def)

theorem DirhHashSha256_order_witness:
  "DirhHashSha256 sample_lib [''b'', ''a''] (\<lambda>f. Inr (Some \<lparr>file_stat = Inr 0, file_data = Inr f\<rparr>)) =
   DirhHashSha256 sample_lib [''a'', ''b''] (\<lambda>f. Inr (Some \<lparr>file_stat = Inr 0, file_data = Inr f\<rparr>))"
  by (rule DirhHashSha256_order) simp

end
