(* ===== verification/Keys.thy ===== *)
theory Keys
  imports Digest_Set
begin

text \<open>
  Keys, signers and verifiers: \<open>cryptoutil/util.go\<close>, \<open>verifier.go\<close>, \<open>signer.go\<close>, \<open>rsa.go\<close>,
  \<open>ecdsa.go\<close>, \<open>ed25519.go\<close> and \<open>x509.go\<close>.

  The theory models how PEM data is parsed into keys and certificates, how a signer or verifier is
  built from a key, how key identifiers are derived, and how signatures are made and checked. The
  locale \<open>signature_scheme\<close> states what a signer promises its clients; it is interpreted on the
  signers of the package.
\<close>

section \<open>Key identifiers and encodings\<close>

definition PublicPemBytes :: "crypto_lib \<Rightarrow> public_key \<Rightarrow> gerr + bytes" where
  "PublicPemBytes lib pub =
     (case lib_marshalPKIX lib pub of
        Inl err \<Rightarrow> Inl err
      | Inr keyBytes \<Rightarrow> Inr (lib_pem_encode lib ''PUBLIC KEY'' keyBytes))"

definition GeneratePublicKeyID :: "crypto_lib \<Rightarrow> public_key \<Rightarrow> crypto_hash \<Rightarrow> gerr + string" where
  "GeneratePublicKeyID lib pub hash =
     (case PublicPemBytes lib pub of
        Inl err \<Rightarrow> Inl err
      | Inr pemBytes \<Rightarrow>
          (case DigestBytes lib pemBytes hash of
             Inl err \<Rightarrow> Inl err
           | Inr digest \<Rightarrow> Inr (HexEncode digest)))"

definition UnmarshalPEMToPublicKey :: "crypto_lib \<Rightarrow> bytes \<Rightarrow> gerr + public_key" where
  "UnmarshalPEMToPublicKey lib pemBytes =
     (case lib_pem_decode lib pemBytes of
        None \<Rightarrow> Inl (Errorf ''PEM decoding failed'' [])
      | Some derBytes \<Rightarrow>
          if pem_Type derBytes = ''PUBLIC KEY'' then lib_parsePKIX lib (pem_Bytes derBytes)
          else if pem_Type derBytes = ''RSA PUBLIC KEY''
          then lib_parsePKCS1Public lib (pem_Bytes derBytes)
          else Inl (Errorf ''unknown Public key PEM file type: %v. Are you passing the correct public key?''
                 [FStr (pem_Type derBytes)]))"

section \<open>Parsing PEM blocks\<close>

definition isSigstorePEMType :: "string \<Rightarrow> bool" where
  "isSigstorePEMType t =
     (t = ''ENCRYPTED SIGSTORE PRIVATE KEY'' \<or> t = ''ENCRYPTED COSIGN PRIVATE KEY'')"

text \<open>The chain of attempts on an unencrypted block; the code writes it twice.\<close>

definition parse_unencrypted :: "crypto_lib \<Rightarrow> pem_block \<Rightarrow> gerr + parsed_key" where
  "parse_unencrypted lib block =
     (case lib_parsePKCS8 lib (pem_Bytes block) of Inr key \<Rightarrow> Inr (ParsedPrivate key) | Inl _ \<Rightarrow>
     (case lib_parsePKCS1 lib (pem_Bytes block) of Inr key \<Rightarrow> Inr (ParsedPrivate key) | Inl _ \<Rightarrow>
     (case lib_parseEC lib (pem_Bytes block) of Inr key \<Rightarrow> Inr (ParsedPrivate key) | Inl _ \<Rightarrow>
     (case lib_parsePKIX lib (pem_Bytes block) of Inr key \<Rightarrow> Inr (ParsedPublic key) | Inl _ \<Rightarrow>
     (case lib_parsePKCS1Public lib (pem_Bytes block) of Inr key \<Rightarrow> Inr (ParsedPublic key) | Inl _ \<Rightarrow>
     (case lib_parseCert lib (pem_Bytes block) of Inr cert \<Rightarrow> Inr (ParsedCert cert) | Inl _ \<Rightarrow>
        Inl (ErrUnsupportedPEM (pem_Type block))))))))"

definition TryParsePEMBlockWithPassword ::
  "crypto_lib \<Rightarrow> pem_block option \<Rightarrow> bytes option \<Rightarrow> gerr + parsed_key" where
  "TryParsePEMBlockWithPassword lib blk password =
     (case blk of
        None \<Rightarrow> Inl ErrInvalidPemBlock
      | Some block \<Rightarrow>
          if isSigstorePEMType (pem_Type block) \<and> password = None
          then Inl (Errorf ''encrypted sigstore private key requires a passphrase (use --key-passphrase, --key-passphrase-path, or WITNESS_KEY_PASSPHRASE)'' [])
          else
            (case password of
               None \<Rightarrow> parse_unencrypted lib block
             | Some pw \<Rightarrow>
                 if isSigstorePEMType (pem_Type block)
                 then
                   (case lib_sigstoreDecrypt lib (pem_Bytes block) pw of
                      Inl err \<Rightarrow> Inl (Errorf ''failed to decrypt sigstore private key: %w'' [FErr err])
                    | Inr der \<Rightarrow>
                        (case lib_parsePKCS8 lib der of
                           Inl err \<Rightarrow> Inl (Errorf ''failed to parse decrypted sigstore private key: %w'' [FErr err])
                         | Inr key \<Rightarrow> Inr (ParsedPrivate key)))
                 else if map_of (pem_Headers block) ''DEK-Info'' \<noteq> None
                 then
                   (case lib_decryptPEM lib block pw of
                      Inl err \<Rightarrow> Inl (Errorf ''failed to decrypt legacy encrypted PEM: %w'' [FErr err])
                    | Inr decryptedDER \<Rightarrow>
                        (case lib_parsePKCS1 lib decryptedDER of Inr k \<Rightarrow> Inr (ParsedPrivate k) | Inl _ \<Rightarrow>
                        (case lib_parseEC lib decryptedDER of Inr k \<Rightarrow> Inr (ParsedPrivate k) | Inl _ \<Rightarrow>
                        (case lib_parsePKCS8 lib decryptedDER of Inr k \<Rightarrow> Inr (ParsedPrivate k) | Inl _ \<Rightarrow>
                           Inl (Errorf ''decrypted legacy encrypted PEM does not contain a supported private key format'' [])))))
                 else parse_unencrypted lib block))"

definition TryParsePEMBlock :: "crypto_lib \<Rightarrow> pem_block option \<Rightarrow> gerr + parsed_key" where
  "TryParsePEMBlock lib block = TryParsePEMBlockWithPassword lib block None"

definition TryParseKeyFromReaderWithPassword ::
  "crypto_lib \<Rightarrow> reader \<Rightarrow> bytes option \<Rightarrow> gerr + parsed_key" where
  "TryParseKeyFromReaderWithPassword lib r password =
     (case r of
        Inl err \<Rightarrow> Inl err
      | Inr bs \<Rightarrow>
          (case (lib_pem_decode lib bs, password) of
             (pemBlock, None) \<Rightarrow> TryParsePEMBlockWithPassword lib pemBlock None
           | (Some pemBlock, Some pw) \<Rightarrow>
               if pem_Type pemBlock = ''ENCRYPTED SIGSTORE PRIVATE KEY''
                  \<or> pem_Type pemBlock = ''ENCRYPTED COSIGN PRIVATE KEY''
               then lib_parseCosign lib (pem_Bytes pemBlock) pw
               else if isSigstorePEMType (pem_Type pemBlock)
               then TryParsePEMBlockWithPassword lib (Some pemBlock) (Some pw)
               else lib_pemutilParse lib bs pw
           | (None, Some pw) \<Rightarrow> lib_pemutilParse lib bs pw))"

definition TryParseKeyFromReader :: "crypto_lib \<Rightarrow> reader \<Rightarrow> gerr + parsed_key" where
  "TryParseKeyFromReader lib r = TryParseKeyFromReaderWithPassword lib r None"

definition TryParseCertificate :: "crypto_lib \<Rightarrow> bytes \<Rightarrow> gerr + certificate" where
  "TryParseCertificate lib data =
     (case TryParseKeyFromReader lib (Inr data) of
        Inl err \<Rightarrow> Inl err
      | Inr (ParsedCert cert) \<Rightarrow> Inr cert
      | Inr _ \<Rightarrow> Inl (Errorf ''data was a valid verifier but not a certificate'' []))"

section \<open>Verifiers\<close>

text \<open>\<open>x509.CertPool.AddCert\<close> ignores a certificate the pool already has.\<close>

definition certificatesToPool :: "certificate list \<Rightarrow> certificate list" where
  "certificatesToPool certs =
     fold (\<lambda>cert pool. if List.member pool cert then pool else pool @ [cert]) certs []"

text \<open>The methods of each implementation; a method of an X.509 verifier gets the method of the verifier
  inside.\<close>

definition RSAVerifier_KeyID :: "crypto_lib \<Rightarrow> bytes \<Rightarrow> crypto_hash \<Rightarrow> gerr + string" where
  [simp]: "RSAVerifier_KeyID lib pub hash = GeneratePublicKeyID lib (RSA_PublicKey pub) hash"

definition ECDSAVerifier_KeyID :: "crypto_lib \<Rightarrow> bytes \<Rightarrow> crypto_hash \<Rightarrow> gerr + string" where
  [simp]: "ECDSAVerifier_KeyID lib pub hash = GeneratePublicKeyID lib (ECDSA_PublicKey pub) hash"

definition ED25519Verifier_KeyID :: "crypto_lib \<Rightarrow> bytes \<Rightarrow> gerr + string" where
  [simp]: "ED25519Verifier_KeyID lib pub = GeneratePublicKeyID lib (ED25519_PublicKey pub) SHA256"

fun Verifier_KeyID :: "crypto_lib \<Rightarrow> verifier \<Rightarrow> gerr + string" where
  "Verifier_KeyID lib (RSAVerifier pub hash) = RSAVerifier_KeyID lib pub hash"
| "Verifier_KeyID lib (ECDSAVerifier pub hash) = ECDSAVerifier_KeyID lib pub hash"
| "Verifier_KeyID lib (ED25519Verifier pub) = ED25519Verifier_KeyID lib pub"
| "Verifier_KeyID lib (X509Verifier cert roots intermediates v trustedTime) = Verifier_KeyID lib v"
| "Verifier_KeyID lib (OtherVerifier name) = lib_otherKeyID lib name"

definition RSAVerifier_Verify :: "crypto_lib \<Rightarrow> bytes \<Rightarrow> crypto_hash \<Rightarrow> reader \<Rightarrow> bytes \<Rightarrow> gerr option" where
  [simp]: "RSAVerifier_Verify lib pub hash data sig =
     (case Digest lib data hash of
        Inl err \<Rightarrow> Some err
      | Inr digest \<Rightarrow>
          (case lib_verifyPSS lib pub hash digest sig of
             Some err \<Rightarrow> lib_verifyPKCS1v15 lib pub hash digest sig
           | None \<Rightarrow> None))"

definition ECDSAVerifier_Verify :: "crypto_lib \<Rightarrow> bytes \<Rightarrow> crypto_hash \<Rightarrow> reader \<Rightarrow> bytes \<Rightarrow> gerr option" where
  [simp]: "ECDSAVerifier_Verify lib pub hash data sig =
     (case Digest lib data hash of
        Inl err \<Rightarrow> Some err
      | Inr digest \<Rightarrow> if \<not> lib_verifyECDSA lib pub digest sig then Some ErrVerifyFailed else None)"

definition ED25519Verifier_Verify :: "crypto_lib \<Rightarrow> bytes \<Rightarrow> reader \<Rightarrow> bytes \<Rightarrow> gerr option" where
  [simp]: "ED25519Verifier_Verify lib pub data sig =
     (case data of
        Inl err \<Rightarrow> Some err
      | Inr msg \<Rightarrow> if \<not> lib_verifyED25519 lib pub msg sig then Some ErrVerifyFailed else None)"

definition X509Verifier_Verify ::
  "crypto_lib \<Rightarrow> certificate \<Rightarrow> certificate list \<Rightarrow> certificate list \<Rightarrow> gtime \<Rightarrow> gerr option \<Rightarrow> gerr option" where
  [simp]: "X509Verifier_Verify lib cert roots intermediates trustedTime verified =
     (case lib_certVerify lib cert (certificatesToPool roots) (certificatesToPool intermediates)
             trustedTime of
        Some err \<Rightarrow> Some err
      | None \<Rightarrow> verified)"

fun Verifier_Verify :: "crypto_lib \<Rightarrow> verifier \<Rightarrow> reader \<Rightarrow> bytes \<Rightarrow> gerr option" where
  "Verifier_Verify lib (RSAVerifier pub hash) data sig = RSAVerifier_Verify lib pub hash data sig"
| "Verifier_Verify lib (ECDSAVerifier pub hash) data sig = ECDSAVerifier_Verify lib pub hash data sig"
| "Verifier_Verify lib (ED25519Verifier pub) data sig = ED25519Verifier_Verify lib pub data sig"
| "Verifier_Verify lib (X509Verifier cert roots intermediates v trustedTime) data sig =
     X509Verifier_Verify lib cert roots intermediates trustedTime (Verifier_Verify lib v data sig)"
| "Verifier_Verify lib (OtherVerifier name) data sig =
     (case data of Inl err \<Rightarrow> Some err | Inr msg \<Rightarrow> lib_otherVerify lib name msg sig)"

definition X509Verifier_Bytes :: "crypto_lib \<Rightarrow> certificate \<Rightarrow> gerr + bytes" where
  [simp]: "X509Verifier_Bytes lib cert = Inr (lib_pem_encode lib ''CERTIFICATE'' (cert_Raw cert))"

definition RSAVerifier_Bytes :: "crypto_lib \<Rightarrow> bytes \<Rightarrow> gerr + bytes" where
  [simp]: "RSAVerifier_Bytes lib pub = PublicPemBytes lib (RSA_PublicKey pub)"

definition ECDSAVerifier_Bytes :: "crypto_lib \<Rightarrow> bytes \<Rightarrow> gerr + bytes" where
  [simp]: "ECDSAVerifier_Bytes lib pub = PublicPemBytes lib (ECDSA_PublicKey pub)"

definition ED25519Verifier_Bytes :: "crypto_lib \<Rightarrow> bytes \<Rightarrow> gerr + bytes" where
  [simp]: "ED25519Verifier_Bytes lib pub = PublicPemBytes lib (ED25519_PublicKey pub)"

fun Verifier_Bytes :: "crypto_lib \<Rightarrow> verifier \<Rightarrow> gerr + bytes" where
  "Verifier_Bytes lib (RSAVerifier pub hash) = RSAVerifier_Bytes lib pub"
| "Verifier_Bytes lib (ECDSAVerifier pub hash) = ECDSAVerifier_Bytes lib pub"
| "Verifier_Bytes lib (ED25519Verifier pub) = ED25519Verifier_Bytes lib pub"
| "Verifier_Bytes lib (X509Verifier cert roots intermediates v trustedTime) = X509Verifier_Bytes lib cert"
| "Verifier_Bytes lib (OtherVerifier name) = lib_otherBytes lib name"

text \<open>\<open>X509Verifier.BelongsToRoot\<close>, for the fields of the verifier.\<close>

definition BelongsToRoot ::
  "crypto_lib \<Rightarrow> certificate \<Rightarrow> certificate list \<Rightarrow> gtime \<Rightarrow> certificate \<Rightarrow> gerr option" where
  "BelongsToRoot lib cert intermediates trustedTime root =
     lib_certVerify lib cert (certificatesToPool [root]) (certificatesToPool intermediates) trustedTime"

text \<open>The zero \<open>time.Time\<close>, in nanoseconds from the Unix epoch.\<close>

definition zero_time :: gtime where
  "zero_time = -62135596800000000000"

record verifierOptions =
  vopt_roots :: "certificate list"
  vopt_intermediates :: "certificate list"
  vopt_hash :: crypto_hash
  vopt_trustedTime :: gtime

definition cu_VerifyWithRoots :: "certificate list \<Rightarrow> verifierOptions \<Rightarrow> verifierOptions" where
  "cu_VerifyWithRoots roots vo = vo\<lparr>vopt_roots := roots\<rparr>"

definition cu_VerifyWithIntermediates :: "certificate list \<Rightarrow> verifierOptions \<Rightarrow> verifierOptions" where
  "cu_VerifyWithIntermediates intermediates vo = vo\<lparr>vopt_intermediates := intermediates\<rparr>"

definition cu_VerifyWithHash :: "crypto_hash \<Rightarrow> verifierOptions \<Rightarrow> verifierOptions" where
  "cu_VerifyWithHash h vo = vo\<lparr>vopt_hash := h\<rparr>"

definition cu_VerifyWithTrustedTime :: "gtime \<Rightarrow> verifierOptions \<Rightarrow> verifierOptions" where
  "cu_VerifyWithTrustedTime t vo = vo\<lparr>vopt_trustedTime := t\<rparr>"

text \<open>Go's \<open>%T\<close> of a key.\<close>

fun key_type_name :: "parsed_key \<Rightarrow> string" where
  "key_type_name (ParsedPublic (RSA_PublicKey b)) = ''*rsa.PublicKey''"
| "key_type_name (ParsedPublic (ECDSA_PublicKey b)) = ''*ecdsa.PublicKey''"
| "key_type_name (ParsedPublic (ED25519_PublicKey b)) = ''ed25519.PublicKey''"
| "key_type_name (ParsedPublic (Other_PublicKey t b)) = t"
| "key_type_name (ParsedPrivate (RSA_PrivateKey p s)) = ''*rsa.PrivateKey''"
| "key_type_name (ParsedPrivate (ECDSA_PrivateKey p s)) = ''*ecdsa.PrivateKey''"
| "key_type_name (ParsedPrivate (ED25519_PrivateKey p s)) = ''ed25519.PrivateKey''"
| "key_type_name (ParsedPrivate (Other_PrivateKey t s)) = t"
| "key_type_name (ParsedCert c) = ''*x509.Certificate''"

text \<open>The switch of \<open>NewVerifier\<close> on everything but a certificate; \<open>NewX509Verifier\<close> calls
  \<open>NewVerifier\<close> on the public key of a certificate, which is never a certificate itself.\<close>

fun NewKeyVerifier :: "parsed_key \<Rightarrow> crypto_hash \<Rightarrow> gerr + verifier" where
  "NewKeyVerifier (ParsedPublic (RSA_PublicKey key)) hash = Inr (RSAVerifier key hash)"
| "NewKeyVerifier (ParsedPublic (ECDSA_PublicKey key)) hash = Inr (ECDSAVerifier key hash)"
| "NewKeyVerifier (ParsedPublic (ED25519_PublicKey key)) hash = Inr (ED25519Verifier key)"
| "NewKeyVerifier pub hash = Inl (ErrUnsupportedKeyType (key_type_name pub))"

definition NewX509Verifier ::
  "certificate \<Rightarrow> certificate list \<Rightarrow> certificate list \<Rightarrow> gtime \<Rightarrow> gerr + verifier" where
  "NewX509Verifier cert intermediates roots trustedTime =
     (case NewKeyVerifier (ParsedPublic (cert_PublicKey cert)) SHA256 of
        Inl err \<Rightarrow> Inl err
      | Inr v \<Rightarrow> Inr (X509Verifier cert roots intermediates v trustedTime))"

definition NewVerifier ::
  "parsed_key \<Rightarrow> (verifierOptions \<Rightarrow> verifierOptions) list \<Rightarrow> gerr + verifier" where
  "NewVerifier pub opts =
     (let options = fold (\<lambda>opt vo. opt vo) opts
            \<lparr>vopt_roots = [], vopt_intermediates = [], vopt_hash = SHA256,
             vopt_trustedTime = zero_time\<rparr>
      in case pub of
           ParsedCert key \<Rightarrow>
             NewX509Verifier key (vopt_intermediates options) (vopt_roots options)
               (vopt_trustedTime options)
         | _ \<Rightarrow> NewKeyVerifier pub (vopt_hash options))"

definition NewVerifierFromReader ::
  "crypto_lib \<Rightarrow> reader \<Rightarrow> (verifierOptions \<Rightarrow> verifierOptions) list \<Rightarrow> gerr + verifier" where
  "NewVerifierFromReader lib r opts =
     (case TryParseKeyFromReader lib r of
        Inl err \<Rightarrow> Inl err
      | Inr key \<Rightarrow> NewVerifier key opts)"

section \<open>Signers\<close>

definition RSASigner_KeyID :: "crypto_lib \<Rightarrow> bytes \<Rightarrow> crypto_hash \<Rightarrow> gerr + string" where
  [simp]: "RSASigner_KeyID lib pub hash = GeneratePublicKeyID lib (RSA_PublicKey pub) hash"

definition ECDSASigner_KeyID :: "crypto_lib \<Rightarrow> bytes \<Rightarrow> crypto_hash \<Rightarrow> gerr + string" where
  [simp]: "ECDSASigner_KeyID lib pub hash = GeneratePublicKeyID lib (ECDSA_PublicKey pub) hash"

definition ED25519Signer_KeyID :: "crypto_lib \<Rightarrow> bytes \<Rightarrow> gerr + string" where
  [simp]: "ED25519Signer_KeyID lib pub = GeneratePublicKeyID lib (ED25519_PublicKey pub) SHA256"

fun Signer_KeyID :: "crypto_lib \<Rightarrow> signer \<Rightarrow> gerr + string" where
  "Signer_KeyID lib (RSASigner pub priv hash) = RSASigner_KeyID lib pub hash"
| "Signer_KeyID lib (ECDSASigner pub priv hash) = ECDSASigner_KeyID lib pub hash"
| "Signer_KeyID lib (ED25519Signer pub priv) = ED25519Signer_KeyID lib pub"
| "Signer_KeyID lib (X509Signer cert roots intermediates s) = Signer_KeyID lib s"
| "Signer_KeyID lib (OtherSigner name) = lib_otherKeyID lib name"

definition RSASigner_Sign :: "crypto_lib \<Rightarrow> bytes \<Rightarrow> crypto_hash \<Rightarrow> reader \<Rightarrow> gerr + bytes" where
  [simp]: "RSASigner_Sign lib priv hash r =
     (case Digest lib r hash of Inl err \<Rightarrow> Inl err | Inr digest \<Rightarrow> lib_signPSS lib priv hash digest)"

definition ECDSASigner_Sign :: "crypto_lib \<Rightarrow> bytes \<Rightarrow> crypto_hash \<Rightarrow> reader \<Rightarrow> gerr + bytes" where
  [simp]: "ECDSASigner_Sign lib priv hash r =
     (case Digest lib r hash of Inl err \<Rightarrow> Inl err | Inr digest \<Rightarrow> lib_signECDSA lib priv digest)"

definition ED25519Signer_Sign :: "crypto_lib \<Rightarrow> bytes \<Rightarrow> reader \<Rightarrow> gerr + bytes" where
  [simp]: "ED25519Signer_Sign lib priv r =
     (case r of Inl err \<Rightarrow> Inl err | Inr msg \<Rightarrow> Inr (lib_signED25519 lib priv msg))"

fun Signer_Sign :: "crypto_lib \<Rightarrow> signer \<Rightarrow> reader \<Rightarrow> gerr + bytes" where
  "Signer_Sign lib (RSASigner pub priv hash) r = RSASigner_Sign lib priv hash r"
| "Signer_Sign lib (ECDSASigner pub priv hash) r = ECDSASigner_Sign lib priv hash r"
| "Signer_Sign lib (ED25519Signer pub priv) r = ED25519Signer_Sign lib priv r"
| "Signer_Sign lib (X509Signer cert roots intermediates s) r = Signer_Sign lib s r"
| "Signer_Sign lib (OtherSigner name) r =
     (case r of Inl err \<Rightarrow> Inl err | Inr msg \<Rightarrow> lib_otherSign lib name msg)"

definition RSASigner_Verifier :: "bytes \<Rightarrow> crypto_hash \<Rightarrow> gerr + verifier" where
  [simp]: "RSASigner_Verifier pub hash = Inr (RSAVerifier pub hash)"

definition ECDSASigner_Verifier :: "bytes \<Rightarrow> crypto_hash \<Rightarrow> gerr + verifier" where
  [simp]: "ECDSASigner_Verifier pub hash = Inr (ECDSAVerifier pub hash)"

definition ED25519Signer_Verifier :: "bytes \<Rightarrow> gerr + verifier" where
  [simp]: "ED25519Signer_Verifier pub = Inr (ED25519Verifier pub)"

definition X509Signer_Verifier ::
  "certificate \<Rightarrow> certificate list \<Rightarrow> certificate list \<Rightarrow> gerr + verifier \<Rightarrow> gerr + verifier" where
  [simp]: "X509Signer_Verifier cert roots intermediates verifier =
     (case verifier of
        Inl err \<Rightarrow> Inl err
      | Inr v \<Rightarrow> Inr (X509Verifier cert roots intermediates v zero_time))"

fun Signer_Verifier :: "crypto_lib \<Rightarrow> signer \<Rightarrow> gerr + verifier" where
  "Signer_Verifier lib (RSASigner pub priv hash) = RSASigner_Verifier pub hash"
| "Signer_Verifier lib (ECDSASigner pub priv hash) = ECDSASigner_Verifier pub hash"
| "Signer_Verifier lib (ED25519Signer pub priv) = ED25519Signer_Verifier pub"
| "Signer_Verifier lib (X509Signer cert roots intermediates s) =
     X509Signer_Verifier cert roots intermediates (Signer_Verifier lib s)"
| "Signer_Verifier lib (OtherSigner name) = lib_otherVerifier lib name"

record signerOptions =
  sopt_cert :: "certificate option"
  sopt_intermediates :: "certificate list"
  sopt_roots :: "certificate list"
  sopt_hash :: crypto_hash

definition SignWithCertificate :: "certificate option \<Rightarrow> signerOptions \<Rightarrow> signerOptions" where
  "SignWithCertificate cert so = so\<lparr>sopt_cert := cert\<rparr>"

definition SignWithIntermediates :: "certificate list \<Rightarrow> signerOptions \<Rightarrow> signerOptions" where
  "SignWithIntermediates intermediates so = so\<lparr>sopt_intermediates := intermediates\<rparr>"

definition SignWithRoots :: "certificate list \<Rightarrow> signerOptions \<Rightarrow> signerOptions" where
  "SignWithRoots roots so = so\<lparr>sopt_roots := roots\<rparr>"

definition SignWithHash :: "crypto_hash \<Rightarrow> signerOptions \<Rightarrow> signerOptions" where
  "SignWithHash h so = so\<lparr>sopt_hash := h\<rparr>"

definition NewX509Signer ::
  "signer option \<Rightarrow> certificate option \<Rightarrow> certificate list \<Rightarrow> certificate list \<Rightarrow> gerr + signer" where
  "NewX509Signer signer cert intermediates roots =
     (case signer of
        None \<Rightarrow> Inl ErrInvalidSigner
      | Some s \<Rightarrow>
          (case cert of
             None \<Rightarrow> Inl ErrInvalidCertificate
           | Some c \<Rightarrow> Inr (X509Signer c roots intermediates s)))"

fun NewKeySigner :: "parsed_key \<Rightarrow> crypto_hash \<Rightarrow> gerr + signer" where
  "NewKeySigner (ParsedPrivate (RSA_PrivateKey pub key)) hash = Inr (RSASigner pub key hash)"
| "NewKeySigner (ParsedPrivate (ECDSA_PrivateKey pub key)) hash = Inr (ECDSASigner pub key hash)"
| "NewKeySigner (ParsedPrivate (ED25519_PrivateKey pub key)) hash = Inr (ED25519Signer pub key)"
| "NewKeySigner priv hash = Inl (ErrUnsupportedKeyType (key_type_name priv))"

definition NewSigner :: "parsed_key \<Rightarrow> (signerOptions \<Rightarrow> signerOptions) list \<Rightarrow> gerr + signer" where
  "NewSigner priv opts =
     (let options = fold (\<lambda>opt so. opt so) opts
            \<lparr>sopt_cert = None, sopt_intermediates = [], sopt_roots = [], sopt_hash = SHA256\<rparr>
      in case NewKeySigner priv (sopt_hash options) of
           Inl err \<Rightarrow> Inl err
         | Inr signer \<Rightarrow>
             (if sopt_cert options \<noteq> None
              then NewX509Signer (Some signer) (sopt_cert options) (sopt_intermediates options)
                     (sopt_roots options)
              else Inr signer))"

definition NewSignerFromReader ::
  "crypto_lib \<Rightarrow> reader \<Rightarrow> (signerOptions \<Rightarrow> signerOptions) list \<Rightarrow> gerr + signer" where
  "NewSignerFromReader lib r opts =
     (case TryParseKeyFromReader lib r of
        Inl err \<Rightarrow> Inl err
      | Inr key \<Rightarrow> NewSigner key opts)"

section \<open>What a signer promises\<close>

text \<open>
  The primitives are sound for a signer when the verification primitive of its key type accepts
  what the signing primitive makes with the same key pair, and, for a signer with a certificate,
  when that certificate verifies against the signer's own roots and intermediates.
\<close>

fun signer_sound :: "crypto_lib \<Rightarrow> signer \<Rightarrow> bool" where
  "signer_sound lib (RSASigner pub priv hash) \<longleftrightarrow>
     (\<forall>digest sig. lib_signPSS lib priv hash digest = Inr sig \<longrightarrow>
        lib_verifyPSS lib pub hash digest sig = None)"
| "signer_sound lib (ECDSASigner pub priv hash) \<longleftrightarrow>
     (\<forall>digest sig. lib_signECDSA lib priv digest = Inr sig \<longrightarrow> lib_verifyECDSA lib pub digest sig)"
| "signer_sound lib (ED25519Signer pub priv) \<longleftrightarrow>
     (\<forall>msg. lib_verifyED25519 lib pub msg (lib_signED25519 lib priv msg))"
| "signer_sound lib (X509Signer cert roots intermediates s) \<longleftrightarrow>
     lib_certVerify lib cert (certificatesToPool roots) (certificatesToPool intermediates) zero_time = None \<and>
     signer_sound lib s"
| "signer_sound lib (OtherSigner name) \<longleftrightarrow>
     (\<forall>v. lib_otherVerifier lib name = Inr v \<longrightarrow> Verifier_KeyID lib v = lib_otherKeyID lib name \<and>
        (\<forall>msg sig. lib_otherSign lib name msg = Inr sig \<longrightarrow> Verifier_Verify lib v (Inr msg) sig = None))"

locale signature_scheme =
  fixes sign :: "'sk \<Rightarrow> bytes \<Rightarrow> gerr + bytes"
    and verify :: "'vk \<Rightarrow> bytes \<Rightarrow> bytes \<Rightarrow> gerr option"
    and verifier_of :: "'sk \<Rightarrow> gerr + 'vk"
    and sk_id :: "'sk \<Rightarrow> gerr + string"
    and vk_id :: "'vk \<Rightarrow> gerr + string"
    and sound :: "'sk \<Rightarrow> bool"
  assumes sign_verify:
      "sound s \<Longrightarrow> sign s msg = Inr sig \<Longrightarrow> verifier_of s = Inr v \<Longrightarrow> verify v msg sig = None"
    and same_id: "sound s \<Longrightarrow> verifier_of s = Inr v \<Longrightarrow> vk_id v = sk_id s"
begin

text \<open>A rejected message was not signed by the verifier's signer.\<close>

lemma rejected_not_signed:
  assumes "sound s" and "verifier_of s = Inr v" and "verify v msg sig = Some err"
  shows "sign s msg \<noteq> Inr sig"
  using sign_verify [OF assms(1) _ assms(2), of msg sig] assms(3) by auto

text \<open>Among the verifiers of several signers, the one of the signer accepts its signature.\<close>

lemma some_verifier_accepts:
  assumes "sound s" and "s \<in> set ss" and "sign s msg = Inr sig"
    and "mapE verifier_of ss = Inr vs"
  shows "\<exists>v \<in> set vs. verify v msg sig = None \<and> vk_id v = sk_id s"
proof -
  from mapE_Inr_mem [OF assms(4,2)] obtain v where v: "v \<in> set vs" "verifier_of s = Inr v" ..
  with sign_verify [OF assms(1,3) v(2)] same_id [OF assms(1) v(2)] show ?thesis by blast
qed

end

section \<open>Lemmas\<close>

lemma set_certificatesToPool [simp]: "set (certificatesToPool certs) = set certs"
proof -
  have "set (fold (\<lambda>cert pool. if List.member pool cert then pool else pool @ [cert]) certs pool) =
      set pool \<union> set certs" for pool
    by (induction certs arbitrary: pool) auto
  from this [of "[]"] show ?thesis by (simp add: certificatesToPool_def)
qed

lemma certificatesToPool_single [simp]: "certificatesToPool [c] = [c]"
  by (simp add: certificatesToPool_def)

lemma Digest_Inr [simp]: "Digest lib (Inr data) hash = Inr (lib_hash lib hash data)"
  by (simp add: Digest_def)

lemma signer_verifier_accepts:
  assumes "signer_sound lib s" and "Signer_Sign lib s (Inr msg) = Inr sig"
    and "Signer_Verifier lib s = Inr v"
  shows "Verifier_Verify lib v (Inr msg) sig = None"
  using assms
proof (induction s arbitrary: v)
  case (X509Signer cert roots ints s)
  then show ?case by (auto split: sum.splits)
qed auto

lemma signer_verifier_same_id:
  assumes "signer_sound lib s" and "Signer_Verifier lib s = Inr v"
  shows "Verifier_KeyID lib v = Signer_KeyID lib s"
  using assms
proof (induction s arbitrary: v)
  case (X509Signer cert roots ints s)
  then show ?case by (auto split: sum.splits)
qed auto

interpretation cu: signature_scheme
  "\<lambda>(lib, s) msg. Signer_Sign lib s (Inr msg)"
  "\<lambda>(lib, v) msg sig. Verifier_Verify lib v (Inr msg) sig"
  "\<lambda>(lib, s). case Signer_Verifier lib s of Inl e \<Rightarrow> Inl e | Inr v \<Rightarrow> Inr (lib, v)"
  "\<lambda>(lib, s). Signer_KeyID lib s"
  "\<lambda>(lib, v). Verifier_KeyID lib v"
  "\<lambda>(lib, s). signer_sound lib s"
proof unfold_locales
qed (clarsimp split: sum.splits simp: signer_verifier_accepts signer_verifier_same_id)+

text \<open>A key that \<open>NewVerifier\<close> accepts is one of the four kinds it knows.\<close>

lemma NewVerifier_cert:
  "NewVerifier (ParsedCert c) opts = Inr v \<Longrightarrow>
     \<exists>roots ints inner t. v = X509Verifier c roots ints inner t \<and>
       NewKeyVerifier (ParsedPublic (cert_PublicKey c)) SHA256 = Inr inner"
  by (auto simp: NewVerifier_def NewX509Verifier_def Let_def split: sum.splits)

lemma NewX509Verifier_Inr_iff:
  "NewX509Verifier cert ints roots t = Inr v \<longleftrightarrow>
     (\<exists>inner. NewKeyVerifier (ParsedPublic (cert_PublicKey cert)) SHA256 = Inr inner \<and>
        v = X509Verifier cert roots ints inner t)"
  by (auto simp: NewX509Verifier_def split: sum.splits)

section \<open>Properties\<close>

text \<open>C38. What a signer signs, the verifier it hands out accepts, and both report the same key
  identifier; for a signer with a certificate this needs the certificate to chain to the signer's
  own roots.\<close>

theorem signer_verifier_roundtrip:
  assumes "signer_sound lib s" and "Signer_Sign lib s (Inr msg) = Inr sig"
    and "Signer_Verifier lib s = Inr v"
  shows "Verifier_Verify lib v (Inr msg) sig = None \<and> Verifier_KeyID lib v = Signer_KeyID lib s"
  using cu.sign_verify [of "(lib, s)" msg sig "(lib, v)"] cu.same_id [of "(lib, s)" "(lib, v)"] assms
  by simp

theorem signer_verifier_roundtrip_witness:
  "Verifier_Verify sample_lib
     (X509Verifier (sample_cert ''k'') [sample_cert ''r''] [] (ECDSAVerifier ''k'' SHA256) zero_time)
     (Inr ''msg'') ''kmsg'' = None"
  using signer_verifier_roundtrip
    [of sample_lib "X509Signer (sample_cert ''k'') [sample_cert ''r''] [] (ECDSASigner ''k'' ''k'' SHA256)"
        "''msg''" "''kmsg''"
        "X509Verifier (sample_cert ''k'') [sample_cert ''r''] [] (ECDSAVerifier ''k'' SHA256) zero_time"]
  by (simp add: sample_lib_def)

text \<open>A passphrase changes how a block is parsed only when the block is encrypted: on a block
  that is neither a sigstore key nor marked with a legacy encryption header, parsing with a
  passphrase and without one give the same result.\<close>

theorem passphrase_only_for_encrypted:
  assumes "\<not> isSigstorePEMType (pem_Type block)" and "map_of (pem_Headers block) ''DEK-Info'' = None"
  shows "TryParsePEMBlockWithPassword lib (Some block) (Some pw) = TryParsePEMBlock lib (Some block)"
  using assms by (simp add: TryParsePEMBlockWithPassword_def TryParsePEMBlock_def)

theorem passphrase_only_for_encrypted_witness:
  "TryParsePEMBlockWithPassword sample_lib
     (Some \<lparr>pem_Type = ''PUBLIC KEY'', pem_Headers = [], pem_Bytes = ''Rkey''\<rparr>) (Some ''pw'') =
   TryParsePEMBlock sample_lib
     (Some \<lparr>pem_Type = ''PUBLIC KEY'', pem_Headers = [], pem_Bytes = ''Rkey''\<rparr>)"
  by (rule passphrase_only_for_encrypted) (simp_all add: isSigstorePEMType_def)

text \<open>Without a passphrase an encrypted sigstore or cosign key never parses: the result is an
  error for every such block.\<close>

theorem encrypted_key_needs_passphrase:
  assumes "lib_pem_decode lib data = Some block" and "isSigstorePEMType (pem_Type block)"
  shows "\<exists>err. TryParseKeyFromReader lib (Inr data) = Inl err \<and>
    NewSignerFromReader lib (Inr data) sopts = Inl err \<and>
    NewVerifierFromReader lib (Inr data) vopts = Inl err"
  using assms
  by (simp add: TryParseKeyFromReader_def TryParseKeyFromReaderWithPassword_def
      TryParsePEMBlockWithPassword_def NewSignerFromReader_def NewVerifierFromReader_def)

theorem encrypted_key_needs_passphrase_witness:
  "\<exists>err. TryParseKeyFromReader (sample_lib\<lparr>lib_pem_decode := \<lambda>b. Some \<lparr>pem_Type =
       ''ENCRYPTED COSIGN PRIVATE KEY'', pem_Headers = [], pem_Bytes = b\<rparr>\<rparr>) (Inr ''x'') = Inl err"
  using encrypted_key_needs_passphrase
    [of "sample_lib\<lparr>lib_pem_decode := \<lambda>b. Some \<lparr>pem_Type =
       ''ENCRYPTED COSIGN PRIVATE KEY'', pem_Headers = [], pem_Bytes = b\<rparr>\<rparr>" "''x''"
       "\<lparr>pem_Type = ''ENCRYPTED COSIGN PRIVATE KEY'', pem_Headers = [], pem_Bytes = ''x''\<rparr>" "[]" "[]"]
  by (auto simp: isSigstorePEMType_def)

end
