(* ===== verification/Timestamp.thy ===== *)
theory Timestamp
  imports Keys
begin

text \<open>
  Trusted timestamps: \<open>timestamp/tsp.go\<close> and \<open>timestamp/fake.go\<close>. A timestamper turns a signature
  into a token of a timestamp authority; a timestamp verifier checks that a token is about a
  signature and chains to its certificates, and returns the time in it. The protocol messages and
  the HTTP exchange are the fields of \<open>tsa_lib\<close>.
\<close>

record tsa_lib =
  tsa_createRequest :: "reader \<Rightarrow> crypto_hash \<Rightarrow> bool \<Rightarrow> gerr + bytes"
  tsa_newRequest :: "string \<Rightarrow> bytes \<Rightarrow> gerr + bytes"
  tsa_do :: "bytes \<Rightarrow> gerr + (nat \<times> reader)"
  tsa_parseResponse :: "bytes \<Rightarrow> gerr + bytes"

record TSPTimestamper =
  tt_url :: string
  tt_hash :: crypto_hash
  tt_requestCertificate :: bool

definition TimestampWithUrl :: "string \<Rightarrow> TSPTimestamper \<Rightarrow> TSPTimestamper" where
  "TimestampWithUrl url t = t\<lparr>tt_url := url\<rparr>"

definition TimestampWithHash :: "crypto_hash \<Rightarrow> TSPTimestamper \<Rightarrow> TSPTimestamper" where
  "TimestampWithHash h t = t\<lparr>tt_hash := h\<rparr>"

definition TimestampWithRequestCertificate :: "bool \<Rightarrow> TSPTimestamper \<Rightarrow> TSPTimestamper" where
  "TimestampWithRequestCertificate requestCertificate t = t\<lparr>tt_requestCertificate := requestCertificate\<rparr>"

definition NewTimestamper :: "(TSPTimestamper \<Rightarrow> TSPTimestamper) list \<Rightarrow> TSPTimestamper" where
  "NewTimestamper opts =
     fold (\<lambda>opt t. opt t) opts \<lparr>tt_url = [], tt_hash = SHA256, tt_requestCertificate = True\<rparr>"

definition TSP_Timestamp :: "tsa_lib \<Rightarrow> TSPTimestamper \<Rightarrow> reader \<Rightarrow> gerr + bytes" where
  "TSP_Timestamp tsa t r =
     (case tsa_createRequest tsa r (tt_hash t) (tt_requestCertificate t) of
        Inl err \<Rightarrow> Inl err
      | Inr tsq \<Rightarrow>
          (case tsa_newRequest tsa (tt_url t) tsq of
             Inl err \<Rightarrow> Inl err
           | Inr req \<Rightarrow>
               (case tsa_do tsa req of
                  Inl err \<Rightarrow> Inl err
                | Inr (status, body) \<Rightarrow>
                    if \<not> (status = 200 \<or> status = 201 \<or> status = 202)
                    then Inl (Errorf ''request to timestamp authority failed: %v'' [FInt (int status)])
                    else
                      (case body of
                         Inl err \<Rightarrow> Inl err
                       | Inr bodyBytes \<Rightarrow> tsa_parseResponse tsa bodyBytes))))"

definition ts_VerifyWithCerts :: "certificate list \<Rightarrow> ts_verifier \<Rightarrow> ts_verifier" where
  "ts_VerifyWithCerts certs v =
     (case v of TSPVerifier chain hash \<Rightarrow> TSPVerifier (Some (certificatesToPool certs)) hash | _ \<Rightarrow> v)"

definition ts_VerifyWithHash :: "crypto_hash \<Rightarrow> ts_verifier \<Rightarrow> ts_verifier" where
  "ts_VerifyWithHash h v =
     (case v of TSPVerifier chain hash \<Rightarrow> TSPVerifier chain h | _ \<Rightarrow> v)"

definition ts_NewVerifier :: "(ts_verifier \<Rightarrow> ts_verifier) list \<Rightarrow> ts_verifier" where
  "ts_NewVerifier opts = fold (\<lambda>opt v. opt v) opts (TSPVerifier None SHA256)"

definition FakeTimestamp :: "crypto_lib \<Rightarrow> gtime \<Rightarrow> reader \<Rightarrow> gerr + bytes" where
  "FakeTimestamp lib T r = Inr (lib_formatRFC3339 lib T)"

definition TSPVerifier_Verify ::
  "crypto_lib \<Rightarrow> certificate list option \<Rightarrow> crypto_hash \<Rightarrow> reader \<Rightarrow> reader \<Rightarrow> gerr + gtime" where
  [simp]: "TSPVerifier_Verify lib certChain hash tsrData signedData =
     (case tsrData of
        Inl err \<Rightarrow> Inl err
      | Inr tsrBytes \<Rightarrow>
          (case lib_parseTimestamp lib tsrBytes of
             Inl err \<Rightarrow> Inl err
           | Inr (hashedMessage, time) \<Rightarrow>
               (case Digest lib signedData hash of
                  Inl err \<Rightarrow> Inl err
                | Inr hashedData \<Rightarrow>
                    if hashedMessage \<noteq> hashedData
                    then Inl (Errorf ''signed payload does not match timestamped payload'' [])
                    else
                      (case lib_pkcs7Parse lib tsrBytes of
                         Inl err \<Rightarrow> Inl err
                       | Inr p7 \<Rightarrow>
                           (case lib_pkcs7Verify lib p7 certChain of
                              Some err \<Rightarrow> Inl err
                            | None \<Rightarrow> Inr time)))))"

definition FakeTimestamper_Verify :: "crypto_lib \<Rightarrow> gtime \<Rightarrow> reader \<Rightarrow> gerr + gtime" where
  [simp]: "FakeTimestamper_Verify lib T ts =
     (case ts of
        Inl err \<Rightarrow> Inl err
      | Inr b \<Rightarrow>
          if b \<noteq> lib_formatRFC3339 lib T then Inl (Errorf ''mismatched time'' []) else Inr T)"

fun TimestampVerifier_Verify ::
  "crypto_lib \<Rightarrow> ts_verifier \<Rightarrow> reader \<Rightarrow> reader \<Rightarrow> gerr + gtime" where
  "TimestampVerifier_Verify lib (TSPVerifier certChain hash) tsrData signedData =
     TSPVerifier_Verify lib certChain hash tsrData signedData"
| "TimestampVerifier_Verify lib (FakeTimestamper T) ts sig = FakeTimestamper_Verify lib T ts"
| "TimestampVerifier_Verify lib (OtherTSVerifier name) ts sig =
     (case (ts, sig) of
        (Inr t, Inr s) \<Rightarrow> lib_otherTimestampVerify lib name t s
      | (Inl err, _) \<Rightarrow> Inl err
      | (_, Inl err) \<Rightarrow> Inl err)"

section \<open>Lemmas\<close>

lemma NewVerifier_with_certs [simp]:
  "ts_NewVerifier [ts_VerifyWithCerts certs] = TSPVerifier (Some (certificatesToPool certs)) SHA256"
  by (simp add: ts_NewVerifier_def ts_VerifyWithCerts_def)

text \<open>A token that verifies is about the signed data and chains to the verifier's certificates.\<close>

lemma tsp_verify_sound:
  assumes "TimestampVerifier_Verify lib (TSPVerifier chain hash) (Inr tsr) (Inr data) = Inr t"
  shows "\<exists>p7. lib_parseTimestamp lib tsr = Inr (lib_hash lib hash data, t) \<and>
    lib_pkcs7Parse lib tsr = Inr p7 \<and> lib_pkcs7Verify lib p7 chain = None"
  using assms by (auto split: sum.splits if_splits option.splits)

text \<open>A token for other data does not verify when the hash tells the two apart.\<close>

lemma tsp_verify_binds_data:
  assumes "TimestampVerifier_Verify lib (TSPVerifier chain hash) (Inr tsr) (Inr data) = Inr t"
    and "TimestampVerifier_Verify lib (TSPVerifier chain hash) (Inr tsr) (Inr data') = Inr t'"
  shows "lib_hash lib hash data = lib_hash lib hash data' \<and> t = t'"
  using tsp_verify_sound [OF assms(1)] tsp_verify_sound [OF assms(2)] by auto

lemma fake_timestamp_roundtrip:
  "FakeTimestamp lib T sig = Inr ts \<Longrightarrow>
     TimestampVerifier_Verify lib (FakeTimestamper T) (Inr ts) sig = Inr T"
  by (simp add: FakeTimestamp_def)

section \<open>Properties\<close>

text \<open>C39. A timestamp that verifies is bound to the signature it was made for: its token carries
  the digest of that signature and is signed by a certificate of the verifier's pool, and the same
  token verifies another signature only if the two have the same digest.\<close>

theorem timestamp_bound_to_signature:
  assumes "TimestampVerifier_Verify lib (TSPVerifier chain hash) (Inr tsr) (Inr sig) = Inr t"
  shows "(\<exists>p7. lib_parseTimestamp lib tsr = Inr (lib_hash lib hash sig, t) \<and>
      lib_pkcs7Parse lib tsr = Inr p7 \<and> lib_pkcs7Verify lib p7 chain = None) \<and>
    (\<forall>sig' t'. TimestampVerifier_Verify lib (TSPVerifier chain hash) (Inr tsr) (Inr sig') = Inr t' \<longrightarrow>
      lib_hash lib hash sig' = lib_hash lib hash sig \<and> t' = t)"
  using tsp_verify_sound [OF assms] tsp_verify_binds_data [OF assms] by metis

theorem timestamp_bound_to_signature_witness:
  "lib_parseTimestamp sample_lib ''sig'' = Inr (lib_hash sample_lib SHA256 ''sig'', 0)"
proof -
  have "TimestampVerifier_Verify sample_lib (TSPVerifier None SHA256) (Inr ''sig'') (Inr ''sig'') = Inr 0"
    by (simp add: sample_lib_def)
  from timestamp_bound_to_signature [OF this] show ?thesis by blast
qed

end
