(* ===== verification/Dsse.thy ===== *)
theory Dsse
  imports Timestamp
begin

text \<open>
  DSSE envelopes: \<open>dsse/dsse.go\<close>, \<open>sign.go\<close> and \<open>verify.go\<close>.

  An envelope carries a payload, its type and signatures over their pre-authentication encoding.
  The theory models the encoding, signing with several signers and timestampers, and verification
  against verifiers, certificate roots and timestamp authorities. The lemmas show that the encoding
  is injective, that every verifier reported without an error really accepted a signature of the
  envelope, that the number of such verifiers is what is compared with the threshold, and that
  signing and verifying compose.
\<close>

section \<open>Data\<close>

record SignatureTimestamp =
  ts_Type :: string
  ts_Data :: bytes

record Signature =
  sig_KeyID :: string
  sig_Signature :: bytes
  sig_Certificate :: bytes
  sig_Intermediates :: "bytes list"
  sig_Timestamps :: "SignatureTimestamp list"

record Envelope =
  env_Payload :: bytes
  env_PayloadType :: string
  env_Signatures :: "Signature list"

definition empty_envelope :: Envelope where
  "empty_envelope = \<lparr>env_Payload = [], env_PayloadType = [], env_Signatures = []\<rparr>"

definition TimestampRFC3161 :: string where
  "TimestampRFC3161 = ''tsp''"

definition PemTypeCertificate :: string where
  "PemTypeCertificate = ''CERTIFICATE''"

definition preauthEncode :: "string \<Rightarrow> bytes \<Rightarrow> bytes" where
  "preauthEncode bodyType body =
     ''DSSEv1'' @ '' '' @ dec (length bodyType) @ '' '' @ bodyType @ '' '' @
     dec (length body) @ '' '' @ body"

section \<open>Signing\<close>

text \<open>A signer may be nil; a timestamper is the function its interface has.\<close>

record signOptions =
  so_signers :: "signer option list"
  so_timestampers :: "(reader \<Rightarrow> gerr + bytes) list"

definition SignWithSigners :: "signer option list \<Rightarrow> signOptions \<Rightarrow> signOptions" where
  "SignWithSigners signers so = so\<lparr>so_signers := signers\<rparr>"

definition SignWithTimestampers :: "(reader \<Rightarrow> gerr + bytes) list \<Rightarrow> signOptions \<Rightarrow> signOptions" where
  "SignWithTimestampers timestampers so = so\<lparr>so_timestampers := timestampers\<rparr>"

text \<open>The type assertion to \<open>cryptoutil.TrustBundler\<close>: the certificate and intermediates of a signer
  that implements it.\<close>

fun TrustBundler :: "crypto_lib \<Rightarrow> signer \<Rightarrow> (certificate option \<times> certificate list) option" where
  "TrustBundler lib (X509Signer cert roots intermediates s) = Some (Some cert, intermediates)"
| "TrustBundler lib (OtherSigner name) = lib_otherBundle lib name"
| "TrustBundler lib _ = None"

definition timestamp_signature ::
  "(reader \<Rightarrow> gerr + bytes) list \<Rightarrow> bytes \<Rightarrow> gerr + SignatureTimestamp list" where
  "timestamp_signature timestampers sig =
     mapE (\<lambda>timestamper.
       case timestamper (Inr sig) of
         Inl err \<Rightarrow> Inl err
       | Inr ts \<Rightarrow> Inr \<lparr>ts_Type = TimestampRFC3161, ts_Data = ts\<rparr>) timestampers"

text \<open>One iteration of the loop over the signers.\<close>

definition sign_with ::
  "crypto_lib \<Rightarrow> (reader \<Rightarrow> gerr + bytes) list \<Rightarrow> bytes \<Rightarrow> signer \<Rightarrow> gerr + Signature" where
  "sign_with lib timestampers pae signer =
     (case Signer_Sign lib signer (Inr pae) of
        Inl err \<Rightarrow> Inl err
      | Inr sig \<Rightarrow>
          (case Signer_KeyID lib signer of
             Inl err \<Rightarrow> Inl err
           | Inr keyID \<Rightarrow>
               (case timestamp_signature timestampers sig of
                  Inl err \<Rightarrow> Inl err
                | Inr timestamps \<Rightarrow>
                    Inr \<lparr>sig_KeyID = keyID,
                         sig_Signature = sig,
                         sig_Certificate =
                           (case TrustBundler lib signer of
                              Some (Some leaf, _) \<Rightarrow> lib_pem_encode lib PemTypeCertificate (cert_Raw leaf)
                            | _ \<Rightarrow> []),
                         sig_Intermediates =
                           (case TrustBundler lib signer of
                              Some (_, intermediates) \<Rightarrow>
                                map (\<lambda>c. lib_pem_encode lib PemTypeCertificate (cert_Raw c)) intermediates
                            | None \<Rightarrow> []),
                         sig_Timestamps = timestamps\<rparr>)))"

primrec sign_loop ::
  "crypto_lib \<Rightarrow> (reader \<Rightarrow> gerr + bytes) list \<Rightarrow> bytes \<Rightarrow> signer option list \<Rightarrow> Envelope \<Rightarrow>
     Envelope \<times> gerr option" where
  "sign_loop lib timestampers pae [] env = (env, None)"
| "sign_loop lib timestampers pae (s # signers) env =
     (case s of
        None \<Rightarrow> sign_loop lib timestampers pae signers env
      | Some signer \<Rightarrow>
          (case sign_with lib timestampers pae signer of
             Inl err \<Rightarrow> (env, Some err)
           | Inr dsseSig \<Rightarrow>
               sign_loop lib timestampers pae signers
                 (env\<lparr>env_Signatures := env_Signatures env @ [dsseSig]\<rparr>)))"

definition dsse_Sign ::
  "crypto_lib \<Rightarrow> string \<Rightarrow> reader \<Rightarrow> (signOptions \<Rightarrow> signOptions) list \<Rightarrow> Envelope \<times> gerr option" where
  "dsse_Sign lib bodyType body opts =
     (let so = fold (\<lambda>opt so. opt so) opts \<lparr>so_signers = [], so_timestampers = []\<rparr>
      in if so_signers so = []
         then (empty_envelope,
               Some (Errorf ''must have at least one signer, have %v'' [FInt (int (length (so_signers so)))]))
         else
           (case body of
              Inl err \<Rightarrow> (empty_envelope, Some err)
            | Inr bodyBytes \<Rightarrow>
                sign_loop lib (so_timestampers so) (preauthEncode bodyType bodyBytes) (so_signers so)
                  \<lparr>env_Payload = bodyBytes, env_PayloadType = bodyType, env_Signatures = []\<rparr>))"

section \<open>Verification\<close>

record verificationOptions =
  vo_roots :: "certificate list"
  vo_intermediates :: "certificate list"
  vo_verifiers :: "verifier option list"
  vo_threshold :: int
  vo_timestampVerifiers :: "ts_verifier list"

definition VerifyWithRoots :: "certificate list \<Rightarrow> verificationOptions \<Rightarrow> verificationOptions" where
  "VerifyWithRoots roots vo = vo\<lparr>vo_roots := roots\<rparr>"

definition VerifyWithIntermediates :: "certificate list \<Rightarrow> verificationOptions \<Rightarrow> verificationOptions" where
  "VerifyWithIntermediates intermediates vo = vo\<lparr>vo_intermediates := intermediates\<rparr>"

definition VerifyWithVerifiers :: "verifier option list \<Rightarrow> verificationOptions \<Rightarrow> verificationOptions" where
  "VerifyWithVerifiers verifiers vo = vo\<lparr>vo_verifiers := verifiers\<rparr>"

definition VerifyWithThreshold :: "int \<Rightarrow> verificationOptions \<Rightarrow> verificationOptions" where
  "VerifyWithThreshold threshold vo = vo\<lparr>vo_threshold := threshold\<rparr>"

definition VerifyWithTimestampVerifiers :: "ts_verifier list \<Rightarrow> verificationOptions \<Rightarrow> verificationOptions" where
  "VerifyWithTimestampVerifiers verifiers vo = vo\<lparr>vo_timestampVerifiers := verifiers\<rparr>"

definition verifyX509Time ::
  "crypto_lib \<Rightarrow> certificate \<Rightarrow> certificate list \<Rightarrow> certificate list \<Rightarrow> bytes \<Rightarrow> bytes \<Rightarrow> gtime \<Rightarrow>
     verifier option \<times> gerr option" where
  "verifyX509Time lib cert sigIntermediates roots pae sig trustedTime =
     (case NewX509Verifier cert sigIntermediates roots trustedTime of
        Inl err \<Rightarrow> (None, Some err)
      | Inr verifier \<Rightarrow> (Some verifier, Verifier_Verify lib verifier (Inr pae) sig))"

text \<open>The two nested loops over timestamp verifiers and timestamps, and what they collect.\<close>

record timestamp_results =
  tr_passedVerifier :: "verifier option"
  tr_failed :: "verifier option list"
  tr_passedTimestampVerifiers :: "ts_verifier list"
  tr_failedTimestampVerifiers :: "ts_verifier list"

definition check_timestamp ::
  "crypto_lib \<Rightarrow> verificationOptions \<Rightarrow> bytes \<Rightarrow> certificate \<Rightarrow> certificate list \<Rightarrow> Signature \<Rightarrow>
     ts_verifier \<Rightarrow> SignatureTimestamp \<Rightarrow> timestamp_results \<Rightarrow> timestamp_results" where
  "check_timestamp lib options pae cert sigIntermediates sig timestampVerifier sigTimestamp st =
     (case TimestampVerifier_Verify lib timestampVerifier (Inr (ts_Data sigTimestamp))
             (Inr (sig_Signature sig)) of
        Inl err \<Rightarrow> st
      | Inr timestamp \<Rightarrow>
          (case verifyX509Time lib cert sigIntermediates (vo_roots options) pae (sig_Signature sig)
                  timestamp of
             (verifier, None) \<Rightarrow>
               st\<lparr>tr_passedVerifier := verifier,
                  tr_passedTimestampVerifiers := tr_passedTimestampVerifiers st @ [timestampVerifier]\<rparr>
           | (verifier, Some err) \<Rightarrow>
               st\<lparr>tr_failed := tr_failed st @ [verifier],
                  tr_failedTimestampVerifiers := tr_failedTimestampVerifiers st @ [timestampVerifier]\<rparr>))"

definition check_timestamps ::
  "crypto_lib \<Rightarrow> verificationOptions \<Rightarrow> bytes \<Rightarrow> certificate \<Rightarrow> certificate list \<Rightarrow> Signature \<Rightarrow>
     timestamp_results" where
  "check_timestamps lib options pae cert sigIntermediates sig =
     fold (\<lambda>timestampVerifier.
       fold (check_timestamp lib options pae cert sigIntermediates sig timestampVerifier)
         (sig_Timestamps sig))
       (vo_timestampVerifiers options)
       \<lparr>tr_passedVerifier = None, tr_failed = [], tr_passedTimestampVerifiers = [],
        tr_failedTimestampVerifiers = []\<rparr>"

text \<open>
  The part of the loop body for a signature with a certificate: the checked verifiers it adds and by
  how much it raises \<open>verified\<close>. \<open>None\<close> is the \<open>continue\<close> on a certificate that does not parse, which
  also skips the verifiers given as options.
\<close>

definition check_certificate ::
  "crypto_lib \<Rightarrow> gtime \<Rightarrow> verificationOptions \<Rightarrow> bytes \<Rightarrow> Signature \<Rightarrow>
     (checked_verifier list \<times> int) option" where
  "check_certificate lib now options pae sig =
     (if sig_Certificate sig = [] then Some ([], 0)
      else
        (case TryParseCertificate lib (sig_Certificate sig) of
           Inl err \<Rightarrow> None
         | Inr cert \<Rightarrow>
             (let sigIntermediates =
                    List.map_filter
                      (\<lambda>b. case TryParseCertificate lib b of Inl err \<Rightarrow> None | Inr c \<Rightarrow> Some c)
                      (sig_Intermediates sig)
                    @ vo_intermediates options
              in if vo_timestampVerifiers options = []
                 then
                   (case verifyX509Time lib cert sigIntermediates (vo_roots options) pae
                           (sig_Signature sig) now of
                      (verifier, None) \<Rightarrow> Some ([CheckedVerifier verifier [] None], 1)
                    | (verifier, Some err) \<Rightarrow> Some ([CheckedVerifier verifier [] (Some err)], 0))
                 else
                   (let st = check_timestamps lib options pae cert sigIntermediates sig
                    in if tr_passedTimestampVerifiers st \<noteq> []
                       then Some ([CheckedVerifier (tr_passedVerifier st)
                                     (tr_passedTimestampVerifiers st) None], 1)
                       else Some (map (\<lambda>v. CheckedVerifier v (tr_failedTimestampVerifiers st)
                                     (Some (Errorf ''no valid timestamps found'' [])))
                                   (tr_failed st), 0)))))"

primrec check_verifiers ::
  "crypto_lib \<Rightarrow> bytes \<Rightarrow> Signature \<Rightarrow> verifier option list \<Rightarrow> checked_verifier list \<times> int" where
  "check_verifiers lib pae sig [] = ([], 0)"
| "check_verifiers lib pae sig (v # verifiers) =
     (let (rest, n) = check_verifiers lib pae sig verifiers
      in case v of
           None \<Rightarrow> (rest, n)
         | Some verifier \<Rightarrow>
             (case Verifier_Verify lib verifier (Inr pae) (sig_Signature sig) of
                None \<Rightarrow> (CheckedVerifier (Some verifier) [] None # rest, n + 1)
              | Some err \<Rightarrow> (CheckedVerifier (Some verifier) [] (Some err) # rest, n)))"

definition check_signature ::
  "crypto_lib \<Rightarrow> gtime \<Rightarrow> verificationOptions \<Rightarrow> bytes \<Rightarrow> Signature \<Rightarrow> checked_verifier list \<times> int" where
  "check_signature lib now options pae sig =
     (case check_certificate lib now options pae sig of
        None \<Rightarrow> ([], 0)
      | Some (cs, n) \<Rightarrow>
          (let (cs', n') = check_verifiers lib pae sig (vo_verifiers options)
           in (cs @ cs', n + n')))"

text \<open>The loop over the signatures; \<open>now i\<close> is the clock when the code looks at it for signature \<open>i\<close>.\<close>

primrec check_signatures ::
  "crypto_lib \<Rightarrow> (nat \<Rightarrow> gtime) \<Rightarrow> verificationOptions \<Rightarrow> bytes \<Rightarrow> nat \<Rightarrow> Signature list \<Rightarrow>
     checked_verifier list \<times> int" where
  "check_signatures lib now options pae i [] = ([], 0)"
| "check_signatures lib now options pae i (sig # sigs) =
     (let (cs, n) = check_signature lib (now i) options pae sig;
          (cs', n') = check_signatures lib now options pae (Suc i) sigs
      in (cs @ cs', n + n'))"

definition default_options :: verificationOptions where
  "default_options =
     \<lparr>vo_roots = [], vo_intermediates = [], vo_verifiers = [], vo_threshold = 1,
      vo_timestampVerifiers = []\<rparr>"

definition Envelope_Verify ::
  "crypto_lib \<Rightarrow> (nat \<Rightarrow> gtime) \<Rightarrow> Envelope \<Rightarrow> (verificationOptions \<Rightarrow> verificationOptions) list \<Rightarrow>
     checked_verifier list \<times> gerr option" where
  "Envelope_Verify lib now e opts =
     (let options = fold (\<lambda>opt vo. opt vo) opts default_options
      in if vo_threshold options \<le> 0
         then ([], Some (ErrInvalidThreshold (vo_threshold options)))
         else
           let pae = preauthEncode (env_PayloadType e) (env_Payload e)
           in if env_Signatures e = [] then ([], Some ErrNoSignatures)
              else
                let (checkedVerifiers, verified) =
                      check_signatures lib now options pae 0 (env_Signatures e)
                in if verified = 0 then ([], Some (ErrNoMatchingSigs checkedVerifiers))
                   else if verified < vo_threshold options
                   then (checkedVerifiers, Some (ErrThresholdNotMet (vo_threshold options) verified))
                   else (checkedVerifiers, None))"

section \<open>What verification means\<close>

text \<open>
  A verifier accepts a signature of an envelope under the given options: it verifies the signature
  over the pre-authentication encoding, and it is either one of the verifiers given, or made from the
  certificate in the signature with the roots given, at a time that is the clock's when no timestamp
  authority is configured and otherwise one that a configured authority vouches for.
\<close>

definition trusted_at ::
  "crypto_lib \<Rightarrow> (nat \<Rightarrow> gtime) \<Rightarrow> verificationOptions \<Rightarrow> Signature \<Rightarrow> gtime \<Rightarrow> bool" where
  "trusted_at lib now options sig t \<longleftrightarrow>
     (if vo_timestampVerifiers options = [] then \<exists>i. t = now i
      else \<exists>tv \<in> set (vo_timestampVerifiers options). \<exists>ts \<in> set (sig_Timestamps sig).
        TimestampVerifier_Verify lib tv (Inr (ts_Data ts)) (Inr (sig_Signature sig)) = Inr t)"

definition accepts ::
  "crypto_lib \<Rightarrow> (nat \<Rightarrow> gtime) \<Rightarrow> verificationOptions \<Rightarrow> bytes \<Rightarrow> Signature \<Rightarrow> verifier \<Rightarrow> bool" where
  "accepts lib now options pae sig v \<longleftrightarrow>
     Verifier_Verify lib v (Inr pae) (sig_Signature sig) = None \<and>
     (Some v \<in> set (vo_verifiers options) \<or>
      (\<exists>cert ints inner t. v = X509Verifier cert (vo_roots options) ints inner t \<and>
         TryParseCertificate lib (sig_Certificate sig) = Inr cert \<and>
         trusted_at lib now options sig t))"

definition passed_verifiers :: "checked_verifier list \<Rightarrow> checked_verifier list" where
  "passed_verifiers cs = filter (\<lambda>c. cv_Error c = None) cs"

section \<open>Lemmas: the pre-authentication encoding\<close>

lemma length_prefixed_inj:
  assumes "dec (length xs) @ '' '' @ xs @ ys = dec (length xs') @ '' '' @ xs' @ ys'"
  shows "xs = xs' \<and> ys = ys'"
proof -
  from assms have "dec (length xs) @ CHR '' '' # (xs @ ys) = dec (length xs') @ CHR '' '' # (xs' @ ys')"
    by simp
  from append_sep_inj [OF this dec_no_space dec_no_space]
  have len: "length xs = length xs'" and eq: "xs @ ys = xs' @ ys'" by (auto dest: dec_inj)
  then show ?thesis by simp
qed

lemma preauthEncode_inj:
  assumes "preauthEncode t b = preauthEncode t' b'"
  shows "t = t' \<and> b = b'"
proof -
  from assms have "dec (length t) @ '' '' @ t @ ('' '' @ dec (length b) @ '' '' @ b) =
      dec (length t') @ '' '' @ t' @ ('' '' @ dec (length b') @ '' '' @ b')"
    by (simp add: preauthEncode_def)
  from length_prefixed_inj [OF this] have "t = t'"
    and "dec (length b) @ '' '' @ b @ [] = dec (length b') @ '' '' @ b' @ []" by simp_all
  with length_prefixed_inj [of b "[]" b' "[]"] show ?thesis by blast
qed

section \<open>Lemmas: verification\<close>

lemma passed_verifiers_simps [simp]:
  "passed_verifiers [] = []"
  "passed_verifiers (c # cs) = (if cv_Error c = None then c # passed_verifiers cs else passed_verifiers cs)"
  "passed_verifiers (cs @ ds) = passed_verifiers cs @ passed_verifiers ds"
  by (simp_all add: passed_verifiers_def)

lemma check_verifiers_count:
  "snd (check_verifiers lib pae sig vs) = int (length (passed_verifiers (fst (check_verifiers lib pae sig vs))))"
  by (induction vs) (auto simp: Let_def case_prod_unfold split: option.splits)

lemma check_verifiers_passed:
  assumes "c \<in> set (passed_verifiers (fst (check_verifiers lib pae sig vs)))"
  shows "\<exists>v. cv_Verifier c = Some v \<and> Some v \<in> set vs \<and>
    Verifier_Verify lib v (Inr pae) (sig_Signature sig) = None"
  using assms
  by (induction vs) (auto simp: Let_def case_prod_unfold split: option.splits if_splits)

lemma check_verifiers_complete:
  assumes "Some v \<in> set vs" and "Verifier_Verify lib v (Inr pae) (sig_Signature sig) = None"
  shows "CheckedVerifier (Some v) [] None \<in> set (passed_verifiers (fst (check_verifiers lib pae sig vs)))"
  using assms
  by (induction vs) (auto simp: Let_def case_prod_unfold split: option.splits)

lemma verifyX509Time_passed:
  assumes "verifyX509Time lib cert ints roots pae sg t = (v, None)"
  shows "\<exists>inner. v = Some (X509Verifier cert roots ints inner t) \<and>
    Verifier_Verify lib (X509Verifier cert roots ints inner t) (Inr pae) sg = None"
  using assms
  by (auto simp: verifyX509Time_def NewX509Verifier_def split: sum.splits)

text \<open>What the loops over timestamps keep: once a timestamp verifier passed, the recorded verifier
  accepted the signature at a time that a configured authority vouches for.\<close>

definition timestamps_inv ::
  "crypto_lib \<Rightarrow> verificationOptions \<Rightarrow> bytes \<Rightarrow> certificate \<Rightarrow> certificate list \<Rightarrow> Signature \<Rightarrow>
     timestamp_results \<Rightarrow> bool" where
  "timestamps_inv lib options pae cert ints sig st \<longleftrightarrow>
     (tr_passedTimestampVerifiers st \<noteq> [] \<longrightarrow>
       (\<exists>inner t. tr_passedVerifier st = Some (X509Verifier cert (vo_roots options) ints inner t) \<and>
          Verifier_Verify lib (X509Verifier cert (vo_roots options) ints inner t) (Inr pae)
            (sig_Signature sig) = None \<and>
          (\<exists>tv \<in> set (vo_timestampVerifiers options). \<exists>ts \<in> set (sig_Timestamps sig).
             TimestampVerifier_Verify lib tv (Inr (ts_Data ts)) (Inr (sig_Signature sig)) = Inr t)))"

lemma check_timestamp_inv:
  assumes "timestamps_inv lib options pae cert ints sig st"
    and "tv \<in> set (vo_timestampVerifiers options)" and "ts \<in> set (sig_Timestamps sig)"
  shows "timestamps_inv lib options pae cert ints sig
    (check_timestamp lib options pae cert ints sig tv ts st)"
proof (cases "TimestampVerifier_Verify lib tv (Inr (ts_Data ts)) (Inr (sig_Signature sig))")
  case (Inl err)
  then show ?thesis using assms(1) by (simp add: check_timestamp_def)
next
  case (Inr t)
  obtain v err where res: "verifyX509Time lib cert ints (vo_roots options) pae (sig_Signature sig) t = (v, err)"
    by (cases "verifyX509Time lib cert ints (vo_roots options) pae (sig_Signature sig) t")
  show ?thesis
  proof (cases err)
    case None
    from verifyX509Time_passed [OF res [unfolded None]] Inr assms(2,3) show ?thesis
      unfolding timestamps_inv_def check_timestamp_def by (simp add: res None) blast
  next
    case (Some e)
    with Inr res assms(1) show ?thesis
      by (simp add: timestamps_inv_def check_timestamp_def)
  qed
qed

lemma check_timestamps_of_inv:
  assumes "timestamps_inv lib options pae cert ints sig st"
    and "tv \<in> set (vo_timestampVerifiers options)" and "set tss \<subseteq> set (sig_Timestamps sig)"
  shows "timestamps_inv lib options pae cert ints sig
    (fold (check_timestamp lib options pae cert ints sig tv) tss st)"
  using assms by (induction tss arbitrary: st) (simp_all add: check_timestamp_inv)

lemma check_timestamps_over_inv:
  assumes "timestamps_inv lib options pae cert ints sig st"
    and "set tvs \<subseteq> set (vo_timestampVerifiers options)"
  shows "timestamps_inv lib options pae cert ints sig
    (fold (\<lambda>tv. fold (check_timestamp lib options pae cert ints sig tv) (sig_Timestamps sig)) tvs st)"
  using assms by (induction tvs arbitrary: st) (simp_all add: check_timestamps_of_inv)

lemma check_timestamps_inv:
  "timestamps_inv lib options pae cert ints sig (check_timestamps lib options pae cert ints sig)"
  unfolding check_timestamps_def
  by (rule check_timestamps_over_inv) (simp_all add: timestamps_inv_def)

lemma check_certificate_count:
  assumes "check_certificate lib t options pae sig = Some (cs, n)"
  shows "n = int (length (passed_verifiers cs))"
proof -
  have "passed_verifiers (map (\<lambda>v. CheckedVerifier v tvs (Some e)) vs) = []" for tvs e vs
    by (induction vs) auto
  with assms show ?thesis
    by (auto simp: check_certificate_def Let_def split: if_splits sum.splits prod.splits option.splits)
qed

lemma check_certificate_passed:
  assumes "check_certificate lib (now i) options pae sig = Some (cs, n)"
    and "c \<in> set (passed_verifiers cs)"
  shows "\<exists>v. cv_Verifier c = Some v \<and> accepts lib now options pae sig v"
proof -
  have failed: "passed_verifiers (map (\<lambda>v. CheckedVerifier v tvs (Some e)) vs) = []" for tvs e vs
    by (induction vs) auto
  from assms obtain cert where nonempty: "sig_Certificate sig \<noteq> []"
    and cert: "TryParseCertificate lib (sig_Certificate sig) = Inr cert"
    by (auto simp: check_certificate_def split: if_splits sum.splits)
  define ints where "ints = List.map_filter
      (\<lambda>b. case TryParseCertificate lib b of Inl err \<Rightarrow> None | Inr c \<Rightarrow> Some c)
      (sig_Intermediates sig) @ vo_intermediates options"
  show ?thesis
  proof (cases "vo_timestampVerifiers options = []")
    case True
    from assms nonempty cert True failed obtain v where
      c: "c = CheckedVerifier v [] None" and
      v: "verifyX509Time lib cert ints (vo_roots options) pae (sig_Signature sig) (now i) = (v, None)"
      by (auto simp: check_certificate_def Let_def ints_def split: prod.splits option.splits)
    from verifyX509Time_passed [OF v] c cert True show ?thesis
      by (auto simp: accepts_def trusted_at_def)
  next
    case False
    let ?st = "check_timestamps lib options pae cert ints sig"
    from assms nonempty cert False failed have
      c: "c = CheckedVerifier (tr_passedVerifier ?st) (tr_passedTimestampVerifiers ?st) None" and
      passed: "tr_passedTimestampVerifiers ?st \<noteq> []"
      by (auto simp: check_certificate_def Let_def ints_def split: if_splits)
    from check_timestamps_inv [of lib options pae cert ints sig] passed c cert False show ?thesis
      unfolding timestamps_inv_def accepts_def trusted_at_def by auto
  qed
qed

lemma check_signature_count:
  "snd (check_signature lib t options pae sig) =
     int (length (passed_verifiers (fst (check_signature lib t options pae sig))))"
  using check_verifiers_count [of lib pae sig "vo_verifiers options"]
  by (auto simp: check_signature_def Let_def case_prod_unfold
      dest: check_certificate_count split: option.splits)

lemma check_signature_passed:
  assumes "c \<in> set (passed_verifiers (fst (check_signature lib (now i) options pae sig)))"
  shows "\<exists>v. cv_Verifier c = Some v \<and> accepts lib now options pae sig v"
proof (cases "check_certificate lib (now i) options pae sig")
  case None
  with assms show ?thesis by (simp add: check_signature_def)
next
  case (Some r)
  obtain cs n where r: "r = (cs, n)" by (cases r)
  from assms Some r consider "c \<in> set (passed_verifiers cs)"
    | "c \<in> set (passed_verifiers (fst (check_verifiers lib pae sig (vo_verifiers options))))"
    by (auto simp: check_signature_def Let_def case_prod_unfold)
  then show ?thesis
  proof cases
    case 1
    with Some r check_certificate_passed show ?thesis by blast
  next
    case 2
    then show ?thesis by (auto dest!: check_verifiers_passed simp: accepts_def)
  qed
qed

lemma check_signatures_count:
  "snd (check_signatures lib now options pae i sigs) =
     int (length (passed_verifiers (fst (check_signatures lib now options pae i sigs))))"
  by (induction sigs arbitrary: i)
    (auto simp: Let_def case_prod_unfold check_signature_count)

lemma check_signatures_passed:
  assumes "c \<in> set (passed_verifiers (fst (check_signatures lib now options pae i sigs)))"
  shows "\<exists>v. cv_Verifier c = Some v \<and> (\<exists>sig \<in> set sigs. accepts lib now options pae sig v)"
  using assms
proof (induction sigs arbitrary: i)
  case Nil
  then show ?case by simp
next
  case (Cons sg sigs)
  then consider "c \<in> set (passed_verifiers (fst (check_signature lib (now i) options pae sg)))"
    | "c \<in> set (passed_verifiers (fst (check_signatures lib now options pae (Suc i) sigs)))"
    by (auto simp: Let_def case_prod_unfold)
  then show ?case
  proof cases
    case 1
    from check_signature_passed [where now = now and i = i, OF this] show ?thesis by auto
  next
    case 2
    from Cons.IH [OF this] show ?thesis by auto
  qed
qed

text \<open>No accepting verifier is missed, unless the signature's certificate does not parse.\<close>

lemma check_signatures_complete:
  assumes "sig \<in> set sigs" and "Some v \<in> set (vo_verifiers options)"
    and "Verifier_Verify lib v (Inr pae) (sig_Signature sig) = None"
    and "sig_Certificate sig = [] \<or> (\<exists>cert. TryParseCertificate lib (sig_Certificate sig) = Inr cert)"
  shows "CheckedVerifier (Some v) [] None \<in>
    set (passed_verifiers (fst (check_signatures lib now options pae i sigs)))"
  using assms(1)
proof (induction sigs arbitrary: i)
  case Nil
  then show ?case by simp
next
  case (Cons sg sigs)
  have "CheckedVerifier (Some v) [] None \<in>
      set (passed_verifiers (fst (check_signature lib (now i) options pae sig)))"
  proof (cases "check_certificate lib (now i) options pae sig")
    case None
    with assms(4) show ?thesis
      by (auto simp: check_certificate_def Let_def split: if_splits prod.splits option.splits)
  next
    case (Some r)
    then show ?thesis
      using check_verifiers_complete [OF assms(2,3)]
      by (cases r) (auto simp: check_signature_def Let_def case_prod_unfold)
  qed
  with Cons show ?case by (auto simp: Let_def case_prod_unfold)
qed

lemma Envelope_Verify_ok_iff:
  "Envelope_Verify lib now e opts = (cs, None) \<longleftrightarrow>
     (let options = fold (\<lambda>opt vo. opt vo) opts default_options;
          pae = preauthEncode (env_PayloadType e) (env_Payload e)
      in 0 < vo_threshold options \<and> env_Signatures e \<noteq> [] \<and>
         cs = fst (check_signatures lib now options pae 0 (env_Signatures e)) \<and>
         vo_threshold options \<le> int (length (passed_verifiers cs)))"
  using check_signatures_count [of lib now _ _ 0 "env_Signatures e"]
  by (auto simp: Envelope_Verify_def Let_def case_prod_unfold split: if_splits)

section \<open>Lemmas: signing\<close>

lemma sign_loop_ok:
  assumes "sign_loop lib tss pae signers env = (env', None)"
  shows "env_Payload env' = env_Payload env \<and> env_PayloadType env' = env_PayloadType env \<and>
    set (env_Signatures env) \<subseteq> set (env_Signatures env') \<and>
    (\<forall>s. Some s \<in> set signers \<longrightarrow> (\<exists>sig \<in> set (env_Signatures env'). sign_with lib tss pae s = Inr sig))"
  using assms
proof (induction signers arbitrary: env)
  case Nil
  then show ?case by simp
next
  case (Cons s signers)
  show ?case
  proof (cases s)
    case None
    with Cons show ?thesis by simp
  next
    case (Some signer)
    with Cons.prems obtain sig where sig: "sign_with lib tss pae signer = Inr sig"
      and rest: "sign_loop lib tss pae signers (env\<lparr>env_Signatures := env_Signatures env @ [sig]\<rparr>) = (env', None)"
      by (auto split: sum.splits)
    from Cons.IH [OF rest] sig Some show ?thesis by auto
  qed
qed

lemma sign_with_signature:
  "sign_with lib tss pae s = Inr sig \<Longrightarrow>
     Signer_Sign lib s (Inr pae) = Inr (sig_Signature sig) \<and> Signer_KeyID lib s = Inr (sig_KeyID sig) \<and>
     (TrustBundler lib s = None \<longrightarrow> sig_Certificate sig = [])"
  by (auto simp: sign_with_def split: sum.splits)

lemma dsse_Sign_ok:
  assumes "dsse_Sign lib t (Inr body) opts = (env, None)"
  shows "env_Payload env = body \<and> env_PayloadType env = t \<and>
    (\<forall>s. Some s \<in> set (so_signers (fold (\<lambda>opt so. opt so) opts \<lparr>so_signers = [], so_timestampers = []\<rparr>)) \<longrightarrow>
       (\<exists>sig \<in> set (env_Signatures env). \<exists>tss. sign_with lib tss (preauthEncode t body) s = Inr sig))"
proof -
  let ?so = "fold (\<lambda>opt so. opt so) opts \<lparr>so_signers = [], so_timestampers = []\<rparr>"
  from assms have "sign_loop lib (so_timestampers ?so) (preauthEncode t body) (so_signers ?so)
      \<lparr>env_Payload = body, env_PayloadType = t, env_Signatures = []\<rparr> = (env, None)"
    by (auto simp: dsse_Sign_def Let_def split: if_splits)
  from sign_loop_ok [OF this] show ?thesis by fastforce
qed

lemma dsse_roundtrip:
  assumes "dsse_Sign lib t (Inr body) [SignWithSigners signers, SignWithTimestampers tss] = (env, None)"
    and "Some s \<in> set signers" and "signer_sound lib s" and "Signer_Verifier lib s = Inr v"
    and "TrustBundler lib s = None" and "Some v \<in> set verifiers"
  shows "env_Payload env = body \<and> env_PayloadType env = t \<and>
    (\<exists>cs. Envelope_Verify lib now env [VerifyWithVerifiers verifiers] = (cs, None) \<and>
       CheckedVerifier (Some v) [] None \<in> set cs)"
proof -
  note env = dsse_Sign_ok [OF assms(1)]
  from env assms(2) obtain sig tss' where sig: "sig \<in> set (env_Signatures env)"
    and made: "sign_with lib tss' (preauthEncode t body) s = Inr sig"
    by (auto simp: SignWithSigners_def SignWithTimestampers_def)
  note made = sign_with_signature [OF made]
  from signer_verifier_accepts [OF assms(3) conjunct1 [OF made] assms(4)]
  have acc: "Verifier_Verify lib v (Inr (preauthEncode t body)) (sig_Signature sig) = None" .
  let ?o = "default_options\<lparr>vo_verifiers := verifiers\<rparr>"
  let ?cs = "fst (check_signatures lib now ?o (preauthEncode t body) 0 (env_Signatures env))"
  have mem: "CheckedVerifier (Some v) [] None \<in> set (passed_verifiers ?cs)"
    using check_signatures_complete [of sig "env_Signatures env" v ?o lib "preauthEncode t body" now 0]
      sig acc assms(5,6) made by simp
  then have "0 < length (passed_verifiers ?cs)" by (metis length_pos_if_in_set)
  then have "1 \<le> int (length (passed_verifiers ?cs))" by linarith
  then have "vo_threshold ?o \<le> int (length (passed_verifiers ?cs))" and "0 < vo_threshold ?o"
    unfolding default_options_def by simp_all
  moreover from sig have "env_Signatures env \<noteq> []" by auto
  ultimately have "Envelope_Verify lib now env [VerifyWithVerifiers verifiers] = (?cs, None)"
    using env by (simp add: Envelope_Verify_ok_iff Let_def VerifyWithVerifiers_def)
  moreover from mem have "CheckedVerifier (Some v) [] None \<in> set ?cs"
    by (simp add: passed_verifiers_def)
  ultimately show ?thesis using env by blast
qed

section \<open>Properties\<close>

text \<open>C26. The pre-authentication encoding is injective: two payloads with their types have the same
  encoding only when both the types and the payloads are the same, so a signature over the encoding
  signs exactly one type and payload.\<close>

theorem preauthEncode_injective:
  "preauthEncode bodyType body = preauthEncode bodyType' body' \<longleftrightarrow> bodyType = bodyType' \<and> body = body'"
  using preauthEncode_inj by blast

text \<open>C6. Soundness of envelope verification: when it succeeds, the threshold is positive and at least
  that many checked verifiers carry no error, and each of these accepted a signature of the envelope
  over its payload type and payload, being a configured verifier or one made from the signature's
  certificate with the configured roots at a trusted time.\<close>

theorem Envelope_Verify_sound:
  assumes "Envelope_Verify lib now e opts = (cs, None)"
    and "options = fold (\<lambda>opt vo. opt vo) opts default_options"
  shows "0 < vo_threshold options \<and> vo_threshold options \<le> int (length (passed_verifiers cs)) \<and>
    (\<forall>c \<in> set (passed_verifiers cs). \<exists>v. cv_Verifier c = Some v \<and>
       (\<exists>sig \<in> set (env_Signatures e).
          accepts lib now options (preauthEncode (env_PayloadType e) (env_Payload e)) sig v))"
  using assms check_signatures_passed by (auto simp: Envelope_Verify_ok_iff Let_def)

definition sample_signature :: Signature where
  "sample_signature =
     \<lparr>sig_KeyID = ''k'', sig_Signature = ''k'' @ preauthEncode ''t'' ''b'', sig_Certificate = [],
      sig_Intermediates = [], sig_Timestamps = []\<rparr>"

definition sample_envelope :: Envelope where
  "sample_envelope = \<lparr>env_Payload = ''b'', env_PayloadType = ''t'', env_Signatures = [sample_signature]\<rparr>"

lemma sample_envelope_verifies:
  "Envelope_Verify sample_lib (\<lambda>_. 0) sample_envelope [VerifyWithVerifiers [Some (ECDSAVerifier ''k'' SHA256)]] =
     ([CheckedVerifier (Some (ECDSAVerifier ''k'' SHA256)) [] None], None)"
  by (simp add: Envelope_Verify_def sample_envelope_def sample_signature_def VerifyWithVerifiers_def
      default_options_def check_signature_def check_certificate_def sample_lib_def Let_def)

theorem Envelope_Verify_sound_witness:
  "\<exists>v. v = ECDSAVerifier ''k'' SHA256 \<and>
     Verifier_Verify sample_lib v (Inr (preauthEncode ''t'' ''b'')) (sig_Signature sample_signature) = None"
  using Envelope_Verify_sound [OF sample_envelope_verifies refl]
  by (auto simp: passed_verifiers_def sample_envelope_def accepts_def)

text \<open>C25. Signing and verifying compose: an envelope that \<open>Sign\<close> made keeps the payload and its type,
  and verifies against any set of verifiers that holds the verifier of one of its signers, when that
  signer's primitives are sound and it embeds no certificate.\<close>

theorem sign_then_verify:
  assumes "dsse_Sign lib t (Inr body) [SignWithSigners signers, SignWithTimestampers tss] = (env, None)"
    and "Some s \<in> set signers" and "signer_sound lib s" and "Signer_Verifier lib s = Inr v"
    and "TrustBundler lib s = None" and "Some v \<in> set verifiers"
  shows "env_Payload env = body \<and> env_PayloadType env = t \<and>
    (\<exists>cs. Envelope_Verify lib now env [VerifyWithVerifiers verifiers] = (cs, None) \<and>
       CheckedVerifier (Some v) [] None \<in> set cs)"
  using dsse_roundtrip [OF assms] .

theorem sign_then_verify_witness:
  "\<exists>cs. Envelope_Verify sample_lib (\<lambda>_. 0)
     (fst (dsse_Sign sample_lib ''t'' (Inr ''b'')
        [SignWithSigners [Some (ECDSASigner ''k'' ''k'' SHA256)], SignWithTimestampers []]))
     [VerifyWithVerifiers [Some (ECDSAVerifier ''k'' SHA256)]] = (cs, None)"
proof -
  have "dsse_Sign sample_lib ''t'' (Inr ''b'')
      [SignWithSigners [Some (ECDSASigner ''k'' ''k'' SHA256)], SignWithTimestampers []] =
    (fst (dsse_Sign sample_lib ''t'' (Inr ''b'')
      [SignWithSigners [Some (ECDSASigner ''k'' ''k'' SHA256)], SignWithTimestampers []]), None)"
    by (simp add: dsse_Sign_def SignWithSigners_def SignWithTimestampers_def sign_with_def
        timestamp_signature_def sample_lib_def GeneratePublicKeyID_def PublicPemBytes_def DigestBytes_def)
  from sign_then_verify [OF this, of "ECDSASigner ''k'' ''k'' SHA256" "ECDSAVerifier ''k'' SHA256"
      "[Some (ECDSAVerifier ''k'' SHA256)]" "\<lambda>_. 0"]
  show ?thesis by (auto simp: sample_lib_def)
qed

text \<open>The threshold counts accepted pairs of a signature and a verifier, not distinct verifiers:
  listing one signature twice meets a threshold of two with a single verifier.\<close>

theorem duplicate_signature_meets_threshold:
  assumes "sig_Certificate sig = []"
    and "Verifier_Verify lib v (Inr (preauthEncode (env_PayloadType e) (env_Payload e))) (sig_Signature sig) = None"
    and "env_Signatures e = [sig, sig]"
  shows "Envelope_Verify lib now e [VerifyWithVerifiers [Some v], VerifyWithThreshold 2] =
    ([CheckedVerifier (Some v) [] None, CheckedVerifier (Some v) [] None], None)"
  using assms
  by (simp add: Envelope_Verify_def VerifyWithVerifiers_def VerifyWithThreshold_def default_options_def
      check_signature_def check_certificate_def Let_def)

theorem duplicate_signature_meets_threshold_witness:
  "snd (Envelope_Verify sample_lib (\<lambda>_. 0)
     (sample_envelope\<lparr>env_Signatures := [sample_signature, sample_signature]\<rparr>)
     [VerifyWithVerifiers [Some (ECDSAVerifier ''k'' SHA256)], VerifyWithThreshold 2]) = None"
  using duplicate_signature_meets_threshold
    [of sample_signature sample_lib "ECDSAVerifier ''k'' SHA256"
      "sample_envelope\<lparr>env_Signatures := [sample_signature, sample_signature]\<rparr>" "\<lambda>_. 0"]
  by (simp add: sample_envelope_def sample_signature_def sample_lib_def)

end
