(* ===== verification/Archivista.thy ===== *)
theory Archivista
  imports Dsse
begin

text \<open>
  The Archivista client: package \<open>archivista\<close>.

  The client checks its configuration and calls the Archivista API, a third-party package, which is
  the record \<open>archivista_api\<close>. The headers of a client are nil (\<open>None\<close>) unless set; a request carries
  them only then.
\<close>

type_synonym http_header = "(string, string list) gomap"

record Client =
  cl_url :: string
  cl_headers :: "http_header option"

record SearchGitoidVariables =
  sg_SubjectDigests :: "string list"
  sg_CollectionName :: string
  sg_Attestations :: "string list"
  sg_ExcludeGitoids :: "string list"

text \<open>The API: the edges of a GraphQL response, a downloaded envelope, and the gitoid of a stored one. The
  request options are the list of headers given with \<open>api.WithHeaders\<close>.\<close>

record archivista_api =
  api_query :: "string \<Rightarrow> SearchGitoidVariables \<Rightarrow> http_header list \<Rightarrow> gerr + string list"
  api_Download :: "string \<Rightarrow> string \<Rightarrow> http_header list \<Rightarrow> gerr + Envelope"
  api_Store :: "string \<Rightarrow> Envelope \<Rightarrow> http_header list \<Rightarrow> gerr + string"

definition WithHeaders :: "http_header option \<Rightarrow> Client \<Rightarrow> Client" where
  "WithHeaders h c = (if h \<noteq> None then c\<lparr>cl_headers := h\<rparr> else c)"

text \<open>A nil option is skipped.\<close>

definition archivista_New :: "string \<Rightarrow> (Client \<Rightarrow> Client) option list \<Rightarrow> Client" where
  "archivista_New url opts =
     fold (\<lambda>opt c. case opt of None \<Rightarrow> c | Some f \<Rightarrow> f c) opts \<lparr>cl_url = url, cl_headers = None\<rparr>"

definition archivistaRequestOpts :: "Client option \<Rightarrow> http_header list" where
  "archivistaRequestOpts c =
     (case c of
        None \<Rightarrow> []
      | Some cl \<Rightarrow> (case cl_headers cl of None \<Rightarrow> [] | Some h \<Rightarrow> [h]))"

definition Client_validate :: "Client option \<Rightarrow> gerr option" where
  "Client_validate c =
     (case c of
        None \<Rightarrow> Some ErrClientNotConfigured
      | Some cl \<Rightarrow> if cl_url cl = [] then Some ErrURLNotConfigured else None)"

definition client_url :: "Client option \<Rightarrow> string" where
  "client_url c = (case c of None \<Rightarrow> [] | Some cl \<Rightarrow> cl_url cl)"

definition Client_Download :: "archivista_api \<Rightarrow> Client option \<Rightarrow> string \<Rightarrow> gerr + Envelope" where
  "Client_Download api c gitoid =
     (case Client_validate c of
        Some err \<Rightarrow> Inl err
      | None \<Rightarrow> api_Download api (client_url c) gitoid (archivistaRequestOpts c))"

definition Client_SearchGitoids ::
  "archivista_api \<Rightarrow> Client option \<Rightarrow> SearchGitoidVariables \<Rightarrow> gerr + string list" where
  "Client_SearchGitoids api c vars =
     (case Client_validate c of
        Some err \<Rightarrow> Inl err
      | None \<Rightarrow> api_query api (client_url c) vars (archivistaRequestOpts c))"

definition Client_Store :: "archivista_api \<Rightarrow> Client option \<Rightarrow> Envelope \<Rightarrow> gerr + string" where
  "Client_Store api c env =
     (case Client_validate c of
        Some err \<Rightarrow> Inl err
      | None \<Rightarrow> api_Store api (client_url c) env (archivistaRequestOpts c))"

section \<open>Lemmas\<close>

text \<open>A client that is nil or has no URL never reaches the network.\<close>

lemma unconfigured_client:
  assumes "client_url c = []"
  shows "\<exists>e. Client_Download api c gitoid = Inl e \<and> Client_SearchGitoids api c vars = Inl e \<and>
    Client_Store api c env = Inl e"
  using assms
  by (auto simp: client_url_def Client_Download_def Client_SearchGitoids_def Client_Store_def
      Client_validate_def split: option.splits)

lemma Client_SearchGitoids_ok:
  "Client_SearchGitoids api c vars = Inr gs \<longleftrightarrow>
     client_url c \<noteq> [] \<and> api_query api (client_url c) vars (archivistaRequestOpts c) = Inr gs"
  by (auto simp: Client_SearchGitoids_def Client_validate_def client_url_def split: option.splits if_splits)

end
