(* ===== verification/Intoto.thy ===== *)
theory Intoto
  imports Digest_Set
begin

text \<open>
  In-toto statements and the verification summary: \<open>intoto/statement.go\<close> and
  \<open>slsa/verificationsummary.go\<close>.
\<close>

definition StatementType :: string where
  "StatementType = ''https://in-toto.io/Statement/v0.1''"

definition PayloadType :: string where
  "PayloadType = ''application/vnd.in-toto+json''"

record Subject =
  subj_Name :: string
  subj_Digest :: "(string, string) gomap"

record Statement =
  st_Type :: string
  st_Subject :: "Subject list"
  st_PredicateType :: string
  st_Predicate :: bytes

definition DigestSetToSubject :: "string \<Rightarrow> digest_set \<Rightarrow> Subject \<times> gerr option" where
  "DigestSetToSubject name ds =
     (case ToNameMap ds of
        (_, Some err) \<Rightarrow> (\<lparr>subj_Name = name, subj_Digest = []\<rparr>, Some err)
      | (digestsByName, None) \<Rightarrow> (\<lparr>subj_Name = name, subj_Digest = digestsByName\<rparr>, None))"

primrec statement_loop :: "(string, digest_set) gomap \<Rightarrow> Statement \<Rightarrow> Statement \<times> gerr option" where
  "statement_loop [] statement = (statement, None)"
| "statement_loop (entry # subjects) statement =
     (case DigestSetToSubject (fst entry) (snd entry) of
        (_, Some err) \<Rightarrow> (statement, Some err)
      | (subj, None) \<Rightarrow>
          statement_loop subjects (statement\<lparr>st_Subject := st_Subject statement @ [subj]\<rparr>))"

definition NewStatement ::
  "string \<Rightarrow> bytes \<Rightarrow> (string, digest_set) gomap \<Rightarrow> Statement \<times> gerr option" where
  "NewStatement predicateType predicate subjects =
     statement_loop subjects
       \<lparr>st_Type = StatementType, st_Subject = [], st_PredicateType = predicateType,
        st_Predicate = predicate\<rparr>"

section \<open>The verification summary\<close>

definition VerificationSummaryPredicate :: string where
  "VerificationSummaryPredicate = ''https://slsa.dev/verification_summary/v1''"

definition PassedVerificationResult :: string where
  "PassedVerificationResult = ''PASSED''"

definition FailedVerificationResult :: string where
  "FailedVerificationResult = ''FAILED''"

record slsa_Verifier =
  sv_ID :: string

record ResourceDescriptor =
  rd_URI :: string
  rd_Digest :: digest_set

record VerificationSummary =
  vs_Verifier :: slsa_Verifier
  vs_TimeVerified :: gtime
  vs_Policy :: ResourceDescriptor
  vs_InputAttestations :: "ResourceDescriptor list"
  vs_VerificationResult :: string

section \<open>Lemmas\<close>

text \<open>The statement has one subject for every entry of the map, each with the same digests.\<close>

lemma statement_loop_ok:
  assumes "statement_loop subjects s = (s', None)"
  shows "st_Type s' = st_Type s \<and> st_PredicateType s' = st_PredicateType s \<and>
    st_Predicate s' = st_Predicate s \<and>
    (\<exists>new. st_Subject s' = st_Subject s @ new \<and>
       list_all2 (\<lambda>(name, ds) subj. DigestSetToSubject name ds = (subj, None)) subjects new)"
  using assms
proof (induction subjects arbitrary: s)
  case Nil
  then show ?case by simp
next
  case (Cons entry subjects)
  then obtain subj where subj: "DigestSetToSubject (fst entry) (snd entry) = (subj, None)"
    and rest: "statement_loop subjects (s\<lparr>st_Subject := st_Subject s @ [subj]\<rparr>) = (s', None)"
    by (auto split: prod.splits option.splits)
  from Cons.IH [OF rest] subj show ?case by (auto simp: case_prod_unfold)
qed

lemma NewStatement_ok:
  assumes "NewStatement t p subjects = (s, None)"
  shows "st_Type s = StatementType \<and> st_PredicateType s = t \<and> st_Predicate s = p \<and>
    list_all2 (\<lambda>(name, ds) subj. DigestSetToSubject name ds = (subj, None)) subjects (st_Subject s)"
  using statement_loop_ok [OF assms [unfolded NewStatement_def]] by auto

lemma DigestSetToSubject_ok:
  "DigestSetToSubject name ds = (subj, None) \<longleftrightarrow>
     subj_Name subj = name \<and> ToNameMap ds = (subj_Digest subj, None)"
  by (cases subj) (auto simp: DigestSetToSubject_def split: prod.splits option.splits)

section \<open>Properties\<close>

text \<open>A statement made from a map of subjects keeps the predicate and its type, and has exactly
  the subjects of the map: a subject of the statement carries a name of the map, with the digests of
  that name's digest set under their names.\<close>

theorem NewStatement_subjects:
  assumes "NewStatement predicateType predicate subjects = (s, None)"
  shows "st_PredicateType s = predicateType \<and> st_Predicate s = predicate \<and>
    map subj_Name (st_Subject s) = map fst subjects \<and>
    map subj_Digest (st_Subject s) = map (\<lambda>e. fst (ToNameMap (snd e))) subjects"
proof -
  have "map subj_Name new = map fst subjects \<and> map subj_Digest new = map (\<lambda>e. fst (ToNameMap (snd e))) subjects"
    if "list_all2 (\<lambda>(name, ds) subj. DigestSetToSubject name ds = (subj, None)) subjects new" for new
    using that by (induction rule: list_all2_induct) (auto simp: DigestSetToSubject_ok)
  with NewStatement_ok [OF assms] show ?thesis by blast
qed

theorem NewStatement_subjects_witness:
  "\<exists>s. NewStatement ''t'' ''p'' [(''a'', [(plain_digest SHA256, ''d'')])] = (s, None) \<and>
     map subj_Name (st_Subject s) = [''a'']"
proof -
  have "NewStatement ''t'' ''p'' [(''a'', [(plain_digest SHA256, ''d'')])] =
    (\<lparr>st_Type = StatementType, st_Subject = [\<lparr>subj_Name = ''a'', subj_Digest = [(''sha256'', ''d'')]\<rparr>],
      st_PredicateType = ''t'', st_Predicate = ''p''\<rparr>, None)"
    by (simp add: NewStatement_def DigestSetToSubject_def ToNameMap_def hashNames_def plain_digest_def)
  from NewStatement_subjects [OF this] this show ?thesis by simp
qed

end
