(* ===== verification/Registry.thy ===== *)
theory Registry
  imports Crypto_Types
begin

text \<open>
  The registry of named entities: \<open>registry/registry.go\<close> and \<open>registry/option.go\<close>.

  A registry maps names to entries; an entry has a factory and configuration options, each with a
  default value and a setter. The interface \<open>Option\<close> allows six types of values. The lemmas give
  what a lookup finds after registrations, and which setters \<open>NewEntity\<close> applies in which order.
\<close>

section \<open>Configuration options\<close>

record ('t, 'o) ConfigOption =
  co_name :: string
  co_prefix :: string
  co_description :: string
  co_defaultVal :: 'o
  co_setter :: "'t \<Rightarrow> 'o \<Rightarrow> 't \<times> gerr option"

definition ConfigOption_Name :: "('t, 'o) ConfigOption \<Rightarrow> string" where
  "ConfigOption_Name co =
     (if length (co_prefix co) = 0 then co_name co else co_prefix co @ ''-'' @ co_name co)"

definition SetPrefix :: "string \<Rightarrow> ('t, 'o) ConfigOption \<Rightarrow> ('t, 'o) ConfigOption" where
  "SetPrefix pfx co = co\<lparr>co_prefix := pfx\<rparr>"

text \<open>The implementations of \<open>Configurer\<close>, one for each type of value that \<open>Option\<close> allows; a
  duration is its number of nanoseconds, a nil \<open>*string\<close> is \<open>None\<close>. \<open>OtherConfigurer\<close> is an
  implementation from outside the package.\<close>

datatype 't configurer =
    IntOption "('t, int) ConfigOption"
  | StringOption "('t, string) ConfigOption"
  | StringSliceOption "('t, string list) ConfigOption"
  | BoolOption "('t, bool) ConfigOption"
  | DurationOption "('t, int) ConfigOption"
  | StringPtrOption "('t, string option) ConfigOption"
  | OtherConfigurer string string

definition new_option ::
  "string \<Rightarrow> string \<Rightarrow> 'o \<Rightarrow> ('t \<Rightarrow> 'o \<Rightarrow> 't \<times> gerr option) \<Rightarrow> ('t, 'o) ConfigOption" where
  "new_option name description defaultVal setter =
     \<lparr>co_name = name, co_prefix = [], co_description = description, co_defaultVal = defaultVal,
      co_setter = setter\<rparr>"

definition IntConfigOption :: "string \<Rightarrow> string \<Rightarrow> int \<Rightarrow> ('t \<Rightarrow> int \<Rightarrow> 't \<times> gerr option) \<Rightarrow> 't configurer" where
  "IntConfigOption name description defaultVal setter =
     IntOption (new_option name description defaultVal setter)"

definition StringConfigOption ::
  "string \<Rightarrow> string \<Rightarrow> string \<Rightarrow> ('t \<Rightarrow> string \<Rightarrow> 't \<times> gerr option) \<Rightarrow> 't configurer" where
  "StringConfigOption name description defaultVal setter =
     StringOption (new_option name description defaultVal setter)"

definition StringSliceConfigOption ::
  "string \<Rightarrow> string \<Rightarrow> string list \<Rightarrow> ('t \<Rightarrow> string list \<Rightarrow> 't \<times> gerr option) \<Rightarrow> 't configurer" where
  "StringSliceConfigOption name description defaultVal setter =
     StringSliceOption (new_option name description defaultVal setter)"

definition BoolConfigOption :: "string \<Rightarrow> string \<Rightarrow> bool \<Rightarrow> ('t \<Rightarrow> bool \<Rightarrow> 't \<times> gerr option) \<Rightarrow> 't configurer" where
  "BoolConfigOption name description defaultVal setter =
     BoolOption (new_option name description defaultVal setter)"

definition DurationConfigOption ::
  "string \<Rightarrow> string \<Rightarrow> int \<Rightarrow> ('t \<Rightarrow> int \<Rightarrow> 't \<times> gerr option) \<Rightarrow> 't configurer" where
  "DurationConfigOption name description defaultVal setter =
     DurationOption (new_option name description defaultVal setter)"

definition StringPtrConfigOption ::
  "string \<Rightarrow> string \<Rightarrow> string option \<Rightarrow> ('t \<Rightarrow> string option \<Rightarrow> 't \<times> gerr option) \<Rightarrow> 't configurer" where
  "StringPtrConfigOption name description defaultVal setter =
     StringPtrOption (new_option name description defaultVal setter)"

fun Configurer_Name :: "'t configurer \<Rightarrow> string" where
  "Configurer_Name (IntOption co) = ConfigOption_Name co"
| "Configurer_Name (StringOption co) = ConfigOption_Name co"
| "Configurer_Name (StringSliceOption co) = ConfigOption_Name co"
| "Configurer_Name (BoolOption co) = ConfigOption_Name co"
| "Configurer_Name (DurationOption co) = ConfigOption_Name co"
| "Configurer_Name (StringPtrOption co) = ConfigOption_Name co"
| "Configurer_Name (OtherConfigurer name description) = name"

section \<open>The registry\<close>

record 't Entry =
  re_Factory :: "unit \<Rightarrow> 't"
  re_Name :: string
  re_Options :: "'t configurer list"

record 't Registry =
  entriesByName :: "(string, 't Entry) gomap"

definition registry_New :: "'t Registry" where
  "registry_New = \<lparr>entriesByName = []\<rparr>"

definition Register ::
  "'t Registry \<Rightarrow> string \<Rightarrow> (unit \<Rightarrow> 't) \<Rightarrow> 't configurer list \<Rightarrow> 't Registry \<times> 't Entry" where
  "Register r name factoryFunc opts =
     (let entry = \<lparr>re_Factory = factoryFunc, re_Name = name, re_Options = opts\<rparr>
      in (r\<lparr>entriesByName := AList.update name entry (entriesByName r)\<rparr>, entry))"

definition Registry_Entry :: "'t Registry \<Rightarrow> string \<Rightarrow> 't Entry option" where
  "Registry_Entry r name = map_of (entriesByName r) name"

definition Registry_Options :: "'t Registry \<Rightarrow> string \<Rightarrow> 't configurer list option" where
  "Registry_Options r name = map_option re_Options (map_of (entriesByName r) name)"

definition AllEntries :: "'t Registry \<Rightarrow> 't Entry list" where
  "AllEntries r = map snd (entriesByName r)"

text \<open>The type switch of \<open>SetDefaultVals\<close>; a configurer that no case names leaves the entity alone.\<close>

fun apply_default :: "'t configurer \<Rightarrow> 't \<Rightarrow> 't \<times> gerr option" where
  "apply_default (IntOption co) entity = co_setter co entity (co_defaultVal co)"
| "apply_default (StringOption co) entity = co_setter co entity (co_defaultVal co)"
| "apply_default (StringSliceOption co) entity = co_setter co entity (co_defaultVal co)"
| "apply_default (BoolOption co) entity = co_setter co entity (co_defaultVal co)"
| "apply_default (DurationOption co) entity = co_setter co entity (co_defaultVal co)"
| "apply_default _ entity = (entity, None)"

primrec SetDefaultVals :: "'t \<Rightarrow> 't configurer list \<Rightarrow> 't \<times> gerr option" where
  "SetDefaultVals entity [] = (entity, None)"
| "SetDefaultVals entity (opt # opts) =
     (case apply_default opt entity of
        (entity', Some err) \<Rightarrow> (entity', Some err)
      | (entity', None) \<Rightarrow> SetDefaultVals entity' opts)"

primrec SetOptions :: "'t \<Rightarrow> ('t \<Rightarrow> 't \<times> gerr option) list \<Rightarrow> 't \<times> gerr option" where
  "SetOptions entity [] = (entity, None)"
| "SetOptions entity (setter # optSetters) =
     (case setter entity of
        (result, Some err) \<Rightarrow> (result, Some err)
      | (result, None) \<Rightarrow> SetOptions result optSetters)"

text \<open>\<open>NewEntity\<close>; \<open>zero\<close> is the zero value of the entity's type, which an unknown name returns.\<close>

definition NewEntity ::
  "'t \<Rightarrow> 't Registry \<Rightarrow> string \<Rightarrow> ('t \<Rightarrow> 't \<times> gerr option) list \<Rightarrow> 't \<times> gerr option" where
  "NewEntity zero r name optSetters =
     (case Registry_Entry r name of
        None \<Rightarrow> (zero, Some (Errorf ''could not find entry with name %v'' [FStr name]))
      | Some entry \<Rightarrow>
          (case SetDefaultVals (re_Factory entry ()) (re_Options entry) of
             (result, Some err) \<Rightarrow> (result, Some err)
           | (result, None) \<Rightarrow> SetOptions result optSetters))"

section \<open>The interface of a table of entries\<close>

text \<open>What a client relies on: a lookup after a write finds the entry written last.\<close>

locale entry_table =
  fixes insert :: "'m \<Rightarrow> string \<Rightarrow> 'e \<Rightarrow> 'm"
    and find :: "'m \<Rightarrow> string \<Rightarrow> 'e option"
  assumes find_insert: "find (insert m n e) k = (if k = n then Some e else find m k)"
begin

definition insert_all :: "(string \<times> 'e) list \<Rightarrow> 'm \<Rightarrow> 'm" where
  "insert_all es m = fold (\<lambda>(n, e) m. insert m n e) es m"

lemma find_insert_all:
  "find (insert_all es m) k = (case map_of (rev es) k of Some e \<Rightarrow> Some e | None \<Rightarrow> find m k)"
proof (induction es arbitrary: m)
  case Nil
  then show ?case by (simp add: insert_all_def)
next
  case (Cons ne es)
  obtain n e where "ne = (n, e)" by (cases ne)
  with Cons show ?case
    by (auto simp: insert_all_def find_insert map_add_def split: option.splits)
qed

lemma find_same_insert_all: "find (insert_all (map (\<lambda>n. (n, e)) ns) m) k = (if k \<in> set ns then Some e else find m k)"
proof -
  have "map_of (rev (map (\<lambda>n. (n, e)) ns)) k = (if k \<in> set ns then Some e else None)"
    by (induction ns) (auto simp: map_add_def)
  then show ?thesis by (simp add: find_insert_all)
qed

end

definition registry_insert :: "'t Registry \<Rightarrow> string \<Rightarrow> (unit \<Rightarrow> 't) \<times> 't configurer list \<Rightarrow> 't Registry" where
  "registry_insert r name e = fst (Register r name (fst e) (snd e))"

definition registry_find :: "'t Registry \<Rightarrow> string \<Rightarrow> ((unit \<Rightarrow> 't) \<times> 't configurer list) option" where
  "registry_find r name = map_option (\<lambda>e. (re_Factory e, re_Options e)) (Registry_Entry r name)"

interpretation reg: entry_table registry_insert registry_find
  by unfold_locales
    (auto simp: registry_insert_def registry_find_def Register_def Registry_Entry_def Let_def update_conv)

section \<open>Lemmas\<close>

lemma Registry_Entry_New [simp]: "Registry_Entry registry_New name = None"
  by (simp add: Registry_Entry_def registry_New_def)

lemma Registry_Entry_Register:
  "Registry_Entry (fst (Register r name f opts)) k =
     (if k = name then Some (snd (Register r name f opts)) else Registry_Entry r k)"
  by (auto simp: Register_def Registry_Entry_def Let_def update_conv)

lemma SetDefaultVals_append:
  "SetDefaultVals entity (xs @ ys) =
     (case SetDefaultVals entity xs of
        (e, Some err) \<Rightarrow> (e, Some err)
      | (e, None) \<Rightarrow> SetDefaultVals e ys)"
  by (induction xs arbitrary: entity) (auto split: prod.splits option.splits)

lemma SetOptions_append:
  "SetOptions entity (xs @ ys) =
     (case SetOptions entity xs of (e, Some err) \<Rightarrow> (e, Some err) | (e, None) \<Rightarrow> SetOptions e ys)"
  by (induction xs arbitrary: entity) (auto split: prod.splits option.splits)

text \<open>Defaults are setters like any other: both loops are one.\<close>

lemma SetDefaultVals_SetOptions: "SetDefaultVals entity opts = SetOptions entity (map apply_default opts)"
  by (induction opts arbitrary: entity) (auto split: prod.splits option.splits)

lemma NewEntity_known:
  assumes "Registry_Entry r name = Some entry"
  shows "NewEntity zero r name setters =
    SetOptions (re_Factory entry ()) (map apply_default (re_Options entry) @ setters)"
  using assms by (simp add: NewEntity_def SetDefaultVals_SetOptions SetOptions_append)

section \<open>Properties\<close>

text \<open>Creating an entity by name after a sequence of registrations applies, to what the factory
  registered last under that name makes, first the defaults of its options in their order and then
  the caller's setters, stopping at the first error.\<close>

theorem NewEntity_last_registration:
  assumes "map_of (rev regs) name = Some (factory, opts)"
  shows "NewEntity zero (reg.insert_all regs r) name setters =
    SetOptions (factory ()) (map apply_default opts @ setters)"
proof -
  from assms have "registry_find (reg.insert_all regs r) name = Some (factory, opts)"
    by (simp add: reg.find_insert_all)
  then obtain entry where "Registry_Entry (reg.insert_all regs r) name = Some entry"
    and "re_Factory entry = factory" and "re_Options entry = opts"
    by (auto simp: registry_find_def)
  then show ?thesis by (simp add: NewEntity_known)
qed

theorem NewEntity_last_registration_witness:
  "NewEntity 0
     (reg.insert_all
       [(''n'', \<lambda>_. 1, []),
        (''n'', \<lambda>_. 2, [IntConfigOption ''o'' ''d'' 5 (\<lambda>e v. (e + v, None))])] registry_New)
     ''n'' [\<lambda>e. (e * 10, None)] = (70 :: int, None)"
  by (subst NewEntity_last_registration [of _ _ "\<lambda>_. 2"
        "[IntConfigOption ''o'' ''d'' 5 (\<lambda>e v. (e + v, None))]"])
    (simp_all add: IntConfigOption_def new_option_def)

text \<open>The default value of an option whose value is a \<open>*string\<close> is never applied: the type switch
  of \<open>SetDefaultVals\<close> has no case for it, so the option may as well be absent.\<close>

theorem string_pointer_default_ignored:
  "SetDefaultVals entity (opts @ StringPtrConfigOption name description d setter # opts') =
     SetDefaultVals entity (opts @ opts')"
  by (simp add: SetDefaultVals_append StringPtrConfigOption_def split: prod.splits option.splits)

end
