(* ===== verification/Execute_Hooks.thy ===== *)
theory Execute_Hooks
  imports Crypto_Types
begin

text \<open>
  Execute hooks: \<open>attestation/execute_hooks.go\<close>.

  Attestors declare hooks before the execute stage starts, register a function for each during it,
  and signal readiness by closing a channel; command-run waits for the declared hooks and runs those
  of a stage. Every operation holds the mutex, so an execution is a sequence of operations, which the
  step relation \<open>hook_step\<close> describes. A channel that is only ever closed is a boolean; the ready
  channel of a hook is known by the hook's position in the list of registered hooks.
\<close>

section \<open>State\<close>

type_synonym ExecuteHookStage = int

definition StagePreExec :: ExecuteHookStage where "StagePreExec = 0"
definition StagePreExit :: ExecuteHookStage where "StagePreExit = 1"

definition Stage_String :: "ExecuteHookStage \<Rightarrow> string" where
  "Stage_String s = (if s = StagePreExec then ''PreExec'' else if s = StagePreExit then ''PreExit'' else ''Unknown'')"

record ExecuteHookDeclaration =
  ehd_Attestor :: string
  ehd_Stage :: ExecuteHookStage

record registeredHook =
  rh_attestor :: string
  rh_stage :: ExecuteHookStage
  rh_fn :: "int \<Rightarrow> gerr option"
  rh_ready :: nat

text \<open>A nil map or channel is \<open>None\<close>; \<open>allFulfilled\<close> is \<open>Some True\<close> once the channel is closed.\<close>

record ExecuteHooks =
  declarationToFulfilled :: "(ExecuteHookDeclaration, bool) gomap option"
  eh_hooks :: "registeredHook list"
  allFulfilled :: "bool option"
  closedOnce :: bool

definition no_hooks :: ExecuteHooks where
  "no_hooks = \<lparr>declarationToFulfilled = None, eh_hooks = [], allFulfilled = None, closedOnce = False\<rparr>"

text \<open>Ranging over or indexing a nil map sees the empty map.\<close>

definition declarations :: "ExecuteHooks \<Rightarrow> (ExecuteHookDeclaration, bool) gomap" where
  "declarations h = (case declarationToFulfilled h of None \<Rightarrow> [] | Some m \<Rightarrow> m)"

definition decl :: "string \<Rightarrow> ExecuteHookStage \<Rightarrow> ExecuteHookDeclaration" where
  "decl attestor stage = \<lparr>ehd_Attestor = attestor, ehd_Stage = stage\<rparr>"

section \<open>Operations\<close>

definition Declare :: "string \<Rightarrow> ExecuteHookStage \<Rightarrow> ExecuteHooks \<Rightarrow> ExecuteHooks \<times> gerr option" where
  "Declare attestor stage h =
     (let h = (if declarationToFulfilled h = None
               then h\<lparr>declarationToFulfilled := Some [], allFulfilled := Some False\<rparr> else h)
      in if map_of (declarations h) (decl attestor stage) \<noteq> None
         then (h, Some (Errorf ''hook for attestor %q at stage %s already declared''
                          [FStr attestor, FStr (Stage_String stage)]))
         else (h\<lparr>declarationToFulfilled :=
                    Some (AList.update (decl attestor stage) False (declarations h))\<rparr>, None))"

definition checkAllFulfilled :: "ExecuteHooks \<Rightarrow> bool" where
  "checkAllFulfilled h = list_all snd (declarations h)"

definition RegisterHook ::
  "ExecuteHookStage \<Rightarrow> string \<Rightarrow> (int \<Rightarrow> gerr option) \<Rightarrow> ExecuteHooks \<Rightarrow> ExecuteHooks \<times> (gerr + nat)" where
  "RegisterHook stage name fn h =
     (case map_of (declarations h) (decl name stage) of
        None \<Rightarrow> (h, Inl (Errorf ''hook for attestor %q at stage %s not declared''
                           [FStr name, FStr (Stage_String stage)]))
      | Some fulfilled \<Rightarrow>
          if fulfilled
          then (h, Inl (Errorf ''hook for attestor %q at stage %s already registered''
                          [FStr name, FStr (Stage_String stage)]))
          else
            (let ready = length (eh_hooks h);
                 h1 = h\<lparr>eh_hooks := eh_hooks h @
                          [\<lparr>rh_attestor = name, rh_stage = stage, rh_fn = fn, rh_ready = ready\<rparr>],
                        declarationToFulfilled := Some (AList.update (decl name stage) True (declarations h))\<rparr>;
                 h2 = (if checkAllFulfilled h1 \<and> \<not> closedOnce h1
                       then h1\<lparr>closedOnce := True, allFulfilled := Some True\<rparr> else h1)
             in (h2, Inr ready)))"

definition unfulfilled :: "ExecuteHooks \<Rightarrow> ExecuteHookDeclaration list" where
  "unfulfilled h = map fst (filter (\<lambda>(d, fulfilled). \<not> fulfilled) (declarations h))"

text \<open>
  \<open>WaitForDeclaredHooks\<close> reads the state \<open>h\<close> under the lock and then selects between the channel and
  the timer; \<open>later\<close> is the state when the select returns and \<open>timer\<close> the case it takes (the timer's
  case may be taken also when the channel is closed). \<open>None\<close>: this case of the select cannot be taken.
\<close>

definition WaitForDeclaredHooks :: "ExecuteHooks \<Rightarrow> ExecuteHooks \<Rightarrow> bool \<Rightarrow> gerr option option" where
  "WaitForDeclaredHooks h later timer =
     (if declarations h = [] then Some None
      else if timer
      then Some (Some (Errorf ''timeout waiting for hook registration: %v''
             [FVals (map (\<lambda>d. FMsg ''{%s %v}'' [FStr (ehd_Attestor d), FInt (ehd_Stage d)]) (unfulfilled later))]))
      else if allFulfilled later = Some True then Some None
      else None)"

definition stage_hooks :: "ExecuteHookStage \<Rightarrow> ExecuteHooks \<Rightarrow> registeredHook list" where
  "stage_hooks stage h = filter (\<lambda>hook. rh_stage hook = stage) (eh_hooks h)"

text \<open>The second loop of \<open>RunHooks\<close>: the hooks that were called and the first error.\<close>

primrec run_loop :: "ExecuteHookStage \<Rightarrow> int \<Rightarrow> registeredHook list \<Rightarrow> registeredHook list \<times> gerr option" where
  "run_loop stage pid [] = ([], None)"
| "run_loop stage pid (hook # hooks) =
     (case rh_fn hook pid of
        Some err \<Rightarrow> ([hook], Some (Errorf ''hook %q at stage %s failed: %w''
                       [FStr (rh_attestor hook), FStr (Stage_String stage), FErr err]))
      | None \<Rightarrow> (let (called, err) = run_loop stage pid hooks in (hook # called, err)))"

text \<open>\<open>RunHooks\<close> with the ready channels that are ever closed; \<open>None\<close> when it waits for one that is not.\<close>

definition RunHooks ::
  "(nat \<Rightarrow> bool) \<Rightarrow> ExecuteHookStage \<Rightarrow> int \<Rightarrow> ExecuteHooks \<Rightarrow> (registeredHook list \<times> gerr option) option" where
  "RunHooks ready stage pid h =
     (let stageHooks = stage_hooks stage h
      in if stageHooks = [] then Some ([], None)
         else if \<not> list_all (\<lambda>hook. ready (rh_ready hook)) stageHooks then None
         else Some (run_loop stage pid stageHooks))"

definition HasHooks :: "ExecuteHookStage \<Rightarrow> ExecuteHooks \<Rightarrow> bool" where
  "HasHooks stage h = list_ex (\<lambda>hook. rh_stage hook = stage) (eh_hooks h)"

section \<open>Executions\<close>

inductive declare_step :: "ExecuteHooks \<Rightarrow> ExecuteHooks \<Rightarrow> bool" where
  declare_step: "declare_step h (fst (Declare attestor stage h))"

inductive register_step :: "ExecuteHooks \<Rightarrow> ExecuteHooks \<Rightarrow> bool" where
  register_step: "register_step h (fst (RegisterHook stage name fn h))"

inductive hook_step :: "ExecuteHooks \<Rightarrow> ExecuteHooks \<Rightarrow> bool" where
  step_declare: "declare_step h h' \<Longrightarrow> hook_step h h'"
| step_register: "register_step h h' \<Longrightarrow> hook_step h h'"

inductive_cases declare_stepE: "declare_step h h'"
inductive_cases register_stepE: "register_step h h'"
inductive_cases hook_stepE: "hook_step h h'"

text \<open>The declaration of a registered hook, and the invariant: exactly the fulfilled declarations have a
  hook, each one, known by its position; the channel is closed at most once, and is open while nothing
  is registered.\<close>

definition hook_decl :: "registeredHook \<Rightarrow> ExecuteHookDeclaration" where
  "hook_decl hook = decl (rh_attestor hook) (rh_stage hook)"

definition hooks_inv :: "ExecuteHooks \<Rightarrow> bool" where
  "hooks_inv h \<longleftrightarrow>
     gomap_ok (declarations h) \<and>
     distinct (map hook_decl (eh_hooks h)) \<and>
     (\<forall>d. map_of (declarations h) d = Some True \<longleftrightarrow> d \<in> hook_decl ` set (eh_hooks h)) \<and>
     map rh_ready (eh_hooks h) = [0..<length (eh_hooks h)] \<and>
     (allFulfilled h = Some True \<longleftrightarrow> closedOnce h) \<and>
     (allFulfilled h = None \<longleftrightarrow> declarationToFulfilled h = None)"

section \<open>Lemmas\<close>

lemma decl_inject [simp]: "decl a s = decl a' s' \<longleftrightarrow> a = a' \<and> s = s'"
  by (simp add: decl_def)

lemma no_hooks_inv: "hooks_inv no_hooks"
  by (simp add: hooks_inv_def no_hooks_def declarations_def)

lemma Declare_cases:
  obtains (duplicate) err where "map_of (declarations h) (decl a s) \<noteq> None"
      "Declare a s h = (h, Some err)"
  | (fresh) h' where "map_of (declarations h) (decl a s) = None" "Declare a s h = (h', None)"
      "declarations h' = AList.update (decl a s) False (declarations h)"
      "declarationToFulfilled h' \<noteq> None"
      "eh_hooks h' = eh_hooks h" "closedOnce h' = closedOnce h"
      "allFulfilled h' = (if declarationToFulfilled h = None then Some False else allFulfilled h)"
proof (cases "map_of (declarations h) (decl a s)")
  case None
  then show thesis
    by (intro that(2) [of "fst (Declare a s h)"]; cases "declarationToFulfilled h")
      (simp_all add: Declare_def declarations_def Let_def)
next
  case (Some v)
  then have "declarationToFulfilled h \<noteq> None" by (auto simp: declarations_def split: option.splits)
  with Some have "Declare a s h = (h, Some (the (snd (Declare a s h))))"
    by (auto simp: Declare_def Let_def)
  with Some show thesis by (intro that(1)) simp_all
qed

lemma RegisterHook_cases:
  obtains (refused) err where "map_of (declarations h) (decl n s) \<noteq> Some False"
      "RegisterHook s n fn h = (h, Inl err)"
  | (registered) h' where "map_of (declarations h) (decl n s) = Some False"
      "RegisterHook s n fn h = (h', Inr (length (eh_hooks h)))"
      "declarations h' = AList.update (decl n s) True (declarations h)"
      "declarationToFulfilled h' \<noteq> None"
      "eh_hooks h' = eh_hooks h @
         [\<lparr>rh_attestor = n, rh_stage = s, rh_fn = fn, rh_ready = length (eh_hooks h)\<rparr>]"
      "closedOnce h' \<longleftrightarrow> closedOnce h \<or> checkAllFulfilled h'"
      "allFulfilled h' = (if checkAllFulfilled h' \<and> \<not> closedOnce h then Some True else allFulfilled h)"
proof (cases "map_of (declarations h) (decl n s) = Some False")
  case True
  then show thesis
    by (intro that(2) [of "fst (RegisterHook s n fn h)"])
      (auto simp: RegisterHook_def declarations_def checkAllFulfilled_def Let_def)
next
  case False
  then show thesis
    by (cases "map_of (declarations h) (decl n s)")
      (auto simp: RegisterHook_def intro: that(1))
qed

lemma Declare_inv: "hooks_inv h \<Longrightarrow> hooks_inv (fst (Declare a s h))"
proof (cases rule: Declare_cases [of h a s])
  case duplicate
  then show "hooks_inv h \<Longrightarrow> ?thesis" by simp
next
  case (fresh h')
  assume inv: "hooks_inv h"
  have new: "decl a s \<notin> hook_decl ` set (eh_hooks h)"
    using inv fresh(1) unfolding hooks_inv_def by force
  have "map_of (declarations h') d = Some True \<longleftrightarrow> d \<in> hook_decl ` set (eh_hooks h')" for d
    using inv fresh(3,5) new by (auto simp: hooks_inv_def update_conv)
  moreover have "gomap_ok (declarations h')" using inv fresh(3) by (simp add: hooks_inv_def)
  ultimately show ?thesis
    using inv fresh by (auto simp: hooks_inv_def)
qed

lemma RegisterHook_inv: "hooks_inv h \<Longrightarrow> hooks_inv (fst (RegisterHook s n fn h))"
proof (cases rule: RegisterHook_cases [of h n s fn])
  case refused
  then show "hooks_inv h \<Longrightarrow> ?thesis" by simp
next
  case (registered h')
  assume inv: "hooks_inv h"
  let ?hook = "\<lparr>rh_attestor = n, rh_stage = s, rh_fn = fn, rh_ready = length (eh_hooks h)\<rparr>"
  have new: "hook_decl ?hook = decl n s" by (simp add: hook_decl_def)
  have fresh: "decl n s \<notin> hook_decl ` set (eh_hooks h)"
    using inv registered(1) unfolding hooks_inv_def by force
  have nonnil: "declarationToFulfilled h \<noteq> None"
    using registered(1) by (auto simp: declarations_def split: option.splits)
  have "map_of (declarations h') d = Some True \<longleftrightarrow> d \<in> hook_decl ` set (eh_hooks h')" for d
    using inv registered(3,5) new by (auto simp: hooks_inv_def update_conv)
  moreover have "distinct (map hook_decl (eh_hooks h'))"
    using inv registered(5) new fresh by (simp add: hooks_inv_def)
  moreover have "gomap_ok (declarations h')" using inv registered(3) by (simp add: hooks_inv_def)
  moreover have "map rh_ready (eh_hooks h') = [0..<length (eh_hooks h')]"
    using inv registered(5) by (simp add: hooks_inv_def)
  ultimately show ?thesis
    using inv registered nonnil by (auto simp: hooks_inv_def)
qed

lemma hook_step_inv: "hook_step h h' \<Longrightarrow> hooks_inv h \<Longrightarrow> hooks_inv h'"
  by (auto elim!: hook_stepE declare_stepE register_stepE intro: Declare_inv RegisterHook_inv)

lemma reachable_inv: "hook_step\<^sup>*\<^sup>* no_hooks h \<Longrightarrow> hooks_inv h"
  by (induction rule: rtranclp_induct) (auto intro: no_hooks_inv hook_step_inv)

text \<open>Declarations before registrations: the channel is then closed exactly when all are fulfilled.\<close>

definition phased_inv :: "ExecuteHooks \<Rightarrow> bool" where
  "phased_inv h \<longleftrightarrow> (closedOnce h \<longrightarrow> checkAllFulfilled h) \<and>
     (eh_hooks h \<noteq> [] \<and> checkAllFulfilled h \<longrightarrow> closedOnce h)"

lemma declare_phase:
  assumes "declare_step\<^sup>*\<^sup>* no_hooks h"
  shows "hook_step\<^sup>*\<^sup>* no_hooks h \<and> eh_hooks h = [] \<and> \<not> closedOnce h"
  using assms
proof (induction rule: rtranclp_induct)
  case base
  then show ?case by (simp add: no_hooks_def)
next
  case (step h h')
  from step.hyps(2) obtain a s where h': "h' = fst (Declare a s h)" by (auto elim: declare_stepE)
  have "eh_hooks h' = eh_hooks h \<and> closedOnce h' = closedOnce h"
    by (cases rule: Declare_cases [of h a s]) (auto simp: h')
  with step show ?case by (auto intro: rtranclp.rtrancl_into_rtrancl step_declare)
qed

lemma register_phased:
  assumes "phased_inv h" "hooks_inv h"
  shows "phased_inv (fst (RegisterHook s n fn h))"
proof (cases rule: RegisterHook_cases [of h n s fn])
  case refused
  with assms show ?thesis by simp
next
  case (registered h')
  have "\<not> checkAllFulfilled h"
    using registered(1) map_of_SomeD [of "declarations h" "decl n s" False]
    by (force simp: checkAllFulfilled_def list_all_iff)
  with assms(1) have "\<not> closedOnce h" by (simp add: phased_inv_def)
  with registered show ?thesis by (simp add: phased_inv_def)
qed

lemma phased_reachable:
  assumes "declare_step\<^sup>*\<^sup>* no_hooks h" and "register_step\<^sup>*\<^sup>* h h'"
  shows "hook_step\<^sup>*\<^sup>* no_hooks h' \<and> phased_inv h'"
  using assms(2)
proof (induction rule: rtranclp_induct)
  case base
  from declare_phase [OF assms(1)] show ?case by (simp add: phased_inv_def)
next
  case (step h1 h2)
  then have "phased_inv h2"
    by (auto elim!: register_stepE intro: register_phased reachable_inv)
  with step show ?case by (auto intro: rtranclp.rtrancl_into_rtrancl step_register)
qed

lemma run_loop_ok:
  "run_loop stage pid hooks = (called, None) \<longleftrightarrow> called = hooks \<and> (\<forall>hook \<in> set hooks. rh_fn hook pid = None)"
proof (induction hooks arbitrary: called)
  case Nil
  then show ?case by auto
next
  case (Cons hook hooks)
  obtain c e where "run_loop stage pid hooks = (c, e)" by (cases "run_loop stage pid hooks")
  with Cons.IH [of c] Cons.IH [of hooks] show ?case by (auto split: option.splits)
qed

lemma run_loop_error:
  "run_loop stage pid hooks = (called, Some err) \<Longrightarrow>
     \<exists>hook rest e. hooks = called @ rest \<and> called \<noteq> [] \<and> last called = hook \<and> rh_fn hook pid = Some e \<and>
       (\<forall>x \<in> set (butlast called). rh_fn x pid = None)"
proof (induction hooks arbitrary: called)
  case Nil
  then show ?case by simp
next
  case (Cons x hooks)
  show ?case
  proof (cases "rh_fn x pid")
    case None
    with Cons.prems obtain called' where rest: "run_loop stage pid hooks = (called', Some err)"
      and called: "called = x # called'" by (auto simp: Let_def split: prod.splits)
    from Cons.IH [OF rest] None called show ?thesis by auto
  next
    case (Some e)
    with Cons.prems have "called = [x]" by simp
    with Some show ?thesis by simp
  qed
qed

section \<open>Properties\<close>

text \<open>C37. In every reachable state each declaration is registered at most once, exactly the fulfilled
  declarations have a registered hook, and registering an undeclared hook or one already registered is
  refused without any change.\<close>

theorem hooks_declared_once:
  assumes "hook_step\<^sup>*\<^sup>* no_hooks h"
  shows "distinct (map hook_decl (eh_hooks h)) \<and>
    (\<forall>d. map_of (declarations h) d = Some True \<longleftrightarrow> d \<in> hook_decl ` set (eh_hooks h)) \<and>
    (\<forall>stage name fn. map_of (declarations h) (decl name stage) \<noteq> Some False \<longrightarrow>
       fst (RegisterHook stage name fn h) = h \<and> (\<exists>err. snd (RegisterHook stage name fn h) = Inl err))"
proof -
  have "fst (RegisterHook stage name fn h) = h \<and> (\<exists>err. snd (RegisterHook stage name fn h) = Inl err)"
    if "map_of (declarations h) (decl name stage) \<noteq> Some False" for stage name fn
    using that by (cases rule: RegisterHook_cases [of h name stage fn]) auto
  with reachable_inv [OF assms] show ?thesis by (simp add: hooks_inv_def)
qed

definition sample_hooks :: ExecuteHooks where
  "sample_hooks = fst (RegisterHook StagePreExec ''net'' (\<lambda>_. None) (fst (Declare ''net'' StagePreExec no_hooks)))"

lemma sample_hooks_eval:
  "sample_hooks = \<lparr>declarationToFulfilled = Some [(decl ''net'' 0, True)],
     eh_hooks = [\<lparr>rh_attestor = ''net'', rh_stage = 0, rh_fn = \<lambda>_. None, rh_ready = 0\<rparr>],
     allFulfilled = Some True, closedOnce = True\<rparr>"
  by (simp add: sample_hooks_def RegisterHook_def Declare_def no_hooks_def declarations_def
      checkAllFulfilled_def StagePreExec_def Let_def)

lemma sample_hooks_phases:
  "declare_step\<^sup>*\<^sup>* no_hooks (fst (Declare ''net'' StagePreExec no_hooks)) \<and>
   register_step\<^sup>*\<^sup>* (fst (Declare ''net'' StagePreExec no_hooks)) sample_hooks"
  unfolding sample_hooks_def by (auto intro: declare_step register_step)

theorem hooks_declared_once_witness:
  "hook_decl ` set (eh_hooks sample_hooks) = {decl ''net'' 0} \<and>
   map_of (declarations sample_hooks) (decl ''net'' 0) = Some True"
proof -
  have "hook_step\<^sup>*\<^sup>* no_hooks sample_hooks"
    using sample_hooks_phases phased_reachable by blast
  from hooks_declared_once [OF this]
  have "map_of (declarations sample_hooks) (decl ''net'' 0) = Some True \<longleftrightarrow>
      decl ''net'' 0 \<in> hook_decl ` set (eh_hooks sample_hooks)" by blast
  then show ?thesis by (simp add: sample_hooks_eval hook_decl_def)
qed

text \<open>When all hooks are declared before the first registration, as the attestation context does,
  waiting without a timeout returns only after every declared hook has been registered; and it is able
  to return then.\<close>

theorem wait_returns_iff_registered:
  assumes "declare_step\<^sup>*\<^sup>* no_hooks h" and "register_step\<^sup>*\<^sup>* h later"
    and "declarations h \<noteq> []"
  shows "WaitForDeclaredHooks h later False = Some None \<longleftrightarrow>
    fst ` set (declarations later) = hook_decl ` set (eh_hooks later)"
proof -
  from phased_reachable [OF assms(1,2)] have inv: "hooks_inv later" and ph: "phased_inv later"
    by (auto intro: reachable_inv)
  have "declarations h1 \<noteq> [] \<Longrightarrow> register_step h1 h2 \<Longrightarrow> declarations h2 \<noteq> []" for h1 h2
    by (auto elim!: register_stepE simp: RegisterHook_def Let_def declarations_def
        split: option.splits if_splits)
  with assms(2,3) have nonempty: "declarations later \<noteq> []"
    by (induction rule: rtranclp_induct) auto
  have all: "checkAllFulfilled later \<longleftrightarrow> fst ` set (declarations later) = hook_decl ` set (eh_hooks later)"
  proof -
    have "checkAllFulfilled later \<longleftrightarrow> (\<forall>d v. map_of (declarations later) d = Some v \<longrightarrow> v)"
      using inv gomap_Ball [of "declarations later" "\<lambda>_ v. v"]
      by (simp add: checkAllFulfilled_def list_all_iff hooks_inv_def case_prod_unfold)
    also have "\<dots> \<longleftrightarrow> (\<forall>d. d \<in> fst ` set (declarations later) \<longrightarrow> map_of (declarations later) d = Some True)"
      by (metis (full_types) gomap_key_iff option.inject)
    also have "\<dots> \<longleftrightarrow> fst ` set (declarations later) = hook_decl ` set (eh_hooks later)"
      using inv unfolding hooks_inv_def by (metis (no_types, lifting) gomap_key_iff subsetI subset_antisym)
    finally show ?thesis .
  qed
  have "closedOnce later \<longleftrightarrow> checkAllFulfilled later"
  proof
    assume "checkAllFulfilled later"
    with all nonempty have "eh_hooks later \<noteq> []" by auto
    with ph \<open>checkAllFulfilled later\<close> show "closedOnce later" by (simp add: phased_inv_def)
  qed (use ph in \<open>simp add: phased_inv_def\<close>)
  with all inv assms(3) show ?thesis by (auto simp: WaitForDeclaredHooks_def hooks_inv_def)
qed

theorem wait_returns_iff_registered_witness:
  "WaitForDeclaredHooks (fst (Declare ''net'' StagePreExec no_hooks)) sample_hooks False = Some None"
proof -
  have "declarations (fst (Declare ''net'' StagePreExec no_hooks)) \<noteq> []"
    by (simp add: Declare_def no_hooks_def declarations_def Let_def)
  with wait_returns_iff_registered [of "fst (Declare ''net'' StagePreExec no_hooks)" sample_hooks]
    sample_hooks_phases
  show ?thesis by (simp add: sample_hooks_eval declarations_def hook_decl_def)
qed

text \<open>Running the hooks of a stage returns once all of them are ready. It then succeeds exactly when
  every hook of the stage succeeds, having called all of them in the order of registration; otherwise
  it stops at the first that fails.\<close>

theorem RunHooks_outcome:
  assumes "\<forall>hook \<in> set (stage_hooks stage h). ready (rh_ready hook)"
  shows "\<exists>called err. RunHooks ready stage pid h = Some (called, err) \<and>
    (err = None \<longleftrightarrow> (\<forall>hook \<in> set (stage_hooks stage h). rh_fn hook pid = None)) \<and>
    (err = None \<longrightarrow> called = stage_hooks stage h) \<and>
    (err \<noteq> None \<longrightarrow> (\<exists>rest. stage_hooks stage h = called @ rest) \<and> called \<noteq> [] \<and>
       rh_fn (last called) pid \<noteq> None \<and> (\<forall>x \<in> set (butlast called). rh_fn x pid = None))"
proof -
  obtain called err where res: "run_loop stage pid (stage_hooks stage h) = (called, err)"
    by (cases "run_loop stage pid (stage_hooks stage h)")
  with assms have run: "RunHooks ready stage pid h = Some (called, err)"
    by (auto simp: RunHooks_def Let_def list_all_iff)
  show ?thesis
  proof (cases err)
    case None
    with res run show ?thesis by (simp add: run_loop_ok)
  next
    case (Some e)
    from run_loop_error [OF res [unfolded Some]] obtain hook rest e' where
      "stage_hooks stage h = called @ rest" "called \<noteq> []" "last called = hook" "rh_fn hook pid = Some e'"
      "\<forall>x \<in> set (butlast called). rh_fn x pid = None" by blast
    moreover from this have "\<exists>hook \<in> set (stage_hooks stage h). rh_fn hook pid \<noteq> None"
      by (intro bexI [of _ hook]) auto
    ultimately show ?thesis using run Some by auto
  qed
qed

theorem RunHooks_outcome_witness:
  "\<exists>called. RunHooks (\<lambda>_. True) StagePreExec 7 sample_hooks = Some (called, None) \<and> length called = 1"
proof -
  have hooks: "stage_hooks StagePreExec sample_hooks =
      [\<lparr>rh_attestor = ''net'', rh_stage = 0, rh_fn = \<lambda>_. None, rh_ready = 0\<rparr>]"
    by (simp add: stage_hooks_def sample_hooks_eval StagePreExec_def)
  from RunHooks_outcome [of StagePreExec sample_hooks "\<lambda>_. True" 7] hooks show ?thesis by auto
qed

end
