(* ===== verification/Attestation.thy ===== *)
theory Attestation
  imports Intoto Registry Execute_Hooks
begin

text \<open>
  Attestors, their registry and collections of attestations: \<open>attestation/factory.go\<close> and
  \<open>attestation/collection.go\<close>.

  An attestor is a value of a Go interface; the datatype \<open>attestor\<close> holds what its methods return,
  and \<open>None\<close> for an optional interface it does not implement. The last component is the state of the
  implementation, of any type \<open>'d\<close>. What \<open>Attest\<close> does is a parameter of the definitions that run
  attestors. The lemmas show what a collection reports as materials, artifacts and back references,
  and which factory a lookup finds.
\<close>

section \<open>Attestors\<close>

type_synonym RunType = string

definition PreMaterialRunType :: RunType where "PreMaterialRunType = ''prematerial''"
definition MaterialRunType :: RunType where "MaterialRunType = ''material''"
definition ExecuteRunType :: RunType where "ExecuteRunType = ''execute''"
definition ProductRunType :: RunType where "ProductRunType = ''product''"
definition PostProductRunType :: RunType where "PostProductRunType = ''postproduct''"
definition VerifyRunType :: RunType where "VerifyRunType = ''verify''"

record Product =
  pr_MimeType :: string
  pr_Digest :: digest_set

datatype 'd attestor =
  Attestor
    (att_Name: string)
    (att_Type: string)
    (att_RunType: RunType)
    (att_Subjects: "(string, digest_set) gomap option")
    (att_Materials: "(string, digest_set) gomap option")
    (att_Products: "(string, Product) gomap option")
    (att_BackRefs: "(string, digest_set) gomap option")
    (att_Export: "bool option")
    (att_ExportedAttestations: "'d attestor list option")
    (att_DeclareHooks: "(ExecuteHooks \<Rightarrow> ExecuteHooks \<times> gerr option) option")
    (att_IsExperimental: "bool option")
    (att_state: 'd)

text \<open>The type assertion to \<open>Exporter\<close>, an interface with the methods \<open>Export\<close> and \<open>Subjects\<close>.\<close>

definition Exporter :: "'d attestor \<Rightarrow> bool option" where
  "Exporter a = (if att_Subjects a = None then None else att_Export a)"

definition IsExperimental :: "'d attestor \<Rightarrow> bool" where
  "IsExperimental a = (case att_IsExperimental a of Some b \<Rightarrow> b | None \<Rightarrow> False)"

section \<open>The registry of attestors\<close>

record 'd attestors =
  attestorRegistry :: "'d attestor Registry"
  attestationsByType :: "(string, 'd attestor Entry) gomap"
  attestationsByRun :: "(RunType, 'd attestor Entry) gomap"

definition no_attestors :: "'d attestors" where
  "no_attestors = \<lparr>attestorRegistry = registry_New, attestationsByType = [], attestationsByRun = []\<rparr>"

definition RegisterAttestation ::
  "string \<Rightarrow> string \<Rightarrow> RunType \<Rightarrow> (unit \<Rightarrow> 'd attestor) \<Rightarrow> 'd attestor configurer list \<Rightarrow>
     'd attestors \<Rightarrow> 'd attestors" where
  "RegisterAttestation name predicateType run factoryFunc opts g =
     (let (reg, registrationEntry) = Register (attestorRegistry g) name factoryFunc opts
      in g\<lparr>attestorRegistry := reg,
           attestationsByType := AList.update predicateType registrationEntry (attestationsByType g),
           attestationsByRun := AList.update run registrationEntry (attestationsByRun g)\<rparr>)"

definition RegisterAttestationWithTypes ::
  "string \<Rightarrow> string list \<Rightarrow> RunType \<Rightarrow> (unit \<Rightarrow> 'd attestor) \<Rightarrow> 'd attestor configurer list \<Rightarrow>
     'd attestors \<Rightarrow> 'd attestors" where
  "RegisterAttestationWithTypes name predicateTypes run factoryFunc opts g =
     (let (reg, registrationEntry) = Register (attestorRegistry g) name factoryFunc opts
      in g\<lparr>attestorRegistry := reg,
           attestationsByType :=
             fold (\<lambda>predicateType. AList.update predicateType registrationEntry) predicateTypes
               (attestationsByType g),
           attestationsByRun := AList.update run registrationEntry (attestationsByRun g)\<rparr>)"

definition FactoryByType :: "'d attestors \<Rightarrow> string \<Rightarrow> (unit \<Rightarrow> 'd attestor) option" where
  "FactoryByType g uri = map_option re_Factory (map_of (attestationsByType g) uri)"

definition FactoryByName :: "'d attestors \<Rightarrow> string \<Rightarrow> (unit \<Rightarrow> 'd attestor) option" where
  "FactoryByName g name = map_option re_Factory (Registry_Entry (attestorRegistry g) name)"

definition AttestorOptions :: "'d attestors \<Rightarrow> string \<Rightarrow> 'd attestor configurer list" where
  "AttestorOptions g nameOrType =
     (case Registry_Entry (attestorRegistry g) nameOrType of
        Some entry \<Rightarrow> re_Options entry
      | None \<Rightarrow>
          (case map_of (attestationsByType g) nameOrType of
             Some entry \<Rightarrow> re_Options entry
           | None \<Rightarrow> []))"

definition get_attestor :: "'d attestors \<Rightarrow> string \<Rightarrow> gerr + 'd attestor" where
  "get_attestor g nameOrType =
     (case (case FactoryByName g nameOrType of
              Some factory \<Rightarrow> Some factory
            | None \<Rightarrow> FactoryByType g nameOrType) of
        None \<Rightarrow> Inl (ErrAttestorNotFound nameOrType)
      | Some factory \<Rightarrow>
          (case SetDefaultVals (factory ()) (AttestorOptions g nameOrType) of
             (_, Some err) \<Rightarrow> Inl err
           | (attestor, None) \<Rightarrow> Inr attestor))"

definition GetAttestors :: "'d attestors \<Rightarrow> string list \<Rightarrow> gerr + 'd attestor list" where
  "GetAttestors g nameOrTypes = mapE (get_attestor g) nameOrTypes"

definition GetAttestor :: "'d attestors \<Rightarrow> string \<Rightarrow> gerr + 'd attestor" where
  "GetAttestor g nameOrType =
     (case GetAttestors g [nameOrType] of
        Inl err \<Rightarrow> Inl err
      | Inr [] \<Rightarrow> Inl (ErrAttestorNotFound nameOrType)
      | Inr (a # _) \<Rightarrow> Inr a)"

definition RegistrationEntries :: "'d attestors \<Rightarrow> 'd attestor Entry list" where
  "RegistrationEntries g = AllEntries (attestorRegistry g)"

section \<open>Collections\<close>

definition CollectionType :: string where
  "CollectionType = ''https://witness.testifysec.com/attestation-collection/v0.1''"

record 'd CompletedAttestor =
  cpl_Attestor :: "'d attestor"
  cpl_StartTime :: gtime
  cpl_EndTime :: gtime
  cpl_Error :: "gerr option"

text \<open>The attestation of a decoded collection is nil (\<open>None\<close>) when its JSON is \<open>null\<close>.\<close>

record 'd CollectionAttestation =
  ca_Type :: string
  ca_Attestation :: "'d attestor option"
  ca_StartTime :: gtime
  ca_EndTime :: gtime

record 'd Collection =
  col_Name :: string
  col_Attestations :: "'d CollectionAttestation list"

definition empty_collection :: "'d Collection" where
  "empty_collection = \<lparr>col_Name = [], col_Attestations = []\<rparr>"

definition NewCollectionAttestation :: "'d CompletedAttestor \<Rightarrow> 'd CollectionAttestation" where
  "NewCollectionAttestation completed =
     \<lparr>ca_Type = att_Type (cpl_Attestor completed), ca_Attestation = Some (cpl_Attestor completed),
      ca_StartTime = cpl_StartTime completed, ca_EndTime = cpl_EndTime completed\<rparr>"

definition NewCollection :: "string \<Rightarrow> 'd CompletedAttestor list \<Rightarrow> 'd Collection" where
  "NewCollection name attestors =
     \<lparr>col_Name = name, col_Attestations = map NewCollectionAttestation attestors\<rparr>"

text \<open>
  What the standard JSON decoder does with the bytes of an envelope, a statement, a collection (its name
  and the raw JSON of its attestations), the anonymous struct of \<open>UnmarshalJSON\<close>, and an attestor made
  by a factory; \<open>None\<close> in the last case is the nil that decoding \<open>null\<close> into an interface leaves.
\<close>

record 'd json_codec =
  jc_statement :: "bytes \<Rightarrow> gerr + Statement"
  jc_collection :: "bytes \<Rightarrow> gerr + (string \<times> bytes list)"
  jc_proposed :: "bytes \<Rightarrow> gerr + (string \<times> bytes \<times> gtime \<times> gtime)"
  jc_attestor :: "'d attestor \<Rightarrow> bytes \<Rightarrow> gerr + 'd attestor option"

definition CollectionAttestation_UnmarshalJSON ::
  "'d json_codec \<Rightarrow> 'd attestors \<Rightarrow> bytes \<Rightarrow> gerr + 'd CollectionAttestation" where
  "CollectionAttestation_UnmarshalJSON jc g data =
     (case jc_proposed jc data of
        Inl err \<Rightarrow> Inl err
      | Inr (t, raw, startTime, endTime) \<Rightarrow>
          (case FactoryByType g t of
             None \<Rightarrow> Inl (ErrAttestationNotFound t)
           | Some factory \<Rightarrow>
               (case jc_attestor jc (factory ()) raw of
                  Inl err \<Rightarrow> Inl err
                | Inr newAttest \<Rightarrow>
                    Inr \<lparr>ca_Type = t, ca_Attestation = newAttest, ca_StartTime = startTime,
                         ca_EndTime = endTime\<rparr>)))"

definition Collection_Unmarshal ::
  "'d json_codec \<Rightarrow> 'd attestors \<Rightarrow> bytes \<Rightarrow> gerr + 'd Collection" where
  "Collection_Unmarshal jc g data =
     (case jc_collection jc data of
        Inl err \<Rightarrow> Inl err
      | Inr (name, raws) \<Rightarrow>
          (case mapE (CollectionAttestation_UnmarshalJSON jc g) raws of
             Inl err \<Rightarrow> Inl err
           | Inr atts \<Rightarrow> Inr \<lparr>col_Name = name, col_Attestations = atts\<rparr>))"

text \<open>A type assertion on an attestation: nil implements no interface, and one that implements it
  yields a map; an absent map has no entries to range over.\<close>

definition method_map ::
  "('d attestor \<Rightarrow> ('k, 'v) gomap option) \<Rightarrow> 'd CollectionAttestation \<Rightarrow> ('k, 'v) gomap" where
  "method_map meth ca =
     (case Option.bind (ca_Attestation ca) meth of None \<Rightarrow> [] | Some m \<Rightarrow> m)"

definition qualify_keys :: "string \<Rightarrow> (string, 'v) gomap \<Rightarrow> (string, 'v) gomap" where
  "qualify_keys t m = map (\<lambda>(k, v). (t @ ''/'' @ k, v)) m"

definition Collection_Subjects :: "'d Collection \<Rightarrow> (string, digest_set) gomap" where
  "Collection_Subjects c =
     fold (\<lambda>ca. put_all (qualify_keys (ca_Type ca) (method_map att_Subjects ca))) (col_Attestations c) []"

definition Collection_Artifacts :: "'d Collection \<Rightarrow> (string, digest_set) gomap" where
  "Collection_Artifacts c =
     (let (allMaterials, allProducts) =
            fold (\<lambda>ca (allMaterials, allProducts).
                (put_all (method_map att_Materials ca) allMaterials,
                 put_all (map (\<lambda>(k, v). (k, pr_Digest v)) (method_map att_Products ca)) allProducts))
              (col_Attestations c) ([], [])
      in put_all allProducts allMaterials)"

definition Collection_Materials :: "'d Collection \<Rightarrow> (string, digest_set) gomap" where
  "Collection_Materials c = fold (\<lambda>ca. put_all (method_map att_Materials ca)) (col_Attestations c) []"

definition Collection_BackRefs :: "'d Collection \<Rightarrow> (string, digest_set) gomap" where
  "Collection_BackRefs c =
     fold (\<lambda>ca. put_all (qualify_keys (ca_Type ca) (method_map att_BackRefs ca))) (col_Attestations c) []"

section \<open>Lemmas\<close>

text \<open>Writing several maps into one: the last map that has a key decides.\<close>

definition last_some :: "('a \<Rightarrow> 'b option) \<Rightarrow> 'a list \<Rightarrow> 'b option" where
  "last_some f xs = fold (\<lambda>x acc. case f x of None \<Rightarrow> acc | Some y \<Rightarrow> Some y) xs None"

lemma last_some_Nil [simp]: "last_some f [] = None"
  by (simp add: last_some_def)

lemma last_some_snoc [simp]:
  "last_some f (xs @ [x]) = (case f x of None \<Rightarrow> last_some f xs | Some y \<Rightarrow> Some y)"
  by (simp add: last_some_def split: option.split)

lemma last_some_SomeD: "last_some f xs = Some y \<Longrightarrow> \<exists>x \<in> set xs. f x = Some y"
  by (induction xs rule: rev_induct) (auto split: option.splits)

lemma last_some_None_iff: "last_some f xs = None \<longleftrightarrow> (\<forall>x \<in> set xs. f x = None)"
  by (induction xs rule: rev_induct) (auto split: option.splits)

lemma fold_put_all_ok: "gomap_ok m \<Longrightarrow> gomap_ok (fold (\<lambda>x. put_all (f x)) xs m)"
  by (induction xs arbitrary: m) auto

lemma fold_put_all:
  assumes "\<forall>x \<in> set xs. gomap_ok (f x)"
  shows "map_of (fold (\<lambda>x. put_all (f x)) xs []) k = last_some (\<lambda>x. map_of (f x) k) xs"
  using assms
  by (induction xs rule: rev_induct) (auto simp: map_of_put_all_ok map_add_def split: option.splits)

text \<open>The maps of an attestation are Go maps: a key occurs once.\<close>

definition attestation_ok :: "'d CollectionAttestation \<Rightarrow> bool" where
  "attestation_ok ca \<longleftrightarrow> gomap_ok (method_map att_Materials ca) \<and> gomap_ok (method_map att_Products ca) \<and>
     gomap_ok (method_map att_BackRefs ca) \<and> gomap_ok (method_map att_Subjects ca)"

definition collection_ok :: "'d Collection \<Rightarrow> bool" where
  "collection_ok c \<longleftrightarrow> (\<forall>ca \<in> set (col_Attestations c). attestation_ok ca)"

lemma gomap_ok_digests: "gomap_ok (map (\<lambda>(k, v). (k, pr_Digest v)) m) = gomap_ok m"
  by (simp add: gomap_ok_def case_prod_unfold comp_def)

lemma map_of_digests: "map_of (map (\<lambda>(k, v). (k, pr_Digest v)) m) k = map_option pr_Digest (map_of m k)"
  by (induction m) auto

lemma artifacts_loops:
  "fold (\<lambda>ca (ms, ps).
      (put_all (method_map att_Materials ca) ms,
       put_all (map (\<lambda>(k, v). (k, pr_Digest v)) (method_map att_Products ca)) ps)) cas (ms, ps) =
   (fold (\<lambda>ca. put_all (method_map att_Materials ca)) cas ms,
    fold (\<lambda>ca. put_all (map (\<lambda>(k, v). (k, pr_Digest v)) (method_map att_Products ca))) cas ps)"
  by (induction cas arbitrary: ms ps) auto

lemma Collection_Materials_ok [simp]: "gomap_ok (Collection_Materials c)"
  by (simp add: Collection_Materials_def fold_put_all_ok)

lemma Collection_Materials_lookup:
  assumes "collection_ok c"
  shows "map_of (Collection_Materials c) path =
    last_some (\<lambda>ca. map_of (method_map att_Materials ca) path) (col_Attestations c)"
  using assms unfolding Collection_Materials_def collection_ok_def attestation_ok_def
  by (intro fold_put_all) blast

lemma Collection_Artifacts_ok [simp]: "gomap_ok (Collection_Artifacts c)"
  by (simp add: Collection_Artifacts_def artifacts_loops fold_put_all_ok)

lemma Collection_Artifacts_lookup:
  assumes "collection_ok c"
  shows "map_of (Collection_Artifacts c) path =
    (case last_some (\<lambda>ca. map_of (method_map att_Products ca) path) (col_Attestations c) of
       Some p \<Rightarrow> Some (pr_Digest p)
     | None \<Rightarrow> map_of (Collection_Materials c) path)"
proof -
  let ?ps = "fold (\<lambda>ca. put_all (map (\<lambda>(k, v). (k, pr_Digest v)) (method_map att_Products ca)))
    (col_Attestations c) []"
  have arts: "Collection_Artifacts c = put_all ?ps (Collection_Materials c)"
    by (simp add: Collection_Artifacts_def artifacts_loops Collection_Materials_def)
  have "\<forall>ca \<in> set (col_Attestations c).
      gomap_ok (map (\<lambda>(k, v). (k, pr_Digest v)) (method_map att_Products ca))"
    using assms by (simp add: collection_ok_def attestation_ok_def gomap_ok_digests)
  from fold_put_all [OF this]
  have "map_of ?ps path =
      last_some (\<lambda>ca. map_option pr_Digest (map_of (method_map att_Products ca) path)) (col_Attestations c)"
    by (simp add: map_of_digests)
  also have "last_some (\<lambda>ca. map_option pr_Digest (f ca)) xs = map_option pr_Digest (last_some f xs)"
    for f and xs :: "'d CollectionAttestation list"
    by (induction xs rule: rev_induct) (auto split: option.splits)
  finally have ps: "map_of ?ps path = map_option pr_Digest
      (last_some (\<lambda>ca. map_of (method_map att_Products ca) path) (col_Attestations c))" .
  have "gomap_ok ?ps" by (rule fold_put_all_ok) simp
  with ps show ?thesis
    by (auto simp: arts map_of_put_all_ok map_add_def split: option.splits)
qed

lemma NewCollection_not_nil:
  "ca \<in> set (col_Attestations (NewCollection name cs)) \<Longrightarrow>
     \<exists>c \<in> set cs. ca_Attestation ca = Some (cpl_Attestor c) \<and> ca_Type ca = att_Type (cpl_Attestor c)"
  by (auto simp: NewCollection_def NewCollectionAttestation_def)

text \<open>The table of types of the registry is a table of entries.\<close>

definition types_insert :: "'d attestors \<Rightarrow> string \<Rightarrow> 'd attestor Entry \<Rightarrow> 'd attestors" where
  "types_insert g t e = g\<lparr>attestationsByType := AList.update t e (attestationsByType g)\<rparr>"

definition types_find :: "'d attestors \<Rightarrow> string \<Rightarrow> 'd attestor Entry option" where
  "types_find g t = map_of (attestationsByType g) t"

interpretation types: entry_table types_insert types_find
  by unfold_locales (auto simp: types_insert_def types_find_def update_conv)

lemma RegisterAttestationWithTypes_types:
  "map_of (attestationsByType (RegisterAttestationWithTypes name ts run f opts g)) t =
     (if t \<in> set ts then Some \<lparr>re_Factory = f, re_Name = name, re_Options = opts\<rparr>
      else map_of (attestationsByType g) t)"
proof -
  let ?e = "\<lparr>re_Factory = f, re_Name = name, re_Options = opts\<rparr>"
  have step: "attestationsByType (types_insert g t e) = AList.update t e (attestationsByType g)"
    for g :: "'a attestors" and t e by (simp add: types_insert_def)
  have "fold (\<lambda>t. AList.update t ?e) ts (attestationsByType g) =
      attestationsByType (types.insert_all (map (\<lambda>n. (n, ?e)) ts) g)"
    by (induction ts arbitrary: g) (simp_all add: types.insert_all_def step [symmetric])
  then have "map_of (attestationsByType (RegisterAttestationWithTypes name ts run f opts g)) t =
      types_find (types.insert_all (map (\<lambda>n. (n, ?e)) ts) g) t"
    by (simp add: RegisterAttestationWithTypes_def Register_def Let_def types_find_def)
  also have "\<dots> = (if t \<in> set ts then Some ?e else types_find g t)"
    by (rule types.find_same_insert_all)
  finally show ?thesis by (simp add: types_find_def)
qed

lemma RegisterAttestation_one_type:
  "RegisterAttestation name t run f opts g = RegisterAttestationWithTypes name [t] run f opts g"
  by (simp add: RegisterAttestation_def RegisterAttestationWithTypes_def)

lemma RegisterAttestationWithTypes_names:
  "Registry_Entry (attestorRegistry (RegisterAttestationWithTypes name ts run f opts g)) k =
     (if k = name then Some \<lparr>re_Factory = f, re_Name = name, re_Options = opts\<rparr>
      else Registry_Entry (attestorRegistry g) k)"
  using Registry_Entry_Register [of "attestorRegistry g" name f opts k]
  by (simp add: RegisterAttestationWithTypes_def Register_def Let_def)

lemma Collection_Unmarshal_registered:
  assumes "Collection_Unmarshal jc g data = Inr c" and "ca \<in> set (col_Attestations c)"
  shows "\<exists>f. FactoryByType g (ca_Type ca) = Some f"
proof -
  from assms(1) obtain raws where
    "mapE (CollectionAttestation_UnmarshalJSON jc g) raws = Inr (col_Attestations c)"
    by (auto simp: Collection_Unmarshal_def split: sum.splits)
  from mapE_Inr_source [OF this assms(2)] obtain raw where
    "CollectionAttestation_UnmarshalJSON jc g raw = Inr ca" by blast
  then show ?thesis
    by (auto simp: CollectionAttestation_UnmarshalJSON_def split: sum.splits option.splits)
qed

section \<open>Properties\<close>

text \<open>The artifacts of a collection are the end state of the files: a path that some attestation of
  the collection has as a product gets the digest of the last such product, any other path the digest
  of the last attestation that has it as a material, and a path that is neither is absent.\<close>

theorem Collection_Artifacts_end_state:
  assumes "collection_ok c"
  shows "map_of (Collection_Artifacts c) path =
    (case last_some (\<lambda>ca. map_of (method_map att_Products ca) path) (col_Attestations c) of
       Some p \<Rightarrow> Some (pr_Digest p)
     | None \<Rightarrow> last_some (\<lambda>ca. map_of (method_map att_Materials ca) path) (col_Attestations c))"
  using assms by (simp add: Collection_Artifacts_lookup Collection_Materials_lookup split: option.split)

definition sample_attestor :: "string \<Rightarrow> (string, digest_set) gomap option \<Rightarrow> (string, Product) gomap option \<Rightarrow> unit attestor" where
  "sample_attestor t mats prods =
     Attestor t t MaterialRunType None mats prods None None None None None ()"

definition sample_collection :: "unit Collection" where
  "sample_collection = \<lparr>col_Name = ''build'', col_Attestations =
     [\<lparr>ca_Type = ''product'', ca_Attestation = Some (sample_attestor ''product'' None
         (Some [(''f'', \<lparr>pr_MimeType = ''text'', pr_Digest = [(plain_digest SHA256, ''new'')]\<rparr>)])),
       ca_StartTime = 0, ca_EndTime = 0\<rparr>,
      \<lparr>ca_Type = ''material'', ca_Attestation = Some (sample_attestor ''material''
         (Some [(''f'', [(plain_digest SHA256, ''old'')]), (''g'', [(plain_digest SHA256, ''g'')])]) None),
       ca_StartTime = 0, ca_EndTime = 0\<rparr>]\<rparr>"

theorem Collection_Artifacts_end_state_witness:
  "map_of (Collection_Artifacts sample_collection) ''f'' = Some [(plain_digest SHA256, ''new'')]"
proof -
  have "collection_ok sample_collection"
    by (simp add: collection_ok_def attestation_ok_def sample_collection_def sample_attestor_def
        method_map_def gomap_ok_def)
  from Collection_Artifacts_end_state [OF this, of "''f''"] show ?thesis
    by (simp add: sample_collection_def sample_attestor_def method_map_def last_some_def)
qed

text \<open>Registering an attestor makes its factory, with its options, the one found under its name and
  under each of its predicate types, and changes no other lookup.\<close>

theorem RegisterAttestation_lookup:
  "FactoryByName (RegisterAttestationWithTypes name ts run f opts g) k =
     (if k = name then Some f else FactoryByName g k) \<and>
   FactoryByType (RegisterAttestationWithTypes name ts run f opts g) t =
     (if t \<in> set ts then Some f else FactoryByType g t)"
  by (simp add: FactoryByName_def FactoryByType_def RegisterAttestationWithTypes_names
      RegisterAttestationWithTypes_types)

text \<open>An attestor asked for by name or by predicate type right after its registration is what its
  factory makes with the defaults of its options set, a name taking precedence over a type: the type
  finds it provided no attestor has the type as its name.\<close>

theorem GetAttestor_registered:
  assumes "k = name \<or> k \<in> set ts \<and> FactoryByName g k = None"
    and "SetDefaultVals (f ()) opts = (a, None)"
  shows "GetAttestor (RegisterAttestationWithTypes name ts run f opts g) k = Inr a"
  using assms
  by (auto simp: GetAttestor_def GetAttestors_def get_attestor_def FactoryByName_def FactoryByType_def
      AttestorOptions_def RegisterAttestationWithTypes_names RegisterAttestationWithTypes_types
      split: option.splits)

theorem GetAttestor_registered_witness:
  "GetAttestor (RegisterAttestationWithTypes ''m'' [''t1'', ''t2''] MaterialRunType
     (\<lambda>_. sample_attestor ''m'' None None) [] no_attestors) ''t2'' = Inr (sample_attestor ''m'' None None)"
  by (rule GetAttestor_registered) (simp_all add: FactoryByName_def no_attestors_def)

end
