(* ===== verification/Source.thy ===== *)
theory Source
  imports Archivista Attestation
begin

text \<open>
  Sources of attestation collections: package \<open>source\<close>.

  A source answers a search for the collections of a step with given subject digests and attestation
  types. The theory models the in-memory source with its four indexes, the Archivista source, the
  source that queries several sources concurrently, and the one that verifies envelopes.

  A source is a state with a function that searches it and returns the new state; the locale
  \<open>sourcer\<close> is what a client relies on, and it is interpreted on the in-memory source.
\<close>

section \<open>Collection envelopes\<close>

record 'd CollectionEnvelope =
  ce_Envelope :: Envelope
  ce_Statement :: Statement
  ce_Collection :: "'d Collection"
  ce_Reference :: string

definition zero_statement :: Statement where
  "zero_statement = \<lparr>st_Type = [], st_Subject = [], st_PredicateType = [], st_Predicate = []\<rparr>"

definition zero_collection_envelope :: "'d CollectionEnvelope" where
  "zero_collection_envelope =
     \<lparr>ce_Envelope = empty_envelope, ce_Statement = zero_statement, ce_Collection = empty_collection,
      ce_Reference = []\<rparr>"

definition envelopeToCollectionEnvelope ::
  "'d json_codec \<Rightarrow> 'd attestors \<Rightarrow> string \<Rightarrow> Envelope \<Rightarrow> gerr + 'd CollectionEnvelope" where
  "envelopeToCollectionEnvelope jc g reference env =
     (case jc_statement jc (env_Payload env) of
        Inl err \<Rightarrow> Inl err
      | Inr statement \<Rightarrow>
          (case Collection_Unmarshal jc g (st_Predicate statement) of
             Inl err \<Rightarrow> Inl err
           | Inr collection \<Rightarrow>
               Inr \<lparr>ce_Envelope = env, ce_Statement = statement, ce_Collection = collection,
                    ce_Reference = reference\<rparr>))"

section \<open>The in-memory source\<close>

record 'd MemorySource =
  envelopesByReference :: "(string, 'd CollectionEnvelope) gomap"
  referencesByCollectionName :: "(string, string list) gomap"
  subjectDigestsByReference :: "(string, string goset) gomap"
  attestationsByReference :: "(string, string goset) gomap"

definition NewMemorySource :: "'d MemorySource" where
  "NewMemorySource =
     \<lparr>envelopesByReference = [], referencesByCollectionName = [], subjectDigestsByReference = [],
      attestationsByReference = []\<rparr>"

text \<open>The loop over the attestations calls \<open>Type()\<close> on each, which panics on a nil attestation.\<close>

definition attestation_index :: "'d Collection \<Rightarrow> string goset outcome" where
  "attestation_index c =
     foldO (\<lambda>ca index.
         case ca_Attestation ca of
           None \<Rightarrow> Panic ''invalid memory address or nil pointer dereference''
         | Some a \<Rightarrow> Return (AList.update (att_Type a) () index))
       (col_Attestations c) []"

definition subject_index :: "Statement \<Rightarrow> string goset" where
  "subject_index st = fold (\<lambda>sub. put_keys (map snd (subj_Digest sub))) (st_Subject st) []"

text \<open>An absent slice is empty.\<close>

definition references :: "'d MemorySource \<Rightarrow> string \<Rightarrow> string list" where
  "references s name = (case map_of (referencesByCollectionName s) name of None \<Rightarrow> [] | Some rs \<Rightarrow> rs)"

definition LoadEnvelope ::
  "'d json_codec \<Rightarrow> 'd attestors \<Rightarrow> string \<Rightarrow> Envelope \<Rightarrow> 'd MemorySource \<Rightarrow>
     ('d MemorySource \<times> gerr option) outcome" where
  "LoadEnvelope jc g reference env s =
     (if map_of (envelopesByReference s) reference \<noteq> None
      then Return (s, Some (ErrDuplicateReference reference))
      else
        (case envelopeToCollectionEnvelope jc g reference env of
           Inl err \<Rightarrow> Return (s, Some err)
         | Inr collEnv \<Rightarrow>
             (let name = col_Name (ce_Collection collEnv)
              in bindO (attestation_index (ce_Collection collEnv))
                   (\<lambda>attestationIndex.
                      Return (s\<lparr>envelopesByReference :=
                                   AList.update reference collEnv (envelopesByReference s),
                                 referencesByCollectionName :=
                                   AList.update name (references s name @ [reference]) (referencesByCollectionName s),
                                 subjectDigestsByReference :=
                                   AList.update reference (subject_index (ce_Statement collEnv))
                                     (subjectDigestsByReference s),
                                 attestationsByReference :=
                                   AList.update reference attestationIndex (attestationsByReference s)\<rparr>,
                              None)))))"

definition LoadBytes ::
  "(bytes \<Rightarrow> gerr + Envelope) \<Rightarrow> 'd json_codec \<Rightarrow> 'd attestors \<Rightarrow> string \<Rightarrow> bytes \<Rightarrow>
     'd MemorySource \<Rightarrow> ('d MemorySource \<times> gerr option) outcome" where
  "LoadBytes decode jc g reference data s =
     (case decode data of
        Inl err \<Rightarrow> Return (s, Some err)
      | Inr env \<Rightarrow> LoadEnvelope jc g reference env s)"

definition LoadReader ::
  "(bytes \<Rightarrow> gerr + Envelope) \<Rightarrow> 'd json_codec \<Rightarrow> 'd attestors \<Rightarrow> string \<Rightarrow> reader \<Rightarrow>
     'd MemorySource \<Rightarrow> ('d MemorySource \<times> gerr option) outcome" where
  "LoadReader decode jc g reference r s =
     (case r of
        Inl err \<Rightarrow> Return (s, Some err)
      | Inr data \<Rightarrow> LoadBytes decode jc g reference data s)"

definition LoadFile ::
  "(bytes \<Rightarrow> gerr + Envelope) \<Rightarrow> (string \<Rightarrow> gerr + reader) \<Rightarrow> 'd json_codec \<Rightarrow> 'd attestors \<Rightarrow> string \<Rightarrow>
     'd MemorySource \<Rightarrow> ('d MemorySource \<times> gerr option) outcome" where
  "LoadFile decode os_Open jc g path s =
     (case os_Open path of
        Inl err \<Rightarrow> Return (s, Some err)
      | Inr f \<Rightarrow> LoadReader decode jc g path f s)"

text \<open>An absent inner map has no keys.\<close>

definition lookup_set :: "(string, string goset) gomap \<Rightarrow> string \<Rightarrow> string goset" where
  "lookup_set m k = (case map_of m k of None \<Rightarrow> [] | Some s \<Rightarrow> s)"

definition potential_match ::
  "'d MemorySource \<Rightarrow> string list \<Rightarrow> string list \<Rightarrow> string \<Rightarrow> 'd CollectionEnvelope option" where
  "potential_match s subjectDigests attestations reference =
     (case map_of (envelopesByReference s) reference of
        None \<Rightarrow> None
      | Some env \<Rightarrow>
          (let indexSubjects = lookup_set (subjectDigestsByReference s) reference;
               subjectMatchFound = list_ex (\<lambda>d. map_of indexSubjects d \<noteq> None) subjectDigests;
               indexAttestations = lookup_set (attestationsByReference s) reference;
               attestationsMatched = list_all (\<lambda>a. map_of indexAttestations a \<noteq> None) attestations
           in if \<not> subjectMatchFound then None
              else if \<not> attestationsMatched then None
              else Some env))"

definition MemorySource_Search ::
  "'d MemorySource \<Rightarrow> string \<Rightarrow> string list \<Rightarrow> string list \<Rightarrow> gerr + 'd CollectionEnvelope list" where
  "MemorySource_Search s collectionName subjectDigests attestations =
     Inr (List.map_filter (potential_match s subjectDigests attestations)
       (references s collectionName))"

section \<open>The Archivista source\<close>

record ArchivistaSource =
  as_client :: "Client option"
  seenGitoids :: "string list"

definition NewArchvistSource :: "Client option \<Rightarrow> ArchivistaSource" where
  "NewArchvistSource client = \<lparr>as_client = client, seenGitoids = []\<rparr>"

text \<open>The loop over the gitoids: the source, the envelopes so far and the error.\<close>

primrec archivista_loop ::
  "archivista_api \<Rightarrow> 'd json_codec \<Rightarrow> 'd attestors \<Rightarrow> string list \<Rightarrow> ArchivistaSource \<Rightarrow>
     'd CollectionEnvelope list \<Rightarrow> ArchivistaSource \<times> 'd CollectionEnvelope list \<times> gerr option" where
  "archivista_loop api jc g [] s envelopes = (s, envelopes, None)"
| "archivista_loop api jc g (gitoid # gitoids) s envelopes =
     (case Client_Download api (as_client s) gitoid of
        Inl err \<Rightarrow> (s, envelopes, Some err)
      | Inr env \<Rightarrow>
          (let s = s\<lparr>seenGitoids := seenGitoids s @ [gitoid]\<rparr>
           in case envelopeToCollectionEnvelope jc g gitoid env of
                Inl err \<Rightarrow> (s, envelopes, Some err)
              | Inr collectionEnv \<Rightarrow> archivista_loop api jc g gitoids s (envelopes @ [collectionEnv])))"

definition ArchivistaSource_Search ::
  "archivista_api \<Rightarrow> 'd json_codec \<Rightarrow> 'd attestors \<Rightarrow> ArchivistaSource \<Rightarrow> string \<Rightarrow> string list \<Rightarrow>
     string list \<Rightarrow> ArchivistaSource \<times> 'd CollectionEnvelope list \<times> gerr option" where
  "ArchivistaSource_Search api jc g s collectionName subjectDigests attestations =
     (case Client_SearchGitoids api (as_client s)
             \<lparr>sg_SubjectDigests = subjectDigests, sg_CollectionName = collectionName,
              sg_Attestations = attestations, sg_ExcludeGitoids = seenGitoids s\<rparr> of
        Inl err \<Rightarrow> (s, [], Some err)
      | Inr gitoids \<Rightarrow> archivista_loop api jc g gitoids s [])"

section \<open>Querying several sources concurrently\<close>

text \<open>
  Each source is queried by its own goroutine, which sends its results or its error over a channel to a
  collector. Only the order in which the goroutines deliver is not determined: \<open>order\<close> is the list of
  the sources' indexes in that order. \<open>search\<close> is the \<open>Search\<close> of the sources.
\<close>

type_synonym ('s, 'd) searcher =
  "'s \<Rightarrow> string \<Rightarrow> string list \<Rightarrow> string list \<Rightarrow> 's \<times> (gerr + 'd CollectionEnvelope list)"

record ('s, 'd) multi_state =
  mu_sources :: "'s list"
  mu_results :: "'d CollectionEnvelope list"
  mu_errors :: "gerr list"

definition deliver ::
  "('s, 'd) searcher \<Rightarrow> string \<Rightarrow> string list \<Rightarrow> string list \<Rightarrow> nat \<Rightarrow> ('s, 'd) multi_state \<Rightarrow>
     ('s, 'd) multi_state" where
  "deliver search name subjectDigests attestations i m =
     (case search (mu_sources m ! i) name subjectDigests attestations of
        (src, Inl err) \<Rightarrow>
          m\<lparr>mu_sources := (mu_sources m)[i := src], mu_errors := mu_errors m @ [err]\<rparr>
      | (src, Inr res) \<Rightarrow>
          m\<lparr>mu_sources := (mu_sources m)[i := src], mu_results := mu_results m @ res\<rparr>)"

definition MultiSource_Search ::
  "nat list \<Rightarrow> ('s, 'd) searcher \<Rightarrow> ('s list, 'd) searcher" where
  "MultiSource_Search order search sources collectionName subjectDigests attestations =
     (let m = fold (deliver search collectionName subjectDigests attestations) order
                \<lparr>mu_sources = sources, mu_results = [], mu_errors = []\<rparr>
      in (mu_sources m,
          case mu_errors m of
            err # _ \<Rightarrow> Inl err
          | [] \<Rightarrow> Inr (mu_results m)))"

section \<open>The verifying source\<close>

record 'd CollectionVerificationResult = "'d CollectionEnvelope" +
  cvr_Verifiers :: "verifier option list"
  cvr_ValidFunctionaries :: "verifier option list"
  cvr_Errors :: "gerr list"
  cvr_Warnings :: "fval list"

text \<open>A result embeds the envelope it is about.\<close>

definition verification_result ::
  "'d CollectionEnvelope \<Rightarrow> verifier option list \<Rightarrow> gerr list \<Rightarrow> 'd CollectionVerificationResult" where
  "verification_result ce verifiers errors =
     \<lparr>ce_Envelope = ce_Envelope ce, ce_Statement = ce_Statement ce, ce_Collection = ce_Collection ce,
      ce_Reference = ce_Reference ce, cvr_Verifiers = verifiers, cvr_ValidFunctionaries = [],
      cvr_Errors = errors, cvr_Warnings = []\<rparr>"

record 's VerifiedSource =
  vsrc_source :: 's
  vsrc_verifyOpts :: "(verificationOptions \<Rightarrow> verificationOptions) list"

definition verify_collection ::
  "crypto_lib \<Rightarrow> (nat \<Rightarrow> gtime) \<Rightarrow> (verificationOptions \<Rightarrow> verificationOptions) list \<Rightarrow>
     'd CollectionEnvelope \<Rightarrow> 'd CollectionVerificationResult" where
  "verify_collection lib now verifyOpts toVerify =
     (case Envelope_Verify lib now (ce_Envelope toVerify) verifyOpts of
        (_, Some err) \<Rightarrow>
          verification_result toVerify [] [Errorf ''failed to verify envelope: %w'' [FErr err]]
      | (envelopeVerifiers, None) \<Rightarrow>
          (let passedVerifiers =
                 map cv_Verifier (filter (\<lambda>verifier. cv_Error verifier = None) envelopeVerifiers)
           in verification_result toVerify passedVerifiers
                (if passedVerifiers = [] then [Errorf ''no verifiers passed'' []] else [])))"

text \<open>\<open>now i\<close> is the clock during the verification of the \<open>i\<close>-th envelope.\<close>

definition VerifiedSource_Search ::
  "crypto_lib \<Rightarrow> (nat \<Rightarrow> nat \<Rightarrow> gtime) \<Rightarrow> ('s, 'd) searcher \<Rightarrow> 's VerifiedSource \<Rightarrow> string \<Rightarrow>
     string list \<Rightarrow> string list \<Rightarrow> 's VerifiedSource \<times> (gerr + 'd CollectionVerificationResult list)" where
  "VerifiedSource_Search lib now search s collectionName subjectDigests attestations =
     (case search (vsrc_source s) collectionName subjectDigests attestations of
        (src, Inl err) \<Rightarrow> (s\<lparr>vsrc_source := src\<rparr>, Inl err)
      | (src, Inr unverified) \<Rightarrow>
          (s\<lparr>vsrc_source := src\<rparr>,
           Inr (map (\<lambda>(i, toVerify). verify_collection lib (now i) (vsrc_verifyOpts s) toVerify)
                  (enumerate 0 unverified))))"

section \<open>What a source promises\<close>

text \<open>A collection envelope matches a search: it is for the step, one of the subject digests is among
  those of its statement, and it has an attestation of every type asked for.\<close>

definition statement_digests :: "Statement \<Rightarrow> string set" where
  "statement_digests st = (\<Union>sub \<in> set (st_Subject st). snd ` set (subj_Digest sub))"

definition attestor_types :: "'d Collection \<Rightarrow> string set" where
  "attestor_types c = {att_Type a | ca a. ca \<in> set (col_Attestations c) \<and> ca_Attestation ca = Some a}"

definition matches ::
  "string \<Rightarrow> string list \<Rightarrow> string list \<Rightarrow> ('d, 'x) CollectionEnvelope_scheme \<Rightarrow> bool" where
  "matches name subjectDigests attestations ce \<longleftrightarrow>
     col_Name (ce_Collection ce) = name \<and>
     (\<exists>d \<in> set subjectDigests. d \<in> statement_digests (ce_Statement ce)) \<and>
     set attestations \<subseteq> attestor_types (ce_Collection ce)"

locale sourcer =
  fixes search :: "('s, 'd) searcher" and inv :: "'s \<Rightarrow> bool"
  assumes search_inv: "inv s \<Longrightarrow> inv (fst (search s name ds as))"
    and search_matches: "inv s \<Longrightarrow> snd (search s name ds as) = Inr res \<Longrightarrow> ce \<in> set res \<Longrightarrow>
      matches name ds as ce"
begin

text \<open>A verified search returns one result for every envelope found, in order; each matches the search.\<close>

lemma verified_matches:
  assumes "inv (vsrc_source s)" and "snd (VerifiedSource_Search lib now search s name ds as) = Inr rs"
    and "r \<in> set rs"
  shows "matches name ds as r"
proof -
  from assms(2,3) obtain res i ce where res: "snd (search (vsrc_source s) name ds as) = Inr res"
    and ce: "(i, ce) \<in> set (enumerate 0 res)"
    and r: "r = verify_collection lib (now i) (vsrc_verifyOpts s) ce"
    by (auto simp: VerifiedSource_Search_def split: prod.splits sum.splits)
  from ce have "ce \<in> set res" by (auto simp: in_set_enumerate_eq)
  with search_matches [OF assms(1) res] have "matches name ds as ce" by blast
  with r show ?thesis
    by (auto simp: matches_def verify_collection_def verification_result_def Let_def
        split: prod.splits option.splits)
qed

lemma verified_inv:
  "inv (vsrc_source s) \<Longrightarrow> inv (vsrc_source (fst (VerifiedSource_Search lib now search s name ds as)))"
  using search_inv [of "vsrc_source s" name ds as]
  by (auto simp: VerifiedSource_Search_def split: prod.splits sum.splits)

end

text \<open>A source over several sources, delivering in some order, keeps the promise if each of them does.\<close>

locale multi_sourcer = sourcer search inv
  for search :: "('s, 'd) searcher" and inv +
  fixes order :: "nat list"
begin

definition multi_inv :: "'s list \<Rightarrow> bool" where
  "multi_inv ss \<longleftrightarrow> (\<forall>s \<in> set ss. inv s) \<and> set order \<subseteq> {..<length ss}"

lemma deliver_keeps:
  assumes "\<forall>s \<in> set (mu_sources m). inv s" and "i < length (mu_sources m)"
    and "\<forall>ce \<in> set (mu_results m). matches name ds as ce"
  shows "(\<forall>s \<in> set (mu_sources (deliver search name ds as i m)). inv s) \<and>
    length (mu_sources (deliver search name ds as i m)) = length (mu_sources m) \<and>
    (\<forall>ce \<in> set (mu_results (deliver search name ds as i m)). matches name ds as ce)"
proof -
  obtain src r where sr: "search (mu_sources m ! i) name ds as = (src, r)" by fastforce
  from assms(1,2) have i: "inv (mu_sources m ! i)" by simp
  from search_inv [OF i, of name ds as] sr have src: "inv src" by simp
  with assms(1) have "\<forall>s \<in> set ((mu_sources m)[i := src]). inv s"
    using set_update_subset_insert [of "mu_sources m" i src] by blast
  moreover have "r = Inr res \<Longrightarrow> \<forall>ce \<in> set res. matches name ds as ce" for res
    using search_matches [OF i, of name ds as res] sr by simp
  ultimately show ?thesis using assms(3) sr by (auto simp: deliver_def split: sum.splits)
qed

lemma deliver_all_keeps:
  assumes "\<forall>s \<in> set (mu_sources m). inv s" and "set is \<subseteq> {..<length (mu_sources m)}"
    and "\<forall>ce \<in> set (mu_results m). matches name ds as ce"
  shows "(\<forall>s \<in> set (mu_sources (fold (deliver search name ds as) is m)). inv s) \<and>
    length (mu_sources (fold (deliver search name ds as) is m)) = length (mu_sources m) \<and>
    (\<forall>ce \<in> set (mu_results (fold (deliver search name ds as) is m)). matches name ds as ce)"
  using assms
proof (induction "is" arbitrary: m)
  case Nil
  then show ?case by simp
next
  case (Cons i "is")
  from Cons.prems have "i < length (mu_sources m)" by simp
  note step = deliver_keeps [OF Cons.prems(1) this Cons.prems(3)]
  from Cons.IH [of "deliver search name ds as i m"] step Cons.prems(2) show ?case by simp
qed

end

sublocale multi_sourcer \<subseteq> multi: sourcer "MultiSource_Search order search" multi_inv
proof
  fix ss name ds as
  assume "multi_inv ss"
  then have "\<forall>s \<in> set ss. inv s" "set order \<subseteq> {..<length ss}" by (simp_all add: multi_inv_def)
  then show "multi_inv (fst (MultiSource_Search order search ss name ds as))"
    using deliver_all_keeps [of "\<lparr>mu_sources = ss, mu_results = [], mu_errors = []\<rparr>" order name ds as]
    by (simp add: MultiSource_Search_def Let_def multi_inv_def)
next
  fix ss name ds as res ce
  assume "multi_inv ss" and res: "snd (MultiSource_Search order search ss name ds as) = Inr res"
    and "ce \<in> set res"
  then have "\<forall>s \<in> set ss. inv s" "set order \<subseteq> {..<length ss}" by (simp_all add: multi_inv_def)
  with deliver_all_keeps [of "\<lparr>mu_sources = ss, mu_results = [], mu_errors = []\<rparr>" order name ds as]
    res \<open>ce \<in> set res\<close>
  show "matches name ds as ce" by (auto simp: MultiSource_Search_def Let_def split: list.splits)
qed

section \<open>The in-memory source keeps the promise\<close>

text \<open>The invariant: the indexes agree with the envelopes.\<close>

definition indexed :: "'d MemorySource \<Rightarrow> string \<Rightarrow> 'd CollectionEnvelope \<Rightarrow> bool" where
  "indexed s ref ce \<longleftrightarrow> ce_Reference ce = ref \<and>
     fst ` set (lookup_set (subjectDigestsByReference s) ref) = statement_digests (ce_Statement ce) \<and>
     fst ` set (lookup_set (attestationsByReference s) ref) = attestor_types (ce_Collection ce)"

definition memory_inv :: "'d MemorySource \<Rightarrow> bool" where
  "memory_inv s \<longleftrightarrow>
     (\<forall>ref ce. map_of (envelopesByReference s) ref = Some ce \<longrightarrow> indexed s ref ce) \<and>
     (\<forall>name ref. ref \<in> set (references s name) \<longleftrightarrow>
        (\<exists>ce. map_of (envelopesByReference s) ref = Some ce \<and> col_Name (ce_Collection ce) = name)) \<and>
     (\<forall>name. distinct (references s name))"

lemma memory_invD:
  assumes "memory_inv s"
  shows "map_of (envelopesByReference s) ref = Some ce \<Longrightarrow> indexed s ref ce"
    and "ref \<in> set (references s name) \<longleftrightarrow>
      (\<exists>ce. map_of (envelopesByReference s) ref = Some ce \<and> col_Name (ce_Collection ce) = name)"
    and "distinct (references s name)"
  using assms unfolding memory_inv_def by blast+

lemma NewMemorySource_inv: "memory_inv NewMemorySource"
  by (simp add: memory_inv_def NewMemorySource_def references_def)

lemma subject_index_keys: "fst ` set (subject_index st) = statement_digests st"
proof -
  have "fst ` set (fold (\<lambda>sub. put_keys (map snd (subj_Digest sub))) subs m) =
      fst ` set m \<union> (\<Union>sub \<in> set subs. snd ` set (subj_Digest sub))" for subs and m :: "string goset"
    by (induction subs arbitrary: m) (auto simp: keys_put_keys)
  from this [of "st_Subject st" "[]"] show ?thesis
    by (simp add: subject_index_def statement_digests_def)
qed

lemma attestation_index_loop:
  assumes "foldO (\<lambda>ca index. case ca_Attestation ca of
      None \<Rightarrow> Panic p | Some a \<Rightarrow> Return (AList.update (att_Type a) () index)) cas m = Return idx"
  shows "fst ` set idx = fst ` set m \<union> {att_Type a | ca a. ca \<in> set cas \<and> ca_Attestation ca = Some a}"
  using assms
proof (induction cas arbitrary: m)
  case Nil
  then show ?case by simp
next
  case (Cons ca cas)
  then obtain a where a: "ca_Attestation ca = Some a" by (auto split: option.splits)
  with Cons.prems have "foldO (\<lambda>ca index. case ca_Attestation ca of
      None \<Rightarrow> Panic p | Some a \<Rightarrow> Return (AList.update (att_Type a) () index)) cas
      (AList.update (att_Type a) () m) = Return idx" by simp
  from Cons.IH [OF this] a show ?case by (auto simp: dom_update)
qed

lemma attestation_index_types:
  "attestation_index c = Return idx \<Longrightarrow> fst ` set idx = attestor_types c"
  using attestation_index_loop [of _ "col_Attestations c" "[]" idx]
  by (simp add: attestation_index_def attestor_types_def)

text \<open>Loading either changes nothing or adds one envelope with its entries in the indexes.\<close>

lemma LoadEnvelope_cases:
  assumes "LoadEnvelope jc g ref env s = Return (s', err)"
  obtains (unchanged) "s' = s" "err \<noteq> None"
  | (loaded) ce idx where "err = None" "map_of (envelopesByReference s) ref = None"
      "envelopeToCollectionEnvelope jc g ref env = Inr ce"
      "attestation_index (ce_Collection ce) = Return idx"
      "envelopesByReference s' = AList.update ref ce (envelopesByReference s)"
      "\<And>name. references s' name =
         (if name = col_Name (ce_Collection ce) then references s name @ [ref] else references s name)"
      "\<And>r. lookup_set (subjectDigestsByReference s') r =
         (if r = ref then subject_index (ce_Statement ce) else lookup_set (subjectDigestsByReference s) r)"
      "\<And>r. lookup_set (attestationsByReference s') r =
         (if r = ref then idx else lookup_set (attestationsByReference s) r)"
proof (cases "map_of (envelopesByReference s) ref")
  case (Some x)
  with assms show thesis by (intro that(1)) (auto simp: LoadEnvelope_def)
next
  case None
  show thesis
  proof (cases "envelopeToCollectionEnvelope jc g ref env")
    case (Inl e)
    with None assms show thesis by (intro that(1)) (auto simp: LoadEnvelope_def)
  next
    case (Inr ce)
    from Inr None assms obtain idx where
      idx: "attestation_index (ce_Collection ce) = Return idx" and "err = None"
      and s': "s' = s\<lparr>envelopesByReference := AList.update ref ce (envelopesByReference s),
        referencesByCollectionName := AList.update (col_Name (ce_Collection ce))
          (references s (col_Name (ce_Collection ce)) @ [ref]) (referencesByCollectionName s),
        subjectDigestsByReference := AList.update ref (subject_index (ce_Statement ce)) (subjectDigestsByReference s),
        attestationsByReference := AList.update ref idx (attestationsByReference s)\<rparr>"
      by (auto simp: LoadEnvelope_def Let_def)
    show thesis
      by (rule that(2) [OF \<open>err = None\<close> None Inr idx])
        (simp_all add: s' references_def lookup_set_def update_conv)
  qed
qed

lemma LoadEnvelope_inv:
  assumes "memory_inv s" and "LoadEnvelope jc g ref env s = Return (s', err)"
  shows "memory_inv s'"
  using assms(2)
proof (cases rule: LoadEnvelope_cases)
  case unchanged
  with assms(1) show ?thesis by simp
next
  case (loaded ce idx)
  note inv = memory_invD [OF assms(1)]
  from loaded(3) have ref: "ce_Reference ce = ref"
    by (auto simp: envelopeToCollectionEnvelope_def split: sum.splits)
  have new: "ref \<notin> set (references s name)" for name
    using inv(2) loaded(2) by simp
  have "indexed s' r c" if "map_of (envelopesByReference s') r = Some c" for r c
  proof (cases "r = ref")
    case True
    with that loaded ref attestation_index_types [OF loaded(4)] show ?thesis
      by (simp add: indexed_def update_conv subject_index_keys)
  next
    case False
    with that loaded(5) have "indexed s r c" by (intro inv(1)) (simp add: update_conv)
    with False loaded(7,8) show ?thesis by (simp add: indexed_def)
  qed
  moreover have "r \<in> set (references s' name) \<longleftrightarrow>
      (\<exists>c. map_of (envelopesByReference s') r = Some c \<and> col_Name (ce_Collection c) = name)" for name r
    using new [of name] inv(2) [of r name] loaded(5,6) by (cases "r = ref") (auto simp: update_conv)
  moreover have "distinct (references s' name)" for name
    using new [of name] inv(3) [of name] loaded(6) by (cases "name = col_Name (ce_Collection ce)") simp_all
  ultimately show ?thesis unfolding memory_inv_def by blast
qed

lemma potential_match_iff:
  assumes "memory_inv s"
  shows "potential_match s ds as ref = Some ce \<longleftrightarrow>
    map_of (envelopesByReference s) ref = Some ce \<and>
    (\<exists>d \<in> set ds. d \<in> statement_digests (ce_Statement ce)) \<and>
    set as \<subseteq> attestor_types (ce_Collection ce)"
proof (cases "map_of (envelopesByReference s) ref")
  case None
  then show ?thesis by (simp add: potential_match_def)
next
  case (Some e)
  from memory_invD(1) [OF assms Some]
  have "map_of (lookup_set (subjectDigestsByReference s) ref) d \<noteq> None \<longleftrightarrow> d \<in> statement_digests (ce_Statement e)"
    and "map_of (lookup_set (attestationsByReference s) ref) a \<noteq> None \<longleftrightarrow> a \<in> attestor_types (ce_Collection e)" for d a
    by (simp_all only: indexed_def map_of_None_iff) simp_all
  then show ?thesis
    by (simp only: potential_match_def Some option.case Let_def list_ex_iff list_all_iff) auto
qed

lemma set_map_filter_Some: "y \<in> set (List.map_filter f xs) \<longleftrightarrow> (\<exists>x \<in> set xs. f x = Some y)"
  by (induction xs) (auto simp: List.map_filter_def split: option.splits)

lemma MemorySource_Search_set:
  assumes "memory_inv s" and "MemorySource_Search s name ds as = Inr res"
  shows "ce \<in> set res \<longleftrightarrow> (\<exists>ref. map_of (envelopesByReference s) ref = Some ce) \<and> matches name ds as ce"
proof -
  from assms(2) have "ce \<in> set res \<longleftrightarrow> (\<exists>ref \<in> set (references s name). potential_match s ds as ref = Some ce)"
    by (auto simp: MemorySource_Search_def set_map_filter_Some)
  also have "\<dots> \<longleftrightarrow> (\<exists>ref. (\<exists>c. map_of (envelopesByReference s) ref = Some c \<and> col_Name (ce_Collection c) = name) \<and>
      potential_match s ds as ref = Some ce)"
    unfolding memory_invD(2) [OF assms(1), symmetric] by blast
  also have "\<dots> \<longleftrightarrow> (\<exists>ref. map_of (envelopesByReference s) ref = Some ce) \<and> matches name ds as ce"
    using potential_match_iff [OF assms(1)] by (auto simp: matches_def)
  finally show ?thesis .
qed

definition memory_search :: "('d MemorySource, 'd) searcher" where
  "memory_search s name ds as = (s, MemorySource_Search s name ds as)"

interpretation mem: sourcer memory_search memory_inv
  by unfold_locales (auto simp: memory_search_def MemorySource_Search_set)

interpretation mems: multi_sourcer memory_search memory_inv order for order
  by unfold_locales

section \<open>Lemmas: the other sources\<close>

text \<open>What the sources found, and their errors, in the order of delivery.\<close>

definition found_by ::
  "('s, 'd) searcher \<Rightarrow> 's list \<Rightarrow> string \<Rightarrow> string list \<Rightarrow> string list \<Rightarrow> nat \<Rightarrow> 'd CollectionEnvelope list" where
  "found_by search srcs name ds as i =
     (case snd (search (srcs ! i) name ds as) of Inl e \<Rightarrow> [] | Inr res \<Rightarrow> res)"

definition error_of ::
  "('s, 'd) searcher \<Rightarrow> 's list \<Rightarrow> string \<Rightarrow> string list \<Rightarrow> string list \<Rightarrow> nat \<Rightarrow> gerr list" where
  "error_of search srcs name ds as i =
     (case snd (search (srcs ! i) name ds as) of Inl e \<Rightarrow> [e] | Inr res \<Rightarrow> [])"

lemma deliver_all:
  assumes "distinct is" and "set is \<subseteq> {..<length (mu_sources m)}"
    and "\<forall>i \<in> set is. mu_sources m ! i = srcs ! i"
  shows "mu_results (fold (deliver search name ds as) is m) =
      mu_results m @ concat (map (found_by search srcs name ds as) is) \<and>
    mu_errors (fold (deliver search name ds as) is m) =
      mu_errors m @ concat (map (error_of search srcs name ds as) is)"
  using assms
proof (induction "is" arbitrary: m)
  case Nil
  then show ?case by simp
next
  case (Cons i "is")
  obtain src r where sr: "search (srcs ! i) name ds as = (src, r)" by fastforce
  let ?m = "deliver search name ds as i m"
  from Cons.prems(3) sr have srcs: "mu_sources ?m = (mu_sources m)[i := src]"
    and res: "mu_results ?m = mu_results m @ found_by search srcs name ds as i"
    and errs: "mu_errors ?m = mu_errors m @ error_of search srcs name ds as i"
    by (auto simp: deliver_def found_by_def error_of_def split: sum.splits)
  have "mu_sources ?m ! j = srcs ! j" if "j \<in> set is" for j
    using that Cons.prems srcs by (cases "j = i") auto
  with Cons.IH [of ?m] Cons.prems srcs res errs show ?case by simp
qed

lemma verify_collection_cases:
  obtains (failed) err where "snd (Envelope_Verify lib now (ce_Envelope ce) opts) = Some err"
      "verify_collection lib now opts ce =
         verification_result ce [] [Errorf ''failed to verify envelope: %w'' [FErr err]]"
  | (verified) cs where "Envelope_Verify lib now (ce_Envelope ce) opts = (cs, None)"
      "passed_verifiers cs \<noteq> []"
      "verify_collection lib now opts ce = verification_result ce (map cv_Verifier (passed_verifiers cs)) []"
proof (cases "Envelope_Verify lib now (ce_Envelope ce) opts")
  case (Pair cs err)
  show thesis
  proof (cases err)
    case (Some e)
    with Pair show thesis by (intro that(1)) (auto simp: verify_collection_def)
  next
    case None
    with Pair have ok: "Envelope_Verify lib now (ce_Envelope ce) opts = (cs, None)" by simp
    from ok have "passed_verifiers cs \<noteq> []" unfolding Envelope_Verify_ok_iff Let_def by force
    with ok show thesis
      by (intro that(2)) (auto simp: verify_collection_def passed_verifiers_def Let_def)
  qed
qed

lemma verify_collection_verifiers:
  assumes "v \<in> set (cvr_Verifiers (verify_collection lib now opts ce))"
  shows "\<exists>w. v = Some w \<and> (\<exists>sig \<in> set (env_Signatures (ce_Envelope ce)).
    accepts lib now (fold (\<lambda>opt vo. opt vo) opts default_options)
      (preauthEncode (env_PayloadType (ce_Envelope ce)) (env_Payload (ce_Envelope ce))) sig w)"
proof (cases rule: verify_collection_cases [of lib now ce opts])
  case failed
  with assms show ?thesis by (simp add: verification_result_def)
next
  case (verified cs)
  with assms obtain c where c: "c \<in> set (passed_verifiers cs)" and v: "v = cv_Verifier c"
    by (auto simp: verification_result_def)
  from verified(1) have "cs = fst (check_signatures lib now (fold (\<lambda>opt vo. opt vo) opts default_options)
      (preauthEncode (env_PayloadType (ce_Envelope ce)) (env_Payload (ce_Envelope ce))) 0
      (env_Signatures (ce_Envelope ce)))"
    unfolding Envelope_Verify_ok_iff Let_def by blast
  from check_signatures_passed [OF c [unfolded this]] v show ?thesis by blast
qed

lemma archivista_loop_ok:
  assumes "archivista_loop api jc g gs s envs = (s', envs', None)"
  shows "seenGitoids s' = seenGitoids s @ gs \<and> as_client s' = as_client s \<and>
    map ce_Reference envs' = map ce_Reference envs @ gs"
  using assms
proof (induction gs arbitrary: s envs)
  case Nil
  then show ?case by simp
next
  case (Cons gitoid gs)
  then obtain env ce where "envelopeToCollectionEnvelope jc g gitoid env = Inr ce"
    and rest: "archivista_loop api jc g gs (s\<lparr>seenGitoids := seenGitoids s @ [gitoid]\<rparr>) (envs @ [ce]) = (s', envs', None)"
    by (auto simp: Let_def split: sum.splits)
  moreover from this have "ce_Reference ce = gitoid"
    by (auto simp: envelopeToCollectionEnvelope_def split: sum.splits)
  ultimately show ?case using Cons.IH [OF rest] by simp
qed

section \<open>Properties\<close>

text \<open>C35. The in-memory source finds exactly what was loaded: after any loads that keep its indexes (every
  load does), a search returns precisely the loaded envelopes that are for the step, carry one of the
  subject digests and have an attestation of every type asked for.\<close>

theorem MemorySource_search_exact:
  assumes "memory_inv s" and "LoadEnvelope jc g ref env s = Return (s', err)"
  shows "\<exists>found. MemorySource_Search s' name subjectDigests attestations = Inr found \<and>
    set found = {ce. (\<exists>r. map_of (envelopesByReference s') r = Some ce) \<and>
                     matches name subjectDigests attestations ce}"
proof -
  obtain found where "MemorySource_Search s' name subjectDigests attestations = Inr found"
    by (simp add: MemorySource_Search_def)
  with MemorySource_Search_set [OF LoadEnvelope_inv [OF assms]] show ?thesis by blast
qed

definition sample_statement :: Statement where
  "sample_statement = \<lparr>st_Type = [], st_Subject = [\<lparr>subj_Name = ''s'', subj_Digest = [(''sha256'', ''d'')]\<rparr>],
     st_PredicateType = CollectionType, st_Predicate = ''p''\<rparr>"

definition sample_codec :: "unit json_codec" where
  "sample_codec = \<lparr>jc_statement = \<lambda>_. Inr sample_statement, jc_collection = \<lambda>_. Inr (''build'', [''a'']),
     jc_proposed = \<lambda>_. Inr (''material'', ''{}'', 0, 0), jc_attestor = \<lambda>a b. Inr (if b = ''null'' then None else Some a)\<rparr>"

definition sample_registry :: "unit attestors" where
  "sample_registry = RegisterAttestation ''material'' ''material'' MaterialRunType
     (\<lambda>_. sample_attestor ''material'' None None) [] no_attestors"

lemmas sample_source_defs = sample_codec_def sample_registry_def sample_statement_def sample_attestor_def
  no_attestors_def

lemma sample_load:
  "\<exists>s. LoadEnvelope sample_codec sample_registry ''ref'' sample_envelope NewMemorySource = Return (s, None) \<and>
     (\<exists>ce. map_of (envelopesByReference s) ''ref'' = Some ce \<and> matches ''build'' [''d''] [''material''] ce)"
  by (simp add: LoadEnvelope_def NewMemorySource_def envelopeToCollectionEnvelope_def Collection_Unmarshal_def
      CollectionAttestation_UnmarshalJSON_def attestation_index_def FactoryByType_def RegisterAttestation_def
      Register_def Let_def matches_def statement_digests_def attestor_types_def sample_source_defs)

theorem MemorySource_search_exact_witness:
  "\<exists>s found. LoadEnvelope sample_codec sample_registry ''ref'' sample_envelope NewMemorySource = Return (s, None) \<and>
     MemorySource_Search s ''build'' [''d''] [''material''] = Inr found \<and> found \<noteq> []"
proof -
  from sample_load obtain s ce where
    s: "LoadEnvelope sample_codec sample_registry ''ref'' sample_envelope NewMemorySource = Return (s, None)"
    and "map_of (envelopesByReference s) ''ref'' = Some ce" and "matches ''build'' [''d''] [''material''] ce"
    by blast
  moreover from MemorySource_search_exact [OF NewMemorySource_inv s, of "''build''" "[''d'']" "[''material'']"]
  obtain found where "MemorySource_Search s ''build'' [''d''] [''material''] = Inr found"
    "set found = {ce. (\<exists>r. map_of (envelopesByReference s) r = Some ce) \<and> matches ''build'' [''d''] [''material''] ce}"
    by blast
  ultimately show ?thesis by fastforce
qed

text \<open>C36. Querying several sources gives the same answer in whatever order they deliver: without an error,
  all the envelopes that the sources found, each as often as it was found, and with one, an error that
  some source returned.\<close>

theorem MultiSource_any_order:
  assumes "distinct order" and "set order = {..<length sources}"
  shows "case snd (MultiSource_Search order search sources name ds as) of
    Inl err \<Rightarrow> \<exists>i < length sources. snd (search (sources ! i) name ds as) = Inl err
  | Inr found \<Rightarrow>
      (\<forall>i < length sources. \<exists>res. snd (search (sources ! i) name ds as) = Inr res) \<and>
      mset found = mset (concat (map (found_by search sources name ds as) [0..<length sources]))"
proof -
  have ord: "mset order = mset [0..<length sources]"
    using assms by (metis atLeast_upt distinct_upt set_eq_iff_mset_eq_distinct)
  let ?m = "\<lparr>mu_sources = sources, mu_results = [], mu_errors = []\<rparr>"
  from assms have results: "mu_results (fold (deliver search name ds as) order ?m) =
      concat (map (found_by search sources name ds as) order)"
    and errors: "mu_errors (fold (deliver search name ds as) order ?m) =
      concat (map (error_of search sources name ds as) order)"
    using deliver_all [of order ?m sources search name ds as] by simp_all
  have res: "snd (MultiSource_Search order search sources name ds as) =
      (case concat (map (error_of search sources name ds as) order) of
         err # _ \<Rightarrow> Inl err | [] \<Rightarrow> Inr (concat (map (found_by search sources name ds as) order)))"
    by (simp only: MultiSource_Search_def Let_def snd_conv results errors)
  show ?thesis
  proof (cases "concat (map (error_of search sources name ds as) order)")
    case Nil
    have "\<exists>res. snd (search (sources ! i) name ds as) = Inr res" if "i < length sources" for i
    proof -
      from that assms(2) have "i \<in> set order" by simp
      with Nil have "error_of search sources name ds as i = []" by simp
      then show ?thesis by (cases "snd (search (sources ! i) name ds as)") (simp_all add: error_of_def)
    qed
    moreover have "mset (concat (map (found_by search sources name ds as) order)) =
        mset (concat (map (found_by search sources name ds as) [0..<length sources]))"
      unfolding mset_concat by (metis (no_types, lifting) ord mset_map map_map sum_mset_sum_list)
    ultimately show ?thesis unfolding res Nil by simp
  next
    case (Cons err errs)
    then have "err \<in> set (concat (map (error_of search sources name ds as) order))" by simp
    then obtain i where "i \<in> set order" and "err \<in> set (error_of search sources name ds as i)" by auto
    with assms(2) have "i < length sources" and "snd (search (sources ! i) name ds as) = Inl err"
      by (auto simp: error_of_def split: sum.splits)
    then show ?thesis unfolding res Cons by auto
  qed
qed

theorem MultiSource_any_order_witness:
  "snd (MultiSource_Search [1, 0] (\<lambda>s name ds as. (s, s)) [Inr [zero_collection_envelope], Inr []] ''n'' [] [])
     = Inr ([zero_collection_envelope] :: unit CollectionEnvelope list)"
proof -
  have "set [1, 0] = {..<length [Inr [zero_collection_envelope :: unit CollectionEnvelope], Inr []]}"
    by (auto simp: lessThan_Suc)
  from MultiSource_any_order [OF _ this, of "\<lambda>s name ds as. (s, s)" "''n''" "[]" "[]"]
  show ?thesis by (simp add: MultiSource_Search_def deliver_def)
qed

text \<open>C8. The verifying source keeps every envelope found and marks what it verified: the results are for
  the envelopes of the underlying search in their order, and each verifier it lists for a result
  accepted a signature of that very envelope, over its payload and payload type, under the configured
  options; a result without errors lists at least as many as the threshold asks for.\<close>

theorem VerifiedSource_sound:
  assumes "search (vsrc_source s) name ds as = (src, Inr envelopes)"
    and "options = fold (\<lambda>opt vo. opt vo) (vsrc_verifyOpts s) default_options"
  shows "\<exists>results. snd (VerifiedSource_Search lib now search s name ds as) = Inr results \<and>
    map ce_Envelope results = map ce_Envelope envelopes \<and>
    (\<forall>i < length results.
       (\<forall>v \<in> set (cvr_Verifiers (results ! i)). \<exists>w. v = Some w \<and>
          (\<exists>sig \<in> set (env_Signatures (ce_Envelope (results ! i))).
             accepts lib (now i) options
               (preauthEncode (env_PayloadType (ce_Envelope (results ! i))) (env_Payload (ce_Envelope (results ! i))))
               sig w)) \<and>
       (cvr_Errors (results ! i) = [] \<longrightarrow>
          0 < vo_threshold options \<and> vo_threshold options \<le> int (length (cvr_Verifiers (results ! i)))))"
proof -
  let ?f = "\<lambda>i ce. verify_collection lib (now i) (vsrc_verifyOpts s) ce"
  let ?rs = "map (\<lambda>(i, ce). ?f i ce) (enumerate 0 envelopes)"
  have env: "ce_Envelope (?f i ce) = ce_Envelope ce" for i ce
    by (cases rule: verify_collection_cases [of lib "now i" ce "vsrc_verifyOpts s"])
      (simp_all add: verification_result_def)
  have nth: "?rs ! i = ?f i (envelopes ! i)" if "i < length envelopes" for i
    using that by (simp add: nth_enumerate_eq)
  have thr: "cvr_Errors (?f i ce) = [] \<longrightarrow>
      0 < vo_threshold options \<and> vo_threshold options \<le> int (length (cvr_Verifiers (?f i ce)))" for i ce
  proof (cases rule: verify_collection_cases [of lib "now i" ce "vsrc_verifyOpts s"])
    case failed
    then show ?thesis by (simp add: verification_result_def)
  next
    case (verified cs)
    from verified(1) have "0 < vo_threshold options" "vo_threshold options \<le> int (length (passed_verifiers cs))"
      unfolding Envelope_Verify_ok_iff Let_def assms(2) by blast+
    with verified(3) show ?thesis by (simp add: verification_result_def)
  qed
  have acc: "\<forall>v \<in> set (cvr_Verifiers (?f i ce)). \<exists>w. v = Some w \<and>
      (\<exists>sig \<in> set (env_Signatures (ce_Envelope (?f i ce))). accepts lib (now i) options
        (preauthEncode (env_PayloadType (ce_Envelope (?f i ce))) (env_Payload (ce_Envelope (?f i ce)))) sig w)" for i ce
    using verify_collection_verifiers [of _ lib "now i" "vsrc_verifyOpts s" ce, folded assms(2)]
    unfolding env by blast
  have each: "\<forall>i < length ?rs. P i (?rs ! i)" if "\<And>i ce. P i (?f i ce)" for P
    using nth that by simp
  show ?thesis
  proof (intro exI [of _ ?rs] conjI)
    show "map ce_Envelope ?rs = map ce_Envelope envelopes"
      by (rule nth_equalityI) (simp_all add: nth_enumerate_eq env)
    show "snd (VerifiedSource_Search lib now search s name ds as) = Inr ?rs"
      by (simp add: VerifiedSource_Search_def assms(1))
  qed (rule each, use acc thr in blast)
qed

theorem VerifiedSource_sound_witness:
  "\<exists>r. snd (VerifiedSource_Search sample_lib (\<lambda>_ _. 0) (\<lambda>s name ds as. (s, Inr s))
       \<lparr>vsrc_source = [zero_collection_envelope\<lparr>ce_Envelope := sample_envelope\<rparr> :: unit CollectionEnvelope],
        vsrc_verifyOpts = [VerifyWithVerifiers [Some (ECDSAVerifier ''k'' SHA256)]]\<rparr> ''n'' [] []) = Inr [r] \<and>
     cvr_Verifiers r = [Some (ECDSAVerifier ''k'' SHA256)]"
proof -
  let ?s = "\<lparr>vsrc_source = [zero_collection_envelope\<lparr>ce_Envelope := sample_envelope\<rparr> :: unit CollectionEnvelope],
        vsrc_verifyOpts = [VerifyWithVerifiers [Some (ECDSAVerifier ''k'' SHA256)]]\<rparr>"
  from VerifiedSource_sound [where search = "\<lambda>s name ds as. (s, Inr s)" and s = ?s and name = "''n''"
      and ds = "[]" and as = "[]" and lib = sample_lib and now = "\<lambda>_ _. 0", OF _ refl]
  obtain results where "snd (VerifiedSource_Search sample_lib (\<lambda>_ _. 0) (\<lambda>s name ds as. (s, Inr s)) ?s ''n'' [] []) = Inr results"
    "map ce_Envelope results = [sample_envelope]" by auto
  then show ?thesis
    using sample_envelope_verifies
    by (auto simp: VerifiedSource_Search_def verify_collection_def verification_result_def)
qed

text \<open>The Archivista source does not return an envelope twice, as long as the server honours the
  gitoids excluded by the query: a successful search returns the envelopes of gitoids not seen before,
  each once, and remembers them.\<close>

theorem ArchivistaSource_no_repeats:
  assumes "\<And>url vars h gs. api_query api url vars h = Inr gs \<Longrightarrow>
      distinct gs \<and> set gs \<inter> set (sg_ExcludeGitoids vars) = {}"
    and "distinct (seenGitoids s)"
    and "ArchivistaSource_Search api jc g s name ds as = (s', envelopes, None)"
  shows "seenGitoids s' = seenGitoids s @ map ce_Reference envelopes \<and> distinct (seenGitoids s')"
proof -
  from assms(3) obtain gs where gs: "Client_SearchGitoids api (as_client s)
      \<lparr>sg_SubjectDigests = ds, sg_CollectionName = name, sg_Attestations = as,
       sg_ExcludeGitoids = seenGitoids s\<rparr> = Inr gs"
    and loop: "archivista_loop api jc g gs s [] = (s', envelopes, None)"
    by (auto simp: ArchivistaSource_Search_def split: sum.splits)
  from gs have "distinct gs \<and> set gs \<inter> set (seenGitoids s) = {}"
    unfolding Client_SearchGitoids_ok using assms(1) by fastforce
  with archivista_loop_ok [OF loop] assms(2) show ?thesis by auto
qed

definition sample_api :: archivista_api where
  "sample_api = \<lparr>api_query = \<lambda>url vars h. Inr (if List.member (sg_ExcludeGitoids vars) ''gitoid'' then [] else [''gitoid'']),
     api_Download = \<lambda>url gitoid h. Inr sample_envelope, api_Store = \<lambda>url env h. Inr ''gitoid''\<rparr>"

theorem ArchivistaSource_no_repeats_witness:
  "\<exists>s envelopes. ArchivistaSource_Search sample_api sample_codec sample_registry
       (NewArchvistSource (Some (archivista_New ''u'' []))) ''build'' [''d''] [] = (s, envelopes, None) \<and>
     map ce_Reference envelopes = [''gitoid''] \<and> distinct (seenGitoids s)"
proof -
  let ?s = "NewArchvistSource (Some (archivista_New ''u'' []))"
  have "\<exists>s envelopes. ArchivistaSource_Search sample_api sample_codec sample_registry ?s ''build'' [''d''] [] =
      (s, envelopes, None) \<and> map ce_Reference envelopes = [''gitoid'']"
    by (simp add: ArchivistaSource_Search_def Client_SearchGitoids_def Client_Download_def Client_validate_def
        client_url_def NewArchvistSource_def archivista_New_def sample_api_def envelopeToCollectionEnvelope_def
        Collection_Unmarshal_def CollectionAttestation_UnmarshalJSON_def FactoryByType_def RegisterAttestation_def
        Register_def Let_def sample_source_defs)
  then obtain s envelopes where
    res: "ArchivistaSource_Search sample_api sample_codec sample_registry ?s ''build'' [''d''] [] = (s, envelopes, None)"
    and refs: "map ce_Reference envelopes = [''gitoid'']" by (elim exE conjE)
  have "distinct gs \<and> set gs \<inter> set (sg_ExcludeGitoids vars) = {}"
    if "api_query sample_api url vars h = Inr gs" for url vars h gs
    using that by (auto simp: sample_api_def split: if_splits)
  moreover have "distinct (seenGitoids ?s)" by (simp add: NewArchvistSource_def)
  ultimately have "distinct (seenGitoids s)"
    using ArchivistaSource_no_repeats [of sample_api ?s sample_codec sample_registry, OF _ _ res] by blast
  with res refs show ?thesis by (intro exI conjI)
qed

text \<open>An envelope whose collection has an attestation that is JSON \<open>null\<close> makes loading panic, before
  any signature is looked at: decoding leaves a nil attestor, and the index asks it for its type.\<close>

theorem null_attestation_panics:
  assumes "map_of (envelopesByReference s) ref = None"
    and "envelopeToCollectionEnvelope jc g ref env = Inr ce"
    and "\<exists>ca \<in> set (col_Attestations (ce_Collection ce)). ca_Attestation ca = None"
  shows "\<exists>msg. LoadEnvelope jc g ref env s = Panic msg"
proof -
  have panic: "\<exists>msg. foldO (\<lambda>ca index. case ca_Attestation ca of
        None \<Rightarrow> Panic p | Some a \<Rightarrow> Return (AList.update (att_Type a) () index)) cas m = Panic msg"
    if "\<exists>ca \<in> set cas. ca_Attestation ca = None" for cas :: "'a CollectionAttestation list" and m p
    using that by (induction cas arbitrary: m) (auto split: option.splits)
  from panic [OF assms(3)] obtain msg where "attestation_index (ce_Collection ce) = Panic msg"
    unfolding attestation_index_def by blast
  with assms(1,2) show ?thesis by (simp add: LoadEnvelope_def Let_def)
qed

theorem null_attestation_panics_witness:
  "\<exists>msg. LoadEnvelope (sample_codec\<lparr>jc_proposed := \<lambda>_. Inr (''material'', ''null'', 0, 0)\<rparr>) sample_registry
     ''ref'' sample_envelope NewMemorySource = Panic msg"
proof -
  let ?jc = "sample_codec\<lparr>jc_proposed := \<lambda>_. Inr (''material'', ''null'', 0, 0)\<rparr>"
  have "\<exists>ce. envelopeToCollectionEnvelope ?jc sample_registry ''ref'' sample_envelope = Inr ce \<and>
      (\<exists>ca \<in> set (col_Attestations (ce_Collection ce)). ca_Attestation ca = None)"
    by (simp add: envelopeToCollectionEnvelope_def Collection_Unmarshal_def
        CollectionAttestation_UnmarshalJSON_def FactoryByType_def RegisterAttestation_def
        Register_def Let_def sample_source_defs)
  then obtain ce where "envelopeToCollectionEnvelope ?jc sample_registry ''ref'' sample_envelope = Inr ce"
    and "\<exists>ca \<in> set (col_Attestations (ce_Collection ce)). ca_Attestation ca = None" by blast
  from null_attestation_panics [OF _ this, of NewMemorySource] show ?thesis
    by (simp add: NewMemorySource_def)
qed

end
