(* ===== verification/Environment.thy ===== *)
theory Environment
  imports Crypto_Types
begin

text \<open>
  Capturing environment variables: package \<open>environment\<close>.

  A \<open>Capture\<close> holds lists of sensitive keys and glob patterns and either removes or obfuscates the
  sensitive variables of an environment. Patterns are compiled by \<open>github.com/gobwas/glob\<close>, the
  parameter \<open>glob_Compile\<close>; when a pattern does not compile the code keeps a nil glob, on which
  \<open>Match\<close> panics. The lemmas characterise the captured variables completely.
\<close>

type_synonym glob_lib = "string \<Rightarrow> gerr + (string \<Rightarrow> bool)"

section \<open>Configuration\<close>

record Capture =
  sensitiveVarsList :: "string goset"
  addSensitiveVarsList :: "string goset"
  excludeSensitiveVarsList :: "string goset"
  filterVarsEnabled :: bool
  disableSensitiveVarsDefault :: bool

definition DefaultSensitiveEnvList :: "string goset" where
  "DefaultSensitiveEnvList = map (\<lambda>k. (k, ()))
     [''*TOKEN*'', ''*SECRET*'', ''*API_KEY*'', ''*PASSWORD*'', ''*JWT*'', ''*sshKey*'',
      ''*passphrase*'', ''AWS_ACCESS_KEY_ID'', ''AWS_SECRET_ACCESS_KEY'',
      ''AMAZON_AWS_ACCESS_KEY_ID'', ''AMAZON_AWS_SECRET_ACCESS_KEY'', ''ALGOLIA_API_KEY'',
      ''AZURE_CLIENT_ID'', ''AZURE_CLIENT_SECRET'', ''AZURE_USERNAME'', ''AZURE_PASSWORD'',
      ''MSI_ENDPOINT'', ''MSI_SECRET'', ''binance_api'', ''binance_secret'',
      ''BITTREX_API_KEY'', ''BITTREX_API_SECRET'', ''CF_PASSWORD'', ''CF_USERNAME'',
      ''CODECLIMATE_REPO_TOKEN'', ''COVERALLS_REPO_TOKEN'', ''CIRCLE_TOKEN'',
      ''DIGITALOCEAN_ACCESS_TOKEN'', ''DOCKER_EMAIL'', ''DOCKER_PASSWORD'',
      ''DOCKER_USERNAME'', ''DOCKERHUB_PASSWORD'', ''FACEBOOK_APP_ID'',
      ''FACEBOOK_APP_SECRET'', ''FACEBOOK_ACCESS_TOKEN'', ''FIREBASE_TOKEN'',
      ''FOSSA_API_KEY'', ''GH_TOKEN'', ''GH_ENTERPRISE_TOKEN'',
      ''GOOGLE_APPLICATION_CREDENTIALS'', ''GOOGLE_API_KEY'', ''CI_DEPLOY_USER'',
      ''CI_DEPLOY_PASSWORD'', ''GITLAB_USER_LOGIN'', ''CI_JOB_JWT'', ''CI_JOB_JWT_V2'',
      ''CI_JOB_TOKEN'', ''HEROKU_API_KEY'', ''HEROKU_API_USER'', ''MAILGUN_API_KEY'',
      ''MCLI_PRIVATE_API_KEY'', ''MCLI_PUBLIC_API_KEY'', ''NGROK_TOKEN'', ''NGROK_AUTH_TOKEN'',
      ''NPM_AUTH_TOKEN'', ''OKTA_CLIENT_ORGURL'', ''OKTA_CLIENT_TOKEN'',
      ''OKTA_OAUTH2_CLIENTSECRET'', ''OKTA_OAUTH2_CLIENTID'', ''OKTA_AUTHN_GROUPID'',
      ''OS_USERNAME'', ''OS_PASSWORD'', ''PERCY_TOKEN'', ''SAUCE_ACCESS_KEY'',
      ''SAUCE_USERNAME'', ''SENTRY_AUTH_TOKEN'', ''SLACK_TOKEN'', ''SNYK_TOKEN'',
      ''square_access_token'', ''square_oauth_secret'', ''STRIPE_API_KEY'',
      ''STRIPE_DEVICE_NAME'', ''SURGE_TOKEN'', ''SURGE_LOGIN'', ''TWILIO_ACCOUNT_SID'',
      ''CONSUMER_KEY'', ''CONSUMER_SECRET'', ''TRAVIS_SUDO'', ''TRAVIS_OS_NAME'',
      ''TRAVIS_SECURE_ENV_VARS'', ''VAULT_TOKEN'', ''VAULT_CLIENT_KEY'', ''TOKEN'',
      ''VULTR_ACCESS'', ''VULTR_SECRET'', ''ACTIONS_RUNTIME_TOKEN'',
      ''ACTIONS_ID_TOKEN_REQUEST_TOKEN'']"

definition WithFilterVarsEnabled :: "Capture \<Rightarrow> Capture" where
  "WithFilterVarsEnabled c = c\<lparr>filterVarsEnabled := True\<rparr>"

definition WithAdditionalKeys :: "string list \<Rightarrow> Capture \<Rightarrow> Capture" where
  "WithAdditionalKeys additionalKeys c =
     c\<lparr>addSensitiveVarsList := put_keys additionalKeys (addSensitiveVarsList c)\<rparr>"

definition WithExcludeKeys :: "string list \<Rightarrow> Capture \<Rightarrow> Capture" where
  "WithExcludeKeys excludeKeys c =
     c\<lparr>excludeSensitiveVarsList := put_keys excludeKeys (excludeSensitiveVarsList c)\<rparr>"

definition WithDisableDefaultSensitiveList :: "Capture \<Rightarrow> Capture" where
  "WithDisableDefaultSensitiveList c = c\<lparr>disableSensitiveVarsDefault := True\<rparr>"

definition environment_New :: "(Capture \<Rightarrow> Capture) list \<Rightarrow> Capture" where
  "environment_New opts =
     fold (\<lambda>opt c. opt c) opts
       \<lparr>sensitiveVarsList = DefaultSensitiveEnvList, addSensitiveVarsList = [],
        excludeSensitiveVarsList = [], filterVarsEnabled = False,
        disableSensitiveVarsDefault = False\<rparr>"

section \<open>Filtering and obfuscating\<close>

text \<open>\<open>strings.SplitN(v, "=", 2)\<close>: the key is what precedes the first \<open>=\<close>.\<close>

definition splitVariable :: "string \<Rightarrow> string \<times> string" where
  "splitVariable v = (takeWhile (\<lambda>c. c \<noteq> CHR ''='') v, drop 1 (dropWhile (\<lambda>c. c \<noteq> CHR ''='') v))"

text \<open>The globs of the patterns with a star, nil (\<open>None\<close>) for one that does not compile.\<close>

definition compile_globs :: "glob_lib \<Rightarrow> string goset \<Rightarrow> (string \<Rightarrow> bool) option list" where
  "compile_globs glob_Compile blockList =
     map (\<lambda>k. case glob_Compile k of Inl err \<Rightarrow> None | Inr g \<Rightarrow> Some g)
       (filter (\<lambda>k. List.member k (CHR ''*'')) (map fst blockList))"

definition nil_panic :: string where
  "nil_panic = ''invalid memory address or nil pointer dereference''"

text \<open>The loop of the filter over the globs stops at the first match.\<close>

primrec match_any :: "(string \<Rightarrow> bool) option list \<Rightarrow> string \<Rightarrow> bool \<Rightarrow> bool outcome" where
  "match_any [] key filterOut = Return filterOut"
| "match_any (g # globs) key filterOut =
     (case g of
        None \<Rightarrow> Panic nil_panic
      | Some m \<Rightarrow> if m key then Return True else match_any globs key filterOut)"

definition FilterEnvironmentArray ::
  "glob_lib \<Rightarrow> string list \<Rightarrow> string goset \<Rightarrow> string goset \<Rightarrow>
     (string \<Rightarrow> string \<Rightarrow> string \<Rightarrow> 's \<Rightarrow> 's) \<Rightarrow> 's \<Rightarrow> 's outcome" where
  "FilterEnvironmentArray glob_Compile variables blockList excludeKeys onAllowed =
     (let filterGlobList = compile_globs glob_Compile blockList
      in foldO (\<lambda>v s.
           let (key, val) = splitVariable v
           in bindO
                (if map_of excludeKeys key = None
                 then match_any filterGlobList key (map_of blockList key \<noteq> None)
                 else Return False)
                (\<lambda>filterOut. Return (if filterOut then s else onAllowed key val v s)))
           variables)"

text \<open>The loop of the obfuscation looks at every glob.\<close>

primrec obfuscate_matches :: "(string \<Rightarrow> bool) option list \<Rightarrow> string \<Rightarrow> string \<Rightarrow> string outcome" where
  "obfuscate_matches [] key val = Return val"
| "obfuscate_matches (g # globs) key val =
     (case g of
        None \<Rightarrow> Panic nil_panic
      | Some m \<Rightarrow> obfuscate_matches globs key (if m key then ''******'' else val))"

definition ObfuscateEnvironmentArray ::
  "glob_lib \<Rightarrow> string list \<Rightarrow> string goset \<Rightarrow> string goset \<Rightarrow>
     (string \<Rightarrow> string \<Rightarrow> string \<Rightarrow> 's \<Rightarrow> 's) \<Rightarrow> 's \<Rightarrow> 's outcome" where
  "ObfuscateEnvironmentArray glob_Compile variables obfuscateList excludeKeys onAllowed =
     (let obfuscateGlobList = compile_globs glob_Compile obfuscateList
      in foldO (\<lambda>v s.
           let (key, val) = splitVariable v
           in bindO
                (if map_of excludeKeys key = None
                 then obfuscate_matches obfuscateGlobList key
                        (if map_of obfuscateList key \<noteq> None then ''******'' else val)
                 else Return val)
                (\<lambda>val. Return (onAllowed key val v s)))
           variables)"

text \<open>\<open>Capture\<close> also changes its receiver: the list it works on is the receiver's own map.\<close>

definition Capture_Capture ::
  "glob_lib \<Rightarrow> Capture \<Rightarrow> string list \<Rightarrow> (Capture \<times> (string, string) gomap) outcome" where
  "Capture_Capture glob_Compile c env =
     (let base = (if disableSensitiveVarsDefault c then [] else sensitiveVarsList c);
          finalSensitiveKeysList = put_all (addSensitiveVarsList c) base;
          c' = c\<lparr>sensitiveVarsList := finalSensitiveKeysList\<rparr>;
          onAllowed = (\<lambda>key val orig variables. AList.update key val variables)
      in bindO
           (if filterVarsEnabled c
            then FilterEnvironmentArray glob_Compile env finalSensitiveKeysList
                   (excludeSensitiveVarsList c) onAllowed []
            else ObfuscateEnvironmentArray glob_Compile env finalSensitiveKeysList
                   (excludeSensitiveVarsList c) onAllowed [])
           (\<lambda>variables. Return (c', variables)))"

section \<open>What is sensitive\<close>

text \<open>The keys a capture looks for, and whether it treats a variable as sensitive.\<close>

definition sensitive_keys :: "Capture \<Rightarrow> string set" where
  "sensitive_keys c = fst ` set (addSensitiveVarsList c) \<union>
     (if disableSensitiveVarsDefault c then {} else fst ` set (sensitiveVarsList c))"

definition key_matches :: "glob_lib \<Rightarrow> string set \<Rightarrow> string \<Rightarrow> bool" where
  "key_matches glob_Compile ks key \<longleftrightarrow>
     key \<in> ks \<or> (\<exists>k \<in> ks. CHR ''*'' \<in> set k \<and> (\<exists>m. glob_Compile k = Inr m \<and> m key))"

definition sensitive :: "glob_lib \<Rightarrow> Capture \<Rightarrow> string \<Rightarrow> bool" where
  "sensitive glob_Compile c key \<longleftrightarrow>
     key \<notin> fst ` set (excludeSensitiveVarsList c) \<and> key_matches glob_Compile (sensitive_keys c) key"

text \<open>The value of the last variable of an environment with a given key.\<close>

definition last_value :: "string list \<Rightarrow> string \<Rightarrow> string option" where
  "last_value env key = map_of (rev (map splitVariable env)) key"

section \<open>Lemmas\<close>

lemma compile_globs_mem:
  "g \<in> set (compile_globs gc bl) \<longleftrightarrow>
     (\<exists>k \<in> fst ` set bl. CHR ''*'' \<in> set k \<and> g = (case gc k of Inl err \<Rightarrow> None | Inr m \<Rightarrow> Some m))"
  by (auto simp: compile_globs_def)

lemma compile_globs_Some:
  "Some m \<in> set (compile_globs gc bl) \<longleftrightarrow> (\<exists>k \<in> fst ` set bl. CHR ''*'' \<in> set k \<and> gc k = Inr m)"
proof -
  have "Some m = (case gc k of Inl err \<Rightarrow> None | Inr m \<Rightarrow> Some m) \<longleftrightarrow> gc k = Inr m" for k
    by (cases "gc k") auto
  then show ?thesis by (simp add: compile_globs_mem)
qed

definition glob_hit :: "(string \<Rightarrow> bool) option list \<Rightarrow> string \<Rightarrow> bool" where
  "glob_hit globs key \<longleftrightarrow> (\<exists>m. Some m \<in> set globs \<and> m key)"

lemma glob_hit_simps [simp]:
  "\<not> glob_hit [] key"
  "glob_hit (None # globs) key = glob_hit globs key"
  "glob_hit (Some m # globs) key \<longleftrightarrow> m key \<or> glob_hit globs key"
  by (auto simp: glob_hit_def)

lemma key_matches_globs:
  "key_matches gc (fst ` set bl) key \<longleftrightarrow> key \<in> fst ` set bl \<or> glob_hit (compile_globs gc bl) key"
  unfolding key_matches_def glob_hit_def compile_globs_Some by blast

lemma match_any_Return:
  "match_any globs key b = Return r \<Longrightarrow> r \<longleftrightarrow> b \<or> glob_hit globs key"
  by (induction globs) (auto split: option.splits if_splits)

lemma match_any_total: "None \<notin> set globs \<Longrightarrow> \<exists>r. match_any globs key b = Return r"
  by (induction globs) (auto simp: neq_commute [of None] split: option.splits)

lemma obfuscate_matches_Return:
  "obfuscate_matches globs key val = Return r \<Longrightarrow> r = (if glob_hit globs key then ''******'' else val)"
proof (induction globs arbitrary: val)
  case Nil
  then show ?case by simp
next
  case (Cons g globs)
  then obtain m where m: "g = Some m"
    and rest: "obfuscate_matches globs key (if m key then ''******'' else val) = Return r"
    by (auto split: option.splits)
  from Cons.IH [OF rest] m show ?case by auto
qed

lemma obfuscate_matches_total: "None \<notin> set globs \<Longrightarrow> \<exists>r. obfuscate_matches globs key val = Return r"
  by (induction globs arbitrary: val) (auto simp: neq_commute [of None] split: option.splits)

lemma obfuscate_matches_panics: "None \<in> set globs \<Longrightarrow> obfuscate_matches globs key val = Panic nil_panic"
  by (induction globs arbitrary: val) (auto split: option.splits)

lemma compile_globs_no_nil:
  "None \<notin> set (compile_globs gc bl) \<longleftrightarrow>
     (\<forall>k \<in> fst ` set bl. CHR ''*'' \<in> set k \<longrightarrow> (\<exists>m. gc k = Inr m))"
proof -
  have "None = (case gc k of Inl err \<Rightarrow> None | Inr m \<Rightarrow> Some m) \<longleftrightarrow> (\<nexists>m. gc k = Inr m)" for k
    by (cases "gc k") auto
  then show ?thesis by (auto simp: compile_globs_mem)
qed

text \<open>One iteration of either loop, as an update of the captured variables.\<close>

definition captured :: "bool \<Rightarrow> (string \<Rightarrow> bool) \<Rightarrow> string \<Rightarrow> string \<Rightarrow> string option" where
  "captured removes sens key val =
     (if sens key then (if removes then None else Some ''******'') else Some val)"

definition block_sensitive :: "glob_lib \<Rightarrow> string goset \<Rightarrow> string goset \<Rightarrow> string \<Rightarrow> bool" where
  "block_sensitive gc bl ex key \<longleftrightarrow> key \<notin> fst ` set ex \<and> key_matches gc (fst ` set bl) key"

lemma last_value_snoc:
  "last_value (env @ [v]) key =
     (if key = fst (splitVariable v) then Some (snd (splitVariable v)) else last_value env key)"
  by (cases "splitVariable v") (simp add: last_value_def)

lemma filter_captured:
  assumes "FilterEnvironmentArray gc env bl ex (\<lambda>key val orig. AList.update key val) [] = Return vs"
  shows "map_of vs key = Option.bind (last_value env key) (captured True (block_sensitive gc bl ex) key)"
  using assms
proof (induction env arbitrary: vs rule: rev_induct)
  case Nil
  then show ?case by (simp add: FilterEnvironmentArray_def last_value_def)
next
  case (snoc v env)
  obtain k x where kx: "splitVariable v = (k, x)" by (cases "splitVariable v")
  let ?m = "if map_of ex k = None then match_any (compile_globs gc bl) k (map_of bl k \<noteq> None) else Return False"
  from snoc.prems kx obtain vs' out where
    IH: "FilterEnvironmentArray gc env bl ex (\<lambda>key val orig. AList.update key val) [] = Return vs'"
    and out: "?m = Return out" and vs: "vs = (if out then vs' else AList.update k x vs')"
    by (auto simp: FilterEnvironmentArray_def foldO_append Let_def)
  from out have "out = block_sensitive gc bl ex k"
    by (auto simp: block_sensitive_def key_matches_globs map_of_None_iff
        dest: match_any_Return split: if_splits)
  with snoc.IH [OF IH] kx vs show ?case
    by (auto simp: last_value_snoc captured_def update_conv)
qed

lemma obfuscate_captured:
  assumes "ObfuscateEnvironmentArray gc env bl ex (\<lambda>key val orig. AList.update key val) [] = Return vs"
  shows "map_of vs key = Option.bind (last_value env key) (captured False (block_sensitive gc bl ex) key)"
  using assms
proof (induction env arbitrary: vs rule: rev_induct)
  case Nil
  then show ?case by (simp add: ObfuscateEnvironmentArray_def last_value_def)
next
  case (snoc v env)
  obtain k x where kx: "splitVariable v = (k, x)" by (cases "splitVariable v")
  let ?m = "if map_of ex k = None
    then obfuscate_matches (compile_globs gc bl) k (if map_of bl k \<noteq> None then ''******'' else x) else Return x"
  from snoc.prems kx obtain vs' y where
    IH: "ObfuscateEnvironmentArray gc env bl ex (\<lambda>key val orig. AList.update key val) [] = Return vs'"
    and y: "?m = Return y" and vs: "vs = AList.update k y vs'"
    by (auto simp: ObfuscateEnvironmentArray_def foldO_append Let_def)
  from y have "y = (if block_sensitive gc bl ex k then ''******'' else x)"
    by (auto simp: block_sensitive_def key_matches_globs map_of_None_iff
        dest: obfuscate_matches_Return split: if_splits)
  with snoc.IH [OF IH] kx vs show ?case
    by (auto simp: last_value_snoc captured_def update_conv)
qed

lemma Capture_total:
  assumes "\<forall>k \<in> sensitive_keys c. CHR ''*'' \<in> set k \<longrightarrow> (\<exists>m. gc k = Inr m)"
  shows "\<exists>c' vs. Capture_Capture gc c env = Return (c', vs)"
proof -
  let ?bl = "put_all (addSensitiveVarsList c) (if disableSensitiveVarsDefault c then [] else sensitiveVarsList c)"
  have "fst ` set ?bl = sensitive_keys c" by (auto simp: sensitive_keys_def keys_put_all)
  with assms have nonil: "None \<notin> set (compile_globs gc ?bl)" by (simp add: compile_globs_no_nil)
  have "\<exists>vs. FilterEnvironmentArray gc env ?bl ex onA ([] :: (string, string) gomap) = Return vs" for ex onA
    unfolding FilterEnvironmentArray_def Let_def
    by (rule foldO_total) (use match_any_total [OF nonil] in \<open>auto split: prod.splits\<close>)
  moreover have "\<exists>vs. ObfuscateEnvironmentArray gc env ?bl ex onA ([] :: (string, string) gomap) = Return vs" for ex onA
    unfolding ObfuscateEnvironmentArray_def Let_def
    by (rule foldO_total) (use obfuscate_matches_total [OF nonil] in \<open>auto split: prod.splits\<close>)
  ultimately show ?thesis by (simp add: Capture_Capture_def Let_def del: split_paired_Ex)
qed

lemma Capture_result:
  assumes "Capture_Capture gc c env = Return (c', vs)"
  shows "c' = c\<lparr>sensitiveVarsList := sensitiveVarsList c'\<rparr> \<and> sensitive_keys c' = sensitive_keys c \<and>
    map_of vs key = Option.bind (last_value env key) (captured (filterVarsEnabled c) (sensitive gc c) key)"
proof -
  let ?bl = "put_all (addSensitiveVarsList c) (if disableSensitiveVarsDefault c then [] else sensitiveVarsList c)"
  have keys: "fst ` set ?bl = sensitive_keys c" by (auto simp: sensitive_keys_def keys_put_all)
  have sens: "block_sensitive gc ?bl (excludeSensitiveVarsList c) = sensitive gc c"
    by (simp add: fun_eq_iff block_sensitive_def sensitive_def keys)
  from assms have c': "c' = c\<lparr>sensitiveVarsList := ?bl\<rparr>" by (auto simp: Capture_Capture_def Let_def)
  then have "sensitive_keys c' = sensitive_keys c"
    by (auto simp: sensitive_keys_def keys_put_all)
  moreover have "map_of vs key = Option.bind (last_value env key) (captured (filterVarsEnabled c) (sensitive gc c) key)"
  proof (cases "filterVarsEnabled c")
    case True
    with assms have "FilterEnvironmentArray gc env ?bl (excludeSensitiveVarsList c)
        (\<lambda>key val orig. AList.update key val) [] = Return vs"
      by (auto simp: Capture_Capture_def Let_def)
    from filter_captured [OF this] True sens show ?thesis by simp
  next
    case False
    with assms have "ObfuscateEnvironmentArray gc env ?bl (excludeSensitiveVarsList c)
        (\<lambda>key val orig. AList.update key val) [] = Return vs"
      by (auto simp: Capture_Capture_def Let_def)
    from obfuscate_captured [OF this] False sens show ?thesis by simp
  qed
  ultimately show ?thesis using c' by simp
qed

section \<open>Properties\<close>

text \<open>Capturing an environment returns when every sensitive pattern compiles, and then it holds for
  every key what the last variable with that key gives: its value when the key is not sensitive;
  when it is, six stars if obfuscating and nothing if filtering. So no value of a sensitive variable
  is captured.\<close>

theorem Capture_exact:
  assumes "\<forall>k \<in> sensitive_keys c. CHR ''*'' \<in> set k \<longrightarrow> (\<exists>m. glob_Compile k = Inr m)"
  shows "\<exists>c' variables. Capture_Capture glob_Compile c env = Return (c', variables) \<and>
    (\<forall>key. map_of variables key =
       (case last_value env key of
          None \<Rightarrow> None
        | Some val \<Rightarrow>
            if sensitive glob_Compile c key
            then (if filterVarsEnabled c then None else Some ''******'')
            else Some val))"
proof -
  from Capture_total [OF assms] obtain c' vs where res: "Capture_Capture glob_Compile c env = Return (c', vs)"
    by blast
  have "map_of vs key = (case last_value env key of None \<Rightarrow> None | Some val \<Rightarrow>
      if sensitive glob_Compile c key then (if filterVarsEnabled c then None else Some ''******'') else Some val)" for key
    using Capture_result [OF res, of key] by (simp add: captured_def split: option.splits)
  with res show ?thesis by blast
qed

definition sample_glob :: glob_lib where
  "sample_glob k = Inr (\<lambda>s. s = ''MY_TOKEN'')"

theorem Capture_exact_witness:
  "\<exists>c' variables.
     Capture_Capture sample_glob (environment_New [WithDisableDefaultSensitiveList, WithAdditionalKeys [''*TOKEN*'']])
       [''MY_TOKEN=x'', ''A=b=c''] = Return (c', variables) \<and>
     map_of variables ''MY_TOKEN'' = Some ''******'' \<and> map_of variables ''A'' = Some ''b=c''"
proof -
  let ?c = "environment_New [WithDisableDefaultSensitiveList, WithAdditionalKeys [''*TOKEN*'']]"
  have keys: "sensitive_keys ?c = {''*TOKEN*''}" and noex: "excludeSensitiveVarsList ?c = []"
    and nofilter: "\<not> filterVarsEnabled ?c"
    by (simp_all add: environment_New_def WithDisableDefaultSensitiveList_def WithAdditionalKeys_def
        sensitive_keys_def)
  have "sensitive sample_glob ?c ''MY_TOKEN''" and "\<not> sensitive sample_glob ?c ''A''"
    by (simp_all add: sensitive_def key_matches_def keys noex sample_glob_def)
  moreover have "last_value [''MY_TOKEN=x'', ''A=b=c''] ''MY_TOKEN'' = Some ''x''"
    "last_value [''MY_TOKEN=x'', ''A=b=c''] ''A'' = Some ''b=c''"
    by (simp_all add: last_value_def splitVariable_def)
  moreover have "\<forall>k \<in> sensitive_keys ?c. CHR ''*'' \<in> set k \<longrightarrow> (\<exists>m. sample_glob k = Inr m)"
    by (simp add: sample_glob_def)
  from Capture_exact [OF this, of "[''MY_TOKEN=x'', ''A=b=c'']"] obtain c' vs where
    res: "Capture_Capture sample_glob ?c [''MY_TOKEN=x'', ''A=b=c''] = Return (c', vs)" and
    vs: "\<And>key. map_of vs key = (case last_value [''MY_TOKEN=x'', ''A=b=c''] key of None \<Rightarrow> None | Some val \<Rightarrow>
      if sensitive sample_glob ?c key then (if filterVarsEnabled ?c then None else Some ''******'') else Some val)"
    by blast
  ultimately have "map_of vs ''MY_TOKEN'' = Some ''******'' \<and> map_of vs ''A'' = Some ''b=c''"
    using nofilter by (simp only: vs option.case if_True if_False simp_thms)
  with res show ?thesis by blast
qed

text \<open>Although capturing changes the capturer's own list of sensitive keys, it may be repeated: a
  second capture of any environment gives, for every key, what a capture with the original capturer
  gives.\<close>

theorem Capture_repeatable:
  assumes "Capture_Capture glob_Compile c env = Return (c1, variables)"
    and "Capture_Capture glob_Compile c env' = Return (c2, first)"
    and "Capture_Capture glob_Compile c1 env' = Return (c3, second)"
  shows "map_of second = map_of first"
proof
  fix key
  from Capture_result [OF assms(1)] have c1: "c1 = c\<lparr>sensitiveVarsList := sensitiveVarsList c1\<rparr>"
    and keys: "sensitive_keys c1 = sensitive_keys c" by blast+
  from c1 have "excludeSensitiveVarsList c1 = excludeSensitiveVarsList c"
    and "filterVarsEnabled c1 = filterVarsEnabled c"
    by (metis Capture.select_convs Capture.surjective Capture.update_convs(1))+
  with keys have "sensitive glob_Compile c1 = sensitive glob_Compile c"
    and "filterVarsEnabled c1 = filterVarsEnabled c" by (simp_all add: fun_eq_iff sensitive_def)
  with Capture_result [OF assms(2), of key] Capture_result [OF assms(3), of key]
  show "map_of second key = map_of first key" by simp
qed

theorem Capture_repeatable_witness:
  "Capture_Capture sample_glob
     \<lparr>sensitiveVarsList = [(''K'', ())], addSensitiveVarsList = [], excludeSensitiveVarsList = [],
      filterVarsEnabled = True, disableSensitiveVarsDefault = False\<rparr> [''K=x'']
   = Return (\<lparr>sensitiveVarsList = [(''K'', ())], addSensitiveVarsList = [], excludeSensitiveVarsList = [],
      filterVarsEnabled = True, disableSensitiveVarsDefault = False\<rparr>, []) \<and>
   (map_of [] :: string \<Rightarrow> string option) = map_of []"
proof -
  let ?c = "\<lparr>sensitiveVarsList = [(''K'', ())], addSensitiveVarsList = [], excludeSensitiveVarsList = [],
      filterVarsEnabled = True, disableSensitiveVarsDefault = False\<rparr>"
  have res: "Capture_Capture sample_glob ?c [''K=x''] = Return (?c, [])"
    by (simp add: Capture_Capture_def FilterEnvironmentArray_def compile_globs_def splitVariable_def)
  from Capture_repeatable [OF res res res] res show ?thesis by simp
qed

text \<open>A pattern that does not compile makes the capture panic: obfuscating any environment that has
  a variable outside the excluded keys dereferences the nil glob that was kept for the pattern.\<close>

theorem uncompilable_pattern_panics:
  assumes "k \<in> fst ` set obfuscateList" and "CHR ''*'' \<in> set k" and "glob_Compile k = Inl err"
    and "fst (splitVariable v) \<notin> fst ` set excludeKeys"
  shows "ObfuscateEnvironmentArray glob_Compile (v # variables) obfuscateList excludeKeys onAllowed s =
    Panic nil_panic"
proof -
  from assms(1-3) have "None \<in> set (compile_globs glob_Compile obfuscateList)"
    by (auto simp: compile_globs_mem intro!: bexI [of _ k])
  with assms(4) show ?thesis
    by (simp add: ObfuscateEnvironmentArray_def Let_def case_prod_unfold map_of_None_iff
        obfuscate_matches_panics)
qed

theorem uncompilable_pattern_panics_witness:
  "ObfuscateEnvironmentArray (\<lambda>_. Inl (LibError ''glob'')) [''A=b''] [(''*['', ())] []
     (\<lambda>key val orig. AList.update key val) ([] :: (string, string) gomap) = Panic nil_panic"
  by (rule uncompilable_pattern_panics [of "''*[''"]) auto

end
