(* ===== verification/Constraints.thy ===== *)
theory Constraints
  imports Dsse Environment
begin

text \<open>
  Functionaries and certificate constraints: \<open>policy/constraints.go\<close> and \<open>Functionary.Validate\<close> of
  \<open>policy/step.go\<close>.

  A functionary is who may sign the attestations of a step: the holder of a public key, or of a
  certificate under a trusted root whose attributes meet the constraint. The lemmas characterise both
  checks exactly. The Fulcio extensions of a certificate are a struct of strings of a third-party
  package, here the list of its fields with their values; parsing them is the parameter
  \<open>parseExtensions\<close>.
\<close>

section \<open>Data\<close>

definition AllowAllConstraint :: string where
  "AllowAllConstraint = ''*''"

type_synonym extensions = "(string \<times> string) list"

record CertConstraint =
  cc_CommonName :: string
  cc_DNSNames :: "string list"
  cc_Emails :: "string list"
  cc_Organizations :: "string list"
  cc_URIs :: "string list"
  cc_Roots :: "string list"
  cc_Extensions :: extensions

record Functionary =
  fn_Type :: string
  fn_CertConstraint :: CertConstraint
  fn_PublicKeyID :: string

record TrustBundle =
  tb_Root :: certificate
  tb_Intermediates :: "certificate list"

record cert_lib =
  cl_parseExtensions :: "(string \<times> bytes) list \<Rightarrow> gerr + extensions"
  cl_glob :: glob_lib

section \<open>Checking attributes\<close>

text \<open>A single empty string counts as no attribute.\<close>

definition drop_empty :: "string list \<Rightarrow> string list" where
  "drop_empty xs = (if length xs = 1 \<and> hd xs = [] then [] else xs)"

text \<open>The loop over the values: each must be an unmet constraint, and meets it.\<close>

primrec meet_constraints ::
  "string \<Rightarrow> string list \<Rightarrow> string list \<Rightarrow> string goset \<Rightarrow> gerr + string goset" where
  "meet_constraints attribute constraints [] unmet = Inr unmet"
| "meet_constraints attribute constraints (value # values) unmet =
     (if map_of unmet value = None
      then Inl (Errorf ''cert has an unexpected %s %s given constraints %+q''
             [FStr attribute, FStr value, FStrs constraints])
      else meet_constraints attribute constraints values (AList.delete value unmet))"

definition checkCertConstraint :: "string \<Rightarrow> string list \<Rightarrow> string list \<Rightarrow> gerr option" where
  "checkCertConstraint attribute constraints values =
     (if length constraints = 1 \<and> hd constraints = AllowAllConstraint then None
      else
        (let constraints = drop_empty constraints; values = drop_empty values
         in if length constraints = 0 \<and> length values > 0
            then Some (Errorf ''not expecting any %s(s), but cert has %d %s(s)''
                   [FStr attribute, FInt (int (length values)), FStr attribute])
            else
              (case meet_constraints attribute constraints values (put_keys constraints []) of
                 Inl err \<Rightarrow> Some err
               | Inr unmet \<Rightarrow>
                   if length unmet > 0
                   then Some (Errorf ''cert with %s(s) %+qDid not pass all constraints %+q''
                          [FStr attribute, FStrs values, FStrs constraints])
                   else None)))"

definition checkTrustBundles ::
  "crypto_lib \<Rightarrow> CertConstraint \<Rightarrow> certificate \<Rightarrow> certificate list \<Rightarrow> gtime \<Rightarrow>
     (string, TrustBundle) gomap \<Rightarrow> gerr option" where
  "checkTrustBundles lib cc cert intermediates trustedTime trustBundles =
     (let belongs = (\<lambda>bundle. BelongsToRoot lib cert intermediates trustedTime (tb_Root bundle) = None)
      in if (if length (cc_Roots cc) = 1 \<and> hd (cc_Roots cc) = AllowAllConstraint
             then list_ex (\<lambda>(_, bundle). belongs bundle) trustBundles
             else list_ex (\<lambda>rootID. case map_of trustBundles rootID of
                    Some bundle \<Rightarrow> belongs bundle | None \<Rightarrow> False) (cc_Roots cc))
         then None
         else Some (Errorf ''cert doesn't belong to any root specified by constraint %+q''
                [FStrs (cc_Roots cc)]))"

text \<open>The loop over the fields; \<open>glob.MustCompile\<close> panics on a pattern that does not compile.\<close>

primrec check_extension_fields :: "glob_lib \<Rightarrow> extensions \<Rightarrow> extensions \<Rightarrow> gerr option outcome" where
  "check_extension_fields glob_Compile [] exts = Return None"
| "check_extension_fields glob_Compile (field # flds) exts =
     (if snd field = [] then check_extension_fields glob_Compile flds exts
      else
        (case glob_Compile (snd field) of
           Inl err \<Rightarrow> Panic ''glob: MustCompile''
         | Inr fieldGlob \<Rightarrow>
             if \<not> fieldGlob (case map_of exts (fst field) of Some v \<Rightarrow> v | None \<Rightarrow> [])
             then Return (Some (Errorf ''cert field %s doesn't match constraint %+q''
                    [FStr (fst field), FStr (snd field)]))
             else check_extension_fields glob_Compile flds exts))"

definition checkExtensions ::
  "cert_lib \<Rightarrow> CertConstraint \<Rightarrow> (string \<times> bytes) list \<Rightarrow> gerr option outcome" where
  "checkExtensions cl cc ext =
     (case cl_parseExtensions cl ext of
        Inl err \<Rightarrow> Return (Some (Errorf ''error parsing fulcio cert extensions: %w'' [FErr err]))
      | Inr exts \<Rightarrow> check_extension_fields (cl_glob cl) (cc_Extensions cc) exts)"

definition CertConstraint_Check ::
  "crypto_lib \<Rightarrow> cert_lib \<Rightarrow> CertConstraint \<Rightarrow> certificate \<Rightarrow> certificate list \<Rightarrow> gtime \<Rightarrow>
     (string, TrustBundle) gomap \<Rightarrow> gerr option outcome" where
  "CertConstraint_Check lib cl cc cert intermediates trustedTime trustBundles =
     bindO (checkExtensions cl cc (cert_Extensions cert))
       (\<lambda>extErr.
          let errs = List.map_filter id
                [checkCertConstraint ''common name'' [cc_CommonName cc] [cert_CommonName cert],
                 checkCertConstraint ''dns name'' (cc_DNSNames cc) (cert_DNSNames cert),
                 checkCertConstraint ''email'' (cc_Emails cc) (cert_EmailAddresses cert),
                 checkCertConstraint ''organization'' (cc_Organizations cc) (cert_Organization cert),
                 checkCertConstraint ''uri'' (cc_URIs cc) (cert_URIs cert),
                 checkTrustBundles lib cc cert intermediates trustedTime trustBundles,
                 extErr]
          in Return (if length errs > 0 then Some (ErrConstraintCheckFailed errs) else None))"

text \<open>A nil verifier makes the call of \<open>KeyID\<close> panic.\<close>

definition Functionary_Validate ::
  "crypto_lib \<Rightarrow> cert_lib \<Rightarrow> Functionary \<Rightarrow> verifier option \<Rightarrow> (string, TrustBundle) gomap \<Rightarrow>
     gerr option outcome" where
  "Functionary_Validate lib cl f verifier trustBundles =
     (case verifier of
        None \<Rightarrow> Panic nil_panic
      | Some v \<Rightarrow>
          (case Verifier_KeyID lib v of
             Inl err \<Rightarrow> Return (Some (Errorf ''could not get key id: %w'' [FErr err]))
           | Inr verifierID \<Rightarrow>
               if fn_PublicKeyID f \<noteq> [] \<and> fn_PublicKeyID f = verifierID then Return None
               else
                 (case v of
                    X509Verifier cert roots intermediates inner trustedTime \<Rightarrow>
                      if length (cc_Roots (fn_CertConstraint f)) = 0
                      then Return (Some (Errorf
                             ''verifier with ID %v is an x509 verifier, but no trusted roots provided in functionary''
                             [FStr verifierID]))
                      else
                        bindO (CertConstraint_Check lib cl (fn_CertConstraint f) cert intermediates
                                 trustedTime trustBundles)
                          (\<lambda>err. Return (map_option
                             (\<lambda>e. Errorf ''verifier with ID %v doesn't meet certificate constraint: %w''
                                [FStr verifierID, FErr e]) err))
                  | _ \<Rightarrow> Return (Some (Errorf
                           ''verifier with ID %v is not a public key verifier or a x509 verifier''
                           [FStr verifierID])))))"

section \<open>What the checks mean\<close>

text \<open>An attribute meets its constraint: anything under the star; otherwise the values are exactly the
  constrained ones, none of them twice.\<close>

definition attribute_ok :: "string list \<Rightarrow> string list \<Rightarrow> bool" where
  "attribute_ok constraints values \<longleftrightarrow>
     constraints = [AllowAllConstraint] \<or>
     distinct (drop_empty values) \<and> set (drop_empty values) = set (drop_empty constraints)"

definition root_ok ::
  "crypto_lib \<Rightarrow> string list \<Rightarrow> certificate \<Rightarrow> certificate list \<Rightarrow> gtime \<Rightarrow> (string, TrustBundle) gomap \<Rightarrow> bool" where
  "root_ok lib roots cert intermediates t bundles \<longleftrightarrow>
     (\<exists>id bundle. map_of bundles id = Some bundle \<and> (roots = [AllowAllConstraint] \<or> id \<in> set roots) \<and>
        lib_certVerify lib cert [tb_Root bundle] (certificatesToPool intermediates) t = None)"

definition extensions_ok :: "cert_lib \<Rightarrow> extensions \<Rightarrow> (string \<times> bytes) list \<Rightarrow> bool" where
  "extensions_ok cl flds ext \<longleftrightarrow>
     (\<exists>exts. cl_parseExtensions cl ext = Inr exts \<and>
        (\<forall>(field, pat) \<in> set flds. pat \<noteq> [] \<longrightarrow>
           (\<exists>g. cl_glob cl pat = Inr g \<and> g (case map_of exts field of Some v \<Rightarrow> v | None \<Rightarrow> []))))"

definition constraint_ok ::
  "crypto_lib \<Rightarrow> cert_lib \<Rightarrow> CertConstraint \<Rightarrow> certificate \<Rightarrow> certificate list \<Rightarrow> gtime \<Rightarrow>
     (string, TrustBundle) gomap \<Rightarrow> bool" where
  "constraint_ok lib cl cc cert intermediates t bundles \<longleftrightarrow>
     attribute_ok [cc_CommonName cc] [cert_CommonName cert] \<and>
     attribute_ok (cc_DNSNames cc) (cert_DNSNames cert) \<and>
     attribute_ok (cc_Emails cc) (cert_EmailAddresses cert) \<and>
     attribute_ok (cc_Organizations cc) (cert_Organization cert) \<and>
     attribute_ok (cc_URIs cc) (cert_URIs cert) \<and>
     root_ok lib (cc_Roots cc) cert intermediates t bundles \<and>
     extensions_ok cl (cc_Extensions cc) (cert_Extensions cert)"

definition functionary_ok ::
  "crypto_lib \<Rightarrow> cert_lib \<Rightarrow> (string, TrustBundle) gomap \<Rightarrow> Functionary \<Rightarrow> verifier \<Rightarrow> bool" where
  "functionary_ok lib cl bundles f v \<longleftrightarrow>
     (\<exists>id. Verifier_KeyID lib v = Inr id \<and>
        (fn_PublicKeyID f \<noteq> [] \<and> fn_PublicKeyID f = id \<or>
         (\<exists>cert roots ints inner t. v = X509Verifier cert roots ints inner t \<and>
            cc_Roots (fn_CertConstraint f) \<noteq> [] \<and>
            constraint_ok lib cl (fn_CertConstraint f) cert ints t bundles)))"

section \<open>Lemmas\<close>

lemma length_one_hd: "length xs = 1 \<and> hd xs = y \<longleftrightarrow> xs = [y]"
  by (cases xs) auto

lemma gomap_ok_delete [simp]: "gomap_ok m \<Longrightarrow> gomap_ok (AList.delete k m)"
  by (simp add: gomap_ok_def distinct_delete)

lemma keys_delete: "fst ` set (AList.delete k m) = fst ` set m - {k}"
  by (auto simp: AList.delete_eq)

lemma meet_constraints_ok:
  "(\<exists>unmet'. meet_constraints attr cs vs unmet = Inr unmet' \<and> unmet' = []) \<longleftrightarrow>
     distinct vs \<and> set vs = fst ` set unmet"
proof (induction vs arbitrary: unmet)
  case Nil
  then show ?case by auto
next
  case (Cons v vs)
  show ?case
  proof (cases "v \<in> fst ` set unmet")
    case True
    then have "map_of unmet v \<noteq> None" by (simp add: map_of_None_iff)
    then have "(\<exists>u. meet_constraints attr cs (v # vs) unmet = Inr u \<and> u = []) \<longleftrightarrow>
        distinct vs \<and> set vs = fst ` set unmet - {v}"
      using Cons.IH [of "AList.delete v unmet"] by (simp only: meet_constraints.simps if_False keys_delete)
    with True show ?thesis by auto
  next
    case False
    then have "map_of unmet v = None" by (simp add: map_of_None_iff)
    with False show ?thesis by auto
  qed
qed

lemma put_keys_set: "fst ` set (put_keys ks []) = set ks"
  by (simp add: keys_put_keys)

lemma checkCertConstraint_None_iff:
  "checkCertConstraint attr cs vs = None \<longleftrightarrow> attribute_ok cs vs"
proof (cases "cs = [AllowAllConstraint]")
  case True
  then show ?thesis by (simp add: checkCertConstraint_def attribute_ok_def)
next
  case False
  let ?cs = "drop_empty cs" and ?vs = "drop_empty vs"
  from False have "checkCertConstraint attr cs vs = None \<longleftrightarrow>
      \<not> (?cs = [] \<and> ?vs \<noteq> []) \<and> (\<exists>u. meet_constraints attr ?cs ?vs (put_keys ?cs []) = Inr u \<and> u = [])"
    unfolding checkCertConstraint_def length_one_hd Let_def
    by (simp split: sum.split)
  also have "\<dots> \<longleftrightarrow> distinct ?vs \<and> set ?vs = set ?cs"
    unfolding meet_constraints_ok put_keys_set by auto
  finally show ?thesis using False by (simp add: attribute_ok_def)
qed

lemma checkTrustBundles_None_iff:
  assumes "gomap_ok bundles"
  shows "checkTrustBundles lib cc cert ints t bundles = None \<longleftrightarrow> root_ok lib (cc_Roots cc) cert ints t bundles"
proof -
  let ?b = "\<lambda>bundle. lib_certVerify lib cert [tb_Root bundle] (certificatesToPool ints) t = None"
  have "list_ex (\<lambda>(_, bundle). ?b bundle) bundles \<longleftrightarrow> (\<exists>id bundle. map_of bundles id = Some bundle \<and> ?b bundle)"
    using gomap_Bex [OF assms, of "\<lambda>_. ?b"] by (simp add: list_ex_iff)
  moreover have "list_ex (\<lambda>r. case map_of bundles r of Some bundle \<Rightarrow> ?b bundle | None \<Rightarrow> False) (cc_Roots cc) \<longleftrightarrow>
      (\<exists>id bundle. map_of bundles id = Some bundle \<and> id \<in> set (cc_Roots cc) \<and> ?b bundle)"
    by (force simp: list_ex_iff split: option.splits)
  ultimately show ?thesis
    unfolding checkTrustBundles_def length_one_hd Let_def BelongsToRoot_def certificatesToPool_single root_ok_def
    by (cases "cc_Roots cc = [AllowAllConstraint]") auto
qed

lemma check_extension_fields_None_iff:
  "check_extension_fields gc flds exts = Return None \<longleftrightarrow>
     (\<forall>(field, pat) \<in> set flds. pat \<noteq> [] \<longrightarrow>
        (\<exists>g. gc pat = Inr g \<and> g (case map_of exts field of Some v \<Rightarrow> v | None \<Rightarrow> [])))"
  by (induction flds) (auto split: sum.splits)

lemma checkExtensions_None_iff:
  "checkExtensions cl cc ext = Return None \<longleftrightarrow> extensions_ok cl (cc_Extensions cc) ext"
  by (auto simp: checkExtensions_def extensions_ok_def check_extension_fields_None_iff split: sum.splits)

lemma map_filter_id_Nil: "List.map_filter id xs = [] \<longleftrightarrow> (\<forall>x \<in> set xs. x = None)"
  by (induction xs) (auto simp: List.map_filter_def split: option.splits)

lemma collected_errors_None:
  "(if length (List.map_filter id xs) > 0 then Some e else None) = None \<longleftrightarrow> (\<forall>x \<in> set xs. x = None)"
  by (simp add: map_filter_id_Nil)

lemma CertConstraint_Check_None_iff:
  assumes "gomap_ok bundles"
  shows "CertConstraint_Check lib cl cc cert ints t bundles = Return None \<longleftrightarrow>
    constraint_ok lib cl cc cert ints t bundles"
proof (cases "checkExtensions cl cc (cert_Extensions cert)")
  case (Return extErr)
  then have "extErr = None \<longleftrightarrow> extensions_ok cl (cc_Extensions cc) (cert_Extensions cert)"
    by (simp add: checkExtensions_None_iff [symmetric])
  then show ?thesis
    unfolding CertConstraint_Check_def Let_def constraint_ok_def Return bindO.simps outcome.inject
      collected_errors_None checkTrustBundles_None_iff [OF assms, symmetric]
    by (simp add: checkCertConstraint_None_iff)
next
  case (Panic msg)
  then have "\<not> extensions_ok cl (cc_Extensions cc) (cert_Extensions cert)"
    by (simp add: checkExtensions_None_iff [symmetric])
  with Panic show ?thesis by (simp add: CertConstraint_Check_def constraint_ok_def)
qed

lemma Functionary_Validate_None_iff:
  assumes "gomap_ok bundles"
  shows "Functionary_Validate lib cl f (Some v) bundles = Return None \<longleftrightarrow> functionary_ok lib cl bundles f v"
proof -
  have check: "CertConstraint_Check lib cl cc cert ints t bundles = Return None \<longleftrightarrow>
      constraint_ok lib cl cc cert ints t bundles" for cc cert ints t
    by (rule CertConstraint_Check_None_iff [OF assms])
  show ?thesis
    by (cases "Verifier_KeyID lib v"; cases v)
      (auto simp: Functionary_Validate_def functionary_ok_def check [symmetric] split: if_splits)
qed

section \<open>Properties\<close>

text \<open>A certificate attribute passes its constraint exactly when the constraint is the single star or
  the values of the certificate are the constrained values, each once, in any order; a single empty
  string stands for no value on either side.\<close>

theorem checkCertConstraint_exact:
  "checkCertConstraint attribute constraints values = None \<longleftrightarrow>
     constraints = [AllowAllConstraint] \<or>
     distinct (drop_empty values) \<and> set (drop_empty values) = set (drop_empty constraints)"
  by (simp add: checkCertConstraint_None_iff attribute_ok_def)

text \<open>C10. A verifier is accepted as a functionary exactly when its key id is the functionary's, or when it
  is an X.509 verifier, the functionary names roots, the certificate verifies under one of the named
  roots of the policy at the verifier's trusted time, every attribute meets its constraint, and every
  constrained extension matches its pattern.\<close>

theorem Functionary_Validate_exact:
  assumes "gomap_ok bundles"
  shows "Functionary_Validate lib cl f (Some v) bundles = Return None \<longleftrightarrow>
    (\<exists>id. Verifier_KeyID lib v = Inr id \<and>
       (fn_PublicKeyID f \<noteq> [] \<and> fn_PublicKeyID f = id \<or>
        (\<exists>cert roots ints inner t. v = X509Verifier cert roots ints inner t \<and>
           cc_Roots (fn_CertConstraint f) \<noteq> [] \<and>
           constraint_ok lib cl (fn_CertConstraint f) cert ints t bundles)))"
  using assms by (simp add: Functionary_Validate_None_iff functionary_ok_def)

definition star_constraint :: CertConstraint where
  "star_constraint = \<lparr>cc_CommonName = ''*'', cc_DNSNames = [''*''], cc_Emails = [''*''], cc_Organizations = [''*''],
     cc_URIs = [''*''], cc_Roots = [''root''], cc_Extensions = []\<rparr>"

definition sample_cert_lib :: cert_lib where
  "sample_cert_lib = \<lparr>cl_parseExtensions = \<lambda>_. Inr [], cl_glob = \<lambda>p. Inr (\<lambda>s. s = p)\<rparr>"

theorem Functionary_Validate_exact_witness:
  "Functionary_Validate sample_lib sample_cert_lib \<lparr>fn_Type = ''root'', fn_CertConstraint = star_constraint, fn_PublicKeyID = []\<rparr>
     (Some (X509Verifier (sample_cert ''c'') [] [] (ECDSAVerifier ''c'' SHA256) 0))
     [(''root'', \<lparr>tb_Root = sample_cert ''r'', tb_Intermediates = []\<rparr>)] = Return None"
  by (subst Functionary_Validate_exact)
    (simp_all add: gomap_ok_def constraint_ok_def attribute_ok_def root_ok_def extensions_ok_def
      star_constraint_def AllowAllConstraint_def sample_cert_lib_def sample_lib_def
      GeneratePublicKeyID_def PublicPemBytes_def DigestBytes_def)

text \<open>A key id alone is enough: a functionary with a non-empty key id accepts a verifier with that id
  without looking at any certificate constraint, also when the verifier is an X.509 verifier.\<close>

theorem key_id_suffices:
  assumes "Verifier_KeyID lib v = Inr (fn_PublicKeyID f)" and "fn_PublicKeyID f \<noteq> []"
  shows "Functionary_Validate lib cl f (Some v) bundles = Return None"
  using assms by (simp add: Functionary_Validate_def)

theorem key_id_suffices_witness:
  "Functionary_Validate sample_lib sample_cert_lib
     \<lparr>fn_Type = ''key'', fn_CertConstraint = star_constraint\<lparr>cc_CommonName := ''x''\<rparr>, fn_PublicKeyID = HexEncode ''Ek''\<rparr>
     (Some (X509Verifier (sample_cert ''k'') [] [] (ECDSAVerifier ''k'' SHA256) 0)) [] = Return None"
  by (rule key_id_suffices)
    (simp_all add: sample_lib_def GeneratePublicKeyID_def PublicPemBytes_def DigestBytes_def)

end
