(* ===== verification/Policy_Step.thy ===== *)
theory Policy_Step
  imports Source Constraints
begin

text \<open>
  Steps of a policy and the evaluation of their attestations: \<open>policy/step.go\<close> and \<open>policy/rego.go\<close>.

  A step names its functionaries and the attestations its collections must have, each with Rego policies
  that must not deny it. The Rego engine and the JSON encoding of an attestor are the record
  \<open>rego_lib\<close>; a result of the engine is a list of results, each a list of expressions with their text and
  value. An attestor may be nil, either because an attestation is missing or because it was decoded from
  \<open>null\<close>.
\<close>

section \<open>Data\<close>

record RegoPolicy =
  rp_Module :: bytes
  rp_Name :: string

record policy_Attestation =
  pa_Type :: string
  pa_RegoPolicies :: "RegoPolicy list"

record Step =
  step_Name :: string
  step_Functionaries :: "Functionary list"
  step_Attestations :: "policy_Attestation list"
  step_ArtifactsFrom :: "string list"

record 'd RejectedCollection =
  rc_Collection :: "'d CollectionVerificationResult"
  rc_Reason :: gerr

record 'd StepResult =
  sr_Step :: string
  sr_Passed :: "'d CollectionVerificationResult list"
  sr_Rejected :: "'d RejectedCollection list"

definition new_result :: "string \<Rightarrow> 'd StepResult" where
  "new_result name = \<lparr>sr_Step = name, sr_Passed = [], sr_Rejected = []\<rparr>"

definition Analyze :: "'d StepResult \<Rightarrow> bool" where
  "Analyze r =
     fold (\<lambda>coll pass. if length (cvr_Errors coll) > 0 then False else pass) (sr_Passed r)
       (length (sr_Passed r) > 0)"

definition HasErrors :: "'d StepResult \<Rightarrow> bool" where
  "HasErrors r = (length (sr_Rejected r) > 0)"

definition HasPassed :: "'d StepResult \<Rightarrow> bool" where
  "HasPassed r = (length (sr_Passed r) > 0)"

definition StepResult_Error :: "'d StepResult \<Rightarrow> fval" where
  "StepResult_Error r =
     FMsg (''attestations for step %v could not be used due to:'' @ [CHR 0x0A] @ ''%v'')
       [FStr (sr_Step r), FVals (map (\<lambda>reject. error_message (rc_Reason reject)) (sr_Rejected r))]"

section \<open>Rego\<close>

record rego_module =
  rm_Path :: string
  rm_Rules :: bytes

record 'd rego_lib =
  rl_marshal :: "'d attestor option \<Rightarrow> gerr + bytes"
  rl_decode :: "bytes \<Rightarrow> gerr + json"
  rl_ParseModule :: "string \<Rightarrow> bytes \<Rightarrow> gerr + rego_module"
  rl_Eval :: "json \<Rightarrow> rego_module list \<Rightarrow> string \<Rightarrow> gerr + (string \<times> json) list list"

definition deny_path :: "rego_module \<Rightarrow> string" where
  "deny_path m = rm_Path m @ ''.deny''"

text \<open>The loop over the policies: the query, the paths already in it, and the modules.\<close>

definition parse_policies ::
  "'d rego_lib \<Rightarrow> RegoPolicy list \<Rightarrow> gerr + (string \<times> string goset \<times> rego_module list)" where
  "parse_policies rl policies =
     foldE (\<lambda>policy (query, denyPaths, modules).
         case rl_ParseModule rl (rp_Name policy) (rp_Module policy) of
           Inl err \<Rightarrow> Inl err
         | Inr parsedModule \<Rightarrow>
             Inr (if map_of denyPaths (deny_path parsedModule) = None
                  then (query @ deny_path parsedModule @ [CHR 0x0A],
                        AList.update (deny_path parsedModule) () denyPaths,
                        modules @ [parsedModule])
                  else (query, denyPaths, modules @ [parsedModule])))
       policies ([], [], [])"

primrec deny_strings :: "string \<Rightarrow> json \<Rightarrow> json list \<Rightarrow> gerr + string list" where
  "deny_strings path whole [] = Inr []"
| "deny_strings path whole (reason # reasons) =
     (case reason of
        JString s \<Rightarrow>
          (case deny_strings path whole reasons of Inl err \<Rightarrow> Inl err | Inr ss \<Rightarrow> Inr (s # ss))
      | _ \<Rightarrow> Inl (ErrRegoInvalidData path ''string'' whole))"

definition deny_reasons :: "string \<times> json \<Rightarrow> gerr + string list" where
  "deny_reasons expr =
     (case snd expr of
        JArray reasons \<Rightarrow> deny_strings (fst expr) (snd expr) reasons
      | _ \<Rightarrow> Inl (ErrRegoInvalidData (fst expr) ''[]interface{}'' (snd expr)))"

definition EvaluateRegoPolicy ::
  "'d rego_lib \<Rightarrow> 'd attestor option \<Rightarrow> RegoPolicy list \<Rightarrow> gerr option outcome" where
  "EvaluateRegoPolicy rl attestor policies =
     (if length policies = 0 then Return None
      else
        (case rl_marshal rl attestor of
           Inl err \<Rightarrow> Return (Some err)
         | Inr attestorJson \<Rightarrow>
             (case rl_decode rl attestorJson of
                Inl err \<Rightarrow> Return (Some err)
              | Inr input \<Rightarrow>
                  (case parse_policies rl policies of
                     Inl err \<Rightarrow> Return (Some err)
                   | Inr (query, _, modules) \<Rightarrow>
                       (case rl_Eval rl input modules query of
                          Inl err \<Rightarrow> Return (Some err)
                        | Inr rs \<Rightarrow>
                            (case mapE deny_reasons (concat rs) of
                               Inl err \<Rightarrow> Return (Some err)
                             | Inr allDenyReasons \<Rightarrow>
                                 if length (concat allDenyReasons) > 0
                                 then
                                   (case attestor of
                                      None \<Rightarrow> Panic nil_panic
                                    | Some a \<Rightarrow> Return (Some
                                        (Errorf ''rego policy evaluation failed for attestor type %s: %w''
                                          [FStr (att_Type a), FErr (ErrPolicyDenied (concat allDenyReasons))])))
                                 else Return None))))))"

section \<open>The attestations of a step\<close>

definition found_attestations :: "'d Collection \<Rightarrow> (string, 'd attestor option) gomap" where
  "found_attestations c =
     fold (\<lambda>ca. AList.update (ca_Type ca) (ca_Attestation ca)) (col_Attestations c) []"

text \<open>One iteration of the loop over the expected attestations; a missing one is evaluated as nil.\<close>

definition check_expected ::
  "'d rego_lib \<Rightarrow> string \<Rightarrow> (string, 'd attestor option) gomap \<Rightarrow> policy_Attestation \<Rightarrow>
     bool \<times> fval list \<Rightarrow> (bool \<times> fval list) outcome" where
  "check_expected rl stepName found expected st =
     (let (attestor, ok) =
            (case map_of found (pa_Type expected) of None \<Rightarrow> (None, False) | Some a \<Rightarrow> (a, True));
          (passed, reasons) =
            (if ok then st
             else (False, snd st @ [error_message (ErrMissingAttestation stepName (pa_Type expected))]))
      in bindO (EvaluateRegoPolicy rl attestor (pa_RegoPolicies expected))
           (\<lambda>err. Return (case err of
                None \<Rightarrow> (passed, reasons)
              | Some e \<Rightarrow> (False, reasons @ [error_message e]))))"

definition validate_collection ::
  "'d rego_lib \<Rightarrow> Step \<Rightarrow> 'd CollectionVerificationResult \<Rightarrow> (bool \<times> fval list) outcome" where
  "validate_collection rl s collection =
     foldO (check_expected rl (step_Name s) (found_attestations (ce_Collection collection)))
       (step_Attestations s)
       (cvr_Errors collection = [],
        map (\<lambda>err. FMsg ''collection verification failed: %s'' [error_message err]) (cvr_Errors collection))"

text \<open>The reasons, joined into the text of the rejection.\<close>

definition validation_failed :: "fval list \<Rightarrow> gerr" where
  "validation_failed reasons =
     Errorf ''%s'' [FMsg (''collection validation failed:'' @ [CHR 0x0A] @ '' - %s'') [FVals reasons]]"

definition validateAttestations ::
  "'d rego_lib \<Rightarrow> Step \<Rightarrow> 'd CollectionVerificationResult list \<Rightarrow> 'd StepResult outcome" where
  "validateAttestations rl s collectionResults =
     foldO (\<lambda>collection result.
         if col_Name (ce_Collection collection) \<noteq> step_Name s \<and> col_Name (ce_Collection collection) \<noteq> []
         then Return result
         else
           bindO (validate_collection rl s collection)
             (\<lambda>(passed, reasons). Return
                (if passed then result\<lparr>sr_Passed := sr_Passed result @ [collection]\<rparr>
                 else result\<lparr>sr_Rejected := sr_Rejected result @
                        [\<lparr>rc_Collection = collection,
                          rc_Reason = validation_failed reasons\<rparr>]\<rparr>)))
       collectionResults (new_result (step_Name s))"

section \<open>What the checks mean\<close>

definition last_of_type :: "'d Collection \<Rightarrow> string \<Rightarrow> 'd attestor option option" where
  "last_of_type c t = last_some (\<lambda>ca. if ca_Type ca = t then Some (ca_Attestation ca) else None) (col_Attestations c)"

definition attestations_ok ::
  "'d rego_lib \<Rightarrow> Step \<Rightarrow> 'd CollectionVerificationResult \<Rightarrow> bool" where
  "attestations_ok rl s c \<longleftrightarrow>
     (col_Name (ce_Collection c) = step_Name s \<or> col_Name (ce_Collection c) = []) \<and>
     cvr_Errors c = [] \<and>
     (\<forall>expected \<in> set (step_Attestations s). \<exists>a. last_of_type (ce_Collection c) (pa_Type expected) = Some a \<and>
        EvaluateRegoPolicy rl a (pa_RegoPolicies expected) = Return None)"

section \<open>Lemmas\<close>

lemma Analyze_iff: "Analyze r \<longleftrightarrow> sr_Passed r \<noteq> [] \<and> (\<forall>c \<in> set (sr_Passed r). cvr_Errors c = [])"
proof -
  have "fold (\<lambda>coll pass. if length (cvr_Errors coll) > 0 then False else pass) cs b \<longleftrightarrow>
      b \<and> (\<forall>c \<in> set cs. cvr_Errors c = [])" for cs :: "'a CollectionVerificationResult list" and b
    by (induction cs arbitrary: b) auto
  then show ?thesis by (auto simp: Analyze_def)
qed

lemma deny_strings_empty: "deny_strings path whole reasons = Inr [] \<longleftrightarrow> reasons = []"
  by (cases reasons) (auto split: json.splits sum.splits)

lemma deny_reasons_empty: "deny_reasons expr = Inr [] \<longleftrightarrow> snd expr = JArray []"
  by (auto simp: deny_reasons_def deny_strings_empty split: json.splits)

lemma mapE_all_empty:
  "(\<exists>xss. mapE f xs = Inr xss \<and> concat xss = []) \<longleftrightarrow> (\<forall>x \<in> set xs. f x = Inr [])"
proof (induction xs)
  case Nil
  then show ?case by simp
next
  case (Cons x xs)
  show ?case
  proof (cases "f x")
    case (Inl e)
    then show ?thesis by simp
  next
    case (Inr y)
    then have "(\<exists>xss. mapE f (x # xs) = Inr xss \<and> concat xss = []) \<longleftrightarrow>
        y = [] \<and> (\<exists>xss. mapE f xs = Inr xss \<and> concat xss = [])"
      by (auto split: sum.splits)
    with Cons.IH Inr show ?thesis by simp
  qed
qed

lemma EvaluateRegoPolicy_None_iff:
  "EvaluateRegoPolicy rl a policies = Return None \<longleftrightarrow>
     policies = [] \<or>
     (\<exists>data input query paths mods rs.
        rl_marshal rl a = Inr data \<and> rl_decode rl data = Inr input \<and>
        parse_policies rl policies = Inr (query, paths, mods) \<and>
        rl_Eval rl input mods query = Inr rs \<and>
        (\<forall>expr \<in> set (concat rs). snd expr = JArray []))"
proof -
  have deny: "(\<forall>expr \<in> set (concat rs). snd expr = JArray []) \<longleftrightarrow>
      (\<exists>xss. mapE deny_reasons (concat rs) = Inr xss \<and> concat xss = [])" for rs
    by (simp only: mapE_all_empty deny_reasons_empty)
  have "(case mapE deny_reasons (concat rs) of
        Inl err \<Rightarrow> Return (Some err)
      | Inr xss \<Rightarrow> if length (concat xss) > 0 then
          (case a of None \<Rightarrow> Panic p | Some x \<Rightarrow> Return (Some (err x xss))) else Return None) = Return None \<longleftrightarrow>
      (\<forall>expr \<in> set (concat rs). snd expr = JArray [])" for rs p err
    unfolding deny by (cases "mapE deny_reasons (concat rs)") (auto split: option.splits if_splits)
  then show ?thesis
    unfolding EvaluateRegoPolicy_def by (auto split: sum.splits prod.splits)
qed

lemma found_attestations_lookup: "map_of (found_attestations c) t = last_of_type c t"
proof -
  have "map_of (fold (\<lambda>ca. AList.update (ca_Type ca) (ca_Attestation ca)) cas []) t =
      last_some (\<lambda>ca. if ca_Type ca = t then Some (ca_Attestation ca) else None) cas"
    for cas :: "'a CollectionAttestation list"
    by (induction cas rule: rev_induct) (auto simp: update_conv)
  then show ?thesis by (simp add: found_attestations_def last_of_type_def)
qed

lemma check_expected_passed:
  assumes "check_expected rl n found e st = Return st'"
  shows "fst st' \<longleftrightarrow> fst st \<and>
    (\<exists>a. map_of found (pa_Type e) = Some a \<and> EvaluateRegoPolicy rl a (pa_RegoPolicies e) = Return None)"
  using assms
  by (cases "map_of found (pa_Type e)"; cases st)
    (auto simp: check_expected_def Let_def split: option.splits)

lemma check_all_expected_passed:
  assumes "foldO (check_expected rl n found) es st = Return st'"
  shows "fst st' \<longleftrightarrow> fst st \<and> (\<forall>e \<in> set es. \<exists>a. map_of found (pa_Type e) = Some a \<and>
    EvaluateRegoPolicy rl a (pa_RegoPolicies e) = Return None)"
  using assms
proof (induction es arbitrary: st)
  case Nil
  then show ?case by simp
next
  case (Cons e es)
  then obtain st1 where st1: "check_expected rl n found e st = Return st1"
    and rest: "foldO (check_expected rl n found) es st1 = Return st'" by auto
  from check_expected_passed [OF st1] Cons.IH [OF rest] show ?case by auto
qed

lemma validate_collection_passed:
  assumes "validate_collection rl s c = Return (passed, reasons)"
  shows "passed \<longleftrightarrow> cvr_Errors c = [] \<and>
    (\<forall>e \<in> set (step_Attestations s). \<exists>a. last_of_type (ce_Collection c) (pa_Type e) = Some a \<and>
       EvaluateRegoPolicy rl a (pa_RegoPolicies e) = Return None)"
  using check_all_expected_passed [OF assms [unfolded validate_collection_def]]
  by (simp add: found_attestations_lookup)

text \<open>Every collection that is not skipped ends up in one of the two lists, and the passed ones are those
  whose attestations are right.\<close>

lemma validateAttestations_result:
  assumes "validateAttestations rl s cs = Return r"
  shows "sr_Step r = step_Name s \<and> sr_Passed r = filter (attestations_ok rl s) cs \<and>
    map rc_Collection (sr_Rejected r) =
      filter (\<lambda>c. (col_Name (ce_Collection c) = step_Name s \<or> col_Name (ce_Collection c) = []) \<and>
        \<not> attestations_ok rl s c) cs"
  using assms
proof (induction cs arbitrary: r rule: rev_induct)
  case Nil
  then show ?case by (auto simp: validateAttestations_def new_result_def)
next
  case (snoc c cs)
  from snoc.prems obtain r0 where r0: "validateAttestations rl s cs = Return r0"
    by (auto simp: validateAttestations_def foldO_append)
  show ?case
  proof (cases "col_Name (ce_Collection c) \<noteq> step_Name s \<and> col_Name (ce_Collection c) \<noteq> []")
    case True
    with snoc.prems r0 have "r = r0" by (simp add: validateAttestations_def foldO_append)
    with snoc.IH [OF r0] True show ?thesis by (simp add: attestations_ok_def)
  next
    case False
    with snoc.prems r0 obtain passed reasons where
      v: "validate_collection rl s c = Return (passed, reasons)" and
      r: "r = (if passed then r0\<lparr>sr_Passed := sr_Passed r0 @ [c]\<rparr>
                 else r0\<lparr>sr_Rejected := sr_Rejected r0 @
                        [\<lparr>rc_Collection = c,
                          rc_Reason = validation_failed reasons\<rparr>]\<rparr>)"
      by (auto simp: validateAttestations_def foldO_append)
    from validate_collection_passed [OF v] False have "passed \<longleftrightarrow> attestations_ok rl s c"
      by (auto simp: attestations_ok_def)
    with snoc.IH [OF r0] r False show ?thesis by auto
  qed
qed

section \<open>Properties\<close>

text \<open>A Rego evaluation lets an attestor pass exactly when there is no policy, or when encoding, parsing
  and evaluation succeed and every expression of the result is an empty list of deny reasons.\<close>

theorem EvaluateRegoPolicy_exact:
  "EvaluateRegoPolicy rl attestor policies = Return None \<longleftrightarrow>
     policies = [] \<or>
     (\<exists>data input query paths modules rs.
        rl_marshal rl attestor = Inr data \<and> rl_decode rl data = Inr input \<and>
        parse_policies rl policies = Inr (query, paths, modules) \<and>
        rl_Eval rl input modules query = Inr rs \<and>
        (\<forall>expr \<in> set (concat rs). snd expr = JArray []))"
  by (rule EvaluateRegoPolicy_None_iff)

theorem EvaluateRegoPolicy_exact_witness:
  "EvaluateRegoPolicy \<lparr>rl_marshal = \<lambda>_. Inr ''{}'', rl_decode = \<lambda>_. Inr (JObject []),
     rl_ParseModule = \<lambda>n m. Inr \<lparr>rm_Path = n, rm_Rules = m\<rparr>, rl_Eval = \<lambda>i ms q. Inr [[(q, JArray [])]]\<rparr>
     (Some (sample_attestor ''m'' None None)) [\<lparr>rp_Module = ''x'', rp_Name = ''data.p''\<rparr>] = Return None"
  by (subst EvaluateRegoPolicy_exact) (simp add: parse_policies_def)

text \<open>C11. Validating the collections of a step sorts them completely: the passed ones are, in order,
  exactly those named after the step (or unnamed) that have no verification error and hold, for every
  attestation the step expects, one of its type that every Rego policy lets pass; the others named
  after the step are rejected, in order.\<close>

theorem validateAttestations_exact:
  assumes "validateAttestations rl s collections = Return r"
  shows "sr_Passed r = filter (attestations_ok rl s) collections \<and>
    map rc_Collection (sr_Rejected r) =
      filter (\<lambda>c. (col_Name (ce_Collection c) = step_Name s \<or> col_Name (ce_Collection c) = []) \<and>
        \<not> attestations_ok rl s c) collections"
  using validateAttestations_result [OF assms] by blast

definition sample_result :: "unit CollectionVerificationResult" where
  "sample_result = verification_result (zero_collection_envelope\<lparr>ce_Collection := sample_collection\<rparr>)
     [Some (ECDSAVerifier ''k'' SHA256)] []"

definition sample_step :: Step where
  "sample_step = \<lparr>step_Name = ''build'', step_Functionaries = [],
     step_Attestations = [\<lparr>pa_Type = ''material'', pa_RegoPolicies = []\<rparr>], step_ArtifactsFrom = []\<rparr>"

definition sample_rego :: "unit rego_lib" where
  "sample_rego = \<lparr>rl_marshal = \<lambda>_. Inr ''{}'', rl_decode = \<lambda>_. Inr (JObject []),
     rl_ParseModule = \<lambda>n m. Inr \<lparr>rm_Path = n, rm_Rules = m\<rparr>,
     rl_Eval = \<lambda>i ms q. Inr [[(q, JArray [JString ''denied''])]]\<rparr>"

lemma sample_validate:
  "validateAttestations sample_rego sample_step [sample_result] =
     Return \<lparr>sr_Step = ''build'', sr_Passed = [sample_result], sr_Rejected = []\<rparr>"
  by (simp add: validateAttestations_def validate_collection_def check_expected_def found_attestations_def
      EvaluateRegoPolicy_def sample_step_def sample_result_def sample_collection_def verification_result_def
      zero_collection_envelope_def new_result_def)

theorem validateAttestations_exact_witness:
  "filter (attestations_ok sample_rego sample_step) [sample_result] = [sample_result]"
  using validateAttestations_exact [OF sample_validate, THEN conjunct1, symmetric]
  by (simp only: StepResult.select_convs)

text \<open>A step that expects an attestation with a Rego policy panics on a collection without that
  attestation when the policy denies the nil input: the missing attestation is recorded, but evaluated
  all the same, and reporting the denial asks the nil attestor for its type.\<close>

theorem missing_attestation_panics:
  assumes "last_of_type (ce_Collection c) t = None"
    and "step_Attestations s = [\<lparr>pa_Type = t, pa_RegoPolicies = policies\<rparr>]"
    and "EvaluateRegoPolicy rl None policies = Panic msg"
    and "col_Name (ce_Collection c) = step_Name s"
  shows "validateAttestations rl s [c] = Panic msg"
  using assms
  by (simp add: validateAttestations_def validate_collection_def check_expected_def
      found_attestations_lookup Let_def)

theorem missing_attestation_panics_witness:
  "validateAttestations sample_rego
     (sample_step\<lparr>step_Attestations := [\<lparr>pa_Type = ''git'', pa_RegoPolicies = [\<lparr>rp_Module = ''m'', rp_Name = ''p''\<rparr>]\<rparr>]\<rparr>)
     [sample_result] = Panic nil_panic"
  by (rule missing_attestation_panics [where t = "''git''" and policies = "[\<lparr>rp_Module = ''m'', rp_Name = ''p''\<rparr>]"])
    (simp_all add: last_of_type_def last_some_def sample_result_def sample_collection_def verification_result_def
      zero_collection_envelope_def EvaluateRegoPolicy_def sample_rego_def parse_policies_def deny_reasons_def
      sample_step_def)

end
