(* ===== verification/Kms.thy ===== *)
theory Kms
  imports Keys Registry
begin

text \<open>
  Key management providers: \<open>signer/kms/signerprovider.go\<close> and \<open>signer/registry.go\<close>.

  A provider is a reference to a key, a hash function and options for the clients of the services. The
  services register themselves with a prefix of the references they handle; the table of services is
  an argument, the record \<open>kms_services\<close>. The type \<open>'o\<close> is that of a service's client options.
\<close>

section \<open>Providers\<close>

text \<open>\<open>HashFunc\<close> is \<open>None\<close> for the zero hash.\<close>

record 'o KMSSignerProvider =
  ksp_Reference :: string
  ksp_KeyVersion :: string
  ksp_HashFunc :: "crypto_hash option"
  ksp_Options :: "(string, 'o) gomap"

text \<open>A value of the interface \<open>signer.SignerProvider\<close>: a KMS provider or another implementation.\<close>

datatype 'o SignerProvider = KMSProvider "'o KMSSignerProvider" | OtherProvider string

record 'o kms_services =
  providersMap :: "(string, 'o KMSSignerProvider \<Rightarrow> gerr + signer) gomap"
  providerOptionsMap :: "(string, 'o option) gomap"
  opts_Init :: "'o \<Rightarrow> 'o SignerProvider configurer list"
  opts_ProviderName :: "'o \<Rightarrow> string"

definition AddProvider ::
  "string \<Rightarrow> 'o option \<Rightarrow> ('o KMSSignerProvider \<Rightarrow> gerr + signer) \<Rightarrow> 'o kms_services \<Rightarrow> 'o kms_services" where
  "AddProvider keyResourceID opts init ks =
     ks\<lparr>providersMap := AList.update keyResourceID init (providersMap ks),
        providerOptionsMap := AList.update keyResourceID opts (providerOptionsMap ks)\<rparr>"

definition SupportedProviders :: "'o kms_services \<Rightarrow> string list" where
  "SupportedProviders ks = map fst (providersMap ks)"

definition WithRef :: "string \<Rightarrow> 'o KMSSignerProvider \<Rightarrow> 'o KMSSignerProvider" where
  "WithRef ref ksp = ksp\<lparr>ksp_Reference := ref\<rparr>"

definition WithHash :: "string \<Rightarrow> 'o KMSSignerProvider \<Rightarrow> 'o KMSSignerProvider" where
  "WithHash hash ksp =
     ksp\<lparr>ksp_HashFunc := Some
        (if hash = ''SHA224'' then SHA224
         else if hash = ''SHA256'' then SHA256
         else if hash = ''SHA384'' then SHA384
         else if hash = ''SHA512'' then SHA512
         else SHA256)\<rparr>"

definition WithKeyVersion :: "string \<Rightarrow> 'o KMSSignerProvider \<Rightarrow> 'o KMSSignerProvider" where
  "WithKeyVersion keyVersion ksp = ksp\<lparr>ksp_KeyVersion := keyVersion\<rparr>"

text \<open>
  \<open>New\<close>. The setters of the defaults change the provider through its pointer, so what they changed
  before an error stays; a setter that returns something that is not a KMS provider has no effect.
\<close>

definition kms_New ::
  "'o kms_services \<Rightarrow> ('o KMSSignerProvider \<Rightarrow> 'o KMSSignerProvider) list \<Rightarrow> 'o KMSSignerProvider" where
  "kms_New ks opts =
     (let ksp = fold (\<lambda>opt ksp. opt ksp) opts
            \<lparr>ksp_Reference = [], ksp_KeyVersion = [], ksp_HashFunc = None, ksp_Options = []\<rparr>;
          ksp = ksp\<lparr>ksp_Options :=
                  fold (\<lambda>(_, opt) m. case opt of None \<Rightarrow> m | Some x \<Rightarrow> AList.update (opts_ProviderName ks x) x m)
                    (providerOptionsMap ks) []\<rparr>;
          allConfigurers = concat (map (\<lambda>(_, opt). opts_Init ks opt) (ksp_Options ksp))
      in case SetDefaultVals (KMSProvider ksp) allConfigurers of
           (KMSProvider ksp2, _) \<Rightarrow> ksp2
         | _ \<Rightarrow> ksp)"

definition has_prefix :: "string \<Rightarrow> string \<Rightarrow> bool" where
  "has_prefix s p = (take (length p) s = p)"

text \<open>The loops of \<open>Signer\<close> and \<open>Verifier\<close> take the first service whose prefix the reference has.\<close>

definition find_service ::
  "'o kms_services \<Rightarrow> string \<Rightarrow> ('o KMSSignerProvider \<Rightarrow> gerr + signer) option" where
  "find_service ks ref = map_option snd (List.find (\<lambda>(p, _). has_prefix ref p) (providersMap ks))"

definition KMS_Signer :: "'o kms_services \<Rightarrow> 'o KMSSignerProvider \<Rightarrow> gerr + signer" where
  "KMS_Signer ks ksp =
     (case find_service ks (ksp_Reference ksp) of
        None \<Rightarrow> Inl (Errorf ''no kms provider found for key reference: %s'' [FStr (ksp_Reference ksp)])
      | Some init \<Rightarrow> init ksp)"

definition KMS_Verifier :: "crypto_lib \<Rightarrow> 'o kms_services \<Rightarrow> 'o KMSSignerProvider \<Rightarrow> gerr + verifier" where
  "KMS_Verifier lib ks ksp =
     (case find_service ks (ksp_Reference ksp) of
        None \<Rightarrow> Inl (Errorf ''no kms provider found for key reference: %s'' [FStr (ksp_Reference ksp)])
      | Some init \<Rightarrow>
          (case init ksp of
             Inl err \<Rightarrow> Inl err
           | Inr p \<Rightarrow> Signer_Verifier lib p))"

section \<open>The registries of providers\<close>

definition NewSignerProvider ::
  "'o SignerProvider \<Rightarrow> 'o SignerProvider Registry \<Rightarrow> string \<Rightarrow>
     ('o SignerProvider \<Rightarrow> 'o SignerProvider \<times> gerr option) list \<Rightarrow> 'o SignerProvider \<times> gerr option" where
  "NewSignerProvider zero signerRegistry name opts = NewEntity zero signerRegistry name opts"

text \<open>How \<open>signer/kms\<close> registers itself: three options, set on a KMS provider and refused on any other.\<close>

definition kms_setter ::
  "(string \<Rightarrow> 'o KMSSignerProvider \<Rightarrow> 'o KMSSignerProvider) \<Rightarrow> 'o SignerProvider \<Rightarrow> string \<Rightarrow>
     'o SignerProvider \<times> gerr option" where
  "kms_setter with_opt sp v =
     (case sp of
        KMSProvider ksp \<Rightarrow> (KMSProvider (with_opt v ksp), None)
      | OtherProvider n \<Rightarrow> (sp, Some (Errorf ''provided signer provider is not a kms signer provider'' [])))"

definition kms_init :: "'o kms_services \<Rightarrow> 'o SignerProvider Registry \<Rightarrow> 'o SignerProvider Registry" where
  "kms_init ks signerRegistry =
     fst (Register signerRegistry ''kms'' (\<lambda>_. KMSProvider (kms_New ks []))
       [StringConfigOption ''ref'' ''The KMS Reference URI to use for connecting to the KMS service'' ''''
          (kms_setter WithRef),
        StringConfigOption ''hashType'' ''The hash type to use for signing'' ''sha256'' (kms_setter WithHash),
        StringConfigOption ''keyVersion'' ''The key version to use for signing'' '''' (kms_setter WithKeyVersion)])"

section \<open>Lemmas\<close>

lemma find_service_prefix:
  "find_service ks ref = Some init \<Longrightarrow> \<exists>p. has_prefix ref p \<and> (p, init) \<in> set (providersMap ks)"
  by (auto simp: find_service_def find_Some_iff) (metis nth_mem)

lemma NewSignerProvider_kms:
  "\<exists>ksp. NewSignerProvider zero (kms_init ks r) ''kms'' [] = (KMSProvider ksp, None) \<and>
     ksp_Reference ksp = '''' \<and> ksp_HashFunc ksp = Some SHA256"
  by (simp add: NewSignerProvider_def kms_init_def NewEntity_known Register_def Registry_Entry_def Let_def
      update_conv StringConfigOption_def new_option_def kms_setter_def WithRef_def WithHash_def
      WithKeyVersion_def)

end
