(* ===== verification/Policy.thy ===== *)
theory Policy
  imports Policy_Step Kms
begin

text \<open>
  Policies and their verification: \<open>policy/policy.go\<close>.

  A policy has trusted roots, timestamp authorities and public keys, and the steps that must have been
  performed. \<open>Policy_Verify\<close> searches collections for every step, repeatedly and following back
  references, checks who signed them and what they attest, and compares the materials of a step with
  the artifacts of the steps it takes them from.

  The order in which a loop ranges over the steps may differ from loop to loop: \<open>order d\<close> is the order
  of the loop at depth \<open>d\<close> of the search, and \<open>order\<close> of the search depth that of the artifact check.
  The source is a state with a search function; its first argument counts the searches, so that what
  depends on the clock may differ between them. \<open>now\<close> is the clock when the policy's expiry is checked.
\<close>

section \<open>Data\<close>

definition PolicyPredicate :: string where
  "PolicyPredicate = ''https://witness.testifysec.com/policy/v0.1''"

record Root =
  root_Certificate :: bytes
  root_Intermediates :: "bytes list"

record policy_PublicKey =
  pk_KeyID :: string
  pk_Key :: bytes

record Policy =
  pol_Expires :: gtime
  pol_Roots :: "(string, Root) gomap"
  pol_TimestampAuthorities :: "(string, Root) gomap"
  pol_PublicKeys :: "(string, policy_PublicKey) gomap"
  pol_Steps :: "(string, Step) gomap"

section \<open>Keys and trust bundles\<close>

text \<open>What a setter of a KMS provider returns: nil, the pointer it was given (which it may have changed),
  or some other provider. A setter is a function from the provider to the changed provider, what it
  returns, and an error.\<close>

datatype 'o setter_result = ReturnsNil | ReturnsSame | Returns "'o SignerProvider"

type_synonym 'o kms_setter = "'o KMSSignerProvider \<Rightarrow> 'o KMSSignerProvider \<times> 'o setter_result \<times> gerr option"

definition apply_setters ::
  "'o kms_services \<Rightarrow> (string, 'o kms_setter list) gomap \<Rightarrow> 'o KMSSignerProvider \<Rightarrow>
     'o KMSSignerProvider \<times> 'o setter_result" where
  "apply_setters ks ko ksp =
     fold (\<lambda>(_, opt).
         fold (\<lambda>setter (ksp, vp). case setter ksp of (ksp', vp', err) \<Rightarrow> (ksp', vp'))
           (case map_of ko (opts_ProviderName ks opt) of None \<Rightarrow> [] | Some setters \<Rightarrow> setters))
       (ksp_Options ksp) (ksp, ReturnsNil)"

definition kms_key_verifier ::
  "crypto_lib \<Rightarrow> 'o kms_services \<Rightarrow> (string, 'o kms_setter list) gomap \<Rightarrow> string \<Rightarrow> gerr + verifier" where
  "kms_key_verifier lib ks ko keyID =
     (let (ksp, vp) = apply_setters ks ko (kms_New ks [WithRef keyID, WithHash ''SHA256''])
      in case (case vp of
                 ReturnsNil \<Rightarrow> Some ksp
               | ReturnsSame \<Rightarrow> Some ksp
               | Returns (KMSProvider k) \<Rightarrow> Some k
               | Returns (OtherProvider n) \<Rightarrow> None) of
           None \<Rightarrow> Inl (Errorf ''provided verifier provider is not a KMS verifier provider'' [])
         | Some k \<Rightarrow>
             (case KMS_Verifier lib ks k of
                Inl err \<Rightarrow> Inl (Errorf ''failed to create kms verifier: %w'' [FErr err])
              | Inr v \<Rightarrow> Inr v))"

text \<open>The verifier of one key: of the last supported KMS provider whose prefix the key id has, and of the
  embedded key when there is none.\<close>

definition key_verifier ::
  "crypto_lib \<Rightarrow> 'o kms_services \<Rightarrow> (string, 'o kms_setter list) gomap \<Rightarrow> policy_PublicKey \<Rightarrow> gerr + verifier" where
  "key_verifier lib ks ko key =
     (case foldE (\<lambda>pre verifier.
              if has_prefix (pk_KeyID key) pre
              then map_sum id Some (kms_key_verifier lib ks ko (pk_KeyID key))
              else Inr verifier)
            (SupportedProviders ks) None of
        Inl err \<Rightarrow> Inl err
      | Inr (Some verifier) \<Rightarrow> Inr verifier
      | Inr None \<Rightarrow> NewVerifierFromReader lib (Inr (pk_Key key)) [])"

definition PublicKeyVerifiers ::
  "crypto_lib \<Rightarrow> 'o kms_services \<Rightarrow> (string, 'o kms_setter list) gomap \<Rightarrow> Policy \<Rightarrow>
     gerr + (string, verifier) gomap" where
  "PublicKeyVerifiers lib ks ko p =
     foldE (\<lambda>(_, key) verifiers.
         case key_verifier lib ks ko key of
           Inl err \<Rightarrow> Inl err
         | Inr verifier \<Rightarrow>
             (case Verifier_KeyID lib verifier of
                Inl err \<Rightarrow> Inl err
              | Inr keyID \<Rightarrow>
                  if keyID \<noteq> pk_KeyID key then Inl (ErrKeyIDMismatch (pk_KeyID key) keyID)
                  else Inr (AList.update keyID verifier verifiers)))
       (pol_PublicKeys p) []"

definition parse_root :: "crypto_lib \<Rightarrow> Root \<Rightarrow> gerr + TrustBundle" where
  "parse_root lib root =
     (case TryParseCertificate lib (root_Certificate root) of
        Inl err \<Rightarrow> Inl err
      | Inr cert \<Rightarrow>
          (case mapE (TryParseCertificate lib) (root_Intermediates root) of
             Inl err \<Rightarrow> Inl err
           | Inr intermediates \<Rightarrow> Inr \<lparr>tb_Root = cert, tb_Intermediates = intermediates\<rparr>))"

definition trustBundlesFromRoots ::
  "crypto_lib \<Rightarrow> (string, Root) gomap \<Rightarrow> gerr + (string, TrustBundle) gomap" where
  "trustBundlesFromRoots lib roots =
     foldE (\<lambda>(id, root) bundles. map_sum (\<lambda>err. err) (\<lambda>bundle. AList.update id bundle bundles) (parse_root lib root))
       roots []"

definition TrustBundles :: "crypto_lib \<Rightarrow> Policy \<Rightarrow> gerr + (string, TrustBundle) gomap" where
  "TrustBundles lib p = trustBundlesFromRoots lib (pol_Roots p)"

definition TimestampAuthorityTrustBundles :: "crypto_lib \<Rightarrow> Policy \<Rightarrow> gerr + (string, TrustBundle) gomap" where
  "TimestampAuthorityTrustBundles lib p = trustBundlesFromRoots lib (pol_TimestampAuthorities p)"

section \<open>Functionaries\<close>

definition predicate_type_error :: "string \<Rightarrow> gerr" where
  "predicate_type_error t = Errorf ''predicate type %v is not a collection predicate type'' [FStr t]"

text \<open>
  The two inner loops over the verifiers and the functionaries. Both assignments start from the loop's
  copy of the statement, so at most one warning and one valid functionary are added: the last ones.
\<close>

definition validate_pair ::
  "crypto_lib \<Rightarrow> cert_lib \<Rightarrow> Step \<Rightarrow> (string, TrustBundle) gomap \<Rightarrow> 'd CollectionVerificationResult \<Rightarrow>
     verifier option \<times> Functionary \<Rightarrow> 'd CollectionVerificationResult \<Rightarrow>
     'd CollectionVerificationResult outcome" where
  "validate_pair lib cl step trustBundles statement vf st =
     (case vf of (verifier, functionary) \<Rightarrow>
        bindO (Functionary_Validate lib cl functionary verifier trustBundles)
          (\<lambda>err. Return (case err of
               Some e \<Rightarrow> st\<lparr>cvr_Warnings := cvr_Warnings statement @
                   [FMsg ''failed to validate functionary of KeyID %s in step %s: %s''
                      [FStr (fn_PublicKeyID functionary), FStr (step_Name step), error_message e]]\<rparr>
             | None \<Rightarrow> st\<lparr>cvr_ValidFunctionaries := cvr_ValidFunctionaries statement @ [verifier]\<rparr>)))"

definition check_statement ::
  "crypto_lib \<Rightarrow> cert_lib \<Rightarrow> Step \<Rightarrow> (string, TrustBundle) gomap \<Rightarrow> 'd CollectionVerificationResult \<Rightarrow>
     'd StepResult \<Rightarrow> 'd StepResult outcome" where
  "check_statement lib cl step trustBundles statement result =
     (let result =
            (if st_PredicateType (ce_Statement statement) \<noteq> CollectionType
             then result\<lparr>sr_Rejected := sr_Rejected result @
                    [\<lparr>rc_Collection = statement,
                      rc_Reason = predicate_type_error (st_PredicateType (ce_Statement statement))\<rparr>]\<rparr>
             else result)
      in if length (cvr_Verifiers statement) > 0
         then
           bindO (foldO (validate_pair lib cl step trustBundles statement)
                    (List.product (cvr_Verifiers statement) (step_Functionaries step)) statement)
             (\<lambda>checked. Return
                (if length (cvr_ValidFunctionaries checked) = 0
                 then result\<lparr>sr_Rejected := sr_Rejected result @
                        [\<lparr>rc_Collection = checked,
                          rc_Reason = Errorf ''no verifiers matched with allowed functionaries for step %s''
                            [FStr (step_Name step)]\<rparr>]\<rparr>
                 else result\<lparr>sr_Passed := sr_Passed result @ [checked]\<rparr>))
         else Return (result\<lparr>sr_Rejected := sr_Rejected result @
                [\<lparr>rc_Collection = statement,
                  rc_Reason = Errorf ''no verifiers present to validate against collection verifiers'' []\<rparr>]\<rparr>))"

definition checkFunctionaries ::
  "crypto_lib \<Rightarrow> cert_lib \<Rightarrow> Step \<Rightarrow> 'd CollectionVerificationResult list \<Rightarrow> (string, TrustBundle) gomap \<Rightarrow>
     'd StepResult outcome" where
  "checkFunctionaries lib cl step statements trustBundles =
     foldO (check_statement lib cl step trustBundles) statements (new_result (step_Name step))"

section \<open>Artifacts\<close>

primrec compareArtifacts :: "(string, digest_set) gomap \<Rightarrow> (string, digest_set) gomap \<Rightarrow> gerr option" where
  "compareArtifacts [] arts = None"
| "compareArtifacts (entry # mats) arts =
     (case map_of arts (fst entry) of
        None \<Rightarrow> compareArtifacts mats arts
      | Some art \<Rightarrow>
          if \<not> DigestSet_Equal (snd entry) art
          then Some (ErrMismatchArtifact art (snd entry) (fst entry))
          else compareArtifacts mats arts)"

definition passed_of :: "(string, 'd StepResult) gomap \<Rightarrow> string \<Rightarrow> 'd CollectionVerificationResult list" where
  "passed_of results name = (case map_of results name of None \<Rightarrow> [] | Some r \<Rightarrow> sr_Passed r)"

text \<open>The loop over the passed collections of a step the artifacts come from: it stops at the first that
  does not agree. It yields how many were accepted and the reasons.\<close>

primrec accept_collections ::
  "(string, digest_set) gomap \<Rightarrow> 'd CollectionVerificationResult list \<Rightarrow> nat \<Rightarrow> fval list \<Rightarrow> nat \<times> fval list" where
  "accept_collections mats [] accepted reasons = (accepted, reasons)"
| "accept_collections mats (testCollection # cs) accepted reasons =
     (case compareArtifacts mats (Collection_Artifacts (ce_Collection testCollection)) of
        Some err \<Rightarrow> (accepted, reasons @ [error_message err])
      | None \<Rightarrow> accept_collections mats cs (accepted + 1) reasons)"

primrec check_artifacts_from ::
  "(string, digest_set) gomap \<Rightarrow> (string, 'd StepResult) gomap \<Rightarrow> string list \<Rightarrow> fval list \<Rightarrow> gerr option" where
  "check_artifacts_from mats collectionsByStep [] reasons = None"
| "check_artifacts_from mats collectionsByStep (artifactsFrom # froms) reasons =
     (let (accepted, reasons) = accept_collections mats (passed_of collectionsByStep artifactsFrom) 0 reasons
      in if accepted = 0 then Some (ErrVerifyArtifactsFailed reasons)
         else check_artifacts_from mats collectionsByStep froms reasons)"

definition verifyCollectionArtifacts ::
  "Step \<Rightarrow> 'd CollectionVerificationResult \<Rightarrow> (string, 'd StepResult) gomap \<Rightarrow> gerr option" where
  "verifyCollectionArtifacts step collection collectionsByStep =
     check_artifacts_from (Collection_Materials (ce_Collection collection)) collectionsByStep
       (step_ArtifactsFrom step) []"

definition zero_result :: "'d CollectionVerificationResult" where
  "zero_result = verification_result zero_collection_envelope [] []"

text \<open>One iteration of the loop over the steps.\<close>

definition verify_step_artifacts ::
  "Step \<Rightarrow> (string, 'd StepResult) gomap \<Rightarrow> gerr + (string, 'd StepResult) gomap" where
  "verify_step_artifacts step resultsByStep =
     (if length (passed_of resultsByStep (step_Name step)) = 0
      then
        (case map_of resultsByStep (step_Name step) of
           None \<Rightarrow> Inl (Errorf ''failed to find step %s in step results map'' [FStr (step_Name step)])
         | Some result \<Rightarrow>
             Inr (AList.update (step_Name step)
               (result\<lparr>sr_Rejected := sr_Rejected result @
                  [\<lparr>rc_Collection = zero_result,
                    rc_Reason = Errorf ''failed to verify artifacts for step %s: no passed collections present''
                      [FStr (step_Name step)]\<rparr>]\<rparr>) resultsByStep))
      else
        (let errs = map (\<lambda>collection. verifyCollectionArtifacts step collection resultsByStep)
               (passed_of resultsByStep (step_Name step));
             accepted = list_ex (\<lambda>err. err = None) errs;
             reasons = List.map_filter id errs
         in if \<not> accepted
            then
              (case map_of resultsByStep (step_Name step) of
                 None \<Rightarrow> Inr resultsByStep
               | Some result \<Rightarrow>
                   Inr (AList.update (step_Name step)
                     (result\<lparr>sr_Rejected := sr_Rejected result @
                        [\<lparr>rc_Collection = zero_result,
                          rc_Reason = fold (\<lambda>reason acc. ErrorsJoin [acc, reason]) reasons
                            (Errorf ''failed to verify artifacts for step %s: '' [FStr (step_Name step)])\<rparr>],
                        sr_Passed := []\<rparr>) resultsByStep))
            else Inr resultsByStep))"

definition verifyArtifacts ::
  "(string, Step) gomap \<Rightarrow> (string, 'd StepResult) gomap \<Rightarrow> gerr + (string, 'd StepResult) gomap" where
  "verifyArtifacts steps resultsByStep = foldE (\<lambda>(_, step). verify_step_artifacts step) steps resultsByStep"

section \<open>Verification\<close>

record 'v policy_verifyOptions =
  pvo_verifiedSource :: "'v option"
  pvo_subjectDigests :: "string list"
  pvo_searchDepth :: int

definition WithVerifiedSource :: "'v option \<Rightarrow> 'v policy_verifyOptions \<Rightarrow> 'v policy_verifyOptions" where
  "WithVerifiedSource verifiedSource vo = vo\<lparr>pvo_verifiedSource := verifiedSource\<rparr>"

definition WithSubjectDigests :: "string list \<Rightarrow> 'v policy_verifyOptions \<Rightarrow> 'v policy_verifyOptions" where
  "WithSubjectDigests subjectDigests vo = vo\<lparr>pvo_subjectDigests := subjectDigests\<rparr>"

definition WithSearchDepth :: "int \<Rightarrow> 'v policy_verifyOptions \<Rightarrow> 'v policy_verifyOptions" where
  "WithSearchDepth depth vo = vo\<lparr>pvo_searchDepth := depth\<rparr>"

definition default_verify_options :: "'v policy_verifyOptions" where
  "default_verify_options = \<lparr>pvo_verifiedSource = None, pvo_subjectDigests = [], pvo_searchDepth = 3\<rparr>"

definition checkVerifyOpts :: "'v policy_verifyOptions \<Rightarrow> gerr option" where
  "checkVerifyOpts vo =
     (if pvo_verifiedSource vo = None
      then Some (ErrInvalidOption ''verified source'' ''a verified attestation source is required'')
      else if length (pvo_subjectDigests vo) = 0
      then Some (ErrInvalidOption ''subject digests'' ''at least one subject digest is required'')
      else if pvo_searchDepth vo < 1
      then Some (ErrInvalidOption ''search depth'' ''search depth must be at least 1'')
      else None)"

type_synonym ('v, 'd) verified_searcher =
  "'v \<Rightarrow> string \<Rightarrow> string list \<Rightarrow> string list \<Rightarrow> 'v \<times> (gerr + 'd CollectionVerificationResult list)"

record ('v, 'd) verify_state =
  pv_source :: 'v
  pv_subjectDigests :: "string list"
  pv_resultsByStep :: "(string, 'd StepResult) gomap"
  pv_searches :: nat

definition attestationsByStep :: "Policy \<Rightarrow> (string, string list) gomap" where
  "attestationsByStep p =
     fold (\<lambda>(name, step).
         fold (\<lambda>att m. AList.update name
             ((case map_of m name of None \<Rightarrow> [] | Some ts \<Rightarrow> ts) @ [pa_Type att]) m)
           (step_Attestations step))
       (pol_Steps p) []"

text \<open>The digests of the back references of the passed collections.\<close>

definition back_ref_digests :: "'d CollectionVerificationResult list \<Rightarrow> string list" where
  "back_ref_digests passed =
     concat (map (\<lambda>coll. concat (map (\<lambda>(_, digestSet). map snd digestSet)
       (Collection_BackRefs (ce_Collection coll)))) passed)"

definition merge_result ::
  "string \<Rightarrow> 'd StepResult \<Rightarrow> (string, 'd StepResult) gomap \<Rightarrow> (string, 'd StepResult) gomap" where
  "merge_result stepName stepResult resultsByStep =
     (case map_of resultsByStep stepName of
        None \<Rightarrow> AList.update stepName stepResult resultsByStep
      | Some result \<Rightarrow>
          if sr_Step result = [] then AList.update stepName stepResult resultsByStep
          else AList.update stepName
                 (result\<lparr>sr_Passed := sr_Passed result @ sr_Passed stepResult,
                         sr_Rejected := sr_Rejected result @ sr_Rejected stepResult\<rparr>) resultsByStep)"

text \<open>The body of the inner loop: search, check the functionaries, validate, merge, follow back
  references.\<close>

definition verify_step ::
  "crypto_lib \<Rightarrow> cert_lib \<Rightarrow> 'd rego_lib \<Rightarrow> (nat \<Rightarrow> ('v, 'd) verified_searcher) \<Rightarrow> Policy \<Rightarrow>
     (string, TrustBundle) gomap \<Rightarrow> string \<times> Step \<Rightarrow> ('v, 'd) verify_state \<Rightarrow>
     (gerr + ('v, 'd) verify_state) outcome" where
  "verify_step lib cl rl search p trustBundles entry st =
     (let (stepName, step) = entry;
          types = (case map_of (attestationsByStep p) stepName of None \<Rightarrow> [] | Some ts \<Rightarrow> ts)
      in case search (pv_searches st) (pv_source st) stepName (pv_subjectDigests st) types of
           (src, Inl err) \<Rightarrow> Return (Inl err)
         | (src, Inr found) \<Rightarrow>
             (let collections =
                    (if length found = 0
                     then found @ [zero_result\<lparr>cvr_Errors := [ErrNoCollections stepName]\<rparr>] else found)
              in bindO (checkFunctionaries lib cl step collections trustBundles)
                   (\<lambda>functionaryCheckResults.
                      bindO (validateAttestations rl step (sr_Passed functionaryCheckResults))
                        (\<lambda>validated.
                           let stepResult = validated\<lparr>sr_Rejected :=
                                 sr_Rejected validated @ sr_Rejected functionaryCheckResults\<rparr>
                           in Return (Inr (st\<lparr>pv_source := src,
                                 pv_searches := Suc (pv_searches st),
                                 pv_resultsByStep := merge_result stepName stepResult (pv_resultsByStep st),
                                 pv_subjectDigests := pv_subjectDigests st @
                                   back_ref_digests (sr_Passed stepResult)\<rparr>))))))"

text \<open>Both loops, as one over the sequence of steps visited; the first error ends them.\<close>

definition verify_steps ::
  "crypto_lib \<Rightarrow> cert_lib \<Rightarrow> 'd rego_lib \<Rightarrow> (nat \<Rightarrow> ('v, 'd) verified_searcher) \<Rightarrow> Policy \<Rightarrow>
     (string, TrustBundle) gomap \<Rightarrow> (string \<times> Step) list \<Rightarrow> ('v, 'd) verify_state \<Rightarrow>
     (gerr + ('v, 'd) verify_state) outcome" where
  "verify_steps lib cl rl search p trustBundles entries st =
     foldO (\<lambda>entry acc. case acc of
         Inl err \<Rightarrow> Return (Inl err)
       | Inr st \<Rightarrow> verify_step lib cl rl search p trustBundles entry st) entries (Inr st)"

definition Policy_Verify ::
  "crypto_lib \<Rightarrow> cert_lib \<Rightarrow> 'd rego_lib \<Rightarrow> gtime \<Rightarrow> (nat \<Rightarrow> (string, Step) gomap) \<Rightarrow>
     (nat \<Rightarrow> ('v, 'd) verified_searcher) \<Rightarrow> Policy \<Rightarrow> ('v policy_verifyOptions \<Rightarrow> 'v policy_verifyOptions) list \<Rightarrow>
     (bool \<times> (string, 'd StepResult) gomap \<times> gerr option) outcome" where
  "Policy_Verify lib cl rl now order search p opts =
     (let vo = fold (\<lambda>opt vo. opt vo) opts default_verify_options
      in case checkVerifyOpts vo of
           Some err \<Rightarrow> Return (False, [], Some err)
         | None \<Rightarrow>
             if pol_Expires p < now then Return (False, [], Some (ErrPolicyExpired (pol_Expires p)))
             else
               (case TrustBundles lib p of
                  Inl err \<Rightarrow> Return (False, [], Some err)
                | Inr trustBundles \<Rightarrow>
                    (let depth = nat (pvo_searchDepth vo)
                     in bindO (verify_steps lib cl rl search p trustBundles
                                 (concat (map order [0..<depth]))
                                 \<lparr>pv_source = the (pvo_verifiedSource vo),
                                  pv_subjectDigests = pvo_subjectDigests vo,
                                  pv_resultsByStep = [], pv_searches = 0\<rparr>)
                          (\<lambda>res. Return
                             (case res of
                                Inl err \<Rightarrow> (False, [], Some err)
                              | Inr st \<Rightarrow>
                                  (case verifyArtifacts (order depth) (pv_resultsByStep st) of
                                     Inl err \<Rightarrow>
                                       (False, [], Some (Errorf ''failed to verify artifacts: %w'' [FErr err]))
                                   | Inr resultsByStep \<Rightarrow>
                                       (list_all (\<lambda>(_, result). Analyze result) resultsByStep,
                                        resultsByStep, None)))))))"

end
