(* ===== verification/Policy_Correct.thy ===== *)
theory Policy_Correct
  imports Policy
begin

text \<open>
  What verifying a policy guarantees: lemmas and properties about the definitions of \<open>Policy\<close>.

  The checks on functionaries and on artifacts are characterised first. The locale
  \<open>verified_sourcer\<close> is what the policy relies on of its source, and the soundness of the search loop
  is proved once for every such source; it is interpreted on the verifying source of \<open>Source\<close>.
\<close>

section \<open>Keys and trust bundles\<close>

lemma foldE_invariant:
  assumes "foldE f xs s = Inr t" and "P s"
    and "\<And>x s t. x \<in> set xs \<Longrightarrow> P s \<Longrightarrow> f x s = Inr t \<Longrightarrow> P t"
  shows "P t"
  using assms
proof (induction xs arbitrary: s)
  case Nil
  then show ?case by simp
next
  case (Cons x xs)
  from Cons.prems(1) obtain u where u: "f x s = Inr u" and rest: "foldE f xs u = Inr t"
    by (auto split: sum.splits)
  from u Cons.prems(2,3) have "P u" by (meson list.set_intros(1))
  with rest Cons.prems(3) show ?case by (intro Cons.IH) auto
qed

lemma PublicKeyVerifiers_step:
  assumes "(case key_verifier lib ks ko key of
         Inl err \<Rightarrow> Inl err
       | Inr verifier \<Rightarrow>
           (case Verifier_KeyID lib verifier of
              Inl err \<Rightarrow> Inl err
            | Inr keyID \<Rightarrow>
                if keyID \<noteq> pk_KeyID key then Inl (ErrKeyIDMismatch (pk_KeyID key) keyID)
                else Inr (AList.update keyID verifier verifiers))) = Inr verifiers'"
  shows "\<exists>v. key_verifier lib ks ko key = Inr v \<and> Verifier_KeyID lib v = Inr (pk_KeyID key) \<and>
    verifiers' = AList.update (pk_KeyID key) v verifiers"
  using assms by (auto split: sum.splits if_splits)

lemma foldE_collects:
  assumes "foldE (\<lambda>x m. step x m) xs m0 = Inr m"
    and "\<And>x m m'. step x m = Inr m' \<Longrightarrow> \<exists>v. good x v \<and> m' = AList.update (key x) v m"
  shows "(\<forall>k v. map_of m k = Some v \<longrightarrow> (\<exists>x \<in> set xs. key x = k \<and> good x v) \<or> map_of m0 k = Some v) \<and>
    (\<forall>x \<in> set xs. \<exists>v. map_of m (key x) = Some v) \<and> (gomap_ok m0 \<longrightarrow> gomap_ok m) \<and>
    (\<forall>k v. map_of m0 k = Some v \<longrightarrow> (\<exists>v. map_of m k = Some v))"
  using assms(1)
proof (induction xs arbitrary: m0)
  case Nil
  then show ?case by auto
next
  case (Cons x xs)
  from Cons.prems obtain m1 where m1: "step x m0 = Inr m1"
    and rest: "foldE (\<lambda>x m. step x m) xs m1 = Inr m" by (auto split: sum.splits)
  from assms(2) [OF m1] obtain v where "good x v" "m1 = AList.update (key x) v m0" by blast
  with Cons.IH [OF rest] show ?case by (auto simp: update_conv split: if_splits)
qed

lemma trustBundles_collects:
  assumes "trustBundlesFromRoots lib roots = Inr bundles"
  shows "gomap_ok bundles \<and> (\<forall>id b. map_of bundles id = Some b \<longrightarrow>
    (\<exists>root. (id, root) \<in> set roots \<and> parse_root lib root = Inr b))"
proof -
  let ?step = "\<lambda>(id, root) bundles. map_sum (\<lambda>err. err) (\<lambda>bundle. AList.update id bundle bundles) (parse_root lib root)"
  have step: "\<exists>v. parse_root lib (snd x) = Inr v \<and> m' = AList.update (fst x) v m" if "?step x m = Inr m'" for x m m'
    using that by (cases "parse_root lib (snd x)") (auto simp: case_prod_unfold)
  from foldE_collects [of ?step roots "[]" bundles "\<lambda>x v. parse_root lib (snd x) = Inr v" fst,
      OF assms [unfolded trustBundlesFromRoots_def] step]
  show ?thesis by fastforce
qed

section \<open>Functionaries\<close>

text \<open>The functionary check only adds a warning and a valid functionary.\<close>

definition core :: "'d CollectionVerificationResult \<Rightarrow> 'd CollectionVerificationResult" where
  "core c = c\<lparr>cvr_ValidFunctionaries := [], cvr_Warnings := []\<rparr>"

lemma core_selectors [simp]:
  "ce_Envelope (core c) = ce_Envelope c" "ce_Statement (core c) = ce_Statement c"
  "ce_Collection (core c) = ce_Collection c" "ce_Reference (core c) = ce_Reference c"
  "cvr_Verifiers (core c) = cvr_Verifiers c" "cvr_Errors (core c) = cvr_Errors c"
  by (simp_all add: core_def)

lemma core_same:
  assumes "core c = core d"
  shows "ce_Envelope c = ce_Envelope d" "ce_Statement c = ce_Statement d" "ce_Collection c = ce_Collection d"
    "ce_Reference c = ce_Reference d" "cvr_Verifiers c = cvr_Verifiers d" "cvr_Errors c = cvr_Errors d"
  using arg_cong [OF assms, of ce_Envelope] arg_cong [OF assms, of ce_Statement]
    arg_cong [OF assms, of ce_Collection] arg_cong [OF assms, of ce_Reference]
    arg_cong [OF assms, of cvr_Verifiers] arg_cong [OF assms, of cvr_Errors] by simp_all

definition has_functionary ::
  "crypto_lib \<Rightarrow> cert_lib \<Rightarrow> (string, TrustBundle) gomap \<Rightarrow> Step \<Rightarrow> 'd CollectionVerificationResult \<Rightarrow> bool" where
  "has_functionary lib cl bundles step c \<longleftrightarrow>
     (\<exists>v \<in> set (cvr_Verifiers c). \<exists>f \<in> set (step_Functionaries step).
        Functionary_Validate lib cl f v bundles = Return None)"

lemma validate_pair_result:
  assumes "validate_pair lib cl step bundles statement (v, f) st = Return st'"
  shows "core st' = core st \<and>
    (cvr_ValidFunctionaries st' \<noteq> [] \<longleftrightarrow>
       cvr_ValidFunctionaries st \<noteq> [] \<or> Functionary_Validate lib cl f v bundles = Return None)"
proof -
  from assms obtain err where "Functionary_Validate lib cl f v bundles = Return err"
    by (auto simp: validate_pair_def)
  with assms show ?thesis by (cases err) (auto simp: validate_pair_def core_def)
qed

lemma validate_pairs_result:
  assumes "foldO (validate_pair lib cl step bundles statement) pairs st = Return st'"
  shows "core st' = core st \<and>
    (cvr_ValidFunctionaries st' \<noteq> [] \<longleftrightarrow>
       cvr_ValidFunctionaries st \<noteq> [] \<or>
       (\<exists>(v, f) \<in> set pairs. Functionary_Validate lib cl f v bundles = Return None))"
  using assms
proof (induction pairs arbitrary: st)
  case Nil
  then show ?case by simp
next
  case (Cons vf pairs)
  obtain v f where vf: "vf = (v, f)" by (cases vf)
  from Cons.prems obtain st1 where one: "validate_pair lib cl step bundles statement vf st = Return st1"
    and rest: "foldO (validate_pair lib cl step bundles statement) pairs st1 = Return st'" by auto
  from validate_pair_result [OF one [unfolded vf]] Cons.IH [OF rest] show ?case by (simp add: vf)
qed

text \<open>What the loop over the statements keeps: the statements that pass are those with a valid
  functionary; each of the others is rejected, and one with a valid functionary is rejected as well
  only for its predicate type.\<close>

definition functionaries_checked ::
  "crypto_lib \<Rightarrow> cert_lib \<Rightarrow> (string, TrustBundle) gomap \<Rightarrow> Step \<Rightarrow> 'd CollectionVerificationResult list \<Rightarrow>
     'd StepResult \<Rightarrow> bool" where
  "functionaries_checked lib cl bundles step statements r \<longleftrightarrow>
     sr_Step r = step_Name step \<and>
     map core (sr_Passed r) = map core (filter (has_functionary lib cl bundles step) statements) \<and>
     (\<forall>c \<in> set statements. \<not> has_functionary lib cl bundles step c \<longrightarrow>
        (\<exists>rc \<in> set (sr_Rejected r). core (rc_Collection rc) = core c)) \<and>
     (\<forall>rc \<in> set (sr_Rejected r). \<exists>c \<in> set statements. core (rc_Collection rc) = core c \<and>
        (\<not> has_functionary lib cl bundles step c \<or> st_PredicateType (ce_Statement c) \<noteq> CollectionType))"

lemma functionaries_checked_snoc:
  assumes "functionaries_checked lib cl bundles step cs r0" and "sr_Step r = sr_Step r0"
    and "sr_Passed r = sr_Passed r0 @ ps" and "sr_Rejected r = sr_Rejected r0 @ rs"
    and "map core ps = (if has_functionary lib cl bundles step c then [core c] else [])"
    and "\<not> has_functionary lib cl bundles step c \<Longrightarrow> rs \<noteq> []"
    and "\<forall>rc \<in> set rs. core (rc_Collection rc) = core c \<and>
      (\<not> has_functionary lib cl bundles step c \<or> st_PredicateType (ce_Statement c) \<noteq> CollectionType)"
  shows "functionaries_checked lib cl bundles step (cs @ [c]) r"
proof -
  have "\<exists>rc \<in> set rs. core (rc_Collection rc) = core c" if "\<not> has_functionary lib cl bundles step c"
    using assms(6) [OF that] assms(7) by (cases rs) auto
  with assms show ?thesis
    unfolding functionaries_checked_def by (simp add: ball_Un bex_Un)
qed

lemma check_statement_checked:
  assumes "functionaries_checked lib cl bundles step cs r0"
    and "check_statement lib cl step bundles c r0 = Return r" and "cvr_ValidFunctionaries c = []"
  shows "functionaries_checked lib cl bundles step (cs @ [c]) r"
proof -
  define wrong where "wrong = (if st_PredicateType (ce_Statement c) \<noteq> CollectionType
    then [\<lparr>rc_Collection = c, rc_Reason = predicate_type_error (st_PredicateType (ce_Statement c))\<rparr>] else [])"
  show ?thesis
  proof (cases "cvr_Verifiers c = []")
    case True
    with assms(2) have "r = r0\<lparr>sr_Rejected := sr_Rejected r0 @ wrong @ [\<lparr>rc_Collection = c,
        rc_Reason = Errorf ''no verifiers present to validate against collection verifiers'' []\<rparr>]\<rparr>"
      by (auto simp: check_statement_def wrong_def Let_def)
    moreover from True have "\<not> has_functionary lib cl bundles step c" by (simp add: has_functionary_def)
    ultimately show ?thesis
      by (intro functionaries_checked_snoc [OF assms(1), where ps = "[]"]) (auto simp: wrong_def)
  next
    case False
    with assms(2) obtain checked where checked: "foldO (validate_pair lib cl step bundles c)
        (List.product (cvr_Verifiers c) (step_Functionaries step)) c = Return checked"
      and r: "r = (if cvr_ValidFunctionaries checked = []
         then r0\<lparr>sr_Rejected := sr_Rejected r0 @ wrong @ [\<lparr>rc_Collection = checked,
            rc_Reason = Errorf ''no verifiers matched with allowed functionaries for step %s'' [FStr (step_Name step)]\<rparr>]\<rparr>
         else r0\<lparr>sr_Rejected := sr_Rejected r0 @ wrong, sr_Passed := sr_Passed r0 @ [checked]\<rparr>)"
      by (auto simp: check_statement_def wrong_def Let_def split: if_splits)
    have core: "core checked = core c"
      and valid: "cvr_ValidFunctionaries checked \<noteq> [] \<longleftrightarrow> has_functionary lib cl bundles step c"
      using validate_pairs_result [OF checked] assms(3) by (auto simp: has_functionary_def)
    show ?thesis
    proof (cases "has_functionary lib cl bundles step c")
      case True
      with valid core r show ?thesis
        by (intro functionaries_checked_snoc [OF assms(1), where ps = "[checked]" and rs = wrong])
          (auto simp: wrong_def)
    next
      case False
      with valid core r show ?thesis
        by (intro functionaries_checked_snoc [OF assms(1), where ps = "[]"]) (auto simp: wrong_def)
    qed
  qed
qed

lemma checkFunctionaries_result:
  assumes "checkFunctionaries lib cl step statements bundles = Return r"
    and "\<forall>c \<in> set statements. cvr_ValidFunctionaries c = []"
  shows "functionaries_checked lib cl bundles step statements r"
  using assms
proof (induction statements arbitrary: r rule: rev_induct)
  case Nil
  then show ?case by (auto simp: checkFunctionaries_def new_result_def functionaries_checked_def)
next
  case (snoc c cs)
  from snoc.prems(1) obtain r0 where r0: "checkFunctionaries lib cl step cs bundles = Return r0"
    and r: "check_statement lib cl step bundles c r0 = Return r"
    by (auto simp: checkFunctionaries_def foldO_append)
  from snoc.IH [OF r0] snoc.prems(2) r show ?case by (intro check_statement_checked) auto
qed

section \<open>Artifacts\<close>

text \<open>Materials agree with artifacts: a path in both has equal digest sets.\<close>

definition artifacts_agree :: "(string, digest_set) gomap \<Rightarrow> (string, digest_set) gomap \<Rightarrow> bool" where
  "artifacts_agree mats arts \<longleftrightarrow>
     (\<forall>path m a. map_of mats path = Some m \<longrightarrow> map_of arts path = Some a \<longrightarrow> DigestSet_Equal m a)"

lemma compareArtifacts_None_iff:
  assumes "gomap_ok mats"
  shows "compareArtifacts mats arts = None \<longleftrightarrow> artifacts_agree mats arts"
proof -
  have "compareArtifacts ms arts = None \<longleftrightarrow>
      (\<forall>(path, m) \<in> set ms. \<forall>a. map_of arts path = Some a \<longrightarrow> DigestSet_Equal m a)" for ms
    by (induction ms) (auto split: option.splits)
  then show ?thesis
    using gomap_Ball [OF assms, of "\<lambda>path m. \<forall>a. map_of arts path = Some a \<longrightarrow> DigestSet_Equal m a"]
    by (simp add: artifacts_agree_def)
qed

lemma accept_collections_count:
  "fst (accept_collections mats cs n rs) = n + length (takeWhile
     (\<lambda>c. compareArtifacts mats (Collection_Artifacts (ce_Collection c)) = None) cs)"
  by (induction cs arbitrary: n rs) (auto split: option.splits)

text \<open>A collection takes its artifacts from a step when the first passed collection of that step agrees.\<close>

definition takes_from ::
  "'d CollectionVerificationResult \<Rightarrow> 'd CollectionVerificationResult list \<Rightarrow> bool" where
  "takes_from c passed \<longleftrightarrow> (\<exists>d ds. passed = d # ds \<and>
     artifacts_agree (Collection_Materials (ce_Collection c)) (Collection_Artifacts (ce_Collection d)))"

lemma verifyCollectionArtifacts_None_iff:
  "verifyCollectionArtifacts step c results = None \<longleftrightarrow>
     (\<forall>from \<in> set (step_ArtifactsFrom step). takes_from c (passed_of results from))"
proof -
  let ?mats = "Collection_Materials (ce_Collection c)"
  have count: "fst (accept_collections ?mats passed 0 rs) = 0 \<longleftrightarrow> \<not> takes_from c passed" for passed rs
    unfolding accept_collections_count compareArtifacts_None_iff [OF Collection_Materials_ok]
    by (cases passed) (auto simp: takes_from_def)
  have "check_artifacts_from ?mats results froms rs = None \<longleftrightarrow>
      (\<forall>from \<in> set froms. takes_from c (passed_of results from))" for froms rs
    by (induction froms arbitrary: rs) (auto simp: Let_def case_prod_unfold count)
  then show ?thesis by (simp add: verifyCollectionArtifacts_def)
qed

definition step_accepted :: "(string, 'd StepResult) gomap \<Rightarrow> Step \<Rightarrow> bool" where
  "step_accepted results step \<longleftrightarrow> (\<exists>c \<in> set (passed_of results (step_Name step)).
     \<forall>from \<in> set (step_ArtifactsFrom step). takes_from c (passed_of results from))"

lemma list_ex_accepted:
  "list_ex (\<lambda>err. err = None)
     (map (\<lambda>c. verifyCollectionArtifacts step c results) (passed_of results (step_Name step))) \<longleftrightarrow>
   step_accepted results step"
  unfolding list_ex_iff set_map bex_simps step_accepted_def verifyCollectionArtifacts_None_iff ..

lemma verify_step_artifacts_accepted:
  assumes "step_accepted results step"
  shows "verify_step_artifacts step results = Inr results"
proof -
  from assms have "passed_of results (step_Name step) \<noteq> []" by (auto simp: step_accepted_def)
  moreover from assms have "list_ex (\<lambda>err. err = None)
      (map (\<lambda>c. verifyCollectionArtifacts step c results) (passed_of results (step_Name step)))"
    by (simp only: list_ex_accepted)
  ultimately show ?thesis by (simp add: verify_step_artifacts_def Let_def)
qed

lemma verify_step_artifacts_rejected:
  assumes "\<not> step_accepted results step" and "verify_step_artifacts step results = Inr results'"
  shows "\<exists>r. map_of results' (step_Name step) = Some r \<and> sr_Passed r = [] \<and>
    (\<forall>n. n \<noteq> step_Name step \<longrightarrow> map_of results' n = map_of results n)"
proof -
  from assms(1) have "\<not> list_ex (\<lambda>err. err = None)
      (map (\<lambda>c. verifyCollectionArtifacts step c results) (passed_of results (step_Name step)))"
    by (simp only: list_ex_accepted not_False_eq_True)
  with assms(2) show ?thesis
    by (auto simp: verify_step_artifacts_def Let_def passed_of_def update_conv split: option.splits if_splits)
qed

lemma verify_step_artifacts_keeps_empty:
  assumes "verify_step_artifacts step results = Inr results'" and "map_of results n = Some r" and "sr_Passed r = []"
  shows "\<exists>r'. map_of results' n = Some r' \<and> sr_Passed r' = []"
proof (cases "step_accepted results step")
  case True
  with verify_step_artifacts_accepted assms show ?thesis by fastforce
next
  case False
  from verify_step_artifacts_rejected [OF this assms(1)] assms(2,3) show ?thesis
    by (cases "n = step_Name step") auto
qed

lemma verifyArtifacts_keeps_empty:
  assumes "verifyArtifacts steps results = Inr results'" and "map_of results n = Some r" and "sr_Passed r = []"
  shows "\<exists>r'. map_of results' n = Some r' \<and> sr_Passed r' = []"
proof -
  have "\<exists>r. map_of results' n = Some r \<and> sr_Passed r = []"
    using assms(1) unfolding verifyArtifacts_def
    by (rule foldE_invariant) (use assms verify_step_artifacts_keeps_empty in \<open>force+\<close>)
  then show ?thesis .
qed

text \<open>The verdict: if every step is accepted on the results given, they are returned unchanged; if some
  step is not, some step ends without passed collections, whatever the order.\<close>

lemma verifyArtifacts_accepted:
  assumes "\<forall>(_, step) \<in> set steps. step_accepted results step"
  shows "verifyArtifacts steps results = Inr results"
  using assms unfolding verifyArtifacts_def
  by (induction steps) (auto simp: verify_step_artifacts_accepted)

lemma verifyArtifacts_rejected:
  assumes "(n0, step0) \<in> set steps" and "\<not> step_accepted results step0"
    and "verifyArtifacts steps results = Inr results'"
  shows "\<exists>n r. map_of results' n = Some r \<and> sr_Passed r = []"
  using assms
proof (induction steps)
  case Nil
  then show ?case by simp
next
  case (Cons ns steps)
  obtain n step where ns: "ns = (n, step)" by (cases ns)
  from Cons.prems(3) ns obtain results1 where
    one: "verify_step_artifacts step results = Inr results1" and
    rest: "verifyArtifacts steps results1 = Inr results'"
    by (auto simp: verifyArtifacts_def split: sum.splits)
  show ?case
  proof (cases "step_accepted results step")
    case True
    with one verify_step_artifacts_accepted have "results1 = results" by fastforce
    with Cons True ns rest show ?thesis by auto
  next
    case False
    from verify_step_artifacts_rejected [OF this one] verifyArtifacts_keeps_empty [OF rest] show ?thesis
      by blast
  qed
qed

lemma verifyArtifacts_verdict:
  assumes "verifyArtifacts steps results = Inr results'" and "gomap_ok results"
  shows "list_all (\<lambda>(_, r). Analyze r) results' \<longleftrightarrow>
    list_all (\<lambda>(_, r). Analyze r) results \<and> (\<forall>(_, step) \<in> set steps. step_accepted results step)"
proof (cases "\<forall>(_, step) \<in> set steps. step_accepted results step")
  case True
  from verifyArtifacts_accepted [OF this] assms(1) True show ?thesis by simp
next
  case False
  then obtain n0 step0 where "(n0, step0) \<in> set steps" and "\<not> step_accepted results step0" by auto
  from verifyArtifacts_rejected [OF this assms(1)] obtain n r where
    "map_of results' n = Some r" "sr_Passed r = []" by blast
  then have "(n, r) \<in> set results'" and "\<not> Analyze r" by (auto dest: map_of_SomeD simp: Analyze_iff)
  then have "\<not> list_all (\<lambda>(_, r). Analyze r) results'" by (auto simp: list_all_iff)
  with False show ?thesis by blast
qed

section \<open>The search\<close>

text \<open>
  What the policy relies on of its verified source: an invariant that searching keeps, results that come
  without valid functionaries, and a property \<open>genuine\<close> of the results for a step, which speaks only of
  what the functionary check does not change.
\<close>

locale verified_sourcer =
  fixes search :: "nat \<Rightarrow> ('v, 'd) verified_searcher" and vinv :: "'v \<Rightarrow> bool"
    and genuine :: "string \<Rightarrow> 'd CollectionVerificationResult \<Rightarrow> bool"
  assumes vsearch_inv: "vinv s \<Longrightarrow> vinv (fst (search k s name ds as))"
    and vsearch_fresh: "vinv s \<Longrightarrow> snd (search k s name ds as) = Inr rs \<Longrightarrow> r \<in> set rs \<Longrightarrow>
      cvr_ValidFunctionaries r = []"
    and vsearch_genuine: "vinv s \<Longrightarrow> snd (search k s name ds as) = Inr rs \<Longrightarrow> r \<in> set rs \<Longrightarrow>
      genuine name (core r)"
begin

text \<open>A collection that passed a step: genuine, signed by a functionary, with the right attestations.\<close>

definition passed_ok ::
  "crypto_lib \<Rightarrow> cert_lib \<Rightarrow> 'd rego_lib \<Rightarrow> (string, TrustBundle) gomap \<Rightarrow> string \<Rightarrow> Step \<Rightarrow>
     'd CollectionVerificationResult \<Rightarrow> bool" where
  "passed_ok lib cl rl bundles name step c \<longleftrightarrow>
     genuine name (core c) \<and> has_functionary lib cl bundles step c \<and> attestations_ok rl step c"

text \<open>The results so far: each for a step of the policy, with passed collections that are right.\<close>

definition results_ok ::
  "crypto_lib \<Rightarrow> cert_lib \<Rightarrow> 'd rego_lib \<Rightarrow> (string, TrustBundle) gomap \<Rightarrow> (string \<times> Step) set \<Rightarrow>
     (string, 'd StepResult) gomap \<Rightarrow> bool" where
  "results_ok lib cl rl bundles steps results \<longleftrightarrow>
     gomap_ok results \<and>
     (\<forall>name r. map_of results name = Some r \<longrightarrow>
        (\<exists>step. (name, step) \<in> steps \<and> (\<forall>c \<in> set (sr_Passed r). passed_ok lib cl rl bundles name step c)))"

lemma step_passed:
  assumes "vinv s" and "snd (search k s name ds as) = Inr found"
    and "collections = (if length found = 0 then found @ [zero_result\<lparr>cvr_Errors := [ErrNoCollections name]\<rparr>] else found)"
    and "checkFunctionaries lib cl step collections bundles = Return fr"
    and "validateAttestations rl step (sr_Passed fr) = Return r"
    and "c \<in> set (sr_Passed r)"
  shows "passed_ok lib cl rl bundles name step c"
proof -
  from validateAttestations_result [OF assms(5)] assms(6)
  have c: "c \<in> set (sr_Passed fr)" and att: "attestations_ok rl step c" by auto
  have "\<forall>x \<in> set collections. cvr_ValidFunctionaries x = []"
    using vsearch_fresh [OF assms(1,2)] assms(3) by (auto simp: zero_result_def verification_result_def)
  from checkFunctionaries_result [OF assms(4) this]
  have "map core (sr_Passed fr) = map core (filter (has_functionary lib cl bundles step) collections)"
    by (simp add: functionaries_checked_def)
  with c have "core c \<in> set (map core (filter (has_functionary lib cl bundles step) collections))"
    by (metis image_eqI set_map)
  then obtain d where d: "d \<in> set collections" "has_functionary lib cl bundles step d" "core c = core d"
    by auto
  have "d \<in> set found"
    using d(1,2) assms(3) by (auto simp: has_functionary_def zero_result_def verification_result_def split: if_splits)
  with vsearch_genuine [OF assms(1,2)] d(3) have "genuine name (core c)" by simp
  moreover from d(2) core_same(5) [OF d(3)] have "has_functionary lib cl bundles step c"
    by (simp add: has_functionary_def)
  ultimately show ?thesis using att by (simp add: passed_ok_def)
qed

lemma merge_result_ok:
  assumes "results_ok lib cl rl bundles steps results" and "(name, step) \<in> steps" and "inj_on fst steps"
    and "\<forall>c \<in> set (sr_Passed r). passed_ok lib cl rl bundles name step c"
  shows "results_ok lib cl rl bundles steps (merge_result name r results)"
proof -
  have same: "step' = step" if "(name, step') \<in> steps" for step'
    using inj_onD [OF assms(3) _ that assms(2)] by simp
  show ?thesis
  proof (cases "map_of results name")
    case None
    with assms show ?thesis by (auto simp: results_ok_def merge_result_def update_conv)
  next
    case (Some old)
    with assms(1) same have "\<forall>c \<in> set (sr_Passed old). passed_ok lib cl rl bundles name step c"
      unfolding results_ok_def by blast
    with Some assms show ?thesis
      by (auto simp: results_ok_def merge_result_def update_conv split: if_splits)
  qed
qed

lemma verify_step_ok:
  assumes "vinv (pv_source st)" and "results_ok lib cl rl bundles steps (pv_resultsByStep st)"
    and "(name, step) \<in> steps" and "inj_on fst steps"
    and "verify_step lib cl rl search p bundles (name, step) st = Return (Inr st')"
  shows "vinv (pv_source st') \<and> results_ok lib cl rl bundles steps (pv_resultsByStep st') \<and>
    fst ` set (pv_resultsByStep st') = insert name (fst ` set (pv_resultsByStep st))"
proof -
  define types where "types = (case map_of (attestationsByStep p) name of None \<Rightarrow> [] | Some ts \<Rightarrow> ts)"
  from assms(5) obtain src found fr r where
    found: "search (pv_searches st) (pv_source st) name (pv_subjectDigests st) types = (src, Inr found)" and
    fr: "checkFunctionaries lib cl step
      (if length found = 0 then found @ [zero_result\<lparr>cvr_Errors := [ErrNoCollections name]\<rparr>] else found) bundles = Return fr" and
    r: "validateAttestations rl step (sr_Passed fr) = Return r" and
    src: "pv_source st' = src" and
    res: "pv_resultsByStep st' = merge_result name (r\<lparr>sr_Rejected := sr_Rejected r @ sr_Rejected fr\<rparr>) (pv_resultsByStep st)"
    unfolding verify_step_def types_def [symmetric]
    by (auto simp: Let_def types_def split: prod.splits sum.splits)
  from found have snd: "snd (search (pv_searches st) (pv_source st) name (pv_subjectDigests st) types) = Inr found" by simp
  have "\<forall>c \<in> set (sr_Passed r). passed_ok lib cl rl bundles name step c"
    using step_passed [OF assms(1) snd refl fr r] by blast
  then have "results_ok lib cl rl bundles steps (pv_resultsByStep st')"
    unfolding res by (intro merge_result_ok [OF assms(2-4)]) simp
  moreover have "vinv (pv_source st')"
    using vsearch_inv [OF assms(1), of "pv_searches st" name "pv_subjectDigests st" types] found src by simp
  moreover have "fst ` set (pv_resultsByStep st') = insert name (fst ` set (pv_resultsByStep st))"
    by (auto simp: res merge_result_def dom_update split: option.splits)
  ultimately show ?thesis by blast
qed

lemma verify_steps_ok:
  assumes "vinv (pv_source st)" and "results_ok lib cl rl bundles steps (pv_resultsByStep st)"
    and "set entries \<subseteq> steps" and "inj_on fst steps"
    and "verify_steps lib cl rl search p bundles entries st = Return (Inr st')"
  shows "results_ok lib cl rl bundles steps (pv_resultsByStep st') \<and>
    fst ` set (pv_resultsByStep st') = fst ` set entries \<union> fst ` set (pv_resultsByStep st)"
  using assms(1-3,5)
proof (induction entries arbitrary: st)
  case Nil
  then show ?case by (simp add: verify_steps_def)
next
  case (Cons entry entries)
  obtain name step where entry: "entry = (name, step)" by (cases entry)
  have stuck: "foldO (\<lambda>entry acc. case acc of Inl err \<Rightarrow> Return (Inl err)
      | Inr st \<Rightarrow> verify_step lib cl rl search p bundles entry st) es (Inl err) = Return (Inl err)" for es err
    by (induction es) auto
  from Cons.prems(4) obtain acc where
    one: "verify_step lib cl rl search p bundles entry st = Return acc" and
    rest: "foldO (\<lambda>entry acc. case acc of Inl err \<Rightarrow> Return (Inl err)
      | Inr st \<Rightarrow> verify_step lib cl rl search p bundles entry st) entries acc = Return (Inr st')"
    by (auto simp: verify_steps_def)
  from rest stuck obtain st1 where acc: "acc = Inr st1" by (cases acc) auto
  with rest have rest': "verify_steps lib cl rl search p bundles entries st1 = Return (Inr st')"
    by (simp add: verify_steps_def)
  from Cons.prems(3) entry have "(name, step) \<in> steps" by simp
  note step = verify_step_ok [OF Cons.prems(1,2) this assms(4) one [unfolded entry acc]]
  from Cons.IH [of st1] step Cons.prems(3) rest' entry show ?case by auto
qed

end

text \<open>The verifying source over any source is one: its results are envelopes it verified itself.\<close>

definition verified_by ::
  "crypto_lib \<Rightarrow> (nat \<Rightarrow> nat \<Rightarrow> nat \<Rightarrow> gtime) \<Rightarrow> (verificationOptions \<Rightarrow> verificationOptions) list \<Rightarrow>
     'd CollectionVerificationResult \<Rightarrow> bool" where
  "verified_by lib now opts r \<longleftrightarrow> (\<exists>ce k i. r = core (verify_collection lib (now k i) opts ce))"

lemma VerifiedSource_results:
  assumes "snd (VerifiedSource_Search lib now search s name ds as) = Inr rs" and "r \<in> set rs"
  shows "\<exists>ce i. r = verify_collection lib (now i) (vsrc_verifyOpts s) ce \<and>
    (\<exists>found. snd (search (vsrc_source s) name ds as) = Inr found \<and> ce \<in> set found)"
proof -
  from assms obtain found i ce where "snd (search (vsrc_source s) name ds as) = Inr found"
    and "(i, ce) \<in> set (enumerate 0 found)" and "r = verify_collection lib (now i) (vsrc_verifyOpts s) ce"
    by (auto simp: VerifiedSource_Search_def split: prod.splits sum.splits)
  moreover from this(2) have "ce \<in> set found" by (auto simp: in_set_enumerate_eq)
  ultimately show ?thesis by blast
qed

lemma verify_collection_fresh [simp]: "cvr_ValidFunctionaries (verify_collection lib now opts ce) = []"
  by (cases rule: verify_collection_cases [of lib now ce opts]) (simp_all add: verification_result_def)

lemma VerifiedSource_opts [simp]:
  "vsrc_verifyOpts (fst (VerifiedSource_Search lib now search s name ds as)) = vsrc_verifyOpts s"
  by (simp add: VerifiedSource_Search_def split: prod.splits sum.splits)

interpretation vsrc: verified_sourcer "\<lambda>k. VerifiedSource_Search lib (now k) search"
    "\<lambda>s. vsrc_verifyOpts s = opts" "\<lambda>name. verified_by lib now opts" for lib now search opts
proof unfold_locales
  fix s k name ds as rs r
  assume opts: "vsrc_verifyOpts s = opts"
    and rs: "snd (VerifiedSource_Search lib (now k) search s name ds as) = Inr rs" and r: "r \<in> set rs"
  from VerifiedSource_results [OF rs r] obtain ce i where
    "r = verify_collection lib (now k i) (vsrc_verifyOpts s) ce" by blast
  then show "cvr_ValidFunctionaries r = []" and "verified_by lib now opts (core r)"
    using opts by (auto simp: verified_by_def)
qed simp

section \<open>The whole verification\<close>

text \<open>A passed collection is signed by a functionary: one of the step's functionaries accepts a verifier
  that itself accepted a signature of the collection's envelope.\<close>

definition signed_by_functionary ::
  "crypto_lib \<Rightarrow> cert_lib \<Rightarrow> (nat \<Rightarrow> nat \<Rightarrow> nat \<Rightarrow> gtime) \<Rightarrow> verificationOptions \<Rightarrow> (string, TrustBundle) gomap \<Rightarrow>
     Step \<Rightarrow> 'd CollectionVerificationResult \<Rightarrow> bool" where
  "signed_by_functionary lib cl now options bundles step c \<longleftrightarrow>
     (\<exists>f \<in> set (step_Functionaries step). \<exists>w. functionary_ok lib cl bundles f w \<and>
        (\<exists>sig \<in> set (env_Signatures (ce_Envelope c)). \<exists>k i.
           accepts lib (now k i) options
             (preauthEncode (env_PayloadType (ce_Envelope c)) (env_Payload (ce_Envelope c))) sig w))"

lemma verified_functionary:
  assumes "verified_by lib now opts (core c)" and "has_functionary lib cl bundles step c"
    and "gomap_ok bundles"
  shows "signed_by_functionary lib cl now (fold (\<lambda>opt vo. opt vo) opts default_options) bundles step c"
proof -
  from assms(1) obtain ce k i where ce: "core c = core (verify_collection lib (now k i) opts ce)"
    by (auto simp: verified_by_def)
  from assms(2) obtain v f where v: "v \<in> set (cvr_Verifiers c)" and f: "f \<in> set (step_Functionaries step)"
    and val: "Functionary_Validate lib cl f v bundles = Return None"
    by (auto simp: has_functionary_def)
  have env: "ce_Envelope c = ce_Envelope ce"
    using core_same(1) [OF ce]
    by (cases rule: verify_collection_cases [of lib "now k i" ce opts]) (simp_all add: verification_result_def)
  from v core_same(5) [OF ce] have "v \<in> set (cvr_Verifiers (verify_collection lib (now k i) opts ce))" by simp
  from verify_collection_verifiers [OF this] obtain w sig where w: "v = Some w"
    and "sig \<in> set (env_Signatures (ce_Envelope ce))"
    and "accepts lib (now k i) (fold (\<lambda>opt vo. opt vo) opts default_options)
      (preauthEncode (env_PayloadType (ce_Envelope ce)) (env_Payload (ce_Envelope ce))) sig w" by blast
  moreover from val w Functionary_Validate_None_iff [OF assms(3)] have "functionary_ok lib cl bundles f w" by simp
  ultimately show ?thesis using f env unfolding signed_by_functionary_def by metis
qed

lemma Policy_Verify_passes:
  assumes "Policy_Verify lib cl rl t order search p opts = Return (True, results, None)"
    and "vo = fold (\<lambda>opt vo. opt vo) opts default_verify_options"
  obtains bundles st where "t \<le> pol_Expires p" "TrustBundles lib p = Inr bundles" "1 \<le> pvo_searchDepth vo"
    "verify_steps lib cl rl search p bundles (concat (map order [0..<nat (pvo_searchDepth vo)]))
       \<lparr>pv_source = the (pvo_verifiedSource vo), pv_subjectDigests = pvo_subjectDigests vo,
        pv_resultsByStep = [], pv_searches = 0\<rparr> = Return (Inr st)"
    "verifyArtifacts (order (nat (pvo_searchDepth vo))) (pv_resultsByStep st) = Inr results"
    "list_all (\<lambda>(_, result). Analyze result) results"
proof -
  note eq = assms(1) [unfolded Policy_Verify_def assms(2) [symmetric] Let_def]
  have opts: "checkVerifyOpts vo = None" using eq by (cases "checkVerifyOpts vo") simp_all
  have live: "\<not> pol_Expires p < t" using eq opts by (cases "pol_Expires p < t") simp_all
  obtain bundles where bundles: "TrustBundles lib p = Inr bundles"
    using eq opts live by (cases "TrustBundles lib p") simp_all
  from eq opts live bundles obtain res where
    loop: "verify_steps lib cl rl search p bundles (concat (map order [0..<nat (pvo_searchDepth vo)]))
       \<lparr>pv_source = the (pvo_verifiedSource vo), pv_subjectDigests = pvo_subjectDigests vo,
        pv_resultsByStep = [], pv_searches = 0\<rparr> = Return res" and
    res: "(case res of Inl err \<Rightarrow> (False, [], Some err)
      | Inr st \<Rightarrow> (case verifyArtifacts (order (nat (pvo_searchDepth vo))) (pv_resultsByStep st) of
          Inl err \<Rightarrow> (False, [], Some (Errorf ''failed to verify artifacts: %w'' [FErr err]))
        | Inr resultsByStep \<Rightarrow> (list_all (\<lambda>(_, result). Analyze result) resultsByStep, resultsByStep, None))) =
     (True, results, None)"
    by (simp only: option.case sum.case if_False bindO_Return_iff outcome.inject) (elim exE conjE, rule that)
  from res obtain st where st: "res = Inr st" by (cases res) auto
  with res have "verifyArtifacts (order (nat (pvo_searchDepth vo))) (pv_resultsByStep st) = Inr results"
    and "list_all (\<lambda>(_, result). Analyze result) results" by (auto split: sum.splits)
  moreover from opts have "1 \<le> pvo_searchDepth vo" by (auto simp: checkVerifyOpts_def split: if_splits)
  ultimately show thesis using live bundles loop st by (intro that [of bundles st]) simp_all
qed

lemma Policy_Verify_guarantees:
  assumes "Policy_Verify lib cl rl t order (\<lambda>k. VerifiedSource_Search lib (now k) search) p opts =
      Return (True, results, None)"
    and "pvo_verifiedSource (fold (\<lambda>opt vo. opt vo) opts default_verify_options) = Some src"
    and "options = fold (\<lambda>opt vo. opt vo) (vsrc_verifyOpts src) default_options"
    and "gomap_ok (pol_Steps p)" and "\<And>d. set (order d) = set (pol_Steps p)"
    and "\<And>name step. (name, step) \<in> set (pol_Steps p) \<Longrightarrow> step_Name step = name"
  shows "t \<le> pol_Expires p \<and> (\<exists>bundles. TrustBundles lib p = Inr bundles \<and>
    (\<forall>(name, step) \<in> set (pol_Steps p). \<exists>r. map_of results name = Some r \<and> sr_Passed r \<noteq> [] \<and>
       (\<forall>c \<in> set (sr_Passed r).
          signed_by_functionary lib cl now options bundles step c \<and> attestations_ok rl step c) \<and>
       (\<exists>c \<in> set (sr_Passed r). \<forall>from \<in> set (step_ArtifactsFrom step). \<exists>d \<in> set (passed_of results from).
          artifacts_agree (Collection_Materials (ce_Collection c)) (Collection_Artifacts (ce_Collection d)))))"
proof -
  let ?vo = "fold (\<lambda>opt vo. opt vo) opts default_verify_options"
  let ?steps = "set (pol_Steps p)" and ?vopts = "vsrc_verifyOpts src"
  from Policy_Verify_passes [OF assms(1) refl] obtain bundles st where
    live: "t \<le> pol_Expires p" and bundles: "TrustBundles lib p = Inr bundles" and depth: "1 \<le> pvo_searchDepth ?vo"
    and loop: "verify_steps lib cl rl (\<lambda>k. VerifiedSource_Search lib (now k) search) p bundles
       (concat (map order [0..<nat (pvo_searchDepth ?vo)]))
       \<lparr>pv_source = the (pvo_verifiedSource ?vo), pv_subjectDigests = pvo_subjectDigests ?vo,
        pv_resultsByStep = [], pv_searches = 0\<rparr> = Return (Inr st)"
    and arts: "verifyArtifacts (order (nat (pvo_searchDepth ?vo))) (pv_resultsByStep st) = Inr results"
    and pass: "list_all (\<lambda>(_, result). Analyze result) results" by metis
  have inj: "inj_on fst ?steps" using assms(4) by (simp add: gomap_ok_def distinct_map)
  have bok: "gomap_ok bundles" using trustBundles_collects bundles unfolding TrustBundles_def by blast
  have ent: "set (concat (map order [0..<nat (pvo_searchDepth ?vo)])) = ?steps"
    using depth assms(5) by (auto simp: image_iff intro: exI [of _ 0])
  have ok: "vsrc.results_ok lib now ?vopts lib cl rl bundles ?steps (pv_resultsByStep st)"
    and dom: "fst ` set (pv_resultsByStep st) = fst ` ?steps"
    using vsrc.verify_steps_ok [where opts = ?vopts and steps = ?steps, OF _ _ _ inj loop] assms(2) ent
    by (auto simp: vsrc.results_ok_def)
  from ok have "gomap_ok (pv_resultsByStep st)" by (simp add: vsrc.results_ok_def)
  from verifyArtifacts_verdict [OF arts this] pass
  have acc: "\<forall>(_, step) \<in> ?steps. step_accepted (pv_resultsByStep st) step" by (simp add: assms(5))
  then have "results = pv_resultsByStep st"
    using verifyArtifacts_accepted [of "order (nat (pvo_searchDepth ?vo))" "pv_resultsByStep st"] arts
    by (simp add: assms(5))
  with ok dom have ok: "vsrc.results_ok lib now ?vopts lib cl rl bundles ?steps results"
    and dom: "fst ` set results = fst ` ?steps" and acc: "\<forall>(_, step) \<in> ?steps. step_accepted results step"
    using acc by simp_all
  have "\<exists>r. map_of results name = Some r \<and> sr_Passed r \<noteq> [] \<and>
       (\<forall>c \<in> set (sr_Passed r).
          signed_by_functionary lib cl now options bundles step c \<and> attestations_ok rl step c) \<and>
       (\<exists>c \<in> set (sr_Passed r). \<forall>from \<in> set (step_ArtifactsFrom step). \<exists>d \<in> set (passed_of results from).
          artifacts_agree (Collection_Materials (ce_Collection c)) (Collection_Artifacts (ce_Collection d)))"
    if step: "(name, step) \<in> ?steps" for name step
  proof -
    from step dom have "name \<in> fst ` set results" by force
    then obtain r where r: "map_of results name = Some r" by (auto simp: gomap_key_iff)
    from ok r obtain step' where "(name, step') \<in> ?steps"
      and good: "\<forall>c \<in> set (sr_Passed r). vsrc.passed_ok lib now ?vopts lib cl rl bundles name step' c"
      unfolding vsrc.results_ok_def by blast
    with inj_onD [OF inj _ _ step] have "step' = step" by fastforce
    with good have good: "\<forall>c \<in> set (sr_Passed r).
        signed_by_functionary lib cl now options bundles step c \<and> attestations_ok rl step c"
      using verified_functionary [OF _ _ bok] assms(3) unfolding vsrc.passed_ok_def by blast
    from acc step assms(6) [OF step] r obtain c where "c \<in> set (sr_Passed r)"
      and "\<forall>from \<in> set (step_ArtifactsFrom step). takes_from c (passed_of results from)"
      by (auto simp: step_accepted_def passed_of_def)
    then have "\<exists>c \<in> set (sr_Passed r). \<forall>from \<in> set (step_ArtifactsFrom step). \<exists>d \<in> set (passed_of results from).
        artifacts_agree (Collection_Materials (ce_Collection c)) (Collection_Artifacts (ce_Collection d))"
      unfolding takes_from_def by (intro bexI [of _ c]) auto
    with r good show ?thesis by auto
  qed
  with live bundles show ?thesis by blast
qed

section \<open>Properties\<close>

text \<open>C5. Soundness of policy verification: when a policy whose steps are keyed by their names passes with
  the verifying source over any source, it has not expired, its roots parse, and every step has passed
  collections, each of which carries a signature accepted under the configured options by a verifier
  that one of the step's functionaries accepts, and has all the attestations the step expects with
  their Rego policies satisfied; and one of them has materials that agree with the artifacts of a passed
  collection of every step it takes artifacts from. This holds for every order in which the steps are
  visited.\<close>

theorem Policy_Verify_sound:
  assumes "Policy_Verify lib cl rl t order (\<lambda>k. VerifiedSource_Search lib (now k) search) p opts =
      Return (True, results, None)"
    and "pvo_verifiedSource (fold (\<lambda>opt vo. opt vo) opts default_verify_options) = Some src"
    and "options = fold (\<lambda>opt vo. opt vo) (vsrc_verifyOpts src) default_options"
    and "gomap_ok (pol_Steps p)" and "\<And>d. set (order d) = set (pol_Steps p)"
    and "\<And>name step. (name, step) \<in> set (pol_Steps p) \<Longrightarrow> step_Name step = name"
  shows "t \<le> pol_Expires p \<and> (\<exists>bundles. TrustBundles lib p = Inr bundles \<and>
    (\<forall>(name, step) \<in> set (pol_Steps p). \<exists>r. map_of results name = Some r \<and> sr_Passed r \<noteq> [] \<and>
       (\<forall>c \<in> set (sr_Passed r).
          signed_by_functionary lib cl now options bundles step c \<and> attestations_ok rl step c) \<and>
       (\<exists>c \<in> set (sr_Passed r). \<forall>from \<in> set (step_ArtifactsFrom step). \<exists>d \<in> set (passed_of results from).
          artifacts_agree (Collection_Materials (ce_Collection c)) (Collection_Artifacts (ce_Collection d)))))"
  using Policy_Verify_guarantees [OF assms] .

definition sample_key_id :: string where
  "sample_key_id = HexEncode ''Ek''"

definition sample_functionary :: Functionary where
  "sample_functionary = \<lparr>fn_Type = ''key'', fn_CertConstraint = star_constraint, fn_PublicKeyID = sample_key_id\<rparr>"

definition sample_policy :: Policy where
  "sample_policy = \<lparr>pol_Expires = 10, pol_Roots = [], pol_TimestampAuthorities = [], pol_PublicKeys = [],
     pol_Steps = [(''build'', sample_step\<lparr>step_Functionaries := [sample_functionary]\<rparr>)]\<rparr>"

definition sample_found :: "unit CollectionEnvelope" where
  "sample_found = zero_collection_envelope\<lparr>ce_Envelope := sample_envelope, ce_Collection := sample_collection,
     ce_Statement := zero_statement\<lparr>st_PredicateType := CollectionType\<rparr>\<rparr>"

definition sample_source :: "unit CollectionEnvelope list VerifiedSource" where
  "sample_source = \<lparr>vsrc_source = [sample_found],
     vsrc_verifyOpts = [VerifyWithVerifiers [Some (ECDSAVerifier ''k'' SHA256)]]\<rparr>"

definition sample_search :: "(unit CollectionEnvelope list, unit) searcher" where
  "sample_search s name ds as = (s, Inr s)"

lemma sample_search_eval:
  "VerifiedSource_Search sample_lib now sample_search sample_source name ds as =
     (sample_source, Inr [verification_result sample_found [Some (ECDSAVerifier ''k'' SHA256)] []])"
proof -
  have "Envelope_Verify sample_lib n sample_envelope [VerifyWithVerifiers [Some (ECDSAVerifier ''k'' SHA256)]] =
     ([CheckedVerifier (Some (ECDSAVerifier ''k'' SHA256)) [] None], None)" for n
    by (simp add: Envelope_Verify_def sample_envelope_def sample_signature_def VerifyWithVerifiers_def
        default_options_def check_signature_def check_certificate_def sample_lib_def Let_def)
  then show ?thesis
    by (simp add: VerifiedSource_Search_def sample_search_def sample_source_def sample_found_def
        verify_collection_def verification_result_def)
qed

lemma sample_functionary_ok:
  "Functionary_Validate sample_lib sample_cert_lib sample_functionary (Some (ECDSAVerifier ''k'' SHA256)) [] = Return None"
  by (simp add: Functionary_Validate_def sample_functionary_def sample_key_id_def sample_lib_def
      GeneratePublicKeyID_def PublicPemBytes_def DigestBytes_def)

definition sample_passed :: "unit CollectionVerificationResult" where
  "sample_passed = verification_result sample_found [Some (ECDSAVerifier ''k'' SHA256)] []
     \<lparr>cvr_ValidFunctionaries := [Some (ECDSAVerifier ''k'' SHA256)]\<rparr>"

lemma sample_step_eval:
  "verify_step sample_lib sample_cert_lib sample_rego (\<lambda>k. VerifiedSource_Search sample_lib (\<lambda>_ _. 0) sample_search)
     sample_policy [] (''build'', sample_step\<lparr>step_Functionaries := [sample_functionary]\<rparr>)
     \<lparr>pv_source = sample_source, pv_subjectDigests = ds, pv_resultsByStep = [], pv_searches = 0\<rparr> =
   Return (Inr \<lparr>pv_source = sample_source, pv_subjectDigests = ds,
     pv_resultsByStep = [(''build'', \<lparr>sr_Step = ''build'', sr_Passed = [sample_passed], sr_Rejected = []\<rparr>)],
     pv_searches = 1\<rparr>)"
proof -
  let ?step = "sample_step\<lparr>step_Functionaries := [sample_functionary]\<rparr>"
  have "checkFunctionaries sample_lib sample_cert_lib ?step
      [verification_result sample_found [Some (ECDSAVerifier ''k'' SHA256)] []] [] =
    Return \<lparr>sr_Step = ''build'', sr_Passed = [sample_passed], sr_Rejected = []\<rparr>"
    by (simp add: checkFunctionaries_def check_statement_def validate_pair_def sample_functionary_ok
        sample_passed_def verification_result_def sample_found_def sample_step_def new_result_def
        zero_collection_envelope_def Let_def)
  moreover have "validateAttestations sample_rego ?step [sample_passed] =
      Return \<lparr>sr_Step = ''build'', sr_Passed = [sample_passed], sr_Rejected = []\<rparr>"
    by (simp add: validateAttestations_def validate_collection_def check_expected_def found_attestations_def
        EvaluateRegoPolicy_def sample_step_def sample_passed_def sample_found_def sample_collection_def
        verification_result_def zero_collection_envelope_def new_result_def)
  moreover have "back_ref_digests [sample_passed] = []"
    by (simp add: back_ref_digests_def Collection_BackRefs_def sample_passed_def verification_result_def
        sample_found_def sample_collection_def sample_attestor_def zero_collection_envelope_def method_map_def
        qualify_keys_def)
  ultimately show ?thesis
    by (simp add: verify_step_def sample_search_eval merge_result_def Let_def)
qed

lemma sample_policy_passes:
  "Policy_Verify sample_lib sample_cert_lib sample_rego 0 (\<lambda>_. pol_Steps sample_policy)
     (\<lambda>k. VerifiedSource_Search sample_lib (\<lambda>_ _. 0) sample_search) sample_policy
     [WithVerifiedSource (Some sample_source), WithSubjectDigests [''d''], WithSearchDepth 1] =
   Return (True, [(''build'', \<lparr>sr_Step = ''build'', sr_Passed = [sample_passed], sr_Rejected = []\<rparr>)], None)"
proof -
  let ?r = "[(''build'', \<lparr>sr_Step = ''build'', sr_Passed = [sample_passed], sr_Rejected = []\<rparr>)]"
  have steps: "pol_Steps sample_policy = [(''build'', sample_step\<lparr>step_Functionaries := [sample_functionary]\<rparr>)]"
    and roots: "TrustBundles sample_lib sample_policy = Inr []" and exp: "pol_Expires sample_policy = 10"
    by (simp_all add: sample_policy_def TrustBundles_def trustBundlesFromRoots_def)
  have "verifyArtifacts (pol_Steps sample_policy) ?r = Inr ?r"
    by (rule verifyArtifacts_accepted)
      (simp add: steps step_accepted_def passed_of_def sample_step_def)
  moreover have "list_all (\<lambda>(_, result). Analyze result) ?r"
    by (simp add: Analyze_iff sample_passed_def verification_result_def)
  ultimately show ?thesis
    by (simp add: Policy_Verify_def WithVerifiedSource_def WithSubjectDigests_def WithSearchDepth_def
        default_verify_options_def checkVerifyOpts_def Let_def roots exp verify_steps_def steps sample_step_eval)
qed

theorem Policy_Verify_sound_witness:
  "0 \<le> pol_Expires sample_policy \<and>
   signed_by_functionary sample_lib sample_cert_lib (\<lambda>_ _ _. 0)
     (default_options\<lparr>vo_verifiers := [Some (ECDSAVerifier ''k'' SHA256)]\<rparr>) []
     (sample_step\<lparr>step_Functionaries := [sample_functionary]\<rparr>) sample_passed"
proof -
  have src: "pvo_verifiedSource (fold (\<lambda>opt vo. opt vo)
      [WithVerifiedSource (Some sample_source), WithSubjectDigests [''d''], WithSearchDepth 1]
      default_verify_options) = Some sample_source"
    by (simp add: WithVerifiedSource_def WithSubjectDigests_def WithSearchDepth_def default_verify_options_def)
  have opts: "default_options\<lparr>vo_verifiers := [Some (ECDSAVerifier ''k'' SHA256)]\<rparr> =
      fold (\<lambda>opt vo. opt vo) (vsrc_verifyOpts sample_source) default_options"
    by (simp add: sample_source_def VerifyWithVerifiers_def)
  from Policy_Verify_sound [where now = "\<lambda>_ _ _. 0", OF sample_policy_passes src opts]
  show ?thesis
    by (simp add: sample_policy_def gomap_ok_def sample_step_def TrustBundles_def trustBundlesFromRoots_def)
qed

text \<open>The verdict on the artifacts does not depend on the order in which the steps are visited: all
  results analyse as passed after the check exactly when they did before it and every step has a passed
  collection that takes its artifacts from each step it names.\<close>

theorem verifyArtifacts_any_order:
  assumes "verifyArtifacts steps results = Inr results'" and "gomap_ok results"
  shows "list_all (\<lambda>(_, r). Analyze r) results' \<longleftrightarrow>
    list_all (\<lambda>(_, r). Analyze r) results \<and>
    (\<forall>step \<in> snd ` set steps. \<exists>c \<in> set (passed_of results (step_Name step)).
       \<forall>from \<in> set (step_ArtifactsFrom step). takes_from c (passed_of results from))"
  using verifyArtifacts_verdict [OF assms] by (simp add: step_accepted_def case_prod_unfold)

theorem verifyArtifacts_any_order_witness:
  "\<not> list_all (\<lambda>(_, r). Analyze r)
     [(''build'', \<lparr>sr_Step = ''build'', sr_Passed = [], sr_Rejected =
        [\<lparr>rc_Collection = zero_result, rc_Reason = fold (\<lambda>reason acc. ErrorsJoin [acc, reason])
            [ErrVerifyArtifactsFailed []] (Errorf ''failed to verify artifacts for step %s: '' [FStr ''build''])\<rparr>] ::
        unit RejectedCollection list\<rparr>)]"
proof -
  let ?step = "sample_step\<lparr>step_ArtifactsFrom := [''clone'']\<rparr>"
  let ?r = "[(''build'', \<lparr>sr_Step = ''build'', sr_Passed = [sample_passed], sr_Rejected = []\<rparr>)]"
  have res: "verifyArtifacts [(''build'', ?step)] ?r =
      Inr [(''build'', \<lparr>sr_Step = ''build'', sr_Passed = [], sr_Rejected =
        [\<lparr>rc_Collection = zero_result, rc_Reason = fold (\<lambda>reason acc. ErrorsJoin [acc, reason])
            [ErrVerifyArtifactsFailed []] (Errorf ''failed to verify artifacts for step %s: '' [FStr ''build''])\<rparr>]\<rparr>)]"
    by (simp add: verifyArtifacts_def verify_step_artifacts_def verifyCollectionArtifacts_def passed_of_def
        sample_step_def Let_def List.map_filter_def)
  have "gomap_ok ?r" by (simp add: gomap_ok_def)
  from verifyArtifacts_any_order [OF res this] show ?thesis
    by (simp add: passed_of_def takes_from_def sample_step_def)
qed

text \<open>C17. A collection passes the artifact check of its step exactly when, for every step it takes
  artifacts from, that step has passed collections and the first of them agrees with its materials: a
  path both know has equal digest sets. A later collection that agrees does not help when the first
  does not.\<close>

theorem verifyCollectionArtifacts_exact:
  "verifyCollectionArtifacts step c results = None \<longleftrightarrow>
     (\<forall>from \<in> set (step_ArtifactsFrom step). \<exists>d ds. passed_of results from = d # ds \<and>
        (\<forall>path m a. map_of (Collection_Materials (ce_Collection c)) path = Some m \<longrightarrow>
           map_of (Collection_Artifacts (ce_Collection d)) path = Some a \<longrightarrow> DigestSet_Equal m a))"
  by (simp add: verifyCollectionArtifacts_None_iff takes_from_def artifacts_agree_def)

theorem verifyCollectionArtifacts_exact_witness:
  "verifyCollectionArtifacts (sample_step\<lparr>step_ArtifactsFrom := [''build'']\<rparr>) sample_passed
     [(''build'', \<lparr>sr_Step = ''build'', sr_Passed = [zero_result], sr_Rejected = []\<rparr>)] = None"
  by (subst verifyCollectionArtifacts_exact)
    (simp add: passed_of_def zero_result_def verification_result_def zero_collection_envelope_def
      empty_collection_def Collection_Artifacts_def)

text \<open>C9. The functionary check passes, in order, exactly the statements one of whose verifiers is accepted
  by one of the step's functionaries, changing nothing but their warnings and valid functionaries, and
  rejects all others.\<close>

theorem checkFunctionaries_exact:
  assumes "checkFunctionaries lib cl step statements bundles = Return r"
    and "\<forall>c \<in> set statements. cvr_ValidFunctionaries c = []"
  shows "map core (sr_Passed r) = map core (filter (has_functionary lib cl bundles step) statements) \<and>
    (\<forall>c \<in> set statements. \<not> has_functionary lib cl bundles step c \<longrightarrow>
       (\<exists>rc \<in> set (sr_Rejected r). core (rc_Collection rc) = core c))"
  using checkFunctionaries_result [OF assms] by (simp add: functionaries_checked_def)

lemma sample_unsigned:
  "checkFunctionaries sample_lib sample_cert_lib sample_step [zero_result] [] =
     Return \<lparr>sr_Step = ''build'', sr_Passed = [], sr_Rejected =
       [\<lparr>rc_Collection = zero_result, rc_Reason = predicate_type_error []\<rparr>,
        \<lparr>rc_Collection = zero_result :: unit CollectionVerificationResult,
         rc_Reason = Errorf ''no verifiers present to validate against collection verifiers'' []\<rparr>]\<rparr>"
  by (simp add: checkFunctionaries_def check_statement_def zero_result_def verification_result_def
      zero_collection_envelope_def zero_statement_def CollectionType_def sample_step_def new_result_def Let_def)

theorem checkFunctionaries_exact_witness:
  "filter (has_functionary sample_lib sample_cert_lib [] sample_step)
     [zero_result :: unit CollectionVerificationResult] = []"
proof -
  have "\<forall>c \<in> set [zero_result :: unit CollectionVerificationResult]. cvr_ValidFunctionaries c = []"
    by (simp add: zero_result_def verification_result_def)
  from checkFunctionaries_exact [OF sample_unsigned this] show ?thesis by simp
qed

text \<open>A statement that is not a collection is rejected for its predicate type and passes the
  functionary check all the same when a functionary signed it, since the code does not go on to the next
  statement.\<close>

theorem wrong_predicate_type_passes:
  assumes "cvr_Verifiers c = [v]" and "step_Functionaries step = [f]"
    and "Functionary_Validate lib cl f v bundles = Return None"
    and "st_PredicateType (ce_Statement c) \<noteq> CollectionType"
  shows "\<exists>r. checkFunctionaries lib cl step [c] bundles = Return r \<and>
    (\<exists>d \<in> set (sr_Passed r). core d = core c) \<and> (\<exists>rc \<in> set (sr_Rejected r). rc_Collection rc = c)"
  using assms
  by (simp add: checkFunctionaries_def check_statement_def validate_pair_def Let_def core_def)

theorem wrong_predicate_type_passes_witness:
  "\<exists>r. checkFunctionaries sample_lib sample_cert_lib (sample_step\<lparr>step_Functionaries := [sample_functionary]\<rparr>)
     [zero_result\<lparr>cvr_Verifiers := [Some (ECDSAVerifier ''k'' SHA256)]\<rparr> :: unit CollectionVerificationResult] [] = Return r \<and>
     sr_Passed r \<noteq> []"
  using wrong_predicate_type_passes [of "zero_result\<lparr>cvr_Verifiers := [Some (ECDSAVerifier ''k'' SHA256)]\<rparr> :: unit CollectionVerificationResult"
      "Some (ECDSAVerifier ''k'' SHA256)" "sample_step\<lparr>step_Functionaries := [sample_functionary]\<rparr>" sample_functionary
      sample_lib sample_cert_lib "[]"] sample_functionary_ok
  by (force simp: zero_result_def verification_result_def zero_collection_envelope_def zero_statement_def
      CollectionType_def sample_step_def)

text \<open>The verifiers of a policy's public keys are keyed by their own key id: every key of the policy has
  a verifier under its key id, and every verifier has the id it is found under, computed from the key.\<close>

theorem PublicKeyVerifiers_own_ids:
  assumes "PublicKeyVerifiers lib ks ko p = Inr verifiers"
  shows "(\<forall>id v. map_of verifiers id = Some v \<longrightarrow> Verifier_KeyID lib v = Inr id) \<and>
    (\<forall>(_, key) \<in> set (pol_PublicKeys p). \<exists>v. map_of verifiers (pk_KeyID key) = Some v)"
proof -
  let ?step = "\<lambda>(_, key) verifiers. case key_verifier lib ks ko key of
         Inl err \<Rightarrow> Inl err
       | Inr verifier \<Rightarrow>
           (case Verifier_KeyID lib verifier of
              Inl err \<Rightarrow> Inl err
            | Inr keyID \<Rightarrow>
                if keyID \<noteq> pk_KeyID key then Inl (ErrKeyIDMismatch (pk_KeyID key) keyID)
                else Inr (AList.update keyID verifier verifiers))"
  have step: "\<exists>v. Verifier_KeyID lib v = Inr (pk_KeyID (snd x)) \<and> m' = AList.update (pk_KeyID (snd x)) v m"
    if "?step x m = Inr m'" for x :: "string \<times> policy_PublicKey" and m m'
    using that PublicKeyVerifiers_step [where lib = lib and ks = ks and ko = ko and key = "snd x" and verifiers = m and verifiers' = m'] by (auto simp: case_prod_unfold)
  from foldE_collects [of ?step "pol_PublicKeys p" "[]" verifiers
      "\<lambda>x v. Verifier_KeyID lib v = Inr (pk_KeyID (snd x))" "\<lambda>x. pk_KeyID (snd x)",
      OF assms [unfolded PublicKeyVerifiers_def] step]
  show ?thesis by (fastforce simp: case_prod_unfold)
qed

definition no_services :: "unit kms_services" where
  "no_services = \<lparr>providersMap = [], providerOptionsMap = [], opts_Init = \<lambda>_. [], opts_ProviderName = \<lambda>_. []\<rparr>"

theorem PublicKeyVerifiers_own_ids_witness:
  "\<exists>verifiers. PublicKeyVerifiers sample_lib no_services []
     (sample_policy\<lparr>pol_PublicKeys := [(''a'', \<lparr>pk_KeyID = sample_key_id, pk_Key = ''Ek''\<rparr>)]\<rparr>) = Inr verifiers \<and>
     (\<exists>v. map_of verifiers sample_key_id = Some v)"
proof -
  have "PublicKeyVerifiers sample_lib no_services []
     (sample_policy\<lparr>pol_PublicKeys := [(''a'', \<lparr>pk_KeyID = sample_key_id, pk_Key = ''Ek''\<rparr>)]\<rparr>) =
     Inr [(sample_key_id, ECDSAVerifier ''k'' SHA256)]"
    by (simp add: PublicKeyVerifiers_def key_verifier_def SupportedProviders_def no_services_def
        NewVerifierFromReader_def TryParseKeyFromReader_def TryParseKeyFromReaderWithPassword_def
        TryParsePEMBlockWithPassword_def isSigstorePEMType_def parse_unencrypted_def NewVerifier_def
        sample_lib_def sample_key_id_def GeneratePublicKeyID_def PublicPemBytes_def DigestBytes_def)
  from PublicKeyVerifiers_own_ids [OF this] this show ?thesis by auto
qed

text \<open>Verification refuses to start without a source, without a subject digest, with a search depth
  below one or after the policy's expiry: it returns an error and no verdict, without searching.\<close>

theorem Policy_Verify_refuses:
  assumes "vo = fold (\<lambda>opt vo. opt vo) opts default_verify_options"
    and "pvo_verifiedSource vo = None \<or> pvo_subjectDigests vo = [] \<or> pvo_searchDepth vo < 1 \<or> pol_Expires p < t"
  shows "\<exists>err. Policy_Verify lib cl rl t order search p opts = Return (False, [], Some err) \<and>
    (\<forall>search' order'. Policy_Verify lib cl rl t order' search' p opts = Return (False, [], Some err))"
proof (cases "checkVerifyOpts vo")
  case None
  with assms(2) have "pol_Expires p < t" by (auto simp: checkVerifyOpts_def split: if_splits)
  with None show ?thesis by (simp add: Policy_Verify_def Let_def assms(1) [symmetric])
next
  case (Some err)
  then show ?thesis by (simp add: Policy_Verify_def Let_def assms(1) [symmetric])
qed

theorem Policy_Verify_refuses_witness:
  "\<exists>err. Policy_Verify sample_lib sample_cert_lib sample_rego 11 (\<lambda>_. []) (\<lambda>k. VerifiedSource_Search sample_lib (\<lambda>_ _. 0) sample_search)
     sample_policy [WithVerifiedSource (Some sample_source), WithSubjectDigests [''d'']] = Return (False, [], Some err)"
  using Policy_Verify_refuses [OF refl, of "[WithVerifiedSource (Some sample_source), WithSubjectDigests [''d'']]"
      sample_policy 11 sample_lib sample_cert_lib sample_rego "\<lambda>_. []" "\<lambda>k. VerifiedSource_Search sample_lib (\<lambda>_ _. 0) sample_search"]
  by (auto simp: sample_policy_def)

end
