(* ===== verification/Base64.thy ===== *)
theory Base64
  imports Go_Prelude
begin

text \<open>
  What the code uses of \<open>encoding/base64\<close>: encoding in the standard alphabet, and decoding in the standard
  alphabet with padding and in the URL alphabet without it. Decoding gives back what was encoded.
\<close>

section \<open>Base64\<close>

text \<open>\<open>base64.StdEncoding.EncodeToString\<close>\<close>

definition base64_alphabet :: string where
  "base64_alphabet = ''ABCDEFGHIJKLMNOPQRSTUVWXYZabcdefghijklmnopqrstuvwxyz0123456789+/''"

definition base64_char :: "nat \<Rightarrow> char" where
  "base64_char n = base64_alphabet ! n"

fun EncodeToString :: "bytes \<Rightarrow> string" where
  "EncodeToString [] = []"
| "EncodeToString [a] =
     (let x = of_char a :: nat
      in [base64_char (x div 4), base64_char (x mod 4 * 16), CHR ''='', CHR ''=''])"
| "EncodeToString [a, b] =
     (let x = of_char a :: nat; y = of_char b :: nat
      in [base64_char (x div 4), base64_char (x mod 4 * 16 + y div 16), base64_char (y mod 16 * 4), CHR ''=''])"
| "EncodeToString (a # b # c # rest) =
     (let x = of_char a :: nat; y = of_char b :: nat; z = of_char c :: nat
      in [base64_char (x div 4), base64_char (x mod 4 * 16 + y div 16), base64_char (y mod 16 * 4 + z div 64),
          base64_char (z mod 64)] @ EncodeToString rest)"

definition base64url_alphabet :: string where
  "base64url_alphabet = ''ABCDEFGHIJKLMNOPQRSTUVWXYZabcdefghijklmnopqrstuvwxyz0123456789-_''"

definition base64_value :: "string \<Rightarrow> char \<Rightarrow> nat option" where
  "base64_value alphabet c = map_of (zip alphabet [0..<64]) c"

definition byte1 :: "nat \<Rightarrow> nat \<Rightarrow> char" where "byte1 p q = char_of (p * 4 + q div 16)"
definition byte2 :: "nat \<Rightarrow> nat \<Rightarrow> char" where "byte2 q r = char_of (q mod 16 * 16 + r div 4)"
definition byte3 :: "nat \<Rightarrow> nat \<Rightarrow> char" where "byte3 r s = char_of (r mod 4 * 64 + s)"

text \<open>Decoding, four characters at a time; the last group may be padded or, without padding, shorter. The
  unused bits of the last character are ignored.\<close>

fun base64_groups :: "(char \<Rightarrow> nat option) \<Rightarrow> bool \<Rightarrow> string \<Rightarrow> bytes option" where
  "base64_groups val padded [] = Some []"
| "base64_groups val padded [a] = None"
| "base64_groups val padded [a, b] =
     (case (val a, val b) of (Some p, Some q) \<Rightarrow> if padded then None else Some [byte1 p q] | _ \<Rightarrow> None)"
| "base64_groups val padded [a, b, c] =
     (case (val a, val b, val c) of
        (Some p, Some q, Some r) \<Rightarrow> if padded then None else Some [byte1 p q, byte2 q r] | _ \<Rightarrow> None)"
| "base64_groups val padded (a # b # c # d # rest) =
     (case (val a, val b) of
        (Some p, Some q) \<Rightarrow>
          if padded \<and> c = CHR ''='' then (if d = CHR ''='' \<and> rest = [] then Some [byte1 p q] else None)
          else (case val c of
                  None \<Rightarrow> None
                | Some r \<Rightarrow>
                    if padded \<and> d = CHR ''='' then (if rest = [] then Some [byte1 p q, byte2 q r] else None)
                    else (case (val d, base64_groups val padded rest) of
                            (Some s, Some more) \<Rightarrow> Some (byte1 p q # byte2 q r # byte3 r s # more)
                          | _ \<Rightarrow> None))
      | _ \<Rightarrow> None)"

definition no_newlines :: "string \<Rightarrow> string" where
  "no_newlines s = filter (\<lambda>c. c \<noteq> CHR 0x0A \<and> c \<noteq> CHR 0x0D) s"

text \<open>\<open>base64.StdEncoding.DecodeString\<close> and \<open>base64.RawURLEncoding.DecodeString\<close>\<close>

definition StdEncoding_Decode :: "string \<Rightarrow> bytes option" where
  "StdEncoding_Decode s = base64_groups (base64_value base64_alphabet) True (no_newlines s)"

definition RawURLEncoding_Decode :: "string \<Rightarrow> bytes option" where
  "RawURLEncoding_Decode s = base64_groups (base64_value base64url_alphabet) False (no_newlines s)"

section \<open>Lemmas\<close>

lemma base64_distinct: "distinct base64_alphabet"
  by (simp add: base64_alphabet_def)

lemma base64_char_inj: "m < 64 \<Longrightarrow> n < 64 \<Longrightarrow> base64_char m = base64_char n \<longleftrightarrow> m = n"
  unfolding base64_char_def by (rule nth_eq_iff_index_eq [OF base64_distinct]) (simp_all add: base64_alphabet_def)

lemma base64_char_not_pad: "n < 64 \<Longrightarrow> base64_char n \<noteq> CHR ''=''"
proof
  assume "n < 64" and "base64_char n = CHR ''=''"
  moreover have "length base64_alphabet = 64" by (simp add: base64_alphabet_def)
  ultimately have "CHR ''='' \<in> set base64_alphabet" unfolding base64_char_def by (metis nth_mem)
  then show False by (simp add: base64_alphabet_def)
qed

lemma of_char_bound [simp]: "(of_char c :: nat) < 256"
proof -
  have "(of_char c :: nat) = of_char (char_of (of_char c :: nat))" by simp
  also have "\<dots> = of_char c mod 256" by (simp only: of_char_of)
  finally show ?thesis by (metis mod_less_divisor zero_less_numeral)
qed

lemma sextet_bounds [simp]:
  "(of_char a :: nat) div 4 < 64" "(of_char a :: nat) div 16 < 16" "(of_char a :: nat) div 64 < 4"
  using of_char_bound [of a] by (auto intro!: less_mult_imp_div_less)

lemma sextet_sum_bounds [simp]:
  "(of_char a :: nat) mod 4 * 16 < 64" "(of_char a :: nat) mod 16 * 4 < 64" "(of_char a :: nat) mod 64 < 64"
  "(of_char a :: nat) mod 4 * 16 + of_char b div 16 < 64"
  "(of_char a :: nat) mod 16 * 4 + of_char b div 64 < 64"
proof -
  have m: "(of_char a :: nat) mod 4 < 4" "(of_char a :: nat) mod 16 < 16" by simp_all
  note d = sextet_bounds(2,3) [of b]
  show "(of_char a :: nat) mod 4 * 16 < 64" "(of_char a :: nat) mod 16 * 4 < 64" using m by linarith+
  show "(of_char a :: nat) mod 64 < 64" by simp
  show "(of_char a :: nat) mod 4 * 16 + of_char b div 16 < 64" using m d by linarith
  show "(of_char a :: nat) mod 16 * 4 + of_char b div 64 < 64" using m d by linarith
qed

lemma base64_value_char: "n < 64 \<Longrightarrow> base64_value base64_alphabet (base64_char n) = Some n"
proof -
  assume n: "n < 64"
  have len: "length base64_alphabet = 64" by (simp add: base64_alphabet_def)
  with n base64_distinct have "map_of (zip base64_alphabet [0..<64]) (base64_alphabet ! n) = Some ([0..<64] ! n)"
    by (intro map_of_zip_nth) auto
  with n show ?thesis by (simp add: base64_value_def base64_char_def)
qed

lemma sextet_halves [simp]:
  "((of_char a :: nat) mod 4 * 16 + of_char b div 16) div 16 = of_char a mod 4"
  "((of_char a :: nat) mod 4 * 16 + of_char b div 16) mod 16 = of_char b div 16"
  "((of_char a :: nat) mod 16 * 4 + of_char b div 64) div 4 = of_char a mod 16"
  "((of_char a :: nat) mod 16 * 4 + of_char b div 64) mod 4 = of_char b div 64"
  by (simp_all add: div_mult_self4 mod_mult_self3)

lemma bytes_restored [simp]:
  "byte1 (of_char a div 4) (of_char a mod 4 * 16 + of_char b div 16) = a"
  "byte1 (of_char a div 4) (of_char a mod 4 * 16) = a"
  "byte2 (of_char a mod 4 * 16 + of_char b div 16) (of_char b mod 16 * 4 + of_char c div 64) = b"
  "byte2 (of_char a mod 4 * 16 + of_char b div 16) (of_char b mod 16 * 4) = b"
  "byte3 (of_char b mod 16 * 4 + of_char c div 64) (of_char c mod 64) = c"
  by (simp_all add: byte1_def byte2_def byte3_def)

lemma EncodeToString_no_newlines: "no_newlines (EncodeToString xs) = EncodeToString xs"
proof -
  have "base64_char n \<noteq> CHR 0x0A \<and> base64_char n \<noteq> CHR 0x0D" if "n < 64" for n
  proof -
    have "length base64_alphabet = 64" by (simp add: base64_alphabet_def)
    with that have "base64_char n \<in> set base64_alphabet" unfolding base64_char_def by (metis nth_mem)
    then show ?thesis by (auto simp: base64_alphabet_def)
  qed
  then show ?thesis unfolding no_newlines_def by (induction xs rule: EncodeToString.induct) (simp_all add: Let_def)
qed

lemma base64_roundtrip: "StdEncoding_Decode (EncodeToString xs) = Some xs"
proof -
  have "base64_groups (base64_value base64_alphabet) True (EncodeToString xs) = Some xs"
    by (induction xs rule: EncodeToString.induct) (simp_all add: Let_def base64_value_char base64_char_not_pad)
  then show ?thesis by (simp add: StdEncoding_Decode_def EncodeToString_no_newlines)
qed

lemma EncodeToString_inj: "EncodeToString xs = EncodeToString ys \<Longrightarrow> xs = ys"
  by (metis base64_roundtrip option.inject)

end
