(* ===== verification/Policy_Signature.thy ===== *)
theory Policy_Signature
  imports Constraints Base64
begin

text \<open>
  The signature of a policy: \<open>internal/policy/policy.go\<close>.

  A policy comes in a signed envelope. \<open>VerifyPolicySignature\<close> verifies the envelope and then asks
  whether one of the checked verifiers meets the constraints given as options: a key verifier always
  does when it has a key id, an X.509 verifier when its certificate meets the certificate constraint
  under the given roots. The lemmas give the exact condition for success and show what it leaves open:
  the loop looks at every verifier that was checked, not at those that passed.
\<close>

section \<open>Options\<close>

record VerifyPolicySignatureOptions =
  vps_policyVerifiers :: "verifier option list"
  vps_policyTimestampAuthorities :: "ts_verifier list"
  vps_policyCARoots :: "certificate list"
  vps_policyCAIntermediates :: "certificate list"
  vps_policyCommonName :: string
  vps_policyDNSNames :: "string list"
  vps_policyEmails :: "string list"
  vps_policyOrganizations :: "string list"
  vps_policyURIs :: "string list"
  vps_fulcioCertExtensions :: extensions

type_synonym policy_signature_option = "VerifyPolicySignatureOptions \<Rightarrow> VerifyPolicySignatureOptions"

definition VerifyWithPolicyVerifiers :: "verifier option list \<Rightarrow> policy_signature_option" where
  "VerifyWithPolicyVerifiers policyVerifiers vo =
     vo\<lparr>vps_policyVerifiers := vps_policyVerifiers vo @ policyVerifiers\<rparr>"

definition VerifyWithPolicyTimestampAuthorities :: "ts_verifier list \<Rightarrow> policy_signature_option" where
  "VerifyWithPolicyTimestampAuthorities authorities vo = vo\<lparr>vps_policyTimestampAuthorities := authorities\<rparr>"

definition VerifyWithPolicyCARoots :: "certificate list \<Rightarrow> policy_signature_option" where
  "VerifyWithPolicyCARoots roots vo = vo\<lparr>vps_policyCARoots := roots\<rparr>"

definition VerifyWithPolicyCAIntermediates :: "certificate list \<Rightarrow> policy_signature_option" where
  "VerifyWithPolicyCAIntermediates intermediates vo = vo\<lparr>vps_policyCAIntermediates := intermediates\<rparr>"

definition VerifyWithPolicyFulcioCertExtensions :: "extensions \<Rightarrow> policy_signature_option" where
  "VerifyWithPolicyFulcioCertExtensions extensions vo = vo\<lparr>vps_fulcioCertExtensions := extensions\<rparr>"

definition VerifyWithPolicyCertConstraints ::
  "string \<Rightarrow> string list \<Rightarrow> string list \<Rightarrow> string list \<Rightarrow> string list \<Rightarrow> policy_signature_option" where
  "VerifyWithPolicyCertConstraints commonName dnsNames emails organizations uris vo =
     vo\<lparr>vps_policyCommonName := commonName, vps_policyDNSNames := dnsNames, vps_policyEmails := emails,
        vps_policyOrganizations := organizations, vps_policyURIs := uris\<rparr>"

definition NewVerifyPolicySignatureOptions :: "policy_signature_option list \<Rightarrow> VerifyPolicySignatureOptions" where
  "NewVerifyPolicySignatureOptions opts =
     fold (\<lambda>opt vo. opt vo) opts
       \<lparr>vps_policyVerifiers = [], vps_policyTimestampAuthorities = [], vps_policyCARoots = [],
        vps_policyCAIntermediates = [], vps_policyCommonName = ''*'', vps_policyDNSNames = [''*''],
        vps_policyEmails = [''*''], vps_policyOrganizations = [''*''], vps_policyURIs = [''*''],
        vps_fulcioCertExtensions = []\<rparr>"

section \<open>Verification\<close>

definition envelope_options ::
  "VerifyPolicySignatureOptions \<Rightarrow> (verificationOptions \<Rightarrow> verificationOptions) list" where
  "envelope_options vo =
     [VerifyWithVerifiers (vps_policyVerifiers vo),
      VerifyWithTimestampVerifiers (vps_policyTimestampAuthorities vo),
      VerifyWithRoots (vps_policyCARoots vo), VerifyWithIntermediates (vps_policyCAIntermediates vo)]"

text \<open>The functionary a checked verifier is held against, and its trust bundles.\<close>

definition policy_bundles :: "VerifyPolicySignatureOptions \<Rightarrow> (string, TrustBundle) gomap" where
  "policy_bundles vo =
     fold (\<lambda>root. AList.update (EncodeToString (cert_Raw root)) \<lparr>tb_Root = root, tb_Intermediates = []\<rparr>)
       (vps_policyCARoots vo) []"

definition root_functionary :: "VerifyPolicySignatureOptions \<Rightarrow> Functionary" where
  "root_functionary vo =
     \<lparr>fn_Type = ''root'',
      fn_CertConstraint =
        \<lparr>cc_CommonName = vps_policyCommonName vo, cc_DNSNames = vps_policyDNSNames vo,
         cc_Emails = vps_policyEmails vo, cc_Organizations = vps_policyOrganizations vo,
         cc_URIs = vps_policyURIs vo,
         cc_Roots = map (\<lambda>root. EncodeToString (cert_Raw root)) (vps_policyCARoots vo),
         cc_Extensions = vps_fulcioCertExtensions vo\<rparr>,
      fn_PublicKeyID = []\<rparr>"

definition key_functionary :: "string \<Rightarrow> Functionary" where
  "key_functionary kid =
     \<lparr>fn_Type = ''key'',
      fn_CertConstraint =
        \<lparr>cc_CommonName = [], cc_DNSNames = [], cc_Emails = [], cc_Organizations = [], cc_URIs = [],
         cc_Roots = [], cc_Extensions = []\<rparr>,
      fn_PublicKeyID = kid\<rparr>"

fun is_X509Verifier :: "verifier \<Rightarrow> bool" where
  "is_X509Verifier (X509Verifier cert roots intermediates inner trustedTime) = True"
| "is_X509Verifier _ = False"

definition validate_policy_verifier ::
  "crypto_lib \<Rightarrow> cert_lib \<Rightarrow> VerifyPolicySignatureOptions \<Rightarrow> verifier \<Rightarrow> string \<Rightarrow> gerr option outcome" where
  "validate_policy_verifier lib cl vo v kid =
     (if is_X509Verifier v
      then Functionary_Validate lib cl (root_functionary vo) (Some v) (policy_bundles vo)
      else Functionary_Validate lib cl (key_functionary kid) (Some v) [])"

primrec check_policy_verifiers ::
  "crypto_lib \<Rightarrow> cert_lib \<Rightarrow> VerifyPolicySignatureOptions \<Rightarrow> checked_verifier list \<Rightarrow> bool \<Rightarrow>
     (gerr + bool) outcome" where
  "check_policy_verifiers lib cl vo [] passed = Return (Inr passed)"
| "check_policy_verifiers lib cl vo (verifier # verifiers) passed =
     (case cv_Verifier verifier of
        None \<Rightarrow> Panic nil_panic
      | Some v \<Rightarrow>
          (case Verifier_KeyID lib v of
             Inl err \<Rightarrow> Return (Inl (Errorf ''could not get verifier key id: %w'' [FErr err]))
           | Inr kid \<Rightarrow>
               bindO (validate_policy_verifier lib cl vo v kid)
                 (\<lambda>err. check_policy_verifiers lib cl vo verifiers (if err \<noteq> None then passed else True))))"

definition VerifyPolicySignature ::
  "crypto_lib \<Rightarrow> cert_lib \<Rightarrow> (nat \<Rightarrow> gtime) \<Rightarrow> Envelope \<Rightarrow> VerifyPolicySignatureOptions \<Rightarrow>
     gerr option outcome" where
  "VerifyPolicySignature lib cl now envelope vo =
     (case Envelope_Verify lib now envelope (envelope_options vo) of
        (_, Some err) \<Rightarrow> Return (Some (Errorf ''could not verify policy: %w'' [FErr err]))
      | (passedPolicyVerifiers, None) \<Rightarrow>
          bindO (check_policy_verifiers lib cl vo passedPolicyVerifiers False)
            (\<lambda>res. Return
               (case res of
                  Inl err \<Rightarrow> Some err
                | Inr passed \<Rightarrow>
                    if \<not> passed then Some (Errorf ''no policy verifiers passed verification'' []) else None)))"

section \<open>What a policy signer is\<close>

text \<open>A verifier meets the constraints: a key verifier with a key id, or an X.509 verifier whose
  certificate verifies under one of the configured roots at its trusted time and has the attributes and
  extensions asked for.\<close>

definition meets_constraints ::
  "crypto_lib \<Rightarrow> cert_lib \<Rightarrow> VerifyPolicySignatureOptions \<Rightarrow> verifier \<Rightarrow> bool" where
  "meets_constraints lib cl vo v \<longleftrightarrow>
     (case v of
        X509Verifier cert roots ints inner t \<Rightarrow>
          attribute_ok [vps_policyCommonName vo] [cert_CommonName cert] \<and>
          attribute_ok (vps_policyDNSNames vo) (cert_DNSNames cert) \<and>
          attribute_ok (vps_policyEmails vo) (cert_EmailAddresses cert) \<and>
          attribute_ok (vps_policyOrganizations vo) (cert_Organization cert) \<and>
          attribute_ok (vps_policyURIs vo) (cert_URIs cert) \<and>
          (\<exists>root \<in> set (vps_policyCARoots vo).
             lib_certVerify lib cert [root] (certificatesToPool ints) t = None) \<and>
          extensions_ok cl (vps_fulcioCertExtensions vo) (cert_Extensions cert)
      | _ \<Rightarrow> Verifier_KeyID lib v \<noteq> Inr [])"

text \<open>A checked verifier the loop gets past.\<close>

definition checkable :: "crypto_lib \<Rightarrow> cert_lib \<Rightarrow> VerifyPolicySignatureOptions \<Rightarrow> checked_verifier \<Rightarrow> bool" where
  "checkable lib cl vo c \<longleftrightarrow>
     (\<exists>v kid err. cv_Verifier c = Some v \<and> Verifier_KeyID lib v = Inr kid \<and>
        validate_policy_verifier lib cl vo v kid = Return err)"

definition raw_injective :: "certificate list \<Rightarrow> bool" where
  "raw_injective roots \<longleftrightarrow> (\<forall>r \<in> set roots. \<forall>s \<in> set roots. cert_Raw r = cert_Raw s \<longrightarrow> r = s)"

section \<open>Lemmas: verification\<close>

lemma envelope_options_fold:
  "fold (\<lambda>opt vo. opt vo) (envelope_options vo) default_options =
     \<lparr>vo_roots = vps_policyCARoots vo, vo_intermediates = vps_policyCAIntermediates vo,
      vo_verifiers = vps_policyVerifiers vo, vo_threshold = 1,
      vo_timestampVerifiers = vps_policyTimestampAuthorities vo\<rparr>"
  by (simp add: envelope_options_def default_options_def VerifyWithVerifiers_def VerifyWithTimestampVerifiers_def
      VerifyWithRoots_def VerifyWithIntermediates_def)

lemma policy_bundles_ok [simp]: "gomap_ok (policy_bundles vo)"
proof -
  have "gomap_ok m \<Longrightarrow> gomap_ok (fold (\<lambda>root. AList.update (EncodeToString (cert_Raw root))
      \<lparr>tb_Root = root, tb_Intermediates = []\<rparr>) roots m)" for roots m
    by (induction roots arbitrary: m) simp_all
  then show ?thesis by (simp add: policy_bundles_def)
qed

lemma policy_bundles_loop:
  assumes "raw_injective roots"
  shows "map_of (fold (\<lambda>root. AList.update (EncodeToString (cert_Raw root)) \<lparr>tb_Root = root, tb_Intermediates = []\<rparr>)
      roots []) i = Some bundle \<longleftrightarrow>
    (\<exists>root \<in> set roots. i = EncodeToString (cert_Raw root) \<and> bundle = \<lparr>tb_Root = root, tb_Intermediates = []\<rparr>)"
  using assms
proof (induction roots rule: rev_induct)
  case Nil
  then show ?case by simp
next
  case (snoc r roots)
  then have "raw_injective roots" by (simp add: raw_injective_def)
  note IH = snoc.IH [OF this]
  have same: "s = r" if "s \<in> set roots" "EncodeToString (cert_Raw s) = EncodeToString (cert_Raw r)" for s
    using snoc.prems that EncodeToString_inj by (force simp: raw_injective_def)
  show ?case
    by (cases "i = EncodeToString (cert_Raw r)") (auto simp: update_conv IH dest: same)
qed

lemma policy_roots:
  assumes "raw_injective (vps_policyCARoots vo)"
  shows "root_ok lib (map (\<lambda>root. EncodeToString (cert_Raw root)) (vps_policyCARoots vo)) cert ints t (policy_bundles vo)
    \<longleftrightarrow> (\<exists>root \<in> set (vps_policyCARoots vo). lib_certVerify lib cert [root] (certificatesToPool ints) t = None)"
  unfolding root_ok_def policy_bundles_def policy_bundles_loop [OF assms] by force

lemma validate_policy_verifier_None_iff:
  assumes "Verifier_KeyID lib v = Inr kid" and "raw_injective (vps_policyCARoots vo)"
  shows "validate_policy_verifier lib cl vo v kid = Return None \<longleftrightarrow> meets_constraints lib cl vo v"
proof (cases "is_X509Verifier v")
  case True
  then obtain cert roots ints inner t where v: "v = X509Verifier cert roots ints inner t"
    by (cases v) auto
  have "(\<exists>root \<in> set (vps_policyCARoots vo). P root) \<Longrightarrow> vps_policyCARoots vo \<noteq> []" for P by auto
  then show ?thesis using assms(1)
    by (auto simp: v validate_policy_verifier_def Functionary_Validate_None_iff functionary_ok_def
        root_functionary_def constraint_ok_def policy_roots [OF assms(2)] meets_constraints_def)
next
  case False
  with assms(1) show ?thesis
    by (cases v) (auto simp: validate_policy_verifier_def Functionary_Validate_None_iff functionary_ok_def
        key_functionary_def meets_constraints_def)
qed

lemma check_policy_verifiers_Inr_iff:
  assumes "raw_injective (vps_policyCARoots vo)"
  shows "check_policy_verifiers lib cl vo cs passed = Return (Inr b) \<longleftrightarrow>
    (\<forall>c \<in> set cs. checkable lib cl vo c) \<and>
    b = (passed \<or> (\<exists>c \<in> set cs. \<exists>v. cv_Verifier c = Some v \<and> meets_constraints lib cl vo v))"
proof (induction cs arbitrary: passed)
  case Nil
  then show ?case by auto
next
  case (Cons c cs)
  show ?case
  proof (cases "checkable lib cl vo c")
    case True
    then obtain v kid err where c: "cv_Verifier c = Some v" "Verifier_KeyID lib v = Inr kid"
      and val: "validate_policy_verifier lib cl vo v kid = Return err" by (auto simp: checkable_def)
    have "meets_constraints lib cl vo v \<longleftrightarrow> err = None"
      using validate_policy_verifier_None_iff [OF c(2) assms, of cl] val by simp
    with Cons.IH c val True show ?thesis by auto
  next
    case False
    then have "check_policy_verifiers lib cl vo (c # cs) passed \<noteq> Return (Inr b)"
      by (auto simp: checkable_def split: option.splits sum.splits)
    with False show ?thesis by simp
  qed
qed

lemma VerifyPolicySignature_None_iff:
  assumes "raw_injective (vps_policyCARoots vo)"
  shows "VerifyPolicySignature lib cl now env vo = Return None \<longleftrightarrow>
    (\<exists>cs. Envelope_Verify lib now env (envelope_options vo) = (cs, None) \<and>
       (\<forall>c \<in> set cs. checkable lib cl vo c) \<and>
       (\<exists>c \<in> set cs. \<exists>v. cv_Verifier c = Some v \<and> meets_constraints lib cl vo v))"
proof -
  obtain cs e where env: "Envelope_Verify lib now env (envelope_options vo) = (cs, e)" by fastforce
  show ?thesis
  proof (cases e)
    case (Some err)
    with env show ?thesis by (simp add: VerifyPolicySignature_def)
  next
    case None
    have "VerifyPolicySignature lib cl now env vo = Return None \<longleftrightarrow>
        check_policy_verifiers lib cl vo cs False = Return (Inr True)"
      using env None
      by (cases "check_policy_verifiers lib cl vo cs False")
        (auto simp: VerifyPolicySignature_def split: sum.split)
    then show ?thesis by (simp add: env None check_policy_verifiers_Inr_iff [OF assms])
  qed
qed

text \<open>A verified envelope has a valid signature.\<close>

lemma Envelope_Verify_accepts:
  assumes "Envelope_Verify lib now e opts = (cs, None)"
  shows "\<exists>sig \<in> set (env_Signatures e). \<exists>v. accepts lib now (fold (\<lambda>opt vo. opt vo) opts default_options)
    (preauthEncode (env_PayloadType e) (env_Payload e)) sig v"
proof -
  from assms have "passed_verifiers cs \<noteq> []"
    and cs: "cs = fst (check_signatures lib now (fold (\<lambda>opt vo. opt vo) opts default_options)
      (preauthEncode (env_PayloadType e) (env_Payload e)) 0 (env_Signatures e))"
    by (auto simp: Envelope_Verify_ok_iff Let_def)
  then obtain c where "c \<in> set (passed_verifiers cs)" by (meson list.set_sel(1))
  from check_signatures_passed [OF this [unfolded cs]] show ?thesis by blast
qed

section \<open>A policy signed under a certificate\<close>

text \<open>The certificate of \<open>a\<close> made a valid signature, the signature next to the certificate of \<open>b\<close> is not
  one, and only \<open>b\<close> may sign policies.\<close>

definition sample_policy_options :: VerifyPolicySignatureOptions where
  "sample_policy_options = NewVerifyPolicySignatureOptions
     [VerifyWithPolicyCARoots [sample_cert ''r''],
      VerifyWithPolicyCertConstraints ''b'' [''*''] [''*''] [''*''] [''*'']]"

definition cert_signature :: "bytes \<Rightarrow> bytes \<Rightarrow> Signature" where
  "cert_signature name sig =
     \<lparr>sig_KeyID = name, sig_Signature = sig, sig_Certificate = CHR ''C'' # name, sig_Intermediates = [],
      sig_Timestamps = []\<rparr>"

definition sample_signed_policy :: "Signature list \<Rightarrow> Envelope" where
  "sample_signed_policy sigs = \<lparr>env_Payload = ''b'', env_PayloadType = ''t'', env_Signatures = sigs\<rparr>"

definition cert_verifier :: "bytes \<Rightarrow> verifier" where
  "cert_verifier name = X509Verifier (sample_cert name) [sample_cert ''r''] [] (ECDSAVerifier name SHA256) 0"

lemmas sample_policy_defs = sample_policy_options_def NewVerifyPolicySignatureOptions_def
  VerifyWithPolicyCARoots_def VerifyWithPolicyCertConstraints_def

lemma sample_policy_fields:
  "vps_policyCARoots sample_policy_options = [sample_cert ''r'']"
  "vps_policyCommonName sample_policy_options = ''b''" "vps_policyDNSNames sample_policy_options = [''*'']"
  "vps_policyEmails sample_policy_options = [''*'']" "vps_policyOrganizations sample_policy_options = [''*'']"
  "vps_policyURIs sample_policy_options = [''*'']" "vps_fulcioCertExtensions sample_policy_options = []"
  "vps_policyCAIntermediates sample_policy_options = []" "vps_policyVerifiers sample_policy_options = []"
  "vps_policyTimestampAuthorities sample_policy_options = []"
  by (simp_all add: sample_policy_defs)

lemma cert_signature_checked:
  "check_signature sample_lib 0 \<lparr>vo_roots = [sample_cert ''r''], vo_intermediates = [], vo_verifiers = [],
      vo_threshold = 1, vo_timestampVerifiers = []\<rparr> pae (cert_signature name sig) =
     (if sig = name @ pae then ([CheckedVerifier (Some (cert_verifier name)) [] None], 1)
      else ([CheckedVerifier (Some (cert_verifier name)) [] (Some ErrVerifyFailed)], 0))"
  by (simp add: check_signature_def check_certificate_def cert_signature_def cert_verifier_def
      TryParseCertificate_def TryParseKeyFromReader_def TryParseKeyFromReaderWithPassword_def
      TryParsePEMBlockWithPassword_def isSigstorePEMType_def parse_unencrypted_def verifyX509Time_def
      NewX509Verifier_def NewVerifier_def sample_cert_def sample_lib_def Let_def)

lemma sample_signed_policy_checked:
  "Envelope_Verify sample_lib (\<lambda>_. 0)
     (sample_signed_policy [cert_signature ''a'' (''a'' @ preauthEncode ''t'' ''b''), cert_signature ''b'' []])
     (envelope_options sample_policy_options) =
   ([CheckedVerifier (Some (cert_verifier ''a'')) [] None,
     CheckedVerifier (Some (cert_verifier ''b'')) [] (Some ErrVerifyFailed)], None)"
  by (simp add: Envelope_Verify_def envelope_options_fold sample_policy_fields sample_signed_policy_def Let_def
      cert_signature_checked)

lemma cert_verifier_checked:
  "checkable sample_lib sample_cert_lib sample_policy_options (CheckedVerifier (Some (cert_verifier name)) tvs err)"
  "meets_constraints sample_lib sample_cert_lib sample_policy_options (cert_verifier name) \<longleftrightarrow> name = ''b''"
proof -
  show meets: "meets_constraints sample_lib sample_cert_lib sample_policy_options (cert_verifier name) \<longleftrightarrow> name = ''b''"
    by (simp add: meets_constraints_def cert_verifier_def sample_policy_fields attribute_ok_def drop_empty_def
        AllowAllConstraint_def extensions_ok_def sample_cert_lib_def sample_cert_def sample_lib_def)
  have "\<exists>kid. Verifier_KeyID sample_lib (cert_verifier name) = Inr kid"
    by (simp add: cert_verifier_def sample_lib_def GeneratePublicKeyID_def PublicPemBytes_def DigestBytes_def)
  moreover have "\<exists>err. validate_policy_verifier sample_lib sample_cert_lib sample_policy_options (cert_verifier name) kid
      = Return err" for kid
    by (simp add: validate_policy_verifier_def cert_verifier_def Functionary_Validate_def root_functionary_def
        sample_policy_fields CertConstraint_Check_def checkExtensions_def sample_cert_lib_def Let_def
        split: sum.split)
  ultimately show "checkable sample_lib sample_cert_lib sample_policy_options
      (CheckedVerifier (Some (cert_verifier name)) tvs err)"
    by (auto simp: checkable_def)
qed

section \<open>Properties\<close>

text \<open>C7. What a verified policy signature guarantees: some signature of the envelope is valid over exactly
  its payload type and payload, made by a configured verifier or under the configured roots at a trusted
  time; and among the verifiers that were checked on its signatures there is one that meets the
  constraints.\<close>

theorem VerifyPolicySignature_sound:
  assumes "VerifyPolicySignature lib cl now env vo = Return None" and "raw_injective (vps_policyCARoots vo)"
    and "options = fold (\<lambda>opt vo. opt vo) (envelope_options vo) default_options"
  shows "(\<exists>sig \<in> set (env_Signatures env). \<exists>v.
      accepts lib now options (preauthEncode (env_PayloadType env) (env_Payload env)) sig v) \<and>
    (\<exists>c \<in> set (fst (Envelope_Verify lib now env (envelope_options vo))). \<exists>v.
      cv_Verifier c = Some v \<and> meets_constraints lib cl vo v)"
proof -
  from assms(1) obtain cs where cs: "Envelope_Verify lib now env (envelope_options vo) = (cs, None)"
    and ok: "\<exists>c \<in> set cs. \<exists>v. cv_Verifier c = Some v \<and> meets_constraints lib cl vo v"
    by (auto simp: VerifyPolicySignature_None_iff [OF assms(2)])
  from Envelope_Verify_accepts [OF cs, folded assms(3)] ok cs show ?thesis by auto
qed

theorem VerifyPolicySignature_sound_witness:
  "\<exists>sig \<in> set (env_Signatures (sample_signed_policy [cert_signature ''b'' (''b'' @ preauthEncode ''t'' ''b'')])). \<exists>v.
     accepts sample_lib (\<lambda>_. 0) (fold (\<lambda>opt vo. opt vo) (envelope_options sample_policy_options) default_options)
       (preauthEncode ''t'' ''b'') sig v"
proof -
  have inj: "raw_injective (vps_policyCARoots sample_policy_options)"
    by (simp add: raw_injective_def sample_policy_fields)
  have "Envelope_Verify sample_lib (\<lambda>_. 0) (sample_signed_policy [cert_signature ''b'' (''b'' @ preauthEncode ''t'' ''b'')])
      (envelope_options sample_policy_options) = ([CheckedVerifier (Some (cert_verifier ''b'')) [] None], None)"
    by (simp add: Envelope_Verify_def envelope_options_fold sample_policy_fields sample_signed_policy_def Let_def
        cert_signature_checked)
  then have "VerifyPolicySignature sample_lib sample_cert_lib (\<lambda>_. 0)
      (sample_signed_policy [cert_signature ''b'' (''b'' @ preauthEncode ''t'' ''b'')]) sample_policy_options = Return None"
    by (simp add: VerifyPolicySignature_None_iff [OF inj] cert_verifier_checked)
  from VerifyPolicySignature_sound [OF this inj refl] show ?thesis by (simp add: sample_signed_policy_def)
qed

text \<open>The constraints on a policy's signer bind no one when another verifier was checked in vain: as soon
  as the envelope has one valid signature, a checked verifier whose own check failed and that meets the
  constraints makes the policy accepted, whoever made the valid signature.\<close>

theorem failed_verifier_satisfies_constraints:
  assumes "Envelope_Verify lib now env (envelope_options vo) = (cs, None)"
    and "raw_injective (vps_policyCARoots vo)" and "\<forall>c \<in> set cs. checkable lib cl vo c"
    and "CheckedVerifier (Some v) tvs (Some err) \<in> set cs" and "meets_constraints lib cl vo v"
  shows "VerifyPolicySignature lib cl now env vo = Return None"
  using assms by (force simp: VerifyPolicySignature_None_iff)

theorem failed_verifier_satisfies_constraints_witness:
  "VerifyPolicySignature sample_lib sample_cert_lib (\<lambda>_. 0)
     (sample_signed_policy [cert_signature ''a'' (''a'' @ preauthEncode ''t'' ''b''), cert_signature ''b'' []])
     sample_policy_options = Return None \<and>
   \<not> meets_constraints sample_lib sample_cert_lib sample_policy_options (cert_verifier ''a'')"
  using failed_verifier_satisfies_constraints [OF sample_signed_policy_checked, of sample_cert_lib]
  by (simp add: raw_injective_def sample_policy_fields cert_verifier_checked)

text \<open>A checked verifier that is nil, which a signature with a certificate of an unsupported key type
  leaves behind, makes the verification of the policy's signature panic, also when other signatures of
  the envelope are valid.\<close>

theorem nil_policy_verifier_panics:
  assumes "Envelope_Verify lib now env (envelope_options vo) = (cs, None)"
    and "c \<in> set cs" and "cv_Verifier c = None"
    and "\<forall>c \<in> set cs. \<forall>v. cv_Verifier c = Some v \<longrightarrow> (\<exists>kid. Verifier_KeyID lib v = Inr kid)"
  shows "\<exists>msg. VerifyPolicySignature lib cl now env vo = Panic msg"
proof -
  have "\<exists>msg. check_policy_verifiers lib cl vo cs' passed = Panic msg"
    if "c \<in> set cs'" "set cs' \<subseteq> set cs" for cs' passed
    using that
  proof (induction cs' arbitrary: passed)
    case (Cons d ds)
    show ?case
    proof (cases "cv_Verifier d")
      case (Some v)
      with Cons.prems assms(3,4) obtain kid where kid: "Verifier_KeyID lib v = Inr kid" and "c \<in> set ds" by force
      with Cons have "\<exists>msg. check_policy_verifiers lib cl vo ds p = Panic msg" for p by simp
      with Some kid show ?thesis
        by (cases "validate_policy_verifier lib cl vo v kid") simp_all
    qed simp
  qed simp
  then obtain msg where "check_policy_verifiers lib cl vo cs False = Panic msg" using assms(2) by blast
  with assms(1) show ?thesis by (simp add: VerifyPolicySignature_def)
qed

definition unsupported_lib :: crypto_lib where
  "unsupported_lib = sample_lib\<lparr>lib_parseCert := \<lambda>b. Inr ((sample_cert b)\<lparr>cert_PublicKey := Other_PublicKey ''dsa'' b\<rparr>)\<rparr>"

theorem nil_policy_verifier_panics_witness:
  "\<exists>msg. VerifyPolicySignature unsupported_lib sample_cert_lib (\<lambda>_. 0)
     (sample_signed_policy [sample_signature, cert_signature ''c'' []])
     (NewVerifyPolicySignatureOptions [VerifyWithPolicyVerifiers [Some (ECDSAVerifier ''k'' SHA256)]]) = Panic msg"
proof -
  let ?vo = "NewVerifyPolicySignatureOptions [VerifyWithPolicyVerifiers [Some (ECDSAVerifier ''k'' SHA256)]]"
  have "\<exists>e1 e2. Envelope_Verify unsupported_lib (\<lambda>_. 0) (sample_signed_policy [sample_signature, cert_signature ''c'' []])
      (envelope_options ?vo) =
     ([CheckedVerifier (Some (ECDSAVerifier ''k'' SHA256)) [] None, CheckedVerifier None [] (Some e1),
       CheckedVerifier (Some (ECDSAVerifier ''k'' SHA256)) [] (Some e2)], None)"
    by (simp add: Envelope_Verify_def envelope_options_fold NewVerifyPolicySignatureOptions_def
        VerifyWithPolicyVerifiers_def sample_signed_policy_def sample_signature_def cert_signature_def
        check_signature_def check_certificate_def TryParseCertificate_def TryParseKeyFromReader_def
        TryParseKeyFromReaderWithPassword_def TryParsePEMBlockWithPassword_def isSigstorePEMType_def
        parse_unencrypted_def verifyX509Time_def NewX509Verifier_def NewVerifier_def sample_cert_def
        unsupported_lib_def sample_lib_def Let_def preauthEncode_def)
  then obtain e1 e2 where "Envelope_Verify unsupported_lib (\<lambda>_. 0)
      (sample_signed_policy [sample_signature, cert_signature ''c'' []]) (envelope_options ?vo) =
     ([CheckedVerifier (Some (ECDSAVerifier ''k'' SHA256)) [] None, CheckedVerifier None [] (Some e1),
       CheckedVerifier (Some (ECDSAVerifier ''k'' SHA256)) [] (Some e2)], None)" by blast
  from nil_policy_verifier_panics [OF this, of "CheckedVerifier None [] (Some e1)"] show ?thesis
    by (simp add: unsupported_lib_def sample_lib_def GeneratePublicKeyID_def PublicPemBytes_def DigestBytes_def)
qed

end
