(* ===== verification/Attest_Context.thy ===== *)
theory Attest_Context
  imports Attestation Environment
begin

text \<open>
  The attestation context: \<open>attestation/context.go\<close> and \<open>attestation/context_env.go\<close>.

  The context holds the configuration and the results of a run. \<open>RunAttestors\<close> runs the attestors stage
  by stage; within a stage every attestor has a goroutine, and the goroutines take turns in an order the
  code does not determine. A goroutine is cut at its critical sections: one turn calls \<open>Attest\<close>, the next
  records the completion under the mutex, the next two add materials and products under the mutex. A
  schedule says whose turn it is; after the schedule the goroutines that are left finish one after the
  other, as \<open>wg.Wait\<close> demands, so every interleaving is the run of some schedule.

  \<open>attest\<close> is the method \<open>Attest\<close> of the attestors, a function from the attestor and the context it sees
  to the attestor (a pointer, so it may change) and an error; it may also panic, and a panic in a
  goroutine is the panic of the program. One call of \<open>Attest\<close> is one turn, so an \<open>Attest\<close> that waits for
  another attestor of its stage (through the hooks) is outside this model; \<open>Execute_Hooks\<close> has the waiting.
  \<open>now\<close> gives the clock, reading after reading.
\<close>

section \<open>The context\<close>

definition runTypeOrder :: "RunType list" where
  "runTypeOrder = [PreMaterialRunType, MaterialRunType, ExecuteRunType, ProductRunType, PostProductRunType]"

definition verifyTypeOrder :: "RunType list" where
  "verifyTypeOrder = [VerifyRunType]"

text \<open>A glob that did not compile is nil (\<open>None\<close>); a writer is known by a number.\<close>

record 'd AttestationContext =
  ac_attestors :: "'d attestor list"
  ac_workingDir :: string
  ac_dirHashGlob :: "string list"
  ac_dirHashGlobCompiled :: "(string \<Rightarrow> bool) option list"
  ac_hashes :: "digest_value list"
  ac_completedAttestors :: "'d CompletedAttestor list"
  ac_products :: "(string, Product) gomap"
  ac_materials :: "(string, digest_set) gomap"
  ac_stepName :: string
  ac_environmentCapturer :: Capture
  ac_outputWriters :: "nat list"
  ac_executeHooks :: ExecuteHooks

type_synonym 'd context_option = "'d AttestationContext \<Rightarrow> 'd AttestationContext"

definition WithOutputWriters :: "nat list \<Rightarrow> 'd context_option" where
  "WithOutputWriters w ctx = ctx\<lparr>ac_outputWriters := w\<rparr>"

definition WithHashes :: "digest_value list \<Rightarrow> 'd context_option" where
  "WithHashes hashes ctx = (if length hashes > 0 then ctx\<lparr>ac_hashes := hashes\<rparr> else ctx)"

definition WithWorkingDir :: "string \<Rightarrow> 'd context_option" where
  "WithWorkingDir workingDir ctx = (if workingDir \<noteq> [] then ctx\<lparr>ac_workingDir := workingDir\<rparr> else ctx)"

definition WithDirHashGlob :: "glob_lib \<Rightarrow> string list \<Rightarrow> 'd context_option" where
  "WithDirHashGlob glob_Compile dirHashGlob ctx =
     (if length dirHashGlob > 0
      then ctx\<lparr>ac_dirHashGlob := dirHashGlob,
               ac_dirHashGlobCompiled :=
                 map (\<lambda>item. case glob_Compile item of Inl err \<Rightarrow> None | Inr g \<Rightarrow> Some g) dirHashGlob\<rparr>
      else ctx)"

definition WithEnvCapturer :: "string list \<Rightarrow> string list \<Rightarrow> bool \<Rightarrow> bool \<Rightarrow> 'd context_option" where
  "WithEnvCapturer additionalKeys excludeKeys disableDefaultSensitiveVars filterVars ctx =
     ctx\<lparr>ac_environmentCapturer := environment_New
       ([WithAdditionalKeys additionalKeys, WithExcludeKeys excludeKeys]
        @ (if disableDefaultSensitiveVars then [WithDisableDefaultSensitiveList] else [])
        @ (if filterVars then [WithFilterVarsEnabled] else []))\<rparr>"

text \<open>The options of \<open>context_env.go\<close> change the capturer that is there.\<close>

definition WithEnvFilterVarsEnabled :: "'d context_option" where
  "WithEnvFilterVarsEnabled ctx =
     ctx\<lparr>ac_environmentCapturer := WithFilterVarsEnabled (ac_environmentCapturer ctx)\<rparr>"

definition WithEnvAdditionalKeys :: "string list \<Rightarrow> 'd context_option" where
  "WithEnvAdditionalKeys additionalKeys ctx =
     ctx\<lparr>ac_environmentCapturer := WithAdditionalKeys additionalKeys (ac_environmentCapturer ctx)\<rparr>"

definition WithEnvExcludeKeys :: "string list \<Rightarrow> 'd context_option" where
  "WithEnvExcludeKeys excludeKeys ctx =
     ctx\<lparr>ac_environmentCapturer := WithExcludeKeys excludeKeys (ac_environmentCapturer ctx)\<rparr>"

definition WithEnvDisableDefaultSensitiveList :: "'d context_option" where
  "WithEnvDisableDefaultSensitiveList ctx =
     ctx\<lparr>ac_environmentCapturer := WithDisableDefaultSensitiveList (ac_environmentCapturer ctx)\<rparr>"

definition NewContext ::
  "gerr + string \<Rightarrow> string \<Rightarrow> 'd attestor list \<Rightarrow> 'd context_option list \<Rightarrow> gerr + 'd AttestationContext" where
  "NewContext getwd stepName attestors opts =
     (case getwd of
        Inl err \<Rightarrow> Inl err
      | Inr wd \<Rightarrow>
          Inr (fold (\<lambda>opt ctx. opt ctx) opts
            \<lparr>ac_attestors = attestors, ac_workingDir = wd, ac_dirHashGlob = [], ac_dirHashGlobCompiled = [],
             ac_hashes = [plain_digest SHA256, gitoid_digest SHA256, gitoid_digest SHA1],
             ac_completedAttestors = [], ac_products = [], ac_materials = [], ac_stepName = stepName,
             ac_environmentCapturer = environment_New [], ac_outputWriters = [],
             ac_executeHooks = no_hooks\<rparr>))"

definition ctx_Materials :: "'d AttestationContext \<Rightarrow> (string, digest_set) gomap" where
  "ctx_Materials ctx = put_all (ac_materials ctx) []"

definition ctx_Products :: "'d AttestationContext \<Rightarrow> (string, Product) gomap" where
  "ctx_Products ctx = put_all (ac_products ctx) []"

definition addMaterials :: "(string, digest_set) gomap \<Rightarrow> 'd context_option" where
  "addMaterials newMats ctx = ctx\<lparr>ac_materials := put_all newMats (ac_materials ctx)\<rparr>"

definition addProducts :: "(string, Product) gomap \<Rightarrow> 'd context_option" where
  "addProducts newProds ctx = ctx\<lparr>ac_products := put_all newProds (ac_products ctx)\<rparr>"

section \<open>One stage\<close>

text \<open>A goroutine of \<open>runAttestor\<close>: before \<open>Attest\<close>, after it, after the completion was recorded, after the
  materials were added, and at its end.\<close>

datatype 'd goroutine =
    Starting "'d attestor"
  | Attested "'d attestor" gtime "gerr option"
  | Recorded "'d attestor"
  | Material_Added "'d attestor"
  | Finished
  | Crashed string

record 'd stage =
  sg_ctx :: "'d AttestationContext"
  sg_threads :: "'d goroutine list"
  sg_ticks :: nat

type_synonym 'd attest = "'d attestor \<Rightarrow> 'd AttestationContext \<Rightarrow> ('d attestor \<times> gerr option) outcome"

fun goroutine_turn ::
  "'d attest \<Rightarrow> (nat \<Rightarrow> gtime) \<Rightarrow> nat \<Rightarrow> 'd goroutine \<Rightarrow> 'd AttestationContext \<Rightarrow>
     'd goroutine \<times> 'd AttestationContext" where
  "goroutine_turn attest now tick (Starting attestor) ctx =
     (case attest attestor ctx of
        Return (attestor', err) \<Rightarrow> (Attested attestor' (now tick) err, ctx)
      | Panic msg \<Rightarrow> (Crashed msg, ctx))"
| "goroutine_turn attest now tick (Attested attestor startTime err) ctx =
     (if err = None then Recorded attestor else Finished,
      ctx\<lparr>ac_completedAttestors := ac_completedAttestors ctx @
        [\<lparr>cpl_Attestor = attestor, cpl_StartTime = startTime, cpl_EndTime = now tick, cpl_Error = err\<rparr>]\<rparr>)"
| "goroutine_turn attest now tick (Recorded attestor) ctx =
     (Material_Added attestor,
      case att_Materials attestor of None \<Rightarrow> ctx | Some mats \<Rightarrow> addMaterials mats ctx)"
| "goroutine_turn attest now tick (Material_Added attestor) ctx =
     (Finished, case att_Products attestor of None \<Rightarrow> ctx | Some prods \<Rightarrow> addProducts prods ctx)"
| "goroutine_turn attest now tick Finished ctx = (Finished, ctx)"
| "goroutine_turn attest now tick (Crashed msg) ctx = (Crashed msg, ctx)"

fun crash :: "'d goroutine \<Rightarrow> string option" where
  "crash (Crashed msg) = Some msg"
| "crash _ = None"

definition turn :: "'d attest \<Rightarrow> (nat \<Rightarrow> gtime) \<Rightarrow> nat \<Rightarrow> 'd stage \<Rightarrow> 'd stage" where
  "turn attest now i sg =
     (if i < length (sg_threads sg)
      then (let (g, ctx) = goroutine_turn attest now (sg_ticks sg) (sg_threads sg ! i) (sg_ctx sg)
            in sg\<lparr>sg_ctx := ctx, sg_threads := (sg_threads sg)[i := g], sg_ticks := Suc (sg_ticks sg)\<rparr>)
      else sg)"

definition run_stage ::
  "'d attest \<Rightarrow> (nat \<Rightarrow> gtime) \<Rightarrow> nat list \<Rightarrow> 'd attestor list \<Rightarrow> 'd AttestationContext \<Rightarrow> nat \<Rightarrow>
     ('d AttestationContext \<times> nat) outcome" where
  "run_stage attest now schedule atts ctx ticks =
     (let sg = fold (turn attest now) (schedule @ concat (map (replicate 4) [0..<length atts]))
            \<lparr>sg_ctx = ctx, sg_threads = map Starting atts, sg_ticks = ticks\<rparr>
      in case List.map_filter crash (sg_threads sg) of
           msg # _ \<Rightarrow> Panic msg
         | [] \<Rightarrow> Return (sg_ctx sg, sg_ticks sg))"

section \<open>All stages\<close>

definition group_attestors ::
  "'d attestor list \<Rightarrow> gerr + (RunType, 'd attestor list) gomap" where
  "group_attestors attestors =
     foldE (\<lambda>attestor m.
         if att_RunType attestor = []
         then Inl (ErrAttestor (att_Name attestor) (att_RunType attestor) ''attestor run type not set'')
         else Inr (AList.update (att_RunType attestor)
                ((case map_of m (att_RunType attestor) of None \<Rightarrow> [] | Some as \<Rightarrow> as) @ [attestor]) m))
       attestors []"

definition attestors_of :: "(RunType, 'd attestor list) gomap \<Rightarrow> RunType \<Rightarrow> 'd attestor list" where
  "attestors_of m k = (case map_of m k of None \<Rightarrow> [] | Some as \<Rightarrow> as)"

text \<open>Phase 1 of a stage: declaring hooks in the execute stage, and refusing declarers in any other.\<close>

primrec declare_hooks :: "'d attestor list \<Rightarrow> ExecuteHooks \<Rightarrow> ExecuteHooks \<times> gerr option" where
  "declare_hooks [] h = (h, None)"
| "declare_hooks (att # atts) h =
     (case att_DeclareHooks att of
        None \<Rightarrow> declare_hooks atts h
      | Some declare_fn \<Rightarrow>
          (case declare_fn h of
             (h', Some err) \<Rightarrow>
               (h', Some (Errorf ''attestor %s failed to declare hooks: %w'' [FStr (att_Name att), FErr err]))
           | (h', None) \<Rightarrow> declare_hooks atts h'))"

definition refuse_hooks :: "RunType \<Rightarrow> 'd attestor list \<Rightarrow> gerr option" where
  "refuse_hooks k atts =
     map_option (\<lambda>att. Errorf ''attestor %s of run type %s cannot declare execute hooks''
         [FStr (att_Name att), FStr k])
       (List.find (\<lambda>att. att_DeclareHooks att \<noteq> None) atts)"

primrec run_stages ::
  "'d attest \<Rightarrow> (nat \<Rightarrow> gtime) \<Rightarrow> (RunType \<Rightarrow> nat list) \<Rightarrow> (RunType, 'd attestor list) gomap \<Rightarrow> RunType list \<Rightarrow>
     'd AttestationContext \<Rightarrow> nat \<Rightarrow> ('d AttestationContext \<times> gerr option) outcome" where
  "run_stages attest now schedule attestors [] ctx ticks = Return (ctx, None)"
| "run_stages attest now schedule attestors (k # ks) ctx ticks =
     (let (ctx, err) =
            (if k = ExecuteRunType
             then (let (h, err) = declare_hooks (attestors_of attestors k) (ac_executeHooks ctx)
                   in (ctx\<lparr>ac_executeHooks := h\<rparr>, err))
             else (ctx, refuse_hooks k (attestors_of attestors k)))
      in case err of
           Some e \<Rightarrow> Return (ctx, Some e)
         | None \<Rightarrow>
             bindO (run_stage attest now (schedule k) (attestors_of attestors k) ctx ticks)
               (\<lambda>(ctx, ticks). run_stages attest now schedule attestors ks ctx ticks))"

definition RunAttestors ::
  "'d attest \<Rightarrow> (nat \<Rightarrow> gtime) \<Rightarrow> (RunType \<Rightarrow> nat list) \<Rightarrow> 'd AttestationContext \<Rightarrow>
     ('d AttestationContext \<times> gerr option) outcome" where
  "RunAttestors attest now schedule ctx =
     (case group_attestors (ac_attestors ctx) of
        Inl err \<Rightarrow> Return (ctx, Some err)
      | Inr attestors \<Rightarrow>
          if map_of attestors VerifyRunType \<noteq> None \<and> length attestors > 1
          then Return (ctx, Some (Errorf
                 ''attestors of type %s cannot be run in conjunction with other attestor types''
                 [FStr VerifyRunType]))
          else run_stages attest now schedule attestors
                 (if map_of attestors VerifyRunType \<noteq> None then verifyTypeOrder else runTypeOrder) ctx 0)"

section \<open>Lemmas: one stage\<close>

text \<open>A goroutine belongs to an attestor: what it still has to do follows from what the attestor did.\<close>

fun belongs :: "'d attest \<Rightarrow> 'd attestor \<Rightarrow> 'd goroutine \<Rightarrow> bool" where
  "belongs attest a (Starting b) = (b = a)"
| "belongs attest a (Attested b t err) = (\<exists>c. attest a c = Return (b, err))"
| "belongs attest a _ = True"

fun recorded :: "'d goroutine \<Rightarrow> bool" where
  "recorded (Starting a) = False"
| "recorded (Attested a t err) = False"
| "recorded (Crashed msg) = False"
| "recorded _ = True"

definition completes :: "'d attest \<Rightarrow> 'd attestor \<Rightarrow> 'd CompletedAttestor \<Rightarrow> bool" where
  "completes attest a cpl \<longleftrightarrow> (\<exists>c. attest a c = Return (cpl_Attestor cpl, cpl_Error cpl))"

text \<open>The invariant of a stage: the completions recorded since its start are those of the goroutines that
  got that far, each once, in some order.\<close>

definition stage_inv ::
  "'d attest \<Rightarrow> 'd attestor list \<Rightarrow> 'd CompletedAttestor list \<Rightarrow> 'd stage \<Rightarrow> bool" where
  "stage_inv attest atts before sg \<longleftrightarrow>
     length (sg_threads sg) = length atts \<and>
     (\<forall>i < length atts. belongs attest (atts ! i) (sg_threads sg ! i)) \<and>
     (\<exists>ix new. ac_completedAttestors (sg_ctx sg) = before @ new \<and> distinct ix \<and>
        set ix = {i. i < length atts \<and> recorded (sg_threads sg ! i)} \<and>
        list_all2 (\<lambda>i. completes attest (atts ! i)) ix new)"

lemma stage_inv_start:
  "stage_inv attest atts (ac_completedAttestors ctx) \<lparr>sg_ctx = ctx, sg_threads = map Starting atts, sg_ticks = t\<rparr>"
  by (auto simp: stage_inv_def intro: exI [of _ "[]"])

lemma goroutine_turn_quiet:
  assumes "goroutine_turn attest now t g ctx = (g', ctx')" and "\<nexists>a s e. g = Attested a s e"
  shows "recorded g' = recorded g \<and> ac_completedAttestors ctx' = ac_completedAttestors ctx \<and>
    (belongs attest a g \<longrightarrow> belongs attest a g')"
  using assms
  by (cases g) (auto simp: addMaterials_def addProducts_def split: prod.splits option.splits outcome.splits)

lemma turn_inv:
  assumes "stage_inv attest atts before sg"
  shows "stage_inv attest atts before (turn attest now i sg)"
proof (cases "i < length (sg_threads sg)")
  case False
  with assms show ?thesis by (simp add: turn_def)
next
  case True
  obtain g ctx where g: "goroutine_turn attest now (sg_ticks sg) (sg_threads sg ! i) (sg_ctx sg) = (g, ctx)"
    by fastforce
  have sg': "turn attest now i sg =
      sg\<lparr>sg_ctx := ctx, sg_threads := (sg_threads sg)[i := g], sg_ticks := Suc (sg_ticks sg)\<rparr>"
    using True g by (simp add: turn_def)
  from assms obtain ix new where len: "length (sg_threads sg) = length atts"
    and bel: "\<forall>i < length atts. belongs attest (atts ! i) (sg_threads sg ! i)"
    and new: "ac_completedAttestors (sg_ctx sg) = before @ new" and ix: "distinct ix"
    and set: "set ix = {i. i < length atts \<and> recorded (sg_threads sg ! i)}"
    and all: "list_all2 (\<lambda>i. completes attest (atts ! i)) ix new"
    by (auto simp: stage_inv_def)
  have nth: "(sg_threads sg)[i := g] ! j = (if j = i then g else sg_threads sg ! j)" if "j < length atts" for j
    using that len by (simp add: nth_list_update)
  show ?thesis
  proof (cases "\<exists>a s e. sg_threads sg ! i = Attested a s e")
    case False
    from goroutine_turn_quiet [OF g False, of "atts ! i"] True len bel
    have rec: "recorded g = recorded (sg_threads sg ! i)" and "ac_completedAttestors ctx = before @ new"
      and "belongs attest (atts ! i) g" by (auto simp: new)
    moreover have "set ix = {j. j < length atts \<and> recorded ((sg_threads sg)[i := g] ! j)}"
      using set rec nth by (auto split: if_splits)
    ultimately show ?thesis using len bel ix all nth by (auto simp: stage_inv_def sg')
  next
    case True
    then obtain a s e where at: "sg_threads sg ! i = Attested a s e" by blast
    with g have fin: "recorded g" and comp: "ac_completedAttestors ctx = before @ new @
        [\<lparr>cpl_Attestor = a, cpl_StartTime = s, cpl_EndTime = now (sg_ticks sg), cpl_Error = e\<rparr>]"
      by (auto simp: new)
    from \<open>i < length (sg_threads sg)\<close> len have i: "i < length atts" by simp
    with bel at have "belongs attest (atts ! i) (Attested a s e)" by metis
    then have "completes attest (atts ! i)
        \<lparr>cpl_Attestor = a, cpl_StartTime = s, cpl_EndTime = now (sg_ticks sg), cpl_Error = e\<rparr>"
      by (simp add: completes_def)
    with all have "list_all2 (\<lambda>i. completes attest (atts ! i)) (ix @ [i]) (new @
        [\<lparr>cpl_Attestor = a, cpl_StartTime = s, cpl_EndTime = now (sg_ticks sg), cpl_Error = e\<rparr>])"
      by (simp add: list_all2_appendI)
    moreover have "i \<notin> set ix" using set at by simp
    moreover have "set (ix @ [i]) = {j. j < length atts \<and> recorded ((sg_threads sg)[i := g] ! j)}"
      using set i nth fin by auto
    moreover have "belongs attest (atts ! j) ((sg_threads sg)[i := g] ! j)" if "j < length atts" for j
      using bel nth [OF that] that fin by (cases g) auto
    ultimately show ?thesis
      unfolding stage_inv_def sg' using len ix comp by (intro conjI exI [of _ "ix @ [i]"]) auto
  qed
qed

lemma turns_inv:
  "stage_inv attest atts before sg \<Longrightarrow> stage_inv attest atts before (fold (turn attest now) is sg)"
  by (induction "is" arbitrary: sg) (simp_all add: turn_inv)

text \<open>Four turns finish a goroutine, and no turn undoes this.\<close>

fun remaining :: "'d goroutine \<Rightarrow> nat" where
  "remaining (Starting a) = 4"
| "remaining (Attested a t err) = 3"
| "remaining (Recorded a) = 2"
| "remaining (Material_Added a) = 1"
| "remaining Finished = 0"
| "remaining (Crashed msg) = 0"

lemma goroutine_turn_remaining:
  "remaining (fst (goroutine_turn attest now t g ctx)) \<le> remaining g - 1"
  by (cases g) (auto split: prod.splits outcome.splits)

lemma turn_remaining:
  assumes "j < length (sg_threads sg)"
  shows "remaining (sg_threads (turn attest now i sg) ! j) \<le> remaining (sg_threads sg ! j) - (if i = j then 1 else 0) \<and>
    length (sg_threads (turn attest now i sg)) = length (sg_threads sg)"
  using goroutine_turn_remaining [of attest now "sg_ticks sg" "sg_threads sg ! j" "sg_ctx sg"] assms
  by (auto simp: turn_def Let_def case_prod_unfold nth_list_update)

lemma turns_remaining:
  assumes "j < length (sg_threads sg)"
  shows "remaining (sg_threads (fold (turn attest now) is sg) ! j) \<le> remaining (sg_threads sg ! j) - count_list is j \<and>
    length (sg_threads (fold (turn attest now) is sg)) = length (sg_threads sg)"
  using assms
proof (induction "is" arbitrary: sg)
  case Nil
  then show ?case by simp
next
  case (Cons i "is")
  from turn_remaining [OF Cons.prems, of attest now i] Cons.IH [of "turn attest now i sg"] Cons.prems
  show ?case by (auto split: if_splits)
qed

lemma remaining_le_4: "remaining g \<le> 4"
  by (cases g) auto

lemma remaining_0 [simp]: "remaining g = 0 \<longleftrightarrow> g = Finished \<or> crash g \<noteq> None"
  by (cases g) auto

lemma count_replicate_turns: "j < n \<Longrightarrow> 4 \<le> count_list (concat (map (replicate 4) [0..<n])) j"
  by (induction n) (auto simp: less_Suc_eq numeral_eq_Suc)

lemma run_stage_completes:
  assumes "run_stage attest now schedule atts ctx ticks = Return (ctx', ticks')"
  shows "\<exists>ix new. ac_completedAttestors ctx' = ac_completedAttestors ctx @ new \<and>
    distinct ix \<and> set ix = {..<length atts} \<and> list_all2 (\<lambda>i. completes attest (atts ! i)) ix new"
proof -
  let ?s0 = "\<lparr>sg_ctx = ctx, sg_threads = map Starting atts, sg_ticks = ticks\<rparr>"
  let ?turns = "schedule @ concat (map (replicate 4) [0..<length atts])"
  let ?sg = "fold (turn attest now) ?turns ?s0"
  have inv: "stage_inv attest atts (ac_completedAttestors ctx) ?sg"
    by (rule turns_inv [OF stage_inv_start])
  from assms have calm: "\<forall>g \<in> set (sg_threads ?sg). crash g = None" and ctx': "sg_ctx ?sg = ctx'"
    by (auto simp: run_stage_def Let_def map_filter_def filter_empty_conv split: list.splits)
  have len: "length (sg_threads ?sg) = length atts" using inv by (simp add: stage_inv_def)
  have "recorded (sg_threads ?sg ! j)" if "j < length atts" for j
  proof -
    have "4 \<le> count_list ?turns j" using count_replicate_turns [OF that] by simp
    with turns_remaining [of j ?s0 attest now ?turns] remaining_le_4 [of "sg_threads ?s0 ! j"] that
    have "remaining (sg_threads ?sg ! j) = 0" by simp
    moreover have "crash (sg_threads ?sg ! j) = None" using calm len that by simp
    ultimately show ?thesis by simp
  qed
  with inv have "\<exists>ix new. ac_completedAttestors (sg_ctx ?sg) = ac_completedAttestors ctx @ new \<and>
    distinct ix \<and> set ix = {..<length atts} \<and> list_all2 (\<lambda>i. completes attest (atts ! i)) ix new"
    unfolding stage_inv_def by (auto simp: lessThan_def) blast
  with ctx' show ?thesis by simp
qed

section \<open>Lemmas: all stages\<close>

text \<open>A list of completions is that of a stage: one for each of its attestors, in some order.\<close>

definition stage_complete :: "'d attest \<Rightarrow> 'd attestor list \<Rightarrow> 'd CompletedAttestor list \<Rightarrow> bool" where
  "stage_complete attest atts new \<longleftrightarrow>
     (\<exists>ix. distinct ix \<and> set ix = {..<length atts} \<and> list_all2 (\<lambda>i. completes attest (atts ! i)) ix new)"

lemma stage_complete_length: "stage_complete attest atts new \<Longrightarrow> length new = length atts"
  unfolding stage_complete_def by (metis card_lessThan distinct_card list_all2_lengthD)

lemma stage_complete_Nil [simp]: "stage_complete attest [] new \<longleftrightarrow> new = []"
  using stage_complete_length by (force simp: stage_complete_def)

lemma group_attestors_loop:
  assumes "foldE (\<lambda>attestor m.
         if att_RunType attestor = []
         then Inl (ErrAttestor (att_Name attestor) (att_RunType attestor) ''attestor run type not set'')
         else Inr (AList.update (att_RunType attestor)
                ((case map_of m (att_RunType attestor) of None \<Rightarrow> [] | Some as \<Rightarrow> as) @ [attestor]) m))
       atts m = Inr m'"
  shows "attestors_of m' k = attestors_of m k @ filter (\<lambda>a. att_RunType a = k) atts \<and>
    fst ` set m' = fst ` set m \<union> att_RunType ` set atts \<and> [] \<notin> att_RunType ` set atts"
  using assms
proof (induction atts arbitrary: m)
  case Nil
  then show ?case by simp
next
  case (Cons a atts)
  then have a: "att_RunType a \<noteq> []" by (auto split: if_splits)
  from Cons.prems a show ?case
    by (simp, drule_tac Cons.IH) (auto simp: attestors_of_def update_conv dom_update)
qed

lemma group_attestors_result:
  assumes "group_attestors atts = Inr m"
  shows "attestors_of m k = filter (\<lambda>a. att_RunType a = k) atts" and "fst ` set m = att_RunType ` set atts"
    and "[] \<notin> att_RunType ` set atts"
  using group_attestors_loop [OF assms [unfolded group_attestors_def], of k] by (simp_all add: attestors_of_def)

lemma group_attestors_total:
  assumes "[] \<notin> att_RunType ` set atts"
  shows "\<exists>m. group_attestors atts = Inr m"
proof -
  have "\<exists>m'. foldE (\<lambda>attestor m.
         if att_RunType attestor = []
         then Inl (ErrAttestor (att_Name attestor) (att_RunType attestor) ''attestor run type not set'')
         else Inr (AList.update (att_RunType attestor)
                ((case map_of m (att_RunType attestor) of None \<Rightarrow> [] | Some as \<Rightarrow> as) @ [attestor]) m))
       atts m = Inr m'" for m
    using assms by (induction atts arbitrary: m) (auto simp: image_iff)
  then show ?thesis by (simp add: group_attestors_def)
qed

lemma run_stages_complete:
  assumes "run_stages attest now schedule m ks ctx ticks = Return (ctx', None)"
  shows "\<exists>stages. ac_completedAttestors ctx' = ac_completedAttestors ctx @ concat stages \<and>
    list_all2 (\<lambda>k. stage_complete attest (attestors_of m k)) ks stages"
  using assms
proof (induction ks arbitrary: ctx ticks)
  case Nil
  then show ?case by simp
next
  case (Cons k ks)
  obtain ctx1 err where pre: "(if k = ExecuteRunType
             then (let (h, err) = declare_hooks (attestors_of m k) (ac_executeHooks ctx)
                   in (ctx\<lparr>ac_executeHooks := h\<rparr>, err))
             else (ctx, refuse_hooks k (attestors_of m k))) = (ctx1, err)" by fastforce
  from pre have same: "ac_completedAttestors ctx1 = ac_completedAttestors ctx"
    by (auto split: if_splits prod.splits)
  from Cons.prems pre have "err = None" by (cases err) simp_all
  with Cons.prems pre obtain ctx2 ticks2 where
    stage: "run_stage attest now (schedule k) (attestors_of m k) ctx1 ticks = Return (ctx2, ticks2)" and
    rest: "run_stages attest now schedule m ks ctx2 ticks2 = Return (ctx', None)" by auto
  from run_stage_completes [OF stage] obtain new where
    new: "ac_completedAttestors ctx2 = ac_completedAttestors ctx @ new" "stage_complete attest (attestors_of m k) new"
    unfolding stage_complete_def same by blast
  from Cons.IH [OF rest] obtain stages where
    "ac_completedAttestors ctx' = ac_completedAttestors ctx2 @ concat stages"
    "list_all2 (\<lambda>k. stage_complete attest (attestors_of m k)) ks stages" by blast
  with new show ?case by (intro exI [of _ "new # stages"]) simp
qed

definition stage_order :: "'d attestor list \<Rightarrow> RunType list" where
  "stage_order atts = (if VerifyRunType \<in> att_RunType ` set atts then verifyTypeOrder else runTypeOrder)"

lemma RunAttestors_complete:
  assumes "RunAttestors attest now schedule ctx = Return (ctx', None)"
  shows "\<exists>stages. ac_completedAttestors ctx' = ac_completedAttestors ctx @ concat stages \<and>
    list_all2 (\<lambda>k. stage_complete attest (filter (\<lambda>a. att_RunType a = k) (ac_attestors ctx)))
      (stage_order (ac_attestors ctx)) stages"
proof -
  from assms obtain m where m: "group_attestors (ac_attestors ctx) = Inr m"
    by (auto simp: RunAttestors_def split: sum.splits)
  have "map_of m VerifyRunType \<noteq> None \<longleftrightarrow> VerifyRunType \<in> att_RunType ` set (ac_attestors ctx)"
    by (simp only: map_of_None_iff group_attestors_result(2) [OF m] not_not)
  with assms m have "run_stages attest now schedule m (stage_order (ac_attestors ctx)) ctx 0 = Return (ctx', None)"
    by (auto simp: RunAttestors_def stage_order_def split: if_splits)
  from run_stages_complete [OF this] show ?thesis by (simp only: group_attestors_result(1) [OF m])
qed

text \<open>A run without hook declarers and without a verifying attestor cannot be refused.\<close>

lemma declare_hooks_none: "\<forall>a \<in> set atts. att_DeclareHooks a = None \<Longrightarrow> declare_hooks atts h = (h, None)"
  by (induction atts) simp_all

lemma refuse_hooks_none: "\<forall>a \<in> set atts. att_DeclareHooks a = None \<Longrightarrow> refuse_hooks k atts = None"
  by (auto simp: refuse_hooks_def find_None_iff)

text \<open>A goroutine that has not crashed and whose \<open>Attest\<close> does not panic.\<close>

definition no_panic :: "'d attest \<Rightarrow> 'd attestor \<Rightarrow> bool" where
  "no_panic attest a \<longleftrightarrow> (\<forall>c. \<exists>r. attest a c = Return r)"

fun calm :: "'d attest \<Rightarrow> 'd goroutine \<Rightarrow> bool" where
  "calm attest (Starting a) = no_panic attest a"
| "calm attest g = (crash g = None)"

lemma calm_crash: "calm attest g \<Longrightarrow> crash g = None"
  by (cases g) auto

lemma goroutine_turn_calm:
  assumes "calm attest g"
  shows "calm attest (fst (goroutine_turn attest now t g c))"
proof (cases g)
  case (Starting a)
  with assms obtain r where "attest a c = Return r" by (metis calm.simps(1) no_panic_def)
  then show ?thesis by (simp add: Starting case_prod_unfold)
qed (use assms in simp_all)

lemma turn_calm:
  assumes "\<forall>g \<in> set (sg_threads sg). calm attest g"
  shows "\<forall>g \<in> set (sg_threads (turn attest now i sg)). calm attest g"
proof (cases "i < length (sg_threads sg)")
  case False
  with assms show ?thesis by (simp add: turn_def)
next
  case True
  then have "calm attest (fst (goroutine_turn attest now (sg_ticks sg) (sg_threads sg ! i) (sg_ctx sg)))"
    using assms by (simp add: goroutine_turn_calm)
  moreover have "sg_threads (turn attest now i sg) = (sg_threads sg)
      [i := fst (goroutine_turn attest now (sg_ticks sg) (sg_threads sg ! i) (sg_ctx sg))]"
    using True by (simp add: turn_def case_prod_unfold Let_def)
  ultimately show ?thesis using assms
    by (metis (no_types, lifting) insertE set_update_subset_insert subset_eq)
qed

lemma turns_calm:
  assumes "\<forall>g \<in> set (sg_threads sg). calm attest g"
  shows "\<forall>g \<in> set (sg_threads (fold (turn attest now) is sg)). calm attest g"
  using assms
proof (induction "is" arbitrary: sg)
  case Nil
  then show ?case by simp
next
  case (Cons i "is")
  show ?case unfolding fold_simps by (rule Cons.IH [OF turn_calm [OF Cons.prems]])
qed

lemma run_stage_calm:
  assumes "\<forall>a \<in> set atts. no_panic attest a"
  shows "\<exists>r. run_stage attest now schedule atts ctx t = Return r"
proof -
  define turns where "turns = schedule @ concat (map (replicate 4) [0..<length atts])"
  define sg where "sg = fold (turn attest now) turns \<lparr>sg_ctx = ctx, sg_threads = map Starting atts, sg_ticks = t\<rparr>"
  have "\<forall>g \<in> set (sg_threads sg). calm attest g"
    unfolding sg_def by (rule turns_calm) (use assms in simp)
  then have "\<forall>g \<in> set (sg_threads sg). crash g = None" using calm_crash by blast
  then have "List.map_filter crash (sg_threads sg) = []" by (simp add: map_filter_def filter_empty_conv)
  then show ?thesis unfolding run_stage_def turns_def [symmetric] sg_def [symmetric] Let_def by simp
qed

lemma run_stages_succeed:
  assumes "\<And>k a. k \<in> set ks \<Longrightarrow> a \<in> set (attestors_of m k) \<Longrightarrow>
      att_DeclareHooks a = None \<and> no_panic attest a"
  shows "\<exists>ctx'. run_stages attest now schedule m ks ctx t = Return (ctx', None)"
  using assms
proof (induction ks arbitrary: ctx t)
  case Nil
  then show ?case by simp
next
  case (Cons k ks)
  from Cons.prems have "\<forall>a \<in> set (attestors_of m k). att_DeclareHooks a = None"
    and "\<forall>a \<in> set (attestors_of m k). no_panic attest a" by auto
  moreover have "\<exists>ctx'. run_stages attest now schedule m ks c t' = Return (ctx', None)" for c t'
    using Cons.prems by (intro Cons.IH) auto
  moreover obtain c t' where "run_stage attest now (schedule k) (attestors_of m k) ctx t = Return (c, t')"
    using run_stage_calm by (metis surj_pair calculation(2))
  ultimately show ?case by (cases "k = ExecuteRunType") (simp_all add: declare_hooks_none refuse_hooks_none)
qed

lemma RunAttestors_succeeds:
  assumes "\<And>a. a \<in> set (ac_attestors ctx) \<Longrightarrow> att_RunType a \<noteq> [] \<and> att_RunType a \<noteq> VerifyRunType"
    and "\<And>a. a \<in> set (ac_attestors ctx) \<Longrightarrow> att_RunType a \<in> set runTypeOrder \<Longrightarrow>
      att_DeclareHooks a = None \<and> no_panic attest a"
  shows "\<exists>ctx'. RunAttestors attest now schedule ctx = Return (ctx', None)"
proof -
  from assms(1) have "[] \<notin> att_RunType ` set (ac_attestors ctx)" by force
  then obtain m where m: "group_attestors (ac_attestors ctx) = Inr m" using group_attestors_total by blast
  from assms(1) have "\<forall>a \<in> set (ac_attestors ctx). att_RunType a \<noteq> VerifyRunType" by blast
  then have "VerifyRunType \<notin> fst ` set m" unfolding group_attestors_result(2) [OF m] by force
  then have "map_of m VerifyRunType = None" by (simp add: map_of_eq_None_iff)
  then have "RunAttestors attest now schedule ctx = run_stages attest now schedule m runTypeOrder ctx 0"
    using m by (simp add: RunAttestors_def)
  moreover have "\<exists>ctx'. run_stages attest now schedule m runTypeOrder ctx 0 = Return (ctx', None)"
    by (rule run_stages_succeed) (auto simp: group_attestors_result(1) [OF m] assms(2))
  ultimately show ?thesis by simp
qed

section \<open>Properties\<close>

text \<open>C27. A successful run completes every attestor of every stage exactly once, whatever the scheduling:
  the completed attestors are the concatenation, in the order of the stages, of one list per stage, which
  holds one completion for each attestor of the stage, with the attestor and error that its \<open>Attest\<close>
  returned.\<close>

theorem RunAttestors_stages:
  assumes "RunAttestors attest now schedule ctx = Return (ctx', None)"
  shows "\<exists>stages. ac_completedAttestors ctx' = ac_completedAttestors ctx @ concat stages \<and>
    list_all2 (\<lambda>k new. \<exists>ix. distinct ix \<and>
        set ix = {..<length (filter (\<lambda>a. att_RunType a = k) (ac_attestors ctx))} \<and>
        list_all2 (\<lambda>i cpl. \<exists>c. attest (filter (\<lambda>a. att_RunType a = k) (ac_attestors ctx) ! i) c =
          Return (cpl_Attestor cpl, cpl_Error cpl)) ix new)
      (if VerifyRunType \<in> att_RunType ` set (ac_attestors ctx) then verifyTypeOrder else runTypeOrder) stages"
  using RunAttestors_complete [OF assms]
  unfolding stage_complete_def [abs_def] completes_def [abs_def] stage_order_def .

definition sample_context :: "unit attestor list \<Rightarrow> unit AttestationContext" where
  "sample_context atts = projr (NewContext (Inr ''wd'') ''build'' atts [])"

theorem RunAttestors_stages_witness:
  "\<exists>ctx' stages. RunAttestors (\<lambda>a c. Return (a, None)) (\<lambda>_. 0) (\<lambda>_. [0, 0])
       (sample_context [sample_attestor ''m'' None None]) = Return (ctx', None) \<and>
     ac_completedAttestors ctx' = concat stages \<and> length stages = 5"
proof -
  let ?ctx = "sample_context [sample_attestor ''m'' None None]"
  have atts: "ac_attestors ?ctx = [sample_attestor ''m'' None None]" and none: "ac_completedAttestors ?ctx = []"
    by (simp_all add: sample_context_def NewContext_def)
  have type: "att_RunType (sample_attestor ''m'' None None :: unit attestor) = MaterialRunType"
    by (simp add: sample_attestor_def)
  have verify: "VerifyRunType \<noteq> MaterialRunType" by (simp add: MaterialRunType_def VerifyRunType_def)
  have "\<exists>ctx'. RunAttestors (\<lambda>a c. Return (a, None)) (\<lambda>_. 0) (\<lambda>_. [0, 0]) ?ctx = Return (ctx', None)"
    by (rule RunAttestors_succeeds)
      (simp_all only: atts, simp_all add: sample_attestor_def MaterialRunType_def VerifyRunType_def no_panic_def)
  then obtain ctx' where res: "RunAttestors (\<lambda>a c. Return (a, None)) (\<lambda>_. 0) (\<lambda>_. [0, 0]) ?ctx = Return (ctx', None)" by blast
  from RunAttestors_stages [OF res] obtain stages where
    "ac_completedAttestors ctx' = concat stages" and "length stages = length runTypeOrder"
    unfolding atts none using verify type by (auto dest!: list_all2_lengthD)
  with res show ?thesis by (auto simp: runTypeOrder_def)
qed

text \<open>An attestor that verifies is never run together with others: when both are configured the run is
  refused before any attestor is called.\<close>

theorem verify_runs_alone:
  assumes "a \<in> set (ac_attestors ctx)" and "att_RunType a = VerifyRunType"
    and "b \<in> set (ac_attestors ctx)" and "att_RunType b \<noteq> VerifyRunType"
  shows "\<exists>err. RunAttestors attest now schedule ctx = Return (ctx, Some err)"
proof (cases "group_attestors (ac_attestors ctx)")
  case (Inl err)
  then show ?thesis by (simp add: RunAttestors_def)
next
  case (Inr m)
  note keys = group_attestors_result(2) [OF Inr]
  from assms(1,2) have v: "VerifyRunType \<in> fst ` set m" unfolding keys by force
  from assms(3) have w: "att_RunType b \<in> fst ` set m" unfolding keys by simp
  have "length m \<noteq> 1"
  proof
    assume "length m = 1"
    then obtain e where "m = [e]" by (cases m) auto
    with v w assms(4) show False by simp
  qed
  with v have "length m > 1" by (cases m; cases "tl m") auto
  moreover from v have "map_of m VerifyRunType \<noteq> None" by (simp only: map_of_None_iff not_not)
  ultimately show ?thesis using Inr by (simp add: RunAttestors_def)
qed

theorem verify_runs_alone_witness:
  "\<exists>err. RunAttestors (\<lambda>a c. Return (a, None)) (\<lambda>_. 0) (\<lambda>_. [])
     (sample_context [sample_attestor ''m'' None None,
        Attestor ''v'' ''v'' VerifyRunType None None None None None None None None ()]) =
     Return (sample_context [sample_attestor ''m'' None None,
        Attestor ''v'' ''v'' VerifyRunType None None None None None None None None ()], Some err)"
  by (rule verify_runs_alone [of "Attestor ''v'' ''v'' VerifyRunType None None None None None None None None ()" _
        "sample_attestor ''m'' None None"])
    (simp_all add: sample_context_def NewContext_def sample_attestor_def MaterialRunType_def VerifyRunType_def)

text \<open>An attestor whose run type is set but is none of the known ones is skipped without an error: a run
  of such attestors alone succeeds with no attestor completed, whatever the attestors are.\<close>

theorem unknown_run_type_skipped:
  assumes "\<forall>a \<in> set (ac_attestors ctx). att_RunType a \<noteq> [] \<and> att_RunType a \<noteq> VerifyRunType \<and>
      att_RunType a \<notin> set runTypeOrder"
  shows "\<exists>ctx'. RunAttestors attest now schedule ctx = Return (ctx', None) \<and>
    ac_completedAttestors ctx' = ac_completedAttestors ctx"
proof -
  have "\<exists>ctx'. RunAttestors attest now schedule ctx = Return (ctx', None)"
    by (rule RunAttestors_succeeds) (use assms in auto)
  then obtain ctx' where ctx': "RunAttestors attest now schedule ctx = Return (ctx', None)" by blast
  have "\<forall>k \<in> set runTypeOrder. filter (\<lambda>a. att_RunType a = k) (ac_attestors ctx) = []"
    using assms by (auto simp: filter_empty_conv)
  moreover have "stage_order (ac_attestors ctx) = runTypeOrder"
    using assms by (auto simp: stage_order_def)
  moreover obtain stages where "ac_completedAttestors ctx' = ac_completedAttestors ctx @ concat stages"
    "list_all2 (\<lambda>k. stage_complete attest (filter (\<lambda>a. att_RunType a = k) (ac_attestors ctx)))
      (stage_order (ac_attestors ctx)) stages" using RunAttestors_complete [OF ctx'] by blast
  ultimately have "\<forall>new \<in> set stages. new = []" and "ac_completedAttestors ctx' = ac_completedAttestors ctx @ concat stages"
    by (auto simp: list_all2_conv_all_nth in_set_conv_nth) (metis nth_mem stage_complete_Nil)
  then show ?thesis using ctx' by (auto simp: concat_eq_Nil_conv)
qed

theorem unknown_run_type_skipped_witness:
  "\<exists>ctx'. RunAttestors (\<lambda>a c. Return (a, None)) (\<lambda>_. 0) (\<lambda>_. [])
     (sample_context [Attestor ''x'' ''x'' ''exceute'' None None None None None None None None ()]) = Return (ctx', None) \<and>
     ac_completedAttestors ctx' = []"
  using unknown_run_type_skipped
    [of "sample_context [Attestor ''x'' ''x'' ''exceute'' None None None None None None None None ()]"
      "\<lambda>a c. Return (a, None)" "\<lambda>_. 0" "\<lambda>_. []"]
  by (simp add: sample_context_def NewContext_def runTypeOrder_def PreMaterialRunType_def MaterialRunType_def
      ExecuteRunType_def ProductRunType_def PostProductRunType_def VerifyRunType_def)

end
