(* ===== verification/Policy_Verify_Attestor.thy ===== *)
theory Policy_Verify_Attestor
  imports Policy_Correct Policy_Signature Attest_Context
begin

text \<open>
  The attestor that verifies a policy: \<open>attestation/policyverify/policyverify.go\<close>.

  \<open>policyverify_Attest\<close> verifies the signature of the policy, decodes it, builds a verifying source from
  the policy's own keys, roots and timestamp authorities, verifies the policy with it, and keeps the step
  results with a verification summary. What it calls outside the repository, the clock at its various
  readings and the order of iteration over the steps are the fields of \<open>verify_env\<close>. A change the search
  makes to the collection source is not kept.
\<close>

section \<open>The attestor\<close>

definition policyverify_Name :: string where "policyverify_Name = ''policyverify''"

record ('s, 'd, 'o) policyverify =
  pva_options :: VerifyPolicySignatureOptions
  pva_VerificationSummary :: VerificationSummary
  pva_stepResults :: "(string, 'd StepResult) gomap"
  pva_policyEnvelope :: Envelope
  pva_collectionSource :: "'s option"
  pva_subjectDigests :: "string list"
  pva_kmsProviderOptions :: "(string, 'o kms_setter list) gomap"

type_synonym ('s, 'd, 'o) policyverify_option = "('s, 'd, 'o) policyverify \<Rightarrow> ('s, 'd, 'o) policyverify"

definition VerifyWithPolicyVerificationOptions :: "policy_signature_option list \<Rightarrow> ('s, 'd, 'o) policyverify_option" where
  "VerifyWithPolicyVerificationOptions opts a = a\<lparr>pva_options := fold (\<lambda>opt vo. opt vo) opts (pva_options a)\<rparr>"

definition VerifyWithPolicyEnvelope :: "Envelope \<Rightarrow> ('s, 'd, 'o) policyverify_option" where
  "VerifyWithPolicyEnvelope policyEnvelope a = a\<lparr>pva_policyEnvelope := policyEnvelope\<rparr>"

definition pva_VerifyWithKMSProviderOptions ::
  "(string, 'o kms_setter list) gomap \<Rightarrow> ('s, 'd, 'o) policyverify_option" where
  "pva_VerifyWithKMSProviderOptions opts a = a\<lparr>pva_kmsProviderOptions := opts\<rparr>"

definition pva_VerifyWithSubjectDigests :: "digest_set list \<Rightarrow> ('s, 'd, 'o) policyverify_option" where
  "pva_VerifyWithSubjectDigests subjectDigests a =
     a\<lparr>pva_subjectDigests := pva_subjectDigests a @ concat (map (map snd) subjectDigests)\<rparr>"

definition pva_VerifyWithCollectionSource :: "'s option \<Rightarrow> ('s, 'd, 'o) policyverify_option" where
  "pva_VerifyWithCollectionSource source a = a\<lparr>pva_collectionSource := source\<rparr>"

definition zero_descriptor :: ResourceDescriptor where
  "zero_descriptor = \<lparr>rd_URI = [], rd_Digest = []\<rparr>"

definition zero_summary :: VerificationSummary where
  "zero_summary =
     \<lparr>vs_Verifier = \<lparr>sv_ID = []\<rparr>, vs_TimeVerified = zero_time, vs_Policy = zero_descriptor,
      vs_InputAttestations = [], vs_VerificationResult = []\<rparr>"

definition policyverify_New :: "('s, 'd, 'o) policyverify_option list \<Rightarrow> ('s, 'd, 'o) policyverify" where
  "policyverify_New opts =
     fold (\<lambda>opt a. opt a) opts
       \<lparr>pva_options = NewVerifyPolicySignatureOptions [], pva_VerificationSummary = zero_summary,
        pva_stepResults = [], pva_policyEnvelope = empty_envelope, pva_collectionSource = None,
        pva_subjectDigests = [], pva_kmsProviderOptions = []\<rparr>"

definition policyverify_Subjects :: "('s, 'd, 'o) policyverify \<Rightarrow> (string, digest_set) gomap" where
  "policyverify_Subjects a =
     AList.update (''policy:'' @ rd_URI (vs_Policy (pva_VerificationSummary a)))
       (rd_Digest (vs_Policy (pva_VerificationSummary a)))
       (fold (\<lambda>digest. AList.update (''artifact:'' @ digest) [(plain_digest SHA256, digest)])
          (pva_subjectDigests a) [])"

section \<open>Attesting\<close>

record ('s, 'd, 'o) verify_env =
  ve_lib :: crypto_lib
  ve_certs :: cert_lib
  ve_rego :: "'d rego_lib"
  ve_kms :: "'o kms_services"
  ve_Unmarshal :: "bytes \<Rightarrow> gerr + Policy"
  ve_Search :: "('s, 'd) searcher"
  ve_order :: "nat \<Rightarrow> (string, Step) gomap \<Rightarrow> (string, Step) gomap"
  ve_signatureNow :: "nat \<Rightarrow> gtime"
  ve_expiryNow :: gtime
  ve_searchNow :: "nat \<Rightarrow> nat \<Rightarrow> nat \<Rightarrow> gtime"
  ve_summaryNow :: gtime

definition verificationSummaryFromResults ::
  "crypto_lib \<Rightarrow> gtime \<Rightarrow> digest_value list \<Rightarrow> Envelope \<Rightarrow> (string, 'd StepResult) gomap \<Rightarrow> bool \<Rightarrow>
     VerificationSummary \<times> gerr option" where
  "verificationSummaryFromResults lib now hashes policyEnvelope stepResults accepted =
     (let inputAttestations =
            concat (map (\<lambda>(_, step).
              List.map_filter (\<lambda>collection.
                  case CalculateDigestSetFromBytes lib (env_Payload (ce_Envelope collection)) hashes of
                    (_, Some err) \<Rightarrow> None
                  | (digest, None) \<Rightarrow> Some \<lparr>rd_URI = ce_Reference collection, rd_Digest = digest\<rparr>)
                (sr_Passed step)) stepResults)
      in case CalculateDigestSetFromBytes lib (env_Payload policyEnvelope) hashes of
           (_, Some err) \<Rightarrow> (zero_summary, Some (Errorf ''failed to calculate policy digest: %w'' [FErr err]))
         | (policyDigest, None) \<Rightarrow>
             (\<lparr>vs_Verifier = \<lparr>sv_ID = ''witness''\<rparr>, vs_TimeVerified = now,
               vs_Policy = \<lparr>rd_URI = PolicyPredicate, rd_Digest = policyDigest\<rparr>,
               vs_InputAttestations = inputAttestations,
               vs_VerificationResult =
                 (if accepted then PassedVerificationResult else FailedVerificationResult)\<rparr>, None))"

text \<open>The verifying source, from the keys, roots and timestamp authorities of the policy.\<close>

definition policy_verifyOpts ::
  "(string, verifier) gomap \<Rightarrow> (string, TrustBundle) gomap \<Rightarrow> (string, TrustBundle) gomap \<Rightarrow>
     (verificationOptions \<Rightarrow> verificationOptions) list" where
  "policy_verifyOpts pubKeysById trustBundlesById timestampAuthoritiesById =
     [VerifyWithVerifiers (map (\<lambda>(_, pubkey). Some pubkey) pubKeysById),
      VerifyWithRoots (map (\<lambda>(_, trustBundle). tb_Root trustBundle) trustBundlesById),
      VerifyWithIntermediates (concat (map (\<lambda>(_, trustBundle). tb_Intermediates trustBundle) trustBundlesById)),
      VerifyWithTimestampVerifiers
        (map (\<lambda>(_, authority). ts_NewVerifier [ts_VerifyWithCerts (tb_Root authority # tb_Intermediates authority)])
           timestampAuthoritiesById)]"

text \<open>\<open>pol.Verify\<close> with the verifying source; over a nil source the first search panics, unless an error
  comes first or there is no step to search for.\<close>

definition verify_with_source ::
  "('s, 'd, 'o) verify_env \<Rightarrow> Policy \<Rightarrow> string list \<Rightarrow> (verificationOptions \<Rightarrow> verificationOptions) list \<Rightarrow>
     's option \<Rightarrow> (bool \<times> (string, 'd StepResult) gomap \<times> gerr option) outcome" where
  "verify_with_source ve pol digests verifyOpts source =
     (case source of
        Some src \<Rightarrow>
          Policy_Verify (ve_lib ve) (ve_certs ve) (ve_rego ve) (ve_expiryNow ve)
            (\<lambda>d. ve_order ve d (pol_Steps pol))
            (\<lambda>k. VerifiedSource_Search (ve_lib ve) (ve_searchNow ve k) (ve_Search ve)) pol
            [WithSubjectDigests digests,
             WithVerifiedSource (Some \<lparr>vsrc_source = src, vsrc_verifyOpts = verifyOpts\<rparr>)]
      | None \<Rightarrow>
          bindO (Policy_Verify (ve_lib ve) (ve_certs ve) (ve_rego ve) (ve_expiryNow ve) (\<lambda>_. [])
                   (\<lambda>k s name ds as. (s, Inr [])) pol
                   [WithSubjectDigests digests, WithVerifiedSource (Some ())])
            (\<lambda>(accepted, stepResults, err).
               if err = None \<and> pol_Steps pol \<noteq> [] then Panic nil_panic else Return (accepted, stepResults, err)))"

definition policyverify_Attest ::
  "('s, 'd, 'o) verify_env \<Rightarrow> digest_value list \<Rightarrow> ('s, 'd, 'o) policyverify \<Rightarrow>
     (('s, 'd, 'o) policyverify \<times> gerr option) outcome" where
  "policyverify_Attest ve hashes a =
     bindO (VerifyPolicySignature (ve_lib ve) (ve_certs ve) (ve_signatureNow ve) (pva_policyEnvelope a) (pva_options a))
       (\<lambda>sigErr. case sigErr of
          Some err \<Rightarrow> Return (a, Some (Errorf ''failed to verify policy signature: %w'' [FErr err]))
        | None \<Rightarrow>
        (case ve_Unmarshal ve (env_Payload (pva_policyEnvelope a)) of
          Inl err \<Rightarrow> Return (a, Some (Errorf ''failed to unmarshal policy from envelope: %w'' [FErr err]))
        | Inr pol \<Rightarrow>
        (case PublicKeyVerifiers (ve_lib ve) (ve_kms ve) (pva_kmsProviderOptions a) pol of
          Inl err \<Rightarrow> Return (a, Some (Errorf ''failed to get public keys from policy: %w'' [FErr err]))
        | Inr pubKeysById \<Rightarrow>
        (case TrustBundles (ve_lib ve) pol of
          Inl err \<Rightarrow> Return (a, Some (Errorf ''failed to load policy trust bundles: %w'' [FErr err]))
        | Inr trustBundlesById \<Rightarrow>
        (case TimestampAuthorityTrustBundles (ve_lib ve) pol of
          Inl err \<Rightarrow> Return (a, Some (Errorf ''failed to load policy timestamp authorities: %w'' [FErr err]))
        | Inr timestampAuthoritiesById \<Rightarrow>
          bindO (verify_with_source ve pol (pva_subjectDigests a)
                   (policy_verifyOpts pubKeysById trustBundlesById timestampAuthoritiesById)
                   (pva_collectionSource a))
            (\<lambda>(accepted, stepResults, policyErr).
               case policyErr of
                 Some err \<Rightarrow> Return (a, Some (Errorf ''failed to verify policy: %w'' [FErr err]))
               | None \<Rightarrow>
                   (case verificationSummaryFromResults (ve_lib ve) (ve_summaryNow ve) hashes
                           (pva_policyEnvelope a) stepResults accepted of
                      (summary, summaryErr) \<Rightarrow>
                        Return (a\<lparr>pva_stepResults := stepResults, pva_VerificationSummary := summary\<rparr>,
                          map_option (\<lambda>err. Errorf ''failed to generate verification summary: %w'' [FErr err])
                            summaryErr))))))))"

section \<open>As an attestor\<close>

text \<open>The attestors of a run are this one or others, whose state has any type.\<close>

type_synonym ('s, 'd, 'o, 'x) any_state = "('s, 'd, 'o) policyverify + 'x"

definition policyverify_attestor ::
  "('s, 'd, 'o) policyverify \<Rightarrow> ('s, 'd, 'o, 'x) any_state attestor" where
  "policyverify_attestor a =
     Attestor policyverify_Name VerificationSummaryPredicate VerifyRunType (Some (policyverify_Subjects a))
       None None None None None None None (Inl a)"

definition verify_attest ::
  "('s, 'd, 'o) verify_env \<Rightarrow> ('s, 'd, 'o, 'x) any_state attest \<Rightarrow> ('s, 'd, 'o, 'x) any_state attest" where
  "verify_attest ve others attestor ctx =
     (case att_state attestor of
        Inl a \<Rightarrow>
          bindO (policyverify_Attest ve (ac_hashes ctx) a) (\<lambda>(a', err). Return (policyverify_attestor a', err))
      | Inr x \<Rightarrow> others attestor ctx)"

section \<open>Lemmas\<close>

lemma summary_result:
  assumes "verificationSummaryFromResults lib now hashes env results accepted = (summary, None)"
  shows "vs_VerificationResult summary = (if accepted then PassedVerificationResult else FailedVerificationResult) \<and>
    rd_Digest (vs_Policy summary) = fst (CalculateDigestSetFromBytes lib (env_Payload env) hashes)"
  using assms by (auto simp: verificationSummaryFromResults_def Let_def split: prod.splits option.splits)

lemma passed_not_failed [simp]: "PassedVerificationResult \<noteq> FailedVerificationResult"
  by (simp add: PassedVerificationResult_def FailedVerificationResult_def)

lemma policyverify_Attest_ok:
  assumes "policyverify_Attest ve hashes a = Return (a', None)"
  shows "\<exists>pol keys bundles authorities accepted.
    VerifyPolicySignature (ve_lib ve) (ve_certs ve) (ve_signatureNow ve) (pva_policyEnvelope a) (pva_options a) = Return None \<and>
    ve_Unmarshal ve (env_Payload (pva_policyEnvelope a)) = Inr pol \<and>
    PublicKeyVerifiers (ve_lib ve) (ve_kms ve) (pva_kmsProviderOptions a) pol = Inr keys \<and>
    TrustBundles (ve_lib ve) pol = Inr bundles \<and>
    TimestampAuthorityTrustBundles (ve_lib ve) pol = Inr authorities \<and>
    verify_with_source ve pol (pva_subjectDigests a) (policy_verifyOpts keys bundles authorities)
      (pva_collectionSource a) = Return (accepted, pva_stepResults a', None) \<and>
    verificationSummaryFromResults (ve_lib ve) (ve_summaryNow ve) hashes (pva_policyEnvelope a)
      (pva_stepResults a') accepted = (pva_VerificationSummary a', None)"
  using assms
  by (auto simp: policyverify_Attest_def split: option.splits sum.splits prod.splits)

lemma passed_with_source:
  assumes "verify_with_source ve pol digests opts (Some src) = Return (True, results, None)"
  shows "Policy_Verify (ve_lib ve) (ve_certs ve) (ve_rego ve) (ve_expiryNow ve) (\<lambda>d. ve_order ve d (pol_Steps pol))
      (\<lambda>k. VerifiedSource_Search (ve_lib ve) (ve_searchNow ve k) (ve_Search ve)) pol
      [WithSubjectDigests digests, WithVerifiedSource (Some \<lparr>vsrc_source = src, vsrc_verifyOpts = opts\<rparr>)] =
    Return (True, results, None)"
  using assms by (simp add: verify_with_source_def)

text \<open>Without a source nothing passes but a policy without steps.\<close>

lemma passed_without_source:
  assumes "verify_with_source ve pol digests opts None = Return (True, results, None)"
  shows "pol_Steps pol = []"
  using assms by (auto simp: verify_with_source_def split: if_splits)

end
