(* ===== verification/Run.thy ===== *)
theory Run
  imports Policy_Verify_Attestor
begin

text \<open>
  The entry points of the library: \<open>run.go\<close>, \<open>sign.go\<close> and \<open>verify.go\<close>.

  \<open>run\<close> makes an attestation context, runs the attestors, signs an envelope for every exported
  attestation and one for the collection of the others. \<open>Verify\<close> runs the \<open>policyverify\<close> attestor through
  it and reads its verdict. The record \<open>run_env\<close> holds what a run takes from outside: the working
  directory, the clock, the schedule of the goroutines, \<open>Attest\<close>, and the JSON encoder for attestors,
  collections and statements.
\<close>

section \<open>Options\<close>

record 'd runOptions =
  ro_stepName :: string
  ro_signers :: "signer option list"
  ro_attestors :: "'d attestor list"
  ro_attestationOpts :: "'d context_option list"
  ro_timestampers :: "(reader \<Rightarrow> gerr + bytes) list"
  ro_insecure :: bool
  ro_ignoreErrors :: bool

type_synonym 'd run_option = "'d runOptions \<Rightarrow> 'd runOptions"

definition RunWithInsecure :: "bool \<Rightarrow> 'd run_option" where
  "RunWithInsecure insecure ro = ro\<lparr>ro_insecure := insecure\<rparr>"

definition RunWithIgnoreErrors :: "bool \<Rightarrow> 'd run_option" where
  "RunWithIgnoreErrors ignoreErrors ro = ro\<lparr>ro_ignoreErrors := ignoreErrors\<rparr>"

definition RunWithAttestors :: "'d attestor list \<Rightarrow> 'd run_option" where
  "RunWithAttestors attestors ro = ro\<lparr>ro_attestors := ro_attestors ro @ attestors\<rparr>"

definition RunWithAttestationOpts :: "'d context_option list \<Rightarrow> 'd run_option" where
  "RunWithAttestationOpts opts ro = ro\<lparr>ro_attestationOpts := opts\<rparr>"

definition RunWithTimestampers :: "(reader \<Rightarrow> gerr + bytes) list \<Rightarrow> 'd run_option" where
  "RunWithTimestampers ts ro = ro\<lparr>ro_timestampers := ts\<rparr>"

definition RunWithSigners :: "signer option list \<Rightarrow> 'd run_option" where
  "RunWithSigners signers ro = ro\<lparr>ro_signers := ro_signers ro @ signers\<rparr>"

definition new_runOptions :: "string \<Rightarrow> 'd run_option list \<Rightarrow> 'd runOptions" where
  "new_runOptions stepName opts =
     fold (\<lambda>opt ro. opt ro) opts
       \<lparr>ro_stepName = stepName, ro_signers = [], ro_attestors = [], ro_attestationOpts = [], ro_timestampers = [],
        ro_insecure = False, ro_ignoreErrors = False\<rparr>"

record 'd RunResult =
  rr_Collection :: "'d Collection"
  rr_SignedEnvelope :: Envelope
  rr_AttestorName :: string

definition empty_result :: "'d RunResult" where
  "empty_result = \<lparr>rr_Collection = empty_collection, rr_SignedEnvelope = empty_envelope, rr_AttestorName = []\<rparr>"

definition validateRunOpts :: "'d runOptions \<Rightarrow> gerr option" where
  "validateRunOpts ro =
     (if ro_stepName ro = [] then Some (Errorf ''step name is required'' [])
      else if length (ro_signers ro) = 0 \<and> \<not> ro_insecure ro
      then Some (Errorf ''at lease one signer is required if not in insecure mode'' [])
      else None)"

record 'd run_env =
  rn_lib :: crypto_lib
  rn_getwd :: "gerr + string"
  rn_attest :: "'d attest"
  rn_now :: "nat \<Rightarrow> gtime"
  rn_schedule :: "RunType \<Rightarrow> nat list"
  rn_marshal_attestor :: "'d attestor \<Rightarrow> gerr + bytes"
  rn_marshal_collection :: "'d Collection \<Rightarrow> gerr + bytes"
  rn_marshal_statement :: "Statement \<Rightarrow> gerr + bytes"

section \<open>Running\<close>

text \<open>The predicate comes as what the JSON encoder makes of it.\<close>

definition createAndSignEnvelope ::
  "'d run_env \<Rightarrow> gerr + bytes \<Rightarrow> string \<Rightarrow> (string, digest_set) gomap \<Rightarrow> (signOptions \<Rightarrow> signOptions) list \<Rightarrow>
     Envelope \<times> gerr option" where
  "createAndSignEnvelope rn predicate predType subjects opts =
     (case predicate of
        Inl err \<Rightarrow> (empty_envelope, Some err)
      | Inr data \<Rightarrow>
          (case NewStatement predType data subjects of
             (_, Some err) \<Rightarrow> (empty_envelope, Some err)
           | (stmt, None) \<Rightarrow>
               (case rn_marshal_statement rn stmt of
                  Inl err \<Rightarrow> (empty_envelope, Some err)
                | Inr stmtJson \<Rightarrow> dsse_Sign (rn_lib rn) PayloadType (Inr stmtJson) opts)))"

definition sign_options :: "'d runOptions \<Rightarrow> (signOptions \<Rightarrow> signOptions) list" where
  "sign_options ro = [SignWithSigners (ro_signers ro), SignWithTimestampers (ro_timestampers ro)]"

text \<open>The envelope of an exported attestation: none in insecure mode.\<close>

definition export_envelope :: "'d run_env \<Rightarrow> 'd runOptions \<Rightarrow> 'd attestor \<Rightarrow> Envelope \<times> gerr option" where
  "export_envelope rn ro attestor =
     (if ro_insecure ro then (empty_envelope, None)
      else createAndSignEnvelope rn (rn_marshal_attestor rn attestor) (att_Type attestor)
             (case att_Subjects attestor of None \<Rightarrow> [] | Some subjects \<Rightarrow> subjects) (sign_options ro))"

primrec export_all ::
  "'d run_env \<Rightarrow> 'd runOptions \<Rightarrow> string \<Rightarrow> 'd attestor list \<Rightarrow> 'd RunResult list \<Rightarrow> 'd RunResult list \<times> gerr option" where
  "export_all rn ro parent [] result = (result, None)"
| "export_all rn ro parent (exportedAttestor # attestors) result =
     (case export_envelope rn ro exportedAttestor of
        (_, Some err) \<Rightarrow>
          (result, Some (Errorf ''failed to sign envelope for %s: %w'' [FStr (att_Name exportedAttestor), FErr err]))
      | (envelope, None) \<Rightarrow>
          export_all rn ro parent attestors
            (result @ [empty_result\<lparr>rr_SignedEnvelope := envelope,
               rr_AttestorName := parent @ ''/'' @ att_Name exportedAttestor\<rparr>]))"

definition export_one ::
  "'d run_env \<Rightarrow> 'd runOptions \<Rightarrow> 'd attestor \<Rightarrow> 'd RunResult list \<Rightarrow> 'd RunResult list \<times> gerr option" where
  "export_one rn ro attestor result =
     (case att_ExportedAttestations attestor of
        Some exported \<Rightarrow> export_all rn ro (att_Name attestor) exported result
      | None \<Rightarrow>
          (case Exporter attestor of
             None \<Rightarrow> (result, None)
           | Some exports \<Rightarrow>
               if \<not> exports then (result, None)
               else
                 (case att_Subjects attestor of
                    None \<Rightarrow> (result, None)
                  | Some subjects \<Rightarrow>
                      (case export_envelope rn ro attestor of
                         (_, Some err) \<Rightarrow> (result, Some (Errorf ''failed to sign envelope: %w'' [FErr err]))
                       | (envelope, None) \<Rightarrow>
                           (result @ [empty_result\<lparr>rr_SignedEnvelope := envelope,
                              rr_AttestorName := att_Name attestor\<rparr>], None)))))"

text \<open>The loop over the completed attestors: the results and the errors collected, and the error that ends
  the loop early.\<close>

primrec export_loop ::
  "'d run_env \<Rightarrow> 'd runOptions \<Rightarrow> 'd CompletedAttestor list \<Rightarrow> 'd RunResult list \<Rightarrow> gerr list \<Rightarrow>
     'd RunResult list \<times> gerr list \<times> gerr option" where
  "export_loop rn ro [] result errs = (result, errs, None)"
| "export_loop rn ro (r # rs) result errs =
     (case cpl_Error r of
        Some err \<Rightarrow>
          export_loop rn ro rs result
            (errs @ [Errorf ''attestor %s failed: %w'' [FStr (att_Name (cpl_Attestor r)), FErr err]])
      | None \<Rightarrow>
          (case export_one rn ro (cpl_Attestor r) result of
             (result', Some err) \<Rightarrow> (result', errs, Some err)
           | (result', None) \<Rightarrow> export_loop rn ro rs result' errs))"

definition for_collection :: "'d CompletedAttestor \<Rightarrow> bool" where
  "for_collection completed \<longleftrightarrow>
     cpl_Error completed = None \<and> att_ExportedAttestations (cpl_Attestor completed) = None \<and>
     Exporter (cpl_Attestor completed) \<noteq> Some True"

definition run ::
  "'d run_env \<Rightarrow> string \<Rightarrow> 'd run_option list \<Rightarrow> ('d RunResult list \<times> gerr option) outcome" where
  "run rn stepName opts =
     (let ro = new_runOptions stepName opts
      in case validateRunOpts ro of
           Some err \<Rightarrow> Return ([], Some err)
         | None \<Rightarrow>
             (case NewContext (rn_getwd rn) stepName (ro_attestors ro) (ro_attestationOpts ro) of
                Inl err \<Rightarrow> Return ([], Some (Errorf ''failed to create attestation context: %w'' [FErr err]))
              | Inr ctx \<Rightarrow>
                  bindO (RunAttestors (rn_attest rn) (rn_now rn) (rn_schedule rn) ctx)
                    (\<lambda>(runCtx, runErr). Return
                       (case runErr of
                          Some err \<Rightarrow> ([], Some (Errorf ''failed to run attestors: %w'' [FErr err]))
                        | None \<Rightarrow>
                            (case export_loop rn ro (ac_completedAttestors runCtx) [] [] of
                               (result, errs, Some err) \<Rightarrow> (result, Some err)
                             | (result, errs, None) \<Rightarrow>
                                 if \<not> ro_ignoreErrors ro \<and> length errs > 0
                                 then (result, Some (ErrorsJoin (Errorf ''attestors failed with error messages'' [] # errs)))
                                 else
                                   (let collection = NewCollection (ro_stepName ro)
                                          (filter for_collection (ac_completedAttestors runCtx))
                                    in if ro_insecure ro
                                       then (result @ [empty_result\<lparr>rr_Collection := collection\<rparr>], None)
                                       else
                                         (case createAndSignEnvelope rn (rn_marshal_collection rn collection)
                                                 CollectionType (Collection_Subjects collection) (sign_options ro) of
                                            (_, Some err) \<Rightarrow>
                                              (result, Some (Errorf ''failed to sign collection: %w'' [FErr err]))
                                          | (envelope, None) \<Rightarrow>
                                              (result @ [empty_result\<lparr>rr_Collection := collection,
                                                 rr_SignedEnvelope := envelope\<rparr>], None))))))))"

definition RunWithExports ::
  "'d run_env \<Rightarrow> string \<Rightarrow> 'd run_option list \<Rightarrow> ('d RunResult list \<times> gerr option) outcome" where
  "RunWithExports rn stepName opts = run rn stepName opts"

definition Run ::
  "'d run_env \<Rightarrow> string \<Rightarrow> 'd run_option list \<Rightarrow> ('d RunResult \<times> gerr option) outcome" where
  "Run rn stepName opts =
     bindO (run rn stepName opts)
       (\<lambda>(results, err). Return
          (if length results = 0 then (empty_result, err)
           else if length results > 1
           then (empty_result, Some (Errorf ''expected a single result, got multiple'' []))
           else (hd results, err)))"

section \<open>Signing and verifying signatures\<close>

text \<open>\<open>encode\<close> and \<open>decode\<close> are the JSON codec of envelopes; the writer is what was written.\<close>

definition witness_Sign ::
  "crypto_lib \<Rightarrow> (Envelope \<Rightarrow> gerr + bytes) \<Rightarrow> reader \<Rightarrow> string \<Rightarrow> bytes \<Rightarrow> (signOptions \<Rightarrow> signOptions) list \<Rightarrow>
     bytes \<times> gerr option" where
  "witness_Sign lib encode r dataType w opts =
     (case dsse_Sign lib dataType r opts of
        (_, Some err) \<Rightarrow> (w, Some err)
      | (env, None) \<Rightarrow>
          (case encode env of
             Inl err \<Rightarrow> (w, Some err)
           | Inr data \<Rightarrow> (w @ data, None)))"

definition VerifySignature ::
  "crypto_lib \<Rightarrow> (nat \<Rightarrow> gtime) \<Rightarrow> (bytes \<Rightarrow> gerr + Envelope) \<Rightarrow> reader \<Rightarrow> verifier option list \<Rightarrow>
     Envelope \<times> gerr option" where
  "VerifySignature lib now decode r verifiers =
     (case (case r of Inl err \<Rightarrow> Inl err | Inr data \<Rightarrow> decode data) of
        Inl err \<Rightarrow> (empty_envelope, Some (Errorf ''failed to parse dsse envelope: %w'' [FErr err]))
      | Inr envelope \<Rightarrow> (envelope, snd (Envelope_Verify lib now envelope [VerifyWithVerifiers verifiers])))"

section \<open>Verifying a policy\<close>

record ('s, 'd, 'o, 'x) verifyOptions =
  vf_attestorOptions :: "('s, 'd, 'o) policyverify_option list"
  vf_verifyPolicySignatureOptions :: "policy_signature_option list"
  vf_runOptions :: "('s, 'd, 'o, 'x) any_state run_option list"
  vf_signers :: "signer option list"
  vf_kmsProviderOptions :: "(string, 'o kms_setter list) gomap"

type_synonym ('s, 'd, 'o, 'x) verify_option = "('s, 'd, 'o, 'x) verifyOptions \<Rightarrow> ('s, 'd, 'o, 'x) verifyOptions"

definition vf_WithSigners :: "signer option list \<Rightarrow> ('s, 'd, 'o, 'x) verify_option" where
  "vf_WithSigners signers vo = vo\<lparr>vf_signers := vf_signers vo @ signers\<rparr>"

definition vf_WithSubjectDigests :: "digest_set list \<Rightarrow> ('s, 'd, 'o, 'x) verify_option" where
  "vf_WithSubjectDigests subjectDigests vo =
     vo\<lparr>vf_attestorOptions := vf_attestorOptions vo @ [pva_VerifyWithSubjectDigests subjectDigests]\<rparr>"

definition vf_WithCollectionSource :: "'s option \<Rightarrow> ('s, 'd, 'o, 'x) verify_option" where
  "vf_WithCollectionSource source vo =
     vo\<lparr>vf_attestorOptions := vf_attestorOptions vo @ [pva_VerifyWithCollectionSource source]\<rparr>"

definition vf_WithAttestorOptions :: "('s, 'd, 'o) policyverify_option list \<Rightarrow> ('s, 'd, 'o, 'x) verify_option" where
  "vf_WithAttestorOptions opts vo = vo\<lparr>vf_attestorOptions := vf_attestorOptions vo @ opts\<rparr>"

definition vf_WithRunOptions :: "('s, 'd, 'o, 'x) any_state run_option list \<Rightarrow> ('s, 'd, 'o, 'x) verify_option" where
  "vf_WithRunOptions opts vo = vo\<lparr>vf_runOptions := vf_runOptions vo @ opts\<rparr>"

text \<open>The options that only forward to an option of the policy signature.\<close>

definition vf_forward :: "policy_signature_option \<Rightarrow> ('s, 'd, 'o, 'x) verify_option" where
  "vf_forward opt vo =
     vo\<lparr>vf_verifyPolicySignatureOptions := vf_verifyPolicySignatureOptions vo @ [opt]\<rparr>"

definition vf_WithPolicyFulcioCertExtensions :: "extensions \<Rightarrow> ('s, 'd, 'o, 'x) verify_option" where
  "vf_WithPolicyFulcioCertExtensions extensions = vf_forward (VerifyWithPolicyFulcioCertExtensions extensions)"

definition vf_WithPolicyCertConstraints ::
  "string \<Rightarrow> string list \<Rightarrow> string list \<Rightarrow> string list \<Rightarrow> string list \<Rightarrow> ('s, 'd, 'o, 'x) verify_option" where
  "vf_WithPolicyCertConstraints commonName dnsNames emails organizations uris =
     vf_forward (VerifyWithPolicyCertConstraints commonName dnsNames emails organizations uris)"

definition vf_WithPolicyTimestampAuthorities :: "ts_verifier list \<Rightarrow> ('s, 'd, 'o, 'x) verify_option" where
  "vf_WithPolicyTimestampAuthorities verifiers = vf_forward (VerifyWithPolicyTimestampAuthorities verifiers)"

definition vf_WithPolicyCARoots :: "certificate list \<Rightarrow> ('s, 'd, 'o, 'x) verify_option" where
  "vf_WithPolicyCARoots certs = vf_forward (VerifyWithPolicyCARoots certs)"

definition vf_WithPolicyCAIntermediates :: "certificate list \<Rightarrow> ('s, 'd, 'o, 'x) verify_option" where
  "vf_WithPolicyCAIntermediates certs = vf_forward (VerifyWithPolicyCAIntermediates certs)"

definition vf_WithKMSProviderOptions :: "(string, 'o kms_setter list) gomap \<Rightarrow> ('s, 'd, 'o, 'x) verify_option" where
  "vf_WithKMSProviderOptions opts vo = vo\<lparr>vf_kmsProviderOptions := opts\<rparr>"

record ('s, 'd, 'o, 'x) VerifyResult =
  vr_RunResult :: "('s, 'd, 'o, 'x) any_state RunResult"
  vr_VerificationSummary :: VerificationSummary
  vr_StepResults :: "(string, 'd StepResult) gomap"

definition empty_verify_result :: "('s, 'd, 'o, 'x) VerifyResult" where
  "empty_verify_result =
     \<lparr>vr_RunResult = empty_result, vr_VerificationSummary = zero_summary, vr_StepResults = []\<rparr>"

text \<open>The attestor that \<open>Verify\<close> configures, and the options of its run.\<close>

definition verify_attestor ::
  "Envelope \<Rightarrow> verifier option list \<Rightarrow> ('s, 'd, 'o, 'x) verifyOptions \<Rightarrow> ('s, 'd, 'o) policyverify" where
  "verify_attestor policyEnvelope policyVerifiers vo =
     policyverify_New
       (pva_VerifyWithKMSProviderOptions (vf_kmsProviderOptions vo) #
        vf_attestorOptions vo @
        [VerifyWithPolicyEnvelope policyEnvelope,
         VerifyWithPolicyVerificationOptions
           (vf_verifyPolicySignatureOptions vo @ [VerifyWithPolicyVerifiers policyVerifiers])])"

definition verify_run_options ::
  "Envelope \<Rightarrow> verifier option list \<Rightarrow> ('s, 'd, 'o, 'x) verifyOptions \<Rightarrow> ('s, 'd, 'o, 'x) any_state run_option list" where
  "verify_run_options policyEnvelope policyVerifiers vo =
     vf_runOptions vo @
     [if length (vf_signers vo) > 0 then RunWithSigners (vf_signers vo) else RunWithInsecure True,
      RunWithAttestors [policyverify_attestor (verify_attestor policyEnvelope policyVerifiers vo)]]"

text \<open>Reading the verdict from the first attestation of the summary's type.\<close>

definition read_verdict ::
  "('s, 'd, 'o, 'x) any_state RunResult \<Rightarrow> ('s, 'd, 'o, 'x) VerifyResult \<times> gerr option" where
  "read_verdict runResult =
     (let vr = empty_verify_result\<lparr>vr_RunResult := runResult\<rparr>;
          decide = (\<lambda>vr. if vs_VerificationResult (vr_VerificationSummary vr) \<noteq> PassedVerificationResult
                         then (vr, Some (Errorf ''policy verification failed'' [])) else (vr, None))
      in case List.find (\<lambda>att. ca_Type att = VerificationSummaryPredicate) (col_Attestations (rr_Collection runResult)) of
           None \<Rightarrow> decide vr
         | Some att \<Rightarrow>
             (case map_option att_state (ca_Attestation att) of
                Some (Inl a) \<Rightarrow>
                  decide (vr\<lparr>vr_StepResults := pva_stepResults a, vr_VerificationSummary := pva_VerificationSummary a\<rparr>)
              | _ \<Rightarrow> (empty_verify_result, Some (Errorf ''unknown attestor %T'' []))))"

definition Verify ::
  "('s, 'd, 'o, 'x) any_state run_env \<Rightarrow> Envelope \<Rightarrow> verifier option list \<Rightarrow> ('s, 'd, 'o, 'x) verify_option list \<Rightarrow>
     (('s, 'd, 'o, 'x) VerifyResult \<times> gerr option) outcome" where
  "Verify rn policyEnvelope policyVerifiers opts =
     (let vo = fold (\<lambda>opt vo. opt vo) opts
            \<lparr>vf_attestorOptions = [], vf_verifyPolicySignatureOptions = [], vf_runOptions = [], vf_signers = [],
             vf_kmsProviderOptions = []\<rparr>
      in bindO (Run rn ''policyverify'' (verify_run_options policyEnvelope policyVerifiers vo))
           (\<lambda>(runResult, err). Return
              (case err of
                 Some e \<Rightarrow> (empty_verify_result, Some e)
               | None \<Rightarrow> read_verdict runResult)))"

section \<open>Lemmas: a run\<close>

text \<open>The options of the package leave the attestors and the completed ones alone.\<close>

definition harmless :: "'d context_option \<Rightarrow> bool" where
  "harmless opt \<longleftrightarrow> (\<forall>ctx. ac_attestors (opt ctx) = ac_attestors ctx \<and>
     ac_completedAttestors (opt ctx) = ac_completedAttestors ctx)"

lemma options_harmless:
  "harmless (WithOutputWriters w)" "harmless (WithHashes hs)" "harmless (WithWorkingDir wd)"
  "harmless (WithDirHashGlob gl globs)" "harmless (WithEnvCapturer ks es b c)" "harmless WithEnvFilterVarsEnabled"
  "harmless (WithEnvAdditionalKeys ks)" "harmless (WithEnvExcludeKeys es)" "harmless WithEnvDisableDefaultSensitiveList"
  by (simp_all add: harmless_def WithOutputWriters_def WithHashes_def WithWorkingDir_def WithDirHashGlob_def
      WithEnvCapturer_def WithEnvFilterVarsEnabled_def WithEnvAdditionalKeys_def WithEnvExcludeKeys_def
      WithEnvDisableDefaultSensitiveList_def)

lemma NewContext_attestors:
  assumes "NewContext getwd stepName attestors opts = Inr ctx" and "\<forall>opt \<in> set opts. harmless opt"
  shows "ac_attestors ctx = attestors \<and> ac_completedAttestors ctx = []"
proof -
  have "ac_attestors (fold (\<lambda>opt ctx. opt ctx) opts c) = ac_attestors c \<and>
      ac_completedAttestors (fold (\<lambda>opt ctx. opt ctx) opts c) = ac_completedAttestors c" for c
    using assms(2) by (induction opts arbitrary: c) (simp_all add: harmless_def)
  then show ?thesis using assms(1) by (auto simp: NewContext_def split: sum.splits)
qed

text \<open>What a completed attestor adds to the results, when everything it exports can be signed.\<close>

lemma export_all_keeps:
  "export_all rn ro parent as result = (result', None) \<Longrightarrow>
     \<exists>new. result' = result @ new \<and> length new = length as \<and> (\<forall>r \<in> set new. rr_Collection r = empty_collection)"
proof (induction as arbitrary: result)
  case Nil
  then show ?case by simp
next
  case (Cons a as)
  then obtain env where "export_all rn ro parent as (result @ [empty_result\<lparr>rr_SignedEnvelope := env,
      rr_AttestorName := parent @ ''/'' @ att_Name a\<rparr>]) = (result', None)"
    by (auto split: prod.splits option.splits)
  from Cons.IH [OF this] show ?case by (auto simp: empty_result_def)
qed

definition exports :: "'d attestor \<Rightarrow> nat" where
  "exports a =
     (case att_ExportedAttestations a of
        Some as \<Rightarrow> length as
      | None \<Rightarrow> if Exporter a = Some True then 1 else 0)"

lemma export_one_keeps:
  assumes "export_one rn ro a result = (result', None)"
  shows "\<exists>new. result' = result @ new \<and> length new = exports a \<and> (\<forall>r \<in> set new. rr_Collection r = empty_collection)"
proof (cases "att_ExportedAttestations a")
  case None
  with assms show ?thesis
    by (auto simp: export_one_def exports_def empty_result_def Exporter_def split: option.splits if_splits prod.splits)
next
  case (Some as)
  with assms export_all_keeps show ?thesis by (fastforce simp: export_one_def exports_def)
qed

definition attestor_error :: "'d CompletedAttestor \<Rightarrow> gerr option" where
  "attestor_error r =
     map_option (\<lambda>err. Errorf ''attestor %s failed: %w'' [FStr (att_Name (cpl_Attestor r)), FErr err]) (cpl_Error r)"

lemma export_loop_result:
  assumes "export_loop rn ro rs result errs = (result', errs', None)"
  shows "errs' = errs @ List.map_filter attestor_error rs \<and>
    (\<exists>new. result' = result @ new \<and> (\<forall>r \<in> set new. rr_Collection r = empty_collection) \<and>
       length new = sum_list (map (\<lambda>r. exports (cpl_Attestor r)) (filter (\<lambda>r. cpl_Error r = None) rs)))"
  using assms
proof (induction rs arbitrary: result errs)
  case Nil
  then show ?case by (simp add: List.map_filter_def)
next
  case (Cons r rs)
  show ?case
  proof (cases "cpl_Error r")
    case (Some err)
    with Cons.prems have rest: "export_loop rn ro rs result (errs @ [the (attestor_error r)]) = (result', errs', None)"
      by (simp add: attestor_error_def)
    from Some obtain e where "attestor_error r = Some e" by (simp add: attestor_error_def)
    with Cons.IH [OF rest] Some show ?thesis by (simp add: List.map_filter_simps)
  next
    case None
    with Cons.prems obtain mid where mid: "export_one rn ro (cpl_Attestor r) result = (mid, None)"
      and rest: "export_loop rn ro rs mid errs = (result', errs', None)"
      by (auto split: prod.splits option.splits)
    from Cons.IH [OF rest] export_one_keeps [OF mid] None show ?thesis
      by (fastforce simp: List.map_filter_simps attestor_error_def)
  qed
qed

lemma export_loop_errors:
  assumes "export_loop rn ro rs result errs = (result', errs', e)" and "r \<in> set rs" and "cpl_Error r \<noteq> None"
  shows "e \<noteq> None \<or> errs' \<noteq> []"
proof (cases e)
  case None
  with export_loop_result [of rn ro rs result errs result' errs'] assms have
    "errs' = errs @ List.map_filter attestor_error rs" by simp
  moreover have "List.map_filter attestor_error rs \<noteq> []"
    using assms(2,3) by (auto simp: List.map_filter_def filter_empty_conv attestor_error_def)
  ultimately show ?thesis by simp
qed simp

text \<open>The shape of a successful run.\<close>

lemma run_ok:
  assumes "run rn stepName opts = Return (results, None)" and "ro = new_runOptions stepName opts"
  obtains ctx runCtx exported envelope where
    "NewContext (rn_getwd rn) stepName (ro_attestors ro) (ro_attestationOpts ro) = Inr ctx"
    "RunAttestors (rn_attest rn) (rn_now rn) (rn_schedule rn) ctx = Return (runCtx, None)"
    "export_loop rn ro (ac_completedAttestors runCtx) [] [] =
       (exported, List.map_filter attestor_error (ac_completedAttestors runCtx), None)"
    "ro_ignoreErrors ro \<or> (\<forall>c \<in> set (ac_completedAttestors runCtx). cpl_Error c = None)"
    "results = exported @ [empty_result\<lparr>rr_Collection :=
       NewCollection (ro_stepName ro) (filter for_collection (ac_completedAttestors runCtx)),
       rr_SignedEnvelope := envelope\<rparr>]"
    "ro_insecure ro \<and> envelope = empty_envelope \<or>
     \<not> ro_insecure ro \<and> createAndSignEnvelope rn (rn_marshal_collection rn
         (NewCollection (ro_stepName ro) (filter for_collection (ac_completedAttestors runCtx))))
       CollectionType (Collection_Subjects (NewCollection (ro_stepName ro)
         (filter for_collection (ac_completedAttestors runCtx)))) (sign_options ro) = (envelope, None)"
proof -
  from assms obtain ctx runCtx where ctx: "NewContext (rn_getwd rn) stepName (ro_attestors ro) (ro_attestationOpts ro) = Inr ctx"
    and runs: "RunAttestors (rn_attest rn) (rn_now rn) (rn_schedule rn) ctx = Return (runCtx, None)"
    by (auto simp: run_def Let_def split: option.splits sum.splits)
  obtain exported errs e where loop: "export_loop rn ro (ac_completedAttestors runCtx) [] [] = (exported, errs, e)"
    by (metis prod.exhaust)
  from assms ctx runs loop have e: "e = None"
    by (auto simp: run_def Let_def split: option.splits)
  have errs: "errs = List.map_filter attestor_error (ac_completedAttestors runCtx)"
    using export_loop_result [OF loop [unfolded e]] by simp
  from assms ctx runs loop e have ok: "ro_ignoreErrors ro \<or> errs = []"
    by (auto simp: run_def Let_def split: option.splits if_splits)
  then have noerr: "ro_ignoreErrors ro \<or> (\<forall>c \<in> set (ac_completedAttestors runCtx). cpl_Error c = None)"
    using export_loop_errors [OF loop] e by blast
  define coll where "coll = NewCollection (ro_stepName ro) (filter for_collection (ac_completedAttestors runCtx))"
  show ?thesis
  proof (cases "ro_insecure ro")
    case True
    with assms ctx runs loop e ok have "results = exported @ [empty_result\<lparr>rr_Collection := coll\<rparr>]"
      by (auto simp: run_def Let_def coll_def split: option.splits if_splits)
    then have "results = exported @ [empty_result\<lparr>rr_Collection := coll, rr_SignedEnvelope := empty_envelope\<rparr>]"
      by (simp add: empty_result_def)
    with True ctx runs loop e errs noerr show ?thesis unfolding coll_def by (intro that) simp_all
  next
    case False
    with assms ctx runs loop e ok obtain envelope where
      "createAndSignEnvelope rn (rn_marshal_collection rn coll) CollectionType (Collection_Subjects coll)
         (sign_options ro) = (envelope, None)"
      "results = exported @ [empty_result\<lparr>rr_Collection := coll, rr_SignedEnvelope := envelope\<rparr>]"
      by (auto simp: run_def Let_def coll_def split: option.splits if_splits prod.splits)
    with False ctx runs loop e errs noerr show ?thesis unfolding coll_def by (intro that) simp_all
  qed
qed

section \<open>Lemmas: verifying\<close>

lemma new_runOptions_snoc: "new_runOptions stepName (opts @ [opt]) = opt (new_runOptions stepName opts)"
  by (simp add: new_runOptions_def)

lemma verify_run_attestors:
  assumes "ro_attestors (new_runOptions name (vf_runOptions vo)) = []"
  shows "ro_attestors (new_runOptions name (verify_run_options env verifiers vo)) =
    [policyverify_attestor (verify_attestor env verifiers vo)]"
  using assms
  by (simp add: verify_run_options_def new_runOptions_def RunWithAttestors_def RunWithSigners_def RunWithInsecure_def)

lemma verify_attestor_envelope [simp]: "pva_policyEnvelope (verify_attestor env verifiers vo) = env"
  by (simp add: verify_attestor_def policyverify_New_def VerifyWithPolicyEnvelope_def
      VerifyWithPolicyVerificationOptions_def)

lemma policyverify_attestor_fields [simp]:
  "att_RunType (policyverify_attestor a) = VerifyRunType" "att_state (policyverify_attestor a) = Inl a"
  "att_Type (policyverify_attestor a) = VerificationSummaryPredicate"
  "att_ExportedAttestations (policyverify_attestor a) = None" "Exporter (policyverify_attestor a) = None"
  by (simp_all add: policyverify_attestor_def Exporter_def)

text \<open>A run of the verifying attestor alone completes it once.\<close>

lemma RunAttestors_single:
  assumes "RunAttestors attest now schedule ctx = Return (ctx', None)" and "ac_attestors ctx = [a]"
    and "att_RunType a = VerifyRunType" and "ac_completedAttestors ctx = []"
  obtains cpl c where "ac_completedAttestors ctx' = [cpl]" and "attest a c = Return (cpl_Attestor cpl, cpl_Error cpl)"
proof -
  have order: "stage_order [a] = [VerifyRunType]" using assms(3) by (simp add: stage_order_def verifyTypeOrder_def)
  from RunAttestors_complete [OF assms(1)] obtain stages where
    cs: "ac_completedAttestors ctx' = concat stages" and
    all: "list_all2 (\<lambda>k. stage_complete attest (filter (\<lambda>a. att_RunType a = k) [a])) [VerifyRunType] stages"
    unfolding assms(2,4) order append_Nil by blast
  from all obtain new where new: "stages = [new]" "stage_complete attest (filter (\<lambda>a. att_RunType a = VerifyRunType) [a]) new"
    unfolding list_all2_Cons1 list_all2_Nil by blast
  have "filter (\<lambda>a. att_RunType a = VerifyRunType) [a] = [a]" using assms(3) by simp
  note new = new(1) new(2) [unfolded this]
  from stage_complete_length [OF new(2)] have "length new = Suc 0" by simp
  then obtain cpl where cpl: "new = [cpl]" unfolding length_Suc_conv by blast
  from new(2) obtain ix where ix: "set ix = {..<length [a]}" and "list_all2 (\<lambda>i. completes attest ([a] ! i)) ix [cpl]"
    unfolding stage_complete_def cpl by blast
  then obtain i where i: "ix = [i]" and comp: "completes attest ([a] ! i) cpl"
    unfolding list_all2_Cons2 list_all2_Nil2 by blast
  from ix i have "i = 0" by (simp add: lessThan_Suc)
  with comp obtain c where "attest a c = Return (cpl_Attestor cpl, cpl_Error cpl)"
    unfolding completes_def by auto
  then show ?thesis using that cs new(1) cpl by simp
qed

lemma Run_ok:
  assumes "Run rn stepName opts = Return (rr, None)"
  obtains results where "run rn stepName opts = Return (results, None)" and "results = [] \<or> results = [rr]"
proof -
  from assms obtain results err where res: "run rn stepName opts = Return (results, err)"
    and rr: "(if length results = 0 then (empty_result, err)
         else if length results > 1 then (empty_result, Some (Errorf ''expected a single result, got multiple'' []))
         else (hd results, err)) = (rr, None)"
    unfolding Run_def bindO_Return_iff by (auto split: prod.splits)
  show ?thesis
  proof (cases results)
    case Nil
    with rr res show ?thesis by (intro that [of results]) simp_all
  next
    case (Cons r rs)
    with rr res show ?thesis by (intro that [of results]) (simp_all split: if_splits)
  qed
qed

lemma Verify_passed:
  assumes "Verify rn env verifiers opts = Return (vr, None)"
    and attest: "rn_attest rn = verify_attest ve others"
    and vo: "vo = fold (\<lambda>opt vo. opt vo) opts \<lparr>vf_attestorOptions = [], vf_verifyPolicySignatureOptions = [],
        vf_runOptions = [], vf_signers = [], vf_kmsProviderOptions = []\<rparr>"
    and alone: "ro_attestors (new_runOptions ''policyverify'' (vf_runOptions vo)) = []"
    and harmless: "\<forall>opt \<in> set (ro_attestationOpts (new_runOptions ''policyverify''
        (verify_run_options env verifiers vo))). harmless opt"
  obtains hashes a' where
    "policyverify_Attest ve hashes (verify_attestor env verifiers vo) = Return (a', None)"
    "vs_VerificationResult (pva_VerificationSummary a') = PassedVerificationResult"
    "vr_StepResults vr = pva_stepResults a'" "vr_VerificationSummary vr = pva_VerificationSummary a'"
proof -
  let ?opts = "verify_run_options env verifiers vo"
  let ?a = "verify_attestor env verifiers vo"
  from assms(1) obtain rr where Run: "Run rn ''policyverify'' ?opts = Return (rr, None)" and read: "read_verdict rr = (vr, None)"
    by (auto simp: Verify_def Let_def vo [symmetric] split: option.splits)
  obtain results where run: "run rn ''policyverify'' ?opts = Return (results, None)" and rr: "results = [] \<or> results = [rr]"
    using Run_ok [OF Run] by blast
  obtain ctx runCtx exported envelope where
    ctx: "NewContext (rn_getwd rn) ''policyverify'' [policyverify_attestor ?a]
        (ro_attestationOpts (new_runOptions ''policyverify'' ?opts)) = Inr ctx" and
    ra: "RunAttestors (rn_attest rn) (rn_now rn) (rn_schedule rn) ctx = Return (runCtx, None)" and
    res: "results = exported @ [empty_result\<lparr>rr_Collection := NewCollection
        (ro_stepName (new_runOptions ''policyverify'' ?opts)) (filter for_collection (ac_completedAttestors runCtx)),
       rr_SignedEnvelope := envelope\<rparr>]"
    using run_ok [OF run refl] verify_run_attestors [OF alone] by metis
  note atts = NewContext_attestors [OF ctx harmless]
  obtain cpl c where cpl: "ac_completedAttestors runCtx = [cpl]"
    and at: "verify_attest ve others (policyverify_attestor ?a) c = Return (cpl_Attestor cpl, cpl_Error cpl)"
    using RunAttestors_single [OF ra conjunct1 [OF atts] _ conjunct2 [OF atts]] attest by auto
  from at obtain a' where a': "policyverify_Attest ve (ac_hashes c) ?a = Return (a', cpl_Error cpl)"
    and cpl_a: "cpl_Attestor cpl = policyverify_attestor a'"
    by (auto simp: verify_attest_def)
  from res rr have coll: "rr_Collection rr = NewCollection (ro_stepName (new_runOptions ''policyverify'' ?opts))
      (filter for_collection [cpl])" unfolding cpl by (cases exported) auto
  have "cpl_Error cpl = None"
  proof (rule ccontr)
    assume "cpl_Error cpl \<noteq> None"
    then have "col_Attestations (rr_Collection rr) = []" by (auto simp: coll for_collection_def NewCollection_def)
    with read show False
      by (simp add: read_verdict_def Let_def empty_verify_result_def zero_summary_def PassedVerificationResult_def)
  qed
  moreover from this have "col_Attestations (rr_Collection rr) = [NewCollectionAttestation cpl]"
    by (simp add: coll for_collection_def cpl_a NewCollection_def)
  with read have "vs_VerificationResult (pva_VerificationSummary a') = PassedVerificationResult"
    and "vr_StepResults vr = pva_stepResults a'" and "vr_VerificationSummary vr = pva_VerificationSummary a'"
    by (auto simp: read_verdict_def Let_def NewCollectionAttestation_def cpl_a split: if_splits)
  ultimately show ?thesis using a' that by simp
qed

section \<open>Properties\<close>

text \<open>C3. A successful run returns the results of the exported attestations followed by one for the
  collection. The collection is named after the step and holds, in the order of completion, exactly the
  attestors that completed without an error and are not exported on their own; there is one further
  result for every exported attestation, and no completed attestor failed unless errors are ignored.\<close>

theorem run_collection_exact:
  assumes "run rn stepName opts = Return (results, None)" and "ro = new_runOptions stepName opts"
  shows "\<exists>ctx runCtx exported r.
    NewContext (rn_getwd rn) stepName (ro_attestors ro) (ro_attestationOpts ro) = Inr ctx \<and>
    RunAttestors (rn_attest rn) (rn_now rn) (rn_schedule rn) ctx = Return (runCtx, None) \<and>
    results = exported @ [r] \<and>
    rr_Collection r = \<lparr>col_Name = ro_stepName ro, col_Attestations = map NewCollectionAttestation
      (filter (\<lambda>c. cpl_Error c = None \<and> att_ExportedAttestations (cpl_Attestor c) = None \<and>
         Exporter (cpl_Attestor c) \<noteq> Some True) (ac_completedAttestors runCtx))\<rparr> \<and>
    length exported = sum_list (map (\<lambda>c. exports (cpl_Attestor c))
      (filter (\<lambda>c. cpl_Error c = None) (ac_completedAttestors runCtx))) \<and>
    (ro_ignoreErrors ro \<or> (\<forall>c \<in> set (ac_completedAttestors runCtx). cpl_Error c = None))"
proof -
  obtain ctx runCtx exported envelope where
    *: "NewContext (rn_getwd rn) stepName (ro_attestors ro) (ro_attestationOpts ro) = Inr ctx"
    "RunAttestors (rn_attest rn) (rn_now rn) (rn_schedule rn) ctx = Return (runCtx, None)"
    "export_loop rn ro (ac_completedAttestors runCtx) [] [] =
       (exported, List.map_filter attestor_error (ac_completedAttestors runCtx), None)"
    "ro_ignoreErrors ro \<or> (\<forall>c \<in> set (ac_completedAttestors runCtx). cpl_Error c = None)"
    "results = exported @ [empty_result\<lparr>rr_Collection :=
       NewCollection (ro_stepName ro) (filter for_collection (ac_completedAttestors runCtx)),
       rr_SignedEnvelope := envelope\<rparr>]"
    by (rule run_ok [OF assms])
  from export_loop_result [OF *(3)] have "length exported = sum_list (map (\<lambda>c. exports (cpl_Attestor c))
      (filter (\<lambda>c. cpl_Error c = None) (ac_completedAttestors runCtx)))" by simp
  then show ?thesis using *(1,2,4,5)
    by (intro exI [of _ ctx] exI [of _ runCtx] exI [of _ exported]
        exI [of _ "empty_result\<lparr>rr_Collection := NewCollection (ro_stepName ro)
          (filter for_collection (ac_completedAttestors runCtx)), rr_SignedEnvelope := envelope\<rparr>"])
      (simp add: NewCollection_def for_collection_def [abs_def])
qed

definition sample_run :: "unit attest \<Rightarrow> unit run_env" where
  "sample_run attest =
     \<lparr>rn_lib = sample_lib, rn_getwd = Inr ''wd'', rn_attest = attest, rn_now = (\<lambda>_. 0),
      rn_schedule = (\<lambda>_. [0, 0, 0]), rn_marshal_attestor = (\<lambda>a. Inr (att_Name a)),
      rn_marshal_collection = (\<lambda>c. Inr (col_Name c)), rn_marshal_statement = (\<lambda>s. Inr (st_PredicateType s))\<rparr>"

definition sample_options :: "unit run_option list" where
  "sample_options = [RunWithAttestors [sample_attestor ''m'' None None],
     RunWithSigners [Some (ECDSASigner ''k'' ''k'' SHA256)]]"

definition sample_results :: "unit RunResult list" where
  "sample_results =
     (case run (sample_run (\<lambda>a c. Return (a, None))) ''build'' sample_options of Return (rs, _) \<Rightarrow> rs)"

lemma sample_run_ok:
  "run (sample_run (\<lambda>a c. Return (a, None))) ''build'' sample_options = Return (sample_results, None)"
proof -
  have "case run (sample_run (\<lambda>a c. Return (a, None))) ''build'' sample_options of
      Return (rs, e) \<Rightarrow> e = None | _ \<Rightarrow> False"
    by code_simp
  then show ?thesis by (auto simp: sample_results_def split: outcome.splits)
qed

lemma sample_results_single: "map (\<lambda>r. map ca_Type (col_Attestations (rr_Collection r))) sample_results = [[''m'']]"
  by code_simp

theorem run_collection_exact_witness:
  "\<exists>ctx runCtx. RunAttestors (\<lambda>a c. Return (a, None)) (\<lambda>_. 0) (\<lambda>_. [0, 0, 0]) ctx = Return (runCtx, None) \<and>
     col_Attestations (rr_Collection (last sample_results)) = map NewCollectionAttestation
       (filter (\<lambda>c. cpl_Error c = None \<and> att_ExportedAttestations (cpl_Attestor c) = None \<and>
         Exporter (cpl_Attestor c) \<noteq> Some True) (ac_completedAttestors runCtx)) \<and>
     map (\<lambda>r. map ca_Type (col_Attestations (rr_Collection r))) sample_results = [[''m'']]"
proof -
  obtain ctx runCtx exported r where
    ra: "RunAttestors (\<lambda>a c. Return (a, None)) (\<lambda>_. 0) (\<lambda>_. [0, 0, 0]) ctx = Return (runCtx, None)"
    and res: "sample_results = exported @ [r]"
    and r: "rr_Collection r = \<lparr>col_Name = ro_stepName (new_runOptions ''build'' sample_options),
       col_Attestations = map NewCollectionAttestation
      (filter (\<lambda>c. cpl_Error c = None \<and> att_ExportedAttestations (cpl_Attestor c) = None \<and>
         Exporter (cpl_Attestor c) \<noteq> Some True) (ac_completedAttestors runCtx))\<rparr>"
    using run_collection_exact [OF sample_run_ok refl] by (auto simp: sample_run_def)
  have "last sample_results = r" unfolding res by simp
  with ra r sample_results_single show ?thesis
    by - (rule exI [of _ ctx], rule exI [of _ runCtx], simp)
qed

text \<open>C2. What a secure run signs, verifies: the last envelope's payload is the statement of the collection,
  of the collection's predicate type and with its subjects, and the envelope verifies against the
  verifier of any sound signer of the run that embeds no certificate.\<close>

theorem run_collection_verifies:
  assumes "run rn stepName opts = Return (results, None)" and "ro = new_runOptions stepName opts"
    and "\<not> ro_insecure ro" and "Some s \<in> set (ro_signers ro)" and "signer_sound (rn_lib rn) s"
    and "Signer_Verifier (rn_lib rn) s = Inr v" and "TrustBundler (rn_lib rn) s = None"
  shows "\<exists>data stmt. rn_marshal_collection rn (rr_Collection (last results)) = Inr data \<and>
    NewStatement CollectionType data (Collection_Subjects (rr_Collection (last results))) = (stmt, None) \<and>
    rn_marshal_statement rn stmt = Inr (env_Payload (rr_SignedEnvelope (last results))) \<and>
    env_PayloadType (rr_SignedEnvelope (last results)) = PayloadType \<and>
    (\<exists>cs. Envelope_Verify (rn_lib rn) now (rr_SignedEnvelope (last results)) [VerifyWithVerifiers [Some v]] = (cs, None))"
proof -
  obtain ctx runCtx exported envelope where
    "NewContext (rn_getwd rn) stepName (ro_attestors ro) (ro_attestationOpts ro) = Inr ctx"
    "RunAttestors (rn_attest rn) (rn_now rn) (rn_schedule rn) ctx = Return (runCtx, None)"
    "export_loop rn ro (ac_completedAttestors runCtx) [] [] =
       (exported, List.map_filter attestor_error (ac_completedAttestors runCtx), None)"
    "ro_ignoreErrors ro \<or> (\<forall>c \<in> set (ac_completedAttestors runCtx). cpl_Error c = None)"
    and results: "results = exported @ [empty_result\<lparr>rr_Collection :=
       NewCollection (ro_stepName ro) (filter for_collection (ac_completedAttestors runCtx)),
       rr_SignedEnvelope := envelope\<rparr>]"
    and signed: "ro_insecure ro \<and> envelope = empty_envelope \<or>
     \<not> ro_insecure ro \<and> createAndSignEnvelope rn (rn_marshal_collection rn
         (NewCollection (ro_stepName ro) (filter for_collection (ac_completedAttestors runCtx))))
       CollectionType (Collection_Subjects (NewCollection (ro_stepName ro)
         (filter for_collection (ac_completedAttestors runCtx)))) (sign_options ro) = (envelope, None)"
    by (rule run_ok [OF assms(1,2)])
  from results signed assms(3) have coll: "rr_Collection (last results) =
        NewCollection (ro_stepName ro) (filter for_collection (ac_completedAttestors runCtx))"
    and env: "rr_SignedEnvelope (last results) = envelope"
    and "createAndSignEnvelope rn (rn_marshal_collection rn (rr_Collection (last results))) CollectionType
      (Collection_Subjects (rr_Collection (last results))) (sign_options ro) = (envelope, None)"
    by simp_all
  then obtain data stmt json where "rn_marshal_collection rn (rr_Collection (last results)) = Inr data"
    "NewStatement CollectionType data (Collection_Subjects (rr_Collection (last results))) = (stmt, None)"
    "rn_marshal_statement rn stmt = Inr json"
    and signed: "dsse_Sign (rn_lib rn) PayloadType (Inr json)
      [SignWithSigners (ro_signers ro), SignWithTimestampers (ro_timestampers ro)] = (envelope, None)"
    by (auto simp: createAndSignEnvelope_def sign_options_def split: sum.splits prod.splits option.splits)
  with dsse_roundtrip [OF signed assms(4-7), of "[Some v]" now] show ?thesis by (auto simp: env)
qed

theorem run_collection_verifies_witness:
  "\<exists>cs. Envelope_Verify sample_lib (\<lambda>_. 0) (rr_SignedEnvelope (last sample_results))
     [VerifyWithVerifiers [Some (ECDSAVerifier ''k'' SHA256)]] = (cs, None)"
proof -
  have "signer_sound sample_lib (ECDSASigner ''k'' ''k'' SHA256)"
    "Signer_Verifier sample_lib (ECDSASigner ''k'' ''k'' SHA256) = Inr (ECDSAVerifier ''k'' SHA256)"
    "TrustBundler sample_lib (ECDSASigner ''k'' ''k'' SHA256) = None"
    by (simp_all add: sample_lib_def)
  with run_collection_verifies [OF sample_run_ok refl, of "ECDSASigner ''k'' ''k'' SHA256"
      "ECDSAVerifier ''k'' SHA256" "\<lambda>_. 0"]
  show ?thesis
    by (auto simp: sample_run_def sample_options_def new_runOptions_def RunWithAttestors_def RunWithSigners_def)
qed

text \<open>C4. A failing attestor fails the run, unless errors are ignored: when some attestor completed with an
  error the run returns an error, whatever it had exported by then.\<close>

theorem run_reports_failures:
  assumes "NewContext (rn_getwd rn) stepName (ro_attestors ro) (ro_attestationOpts ro) = Inr ctx"
    and "RunAttestors (rn_attest rn) (rn_now rn) (rn_schedule rn) ctx = Return (runCtx, None)"
    and "c \<in> set (ac_completedAttestors runCtx)" and "cpl_Error c \<noteq> None"
    and "ro = new_runOptions stepName opts" and "\<not> ro_ignoreErrors ro"
  shows "\<exists>results err. run rn stepName opts = Return (results, Some err)"
proof -
  obtain results r where res: "run rn stepName opts = Return (results, r)"
  proof -
    have "\<exists>p. run rn stepName opts = Return p"
      by (cases "validateRunOpts ro") (simp_all add: run_def Let_def assms(5) [symmetric] assms(1,2))
    then show ?thesis using that by (metis prod.exhaust)
  qed
  show ?thesis
  proof (cases r)
    case None
    obtain ctx' runCtx' where "NewContext (rn_getwd rn) stepName (ro_attestors ro) (ro_attestationOpts ro) = Inr ctx'"
      "RunAttestors (rn_attest rn) (rn_now rn) (rn_schedule rn) ctx' = Return (runCtx', None)"
      "ro_ignoreErrors ro \<or> (\<forall>c \<in> set (ac_completedAttestors runCtx'). cpl_Error c = None)"
      using run_ok [OF res [unfolded None] assms(5)] by metis
    with assms show ?thesis by auto
  next
    case (Some err)
    with res show ?thesis by blast
  qed
qed

definition sample_failing :: "unit run_env" where
  "sample_failing = sample_run (\<lambda>a c. Return (a, Some (LibError ''attest'')))"

definition sample_failing_ctx :: "unit AttestationContext" where
  "sample_failing_ctx = projr (NewContext (Inr ''wd'') ''build''
     (ro_attestors (new_runOptions ''build'' sample_options)) (ro_attestationOpts (new_runOptions ''build'' sample_options)))"

definition sample_failed_ctx :: "unit AttestationContext" where
  "sample_failed_ctx =
     (case RunAttestors (rn_attest sample_failing) (rn_now sample_failing) (rn_schedule sample_failing)
        sample_failing_ctx of Return (ctx, _) \<Rightarrow> ctx)"

theorem run_reports_failures_witness:
  "\<exists>results err. run sample_failing ''build'' sample_options = Return (results, Some err)"
proof (rule run_reports_failures [OF _ _ _ _ refl, of _ _ _ sample_failing_ctx sample_failed_ctx "hd (ac_completedAttestors sample_failed_ctx)"])
  show "NewContext (rn_getwd sample_failing) ''build'' (ro_attestors (new_runOptions ''build'' sample_options))
      (ro_attestationOpts (new_runOptions ''build'' sample_options)) = Inr sample_failing_ctx"
    by (simp add: sample_failing_ctx_def NewContext_def sample_failing_def sample_run_def)
  have "case RunAttestors (rn_attest sample_failing) (rn_now sample_failing) (rn_schedule sample_failing)
      sample_failing_ctx of Return (ctx, e) \<Rightarrow> e = None | _ \<Rightarrow> False"
    by code_simp
  then show "RunAttestors (rn_attest sample_failing) (rn_now sample_failing) (rn_schedule sample_failing)
      sample_failing_ctx = Return (sample_failed_ctx, None)"
    by (auto simp: sample_failed_ctx_def split: outcome.splits)
  have "map cpl_Error (ac_completedAttestors sample_failed_ctx) = [Some (LibError ''attest'')]"
    by code_simp
  then show "hd (ac_completedAttestors sample_failed_ctx) \<in> set (ac_completedAttestors sample_failed_ctx)"
    and "cpl_Error (hd (ac_completedAttestors sample_failed_ctx)) \<noteq> None"
    by (cases "ac_completedAttestors sample_failed_ctx"; simp)+
  show "\<not> ro_ignoreErrors (new_runOptions ''build'' sample_options)"
    by (simp add: new_runOptions_def sample_options_def RunWithAttestors_def RunWithSigners_def)
qed

end
