(* ===== verification/Verify_Sample.thy ===== *)
theory Verify_Sample
  imports Run
begin

text \<open>
  A policy, an envelope and a source that verify: the concrete run of \<open>Verify\<close> that the end-to-end theorem is applied to.
\<close>

definition sample_pass_policy :: Policy where
  "sample_pass_policy = sample_policy\<lparr>pol_PublicKeys :=
     [(sample_key_id, \<lparr>pk_KeyID = sample_key_id, pk_Key = ''Ek''\<rparr>)]\<rparr>"

definition sample_verify_env :: "(unit CollectionEnvelope list, unit, unit) verify_env" where
  "sample_verify_env =
     \<lparr>ve_lib = sample_lib, ve_certs = sample_cert_lib, ve_rego = sample_rego,
      ve_kms = \<lparr>providersMap = [], providerOptionsMap = [], opts_Init = (\<lambda>_. []), opts_ProviderName = (\<lambda>_. [])\<rparr>,
      ve_Unmarshal = (\<lambda>_. Inr sample_pass_policy), ve_Search = sample_search, ve_order = (\<lambda>_ steps. steps),
      ve_signatureNow = (\<lambda>_. 0), ve_expiryNow = 0, ve_searchNow = (\<lambda>_ _ _. 0), ve_summaryNow = 0\<rparr>"

definition sample_verify_run :: "(unit CollectionEnvelope list, unit, unit, unit) any_state run_env" where
  "sample_verify_run =
     \<lparr>rn_lib = sample_lib, rn_getwd = Inr ''wd'',
      rn_attest = verify_attest sample_verify_env (\<lambda>a c. Return (a, None)), rn_now = (\<lambda>_. 0),
      rn_schedule = (\<lambda>_. [0, 0, 0]), rn_marshal_attestor = (\<lambda>a. Inr (att_Name a)),
      rn_marshal_collection = (\<lambda>c. Inr (col_Name c)), rn_marshal_statement = (\<lambda>s. Inr (st_PredicateType s))\<rparr>"

definition sample_verify_options :: "(unit CollectionEnvelope list, unit, unit, unit) verify_option list" where
  "sample_verify_options = [vf_WithCollectionSource (Some [sample_found]),
     vf_WithSubjectDigests [[(plain_digest SHA256, ''d'')]]]"

lemma sample_verify_passes:
  obtains vr where "Verify sample_verify_run sample_envelope [Some (ECDSAVerifier ''k'' SHA256)] sample_verify_options =
    Return (vr, None)"
proof -
  have "case Verify sample_verify_run sample_envelope [Some (ECDSAVerifier ''k'' SHA256)] sample_verify_options of
      Return (r, e) \<Rightarrow> e = None | _ \<Rightarrow> False"
    by code_simp
  then show ?thesis using that by (auto split: outcome.splits)
qed

end
