(* ===== verification/Go_Path.thy ===== *)
theory Go_Path
  imports Go_Prelude
begin

text \<open>
  What the attestors use of \<open>path/filepath\<close>, \<open>strings\<close> and \<open>bytes\<close>: splitting and joining, cleaning and
  joining slash-separated paths (a system other than Windows), prefixes, suffixes and substrings.
\<close>

section \<open>Splitting\<close>

text \<open>\<open>strings.Split\<close> at a separator of one byte: always at least one part.\<close>

fun split_at :: "char \<Rightarrow> string \<Rightarrow> string list" where
  "split_at c [] = [[]]"
| "split_at c (x # xs) =
     (if x = c then [] # split_at c xs
      else (case split_at c xs of [] \<Rightarrow> [[x]] | p # ps \<Rightarrow> (x # p) # ps))"

definition has_prefix :: "string \<Rightarrow> string \<Rightarrow> bool" where
  "has_prefix s p \<longleftrightarrow> take (length p) s = p"

definition has_suffix :: "string \<Rightarrow> string \<Rightarrow> bool" where
  "has_suffix s p \<longleftrightarrow> has_prefix (rev s) (rev p)"

text \<open>\<open>strings.Contains\<close> and \<open>bytes.Contains\<close>\<close>

fun contains :: "string \<Rightarrow> string \<Rightarrow> bool" where
  "contains [] p = (p = [])"
| "contains (x # xs) p = (has_prefix (x # xs) p \<or> contains xs p)"

definition trim_prefix :: "string \<Rightarrow> string \<Rightarrow> string" where
  "trim_prefix s p = (if has_prefix s p then drop (length p) s else s)"

definition trim_suffix :: "string \<Rightarrow> string \<Rightarrow> string" where
  "trim_suffix s p = (if has_suffix s p then take (length s - length p) s else s)"

text \<open>The white space of \<open>strings.TrimSpace\<close>, for ASCII text.\<close>

definition is_space :: "char \<Rightarrow> bool" where
  "is_space c \<longleftrightarrow> List.member [CHR 0x09, CHR 0x0A, CHR 0x0B, CHR 0x0C, CHR 0x0D, CHR '' ''] c"

definition trim_space :: "string \<Rightarrow> string" where
  "trim_space s = rev (dropWhile is_space (rev (dropWhile is_space s)))"

definition to_lower_char :: "char \<Rightarrow> char" where
  "to_lower_char c =
     (if 65 \<le> (of_char c :: nat) \<and> (of_char c :: nat) \<le> 90 then char_of (of_char c + 32 :: nat) else c)"

text \<open>\<open>strings.ToLower\<close>, for ASCII text.\<close>

definition to_lower :: "string \<Rightarrow> string" where
  "to_lower = map to_lower_char"

section \<open>Paths\<close>

text \<open>The loop of \<open>filepath.Clean\<close>: the elements that are kept, last first.\<close>

fun clean_loop :: "bool \<Rightarrow> string list \<Rightarrow> string list \<Rightarrow> string list" where
  "clean_loop rooted [] kept = rev kept"
| "clean_loop rooted (e # es) kept =
     (if e = [] \<or> e = ''.'' then clean_loop rooted es kept
      else if e = ''..''
      then (case kept of
              [] \<Rightarrow> clean_loop rooted es (if rooted then [] else [''..''])
            | k # ks \<Rightarrow> if k = ''..'' then clean_loop rooted es (''..'' # kept) else clean_loop rooted es ks)
      else clean_loop rooted es (e # kept))"

definition filepath_Clean :: "string \<Rightarrow> string" where
  "filepath_Clean path =
     (let rooted = (path \<noteq> [] \<and> hd path = CHR ''/'');
          s = join_strings ''/'' (clean_loop rooted (split_at (CHR ''/'') path) [])
      in if rooted then CHR ''/'' # s else if s = [] then ''.'' else s)"

definition filepath_Join :: "string \<Rightarrow> string \<Rightarrow> string" where
  "filepath_Join a b =
     (if a = [] then (if b = [] then [] else filepath_Clean b)
      else if b = [] then filepath_Clean a
      else filepath_Clean (a @ ''/'' @ b))"

section \<open>Lemmas\<close>

lemma split_at_not_Nil [simp]: "split_at c s \<noteq> []"
  by (induction s) (auto split: list.splits)

lemma split_at_join: "join_strings [c] (split_at c s) = s"
proof (induction s)
  case (Cons x xs)
  obtain p ps where ps: "split_at c xs = p # ps" by (cases "split_at c xs") auto
  with Cons show ?case by (cases ps) auto
qed simp

lemma split_at_no_sep: "c \<notin> set s \<Longrightarrow> split_at c s = [s]"
  by (induction s) auto

lemma split_at_append: "c \<notin> set s \<Longrightarrow> split_at c (s @ c # t) = s # split_at c t"
  by (induction s) auto

lemma split_at_join_strings:
  "ps \<noteq> [] \<Longrightarrow> \<forall>p \<in> set ps. c \<notin> set p \<Longrightarrow> split_at c (join_strings [c] ps) = ps"
  by (induction "[c]" ps rule: join_strings.induct) (auto simp: split_at_no_sep split_at_append)

lemma split_at_parts: "p \<in> set (split_at c s) \<Longrightarrow> c \<notin> set p"
  by (induction s arbitrary: p) (auto split: if_splits list.splits)

lemma has_prefix_iff: "has_prefix s p \<longleftrightarrow> (\<exists>t. s = p @ t)"
  by (metis append_eq_conv_conj append_take_drop_id has_prefix_def)

lemma has_suffix_iff: "has_suffix s p \<longleftrightarrow> (\<exists>t. s = t @ p)"
  unfolding has_suffix_def has_prefix_iff by (metis rev_append rev_rev_ident)

lemma contains_iff: "contains s p \<longleftrightarrow> (\<exists>t u. s = t @ p @ u)"
proof (induction s)
  case (Cons x xs)
  then show ?case by (auto simp: has_prefix_iff Cons_eq_append_conv)
qed simp

text \<open>A path is plain when it is relative and has no empty, dot or dot-dot element; cleaning keeps it.\<close>

definition plain_name :: "string \<Rightarrow> bool" where
  "plain_name e \<longleftrightarrow> e \<noteq> [] \<and> e \<noteq> ''.'' \<and> e \<noteq> ''..'' \<and> CHR ''/'' \<notin> set e"

lemma clean_loop_plain:
  "\<forall>e \<in> set es. plain_name e \<Longrightarrow> clean_loop rooted es kept = rev kept @ es"
  by (induction es arbitrary: kept) (auto simp: plain_name_def)

lemma filepath_Clean_plain:
  assumes "es \<noteq> []" and "\<forall>e \<in> set es. plain_name e"
  shows "filepath_Clean (join_strings ''/'' es) = join_strings ''/'' es"
proof -
  have s: "split_at (CHR ''/'') (join_strings ''/'' es) = es"
    using assms by (intro split_at_join_strings) (auto simp: plain_name_def)
  obtain e es' where es: "es = e # es'" using assms(1) by (cases es) auto
  with assms(2) have "e \<noteq> []" "CHR ''/'' \<notin> set e" by (auto simp: plain_name_def)
  then obtain c e' where "e = c # e'" "c \<noteq> CHR ''/''" by (cases e) auto
  then obtain t where t: "join_strings ''/'' es = c # t" unfolding es by (cases es') auto
  then show ?thesis using s clean_loop_plain [OF assms(2)] \<open>c \<noteq> CHR ''/''\<close>
    by (simp add: filepath_Clean_def Let_def split: list.splits)
qed

end
