(* ===== verification/Command_Run.thy ===== *)
theory Command_Run
  imports Attest_Context Go_Path
begin

unbundle bit_operations_syntax

text \<open>
  The attestor that runs a command: \<open>attestation/commandrun/commandrun.go\<close> and \<open>tracing_linux.go\<close>.

  Tracing is a loop over what \<open>wait4\<close> reports. The model takes these reports as a list, each with what
  the calls made for it would return (registers, memory of the process, files under \<open>/proc\<close>), and returns
  \<open>None\<close> when the list ends before the loop does, or when a hook is never ready: the code still waits. The
  \<open>ptrace\<close> calls that let a process go on are kept in the state, in order, with the signal they deliver.
  Log output is not modelled.
\<close>

section \<open>Blocking computations\<close>

text \<open>\<open>None\<close> when the code does not return.\<close>

definition bindB :: "'a outcome option \<Rightarrow> ('a \<Rightarrow> 'b outcome option) \<Rightarrow> 'b outcome option" where
  "bindB m f = (case m of None \<Rightarrow> None | Some (Return x) \<Rightarrow> f x | Some (Panic msg) \<Rightarrow> Some (Panic msg))"

section \<open>Processes\<close>

text \<open>A digest set that is nil is \<open>None\<close>.\<close>

record ProcessInfo =
  pi_Program :: string
  pi_ProcessID :: int
  pi_ParentPID :: int
  pi_ProgramDigest :: "digest_set option"
  pi_Comm :: string
  pi_Cmdline :: string
  pi_ExeDigest :: "digest_set option"
  pi_OpenedFiles :: "(string, digest_set option) gomap"
  pi_Environ :: string
  pi_SpecBypassIsVuln :: bool

record CommandRun =
  cr_Cmd :: "string list"
  cr_Stdout :: string
  cr_Stderr :: string
  cr_ExitCode :: int
  cr_Processes :: "ProcessInfo list"
  cr_silent :: bool
  cr_materials :: "(string, digest_set) gomap"
  cr_enableTracing :: bool
  cr_executeHooks :: "ExecuteHooks option"

type_synonym commandrun_option = "CommandRun \<Rightarrow> CommandRun"

definition WithCommand :: "string list \<Rightarrow> commandrun_option" where
  "WithCommand cmd cr = cr\<lparr>cr_Cmd := cmd\<rparr>"

definition WithMaterials :: "(string, digest_set) gomap \<Rightarrow> commandrun_option" where
  "WithMaterials materials cr = cr\<lparr>cr_materials := materials\<rparr>"

definition WithTracing :: "bool \<Rightarrow> commandrun_option" where
  "WithTracing enabled cr = cr\<lparr>cr_enableTracing := enabled\<rparr>"

definition WithSilent :: "bool \<Rightarrow> commandrun_option" where
  "WithSilent silent cr = cr\<lparr>cr_silent := silent\<rparr>"

definition commandrun_New :: "commandrun_option list \<Rightarrow> CommandRun" where
  "commandrun_New opts =
     fold (\<lambda>opt cr. opt cr) opts
       \<lparr>cr_Cmd = [], cr_Stdout = [], cr_Stderr = [], cr_ExitCode = 0, cr_Processes = [], cr_silent = False,
        cr_materials = [], cr_enableTracing = False, cr_executeHooks = None\<rparr>"

definition commandrun_Name :: string where "commandrun_Name = ''command-run''"
definition commandrun_Type :: string where "commandrun_Type = ''https://witness.dev/attestations/command-run/v0.1''"

section \<open>Strings\<close>

definition itoa :: "int \<Rightarrow> string" where
  "itoa i = (if i < 0 then CHR ''-'' # dec (nat (- i)) else dec (nat i))"

definition cleanString :: "string \<Rightarrow> string" where
  "cleanString s = trim_space (map (\<lambda>c. if c = CHR 0x00 then CHR '' '' else c) s)"

definition digit_value :: "char \<Rightarrow> int option" where
  "digit_value c = (if 48 \<le> (of_char c :: nat) \<and> (of_char c :: nat) \<le> 57 then Some (of_char c - 48) else None)"

primrec parse_digits :: "string \<Rightarrow> int \<Rightarrow> int option" where
  "parse_digits [] acc = Some acc"
| "parse_digits (c # cs) acc = (case digit_value c of None \<Rightarrow> None | Some d \<Rightarrow> parse_digits cs (10 * acc + d))"

text \<open>\<open>strconv.Atoi\<close> on a 64-bit platform; it returns a value even with an error, which the callers ignore.\<close>

definition strconv_Atoi :: "string \<Rightarrow> gerr + int" where
  "strconv_Atoi s =
     (let (neg, ds) = (if s \<noteq> [] \<and> (hd s = CHR ''-'' \<or> hd s = CHR ''+'') then (hd s = CHR ''-'', tl s) else (False, s))
      in if ds = [] then Inl (LibError ''strconv.Atoi: invalid syntax'')
         else (case parse_digits ds 0 of
                 None \<Rightarrow> Inl (LibError ''strconv.Atoi: invalid syntax'')
               | Some n \<Rightarrow>
                   (let i = (if neg then - n else n)
                    in if i < - (2 ^ 63) \<or> 2 ^ 63 \<le> i then Inl (LibError ''strconv.Atoi: value out of range'')
                       else Inr i)))"

definition second_part :: "string \<Rightarrow> string" where
  "second_part line = trim_space (split_at (CHR '':'') line ! 1)"

definition getPPIDFromStatus :: "bytes \<Rightarrow> gerr + int" where
  "getPPIDFromStatus status =
     (case List.find (\<lambda>line. contains line ''PPid:'') (split_at (CHR 0x0A) status) of
        None \<Rightarrow> Inr 0
      | Some line \<Rightarrow> strconv_Atoi (second_part line))"

definition getSpecBypassIsVulnFromStatus :: "bytes \<Rightarrow> bool" where
  "getSpecBypassIsVulnFromStatus status =
     list_ex (\<lambda>line. contains line ''Speculation_Store_Bypass:'' \<and> contains (second_part line) ''vulnerable'')
       (split_at (CHR 0x0A) status)"

section \<open>What the kernel reports\<close>

text \<open>The registers by name; the mapping of every architecture that has one.\<close>

type_synonym ptrace_regs = "string \<Rightarrow> 64 word"

definition getSyscallId :: "ptrace_regs \<Rightarrow> 64 word" where
  "getSyscallId regs = regs ''Orig_rax''"

definition getSyscallArgs :: "ptrace_regs \<Rightarrow> 64 word list" where
  "getSyscallArgs regs = map regs [''Rdi'', ''Rsi'', ''Rdx'', ''R10'', ''R8'', ''R9'']"

text \<open>System call numbers of amd64, and constants of \<open>ptrace\<close>.\<close>

definition SYS_EXECVE :: "64 word" where "SYS_EXECVE = 59"
definition SYS_OPENAT :: "64 word" where "SYS_OPENAT = 257"
definition PTRACE_EVENTMSG_SYSCALL_ENTRY :: "64 word" where "PTRACE_EVENTMSG_SYSCALL_ENTRY = 1"
definition PTRACE_EVENT_EXIT :: "32 word" where "PTRACE_EVENT_EXIT = 6"
definition SIGTRAP :: "32 word" where "SIGTRAP = 5"
definition MAX_PATH_LEN :: nat where "MAX_PATH_LEN = 4096"

text \<open>A wait status: exited with a code, killed by a signal, stopped (with the status word), or none of
  these.\<close>

datatype wait_status = WExited int | WSignaled int | WStopped "32 word" | WOther

definition StopSignal :: "32 word \<Rightarrow> 32 word" where
  "StopSignal status = drop_bit 8 status AND 0xFF"

definition eventCode :: "32 word \<Rightarrow> 32 word" where
  "eventCode status = drop_bit 16 status AND 0xFFFF"

text \<open>A report of \<open>wait4\<close> and what the calls made for it return. A read of the process's memory fills a
  buffer of the length asked for and says how many bytes it read.\<close>

record trace_event =
  te_pid :: int
  te_status :: wait_status
  te_regs :: "gerr + ptrace_regs"
  te_msg :: "gerr + 64 word"
  te_read :: "64 word \<Rightarrow> nat \<Rightarrow> gerr + nat \<times> bytes"
  te_ReadFile :: "string \<Rightarrow> gerr + bytes"
  te_Open :: "string \<Rightarrow> gerr + open_file"

record ptraceContext =
  pt_traceePid :: int
  pt_mainProgram :: string
  pt_processes :: "(int, ProcessInfo) gomap"
  pt_exitCode :: int
  pt_hash :: "digest_value list"
  pt_environmentCapturer :: "Capture option"
  pt_executeHooks :: "ExecuteHooks option"
  pt_hooksOnly :: bool
  pt_hasPreExec :: bool
  pt_hasPreExit :: bool
  pt_resumed :: "(int \<times> 32 word) list"

text \<open>The rest of what a trace takes from outside.\<close>

record trace_env =
  tv_lib :: crypto_lib
  tv_glob :: glob_lib
  tv_IsPathError :: "gerr \<Rightarrow> bool"
  tv_ready :: "nat \<Rightarrow> bool"
  tv_firstWait :: "gerr option"
  tv_setOptions :: "gerr option"
  tv_firstResume :: "gerr option"
  tv_detach :: "gerr option"
  tv_lastWait :: "gerr + wait_status"
  tv_cont :: "nat \<Rightarrow> gerr option"
  tv_OpenAtEnd :: "string \<Rightarrow> gerr + open_file"
  tv_events :: "(gerr + trace_event) list"

section \<open>Handling a system call\<close>

definition new_proc :: "int \<Rightarrow> ProcessInfo" where
  "new_proc pid =
     \<lparr>pi_Program = [], pi_ProcessID = pid, pi_ParentPID = 0, pi_ProgramDigest = None, pi_Comm = [], pi_Cmdline = [],
      pi_ExeDigest = None, pi_OpenedFiles = [], pi_Environ = [], pi_SpecBypassIsVuln = False\<rparr>"

text \<open>\<open>getProcInfo\<close> adds the process when it is not there; the caller works on the entry through a pointer,
  which is \<open>set_proc\<close>.\<close>

definition getProcInfo :: "int \<Rightarrow> ptraceContext \<Rightarrow> ptraceContext \<times> ProcessInfo" where
  "getProcInfo pid p =
     (case map_of (pt_processes p) pid of
        Some procInfo \<Rightarrow> (p, procInfo)
      | None \<Rightarrow> (p\<lparr>pt_processes := AList.update pid (new_proc pid) (pt_processes p)\<rparr>, new_proc pid))"

definition set_proc :: "int \<Rightarrow> ProcessInfo \<Rightarrow> ptraceContext \<Rightarrow> ptraceContext" where
  "set_proc pid procInfo p = p\<lparr>pt_processes := AList.update pid procInfo (pt_processes p)\<rparr>"

definition procInfoArray :: "ptraceContext \<Rightarrow> ProcessInfo list" where
  "procInfoArray p = map snd (pt_processes p)"

text \<open>The slice up to the first zero byte; without one its index is minus one and slicing panics.\<close>

definition readSyscallReg :: "trace_event \<Rightarrow> 64 word \<Rightarrow> nat \<Rightarrow> (gerr + string) outcome" where
  "readSyscallReg ev addr n =
     (case te_read ev addr n of
        Inl err \<Rightarrow> Return (Inl err)
      | Inr (numBytes, data) \<Rightarrow>
          if numBytes = 0 then Return (Inr [])
          else if List.member data (CHR 0x00) then Return (Inr (takeWhile (\<lambda>c. c \<noteq> CHR 0x00) data))
          else Panic ''slice bounds out of range [:-1]'')"

definition on_success :: "gerr + 'a \<Rightarrow> ('a \<Rightarrow> 'p \<Rightarrow> 'p) \<Rightarrow> 'p \<Rightarrow> 'p" where
  "on_success r f p = (case r of Inl err \<Rightarrow> p | Inr x \<Rightarrow> f x p)"

definition digest_result :: "digest_set \<times> gerr option \<Rightarrow> gerr + digest_set" where
  "digest_result r = (case r of (_, Some err) \<Rightarrow> Inl err | (ds, None) \<Rightarrow> Inr ds)"

definition proc_file :: "int \<Rightarrow> string \<Rightarrow> string" where
  "proc_file pid name = ''/proc/'' @ itoa pid @ ''/'' @ name"

text \<open>What an \<open>execve\<close> tells about the process. Capturing the environment changes the capturer.\<close>

definition exec_environ ::
  "trace_env \<Rightarrow> trace_event \<Rightarrow> Capture option \<Rightarrow> ProcessInfo \<Rightarrow> (Capture option \<times> ProcessInfo) outcome" where
  "exec_environ env ev capturer procInfo =
     (case te_ReadFile ev (proc_file (pi_ProcessID procInfo) ''environ'') of
        Inl err \<Rightarrow> Return (capturer, procInfo)
      | Inr environ \<Rightarrow>
          (case capturer of
             None \<Rightarrow> Panic nil_panic
           | Some c \<Rightarrow>
               bindO (Capture_Capture (tv_glob env) c (split_at (CHR 0x00) environ))
                 (\<lambda>(c', capturedEnv). Return (Some c', procInfo\<lparr>pi_Environ :=
                    join_strings '' '' (map (\<lambda>(k, v). k @ ''='' @ v) capturedEnv)\<rparr>))))"

definition handle_execve ::
  "trace_env \<Rightarrow> trace_event \<Rightarrow> int \<Rightarrow> 64 word list \<Rightarrow> ptraceContext \<Rightarrow> ptraceContext outcome" where
  "handle_execve env ev pid argArray p =
     (let (p, procInfo) = getProcInfo pid p;
          digestFile = (\<lambda>file. digest_result (CalculateDigestSetFromFile (tv_lib env) (te_Open ev) file (pt_hash p)))
      in bindO (readSyscallReg ev (argArray ! 0) MAX_PATH_LEN)
        (\<lambda>program.
           let procInfo = on_success program (\<lambda>s pi. pi\<lparr>pi_Program := s\<rparr>) procInfo;
               procInfo = on_success (te_ReadFile ev (proc_file (pi_ProcessID procInfo) ''status''))
                 (\<lambda>status pi. on_success (getPPIDFromStatus status) (\<lambda>ppid pi. pi\<lparr>pi_ParentPID := ppid\<rparr>)
                    (pi\<lparr>pi_SpecBypassIsVuln := getSpecBypassIsVulnFromStatus status\<rparr>)) procInfo;
               procInfo = on_success (te_ReadFile ev (proc_file (pi_ProcessID procInfo) ''comm''))
                 (\<lambda>comm pi. pi\<lparr>pi_Comm := cleanString comm\<rparr>) procInfo
           in bindO (exec_environ env ev (pt_environmentCapturer p) procInfo)
             (\<lambda>(capturer, procInfo).
                let procInfo = on_success (te_ReadFile ev (proc_file (pi_ProcessID procInfo) ''cmdline''))
                      (\<lambda>cmdline pi. pi\<lparr>pi_Cmdline := cleanString cmdline\<rparr>) procInfo;
                    procInfo = on_success (digestFile (proc_file (pi_ProcessID procInfo) ''exe''))
                      (\<lambda>ds pi. pi\<lparr>pi_ExeDigest := Some ds\<rparr>) procInfo;
                    procInfo = on_success program
                      (\<lambda>s pi. if s \<noteq> [] then on_success (digestFile s) (\<lambda>ds pi. pi\<lparr>pi_ProgramDigest := Some ds\<rparr>) pi else pi)
                      procInfo
                in Return (set_proc pid procInfo (p\<lparr>pt_environmentCapturer := capturer\<rparr>)))))"

definition handle_openat ::
  "trace_env \<Rightarrow> trace_event \<Rightarrow> int \<Rightarrow> 64 word list \<Rightarrow> ptraceContext \<Rightarrow> (ptraceContext \<times> gerr option) outcome" where
  "handle_openat env ev pid argArray p =
     bindO (readSyscallReg ev (argArray ! 1) MAX_PATH_LEN)
       (\<lambda>r. case r of
          Inl err \<Rightarrow> Return (p, Some err)
        | Inr file \<Rightarrow>
            (let (p, procInfo) = getProcInfo pid p
             in case CalculateDigestSetFromFile (tv_lib env) (te_Open ev) file (pt_hash p) of
                  (_, Some err) \<Rightarrow>
                    Return (if tv_IsPathError env err
                            then set_proc pid (procInfo\<lparr>pi_OpenedFiles := AList.update file None (pi_OpenedFiles procInfo)\<rparr>) p
                            else p, Some err)
                | (digestSet, None) \<Rightarrow>
                    Return (set_proc pid (procInfo\<lparr>pi_OpenedFiles :=
                        AList.update file (Some digestSet) (pi_OpenedFiles procInfo)\<rparr>) p, None)))"

definition handleSyscall ::
  "trace_env \<Rightarrow> trace_event \<Rightarrow> int \<Rightarrow> ptrace_regs \<Rightarrow> ptraceContext \<Rightarrow> (ptraceContext \<times> gerr option) outcome" where
  "handleSyscall env ev pid regs p =
     (let argArray = getSyscallArgs regs; syscallId = getSyscallId regs
      in if syscallId = SYS_EXECVE then bindO (handle_execve env ev pid argArray p) (\<lambda>p. Return (p, None))
         else if syscallId = SYS_OPENAT then handle_openat env ev pid argArray p
         else Return (p, None))"

definition nextSyscall ::
  "trace_env \<Rightarrow> trace_event \<Rightarrow> int \<Rightarrow> ptraceContext \<Rightarrow> (ptraceContext \<times> gerr option) outcome" where
  "nextSyscall env ev pid p =
     (case te_regs ev of
        Inl err \<Rightarrow> Return (p, Some err)
      | Inr regs \<Rightarrow>
          (case te_msg ev of
             Inl err \<Rightarrow> Return (p, Some err)
           | Inr msg \<Rightarrow>
               if msg = PTRACE_EVENTMSG_SYSCALL_ENTRY then handleSyscall env ev pid regs p else Return (p, None)))"

section \<open>The loops\<close>

definition resume :: "int \<Rightarrow> 32 word \<Rightarrow> ptraceContext \<Rightarrow> ptraceContext" where
  "resume pid sig p = p\<lparr>pt_resumed := pt_resumed p @ [(pid, sig)]\<rparr>"

text \<open>\<open>RunHooks\<close> on the hooks of the context; a nil pointer panics.\<close>

definition run_trace_hooks ::
  "trace_env \<Rightarrow> ExecuteHookStage \<Rightarrow> int \<Rightarrow> ptraceContext \<Rightarrow> gerr option outcome option" where
  "run_trace_hooks env stage pid p =
     (case pt_executeHooks p of
        None \<Rightarrow> Some (Panic nil_panic)
      | Some h \<Rightarrow> map_option (\<lambda>(called, err). Return err) (RunHooks (tv_ready env) stage pid h))"

definition signal_exit :: "int \<Rightarrow> int" where
  "signal_exit sig = 128 + sig"

definition handle_stop ::
  "trace_env \<Rightarrow> trace_event \<Rightarrow> 32 word \<Rightarrow> ptraceContext \<Rightarrow> ptraceContext outcome option" where
  "handle_stop env ev status p =
     (let pid = te_pid ev; sig = StopSignal status
      in if sig = SIGTRAP OR 0x80
         then Some (bindO (nextSyscall env ev pid p) (\<lambda>(p, err). Return (resume pid 0 p)))
         else if sig = SIGTRAP
         then (if eventCode status \<noteq> 0
               then bindB (if eventCode status = PTRACE_EVENT_EXIT \<and> pid = pt_traceePid p \<and> pt_hasPreExit p
                           then run_trace_hooks env StagePreExit pid p else Some (Return None))
                      (\<lambda>err. Some (Return (resume pid 0 p)))
               else Some (Return (resume pid sig p)))
         else Some (Return (resume pid sig p)))"

primrec trace_loop ::
  "trace_env \<Rightarrow> (gerr + trace_event) list \<Rightarrow> ptraceContext \<Rightarrow> (ptraceContext \<times> gerr option) outcome option" where
  "trace_loop env [] p = None"
| "trace_loop env (event # events) p =
     (case event of
        Inl err \<Rightarrow> Some (Return (p, Some err))
      | Inr ev \<Rightarrow>
          (case te_status ev of
             WExited code \<Rightarrow>
               if te_pid ev = pt_traceePid p then Some (Return (p\<lparr>pt_exitCode := code\<rparr>, None))
               else trace_loop env events (resume (te_pid ev) 0 p)
           | WSignaled sig \<Rightarrow>
               if te_pid ev = pt_traceePid p then Some (Return (p\<lparr>pt_exitCode := signal_exit sig\<rparr>, None))
               else trace_loop env events (resume (te_pid ev) 0 p)
           | WStopped status \<Rightarrow> bindB (handle_stop env ev status p) (trace_loop env events)
           | WOther \<Rightarrow> trace_loop env events (resume (te_pid ev) 0 p)))"

text \<open>\<open>waitForExitOnly\<close>: the loop, over the reports for the command itself; \<open>k\<close> counts the calls of
  \<open>PtraceCont\<close>.\<close>

primrec exit_loop ::
  "trace_env \<Rightarrow> (gerr + trace_event) list \<Rightarrow> nat \<Rightarrow> ptraceContext \<Rightarrow> (ptraceContext \<times> gerr option) outcome option" where
  "exit_loop env [] k p = None"
| "exit_loop env (event # events) k p =
     (case event of
        Inl err \<Rightarrow> Some (Return (p, Some (Errorf ''wait4 failed: %w'' [FErr err])))
      | Inr ev \<Rightarrow>
          (case te_status ev of
             WExited code \<Rightarrow> Some (Return (p\<lparr>pt_exitCode := code\<rparr>, None))
           | WSignaled sig \<Rightarrow> Some (Return (p\<lparr>pt_exitCode := signal_exit sig\<rparr>, None))
           | WOther \<Rightarrow> exit_loop env events k p
           | WStopped status \<Rightarrow>
               (let sig = StopSignal status; pid = pt_traceePid p
                in if sig = SIGTRAP \<and> eventCode status = PTRACE_EVENT_EXIT
                   then bindB (run_trace_hooks env StagePreExit pid p)
                          (\<lambda>err. Some (Return
                             (resume pid 0 (on_success (te_msg ev)
                                (\<lambda>exitStatus p. p\<lparr>pt_exitCode := uint (drop_bit 8 exitStatus)\<rparr>) p), None)))
                   else
                     (let injectedSig = (if sig = SIGTRAP \<and> eventCode status \<noteq> 0 then 0 else sig)
                      in case tv_cont env k of
                           Some err \<Rightarrow>
                             Some (Return (p, Some (Errorf ''failed to continue with signal %d: %w''
                               [FInt (uint injectedSig), FErr err])))
                         | None \<Rightarrow> exit_loop env events (Suc k) (resume pid injectedSig p)))))"

definition waitForExitOnly :: "trace_env \<Rightarrow> ptraceContext \<Rightarrow> (ptraceContext \<times> gerr option) outcome option" where
  "waitForExitOnly env p =
     (case tv_cont env 0 of
        Some err \<Rightarrow> Some (Return (p, Some (Errorf ''failed to continue: %w'' [FErr err])))
      | None \<Rightarrow> exit_loop env (tv_events env) 1 (resume (pt_traceePid p) 0 p))"

definition retryOpenedFiles :: "trace_env \<Rightarrow> ptraceContext \<Rightarrow> ptraceContext" where
  "retryOpenedFiles env p =
     (let (p, procInfo) = getProcInfo (pt_traceePid p) p;
          files = fold (\<lambda>(file, digestSet) opened.
              if digestSet \<noteq> None then opened
              else (case digest_result (CalculateDigestSetFromFile (tv_lib env) (tv_OpenAtEnd env) file (pt_hash p)) of
                      Inl err \<Rightarrow> AList.delete file opened
                    | Inr newDigest \<Rightarrow> AList.update file (Some newDigest) opened))
            (pi_OpenedFiles procInfo) (pi_OpenedFiles procInfo)
      in set_proc (pt_traceePid p) (procInfo\<lparr>pi_OpenedFiles := files\<rparr>) p)"

definition full_trace :: "trace_env \<Rightarrow> ptraceContext \<Rightarrow> (ptraceContext \<times> gerr option) outcome option" where
  "full_trace env p =
     (case tv_setOptions env of
        Some err \<Rightarrow> Some (Return (p, Some err))
      | None \<Rightarrow>
          (let (p, procInfo) = getProcInfo (pt_traceePid p) p;
               p = set_proc (pt_traceePid p) (procInfo\<lparr>pi_Program := pt_mainProgram p\<rparr>) p
           in case tv_firstResume env of
                Some err \<Rightarrow> Some (Return (p, Some err))
              | None \<Rightarrow> trace_loop env (tv_events env) (resume (pt_traceePid p) 0 p)))"

definition hooks_only_trace :: "trace_env \<Rightarrow> ptraceContext \<Rightarrow> (ptraceContext \<times> gerr option) outcome option" where
  "hooks_only_trace env p =
     (if pt_hasPreExit p
      then (case tv_setOptions env of
              Some err \<Rightarrow> Some (Return (p, Some err))
            | None \<Rightarrow> waitForExitOnly env p)
      else
        (case tv_detach env of
           Some err \<Rightarrow> Some (Return (p, Some (Errorf ''failed to detach from process: %w'' [FErr err])))
         | None \<Rightarrow>
             (case tv_lastWait env of
                Inl err \<Rightarrow> Some (Return (p, Some err))
              | Inr (WExited code) \<Rightarrow> Some (Return (p\<lparr>pt_exitCode := code\<rparr>, None))
              | Inr (WSignaled sig) \<Rightarrow> Some (Return (p\<lparr>pt_exitCode := signal_exit sig\<rparr>, None))
              | Inr _ \<Rightarrow> Some (Return (p, None)))))"

text \<open>\<open>runTrace\<close>; unless only hooks run, \<open>retryOpenedFiles\<close> is deferred to every return.\<close>

definition runTrace :: "trace_env \<Rightarrow> ptraceContext \<Rightarrow> (ptraceContext \<times> gerr option) outcome option" where
  "runTrace env p =
     bindB
       (case tv_firstWait env of
          Some err \<Rightarrow> Some (Return (p, Some err))
        | None \<Rightarrow>
            bindB (if pt_hasPreExec p then run_trace_hooks env StagePreExec (pt_traceePid p) p else Some (Return None))
              (\<lambda>hookErr.
                 case hookErr of
                   Some err \<Rightarrow> Some (Return (p, Some (Errorf ''PreExec hooks failed: %w'' [FErr err])))
                 | None \<Rightarrow> if pt_hooksOnly p then hooks_only_trace env p else full_trace env p))
       (\<lambda>(p', err). Some (Return (if pt_hooksOnly p then p' else retryOpenedFiles env p', err)))"

section \<open>Running the command\<close>

text \<open>What running a command takes from outside: the path that \<open>exec.Command\<close> finds, starting it (traced or not),
  waiting for it, the exit code of an \<open>ExitError\<close>, its output, and the hooks and the branch of the select
  when waiting for them ends. What the other writers of the output receive is not kept.\<close>

record command_env =
  cv_trace :: trace_env
  cv_later :: ExecuteHooks
  cv_timer :: bool
  cv_Path :: "string \<Rightarrow> string"
  cv_Start :: "bool \<Rightarrow> gerr + int"
  cv_Wait :: "gerr option"
  cv_ExitError :: "gerr \<Rightarrow> int option"
  cv_stdout :: bytes
  cv_stderr :: bytes

definition traceWithOptions ::
  "command_env \<Rightarrow> int \<Rightarrow> 'd AttestationContext option \<Rightarrow> bool \<Rightarrow> bool \<Rightarrow> bool \<Rightarrow> CommandRun \<Rightarrow>
     (CommandRun \<times> ProcessInfo list \<times> gerr option) outcome option" where
  "traceWithOptions env pid actx hooksOnly hasPreExec hasPreExit rc =
     bindB (runTrace (cv_trace env)
         \<lparr>pt_traceePid = pid, pt_mainProgram = cv_Path env (hd (cr_Cmd rc)), pt_processes = [], pt_exitCode = 0,
          pt_hash = (case actx of None \<Rightarrow> [] | Some c \<Rightarrow> ac_hashes c),
          pt_environmentCapturer = map_option ac_environmentCapturer actx,
          pt_executeHooks = map_option (\<lambda>_. cv_later env) (cr_executeHooks rc), pt_hooksOnly = hooksOnly,
          pt_hasPreExec = hasPreExec, pt_hasPreExit = hasPreExit, pt_resumed = []\<rparr>)
       (\<lambda>(pctx, err). Some (Return
          (case err of
             Some e \<Rightarrow> (rc, [], Some e)
           | None \<Rightarrow>
               (rc\<lparr>cr_ExitCode := pt_exitCode pctx\<rparr>, procInfoArray pctx,
                if pt_exitCode pctx \<noteq> 0 then Some (Errorf ''exit status %v'' [FInt (pt_exitCode pctx)]) else None))))"

definition commandrun_trace ::
  "command_env \<Rightarrow> int \<Rightarrow> 'd AttestationContext \<Rightarrow> bool \<Rightarrow> bool \<Rightarrow> CommandRun \<Rightarrow>
     (CommandRun \<times> ProcessInfo list \<times> gerr option) outcome option" where
  "commandrun_trace env pid actx hasPreExec hasPreExit rc =
     traceWithOptions env pid (Some actx) False hasPreExec hasPreExit rc"

definition runWithHooks ::
  "command_env \<Rightarrow> int \<Rightarrow> bool \<Rightarrow> bool \<Rightarrow> CommandRun \<Rightarrow> (CommandRun \<times> gerr option) outcome option" where
  "runWithHooks env pid hasPreExec hasPreExit rc =
     bindB (traceWithOptions env pid (None :: unit AttestationContext option) True hasPreExec hasPreExit rc)
       (\<lambda>(rc, _, err). Some (Return (rc, err)))"

text \<open>Waiting for the command, with or without tracing.\<close>

definition wait_for_command ::
  "command_env \<Rightarrow> int \<Rightarrow> 'd AttestationContext \<Rightarrow> bool \<Rightarrow> bool \<Rightarrow> CommandRun \<Rightarrow> (CommandRun \<times> gerr option) outcome option" where
  "wait_for_command env pid ctx hasPreExec hasPreExit rc =
     (if cr_enableTracing rc
      then bindB (commandrun_trace env pid ctx hasPreExec hasPreExit rc)
             (\<lambda>(rc, processes, err). Some (Return (rc\<lparr>cr_Processes := processes\<rparr>, err)))
      else if hasPreExec \<or> hasPreExit then runWithHooks env pid hasPreExec hasPreExit rc
      else Some (Return
             (case cv_Wait env of
                None \<Rightarrow> (rc, None)
              | Some err \<Rightarrow>
                  (case cv_ExitError env err of
                     None \<Rightarrow> (rc, Some err)
                   | Some code \<Rightarrow> (rc\<lparr>cr_ExitCode := code\<rparr>, Some err)))))"

definition runCmd ::
  "command_env \<Rightarrow> 'd AttestationContext \<Rightarrow> CommandRun \<Rightarrow> (CommandRun \<times> gerr option) outcome option" where
  "runCmd env ctx rc =
     (case cr_executeHooks rc of
        None \<Rightarrow> Some (Panic nil_panic)
      | Some h \<Rightarrow>
          (case WaitForDeclaredHooks h (cv_later env) (cv_timer env) of
             None \<Rightarrow> None
           | Some (Some err) \<Rightarrow> Some (Return (rc, Some (Errorf ''failed waiting for hook registration: %w'' [FErr err])))
           | Some None \<Rightarrow>
               (let hasPreExec = HasHooks StagePreExec (cv_later env);
                    hasPreExit = HasHooks StagePreExit (cv_later env)
                in case cv_Start env (cr_enableTracing rc \<or> hasPreExec \<or> hasPreExit) of
                     Inl err \<Rightarrow> Some (Return (rc, Some err))
                   | Inr pid \<Rightarrow>
                       bindB (wait_for_command env pid ctx hasPreExec hasPreExit rc)
                         (\<lambda>(rc, err). Some (Return
                            (rc\<lparr>cr_Stdout := cv_stdout env, cr_Stderr := cv_stderr env\<rparr>, err))))))"

definition commandrun_Attest ::
  "command_env \<Rightarrow> 'd AttestationContext \<Rightarrow> CommandRun \<Rightarrow> (CommandRun \<times> gerr option) outcome option" where
  "commandrun_Attest env ctx rc =
     (if length (cr_Cmd rc) = 0
      then Some (Return (rc, Some (ErrAttestor commandrun_Name ExecuteRunType
             ''CommandRun attestation requires a command to run'')))
      else runCmd env ctx rc)"

definition commandrun_DeclareHooks :: "ExecuteHooks \<Rightarrow> CommandRun \<Rightarrow> CommandRun" where
  "commandrun_DeclareHooks hooks rc = rc\<lparr>cr_executeHooks := Some hooks\<rparr>"

section \<open>Lemmas: the trace\<close>

lemma bindB_Some_iff: "bindB m f = Some (Return y) \<longleftrightarrow> (\<exists>x. m = Some (Return x) \<and> f x = Some (Return y))"
  by (auto simp: bindB_def split: option.splits outcome.splits)

lemma getProcInfo_keeps:
  "getProcInfo pid p = (p', pi) \<Longrightarrow> pt_resumed p' = pt_resumed p \<and> pt_traceePid p' = pt_traceePid p"
  by (auto simp: getProcInfo_def split: option.splits)

lemma set_proc_keeps [simp]:
  "pt_resumed (set_proc pid pi p) = pt_resumed p" "pt_traceePid (set_proc pid pi p) = pt_traceePid p"
  by (simp_all add: set_proc_def)

lemma resume_fields [simp]:
  "pt_resumed (resume pid sig p) = pt_resumed p @ [(pid, sig)]" "pt_traceePid (resume pid sig p) = pt_traceePid p"
  by (simp_all add: resume_def)

lemma handle_execve_keeps:
  assumes "handle_execve env ev pid args p = Return p'"
  shows "pt_resumed p' = pt_resumed p \<and> pt_traceePid p' = pt_traceePid p"
proof -
  obtain q pi where q: "getProcInfo pid p = (q, pi)" by fastforce
  from assms show ?thesis
    using getProcInfo_keeps [OF q] by (auto simp: handle_execve_def q Let_def split: prod.splits)
qed

lemma handle_openat_keeps:
  assumes "handle_openat env ev pid args p = Return (p', err)"
  shows "pt_resumed p' = pt_resumed p \<and> pt_traceePid p' = pt_traceePid p"
proof -
  obtain q pi where q: "getProcInfo pid p = (q, pi)" by fastforce
  from assms obtain r where r: "readSyscallReg ev (args ! 1) MAX_PATH_LEN = Return r"
    unfolding handle_openat_def bindO_Return_iff by blast
  show ?thesis
  proof (cases r)
    case (Inl e)
    with assms r show ?thesis by (simp add: handle_openat_def)
  next
    case (Inr path)
    obtain ds e where "CalculateDigestSetFromFile (tv_lib env) (te_Open ev) path (pt_hash q) = (ds, e)" by fastforce
    with assms r Inr getProcInfo_keeps [OF q] show ?thesis
      by (cases e) (auto simp: handle_openat_def q split: if_splits)
  qed
qed

lemma nextSyscall_keeps:
  assumes "nextSyscall env ev pid p = Return (p', err)"
  shows "pt_resumed p' = pt_resumed p \<and> pt_traceePid p' = pt_traceePid p"
  using assms handle_execve_keeps handle_openat_keeps
  by (auto simp: nextSyscall_def handleSyscall_def Let_def split: sum.splits if_splits)

text \<open>The signal with which a stopped process goes on: none for the stops that tracing itself makes.\<close>

fun delivered :: "wait_status \<Rightarrow> 32 word" where
  "delivered (WStopped status) =
     (if StopSignal status = SIGTRAP OR 0x80 \<or> (StopSignal status = SIGTRAP \<and> eventCode status \<noteq> 0) then 0
      else StopSignal status)"
| "delivered _ = 0"

lemma syscall_trap_distinct: "SIGTRAP OR 0x80 \<noteq> SIGTRAP"
  by (simp add: SIGTRAP_def)

lemma handle_stop_resumes:
  assumes "handle_stop env ev status p = Some (Return p')"
  shows "pt_resumed p' = pt_resumed p @ [(te_pid ev, delivered (WStopped status))] \<and> pt_traceePid p' = pt_traceePid p"
  using assms syscall_trap_distinct
  by (auto simp: handle_stop_def Let_def bindB_Some_iff split: if_splits dest!: nextSyscall_keeps)

fun ends_trace :: "int \<Rightarrow> trace_event \<Rightarrow> int option" where
  "ends_trace tracee ev =
     (if te_pid ev \<noteq> tracee then None
      else (case te_status ev of WExited code \<Rightarrow> Some code | WSignaled sig \<Rightarrow> Some (128 + sig) | _ \<Rightarrow> None))"

lemma trace_loop_ends:
  assumes "trace_loop env events p = Some (Return (p', None))"
  shows "\<exists>before ev after. events = map Inr before @ Inr ev # after \<and>
    ends_trace (pt_traceePid p) ev = Some (pt_exitCode p') \<and> (\<forall>e \<in> set before. ends_trace (pt_traceePid p) e = None) \<and>
    pt_resumed p' = pt_resumed p @ map (\<lambda>e. (te_pid e, delivered (te_status e))) before"
  using assms
proof (induction events arbitrary: p)
  case (Cons event events)
  then obtain ev where event: "event = Inr ev" by (cases event) auto
  show ?case
  proof (cases "ends_trace (pt_traceePid p) ev")
    case (Some code)
    with Cons.prems have "pt_exitCode p' = code" "pt_resumed p' = pt_resumed p"
      by (auto simp: event signal_exit_def split: wait_status.splits if_splits)
    with Some event show ?thesis by (intro exI [of _ "[]"] exI [of _ ev] exI [of _ events]) simp
  next
    case None
    with Cons.prems obtain q where q: "trace_loop env events q = Some (Return (p', None))"
      and res: "pt_resumed q = pt_resumed p @ [(te_pid ev, delivered (te_status ev))]"
      and pid: "pt_traceePid q = pt_traceePid p"
      by (auto simp: event bindB_Some_iff split: wait_status.splits if_splits dest: handle_stop_resumes)
    from Cons.IH [OF q] obtain before e after where "events = map Inr before @ Inr e # after"
      "ends_trace (pt_traceePid p) e = Some (pt_exitCode p')" "\<forall>e \<in> set before. ends_trace (pt_traceePid p) e = None"
      "pt_resumed p' = pt_resumed q @ map (\<lambda>e. (te_pid e, delivered (te_status e))) before"
      unfolding pid by blast
    with None event res show ?thesis
      by (intro exI [of _ "ev # before"] exI [of _ e] exI [of _ after]) simp
  qed
qed simp

lemma retryOpenedFiles_keeps [simp]:
  "pt_resumed (retryOpenedFiles env p) = pt_resumed p" "pt_exitCode (retryOpenedFiles env p) = pt_exitCode p"
  by (auto simp: retryOpenedFiles_def getProcInfo_def set_proc_def Let_def split: option.splits)

lemma runTrace_ends:
  assumes "runTrace env p = Some (Return (p', None))" and "\<not> pt_hooksOnly p"
  shows "\<exists>before ev after. tv_events env = map Inr before @ Inr ev # after \<and>
    ends_trace (pt_traceePid p) ev = Some (pt_exitCode p') \<and> (\<forall>e \<in> set before. ends_trace (pt_traceePid p) e = None) \<and>
    pt_resumed p' = pt_resumed p @ (pt_traceePid p, 0) # map (\<lambda>e. (te_pid e, delivered (te_status e))) before"
proof -
  from assms obtain q where full: "full_trace env p = Some (Return (q, None))" and p': "p' = retryOpenedFiles env q"
    by (auto simp: runTrace_def bindB_Some_iff split: option.splits if_splits)
  obtain r pi where r: "getProcInfo (pt_traceePid p) p = (r, pi)" by fastforce
  from full obtain t where t: "trace_loop env (tv_events env) t = Some (Return (q, None))"
    and "pt_resumed t = pt_resumed p @ [(pt_traceePid p, 0)]" "pt_traceePid t = pt_traceePid p"
    using getProcInfo_keeps [OF r] by (auto simp: full_trace_def r Let_def split: option.splits)
  with trace_loop_ends [OF t] p' show ?thesis by simp
qed

section \<open>Lemmas: the trace returns\<close>

text \<open>What lets the trace answer a report: every string that it reads from a process has its zero byte, as
  \<open>readSyscallReg\<close> slices up to it.\<close>

definition reads_end :: "trace_event \<Rightarrow> bool" where
  "reads_end ev \<longleftrightarrow> (\<forall>addr n numBytes data. te_read ev addr n = Inr (numBytes, data) \<longrightarrow> numBytes = 0 \<or> CHR 0x00 \<in> set data)"

text \<open>And there is a capturer whose patterns are globs, and the hooks before the exit, if there are any, return. The answers
  to reports keep this.\<close>

definition answers_reports :: "trace_env \<Rightarrow> ptraceContext \<Rightarrow> bool" where
  "answers_reports env p \<longleftrightarrow>
     (\<exists>c. pt_environmentCapturer p = Some c \<and> (\<forall>k \<in> sensitive_keys c. CHR ''*'' \<in> set k \<longrightarrow> (\<exists>m. tv_glob env k = Inr m))) \<and>
     (pt_hasPreExit p \<longrightarrow> (\<exists>h r. pt_executeHooks p = Some h \<and> RunHooks (tv_ready env) StagePreExit (pt_traceePid p) h = Some r))"

definition same_hooks :: "ptraceContext \<Rightarrow> ptraceContext \<Rightarrow> bool" where
  "same_hooks p q \<longleftrightarrow> pt_executeHooks q = pt_executeHooks p \<and> pt_hasPreExit q = pt_hasPreExit p \<and> pt_traceePid q = pt_traceePid p"

lemma answers_same:
  "answers_reports env p \<Longrightarrow> same_hooks p q \<Longrightarrow> pt_environmentCapturer q = pt_environmentCapturer p \<Longrightarrow> answers_reports env q"
  by (simp add: answers_reports_def same_hooks_def)

lemma readSyscallReg_returns: "reads_end ev \<Longrightarrow> \<exists>r. readSyscallReg ev addr n = Return r"
  by (cases "te_read ev addr n") (auto simp: readSyscallReg_def reads_end_def List.member_iff split: prod.splits)

lemma getProcInfo_same:
  "getProcInfo pid p = (q, pi) \<Longrightarrow> same_hooks p q \<and> pt_environmentCapturer q = pt_environmentCapturer p"
  by (auto simp: getProcInfo_def same_hooks_def split: option.splits)

lemma handle_execve_returns:
  assumes "reads_end ev" and "answers_reports env p"
  shows "\<exists>q. handle_execve env ev pid args p = Return q \<and> answers_reports env q"
proof -
  obtain q pi where q: "getProcInfo pid p = (q, pi)" by fastforce
  from getProcInfo_same [OF q] answers_same [OF assms(2)] have ans: "answers_reports env q" by blast
  then obtain c where c: "pt_environmentCapturer q = Some c" "\<forall>k \<in> sensitive_keys c. CHR ''*'' \<in> set k \<longrightarrow> (\<exists>m. tv_glob env k = Inr m)"
    by (auto simp: answers_reports_def)
  from readSyscallReg_returns [OF assms(1)] obtain program where program: "readSyscallReg ev (args ! 0) MAX_PATH_LEN = Return program" by blast
  have environ: "\<exists>c' pi'. exec_environ env ev (Some c) pi = Return (Some c', pi') \<and> sensitive_keys c' = sensitive_keys c" for pi
  proof (cases "te_ReadFile ev (proc_file (pi_ProcessID pi) ''environ'')")
    case (Inr environ)
    from Capture_total [OF c(2)] obtain c' vs where run: "Capture_Capture (tv_glob env) c (split_at (CHR 0x00) environ) = Return (c', vs)" by blast
    with Capture_result have "sensitive_keys c' = sensitive_keys c" by blast
    with Inr run show ?thesis by (auto simp: exec_environ_def)
  qed (simp add: exec_environ_def)
  have run: "\<exists>c' pi'. bindO (exec_environ env ev (Some c) x)
        (\<lambda>(capturer, pi). Return (set_proc pid (F pi) (q\<lparr>pt_environmentCapturer := capturer\<rparr>))) =
      Return (set_proc pid pi' (q\<lparr>pt_environmentCapturer := Some c'\<rparr>)) \<and> sensitive_keys c' = sensitive_keys c" for x F
    using environ [of x] by auto
  have "\<exists>c' pi'. handle_execve env ev pid args p = Return (set_proc pid pi' (q\<lparr>pt_environmentCapturer := Some c'\<rparr>)) \<and>
      sensitive_keys c' = sensitive_keys c"
    unfolding handle_execve_def q Let_def prod.case program bindO.simps c(1) by (rule run)
  then obtain c' pi' where "handle_execve env ev pid args p = Return (set_proc pid pi' (q\<lparr>pt_environmentCapturer := Some c'\<rparr>))"
    and "sensitive_keys c' = sensitive_keys c" by blast
  moreover from this(2) c ans have "answers_reports env (set_proc pid pi' (q\<lparr>pt_environmentCapturer := Some c'\<rparr>))"
    by (simp add: answers_reports_def set_proc_def)
  ultimately show ?thesis by blast
qed

lemma handle_openat_returns:
  assumes "reads_end ev" and "answers_reports env p"
  shows "\<exists>q err. handle_openat env ev pid args p = Return (q, err) \<and> answers_reports env q"
proof -
  obtain q pi where q: "getProcInfo pid p = (q, pi)" by fastforce
  from getProcInfo_same [OF q] answers_same [OF assms(2)] have ans: "answers_reports env q" by blast
  have set_proc: "answers_reports env (set_proc pid x q)" for x
    by (rule answers_same [OF ans]) (simp_all add: same_hooks_def set_proc_def)
  from readSyscallReg_returns [OF assms(1)] obtain r where r: "readSyscallReg ev (args ! 1) MAX_PATH_LEN = Return r" by blast
  show ?thesis
  proof (cases r)
    case (Inr path)
    obtain ds e where "CalculateDigestSetFromFile (tv_lib env) (te_Open ev) path (pt_hash q) = (ds, e)" by fastforce
    with r Inr q ans set_proc show ?thesis by (cases e) (auto simp: handle_openat_def)
  qed (use r assms(2) in \<open>simp add: handle_openat_def\<close>)
qed

lemma nextSyscall_returns:
  assumes "reads_end ev" and "answers_reports env p"
  shows "\<exists>q err. nextSyscall env ev pid p = Return (q, err) \<and> answers_reports env q"
proof (cases "te_regs ev")
  case (Inr regs)
  from handle_execve_returns [OF assms, of pid "getSyscallArgs regs"] handle_openat_returns [OF assms, of pid "getSyscallArgs regs"]
  show ?thesis using Inr assms(2) by (cases "te_msg ev") (auto simp: nextSyscall_def handleSyscall_def Let_def)
qed (use assms(2) in \<open>simp add: nextSyscall_def\<close>)

lemma answers_resume [simp]: "answers_reports env (resume pid sig p) = answers_reports env p"
  by (simp add: answers_reports_def resume_def)

lemma handle_stop_returns:
  assumes "reads_end ev" and "answers_reports env p"
  shows "\<exists>q. handle_stop env ev status p = Some (Return q) \<and> answers_reports env q"
proof -
  from nextSyscall_returns [OF assms, of "te_pid ev"] obtain q err
    where "nextSyscall env ev (te_pid ev) p = Return (q, err)" "answers_reports env q" by blast
  moreover have "\<exists>err. run_trace_hooks env StagePreExit (te_pid ev) p = Some (Return err)"
    if "te_pid ev = pt_traceePid p" "pt_hasPreExit p"
    using assms(2) that by (auto simp: answers_reports_def run_trace_hooks_def)
  ultimately show ?thesis using assms(2) by (auto simp: handle_stop_def Let_def bindB_def)
qed

lemma trace_loop_returns:
  assumes "ends_trace (pt_traceePid p) ev = Some code" and "\<forall>e \<in> set before. ends_trace (pt_traceePid p) e = None \<and> reads_end e"
    and "answers_reports env p"
  shows "\<exists>p'. trace_loop env (map Inr before @ Inr ev # after) p = Some (Return (p', None)) \<and> pt_exitCode p' = code \<and>
    pt_resumed p' = pt_resumed p @ map (\<lambda>e. (te_pid e, delivered (te_status e))) before"
  using assms
proof (induction before arbitrary: p)
  case Nil
  then show ?case by (auto simp: signal_exit_def split: if_splits wait_status.splits)
next
  case (Cons e before)
  have "\<exists>q. trace_loop env (map Inr (e # before) @ Inr ev # after) p = trace_loop env (map Inr before @ Inr ev # after) q \<and>
      answers_reports env q \<and> pt_traceePid q = pt_traceePid p \<and> pt_resumed q = pt_resumed p @ [(te_pid e, delivered (te_status e))]"
  proof (cases "te_status e")
    case (WStopped status)
    from Cons.prems obtain q where q: "handle_stop env e status p = Some (Return q)" "answers_reports env q"
      using handle_stop_returns [of e env p status] by auto
    with handle_stop_resumes [OF q(1)] WStopped show ?thesis by (intro exI [of _ q]) (simp add: bindB_def)
  next
    case (WExited c)
    with Cons.prems show ?thesis by (intro exI [of _ "resume (te_pid e) 0 p"]) (auto split: if_splits)
  next
    case (WSignaled c)
    with Cons.prems show ?thesis by (intro exI [of _ "resume (te_pid e) 0 p"]) (auto split: if_splits)
  next
    case WOther
    with Cons.prems show ?thesis by (intro exI [of _ "resume (te_pid e) 0 p"]) auto
  qed
  then obtain q where q: "trace_loop env (map Inr (e # before) @ Inr ev # after) p = trace_loop env (map Inr before @ Inr ev # after) q"
    "answers_reports env q" "pt_traceePid q = pt_traceePid p" "pt_resumed q = pt_resumed p @ [(te_pid e, delivered (te_status e))]" by blast
  from Cons.IH [of q] Cons.prems q show ?case by auto
qed

section \<open>Properties\<close>

text \<open>C21. Tracing follows the command to its end, and ends then. Whenever the reports of the kernel have a first one that the
  command exited or was killed by a signal, tracing returns without an error, with the exit code of that report (for a
  signal 128 plus its number), and every report before it was answered by letting the process go on once, with the signal
  that stopped it, or with none when tracing itself had stopped it. The conditions: starting to trace succeeds, and so do
  the hooks before the execution; the hooks before the exit return, with whatever error; there is an environment
  capturer, whose patterns are globs; and every string that is read from a process has its zero byte, since the code
  panics on one that has none.\<close>

theorem trace_follows_command:
  assumes reports: "tv_events env = map Inr before @ Inr ev # after"
    and ends: "ends_trace (pt_traceePid p) ev = Some code" and first: "\<forall>e \<in> set before. ends_trace (pt_traceePid p) e = None"
    and full: "\<not> pt_hooksOnly p"
    and starts: "tv_firstWait env = None" "tv_setOptions env = None" "tv_firstResume env = None"
    and pre_exec: "pt_hasPreExec p \<longrightarrow> (\<exists>h called. pt_executeHooks p = Some h \<and>
      RunHooks (tv_ready env) StagePreExec (pt_traceePid p) h = Some (called, None))"
    and pre_exit: "pt_hasPreExit p \<longrightarrow> (\<exists>h r. pt_executeHooks p = Some h \<and>
      RunHooks (tv_ready env) StagePreExit (pt_traceePid p) h = Some r)"
    and capturer: "pt_environmentCapturer p = Some c"
      "\<forall>k \<in> sensitive_keys c. CHR ''*'' \<in> set k \<longrightarrow> (\<exists>m. tv_glob env k = Inr m)"
    and reads: "\<forall>e \<in> set before. \<forall>addr n numBytes data.
      te_read e addr n = Inr (numBytes, data) \<longrightarrow> numBytes = 0 \<or> CHR 0x00 \<in> set data"
  shows "\<exists>p'. runTrace env p = Some (Return (p', None)) \<and> pt_exitCode p' = code \<and>
    pt_resumed p' = pt_resumed p @ (pt_traceePid p, 0) # map (\<lambda>e. (te_pid e, delivered (te_status e))) before"
proof -
  obtain q pi where q: "getProcInfo (pt_traceePid p) p = (q, pi)" by fastforce
  define t where "t = resume (pt_traceePid p) 0 (set_proc (pt_traceePid p) (pi\<lparr>pi_Program := pt_mainProgram q\<rparr>) q)"
  note same = getProcInfo_same [OF q] getProcInfo_keeps [OF q]
  have pid: "pt_traceePid t = pt_traceePid p" and resumed: "pt_resumed t = pt_resumed p @ [(pt_traceePid p, 0)]"
    using same by (simp_all add: t_def)
  have "answers_reports env p" using capturer pre_exit by (auto simp: answers_reports_def)
  then have "answers_reports env (set_proc (pt_traceePid p) (pi\<lparr>pi_Program := pt_mainProgram q\<rparr>) q)"
    by (rule answers_same) (use same in \<open>simp_all add: same_hooks_def set_proc_def\<close>)
  then have "answers_reports env t" by (simp add: t_def)
  from trace_loop_returns [of t ev code before env after] this ends first reads obtain p' where
    loop: "trace_loop env (tv_events env) t = Some (Return (p', None))" "pt_exitCode p' = code"
      "pt_resumed p' = pt_resumed t @ map (\<lambda>e. (te_pid e, delivered (te_status e))) before"
    unfolding pid reports reads_end_def by blast
  have "full_trace env p = trace_loop env (tv_events env) t"
    using starts same by (simp add: full_trace_def q t_def)
  with loop starts pre_exec full have "runTrace env p = Some (Return (retryOpenedFiles env p', None))"
    by (auto simp: runTrace_def run_trace_hooks_def bindB_def)
  with loop resumed show ?thesis by auto
qed

definition sample_event :: "int \<Rightarrow> wait_status \<Rightarrow> trace_event" where
  "sample_event pid status =
     \<lparr>te_pid = pid, te_status = status, te_regs = Inr (\<lambda>r. if r = ''Orig_rax'' then 257 else 1), te_msg = Inr 1,
      te_read = (\<lambda>a n. Inr (3, ''f'' @ [CHR 0x00, CHR 0x00])), te_ReadFile = (\<lambda>_. Inl (LibError ''read'')),
      te_Open = (\<lambda>f. Inr \<lparr>file_stat = Inr 0, file_data = Inr f\<rparr>)\<rparr>"

definition sample_trace_env :: "(gerr + trace_event) list \<Rightarrow> trace_env" where
  "sample_trace_env events =
     \<lparr>tv_lib = sample_lib, tv_glob = sample_glob, tv_IsPathError = (\<lambda>_. True), tv_ready = (\<lambda>_. True), tv_firstWait = None,
      tv_setOptions = None, tv_firstResume = None, tv_detach = None, tv_lastWait = Inr (WExited 0), tv_cont = (\<lambda>_. None),
      tv_OpenAtEnd = (\<lambda>f. Inr \<lparr>file_stat = Inr 0, file_data = Inr f\<rparr>), tv_events = events\<rparr>"

definition sample_tracee :: ptraceContext where
  "sample_tracee =
     \<lparr>pt_traceePid = 7, pt_mainProgram = ''sh'', pt_processes = [], pt_exitCode = 0, pt_hash = [plain_digest SHA256],
      pt_environmentCapturer = Some (environment_New []), pt_executeHooks = Some no_hooks, pt_hooksOnly = False,
      pt_hasPreExec = False, pt_hasPreExit = False, pt_resumed = []\<rparr>"

definition sample_reports :: "(gerr + trace_event) list" where
  "sample_reports = [Inr (sample_event 8 (WStopped (push_bit 8 133 OR 127))), Inr (sample_event 7 (WStopped (push_bit 8 15 OR 127))),
     Inr (sample_event 8 (WExited 1)), Inr (sample_event 7 (WSignaled 15))]"

lemma sample_trace:
  "case runTrace (sample_trace_env sample_reports) sample_tracee of
     Some (Return (p, err)) \<Rightarrow> err = None \<and> pt_exitCode p = 143 \<and> pt_resumed p = [(7, 0), (8, 0), (7, 15), (8, 0)]
   | _ \<Rightarrow> False"
  by code_simp

theorem trace_follows_command_witness:
  "\<exists>p'. runTrace (sample_trace_env sample_reports) sample_tracee = Some (Return (p', None)) \<and> pt_exitCode p' = 143 \<and>
     pt_resumed p' = [(7, 0), (8, 0), (7, 15), (8, 0)]"
proof -
  let ?before = "[sample_event 8 (WStopped (push_bit 8 133 OR 127)), sample_event 7 (WStopped (push_bit 8 15 OR 127)), sample_event 8 (WExited 1)]"
  have reports: "tv_events (sample_trace_env sample_reports) = map Inr ?before @ Inr (sample_event 7 (WSignaled 15)) # []"
    by (simp add: sample_trace_env_def sample_reports_def)
  have pid: "pt_traceePid sample_tracee = 7" by (simp add: sample_tracee_def)
  have ends: "ends_trace (pt_traceePid sample_tracee) (sample_event 7 (WSignaled 15)) = Some 143"
    and first: "\<forall>e \<in> set ?before. ends_trace (pt_traceePid sample_tracee) e = None" by (simp_all add: pid sample_event_def)
  have "delivered (WStopped (push_bit 8 133 OR 127)) = 0" "delivered (WStopped (push_bit 8 15 OR 127)) = 15"
    by (simp_all add: StopSignal_def SIGTRAP_def eventCode_def)
  moreover have "\<exists>p'. runTrace (sample_trace_env sample_reports) sample_tracee = Some (Return (p', None)) \<and> pt_exitCode p' = 143 \<and>
      pt_resumed p' = pt_resumed sample_tracee @ (pt_traceePid sample_tracee, 0) # map (\<lambda>e. (te_pid e, delivered (te_status e))) ?before"
    by (rule trace_follows_command [OF reports ends first, where c = "environment_New []"])
      (auto simp: sample_tracee_def sample_trace_env_def sample_event_def sample_glob_def)
  ultimately show ?thesis by (auto simp: pid sample_event_def sample_tracee_def)
qed

text \<open>A traced command that is attested without an error exited with code zero: the reports of the kernel
  have a first end of the command, and it is an end with code zero.\<close>

theorem traced_success_exit_zero:
  assumes "commandrun_Attest env ctx rc = Some (Return (rc', None))" and "cr_enableTracing rc"
  shows "cr_ExitCode rc' = 0 \<and> (\<exists>pid before ev after. cv_Start env True = Inr pid \<and>
    tv_events (cv_trace env) = map Inr before @ Inr ev # after \<and> ends_trace pid ev = Some 0 \<and>
    (\<forall>e \<in> set before. ends_trace pid e = None))"
proof -
  from assms obtain h pid rc1 where start: "cv_Start env True = Inr pid"
    and wait: "wait_for_command env pid ctx (HasHooks StagePreExec (cv_later env)) (HasHooks StagePreExit (cv_later env)) rc =
      Some (Return (rc1, None))"
    and rc': "rc' = rc1\<lparr>cr_Stdout := cv_stdout env, cr_Stderr := cv_stderr env\<rparr>"
    by (auto simp: commandrun_Attest_def runCmd_def Let_def bindB_Some_iff split: if_splits option.splits sum.splits)
  from wait assms(2) obtain pctx p0 where trace: "runTrace (cv_trace env) p0 = Some (Return (pctx, None))"
    and p0: "pt_traceePid p0 = pid" "\<not> pt_hooksOnly p0" and zero: "pt_exitCode pctx = 0"
    and rc1: "cr_ExitCode rc1 = 0"
    by (auto simp: wait_for_command_def commandrun_trace_def traceWithOptions_def bindB_Some_iff
        split: option.splits if_splits)
  from runTrace_ends [OF trace p0(2)] start rc1 rc' zero p0(1) show ?thesis by fastforce
qed

definition sample_command_env :: command_env where
  "sample_command_env =
     \<lparr>cv_trace = sample_trace_env [Inr (sample_event 7 (WExited 0))], cv_later = no_hooks, cv_timer = False,
      cv_Path = (\<lambda>c. c), cv_Start = (\<lambda>_. Inr 7), cv_Wait = None, cv_ExitError = (\<lambda>_. None), cv_stdout = ''out'',
      cv_stderr = []\<rparr>"

definition sample_command :: CommandRun where
  "sample_command = commandrun_DeclareHooks no_hooks (commandrun_New [WithCommand [''make''], WithTracing True])"

lemma sample_command_attested:
  "case commandrun_Attest sample_command_env (sample_context []) sample_command of
     Some (Return (rc, err)) \<Rightarrow> err = None | _ \<Rightarrow> False"
  by code_simp

theorem traced_success_exit_zero_witness:
  "\<exists>rc'. commandrun_Attest sample_command_env (sample_context []) sample_command = Some (Return (rc', None)) \<and>
     cr_ExitCode rc' = 0"
proof -
  from sample_command_attested obtain rc' where
    rc': "commandrun_Attest sample_command_env (sample_context []) sample_command = Some (Return (rc', None))"
    by (auto split: option.splits outcome.splits)
  have "cr_enableTracing sample_command"
    by (simp add: sample_command_def commandrun_DeclareHooks_def commandrun_New_def WithCommand_def WithTracing_def)
  from traced_success_exit_zero [OF rc' this] rc' show ?thesis by blast
qed

text \<open>Without tracing, but with a hook before the exit, a command that a signal kills is attested as a
  success: the exit event's message is the signal, shifting it by eight gives exit code zero, and no error
  is returned.\<close>

theorem killed_command_attested:
  assumes "tv_firstWait (cv_trace env) = None" and "tv_setOptions (cv_trace env) = None" and "tv_cont (cv_trace env) 0 = None"
    and "tv_events (cv_trace env) = Inr ev # events" and "te_status ev = WStopped status"
    and "StopSignal status = SIGTRAP" and "eventCode status = PTRACE_EVENT_EXIT"
    and "te_msg ev = Inr signal" and "signal < 256"
    and "RunHooks (tv_ready (cv_trace env)) StagePreExit pid (cv_later env) = Some (called, hookErr)"
    and "cr_executeHooks rc \<noteq> None"
  shows "runWithHooks env pid False True rc = Some (Return (rc\<lparr>cr_ExitCode := 0\<rparr>, None))"
proof -
  from assms(9) have "signal div 256 = 0" by (simp add: word_less_def word_div_def)
  then have "uint (drop_bit 8 signal) = 0" by (simp add: drop_bit_eq_div)
  with assms show ?thesis
    by (auto simp: runWithHooks_def traceWithOptions_def runTrace_def hooks_only_trace_def waitForExitOnly_def
        run_trace_hooks_def bindB_def on_success_def resume_def Let_def)
qed

definition sample_exit_hooks :: ExecuteHooks where
  "sample_exit_hooks = fst (RegisterHook StagePreExit ''net'' (\<lambda>_. None) (fst (Declare ''net'' StagePreExit no_hooks)))"

theorem killed_command_attested_witness:
  "runWithHooks (sample_command_env\<lparr>cv_later := sample_exit_hooks,
       cv_trace := sample_trace_env [Inr ((sample_event 7 (WStopped (push_bit 16 6 OR push_bit 8 5 OR 127)))\<lparr>te_msg := Inr 15\<rparr>)]\<rparr>)
     7 False True sample_command = Some (Return (sample_command\<lparr>cr_ExitCode := 0\<rparr>, None))"
proof (rule killed_command_attested [where events = "[]" and
      ev = "(sample_event 7 (WStopped (push_bit 16 6 OR push_bit 8 5 OR 127)))\<lparr>te_msg := Inr 15\<rparr>" and status = "push_bit 16 6 OR push_bit 8 5 OR 127" and signal = 15])
  show "RunHooks (tv_ready (cv_trace (sample_command_env\<lparr>cv_later := sample_exit_hooks,
       cv_trace := sample_trace_env [Inr ((sample_event 7 (WStopped (push_bit 16 6 OR push_bit 8 5 OR 127)))\<lparr>te_msg := Inr 15\<rparr>)]\<rparr>)))
     StagePreExit 7 (cv_later (sample_command_env\<lparr>cv_later := sample_exit_hooks,
       cv_trace := sample_trace_env [Inr ((sample_event 7 (WStopped (push_bit 16 6 OR push_bit 8 5 OR 127)))\<lparr>te_msg := Inr 15\<rparr>)]\<rparr>)) =
     Some (eh_hooks sample_exit_hooks, None)"
    by (simp add: RunHooks_def stage_hooks_def sample_exit_hooks_def RegisterHook_def Declare_def no_hooks_def
        declarations_def decl_def sample_trace_env_def checkAllFulfilled_def Let_def)
qed (simp_all add: sample_trace_env_def sample_event_def StopSignal_def eventCode_def SIGTRAP_def PTRACE_EVENT_EXIT_def
    sample_command_def commandrun_DeclareHooks_def)

end
