(* ===== verification/File_Record.thy ===== *)
theory File_Record
  imports Digest_Set Go_Path
begin

text \<open>
  Recording the artifacts below a directory: \<open>attestation/file/file.go\<close>.

  \<open>RecordArtifacts\<close> walks a directory with \<open>filepath.Walk\<close> and follows symbolic links by calling itself on
  their targets. The file system is a parameter: the tree that \<open>Lstat\<close> and the directory listings show
  below a path, the finitely many links with what \<open>EvalSymlinks\<close> makes of them, and the contents of files.
  It does not change during the walk. Every link target is followed once, so the nesting of the calls is
  bounded by the number of links, which is the fuel of \<open>RecordArtifacts\<close>.
\<close>

section \<open>Walking\<close>

text \<open>A path that \<open>Lstat\<close> fails on, a file that is neither directory nor link, a link, and a directory with
  the error of reading its names and its entries by name.\<close>

datatype fs_node = FsError gerr | FsFile | FsLink | FsDir "gerr option" "(string \<times> fs_node) list"

datatype walk_stop = SkipDir | Fail gerr | Exhausted

type_synonym 's walk_fn = "string list \<Rightarrow> fs_node \<Rightarrow> 's \<Rightarrow> ('s \<times> walk_stop option) outcome"

text \<open>The error that the function is called with, and whether it sees a directory.\<close>

fun node_error :: "fs_node \<Rightarrow> gerr option" where
  "node_error (FsError err) = Some err"
| "node_error (FsDir err children) = err"
| "node_error _ = None"

fun is_dir :: "fs_node \<Rightarrow> bool" where
  "is_dir (FsDir err children) = True"
| "is_dir _ = False"

fun lstat_failed :: "fs_node \<Rightarrow> bool" where
  "lstat_failed (FsError err) = True"
| "lstat_failed _ = False"

text \<open>\<open>walk\<close> of \<open>path/filepath\<close>. A path is known by the names below the root.\<close>

fun walk :: "'s walk_fn \<Rightarrow> string list \<Rightarrow> fs_node \<Rightarrow> 's \<Rightarrow> ('s \<times> walk_stop option) outcome"
  and walk_children :: "'s walk_fn \<Rightarrow> string list \<Rightarrow> (string \<times> fs_node) list \<Rightarrow> 's \<Rightarrow> ('s \<times> walk_stop option) outcome"
where
  "walk fn names (FsDir err children) s =
     bindO (fn names (FsDir err children) s)
       (\<lambda>(s, stop). if err \<noteq> None \<or> stop \<noteq> None then Return (s, stop) else walk_children fn names children s)"
| "walk fn names (FsError err) s = fn names (FsError err) s"
| "walk fn names FsFile s = fn names FsFile s"
| "walk fn names FsLink s = fn names FsLink s"
| "walk_children fn names [] s = Return (s, None)"
| "walk_children fn names (child # children) s =
     bindO (walk fn (names @ [fst child]) (snd child) s)
       (\<lambda>(s, stop).
          if stop = None \<or> (stop = Some SkipDir \<and> (is_dir (snd child) \<or> lstat_failed (snd child)))
          then walk_children fn names children s
          else Return (s, stop))"

text \<open>\<open>filepath.Walk\<close>: skipping the root is no error.\<close>

definition filepath_Walk :: "'s walk_fn \<Rightarrow> fs_node \<Rightarrow> 's \<Rightarrow> ('s \<times> walk_stop option) outcome" where
  "filepath_Walk fn root s =
     bindO (walk fn [] root s) (\<lambda>(s, stop). Return (s, if stop = Some SkipDir then None else stop))"

section \<open>Recording\<close>

text \<open>\<open>fs_links\<close> has, for every link, what \<open>EvalSymlinks\<close> returns; it fails on a path that is not
  in it. \<open>fs_dirOpener\<close> opens the files that hashing a directory lists.\<close>

record filesystem =
  fs_tree :: "string \<Rightarrow> fs_node"
  fs_links :: "(string, gerr + string) gomap"
  fs_IsNotExist :: "gerr \<Rightarrow> bool"
  fs_Open :: "string \<Rightarrow> gerr + open_file"
  fs_dirOpener :: "string \<Rightarrow> string \<Rightarrow> gerr + open_file option"

definition EvalSymlinks :: "filesystem \<Rightarrow> string \<Rightarrow> gerr + string" where
  "EvalSymlinks fs path = (case map_of (fs_links fs) path of None \<Rightarrow> Inl (LibError ''lstat: no such file or directory'') | Some r \<Rightarrow> r)"

record record_opts =
  rec_baseArtifacts :: "(string, digest_set) gomap"
  rec_hashes :: "digest_value list"
  rec_processWasTraced :: bool
  rec_openedFiles :: "(string, bool) gomap"
  rec_dirHashGlob :: "(string \<Rightarrow> bool) option list"

definition shouldRecord :: "record_opts \<Rightarrow> string \<Rightarrow> digest_set \<Rightarrow> bool" where
  "shouldRecord ro path artifact =
     (if map_of (rec_openedFiles ro) path = None \<and> rec_processWasTraced ro then False
      else (case map_of (rec_baseArtifacts ro) path of
              Some previous \<Rightarrow> \<not> DigestSet_Equal artifact previous
            | None \<Rightarrow> True))"

text \<open>The path that the walk hands to the function, and \<open>filepath.Rel(basePath, path)\<close> of it.\<close>

definition walk_path :: "string \<Rightarrow> string list \<Rightarrow> string" where
  "walk_path basePath names = fold (\<lambda>name path. filepath_Join path name) names basePath"

definition rel_path :: "string list \<Rightarrow> string" where
  "rel_path names = (if names = [] then ''.'' else join_strings ''/'' names)"

text \<open>The loop over the globs: a glob that did not compile is nil, and calling it panics; after a match
  the others are not called.\<close>

primrec dirHashMatch :: "(string \<Rightarrow> bool) option list \<Rightarrow> string \<Rightarrow> bool outcome" where
  "dirHashMatch [] relPath = Return False"
| "dirHashMatch (globItem # globs) relPath =
     (case globItem of
        None \<Rightarrow> Panic ''nil pointer dereference''
      | Some g \<Rightarrow> if g relPath then Return True else dirHashMatch globs relPath)"

type_synonym artifacts = "(string, digest_set) gomap"
type_synonym rec_state = "artifacts \<times> string goset"

text \<open>The function that the walk calls; \<open>recur\<close> is the call of \<open>RecordArtifacts\<close> for a link.\<close>

definition record_visit ::
  "crypto_lib \<Rightarrow> filesystem \<Rightarrow> record_opts \<Rightarrow> (string \<Rightarrow> string goset \<Rightarrow> (rec_state \<times> walk_stop option) outcome) \<Rightarrow>
     string \<Rightarrow> rec_state walk_fn" where
  "record_visit lib fs ro recur basePath names node s =
     (case s of (artifacts, visited) \<Rightarrow>
        (let path = walk_path basePath names; relPath = rel_path names
         in case node_error node of
              Some err \<Rightarrow> Return (s, Some (Fail err))
            | None \<Rightarrow>
                (case node of
                   FsDir _ _ \<Rightarrow>
                     bindO (dirHashMatch (rec_dirHashGlob ro) relPath)
                       (\<lambda>matched.
                          if matched
                          then (case CalculateDigestSetFromDir lib (fs_dirOpener fs path) path (rec_hashes ro) of
                                  (_, Some err) \<Rightarrow> Return (s, Some (Fail err))
                                | (dir, None) \<Rightarrow>
                                    Return ((AList.update (relPath @ ''/'') dir artifacts, visited), Some SkipDir))
                          else Return (s, None))
                 | FsLink \<Rightarrow>
                     (case EvalSymlinks fs path of
                        Inl err \<Rightarrow> if fs_IsNotExist fs err then Return (s, None) else Return (s, Some (Fail err))
                      | Inr linkedPath \<Rightarrow>
                          if map_of visited linkedPath \<noteq> None then Return (s, None)
                          else
                            bindO (recur linkedPath (AList.update linkedPath () visited))
                              (\<lambda>((symlinkedArtifacts, visited'), stop).
                                 case stop of
                                   Some _ \<Rightarrow> Return ((artifacts, visited'), stop)
                                 | None \<Rightarrow>
                                     Return ((fold (\<lambda>(artifactPath, artifact) arts.
                                         let joinedPath = filepath_Join relPath artifactPath
                                         in if shouldRecord ro joinedPath artifact
                                            then AList.update joinedPath artifact arts else arts)
                                       symlinkedArtifacts artifacts, visited'), None)))
                 | _ \<Rightarrow>
                     (case CalculateDigestSetFromFile lib (fs_Open fs) path (rec_hashes ro) of
                        (_, Some err) \<Rightarrow> Return (s, Some (Fail err))
                      | (artifact, None) \<Rightarrow>
                          Return ((if shouldRecord ro relPath artifact
                                   then AList.update relPath artifact artifacts else artifacts, visited), None)))))"

text \<open>\<open>RecordArtifacts\<close> with the depth of its calls bounded.\<close>

primrec record_depth ::
  "nat \<Rightarrow> crypto_lib \<Rightarrow> filesystem \<Rightarrow> record_opts \<Rightarrow> string \<Rightarrow> string goset \<Rightarrow> (rec_state \<times> walk_stop option) outcome" where
  "record_depth 0 lib fs ro basePath visited = Return (([], visited), Some Exhausted)"
| "record_depth (Suc n) lib fs ro basePath visited =
     filepath_Walk (record_visit lib fs ro (record_depth n lib fs ro) basePath) (fs_tree fs basePath) ([], visited)"

text \<open>\<open>None\<close> if the bound were not enough.\<close>

definition RecordArtifacts ::
  "crypto_lib \<Rightarrow> filesystem \<Rightarrow> record_opts \<Rightarrow> string \<Rightarrow> string goset \<Rightarrow> (artifacts \<times> string goset \<times> gerr option) outcome option" where
  "RecordArtifacts lib fs ro basePath visited =
     (case record_depth (Suc (length (fs_links fs))) lib fs ro basePath visited of
        Panic msg \<Rightarrow> Some (Panic msg)
      | Return ((artifacts, visited'), stop) \<Rightarrow>
          (case stop of
             Some Exhausted \<Rightarrow> None
           | Some (Fail err) \<Rightarrow> Some (Return (artifacts, visited', Some err))
           | _ \<Rightarrow> Some (Return (artifacts, visited', None))))"

section \<open>Lemmas: walking\<close>

text \<open>What every call of the function keeps, the walk keeps.\<close>

definition keeps :: "('s \<Rightarrow> bool) \<Rightarrow> (walk_stop option \<Rightarrow> bool) \<Rightarrow> 's walk_fn \<Rightarrow> bool" where
  "keeps P Q fn \<longleftrightarrow> Q None \<and> (\<forall>names node s s' stop. P s \<longrightarrow> fn names node s = Return (s', stop) \<longrightarrow> P s' \<and> Q stop)"

lemma walk_invariant:
  "keeps P Q fn \<Longrightarrow> walk fn names node s = Return (s', stop) \<Longrightarrow> P s \<Longrightarrow> P s' \<and> Q stop"
  "keeps P Q fn \<Longrightarrow> walk_children fn names children s = Return (s', stop) \<Longrightarrow> P s \<Longrightarrow> P s' \<and> Q stop"
proof (induction fn names node s and fn names children s arbitrary: s' stop and s' stop rule: walk_walk_children.induct)
  case (1 fn names err children s)
  from "1.prems"(2) obtain t st where t: "fn names (FsDir err children) s = Return (t, st)"
    and rest: "(if err \<noteq> None \<or> st \<noteq> None then Return (t, st) else walk_children fn names children t) = Return (s', stop)"
    by auto
  from "1.prems"(1,3) t have "P t" "Q st" by (auto simp: keeps_def)
  with rest "1.IH" [of st t] "1.prems"(1) show ?case by (auto split: if_splits)
next
  case (6 fn names child children s)
  from "6.prems"(2) obtain t st where t: "walk fn (names @ [fst child]) (snd child) s = Return (t, st)"
    and rest: "(if st = None \<or> (st = Some SkipDir \<and> (is_dir (snd child) \<or> lstat_failed (snd child)))
        then walk_children fn names children t else Return (t, st)) = Return (s', stop)"
    by auto
  from "6.IH"(1) [OF "6.prems"(1) t "6.prems"(3)] have "P t" "Q st" by auto
  with rest "6.IH"(2) [of st t] "6.prems"(1) show ?case by (auto split: if_splits)
qed (auto simp: keeps_def)

section \<open>Lemmas: following links ends\<close>

definition link_targets :: "filesystem \<Rightarrow> string set" where
  "link_targets fs = {t. \<exists>p. (p, Inr t) \<in> set (fs_links fs)}"

definition unvisited :: "filesystem \<Rightarrow> string goset \<Rightarrow> nat" where
  "unvisited fs visited = card (link_targets fs - fst ` set visited)"

lemma link_targets_finite: "finite (link_targets fs)" and link_targets_bound: "card (link_targets fs) \<le> length (fs_links fs)"
proof -
  have sub: "link_targets fs \<subseteq> (\<lambda>(_, r). projr r) ` set (fs_links fs)"
    by (force simp: link_targets_def)
  then show "finite (link_targets fs)" by (rule finite_subset) simp
  have "card (link_targets fs) \<le> card ((\<lambda>(_, r). projr r) ` set (fs_links fs))" by (rule card_mono) (use sub in auto)
  also have "\<dots> \<le> length (fs_links fs)" by (metis card_image_le card_length le_trans List.finite_set)
  finally show "card (link_targets fs) \<le> length (fs_links fs)" .
qed

lemma unvisited_less:
  assumes "t \<in> link_targets fs" and "t \<notin> fst ` set visited" and "fst ` set before \<subseteq> fst ` set visited"
  shows "unvisited fs (AList.update t () visited) < unvisited fs before"
proof -
  have "link_targets fs - fst ` set (AList.update t () visited) \<subset> link_targets fs - fst ` set before"
    unfolding AList.dom_update using assms by blast
  then show ?thesis unfolding unvisited_def by (intro psubset_card_mono) (simp_all add: link_targets_finite)
qed

lemma EvalSymlinks_target: "EvalSymlinks fs path = Inr t \<Longrightarrow> t \<in> link_targets fs"
  by (auto simp: EvalSymlinks_def link_targets_def split: option.splits dest: map_of_SomeD)

text \<open>Only following a link changes the visited ones.\<close>

lemma record_visit_visited:
  assumes "record_visit lib fs ro recur basePath names node (a, v) = Return ((a', v'), stop)"
  shows "v' = v \<and> stop \<noteq> Some Exhausted \<or>
    (\<exists>path t a0. EvalSymlinks fs path = Inr t \<and> map_of v t = None \<and> recur t (AList.update t () v) = Return ((a0, v'), stop))"
proof (cases "node_error node")
  case None
  then show ?thesis
  proof (cases node)
    case FsLink
    with assms show ?thesis
      by (auto simp: record_visit_def Let_def split: sum.splits if_splits option.splits) blast+
  qed (use assms None in \<open>auto simp: record_visit_def Let_def split: prod.splits option.splits if_splits\<close>)
next
  case (Some err)
  with assms show ?thesis by (auto simp: record_visit_def Let_def)
qed

text \<open>With more depth than unvisited targets the bound is never reached, and visited links stay visited.\<close>

lemma record_depth_enough:
  assumes "unvisited fs visited < n" and "record_depth n lib fs ro basePath visited = Return ((arts, visited'), stop)"
  shows "stop \<noteq> Some Exhausted \<and> fst ` set visited \<subseteq> fst ` set visited'"
  using assms
proof (induction n arbitrary: basePath visited arts visited' stop)
  case (Suc n)
  let ?fn = "record_visit lib fs ro (record_depth n lib fs ro) basePath"
  let ?P = "\<lambda>(arts, vis). fst ` set visited \<subseteq> fst ` set vis" and ?Q = "\<lambda>stop. stop \<noteq> Some Exhausted"
  have link: "?P (a', v') \<and> ?Q st"
    if "fst ` set visited \<subseteq> fst ` set v" "EvalSymlinks fs path = Inr t" "map_of v t = None"
      "record_depth n lib fs ro t (AList.update t () v) = Return ((a', v'), st)" for path t v a' v' st
  proof -
    have "unvisited fs (AList.update t () v) < unvisited fs visited"
      using that by (intro unvisited_less EvalSymlinks_target) (auto simp: map_of_eq_None_iff)
    with Suc.prems(1) have "unvisited fs (AList.update t () v) < n" by simp
    from Suc.IH [OF this that(4)] that(1) show ?thesis by (auto simp: AList.dom_update)
  qed
  have "keeps ?P ?Q ?fn"
    unfolding keeps_def
  proof (intro conjI allI impI)
    fix names node s s' st
    assume "?P s" and "?fn names node s = Return (s', st)"
    moreover obtain a v where s: "s = (a, v)" by fastforce
    moreover obtain a' v' where s': "s' = (a', v')" by fastforce
    ultimately have v: "fst ` set visited \<subseteq> fst ` set v" and fn: "?fn names node (a, v) = Return ((a', v'), st)" by auto
    have "?P (a', v') \<and> ?Q st"
      using record_visit_visited [OF fn]
    proof (elim disjE exE conjE)
      assume "v' = v" "st \<noteq> Some Exhausted"
      with v show ?thesis by simp
    next
      fix path t a0
      assume "EvalSymlinks fs path = Inr t" "map_of v t = None"
        "record_depth n lib fs ro t (AList.update t () v) = Return ((a0, v'), st)"
      from link [OF v this] show ?thesis by simp
    qed
    then show "?P s'" "?Q st" unfolding s' by blast+
  qed simp
  from Suc.prems(2) obtain st where st: "walk ?fn [] (fs_tree fs basePath) ([], visited) = Return ((arts, visited'), st)"
    and stop: "stop = (if st = Some SkipDir then None else st)"
    unfolding record_depth.simps filepath_Walk_def bindO_Return_iff by (auto split: prod.splits)
  from walk_invariant(1) [OF \<open>keeps ?P ?Q ?fn\<close> st] stop show ?case by simp
qed simp

lemma RecordArtifacts_returns: "RecordArtifacts lib fs ro basePath visited \<noteq> None"
proof -
  have "unvisited fs visited \<le> card (link_targets fs)"
    unfolding unvisited_def by (intro card_mono link_targets_finite) auto
  with link_targets_bound [of fs] have enough: "unvisited fs visited < Suc (length (fs_links fs))" by simp
  show ?thesis
  proof (cases "record_depth (Suc (length (fs_links fs))) lib fs ro basePath visited")
    case (Return r)
    obtain arts visited' stop where r: "r = ((arts, visited'), stop)" by (metis prod.exhaust)
    from record_depth_enough [OF enough Return [unfolded r]] have "stop \<noteq> Some Exhausted" by simp
    then show ?thesis unfolding RecordArtifacts_def Return r
      by (cases stop) (auto split: walk_stop.splits)
  qed (simp add: RecordArtifacts_def)
qed

section \<open>Lemmas: what is recorded\<close>

text \<open>The files below a node, in the order of the walk, and the directories to hash: the walk does not go
  into those. Links have no entries of their own.\<close>

fun tree_entries :: "(string \<Rightarrow> bool) \<Rightarrow> string list \<Rightarrow> fs_node \<Rightarrow> (string list \<times> bool) list"
  and child_entries :: "(string \<Rightarrow> bool) \<Rightarrow> string list \<Rightarrow> (string \<times> fs_node) list \<Rightarrow> (string list \<times> bool) list" where
  "tree_entries hashed names (FsDir err children) =
     (if hashed (rel_path names) then [(names, True)] else child_entries hashed names children)"
| "tree_entries hashed names FsFile = [(names, False)]"
| "tree_entries hashed names FsLink = []"
| "tree_entries hashed names (FsError err) = []"
| "child_entries hashed names [] = []"
| "child_entries hashed names (child # children) =
     tree_entries hashed (names @ [fst child]) (snd child) @ child_entries hashed names children"

text \<open>What an entry is recorded as: a hashed directory always, a file when it should be.\<close>

definition recorded_as ::
  "crypto_lib \<Rightarrow> filesystem \<Rightarrow> record_opts \<Rightarrow> string \<Rightarrow> string list \<times> bool \<Rightarrow> (string \<times> digest_set) option" where
  "recorded_as lib fs ro basePath entry =
     (case entry of (names, hashed) \<Rightarrow>
        if hashed
        then Some (rel_path names @ ''/'',
               fst (CalculateDigestSetFromDir lib (fs_dirOpener fs (walk_path basePath names))
                 (walk_path basePath names) (rec_hashes ro)))
        else (let artifact = fst (CalculateDigestSetFromFile lib (fs_Open fs) (walk_path basePath names) (rec_hashes ro))
              in if shouldRecord ro (rel_path names) artifact then Some (rel_path names, artifact) else None))"

definition hashed_dir :: "record_opts \<Rightarrow> string \<Rightarrow> bool" where
  "hashed_dir ro relPath \<longleftrightarrow> dirHashMatch (rec_dirHashGlob ro) relPath = Return True"

definition entries_recorded ::
  "crypto_lib \<Rightarrow> filesystem \<Rightarrow> record_opts \<Rightarrow> string \<Rightarrow> (string list \<times> bool) list \<Rightarrow> artifacts \<Rightarrow> artifacts" where
  "entries_recorded lib fs ro basePath entries = put_all (List.map_filter (recorded_as lib fs ro basePath) entries)"

lemma entries_recorded_simps [simp]:
  "entries_recorded lib fs ro basePath [] arts = arts"
  "entries_recorded lib fs ro basePath (es @ es') arts =
     entries_recorded lib fs ro basePath es' (entries_recorded lib fs ro basePath es arts)"
  by (simp_all add: entries_recorded_def List.map_filter_def put_all_def)

text \<open>A link adds nothing, as far as this walk is concerned.\<close>

definition links_add_nothing :: "rec_state walk_fn \<Rightarrow> bool" where
  "links_add_nothing fn \<longleftrightarrow>
     (\<forall>names a v a' v' stop. fn names FsLink (a, v) = Return ((a', v'), stop) \<longrightarrow>
        (stop = None \<longrightarrow> a' = a) \<and> stop \<noteq> Some SkipDir)"

lemma record_visit_dir:
  assumes "record_visit lib fs ro recur basePath names (FsDir err children) (a, v) = Return ((a', v'), stop)"
    and "stop = None \<or> stop = Some SkipDir"
  shows "err = None \<and>
    (if hashed_dir ro (rel_path names)
     then stop = Some SkipDir \<and> a' = entries_recorded lib fs ro basePath [(names, True)] a
     else stop = None \<and> a' = a)"
  using assms
  by (auto simp: record_visit_def Let_def hashed_dir_def entries_recorded_def recorded_as_def List.map_filter_def
      split: option.splits prod.splits if_splits)

lemma record_visit_file:
  assumes "record_visit lib fs ro recur basePath names FsFile (a, v) = Return ((a', v'), stop)"
    and "stop = None \<or> stop = Some SkipDir"
  shows "stop = None \<and> a' = entries_recorded lib fs ro basePath [(names, False)] a"
  using assms
  by (auto simp: record_visit_def Let_def entries_recorded_def recorded_as_def List.map_filter_def
      split: option.splits prod.splits if_splits)

lemma walk_entries:
  assumes "fn = record_visit lib fs ro recur basePath" and "links_add_nothing fn" and "hashed = hashed_dir ro"
  shows "walk fn names node (a, v) = Return ((a', v'), stop) \<Longrightarrow> stop = None \<or> stop = Some SkipDir \<Longrightarrow>
      a' = entries_recorded lib fs ro basePath (tree_entries hashed names node) a \<and>
      (stop = Some SkipDir \<longrightarrow> is_dir node)"
    and "walk_children fn names children (a, v) = Return ((a', v'), stop) \<Longrightarrow> stop = None \<or> stop = Some SkipDir \<Longrightarrow>
      a' = entries_recorded lib fs ro basePath (child_entries hashed names children) a \<and> stop = None"
  using assms(3)
proof (induction hashed names node and hashed names children arbitrary: a v a' v' stop and a v a' v' stop
    rule: tree_entries_child_entries.induct)
  case (1 hashed names err children)
  from "1.prems"(1) obtain b w st where b: "fn names (FsDir err children) (a, v) = Return ((b, w), st)"
    and rest: "(if err \<noteq> None \<or> st \<noteq> None then Return ((b, w), st) else walk_children fn names children (b, w)) =
      Return ((a', v'), stop)"
    by auto
  from rest "1.prems"(2) have "st = None \<or> st = Some SkipDir" by (auto split: if_splits)
  from record_visit_dir [OF b [unfolded assms(1)] this] have err: "err = None"
    and cases: "if hashed (rel_path names)
     then st = Some SkipDir \<and> b = entries_recorded lib fs ro basePath [(names, True)] a
     else st = None \<and> b = a" by (simp_all add: "1.prems"(3))
  show ?case
  proof (cases "hashed (rel_path names)")
    case True
    with cases rest show ?thesis by simp
  next
    case False
    with cases rest err have "walk_children fn names children (a, w) = Return ((a', v'), stop)" by simp
    from "1.IH" [OF False this "1.prems"(2,3)] False show ?thesis by simp
  qed
next
  case (2 hashed names)
  then show ?case using record_visit_file [of lib fs ro recur basePath names a v a' v' stop] by (simp add: assms(1))
next
  case (3 hashed names)
  then show ?case using assms(2) by (auto simp: links_add_nothing_def)
next
  case (4 hashed names err)
  then show ?case by (auto simp: assms(1) record_visit_def)
next
  case (6 hashed names child children)
  from "6.prems"(1) obtain b w st where b: "walk fn (names @ [fst child]) (snd child) (a, v) = Return ((b, w), st)"
    and rest: "(if st = None \<or> (st = Some SkipDir \<and> (is_dir (snd child) \<or> lstat_failed (snd child)))
        then walk_children fn names children (b, w) else Return ((b, w), st)) = Return ((a', v'), stop)"
    by auto
  from rest "6.prems"(2) have st: "st = None \<or> st = Some SkipDir" by (auto split: if_splits)
  note here = "6.IH"(1) [OF b st "6.prems"(3)]
  with rest st have "walk_children fn names children (b, w) = Return ((a', v'), stop)" by auto
  from "6.IH"(2) [OF this "6.prems"(2,3)] here show ?case by simp
qed simp_all

lemma RecordArtifacts_entries:
  assumes "RecordArtifacts lib fs ro basePath visited = Some (Return (arts, visited', None))"
    and "\<And>n. links_add_nothing (record_visit lib fs ro (record_depth n lib fs ro) basePath)"
  shows "arts = entries_recorded lib fs ro basePath (tree_entries (hashed_dir ro) [] (fs_tree fs basePath)) []"
proof -
  let ?fn = "record_visit lib fs ro (record_depth (length (fs_links fs)) lib fs ro) basePath"
  from assms(1) obtain st where "walk ?fn [] (fs_tree fs basePath) ([], visited) = Return ((arts, visited'), st)"
    and "st = None \<or> st = Some SkipDir"
    unfolding RecordArtifacts_def record_depth.simps filepath_Walk_def
    by (auto split: outcome.splits option.splits walk_stop.splits prod.splits if_splits)
  from walk_entries(1) [OF refl assms(2) refl this] show ?thesis by simp
qed

lemma no_links_add_nothing:
  assumes "fs_links fs = []"
  shows "links_add_nothing (record_visit lib fs ro recur basePath)"
  using assms by (auto simp: links_add_nothing_def record_visit_def Let_def EvalSymlinks_def split: if_splits)

text \<open>The target of a link to a file is looked up under the name dot, which no traced process opens.\<close>

lemma traced_file_not_recorded:
  assumes "rec_processWasTraced ro" and "map_of (rec_openedFiles ro) ''.'' = None" and "fs_tree fs t = FsFile"
    and "record_depth n lib fs ro t v = Return ((a, v'), stop)"
  shows "a = [] \<and> stop \<noteq> Some SkipDir"
proof (cases n)
  case (Suc m)
  with assms show ?thesis
    by (auto simp: filepath_Walk_def record_visit_def rel_path_def shouldRecord_def split: prod.splits option.splits)
qed (use assms in auto)

lemma traced_links_add_nothing:
  assumes "rec_processWasTraced ro" and "map_of (rec_openedFiles ro) ''.'' = None"
    and "\<forall>t \<in> link_targets fs. fs_tree fs t = FsFile"
  shows "links_add_nothing (record_visit lib fs ro (record_depth n lib fs ro) basePath)"
  unfolding links_add_nothing_def
proof (intro allI impI)
  fix names a v a' v' stop
  assume visit: "record_visit lib fs ro (record_depth n lib fs ro) basePath names FsLink (a, v) = Return ((a', v'), stop)"
  show "(stop = None \<longrightarrow> a' = a) \<and> stop \<noteq> Some SkipDir"
  proof (cases "EvalSymlinks fs (walk_path basePath names)")
    case (Inl err)
    with visit show ?thesis by (auto simp: record_visit_def split: if_splits)
  next
    case (Inr t)
    with assms(3) EvalSymlinks_target have t: "fs_tree fs t = FsFile" by blast
    show ?thesis
    proof (cases "map_of v t = None")
      case True
      with visit Inr obtain b w st where "record_depth n lib fs ro t (AList.update t () v) = Return ((b, w), st)"
        and "(stop = None \<longrightarrow> b = [] \<longrightarrow> a' = a) \<and> stop = st"
        by (auto simp: record_visit_def split: option.splits)
      with traced_file_not_recorded [OF assms(1,2) t this(1)] show ?thesis by simp
    next
      case False
      with visit Inr show ?thesis by (auto simp: record_visit_def)
    qed
  qed
qed

section \<open>Lemmas: what links record\<close>

text \<open>The walk with its links: what it meets below a node, in order, without what it does not go into.\<close>

datatype item_kind = DirItem | FileItem | LinkItem

fun tree_items :: "(string \<Rightarrow> bool) \<Rightarrow> string list \<Rightarrow> fs_node \<Rightarrow> (string list \<times> item_kind) list"
  and child_items :: "(string \<Rightarrow> bool) \<Rightarrow> string list \<Rightarrow> (string \<times> fs_node) list \<Rightarrow> (string list \<times> item_kind) list" where
  "tree_items hashed names (FsDir err children) =
     (if hashed (rel_path names) then [(names, DirItem)] else child_items hashed names children)"
| "tree_items hashed names FsFile = [(names, FileItem)]"
| "tree_items hashed names FsLink = [(names, LinkItem)]"
| "tree_items hashed names (FsError err) = []"
| "child_items hashed names [] = []"
| "child_items hashed names (child # children) =
     tree_items hashed (names @ [fst child]) (snd child) @ child_items hashed names children"

text \<open>What a link adds: the artifacts of its target under the name of the link, those that should be recorded there.\<close>

definition linked_artifacts :: "record_opts \<Rightarrow> string \<Rightarrow> artifacts \<Rightarrow> artifacts \<Rightarrow> artifacts" where
  "linked_artifacts ro relPath found arts =
     fold (\<lambda>(artifactPath, artifact) arts.
         let joinedPath = filepath_Join relPath artifactPath
         in if shouldRecord ro joinedPath artifact then AList.update joinedPath artifact arts else arts) found arts"

text \<open>The recording of a list of items, as a relation between the artifacts and the visited targets before and after, and so
  without a bound on the nesting of links: a link that does not resolve adds nothing, and neither does one whose target
  was visited; any other marks its target as visited and adds what recording the target yields.\<close>

inductive items_recorded ::
  "crypto_lib \<Rightarrow> filesystem \<Rightarrow> record_opts \<Rightarrow> string \<Rightarrow> (string list \<times> item_kind) list \<Rightarrow> rec_state \<Rightarrow> rec_state \<Rightarrow> bool"
  for lib fs ro where
  none: "items_recorded lib fs ro basePath [] s s"
| directory: "items_recorded lib fs ro basePath items
       (entries_recorded lib fs ro basePath [(names, True)] a, v) t \<Longrightarrow>
     items_recorded lib fs ro basePath ((names, DirItem) # items) (a, v) t"
| file_entry: "items_recorded lib fs ro basePath items
       (entries_recorded lib fs ro basePath [(names, False)] a, v) t \<Longrightarrow>
     items_recorded lib fs ro basePath ((names, FileItem) # items) (a, v) t"
| broken: "EvalSymlinks fs (walk_path basePath names) = Inl err \<Longrightarrow> items_recorded lib fs ro basePath items s t \<Longrightarrow>
     items_recorded lib fs ro basePath ((names, LinkItem) # items) s t"
| seen: "EvalSymlinks fs (walk_path basePath names) = Inr target \<Longrightarrow> map_of v target \<noteq> None \<Longrightarrow>
     items_recorded lib fs ro basePath items (a, v) t \<Longrightarrow>
     items_recorded lib fs ro basePath ((names, LinkItem) # items) (a, v) t"
| followed: "EvalSymlinks fs (walk_path basePath names) = Inr target \<Longrightarrow> map_of v target = None \<Longrightarrow>
     items_recorded lib fs ro target (tree_items (hashed_dir ro) [] (fs_tree fs target))
       ([], AList.update target () v) (found, v') \<Longrightarrow>
     items_recorded lib fs ro basePath items (linked_artifacts ro (rel_path names) found a, v') t \<Longrightarrow>
     items_recorded lib fs ro basePath ((names, LinkItem) # items) (a, v) t"

inductive_cases items_recorded_NilE: "items_recorded lib fs ro basePath [] s t"
inductive_cases items_recorded_DirE: "items_recorded lib fs ro basePath ((names, DirItem) # items) s t"
inductive_cases items_recorded_FileE: "items_recorded lib fs ro basePath ((names, FileItem) # items) s t"
inductive_cases items_recorded_LinkE: "items_recorded lib fs ro basePath ((names, LinkItem) # items) s t"

text \<open>The relation has at most one result, and lists are recorded one after the other.\<close>

lemma items_recorded_unique:
  "items_recorded lib fs ro basePath items s t \<Longrightarrow> items_recorded lib fs ro basePath items s t' \<Longrightarrow> t' = t"
proof (induction arbitrary: t' rule: items_recorded.induct)
  case (none basePath s)
  then show ?case by (rule items_recorded_NilE) simp
next
  case (directory basePath items names a v t)
  from directory.prems show ?case by (rule items_recorded_DirE) (rule directory.IH, simp)
next
  case (file_entry basePath items names a v t)
  from file_entry.prems show ?case by (rule items_recorded_FileE) (rule file_entry.IH, simp)
next
  case (broken basePath names err items s t)
  from broken.prems show ?case
    by (rule items_recorded_LinkE) (rule broken.IH, assumption, use broken.hyps in simp_all)
next
  case (seen basePath names target v items a t)
  from seen.prems show ?case
    by (rule items_recorded_LinkE) (use seen.hyps in simp, rule seen.IH, simp, use seen.hyps in simp)
next
  case (followed basePath names target v found v' items a t)
  from followed.prems show ?case
  proof (rule items_recorded_LinkE)
    fix w target' found' w' b
    assume step: "(a, v) = (b, w)" "EvalSymlinks fs (walk_path basePath names) = Inr target'"
      and sub: "items_recorded lib fs ro target' (tree_items (hashed_dir ro) [] (fs_tree fs target'))
        ([], AList.update target' () w) (found', w')"
      and rest: "items_recorded lib fs ro basePath items (linked_artifacts ro (rel_path names) found' b, w') t'"
    from step followed.hyps have same: "target' = target" "w = v" "b = a" by simp_all
    from followed.IH(1) [OF sub [unfolded same]] have "found' = found" "w' = v'" by simp_all
    with followed.IH(2) rest same show "t' = t" by simp
  qed (use followed.hyps in simp_all)
qed

lemma items_recorded_append:
  "items_recorded lib fs ro basePath items s t \<Longrightarrow> items_recorded lib fs ro basePath items' t u \<Longrightarrow>
     items_recorded lib fs ro basePath (items @ items') s u"
  by (induction rule: items_recorded.induct) (auto intro: items_recorded.intros)

text \<open>A walk that ends without an error recorded its items, when the calls for links do.\<close>

definition calls_record :: "crypto_lib \<Rightarrow> filesystem \<Rightarrow> record_opts \<Rightarrow> (string \<Rightarrow> string goset \<Rightarrow> (rec_state \<times> walk_stop option) outcome) \<Rightarrow> bool" where
  "calls_record lib fs ro recur \<longleftrightarrow>
     (\<forall>t v s stop. recur t v = Return (s, stop) \<longrightarrow> stop \<noteq> Some SkipDir \<and>
        (stop = None \<longrightarrow> items_recorded lib fs ro t (tree_items (hashed_dir ro) [] (fs_tree fs t)) ([], v) s))"

lemma record_visit_link:
  assumes "calls_record lib fs ro recur" and "record_visit lib fs ro recur basePath names FsLink (a, v) = Return (s, stop)"
    and "stop = None \<or> stop = Some SkipDir"
  shows "stop = None \<and> items_recorded lib fs ro basePath [(names, LinkItem)] (a, v) s"
proof (cases "EvalSymlinks fs (walk_path basePath names)")
  case (Inl err)
  with assms(2,3) have "stop = None \<and> s = (a, v)" by (auto simp: record_visit_def split: if_splits)
  with broken [OF Inl none] show ?thesis by simp
next
  case (Inr target)
  show ?thesis
  proof (cases "map_of v target = None")
    case True
    have "record_visit lib fs ro recur basePath names FsLink (a, v) =
        bindO (recur target (AList.update target () v)) (\<lambda>((found, v'), st). case st of
          Some _ \<Rightarrow> Return ((a, v'), st) | None \<Rightarrow> Return ((linked_artifacts ro (rel_path names) found a, v'), None))"
      using Inr True unfolding linked_artifacts_def by (simp add: record_visit_def)
    with assms(2) obtain found v' st where call: "recur target (AList.update target () v) = Return ((found, v'), st)"
      and rest: "(case st of Some _ \<Rightarrow> Return ((a, v'), st)
         | None \<Rightarrow> Return ((linked_artifacts ro (rel_path names) found a, v'), None)) = Return (s, stop)"
      by auto
    from assms(1) call have st: "st \<noteq> Some SkipDir"
      "st = None \<Longrightarrow> items_recorded lib fs ro target (tree_items (hashed_dir ro) [] (fs_tree fs target)) ([], AList.update target () v) (found, v')"
      by (auto simp: calls_record_def)
    with rest assms(3) have "st = None" by (auto split: option.splits)
    with rest followed [OF Inr True st(2) none] show ?thesis by auto
  next
    case False
    with Inr assms(2,3) have "stop = None \<and> s = (a, v)" by (auto simp: record_visit_def)
    with seen [OF Inr False none] show ?thesis by simp
  qed
qed

lemma walk_items:
  assumes "fn = record_visit lib fs ro recur basePath" and "calls_record lib fs ro recur" and "hashed = hashed_dir ro"
  shows "walk fn names node s = Return (t, stop) \<Longrightarrow> stop = None \<or> stop = Some SkipDir \<Longrightarrow>
      items_recorded lib fs ro basePath (tree_items hashed names node) s t \<and> (stop = Some SkipDir \<longrightarrow> is_dir node)"
    and "walk_children fn names children s = Return (t, stop) \<Longrightarrow> stop = None \<or> stop = Some SkipDir \<Longrightarrow>
      items_recorded lib fs ro basePath (child_items hashed names children) s t \<and> stop = None"
  using assms(3)
proof (induction hashed names node and hashed names children arbitrary: s t stop and s t stop rule: tree_items_child_items.induct)
  case (1 hashed names err children)
  obtain a v where s: "s = (a, v)" by (cases s)
  from "1.prems"(1) obtain b w st where b: "fn names (FsDir err children) (a, v) = Return ((b, w), st)"
    and rest: "(if err \<noteq> None \<or> st \<noteq> None then Return ((b, w), st) else walk_children fn names children (b, w)) = Return (t, stop)"
    by (auto simp: s)
  from rest "1.prems"(2) have st: "st = None \<or> st = Some SkipDir" by (auto split: if_splits)
  from record_visit_dir [OF b [unfolded assms(1)] st] have err: "err = None"
    and cases: "if hashed (rel_path names)
     then st = Some SkipDir \<and> b = entries_recorded lib fs ro basePath [(names, True)] a
     else st = None \<and> b = a" by (simp_all add: "1.prems"(3))
  have w: "w = v" using b err by (auto simp: assms(1) record_visit_def Let_def split: option.splits prod.splits if_splits)
  show ?case
  proof (cases "hashed (rel_path names)")
    case True
    with cases rest w s directory [OF none, of lib fs ro basePath names a v] show ?thesis by auto
  next
    case False
    with cases rest err w s have "walk_children fn names children s = Return (t, stop)" by simp
    from "1.IH" [OF False this "1.prems"(2,3)] False show ?thesis by simp
  qed
next
  case (2 hashed names)
  obtain a v where s: "s = (a, v)" by (cases s)
  obtain b w where t: "t = (b, w)" by (cases t)
  from 2 have visit: "record_visit lib fs ro recur basePath names FsFile (a, v) = Return ((b, w), stop)" by (simp add: s t assms(1))
  from record_visit_file [OF visit "2.prems"(2)] have "stop = None" "b = entries_recorded lib fs ro basePath [(names, False)] a" by blast+
  moreover from visit this(1) have "w = v" by (auto simp: record_visit_def Let_def split: option.splits prod.splits)
  ultimately show ?case using file_entry [OF none, of lib fs ro basePath names a v] by (simp add: s t)
next
  case (3 hashed names)
  obtain a v where s: "s = (a, v)" by (cases s)
  from 3 have "record_visit lib fs ro recur basePath names FsLink (a, v) = Return (t, stop)" by (simp add: s assms(1))
  from record_visit_link [OF assms(2) this "3.prems"(2)] show ?case by (simp add: s)
next
  case (4 hashed names err)
  then show ?case by (cases s) (auto simp: assms(1) record_visit_def)
next
  case (6 hashed names child children)
  from "6.prems"(1) obtain u st where u: "walk fn (names @ [fst child]) (snd child) s = Return (u, st)"
    and rest: "(if st = None \<or> (st = Some SkipDir \<and> (is_dir (snd child) \<or> lstat_failed (snd child)))
        then walk_children fn names children u else Return (u, st)) = Return (t, stop)"
    by auto
  from rest "6.prems"(2) have st: "st = None \<or> st = Some SkipDir" by (auto split: if_splits)
  note here = "6.IH"(1) [OF u st "6.prems"(3)]
  with rest st have "walk_children fn names children u = Return (t, stop)" by auto
  from "6.IH"(2) [OF this "6.prems"(2,3)] items_recorded_append [OF here [THEN conjunct1]] show ?case
    unfolding child_items.simps by blast
qed (auto intro: none)

lemma record_depth_calls: "calls_record lib fs ro (record_depth n lib fs ro)"
proof (induction n)
  case (Suc n)
  show ?case unfolding calls_record_def
  proof (intro allI impI)
    fix t v s stop
    assume "record_depth (Suc n) lib fs ro t v = Return (s, stop)"
    then obtain st where w: "walk (record_visit lib fs ro (record_depth n lib fs ro) t) [] (fs_tree fs t) ([], v) = Return (s, st)"
      and stop: "stop = (if st = Some SkipDir then None else st)"
      by (auto simp: filepath_Walk_def)
    with walk_items(1) [OF refl Suc.IH refl w] show "stop \<noteq> Some SkipDir \<and>
        (stop = None \<longrightarrow> items_recorded lib fs ro t (tree_items (hashed_dir ro) [] (fs_tree fs t)) ([], v) s)" by auto
  qed
qed (simp add: calls_record_def)

lemma RecordArtifacts_items:
  assumes "RecordArtifacts lib fs ro basePath visited = Some (Return (arts, visited', None))"
  shows "items_recorded lib fs ro basePath (tree_items (hashed_dir ro) [] (fs_tree fs basePath)) ([], visited) (arts, visited')"
proof -
  from assms obtain stop where run: "record_depth (Suc (length (fs_links fs))) lib fs ro basePath visited = Return ((arts, visited'), stop)"
    and "stop = None \<or> stop = Some SkipDir"
    unfolding RecordArtifacts_def
    by (auto simp del: record_depth.simps split: outcome.splits option.splits walk_stop.splits prod.splits)
  moreover from run record_depth_calls have "stop \<noteq> Some SkipDir" unfolding calls_record_def by blast
  ultimately have "record_depth (Suc (length (fs_links fs))) lib fs ro basePath visited = Return ((arts, visited'), None)" by blast
  with record_depth_calls show ?thesis unfolding calls_record_def by blast
qed

text \<open>Why a name may be in the result.\<close>

definition record_reason :: "record_opts \<Rightarrow> string \<times> digest_set \<Rightarrow> bool" where
  "record_reason ro entry \<longleftrightarrow>
     (\<exists>names. fst entry = rel_path names @ ''/'' \<and> hashed_dir ro (rel_path names)) \<or> shouldRecord ro (fst entry) (snd entry)"

lemma update_entries: "\<forall>e \<in> set m. R e \<Longrightarrow> R (k, v) \<Longrightarrow> \<forall>e \<in> set (AList.update k v m). R e"
  by (induction m) auto

lemma fold_recorded_reason:
  "\<forall>e \<in> set arts. record_reason ro e \<Longrightarrow>
   \<forall>e \<in> set (fold (\<lambda>(p, d) arts. let q = f p in if shouldRecord ro q d then AList.update q d arts else arts) xs arts).
     record_reason ro e"
proof (induction xs arbitrary: arts)
  case (Cons x xs)
  obtain p d where x: "x = (p, d)" by fastforce
  have "\<forall>e \<in> set (if shouldRecord ro (f p) d then AList.update (f p) d arts else arts). record_reason ro e"
    using Cons.prems update_entries [OF Cons.prems, of "f p" d] by (simp add: record_reason_def)
  from Cons.IH [OF this] show ?case by (simp add: x Let_def)
qed simp

lemma record_visit_reason:
  assumes "\<forall>e \<in> set a. record_reason ro e"
    and "record_visit lib fs ro recur basePath names node (a, v) = Return ((a', v'), stop)"
  shows "\<forall>e \<in> set a'. record_reason ro e"
proof (cases "node_error node")
  case None
  have dir: "\<forall>e \<in> set (AList.update (rel_path names @ ''/'') d a). record_reason ro e"
    if "dirHashMatch (rec_dirHashGlob ro) (rel_path names) = Return True" for d
    using that assms(1) by (intro update_entries) (auto simp: record_reason_def hashed_dir_def)
  have plain: "\<forall>e \<in> set (AList.update p d a). record_reason ro e" if "shouldRecord ro p d" for p d
    using that assms(1) by (intro update_entries) (auto simp: record_reason_def)
  show ?thesis
  proof (cases node)
    case FsLink
    with assms fold_recorded_reason [OF assms(1), of "filepath_Join (rel_path names)"] show ?thesis
      by (auto simp: record_visit_def split: sum.splits if_splits option.splits)
  next
    case (FsDir err children)
    with assms None dir show ?thesis
      by (auto simp: record_visit_def Let_def split: prod.splits option.splits if_splits)
  next
    case FsFile
    with assms plain show ?thesis
      by (auto simp: record_visit_def Let_def split: prod.splits option.splits if_splits)
  qed (use None in simp)
next
  case (Some err)
  with assms show ?thesis by (auto simp: record_visit_def Let_def)
qed

lemma recorded_new_loop:
  assumes "RecordArtifacts lib fs ro basePath visited = Some (Return (arts, visited', err))"
    and "(path, digests) \<in> set arts"
  shows "record_reason ro (path, digests)"
proof -
  let ?fn = "record_visit lib fs ro (record_depth (length (fs_links fs)) lib fs ro) basePath"
  from assms(1) obtain st where st: "walk ?fn [] (fs_tree fs basePath) ([], visited) = Return ((arts, visited'), st)"
    unfolding RecordArtifacts_def record_depth.simps filepath_Walk_def
    by (auto split: outcome.splits option.splits walk_stop.splits prod.splits if_splits)
  have "keeps (\<lambda>s. \<forall>e \<in> set (fst s). record_reason ro e) (\<lambda>_. True) ?fn"
    unfolding keeps_def
  proof (intro conjI allI impI TrueI)
    fix names node and s s' :: rec_state and stop
    assume P: "\<forall>e \<in> set (fst s). record_reason ro e" and fn: "?fn names node s = Return (s', stop)"
    from record_visit_reason [of "fst s" ro lib fs "record_depth (length (fs_links fs)) lib fs ro" basePath names node "snd s"
        "fst s'" "snd s'" stop] P fn
    show "\<forall>e \<in> set (fst s'). record_reason ro e" by simp
  qed
  from walk_invariant(1) [OF this st] assms(2) show ?thesis by simp
qed

section \<open>Properties\<close>

text \<open>C20. Recording always returns: however the links point to each other, every target is followed once, so
  the calls end.\<close>

theorem RecordArtifacts_terminates: "\<exists>r. RecordArtifacts lib fs ro basePath visited = Some r"
  using RecordArtifacts_returns by blast

text \<open>C19. What recording a directory yields, symbolic links included. The walk goes through what it meets in order: a
  directory to hash is recorded with its digests, whether it is known or not; a file is recorded when its digests are not
  those already known under its path and, if the command was traced, it was opened; a link that does not resolve, or
  whose target was visited before, adds nothing; and any other link marks its target as visited and adds, under its own
  name, those of the artifacts found by recording the target that should be recorded there. Later entries replace
  earlier ones of the same name. There is exactly one such result (\<open>items_recorded\<close> is the relation), and it is what
  \<open>RecordArtifacts\<close> returns with the targets that it visited. In a file system without links that resolve these are
  exactly the directories to hash and the changed files.\<close>

theorem RecordArtifacts_exact:
  assumes "RecordArtifacts lib fs ro basePath visited = Some (Return (arts, visited', None))"
  shows "(items_recorded lib fs ro basePath (tree_items (hashed_dir ro) [] (fs_tree fs basePath)) ([], visited) result \<longleftrightarrow>
      result = (arts, visited')) \<and>
    (fs_links fs = [] \<longrightarrow> arts = put_all (List.map_filter (recorded_as lib fs ro basePath)
      (tree_entries (hashed_dir ro) [] (fs_tree fs basePath))) [])"
  using RecordArtifacts_items [OF assms] items_recorded_unique [OF RecordArtifacts_items [OF assms]]
    RecordArtifacts_entries [OF assms no_links_add_nothing]
  unfolding entries_recorded_def by blast

definition sample_fs :: "filesystem" where
  "sample_fs =
     \<lparr>fs_tree = (\<lambda>p. FsDir None [(''a'', FsFile), (''d'', FsDir None [(''b'', FsFile)]), (''h'', FsDir None [])]),
      fs_links = [], fs_IsNotExist = (\<lambda>_. False),
      fs_Open = (\<lambda>p. Inr \<lparr>file_stat = Inr 0, file_data = Inr p\<rparr>), fs_dirOpener = (\<lambda>_ _. Inr None)\<rparr>"

definition sample_rec_opts :: record_opts where
  "sample_rec_opts =
     \<lparr>rec_baseArtifacts = [(''a'', [(plain_digest SHA256, HexEncode ''w/a'')])], rec_hashes = [plain_digest SHA256],
      rec_processWasTraced = False, rec_openedFiles = [], rec_dirHashGlob = [Some (\<lambda>p. p = ''h'')]\<rparr>"

lemma sample_recorded:
  "RecordArtifacts sample_lib sample_fs sample_rec_opts ''w'' [] =
     Some (Return ([(''d/b'', [(plain_digest SHA256, HexEncode ''w/d/b'')]), (''h/'', [(dir_digest, [])])], [], None))"
  by code_simp

text \<open>A link to a file with the digests of the first of two directories, which is recorded through the link.\<close>

definition sample_linked_fs :: "filesystem" where
  "sample_linked_fs = sample_fs
     \<lparr>fs_tree := (\<lambda>p. if p = ''t'' then FsDir None [(''x'', FsFile)] else FsDir None [(''l'', FsLink), (''m'', FsLink)]),
      fs_links := [(''w/l'', Inr ''t''), (''w/m'', Inr ''t'')]\<rparr>"

lemma sample_linked_recorded:
  "RecordArtifacts sample_lib sample_linked_fs sample_rec_opts ''w'' [] =
     Some (Return ([(''l/x'', [(plain_digest SHA256, HexEncode ''t/x'')])], [(''t'', ())], None))"
  by code_simp

theorem RecordArtifacts_exact_witness:
  "[(''d/b'', [(plain_digest SHA256, HexEncode ''w/d/b'')]), (''h/'', [(dir_digest, [])])] =
     put_all (List.map_filter (recorded_as sample_lib sample_fs sample_rec_opts ''w'')
       (tree_entries (hashed_dir sample_rec_opts) [] (fs_tree sample_fs ''w''))) [] \<and>
   items_recorded sample_lib sample_linked_fs sample_rec_opts ''w''
     (tree_items (hashed_dir sample_rec_opts) [] (fs_tree sample_linked_fs ''w'')) ([], [])
     ([(''l/x'', [(plain_digest SHA256, HexEncode ''t/x'')])], [(''t'', ())])"
proof
  have "fs_links sample_fs = []" by (simp add: sample_fs_def)
  with RecordArtifacts_exact [OF sample_recorded]
  show "[(''d/b'', [(plain_digest SHA256, HexEncode ''w/d/b'')]), (''h/'', [(dir_digest, [])])] =
     put_all (List.map_filter (recorded_as sample_lib sample_fs sample_rec_opts ''w'')
       (tree_entries (hashed_dir sample_rec_opts) [] (fs_tree sample_fs ''w''))) []" by blast
  from RecordArtifacts_exact [OF sample_linked_recorded]
  show "items_recorded sample_lib sample_linked_fs sample_rec_opts ''w''
     (tree_items (hashed_dir sample_rec_opts) [] (fs_tree sample_linked_fs ''w'')) ([], [])
     ([(''l/x'', [(plain_digest SHA256, HexEncode ''t/x'')])], [(''t'', ())])" by blast
qed

text \<open>Whatever the links, what is recorded is new: a recorded name is that of a directory to hash, or
  its digests differ from those already known under this name, and under tracing the name was opened.\<close>

theorem recorded_artifacts_new:
  assumes "RecordArtifacts lib fs ro basePath visited = Some (Return (arts, visited', err))"
    and "(path, digests) \<in> set arts"
  shows "(\<exists>names. path = rel_path names @ ''/'' \<and> hashed_dir ro (rel_path names)) \<or>
    (rec_processWasTraced ro \<longrightarrow> path \<in> fst ` set (rec_openedFiles ro)) \<and>
    (\<forall>previous. map_of (rec_baseArtifacts ro) path = Some previous \<longrightarrow> \<not> DigestSet_Equal digests previous)"
  using recorded_new_loop [OF assms]
  by (auto simp: shouldRecord_def record_reason_def split: if_splits option.splits) (force dest: map_of_SomeD)+

definition sample_changed :: record_opts where
  "sample_changed = sample_rec_opts\<lparr>rec_baseArtifacts := [(''a'', [(plain_digest SHA256, ''x'')])], rec_dirHashGlob := []\<rparr>"

lemma sample_changed_recorded:
  "RecordArtifacts sample_lib sample_fs sample_changed ''w'' [] =
     Some (Return ([(''a'', [(plain_digest SHA256, HexEncode ''w/a'')]), (''d/b'', [(plain_digest SHA256, HexEncode ''w/d/b'')])], [], None))"
  by code_simp

theorem recorded_artifacts_new_witness:
  "\<not> DigestSet_Equal [(plain_digest SHA256, HexEncode ''w/a'')] [(plain_digest SHA256, ''x'')]"
  using recorded_artifacts_new [OF sample_changed_recorded, of "''a''" "[(plain_digest SHA256, HexEncode ''w/a'')]"]
  by (simp add: hashed_dir_def) (simp add: sample_changed_def)

text \<open>When the command was traced, a file reached through a symbolic link is never recorded: the recursive
  call looks its name up relative to the target, as a dot, among the opened files. If all links go to
  files, the result is that of the tree without them.\<close>

theorem traced_links_lost:
  assumes "RecordArtifacts lib fs ro basePath visited = Some (Return (arts, visited', None))"
    and "rec_processWasTraced ro" and "map_of (rec_openedFiles ro) ''.'' = None"
    and "\<forall>t \<in> link_targets fs. fs_tree fs t = FsFile"
  shows "arts = put_all (List.map_filter (recorded_as lib fs ro basePath)
    (tree_entries (hashed_dir ro) [] (fs_tree fs basePath))) []"
  using RecordArtifacts_entries [OF assms(1) traced_links_add_nothing [OF assms(2-4)]]
  unfolding entries_recorded_def .

definition sample_link_fs :: "filesystem" where
  "sample_link_fs = sample_fs
     \<lparr>fs_tree := (\<lambda>p. if p = ''t'' then FsFile else FsDir None [(''l'', FsLink)]), fs_links := [(''w/l'', Inr ''t'')]\<rparr>"

definition sample_traced :: record_opts where
  "sample_traced = sample_rec_opts\<lparr>rec_processWasTraced := True, rec_openedFiles := [(''l'', True), (''t'', True)]\<rparr>"

lemma sample_traced_recorded:
  "RecordArtifacts sample_lib sample_link_fs sample_traced ''w'' [] = Some (Return ([], [(''t'', ())], None))"
  by code_simp

theorem traced_links_lost_witness:
  "([] :: artifacts) = put_all (List.map_filter (recorded_as sample_lib sample_link_fs sample_traced ''w'')
     (tree_entries (hashed_dir sample_traced) [] (fs_tree sample_link_fs ''w''))) []"
  by (rule traced_links_lost [OF sample_traced_recorded])
    (simp_all add: sample_traced_def sample_link_fs_def link_targets_def sample_fs_def)

end
