(* ===== verification/Artifact_Attestors.thy ===== *)
theory Artifact_Attestors
  imports Command_Run File_Record
begin

text \<open>
  The attestors that record the files of the working directory before and after the command:
  \<open>attestation/material/material.go\<close> and \<open>attestation/product/product.go\<close>.

  The file system when an attestor runs, the glob library and the detection of content types are
  parameters; \<open>as_commandrun\<close> is the type assertion of an attestor to \<open>*commandrun.CommandRun\<close>.
\<close>

section \<open>Materials\<close>

definition material_Name :: string where "material_Name = ''material''"
definition material_Type :: string where "material_Type = ''https://witness.dev/attestations/material/v0.1''"

record material =
  mat_materials :: artifacts

definition material_Attest ::
  "crypto_lib \<Rightarrow> filesystem \<Rightarrow> 'd AttestationContext \<Rightarrow> material \<Rightarrow> (material \<times> gerr option) outcome option" where
  "material_Attest lib fs ctx a =
     bindB (RecordArtifacts lib fs
         \<lparr>rec_baseArtifacts = [], rec_hashes = ac_hashes ctx, rec_processWasTraced = False, rec_openedFiles = [],
          rec_dirHashGlob = ac_dirHashGlobCompiled ctx\<rparr> (ac_workingDir ctx) [])
       (\<lambda>(materials, _, err). Some (Return
          (case err of Some e \<Rightarrow> (a, Some e) | None \<Rightarrow> (a\<lparr>mat_materials := materials\<rparr>, None))))"

definition material_MarshalJSON :: "(artifacts \<Rightarrow> gerr + bytes) \<Rightarrow> material \<Rightarrow> gerr + bytes" where
  "material_MarshalJSON marshal a = marshal (mat_materials a)"

definition material_UnmarshalJSON :: "(bytes \<Rightarrow> gerr + artifacts) \<Rightarrow> bytes \<Rightarrow> material \<Rightarrow> material \<times> gerr option" where
  "material_UnmarshalJSON unmarshal data a =
     (case unmarshal data of Inl err \<Rightarrow> (a, Some err) | Inr mats \<Rightarrow> (a\<lparr>mat_materials := mats\<rparr>, None))"

section \<open>Content types\<close>

definition first500 :: "bytes \<Rightarrow> bytes" where
  "first500 buf = take (if length buf > 500 then 500 else length buf) buf"

definition quoted :: "string \<Rightarrow> string" where
  "quoted s = CHR 0x22 # s @ [CHR 0x22]"

definition IsSPDXJson :: "bytes \<Rightarrow> bool" where
  "IsSPDXJson buf =
     (contains (first500 buf) (quoted ''spdxVersion'' @ '':'' @ [CHR 0x22] @ ''SPDX-'') \<or>
      contains (first500 buf) (quoted ''spdxVersion'' @ '': '' @ [CHR 0x22] @ ''SPDX-''))"

definition IsCycloneDXJson :: "bytes \<Rightarrow> bool" where
  "IsCycloneDXJson buf =
     (contains (first500 buf) (quoted ''bomFormat'' @ '':'' @ quoted ''CycloneDX'') \<or>
      contains (first500 buf) (quoted ''bomFormat'' @ '': '' @ quoted ''CycloneDX''))"

text \<open>The detectors that \<open>getFileContentType\<close> adds, each below a known type, and \<open>mimetype.DetectFile\<close> with
  these detectors as the parameter.\<close>

type_synonym detector = "string \<times> (bytes \<Rightarrow> bool) \<times> string"

definition content_detectors :: "detector list" where
  "content_detectors =
     [(''application/json'', IsSPDXJson, ''application/spdx+json''),
      (''application/json'', IsCycloneDXJson, ''application/vnd.cyclonedx+json''),
      (''text/xml'', (\<lambda>buf. has_prefix buf (''<?xml version='' @ quoted ''1.0'' @ '' encoding='' @ quoted ''UTF-8'' @
         ''?><bom xmlns='' @ [CHR 0x22] @ ''http://cyclonedx.org/schema/bom/'')), ''application/vnd.cyclonedx+xml''),
      (''application/json'', (\<lambda>buf. has_prefix buf (''{'' @ quoted ''@context'' @ '':'' @ [CHR 0x22] @ ''https://openvex.dev/ns'')),
       ''application/vex+json''),
      (''text/plain'', (\<lambda>buf. has_prefix buf ''sha256:''), ''text/sha256+text'')]"

type_synonym mime_lib = "detector list \<Rightarrow> string \<Rightarrow> gerr + string"

definition getFileContentType :: "mime_lib \<Rightarrow> string \<Rightarrow> gerr + string" where
  "getFileContentType detectFile fileName = detectFile content_detectors fileName"

section \<open>Products\<close>

definition ProductName :: string where "ProductName = ''product''"
definition ProductType :: string where "ProductType = ''https://witness.dev/attestations/product/v0.1''"
definition defaultIncludeGlob :: string where "defaultIncludeGlob = ''*''"
definition defaultExcludeGlob :: string where "defaultExcludeGlob = ''''"

record product =
  prod_products :: "(string, Product) gomap"
  prod_baseArtifacts :: artifacts
  prod_includeGlob :: string
  prod_compiledIncludeGlob :: "(string \<Rightarrow> bool) option"
  prod_excludeGlob :: string
  prod_compiledExcludeGlob :: "(string \<Rightarrow> bool) option"

definition WithIncludeGlob :: "string \<Rightarrow> product \<Rightarrow> product" where
  "WithIncludeGlob glob a = a\<lparr>prod_includeGlob := glob\<rparr>"

definition WithExcludeGlob :: "string \<Rightarrow> product \<Rightarrow> product" where
  "WithExcludeGlob glob a = a\<lparr>prod_excludeGlob := glob\<rparr>"

definition product_New :: "(product \<Rightarrow> product) list \<Rightarrow> product" where
  "product_New opts =
     fold (\<lambda>opt a. opt a) opts
       \<lparr>prod_products = [], prod_baseArtifacts = [], prod_includeGlob = defaultIncludeGlob, prod_compiledIncludeGlob = None,
        prod_excludeGlob = defaultExcludeGlob, prod_compiledExcludeGlob = None\<rparr>"

text \<open>\<open>os_Stat\<close> says whether the path is a directory.\<close>

definition product_of :: "mime_lib \<Rightarrow> (string \<Rightarrow> gerr + bool) \<Rightarrow> string \<Rightarrow> string \<Rightarrow> digest_set \<Rightarrow> Product" where
  "product_of detectFile os_Stat workingDir fileName digestSet =
     (let filePath = filepath_Join workingDir fileName;
          mimeType = (case getFileContentType detectFile filePath of Inl err \<Rightarrow> ''unknown'' | Inr t \<Rightarrow> t);
          mimeType = (if mimeType = ''application/octet-stream''
                      then (case os_Stat filePath of Inr True \<Rightarrow> ''text/directory'' | _ \<Rightarrow> mimeType) else mimeType)
      in \<lparr>pr_MimeType = mimeType, pr_Digest = digestSet\<rparr>)"

definition fromDigestMap ::
  "mime_lib \<Rightarrow> (string \<Rightarrow> gerr + bool) \<Rightarrow> string \<Rightarrow> artifacts \<Rightarrow> (string, Product) gomap" where
  "fromDigestMap detectFile os_Stat workingDir digestMap =
     fold (\<lambda>(fileName, digestSet) products.
         AList.update fileName (product_of detectFile os_Stat workingDir fileName digestSet) products) digestMap []"

text \<open>The files that traced commands opened.\<close>

definition opened_files :: "('d \<Rightarrow> CommandRun option) \<Rightarrow> 'd CompletedAttestor list \<Rightarrow> bool \<times> (string, bool) gomap" where
  "opened_files as_commandrun completed =
     fold (\<lambda>c (traced, opened).
         case as_commandrun (att_state (cpl_Attestor c)) of
           None \<Rightarrow> (traced, opened)
         | Some rc \<Rightarrow>
             if cr_enableTracing rc
             then (True, fold (\<lambda>process opened. fold (\<lambda>(fname, _) opened. AList.update fname True opened)
                     (pi_OpenedFiles process) opened) (cr_Processes rc) opened)
             else (traced, opened)) completed (False, [])"

definition product_Attest ::
  "crypto_lib \<Rightarrow> glob_lib \<Rightarrow> mime_lib \<Rightarrow> (string \<Rightarrow> gerr + bool) \<Rightarrow> ('d \<Rightarrow> CommandRun option) \<Rightarrow> filesystem \<Rightarrow>
     'd AttestationContext \<Rightarrow> product \<Rightarrow> (product \<times> gerr option) outcome option" where
  "product_Attest lib glob_Compile detectFile os_Stat as_commandrun fs ctx a =
     (case glob_Compile (prod_includeGlob a) of
        Inl err \<Rightarrow> Some (Return (a, Some err))
      | Inr compiledIncludeGlob \<Rightarrow>
          (let a = a\<lparr>prod_compiledIncludeGlob := Some compiledIncludeGlob\<rparr>
           in case glob_Compile (prod_excludeGlob a) of
                Inl err \<Rightarrow> Some (Return (a, Some err))
              | Inr compiledExcludeGlob \<Rightarrow>
                  (let a = a\<lparr>prod_compiledExcludeGlob := Some compiledExcludeGlob, prod_baseArtifacts := ctx_Materials ctx\<rparr>;
                       (processWasTraced, openedFileSet) = opened_files as_commandrun (ac_completedAttestors ctx)
                   in bindB (RecordArtifacts lib fs
                          \<lparr>rec_baseArtifacts = prod_baseArtifacts a, rec_hashes = ac_hashes ctx,
                           rec_processWasTraced = processWasTraced, rec_openedFiles = openedFileSet,
                           rec_dirHashGlob = ac_dirHashGlobCompiled ctx\<rparr> (ac_workingDir ctx) [])
                        (\<lambda>(products, _, err). Some (Return
                           (case err of
                              Some e \<Rightarrow> (a, Some e)
                            | None \<Rightarrow>
                                (a\<lparr>prod_products := fromDigestMap detectFile os_Stat (ac_workingDir ctx) products\<rparr>, None)))))))"

definition subject_key :: "string \<Rightarrow> Product \<Rightarrow> string" where
  "subject_key productName p =
     (if pr_MimeType p = ''text/directory'' then ''dir'' else ''file'') @ '':'' @ productName"

text \<open>\<open>filepath.ToSlash\<close> changes nothing on the systems modelled here.\<close>

definition product_Subjects :: "product \<Rightarrow> (string, digest_set) gomap" where
  "product_Subjects a =
     fold (\<lambda>(productName, p) subjects.
         if (case prod_compiledExcludeGlob a of None \<Rightarrow> False | Some g \<Rightarrow> g productName) then subjects
         else if (case prod_compiledIncludeGlob a of None \<Rightarrow> False | Some g \<Rightarrow> \<not> g productName) then subjects
         else AList.update (subject_key productName p) (pr_Digest p) subjects) (prod_products a) []"

definition product_MarshalJSON :: "((string, Product) gomap \<Rightarrow> gerr + bytes) \<Rightarrow> product \<Rightarrow> gerr + bytes" where
  "product_MarshalJSON marshal a = marshal (prod_products a)"

definition product_UnmarshalJSON ::
  "(bytes \<Rightarrow> gerr + (string, Product) gomap) \<Rightarrow> bytes \<Rightarrow> product \<Rightarrow> product \<times> gerr option" where
  "product_UnmarshalJSON unmarshal data a =
     (case unmarshal data of Inl err \<Rightarrow> (a, Some err) | Inr prods \<Rightarrow> (a\<lparr>prod_products := prods\<rparr>, None))"

section \<open>Lemmas\<close>

lemma fromDigestMap_put_all:
  "fromDigestMap detectFile os_Stat wd m = put_all (map (\<lambda>(k, d). (k, product_of detectFile os_Stat wd k d)) m) []"
  unfolding fromDigestMap_def put_all_def
  by (simp add: fold_map comp_def) (rule fold_cong; auto)

lemma map_of_fromDigestMap:
  assumes "gomap_ok m"
  shows "map_of (fromDigestMap detectFile os_Stat wd m) k = map_option (product_of detectFile os_Stat wd k) (map_of m k)"
proof -
  let ?m = "map (\<lambda>(k, d). (k, product_of detectFile os_Stat wd k d)) m"
  have "gomap_ok ?m" using assms by (simp add: gomap_ok_def comp_def case_prod_beta)
  moreover have "map_of ?m k = map_option (product_of detectFile os_Stat wd k) (map_of m k)"
    by (induction m) auto
  ultimately show ?thesis by (simp add: fromDigestMap_put_all map_of_put_all_ok)
qed

text \<open>The entries of a tree, files and directories to hash, by the name they are recorded under, with their digests.\<close>

definition entries_of :: "filesystem \<Rightarrow> (string \<Rightarrow> bool) option list \<Rightarrow> string \<Rightarrow> (string list \<times> bool) list" where
  "entries_of fs globs wd = tree_entries (\<lambda>relPath. dirHashMatch globs relPath = Return True) [] (fs_tree fs wd)"

definition entry_name :: "string list \<times> bool \<Rightarrow> string" where
  "entry_name e = rel_path (fst e) @ (if snd e then ''/'' else [])"

definition entry_digest :: "crypto_lib \<Rightarrow> filesystem \<Rightarrow> string \<Rightarrow> digest_value list \<Rightarrow> string list \<times> bool \<Rightarrow> digest_set" where
  "entry_digest lib fs wd hashes e =
     (if snd e then fst (CalculateDigestSetFromDir lib (fs_dirOpener fs (walk_path wd (fst e))) (walk_path wd (fst e)) hashes)
      else fst (CalculateDigestSetFromFile lib (fs_Open fs) (walk_path wd (fst e)) hashes))"

lemma map_of_map_filter:
  assumes "distinct (map key xs)" and "\<And>x k v. f x = Some (k, v) \<Longrightarrow> k = key x"
  shows "map_of (List.map_filter f xs) k = Some v \<longleftrightarrow> (\<exists>x \<in> set xs. f x = Some (k, v))"
    and "gomap_ok (List.map_filter f xs)"
proof -
  have keys: "fst ` set (List.map_filter f xs) \<subseteq> key ` set xs" for xs
    using assms(2) by (force simp: List.map_filter_def)
  show ok: "gomap_ok (List.map_filter f xs)" using assms(1)
  proof (induction xs)
    case (Cons x xs)
    then show ?case using keys [of xs] assms(2)
      by (auto simp: List.map_filter_simps gomap_ok_def split: option.splits)
  qed (simp add: List.map_filter_simps)
  have "(k, v) \<in> set (List.map_filter f xs) \<longleftrightarrow> (\<exists>x \<in> set xs. f x = Some (k, v))"
    by (force simp: List.map_filter_def)
  with ok show "map_of (List.map_filter f xs) k = Some v \<longleftrightarrow> (\<exists>x \<in> set xs. f x = Some (k, v))"
    by (simp add: gomap_mem_iff [symmetric])
qed

lemma recorded_as_entry:
  "recorded_as lib fs ro wd e = Some (path, d) \<longleftrightarrow>
     path = entry_name e \<and> d = entry_digest lib fs wd (rec_hashes ro) e \<and> (snd e \<or> shouldRecord ro path d)"
  by (auto simp: recorded_as_def entry_name_def entry_digest_def Let_def split: prod.splits)

text \<open>Without links, the recorded artifacts are the directories to hash and the files that should be.\<close>

lemma recorded_entries:
  assumes "RecordArtifacts lib fs ro wd [] = Some (Return (arts, visited, None))" and "fs_links fs = []"
    and "rec_dirHashGlob ro = globs" and "distinct (map entry_name (entries_of fs globs wd))"
  shows "gomap_ok arts" and "map_of arts path = Some d \<longleftrightarrow>
    (\<exists>e \<in> set (entries_of fs globs wd). path = entry_name e \<and> d = entry_digest lib fs wd (rec_hashes ro) e \<and>
       (snd e \<or> shouldRecord ro path d))"
proof -
  let ?es = "entries_of fs globs wd" and ?f = "recorded_as lib fs ro wd"
  have "tree_entries (hashed_dir ro) [] (fs_tree fs wd) = ?es"
    using assms(3) by (simp add: entries_of_def hashed_dir_def [abs_def])
  with RecordArtifacts_entries [OF assms(1) no_links_add_nothing [OF assms(2)]]
  have arts: "arts = put_all (List.map_filter ?f ?es) []" by (simp add: entries_recorded_def)
  have key: "k = entry_name e" if "?f e = Some (k, v)" for e k v using that by (simp add: recorded_as_entry)
  have lookup: "map_of (List.map_filter ?f ?es) path = Some d \<longleftrightarrow> (\<exists>e \<in> set ?es. ?f e = Some (path, d))"
    by (rule map_of_map_filter(1) [where key = entry_name, OF assms(4)]) (rule key)
  have ok: "gomap_ok (List.map_filter ?f ?es)"
    by (rule map_of_map_filter(2) [where key = entry_name, OF assms(4)]) (rule key)
  show "gomap_ok arts" by (simp add: arts)
  show "map_of arts path = Some d \<longleftrightarrow> (\<exists>e \<in> set ?es. path = entry_name e \<and> d = entry_digest lib fs wd (rec_hashes ro) e \<and>
       (snd e \<or> shouldRecord ro path d))"
    unfolding arts recorded_as_entry [symmetric] lookup [symmetric] by (simp add: map_of_put_all_ok [OF ok])
qed

lemma material_Attest_ok:
  assumes "material_Attest lib fs ctx a = Some (Return (m, None))"
  obtains visited where "RecordArtifacts lib fs
      \<lparr>rec_baseArtifacts = [], rec_hashes = ac_hashes ctx, rec_processWasTraced = False, rec_openedFiles = [],
       rec_dirHashGlob = ac_dirHashGlobCompiled ctx\<rparr> (ac_workingDir ctx) [] = Some (Return (mat_materials m, visited, None))"
  using assms by (auto simp: material_Attest_def bindB_Some_iff split: option.splits)

lemma product_Attest_ok:
  assumes "product_Attest lib glob_Compile detectFile os_Stat as_commandrun fs ctx a = Some (Return (p, None))"
    and "opened_files as_commandrun (ac_completedAttestors ctx) = (traced, opened)"
  obtains arts visited where "RecordArtifacts lib fs
      \<lparr>rec_baseArtifacts = ctx_Materials ctx, rec_hashes = ac_hashes ctx, rec_processWasTraced = traced,
       rec_openedFiles = opened, rec_dirHashGlob = ac_dirHashGlobCompiled ctx\<rparr> (ac_workingDir ctx) [] =
     Some (Return (arts, visited, None))"
    and "prod_products p = fromDigestMap detectFile os_Stat (ac_workingDir ctx) arts"
  using assms by (auto simp: product_Attest_def bindB_Some_iff Let_def split: option.splits sum.splits)

section \<open>Properties\<close>

text \<open>C18. The products of a step are its new and changed files: when the materials recorded before are those of the
  context, in a working directory without symbolic links that resolve and with names that do not repeat, a path is a
  product exactly when it is a file afterwards, no material of that path with equal digests was recorded before, and, if
  a command was traced, a traced process opened it; or when it is a directory to hash afterwards, and then also when it
  did not change. Its digest is that of the file or directory. The materials are the files and the directories to
  hash that were there before. (What links add is in \<open>RecordArtifacts_exact\<close>.)\<close>

theorem products_are_changes:
  assumes "material_Attest lib before ctx0 m0 = Some (Return (m, None))"
    and "product_Attest lib glob_Compile detectFile os_Stat as_commandrun after ctx a = Some (Return (p, None))"
    and "ctx_Materials ctx = mat_materials m" and "ac_hashes ctx = ac_hashes ctx0"
    and "ac_workingDir ctx = wd" and "ac_workingDir ctx0 = wd"
    and "ac_dirHashGlobCompiled ctx = globs" and "ac_dirHashGlobCompiled ctx0 = globs0"
    and "opened_files as_commandrun (ac_completedAttestors ctx) = (traced, opened)"
    and "fs_links before = []" and "fs_links after = []"
    and "distinct (map entry_name (entries_of before globs0 wd))" and "distinct (map entry_name (entries_of after globs wd))"
  shows "map_option pr_Digest (map_of (prod_products p) path) = Some d \<longleftrightarrow>
    (\<exists>e \<in> set (entries_of after globs wd). entry_name e = path \<and> d = entry_digest lib after wd (ac_hashes ctx) e \<and>
       (snd e \<or>
        (traced \<longrightarrow> map_of opened path \<noteq> None) \<and>
        \<not> (\<exists>e0 \<in> set (entries_of before globs0 wd). entry_name e0 = path \<and>
             DigestSet_Equal d (entry_digest lib before wd (ac_hashes ctx) e0))))"
proof -
  obtain v0 where mats: "RecordArtifacts lib before
      \<lparr>rec_baseArtifacts = [], rec_hashes = ac_hashes ctx, rec_processWasTraced = False, rec_openedFiles = [],
       rec_dirHashGlob = globs0\<rparr> wd [] = Some (Return (mat_materials m, v0, None))"
    using material_Attest_ok [OF assms(1)] assms(4,6,8) by metis
  obtain arts v where recorded: "RecordArtifacts lib after
      \<lparr>rec_baseArtifacts = mat_materials m, rec_hashes = ac_hashes ctx, rec_processWasTraced = traced,
       rec_openedFiles = opened, rec_dirHashGlob = globs\<rparr> wd [] = Some (Return (arts, v, None))"
    and products: "prod_products p = fromDigestMap detectFile os_Stat wd arts"
    using product_Attest_ok [OF assms(2,9)] assms(3,5,7) by metis
  from recorded_entries [OF mats assms(10) _ assms(12)] have m: "map_of (mat_materials m) path = Some d0 \<longleftrightarrow>
      (\<exists>e0 \<in> set (entries_of before globs0 wd). path = entry_name e0 \<and> d0 = entry_digest lib before wd (ac_hashes ctx) e0)" for d0
    by (simp add: shouldRecord_def)
  from recorded_entries [OF recorded assms(11) _ assms(13)] have ok: "gomap_ok arts"
    and arts: "map_of arts path = Some d \<longleftrightarrow> (\<exists>e \<in> set (entries_of after globs wd). path = entry_name e \<and>
      d = entry_digest lib after wd (ac_hashes ctx) e \<and> (snd e \<or> (traced \<longrightarrow> map_of opened path \<noteq> None) \<and>
      (\<forall>d0. map_of (mat_materials m) path = Some d0 \<longrightarrow> \<not> DigestSet_Equal d d0)))"
    by (auto simp: shouldRecord_def split: option.splits)
  have unchanged: "(\<forall>d0. map_of (mat_materials m) path = Some d0 \<longrightarrow> \<not> DigestSet_Equal d d0) \<longleftrightarrow>
      \<not> (\<exists>e0 \<in> set (entries_of before globs0 wd). entry_name e0 = path \<and>
         DigestSet_Equal d (entry_digest lib before wd (ac_hashes ctx) e0))"
    unfolding m by blast
  have lookup: "map_option pr_Digest (map_of (prod_products p) path) = map_of arts path"
    by (simp add: products map_of_fromDigestMap [OF ok] option.map_comp comp_def product_of_def Let_def option.map_ident)
  show ?thesis unfolding lookup arts unchanged by blast
qed

definition sample_dir :: "(string \<times> string) list \<Rightarrow> filesystem" where
  "sample_dir files =
     \<lparr>fs_tree = (\<lambda>_. FsDir None (map (\<lambda>(n, _). (n, FsFile)) files)), fs_links = [], fs_IsNotExist = (\<lambda>_. False),
      fs_Open = (\<lambda>p. case map_of (map (\<lambda>(n, c). (''wd/'' @ n, c)) files) p of
         None \<Rightarrow> Inl (LibError ''open'') | Some c \<Rightarrow> Inr \<lparr>file_stat = Inr 0, file_data = Inr c\<rparr>),
      fs_dirOpener = (\<lambda>_ _. Inr None)\<rparr>"

definition sample_before :: filesystem where "sample_before = sample_dir [(''a'', ''1''), (''b'', ''2'')]"
definition sample_after :: filesystem where "sample_after = sample_dir [(''a'', ''1''), (''b'', ''3''), (''c'', ''4'')]"

definition sample_materials :: artifacts where
  "sample_materials =
     map (\<lambda>(n, c). (n, fst (CalculateDigestSetFromBytes sample_lib c (ac_hashes (sample_context []))))) [(''a'', ''1''), (''b'', ''2'')]"

lemma sample_material_attested:
  "material_Attest sample_lib sample_before (sample_context []) \<lparr>mat_materials = []\<rparr> =
     Some (Return (\<lparr>mat_materials = sample_materials\<rparr>, None))"
  by code_simp

definition sample_product_attest :: "(product \<times> gerr option) outcome option" where
  "sample_product_attest =
     product_Attest sample_lib (\<lambda>g. Inr (\<lambda>s. g = ''*'')) (\<lambda>ds f. Inr ''text/plain'') (\<lambda>_. Inr False) (\<lambda>_. None)
       sample_after ((sample_context [])\<lparr>ac_materials := sample_materials\<rparr>) (product_New [])"

lemma sample_product_attested:
  "case sample_product_attest of Some (Return (p, err)) \<Rightarrow> err = None \<and> map fst (prod_products p) = [''b'', ''c''] | _ \<Rightarrow> False"
  by code_simp

theorem products_are_changes_witness:
  "\<exists>p. sample_product_attest = Some (Return (p, None)) \<and>
     \<not> (\<exists>d. map_option pr_Digest (map_of (prod_products p) ''a'') = Some d)"
proof -
  let ?ctx = "(sample_context [])\<lparr>ac_materials := sample_materials\<rparr>"
  from sample_product_attested obtain p where p: "sample_product_attest = Some (Return (p, None))"
    by (auto split: option.splits outcome.splits)
  have ctx: "ac_workingDir ?ctx = ''wd''" "ac_workingDir (sample_context []) = ''wd''" "ac_hashes ?ctx = ac_hashes (sample_context [])"
    "ac_dirHashGlobCompiled ?ctx = []" "ac_dirHashGlobCompiled (sample_context []) = []"
    "opened_files (\<lambda>_. None) (ac_completedAttestors ?ctx) = (False, [])"
    by (simp_all add: sample_context_def NewContext_def opened_files_def)
  have mats: "ctx_Materials ?ctx = mat_materials \<lparr>mat_materials = sample_materials\<rparr>" by code_simp
  have links: "fs_links sample_before = []" "fs_links sample_after = []"
    by (simp_all add: sample_before_def sample_after_def sample_dir_def)
  have names: "distinct (map entry_name (entries_of sample_before [] ''wd''))" "distinct (map entry_name (entries_of sample_after [] ''wd''))"
    by code_simp+
  note changes = products_are_changes [OF sample_material_attested p [unfolded sample_product_attest_def] mats ctx(3,1,2,4-6) links names]
  have "\<not> (\<exists>e \<in> set (entries_of sample_after [] ''wd''). entry_name e = ''a'' \<and>
      (snd e \<or> \<not> (\<exists>e0 \<in> set (entries_of sample_before [] ''wd''). entry_name e0 = ''a'' \<and> DigestSet_Equal
        (entry_digest sample_lib sample_after ''wd'' (ac_hashes ?ctx) e)
        (entry_digest sample_lib sample_before ''wd'' (ac_hashes ?ctx) e0))))"
    by code_simp
  with changes [of "''a''"] p show ?thesis by blast
qed

text \<open>The subject keys tell the products apart.\<close>

lemma subject_key_inj: "subject_key n p = subject_key n' p' \<Longrightarrow> n = n'"
  by (auto simp: subject_key_def split: if_splits)

definition is_subject :: "product \<Rightarrow> string \<Rightarrow> bool" where
  "is_subject a name \<longleftrightarrow>
     \<not> (case prod_compiledExcludeGlob a of None \<Rightarrow> False | Some g \<Rightarrow> g name) \<and>
     (case prod_compiledIncludeGlob a of None \<Rightarrow> True | Some g \<Rightarrow> g name)"

lemma product_Subjects_put_all:
  "product_Subjects a = put_all (List.map_filter (\<lambda>(n, p). if is_subject a n then Some (subject_key n p, pr_Digest p) else None)
     (prod_products a)) []"
proof -
  have "fold (\<lambda>(n, p) subjects.
         if (case prod_compiledExcludeGlob a of None \<Rightarrow> False | Some g \<Rightarrow> g n) then subjects
         else if (case prod_compiledIncludeGlob a of None \<Rightarrow> False | Some g \<Rightarrow> \<not> g n) then subjects
         else AList.update (subject_key n p) (pr_Digest p) subjects) ps m =
      put_all (List.map_filter (\<lambda>(n, p). if is_subject a n then Some (subject_key n p, pr_Digest p) else None) ps) m" for ps m
    by (induction ps arbitrary: m)
      (auto simp: List.map_filter_simps is_subject_def split: option.splits)
  then show ?thesis by (simp add: product_Subjects_def)
qed

text \<open>The subjects of the product attestor are exactly the products that its include pattern matches and
  its exclude pattern does not, each under its own key with its digests.\<close>

theorem product_Subjects_exact:
  assumes "gomap_ok (prod_products a)"
  shows "map_of (product_Subjects a) key = Some d \<longleftrightarrow>
    (\<exists>name p. map_of (prod_products a) name = Some p \<and> key = subject_key name p \<and> d = pr_Digest p \<and>
       \<not> (case prod_compiledExcludeGlob a of None \<Rightarrow> False | Some g \<Rightarrow> g name) \<and>
       (case prod_compiledIncludeGlob a of None \<Rightarrow> True | Some g \<Rightarrow> g name))"
proof -
  let ?f = "\<lambda>(n, p). if is_subject a n then Some (subject_key n p, pr_Digest p) else None"
  let ?key = "\<lambda>(n, p). subject_key n p"
  have "inj_on ?key (set (prod_products a))"
    using assms subject_key_inj by (fastforce simp: inj_on_def gomap_mem_iff)
  moreover have "distinct (prod_products a)" using assms by (auto simp: gomap_ok_def distinct_map)
  ultimately have dist: "distinct (map ?key (prod_products a))" by (simp add: distinct_map)
  have key: "k = ?key x" if "?f x = Some (k, v)" for x k v using that by (auto split: prod.splits if_splits)
  have lookup: "map_of (List.map_filter ?f (prod_products a)) key = Some d \<longleftrightarrow> (\<exists>x \<in> set (prod_products a). ?f x = Some (key, d))"
    by (rule map_of_map_filter(1) [where key = ?key, OF dist]) (rule key)
  have ok: "gomap_ok (List.map_filter ?f (prod_products a))"
    by (rule map_of_map_filter(2) [where key = ?key, OF dist]) (rule key)
  have "map_of (product_Subjects a) key = Some d \<longleftrightarrow> (\<exists>x \<in> set (prod_products a). ?f x = Some (key, d))"
    unfolding product_Subjects_put_all lookup [symmetric] by (simp add: map_of_put_all_ok [OF ok])
  also have "\<dots> \<longleftrightarrow> (\<exists>name p. (name, p) \<in> set (prod_products a) \<and> key = subject_key name p \<and> d = pr_Digest p \<and> is_subject a name)"
    by (rule iffI; clarsimp split: if_splits) (blast, force)
  finally show ?thesis unfolding gomap_mem_iff [OF assms] is_subject_def .
qed

definition sample_products :: product where
  "sample_products = (product_New [])
     \<lparr>prod_products := [(''a'', \<lparr>pr_MimeType = ''text/plain'', pr_Digest = []\<rparr>), (''d'', \<lparr>pr_MimeType = ''text/directory'', pr_Digest = []\<rparr>)],
      prod_compiledExcludeGlob := Some (\<lambda>n. n = ''a'')\<rparr>"

theorem product_Subjects_exact_witness:
  "map_of (product_Subjects sample_products) ''dir:d'' = Some []"
proof -
  have "gomap_ok (prod_products sample_products)" by (simp add: sample_products_def gomap_ok_def)
  from product_Subjects_exact [OF this, of "''dir:d''" "[]"] show ?thesis
    by (auto simp: sample_products_def subject_key_def product_New_def
        intro: exI [of _ "''d''"] split: if_splits)
qed

end
