(* ===== verification/Secret_Scan.thy ===== *)
theory Secret_Scan
  imports Secret_Encoding Artifact_Attestors
begin

text \<open>
  The attestor that scans for secrets: \<open>attestation/secretscan/\<close> (\<open>types.go\<close>, \<open>config.go\<close>, \<open>detector.go\<close>,
  \<open>allowlist.go\<close>, \<open>digest.go\<close>, \<open>findings.go\<close>, \<open>envscan.go\<close>, \<open>scanner.go\<close>).

  Content is scanned with the Gitleaks detector and for the values of sensitive environment variables, then
  every string in it that looks encoded is decoded and scanned in turn, up to a depth of three. Gitleaks,
  regular expressions given as patterns, globs, JSON, the process's environment and the file system are
  parameters, in \<open>scan_env\<close>. Scanning changes the attestor (its findings, its subjects and, through
  \<open>Capture\<close>, the capturer of its context) and the set of findings already reported for a source.
\<close>

section \<open>Types\<close>

text \<open>The entropy is a 32-bit float that is only copied.\<close>

record Finding =
  fi_RuleID :: string
  fi_Description :: string
  fi_Location :: string
  fi_Line :: int
  fi_Secret :: digest_set
  fi_Match :: string
  fi_Entropy :: "32 word"
  fi_EncodingPath :: "string list"
  fi_LocationApproximate :: bool

record AllowList =
  al_Description :: string
  al_Paths :: "string list"
  al_Regexes :: "string list"
  al_StopWords :: "string list"

record matchInfo =
  mi_lineNumber :: int
  mi_matchContext :: string

record 'd scanner =
  sa_failOnDetection :: bool
  sa_maxFileSizeMB :: int
  sa_filePerm :: file_mode
  sa_allowList :: "AllowList option"
  sa_configPath :: string
  sa_maxDecodeLayers :: int
  sa_Findings :: "Finding list"
  sa_subjects :: "(string, digest_set) gomap"
  sa_ctx :: "'d AttestationContext option"

text \<open>A finding of Gitleaks, and its detector: the limit and the descriptions of its allowlists that this
  package sets, and what \<open>DetectBytes\<close> returns with them.\<close>

record gl_finding =
  gf_RuleID :: string
  gf_Description :: string
  gf_StartLine :: int
  gf_Match :: string
  gf_Secret :: string
  gf_Entropy :: "32 word"

record detector_settings =
  dt_MaxTargetMegaBytes :: int
  dt_Allowlists :: "string list"

record detector =
  dt_settings :: detector_settings
  dt_DetectBytes :: "detector_settings \<Rightarrow> bytes \<Rightarrow> gl_finding list"

definition DetectBytes :: "detector \<Rightarrow> bytes \<Rightarrow> gl_finding list" where
  "DetectBytes d content = dt_DetectBytes d (dt_settings d) content"

text \<open>A compiled regular expression.\<close>

record regex =
  rx_MatchString :: "string \<Rightarrow> bool"
  rx_FindAllStringIndex :: "string \<Rightarrow> (nat \<times> nat) list"

record 'd scan_env =
  sv_lib :: crypto_lib
  sv_glob :: glob_lib
  sv_regex :: "string \<Rightarrow> gerr + regex"
  sv_QuoteMeta :: "string \<Rightarrow> string"
  sv_environ :: "string list"
  sv_sprint :: "digest_set \<Rightarrow> string"
  sv_Stat :: "string \<Rightarrow> gerr + int"
  sv_Open :: "string \<Rightarrow> gerr + reader"
  sv_MkdirTemp :: "gerr option"
  sv_defaultDetector :: "gerr + detector"
  sv_ReadInConfig :: "string \<Rightarrow> gerr option"
  sv_IsNotExist :: "gerr \<Rightarrow> bool"
  sv_Unmarshal :: "string \<Rightarrow> gerr option"
  sv_Translate :: "string \<Rightarrow> gerr + detector"
  sv_marshal :: "'d attestor \<Rightarrow> gerr + bytes"
  sv_marshalCommand :: "CommandRun \<Rightarrow> gerr + bytes"
  sv_as_commandrun :: "'d \<Rightarrow> CommandRun option"

section \<open>Configuration\<close>

definition secretscan_Name :: string where "secretscan_Name = ''secretscan''"
definition secretscan_Type :: string where "secretscan_Type = ''https://witness.dev/attestations/secretscan/v0.1''"

type_synonym 'd scan_option = "'d scanner \<Rightarrow> 'd scanner"

definition WithFailOnDetection :: "bool \<Rightarrow> 'd scan_option" where
  "WithFailOnDetection failOnDetection a = a\<lparr>sa_failOnDetection := failOnDetection\<rparr>"

definition WithMaxFileSize :: "int \<Rightarrow> 'd scan_option" where
  "WithMaxFileSize maxFileSizeMB a = (if maxFileSizeMB > 0 then a\<lparr>sa_maxFileSizeMB := maxFileSizeMB\<rparr> else a)"

definition WithFilePermissions :: "file_mode \<Rightarrow> 'd scan_option" where
  "WithFilePermissions perm a = a\<lparr>sa_filePerm := perm\<rparr>"

definition WithAllowList :: "AllowList option \<Rightarrow> 'd scan_option" where
  "WithAllowList allowList a = a\<lparr>sa_allowList := allowList\<rparr>"

definition WithConfigPath :: "string \<Rightarrow> 'd scan_option" where
  "WithConfigPath configPath a = a\<lparr>sa_configPath := configPath\<rparr>"

definition WithMaxDecodeLayers :: "int \<Rightarrow> 'd scan_option" where
  "WithMaxDecodeLayers maxDecodeLayers a =
     (if maxDecodeLayers \<ge> 0 then a\<lparr>sa_maxDecodeLayers := maxDecodeLayers\<rparr> else a)"

definition secretscan_New :: "'d scan_option list \<Rightarrow> 'd scanner" where
  "secretscan_New opts =
     fold (\<lambda>opt a. opt a) opts
       \<lparr>sa_failOnDetection = False, sa_maxFileSizeMB = 10, sa_filePerm = 384, sa_allowList = None, sa_configPath = [],
        sa_maxDecodeLayers = 3, sa_Findings = [], sa_subjects = [], sa_ctx = None\<rparr>"

definition witness_allowlist :: AllowList where
  "witness_allowlist =
     \<lparr>al_Description = ''Witness secretscan allowlist'', al_Paths = [], al_Regexes = [], al_StopWords = []\<rparr>"

text \<open>The setters of the options \<open>allowlist-regex\<close> and \<open>allowlist-stopword\<close>.\<close>

definition set_allowlist_regex :: "string \<Rightarrow> 'd scan_option" where
  "set_allowlist_regex regexPattern a =
     (if regexPattern = [] then a
      else (let al = (case sa_allowList a of None \<Rightarrow> witness_allowlist | Some al \<Rightarrow> al)
            in a\<lparr>sa_allowList := Some (al\<lparr>al_Regexes := al_Regexes al @ [regexPattern]\<rparr>)\<rparr>))"

definition set_allowlist_stopword :: "string \<Rightarrow> 'd scan_option" where
  "set_allowlist_stopword stopWord a =
     (if stopWord = [] then a
      else (let al = (case sa_allowList a of None \<Rightarrow> witness_allowlist | Some al \<Rightarrow> al)
            in a\<lparr>sa_allowList := Some (al\<lparr>al_StopWords := al_StopWords al @ [stopWord]\<rparr>)\<rparr>))"

section \<open>The detector\<close>

definition compileRegexes :: "'d scan_env \<Rightarrow> string list \<Rightarrow> gerr + (string, regex) gomap" where
  "compileRegexes env patterns =
     foldE (\<lambda>pattern result.
         case sv_regex env pattern of
           Inl err \<Rightarrow> Inl (Errorf ''invalid regex pattern %q: %w'' [FStr pattern, FErr err])
         | Inr re \<Rightarrow> Inr (AList.update pattern re result)) patterns []"

definition newline :: char where "newline = CHR 0x0A"

text \<open>\<open>mergeAllowlistIntoGitleaksConfig\<close>: the patterns go into the description of an allowlist; the loop over
  the validated patterns ranges over a map of compiled expressions, whose text is the pattern.\<close>

definition mergeAllowlist :: "'d scan_env \<Rightarrow> AllowList \<Rightarrow> detector \<Rightarrow> detector \<times> gerr option" where
  "mergeAllowlist env al d =
     (case compileRegexes env (al_Regexes al) of
        Inl err \<Rightarrow> (d, Some (Errorf ''error validating allowlist regexes: %w'' [FErr err]))
      | Inr validatedPatterns \<Rightarrow>
          (let description =
                 concat (map (\<lambda>(pattern, _). newline # ''Regex: '' @ pattern) validatedPatterns) @
                 concat (map (\<lambda>stopWord. newline # ''Stop word: '' @ stopWord) (al_StopWords al)) @
                 concat (map (\<lambda>path. newline # ''Path: '' @ path) (al_Paths al))
           in (d\<lparr>dt_settings := (dt_settings d)\<lparr>dt_Allowlists := dt_Allowlists (dt_settings d) @ [description]\<rparr>\<rparr>, None)))"

definition createDefaultGitleaksConfig :: "'d scan_env \<Rightarrow> 'd scanner \<Rightarrow> gerr + detector" where
  "createDefaultGitleaksConfig env a =
     (case sv_defaultDetector env of
        Inl err \<Rightarrow> Inl (Errorf ''error creating default gitleaks detector: %w'' [FErr err])
      | Inr d \<Rightarrow> Inr (case sa_allowList a of None \<Rightarrow> d | Some al \<Rightarrow> fst (mergeAllowlist env al d)))"

definition loadCustomGitleaksConfig :: "'d scan_env \<Rightarrow> 'd scanner \<Rightarrow> gerr + detector" where
  "loadCustomGitleaksConfig env a =
     (case sv_ReadInConfig env (sa_configPath a) of
        Some err \<Rightarrow>
          Inl (Errorf (if sv_IsNotExist env err then ''gitleaks config file not found at %s: %w''
                       else ''error reading gitleaks config file %s: %w'') [FStr (sa_configPath a), FErr err])
      | None \<Rightarrow>
          (case sv_Unmarshal env (sa_configPath a) of
             Some err \<Rightarrow> Inl (Errorf ''error unmarshaling gitleaks config from %s: %w'' [FStr (sa_configPath a), FErr err])
           | None \<Rightarrow>
               (case sv_Translate env (sa_configPath a) of
                  Inl err \<Rightarrow>
                    Inl (Errorf ''error translating gitleaks config from %s: %w'' [FStr (sa_configPath a), FErr err])
                | Inr d \<Rightarrow> Inr d)))"

definition initGitleaksDetector :: "'d scan_env \<Rightarrow> 'd scanner \<Rightarrow> gerr + detector" where
  "initGitleaksDetector env a =
     (case (if sa_configPath a \<noteq> [] then loadCustomGitleaksConfig env a else createDefaultGitleaksConfig env a) of
        Inl err \<Rightarrow> Inl err
      | Inr d \<Rightarrow>
          Inr (if sa_maxFileSizeMB a > 0
               then d\<lparr>dt_settings := (dt_settings d)\<lparr>dt_MaxTargetMegaBytes := sa_maxFileSizeMB a\<rparr>\<rparr> else d))"

section \<open>Allowlists\<close>

definition matches_pattern :: "'d scan_env \<Rightarrow> string \<Rightarrow> string \<Rightarrow> bool" where
  "matches_pattern env s pattern = (case sv_regex env pattern of Inl err \<Rightarrow> False | Inr re \<Rightarrow> rx_MatchString re s)"

definition isAllowlisted :: "'d scan_env \<Rightarrow> string \<Rightarrow> AllowList option \<Rightarrow> string \<Rightarrow> bool" where
  "isAllowlisted env s allowList checkType =
     (case allowList of
        None \<Rightarrow> False
      | Some al \<Rightarrow>
          if list_ex (contains s) (al_StopWords al) then True
          else if list_ex (matches_pattern env s) (al_Regexes al) then True
          else checkType = ''content'' \<and> list_ex (matches_pattern env s) (al_Paths al))"

definition isContentAllowListed :: "'d scan_env \<Rightarrow> string \<Rightarrow> AllowList option \<Rightarrow> bool" where
  "isContentAllowListed env content allowList = isAllowlisted env content allowList ''content''"

definition isMatchAllowlisted :: "'d scan_env \<Rightarrow> string \<Rightarrow> AllowList option \<Rightarrow> bool" where
  "isMatchAllowlisted env s allowList = isAllowlisted env s allowList ''match''"

definition isFileContentAllowListed :: "'d scan_env \<Rightarrow> 'd scanner \<Rightarrow> string \<Rightarrow> bool" where
  "isFileContentAllowListed env a content =
     (sa_configPath a = [] \<and> sa_allowList a \<noteq> None \<and> isContentAllowListed env content (sa_allowList a))"

section \<open>Findings\<close>

definition calculateSecretDigests :: "'d scan_env \<Rightarrow> 'd scanner \<Rightarrow> string \<Rightarrow> gerr + digest_set" where
  "calculateSecretDigests env a secret =
     (let hashes = (case sa_ctx a of None \<Rightarrow> [plain_digest SHA256] | Some ctx \<Rightarrow> ac_hashes ctx)
      in case CalculateDigestSetFromBytes (sv_lib env) secret hashes of
           (_, Some err) \<Rightarrow> Inl (Errorf ''error calculating digest for secret: %w'' [FErr err])
         | (digestSet, None) \<Rightarrow> Inr digestSet)"

definition createSecureFinding ::
  "'d scan_env \<Rightarrow> 'd scanner \<Rightarrow> gl_finding \<Rightarrow> string \<Rightarrow> string list \<Rightarrow> bool \<Rightarrow> gerr + Finding" where
  "createSecureFinding env a gf filePath encodingPath isApproximate =
     (case calculateSecretDigests env a (gf_Secret gf) of
        Inl err \<Rightarrow> Inl (Errorf ''error calculating digests for secret: %w'' [FErr err])
      | Inr digestSet \<Rightarrow>
          Inr \<lparr>fi_RuleID = to_lower (gf_RuleID gf), fi_Description = gf_Description gf, fi_Location = filePath,
               fi_Line = gf_StartLine gf, fi_Secret = digestSet, fi_Match = truncateMatch (gf_Match gf),
               fi_Entropy = gf_Entropy gf, fi_EncodingPath = encodingPath, fi_LocationApproximate = isApproximate\<rparr>)"

type_synonym processed = "string goset"

primrec processGitleaksFindings ::
  "'d scan_env \<Rightarrow> 'd scanner \<Rightarrow> string \<Rightarrow> bool \<Rightarrow> gl_finding list \<Rightarrow> processed \<Rightarrow> processed \<times> Finding list" where
  "processGitleaksFindings env a filePath isApproximate [] processed = (processed, [])"
| "processGitleaksFindings env a filePath isApproximate (gf # gfs) processed =
     (if (sa_configPath a = [] \<and> sa_allowList a \<noteq> None) \<and> isMatchAllowlisted env (gf_Match gf) (sa_allowList a)
      then processGitleaksFindings env a filePath isApproximate gfs processed
      else (let findingKey = filePath @ '':'' @ gf_Secret gf
            in if map_of processed findingKey \<noteq> None
               then processGitleaksFindings env a filePath isApproximate gfs processed
               else (let (processed', findings) =
                           processGitleaksFindings env a filePath isApproximate gfs (AList.update findingKey () processed)
                     in case createSecureFinding env a gf filePath [] isApproximate of
                          Inl err \<Rightarrow> (processed', findings)
                        | Inr finding \<Rightarrow> (processed', finding # findings))))"

definition setAttestationLocation :: "Finding list \<Rightarrow> string \<Rightarrow> Finding list" where
  "setAttestationLocation findings attestorName = map (\<lambda>f. f\<lparr>fi_Location := ''attestation:'' @ attestorName\<rparr>) findings"

definition setProductLocation :: "Finding list \<Rightarrow> string \<Rightarrow> Finding list" where
  "setProductLocation findings productPath = map (\<lambda>f. f\<lparr>fi_Location := ''product:'' @ productPath\<rparr>) findings"

section \<open>Environment variables\<close>

definition isEnvironmentVariableSensitive :: "'d scan_env \<Rightarrow> string \<Rightarrow> string goset \<Rightarrow> bool" where
  "isEnvironmentVariableSensitive env key sensitiveEnvVars \<longleftrightarrow>
     map_of sensitiveEnvVars key \<noteq> None \<or>
     list_ex (\<lambda>pattern. contains pattern ''*'' \<and> (case sv_glob env pattern of Inl err \<Rightarrow> False | Inr g \<Rightarrow> g key))
       (map fst sensitiveEnvVars)"

text \<open>The list that \<open>getSensitiveEnvVarsList\<close> computes, and the attestor whose capturer \<open>Capture\<close> changed.\<close>

definition getSensitiveEnvVarsList :: "'d scan_env \<Rightarrow> 'd scanner \<Rightarrow> ('d scanner \<times> string goset) outcome" where
  "getSensitiveEnvVarsList env a =
     (case sa_ctx a of
        None \<Rightarrow> Return (a, DefaultSensitiveEnvList)
      | Some ctx \<Rightarrow>
          bindO (Capture_Capture (sv_glob env) (ac_environmentCapturer ctx) (sv_environ env))
            (\<lambda>(capturer, processedEnvVars).
               Return (a\<lparr>sa_ctx := Some (ctx\<lparr>ac_environmentCapturer := capturer\<rparr>)\<rparr>,
                 fold (\<lambda>envVar sensitiveEnvVars.
                     let key = fst (splitVariable envVar)
                     in if map_of processedEnvVars key = None then AList.update key () sensitiveEnvVars
                        else sensitiveEnvVars)
                   (sv_environ env) DefaultSensitiveEnvList)))"

definition match_context :: "string \<Rightarrow> nat \<times> nat \<Rightarrow> matchInfo" where
  "match_context content ix =
     (case ix of (startIdx, endIdx) \<Rightarrow>
        (let startContextIdx = startIdx - redactionMatchContextSize;
             endContextIdx = min (endIdx + redactionMatchContextSize) (length content);
             contextPrefix = drop startContextIdx (take startIdx content);
             contextSuffix = drop endIdx (take endContextIdx content)
         in \<lparr>mi_lineNumber = int (length (split_at newline (take startIdx content))),
             mi_matchContext = contextPrefix @ redactedValuePlaceholder @ contextSuffix\<rparr>))"

definition findPatternMatchesWithRedaction :: "'d scan_env \<Rightarrow> string \<Rightarrow> string \<Rightarrow> matchInfo list" where
  "findPatternMatchesWithRedaction env content patternStr =
     (case sv_regex env patternStr of
        Inl err \<Rightarrow> []
      | Inr re \<Rightarrow> map (match_context content) (rx_FindAllStringIndex re content))"

definition dashes :: "string \<Rightarrow> string" where
  "dashes key = map (\<lambda>c. if c = CHR ''_'' then CHR ''-'' else c) key"

text \<open>The variables that are looked for: with a value of at least four bytes and a sensitive name.\<close>

definition scanned_variable :: "'d scan_env \<Rightarrow> string goset \<Rightarrow> string \<Rightarrow> (string \<times> string) option" where
  "scanned_variable env sensitiveEnvVars envPair =
     (let (key, val) = splitVariable envPair
      in if length val < minSensitiveValueLength \<or> \<not> isEnvironmentVariableSensitive env key sensitiveEnvVars then None
         else Some (key, val))"

definition env_findings :: "'d scan_env \<Rightarrow> 'd scanner \<Rightarrow> string \<Rightarrow> string \<Rightarrow> string \<times> string \<Rightarrow> Finding list" where
  "env_findings env a content filePath variable =
     (case variable of (key, val) \<Rightarrow>
        (case sv_regex env (sv_QuoteMeta env val) of
           Inl err \<Rightarrow> []
         | Inr re \<Rightarrow>
             List.map_filter (\<lambda>info.
                 case calculateSecretDigests env a val of
                   Inl err \<Rightarrow> None
                 | Inr digestSet \<Rightarrow>
                     Some \<lparr>fi_RuleID = ''witness-env-value-'' @ dashes key,
                           fi_Description = ''Sensitive environment variable value detected: '' @ key,
                           fi_Location = filePath, fi_Line = mi_lineNumber info, fi_Secret = digestSet,
                           fi_Match = truncateMatch (mi_matchContext info), fi_Entropy = 0, fi_EncodingPath = [],
                           fi_LocationApproximate = False\<rparr>)
               (findPatternMatchesWithRedaction env content (sv_QuoteMeta env val))))"

definition ScanForEnvVarValues ::
  "'d scan_env \<Rightarrow> 'd scanner \<Rightarrow> string \<Rightarrow> string \<Rightarrow> string goset \<Rightarrow> Finding list" where
  "ScanForEnvVarValues env a content filePath sensitiveEnvVars =
     concat (map (env_findings env a content filePath)
       (List.map_filter (scanned_variable env sensitiveEnvVars) (sv_environ env)))"

end
