(* ===== verification/Secret_Scanner.thy ===== *)
theory Secret_Scanner
  imports Secret_Scan
begin

text \<open>
  The scan of the secret scanner: \<open>attestation/secretscan/scanner.go\<close> and the search of decoded content in
  \<open>envscan.go\<close>. \<open>scan_layers\<close> is the recursion of \<open>scanBytes\<close> on the layers that are left below its limit
  of depth three, so it needs no fuel. The attestor is threaded through (\<open>getSensitiveEnvVarsList\<close> changes
  its capturer), and so is the set of findings already reported for the source. The error result of
  \<open>scanBytes\<close> is always nil and is left out, with the branches of its callers that test it.
\<close>

section \<open>Decoded content\<close>

fun string_index :: "string \<Rightarrow> string \<Rightarrow> nat option" where
  "string_index [] p = (if p = [] then Some 0 else None)"
| "string_index (x # xs) p = (if has_prefix (x # xs) p then Some 0 else map_option Suc (string_index xs p))"

definition replace_first :: "string \<Rightarrow> string \<Rightarrow> string \<Rightarrow> string" where
  "replace_first s old new =
     (case string_index s old of None \<Rightarrow> s | Some i \<Rightarrow> take i s @ new @ drop (i + length old) s)"

definition partial_value :: "string \<Rightarrow> string \<Rightarrow> string option" where
  "partial_value decodedContent val =
     (let minPartialLength = 3
      in if length val \<ge> minPartialLength
         then (if contains decodedContent (take minPartialLength val @ [newline])
               then Some (take minPartialLength val @ [newline])
               else List.find (contains decodedContent)
                      (map (\<lambda>prefixLen. take prefixLen val) (rev [minPartialLength..<length val])))
         else None)"

text \<open>The value that is reported, and whether it is only a part of the variable's value.\<close>

definition match_value :: "string \<Rightarrow> string \<Rightarrow> (string \<times> bool) option" where
  "match_value decodedContent val =
     (let exactMatch = contains decodedContent val;
          exactMatchWithNewline = contains decodedContent (val @ [newline]);
          partialMatch = partial_value decodedContent val
      in if exactMatch \<or> exactMatchWithNewline \<or> partialMatch \<noteq> None
         then Some (if exactMatchWithNewline then (val, False)
                    else case partialMatch of
                           Some partialValue \<Rightarrow> if \<not> exactMatch then (partialValue, True) else (val, False)
                         | None \<Rightarrow> (val, False))
         else None)"

definition line_match :: "string \<Rightarrow> string \<Rightarrow> string" where
  "line_match line matchValue =
     (if length line < 40 then replace_first line matchValue ''[REDACTED]''
      else (let valueIndex = (case string_index line matchValue of None \<Rightarrow> 0 | Some i \<Rightarrow> i);
                startIndex = valueIndex - 10;
                endIndex = min (length line) (valueIndex + length matchValue + 10);
                context = drop startIndex (take endIndex line)
            in replace_first context matchValue ''[REDACTED]''))"

text \<open>The line number, zero when the value spans lines, and the redacted context.\<close>

definition value_position :: "string \<Rightarrow> string \<Rightarrow> nat \<times> string" where
  "value_position decodedContent matchValue =
     (case List.find (\<lambda>(i, line). contains line matchValue) (List.enumerate 0 (split_at newline decodedContent)) of
        Some (i, line) \<Rightarrow> (i + 1, line_match line matchValue)
      | None \<Rightarrow> (0, ''...'' @ truncateMatch matchValue @ ''...''))"

definition decoded_key :: "string \<Rightarrow> nat \<Rightarrow> string \<Rightarrow> string \<Rightarrow> string \<Rightarrow> string" where
  "decoded_key sourceIdentifier lineNumber key encodingType partialSuffix =
     sourceIdentifier @ '':'' @ dec lineNumber @ '':'' @ key @ '':'' @ encodingType @ partialSuffix"

definition check_variable ::
  "'d scan_env \<Rightarrow> 'd scanner \<Rightarrow> string \<Rightarrow> string \<Rightarrow> string \<Rightarrow> string \<times> string \<Rightarrow>
     processed \<times> Finding list \<Rightarrow> processed \<times> Finding list" where
  "check_variable env a decodedContent sourceIdentifier encodingType variable s =
     (case (variable, s) of ((key, val), (processedInThisScan, findings)) \<Rightarrow>
        (case match_value decodedContent val of
           None \<Rightarrow> s
         | Some (matchValue, isPartial) \<Rightarrow>
             (case calculateSecretDigests env a matchValue of
                Inl err \<Rightarrow> s
              | Inr digestSet \<Rightarrow>
                  (let (lineNumber, match) = value_position decodedContent matchValue;
                       partialSuffix = (if isPartial then ''-partial'' else []);
                       findingKey = decoded_key sourceIdentifier lineNumber key encodingType partialSuffix
                   in if map_of processedInThisScan findingKey \<noteq> None then s
                      else (AList.update findingKey () processedInThisScan,
                            findings @
                              [\<lparr>fi_RuleID = ''witness-encoded-env-value-'' @ dashes key @ partialSuffix,
                                fi_Description =
                                  (if isPartial then ''Partial encoded sensitive environment variable value detected: '' @ key
                                   else ''Encoded sensitive environment variable value detected: '' @ key),
                                fi_Location = sourceIdentifier, fi_Line = int lineNumber, fi_Secret = digestSet,
                                fi_Match = match, fi_Entropy = 0, fi_EncodingPath = [encodingType],
                                fi_LocationApproximate = True\<rparr>])))))"

definition checkDecodedContentForSensitiveValues ::
  "'d scan_env \<Rightarrow> 'd scanner \<Rightarrow> string \<Rightarrow> string \<Rightarrow> string \<Rightarrow> string goset \<Rightarrow> processed \<Rightarrow>
     processed \<times> Finding list" where
  "checkDecodedContentForSensitiveValues env a decodedContent sourceIdentifier encodingType sensitiveEnvVars processedInThisScan =
     fold (check_variable env a decodedContent sourceIdentifier encodingType)
       (List.map_filter (scanned_variable env sensitiveEnvVars) (sv_environ env)) (processedInThisScan, [])"

section \<open>Layers\<close>

type_synonym 'd scanned = "'d scanner \<times> processed \<times> Finding list"

definition add_env_finding :: "'d scan_env \<Rightarrow> string \<Rightarrow> Finding \<Rightarrow> processed \<times> Finding list \<Rightarrow> processed \<times> Finding list" where
  "add_env_finding env sourceIdentifier f s =
     (case s of (processedInThisScan, findings) \<Rightarrow>
        (let findingKey = sourceIdentifier @ '':'' @ itoa (fi_Line f) @ '':'' @ sv_sprint env (fi_Secret f)
         in if map_of processedInThisScan findingKey \<noteq> None then s
            else (AList.update findingKey () processedInThisScan, findings @ [f])))"

text \<open>The search for variables, which only the outermost layer gets.\<close>

definition env_layer :: "'d scan_env \<Rightarrow> string \<Rightarrow> string \<Rightarrow> 'd scanned \<Rightarrow> 'd scanned outcome" where
  "env_layer env sourceIdentifier contentStr s =
     (case s of (a, processedInThisScan, findings) \<Rightarrow>
        bindO (getSensitiveEnvVarsList env a) (\<lambda>(a, sensitiveEnvVars).
          Return (a, fold (add_env_finding env sourceIdentifier)
            (ScanForEnvVarValues env a contentStr sourceIdentifier sensitiveEnvVars) (processedInThisScan, findings))))"

definition worth_scanning :: "nat \<Rightarrow> string \<Rightarrow> bytes \<Rightarrow> bool" where
  "worth_scanning currentDepth candidate decodedBytes \<longleftrightarrow>
     length decodedBytes \<ge> minSensitiveValueLength \<or> (currentDepth > 0 \<and> length decodedBytes > 0) \<or>
     has_suffix candidate ''=''"

definition prepend_encoding :: "string \<Rightarrow> Finding \<Rightarrow> Finding" where
  "prepend_encoding name f =
     f\<lparr>fi_EncodingPath := (if length (fi_EncodingPath f) > 0 then [name] @ fi_EncodingPath f else [name]),
       fi_LocationApproximate := True\<rparr>"

text \<open>One candidate; \<open>next\<close> is the scan of the next layer.\<close>

definition scan_candidate ::
  "'d scan_env \<Rightarrow> string \<Rightarrow> nat \<Rightarrow> (bytes \<Rightarrow> 'd scanner \<Rightarrow> processed \<Rightarrow> 'd scanned outcome) \<Rightarrow>
     encodingScanner \<times> string \<Rightarrow> 'd scanned \<Rightarrow> 'd scanned outcome" where
  "scan_candidate env sourceIdentifier currentDepth next sc s =
     (case (sc, s) of ((scanner, candidate), (a, processedInThisScan, findings)) \<Rightarrow>
        (case es_Decoder scanner candidate of
           Inl err \<Rightarrow> Return s
         | Inr decodedBytes \<Rightarrow>
             if \<not> worth_scanning currentDepth candidate decodedBytes then Return s
             else (let decodedBytes = trim_space decodedBytes
                   in bindO (getSensitiveEnvVarsList env a) (\<lambda>(a, sensitiveEnvVars).
                        let (processedInThisScan, envFindings) =
                              checkDecodedContentForSensitiveValues env a decodedBytes sourceIdentifier (es_Name scanner)
                                sensitiveEnvVars processedInThisScan
                        in bindO (next decodedBytes a processedInThisScan) (\<lambda>(a, processedInThisScan, recursiveFindings).
                             Return (a, processedInThisScan,
                               findings @ envFindings @ map (prepend_encoding (es_Name scanner)) recursiveFindings))))))"

definition candidates_of :: "string \<Rightarrow> (encodingScanner \<times> string) list" where
  "candidates_of contentStr =
     concat (map (\<lambda>scanner. map (Pair scanner) (es_Finder scanner contentStr)) defaultEncodingScanners)"

primrec scan_layers ::
  "nat \<Rightarrow> 'd scan_env \<Rightarrow> detector \<Rightarrow> string \<Rightarrow> bytes \<Rightarrow> 'd scanner \<Rightarrow> processed \<Rightarrow> 'd scanned outcome" where
  "scan_layers 0 env d sourceIdentifier contentBytes a processedInThisScan = Return (a, processedInThisScan, [])"
| "scan_layers (Suc n) env d sourceIdentifier contentBytes a processedInThisScan =
     (let currentDepth = maxScanRecursionDepth - n
      in if isFileContentAllowListed env a contentBytes then Return (a, processedInThisScan, [])
         else (let layer = processGitleaksFindings env a sourceIdentifier (currentDepth > 0) (DetectBytes d contentBytes)
                     processedInThisScan
               in bindO (if currentDepth = 0 then env_layer env sourceIdentifier contentBytes (a, layer) else Return (a, layer))
                    (\<lambda>(a, layer).
                       if int currentDepth < sa_maxDecodeLayers a
                       then foldO (scan_candidate env sourceIdentifier currentDepth (scan_layers n env d sourceIdentifier))
                              (candidates_of contentBytes) (a, layer)
                       else Return (a, layer))))"

definition scanBytes ::
  "'d scan_env \<Rightarrow> 'd scanner \<Rightarrow> bytes \<Rightarrow> string \<Rightarrow> detector \<Rightarrow> processed \<Rightarrow> nat \<Rightarrow> 'd scanned outcome" where
  "scanBytes env a contentBytes sourceIdentifier d processedInThisScan currentDepth =
     scan_layers (Suc maxScanRecursionDepth - currentDepth) env d sourceIdentifier contentBytes a processedInThisScan"

section \<open>Files\<close>

definition maxSizeBytes :: "'d scanner \<Rightarrow> 64 word" where
  "maxSizeBytes a = word_of_int (sa_maxFileSizeMB a) * 1024 * 1024"

definition exceedsMaxFileSize :: "'d scan_env \<Rightarrow> 'd scanner \<Rightarrow> string \<Rightarrow> gerr + bool" where
  "exceedsMaxFileSize env a filePath =
     (case sv_Stat env filePath of
        Inl err \<Rightarrow> Inl (Errorf ''error getting file info: %w'' [FErr err])
      | Inr fileSize \<Rightarrow> Inr (sa_maxFileSizeMB a > 0 \<and> fileSize > sint (maxSizeBytes a)))"

text \<open>\<open>io.LimitReader\<close> yields nothing for a limit that is not positive.\<close>

definition readFileContent :: "'d scan_env \<Rightarrow> 'd scanner \<Rightarrow> string \<Rightarrow> gerr + bytes" where
  "readFileContent env a filePath =
     (case sv_Open env filePath of
        Inl err \<Rightarrow> Inl (Errorf ''error opening file: %w'' [FErr err])
      | Inr file \<Rightarrow>
          (if sint (maxSizeBytes a) \<le> 0 then Inr []
           else case file of
                  Inl err \<Rightarrow> Inl (Errorf ''error reading file: %w'' [FErr err])
                | Inr content \<Rightarrow> Inr (take (nat (sint (maxSizeBytes a))) content)))"

definition ScanFile ::
  "'d scan_env \<Rightarrow> 'd scanner \<Rightarrow> string \<Rightarrow> detector option \<Rightarrow> ('d scanner \<times> (gerr + Finding list)) outcome" where
  "ScanFile env a filePath detector =
     (case detector of
        None \<Rightarrow> Return (a, Inl (Errorf ''nil detector provided'' []))
      | Some d \<Rightarrow>
          (case exceedsMaxFileSize env a filePath of
             Inl err \<Rightarrow> Return (a, Inl err)
           | Inr True \<Rightarrow> Return (a, Inr [])
           | Inr False \<Rightarrow>
               (case readFileContent env a filePath of
                  Inl err \<Rightarrow> Return (a, Inl err)
                | Inr content \<Rightarrow>
                    bindO (scanBytes env a content filePath d [] 0) (\<lambda>(a, _, findings). Return (a, Inr findings)))))"

section \<open>Attestations and products\<close>

definition secretscan_RunType :: RunType where "secretscan_RunType = PostProductRunType"

definition shouldSkipAttestor :: "'d attestor \<Rightarrow> bool" where
  "shouldSkipAttestor attestor = (att_Name attestor = secretscan_Name \<or> att_RunType attestor = secretscan_RunType)"

definition scan_part ::
  "'d scan_env \<Rightarrow> detector \<Rightarrow> string \<times> bytes \<Rightarrow> 'd scanner \<times> Finding list \<Rightarrow> ('d scanner \<times> Finding list) outcome" where
  "scan_part env d part s =
     (case (part, s) of ((sourceID, content), (a, findings)) \<Rightarrow>
        bindO (scanBytes env a content sourceID d [] 0)
          (\<lambda>(a, _, partFindings). Return (a, findings @ partFindings)))"

text \<open>The output of the command, where it is not empty, and the JSON of the attestor, where it encodes.\<close>

definition scanCommandRunAttestor ::
  "'d scan_env \<Rightarrow> 'd scanner \<Rightarrow> CommandRun \<Rightarrow> detector \<Rightarrow> ('d scanner \<times> (gerr + Finding list)) outcome" where
  "scanCommandRunAttestor env a cmdRun d =
     bindO (foldO (scan_part env d)
         ((if cr_Stdout cmdRun \<noteq> [] then [(''attestation:commandrun:stdout'', cr_Stdout cmdRun)] else []) @
          (if cr_Stderr cmdRun \<noteq> [] then [(''attestation:commandrun:stderr'', cr_Stderr cmdRun)] else []) @
          (case sv_marshalCommand env cmdRun of
             Inl err \<Rightarrow> [] | Inr cmdRunJSON \<Rightarrow> [(''attestation:commandrun:json'', cmdRunJSON)]))
         (a, []))
       (\<lambda>(a, findings). Return (a, Inr findings))"

definition scanSingleAttestor ::
  "'d scan_env \<Rightarrow> 'd scanner \<Rightarrow> 'd attestor \<Rightarrow> detector \<Rightarrow> ('d scanner \<times> (gerr + Finding list)) outcome" where
  "scanSingleAttestor env a attestor d =
     (case sv_as_commandrun env (att_state attestor) of
        Some cmdRunAttestor \<Rightarrow> scanCommandRunAttestor env a cmdRunAttestor d
      | None \<Rightarrow>
          (case sv_marshal env attestor of
             Inl err \<Rightarrow> Return (a, Inl (Errorf ''error marshaling attestor %s: %w'' [FStr (att_Name attestor), FErr err]))
           | Inr attestorJSON \<Rightarrow>
               bindO (scanBytes env a attestorJSON (''attestation_'' @ att_Name attestor @ ''.json'') d [] 0)
                 (\<lambda>(a, _, findings). Return (a, Inr findings))))"

definition scan_completed ::
  "'d scan_env \<Rightarrow> detector \<Rightarrow> 'd CompletedAttestor \<Rightarrow> 'd scanner \<Rightarrow> 'd scanner outcome" where
  "scan_completed env d completed a =
     (if shouldSkipAttestor (cpl_Attestor completed) then Return a
      else bindO (scanSingleAttestor env a (cpl_Attestor completed) d) (\<lambda>(a, result).
             case result of
               Inl err \<Rightarrow> Return a
             | Inr findings \<Rightarrow>
                 Return (a\<lparr>sa_Findings := sa_Findings a @
                   setAttestationLocation findings (att_Name (cpl_Attestor completed))\<rparr>)))"

definition scanAttestations ::
  "'d scan_env \<Rightarrow> 'd AttestationContext \<Rightarrow> detector \<Rightarrow> 'd scanner \<Rightarrow> 'd scanner outcome" where
  "scanAttestations env ctx d a = foldO (scan_completed env d) (ac_completedAttestors ctx) a"

definition shouldSkipProduct :: "string \<Rightarrow> Product \<Rightarrow> bool" where
  "shouldSkipProduct path product = (pr_MimeType product = ''text/directory'' \<or> isBinaryFile (pr_MimeType product))"

definition getAbsolutePath :: "string \<Rightarrow> string \<Rightarrow> string" where
  "getAbsolutePath path workingDir =
     (if \<not> has_prefix path ''/'' \<and> workingDir \<noteq> [] then filepath_Join workingDir path else path)"

definition scan_product ::
  "'d scan_env \<Rightarrow> string \<Rightarrow> detector \<Rightarrow> string \<times> Product \<Rightarrow> 'd scanner \<Rightarrow> 'd scanner outcome" where
  "scan_product env workingDir d entry a =
     (case entry of (path, product) \<Rightarrow>
        if shouldSkipProduct path product then Return a
        else bindO (ScanFile env a (getAbsolutePath path workingDir) (Some d)) (\<lambda>(a, result).
               case result of
                 Inl err \<Rightarrow> Return a
               | Inr findings \<Rightarrow>
                   Return (a\<lparr>sa_Findings := sa_Findings a @ setProductLocation findings path,
                             sa_subjects := AList.update (''product:'' @ path) (pr_Digest product) (sa_subjects a)\<rparr>)))"

definition scanProducts ::
  "'d scan_env \<Rightarrow> 'd AttestationContext \<Rightarrow> detector \<Rightarrow> 'd scanner \<Rightarrow> 'd scanner outcome" where
  "scanProducts env ctx d a = foldO (scan_product env (ac_workingDir ctx) d) (ctx_Products ctx) a"

definition secretscan_Attest ::
  "'d scan_env \<Rightarrow> 'd AttestationContext \<Rightarrow> 'd scanner \<Rightarrow> ('d scanner \<times> gerr option) outcome" where
  "secretscan_Attest env ctx a =
     (let a = a\<lparr>sa_ctx := Some ctx\<rparr>
      in case sv_MkdirTemp env of
           Some err \<Rightarrow> Return (a, Some (Errorf ''error creating temp dir: %w'' [FErr err]))
         | None \<Rightarrow>
             (case initGitleaksDetector env a of
                Inl err \<Rightarrow> Return (a, Some (Errorf ''error initializing gitleaks detector: %w'' [FErr err]))
              | Inr d \<Rightarrow>
                  bindO (scanAttestations env ctx d a) (\<lambda>a.
                    bindO (scanProducts env ctx d a) (\<lambda>a.
                      Return (a, if sa_failOnDetection a \<and> length (sa_Findings a) > 0
                                 then Some (Errorf ''secret scanning failed: found %d secrets'' [FInt (int (length (sa_Findings a)))])
                                 else None)))))"

definition secretscan_Subjects :: "'d scanner \<Rightarrow> (string, digest_set) gomap" where
  "secretscan_Subjects a = sa_subjects a"

section \<open>Lemmas\<close>

text \<open>What a scan leaves alone: everything but the context, whose capturer \<open>Capture\<close> changes.\<close>

definition same_config :: "'d scanner \<Rightarrow> 'd scanner \<Rightarrow> bool" where
  "same_config a b \<longleftrightarrow> b = a\<lparr>sa_ctx := sa_ctx b\<rparr>"

lemma same_config_refl [simp]: "same_config a a"
  by (simp add: same_config_def)

lemma same_config_trans: "same_config a b \<Longrightarrow> same_config b c \<Longrightarrow> same_config a c"
  unfolding same_config_def by (metis scanner.surjective scanner.update_convs(9))

lemma same_config_fields:
  assumes "same_config a b"
  shows "sa_maxDecodeLayers b = sa_maxDecodeLayers a" "sa_maxFileSizeMB b = sa_maxFileSizeMB a"
    "sa_failOnDetection b = sa_failOnDetection a" "sa_configPath b = sa_configPath a" "sa_allowList b = sa_allowList a"
    "sa_Findings b = sa_Findings a" "sa_subjects b = sa_subjects a"
  using arg_cong [OF assms [unfolded same_config_def], of sa_maxDecodeLayers]
    arg_cong [OF assms [unfolded same_config_def], of sa_maxFileSizeMB]
    arg_cong [OF assms [unfolded same_config_def], of sa_failOnDetection]
    arg_cong [OF assms [unfolded same_config_def], of sa_configPath]
    arg_cong [OF assms [unfolded same_config_def], of sa_allowList]
    arg_cong [OF assms [unfolded same_config_def], of sa_Findings]
    arg_cong [OF assms [unfolded same_config_def], of sa_subjects]
  by simp_all

lemma getSensitiveEnvVarsList_config:
  "getSensitiveEnvVarsList env a = Return (b, vars) \<Longrightarrow> same_config a b"
  by (auto simp: getSensitiveEnvVarsList_def same_config_def split: option.splits)

lemma string_index_Some: "string_index s p = Some i \<Longrightarrow> \<exists>t u. s = t @ p @ u \<and> length t = i"
proof (induction s arbitrary: i)
  case (Cons x xs)
  show ?case
  proof (cases "has_prefix (x # xs) p")
    case True
    then obtain u where "x # xs = [] @ p @ u" by (auto simp: has_prefix_iff)
    moreover have "i = 0" using True Cons.prems by simp
    ultimately show ?thesis by (metis list.size(3))
  next
    case False
    with Cons.prems obtain j where "string_index xs p = Some j" "i = Suc j" by auto
    with Cons.IH obtain t u where "xs = t @ p @ u" "length t = j" by blast
    with \<open>i = Suc j\<close> show ?thesis by (intro exI [of _ "x # t"] exI [of _ u]) simp
  qed
qed (auto split: if_splits)

lemma string_index_None: "string_index s p = None \<longleftrightarrow> \<not> contains s p"
  by (induction s) auto

lemma length_replace_first:
  "length (replace_first s p q) = (if contains s p then length s - length p + length q else length s)"
proof (cases "string_index s p")
  case None
  then show ?thesis using string_index_None [of s p] by (simp add: replace_first_def)
next
  case (Some i)
  then obtain t u where "s = t @ p @ u" "length t = i" using string_index_Some by metis
  moreover have "contains s p" using Some string_index_None [of s p] by simp
  ultimately show ?thesis using Some by (simp add: replace_first_def)
qed

text \<open>The redacted context of a line is short, whatever the line.\<close>

lemma line_match_bound:
  assumes "contains line v"
  shows "length (line_match line v) \<le> 49"
proof (cases "length line < 40")
  case True
  then have "length line - length v \<le> 39" by linarith
  then show ?thesis using True by (simp add: line_match_def length_replace_first)
next
  case False
  obtain i where i: "string_index line v = Some i" using assms string_index_None [of line v] by fastforce
  then obtain t u where line: "line = t @ v @ u" "length t = i" using string_index_Some by metis
  let ?c = "drop (i - 10) (take (min (length line) (i + length v + 10)) line)"
  have "?c = drop (i - 10) t @ v @ take 10 u" using line by (auto simp: min_def)
  then have "contains ?c v" and "length ?c \<le> length v + 20" using line by (auto simp: contains_iff)
  then show ?thesis using False i by (simp add: line_match_def Let_def length_replace_first)
qed

lemma value_position_bound: "length (snd (value_position decoded v)) \<le> 49"
  using truncateMatch_bound [of v]
  by (auto simp: value_position_def find_Some_iff intro!: line_match_bound split: option.splits)

section \<open>The shape of findings\<close>

definition encodings :: "string set" where "encodings = {''base64'', ''hex'', ''url''}"

definition good_finding :: "nat \<Rightarrow> bool \<Rightarrow> Finding \<Rightarrow> bool" where
  "good_finding bound inner f \<longleftrightarrow>
     length (fi_EncodingPath f) \<le> bound \<and> set (fi_EncodingPath f) \<subseteq> encodings \<and>
     (fi_LocationApproximate f \<longleftrightarrow> inner \<or> fi_EncodingPath f \<noteq> []) \<and> length (fi_Match f) \<le> 49"

lemma createSecureFinding_good:
  "createSecureFinding env a gf path [] inner = Inr f \<Longrightarrow> good_finding bound inner f"
  using truncateMatch_bound [of "gf_Match gf"]
  by (auto simp: createSecureFinding_def good_finding_def split: sum.splits)

lemma gitleaks_good:
  "processGitleaksFindings env a path inner gfs p = (p', fs) \<Longrightarrow> f \<in> set fs \<Longrightarrow> good_finding bound inner f"
proof (induction gfs arbitrary: p p' fs)
  case (Cons gf gfs)
  show ?case
  proof (cases "\<exists>q fs'. processGitleaksFindings env a path inner gfs q = (p', fs') \<and> f \<in> set fs'")
    case True
    then show ?thesis using Cons.IH by blast
  next
    case False
    with Cons.prems have "createSecureFinding env a gf path [] inner = Inr f"
      by (auto simp: Let_def split: if_splits sum.splits prod.splits)
    then show ?thesis by (rule createSecureFinding_good)
  qed
qed simp

lemma mem_map_filter: "y \<in> set (List.map_filter g xs) \<longleftrightarrow> (\<exists>x \<in> set xs. g x = Some y)"
  by (induction xs) (auto simp: map_filter_simps split: option.splits)

lemma env_findings_good:
  assumes "f \<in> set (ScanForEnvVarValues env a content path vars)"
  shows "good_finding bound False f"
proof -
  have "\<exists>info. fi_Match f = truncateMatch info \<and> fi_EncodingPath f = [] \<and> \<not> fi_LocationApproximate f"
  proof -
    from assms obtain k v where f: "f \<in> set (env_findings env a content path (k, v))"
      by (auto simp: ScanForEnvVarValues_def)
    then show ?thesis
    proof (cases "sv_regex env (sv_QuoteMeta env v)")
      case (Inr re)
      with f show ?thesis
        by (cases "calculateSecretDigests env a v") (auto simp: env_findings_def mem_map_filter)
    qed (use f in \<open>simp add: env_findings_def\<close>)
  qed
  then obtain info where "fi_Match f = truncateMatch info" "fi_EncodingPath f = []" "\<not> fi_LocationApproximate f" by blast
  then show ?thesis using truncateMatch_bound [of info] by (simp add: good_finding_def)
qed

lemma add_env_findings_set:
  "set (snd (fold (add_env_finding env src) new s)) \<subseteq> set new \<union> set (snd s)"
proof (induction new arbitrary: s)
  case (Cons f new)
  have "set (snd (add_env_finding env src f s)) \<subseteq> insert f (set (snd s))"
    by (cases s) (auto simp: add_env_finding_def Let_def)
  with Cons show ?case by fastforce
qed simp

lemma check_variable_good:
  assumes "\<forall>f \<in> set (snd s). good_finding (Suc bound) inner f" and "enc \<in> encodings"
  shows "\<forall>f \<in> set (snd (check_variable env a decoded src enc v s)). good_finding (Suc bound) inner f"
proof -
  have "length m \<le> 49" if "value_position decoded x = (l, m)" for x l m
    using value_position_bound [of decoded x] that by simp
  then show ?thesis using assms
    by (simp add: check_variable_def Let_def good_finding_def split: option.splits sum.splits prod.splits if_splits)
qed

lemma checkDecoded_good:
  assumes "enc \<in> encodings"
    and "checkDecodedContentForSensitiveValues env a decoded src enc vars p = (p', fs)" and "f \<in> set fs"
  shows "good_finding (Suc bound) inner f"
proof -
  have "\<forall>f \<in> set (snd (fold (check_variable env a decoded src enc) xs s)). good_finding (Suc bound) inner f"
    if "\<forall>f \<in> set (snd s). good_finding (Suc bound) inner f" for xs s
    using that
  proof (induction xs arbitrary: s)
    case (Cons v xs)
    show ?case using Cons.IH [OF check_variable_good [OF Cons.prems assms(1)]] by simp
  qed simp
  from this [of "(p, [])"] have "\<forall>f \<in> set (snd (p', fs)). good_finding (Suc bound) inner f"
    unfolding assms(2) [symmetric] checkDecodedContentForSensitiveValues_def by simp
  with assms(3) show ?thesis by simp
qed

lemma prepend_good:
  "good_finding bound inner f \<Longrightarrow> name \<in> encodings \<Longrightarrow> good_finding (Suc bound) inner' (prepend_encoding name f)"
  by (auto simp: good_finding_def prepend_encoding_def)

lemma scanner_names: "(sc, c) \<in> set (candidates_of s) \<Longrightarrow> es_Name sc \<in> encodings"
  by (auto simp: candidates_of_def defaultEncodingScanners_def encodings_def)

definition layer_bound :: "nat \<Rightarrow> 'd scanner \<Rightarrow> nat" where
  "layer_bound n a = min n (nat (sa_maxDecodeLayers a - (4 - int n)))"

lemma layer_bound_Suc:
  "n < 4 \<Longrightarrow> int (maxScanRecursionDepth - n) < sa_maxDecodeLayers a \<Longrightarrow> layer_bound (Suc n) a = Suc (layer_bound n a)"
  by (simp add: layer_bound_def maxScanRecursionDepth_def min_def of_nat_diff) linarith

lemma scan_candidate_cases:
  assumes "scan_candidate env src depth next (sc, cand) (a, p, fs) = Return (a', p', fs')"
  obtains "a' = a" "p' = p" "fs' = fs"
  | decoded b vars q envf r where "es_Decoder sc cand = Inr decoded" "worth_scanning depth cand decoded"
    "getSensitiveEnvVarsList env a = Return (b, vars)"
    "checkDecodedContentForSensitiveValues env b (trim_space decoded) src (es_Name sc) vars p = (q, envf)"
    "next (trim_space decoded) b q = Return (a', p', r)" "fs' = fs @ envf @ map (prepend_encoding (es_Name sc)) r"
proof (cases "es_Decoder sc cand")
  case (Inl err)
  with assms that(1) show ?thesis by (simp add: scan_candidate_def)
next
  case (Inr decoded)
  show ?thesis
  proof (cases "worth_scanning depth cand decoded")
    case False
    with assms that(1) Inr show ?thesis by (simp add: scan_candidate_def)
  next
    case True
    with assms Inr obtain b vars where vars: "getSensitiveEnvVarsList env a = Return (b, vars)"
      by (auto simp: scan_candidate_def Let_def)
    obtain q envf where chk:
      "checkDecodedContentForSensitiveValues env b (trim_space decoded) src (es_Name sc) vars p = (q, envf)"
      by (cases "checkDecodedContentForSensitiveValues env b (trim_space decoded) src (es_Name sc) vars p")
    with assms Inr True vars obtain r where
      "next (trim_space decoded) b q = Return (a', p', r)" "fs' = fs @ envf @ map (prepend_encoding (es_Name sc)) r"
      by (auto simp: scan_candidate_def Let_def)
    with that(2) Inr True vars chk show ?thesis by blast
  qed
qed

text \<open>One candidate keeps the configuration and the shape of the findings.\<close>

lemma scan_candidate_good:
  assumes "scan_candidate env src depth next (sc, cand) (a, p, fs) = Return (a', p', fs')"
    and "es_Name sc \<in> encodings" and "\<forall>f \<in> set fs. good_finding (Suc bound) inner f"
    and layer: "\<And>content a p a' p' fs f. next content a p = Return (a', p', fs) \<Longrightarrow> same_config a0 a \<Longrightarrow>
      same_config a a' \<and> (f \<in> set fs \<longrightarrow> good_finding bound True f)"
    and "same_config a0 a"
  shows "same_config a0 a' \<and> (\<forall>f \<in> set fs'. good_finding (Suc bound) inner f)"
  using assms(1)
proof (cases rule: scan_candidate_cases)
  case (2 decoded b vars q envf r)
  then have "same_config a0 b" using assms(5) getSensitiveEnvVarsList_config same_config_trans by metis
  with layer [OF 2(5)] have "same_config a0 a'" and "\<forall>f \<in> set r. good_finding bound True f"
    by (auto intro: same_config_trans)
  then show ?thesis using assms(2,3) checkDecoded_good [OF assms(2) 2(4)] 2(6) prepend_good by auto
qed (use assms in auto)


lemma scan_layers_good:
  assumes "scan_layers n env d src content a p = Return (a', p', fs)" and "n \<le> 4"
  shows "same_config a a' \<and> (\<forall>f \<in> set fs. good_finding (layer_bound n a) (n < 4) f)"
  using assms
proof (induction n arbitrary: content a p a' p' fs)
  case (Suc n)
  let ?depth = "maxScanRecursionDepth - n"
  have depth: "?depth > 0 \<longleftrightarrow> Suc n < 4" using Suc.prems(2) by (auto simp: maxScanRecursionDepth_def)
  show ?case
  proof (cases "isFileContentAllowListed env a content")
    case False
    obtain q gl where gl: "processGitleaksFindings env a src (?depth > 0) (DetectBytes d content) p = (q, gl)"
      by (cases "processGitleaksFindings env a src (?depth > 0) (DetectBytes d content) p")
    let ?bound = "layer_bound (Suc n) a"
    have glg: "\<forall>f \<in> set gl. good_finding ?bound (Suc n < 4) f" using gitleaks_good [OF gl] depth by simp
    from Suc.prems(1) False gl obtain b r ls where
      env: "(if ?depth = 0 then env_layer env src content (a, q, gl) else Return (a, q, gl)) = Return (b, r, ls)"
      and cand: "(if int ?depth < sa_maxDecodeLayers b
          then foldO (scan_candidate env src ?depth (scan_layers n env d src)) (candidates_of content) (b, r, ls)
          else Return (b, r, ls)) = Return (a', p', fs)"
      unfolding scan_layers.simps Let_def gl bindO_Return_iff by auto
    have "same_config a b \<and> (\<forall>f \<in> set ls. good_finding ?bound (Suc n < 4) f)"
    proof (cases "?depth = 0")
      case True
      with env obtain vars where vars: "getSensitiveEnvVarsList env a = Return (b, vars)"
        and ls: "fold (add_env_finding env src) (ScanForEnvVarValues env b content src vars) (q, gl) = (r, ls)"
        by (auto simp: env_layer_def)
      have sc: "same_config a b" using vars by (rule getSensitiveEnvVarsList_config)
      have sub: "set ls \<subseteq> set (ScanForEnvVarValues env b content src vars) \<union> set gl"
        using add_env_findings_set [of env src "ScanForEnvVarValues env b content src vars" "(q, gl)"] ls by simp
      have n4: "(Suc n < 4) = False" using True depth by simp
      have "good_finding ?bound False f" if "f \<in> set ls" for f
        using subsetD [OF sub that] glg env_findings_good unfolding n4 by blast
      with sc n4 show ?thesis by simp
    qed (use env glg in auto)
    then have b: "same_config a b" and lsg: "\<forall>f \<in> set ls. good_finding ?bound (Suc n < 4) f" by auto
    show ?thesis
    proof (cases "int ?depth < sa_maxDecodeLayers b")
      case True
      then have bound: "?bound = Suc (layer_bound n a)"
        using Suc.prems(2) same_config_fields(1) [OF b] by (intro layer_bound_Suc) simp_all
      have layer: "same_config x x' \<and> (f \<in> set gs \<longrightarrow> good_finding (layer_bound n a) True f)"
        if "scan_layers n env d src c x y = Return (x', y', gs)" "same_config a x" for c x y x' y' gs f
        using Suc.IH [OF that(1)] Suc.prems(2) same_config_fields(1) [OF that(2)] by (simp add: layer_bound_def)
      define Q where "Q = (\<lambda>(a', p' :: processed, fs). same_config a a' \<and> (\<forall>f \<in> set fs. good_finding (Suc (layer_bound n a)) (Suc n < 4) f))"
      have "Q (a', p', fs)"
      proof (rule foldO_invariant [of _ "candidates_of content" "(b, r, ls)"])
        show "foldO (scan_candidate env src ?depth (scan_layers n env d src)) (candidates_of content) (b, r, ls) =
          Return (a', p', fs)" using cand True by simp
        show "Q (b, r, ls)" using b lsg bound by (simp add: Q_def)
        fix x s t
        assume x: "x \<in> set (candidates_of content)" and Q: "Q s"
          and step: "scan_candidate env src ?depth (scan_layers n env d src) x s = Return t"
        obtain sc c s1 s2 s3 t1 t2 t3 where xs: "x = (sc, c)" "s = (s1, s2, s3)" "t = (t1, t2, t3)"
          by (metis prod.exhaust)
        have name: "es_Name sc \<in> encodings" using x scanner_names unfolding xs by blast
        from Q have "\<forall>f \<in> set s3. good_finding (Suc (layer_bound n a)) (Suc n < 4) f" "same_config a s1"
          by (simp_all add: Q_def xs)
        from scan_candidate_good [OF step [unfolded xs] name this(1) layer this(2)]
        show "Q t" by (simp add: Q_def xs)
      qed
      then show ?thesis by (simp add: Q_def bound)
    qed (use cand b lsg in simp)
  qed (use Suc.prems in \<open>simp add: Let_def\<close>)
qed simp

lemma scanBytes_config:
  "scanBytes env a content src d p 0 = Return (a', p', fs) \<Longrightarrow> same_config a a'"
  unfolding scanBytes_def maxScanRecursionDepth_def by (drule scan_layers_good) simp_all

section \<open>What Attest keeps and lists\<close>

lemma ScanFile_config: "ScanFile env a path d = Return (a', r) \<Longrightarrow> same_config a a'"
  by (auto simp: ScanFile_def dest: scanBytes_config split: option.splits sum.splits bool.splits)

lemma scan_parts_config:
  "foldO (scan_part env d) parts (a, fs) = Return (a', fs') \<Longrightarrow> same_config a a'"
  by (rule foldO_invariant [of _ _ "(a, fs)" "(a', fs')" "\<lambda>(b, _). same_config a b", simplified])
    (auto simp: scan_part_def dest!: scanBytes_config intro: same_config_trans)

lemma scanSingleAttestor_config:
  "scanSingleAttestor env a att d = Return (a', r) \<Longrightarrow> same_config a a'"
  by (auto simp: scanSingleAttestor_def scanCommandRunAttestor_def dest!: scanBytes_config scan_parts_config
      split: option.splits sum.splits)

definition same_limits :: "'d scanner \<Rightarrow> 'd scanner \<Rightarrow> bool" where
  "same_limits a b \<longleftrightarrow> sa_failOnDetection b = sa_failOnDetection a \<and> sa_maxFileSizeMB b = sa_maxFileSizeMB a"

lemma same_config_limits: "same_config a b \<Longrightarrow> same_limits a b \<and> sa_subjects b = sa_subjects a"
  by (simp add: same_limits_def same_config_fields)

lemma scanAttestations_limits:
  assumes "scanAttestations env ctx d a = Return b"
  shows "same_limits a b \<and> sa_subjects b = sa_subjects a"
proof -
  have "same_limits x y \<and> sa_subjects y = sa_subjects x" if "scan_completed env d c x = Return y" for c x y
  proof (cases "shouldSkipAttestor (cpl_Attestor c)")
    case False
    with that obtain z r where z: "scanSingleAttestor env x (cpl_Attestor c) d = Return (z, r)"
      and y: "(case r of Inl err \<Rightarrow> Return z
         | Inr findings \<Rightarrow> Return (z\<lparr>sa_Findings := sa_Findings z @
             setAttestationLocation findings (att_Name (cpl_Attestor c))\<rparr>)) = Return y"
      by (auto simp: scan_completed_def simp del: append_Cons)
    from z have "same_config x z" by (rule scanSingleAttestor_config)
    with y show ?thesis by (cases r) (auto simp: same_limits_def same_config_fields)
  qed (use that in \<open>simp add: scan_completed_def same_limits_def\<close>)
  then have step: "same_limits a y \<and> sa_subjects y = sa_subjects a"
    if "same_limits a x \<and> sa_subjects x = sa_subjects a" "scan_completed env d c x = Return y" for c x y
    using that by (metis same_limits_def)
  show ?thesis
    by (rule foldO_invariant [OF assms [unfolded scanAttestations_def], where P = "\<lambda>y. same_limits a y \<and> sa_subjects y = sa_subjects a"])
      (simp add: same_limits_def, rule step)
qed

text \<open>Whether a file gets its scan: it exists, and is too large (and then not read) or can be read.\<close>

definition file_passes :: "'d scan_env \<Rightarrow> 'd scanner \<Rightarrow> string \<Rightarrow> bool" where
  "file_passes env a path =
     (case exceedsMaxFileSize env a path of
        Inl err \<Rightarrow> False
      | Inr exceeds \<Rightarrow> exceeds \<or> (case readFileContent env a path of Inl err \<Rightarrow> False | Inr content \<Rightarrow> True))"

lemma file_passes_limits:
  assumes "same_limits a b"
  shows "file_passes env b path = file_passes env a path"
proof -
  have mb: "maxSizeBytes b = maxSizeBytes a" "sa_maxFileSizeMB b = sa_maxFileSizeMB a"
    using assms by (simp_all add: same_limits_def maxSizeBytes_def)
  show ?thesis unfolding file_passes_def exceedsMaxFileSize_def readFileContent_def mb by (rule refl)
qed

lemma ScanFile_result:
  "ScanFile env a path (Some d) = Return (a', r) \<Longrightarrow> (\<exists>fs. r = Inr fs) \<longleftrightarrow> file_passes env a path"
  by (auto simp: ScanFile_def file_passes_def split: sum.splits bool.splits)

definition listed_products :: "'d scan_env \<Rightarrow> 'd scanner \<Rightarrow> string \<Rightarrow> (string, Product) gomap \<Rightarrow> (string \<times> Product) list" where
  "listed_products env a workingDir products =
     filter (\<lambda>(path, product). \<not> shouldSkipProduct path product \<and> file_passes env a (getAbsolutePath path workingDir)) products"

lemma scan_product_subjects:
  assumes "scan_product env wd d (path, product) a = Return b"
  shows "same_limits a b \<and> sa_subjects b =
    (if \<not> shouldSkipProduct path product \<and> file_passes env a (getAbsolutePath path wd)
     then AList.update (''product:'' @ path) (pr_Digest product) (sa_subjects a) else sa_subjects a)"
proof (cases "shouldSkipProduct path product")
  case False
  from assms False obtain s where s: "ScanFile env a (getAbsolutePath path wd) (Some d) = Return s"
    and sb: "(case s of (c, r) \<Rightarrow> case r of Inl err \<Rightarrow> Return c
       | Inr findings \<Rightarrow> Return (c\<lparr>sa_Findings := sa_Findings c @ setProductLocation findings path,
           sa_subjects := AList.update (''product:'' @ path) (pr_Digest product) (sa_subjects c)\<rparr>)) = Return b"
    unfolding scan_product_def prod.case bindO_Return_iff by (simp only: if_False bindO_Return_iff) blast
  obtain c r where cr: "s = (c, r)" by (cases s)
  from s sb have c: "ScanFile env a (getAbsolutePath path wd) (Some d) = Return (c, r)"
    and b: "(case r of Inl err \<Rightarrow> Return c
       | Inr findings \<Rightarrow> Return (c\<lparr>sa_Findings := sa_Findings c @ setProductLocation findings path,
           sa_subjects := AList.update (''product:'' @ path) (pr_Digest product) (sa_subjects c)\<rparr>)) = Return b"
    unfolding cr prod.case .
  from c have "same_limits a c" "sa_subjects c = sa_subjects a"
    using ScanFile_config same_config_limits by metis+
  moreover have "(\<exists>fs. r = Inr fs) \<longleftrightarrow> file_passes env a (getAbsolutePath path wd)"
    using c by (rule ScanFile_result)
  ultimately show ?thesis using b False by (cases r) (auto simp: same_limits_def)
qed (use assms in \<open>auto simp: scan_product_def same_limits_def\<close>)

lemma scan_products_subjects:
  "foldO (scan_product env wd d) products a = Return b \<Longrightarrow>
    same_limits a b \<and> sa_subjects b =
      fold (\<lambda>(path, product). AList.update (''product:'' @ path) (pr_Digest product))
        (listed_products env a wd products) (sa_subjects a)"
proof (induction products arbitrary: a)
  case Nil
  then show ?case by (simp add: listed_products_def same_limits_def)
next
  case (Cons pp products)
  obtain path product where pp: "pp = (path, product)" by (cases pp)
  from Cons.prems obtain c where c: "scan_product env wd d (path, product) a = Return c"
    and r: "foldO (scan_product env wd d) products c = Return b" by (auto simp: pp)
  note first = scan_product_subjects [OF c]
  then have "listed_products env c wd products = listed_products env a wd products"
    by (auto simp: listed_products_def file_passes_limits)
  with Cons.IH [OF r] first show ?case by (auto simp: listed_products_def pp same_limits_def)
qed

section \<open>Reporting encoded values\<close>

lemma getSensitiveEnvVarsList_keys:
  assumes "getSensitiveEnvVarsList env a = Return (b, vars)"
  shows "fst ` set DefaultSensitiveEnvList \<subseteq> fst ` set vars"
proof -
  have grows: "fst ` set m \<subseteq> fst ` set (fold (\<lambda>v m. let key = fst (splitVariable v)
      in if map_of captured key = None then AList.update key () m else m) vs m)"
    for vs and captured :: "(string, string) gomap" and m :: "string goset"
  proof (induction vs arbitrary: m)
    case (Cons v vs)
    let ?k = "fst (splitVariable v)"
    have "fst ` set m \<subseteq> fst ` set (if map_of captured ?k = None then AList.update ?k () m else m)"
      by (auto simp: dom_update)
    also note Cons.IH
    finally show ?case by (simp add: Let_def)
  qed simp
  show ?thesis
  proof (cases "sa_ctx a")
    case (Some ctx)
    with assms obtain c captured where
      "Capture_Capture (sv_glob env) (ac_environmentCapturer ctx) (sv_environ env) = Return (c, captured)"
      by (auto simp: getSensitiveEnvVarsList_def)
    with assms Some have "vars = fold (\<lambda>v m. let key = fst (splitVariable v)
         in if map_of captured key = None then AList.update key () m else m) (sv_environ env) DefaultSensitiveEnvList"
      by (simp add: getSensitiveEnvVarsList_def)
    then show ?thesis using grows by (simp only:)
  qed (use assms in \<open>simp add: getSensitiveEnvVarsList_def\<close>)
qed

lemma getSensitiveEnvVarsList_digests:
  "getSensitiveEnvVarsList env a = Return (b, vars) \<Longrightarrow> calculateSecretDigests env b s = calculateSecretDigests env a s"
  by (auto simp: getSensitiveEnvVarsList_def calculateSecretDigests_def split: option.splits)

lemma sensitive_mono:
  assumes "isEnvironmentVariableSensitive env k m" and "fst ` set m \<subseteq> fst ` set m'"
  shows "isEnvironmentVariableSensitive env k m'"
proof -
  have "set (map fst m) \<subseteq> set (map fst m')" using assms(2) by simp
  moreover have "map_of m' k \<noteq> None" if "map_of m k \<noteq> None"
    using that assms(2) by (auto simp: map_of_eq_None_iff)
  ultimately show ?thesis using assms(1) unfolding isEnvironmentVariableSensitive_def list_ex_iff by blast
qed

lemma distinct_scanned:
  "distinct (map (fst \<circ> splitVariable) es) \<Longrightarrow> distinct (map fst (List.map_filter (scanned_variable env vars) es))"
proof (induction es)
  case (Cons e es)
  have split: "x = splitVariable e" if "scanned_variable env vars e = Some x" for e x
    using that by (auto simp: scanned_variable_def split: prod.splits if_splits)
  have "fst (splitVariable e) \<notin> fst ` set (List.map_filter (scanned_variable env vars) es)"
  proof
    assume "fst (splitVariable e) \<in> fst ` set (List.map_filter (scanned_variable env vars) es)"
    then obtain x where x: "x \<in> set (List.map_filter (scanned_variable env vars) es)" "fst x = fst (splitVariable e)" by auto
    then obtain e' where "e' \<in> set es" "x = splitVariable e'" using mem_map_filter split by metis
    with x Cons.prems show False by (auto simp: image_iff)
  qed
  with Cons split [of e] show ?case
    by (cases "scanned_variable env vars e") (simp_all add: map_filter_simps)
qed (simp add: map_filter_simps)

lemma dec_no_colon: "CHR '':'' \<notin> set (dec n)"
proof (induction n rule: dec.induct)
  case (1 n)
  have "digit_char i \<noteq> CHR '':''" if "i < 10" for i
  proof
    assume "digit_char i = CHR '':''"
    then have "(of_char (digit_char i) :: nat) = of_char (CHR '':'')" by simp
    with that show False by (simp add: digit_char_def)
  qed
  then have "digit_char (n mod 10) \<noteq> CHR '':''" "n < 10 \<Longrightarrow> digit_char n \<noteq> CHR '':''" by simp_all
  with 1 show ?case by (subst dec.simps) auto
qed

lemma decoded_key_inj:
  assumes "decoded_key src l k ''base64'' s = decoded_key src l' k' ''base64'' s'"
    and "s \<in> {[], ''-partial''}" "s' \<in> {[], ''-partial''}"
  shows "k = k'"
proof -
  have sep: "takeWhile (\<lambda>c. c \<noteq> CHR '':'') (dec n @ CHR '':'' # r) = dec n" for n r
    using dec_no_colon by (simp add: takeWhile_append)
  have eq: "dec l @ CHR '':'' # k @ '':base64'' @ s = dec l' @ CHR '':'' # k' @ '':base64'' @ s'"
    using assms(1) by (simp add: decoded_key_def)
  then have "dec l = dec l'" using sep by metis
  with eq have tail: "k @ '':base64'' @ s = k' @ '':base64'' @ s'" by simp
  then have "last ('':base64'' @ s) = last ('':base64'' @ s')"
    by (metis append_is_Nil_conv last_appendR list.distinct(1))
  then have "s = s'" using assms(2,3) by auto
  with tail show ?thesis by simp
qed

lemma match_value_self: "match_value v v = Some (v, False)"
proof -
  have "contains v v" by (metis append.left_neutral append.right_neutral contains_iff)
  then show ?thesis by (simp add: match_value_def Let_def split: option.split)
qed

text \<open>The check of a variable only adds, and the keys it adds name the variable.\<close>

lemma check_variable_cases:
  assumes "check_variable env a decoded src enc (k, v) (p, fs) = (p', fs')"
  obtains "p' = p" "fs' = fs"
  | l s f where "s \<in> {[], ''-partial''}" "p' = AList.update (decoded_key src l k enc s) () p" "fs' = fs @ [f]"
proof (cases "match_value decoded v")
  case (Some m)
  obtain x partial where m: "m = (x, partial)" by (cases m)
  obtain l t where t: "value_position decoded x = (l, t)" by (cases "value_position decoded x")
  let ?s = "if partial then ''-partial'' else []"
  show ?thesis
  proof (cases "calculateSecretDigests env a x")
    case (Inr dg)
    show ?thesis
    proof (cases "map_of p (decoded_key src l k enc ?s) = None")
      case True
      have "p' = AList.update (decoded_key src l k enc ?s) () p" "\<exists>f. fs' = fs @ [f]"
        using assms Some m t Inr True by (simp_all add: check_variable_def Let_def del: append_Cons) blast
      then show ?thesis using that(2) [of ?s l] by auto
    qed (use assms Some m t Inr that(1) in \<open>simp add: check_variable_def Let_def\<close>)
  qed (use assms Some m that(1) in \<open>simp add: check_variable_def\<close>)
qed (use assms that(1) in \<open>simp add: check_variable_def\<close>)

definition variable_keys :: "string \<Rightarrow> string \<Rightarrow> string set \<Rightarrow> string set" where
  "variable_keys src enc names = {decoded_key src l k enc s |l k s. k \<in> names \<and> s \<in> {[], ''-partial''}}"

lemma checks_add:
  "fold (check_variable env a decoded src enc) xs (p, fs) = (p', fs') \<Longrightarrow>
    set fs \<subseteq> set fs' \<and> fst ` set p' \<subseteq> fst ` set p \<union> variable_keys src enc (fst ` set xs)"
proof (induction xs arbitrary: p fs)
  case (Cons x xs)
  obtain k v q gs where x: "x = (k, v)" and c: "check_variable env a decoded src enc (k, v) (p, fs) = (q, gs)"
    by (metis prod.exhaust)
  from Cons.prems have "fold (check_variable env a decoded src enc) xs (q, gs) = (p', fs')" by (simp add: x c)
  note later = Cons.IH [OF this]
  have mono: "variable_keys src enc (fst ` set xs) \<subseteq> variable_keys src enc (fst ` set (x # xs))"
    by (auto simp: variable_keys_def)
  from c have step: "set fs \<subseteq> set gs \<and> fst ` set q \<subseteq> fst ` set p \<union> variable_keys src enc (fst ` set (x # xs))"
    by (cases rule: check_variable_cases) (auto simp: dom_update variable_keys_def x)
  have "fst ` set p' \<subseteq> (fst ` set p \<union> variable_keys src enc (fst ` set (x # xs))) \<union> variable_keys src enc (fst ` set (x # xs))"
    by (rule order_trans [OF conjunct2 [OF later] Un_mono [OF conjunct2 [OF step] mono]])
  then show ?case using order_trans [OF conjunct1 [OF step] conjunct1 [OF later]] by (simp add: Un_assoc)
qed simp

text \<open>A variable whose value is the decoded content is reported.\<close>

lemma check_reports:
  assumes "(k, v) \<in> set xs" and "distinct (map fst xs)" and "calculateSecretDigests env a v = Inr dg"
    and "fold (check_variable env a v src ''base64'') xs (p0, []) = (p', fs')"
    and unseen: "\<And>l. decoded_key src l k ''base64'' [] \<notin> fst ` set p0"
  shows "\<exists>f \<in> set fs'. fi_RuleID f = ''witness-encoded-env-value-'' @ dashes k \<and> fi_Secret f = dg \<and>
    fi_EncodingPath f = [''base64''] \<and> fi_Location f = src"
proof -
  obtain pre post where xs: "xs = pre @ (k, v) # post" using assms(1) by (meson split_list)
  obtain p fs where pre: "fold (check_variable env a v src ''base64'') pre (p0, []) = (p, fs)" by fastforce
  obtain l t where t: "value_position v v = (l, t)" by fastforce
  have "fst ` set p \<subseteq> fst ` set p0 \<union> variable_keys src ''base64'' (fst ` set pre)" using checks_add [OF pre] by simp
  moreover have "k \<notin> fst ` set pre" using assms(2) by (force simp: xs)
  moreover have "decoded_key src l k ''base64'' [] \<notin> variable_keys src ''base64'' names" if "k \<notin> names" for names
    using that decoded_key_inj [of src l k "[]"] unfolding variable_keys_def by blast
  ultimately have fresh: "map_of p (decoded_key src l k ''base64'' []) = None"
    using unseen [of l] by (auto simp: map_of_eq_None_iff)
  define f where "f = \<lparr>fi_RuleID = ''witness-encoded-env-value-'' @ dashes k,
    fi_Description = ''Encoded sensitive environment variable value detected: '' @ k, fi_Location = src,
    fi_Line = int l, fi_Secret = dg, fi_Match = t, fi_Entropy = 0, fi_EncodingPath = [''base64''],
    fi_LocationApproximate = True\<rparr>"
  have "check_variable env a v src ''base64'' (k, v) (p, fs) = (AList.update (decoded_key src l k ''base64'' []) () p, fs @ [f])"
    using fresh t assms(3) by (simp add: check_variable_def match_value_self Let_def f_def)
  with assms(4) pre have "fold (check_variable env a v src ''base64'') post
      (AList.update (decoded_key src l k ''base64'' []) () p, fs @ [f]) = (p', fs')" by (simp add: xs)
  from checks_add [OF this] have "f \<in> set fs'" by simp
  then show ?thesis by (intro bexI [of _ f]) (simp_all add: f_def)
qed

lemma scan_candidates_add:
  assumes "foldO (scan_candidate env src depth next) cands (a, p, fs) = Return (a', p', fs')"
  shows "set fs \<subseteq> set fs'"
proof -
  have step: "set gs \<subseteq> set gs'"
    if "scan_candidate env src depth next sc (x, q, gs) = Return (x', q', gs')" for sc x q gs x' q' gs'
  proof -
    obtain s c where "sc = (s, c)" by (cases sc)
    from that [unfolded this] show ?thesis by (cases rule: scan_candidate_cases) auto
  qed
  have "(\<lambda>(_, _, gs). set fs \<subseteq> set gs) (a', p', fs')"
  proof (rule foldO_invariant [OF assms])
    fix sc s t
    assume s: "case s of (_, _, gs) \<Rightarrow> set fs \<subseteq> set gs" and t: "scan_candidate env src depth next sc s = Return t"
    obtain x q gs x' q' gs' where st: "s = (x, q, gs)" "t = (x', q', gs')" by (metis prod.exhaust)
    from step [OF t [unfolded st]] s show "case t of (_, _, gs) \<Rightarrow> set fs \<subseteq> set gs" by (auto simp: st)
  qed simp
  then show ?thesis by simp
qed

lemma EncodeToString_chars:
  assumes "c \<in> set (EncodeToString v)"
  shows "is_base64 c \<or> c = CHR ''=''"
proof -
  obtain body k where "EncodeToString v = body @ replicate k (CHR ''='')" "\<forall>c \<in> set body. is_base64 c"
    using EncodeToString_shape by metis
  with assms show ?thesis by (auto split: if_splits)
qed

text \<open>An encoding inside a text: when no candidate is before it and no character that could belong to it touches it, it is
  the first candidate.\<close>

lemma run_of_append: "s \<noteq> [] \<Longrightarrow> \<not> P (last s) \<Longrightarrow> run_of P (s @ rest) = run_of P s"
  by (simp add: run_of_def takeWhile_append1 [OF last_in_set])

lemma base64Regex_None: "base64Regex s = None \<longleftrightarrow> run_of is_base64 s < 15 \<and> run_of is_base64url s < 15"
  by (simp add: base64Regex_def padded_run_def)

lemma base64Regex_Suc: "base64Regex s = Some n \<Longrightarrow> 0 < n"
  by (auto simp: base64Regex_def padded_run_def split: if_splits)

lemma find_all_none:
  "find_all base64Regex pre = [] \<Longrightarrow> pre = [] \<or> \<not> is_base64 (last pre) \<and> \<not> is_base64url (last pre) \<Longrightarrow>
     find_all base64Regex (pre @ rest) = find_all base64Regex rest"
proof (induction pre)
  case (Cons c pre)
  have none: "base64Regex (c # pre) = None"
  proof (cases "base64Regex (c # pre)")
    case (Some n)
    then obtain k where "n = Suc k" using base64Regex_Suc [OF Some] gr0_implies_Suc by blast
    with Some Cons.prems(1) show ?thesis by simp
  qed
  then have "base64Regex ((c # pre) @ rest) = None"
    using Cons.prems(2) run_of_append [of "c # pre" is_base64 rest] run_of_append [of "c # pre" is_base64url rest]
    unfolding base64Regex_None by simp
  then have "find_all base64Regex ((c # pre) @ rest) = find_all base64Regex (pre @ rest)" by simp
  moreover have "find_all base64Regex (pre @ rest) = find_all base64Regex rest"
    by (rule Cons.IH) (use Cons.prems none in \<open>auto split: if_splits\<close>)
  ultimately show ?case by simp
qed simp

lemma EncodeToString_first:
  assumes "12 \<le> length v" and "post = [] \<or> \<not> is_base64 (hd post) \<and> hd post \<noteq> CHR ''=''"
  shows "find_all base64Regex (EncodeToString v @ post) = EncodeToString v # find_all base64Regex post"
proof -
  obtain body k where enc: "EncodeToString v = body @ replicate k (CHR ''='')" and k: "k \<le> 2"
    and len: "4 * length v \<le> 3 * length body" and body: "\<forall>c \<in> set body. is_base64 c \<and> c \<noteq> CHR ''=''"
    using EncodeToString_shape by metis
  have eq: "\<not> is_base64 (CHR ''='')" by (simp add: is_base64_def is_alnum_def in_range_def)
  have stop: "takeWhile is_base64 (replicate k (CHR ''='') @ post) = []" "takeWhile (\<lambda>c. c = CHR ''='') post = []"
    using assms(2) eq by (cases k; cases post; simp)+
  have "run_of is_base64 (body @ replicate k (CHR ''='') @ post) = length body"
    using body stop(1) by (simp add: run_of_def takeWhile_append2)
  moreover have "takeWhile (\<lambda>c. c = CHR ''='') (replicate k (CHR ''='') @ post) = replicate k (CHR ''='')"
    using stop(2) by (subst takeWhile_append2) auto
  then have "run_of (\<lambda>c. c = CHR ''='') (replicate k (CHR ''='') @ post) = k" by (simp add: run_of_def)
  ultimately have found: "base64Regex (EncodeToString v @ post) = Some (length (EncodeToString v))"
    using assms(1) len k by (simp add: enc base64Regex_def padded_run_def)
  have "EncodeToString v \<noteq> []" using assms(1) len by (auto simp: enc)
  then obtain c cs where e: "EncodeToString v = c # cs" by (cases "EncodeToString v") auto
  with found show ?thesis by simp
qed

lemma base64_candidates:
  assumes "12 \<le> length v" and "findPotentialBase64Strings pre = []"
    and "pre = [] \<or> \<not> is_base64 (last pre) \<and> \<not> is_base64url (last pre)" and "post = [] \<or> \<not> is_base64 (hd post) \<and> hd post \<noteq> CHR ''=''"
  obtains sc rest where "candidates_of (pre @ EncodeToString v @ post) = (sc, EncodeToString v) # rest" "es_Name sc = ''base64''"
    "es_Decoder sc = decodeBase64String"
  by (rule that [OF _ encodingScanner.select_convs(1) encodingScanner.select_convs(3)])
    (use find_all_none [OF assms(2) [unfolded findPotentialBase64Strings_def] assms(3)] EncodeToString_first [OF assms(1,4)]
      in \<open>simp add: candidates_of_def defaultEncodingScanners_def findPotentialBase64Strings_def\<close>)

text \<open>The keys of what the earlier searches of a layer processed.\<close>

lemma gitleaks_keys:
  "fst ` set (fst (processGitleaksFindings env a src approx gfs p)) \<subseteq> fst ` set p \<union> (\<lambda>gf. src @ '':'' @ gf_Secret gf) ` set gfs"
proof (induction gfs arbitrary: p)
  case (Cons gf gfs)
  let ?p = "AList.update (src @ '':'' @ gf_Secret gf) () p"
  have "fst (processGitleaksFindings env a src approx (gf # gfs) p) \<in>
      {fst (processGitleaksFindings env a src approx gfs p), fst (processGitleaksFindings env a src approx gfs ?p)}"
    by (simp add: Let_def split: sum.splits prod.splits)
  then consider "fst (processGitleaksFindings env a src approx (gf # gfs) p) = fst (processGitleaksFindings env a src approx gfs p)"
    | "fst (processGitleaksFindings env a src approx (gf # gfs) p) = fst (processGitleaksFindings env a src approx gfs ?p)" by blast
  then show ?case
  proof cases
    case 1
    show ?thesis unfolding 1 using Cons.IH [of p] by auto
  next
    case 2
    have "fst ` set ?p = insert (src @ '':'' @ gf_Secret gf) (fst ` set p)" by (simp add: dom_update)
    then show ?thesis unfolding 2 using Cons.IH [of ?p] by auto
  qed
qed simp

lemma env_finding_keys:
  "fst ` set (fst (fold (add_env_finding env src) fs s)) \<subseteq>
     fst ` set (fst s) \<union> (\<lambda>f. src @ '':'' @ itoa (fi_Line f) @ '':'' @ sv_sprint env (fi_Secret f)) ` set fs"
proof (induction fs arbitrary: s)
  case (Cons f fs)
  have "fst ` set (fst (add_env_finding env src f s)) \<subseteq>
      insert (src @ '':'' @ itoa (fi_Line f) @ '':'' @ sv_sprint env (fi_Secret f)) (fst ` set (fst s))"
    by (cases s) (auto simp: add_env_finding_def Let_def dom_update)
  with Cons.IH [of "add_env_finding env src f s"] show ?case by simp blast
qed simp

text \<open>A rendered number has no colon, so a key ends as its parts do.\<close>

lemma itoa_no_colon: "CHR '':'' \<notin> set (itoa i)"
  using dec_no_colon by (simp add: itoa_def)

lemma colon_parts:
  assumes "x @ CHR '':'' # r = y @ CHR '':'' # t" and "CHR '':'' \<notin> set x" and "CHR '':'' \<notin> set y"
  shows "r = t"
proof -
  have "takeWhile (\<lambda>c. c \<noteq> CHR '':'') (x @ CHR '':'' # r) = x" "takeWhile (\<lambda>c. c \<noteq> CHR '':'') (y @ CHR '':'' # t) = y"
    using assms(2,3) by (auto simp: takeWhile_append)
  then have "x = y" by (simp add: assms(1))
  with assms(1) show ?thesis by simp
qed

lemma unprocessed_key:
  assumes "\<forall>gf \<in> set gfs. \<forall>l. gf_Secret gf \<noteq> dec l @ '':'' @ k @ '':base64''" and "\<forall>ds. sv_sprint env ds \<noteq> k @ '':base64''"
    and "fst ` set p \<subseteq> (\<lambda>gf. src @ '':'' @ gf_Secret gf) ` set gfs \<union>
      (\<lambda>f. src @ '':'' @ itoa (fi_Line f) @ '':'' @ sv_sprint env (fi_Secret f)) ` set fs"
  shows "decoded_key src l k ''base64'' [] \<notin> fst ` set p"
proof
  assume "decoded_key src l k ''base64'' [] \<in> fst ` set p"
  from subsetD [OF assms(3) this] show False
  proof (elim UnE imageE)
    fix gf
    assume "gf \<in> set gfs" and "decoded_key src l k ''base64'' [] = src @ '':'' @ gf_Secret gf"
    then have "gf_Secret gf = dec l @ '':'' @ k @ '':base64''" unfolding decoded_key_def by simp
    moreover from assms(1) [rule_format, OF \<open>gf \<in> set gfs\<close>, of l] have "gf_Secret gf \<noteq> dec l @ '':'' @ k @ '':base64''" .
    ultimately show False by (rule notE [rotated])
  next
    fix f
    assume "decoded_key src l k ''base64'' [] = src @ '':'' @ itoa (fi_Line f) @ '':'' @ sv_sprint env (fi_Secret f)"
    then have "dec l @ CHR '':'' # (k @ '':base64'') = itoa (fi_Line f) @ CHR '':'' # sv_sprint env (fi_Secret f)"
      unfolding decoded_key_def by simp
    from colon_parts [OF this dec_no_colon itoa_no_colon] have "k @ '':base64'' = sv_sprint env (fi_Secret f)" .
    with assms(2) [rule_format, of "fi_Secret f"] show False by (rule notE [OF _ sym])
  qed
qed

section \<open>Returning\<close>

text \<open>The patterns that the capturer compiles are globs.\<close>

definition capturer_ok :: "'d scan_env \<Rightarrow> 'd scanner \<Rightarrow> bool" where
  "capturer_ok env a \<longleftrightarrow>
     (\<forall>ctx k. sa_ctx a = Some ctx \<longrightarrow> k \<in> sensitive_keys (ac_environmentCapturer ctx) \<longrightarrow> CHR ''*'' \<in> set k \<longrightarrow>
        (\<exists>m. sv_glob env k = Inr m))"

lemma capturer_ok_ctx: "sa_ctx b = sa_ctx a \<Longrightarrow> capturer_ok env b = capturer_ok env a"
  by (simp add: capturer_ok_def)

lemma getSensitiveEnvVarsList_returns:
  assumes "capturer_ok env a"
  shows "\<exists>b vars. getSensitiveEnvVarsList env a = Return (b, vars) \<and> capturer_ok env b"
proof (cases "sa_ctx a")
  case (Some ctx)
  let ?c = "ac_environmentCapturer ctx"
  have "\<forall>k \<in> sensitive_keys ?c. CHR ''*'' \<in> set k \<longrightarrow> (\<exists>m. sv_glob env k = Inr m)"
    using assms Some by (simp add: capturer_ok_def)
  from Capture_total [OF this] obtain c' vs where c': "Capture_Capture (sv_glob env) ?c (sv_environ env) = Return (c', vs)" by blast
  then have "sensitive_keys c' = sensitive_keys ?c" using Capture_result by blast
  with assms Some c' show ?thesis by (simp add: getSensitiveEnvVarsList_def capturer_ok_def)
qed (use assms in \<open>simp add: getSensitiveEnvVarsList_def capturer_ok_def\<close>)

lemma scan_layers_returns:
  "capturer_ok env a \<Longrightarrow> \<exists>a' p' fs. scan_layers n env d src content a p = Return (a', p', fs) \<and> capturer_ok env a'"
proof (induction n arbitrary: content a p)
  case (Suc n)
  let ?depth = "maxScanRecursionDepth - n"
  obtain layer where layer: "processGitleaksFindings env a src (?depth > 0) (DetectBytes d content) p = layer" by simp
  have "\<exists>b l. (if ?depth = 0 then env_layer env src content (a, layer) else Return (a, layer)) = Return (b, l) \<and> capturer_ok env b"
    using getSensitiveEnvVarsList_returns [OF Suc.prems] Suc.prems by (cases layer) (auto simp: env_layer_def)
  then obtain b l where b: "(if ?depth = 0 then env_layer env src content (a, layer) else Return (a, layer)) = Return (b, l)"
    "capturer_ok env b" by blast
  have "\<exists>t. scan_candidate env src ?depth (scan_layers n env d src) x s = Return t \<and> capturer_ok env (fst t)"
    if "capturer_ok env (fst s)" for x s
  proof -
    obtain sc c where x: "x = (sc, c)" by (cases x)
    obtain y q gs where s: "s = (y, q, gs)" by (metis prod.exhaust)
    with that obtain z vars where z: "getSensitiveEnvVarsList env y = Return (z, vars)" "capturer_ok env z"
      using getSensitiveEnvVarsList_returns by (metis fst_conv)
    show ?thesis
    proof (cases "es_Decoder sc c")
      case (Inr decoded)
      obtain r hs where chk:
        "checkDecodedContentForSensitiveValues env z (trim_space decoded) src (es_Name sc) vars q = (r, hs)" by fastforce
      from Suc.IH [OF z(2)] obtain w u ks where
        "scan_layers n env d src (trim_space decoded) z r = Return (w, u, ks)" "capturer_ok env w" by blast
      with Inr x s z chk that show ?thesis by (simp add: scan_candidate_def Let_def)
    qed (use x s that in \<open>simp add: scan_candidate_def\<close>)
  qed
  then have "\<exists>t. foldO (scan_candidate env src ?depth (scan_layers n env d src)) (candidates_of content) (b, l) = Return t \<and>
      capturer_ok env (fst t)" using b(2) by (intro foldO_total_invariant [where P = "\<lambda>s. capturer_ok env (fst s)"]) simp_all
  then show ?case using b Suc.prems unfolding scan_layers.simps Let_def layer
    by (cases "isFileContentAllowListed env a content"; cases l) (auto split: if_splits)
qed simp

lemma scanBytes_returns:
  "capturer_ok env a \<Longrightarrow> \<exists>a' p' fs. scanBytes env a content src d p depth = Return (a', p', fs) \<and> capturer_ok env a'"
  unfolding scanBytes_def by (rule scan_layers_returns)

lemma scan_parts_returns:
  "capturer_ok env (fst s) \<Longrightarrow> \<exists>t. foldO (scan_part env d) parts s = Return t \<and> capturer_ok env (fst t)"
proof (rule foldO_total_invariant)
  fix x :: "string \<times> bytes" and s :: "'a scanner \<times> Finding list"
  assume ok: "capturer_ok env (fst s)"
  obtain src content a fs where xs: "x = (src, content)" "s = (a, fs)" by (metis prod.exhaust)
  with scanBytes_returns ok obtain b p gs where "scanBytes env a content src d [] 0 = Return (b, p, gs)" "capturer_ok env b"
    by (metis fst_conv)
  then show "\<exists>t. scan_part env d x s = Return t \<and> capturer_ok env (fst t)" by (simp add: scan_part_def xs)
qed

lemma scanSingleAttestor_returns:
  assumes "capturer_ok env a"
  shows "\<exists>b r. scanSingleAttestor env a att d = Return (b, r) \<and> capturer_ok env b"
proof (cases "sv_as_commandrun env (att_state att)")
  case (Some rc)
  let ?parts = "(if cr_Stdout rc \<noteq> [] then [(''attestation:commandrun:stdout'', cr_Stdout rc)] else []) @
    (if cr_Stderr rc \<noteq> [] then [(''attestation:commandrun:stderr'', cr_Stderr rc)] else []) @
    (case sv_marshalCommand env rc of
       Inl err \<Rightarrow> [] | Inr cmdRunJSON \<Rightarrow> [(''attestation:commandrun:json'', cmdRunJSON)])"
  obtain t where "foldO (scan_part env d) ?parts (a, []) = Return t" "capturer_ok env (fst t)"
    using scan_parts_returns [of env "(a, [])" d ?parts] assms by auto
  then show ?thesis using Some by (cases t) (simp add: scanSingleAttestor_def scanCommandRunAttestor_def)
next
  case None
  show ?thesis
  proof (cases "sv_marshal env att")
    case (Inr json)
    from scanBytes_returns [OF assms] obtain b p fs where
      "scanBytes env a json (''attestation_'' @ att_Name att @ ''.json'') d [] 0 = Return (b, p, fs)" "capturer_ok env b" by blast
    then show ?thesis using None Inr by (simp add: scanSingleAttestor_def del: append_Cons)
  qed (use None assms in \<open>simp add: scanSingleAttestor_def\<close>)
qed

lemma scanAttestations_returns:
  assumes "capturer_ok env a"
  shows "\<exists>b. scanAttestations env ctx d a = Return b \<and> capturer_ok env b"
  unfolding scanAttestations_def using assms
proof (rule foldO_total_invariant)
  fix c :: "'a CompletedAttestor" and x :: "'a scanner" assume ok: "capturer_ok env x"
  obtain y r where y: "scanSingleAttestor env x (cpl_Attestor c) d = Return (y, r)" "capturer_ok env y"
    using scanSingleAttestor_returns [OF ok] by blast
  show "\<exists>z. scan_completed env d c x = Return z \<and> capturer_ok env z"
    using y ok by (cases r) (simp_all add: scan_completed_def capturer_ok_def)
qed

lemma ScanFile_returns:
  assumes "capturer_ok env a"
  shows "\<exists>b r. ScanFile env a path (Some d) = Return (b, r) \<and> capturer_ok env b"
proof (cases "exceedsMaxFileSize env a path")
  case (Inr exceeds)
  show ?thesis
  proof (cases "exceeds \<or> (\<exists>err. readFileContent env a path = Inl err)")
    case False
    then obtain content where "readFileContent env a path = Inr content" by (cases "readFileContent env a path") auto
    moreover obtain b p fs where "scanBytes env a content path d [] 0 = Return (b, p, fs)" "capturer_ok env b"
      using scanBytes_returns [OF assms] by blast
    ultimately show ?thesis using Inr False by (simp add: ScanFile_def)
  qed (use Inr assms in \<open>auto simp: ScanFile_def split: bool.splits\<close>)
qed (use assms in \<open>simp add: ScanFile_def\<close>)

lemma scanProducts_returns:
  assumes "capturer_ok env a"
  shows "\<exists>b. scanProducts env ctx d a = Return b \<and> capturer_ok env b"
  unfolding scanProducts_def using assms
proof (rule foldO_total_invariant)
  fix pp :: "string \<times> Product" and x :: "'a scanner" assume ok: "capturer_ok env x"
  obtain path product where pp: "pp = (path, product)" by (cases pp)
  obtain y r where y: "ScanFile env x (getAbsolutePath path (ac_workingDir ctx)) (Some d) = Return (y, r)" "capturer_ok env y"
    using ScanFile_returns [OF ok] by blast
  show "\<exists>z. scan_product env (ac_workingDir ctx) d pp x = Return z \<and> capturer_ok env z"
    using y ok by (cases r) (simp_all add: scan_product_def pp capturer_ok_def)
qed

lemma listed_products_map:
  assumes "gomap_ok ps"
  shows "map_of (fold (\<lambda>(path, product). AList.update (''product:'' @ path) (pr_Digest product)) (listed_products env a wd ps) []) key = Some dg
    \<longleftrightarrow> (\<exists>path product. map_of ps path = Some product \<and> key = ''product:'' @ path \<and> dg = pr_Digest product \<and>
          \<not> shouldSkipProduct path product \<and> file_passes env a (getAbsolutePath path wd))"
proof -
  let ?m = "map (\<lambda>(path, product). (''product:'' @ path, pr_Digest product)) (listed_products env a wd ps)"
  have fold: "fold (\<lambda>(path, product). AList.update (''product:'' @ path) (pr_Digest product)) xs m =
      put_all (map (\<lambda>(path, product). (''product:'' @ path, pr_Digest product)) xs) m" for xs :: "(string \<times> Product) list" and m
    by (induction xs arbitrary: m) auto
  have "distinct (map fst (listed_products env a wd ps))"
    using assms distinct_map_filter by (auto simp: listed_products_def gomap_ok_def)
  then have "distinct (map (\<lambda>path. ''product:'' @ path) (map fst (listed_products env a wd ps)))"
    by (simp add: distinct_map inj_on_def)
  then have ok: "gomap_ok ?m" by (simp add: gomap_ok_def comp_def case_prod_beta)
  have put: "map_of (put_all ?m []) = map_of ?m" using map_of_put_all_ok [OF ok, of "[]"] by simp
  show ?thesis unfolding fold put gomap_mem_iff [OF ok, symmetric] using assms
    by (auto simp: listed_products_def gomap_mem_iff image_iff simp del: append_Cons)
qed

lemma ctx_Products_ok: "gomap_ok (ctx_Products ctx)"
  by (simp add: ctx_Products_def)

text \<open>A sample: one token in the environment, and a regular expression that matches itself.\<close>

definition sample_regex :: "string \<Rightarrow> regex" where
  "sample_regex p =
     \<lparr>rx_MatchString = \<lambda>s. contains s p,
      rx_FindAllStringIndex = \<lambda>s. case string_index s p of None \<Rightarrow> [] | Some i \<Rightarrow> [(i, i + length p)]\<rparr>"

definition sample_detector :: "gl_finding list \<Rightarrow> detector" where
  "sample_detector gfs =
     \<lparr>dt_settings = \<lparr>dt_MaxTargetMegaBytes = 0, dt_Allowlists = []\<rparr>, dt_DetectBytes = \<lambda>_ _. gfs\<rparr>"

definition sample_scan_env :: "unit scan_env" where
  "sample_scan_env =
     \<lparr>sv_lib = sample_lib, sv_glob = \<lambda>p. Inr (\<lambda>s. s = ''GITHUB_TOKEN''), sv_regex = \<lambda>p. Inr (sample_regex p),
      sv_QuoteMeta = \<lambda>s. s, sv_environ = [''GITHUB_TOKEN=ghp_0123456789''], sv_sprint = \<lambda>d. [],
      sv_Stat = \<lambda>p. if p = ''/w/big'' then Inr 20000000 else Inr 3, sv_Open = \<lambda>p. Inr (Inr ''abc''), sv_MkdirTemp = None,
      sv_defaultDetector = Inr (sample_detector []), sv_ReadInConfig = \<lambda>p. None, sv_IsNotExist = \<lambda>e. False,
      sv_Unmarshal = \<lambda>p. None, sv_Translate = \<lambda>p. Inr (sample_detector []), sv_marshal = \<lambda>a. Inr [],
      sv_marshalCommand = \<lambda>c. Inr [], sv_as_commandrun = \<lambda>u. None\<rparr>"

section \<open>Properties\<close>

text \<open>However deep the encodings in what it scans, a scan goes through at most four of them, and at most
  through as many as it is configured to decode: the encoding path of every finding is no longer, names
  encodings the scanner knows, and is non-empty exactly for the findings whose location is approximate.
  And no finding carries more than 49 characters of its surroundings.\<close>

theorem scan_findings_bounded:
  assumes "scanBytes env a content src d processed 0 = Return (a', processed', findings)" and "f \<in> set findings"
  shows "int (length (fi_EncodingPath f)) \<le> max 0 (min 4 (sa_maxDecodeLayers a)) \<and>
    set (fi_EncodingPath f) \<subseteq> {''base64'', ''hex'', ''url''} \<and>
    (fi_LocationApproximate f \<longleftrightarrow> fi_EncodingPath f \<noteq> []) \<and> length (fi_Match f) \<le> 49"
proof -
  have "good_finding (layer_bound 4 a) False f"
    using scan_layers_good [of 4 env d src content a processed a' processed' findings] assms
    by (simp add: scanBytes_def maxScanRecursionDepth_def)
  then show ?thesis by (auto simp: good_finding_def layer_bound_def encodings_def)
qed

theorem scan_findings_bounded_witness:
  "\<exists>a' p f. scanBytes sample_scan_env (secretscan_New []) ''key: AKIA'' ''f''
       (sample_detector [\<lparr>gf_RuleID = ''AWS'', gf_Description = [], gf_StartLine = 1, gf_Match = ''AKIA'', gf_Secret = ''AKIA'',
         gf_Entropy = 0\<rparr>]) [] 0 = Return (a', p, [f]) \<and>
     fi_EncodingPath f = [] \<and> \<not> fi_LocationApproximate f \<and> length (fi_Match f) \<le> 49"
proof -
  let ?d = "sample_detector [\<lparr>gf_RuleID = ''AWS'', gf_Description = [], gf_StartLine = 1, gf_Match = ''AKIA'',
    gf_Secret = ''AKIA'', gf_Entropy = 0\<rparr>]"
  have "case scanBytes sample_scan_env (secretscan_New []) ''key: AKIA'' ''f'' ?d [] 0 of
      Return (a', p, fs) \<Rightarrow> length fs = 1 \<and> fi_EncodingPath (hd fs) = [] | Panic msg \<Rightarrow> False"
    by code_simp
  then obtain a' p fs where r: "scanBytes sample_scan_env (secretscan_New []) ''key: AKIA'' ''f'' ?d [] 0 = Return (a', p, fs)"
    and fs: "length fs = 1" "fi_EncodingPath (hd fs) = []" by (auto split: outcome.splits prod.splits)
  then obtain f where f: "fs = [f]" by (cases fs) auto
  from scan_findings_bounded [OF r [unfolded f], of f] fs show ?thesis using r f by auto
qed

text \<open>C29. A token that is hidden by base64 is found: when a text has the encoding of the value of an environment variable
  whose name is sensitive, the scan reports a finding for this variable, with the digests of its value. The conditions:
  the value has at least 12 bytes, since the expression for candidates needs 15 characters, and no white space at its
  ends; the text before the encoding has no candidate of its own, and neither neighbour of the encoding could belong to
  it; the content is not allowed as a whole and at least one layer is decoded; and neither the text of a gitleaks finding
  nor the rendering of a digest set is such that the scan takes the finding for one that it reported before.\<close>

theorem base64_value_reported:
  assumes "scanBytes env a (pre @ EncodeToString v @ post) src d [] 0 = Return (a', processed', findings)"
    and pre: "findPotentialBase64Strings pre = []" "pre = [] \<or> \<not> is_base64 (last pre) \<and> \<not> is_base64url (last pre)"
    and post: "post = [] \<or> \<not> is_base64 (hd post) \<and> hd post \<noteq> CHR ''=''"
    and "e \<in> set (sv_environ env)" and "splitVariable e = (k, v)" and long: "12 \<le> length v" and trimmed: "trim_space v = v"
    and "isEnvironmentVariableSensitive env k DefaultSensitiveEnvList"
    and names: "distinct (map (fst \<circ> splitVariable) (sv_environ env))"
    and allow: "\<not> isFileContentAllowListed env a (pre @ EncodeToString v @ post)" and "0 < sa_maxDecodeLayers a"
    and digests: "calculateSecretDigests env a v = Inr dg"
    and gitleaks: "\<forall>gf \<in> set (DetectBytes d (pre @ EncodeToString v @ post)). \<forall>l. gf_Secret gf \<noteq> dec l @ '':'' @ k @ '':base64''"
    and rendering: "\<forall>ds. sv_sprint env ds \<noteq> k @ '':base64''"
  shows "\<exists>f \<in> set findings. fi_RuleID f = ''witness-encoded-env-value-'' @ dashes k \<and> fi_Secret f = dg \<and>
    fi_EncodingPath f = [''base64''] \<and> fi_Location f = src"
proof -
  define content where "content = pre @ EncodeToString v @ post"
  obtain sc rest where cands: "candidates_of content = (sc, EncodeToString v) # rest"
    and name: "es_Name sc = ''base64''" and dec: "es_Decoder sc = decodeBase64String"
    unfolding content_def using base64_candidates [OF long pre post] .
  obtain layer where layer: "scan_layers (Suc (Suc (Suc 0))) env d src = layer" by simp
  have decoded: "es_Decoder sc (EncodeToString v) = Inr v" using dec base64_roundtrip by (simp add: decodeBase64String_def)
  let ?git = "processGitleaksFindings env a src False (DetectBytes d content) []"
  let ?rest = "\<lambda>(a, layer). if 0 < sa_maxDecodeLayers a
      then foldO (scan_candidate env src 0 (scan_layers (Suc (Suc (Suc 0))) env d src)) (candidates_of content) (a, layer)
      else Return (a, layer)"
  have scan: "bindO (env_layer env src content (a, ?git)) ?rest = Return (a', processed', findings)"
    using assms(1) allow unfolding content_def [symmetric]
    by (simp add: scanBytes_def maxScanRecursionDepth_def Let_def numeral_3_eq_3)
  then obtain b vars0 where b: "getSensitiveEnvVarsList env a = Return (b, vars0)"
    by (cases ?git) (auto simp: env_layer_def)
  obtain p0 fs0 where start: "fold (add_env_finding env src) (ScanForEnvVarValues env b content src vars0) ?git = (p0, fs0)" by fastforce
  have foldl: "?rest (b, p0, fs0) = Return (a', processed', findings)"
    using scan b start by (cases ?git) (auto simp: env_layer_def split: if_splits)
  have unseen: "decoded_key src l k ''base64'' [] \<notin> fst ` set p0" for l
  proof (rule unprocessed_key [OF gitleaks [folded content_def] rendering])
    show "fst ` set p0 \<subseteq> (\<lambda>gf. src @ '':'' @ gf_Secret gf) ` set (DetectBytes d content) \<union>
      (\<lambda>f. src @ '':'' @ itoa (fi_Line f) @ '':'' @ sv_sprint env (fi_Secret f)) ` set (ScanForEnvVarValues env b content src vars0)"
      using env_finding_keys [of env src "ScanForEnvVarValues env b content src vars0" ?git]
        gitleaks_keys [of env a src False "DetectBytes d content" "[]"] start by auto
  qed
  have "0 < sa_maxDecodeLayers b" using assms(12) same_config_fields(1) [OF getSensitiveEnvVarsList_config [OF b]] by simp
  with foldl cands obtain s where s: "scan_candidate env src 0 layer (sc, EncodeToString v) (b, p0, fs0) = Return s"
    and rest: "foldO (scan_candidate env src 0 layer) rest s = Return (a', processed', findings)" by (auto simp: layer)
  have "worth_scanning 0 (EncodeToString v) v" using long by (simp add: worth_scanning_def minSensitiveValueLength_def)
  note s' = s [unfolded scan_candidate_def prod.case decoded sum.case Let_def trimmed name]
  with \<open>worth_scanning 0 (EncodeToString v) v\<close> obtain c vars where c: "getSensitiveEnvVarsList env b = Return (c, vars)" by auto
  obtain q envf where chk: "checkDecodedContentForSensitiveValues env c v src ''base64'' vars p0 = (q, envf)" by fastforce
  from s' \<open>worth_scanning 0 (EncodeToString v) v\<close> c chk obtain x y r where t: "s = (x, y, fs0 @ envf @ r)" by auto
  have "isEnvironmentVariableSensitive env k vars"
    using assms(9) sensitive_mono getSensitiveEnvVarsList_keys [OF c] by blast
  then have "scanned_variable env vars e = Some (k, v)"
    using assms(6) long by (simp add: scanned_variable_def minSensitiveValueLength_def)
  then have "(k, v) \<in> set (List.map_filter (scanned_variable env vars) (sv_environ env))"
    using assms(5) mem_map_filter by metis
  moreover have "calculateSecretDigests env c v = Inr dg"
    using digests getSensitiveEnvVarsList_digests b c by metis
  ultimately obtain f where f: "f \<in> set envf" "fi_RuleID f = ''witness-encoded-env-value-'' @ dashes k" "fi_Secret f = dg"
    "fi_EncodingPath f = [''base64'']" "fi_Location f = src"
    using check_reports [OF _ distinct_scanned [OF names] _ chk [unfolded checkDecodedContentForSensitiveValues_def] unseen] by blast
  have "set (fs0 @ envf @ r) \<subseteq> set findings" using scan_candidates_add rest unfolding t by blast
  then show ?thesis using f by auto
qed

theorem base64_value_reported_witness:
  "\<exists>a' p findings. scanBytes sample_scan_env (secretscan_New []) (''token: '' @ EncodeToString ''ghp_0123456789'' @ newline # []) ''out''
       (sample_detector []) [] 0 = Return (a', p, findings) \<and>
     list_ex (\<lambda>f. fi_RuleID f = ''witness-encoded-env-value-GITHUB-TOKEN'' \<and> fi_EncodingPath f = [''base64'']) findings"
proof -
  let ?v = "''ghp_0123456789''" and ?a = "secretscan_New [] :: unit scanner" and ?pre = "''token: ''" and ?post = "[newline]"
  have fields: "sa_ctx ?a = None" "sa_allowList ?a = None" "0 < sa_maxDecodeLayers ?a" by (simp_all add: secretscan_New_def)
  then obtain a' p fs where r: "scanBytes sample_scan_env ?a (?pre @ EncodeToString ?v @ ?post) ''out'' (sample_detector []) [] 0 = Return (a', p, fs)"
    using scanBytes_returns [of sample_scan_env ?a] by (force simp: capturer_ok_def)
  obtain dg where dg: "calculateSecretDigests sample_scan_env ?a ?v = Inr dg"
    using fields(1) by (simp add: calculateSecretDigests_def sample_scan_env_def CalculateDigestSetFromBytes_def
        CalculateDigestSet_def plain_digest_def sample_lib_def split: prod.splits)
  have pre: "findPotentialBase64Strings ?pre = []" "?pre = [] \<or> \<not> is_base64 (last ?pre) \<and> \<not> is_base64url (last ?pre)"
    and post: "?post = [] \<or> \<not> is_base64 (hd ?post) \<and> hd ?post \<noteq> CHR ''=''"
    and trimmed: "trim_space ?v = ?v" by code_simp+
  have split: "splitVariable ''GITHUB_TOKEN=ghp_0123456789'' = (''GITHUB_TOKEN'', ?v)" by (simp add: splitVariable_def)
  have sensitive: "isEnvironmentVariableSensitive sample_scan_env ''GITHUB_TOKEN'' DefaultSensitiveEnvList" by code_simp
  have allow: "\<not> isFileContentAllowListed sample_scan_env ?a (?pre @ EncodeToString ?v @ ?post)"
    by (simp add: isFileContentAllowListed_def fields(2))
  have quiet: "\<forall>gf \<in> set (DetectBytes (sample_detector []) (?pre @ EncodeToString ?v @ ?post)). \<forall>l.
      gf_Secret gf \<noteq> dec l @ '':'' @ ''GITHUB_TOKEN'' @ '':base64''" by (simp add: DetectBytes_def sample_detector_def)
  have rendering: "\<forall>ds. sv_sprint sample_scan_env ds \<noteq> ''GITHUB_TOKEN'' @ '':base64''" by (simp add: sample_scan_env_def)
  have environ: "''GITHUB_TOKEN=ghp_0123456789'' \<in> set (sv_environ sample_scan_env)"
    "distinct (map (fst \<circ> splitVariable) (sv_environ sample_scan_env))" by (simp_all add: sample_scan_env_def)
  have long: "12 \<le> length ?v" by simp
  from base64_value_reported [OF r pre post environ(1) split long trimmed sensitive environ(2) allow fields(3) dg quiet rendering] obtain f where
    "f \<in> set fs" "fi_RuleID f = ''witness-encoded-env-value-'' @ dashes ''GITHUB_TOKEN''" "fi_EncodingPath f = [''base64'']"
    by auto
  then have "list_ex (\<lambda>f. fi_RuleID f = ''witness-encoded-env-value-GITHUB-TOKEN'' \<and> fi_EncodingPath f = [''base64'']) fs"
    by (auto simp: list_ex_iff dashes_def)
  then show ?thesis using r by auto
qed

text \<open>An attestation by a new secret scanner never panics, when the capturer's patterns are globs. Once its
  directory and detector are there it fails exactly when it is told to fail on secrets and found one,
  and its subjects are exactly the products that are neither directories nor binary files, and whose
  file exists and is too large or can be read.\<close>

theorem secretscan_Attest_exact:
  assumes "\<forall>k \<in> sensitive_keys (ac_environmentCapturer ctx). CHR ''*'' \<in> set k \<longrightarrow> (\<exists>m. sv_glob env k = Inr m)"
    and "sv_MkdirTemp env = None" and "initGitleaksDetector env (a\<lparr>sa_ctx := Some ctx\<rparr>) = Inr d"
    and "sa_subjects a = []"
  shows "\<exists>a' err. secretscan_Attest env ctx a = Return (a', err) \<and>
    (err = None \<longleftrightarrow> \<not> sa_failOnDetection a \<or> sa_Findings a' = []) \<and>
    (\<forall>key digest. map_of (secretscan_Subjects a') key = Some digest \<longleftrightarrow>
       (\<exists>path product. map_of (ctx_Products ctx) path = Some product \<and> key = ''product:'' @ path \<and>
          digest = pr_Digest product \<and> \<not> shouldSkipProduct path product \<and>
          file_passes env a (getAbsolutePath path (ac_workingDir ctx))))"
proof -
  let ?a = "a\<lparr>sa_ctx := Some ctx\<rparr>"
  have "capturer_ok env ?a" using assms(1) by (simp add: capturer_ok_def)
  then obtain b where b: "scanAttestations env ctx d ?a = Return b" "capturer_ok env b"
    using scanAttestations_returns by blast
  then obtain c where c: "scanProducts env ctx d b = Return c" using scanProducts_returns by blast
  have ab: "same_limits ?a b" "sa_subjects b = []" using scanAttestations_limits [OF b(1)] assms(4) by simp_all
  note prods = scan_products_subjects [OF c [unfolded scanProducts_def], unfolded ab(2)]
  have "same_limits a b" using ab(1) by (simp add: same_limits_def)
  then have "listed_products env b wd ps = listed_products env a wd ps" for wd ps
    by (simp add: listed_products_def file_passes_limits)
  with prods have subs: "sa_subjects c = fold (\<lambda>(path, product). AList.update (''product:'' @ path) (pr_Digest product))
      (listed_products env a (ac_workingDir ctx) (ctx_Products ctx)) []" by simp
  have fail: "sa_failOnDetection c = sa_failOnDetection a"
    using prods ab(1) by (simp add: same_limits_def)
  have res: "secretscan_Attest env ctx a = Return (c, if sa_failOnDetection c \<and> length (sa_Findings c) > 0
      then Some (Errorf ''secret scanning failed: found %d secrets'' [FInt (int (length (sa_Findings c)))]) else None)"
    using assms(2,3) b(1) c by (simp add: secretscan_Attest_def Let_def)
  show ?thesis unfolding res secretscan_Subjects_def
    by (intro exI conjI, rule refl) (use fail in simp, simp only: subs listed_products_map [OF ctx_Products_ok], blast)
qed

definition scan_context :: "unit AttestationContext" where
  "scan_context = (sample_context [])\<lparr>ac_workingDir := ''/w'',
     ac_products := [(''big'', \<lparr>pr_MimeType = ''text/plain'', pr_Digest = []\<rparr>), (''bin'', \<lparr>pr_MimeType = ''application/octet-stream'', pr_Digest = []\<rparr>)]\<rparr>"

theorem secretscan_Attest_exact_witness:
  "\<exists>a' err. secretscan_Attest sample_scan_env scan_context (secretscan_New [WithFailOnDetection True]) = Return (a', err) \<and>
     map_of (secretscan_Subjects a') ''product:bin'' = None"
proof -
  let ?a = "secretscan_New [WithFailOnDetection True] :: unit scanner"
  have glob: "\<forall>k \<in> sensitive_keys c. CHR ''*'' \<in> set k \<longrightarrow> (\<exists>m. sv_glob sample_scan_env k = Inr m)" for c
    by (simp add: sample_scan_env_def)
  have init: "\<exists>d. initGitleaksDetector sample_scan_env (?a\<lparr>sa_ctx := Some scan_context\<rparr>) = Inr d"
    by (simp add: initGitleaksDetector_def createDefaultGitleaksConfig_def secretscan_New_def WithFailOnDetection_def sample_scan_env_def)
  then obtain d where d: "initGitleaksDetector sample_scan_env (?a\<lparr>sa_ctx := Some scan_context\<rparr>) = Inr d" by blast
  have "sv_MkdirTemp sample_scan_env = None" "sa_subjects ?a = []"
    by (simp_all add: sample_scan_env_def secretscan_New_def WithFailOnDetection_def)
  from secretscan_Attest_exact [OF glob this(1) d this(2)] obtain a' err where
    r: "secretscan_Attest sample_scan_env scan_context ?a = Return (a', err)"
    and subs: "\<And>key digest. map_of (secretscan_Subjects a') key = Some digest \<longleftrightarrow>
       (\<exists>path product. map_of (ctx_Products scan_context) path = Some product \<and> key = ''product:'' @ path \<and>
          digest = pr_Digest product \<and> \<not> shouldSkipProduct path product \<and>
          file_passes sample_scan_env ?a (getAbsolutePath path (ac_workingDir scan_context)))" by blast
  have "map_of (ctx_Products scan_context) ''bin'' = Some \<lparr>pr_MimeType = ''application/octet-stream'', pr_Digest = []\<rparr>"
    by (simp add: scan_context_def ctx_Products_def)
  moreover have "shouldSkipProduct ''bin'' \<lparr>pr_MimeType = ''application/octet-stream'', pr_Digest = []\<rparr>" by code_simp
  ultimately have "map_of (secretscan_Subjects a') ''product:bin'' \<noteq> Some digest" for digest
    unfolding subs by auto
  then show ?thesis using r by (cases "map_of (secretscan_Subjects a') ''product:bin''") auto
qed

text \<open>A product that is larger than the limit is listed as a subject, like the products that were scanned,
  although none of its content is: the scan of its file returns no finding, whatever it holds.\<close>

theorem oversized_product_listed:
  assumes "secretscan_Attest env ctx a = Return (a', err)"
    and "sv_MkdirTemp env = None" and "initGitleaksDetector env (a\<lparr>sa_ctx := Some ctx\<rparr>) = Inr d"
    and "map_of (ctx_Products ctx) path = Some product" and "\<not> shouldSkipProduct path product"
    and "exceedsMaxFileSize env a (getAbsolutePath path (ac_workingDir ctx)) = Inr True"
  shows "map_of (secretscan_Subjects a') (''product:'' @ path) = Some (pr_Digest product) \<and>
    ScanFile (env\<lparr>sv_Open := opened\<rparr>) a (getAbsolutePath path (ac_workingDir ctx)) (Some d) = Return (a, Inr [])"
proof -
  let ?a = "a\<lparr>sa_ctx := Some ctx\<rparr>" and ?f = "\<lambda>(path, product). AList.update (''product:'' @ path) (pr_Digest product)"
  from assms(1-3) obtain b where b: "scanAttestations env ctx d ?a = Return b" and c: "scanProducts env ctx d b = Return a'"
    by (auto simp: secretscan_Attest_def Let_def)
  have ab: "same_limits a b" using scanAttestations_limits [OF b] by (simp add: same_limits_def)
  have "file_passes env b (getAbsolutePath path (ac_workingDir ctx))"
    unfolding file_passes_limits [OF ab] using assms(6) by (simp add: file_passes_def)
  then have mem: "(path, product) \<in> set (listed_products env b (ac_workingDir ctx) (ctx_Products ctx))"
    using assms(4,5) by (simp add: listed_products_def gomap_mem_iff [OF ctx_Products_ok])
  have dist: "distinct (map fst (listed_products env b (ac_workingDir ctx) (ctx_Products ctx)))"
    using ctx_Products_ok distinct_map_filter by (auto simp: listed_products_def gomap_ok_def)
  have fold: "map_of (fold ?f xs m) (''product:'' @ path) = Some (pr_Digest product)"
    if "(path, product) \<in> set xs \<or> map_of m (''product:'' @ path) = Some (pr_Digest product) \<and> path \<notin> fst ` set xs"
      "distinct (map fst xs)" for xs m
    using that by (induction xs arbitrary: m) (force simp: update_conv')+
  have "map_of (sa_subjects a') (''product:'' @ path) = Some (pr_Digest product)"
    using scan_products_subjects [OF c [unfolded scanProducts_def]] fold mem dist by simp
  moreover have "exceedsMaxFileSize (env\<lparr>sv_Open := opened\<rparr>) a p = exceedsMaxFileSize env a p" for p
    by (simp add: exceedsMaxFileSize_def)
  ultimately show ?thesis using assms(6) by (simp add: secretscan_Subjects_def ScanFile_def del: append_Cons)
qed

theorem oversized_product_listed_witness:
  "\<exists>a' err. secretscan_Attest sample_scan_env scan_context (secretscan_New []) = Return (a', err) \<and>
     map_of (secretscan_Subjects a') ''product:big'' = Some []"
proof -
  let ?a = "secretscan_New [] :: unit scanner"
  have env: "sv_MkdirTemp sample_scan_env = None" by (simp add: sample_scan_env_def)
  have "\<exists>d. initGitleaksDetector sample_scan_env (?a\<lparr>sa_ctx := Some scan_context\<rparr>) = Inr d"
    by (simp add: initGitleaksDetector_def createDefaultGitleaksConfig_def secretscan_New_def sample_scan_env_def)
  then obtain d where d: "initGitleaksDetector sample_scan_env (?a\<lparr>sa_ctx := Some scan_context\<rparr>) = Inr d" by blast
  have "\<exists>a' err. secretscan_Attest sample_scan_env scan_context ?a = Return (a', err)"
  proof -
    have ok: "capturer_ok sample_scan_env x" for x by (simp add: capturer_ok_def sample_scan_env_def)
    from scanAttestations_returns [OF ok] obtain b where "scanAttestations sample_scan_env scan_context d (?a\<lparr>sa_ctx := Some scan_context\<rparr>) = Return b" by blast
    moreover from scanProducts_returns [OF ok] obtain c where "scanProducts sample_scan_env scan_context d b = Return c" by blast
    ultimately show ?thesis using env d by (simp add: secretscan_Attest_def Let_def)
  qed
  then obtain a' err where r: "secretscan_Attest sample_scan_env scan_context ?a = Return (a', err)" by blast
  have path: "getAbsolutePath ''big'' (ac_workingDir scan_context) = ''/w/big''" by code_simp
  have big: "exceedsMaxFileSize sample_scan_env ?a ''/w/big'' = Inr True" by code_simp
  have prod: "map_of (ctx_Products scan_context) ''big'' = Some \<lparr>pr_MimeType = ''text/plain'', pr_Digest = []\<rparr>"
    by (simp add: scan_context_def ctx_Products_def)
  have skip: "\<not> shouldSkipProduct ''big'' \<lparr>pr_MimeType = ''text/plain'', pr_Digest = []\<rparr>" by code_simp
  from oversized_product_listed [OF r env d prod skip, unfolded path, OF big] r show ?thesis by simp
qed

text \<open>The limit on the size of a file is exact, until it overflows: for a limit below two to the 43 mebibytes
  a file is skipped just when it is larger, and is otherwise read as a whole; but from there up to
  two to the 44 the limit in bytes wraps around to a negative number, and every file is skipped.\<close>

theorem size_limit_exact:
  assumes "sv_Stat env path = Inr n" and "0 \<le> n" and "sv_Open env path = Inr (Inr content)" and "int (length content) = n"
    and "0 < sa_maxFileSizeMB a"
  shows "(sa_maxFileSizeMB a < 2 ^ 43 \<longrightarrow>
      exceedsMaxFileSize env a path = Inr (n > sa_maxFileSizeMB a * 1048576) \<and>
      (n \<le> sa_maxFileSizeMB a * 1048576 \<longrightarrow> readFileContent env a path = Inr content)) \<and>
    (2 ^ 43 \<le> sa_maxFileSizeMB a \<and> sa_maxFileSizeMB a < 2 ^ 44 \<longrightarrow> exceedsMaxFileSize env a path = Inr True)"
proof -
  let ?mb = "sa_maxFileSizeMB a"
  have "maxSizeBytes a = word_of_int (?mb * 1048576)" by (simp add: maxSizeBytes_def)
  then have s: "sint (maxSizeBytes a) = (?mb * 1048576 + 2 ^ 63) mod 2 ^ 64 - 2 ^ 63"
    by (simp add: int_word_sint del: of_int_mult)
  have small: "sint (maxSizeBytes a) = ?mb * 1048576" if "?mb < 2 ^ 43"
    unfolding s using assms(5) that by (subst mod_pos_pos_trivial) simp_all
  have large: "sint (maxSizeBytes a) < 0" if "2 ^ 43 \<le> ?mb" "?mb < 2 ^ 44"
  proof -
    have "(?mb * 1048576 + 2 ^ 63) mod 2 ^ 64 = (?mb * 1048576 + 2 ^ 63 - 2 ^ 64) mod (2 ^ 64 :: int)"
      by (simp only: minus_mod_self2)
    also have "\<dots> = ?mb * 1048576 + 2 ^ 63 - 2 ^ 64"
      using that by (intro mod_pos_pos_trivial) simp_all
    finally show ?thesis unfolding s using that by simp
  qed
  show ?thesis using assms small large
    by (auto simp: exceedsMaxFileSize_def readFileContent_def)
qed

theorem size_limit_exact_witness:
  "exceedsMaxFileSize (sample_scan_env\<lparr>sv_Stat := \<lambda>_. Inr 3\<rparr>) (secretscan_New [WithMaxFileSize (2 ^ 43)]) ''f'' = Inr True \<and>
   readFileContent (sample_scan_env\<lparr>sv_Stat := \<lambda>_. Inr 3\<rparr>) (secretscan_New []) ''f'' = Inr ''abc''"
  using size_limit_exact [of "sample_scan_env\<lparr>sv_Stat := \<lambda>_. Inr 3\<rparr>" "''f''" 3 "''abc''" "secretscan_New [WithMaxFileSize (2 ^ 43)]"]
    size_limit_exact [of "sample_scan_env\<lparr>sv_Stat := \<lambda>_. Inr 3\<rparr>" "''f''" 3 "''abc''" "secretscan_New []"]
  by (simp add: sample_scan_env_def secretscan_New_def WithMaxFileSize_def)

text \<open>Keys that the user declared sensitive are not searched for when the capturer obfuscates: it keeps every
  variable, if with a masked value, so the list of sensitive keys of the scan is the default one.\<close>

theorem additional_keys_ignored:
  assumes "sa_ctx a = Some ctx" and "\<not> filterVarsEnabled (ac_environmentCapturer ctx)"
    and "getSensitiveEnvVarsList env a = Return (a', vars)"
  shows "vars = DefaultSensitiveEnvList"
proof -
  from assms(1,3) obtain c' m where c: "Capture_Capture (sv_glob env) (ac_environmentCapturer ctx) (sv_environ env) = Return (c', m)"
    and vars: "vars = fold (\<lambda>envVar sensitiveEnvVars. let key = fst (splitVariable envVar)
      in if map_of m key = None then AList.update key () sensitiveEnvVars else sensitiveEnvVars) (sv_environ env) DefaultSensitiveEnvList"
    by (auto simp: getSensitiveEnvVarsList_def)
  have "map_of m (fst (splitVariable e)) \<noteq> None" if "e \<in> set (sv_environ env)" for e
  proof -
    have "last_value (sv_environ env) (fst (splitVariable e)) \<noteq> None"
      using that by (auto simp: last_value_def map_of_eq_None_iff image_iff)
    then show ?thesis using Capture_result [OF c, of "fst (splitVariable e)"] assms(2)
      by (auto simp: captured_def)
  qed
  moreover have "fold (\<lambda>envVar s. let key = fst (splitVariable envVar)
      in if map_of m key = None then AList.update key () s else s) es s = s"
    if "\<And>e. e \<in> set es \<Longrightarrow> map_of m (fst (splitVariable e)) \<noteq> None" for es and s :: "string goset"
    using that
  proof (induction es)
    case (Cons e es)
    obtain x where "map_of m (fst (splitVariable e)) = Some x" using Cons.prems [of e] by auto
    then show ?case using Cons by (simp add: Let_def)
  qed simp
  ultimately show ?thesis unfolding vars by blast
qed

theorem additional_keys_ignored_witness:
  "\<exists>a' vars. getSensitiveEnvVarsList sample_scan_env ((secretscan_New [])\<lparr>sa_ctx :=
       Some (scan_context\<lparr>ac_environmentCapturer := environment_New [WithAdditionalKeys [''GITHUB_TOKEN'', ''MY_KEY'']]\<rparr>)\<rparr>) = Return (a', vars) \<and>
     map_of vars ''MY_KEY'' = None"
proof -
  let ?ctx = "scan_context\<lparr>ac_environmentCapturer := environment_New [WithAdditionalKeys [''GITHUB_TOKEN'', ''MY_KEY'']]\<rparr>"
  let ?a = "(secretscan_New [])\<lparr>sa_ctx := Some ?ctx\<rparr> :: unit scanner"
  obtain a' vars where r: "getSensitiveEnvVarsList sample_scan_env ?a = Return (a', vars)"
    using getSensitiveEnvVarsList_returns [of sample_scan_env ?a] by (auto simp: capturer_ok_def sample_scan_env_def)
  have "\<not> filterVarsEnabled (ac_environmentCapturer ?ctx)" by (simp add: environment_New_def WithAdditionalKeys_def)
  from additional_keys_ignored [OF _ this r] have "vars = DefaultSensitiveEnvList" by simp
  moreover have "map_of DefaultSensitiveEnvList ''MY_KEY'' = None" by code_simp
  ultimately show ?thesis using r by simp
qed

text \<open>A secret that Gitleaks matches in at most 40 characters is stored as it is: the finding carries the whole
  match, beside the digests that are there so that it need not.\<close>

theorem short_match_stored:
  assumes "createSecureFinding env a gf path encs approximate = Inr f" and "length (gf_Match gf) \<le> 40"
    and "contains (gf_Match gf) (gf_Secret gf)"
  shows "contains (fi_Match f) (gf_Secret gf)"
  using assms by (auto simp: createSecureFinding_def truncateMatch_def maxMatchDisplayLength_def split: sum.splits)

theorem short_match_stored_witness:
  "\<exists>f. createSecureFinding sample_scan_env (secretscan_New []) \<lparr>gf_RuleID = ''AWS'', gf_Description = [], gf_StartLine = 1,
       gf_Match = ''key=AKIA'', gf_Secret = ''AKIA'', gf_Entropy = 0\<rparr> ''f'' [] False = Inr f \<and> contains (fi_Match f) ''AKIA''"
proof -
  let ?gf = "\<lparr>gf_RuleID = ''AWS'', gf_Description = [], gf_StartLine = 1, gf_Match = ''key=AKIA'', gf_Secret = ''AKIA'', gf_Entropy = 0\<rparr>"
  have "\<exists>f. createSecureFinding sample_scan_env (secretscan_New []) ?gf ''f'' [] False = Inr f"
    by (simp add: createSecureFinding_def calculateSecretDigests_def secretscan_New_def sample_scan_env_def
        CalculateDigestSetFromBytes_def CalculateDigestSet_def)
  then obtain f where f: "createSecureFinding sample_scan_env (secretscan_New []) ?gf ''f'' [] False = Inr f" by blast
  have "contains (gf_Match ?gf) (gf_Secret ?gf)" by code_simp
  from short_match_stored [OF f _ this] f show ?thesis by auto
qed

end
