(* ===== verification/Ci_Attestors.thy ===== *)
theory Ci_Attestors
  imports Attest_Context Go_Path
begin

text \<open>
  The attestors of the environment of a build and of the build system:
  \<open>attestation/environment/environment.go\<close>, \<open>attestation/jwt/jwt.go\<close>, \<open>attestation/github/github.go\<close>,
  \<open>attestation/gitlab/gitlab.go\<close>, \<open>attestation/jenkins/jenkins.go\<close> and
  \<open>attestation/aws-codebuild/aws-codebuild.go\<close>.

  The environment variables, the host and its user, HTTP requests, the JOSE and JSON libraries and the AWS
  client are parameters, in \<open>ci_env\<close>. Claims, keys and parsed tokens are values of these libraries; they are
  texts here.
\<close>

section \<open>What the attestors use\<close>

record ci_env =
  ci_lib :: crypto_lib
  ci_glob :: glob_lib
  ci_LookupEnv :: "string \<Rightarrow> string option"
  ci_Environ :: "string list"
  ci_GOOS :: string
  ci_Hostname :: "gerr + string"
  ci_CurrentUser :: "gerr + string"
  ci_http_Get :: "string \<Rightarrow> gerr + reader"
  ci_jwt_ParseSigned :: "string \<Rightarrow> string list \<Rightarrow> gerr + string"
  ci_token_KeyIDs :: "string \<Rightarrow> string list"
  ci_decode_JWKS :: "bytes \<Rightarrow> gerr + string"
  ci_token_Claims :: "string \<Rightarrow> string \<Rightarrow> gerr + (string, json) gomap"
  ci_jwks_Key :: "string \<Rightarrow> string \<Rightarrow> string list"
  ci_add_query :: "string \<Rightarrow> string \<Rightarrow> string \<Rightarrow> gerr + string"
  ci_http_GetBearer :: "string \<Rightarrow> string \<Rightarrow> gerr + reader"
  ci_unmarshal_token :: "bytes \<Rightarrow> gerr + (int \<times> string)"
  ci_LoadDefaultConfig :: "gerr + string"
  ci_BatchGetBuilds :: "string \<times> string option \<Rightarrow> string list \<Rightarrow> gerr + string list"
  ci_marshal_build :: "string \<Rightarrow> gerr + bytes"

text \<open>\<open>os.Getenv\<close>\<close>

definition Getenv :: "ci_env \<Rightarrow> string \<Rightarrow> string" where
  "Getenv env key = (case ci_LookupEnv env key of None \<Rightarrow> [] | Some v \<Rightarrow> v)"

text \<open>A subject named by a kind and a value, with the digest of the value; left out when the digest cannot be
  computed.\<close>

definition record_subject ::
  "crypto_lib \<Rightarrow> string \<Rightarrow> string \<Rightarrow> (string, digest_set) gomap \<Rightarrow> (string, digest_set) gomap" where
  "record_subject lib kind val subjects =
     (case CalculateDigestSetFromBytes lib val [plain_digest SHA256] of
        (ds, None) \<Rightarrow> AList.update (kind @ val) ds subjects
      | (_, Some err) \<Rightarrow> subjects)"

text \<open>The loop of the build systems' \<open>BackRefs\<close>: the first subject whose name has the prefix.\<close>

primrec first_backref :: "(string, digest_set) gomap \<Rightarrow> (string, digest_set) gomap" where
  "first_backref [] = []"
| "first_backref (subj # subjects) =
     (if has_prefix (fst subj) ''pipelineurl:'' then [subj] else first_backref subjects)"

section \<open>Environment\<close>

definition environment_attestor_Name :: string where "environment_attestor_Name = ''environment''"
definition environment_attestor_Type :: string where
  "environment_attestor_Type = ''https://witness.dev/attestations/environment/v0.1''"

record environment_attestor =
  ea_OS :: string
  ea_Hostname :: string
  ea_Username :: string
  ea_Variables :: "(string, string) gomap"
  ea_osEnviron :: "string list"

definition WithCustomEnv :: "string list \<Rightarrow> environment_attestor \<Rightarrow> environment_attestor" where
  "WithCustomEnv osEnviron a = a\<lparr>ea_osEnviron := osEnviron\<rparr>"

definition environment_attestor_New ::
  "ci_env \<Rightarrow> (environment_attestor \<Rightarrow> environment_attestor) list \<Rightarrow> environment_attestor" where
  "environment_attestor_New env opts =
     fold (\<lambda>opt a. opt a) opts
       \<lparr>ea_OS = [], ea_Hostname = [], ea_Username = [], ea_Variables = [], ea_osEnviron = ci_Environ env\<rparr>"

text \<open>The capturer of the context is changed by \<open>Capture\<close>.\<close>

definition environment_attestor_Attest ::
  "ci_env \<Rightarrow> 'd AttestationContext \<Rightarrow> environment_attestor \<Rightarrow>
     ('d AttestationContext \<times> environment_attestor \<times> gerr option) outcome" where
  "environment_attestor_Attest env ctx a =
     (let a = a\<lparr>ea_OS := ci_GOOS env, ea_Variables := []\<rparr>;
          a = (case ci_Hostname env of Inr hostname \<Rightarrow> a\<lparr>ea_Hostname := hostname\<rparr> | Inl err \<Rightarrow> a);
          a = (case ci_CurrentUser env of Inr username \<Rightarrow> a\<lparr>ea_Username := username\<rparr> | Inl err \<Rightarrow> a)
      in bindO (Capture_Capture (ci_glob env) (ac_environmentCapturer ctx) (ea_osEnviron a))
           (\<lambda>(capturer, variables).
              Return (ctx\<lparr>ac_environmentCapturer := capturer\<rparr>, a\<lparr>ea_Variables := variables\<rparr>, None)))"

section \<open>JSON web tokens\<close>

definition jwt_Name :: string where "jwt_Name = ''jwt''"
definition jwt_Type :: string where "jwt_Type = ''https://witness.dev/attestations/jwt/v0.1''"

definition allowedJWTAlgorithms :: "string list" where
  "allowedJWTAlgorithms =
     [''RS256'', ''RS384'', ''RS512'', ''PS256'', ''PS384'', ''PS512'', ''ES256'', ''ES384'', ''ES512'', ''EdDSA'']"

record VerificationInfo =
  vi_JWKSUrl :: string
  vi_JWK :: string

record jwt_attestor =
  jw_Claims :: "(string, json) gomap"
  jw_VerifiedBy :: VerificationInfo
  jw_jwksUrl :: string
  jw_token :: string

definition WithToken :: "string \<Rightarrow> jwt_attestor \<Rightarrow> jwt_attestor" where
  "WithToken token a = a\<lparr>jw_token := token\<rparr>"

definition WithJWKSUrl :: "string \<Rightarrow> jwt_attestor \<Rightarrow> jwt_attestor" where
  "WithJWKSUrl url a = a\<lparr>jw_jwksUrl := url\<rparr>"

definition jwt_New :: "(jwt_attestor \<Rightarrow> jwt_attestor) list \<Rightarrow> jwt_attestor" where
  "jwt_New opts =
     fold (\<lambda>opt a. opt a) opts
       \<lparr>jw_Claims = [], jw_VerifiedBy = \<lparr>vi_JWKSUrl = [], vi_JWK = []\<rparr>, jw_jwksUrl = [], jw_token = []\<rparr>"

definition token_keyID :: "ci_env \<Rightarrow> string \<Rightarrow> string" where
  "token_keyID env parsed =
     (case List.find (\<lambda>keyID. keyID \<noteq> []) (ci_token_KeyIDs env parsed) of None \<Rightarrow> [] | Some keyID \<Rightarrow> keyID)"

definition jwt_Attest :: "ci_env \<Rightarrow> jwt_attestor \<Rightarrow> jwt_attestor \<times> gerr option" where
  "jwt_Attest env a =
     (if jw_token a = [] then (a, Some (ErrInvalidToken (jw_token a)))
      else case ci_jwt_ParseSigned env (jw_token a) allowedJWTAlgorithms of
             Inl err \<Rightarrow> (a, Some (Errorf ''error parsing token: %w'' [FErr err]))
           | Inr parsed \<Rightarrow>
               (case ci_http_Get env (jw_jwksUrl a) of
                  Inl err \<Rightarrow> (a, Some (Errorf ''error fetching jwks: %w'' [FErr err]))
                | Inr body \<Rightarrow>
                    (case (case body of Inl err \<Rightarrow> Inl err | Inr bs \<Rightarrow> ci_decode_JWKS env bs) of
                       Inl err \<Rightarrow> (a, Some (Errorf ''error decoding jwks: %w'' [FErr err]))
                     | Inr jwks \<Rightarrow>
                         (case ci_token_Claims env parsed jwks of
                            Inl err \<Rightarrow> (a, Some (Errorf ''error parsing claims: %w'' [FErr err]))
                          | Inr claims \<Rightarrow>
                              (let a = a\<lparr>jw_Claims := put_all claims (jw_Claims a)\<rparr>
                               in case ci_jwks_Key env jwks (token_keyID env parsed) of
                                    [] \<Rightarrow> (a, None)
                                  | jwk # _ \<Rightarrow>
                                      (a\<lparr>jw_VerifiedBy := \<lparr>vi_JWKSUrl = jw_jwksUrl a, vi_JWK = jwk\<rparr>\<rparr>, None))))))"

section \<open>GitHub\<close>

definition github_Name :: string where "github_Name = ''github''"
definition github_Type :: string where "github_Type = ''https://witness.dev/attestations/github/v0.1''"
definition github_jwksURL :: string where
  "github_jwksURL = ''https://token.actions.githubusercontent.com/.well-known/jwks''"

record github_attestor =
  gh_JWT :: "jwt_attestor option"
  gh_CIConfigPath :: string
  gh_PipelineID :: string
  gh_PipelineName :: string
  gh_PipelineUrl :: string
  gh_ProjectUrl :: string
  gh_RunnerID :: string
  gh_CIHost :: string
  gh_CIServerUrl :: string
  gh_RunnerArch :: string
  gh_RunnerOS :: string
  gh_jwksURL :: string
  gh_tokenURL :: string
  gh_aud :: string

definition github_New :: "ci_env \<Rightarrow> github_attestor" where
  "github_New env =
     \<lparr>gh_JWT = None, gh_CIConfigPath = [], gh_PipelineID = [], gh_PipelineName = [], gh_PipelineUrl = [],
      gh_ProjectUrl = [], gh_RunnerID = [], gh_CIHost = [], gh_CIServerUrl = [], gh_RunnerArch = [], gh_RunnerOS = [],
      gh_jwksURL = github_jwksURL, gh_tokenURL = Getenv env ''ACTIONS_ID_TOKEN_REQUEST_URL'', gh_aud = ''witness''\<rparr>"

definition fetchToken :: "ci_env \<Rightarrow> string \<Rightarrow> string \<Rightarrow> string \<Rightarrow> gerr + string" where
  "fetchToken env tokenURL bearer audience =
     (case ci_add_query env tokenURL ''audience'' audience of
        Inl err \<Rightarrow> Inl (Errorf ''error on parsing token url %w'' [FErr err])
      | Inr reqURL \<Rightarrow>
          (case ci_http_GetBearer env reqURL bearer of
             Inl err \<Rightarrow> Inl (Errorf ''error on request %w'' [FErr err])
           | Inr (Inl err) \<Rightarrow> Inl (Errorf ''error on reading response body %w'' [FErr err])
           | Inr (Inr body) \<Rightarrow>
               (case ci_unmarshal_token env body of
                  Inl err \<Rightarrow> Inl (Errorf ''error on unmarshaling token response %w'' [FErr err])
                | Inr (_, token) \<Rightarrow> Inr token)))"

definition github_Attest :: "ci_env \<Rightarrow> github_attestor \<Rightarrow> github_attestor \<times> gerr option" where
  "github_Attest env a =
     (if Getenv env ''GITHUB_ACTIONS'' \<noteq> ''true'' then (a, Some ErrNotGitHub)
      else case fetchToken env (gh_tokenURL a) (Getenv env ''ACTIONS_ID_TOKEN_REQUEST_TOKEN'') ''witness'' of
             Inl err \<Rightarrow> (a, Some (Errorf ''error on fetching token %w'' [FErr err]))
           | Inr jwtString \<Rightarrow>
               if jwtString = [] then (a, Some (Errorf ''empty JWT string'' []))
               else (let (token, err) = jwt_Attest env (jwt_New [WithToken jwtString, WithJWKSUrl (gh_jwksURL a)]);
                         a = a\<lparr>gh_JWT := Some token\<rparr>
                     in case err of
                          Some e \<Rightarrow> (a, Some (Errorf ''failed to attest github jwt: %w'' [FErr e]))
                        | None \<Rightarrow>
                            (let server = Getenv env ''GITHUB_SERVER_URL'';
                                 runID = Getenv env ''GITHUB_RUN_ID'';
                                 projectUrl = server @ ''/'' @ Getenv env ''GITHUB_REPOSITORY''
                             in (a\<lparr>gh_CIServerUrl := server, gh_CIConfigPath := Getenv env ''GITHUB_ACTION_PATH'',
                                   gh_PipelineID := runID, gh_PipelineName := Getenv env ''GITHUB_WORKFLOW'',
                                   gh_ProjectUrl := projectUrl, gh_RunnerID := Getenv env ''RUNNER_NAME'',
                                   gh_RunnerArch := Getenv env ''RUNNER_ARCH'', gh_RunnerOS := Getenv env ''RUNNER_OS'',
                                   gh_PipelineUrl := projectUrl @ ''/actions/runs/'' @ runID\<rparr>, None))))"

definition github_Subjects :: "crypto_lib \<Rightarrow> github_attestor \<Rightarrow> (string, digest_set) gomap" where
  "github_Subjects lib a =
     record_subject lib ''projecturl:'' (gh_ProjectUrl a)
       (record_subject lib ''pipelineurl:'' (gh_PipelineUrl a) [])"

text \<open>\<open>order\<close> is the order in which \<open>range\<close> visits the subjects.\<close>

definition github_BackRefs ::
  "((string, digest_set) gomap \<Rightarrow> (string, digest_set) gomap) \<Rightarrow> crypto_lib \<Rightarrow> github_attestor \<Rightarrow> (string, digest_set) gomap" where
  "github_BackRefs order lib a = first_backref (order (github_Subjects lib a))"

section \<open>GitLab\<close>

definition gitlab_Name :: string where "gitlab_Name = ''gitlab''"
definition gitlab_Type :: string where "gitlab_Type = ''https://witness.dev/attestations/gitlab/v0.1''"

record gitlab_attestor =
  gl_JWT :: "jwt_attestor option"
  gl_CIConfigPath :: string
  gl_JobID :: string
  gl_JobImage :: string
  gl_JobName :: string
  gl_JobStage :: string
  gl_JobUrl :: string
  gl_PipelineID :: string
  gl_PipelineUrl :: string
  gl_ProjectID :: string
  gl_ProjectUrl :: string
  gl_RunnerID :: string
  gl_CIHost :: string
  gl_CIServerUrl :: string
  gl_token :: string
  gl_tokenEnvVar :: string

definition gitlab_WithToken :: "string \<Rightarrow> gitlab_attestor \<Rightarrow> gitlab_attestor" where
  "gitlab_WithToken token a = a\<lparr>gl_token := token\<rparr>"

definition gitlab_WithTokenEnvVar :: "string \<Rightarrow> gitlab_attestor \<Rightarrow> gitlab_attestor" where
  "gitlab_WithTokenEnvVar envVar a = a\<lparr>gl_tokenEnvVar := envVar\<rparr>"

definition gitlab_New :: "(gitlab_attestor \<Rightarrow> gitlab_attestor) list \<Rightarrow> gitlab_attestor" where
  "gitlab_New opts =
     fold (\<lambda>opt a. opt a) opts
       \<lparr>gl_JWT = None, gl_CIConfigPath = [], gl_JobID = [], gl_JobImage = [], gl_JobName = [], gl_JobStage = [],
        gl_JobUrl = [], gl_PipelineID = [], gl_PipelineUrl = [], gl_ProjectID = [], gl_ProjectUrl = [], gl_RunnerID = [],
        gl_CIHost = [], gl_CIServerUrl = [], gl_token = [], gl_tokenEnvVar = []\<rparr>"

definition gitlab_jwtString :: "ci_env \<Rightarrow> gitlab_attestor \<Rightarrow> string" where
  "gitlab_jwtString env a =
     (if gl_token a \<noteq> [] then gl_token a
      else if gl_tokenEnvVar a \<noteq> [] then Getenv env (gl_tokenEnvVar a)
      else Getenv env ''CI_JOB_JWT'')"

definition gitlab_Attest :: "ci_env \<Rightarrow> gitlab_attestor \<Rightarrow> gitlab_attestor \<times> gerr option" where
  "gitlab_Attest env a =
     (if Getenv env ''GITLAB_CI'' \<noteq> ''true'' then (a, Some ErrNotGitlab)
      else (let a = a\<lparr>gl_CIServerUrl := Getenv env ''CI_SERVER_URL''\<rparr>;
                jwksUrl = gl_CIServerUrl a @ ''/oauth/discovery/keys'';
                jwtString = gitlab_jwtString env a;
                (a, err) =
                  (if jwtString \<noteq> []
                   then (let (token, err) = jwt_Attest env (jwt_New [WithToken jwtString, WithJWKSUrl jwksUrl])
                         in (a\<lparr>gl_JWT := Some token\<rparr>, err))
                   else (a, None))
            in case err of
                 Some e \<Rightarrow> (a, Some e)
               | None \<Rightarrow>
                   (a\<lparr>gl_CIConfigPath := Getenv env ''CI_CONFIG_PATH'', gl_JobID := Getenv env ''CI_JOB_ID'',
                      gl_JobImage := Getenv env ''CI_JOB_IMAGE'', gl_JobName := Getenv env ''CI_JOB_NAME'',
                      gl_JobStage := Getenv env ''CI_JOB_STAGE'', gl_JobUrl := Getenv env ''CI_JOB_URL'',
                      gl_PipelineID := Getenv env ''CI_PIPELINE_ID'', gl_PipelineUrl := Getenv env ''CI_PIPELINE_URL'',
                      gl_ProjectID := Getenv env ''CI_PROJECT_ID'', gl_ProjectUrl := Getenv env ''CI_PROJECT_URL'',
                      gl_RunnerID := Getenv env ''CI_RUNNER_ID'', gl_CIHost := Getenv env ''CI_SERVER_HOST''\<rparr>, None)))"

definition gitlab_Subjects :: "crypto_lib \<Rightarrow> gitlab_attestor \<Rightarrow> (string, digest_set) gomap" where
  "gitlab_Subjects lib a =
     record_subject lib ''projecturl:'' (gl_ProjectUrl a)
       (record_subject lib ''joburl:'' (gl_JobUrl a)
         (record_subject lib ''pipelineurl:'' (gl_PipelineUrl a) []))"

definition gitlab_BackRefs ::
  "((string, digest_set) gomap \<Rightarrow> (string, digest_set) gomap) \<Rightarrow> crypto_lib \<Rightarrow> gitlab_attestor \<Rightarrow> (string, digest_set) gomap" where
  "gitlab_BackRefs order lib a = first_backref (order (gitlab_Subjects lib a))"

section \<open>Jenkins\<close>

definition jenkins_Name :: string where "jenkins_Name = ''jenkins''"
definition jenkins_Type :: string where "jenkins_Type = ''https://witness.dev/attestations/jenkins/v0.1''"

record jenkins_attestor =
  jk_BuildID :: string
  jk_BuildNumber :: string
  jk_BuildTag :: string
  jk_PipelineUrl :: string
  jk_ExecutorNumber :: string
  jk_JavaHome :: string
  jk_JenkinsUrl :: string
  jk_JobName :: string
  jk_NodeName :: string
  jk_Workspace :: string

definition jenkins_New :: jenkins_attestor where
  "jenkins_New =
     \<lparr>jk_BuildID = [], jk_BuildNumber = [], jk_BuildTag = [], jk_PipelineUrl = [], jk_ExecutorNumber = [], jk_JavaHome = [],
      jk_JenkinsUrl = [], jk_JobName = [], jk_NodeName = [], jk_Workspace = []\<rparr>"

definition jenkins_Attest :: "ci_env \<Rightarrow> jenkins_attestor \<Rightarrow> jenkins_attestor \<times> gerr option" where
  "jenkins_Attest env a =
     (if ci_LookupEnv env ''JENKINS_URL'' = None then (a, Some ErrNotJenkins)
      else (a\<lparr>jk_BuildID := Getenv env ''BUILD_ID'', jk_BuildNumber := Getenv env ''BUILD_NUMBER'',
              jk_BuildTag := Getenv env ''BUILD_TAG'', jk_PipelineUrl := Getenv env ''BUILD_URL'',
              jk_ExecutorNumber := Getenv env ''EXECUTOR_NUMBER'', jk_JavaHome := Getenv env ''JAVA_HOME'',
              jk_JenkinsUrl := Getenv env ''JENKINS_URL'', jk_JobName := Getenv env ''JOB_NAME'',
              jk_NodeName := Getenv env ''NODE_NAME'', jk_Workspace := Getenv env ''WORKSPACE''\<rparr>, None))"

definition jenkins_Subjects :: "crypto_lib \<Rightarrow> jenkins_attestor \<Rightarrow> (string, digest_set) gomap" where
  "jenkins_Subjects lib a =
     record_subject lib ''jenkinsurl:'' (jk_JenkinsUrl a)
       (record_subject lib ''pipelineurl:'' (jk_PipelineUrl a) [])"

definition jenkins_BackRefs ::
  "((string, digest_set) gomap \<Rightarrow> (string, digest_set) gomap) \<Rightarrow> crypto_lib \<Rightarrow> jenkins_attestor \<Rightarrow> (string, digest_set) gomap" where
  "jenkins_BackRefs order lib a = first_backref (order (jenkins_Subjects lib a))"

section \<open>AWS CodeBuild\<close>

definition codebuild_Name :: string where "codebuild_Name = ''aws-codebuild''"
definition codebuild_Type :: string where "codebuild_Type = ''https://witness.dev/attestations/aws-codebuild/v0.1''"

record BuildInfo =
  bi_BuildID :: string
  bi_BuildARN :: string
  bi_BuildNumber :: string
  bi_ProjectName :: string
  bi_Initiator :: string
  bi_SourceVersion :: string
  bi_SourceRepo :: string
  bi_BatchBuildID :: string
  bi_WebhookEvent :: string
  bi_WebhookHeadRef :: string
  bi_WebhookActorID :: string
  bi_Region :: string
  bi_BuildDetails :: "string option"

text \<open>The configuration of the AWS client is what the SDK loads and the region put over it.\<close>

record codebuild_attestor =
  cb_hashes :: "digest_value list"
  cb_awsConfig :: "string \<times> string option"
  cb_BuildInfo :: BuildInfo
  cb_RawBuildDetails :: string

definition empty_BuildInfo :: BuildInfo where
  "empty_BuildInfo =
     \<lparr>bi_BuildID = [], bi_BuildARN = [], bi_BuildNumber = [], bi_ProjectName = [], bi_Initiator = [], bi_SourceVersion = [],
      bi_SourceRepo = [], bi_BatchBuildID = [], bi_WebhookEvent = [], bi_WebhookHeadRef = [], bi_WebhookActorID = [],
      bi_Region = [], bi_BuildDetails = None\<rparr>"

definition codebuild_New :: "ci_env \<Rightarrow> codebuild_attestor" where
  "codebuild_New env =
     \<lparr>cb_hashes = [],
      cb_awsConfig =
        (case ci_LoadDefaultConfig env of
           Inl err \<Rightarrow> ([], None)
         | Inr cfg \<Rightarrow>
             (let region = Getenv env ''AWS_REGION'' in (cfg, if region \<noteq> [] then Some region else None))),
      cb_BuildInfo = empty_BuildInfo, cb_RawBuildDetails = []\<rparr>"

definition getBuildDetails :: "ci_env \<Rightarrow> codebuild_attestor \<Rightarrow> codebuild_attestor \<times> gerr option" where
  "getBuildDetails env a =
     (case split_at (CHR '':'') (bi_BuildID (cb_BuildInfo a)) of
        [_, buildID] \<Rightarrow>
          (case ci_BatchGetBuilds env (cb_awsConfig a) [buildID] of
             Inl err \<Rightarrow> (a, Some (Errorf ''failed to get build details: %w'' [FErr err]))
           | Inr [] \<Rightarrow> (a, Some (Errorf ''no build found with ID: %s'' [FStr buildID]))
           | Inr (build # _) \<Rightarrow>
               (let a = a\<lparr>cb_BuildInfo := (cb_BuildInfo a)\<lparr>bi_BuildDetails := Some build\<rparr>\<rparr>
                in case ci_marshal_build env build of
                     Inl err \<Rightarrow> (a, Some (Errorf ''failed to marshal build details: %w'' [FErr err]))
                   | Inr rawDetails \<Rightarrow> (a\<lparr>cb_RawBuildDetails := rawDetails\<rparr>, None)))
      | _ \<Rightarrow> (a, Some (Errorf ''invalid CODEBUILD_BUILD_ID format: %s'' [FStr (bi_BuildID (cb_BuildInfo a))])))"

definition codebuild_Attest ::
  "ci_env \<Rightarrow> 'd AttestationContext \<Rightarrow> codebuild_attestor \<Rightarrow> codebuild_attestor \<times> gerr option" where
  "codebuild_Attest env ctx a =
     (let a = a\<lparr>cb_hashes := ac_hashes ctx\<rparr>;
          buildID = Getenv env ''CODEBUILD_BUILD_ID''
      in if buildID = []
         then (a, Some (Errorf ''not running in AWS CodeBuild environment, CODEBUILD_BUILD_ID not found'' []))
         else (fst (getBuildDetails env
                (a\<lparr>cb_BuildInfo := (cb_BuildInfo a)
                    \<lparr>bi_BuildID := buildID, bi_BuildARN := Getenv env ''CODEBUILD_BUILD_ARN'',
                     bi_BuildNumber := Getenv env ''CODEBUILD_BUILD_NUMBER'',
                     bi_ProjectName := Getenv env ''CODEBUILD_PROJECT_NAME'', bi_Initiator := Getenv env ''CODEBUILD_INITIATOR'',
                     bi_SourceVersion := Getenv env ''CODEBUILD_RESOLVED_SOURCE_VERSION'',
                     bi_SourceRepo := Getenv env ''CODEBUILD_SOURCE_REPO_URL'',
                     bi_BatchBuildID := Getenv env ''CODEBUILD_BATCH_BUILD_IDENTIFIER'',
                     bi_WebhookEvent := Getenv env ''CODEBUILD_WEBHOOK_EVENT'',
                     bi_WebhookHeadRef := Getenv env ''CODEBUILD_WEBHOOK_HEAD_REF'',
                     bi_WebhookActorID := Getenv env ''CODEBUILD_WEBHOOK_ACTOR_ACCOUNT_ID'',
                     bi_Region := Getenv env ''AWS_REGION''\<rparr>\<rparr>)), None))"

definition codebuild_Subjects :: "crypto_lib \<Rightarrow> codebuild_attestor \<Rightarrow> (string, digest_set) gomap" where
  "codebuild_Subjects lib a =
     (let info = cb_BuildInfo a;
          record_set = (\<lambda>kind val subjects. if val \<noteq> [] then record_subject lib kind val subjects else subjects)
      in record_set ''codebuild-source-version:'' (bi_SourceVersion info)
           (record_set ''codebuild-project:'' (bi_ProjectName info)
             (record_set ''codebuild-build-id:'' (bi_BuildID info) [])))"

definition codebuild_BackRefs :: "crypto_lib \<Rightarrow> codebuild_attestor \<Rightarrow> (string, digest_set) gomap" where
  "codebuild_BackRefs lib a = codebuild_Subjects lib a"

section \<open>Lemmas\<close>

definition sha256_digests :: "crypto_lib \<Rightarrow> string \<Rightarrow> digest_set" where
  "sha256_digests lib val = fst (CalculateDigestSetFromBytes lib val [plain_digest SHA256])"

lemma record_subject_update: "record_subject lib kind val subjects = AList.update (kind @ val) (sha256_digests lib val) subjects"
  by (simp add: record_subject_def sha256_digests_def CalculateDigestSetFromBytes_def CalculateDigestSet_def)

lemma first_backref_find:
  "first_backref m = (case List.find (\<lambda>subj. has_prefix (fst subj) ''pipelineurl:'') m of None \<Rightarrow> [] | Some subj \<Rightarrow> [subj])"
  by (induction m) auto

text \<open>The only subject of a kind is found in whatever order the map is visited.\<close>

lemma first_backref_order:
  assumes "set (order m) = set m" and "(k, v) \<in> set m" and "has_prefix k ''pipelineurl:''"
    and "\<And>k' v'. (k', v') \<in> set m \<Longrightarrow> has_prefix k' ''pipelineurl:'' \<Longrightarrow> k' = k \<and> v' = v"
  shows "first_backref (order m) = [(k, v)]"
proof (cases "List.find (\<lambda>subj. has_prefix (fst subj) ''pipelineurl:'') (order m)")
  case None
  with assms(1-3) show ?thesis by (force simp: find_None_iff)
next
  case (Some subj)
  then have "subj \<in> set (order m)" "has_prefix (fst subj) ''pipelineurl:''" by (auto simp: find_Some_iff)
  then show ?thesis using Some assms(1) assms(4) [of "fst subj" "snd subj"] by (simp add: first_backref_find prod_eq_iff)
qed

lemma jwt_Attest_ok:
  assumes "jwt_Attest env a = (a', None)"
  obtains parsed bs jwks claims where "ci_jwt_ParseSigned env (jw_token a) allowedJWTAlgorithms = Inr parsed"
    "ci_http_Get env (jw_jwksUrl a) = Inr (Inr bs)" "ci_decode_JWKS env bs = Inr jwks"
    "ci_token_Claims env parsed jwks = Inr claims" "jw_Claims a' = put_all claims (jw_Claims a)"
  using assms by (auto simp: jwt_Attest_def Let_def split: if_splits sum.splits list.splits)

section \<open>Properties\<close>

text \<open>The claims of a token are only recorded after they were verified: when the token attestor succeeds, the
  token was parsed with one of the asymmetric algorithms, the key set came from the configured address, and
  the claims are those that the library verified under that key set; when it fails its claims are
  unchanged.\<close>

theorem jwt_claims_verified:
  assumes "jwt_Attest env a = (a', err)"
  shows "(err \<noteq> None \<longrightarrow> a' = a) \<and>
    (err = None \<longrightarrow>
      (\<exists>parsed bs jwks claims. ci_jwt_ParseSigned env (jw_token a) allowedJWTAlgorithms = Inr parsed \<and>
         ci_http_Get env (jw_jwksUrl a) = Inr (Inr bs) \<and> ci_decode_JWKS env bs = Inr jwks \<and>
         ci_token_Claims env parsed jwks = Inr claims \<and> jw_Claims a' = put_all claims (jw_Claims a) \<and>
         (jw_VerifiedBy a' = jw_VerifiedBy a \<or>
          (\<exists>jwk \<in> set (ci_jwks_Key env jwks (token_keyID env parsed)).
             jw_VerifiedBy a' = \<lparr>vi_JWKSUrl = jw_jwksUrl a, vi_JWK = jwk\<rparr>))))"
  using assms by (auto simp: jwt_Attest_def Let_def split: if_splits sum.splits list.splits)

definition sample_ci_env :: ci_env where
  "sample_ci_env =
     \<lparr>ci_lib = sample_lib, ci_glob = sample_glob,
      ci_LookupEnv = map_of [(''GITHUB_ACTIONS'', ''true''), (''GITHUB_SERVER_URL'', ''https://github.com''),
        (''GITHUB_REPOSITORY'', ''o/r''), (''GITHUB_RUN_ID'', ''7''), (''GITLAB_CI'', ''true'')],
      ci_Environ = [], ci_GOOS = ''linux'', ci_Hostname = Inr ''h'', ci_CurrentUser = Inr ''u'',
      ci_http_Get = \<lambda>url. if url = github_jwksURL then Inr (Inr ''keys'') else Inl (LibError ''http''),
      ci_jwt_ParseSigned = \<lambda>t algs. if t = ''token'' then Inr ''parsed'' else Inl (LibError ''jwt''),
      ci_token_KeyIDs = \<lambda>t. [''k''], ci_decode_JWKS = \<lambda>bs. Inr bs,
      ci_token_Claims = \<lambda>t jwks. Inr [(''sha'', JString ''abc'')], ci_jwks_Key = \<lambda>jwks k. [''jwk''],
      ci_add_query = \<lambda>url k v. Inr url, ci_http_GetBearer = \<lambda>url b. Inr (Inr ''token''),
      ci_unmarshal_token = \<lambda>bs. Inr (1, bs), ci_LoadDefaultConfig = Inr ''cfg'',
      ci_BatchGetBuilds = \<lambda>cfg ids. Inr [], ci_marshal_build = \<lambda>b. Inr b\<rparr>"

theorem jwt_claims_verified_witness:
  "\<exists>a'. jwt_Attest sample_ci_env (jwt_New [WithToken ''token'', WithJWKSUrl github_jwksURL]) = (a', None) \<and>
     jw_Claims a' = [(''sha'', JString ''abc'')]"
proof -
  let ?a = "jwt_New [WithToken ''token'', WithJWKSUrl github_jwksURL]"
  obtain a' where r: "jwt_Attest sample_ci_env ?a = (a', None)"
    by (simp add: jwt_Attest_def sample_ci_env_def jwt_New_def WithToken_def WithJWKSUrl_def Let_def)
  from jwt_claims_verified [OF r] have "jw_Claims a' = put_all [(''sha'', JString ''abc'')] (jw_Claims ?a)"
    by (auto simp: sample_ci_env_def)
  with r show ?thesis by (simp add: jwt_New_def WithToken_def WithJWKSUrl_def)
qed

text \<open>An attestation of a GitHub job rests on GitHub's own token: a new attestor only succeeds inside a job, with
  a token whose claims were verified under the keys at GitHub's address, and its addresses of the
  project and the pipeline are built from the environment of the job.\<close>

theorem github_attested:
  assumes "github_Attest env (github_New env) = (a', None)"
  shows "Getenv env ''GITHUB_ACTIONS'' = ''true'' \<and>
    gh_PipelineUrl a' = gh_ProjectUrl a' @ ''/actions/runs/'' @ Getenv env ''GITHUB_RUN_ID'' \<and>
    (\<exists>token t parsed bs jwks claims. gh_JWT a' = Some t \<and> jw_Claims t = put_all claims [] \<and> token \<noteq> [] \<and>
       ci_jwt_ParseSigned env token allowedJWTAlgorithms = Inr parsed \<and>
       ci_http_Get env github_jwksURL = Inr (Inr bs) \<and> ci_decode_JWKS env bs = Inr jwks \<and>
       ci_token_Claims env parsed jwks = Inr claims)"
proof -
  from assms obtain token t where gh: "Getenv env ''GITHUB_ACTIONS'' = ''true''" and token: "token \<noteq> []"
    and t: "jwt_Attest env (jwt_New [WithToken token, WithJWKSUrl github_jwksURL]) = (t, None)"
    and a': "gh_JWT a' = Some t" "gh_PipelineUrl a' = gh_ProjectUrl a' @ ''/actions/runs/'' @ Getenv env ''GITHUB_RUN_ID''"
    by (auto simp: github_Attest_def github_New_def Let_def split: if_splits sum.splits prod.splits option.splits)
  let ?j = "jwt_New [WithToken token, WithJWKSUrl github_jwksURL]"
  have j: "jw_token ?j = token" "jw_jwksUrl ?j = github_jwksURL" "jw_Claims ?j = []"
    by (simp_all add: jwt_New_def WithToken_def WithJWKSUrl_def)
  from t obtain parsed bs jwks claims where "ci_jwt_ParseSigned env token allowedJWTAlgorithms = Inr parsed"
    "ci_http_Get env github_jwksURL = Inr (Inr bs)" "ci_decode_JWKS env bs = Inr jwks"
    "ci_token_Claims env parsed jwks = Inr claims" "jw_Claims t = put_all claims []"
    by (rule jwt_Attest_ok) (simp add: j)
  with gh token a' show ?thesis by blast
qed

theorem github_attested_witness:
  "\<exists>a'. github_Attest sample_ci_env (github_New sample_ci_env) = (a', None) \<and>
     gh_PipelineUrl a' = gh_ProjectUrl a' @ ''/actions/runs/7''"
proof -
  obtain a' where r: "github_Attest sample_ci_env (github_New sample_ci_env) = (a', None)"
    by (simp add: github_Attest_def github_New_def sample_ci_env_def Getenv_def fetchToken_def jwt_Attest_def
        jwt_New_def WithToken_def WithJWKSUrl_def Let_def)
  from github_attested [OF r] r show ?thesis by (simp add: Getenv_def sample_ci_env_def)
qed

text \<open>A job refers back to its pipeline, whatever the order in which the map of its subjects is visited: the back
  references of the GitHub, GitLab and Jenkins attestors are the one subject that names the pipeline's
  address.\<close>

theorem pipeline_backref:
  assumes "\<And>m :: (string, digest_set) gomap. set (order m) = set m"
  shows "github_BackRefs order lib a = [(''pipelineurl:'' @ gh_PipelineUrl a, sha256_digests lib (gh_PipelineUrl a))] \<and>
    gitlab_BackRefs order lib b = [(''pipelineurl:'' @ gl_PipelineUrl b, sha256_digests lib (gl_PipelineUrl b))] \<and>
    jenkins_BackRefs order lib c = [(''pipelineurl:'' @ jk_PipelineUrl c, sha256_digests lib (jk_PipelineUrl c))]"
proof -
  have other: "\<not> has_prefix (''projecturl:'' @ x) ''pipelineurl:''" "\<not> has_prefix (''joburl:'' @ x) ''pipelineurl:''"
    "\<not> has_prefix (''jenkinsurl:'' @ x) ''pipelineurl:''" "has_prefix (''pipelineurl:'' @ x) ''pipelineurl:''" for x
    by (simp_all add: has_prefix_def)
  show ?thesis unfolding github_BackRefs_def gitlab_BackRefs_def jenkins_BackRefs_def
    by (intro conjI first_backref_order [OF assms])
      (auto simp: github_Subjects_def gitlab_Subjects_def jenkins_Subjects_def record_subject_update other [simplified])
qed

theorem pipeline_backref_witness:
  "jenkins_BackRefs rev sample_lib (jenkins_New\<lparr>jk_PipelineUrl := ''u'', jk_JenkinsUrl := ''v''\<rparr>) =
     [(''pipelineurl:u'', sha256_digests sample_lib ''u'')]"
  using pipeline_backref [of rev sample_lib undefined undefined "jenkins_New\<lparr>jk_PipelineUrl := ''u'', jk_JenkinsUrl := ''v''\<rparr>"]
  by simp

text \<open>The environment attestor records exactly the variables that the context's capturer lets through: none that
  is sensitive with its value, every other with its last value.\<close>

theorem environment_attested:
  assumes "environment_attestor_Attest env ctx a = Return (ctx', a', err)"
  shows "err = None \<and> ea_OS a' = ci_GOOS env \<and>
    map_of (ea_Variables a') key =
      Option.bind (last_value (ea_osEnviron a) key)
        (captured (filterVarsEnabled (ac_environmentCapturer ctx)) (sensitive (ci_glob env) (ac_environmentCapturer ctx)) key)"
proof -
  from assms obtain c vs where c: "Capture_Capture (ci_glob env) (ac_environmentCapturer ctx) (ea_osEnviron a) = Return (c, vs)"
    and "err = None" "ea_OS a' = ci_GOOS env" "ea_Variables a' = vs"
    by (auto simp: environment_attestor_Attest_def Let_def split: sum.splits)
  with Capture_result [OF c] show ?thesis by blast
qed

theorem environment_attested_witness:
  "\<exists>ctx' a'. environment_attestor_Attest sample_ci_env (sample_context [] :: unit AttestationContext)
       (environment_attestor_New sample_ci_env [WithCustomEnv [''A=b'']]) = Return (ctx', a', None) \<and>
     map_of (ea_Variables a') ''Z'' = None"
proof -
  let ?ctx = "sample_context [] :: unit AttestationContext"
  let ?a = "environment_attestor_New sample_ci_env [WithCustomEnv [''A=b'']]"
  have "\<forall>k \<in> sensitive_keys (ac_environmentCapturer ?ctx). CHR ''*'' \<in> set k \<longrightarrow> (\<exists>m. ci_glob sample_ci_env k = Inr m)"
    by (simp add: sample_ci_env_def sample_glob_def)
  from Capture_total [OF this] obtain c vs where
    "Capture_Capture (ci_glob sample_ci_env) (ac_environmentCapturer ?ctx) (ea_osEnviron ?a) = Return (c, vs)" by blast
  then obtain ctx' a' err where r: "environment_attestor_Attest sample_ci_env ?ctx ?a = Return (ctx', a', err)"
    by (auto simp: environment_attestor_Attest_def Let_def sample_ci_env_def)
  have "last_value (ea_osEnviron ?a) ''Z'' = None"
    by (simp add: environment_attestor_New_def WithCustomEnv_def last_value_def splitVariable_def)
  with environment_attested [OF r, of "''Z''"] r show ?thesis by simp
qed

end
