(* ===== verification/Git_Attestor.thy ===== *)
theory Git_Attestor
  imports Ci_Attestors
begin

text \<open>
  The attestor of the source repository: \<open>attestation/git/git.go\<close> and \<open>attestation/git/git_bin.go\<close>.

  The go-git library, the \<open>git\<close> binary and the parsing of URLs are parameters, in \<open>git_env\<close>. A status code is a
  byte; the letters are the constants of go-git, which are those of \<open>git status --porcelain\<close>. An \<open>Attest\<close> that
  fails leaves what it has recorded so far.
\<close>

section \<open>Data\<close>

record git_status =
  gs_Staging :: string
  gs_Worktree :: string

record git_tag =
  gt_Name :: string
  gt_TaggerName :: string
  gt_TaggerEmail :: string
  gt_When :: string
  gt_PGPSignature :: string
  gt_Message :: string

record git_attestor =
  ga_GitTool :: string
  ga_GitBinPath :: string
  ga_GitBinHash :: digest_set
  ga_CommitHash :: string
  ga_Author :: string
  ga_AuthorEmail :: string
  ga_CommitterName :: string
  ga_CommitterEmail :: string
  ga_CommitDate :: string
  ga_CommitMessage :: string
  ga_Status :: "(string, git_status) gomap"
  ga_CommitDigest :: digest_set
  ga_Signature :: string
  ga_ParentHashes :: "string list"
  ga_TreeHash :: string
  ga_Refs :: "string list"
  ga_Remotes :: "string list"
  ga_Tags :: "git_tag list"
  ga_RefNameShort :: string

text \<open>What go-git yields: a reference with its hash, name and short name; a commit; an annotated tag with the
  hash of its target. The iterators over references and over tags may end with an error.\<close>

record git_ref =
  rf_Hash :: string
  rf_Name :: string
  rf_Short :: string

record git_commit =
  gc_Hash :: string
  gc_AuthorName :: string
  gc_AuthorEmail :: string
  gc_CommitterName :: string
  gc_CommitterEmail :: string
  gc_When :: string
  gc_Message :: string
  gc_PGPSignature :: string
  gc_ParentHashes :: "string list"
  gc_TreeHash :: string

record git_repo =
  rp_Head :: "gerr + git_ref"
  rp_CommitObject :: "string \<Rightarrow> gerr + git_commit"
  rp_Remotes :: "gerr + string list list"
  rp_References :: "gerr + git_ref list \<times> gerr option"
  rp_TagObjects :: "gerr + (string \<times> git_tag) list \<times> gerr option"
  rp_WorktreeStatus :: "gerr + (string, char \<times> char) gomap"

record git_env =
  gv_lib :: crypto_lib
  gv_PlainOpen :: "string \<Rightarrow> gerr + git_repo"
  gv_error_text :: "gerr \<Rightarrow> string"
  gv_without_user :: "string \<Rightarrow> gerr + string"
  gv_LookPath :: "gerr + string"
  gv_fileDigests :: "string \<Rightarrow> digest_value list \<Rightarrow> gerr + digest_set"
  gv_porcelain :: "string \<Rightarrow> gerr + string"

definition git_Name :: string where "git_Name = ''git''"
definition git_Type :: string where "git_Type = ''https://witness.dev/attestations/git/v0.1''"

definition git_New :: git_attestor where
  "git_New =
     \<lparr>ga_GitTool = [], ga_GitBinPath = [], ga_GitBinHash = [], ga_CommitHash = [], ga_Author = [], ga_AuthorEmail = [],
      ga_CommitterName = [], ga_CommitterEmail = [], ga_CommitDate = [], ga_CommitMessage = [], ga_Status = [],
      ga_CommitDigest = [], ga_Signature = [], ga_ParentHashes = [], ga_TreeHash = [], ga_Refs = [], ga_Remotes = [],
      ga_Tags = [], ga_RefNameShort = []\<rparr>"

section \<open>The status of the working tree\<close>

definition Unmodified :: char where "Unmodified = CHR '' ''"

definition statusCodeString :: "char \<Rightarrow> string" where
  "statusCodeString statusCode =
     (if statusCode = Unmodified then ''unmodified''
      else if statusCode = CHR ''?'' then ''untracked''
      else if statusCode = CHR ''M'' then ''modified''
      else if statusCode = CHR ''A'' then ''added''
      else if statusCode = CHR ''D'' then ''deleted''
      else if statusCode = CHR ''R'' then ''renamed''
      else if statusCode = CHR ''C'' then ''copied''
      else if statusCode = CHR ''U'' then ''updated''
      else [statusCode])"

definition GoGitGetStatus :: "git_repo \<Rightarrow> gerr + (string, git_status) gomap" where
  "GoGitGetStatus repo =
     (case rp_WorktreeStatus repo of
        Inl err \<Rightarrow> Inl err
      | Inr status \<Rightarrow>
          Inr (fold (\<lambda>(file, staging, worktree) gitStatuses.
              if worktree = Unmodified \<and> staging = Unmodified then gitStatuses
              else AList.update file \<lparr>gs_Staging = statusCodeString staging, gs_Worktree = statusCodeString worktree\<rparr> gitStatuses)
            status []))"

definition GitExists :: "git_env \<Rightarrow> bool" where
  "GitExists env = (case gv_LookPath env of Inl err \<Rightarrow> False | Inr path \<Rightarrow> True)"

definition GitGetBinPath :: "git_env \<Rightarrow> gerr + string" where
  "GitGetBinPath env = gv_LookPath env"

definition GitGetBinHash :: "git_env \<Rightarrow> digest_value list \<Rightarrow> gerr + digest_set" where
  "GitGetBinHash env hashes =
     (case gv_LookPath env of
        Inl err \<Rightarrow> Inl err
      | Inr path \<Rightarrow> gv_fileDigests env path hashes)"

definition index_panic :: string where "index_panic = ''index out of range''"

definition status_line :: "string \<Rightarrow> (string, git_status) gomap \<Rightarrow> (string, git_status) gomap outcome" where
  "status_line line gitStatuses =
     (case line of
        [] \<Rightarrow> Return gitStatuses
      | [_] \<Rightarrow> Panic index_panic
      | x # y # rest \<Rightarrow>
          Return (AList.update (trim_space rest)
            \<lparr>gs_Staging = statusCodeString x, gs_Worktree = statusCodeString y\<rparr> gitStatuses))"

definition GitGetStatus :: "git_env \<Rightarrow> string \<Rightarrow> (gerr + (string, git_status) gomap) outcome" where
  "GitGetStatus env workDir =
     (case gv_porcelain env workDir of
        Inl err \<Rightarrow> Return (Inl err)
      | Inr output \<Rightarrow>
          bindO (foldO status_line (split_at (CHR 0x0A) output) []) (\<lambda>gitStatuses. Return (Inr gitStatuses)))"

section \<open>Attest\<close>

text \<open>The addresses of a remote, without user information where they parse.\<close>

definition remote_address :: "git_env \<Rightarrow> string \<Rightarrow> string" where
  "remote_address env urlStr = (case gv_without_user env urlStr of Inl err \<Rightarrow> urlStr | Inr stripped \<Rightarrow> stripped)"

text \<open>The last part: the tool, and the status of the working tree.\<close>

definition attest_status ::
  "git_env \<Rightarrow> 'd AttestationContext \<Rightarrow> git_repo \<Rightarrow> git_attestor \<Rightarrow> (git_attestor \<times> gerr option) outcome" where
  "attest_status env ctx repo a =
     (if GitExists env
      then (let a = a\<lparr>ga_GitTool := ''go-git+git-bin''\<rparr>
            in case GitGetBinPath env of
                 Inl err \<Rightarrow> Return (a\<lparr>ga_GitBinPath := []\<rparr>, Some err)
               | Inr path \<Rightarrow>
                   (let a = a\<lparr>ga_GitBinPath := path\<rparr>
                    in case GitGetBinHash env (ac_hashes ctx) of
                         Inl err \<Rightarrow> Return (a\<lparr>ga_GitBinHash := []\<rparr>, Some err)
                       | Inr hash \<Rightarrow>
                           (let a = a\<lparr>ga_GitBinHash := hash\<rparr>
                            in bindO (GitGetStatus env (ac_workingDir ctx)) (\<lambda>status. Return
                                 (case status of
                                    Inl err \<Rightarrow> (a\<lparr>ga_Status := []\<rparr>, Some err)
                                  | Inr st \<Rightarrow> (a\<lparr>ga_Status := st\<rparr>, None))))))
      else (let a = a\<lparr>ga_GitTool := ''go-git''\<rparr>
            in Return (case GoGitGetStatus repo of
                         Inl err \<Rightarrow> (a\<lparr>ga_Status := []\<rparr>, Some err)
                       | Inr st \<Rightarrow> (a\<lparr>ga_Status := st\<rparr>, None))))"

definition attest_tags ::
  "git_env \<Rightarrow> 'd AttestationContext \<Rightarrow> git_repo \<Rightarrow> git_ref \<Rightarrow> git_commit \<Rightarrow> git_attestor \<Rightarrow> (git_attestor \<times> gerr option) outcome" where
  "attest_tags env ctx repo head commit a =
     (let a = a\<lparr>ga_CommitHash := rf_Hash head, ga_Author := gc_AuthorName commit, ga_AuthorEmail := gc_AuthorEmail commit,
                ga_CommitterName := gc_CommitterName commit, ga_CommitterEmail := gc_CommitterEmail commit,
                ga_CommitDate := gc_When commit, ga_CommitMessage := gc_Message commit,
                ga_Signature := gc_PGPSignature commit, ga_RefNameShort := rf_Short head,
                ga_ParentHashes := ga_ParentHashes a @ gc_ParentHashes commit\<rparr>
      in case rp_TagObjects repo of
           Inl err \<Rightarrow> Return (a, Some (Errorf ''get tags error: %s'' [FErr err]))
         | Inr (tags, Some err) \<Rightarrow> Return (a, Some (Errorf ''iterate tags error: %s'' [FErr err]))
         | Inr (tags, None) \<Rightarrow>
             attest_status env ctx repo
               (a\<lparr>ga_Tags := map snd (filter (\<lambda>(target, t). target = rf_Hash head) tags),
                  ga_TreeHash := gc_TreeHash commit\<rparr>))"

definition git_Attest ::
  "git_env \<Rightarrow> 'd AttestationContext \<Rightarrow> git_attestor \<Rightarrow> (git_attestor \<times> gerr option) outcome" where
  "git_Attest env ctx a =
     (case gv_PlainOpen env (ac_workingDir ctx) of
        Inl err \<Rightarrow> Return (a, Some err)
      | Inr repo \<Rightarrow>
          (case rp_Head repo of
             Inl err \<Rightarrow> Return (a, if contains (gv_error_text env err) ''reference not found'' then None else Some err)
           | Inr head \<Rightarrow>
               (case rp_CommitObject repo (rf_Hash head) of
                  Inl err \<Rightarrow> Return (a, Some err)
                | Inr commit \<Rightarrow>
                    (let a = a\<lparr>ga_CommitDigest := [(plain_digest SHA1, gc_Hash commit)]\<rparr>
                     in case rp_Remotes repo of
                          Inl err \<Rightarrow> Return (a, Some err)
                        | Inr remotes \<Rightarrow>
                            (let a = a\<lparr>ga_Remotes := ga_Remotes a @ map (remote_address env) (concat remotes)\<rparr>
                             in case rp_References repo of
                                  Inl err \<Rightarrow> Return (a, Some err)
                                | Inr (refs, iter) \<Rightarrow>
                                    (let a = a\<lparr>ga_Refs := ga_Refs a @
                                           map rf_Name (filter (\<lambda>ref. rf_Hash ref = rf_Hash head) refs)\<rparr>
                                     in case iter of
                                          Some err \<Rightarrow> Return (a, Some err)
                                        | None \<Rightarrow> attest_tags env ctx repo head commit a))))))"

section \<open>Subjects\<close>

definition git_BackRefs :: "git_attestor \<Rightarrow> (string, digest_set) gomap" where
  "git_BackRefs a = [(''commithash:'' @ ga_CommitHash a, [(plain_digest SHA1, ga_CommitHash a)])]"

text \<open>A digest that cannot be computed ends the function with a nil map (\<open>None\<close>).\<close>

primrec digest_subjects ::
  "crypto_lib \<Rightarrow> (string \<times> string) list \<Rightarrow> (string, digest_set) gomap \<Rightarrow> (string, digest_set) gomap option" where
  "digest_subjects lib [] subjects = Some subjects"
| "digest_subjects lib (kv # kvs) subjects =
     (case CalculateDigestSetFromBytes lib (snd kv) [plain_digest SHA256] of
        (_, Some err) \<Rightarrow> None
      | (ds, None) \<Rightarrow> digest_subjects lib kvs (AList.update (fst kv @ snd kv) ds subjects))"

definition git_Subjects :: "crypto_lib \<Rightarrow> git_attestor \<Rightarrow> (string, digest_set) gomap" where
  "git_Subjects lib a =
     (case digest_subjects lib
             ([(''authoremail:'', ga_AuthorEmail a), (''committeremail:'', ga_CommitterEmail a)] @
              map (Pair ''parenthash:'') (ga_ParentHashes a) @ [(''refnameshort:'', ga_RefNameShort a)])
             [(''commithash:'' @ ga_CommitHash a, [(plain_digest SHA1, ga_CommitHash a)])] of
        None \<Rightarrow> [] | Some subjects \<Rightarrow> subjects)"

section \<open>Lemmas\<close>

text \<open>A line of one character panics; a longer one has two status letters and a path, with the white space around it
  removed. The entry of a path is that of the last line for it.\<close>

definition line_path :: "string \<Rightarrow> string" where
  "line_path l = trim_space (drop 2 l)"

definition line_status :: "string \<Rightarrow> git_status" where
  "line_status l = \<lparr>gs_Staging = statusCodeString (l ! 0), gs_Worktree = statusCodeString (l ! 1)\<rparr>"

lemma status_line_panics: "length l = 1 \<Longrightarrow> status_line l m = Panic index_panic"
  by (auto simp: status_line_def length_Suc_conv)

lemma status_line_return:
  "length l \<noteq> 1 \<Longrightarrow> status_line l m = Return (if l = [] then m else AList.update (line_path l) (line_status l) m)"
  by (auto simp: status_line_def line_path_def line_status_def split: list.splits)

lemma status_lines:
  "foldO status_line ls m =
     (if \<exists>l \<in> set ls. length l = 1 then Panic index_panic
      else Return (fold (\<lambda>l. AList.update (line_path l) (line_status l)) (filter (\<lambda>l. l \<noteq> []) ls) m))"
proof (induction ls arbitrary: m)
  case (Cons l ls)
  then show ?case by (cases "length l = 1") (auto simp: status_line_panics status_line_return)
qed simp

lemma fold_last_entry:
  "map_of (fold (\<lambda>l. AList.update (f l) (g l)) ls m) k =
     (case filter (\<lambda>l. f l = k) (rev ls) of [] \<Rightarrow> map_of m k | l # _ \<Rightarrow> Some (g l))"
proof (induction ls arbitrary: m)
  case (Cons l ls)
  then show ?case by (cases "filter (\<lambda>l. f l = k) (rev ls)") (simp_all add: update_conv')
qed simp

lemma entries_map_ok: "gomap_ok m \<Longrightarrow> gomap_ok (fold (\<lambda>l. AList.update (f l) (g l)) ls m)"
  by (induction ls arbitrary: m) simp_all

text \<open>What go-git reports, without the files that are unmodified in both places.\<close>

lemma go_git_entries:
  assumes "gomap_ok status"
  shows "map_of (fold (\<lambda>(file, staging, worktree) m.
      if worktree = Unmodified \<and> staging = Unmodified then m
      else AList.update file \<lparr>gs_Staging = statusCodeString staging, gs_Worktree = statusCodeString worktree\<rparr> m) status m) path =
    (case map_of status path of
       None \<Rightarrow> map_of m path
     | Some (staging, worktree) \<Rightarrow>
         if worktree = Unmodified \<and> staging = Unmodified then map_of m path
         else Some \<lparr>gs_Staging = statusCodeString staging, gs_Worktree = statusCodeString worktree\<rparr>)"
  using assms
proof (induction status arbitrary: m)
  case (Cons e status)
  obtain f x y where e: "e = (f, x, y)" by (metis prod.exhaust)
  have ok: "gomap_ok status" and new: "map_of status f = None"
    using Cons.prems by (auto simp: gomap_ok_def e map_of_eq_None_iff)
  show ?case
    unfolding e fold_Cons comp_apply prod.case Cons.IH [OF ok]
    using new by (cases "f = path") (simp_all add: update_conv' split: option.splits)
qed simp

section \<open>Properties\<close>

text \<open>C31. The status of the working tree, exactly as it is recorded. With the \<open>git\<close> binary, whatever its output: parsing
  panics just when a line of the output has one character, and otherwise yields a map in which the status of a path is
  that of the last line that has the path after its first two characters, white space trimmed; the first character is
  the status of staging and the second that of the working tree, and there is no other entry. The paths are those of
  git's output: a rename is recorded under \<open>old -> new\<close>, a quoted path with its quotes, and untracked directories as
  one entry each (\<open>git_output_paths\<close>), so the map is not go-git's. Without the binary it is what go-git reports, path by
  path, without the files that are unmodified in both places.\<close>

theorem git_status_exact:
  "(case gv_porcelain env workDir of
      Inl err \<Rightarrow> GitGetStatus env workDir = Return (Inl err)
    | Inr output \<Rightarrow>
        if \<exists>l \<in> set (split_at (CHR 0x0A) output). length l = 1 then GitGetStatus env workDir = Panic index_panic
        else \<exists>m. GitGetStatus env workDir = Return (Inr m) \<and> gomap_ok m \<and>
          (\<forall>path. map_of m path =
             (case filter (\<lambda>l. l \<noteq> [] \<and> trim_space (drop 2 l) = path) (rev (split_at (CHR 0x0A) output)) of
                [] \<Rightarrow> None
              | l # _ \<Rightarrow> Some \<lparr>gs_Staging = statusCodeString (l ! 0), gs_Worktree = statusCodeString (l ! 1)\<rparr>))) \<and>
   (\<forall>status. rp_WorktreeStatus repo = Inr status \<and> gomap_ok status \<longrightarrow>
      (\<exists>m. GoGitGetStatus repo = Inr m \<and>
         (\<forall>path. map_of m path =
            (case map_of status path of
               None \<Rightarrow> None
             | Some (staging, worktree) \<Rightarrow>
                 if worktree = Unmodified \<and> staging = Unmodified then None
                 else Some \<lparr>gs_Staging = statusCodeString staging, gs_Worktree = statusCodeString worktree\<rparr>))))"
proof (rule conjI)
  show "case gv_porcelain env workDir of
      Inl err \<Rightarrow> GitGetStatus env workDir = Return (Inl err)
    | Inr output \<Rightarrow>
        if \<exists>l \<in> set (split_at (CHR 0x0A) output). length l = 1 then GitGetStatus env workDir = Panic index_panic
        else \<exists>m. GitGetStatus env workDir = Return (Inr m) \<and> gomap_ok m \<and>
          (\<forall>path. map_of m path =
             (case filter (\<lambda>l. l \<noteq> [] \<and> trim_space (drop 2 l) = path) (rev (split_at (CHR 0x0A) output)) of
                [] \<Rightarrow> None
              | l # _ \<Rightarrow> Some \<lparr>gs_Staging = statusCodeString (l ! 0), gs_Worktree = statusCodeString (l ! 1)\<rparr>))"
  proof (cases "gv_porcelain env workDir")
    case (Inr out)
    let ?lines = "split_at (CHR 0x0A) out"
    have both: "filter (\<lambda>l. line_path l = path) (rev (filter (\<lambda>l. l \<noteq> []) ?lines)) =
        filter (\<lambda>l. l \<noteq> [] \<and> trim_space (drop 2 l) = path) (rev ?lines)" for path
      by (simp add: rev_filter [symmetric] line_path_def conj_commute)
    show ?thesis
      unfolding Inr sum.case GitGetStatus_def status_lines
      by (simp add: fold_last_entry both entries_map_ok line_status_def cong: list.case_cong)
  qed (simp add: GitGetStatus_def)
  show "\<forall>status. rp_WorktreeStatus repo = Inr status \<and> gomap_ok status \<longrightarrow>
      (\<exists>m. GoGitGetStatus repo = Inr m \<and>
         (\<forall>path. map_of m path =
            (case map_of status path of
               None \<Rightarrow> None
             | Some (staging, worktree) \<Rightarrow>
                 if worktree = Unmodified \<and> staging = Unmodified then None
                 else Some \<lparr>gs_Staging = statusCodeString staging, gs_Worktree = statusCodeString worktree\<rparr>)))"
    by (auto simp: GoGitGetStatus_def go_git_entries split: option.splits)
qed

text \<open>A sample repository: one commit with a branch and a tag on it, one remote whose address carries a user, and a
  modified and an untracked file.\<close>

definition sample_git_repo :: git_repo where
  "sample_git_repo =
     \<lparr>rp_Head = Inr \<lparr>rf_Hash = ''c1'', rf_Name = ''refs/heads/main'', rf_Short = ''main''\<rparr>,
      rp_CommitObject = \<lambda>hash. Inr \<lparr>gc_Hash = hash, gc_AuthorName = ''a'', gc_AuthorEmail = ''a@x'', gc_CommitterName = ''c'',
        gc_CommitterEmail = ''c@x'', gc_When = ''t'', gc_Message = ''m'', gc_PGPSignature = [], gc_ParentHashes = [''p''],
        gc_TreeHash = ''tree''\<rparr>,
      rp_Remotes = Inr [[''https://u@x/r'']],
      rp_References = Inr ([\<lparr>rf_Hash = ''c1'', rf_Name = ''refs/heads/main'', rf_Short = ''main''\<rparr>,
        \<lparr>rf_Hash = ''c0'', rf_Name = ''refs/heads/old'', rf_Short = ''old''\<rparr>], None),
      rp_TagObjects = Inr ([], None),
      rp_WorktreeStatus = Inr [(''f.go'', CHR '' '', CHR ''M''), (''g.go'', CHR '' '', CHR '' ''), (''new'', CHR ''?'', CHR ''?'')]\<rparr>"

definition sample_git_env :: git_env where
  "sample_git_env =
     \<lparr>gv_lib = sample_lib, gv_PlainOpen = \<lambda>dir. Inr sample_git_repo, gv_error_text = \<lambda>e. ''reference not found'',
      gv_without_user = \<lambda>url. if url = ''https://u@x/r'' then Inr ''https://x/r'' else Inl (LibError ''url''),
      gv_LookPath = Inr ''/usr/bin/git'', gv_fileDigests = \<lambda>path hashes. Inr [],
      gv_porcelain = \<lambda>dir. Inr ('' M f.go'' @ [CHR 0x0A] @ ''?? new'' @ [CHR 0x0A])\<rparr>"

lemma sample_git_status: "GitGetStatus sample_git_env ''.'' =
   Return (Inr [(''f.go'', \<lparr>gs_Staging = ''unmodified'', gs_Worktree = ''modified''\<rparr>),
                (''new'', \<lparr>gs_Staging = ''untracked'', gs_Worktree = ''untracked''\<rparr>)])"
  by code_simp

theorem git_status_exact_witness:
  "(\<exists>m. GitGetStatus sample_git_env ''.'' = Return (Inr m) \<and>
      map_of m ''f.go'' = Some \<lparr>gs_Staging = ''unmodified'', gs_Worktree = ''modified''\<rparr>) \<and>
   (\<exists>m. GoGitGetStatus sample_git_repo = Inr m \<and> map_of m ''g.go'' = None)"
proof -
  have lines: "split_at (CHR 0x0A) ('' M f.go'' @ [CHR 0x0A] @ ''?? new'' @ [CHR 0x0A]) = ['' M f.go'', ''?? new'', []]"
    and found: "filter (\<lambda>l. l \<noteq> [] \<and> trim_space (drop 2 l) = ''f.go'') (rev ['' M f.go'', ''?? new'', []]) = ['' M f.go'']"
    and letters: "statusCodeString ('' M f.go'' ! 0) = ''unmodified''" "statusCodeString ('' M f.go'' ! 1) = ''modified''"
    by code_simp+
  have out: "gv_porcelain sample_git_env ''.'' = Inr ('' M f.go'' @ [CHR 0x0A] @ ''?? new'' @ [CHR 0x0A])"
    by (simp add: sample_git_env_def)
  have tree: "rp_WorktreeStatus sample_git_repo =
      Inr [(''f.go'', CHR '' '', CHR ''M''), (''g.go'', CHR '' '', CHR '' ''), (''new'', CHR ''?'', CHR ''?'')]"
    by (simp add: sample_git_repo_def)
  note exact = git_status_exact [of sample_git_env "''.''" sample_git_repo, unfolded out tree sum.case lines]
  have long: "(\<exists>l \<in> set ['' M f.go'', ''?? new'', []]. length l = 1) = False" by code_simp
  from exact [THEN conjunct1, unfolded long if_False] obtain m where "GitGetStatus sample_git_env ''.'' = Return (Inr m)"
    "\<forall>path. map_of m path = (case filter (\<lambda>l. l \<noteq> [] \<and> trim_space (drop 2 l) = path) (rev ['' M f.go'', ''?? new'', []]) of
        [] \<Rightarrow> None | l # _ \<Rightarrow> Some \<lparr>gs_Staging = statusCodeString (l ! 0), gs_Worktree = statusCodeString (l ! 1)\<rparr>)"
    by blast
  then have "\<exists>m. GitGetStatus sample_git_env ''.'' = Return (Inr m) \<and>
      map_of m ''f.go'' = Some \<lparr>gs_Staging = ''unmodified'', gs_Worktree = ''modified''\<rparr>"
    by (auto simp only: found letters list.case)
  moreover from exact [THEN conjunct2] have "\<exists>m. GoGitGetStatus sample_git_repo = Inr m \<and> map_of m ''g.go'' = None"
    by (auto simp: gomap_ok_def Unmodified_def)
  ultimately show ?thesis ..
qed

text \<open>Renamed, quoted and untracked paths are recorded as git prints them.\<close>

lemma git_output_paths:
  assumes "gv_porcelain env workDir =
    Inr (''R  a -> b'' @ [CHR 0x0A] @ ''?? '' @ [CHR 0x22] @ ''x y'' @ [CHR 0x22] @ [CHR 0x0A] @ ''?? dir/'' @ [CHR 0x0A])"
  shows "GitGetStatus env workDir = Return (Inr
    [(''a -> b'', \<lparr>gs_Staging = ''renamed'', gs_Worktree = ''unmodified''\<rparr>),
     ([CHR 0x22] @ ''x y'' @ [CHR 0x22], \<lparr>gs_Staging = ''untracked'', gs_Worktree = ''untracked''\<rparr>),
     (''dir/'', \<lparr>gs_Staging = ''untracked'', gs_Worktree = ''untracked''\<rparr>)])"
proof -
  have "foldO status_line (split_at (CHR 0x0A)
      (''R  a -> b'' @ [CHR 0x0A] @ ''?? '' @ [CHR 0x22] @ ''x y'' @ [CHR 0x22] @ [CHR 0x0A] @ ''?? dir/'' @ [CHR 0x0A])) [] = Return
    [(''a -> b'', \<lparr>gs_Staging = ''renamed'', gs_Worktree = ''unmodified''\<rparr>),
     ([CHR 0x22] @ ''x y'' @ [CHR 0x22], \<lparr>gs_Staging = ''untracked'', gs_Worktree = ''untracked''\<rparr>),
     (''dir/'', \<lparr>gs_Staging = ''untracked'', gs_Worktree = ''untracked''\<rparr>)]" by code_simp
  then show ?thesis unfolding GitGetStatus_def assms by simp
qed

text \<open>A git attestation describes the commit that is checked out: its hash and its digest are those of HEAD, its
  references and tags are those that point to HEAD, and no remote whose address parses is recorded with
  user information.\<close>

theorem git_Attest_exact:
  assumes "gv_PlainOpen env (ac_workingDir ctx) = Inr repo" and "rp_Head repo = Inr head"
    and "git_Attest env ctx git_New = Return (a, None)"
  shows "\<exists>commit remotes refs tags. rp_CommitObject repo (rf_Hash head) = Inr commit \<and> rp_Remotes repo = Inr remotes \<and>
    rp_References repo = Inr (refs, None) \<and> rp_TagObjects repo = Inr (tags, None) \<and>
    ga_CommitHash a = rf_Hash head \<and> ga_CommitDigest a = [(plain_digest SHA1, gc_Hash commit)] \<and>
    ga_Refs a = map rf_Name (filter (\<lambda>ref. rf_Hash ref = rf_Hash head) refs) \<and>
    ga_Tags a = map snd (filter (\<lambda>t. fst t = rf_Hash head) tags) \<and>
    ga_Remotes a = map (remote_address env) (concat remotes) \<and>
    git_BackRefs a = [(''commithash:'' @ rf_Hash head, [(plain_digest SHA1, rf_Hash head)])]"
proof -
  have status: "ga_CommitHash b' = ga_CommitHash b \<and>
      ga_CommitDigest b' = ga_CommitDigest b \<and> ga_Refs b' = ga_Refs b \<and> ga_Tags b' = ga_Tags b \<and>
      ga_Remotes b' = ga_Remotes b" if "attest_status env ctx repo b = Return (b', None)" for b b'
  proof (cases "GitGetStatus env (ac_workingDir ctx)")
    case (Return st)
    with that show ?thesis by (cases st) (auto simp: attest_status_def Let_def split: if_splits sum.splits)
  qed (use that in \<open>auto simp: attest_status_def Let_def split: if_splits sum.splits\<close>)
  have tags: "attest_tags env ctx repo head commit b = Return (b', None) \<Longrightarrow> \<exists>tags. rp_TagObjects repo = Inr (tags, None) \<and>
      ga_CommitHash b' = rf_Hash head \<and> ga_CommitDigest b' = ga_CommitDigest b \<and> ga_Refs b' = ga_Refs b \<and>
      ga_Tags b' = map snd (filter (\<lambda>(target, t). target = rf_Hash head) tags) \<and> ga_Remotes b' = ga_Remotes b" for commit b b'
    by (auto simp: attest_tags_def Let_def split: sum.splits prod.splits option.splits dest!: status)
  have pick: "(\<lambda>(target, t). target = rf_Hash head) = (\<lambda>t :: string \<times> git_tag. fst t = rf_Hash head)" by auto
  show ?thesis using assms
    by (auto simp: git_Attest_def Let_def git_New_def git_BackRefs_def pick split: sum.splits prod.splits option.splits dest!: tags)
qed

theorem git_Attest_exact_witness:
  "\<exists>a. git_Attest sample_git_env (sample_context [] :: unit AttestationContext) git_New = Return (a, None) \<and>
     ga_Refs a = [''refs/heads/main''] \<and> ga_Remotes a = [''https://x/r''] \<and> ga_CommitHash a = ''c1''"
proof -
  let ?ctx = "sample_context [] :: unit AttestationContext"
  have "case git_Attest sample_git_env ?ctx git_New of Return (a, e) \<Rightarrow> e = None | Panic m \<Rightarrow> False" by code_simp
  then obtain a where a: "git_Attest sample_git_env ?ctx git_New = Return (a, None)" by (auto split: outcome.splits)
  have repo: "gv_PlainOpen sample_git_env (ac_workingDir ?ctx) = Inr sample_git_repo"
    and head: "rp_Head sample_git_repo = Inr \<lparr>rf_Hash = ''c1'', rf_Name = ''refs/heads/main'', rf_Short = ''main''\<rparr>"
    by (simp_all add: sample_git_env_def sample_git_repo_def)
  from git_Attest_exact [OF repo head a] a show ?thesis
    by (auto simp: sample_git_repo_def sample_git_env_def remote_address_def)
qed

text \<open>In a repository without a commit the attestor succeeds, records nothing, and still publishes a subject and
  a back reference: the empty commit hash, with an empty digest.\<close>

theorem empty_repository_attested:
  assumes "gv_PlainOpen env (ac_workingDir ctx) = Inr repo" and "rp_Head repo = Inl err"
    and "contains (gv_error_text env err) ''reference not found''"
  shows "git_Attest env ctx git_New = Return (git_New, None) \<and>
    git_BackRefs git_New = [(''commithash:'', [(plain_digest SHA1, [])])] \<and>
    map_of (git_Subjects lib git_New) ''commithash:'' = Some [(plain_digest SHA1, [])]"
proof -
  have "map_of (git_Subjects lib git_New) ''commithash:'' = Some [(plain_digest SHA1, [])]"
    by (simp add: git_Subjects_def git_New_def CalculateDigestSetFromBytes_def CalculateDigestSet_def)
  then show ?thesis using assms by (simp add: git_Attest_def git_BackRefs_def git_New_def)
qed

theorem empty_repository_attested_witness:
  "git_Attest (sample_git_env\<lparr>gv_PlainOpen := \<lambda>dir. Inr (sample_git_repo\<lparr>rp_Head := Inl (LibError ''HEAD'')\<rparr>)\<rparr>)
     (sample_context [] :: unit AttestationContext) git_New = Return (git_New, None)"
  by (rule empty_repository_attested [of _ _ "sample_git_repo\<lparr>rp_Head := Inl (LibError ''HEAD'')\<rparr>" "LibError ''HEAD''", THEN conjunct1])
    (simp_all add: sample_git_env_def has_prefix_def)

end
