(* ===== verification/Provenance_Attestors.thy ===== *)
theory Provenance_Attestors
  imports Git_Attestor Artifact_Attestors
begin

text \<open>
  The attestors that retell what the other attestors of a run attested: \<open>attestation/link/link.go\<close> and
  \<open>attestation/slsa/slsa.go\<close>.

  They look at the completed attestors by name and assert the type that belongs to the name; \<open>prov_env\<close> has
  these assertions for the attestors whose data are read (\<open>None\<close> when an attestor does not have the type, so
  that the assertion panics), and \<open>structpb.NewStruct\<close>.
\<close>

section \<open>What the attestors read\<close>

record 'd prov_env =
  pv_commandrun :: "'d \<Rightarrow> CommandRun option"
  pv_environment :: "'d \<Rightarrow> environment_attestor option"
  pv_git :: "'d \<Rightarrow> git_attestor option"
  pv_github :: "'d \<Rightarrow> github_attestor option"
  pv_gitlab :: "'d \<Rightarrow> gitlab_attestor option"
  pv_jenkins :: "'d \<Rightarrow> jenkins_attestor option"
  pv_codebuild :: "'d \<Rightarrow> codebuild_attestor option"
  pv_NewStruct :: "(string, json) gomap \<Rightarrow> gerr + string"

definition assertion_panic :: string where "assertion_panic = ''interface conversion''"

definition asserted :: "'b option \<Rightarrow> 'b outcome" where
  "asserted m = (case m of None \<Rightarrow> Panic assertion_panic | Some x \<Rightarrow> Return x)"

text \<open>A resource descriptor: its name and its digests by name. Digests whose hash has no name end the
  conversion, whose error is ignored.\<close>

type_synonym resource = "string \<times> (string, string) gomap"

definition descriptor :: "string \<times> digest_set \<Rightarrow> resource" where
  "descriptor m = (fst m, fst (ToNameMap (snd m)))"

definition string_values :: "(string, string) gomap \<Rightarrow> (string, json) gomap" where
  "string_values envs = put_all (map (\<lambda>(name, val). (name, JString val)) envs) []"

definition file_subjects :: "(string, Product) gomap \<Rightarrow> (string, digest_set) gomap" where
  "file_subjects products =
     fold (\<lambda>(productName, p) subjects. AList.update (''file:'' @ productName) (pr_Digest p) subjects) products []"

section \<open>Link\<close>

definition link_Name :: string where "link_Name = ''link''"
definition link_Type :: string where "link_Type = ''https://in-toto.io/attestation/link/v0.3''"

record link =
  lk_Name :: string
  lk_Command :: "string list"
  lk_Materials :: "resource list"
  lk_Environment :: "string option"
  lk_products :: "(string, Product) gomap"
  lk_export :: bool

definition link_WithExport :: "bool \<Rightarrow> link \<Rightarrow> link" where
  "link_WithExport export l = l\<lparr>lk_export := export\<rparr>"

definition link_New :: link where
  "link_New =
     \<lparr>lk_Name = [], lk_Command = [], lk_Materials = [], lk_Environment = None, lk_products = [], lk_export = False\<rparr>"

definition link_step ::
  "'d prov_env \<Rightarrow> 'd CompletedAttestor \<Rightarrow> link \<times> gerr option \<Rightarrow> (link \<times> gerr option) outcome" where
  "link_step env completed s =
     (case s of
        (l, Some err) \<Rightarrow> Return s
      | (l, None) \<Rightarrow>
          (let a = cpl_Attestor completed; name = att_Name a
           in if name = commandrun_Name
              then bindO (asserted (pv_commandrun env (att_state a))) (\<lambda>rc. Return (l\<lparr>lk_Command := cr_Cmd rc\<rparr>, None))
              else if name = material_Name
              then bindO (asserted (att_Materials a)) (\<lambda>mats.
                     Return (l\<lparr>lk_Materials := lk_Materials l @ map descriptor mats\<rparr>, None))
              else if name = environment_attestor_Name
              then bindO (asserted (pv_environment env (att_state a))) (\<lambda>ea.
                     case pv_NewStruct env (string_values (ea_Variables ea)) of
                       Inl err \<Rightarrow> Return (l\<lparr>lk_Environment := None\<rparr>, Some err)
                     | Inr st \<Rightarrow> Return (l\<lparr>lk_Environment := Some st\<rparr>, None))
              else if name = ProductName
              then bindO (asserted (att_Products a)) (\<lambda>prods. Return (l\<lparr>lk_products := prods\<rparr>, None))
              else Return (l, None)))"

definition link_Attest ::
  "'d prov_env \<Rightarrow> 'd AttestationContext \<Rightarrow> link \<Rightarrow> (link \<times> gerr option) outcome" where
  "link_Attest env ctx l =
     foldO (link_step env) (ac_completedAttestors ctx) (l\<lparr>lk_Name := ac_stepName ctx\<rparr>, None)"

definition link_Export :: "link \<Rightarrow> bool" where "link_Export l = lk_export l"

definition link_Subjects :: "link \<Rightarrow> (string, digest_set) gomap" where
  "link_Subjects l = file_subjects (lk_products l)"

section \<open>SLSA provenance\<close>

definition slsa_Name :: string where "slsa_Name = ''slsa''"
definition slsa_Type :: string where "slsa_Type = ''https://slsa.dev/provenance/v1.0''"
definition BuildType :: string where "BuildType = ''https://witness.dev/slsa-build@v0.1''"
definition DefaultBuilderId :: string where "DefaultBuilderId = ''https://witness.dev/witness-default-builder@v0.1''"
definition GHABuilderId :: string where "GHABuilderId = ''https://witness.dev/witness-github-action-builder@v0.1''"
definition GLCBuilderId :: string where "GLCBuilderId = ''https://witness.dev/witness-gitlab-component-builder@v0.1''"
definition JenkinsBuilderId :: string where "JenkinsBuilderId = ''https://witness.dev/witness-jenkins-component-builder@v0.1''"
definition AWSCodeBuildBuilderId :: string where
  "AWSCodeBuildBuilderId = ''https://witness.dev/witness-aws-codebuild-builder@v0.1''"
definition oci_Name :: string where "oci_Name = ''oci''"

record provenance =
  sl_BuildType :: string
  sl_ExternalParameters :: "string option"
  sl_InternalParameters :: "string option"
  sl_ResolvedDependencies :: "resource list"
  sl_BuilderId :: string
  sl_InvocationId :: string
  sl_StartedOn :: "gtime option"
  sl_FinishedOn :: "gtime option"
  sl_products :: "(string, Product) gomap option"
  sl_subjects :: "(string, digest_set) gomap option"
  sl_export :: bool

definition slsa_WithExport :: "bool \<Rightarrow> provenance \<Rightarrow> provenance" where
  "slsa_WithExport export p = p\<lparr>sl_export := export\<rparr>"

definition slsa_New :: provenance where
  "slsa_New =
     \<lparr>sl_BuildType = [], sl_ExternalParameters = None, sl_InternalParameters = None, sl_ResolvedDependencies = [],
      sl_BuilderId = [], sl_InvocationId = [], sl_StartedOn = None, sl_FinishedOn = None, sl_products = None,
      sl_subjects = None, sl_export = False\<rparr>"

definition merge_map :: "('k, 'v) gomap option \<Rightarrow> ('k, 'v) gomap \<Rightarrow> ('k, 'v) gomap option" where
  "merge_map old new = Some (case old of None \<Rightarrow> new | Some m \<Rightarrow> put_all new m)"

text \<open>The claim \<open>sha\<close> of a token, which must be a string. Its value goes into a map that is not used.\<close>

definition string_claim :: "json \<Rightarrow> string outcome" where
  "string_claim c = (case c of JString s \<Rightarrow> Return s | _ \<Rightarrow> Panic assertion_panic)"

definition github_sha :: "github_attestor \<Rightarrow> unit outcome" where
  "github_sha gh =
     (case gh_JWT gh of
        None \<Rightarrow> Return ()
      | Some token \<Rightarrow>
          bindO (case map_of (jw_Claims token) ''sha'' of None \<Rightarrow> Panic assertion_panic | Some c \<Rightarrow> string_claim c)
            (\<lambda>sha. Return ()))"

definition gitlab_sha :: "gitlab_attestor \<Rightarrow> unit outcome" where
  "gitlab_sha gl =
     (case gl_JWT gl of
        None \<Rightarrow> Return ()
      | Some token \<Rightarrow>
          (case map_of (jw_Claims token) ''sha'' of None \<Rightarrow> Return () | Some c \<Rightarrow> bindO (string_claim c) (\<lambda>sha. Return ())))"

type_synonym slsa_state = "provenance \<times> (string, string) gomap option \<times> gerr option"

definition slsa_step ::
  "'d prov_env \<Rightarrow> 'd AttestationContext \<Rightarrow> 'd CompletedAttestor \<Rightarrow> slsa_state \<Rightarrow> slsa_state outcome" where
  "slsa_step env ctx completed s =
     (case s of
        (p, params, Some err) \<Rightarrow> Return s
      | (p, params, None) \<Rightarrow>
          (let a = cpl_Attestor completed; name = att_Name a; d = att_state a; keep = (\<lambda>p. Return (p, params, None))
           in if name = environment_attestor_Name
              then bindO (asserted (pv_environment env d)) (\<lambda>ea. Return (p, Some (put_all (ea_Variables ea) []), None))
              else if name = git_Name
              then bindO (asserted (pv_git env d)) (\<lambda>git.
                     keep (p\<lparr>sl_ResolvedDependencies := sl_ResolvedDependencies p @
                       map (\<lambda>remote. descriptor (remote, ga_CommitDigest git)) (ga_Remotes git)\<rparr>))
              else if name = github_Name
              then bindO (asserted (pv_github env d)) (\<lambda>gh.
                     bindO (github_sha gh) (\<lambda>_.
                       keep (p\<lparr>sl_BuilderId := GHABuilderId, sl_InvocationId := gh_PipelineUrl gh\<rparr>)))
              else if name = gitlab_Name
              then bindO (asserted (pv_gitlab env d)) (\<lambda>gl.
                     bindO (gitlab_sha gl) (\<lambda>_.
                       keep (p\<lparr>sl_BuilderId := GLCBuilderId, sl_InvocationId := gl_PipelineUrl gl\<rparr>)))
              else if name = jenkins_Name
              then bindO (asserted (pv_jenkins env d)) (\<lambda>jks.
                     keep (p\<lparr>sl_BuilderId := JenkinsBuilderId, sl_InvocationId := jk_PipelineUrl jks\<rparr>))
              else if name = codebuild_Name
              then bindO (asserted (pv_codebuild env d)) (\<lambda>cb.
                     keep (p\<lparr>sl_BuilderId := AWSCodeBuildBuilderId, sl_InvocationId := bi_BuildARN (cb_BuildInfo cb)\<rparr>))
              else if name = material_Name
              then bindO (asserted (att_Materials a)) (\<lambda>mats.
                     keep (p\<lparr>sl_ResolvedDependencies := sl_ResolvedDependencies p @ map descriptor mats\<rparr>))
              else if name = commandrun_Name
              then bindO (asserted (pv_commandrun env d)) (\<lambda>rc.
                     case pv_NewStruct env [(''command'', JString (join_strings '' '' (cr_Cmd rc)))] of
                       Inl err \<Rightarrow> Return (p\<lparr>sl_ExternalParameters := None\<rparr>, params, Some err)
                     | Inr st \<Rightarrow>
                         keep (p\<lparr>sl_ExternalParameters := Some st, sl_StartedOn := Some (cpl_StartTime completed),
                                 sl_FinishedOn := Some (cpl_EndTime completed)\<rparr>))
              else if name = ProductName
              then bindO (asserted (att_Subjects a)) (\<lambda>subjs.
                     keep (p\<lparr>sl_products := merge_map (sl_products p) (ctx_Products ctx),
                             sl_subjects := merge_map (sl_subjects p) subjs\<rparr>))
              else if name = oci_Name
              then bindO (asserted (att_Subjects a)) (\<lambda>subjs. keep (p\<lparr>sl_subjects := merge_map (sl_subjects p) subjs\<rparr>))
              else keep p))"

definition internal_parameters :: "(string, string) gomap option \<Rightarrow> (string, json) gomap" where
  "internal_parameters params =
     (case params of None \<Rightarrow> [] | Some envs \<Rightarrow> [(''env'', JObject (map (\<lambda>(name, val). (name, JString val)) envs))])"

definition slsa_Attest ::
  "'d prov_env \<Rightarrow> 'd AttestationContext \<Rightarrow> provenance \<Rightarrow> (provenance \<times> gerr option) outcome" where
  "slsa_Attest env ctx p =
     (let p = p\<lparr>sl_BuildType := BuildType, sl_ExternalParameters := None, sl_InternalParameters := None,
                sl_ResolvedDependencies := [], sl_BuilderId := DefaultBuilderId, sl_InvocationId := [],
                sl_StartedOn := None, sl_FinishedOn := None\<rparr>
      in bindO (foldO (slsa_step env ctx) (ac_completedAttestors ctx) (p, None, None))
           (\<lambda>(p, params, err). Return
              (case err of
                 Some e \<Rightarrow> (p, Some e)
               | None \<Rightarrow>
                   (case pv_NewStruct env (internal_parameters params) of
                      Inl e \<Rightarrow> (p, Some e)
                    | Inr st \<Rightarrow> (p\<lparr>sl_InternalParameters := Some st\<rparr>, None)))))"

definition slsa_Export :: "provenance \<Rightarrow> bool" where "slsa_Export p = sl_export p"

definition slsa_Subjects :: "provenance \<Rightarrow> (string, digest_set) gomap" where
  "slsa_Subjects p = file_subjects (case sl_products p of None \<Rightarrow> [] | Some ps \<Rightarrow> ps)"

section \<open>Lemmas\<close>

lemma asserted_Return [simp]: "asserted m = Return x \<longleftrightarrow> m = Some x"
  by (cases m) (auto simp: asserted_def)

lemma case_sum_Return:
  "(case x of Inl e \<Rightarrow> f e | Inr y \<Rightarrow> g y) = Return r \<longleftrightarrow>
     (\<exists>e. x = Inl e \<and> f e = Return r) \<or> (\<exists>y. x = Inr y \<and> g y = Return r)"
  by (cases x) auto

lemmas attestor_names =
  commandrun_Name_def material_Name_def environment_attestor_Name_def ProductName_def oci_Name_def git_Name_def
  github_Name_def gitlab_Name_def jenkins_Name_def codebuild_Name_def

text \<open>What one attestor contributes to the materials of a link and to the dependencies of a provenance.\<close>

definition material_resources :: "'d attestor \<Rightarrow> resource list" where
  "material_resources a =
     (if att_Name a = material_Name then (case att_Materials a of None \<Rightarrow> [] | Some mats \<Rightarrow> map descriptor mats) else [])"

definition git_resources :: "'d prov_env \<Rightarrow> 'd attestor \<Rightarrow> resource list" where
  "git_resources env a =
     (if att_Name a = git_Name
      then (case pv_git env (att_state a) of
              None \<Rightarrow> [] | Some git \<Rightarrow> map (\<lambda>remote. descriptor (remote, ga_CommitDigest git)) (ga_Remotes git))
      else [])"

text \<open>The last attestor of a name, if any.\<close>

definition last_named :: "string \<Rightarrow> 'd attestor list \<Rightarrow> 'd attestor option" where
  "last_named name as = List.find (\<lambda>a. att_Name a = name) (rev as)"

lemma last_named_Nil [simp]: "last_named name [] = None"
  by (simp add: last_named_def)

lemma last_named_Cons:
  "last_named name (a # as) =
     (case last_named name as of Some b \<Rightarrow> Some b | None \<Rightarrow> if att_Name a = name then Some a else None)"
proof -
  have "List.find P (xs @ ys) = (case List.find P xs of None \<Rightarrow> List.find P ys | Some x \<Rightarrow> Some x)" for P and xs ys :: "'a attestor list"
    by (induction xs) auto
  then show ?thesis by (simp add: last_named_def split: option.splits)
qed

lemma link_failed: "foldO (link_step env) cs (l, Some e) = Return (l, Some e)"
  by (induction cs) (simp_all add: link_step_def)

lemma link_step_ok:
  assumes "link_step env c (l, None) = Return (l', None)"
  shows "lk_Name l' = lk_Name l \<and> lk_Materials l' = lk_Materials l @ material_resources (cpl_Attestor c) \<and>
    lk_products l' = (if att_Name (cpl_Attestor c) = ProductName then the (att_Products (cpl_Attestor c)) else lk_products l)"
  using assms
  by (auto simp: link_step_def Let_def material_resources_def attestor_names case_sum_Return split: if_splits)

lemma link_fold_ok:
  "foldO (link_step env) cs (l, None) = Return (l', None) \<Longrightarrow>
     lk_Name l' = lk_Name l \<and> lk_Materials l' = lk_Materials l @ concat (map (material_resources \<circ> cpl_Attestor) cs) \<and>
     lk_products l' = (case last_named ProductName (map cpl_Attestor cs) of
       None \<Rightarrow> lk_products l | Some a \<Rightarrow> the (att_Products a))"
proof (induction cs arbitrary: l)
  case (Cons c cs)
  then obtain l1 e1 where c: "link_step env c (l, None) = Return (l1, e1)"
    and rest: "foldO (link_step env) cs (l1, e1) = Return (l', None)" by auto
  then have e1: "e1 = None" using link_failed [of env cs l1] by (cases e1) auto
  from link_step_ok [OF c [unfolded e1]] Cons.IH [OF rest [unfolded e1]] show ?case
    by (auto simp: last_named_Cons split: option.splits)
qed simp

lemma file_subjects_map:
  assumes "gomap_ok ps"
  shows "map_of (file_subjects ps) key = Some ds \<longleftrightarrow>
    (\<exists>productName p. map_of ps productName = Some p \<and> key = ''file:'' @ productName \<and> ds = pr_Digest p)"
proof -
  let ?m = "map (\<lambda>(productName, p). (''file:'' @ productName, pr_Digest p)) ps"
  have "fold (\<lambda>(productName, p) subjects. AList.update (''file:'' @ productName) (pr_Digest p) subjects) xs m =
      put_all (map (\<lambda>(productName, p). (''file:'' @ productName, pr_Digest p)) xs) m" for xs :: "(string \<times> Product) list" and m
    by (induction xs arbitrary: m) auto
  then have fs: "file_subjects ps = put_all ?m []" by (simp add: file_subjects_def)
  have "map fst ?m = map (\<lambda>n. ''file:'' @ n) (map fst ps)" by (simp add: case_prod_beta comp_def)
  then have ok: "gomap_ok ?m" using assms by (simp add: gomap_ok_def distinct_map inj_on_def)
  have "map_of (file_subjects ps) = map_of ?m" using map_of_put_all_ok [OF ok, of "[]"] by (simp add: fs)
  then have "map_of (file_subjects ps) key = Some ds \<longleftrightarrow> (key, ds) \<in> set ?m" using gomap_mem_iff [OF ok, of key ds] by simp
  also have "\<dots> \<longleftrightarrow> (\<exists>productName p. (productName, p) \<in> set ps \<and> key = ''file:'' @ productName \<and> ds = pr_Digest p)" by auto
  finally show ?thesis by (simp add: gomap_mem_iff [OF assms])
qed

lemma slsa_failed: "foldO (slsa_step env ctx) cs (p, params, Some e) = Return (p, params, Some e)"
  by (induction cs) (simp_all add: slsa_step_def)

text \<open>The builder that an attestor's name stands for.\<close>

definition builder_of :: "string \<Rightarrow> string option" where
  "builder_of name = map_of [(github_Name, GHABuilderId), (gitlab_Name, GLCBuilderId), (jenkins_Name, JenkinsBuilderId),
     (codebuild_Name, AWSCodeBuildBuilderId)] name"

lemma slsa_step_ok:
  assumes "slsa_step env ctx c (p, params, None) = Return (p', params', None)"
  shows "sl_ResolvedDependencies p' = sl_ResolvedDependencies p @ git_resources env (cpl_Attestor c) @
      material_resources (cpl_Attestor c) \<and>
    sl_BuilderId p' = (case builder_of (att_Name (cpl_Attestor c)) of None \<Rightarrow> sl_BuilderId p | Some b \<Rightarrow> b) \<and>
    sl_BuildType p' = sl_BuildType p \<and>
    sl_products p' = (if att_Name (cpl_Attestor c) = ProductName then merge_map (sl_products p) (ctx_Products ctx) else sl_products p)"
  using assms
  by (auto simp: slsa_step_def Let_def material_resources_def git_resources_def builder_of_def attestor_names case_sum_Return
      split: if_splits)

lemma merge_products:
  assumes "m = None \<or> (\<exists>ps. m = Some ps \<and> gomap_ok ps \<and> map_of ps = map_of (ctx_Products ctx))"
  shows "\<exists>ps. merge_map m (ctx_Products ctx) = Some ps \<and> gomap_ok ps \<and> map_of ps = map_of (ctx_Products ctx)"
proof -
  have ok: "gomap_ok (ctx_Products ctx)" by (simp add: ctx_Products_def)
  then show ?thesis using assms map_of_put_all_ok [OF ok] by (auto simp: merge_map_def map_add_def split: option.splits)
qed

lemma slsa_fold_ok:
  assumes "foldO (slsa_step env ctx) cs (p, params, None) = Return (p', params', None)"
    and "sl_products p = None \<or> (\<exists>ps. sl_products p = Some ps \<and> gomap_ok ps \<and> map_of ps = map_of (ctx_Products ctx))"
  shows "sl_ResolvedDependencies p' = sl_ResolvedDependencies p @
      concat (map (\<lambda>c. git_resources env (cpl_Attestor c) @ material_resources (cpl_Attestor c)) cs) \<and>
    sl_BuilderId p' = fold (\<lambda>c b. case builder_of (att_Name (cpl_Attestor c)) of None \<Rightarrow> b | Some b' \<Rightarrow> b') cs (sl_BuilderId p) \<and>
    sl_BuildType p' = sl_BuildType p \<and>
    (if list_ex (\<lambda>c. att_Name (cpl_Attestor c) = ProductName) cs
     then (\<exists>ps. sl_products p' = Some ps \<and> gomap_ok ps \<and> map_of ps = map_of (ctx_Products ctx))
     else sl_products p' = sl_products p)"
  using assms
proof (induction cs arbitrary: p params)
  case (Cons c cs)
  then obtain p1 par1 e1 where c: "slsa_step env ctx c (p, params, None) = Return (p1, par1, e1)"
    and rest: "foldO (slsa_step env ctx) cs (p1, par1, e1) = Return (p', params', None)" by auto
  then have e1: "e1 = None" using slsa_failed [of env ctx cs p1 par1] by (cases e1) auto
  note step = slsa_step_ok [OF c [unfolded e1]]
  have prods: "sl_products p1 = None \<or> (\<exists>ps. sl_products p1 = Some ps \<and> gomap_ok ps \<and> map_of ps = map_of (ctx_Products ctx))"
    using step Cons.prems(2) merge_products [OF Cons.prems(2)] by (cases "att_Name (cpl_Attestor c) = ProductName") simp_all
  from Cons.IH [OF rest [unfolded e1] prods] step prods merge_products [OF Cons.prems(2)] show ?case
    by (cases "att_Name (cpl_Attestor c) = ProductName"; cases "list_ex (\<lambda>c. att_Name (cpl_Attestor c) = ProductName) cs") simp_all
qed simp

section \<open>Properties\<close>

text \<open>A link retells the run it was made in: when it is attested without error it carries the name of the step
  and, added to what it had, the materials of every completed material attestor with their digests; and its
  subjects are the products of the last product attestor.\<close>

theorem link_Attest_exact:
  assumes "link_Attest env ctx link_New = Return (l, None)"
    and "last_named ProductName (map cpl_Attestor (ac_completedAttestors ctx)) = Some a" and "att_Products a = Some ps"
    and "gomap_ok ps"
  shows "lk_Name l = ac_stepName ctx \<and>
    lk_Materials l = concat (map (material_resources \<circ> cpl_Attestor) (ac_completedAttestors ctx)) \<and>
    (\<forall>key ds. map_of (link_Subjects l) key = Some ds \<longleftrightarrow>
       (\<exists>productName p. map_of ps productName = Some p \<and> key = ''file:'' @ productName \<and> ds = pr_Digest p))"
  using link_fold_ok [OF assms(1) [unfolded link_Attest_def]] assms(2,3) file_subjects_map [OF assms(4)]
  by (simp add: link_New_def link_Subjects_def)

text \<open>A sample run with a material and a product attestor.\<close>

definition sample_prov_env :: "unit prov_env" where
  "sample_prov_env =
     \<lparr>pv_commandrun = \<lambda>u. None, pv_environment = \<lambda>u. None, pv_git = \<lambda>u. None, pv_github = \<lambda>u. None,
      pv_gitlab = \<lambda>u. None, pv_jenkins = \<lambda>u. Some jenkins_New, pv_codebuild = \<lambda>u. None, pv_NewStruct = \<lambda>m. Inr []\<rparr>"

definition completed_sample :: "string \<Rightarrow> unit CompletedAttestor" where
  "completed_sample name =
     \<lparr>cpl_Attestor = Attestor name [] ProductRunType (Some []) (Some [(''src'', [(plain_digest SHA256, ''aa'')])])
        (Some [(''out'', \<lparr>pr_MimeType = [], pr_Digest = [(plain_digest SHA256, ''bb'')]\<rparr>)]) None None None None None (),
      cpl_StartTime = 0, cpl_EndTime = 1, cpl_Error = None\<rparr>"

definition sample_prov_ctx :: "unit AttestationContext" where
  "sample_prov_ctx = (sample_context [])\<lparr>ac_completedAttestors :=
     [completed_sample ''material'', completed_sample ''jenkins'', completed_sample ''product'', completed_sample ''oci''],
     ac_products := [(''out'', \<lparr>pr_MimeType = [], pr_Digest = [(plain_digest SHA256, ''bb'')]\<rparr>)]\<rparr>"

theorem link_Attest_exact_witness:
  "\<exists>l. link_Attest sample_prov_env sample_prov_ctx link_New = Return (l, None) \<and>
     lk_Materials l = [(''src'', [(''sha256'', ''aa'')])] \<and>
     map_of (link_Subjects l) ''file:out'' = Some [(plain_digest SHA256, ''bb'')]"
proof -
  have "case link_Attest sample_prov_env sample_prov_ctx link_New of Return (l, e) \<Rightarrow> e = None | Panic m \<Rightarrow> False"
    by code_simp
  then obtain l where l: "link_Attest sample_prov_env sample_prov_ctx link_New = Return (l, None)"
    by (auto split: outcome.splits)
  have last: "last_named ProductName (map cpl_Attestor (ac_completedAttestors sample_prov_ctx)) = Some (cpl_Attestor (completed_sample ''product''))"
    by (simp add: sample_prov_ctx_def last_named_def completed_sample_def ProductName_def)
  have prods: "att_Products (cpl_Attestor (completed_sample ''product'')) =
      Some [(''out'', \<lparr>pr_MimeType = [], pr_Digest = [(plain_digest SHA256, ''bb'')]\<rparr>)]"
    by (simp add: completed_sample_def)
  have mats: "concat (map (material_resources \<circ> cpl_Attestor) (ac_completedAttestors sample_prov_ctx)) =
      [(''src'', [(''sha256'', ''aa'')])]" by code_simp
  from link_Attest_exact [OF l last prods] l mats show ?thesis by (simp add: gomap_ok_def)
qed

text \<open>C30. A provenance depends on exactly what the run depended on: the remotes of every git attestor at its commit
  and the materials of every material attestor, in the order in which they completed; the last attestor
  of a build system names the builder, and without one it is the default builder. Its subjects are the
  products of the context, when there was a product attestor.\<close>

theorem slsa_Attest_exact:
  assumes "slsa_Attest env ctx slsa_New = Return (p, None)"
  shows "sl_BuildType p = BuildType \<and>
    sl_ResolvedDependencies p =
      concat (map (\<lambda>c. git_resources env (cpl_Attestor c) @ material_resources (cpl_Attestor c)) (ac_completedAttestors ctx)) \<and>
    sl_BuilderId p = fold (\<lambda>c b. case builder_of (att_Name (cpl_Attestor c)) of None \<Rightarrow> b | Some b' \<Rightarrow> b')
      (ac_completedAttestors ctx) DefaultBuilderId \<and>
    (\<forall>key ds. map_of (slsa_Subjects p) key = Some ds \<longleftrightarrow>
       list_ex (\<lambda>c. att_Name (cpl_Attestor c) = ProductName) (ac_completedAttestors ctx) \<and>
       (\<exists>productName q. map_of (ctx_Products ctx) productName = Some q \<and> key = ''file:'' @ productName \<and> ds = pr_Digest q))"
proof -
  let ?p = "slsa_New\<lparr>sl_BuildType := BuildType, sl_ExternalParameters := None, sl_InternalParameters := None,
    sl_ResolvedDependencies := [], sl_BuilderId := DefaultBuilderId, sl_InvocationId := [], sl_StartedOn := None, sl_FinishedOn := None\<rparr>"
  from assms obtain p' params where fold: "foldO (slsa_step env ctx) (ac_completedAttestors ctx) (?p, None, None) = Return (p', params, None)"
    and p: "sl_BuildType p = sl_BuildType p'" "sl_ResolvedDependencies p = sl_ResolvedDependencies p'" "sl_BuilderId p = sl_BuilderId p'"
      "sl_products p = sl_products p'"
    by (auto simp: slsa_Attest_def Let_def split: option.splits sum.splits)
  have none: "sl_products ?p = None" by (simp add: slsa_New_def)
  note res = slsa_fold_ok [OF fold disjI1 [OF none], unfolded none]
  have subjects: "map_of (slsa_Subjects p) key = Some ds \<longleftrightarrow>
      list_ex (\<lambda>c. att_Name (cpl_Attestor c) = ProductName) (ac_completedAttestors ctx) \<and>
      (\<exists>productName q. map_of (ctx_Products ctx) productName = Some q \<and> key = ''file:'' @ productName \<and> ds = pr_Digest q)" for key ds
  proof (cases "list_ex (\<lambda>c. att_Name (cpl_Attestor c) = ProductName) (ac_completedAttestors ctx)")
    case True
    with res obtain ps where "sl_products p' = Some ps" "gomap_ok ps" "map_of ps = map_of (ctx_Products ctx)" by auto
    then show ?thesis using True file_subjects_map by (simp add: slsa_Subjects_def p(4))
  next
    case False
    with res show ?thesis by (simp add: slsa_Subjects_def p(4) file_subjects_def)
  qed
  show ?thesis using res subjects by (simp add: p)
qed

theorem slsa_Attest_exact_witness:
  "\<exists>p. slsa_Attest sample_prov_env sample_prov_ctx slsa_New = Return (p, None) \<and> sl_BuilderId p = JenkinsBuilderId \<and>
     map_of (slsa_Subjects p) ''file:out'' = Some [(plain_digest SHA256, ''bb'')]"
proof -
  have "case slsa_Attest sample_prov_env sample_prov_ctx slsa_New of Return (p, e) \<Rightarrow> e = None | Panic m \<Rightarrow> False"
    by code_simp
  then obtain p where p: "slsa_Attest sample_prov_env sample_prov_ctx slsa_New = Return (p, None)"
    by (auto split: outcome.splits)
  have builder: "fold (\<lambda>c b. case builder_of (att_Name (cpl_Attestor c)) of None \<Rightarrow> b | Some b' \<Rightarrow> b')
      (ac_completedAttestors sample_prov_ctx) DefaultBuilderId = JenkinsBuilderId" by code_simp
  have ex: "list_ex (\<lambda>c. att_Name (cpl_Attestor c) = ProductName) (ac_completedAttestors sample_prov_ctx)" by code_simp
  have prod: "map_of (ctx_Products sample_prov_ctx) ''out'' = Some \<lparr>pr_MimeType = [], pr_Digest = [(plain_digest SHA256, ''bb'')]\<rparr>"
    by (simp add: sample_prov_ctx_def ctx_Products_def)
  note exact = slsa_Attest_exact [OF p]
  have "sl_BuilderId p = JenkinsBuilderId" using exact [THEN conjunct2, THEN conjunct2, THEN conjunct1] by (simp only: builder)
  moreover have "map_of (slsa_Subjects p) ''file:out'' = Some [(plain_digest SHA256, ''bb'')]"
    by (rule exact [THEN conjunct2, THEN conjunct2, THEN conjunct2, rule_format, THEN iffD2])
      (intro conjI exI [of _ "''out''"] exI [of _ "\<lparr>pr_MimeType = [], pr_Digest = [(plain_digest SHA256, ''bb'')]\<rparr>"] ex prod; simp)
  ultimately show ?thesis using p by blast
qed

text \<open>A GitHub token without a claim \<open>sha\<close> makes the provenance attestor panic.\<close>

theorem github_missing_sha_panics:
  assumes "pv_github env (att_state (cpl_Attestor c)) = Some gh" and "att_Name (cpl_Attestor c) = github_Name"
    and "gh_JWT gh = Some token" and "map_of (jw_Claims token) ''sha'' = None"
    and "ac_completedAttestors ctx = [c]"
  shows "slsa_Attest env ctx p = Panic assertion_panic"
  using assms by (simp add: slsa_Attest_def slsa_step_def Let_def asserted_def github_sha_def attestor_names)

theorem github_missing_sha_panics_witness:
  "slsa_Attest (sample_prov_env\<lparr>pv_github := \<lambda>u. Some ((github_New sample_ci_env)\<lparr>gh_JWT := Some (jwt_New [])\<rparr>)\<rparr>)
     (sample_prov_ctx\<lparr>ac_completedAttestors := [completed_sample ''github'']\<rparr>) slsa_New = Panic assertion_panic"
  by (rule github_missing_sha_panics [of _ "completed_sample ''github''" "(github_New sample_ci_env)\<lparr>gh_JWT := Some (jwt_New [])\<rparr>" "jwt_New []"])
    (simp_all add: sample_prov_env_def completed_sample_def github_Name_def jwt_New_def)

end
