(* ===== verification/Document_Attestors.thy ===== *)
theory Document_Attestors
  imports Artifact_Attestors
begin

text \<open>
  The attestors that read a document: \<open>attestation/sbom/sbom.go\<close>, \<open>attestation/sarif/sarif.go\<close>,
  \<open>attestation/vex/vex.go\<close>, \<open>attestation/maven/maven.go\<close> and \<open>attestation/lockfiles/lockfiles.go\<close>.

  The files and the decoders of the document formats are parameters, in \<open>doc_env\<close>; a decoded document is a text.
  \<open>doc_order\<close> is the order in which \<open>range\<close> visits the products. The files do not change while an attestor reads
  them. An \<open>Attest\<close> that fails leaves what it has recorded so far.
\<close>

section \<open>What the attestors use\<close>

text \<open>A decoded CycloneDX document: the name and the version of the component of its metadata, where there are
  metadata and a component, and the document.\<close>

record bom =
  bom_Component :: "(string \<times> string) option option"
  bom_Document :: string

record maven_dependency =
  md_GroupId :: string
  md_ArtifactId :: string
  md_Version :: string
  md_Scope :: string

record maven_attestor =
  mv_GroupId :: string
  mv_ArtifactId :: string
  mv_Version :: string
  mv_ProjectName :: string
  mv_Dependencies :: "maven_dependency list"
  mv_pomPath :: string

record doc_env =
  dc_lib :: crypto_lib
  dc_Open :: "string \<Rightarrow> gerr + open_file"
  doc_order :: "(string, Product) gomap \<Rightarrow> (string, Product) gomap"
  dc_unmarshal_spdx :: "bytes \<Rightarrow> gerr + (string \<times> string) option"
  dc_decode_bom :: "bytes \<Rightarrow> gerr + bom"
  dc_unmarshal_any :: "bytes \<Rightarrow> gerr + string"
  dc_marshal_any :: "string option \<Rightarrow> gerr + bytes"
  dc_unmarshal_report :: "bytes \<Rightarrow> string \<Rightarrow> string \<times> gerr option"
  dc_unmarshal_vex :: "bytes \<Rightarrow> string \<Rightarrow> string \<times> gerr option"
  dc_unmarshal_pom :: "bytes \<Rightarrow> maven_attestor \<Rightarrow> maven_attestor \<times> gerr option"
  dc_Glob :: "string \<Rightarrow> gerr + string list"

definition nil_panic :: string where "nil_panic = ''nil pointer dereference''"

text \<open>The subject of a text under a kind; the digest of bytes is always computed.\<close>

definition text_subject ::
  "crypto_lib \<Rightarrow> string \<Rightarrow> string \<Rightarrow> (string, digest_set) gomap \<Rightarrow> (string, digest_set) gomap" where
  "text_subject lib kind val subjects =
     (case CalculateDigestSetFromBytes lib val [plain_digest SHA256] of
        (ds, None) \<Rightarrow> AList.update (kind @ '':'' @ val) ds subjects
      | (_, Some err) \<Rightarrow> subjects)"

section \<open>Software bills of materials\<close>

definition sbom_Name :: string where "sbom_Name = ''sbom''"
definition sbom_Type :: string where "sbom_Type = ''https://witness.dev/attestations/sbom/v0.1''"
definition SPDXPredicateType :: string where "SPDXPredicateType = ''https://spdx.dev/Document''"
definition SPDXMimeType :: string where "SPDXMimeType = ''application/spdx+json''"
definition CycloneDxPredicateType :: string where "CycloneDxPredicateType = ''https://cyclonedx.org/bom''"
definition CycloneDxMimeType :: string where "CycloneDxMimeType = ''application/vnd.cyclonedx+json''"

text \<open>\<open>None\<close> is a document that is nil.\<close>

record sbom_attestor =
  sb_Document :: "string option"
  sb_predicateType :: string
  sb_export :: bool
  sb_subjects :: "(string, digest_set) gomap"

definition sbom_WithExport :: "bool \<Rightarrow> sbom_attestor \<Rightarrow> sbom_attestor" where
  "sbom_WithExport export a = a\<lparr>sb_export := export\<rparr>"

definition NewSBOMAttestor :: sbom_attestor where
  "NewSBOMAttestor = \<lparr>sb_Document = None, sb_predicateType = sbom_Type, sb_export = False, sb_subjects = []\<rparr>"

definition sbom_attestor_Type :: "sbom_attestor \<Rightarrow> string" where "sbom_attestor_Type a = sb_predicateType a"
definition sbom_Export :: "sbom_attestor \<Rightarrow> bool" where "sbom_Export a = sb_export a"
definition sbom_Subjects :: "sbom_attestor \<Rightarrow> (string, digest_set) gomap" where "sbom_Subjects a = sb_subjects a"

definition sbom_MarshalJSON :: "doc_env \<Rightarrow> sbom_attestor \<Rightarrow> gerr + bytes" where
  "sbom_MarshalJSON env a = dc_marshal_any env (sb_Document a)"

definition sbom_UnmarshalJSON :: "doc_env \<Rightarrow> bytes \<Rightarrow> sbom_attestor \<Rightarrow> sbom_attestor \<times> gerr option" where
  "sbom_UnmarshalJSON env data a =
     (let a = (if IsSPDXJson data then a\<lparr>sb_predicateType := SPDXPredicateType\<rparr>
               else if IsCycloneDXJson data then a\<lparr>sb_predicateType := CycloneDxPredicateType\<rparr>
               else a)
      in case dc_unmarshal_any env data of
           Inl err \<Rightarrow> (a, Some err)
         | Inr document \<Rightarrow> (a\<lparr>sb_Document := Some document\<rparr>, None))"

text \<open>The predicate type for a content type, if it is that of a bill of materials.\<close>

definition predicate_of_mime :: "string \<Rightarrow> string option" where
  "predicate_of_mime mime =
     (if mime = SPDXMimeType then Some SPDXPredicateType
      else if mime = CycloneDxMimeType then Some CycloneDxPredicateType
      else None)"

text \<open>The document and the names that become subjects. A JSON null decodes to a nil SPDX document; a CycloneDX
  document without metadata or without a component panics.\<close>

definition decode_sbom :: "doc_env \<Rightarrow> string \<Rightarrow> bytes \<Rightarrow> (gerr + string \<times> (string \<times> string) list) outcome" where
  "decode_sbom env predicateType sbomBytes =
     (if predicateType = SPDXPredicateType
      then (case dc_unmarshal_spdx env sbomBytes of
              Inl err \<Rightarrow> Return (Inl (Errorf ''error unmarshaling SPDX document: %w'' [FErr err]))
            | Inr None \<Rightarrow> Panic nil_panic
            | Inr (Some (docName, document)) \<Rightarrow>
                Return (Inr (document, if docName \<noteq> [] then [(''name'', docName)] else [])))
      else if predicateType = CycloneDxPredicateType
      then (case dc_decode_bom env sbomBytes of
              Inl err \<Rightarrow> Return (Inl (Errorf ''error decoding CycloneDX BOM: %w'' [FErr err]))
            | Inr b \<Rightarrow>
                (case bom_Component b of
                   Some (Some (cname, ver)) \<Rightarrow>
                     Return (Inr (bom_Document b,
                       (if cname \<noteq> [] then [(''name'', cname)] else []) @ (if ver \<noteq> [] then [(''version'', ver)] else [])))
                 | _ \<Rightarrow> Panic nil_panic))
      else Return (Inl (Errorf ''unsupported predicate type: %s'' [FStr predicateType])))"

definition sbom_file ::
  "doc_env \<Rightarrow> 'd AttestationContext \<Rightarrow> string \<Rightarrow> sbom_attestor \<Rightarrow> (sbom_attestor \<times> gerr option) outcome" where
  "sbom_file env ctx path a =
     (case dc_Open env (filepath_Join (ac_workingDir ctx) path) of
        Inl err \<Rightarrow> Return (a, Some (Errorf ''error opening file: %s'' [FStr path]))
      | Inr f \<Rightarrow>
          (case file_data f of
             Inl err \<Rightarrow> Return (a, Some (Errorf ''error reading file: %s'' [FStr path]))
           | Inr sbomBytes \<Rightarrow>
               bindO (decode_sbom env (sb_predicateType a) sbomBytes) (\<lambda>r. Return
                 (case r of
                    Inl err \<Rightarrow> (a, Some err)
                  | Inr (document, subjectsByName) \<Rightarrow>
                      (a\<lparr>sb_Document := Some document,
                         sb_subjects := fold (\<lambda>(k, v). text_subject (dc_lib env) k v) subjectsByName (sb_subjects a)\<rparr>, None)))))"

primrec sbom_candidates ::
  "doc_env \<Rightarrow> 'd AttestationContext \<Rightarrow> (string, Product) gomap \<Rightarrow> sbom_attestor \<Rightarrow> (sbom_attestor \<times> gerr option) outcome" where
  "sbom_candidates env ctx [] a = Return (a, Some (Errorf ''no SBOM file found'' []))"
| "sbom_candidates env ctx (entry # products) a =
     (case predicate_of_mime (pr_MimeType (snd entry)) of
        None \<Rightarrow> sbom_candidates env ctx products a
      | Some predicateType \<Rightarrow>
          sbom_file env ctx (fst entry)
            (a\<lparr>sb_predicateType := predicateType,
               sb_subjects := AList.update (''file:'' @ fst entry) (pr_Digest (snd entry)) (sb_subjects a)\<rparr>))"

definition sbom_getCandidate ::
  "doc_env \<Rightarrow> 'd AttestationContext \<Rightarrow> sbom_attestor \<Rightarrow> (sbom_attestor \<times> gerr option) outcome" where
  "sbom_getCandidate env ctx a =
     (let products = doc_order env (ctx_Products ctx)
      in if length products = 0 then Return (a, Some (Errorf ''no products to attest'' []))
         else sbom_candidates env ctx products (a\<lparr>sb_subjects := []\<rparr>))"

definition sbom_Attest ::
  "doc_env \<Rightarrow> 'd AttestationContext \<Rightarrow> sbom_attestor \<Rightarrow> (sbom_attestor \<times> gerr option) outcome" where
  "sbom_Attest env ctx a = sbom_getCandidate env ctx a"

section \<open>SARIF and VEX reports\<close>

definition sarif_Name :: string where "sarif_Name = ''sarif''"
definition sarif_Type :: string where "sarif_Type = ''https://witness.dev/attestations/sarif/v0.1''"
definition sarif_mimeTypes :: "string list" where "sarif_mimeTypes = [''text/plain'', ''application/json'']"
definition vex_Name :: string where "vex_Name = ''vex''"
definition vex_Type :: string where "vex_Type = ''https://openvex.dev/ns''"

record sarif_attestor =
  sr_Report :: string
  sr_ReportFile :: string
  sr_ReportDigestSet :: digest_set

record vex_attestor =
  vx_VEXDocument :: string
  vx_ReportFile :: string
  vx_ReportDigestSet :: digest_set

definition sarif_New :: sarif_attestor where
  "sarif_New = \<lparr>sr_Report = [], sr_ReportFile = [], sr_ReportDigestSet = []\<rparr>"

definition vex_New :: vex_attestor where
  "vex_New = \<lparr>vx_VEXDocument = [], vx_ReportFile = [], vx_ReportDigestSet = []\<rparr>"

text \<open>The bytes of a product whose file still has the product's digests.\<close>

definition checked_product :: "doc_env \<Rightarrow> 'd AttestationContext \<Rightarrow> string \<Rightarrow> Product \<Rightarrow> gerr + bytes" where
  "checked_product env ctx path product =
     (case CalculateDigestSetFromFile (dc_lib env) (dc_Open env) path (ac_hashes ctx) of
        (_, Some err) \<Rightarrow> Inl (Errorf ''error calculating digest set from file: %s'' [FStr path])
      | (newDigestSet, None) \<Rightarrow>
          if \<not> DigestSet_Equal newDigestSet (pr_Digest product)
          then Inl (Errorf ''integrity error: product digest set does not match candidate digest set'' [])
          else case dc_Open env path of
                 Inl err \<Rightarrow> Inl (Errorf ''error opening file: %s'' [FStr path])
               | Inr f \<Rightarrow>
                   (case file_data f of
                      Inl err \<Rightarrow> Inl (Errorf ''error reading file: %s'' [FStr path])
                    | Inr reportBytes \<Rightarrow> Inr reportBytes))"

text \<open>The loop over the content types only continues itself.\<close>

definition sarif_mime_loop :: "string \<Rightarrow> unit" where
  "sarif_mime_loop mime = fold (\<lambda>mimeType u. if \<not> contains mimeType mime then u else u) sarif_mimeTypes ()"

primrec sarif_candidates ::
  "doc_env \<Rightarrow> 'd AttestationContext \<Rightarrow> (string, Product) gomap \<Rightarrow> sarif_attestor \<Rightarrow> sarif_attestor \<times> gerr option" where
  "sarif_candidates env ctx [] a = (a, Some (Errorf ''no sarif file found'' []))"
| "sarif_candidates env ctx (entry # products) a =
     (case sarif_mime_loop (pr_MimeType (snd entry)) of () \<Rightarrow>
        (case checked_product env ctx (fst entry) (snd entry) of
           Inl err \<Rightarrow> (a, Some err)
         | Inr reportBytes \<Rightarrow>
             (case dc_unmarshal_report env reportBytes (sr_Report a) of
                (report, Some err) \<Rightarrow> sarif_candidates env ctx products (a\<lparr>sr_Report := report\<rparr>)
              | (report, None) \<Rightarrow>
                  (a\<lparr>sr_Report := report, sr_ReportFile := fst entry, sr_ReportDigestSet := pr_Digest (snd entry)\<rparr>, None))))"

definition sarif_getCandidate ::
  "doc_env \<Rightarrow> 'd AttestationContext \<Rightarrow> sarif_attestor \<Rightarrow> sarif_attestor \<times> gerr option" where
  "sarif_getCandidate env ctx a =
     (let products = doc_order env (ctx_Products ctx)
      in if length products = 0 then (a, Some (Errorf ''no products to attest'' []))
         else sarif_candidates env ctx products a)"

definition sarif_Attest :: "doc_env \<Rightarrow> 'd AttestationContext \<Rightarrow> sarif_attestor \<Rightarrow> sarif_attestor \<times> gerr option" where
  "sarif_Attest env ctx a = sarif_getCandidate env ctx a"

primrec vex_candidates ::
  "doc_env \<Rightarrow> 'd AttestationContext \<Rightarrow> (string, Product) gomap \<Rightarrow> vex_attestor \<Rightarrow> vex_attestor \<times> gerr option" where
  "vex_candidates env ctx [] a = (a, Some (Errorf ''no VEX file found'' []))"
| "vex_candidates env ctx (entry # products) a =
     (case checked_product env ctx (fst entry) (snd entry) of
        Inl err \<Rightarrow> (a, Some err)
      | Inr reportBytes \<Rightarrow>
          (case dc_unmarshal_vex env reportBytes (vx_VEXDocument a) of
             (document, Some err) \<Rightarrow> vex_candidates env ctx products (a\<lparr>vx_VEXDocument := document\<rparr>)
           | (document, None) \<Rightarrow>
               (a\<lparr>vx_VEXDocument := document, vx_ReportFile := fst entry, vx_ReportDigestSet := pr_Digest (snd entry)\<rparr>, None)))"

definition vex_getCandidate :: "doc_env \<Rightarrow> 'd AttestationContext \<Rightarrow> vex_attestor \<Rightarrow> vex_attestor \<times> gerr option" where
  "vex_getCandidate env ctx a =
     (let products = doc_order env (ctx_Products ctx)
      in if length products = 0 then (a, Some (Errorf ''no products to attest'' []))
         else vex_candidates env ctx products a)"

definition vex_Attest :: "doc_env \<Rightarrow> 'd AttestationContext \<Rightarrow> vex_attestor \<Rightarrow> vex_attestor \<times> gerr option" where
  "vex_Attest env ctx a = vex_getCandidate env ctx a"

section \<open>Maven projects\<close>

definition maven_Name :: string where "maven_Name = ''maven''"
definition maven_Type :: string where "maven_Type = ''https://witness.dev/attestations/maven/v0.1''"
definition defaultPomPath :: string where "defaultPomPath = ''pom.xml''"

definition WithPom :: "string \<Rightarrow> maven_attestor \<Rightarrow> maven_attestor" where
  "WithPom path a = a\<lparr>mv_pomPath := path\<rparr>"

definition maven_New :: "(maven_attestor \<Rightarrow> maven_attestor) list \<Rightarrow> maven_attestor" where
  "maven_New opts =
     fold (\<lambda>opt a. opt a) opts
       \<lparr>mv_GroupId = [], mv_ArtifactId = [], mv_Version = [], mv_ProjectName = [], mv_Dependencies = [],
        mv_pomPath = defaultPomPath\<rparr>"

definition maven_Attest :: "doc_env \<Rightarrow> maven_attestor \<Rightarrow> maven_attestor \<times> gerr option" where
  "maven_Attest env a =
     (case dc_Open env (mv_pomPath a) of
        Inl err \<Rightarrow> (a, Some err)
      | Inr pomFile \<Rightarrow>
          (case file_data pomFile of
             Inl err \<Rightarrow> (a, Some err)
           | Inr pomFileBytes \<Rightarrow> dc_unmarshal_pom env pomFileBytes a))"

definition coordinates :: "string \<Rightarrow> string \<Rightarrow> string \<Rightarrow> string" where
  "coordinates groupId artifactId ver = groupId @ ''/'' @ artifactId @ ''@'' @ ver"

definition maven_Subjects :: "crypto_lib \<Rightarrow> maven_attestor \<Rightarrow> (string, digest_set) gomap" where
  "maven_Subjects lib a =
     (let projectSubject = ''project:'' @ coordinates (mv_GroupId a) (mv_ArtifactId a) (mv_Version a);
          subjects = (case CalculateDigestSetFromBytes lib projectSubject [plain_digest SHA256] of
                        (ds, None) \<Rightarrow> [(projectSubject, ds)] | (_, Some err) \<Rightarrow> [])
      in fold (\<lambda>dep subjects.
           let depSubject = ''dependency:'' @ coordinates (md_GroupId dep) (md_ArtifactId dep) (md_Version dep)
           in AList.update depSubject (fst (CalculateDigestSetFromBytes lib depSubject [plain_digest SHA256])) subjects)
         (mv_Dependencies a) subjects)"

section \<open>Lock files\<close>

definition lockfiles_Name :: string where "lockfiles_Name = ''lockfiles''"
definition lockfiles_Type :: string where "lockfiles_Type = ''https://witness.dev/attestations/lockfiles/v0.1''"

record LockfileInfo =
  lf_Filename :: string
  lf_Content :: string
  lf_Digest :: digest_set

definition lockfilePatterns :: "string list" where
  "lockfilePatterns =
     [''Gemfile.lock'', ''package-lock.json'', ''yarn.lock'', ''Cargo.lock'', ''poetry.lock'', ''Pipfile.lock'', ''composer.lock'',
      ''go.sum'', ''Podfile.lock'', ''gradle.lockfile'', ''pnpm-lock.yaml'']"

text \<open>\<open>filepath.Base\<close>\<close>

definition filepath_Base :: "string \<Rightarrow> string" where
  "filepath_Base path =
     (if path = [] then ''.''
      else (let stripped = rev (dropWhile (\<lambda>c. c = CHR ''/'') (rev path))
            in if stripped = [] then ''/'' else last (split_at (CHR ''/'') stripped)))"

definition lock_match :: "doc_env \<Rightarrow> string \<Rightarrow> gerr + LockfileInfo" where
  "lock_match env match =
     (case (case dc_Open env match of Inl err \<Rightarrow> Inl err | Inr f \<Rightarrow> file_data f) of
        Inl err \<Rightarrow> Inl (Errorf ''error reading %s: %w'' [FStr match, FErr err])
      | Inr content \<Rightarrow>
          (case CalculateDigestSetFromBytes (dc_lib env) content [plain_digest SHA256] of
             (_, Some err) \<Rightarrow> Inl (Errorf ''error computing digest of %s: %w'' [FStr match, FErr err])
           | (digest, None) \<Rightarrow>
               Inr \<lparr>lf_Filename = filepath_Base match, lf_Content = content, lf_Digest = digest\<rparr>))"

primrec lock_matches :: "doc_env \<Rightarrow> string list \<Rightarrow> LockfileInfo list \<Rightarrow> LockfileInfo list \<times> gerr option" where
  "lock_matches env [] lockfiles = (lockfiles, None)"
| "lock_matches env (match # matches) lockfiles =
     (case lock_match env match of
        Inl err \<Rightarrow> (lockfiles, Some err)
      | Inr lockfile \<Rightarrow> lock_matches env matches (lockfiles @ [lockfile]))"

primrec lock_patterns :: "doc_env \<Rightarrow> string list \<Rightarrow> LockfileInfo list \<Rightarrow> LockfileInfo list \<times> gerr option" where
  "lock_patterns env [] lockfiles = (lockfiles, None)"
| "lock_patterns env (pattern # patterns) lockfiles =
     (case dc_Glob env pattern of
        Inl err \<Rightarrow> (lockfiles, Some (Errorf ''error searching for %s: %w'' [FStr pattern, FErr err]))
      | Inr matches \<Rightarrow>
          (case lock_matches env matches lockfiles of
             (lockfiles, Some err) \<Rightarrow> (lockfiles, Some err)
           | (lockfiles, None) \<Rightarrow> lock_patterns env patterns lockfiles))"

text \<open>The state of the attestor is its list of lock files, which \<open>Attest\<close> starts anew.\<close>

definition NewLockfilesAttestor :: "LockfileInfo list" where "NewLockfilesAttestor = []"

definition lockfiles_Attest :: "doc_env \<Rightarrow> LockfileInfo list \<Rightarrow> LockfileInfo list \<times> gerr option" where
  "lockfiles_Attest env lockfiles = lock_patterns env lockfilePatterns []"

definition lockfiles_Subjects :: "LockfileInfo list \<Rightarrow> (string, digest_set) gomap" where
  "lockfiles_Subjects lockfiles =
     fold (\<lambda>lockfile subjects. AList.update (''file:'' @ lf_Filename lockfile) (lf_Digest lockfile) subjects) lockfiles []"

section \<open>Lemmas\<close>

lemma text_subject_update:
  "text_subject lib kind val m =
     AList.update (kind @ '':'' @ val) (fst (CalculateDigestSetFromBytes lib val [plain_digest SHA256])) m"
  by (simp add: text_subject_def CalculateDigestSetFromBytes_def CalculateDigestSet_def)

lemma text_subjects_other:
  "(\<And>k v. (k, v) \<in> set names \<Longrightarrow> key \<noteq> k @ '':'' @ v) \<Longrightarrow>
     map_of (fold (\<lambda>(k, v). text_subject lib k v) names m) key = map_of m key"
  by (induction names arbitrary: m) (auto simp: text_subject_update update_conv)

lemma text_subjects_dom:
  "dom (map_of (fold (\<lambda>(k, v). text_subject lib k v) names m)) = dom (map_of m) \<union> (\<lambda>(k, v). k @ '':'' @ v) ` set names"
  by (induction names arbitrary: m) (auto simp: text_subject_update update_conv)

lemma text_subjects_present:
  "(k, v) \<in> set names \<Longrightarrow> \<exists>ds. map_of (fold (\<lambda>(k, v). text_subject lib k v) names m) (k @ CHR '':'' # v) = Some ds"
  using text_subjects_dom [of lib names m] by (force simp: set_eq_iff)

lemma bytes_digest_ok [simp]: "snd (CalculateDigestSetFromBytes lib data hashes) = None"
  by (simp add: CalculateDigestSetFromBytes_def CalculateDigestSet_def)

lemma checked_product_ok:
  assumes "checked_product env ctx path product = Inr data"
  obtains f where "dc_Open env path = Inr f" "file_data f = Inr data"
    "DigestSet_Equal (fst (CalculateDigestSetFromBytes (dc_lib env) data (ac_hashes ctx))) (pr_Digest product)"
  using assms
  by (auto simp: checked_product_def CalculateDigestSetFromFile_def CalculateDigestSetFromBytes_def CalculateDigestSet_def
      split: sum.splits prod.splits option.splits if_splits)

lemma sbom_file_ok:
  assumes "sbom_file env ctx path b = Return (b', None)"
  shows "\<exists>f data document names. dc_Open env (filepath_Join (ac_workingDir ctx) path) = Inr f \<and> file_data f = Inr data \<and>
    decode_sbom env (sb_predicateType b) data = Return (Inr (document, names)) \<and>
    b' = b\<lparr>sb_Document := Some document, sb_subjects := fold (\<lambda>(k, v). text_subject (dc_lib env) k v) names (sb_subjects b)\<rparr>"
proof (cases "dc_Open env (filepath_Join (ac_workingDir ctx) path)")
  case (Inr f)
  with assms obtain data where data: "file_data f = Inr data" by (cases "file_data f") (auto simp: sbom_file_def)
  with assms Inr obtain r where r: "decode_sbom env (sb_predicateType b) data = Return r"
    by (cases "decode_sbom env (sb_predicateType b) data") (auto simp: sbom_file_def)
  with assms Inr data show ?thesis by (cases r) (auto simp: sbom_file_def)
qed (use assms in \<open>simp add: sbom_file_def\<close>)

text \<open>The attestor describes a product: the predicate type is the one of the product's content type, the product is
  a subject with its digests, the document is what its file decodes to, and the names in it are subjects.\<close>

definition sbom_describes :: "doc_env \<Rightarrow> 'd AttestationContext \<Rightarrow> sbom_attestor \<Rightarrow> string \<Rightarrow> Product \<Rightarrow> bool" where
  "sbom_describes env ctx a path product \<longleftrightarrow>
     (\<exists>f data document names. dc_Open env (filepath_Join (ac_workingDir ctx) path) = Inr f \<and> file_data f = Inr data \<and>
        predicate_of_mime (pr_MimeType product) = Some (sbom_attestor_Type a) \<and>
        decode_sbom env (sbom_attestor_Type a) data = Return (Inr (document, names)) \<and> sb_Document a = Some document \<and>
        map_of (sbom_Subjects a) (''file:'' @ path) = Some (pr_Digest product) \<and>
        (\<forall>(k, v) \<in> set names. map_of (sbom_Subjects a) (k @ '':'' @ v) \<noteq> None))"

lemma decode_sbom_names:
  "decode_sbom env t data = Return (Inr (document, names)) \<Longrightarrow> set names \<subseteq> {''name'', ''version''} \<times> UNIV"
  by (auto simp: decode_sbom_def split: if_splits sum.splits option.splits)

lemma sbom_file_describes:
  assumes "sbom_file env ctx path b = Return (b', None)" and "predicate_of_mime (pr_MimeType product) = Some (sb_predicateType b)"
    and "map_of (sb_subjects b) (''file:'' @ path) = Some (pr_Digest product)"
  shows "sbom_describes env ctx b' path product"
proof -
  from sbom_file_ok [OF assms(1)] obtain f data document names where
    f: "dc_Open env (filepath_Join (ac_workingDir ctx) path) = Inr f" "file_data f = Inr data"
      "decode_sbom env (sb_predicateType b) data = Return (Inr (document, names))"
    and b': "b' = b\<lparr>sb_Document := Some document, sb_subjects := fold (\<lambda>(k, v). text_subject (dc_lib env) k v) names (sb_subjects b)\<rparr>"
    by blast
  have "map_of (fold (\<lambda>(k, v). text_subject (dc_lib env) k v) names (sb_subjects b)) (''file:'' @ path) = Some (pr_Digest product)"
    unfolding assms(3) [symmetric] by (rule text_subjects_other) (use decode_sbom_names [OF f(3)] in auto)
  then have "map_of (sb_subjects b') (''file:'' @ path) = Some (pr_Digest product)" by (simp add: b')
  moreover have "\<forall>(k, v) \<in> set names. map_of (sb_subjects b') (k @ '':'' @ v) \<noteq> None"
    by (auto simp: b' dest!: text_subjects_present)
  moreover have "sb_predicateType b' = sb_predicateType b" "sb_Document b' = Some document" by (simp_all add: b')
  ultimately show ?thesis using f assms(2) unfolding sbom_describes_def sbom_attestor_Type_def sbom_Subjects_def by metis
qed

lemma sbom_candidates_ok:
  "sbom_candidates env ctx products b = Return (b', None) \<Longrightarrow>
     \<exists>(path, product) \<in> set products. sbom_describes env ctx b' path product"
proof (induction products)
  case (Cons entry products)
  obtain path product where entry: "entry = (path, product)" by (cases entry)
  show ?case
  proof (cases "predicate_of_mime (pr_MimeType product)")
    case None
    with Cons show ?thesis by (simp add: entry)
  next
    case (Some t)
    with Cons.prems have "sbom_file env ctx path
        (b\<lparr>sb_predicateType := t, sb_subjects := AList.update (''file:'' @ path) (pr_Digest product) (sb_subjects b)\<rparr>) = Return (b', None)"
      by (simp add: entry)
    from sbom_file_describes [OF this, of product] Some show ?thesis by (simp add: entry update_conv)
  qed
qed simp

text \<open>The report attestors share a scan: they go through products whose files are checked until one decodes. The
  decoder changes the attestor also when it fails.\<close>

locale report_scan =
  fixes candidates :: "(string, Product) gomap \<Rightarrow> 'a \<Rightarrow> 'a \<times> gerr option"
    and checked :: "string \<Rightarrow> Product \<Rightarrow> gerr + bytes"
    and decode :: "bytes \<Rightarrow> 'a \<Rightarrow> 'a \<times> gerr option"
    and report_file :: "'a \<Rightarrow> string"
    and report_digests :: "'a \<Rightarrow> digest_set"
  assumes none_found: "snd (candidates [] a) \<noteq> None"
    and check_failed: "checked path product = Inl err \<Longrightarrow> candidates ((path, product) # products) a = (a, Some err)"
    and next_candidate: "checked path product = Inr data \<Longrightarrow> decode data a = (b, Some err) \<Longrightarrow>
      candidates ((path, product) # products) a = candidates products b"
    and found: "checked path product = Inr data \<Longrightarrow> decode data a = (b, None) \<Longrightarrow>
      \<exists>c. candidates ((path, product) # products) a = (c, None) \<and> report_file c = path \<and> report_digests c = pr_Digest product"
begin

text \<open>A scan that succeeds found a checked product that decodes, after checked products that do not.\<close>

lemma scan_found:
  assumes "candidates products a = (a', None)"
  shows "\<exists>before product after data. products = before @ (report_file a', product) # after \<and>
    report_digests a' = pr_Digest product \<and> checked (report_file a') product = Inr data \<and>
    (\<exists>b c. decode data b = (c, None)) \<and> (\<forall>(path, product') \<in> set before. \<exists>data'. checked path product' = Inr data')"
  using assms
proof (induction products arbitrary: a)
  case Nil
  then show ?case using none_found [of a] by simp
next
  case (Cons entry products)
  obtain path product where entry: "entry = (path, product)" by (cases entry)
  with Cons.prems check_failed obtain data where data: "checked path product = Inr data"
    by (cases "checked path product") auto
  obtain b err where b: "decode data a = (b, err)" by fastforce
  show ?case
  proof (cases err)
    case None
    with found [OF data, of a b products] Cons.prems b entry have "report_file a' = path \<and> report_digests a' = pr_Digest product"
      by auto
    with data b None entry show ?thesis by (intro exI [of _ "[]"]) auto
  next
    case (Some e)
    with next_candidate [OF data, of a b e products] Cons.prems b entry have "candidates products b = (a', None)" by simp
    from Cons.IH [OF this] obtain before product' after data' where
      "products = before @ (report_file a', product') # after" and "report_digests a' = pr_Digest product'"
      "checked (report_file a') product' = Inr data'" "\<exists>b c. decode data' b = (c, None)"
      "\<forall>(path, product') \<in> set before. \<exists>data'. checked path product' = Inr data'" by blast
    with data entry show ?thesis by (intro exI [of _ "entry # before"] exI [of _ product'] exI [of _ after] exI [of _ data']) auto
  qed
qed

text \<open>A product that cannot be checked ends a scan that gets to it, whatever it is.\<close>

lemma scan_check_failed:
  assumes "\<forall>(path, product) \<in> set before. \<exists>data. checked path product = Inr data \<and> (\<forall>b. snd (decode data b) \<noteq> None)"
    and "checked path product = Inl err"
  shows "snd (candidates (before @ (path, product) # after) a) = Some err"
  using assms(1)
proof (induction before arbitrary: a)
  case Nil
  then show ?case by (simp add: check_failed [OF assms(2)])
next
  case (Cons entry before)
  then obtain data where data: "checked (fst entry) (snd entry) = Inr data" and "\<forall>b. snd (decode data b) \<noteq> None" by auto
  then obtain b e where "decode data a = (b, Some e)" by (metis option.exhaust prod.collapse)
  from next_candidate [OF data this] Cons show ?case by simp
qed

end

definition sarif_decode :: "doc_env \<Rightarrow> bytes \<Rightarrow> sarif_attestor \<Rightarrow> sarif_attestor \<times> gerr option" where
  "sarif_decode env data a =
     (case dc_unmarshal_report env data (sr_Report a) of (report, err) \<Rightarrow> (a\<lparr>sr_Report := report\<rparr>, err))"

definition vex_decode :: "doc_env \<Rightarrow> bytes \<Rightarrow> vex_attestor \<Rightarrow> vex_attestor \<times> gerr option" where
  "vex_decode env data a =
     (case dc_unmarshal_vex env data (vx_VEXDocument a) of (document, err) \<Rightarrow> (a\<lparr>vx_VEXDocument := document\<rparr>, err))"

interpretation sarif_scan: report_scan "sarif_candidates env ctx" "checked_product env ctx" "sarif_decode env"
  sr_ReportFile sr_ReportDigestSet for env and ctx :: "'d AttestationContext"
  by unfold_locales (auto simp: sarif_decode_def split: unit.splits prod.splits)

interpretation vex_scan: report_scan "vex_candidates env ctx" "checked_product env ctx" "vex_decode env"
  vx_ReportFile vx_ReportDigestSet for env and ctx :: "'d AttestationContext"
  by unfold_locales (auto simp: vex_decode_def split: prod.splits)

section \<open>Properties\<close>

text \<open>The digests of a product agree with the bytes of its file.\<close>

definition product_intact :: "doc_env \<Rightarrow> 'd AttestationContext \<Rightarrow> string \<Rightarrow> digest_set \<Rightarrow> bool" where
  "product_intact env ctx path ds \<longleftrightarrow>
     (\<exists>f data. dc_Open env path = Inr f \<and> file_data f = Inr data \<and>
        DigestSet_Equal (fst (CalculateDigestSetFromBytes (dc_lib env) data (ac_hashes ctx))) ds)"

text \<open>C34. A report that the SARIF or the VEX attestor takes is intact: it names a product of the context, with the
  product's digests, and the file has these digests when it is read.\<close>

theorem reports_are_intact:
  assumes "\<And>m. set (doc_order env m) = set m"
  shows "(sarif_Attest env ctx a = (a', None) \<longrightarrow>
      (\<exists>product. map_of (ctx_Products ctx) (sr_ReportFile a') = Some product \<and> sr_ReportDigestSet a' = pr_Digest product \<and>
         product_intact env ctx (sr_ReportFile a') (pr_Digest product))) \<and>
    (vex_Attest env ctx v = (v', None) \<longrightarrow>
      (\<exists>product. map_of (ctx_Products ctx) (vx_ReportFile v') = Some product \<and> vx_ReportDigestSet v' = pr_Digest product \<and>
         product_intact env ctx (vx_ReportFile v') (pr_Digest product)))"
proof -
  have ok: "gomap_ok (ctx_Products ctx)" by (simp add: ctx_Products_def)
  have mem: "map_of (ctx_Products ctx) path = Some product"
    if "doc_order env (ctx_Products ctx) = before @ (path, product) # after" for before path product after
    using that assms [of "ctx_Products ctx"] gomap_mem_iff [OF ok] by auto
  have intact: "product_intact env ctx path (pr_Digest product)" if "checked_product env ctx path product = Inr data" for path product data
    by (rule checked_product_ok [OF that]) (auto simp: product_intact_def)
  have "\<exists>product. map_of (ctx_Products ctx) (sr_ReportFile a') = Some product \<and> sr_ReportDigestSet a' = pr_Digest product \<and>
      product_intact env ctx (sr_ReportFile a') (pr_Digest product)" if "sarif_Attest env ctx a = (a', None)"
  proof -
    from that have "sarif_candidates env ctx (doc_order env (ctx_Products ctx)) a = (a', None)"
      by (auto simp: sarif_Attest_def sarif_getCandidate_def Let_def split: if_splits)
    from sarif_scan.scan_found [OF this] show ?thesis using mem intact by blast
  qed
  moreover have "\<exists>product. map_of (ctx_Products ctx) (vx_ReportFile v') = Some product \<and> vx_ReportDigestSet v' = pr_Digest product \<and>
      product_intact env ctx (vx_ReportFile v') (pr_Digest product)" if "vex_Attest env ctx v = (v', None)"
  proof -
    from that have "vex_candidates env ctx (doc_order env (ctx_Products ctx)) v = (v', None)"
      by (auto simp: vex_Attest_def vex_getCandidate_def Let_def split: if_splits)
    from vex_scan.scan_found [OF this] show ?thesis using mem intact by blast
  qed
  ultimately show ?thesis by blast
qed

text \<open>A sample: two products, of which one is a report.\<close>

definition sample_doc_env :: doc_env where
  "sample_doc_env =
     \<lparr>dc_lib = sample_lib,
      dc_Open = \<lambda>path. if path = ''r.json'' \<or> path = ''wd/r.json'' then Inr \<lparr>file_stat = Inr 0, file_data = Inr ''R''\<rparr> else Inl (LibError ''open''),
      doc_order = rev,
      dc_unmarshal_spdx = \<lambda>data. if data = ''null'' then Inr None else Inr (Some (''n'', data)),
      dc_decode_bom = \<lambda>data. Inr \<lparr>bom_Component = None, bom_Document = data\<rparr>,
      dc_unmarshal_any = \<lambda>data. Inr data, dc_marshal_any = \<lambda>d. Inr (case d of None \<Rightarrow> ''null'' | Some t \<Rightarrow> t),
      dc_unmarshal_report = \<lambda>data old. (data, None), dc_unmarshal_vex = \<lambda>data old. (data, None),
      dc_unmarshal_pom = \<lambda>data a. (a, None), dc_Glob = \<lambda>pattern. Inr (if pattern = ''go.sum'' then [''r.json''] else [])\<rparr>"

definition sample_doc_ctx :: "string \<Rightarrow> unit AttestationContext" where
  "sample_doc_ctx mime = (sample_context [])\<lparr>ac_products :=
     [(''r.json'', \<lparr>pr_MimeType = mime, pr_Digest = fst (CalculateDigestSetFromBytes sample_lib ''R'' (ac_hashes (sample_context [] :: unit AttestationContext)))\<rparr>)]\<rparr>"

theorem reports_are_intact_witness:
  "\<exists>a'. sarif_Attest sample_doc_env (sample_doc_ctx ''application/json'') sarif_New = (a', None) \<and>
     (\<exists>product. map_of (ctx_Products (sample_doc_ctx ''application/json'')) (sr_ReportFile a') = Some product \<and>
        product_intact sample_doc_env (sample_doc_ctx ''application/json'') (sr_ReportFile a') (pr_Digest product))"
proof -
  have "snd (sarif_Attest sample_doc_env (sample_doc_ctx ''application/json'') sarif_New) = None" by code_simp
  then obtain a' where a': "sarif_Attest sample_doc_env (sample_doc_ctx ''application/json'') sarif_New = (a', None)"
    by (metis prod.collapse)
  moreover have order: "\<And>m. set (doc_order sample_doc_env m) = set m" by (simp add: sample_doc_env_def)
  ultimately show ?thesis using reports_are_intact [OF order, of "sample_doc_ctx ''application/json''" sarif_New a'] by blast
qed

text \<open>A bill of materials is attested under the predicate type of its product: when the attestor succeeds there
  is a product whose content type stands for the predicate type the attestor now has, the product is a
  subject with its digests, and the document is the decoded file.\<close>

theorem sbom_describes_product:
  assumes "\<And>m. set (doc_order env m) = set m" and "sbom_Attest env ctx a = Return (a', None)"
  shows "\<exists>path product. map_of (ctx_Products ctx) path = Some product \<and> sbom_describes env ctx a' path product"
proof -
  from assms(2) have "sbom_candidates env ctx (doc_order env (ctx_Products ctx)) (a\<lparr>sb_subjects := []\<rparr>) = Return (a', None)"
    by (auto simp: sbom_Attest_def sbom_getCandidate_def Let_def split: if_splits)
  from sbom_candidates_ok [OF this] obtain path product where
    "(path, product) \<in> set (doc_order env (ctx_Products ctx))" and good: "sbom_describes env ctx a' path product" by blast
  then have "map_of (ctx_Products ctx) path = Some product"
    using assms(1) [of "ctx_Products ctx"] gomap_mem_iff [of "ctx_Products ctx"] by (simp add: ctx_Products_def)
  with good show ?thesis by blast
qed

theorem sbom_describes_product_witness:
  "\<exists>a'. sbom_Attest sample_doc_env (sample_doc_ctx SPDXMimeType) NewSBOMAttestor = Return (a', None) \<and>
     (\<exists>path product. map_of (ctx_Products (sample_doc_ctx SPDXMimeType)) path = Some product \<and>
        sbom_describes sample_doc_env (sample_doc_ctx SPDXMimeType) a' path product)"
proof -
  have "case sbom_Attest sample_doc_env (sample_doc_ctx SPDXMimeType) NewSBOMAttestor of Return (a, e) \<Rightarrow> e = None | Panic m \<Rightarrow> False"
    by code_simp
  then obtain a' where a': "sbom_Attest sample_doc_env (sample_doc_ctx SPDXMimeType) NewSBOMAttestor = Return (a', None)"
    by (auto split: outcome.splits)
  have order: "\<And>m. set (doc_order sample_doc_env m) = set m" by (simp add: sample_doc_env_def)
  from sbom_describes_product [OF order a'] a' show ?thesis by blast
qed

text \<open>A product that says it is SPDX and holds a JSON null makes the attestor panic, and so does a CycloneDX
  document without metadata or without a component.\<close>

theorem empty_sbom_panics:
  assumes "doc_order env (ctx_Products ctx) = (path, product) # rest"
    and "dc_Open env (filepath_Join (ac_workingDir ctx) path) = Inr f" and "file_data f = Inr data"
    and "pr_MimeType product = SPDXMimeType \<and> dc_unmarshal_spdx env data = Inr None \<or>
      pr_MimeType product = CycloneDxMimeType \<and> dc_decode_bom env data = Inr b \<and> Option.bind (bom_Component b) (\<lambda>c. c) = None"
  shows "sbom_Attest env ctx a = Panic nil_panic"
proof -
  have types: "SPDXMimeType \<noteq> CycloneDxMimeType" "SPDXPredicateType \<noteq> CycloneDxPredicateType"
    by (simp_all add: SPDXMimeType_def CycloneDxMimeType_def SPDXPredicateType_def CycloneDxPredicateType_def)
  show ?thesis using assms types
    by (auto simp: sbom_Attest_def sbom_getCandidate_def Let_def predicate_of_mime_def sbom_file_def decode_sbom_def
        split: option.splits)
qed

theorem empty_sbom_panics_witness:
  "sbom_Attest sample_doc_env (sample_doc_ctx CycloneDxMimeType) NewSBOMAttestor = Panic nil_panic"
proof (rule empty_sbom_panics [where b = "\<lparr>bom_Component = None, bom_Document = ''R''\<rparr>"])
  show "doc_order sample_doc_env (ctx_Products (sample_doc_ctx CycloneDxMimeType)) =
      (''r.json'', \<lparr>pr_MimeType = CycloneDxMimeType, pr_Digest = fst (CalculateDigestSetFromBytes sample_lib ''R''
        (ac_hashes (sample_context [] :: unit AttestationContext)))\<rparr>) # []"
    by (simp add: sample_doc_env_def sample_doc_ctx_def ctx_Products_def)
  show "dc_Open sample_doc_env (filepath_Join (ac_workingDir (sample_doc_ctx CycloneDxMimeType)) ''r.json'') =
      Inr \<lparr>file_stat = Inr 0, file_data = Inr ''R''\<rparr>" by code_simp
qed (auto simp: sample_doc_env_def)

text \<open>The record of a lock file is that of a file: its base name, its content and the content's digest.\<close>

definition lockfile_of :: "doc_env \<Rightarrow> string \<Rightarrow> LockfileInfo \<Rightarrow> bool" where
  "lockfile_of env path lockfile \<longleftrightarrow>
     (\<exists>f. dc_Open env path = Inr f \<and> file_data f = Inr (lf_Content lockfile) \<and> lf_Filename lockfile = filepath_Base path \<and>
        lf_Digest lockfile = fst (CalculateDigestSetFromBytes (dc_lib env) (lf_Content lockfile) [plain_digest SHA256]))"

lemma lock_match_ok: "lock_match env path = Inr lockfile \<Longrightarrow> lockfile_of env path lockfile"
  by (auto simp: lock_match_def lockfile_of_def CalculateDigestSetFromBytes_def CalculateDigestSet_def split: sum.splits)

lemma lock_matches_ok:
  "lock_matches env ms ls = (ls', None) \<Longrightarrow> \<exists>new. ls' = ls @ new \<and> list_all2 (lockfile_of env) ms new"
proof (induction ms arbitrary: ls)
  case (Cons m ms)
  then obtain l where l: "lock_match env m = Inr l" and rest: "lock_matches env ms (ls @ [l]) = (ls', None)"
    by (auto split: sum.splits)
  from Cons.IH [OF rest] obtain new where "ls' = ls @ l # new" "list_all2 (lockfile_of env) ms new" by auto
  with lock_match_ok [OF l] show ?case by (intro exI [of _ "l # new"]) simp
qed simp

lemma lock_patterns_ok:
  "lock_patterns env ps ls = (ls', None) \<Longrightarrow>
     \<exists>matches new. mapE (dc_Glob env) ps = Inr matches \<and> ls' = ls @ new \<and> list_all2 (lockfile_of env) (concat matches) new"
proof (induction ps arbitrary: ls)
  case (Cons p ps)
  then obtain ms ls1 where ms: "dc_Glob env p = Inr ms" and ls1: "lock_matches env ms ls = (ls1, None)"
    and rest: "lock_patterns env ps ls1 = (ls', None)" by (auto split: sum.splits prod.splits option.splits)
  from lock_matches_ok [OF ls1] Cons.IH [OF rest] obtain new1 matches new where "ls1 = ls @ new1"
    "list_all2 (lockfile_of env) ms new1" "mapE (dc_Glob env) ps = Inr matches" "ls' = ls1 @ new"
    "list_all2 (lockfile_of env) (concat matches) new" by blast
  with ms show ?case by (intro exI [of _ "ms # matches"] exI [of _ "new1 @ new"]) (simp add: list_all2_appendI)
qed simp

text \<open>The lock file attestor records every lock file there is: when it succeeds, its list has, in order, one record
  for every file that a pattern matches, with the file's content and digest. What it held before is gone.\<close>

theorem lockfiles_recorded:
  assumes "lockfiles_Attest env old = (lockfiles, None)"
  shows "\<exists>matches. mapE (dc_Glob env) lockfilePatterns = Inr matches \<and> list_all2 (lockfile_of env) (concat matches) lockfiles"
  using lock_patterns_ok [OF assms [unfolded lockfiles_Attest_def]] by auto

theorem lockfiles_recorded_witness:
  "\<exists>lockfiles. lockfiles_Attest sample_doc_env NewLockfilesAttestor = (lockfiles, None) \<and> length lockfiles = 1 \<and>
     lockfile_of sample_doc_env ''r.json'' (hd lockfiles)"
proof -
  have "snd (lockfiles_Attest sample_doc_env NewLockfilesAttestor) = None" by code_simp
  then obtain ls where ls: "lockfiles_Attest sample_doc_env NewLockfilesAttestor = (ls, None)" by (metis prod.collapse)
  from lockfiles_recorded [OF ls] have "list_all2 (lockfile_of sample_doc_env) [''r.json''] ls"
    by (auto simp: sample_doc_env_def lockfilePatterns_def)
  with ls show ?thesis by (auto simp: list_all2_Cons1)
qed

text \<open>The subjects of a Maven project are the project and its dependencies, each by its coordinates, and nothing
  else.\<close>

theorem maven_Subjects_exact:
  "map_of (maven_Subjects lib a) key = Some ds \<longleftrightarrow>
     (key = ''project:'' @ coordinates (mv_GroupId a) (mv_ArtifactId a) (mv_Version a) \<or>
      (\<exists>dep \<in> set (mv_Dependencies a).
         key = ''dependency:'' @ coordinates (md_GroupId dep) (md_ArtifactId dep) (md_Version dep))) \<and>
     ds = fst (CalculateDigestSetFromBytes lib key [plain_digest SHA256])"
proof -
  let ?digest = "\<lambda>key. fst (CalculateDigestSetFromBytes lib key [plain_digest SHA256])"
  let ?name = "\<lambda>dep. ''dependency:'' @ coordinates (md_GroupId dep) (md_ArtifactId dep) (md_Version dep)"
  have fold: "map_of (fold (\<lambda>dep subjects. let depSubject = ?name dep in AList.update depSubject (?digest depSubject) subjects) deps m) key =
      (if key \<in> ?name ` set deps then Some (?digest key) else map_of m key)" for deps m
    by (induction deps arbitrary: m) (auto simp: Let_def update_conv)
  have subjects: "maven_Subjects lib a = fold (\<lambda>dep subjects. let depSubject = ?name dep in AList.update depSubject (?digest depSubject) subjects)
      (mv_Dependencies a) [(''project:'' @ coordinates (mv_GroupId a) (mv_ArtifactId a) (mv_Version a),
        ?digest (''project:'' @ coordinates (mv_GroupId a) (mv_ArtifactId a) (mv_Version a)))]"
    by (simp add: maven_Subjects_def Let_def CalculateDigestSetFromBytes_def CalculateDigestSet_def)
  show ?thesis unfolding subjects fold by (auto split: if_splits)
qed

end
