(* ===== verification/Image_Attestors.thy ===== *)
theory Image_Attestors
  imports Document_Attestors
begin

text \<open>
  The attestors of container images: \<open>attestation/docker/docker.go\<close> with \<open>internal/docker/metadata.go\<close>, and
  \<open>attestation/oci/oci.go\<close>.

  Files, JSON decoding of plain types, URL parsing, the tar and the gzip readers are parameters, in \<open>image_env\<close>.
  The fields of a type that the attestors only decode and never read are left out of its record. The order of
  a map is that of its list; \<open>ie_order\<close> is the order in which \<open>range\<close> visits the products and
  \<open>ie_raw_order\<close> that of the members of a JSON object.
\<close>

section \<open>Data\<close>

text \<open>The provenance that buildx writes: the address and the SHA-256 digest of every material.\<close>

record docker_material =
  dm_URI :: string
  dm_Sha256 :: string

record BuildInfo_docker =
  db_Provenance :: "(string, docker_material list) gomap"
  db_BuildRef :: string
  db_ContainerImageConfigDigest :: string
  db_ContainerImageDigest :: string
  db_ImageName :: string

record Material =
  ma_URI :: string
  ma_Architecture :: string
  ma_Digest :: digest_set

record DockerProduct =
  dp_Materials :: "(string, Material list) gomap"
  dp_ImageReferences :: "string list"
  dp_ImageDigest :: digest_set

type_synonym docker_attestor = "(string, DockerProduct) gomap"

record Manifest =
  mf_Config :: string
  mf_RepoTags :: "string list"
  mf_Layers :: "string list"

text \<open>An entry of a tar file. \<open>tr_Read k\<close> is what a zeroed buffer of the entry's size holds after the \<open>k\<close>-th \<open>Read\<close>,
  with the error of that \<open>Read\<close> other than the end of the file. Reading the entries stops at the end of the file
  or at an error.\<close>

record tar_entry =
  tr_Name :: string
  tr_IsDir :: bool
  tr_Read :: "nat \<Rightarrow> bytes \<times> gerr option"

type_synonym tar_file = "tar_entry list \<times> gerr option"

record image_env =
  ie_lib :: crypto_lib
  ie_Open :: "string \<Rightarrow> gerr + open_file"
  ie_order :: "(string, Product) gomap \<Rightarrow> (string, Product) gomap"
  ie_unmarshal_alias :: "bytes \<Rightarrow> gerr + BuildInfo_docker"
  ie_unmarshal_raw :: "bytes \<Rightarrow> gerr + (string, bytes) gomap"
  ie_raw_order :: "(string, bytes) gomap \<Rightarrow> (string, bytes) gomap"
  ie_unmarshal_string :: "bytes \<Rightarrow> string \<Rightarrow> gerr + string"
  ie_unmarshal_provenance :: "bytes \<Rightarrow> gerr + docker_material list"
  ie_RawQuery :: "string \<Rightarrow> gerr + string"
  ie_query_Get :: "string \<Rightarrow> string \<Rightarrow> gerr + string"
  ie_QueryUnescape :: "string \<Rightarrow> gerr + string"
  ie_tar :: "bytes \<Rightarrow> tar_file"
  ie_unmarshal_manifest :: "bytes \<Rightarrow> gerr + Manifest list"
  ie_DetectContentType :: "bytes \<Rightarrow> string"
  ie_gunzip :: "bytes \<Rightarrow> gerr + reader"

text \<open>\<open>strings.ReplaceAll\<close> for a text that is not empty, and the digest of a set under SHA-256, empty when there is
  none.\<close>

function replace_all :: "string \<Rightarrow> string \<Rightarrow> string \<Rightarrow> string" where
  "replace_all old new [] = []"
| "replace_all old new (c # s) =
     (if has_prefix (c # s) old then new @ replace_all old new (drop (length old - 1) s) else c # replace_all old new s)"
  by pat_completeness auto
termination by (relation "measure (\<lambda>(old, new, s). length s)") auto

definition sha256_of :: "digest_set \<Rightarrow> string" where
  "sha256_of ds = (case map_of ds (plain_digest SHA256) of None \<Rightarrow> [] | Some d \<Rightarrow> d)"

section \<open>The metadata of a build\<close>

text \<open>The architecture of a provenance without one in its key: that of its last material whose address names a
  platform. An unescaping that fails leaves it empty.\<close>

definition material_arch :: "image_env \<Rightarrow> docker_material \<Rightarrow> string \<Rightarrow> string" where
  "material_arch env mat arch =
     (let raw = replace_all ([CHR 0x5C] @ ''u0026'') ''&'' (dm_URI mat)
      in case ie_RawQuery env raw of
           Inl err \<Rightarrow> arch
         | Inr rawQuery \<Rightarrow>
             (case ie_query_Get env rawQuery ''platform'' of
                Inl err \<Rightarrow> arch
              | Inr platform \<Rightarrow>
                  if platform = [] then arch
                  else case ie_QueryUnescape env platform of Inl err \<Rightarrow> [] | Inr unescaped \<Rightarrow> unescaped))"

definition provenance_key :: string where "provenance_key = ''buildx.build.provenance''"

definition raw_member :: "image_env \<Rightarrow> string \<times> bytes \<Rightarrow> BuildInfo_docker \<Rightarrow> gerr + BuildInfo_docker" where
  "raw_member env member b =
     (case member of (key, val) \<Rightarrow>
        if key = ''buildx.build.ref''
        then (case ie_unmarshal_string env val (db_BuildRef b) of
                Inl err \<Rightarrow> Inl err
              | Inr ref \<Rightarrow> Inr (b\<lparr>db_BuildRef := ref\<rparr>))
        else if contains key provenance_key
        then (case ie_unmarshal_provenance env val of
                Inl err \<Rightarrow> Inr b
              | Inr provenance \<Rightarrow>
                  if key = provenance_key
                  then Inr (b\<lparr>db_Provenance :=
                    AList.update (fold (material_arch env) provenance []) provenance (db_Provenance b)\<rparr>)
                  else if has_prefix key (provenance_key @ ''/'')
                  then Inr (b\<lparr>db_Provenance :=
                    AList.update (trim_prefix key (provenance_key @ ''/'')) provenance (db_Provenance b)\<rparr>)
                  else Inl (Errorf ''unexpected provenance prefix on key: %s'' [FStr key]))
        else Inr b)"

definition BuildInfo_UnmarshalJSON :: "image_env \<Rightarrow> bytes \<Rightarrow> gerr + BuildInfo_docker" where
  "BuildInfo_UnmarshalJSON env data =
     (case ie_unmarshal_alias env data of
        Inl err \<Rightarrow> Inl err
      | Inr aux \<Rightarrow>
          (case ie_unmarshal_raw env data of
             Inl err \<Rightarrow> Inl err
           | Inr raw \<Rightarrow> foldE (raw_member env) (ie_raw_order env raw) (aux\<lparr>db_Provenance := []\<rparr>)))"

section \<open>Docker\<close>

definition docker_Name :: string where "docker_Name = ''docker''"
definition docker_Type :: string where "docker_Type = ''https://witness.dev/attestations/docker/v0.1''"
definition jsonMimeType :: string where "jsonMimeType = ''application/json''"

definition docker_New :: docker_attestor where "docker_New = []"

primrec docker_candidates ::
  "image_env \<Rightarrow> string \<Rightarrow> (string, Product) gomap \<Rightarrow> BuildInfo_docker list \<Rightarrow> gerr + BuildInfo_docker list" where
  "docker_candidates env workingDir [] mets = Inr mets"
| "docker_candidates env workingDir (entry # products) mets =
     (if contains jsonMimeType (pr_MimeType (snd entry))
      then (case (case ie_Open env (filepath_Join workingDir (fst entry)) of Inl err \<Rightarrow> Inl err | Inr f \<Rightarrow> file_data f) of
              Inl err \<Rightarrow> Inl (Errorf ''failed to read file %s: %w'' [FStr (fst entry), FErr err])
            | Inr f \<Rightarrow>
                (case BuildInfo_UnmarshalJSON env f of
                   Inl err \<Rightarrow> docker_candidates env workingDir products mets
                 | Inr met \<Rightarrow> docker_candidates env workingDir products (mets @ [met])))
      else docker_candidates env workingDir products mets)"

definition getDockerCandidates :: "image_env \<Rightarrow> 'd AttestationContext \<Rightarrow> gerr + BuildInfo_docker list" where
  "getDockerCandidates env ctx =
     (let products = ie_order env (ctx_Products ctx)
      in if length products = 0 then Inl (Errorf ''no products to attest'' [])
         else docker_candidates env (ac_workingDir ctx) products [])"

definition docker_materials :: "(string, docker_material list) gomap \<Rightarrow> (string, Material list) gomap" where
  "docker_materials provenance =
     fold (\<lambda>(arch, mats). fold (\<lambda>material materials.
         AList.update arch
           ((case map_of materials arch of None \<Rightarrow> [] | Some ms \<Rightarrow> ms) @
            [\<lparr>ma_URI = dm_URI material, ma_Architecture = arch, ma_Digest = [(plain_digest SHA256, dm_Sha256 material)]\<rparr>])
           materials) mats)
       provenance []"

definition setDockerCandidate :: "BuildInfo_docker \<Rightarrow> docker_attestor \<Rightarrow> docker_attestor" where
  "setDockerCandidate met products =
     (if \<not> has_prefix (db_ContainerImageDigest met) ''sha256:'' then products
      else (let trimmed = trim_prefix (db_ContainerImageDigest met) ''sha256:''
            in AList.update trimmed
                 \<lparr>dp_Materials = docker_materials (db_Provenance met), dp_ImageReferences = [db_ImageName met],
                  dp_ImageDigest = [(plain_digest SHA256, trimmed)]\<rparr> products))"

definition docker_Attest :: "image_env \<Rightarrow> 'd AttestationContext \<Rightarrow> docker_attestor \<Rightarrow> docker_attestor \<times> gerr option" where
  "docker_Attest env ctx a =
     (case getDockerCandidates env ctx of
        Inl err \<Rightarrow> (a, Some err)
      | Inr mets \<Rightarrow>
          (let products = fold setDockerCandidate mets []
           in (products, if length products = 0 then Some (Errorf ''no products to attest'' []) else None)))"

definition docker_material_subjects ::
  "crypto_lib \<Rightarrow> Material \<Rightarrow> (string, digest_set) gomap \<Rightarrow> (string, digest_set) gomap" where
  "docker_material_subjects lib m subj =
     text_subject lib ''materialuri'' (ma_URI m)
       (AList.update (''materialdigest:'' @ sha256_of (ma_Digest m)) (ma_Digest m) subj)"

definition docker_product_subjects ::
  "crypto_lib \<Rightarrow> DockerProduct \<Rightarrow> (string, digest_set) gomap \<Rightarrow> (string, digest_set) gomap" where
  "docker_product_subjects lib p subj =
     fold (text_subject lib ''imagereference'') (dp_ImageReferences p)
       (fold (\<lambda>(arch, mat). fold (docker_material_subjects lib) mat) (dp_Materials p)
         (fold (text_subject lib ''imagereference'') (dp_ImageReferences p)
           (AList.update (''imagedigest:'' @ sha256_of (dp_ImageDigest p)) (dp_ImageDigest p) subj)))"

definition docker_Subjects :: "crypto_lib \<Rightarrow> docker_attestor \<Rightarrow> (string, digest_set) gomap" where
  "docker_Subjects lib a = fold (\<lambda>(digest, p). docker_product_subjects lib p) a []"

section \<open>OCI image archives\<close>

definition oci_Type :: string where "oci_Type = ''https://witness.dev/attestations/oci/v0.1''"
definition oci_mimeTypes :: string where "oci_mimeTypes = ''application/x-tar''"

record oci_attestor =
  oc_TarDigest :: digest_set
  oc_Manifest :: "Manifest list"
  oc_ImageTags :: "string list"
  oc_LayerDiffIDs :: "digest_set list"
  oc_ImageID :: digest_set
  oc_ManifestRaw :: bytes
  oc_ManifestDigest :: digest_set
  oc_tarFilePath :: string

definition oci_New :: oci_attestor where
  "oci_New =
     \<lparr>oc_TarDigest = [], oc_Manifest = [], oc_ImageTags = [], oc_LayerDiffIDs = [], oc_ImageID = [], oc_ManifestRaw = [],
      oc_ManifestDigest = [], oc_tarFilePath = []\<rparr>"

primrec oci_candidates ::
  "image_env \<Rightarrow> 'd AttestationContext \<Rightarrow> (string, Product) gomap \<Rightarrow> oci_attestor \<Rightarrow> oci_attestor \<times> gerr option" where
  "oci_candidates env ctx [] a = (a, Some (Errorf ''no tar file found'' []))"
| "oci_candidates env ctx (entry # products) a =
     (if \<not> contains oci_mimeTypes (pr_MimeType (snd entry)) then oci_candidates env ctx products a
      else case CalculateDigestSetFromFile (ie_lib env) (ie_Open env) (fst entry) (ac_hashes ctx) of
             (_, Some err) \<Rightarrow> (a, Some (Errorf ''error calculating digest set from file: %s'' [FStr (fst entry)]))
           | (newDigestSet, None) \<Rightarrow>
               if \<not> DigestSet_Equal newDigestSet (pr_Digest (snd entry))
               then (a, Some (Errorf ''integrity error: product digest set does not match candidate digest set'' []))
               else (a\<lparr>oc_TarDigest := pr_Digest (snd entry), oc_tarFilePath := fst entry\<rparr>, None))"

definition oci_getCandidate :: "image_env \<Rightarrow> 'd AttestationContext \<Rightarrow> oci_attestor \<Rightarrow> oci_attestor \<times> gerr option" where
  "oci_getCandidate env ctx a =
     (let products = ie_order env (ctx_Products ctx)
      in if length products = 0 then (a, Some (Errorf ''no products to attest'' []))
         else oci_candidates env ctx products a)"

text \<open>The file as a tar file. A file that cannot be read is one that fails at its first entry.\<close>

definition open_tar :: "image_env \<Rightarrow> string \<Rightarrow> gerr + tar_file" where
  "open_tar env path =
     (case ie_Open env path of
        Inl err \<Rightarrow> Inl err
      | Inr f \<Rightarrow> Inr (case file_data f of Inl err \<Rightarrow> ([], Some err) | Inr data \<Rightarrow> ie_tar env data))"

text \<open>The first entry of a name that is not a directory; an error of the reader before it.\<close>

definition find_entry :: "string \<Rightarrow> tar_file \<Rightarrow> gerr + tar_entry option" where
  "find_entry name tar =
     (case List.find (\<lambda>h. \<not> tr_IsDir h \<and> tr_Name h = name) (fst tar) of
        Some h \<Rightarrow> Inr (Some h)
      | None \<Rightarrow> (case snd tar of Some err \<Rightarrow> Inl err | None \<Rightarrow> Inr None))"

definition parseMaifest :: "image_env \<Rightarrow> 'd AttestationContext \<Rightarrow> oci_attestor \<Rightarrow> oci_attestor \<times> gerr option" where
  "parseMaifest env ctx a =
     (case open_tar env (oc_tarFilePath a) of
        Inl err \<Rightarrow> (a, Some (Errorf ''error opening tar file: %w'' [FErr err]))
      | Inr tar \<Rightarrow>
          (case find_entry ''manifest.json'' tar of
             Inl err \<Rightarrow> (a, Some err)
           | Inr entry \<Rightarrow>
               (let a = (case entry of None \<Rightarrow> a | Some h \<Rightarrow> a\<lparr>oc_ManifestRaw := fst (tr_Read h 0)\<rparr>)
                in case CalculateDigestSetFromBytes (ie_lib env) (oc_ManifestRaw a) (ac_hashes ctx) of
                     (_, Some err) \<Rightarrow> (a, Some err)
                   | (manifestDigest, None) \<Rightarrow>
                       (let a = a\<lparr>oc_ManifestDigest := manifestDigest\<rparr>
                        in case ie_unmarshal_manifest env (oc_ManifestRaw a) of
                             Inl err \<Rightarrow> (a, Some err)
                           | Inr manifest \<Rightarrow> (a\<lparr>oc_Manifest := manifest\<rparr>, None)))))"

definition getImageID :: "image_env \<Rightarrow> 'd AttestationContext \<Rightarrow> Manifest \<Rightarrow> string \<Rightarrow> gerr + digest_set" where
  "getImageID env ctx m tarFilePath =
     (case open_tar env tarFilePath of
        Inl err \<Rightarrow> Inl err
      | Inr tar \<Rightarrow>
          (case find_entry (mf_Config m) tar of
             Inl err \<Rightarrow> Inl err
           | Inr None \<Rightarrow> Inl (Errorf ''could not find config in tar file'' [])
           | Inr (Some h) \<Rightarrow>
               (case tr_Read h 0 of
                  (_, Some err) \<Rightarrow> Inl err
                | (b, None) \<Rightarrow>
                    (case CalculateDigestSetFromBytes (ie_lib env) b (ac_hashes ctx) of
                       (_, Some err) \<Rightarrow> Inl err
                     | (imageID, None) \<Rightarrow> Inr imageID))))"

text \<open>The bytes of a layer, decompressed where it is compressed.\<close>

definition layer_bytes :: "image_env \<Rightarrow> bytes \<Rightarrow> gerr + bytes" where
  "layer_bytes env b =
     (if ie_DetectContentType env b = ''application/x-gzip''
      then (case ie_gunzip env b of Inl err \<Rightarrow> Inl err | Inr breader \<Rightarrow> breader)
      else Inr b)"

text \<open>An entry is read and digested once for every time the manifest lists it; \<open>k\<close> counts the reads.\<close>

primrec layer_copies ::
  "image_env \<Rightarrow> digest_value list \<Rightarrow> tar_entry \<Rightarrow> nat \<Rightarrow> string list \<Rightarrow> digest_set list \<Rightarrow> gerr + digest_set list" where
  "layer_copies env hashes h k [] diffIDs = Inr diffIDs"
| "layer_copies env hashes h k (layerFile # layers) diffIDs =
     (if tr_Name h = layerFile
      then (case tr_Read h k of
              (_, Some err) \<Rightarrow> Inl err
            | (b, None) \<Rightarrow>
                (case layer_bytes env b of
                   Inl err \<Rightarrow> Inl err
                 | Inr c \<Rightarrow>
                     (case CalculateDigestSetFromBytes (ie_lib env) c hashes of
                        (_, Some err) \<Rightarrow> Inl err
                      | (layerDiffID, None) \<Rightarrow> layer_copies env hashes h (Suc k) layers (diffIDs @ [layerDiffID]))))
      else layer_copies env hashes h k layers diffIDs)"

definition getLayerDIFFIDs :: "image_env \<Rightarrow> 'd AttestationContext \<Rightarrow> Manifest \<Rightarrow> string \<Rightarrow> gerr + digest_set list" where
  "getLayerDIFFIDs env ctx m tarFilePath =
     (case open_tar env tarFilePath of
        Inl err \<Rightarrow> Inl err
      | Inr tar \<Rightarrow>
          (case foldE (\<lambda>h. layer_copies env (ac_hashes ctx) h 0 (mf_Layers m))
                  (filter (\<lambda>h. \<not> tr_IsDir h) (fst tar)) [] of
             Inl err \<Rightarrow> Inl err
           | Inr diffIDs \<Rightarrow> (case snd tar of Some err \<Rightarrow> Inl err | None \<Rightarrow> Inr diffIDs)))"

definition oci_index_panic :: string where "oci_index_panic = ''index out of range''"

definition oci_Attest :: "image_env \<Rightarrow> 'd AttestationContext \<Rightarrow> oci_attestor \<Rightarrow> (oci_attestor \<times> gerr option) outcome" where
  "oci_Attest env ctx a =
     (case oci_getCandidate env ctx a of
        (a, Some err) \<Rightarrow> Return (a, Some err)
      | (a, None) \<Rightarrow>
          (case parseMaifest env ctx a of
             (a, Some err) \<Rightarrow> Return (a, Some err)
           | (a, None) \<Rightarrow>
               (case oc_Manifest a of
                  [] \<Rightarrow> Panic oci_index_panic
                | m # ms \<Rightarrow> Return
                    (case getImageID env ctx m (oc_tarFilePath a) of
                       Inl err \<Rightarrow> (a, Some err)
                     | Inr imageID \<Rightarrow>
                         (case getLayerDIFFIDs env ctx m (oc_tarFilePath a) of
                            Inl err \<Rightarrow> (a, Some err)
                          | Inr layerDiffIDs \<Rightarrow>
                              (a\<lparr>oc_ImageID := imageID, oc_LayerDiffIDs := layerDiffIDs, oc_ImageTags := mf_RepoTags m\<rparr>, None))))))"

text \<open>\<open>%02d\<close>\<close>

definition dec2 :: "nat \<Rightarrow> string" where
  "dec2 n = (if n < 10 then ''0'' @ dec n else dec n)"

definition oci_Subjects :: "crypto_lib \<Rightarrow> oci_attestor \<Rightarrow> (string, digest_set) gomap" where
  "oci_Subjects lib a =
     (let subj = AList.update (''imageid:'' @ sha256_of (oc_ImageID a)) (oc_ImageID a)
                   (AList.update (''tardigest:'' @ sha256_of (oc_TarDigest a)) (oc_TarDigest a)
                     [(''manifestdigest:'' @ sha256_of (oc_ManifestDigest a), oc_ManifestDigest a)]);
          subj = fold (text_subject lib ''imagetag'') (oc_ImageTags a) subj
      in fold (\<lambda>(layer, ds). AList.update (''layerdiffid'' @ dec2 layer @ '':'' @ sha256_of ds) ds)
           (enumerate 0 (oc_LayerDiffIDs a)) subj)"

section \<open>Lemmas\<close>

text \<open>The metadata that a product holds, if it is taken for metadata.\<close>

definition metadata_of :: "image_env \<Rightarrow> string \<Rightarrow> string \<times> Product \<Rightarrow> BuildInfo_docker \<Rightarrow> bool" where
  "metadata_of env workingDir entry met \<longleftrightarrow>
     contains jsonMimeType (pr_MimeType (snd entry)) \<and>
     (\<exists>f data. ie_Open env (filepath_Join workingDir (fst entry)) = Inr f \<and> file_data f = Inr data \<and>
        BuildInfo_UnmarshalJSON env data = Inr met)"

lemma docker_candidates_ok:
  "docker_candidates env wd products mets = Inr mets' \<Longrightarrow>
     set mets' = set mets \<union> {met. \<exists>entry \<in> set products. metadata_of env wd entry met}"
proof (induction products arbitrary: mets)
  case (Cons entry products)
  show ?case
  proof (cases "contains jsonMimeType (pr_MimeType (snd entry))")
    case False
    with Cons show ?thesis by (auto simp: metadata_of_def)
  next
    case True
    with Cons.prems obtain f data where f: "ie_Open env (filepath_Join wd (fst entry)) = Inr f" "file_data f = Inr data"
      by (auto split: sum.splits)
    show ?thesis
    proof (cases "BuildInfo_UnmarshalJSON env data")
      case (Inl err)
      with Cons True f show ?thesis by (auto simp: metadata_of_def)
    next
      case (Inr met)
      with Cons.prems True f have "docker_candidates env wd products (mets @ [met]) = Inr mets'" by simp
      from Cons.IH [OF this] True f Inr show ?thesis by (auto simp: metadata_of_def)
    qed
  qed
qed simp

lemma setDockerCandidate_map:
  "map_of (setDockerCandidate met ps) d =
     (if db_ContainerImageDigest met = ''sha256:'' @ d
      then Some \<lparr>dp_Materials = docker_materials (db_Provenance met), dp_ImageReferences = [db_ImageName met],
        dp_ImageDigest = [(plain_digest SHA256, d)]\<rparr>
      else map_of ps d)"
proof (cases "has_prefix (db_ContainerImageDigest met) ''sha256:''")
  case True
  then obtain t where "db_ContainerImageDigest met = ''sha256:'' @ t" by (auto simp: has_prefix_iff)
  then show ?thesis using True by (auto simp: setDockerCandidate_def trim_prefix_def Let_def update_conv)
next
  case False
  then show ?thesis by (auto simp: setDockerCandidate_def has_prefix_iff)
qed

text \<open>The images under the digests of the metadata, the last metadata of a digest counting.\<close>

lemma candidates_map:
  "map_of (fold setDockerCandidate mets ps) d =
     (case List.find (\<lambda>met. db_ContainerImageDigest met = ''sha256:'' @ d) (rev mets) of
        None \<Rightarrow> map_of ps d
      | Some met \<Rightarrow> Some \<lparr>dp_Materials = docker_materials (db_Provenance met), dp_ImageReferences = [db_ImageName met],
          dp_ImageDigest = [(plain_digest SHA256, d)]\<rparr>)"
proof (induction mets rule: rev_induct)
  case (snoc met mets)
  then show ?case by (simp add: setDockerCandidate_map)
qed simp

lemma setDockerCandidate_ok: "gomap_ok ps \<Longrightarrow> gomap_ok (fold setDockerCandidate mets ps)"
  by (induction mets arbitrary: ps) (auto simp: setDockerCandidate_def Let_def)

lemma fold_text_subject_other:
  "(\<And>val. key \<noteq> kind @ '':'' @ val) \<Longrightarrow> map_of (fold (text_subject lib kind) vals m) key = map_of m key"
  by (induction vals arbitrary: m) (auto simp: text_subject_update update_conv)

lemma docker_material_subjects_other:
  "map_of (fold (docker_material_subjects lib) mats m) (''imagedigest:'' @ d) = map_of m (''imagedigest:'' @ d)"
  by (induction mats arbitrary: m) (auto simp: docker_material_subjects_def text_subject_update update_conv)

lemma docker_materials_other:
  "map_of (fold (\<lambda>(arch, mat). fold (docker_material_subjects lib) mat) mats m) (''imagedigest:'' @ d) =
     map_of m (''imagedigest:'' @ d)"
  using docker_material_subjects_other by (induction mats arbitrary: m) auto

lemma docker_product_image:
  "map_of (docker_product_subjects lib p m) (''imagedigest:'' @ d) =
     (if sha256_of (dp_ImageDigest p) = d then Some (dp_ImageDigest p) else map_of m (''imagedigest:'' @ d))"
proof -
  have other: "map_of (fold (text_subject lib ''imagereference'') vals m) (''imagedigest:'' @ d) = map_of m (''imagedigest:'' @ d)"
    for vals m by (rule fold_text_subject_other) simp
  show ?thesis unfolding docker_product_subjects_def other docker_materials_other by (simp add: update_conv)
qed

lemma docker_Subjects_image:
  assumes "\<forall>(d, p) \<in> set a. dp_ImageDigest p = [(plain_digest SHA256, d)]"
  shows "map_of (docker_Subjects lib a) (''imagedigest:'' @ d) =
    (if d \<in> fst ` set a then Some [(plain_digest SHA256, d)] else None)"
proof -
  have "map_of (fold (\<lambda>(digest, p). docker_product_subjects lib p) a m) (''imagedigest:'' @ d) =
      (if d \<in> fst ` set a then Some [(plain_digest SHA256, d)] else map_of m (''imagedigest:'' @ d))" for m
    using assms
  proof (induction a arbitrary: m)
    case (Cons x a)
    obtain e p where x: "x = (e, p)" by (cases x)
    with Cons.prems have p: "dp_ImageDigest p = [(plain_digest SHA256, e)]" by simp
    show ?case using Cons by (auto simp: x p docker_product_image [simplified] sha256_of_def)
  qed simp
  then show ?thesis by (simp add: docker_Subjects_def)
qed

lemma oci_candidates_ok:
  "oci_candidates env ctx products a = (a', None) \<Longrightarrow>
     \<exists>product. (oc_tarFilePath a', product) \<in> set products \<and> contains oci_mimeTypes (pr_MimeType product) \<and>
       oc_TarDigest a' = pr_Digest product \<and>
       DigestSet_Equal (fst (CalculateDigestSetFromFile (ie_lib env) (ie_Open env) (oc_tarFilePath a') (ac_hashes ctx))) (pr_Digest product)"
proof (induction products)
  case (Cons entry products)
  obtain path product where entry: "entry = (path, product)" by (cases entry)
  obtain ds err where ds: "CalculateDigestSetFromFile (ie_lib env) (ie_Open env) path (ac_hashes ctx) = (ds, err)" by fastforce
  show ?case
  proof (cases "contains oci_mimeTypes (pr_MimeType product)")
    case True
    with Cons.prems ds show ?thesis by (auto simp: entry split: option.splits if_splits)
  next
    case False
    with Cons show ?thesis by (auto simp: entry)
  qed
qed simp

lemma parseMaifest_ok:
  assumes "parseMaifest env ctx a = (a', None)"
  shows "oc_tarFilePath a' = oc_tarFilePath a \<and> oc_TarDigest a' = oc_TarDigest a \<and>
    oc_ManifestDigest a' = fst (CalculateDigestSetFromBytes (ie_lib env) (oc_ManifestRaw a') (ac_hashes ctx)) \<and>
    ie_unmarshal_manifest env (oc_ManifestRaw a') = Inr (oc_Manifest a')"
  using assms
  by (auto simp: parseMaifest_def Let_def CalculateDigestSetFromBytes_def CalculateDigestSet_def
      split: sum.splits option.splits)

text \<open>A layer that is listed once is digested once, wherever it is listed.\<close>

lemma layer_copies_other: "tr_Name h \<notin> set layers \<Longrightarrow> layer_copies env hashes h k layers ds = Inr ds"
  by (induction layers) auto

lemma layer_copies_distinct:
  "distinct layers \<Longrightarrow> layer_copies env hashes h k layers ds =
     (if tr_Name h \<in> set layers then layer_copies env hashes h k [tr_Name h] ds else Inr ds)"
proof (induction layers)
  case (Cons layer layers)
  then show ?case
    by (cases "tr_Name h = layer") (auto simp: layer_copies_other split: prod.splits option.splits sum.splits)
qed simp

section \<open>Properties\<close>

text \<open>The Docker attestor attests exactly the images that the products describe: when it succeeds, an image is
  recorded under a digest, and is a subject with it, exactly when a product that may be JSON decodes to build
  metadata with this SHA-256 digest; and there is at least one.\<close>

theorem docker_images_exact:
  assumes "\<And>m. set (ie_order env m) = set m" and "docker_Attest env ctx a = (images, None)"
  shows "images \<noteq> [] \<and>
    (\<forall>d. map_of (docker_Subjects lib images) (''imagedigest:'' @ d) =
      (if \<exists>path product met. map_of (ctx_Products ctx) path = Some product \<and>
            metadata_of env (ac_workingDir ctx) (path, product) met \<and> db_ContainerImageDigest met = ''sha256:'' @ d
       then Some [(plain_digest SHA256, d)] else None))"
proof -
  from assms(2) obtain mets where mets: "docker_candidates env (ac_workingDir ctx) (ie_order env (ctx_Products ctx)) [] = Inr mets"
    and images: "images = fold setDockerCandidate mets []" "images \<noteq> []"
    by (auto simp: docker_Attest_def getDockerCandidates_def Let_def split: sum.splits if_splits)
  have ok: "gomap_ok images" by (simp add: images setDockerCandidate_ok)
  have products: "gomap_ok (ctx_Products ctx)" by (simp add: ctx_Products_def)
  have set_mets: "met \<in> set mets \<longleftrightarrow> (\<exists>path product. map_of (ctx_Products ctx) path = Some product \<and>
      metadata_of env (ac_workingDir ctx) (path, product) met)" for met
    by (simp add: docker_candidates_ok [OF mets] assms(1) Bex_def split_paired_Ex gomap_mem_iff [OF products])
  have image: "map_of images d = Some p \<Longrightarrow> dp_ImageDigest p = [(plain_digest SHA256, d)]" for d p
    by (auto simp: images candidates_map split: option.splits)
  then have "\<forall>(d, p) \<in> set images. dp_ImageDigest p = [(plain_digest SHA256, d)]" using gomap_mem_iff [OF ok] by auto
  note subject = docker_Subjects_image [OF this, of lib]
  have key: "d \<in> fst ` set images \<longleftrightarrow> (\<exists>met \<in> set mets. db_ContainerImageDigest met = ''sha256:'' @ d)" for d
  proof -
    have "d \<in> fst ` set images \<longleftrightarrow> List.find (\<lambda>met. db_ContainerImageDigest met = ''sha256:'' @ d) (rev mets) \<noteq> None"
      unfolding gomap_key_iff by (simp add: images candidates_map split: option.splits)
    then show ?thesis unfolding find_None_iff by auto
  qed
  have found: "(\<exists>met \<in> set mets. db_ContainerImageDigest met = ''sha256:'' @ d) \<longleftrightarrow>
      (\<exists>path product met. map_of (ctx_Products ctx) path = Some product \<and>
         metadata_of env (ac_workingDir ctx) (path, product) met \<and> db_ContainerImageDigest met = ''sha256:'' @ d)" for d
    unfolding Bex_def set_mets by blast
  show ?thesis unfolding subject key found using images(2) by blast
qed

text \<open>A sample: a metadata file with one image.\<close>

definition sample_met :: BuildInfo_docker where
  "sample_met = \<lparr>db_Provenance = [], db_BuildRef = [], db_ContainerImageConfigDigest = [], db_ContainerImageDigest = ''sha256:ab'',
     db_ImageName = ''img''\<rparr>"

definition sample_manifest :: Manifest where
  "sample_manifest = \<lparr>mf_Config = ''c.json'', mf_RepoTags = [''img:1''], mf_Layers = [''l1'', ''l2'']\<rparr>"

definition sample_entry :: "string \<Rightarrow> bytes \<Rightarrow> tar_entry" where
  "sample_entry name data =
     \<lparr>tr_Name = name, tr_IsDir = False, tr_Read = \<lambda>k. (if k = 0 then data else replicate (length data) (CHR 0x00), None)\<rparr>"

definition sample_image_env :: image_env where
  "sample_image_env =
     \<lparr>ie_lib = sample_lib,
      ie_Open = \<lambda>path. Inr \<lparr>file_stat = Inr 0, file_data = Inr ''R''\<rparr>, ie_order = \<lambda>m. m,
      ie_unmarshal_alias = \<lambda>data. Inr sample_met, ie_unmarshal_raw = \<lambda>data. Inr [], ie_raw_order = \<lambda>m. m,
      ie_unmarshal_string = \<lambda>data s. Inr data, ie_unmarshal_provenance = \<lambda>data. Inr [],
      ie_RawQuery = \<lambda>u. Inr u, ie_query_Get = \<lambda>q k. Inr [], ie_QueryUnescape = \<lambda>s. Inr s,
      ie_tar = \<lambda>data. ([sample_entry ''l2'' ''2'', sample_entry ''manifest.json'' ''M'', sample_entry ''c.json'' ''C'', sample_entry ''l1'' ''1''], None),
      ie_unmarshal_manifest = \<lambda>data. Inr [sample_manifest], ie_DetectContentType = \<lambda>data. ''application/octet-stream'',
      ie_gunzip = \<lambda>data. Inl (LibError ''gzip'')\<rparr>"

theorem docker_images_exact_witness:
  "\<exists>images. docker_Attest sample_image_env (sample_doc_ctx ''application/json'') docker_New = (images, None) \<and>
     map_of (docker_Subjects sample_lib images) ''imagedigest:zz'' = None"
proof -
  have "snd (docker_Attest sample_image_env (sample_doc_ctx ''application/json'') docker_New) = None" by code_simp
  then obtain images where images: "docker_Attest sample_image_env (sample_doc_ctx ''application/json'') docker_New = (images, None)"
    by (metis prod.collapse)
  have order: "\<And>m. set (ie_order sample_image_env m) = set m" by (simp add: sample_image_env_def)
  have "db_ContainerImageDigest met \<noteq> ''sha256:'' @ ''zz''"
    if "metadata_of sample_image_env wd entry met" for wd entry met
    using that by (auto simp: metadata_of_def sample_image_env_def BuildInfo_UnmarshalJSON_def sample_met_def)
  then show ?thesis using docker_images_exact [OF order images, of sample_lib, THEN conjunct2, rule_format, of "''zz''"] images by auto
qed

text \<open>An image archive is attested as it is: when the OCI attestor succeeds, the archive is a product of the context
  whose file has the product's digests; the manifest's digests are those of the recorded manifest; the image
  id has the digests of the configuration that the first manifest names, and the tags are that manifest's.\<close>

theorem oci_Attest_exact:
  assumes "\<And>m. set (ie_order env m) = set m" and "oci_Attest env ctx oci_New = Return (a, None)"
  shows "\<exists>product m ms tar config data. map_of (ctx_Products ctx) (oc_tarFilePath a) = Some product \<and>
    contains oci_mimeTypes (pr_MimeType product) \<and> oc_TarDigest a = pr_Digest product \<and>
    DigestSet_Equal (fst (CalculateDigestSetFromFile (ie_lib env) (ie_Open env) (oc_tarFilePath a) (ac_hashes ctx))) (pr_Digest product) \<and>
    open_tar env (oc_tarFilePath a) = Inr tar \<and> ie_unmarshal_manifest env (oc_ManifestRaw a) = Inr (m # ms) \<and>
    oc_ManifestDigest a = fst (CalculateDigestSetFromBytes (ie_lib env) (oc_ManifestRaw a) (ac_hashes ctx)) \<and>
    find_entry (mf_Config m) tar = Inr (Some config) \<and> tr_Read config 0 = (data, None) \<and>
    oc_ImageID a = fst (CalculateDigestSetFromBytes (ie_lib env) data (ac_hashes ctx)) \<and> oc_ImageTags a = mf_RepoTags m \<and>
    getLayerDIFFIDs env ctx m (oc_tarFilePath a) = Inr (oc_LayerDiffIDs a)"
proof -
  from assms(2) obtain a1 a2 m ms imageID diffIDs where
    cand: "oci_getCandidate env ctx oci_New = (a1, None)" and parse: "parseMaifest env ctx a1 = (a2, None)"
    and m: "oc_Manifest a2 = m # ms" and image: "getImageID env ctx m (oc_tarFilePath a2) = Inr imageID"
    and layers: "getLayerDIFFIDs env ctx m (oc_tarFilePath a2) = Inr diffIDs"
    and a: "a = a2\<lparr>oc_ImageID := imageID, oc_LayerDiffIDs := diffIDs, oc_ImageTags := mf_RepoTags m\<rparr>"
    by (auto simp: oci_Attest_def split: prod.splits option.splits list.splits sum.splits)
  have "oci_candidates env ctx (ie_order env (ctx_Products ctx)) oci_New = (a1, None)"
    using cand by (auto simp: oci_getCandidate_def Let_def split: if_splits)
  from oci_candidates_ok [OF this] obtain product where
    "(oc_tarFilePath a1, product) \<in> set (ie_order env (ctx_Products ctx))" "contains oci_mimeTypes (pr_MimeType product)"
    "oc_TarDigest a1 = pr_Digest product"
    "DigestSet_Equal (fst (CalculateDigestSetFromFile (ie_lib env) (ie_Open env) (oc_tarFilePath a1) (ac_hashes ctx))) (pr_Digest product)"
    by blast
  moreover from this have "map_of (ctx_Products ctx) (oc_tarFilePath a1) = Some product"
    using assms(1) [of "ctx_Products ctx"] gomap_mem_iff [of "ctx_Products ctx"] by (simp add: ctx_Products_def)
  moreover note parseMaifest_ok [OF parse]
  moreover from image obtain tar config data where "open_tar env (oc_tarFilePath a2) = Inr tar"
    "find_entry (mf_Config m) tar = Inr (Some config)" "tr_Read config 0 = (data, None)"
    "imageID = fst (CalculateDigestSetFromBytes (ie_lib env) data (ac_hashes ctx))"
    by (auto simp: getImageID_def CalculateDigestSetFromBytes_def CalculateDigestSet_def split: sum.splits option.splits prod.splits)
  ultimately show ?thesis using m layers
    by (intro exI [of _ product] exI [of _ m] exI [of _ ms] exI [of _ tar] exI [of _ config] exI [of _ data]) (simp add: a)
qed

theorem oci_Attest_exact_witness:
  "\<exists>a. oci_Attest sample_image_env (sample_doc_ctx ''application/x-tar'') oci_New = Return (a, None) \<and> oc_ImageTags a = [''img:1'']"
proof -
  have "case oci_Attest sample_image_env (sample_doc_ctx ''application/x-tar'') oci_New of Return (a, e) \<Rightarrow> e = None | Panic m \<Rightarrow> False"
    by code_simp
  then obtain a where a: "oci_Attest sample_image_env (sample_doc_ctx ''application/x-tar'') oci_New = Return (a, None)"
    by (auto split: outcome.splits)
  have order: "\<And>m. set (ie_order sample_image_env m) = set m" by (simp add: sample_image_env_def)
  from oci_Attest_exact [OF order a] obtain m ms where
    "ie_unmarshal_manifest sample_image_env (oc_ManifestRaw a) = Inr (m # ms)" "oc_ImageTags a = mf_RepoTags m" by blast
  then have "oc_ImageTags a = [''img:1'']" by (auto simp: sample_image_env_def sample_manifest_def)
  with a show ?thesis by blast
qed

text \<open>The diff ids come in the order of the archive, not in that of the manifest: exchanging the layers that a
  manifest lists changes nothing, as long as it lists none twice.\<close>

theorem layer_order_lost:
  assumes "set (mf_Layers m) = set (mf_Layers m')" and "distinct (mf_Layers m)" and "distinct (mf_Layers m')"
  shows "getLayerDIFFIDs env ctx m path = getLayerDIFFIDs env ctx m' path"
proof -
  have "layer_copies env (ac_hashes ctx) h 0 (mf_Layers m) = layer_copies env (ac_hashes ctx) h 0 (mf_Layers m')" for h
    using assms by (intro ext) (simp add: layer_copies_distinct)
  then show ?thesis unfolding getLayerDIFFIDs_def by (simp only:)
qed

theorem layer_order_lost_witness:
  "getLayerDIFFIDs sample_image_env (sample_doc_ctx []) sample_manifest ''p'' =
     getLayerDIFFIDs sample_image_env (sample_doc_ctx []) (sample_manifest\<lparr>mf_Layers := [''l2'', ''l1'']\<rparr>) ''p''"
  by (rule layer_order_lost) (auto simp: sample_manifest_def)

text \<open>An archive whose manifest is an empty list makes the OCI attestor panic.\<close>

theorem empty_manifest_panics:
  assumes "oci_getCandidate env ctx a = (a1, None)" and "parseMaifest env ctx a1 = (a2, None)"
    and "ie_unmarshal_manifest env (oc_ManifestRaw a2) = Inr []"
  shows "oci_Attest env ctx a = Panic oci_index_panic"
  using assms parseMaifest_ok [OF assms(2)] by (simp add: oci_Attest_def)

theorem empty_manifest_panics_witness:
  "oci_Attest (sample_image_env\<lparr>ie_unmarshal_manifest := \<lambda>data. Inr []\<rparr>) (sample_doc_ctx ''application/x-tar'') oci_New =
     Panic oci_index_panic"
proof -
  let ?env = "sample_image_env\<lparr>ie_unmarshal_manifest := \<lambda>data. Inr []\<rparr>" and ?ctx = "sample_doc_ctx ''application/x-tar''"
  have "snd (oci_getCandidate ?env ?ctx oci_New) = None" by code_simp
  moreover have "snd (parseMaifest ?env ?ctx (fst (oci_getCandidate ?env ?ctx oci_New))) = None" by code_simp
  ultimately obtain a1 a2 where "oci_getCandidate ?env ?ctx oci_New = (a1, None)" "parseMaifest ?env ?ctx a1 = (a2, None)"
    by (metis prod.collapse fst_conv)
  then show ?thesis by (rule empty_manifest_panics) simp
qed

end
