(* ===== verification/Package_Attestors.thy ===== *)
theory Package_Attestors
  imports Document_Attestors
begin

text \<open>
  The attestor of the installed packages, \<open>attestation/system-packages/system-packages.go\<close> with its backends
  \<open>debian.go\<close>, \<open>rpm.go\<close> and \<open>backends.go\<close>, and the one of file trails, \<open>attestation/omnitrail/omnitrail.go\<close>.

  Files, commands, the JSON encoder and the omnitrail library are parameters. The line scanner is modelled: a
  line ends at a line feed, a carriage return before it is dropped, and a line of 64 KiB or more ends the scan
  with an error. The output of a command is what \<open>Output\<close> returns for its name and arguments.
\<close>

section \<open>Lines\<close>

definition MaxScanTokenSize :: nat where "MaxScanTokenSize = 65536"

definition ErrTooLong :: gerr where "ErrTooLong = LibError ''bufio.Scanner: token too long''"

definition dropCR :: "string \<Rightarrow> string" where
  "dropCR line = (if line \<noteq> [] \<and> last line = CHR 0x0D then butlast line else line)"

text \<open>The raw lines of a text; what follows the last line feed is a line when it is not empty.\<close>

definition raw_lines :: "string \<Rightarrow> string list" where
  "raw_lines data = (let parts = split_at (CHR 0x0A) data in if last parts = [] then butlast parts else parts)"

text \<open>The texts that \<open>Scan\<close> yields, and \<open>Err\<close>.\<close>

definition scan_lines :: "string \<Rightarrow> string list \<times> gerr option" where
  "scan_lines data =
     (let raw = raw_lines data; short = takeWhile (\<lambda>line. length line < MaxScanTokenSize) raw
      in (map dropCR short, if length short < length raw then Some ErrTooLong else None))"

text \<open>\<open>SplitN(line, "=", 2)\<close> when it has two parts, and \<open>Trim\<close> of quotes.\<close>

fun cut_at :: "char \<Rightarrow> string \<Rightarrow> (string \<times> string) option" where
  "cut_at c [] = None"
| "cut_at c (x # s) =
     (if x = c then Some ([], s) else case cut_at c s of None \<Rightarrow> None | Some (l, r) \<Rightarrow> Some (x # l, r))"

definition trim_quotes :: "string \<Rightarrow> string" where
  "trim_quotes s = rev (dropWhile (\<lambda>c. c = CHR 0x22) (rev (dropWhile (\<lambda>c. c = CHR 0x22) s)))"

section \<open>System packages\<close>

definition system_packages_Name :: string where "system_packages_Name = ''system-packages''"
definition system_packages_Type :: string where
  "system_packages_Type = ''https://witness.dev/attestations/system-packages/v0.1''"

record Package =
  pk_Name :: string
  pk_Version :: string

record package_env =
  pe_lib :: crypto_lib
  pe_Open :: "string \<Rightarrow> gerr + open_file"
  pe_Output :: "string list \<Rightarrow> gerr + string"
  pe_marshal :: "string \<Rightarrow> string \<Rightarrow> string \<Rightarrow> Package list \<Rightarrow> gerr + bytes"

text \<open>A backend is its kind with the file it reads and the function that runs its command.\<close>

datatype backend_kind = DebianBackend | RPMBackend

record Backend =
  be_kind :: backend_kind
  be_osReleaseFile :: string
  be_execCommand :: "string list \<Rightarrow> gerr + string"

definition NewDebianBackend :: "package_env \<Rightarrow> string \<Rightarrow> Backend" where
  "NewDebianBackend env osReleaseFile =
     \<lparr>be_kind = DebianBackend, be_osReleaseFile = osReleaseFile, be_execCommand = pe_Output env\<rparr>"

definition NewRPMBackend :: "package_env \<Rightarrow> string \<Rightarrow> Backend" where
  "NewRPMBackend env osReleaseFile =
     \<lparr>be_kind = RPMBackend, be_osReleaseFile = osReleaseFile, be_execCommand = pe_Output env\<rparr>"

definition SetExecCommand :: "(string list \<Rightarrow> gerr + string) \<Rightarrow> Backend \<Rightarrow> Backend" where
  "SetExecCommand cmd b = b\<lparr>be_execCommand := cmd\<rparr>"

definition NewUbuntuBackend :: "package_env \<Rightarrow> string \<Rightarrow> Backend" where
  "NewUbuntuBackend env osReleaseFile = NewDebianBackend env osReleaseFile"

definition NewRedHatBackend :: "package_env \<Rightarrow> string \<Rightarrow> Backend" where
  "NewRedHatBackend env osReleaseFile = NewRPMBackend env osReleaseFile"

text \<open>One line of the release file: the distribution and the version so far.\<close>

definition release_line :: "string \<Rightarrow> string \<times> string \<Rightarrow> string \<times> string" where
  "release_line line s =
     (case cut_at (CHR ''='') line of
        None \<Rightarrow> s
      | Some (l, r) \<Rightarrow>
          (let key = trim_space l; val = trim_quotes (trim_space r)
           in if key = ''ID'' then (val, snd s) else if key = ''VERSION_ID'' then (fst s, val) else s))"

definition determineDistribution :: "package_env \<Rightarrow> string \<Rightarrow> gerr + string \<times> string \<times> string" where
  "determineDistribution env osReleaseFile =
     (case pe_Open env osReleaseFile of
        Inl err \<Rightarrow> Inl err
      | Inr f \<Rightarrow>
          (case file_data f of
             Inl err \<Rightarrow> Inl err
           | Inr data \<Rightarrow>
               (case scan_lines data of
                  (lines, Some err) \<Rightarrow> Inl err
                | (lines, None) \<Rightarrow>
                    (case fold release_line lines ([], []) of (distribution, ver) \<Rightarrow> Inr (''linux'', distribution, ver)))))"

text \<open>The backends' \<open>DetermineOSInfo\<close>: the RPM backend repeats the function above.\<close>

definition RPM_DetermineOSInfo :: "package_env \<Rightarrow> Backend \<Rightarrow> gerr + string \<times> string \<times> string" where
  "RPM_DetermineOSInfo env b =
     (case pe_Open env (be_osReleaseFile b) of
        Inl err \<Rightarrow> Inl err
      | Inr f \<Rightarrow>
          (case file_data f of
             Inl err \<Rightarrow> Inl err
           | Inr data \<Rightarrow>
               (case scan_lines data of
                  (lines, Some err) \<Rightarrow> Inl err
                | (lines, None) \<Rightarrow>
                    (case fold release_line lines ([], []) of (distribution, ver) \<Rightarrow> Inr (''linux'', distribution, ver)))))"

definition DetermineOSInfo :: "package_env \<Rightarrow> Backend \<Rightarrow> gerr + string \<times> string \<times> string" where
  "DetermineOSInfo env b =
     (case be_kind b of
        DebianBackend \<Rightarrow> determineDistribution env (be_osReleaseFile b)
      | RPMBackend \<Rightarrow> RPM_DetermineOSInfo env b)"

definition package_line :: "string \<Rightarrow> Package list \<Rightarrow> Package list" where
  "package_line line packages =
     (case split_at (CHR 0x09) line of
        [name, ver] \<Rightarrow> packages @ [\<lparr>pk_Name = name, pk_Version = ver\<rparr>]
      | _ \<Rightarrow> packages)"

definition dpkg_query :: "string list" where
  "dpkg_query = [''dpkg-query'', ''-W'', ''-f'', ''${Package}'' @ [CHR 0x09] @ ''${Version}'' @ [CHR 0x0A]]"

definition rpm_query :: "string list" where
  "rpm_query = [''rpm'', ''-qa'', ''--qf'', ''%{NAME}'' @ [CHR 0x09] @ ''%{VERSION}'' @ [CHR 0x0A]]"

text \<open>The Debian backend does not look at the scanner's error.\<close>

definition Debian_GatherPackages :: "Backend \<Rightarrow> gerr + Package list" where
  "Debian_GatherPackages b =
     (case be_execCommand b dpkg_query of
        Inl err \<Rightarrow> Inl err
      | Inr out \<Rightarrow> Inr (fold package_line (fst (scan_lines out)) []))"

definition RPM_GatherPackages :: "Backend \<Rightarrow> gerr + Package list" where
  "RPM_GatherPackages b =
     (case be_execCommand b rpm_query of
        Inl err \<Rightarrow> Inl err
      | Inr out \<Rightarrow>
          (case scan_lines out of
             (lines, Some err) \<Rightarrow> Inl err
           | (lines, None) \<Rightarrow> Inr (fold package_line lines [])))"

definition GatherPackages :: "Backend \<Rightarrow> gerr + Package list" where
  "GatherPackages b =
     (case be_kind b of DebianBackend \<Rightarrow> Debian_GatherPackages b | RPMBackend \<Rightarrow> RPM_GatherPackages b)"

record packages_attestor =
  pa_OS :: string
  pa_Distribution :: string
  pa_Version :: string
  pa_Packages :: "Package list"
  pa_Digest :: digest_set
  pa_backend :: Backend

definition packages_attestor_with :: "Backend \<Rightarrow> packages_attestor" where
  "packages_attestor_with b =
     \<lparr>pa_OS = [], pa_Distribution = [], pa_Version = [], pa_Packages = [], pa_Digest = [], pa_backend = b\<rparr>"

definition rpm_distributions :: "string list" where
  "rpm_distributions =
     [''fedora'', ''rhel'', ''centos'', ''rocky'', ''alma'', ''oracle'', ''suse'', ''opensuse'', ''amazon'']"

definition osReleaseFile :: string where "osReleaseFile = ''/etc/os-release''"

definition NewSystemPackagesAttestor :: "package_env \<Rightarrow> packages_attestor" where
  "NewSystemPackagesAttestor env =
     (case determineDistribution env osReleaseFile of
        Inl err \<Rightarrow> packages_attestor_with (NewDebianBackend env osReleaseFile)
      | Inr (_, distribution, _) \<Rightarrow>
          if distribution \<in> set rpm_distributions then packages_attestor_with (NewRPMBackend env osReleaseFile)
          else packages_attestor_with (NewDebianBackend env osReleaseFile))"

definition packages_Attest :: "package_env \<Rightarrow> packages_attestor \<Rightarrow> packages_attestor \<times> gerr option" where
  "packages_Attest env a =
     (case DetermineOSInfo env (pa_backend a) of
        Inl err \<Rightarrow> (a, Some err)
      | Inr (os, dist, ver) \<Rightarrow>
          (let a = a\<lparr>pa_OS := os, pa_Distribution := dist, pa_Version := ver\<rparr>
           in case GatherPackages (pa_backend a) of
                Inl err \<Rightarrow> (a, Some err)
              | Inr packages \<Rightarrow>
                  (let a = a\<lparr>pa_Packages := packages\<rparr>
                   in case pe_marshal env (pa_OS a) (pa_Distribution a) (pa_Version a) (pa_Packages a) of
                        Inl err \<Rightarrow> (a, Some err)
                      | Inr content \<Rightarrow>
                          (case CalculateDigestSetFromBytes (pe_lib env) content [plain_digest SHA256] of
                             (_, Some err) \<Rightarrow> (a, Some err)
                           | (digest, None) \<Rightarrow> (a\<lparr>pa_Digest := digest\<rparr>, None)))))"

section \<open>File trails\<close>

definition omnitrail_Name :: string where "omnitrail_Name = ''omnitrail''"
definition omnitrail_Type :: string where "omnitrail_Type = ''https://witness.dev/attestations/omnitrail/v0.1''"

text \<open>The attestor is its envelope, nil at first; \<open>trail\<close> adds a directory to a new trail and yields its envelope.\<close>

definition NewOmnitrailAttestor :: "string option" where "NewOmnitrailAttestor = None"

definition omnitrail_Attest ::
  "(string \<Rightarrow> gerr + string) \<Rightarrow> 'd AttestationContext \<Rightarrow> string option \<Rightarrow> string option \<times> gerr option" where
  "omnitrail_Attest trail ctx a =
     (case trail (ac_workingDir ctx) of Inl err \<Rightarrow> (a, Some err) | Inr envelope \<Rightarrow> (Some envelope, None))"

section \<open>Lemmas\<close>

text \<open>A package as the queries print it, and packages whose names and versions have no tab and no line end.\<close>

definition show_package :: "Package \<Rightarrow> string" where
  "show_package p = pk_Name p @ CHR 0x09 # pk_Version p @ [CHR 0x0A]"

definition plain_package :: "Package \<Rightarrow> bool" where
  "plain_package p \<longleftrightarrow> {CHR 0x09, CHR 0x0A, CHR 0x0D} \<inter> set (pk_Name p @ pk_Version p) = {} \<and>
     length (pk_Name p) + length (pk_Version p) < 65535"

lemma raw_lines_concat:
  "\<forall>l \<in> set ls. CHR 0x0A \<notin> set l \<Longrightarrow> raw_lines (concat (map (\<lambda>l. l @ [CHR 0x0A]) ls)) = ls"
proof -
  assume "\<forall>l \<in> set ls. CHR 0x0A \<notin> set l"
  then have "split_at (CHR 0x0A) (concat (map (\<lambda>l. l @ [CHR 0x0A]) ls)) = ls @ [[]]"
    by (induction ls) (simp_all add: split_at_append)
  then show ?thesis by (simp add: raw_lines_def)
qed

lemma scan_lines_plain:
  assumes "\<forall>l \<in> set ls. CHR 0x0A \<notin> set l \<and> CHR 0x0D \<notin> set l \<and> length l < MaxScanTokenSize"
  shows "scan_lines (concat (map (\<lambda>l. l @ [CHR 0x0A]) ls)) = (ls, None)"
proof -
  have "raw_lines (concat (map (\<lambda>l. l @ [CHR 0x0A]) ls)) = ls" using assms by (intro raw_lines_concat) auto
  moreover have "takeWhile (\<lambda>line. length line < MaxScanTokenSize) ls = ls" using assms by (simp add: takeWhile_eq_all_conv)
  moreover have "map dropCR ls = ls"
    using assms by (intro map_idI) (auto simp: dropCR_def dest: last_in_set)
  ultimately show ?thesis unfolding scan_lines_def Let_def by (simp only: less_irrefl if_False)
qed

lemma package_lines:
  "\<forall>p \<in> set ps. plain_package p \<Longrightarrow>
     fold package_line (map (\<lambda>p. pk_Name p @ CHR 0x09 # pk_Version p) ps) acc = acc @ ps"
proof (induction ps arbitrary: acc)
  case (Cons p ps)
  then have "split_at (CHR 0x09) (pk_Name p @ CHR 0x09 # pk_Version p) = [pk_Name p, pk_Version p]"
    by (auto simp: plain_package_def split_at_append split_at_no_sep)
  with Cons show ?case by (simp add: package_line_def)
qed simp

lemma scan_packages:
  assumes "\<forall>p \<in> set ps. plain_package p"
  shows "scan_lines (concat (map show_package ps)) = (map (\<lambda>p. pk_Name p @ CHR 0x09 # pk_Version p) ps, None)"
proof -
  have lines: "concat (map show_package ps) = concat (map (\<lambda>l. l @ [CHR 0x0A]) (map (\<lambda>p. pk_Name p @ CHR 0x09 # pk_Version p) ps))"
    by (simp add: comp_def) (rule arg_cong [where f = concat], simp add: show_package_def)
  have plain: "\<forall>l \<in> set (map (\<lambda>p. pk_Name p @ CHR 0x09 # pk_Version p) ps).
      CHR 0x0A \<notin> set l \<and> CHR 0x0D \<notin> set l \<and> length l < MaxScanTokenSize"
    using assms by (auto simp: plain_package_def MaxScanTokenSize_def)
  show ?thesis unfolding lines by (rule scan_lines_plain [OF plain])
qed

section \<open>Properties\<close>

text \<open>The packages come through as the query prints them: both backends read back exactly the list whose
  rendering is the output of their command, when no name or version has a tab or a line end and no line is
  longer than the scanner takes.\<close>

theorem packages_roundtrip:
  assumes "\<forall>p \<in> set ps. plain_package p"
    and "be_execCommand b (case be_kind b of DebianBackend \<Rightarrow> dpkg_query | RPMBackend \<Rightarrow> rpm_query) = Inr (concat (map show_package ps))"
  shows "GatherPackages b = Inr ps"
  using assms(2) package_lines [OF assms(1), of "[]"]
  by (cases "be_kind b") (simp_all add: GatherPackages_def Debian_GatherPackages_def RPM_GatherPackages_def scan_packages [OF assms(1)])

definition sample_package_env :: package_env where
  "sample_package_env =
     \<lparr>pe_lib = sample_lib,
      pe_Open = \<lambda>path. Inr \<lparr>file_stat = Inr 0, file_data = Inr (''ID='' @ [CHR 0x22] @ ''fedora'' @ [CHR 0x22, CHR 0x0A] @ ''VERSION_ID=40'')\<rparr>,
      pe_Output = \<lambda>args. Inr (''bash'' @ [CHR 0x09] @ ''5.2'' @ [CHR 0x0A]),
      pe_marshal = \<lambda>os dist ver ps. Inr (os @ dist @ ver)\<rparr>"

theorem packages_roundtrip_witness:
  "GatherPackages (NewRPMBackend sample_package_env osReleaseFile) = Inr [\<lparr>pk_Name = ''bash'', pk_Version = ''5.2''\<rparr>]"
  by (rule packages_roundtrip)
    (simp_all add: plain_package_def NewRPMBackend_def sample_package_env_def show_package_def)

text \<open>The package list is bound to its digest: when the attestor succeeds, system, distribution and packages are
  what its backend reports, and the digest is that of their encoding; the two backends read the same
  release file in the same way.\<close>

theorem packages_attested:
  assumes "packages_Attest env a = (a', None)"
  shows "determineDistribution env (be_osReleaseFile (pa_backend a)) = Inr (pa_OS a', pa_Distribution a', pa_Version a') \<and>
    GatherPackages (pa_backend a) = Inr (pa_Packages a') \<and>
    (\<exists>content. pe_marshal env (pa_OS a') (pa_Distribution a') (pa_Version a') (pa_Packages a') = Inr content \<and>
       pa_Digest a' = fst (CalculateDigestSetFromBytes (pe_lib env) content [plain_digest SHA256]))"
proof -
  have "DetermineOSInfo env b = determineDistribution env (be_osReleaseFile b)" for b
    by (cases "be_kind b") (simp_all add: DetermineOSInfo_def determineDistribution_def RPM_DetermineOSInfo_def)
  then show ?thesis using assms
    by (auto simp: packages_Attest_def Let_def CalculateDigestSetFromBytes_def CalculateDigestSet_def split: sum.splits)
qed

theorem packages_attested_witness:
  "\<exists>a'. packages_Attest sample_package_env (NewSystemPackagesAttestor sample_package_env) = (a', None) \<and>
     pa_Distribution a' = ''fedora'' \<and> pa_Packages a' = [\<lparr>pk_Name = ''bash'', pk_Version = ''5.2''\<rparr>]"
proof -
  let ?a = "NewSystemPackagesAttestor sample_package_env"
  have dist: "determineDistribution sample_package_env osReleaseFile = Inr (''linux'', ''fedora'', ''40'')"
    by (simp add: determineDistribution_def sample_package_env_def scan_lines_def raw_lines_def Let_def MaxScanTokenSize_def
        dropCR_def release_line_def trim_space_def is_space_def trim_quotes_def)
  then have b: "pa_backend ?a = NewRPMBackend sample_package_env osReleaseFile"
    by (simp add: NewSystemPackagesAttestor_def rpm_distributions_def packages_attestor_with_def)
  have "GatherPackages (NewRPMBackend sample_package_env osReleaseFile) = Inr [\<lparr>pk_Name = ''bash'', pk_Version = ''5.2''\<rparr>]"
    by (simp add: NewRPMBackend_def sample_package_env_def GatherPackages_def RPM_GatherPackages_def package_line_def
        scan_lines_def raw_lines_def Let_def MaxScanTokenSize_def dropCR_def)
  then have packages: "GatherPackages (pa_backend ?a) = Inr [\<lparr>pk_Name = ''bash'', pk_Version = ''5.2''\<rparr>]" by (simp only: b)
  have path: "be_osReleaseFile (pa_backend ?a) = osReleaseFile" by (simp add: b NewRPMBackend_def)
  have "DetermineOSInfo sample_package_env (pa_backend ?a) = Inr (''linux'', ''fedora'', ''40'')"
    using dist by (simp add: b DetermineOSInfo_def NewRPMBackend_def RPM_DetermineOSInfo_def determineDistribution_def)
  moreover have "pe_marshal sample_package_env os dist ver ps = Inr (os @ dist @ ver)" for os dist ver ps
    by (simp add: sample_package_env_def)
  ultimately obtain a' where a': "packages_Attest sample_package_env ?a = (a', None)"
    using packages by (simp add: packages_Attest_def Let_def CalculateDigestSetFromBytes_def CalculateDigestSet_def)
  from packages_attested [OF a'] a' show ?thesis by (simp add: path dist packages)
qed

end
