(* ===== verification/Signer_Providers.thy ===== *)
theory Signer_Providers
  imports Keys Registry Go_Path
begin

text \<open>
  The signer providers: \<open>signer/file/file.go\<close>, \<open>signer/spiffe/spiffe.go\<close>, \<open>signer/vault/\<close> and \<open>signer/fulcio/\<close>,
  with how they register themselves in the registry of signers.

  Files, environment variables, HTTP and gRPC exchanges, the JOSE, OAuth and JSON libraries are parameters, in
  \<open>signer_env\<close>. An exchange that is tried again gets the number of the attempt, from 0. Waiting between attempts
  is left out.
\<close>

section \<open>What the providers use\<close>

record svid =
  sv_Certificates :: "certificate list"
  sv_PrivateKey :: "private_key option"

record issueRequest =
  ir_CommonName :: string
  ir_AltNames :: "string list"
  ir_Ttl :: int
  ir_RemoveRootsFromChain :: bool

record issueResponseData =
  id_Certificate :: string
  id_IssuingCa :: string
  id_CaChain :: "string list"
  id_PrivateKey :: string
  id_PrivateKeyType :: string
  id_SerialNumber :: string

record issueResponse =
  is_LeaseID :: string
  is_Renewable :: bool
  is_LeaseDuration :: int
  is_Warnings :: "string list"
  is_Data :: issueResponseData

record parsed_url =
  u_Scheme :: string
  u_Host :: string
  u_Hostname :: string
  u_Port :: string

text \<open>A request for a certificate, and the response: the chain of the detached or the embedded certificate,
  \<open>None\<close> where there is no chain.\<close>

record signingRequest =
  cs_Token :: string
  cs_PublicKey :: string
  cs_Proof :: bytes

type_synonym signingCertificate = "bytes list option"

record signer_env =
  se_lib :: crypto_lib
  se_Open :: "string \<Rightarrow> gerr + reader"
  se_LookupEnv :: "string \<Rightarrow> string option"
  se_FetchX509Context :: "string \<Rightarrow> gerr + svid"
  se_JoinPath :: "string list \<Rightarrow> gerr + string"
  se_encode_issue :: "issueRequest \<Rightarrow> gerr + bytes"
  se_Post :: "string \<Rightarrow> (string \<times> string) list \<Rightarrow> bytes \<Rightarrow> gerr + int \<times> string \<times> reader"
  se_unmarshal_issue :: "bytes \<Rightarrow> gerr + issueResponse"
  se_ParseURL :: "string \<Rightarrow> gerr + parsed_url"
  se_Atoi :: "string \<Rightarrow> gerr + int"
  se_GenerateKey :: "gerr + bytes \<times> bytes"
  se_IsTerminal :: bool
  se_OIDConnect :: "string \<Rightarrow> string \<Rightarrow> string \<Rightarrow> gerr + string"
  se_error_text :: "gerr \<Rightarrow> string"
  se_ParseSigned :: "string \<Rightarrow> string list \<Rightarrow> gerr + string"
  se_claims :: "string \<Rightarrow> gerr + string \<times> string"
  se_prove :: "bytes \<times> bytes \<Rightarrow> string \<Rightarrow> gerr + bytes"
  se_public_pem :: "bytes \<Rightarrow> gerr + string"
  se_NewClient :: "string \<Rightarrow> bool \<Rightarrow> gerr + string"
  se_CreateSigningCertificate :: "string \<Rightarrow> nat \<Rightarrow> signingRequest \<Rightarrow> gerr + signingCertificate"
  se_ctx_Err :: "nat \<Rightarrow> gerr option"
  se_status_code :: "gerr \<Rightarrow> string option"
  se_marshal_request :: "signingRequest \<Rightarrow> gerr + bytes"
  se_unmarshal_certificate :: "bytes \<Rightarrow> gerr + signingCertificate"
  se_IsCA :: "certificate \<Rightarrow> bool"
  se_query_audience :: "string \<Rightarrow> gerr + string"
  se_add_audience :: "string \<Rightarrow> string \<Rightarrow> string"
  se_NewRequest :: "string \<Rightarrow> gerr option"
  se_Do :: "nat \<Rightarrow> bool \<Rightarrow> string \<Rightarrow> string \<Rightarrow> gerr + int \<times> reader"
  se_unmarshal_token :: "bytes \<Rightarrow> gerr + string"

definition signer_Getenv :: "signer_env \<Rightarrow> string \<Rightarrow> string" where
  "signer_Getenv env key = (case se_LookupEnv env key of None \<Rightarrow> [] | Some v \<Rightarrow> v)"

text \<open>\<open>os.ReadFile\<close>\<close>

definition ReadFile :: "signer_env \<Rightarrow> string \<Rightarrow> gerr + bytes" where
  "ReadFile env path = (case se_Open env path of Inl err \<Rightarrow> Inl err | Inr r \<Rightarrow> r)"

section \<open>Keys in files\<close>

record FileSignerProvider =
  fp_KeyPath :: string
  fp_CertPath :: string
  fp_IntermediatePaths :: "string list"
  fp_Passphrase :: "string option"
  fp_PassphrasePath :: string

definition WithKeyPath :: "string \<Rightarrow> FileSignerProvider \<Rightarrow> FileSignerProvider" where
  "WithKeyPath keyPath fsp = fsp\<lparr>fp_KeyPath := keyPath\<rparr>"
definition WithCertPath :: "string \<Rightarrow> FileSignerProvider \<Rightarrow> FileSignerProvider" where
  "WithCertPath certPath fsp = fsp\<lparr>fp_CertPath := certPath\<rparr>"
definition WithIntermediatePaths :: "string list \<Rightarrow> FileSignerProvider \<Rightarrow> FileSignerProvider" where
  "WithIntermediatePaths intermediatePaths fsp = fsp\<lparr>fp_IntermediatePaths := intermediatePaths\<rparr>"
definition WithKeyPassphrase :: "string option \<Rightarrow> FileSignerProvider \<Rightarrow> FileSignerProvider" where
  "WithKeyPassphrase pass fsp = fsp\<lparr>fp_Passphrase := pass\<rparr>"
definition WithKeyPassphrasePath :: "string \<Rightarrow> FileSignerProvider \<Rightarrow> FileSignerProvider" where
  "WithKeyPassphrasePath path fsp = fsp\<lparr>fp_PassphrasePath := path\<rparr>"

definition file_New :: "(FileSignerProvider \<Rightarrow> FileSignerProvider) list \<Rightarrow> FileSignerProvider" where
  "file_New opts =
     fold (\<lambda>opt fsp. opt fsp) opts
       \<lparr>fp_KeyPath = [], fp_CertPath = [], fp_IntermediatePaths = [], fp_Passphrase = None, fp_PassphrasePath = []\<rparr>"

definition line_end :: "char \<Rightarrow> bool" where
  "line_end c \<longleftrightarrow> c = CHR 0x0D \<or> c = CHR 0x0A"

definition file_passphrase :: "signer_env \<Rightarrow> FileSignerProvider \<Rightarrow> gerr + bytes option" where
  "file_passphrase env fsp =
     (case fp_Passphrase fsp of
        Some pass \<Rightarrow> Inr (Some pass)
      | None \<Rightarrow>
          if fp_PassphrasePath fsp \<noteq> []
          then (case ReadFile env (fp_PassphrasePath fsp) of
                  Inl err \<Rightarrow> Inl (Errorf ''failed to read key passphrase file: %w'' [FErr err])
                | Inr b \<Rightarrow>
                    (let s = rev (dropWhile line_end (rev b))
                     in if list_ex line_end s then Inl (Errorf ''passphrase file must contain a single line'' [])
                        else Inr (Some s)))
          else Inr (se_LookupEnv env ''WITNESS_KEY_PASSPHRASE''))"

definition loadCert :: "signer_env \<Rightarrow> string \<Rightarrow> gerr + certificate" where
  "loadCert env path =
     (case se_Open env path of
        Inl err \<Rightarrow> Inl (Errorf ''failed to load certificate: %w'' [FErr err])
      | Inr certFile \<Rightarrow>
          (case TryParseKeyFromReader (se_lib env) certFile of
             Inl err \<Rightarrow> Inl (Errorf ''failed to parse certificate'' [])
           | Inr (ParsedCert cert) \<Rightarrow> Inr cert
           | Inr _ \<Rightarrow> Inl (Errorf ''%v is not a x509 certificate'' [FStr path])))"

definition cert_options :: "signer_env \<Rightarrow> FileSignerProvider \<Rightarrow> gerr + (signerOptions \<Rightarrow> signerOptions) list" where
  "cert_options env fsp =
     (if fp_CertPath fsp \<noteq> []
      then (case loadCert env (fp_CertPath fsp) of
              Inl err \<Rightarrow> Inl (Errorf ''failed to load certificate: %w'' [FErr err])
            | Inr leaf \<Rightarrow> Inr [SignWithCertificate (Some leaf)])
      else Inr [])"

definition intermediate_options :: "signer_env \<Rightarrow> FileSignerProvider \<Rightarrow> gerr + (signerOptions \<Rightarrow> signerOptions) list" where
  "intermediate_options env fsp =
     (if length (fp_IntermediatePaths fsp) > 0
      then (case mapE (loadCert env) (fp_IntermediatePaths fsp) of
              Inl err \<Rightarrow> Inl (Errorf ''failed to load intermediate: %w'' [FErr err])
            | Inr intermediates \<Rightarrow> Inr [SignWithIntermediates intermediates])
      else Inr [])"

definition file_Signer :: "signer_env \<Rightarrow> FileSignerProvider \<Rightarrow> gerr + signer" where
  "file_Signer env fsp =
     (case se_Open env (fp_KeyPath fsp) of
        Inl err \<Rightarrow> Inl (Errorf ''failed to open key file: %w'' [FErr err])
      | Inr keyFile \<Rightarrow>
          (case file_passphrase env fsp of
             Inl err \<Rightarrow> Inl err
           | Inr pass \<Rightarrow>
               (case TryParseKeyFromReaderWithPassword (se_lib env) keyFile pass of
                  Inl err \<Rightarrow> Inl (Errorf ''failed to load key: %w'' [FErr err])
                | Inr key \<Rightarrow>
                    (case cert_options env fsp of
                       Inl err \<Rightarrow> Inl err
                     | Inr certOpts \<Rightarrow>
                         (case intermediate_options env fsp of
                            Inl err \<Rightarrow> Inl err
                          | Inr intermediateOpts \<Rightarrow> NewSigner key (certOpts @ intermediateOpts))))))"

section \<open>SPIFFE\<close>

record SpiffeSignerProvider =
  sp_SocketPath :: string

definition WithSocketPath :: "string \<Rightarrow> SpiffeSignerProvider \<Rightarrow> SpiffeSignerProvider" where
  "WithSocketPath socketPath ssp = ssp\<lparr>sp_SocketPath := socketPath\<rparr>"

definition spiffe_New :: "(SpiffeSignerProvider \<Rightarrow> SpiffeSignerProvider) list \<Rightarrow> SpiffeSignerProvider" where
  "spiffe_New opts = fold (\<lambda>opt ssp. opt ssp) opts \<lparr>sp_SocketPath = []\<rparr>"

definition spiffe_Signer :: "signer_env \<Rightarrow> SpiffeSignerProvider \<Rightarrow> gerr + signer" where
  "spiffe_Signer env ssp =
     (if length (sp_SocketPath ssp) = 0 then Inl (Errorf ''socker path cannot be empty'' [])
      else case se_FetchX509Context env (sp_SocketPath ssp) of
             Inl err \<Rightarrow> Inl err
           | Inr sv \<Rightarrow>
               (case sv_Certificates sv of
                  [] \<Rightarrow> Inl (ErrInvalidSVID ''no certificates'')
                | leaf # rest \<Rightarrow>
                    (case sv_PrivateKey sv of
                       None \<Rightarrow> Inl (ErrInvalidSVID ''no private key'')
                     | Some key \<Rightarrow>
                         NewSigner (ParsedPrivate key) [SignWithIntermediates rest, SignWithCertificate (Some leaf)])))"

section \<open>Vault\<close>

record VaultSignerProvider =
  va_url :: string
  va_pkiSecretsEnginePath :: string
  va_token :: string
  va_namespace :: string
  va_role :: string
  va_commonName :: string
  va_altNames :: "string list"
  va_ttl :: int

definition vault_WithUrl :: "string \<Rightarrow> VaultSignerProvider \<Rightarrow> VaultSignerProvider" where
  "vault_WithUrl url vsp = vsp\<lparr>va_url := url\<rparr>"
definition WithPkiSecretsEnginePath :: "string \<Rightarrow> VaultSignerProvider \<Rightarrow> VaultSignerProvider" where
  "WithPkiSecretsEnginePath path vsp = vsp\<lparr>va_pkiSecretsEnginePath := path\<rparr>"
definition vault_WithToken :: "string \<Rightarrow> VaultSignerProvider \<Rightarrow> VaultSignerProvider" where
  "vault_WithToken token vsp = vsp\<lparr>va_token := token\<rparr>"
definition WithNamespace :: "string \<Rightarrow> VaultSignerProvider \<Rightarrow> VaultSignerProvider" where
  "WithNamespace namespace vsp = vsp\<lparr>va_namespace := namespace\<rparr>"
definition WithRole :: "string \<Rightarrow> VaultSignerProvider \<Rightarrow> VaultSignerProvider" where
  "WithRole role vsp = vsp\<lparr>va_role := role\<rparr>"
definition WithCommonName :: "string \<Rightarrow> VaultSignerProvider \<Rightarrow> VaultSignerProvider" where
  "WithCommonName cn vsp = vsp\<lparr>va_commonName := cn\<rparr>"
definition WithAltNames :: "string list \<Rightarrow> VaultSignerProvider \<Rightarrow> VaultSignerProvider" where
  "WithAltNames ans vsp = vsp\<lparr>va_altNames := ans\<rparr>"
definition WithTtl :: "int \<Rightarrow> VaultSignerProvider \<Rightarrow> VaultSignerProvider" where
  "WithTtl ttl vsp = vsp\<lparr>va_ttl := ttl\<rparr>"

definition defaultPkiSecretsEnginePath :: string where "defaultPkiSecretsEnginePath = ''pki''"

definition vault_New :: "(VaultSignerProvider \<Rightarrow> VaultSignerProvider) list \<Rightarrow> VaultSignerProvider" where
  "vault_New opts =
     fold (\<lambda>opt vsp. opt vsp) opts
       \<lparr>va_url = [], va_pkiSecretsEnginePath = [], va_token = [], va_namespace = [], va_role = [], va_commonName = [],
        va_altNames = [], va_ttl = 0\<rparr>"

definition requestCertificate :: "signer_env \<Rightarrow> VaultSignerProvider \<Rightarrow> gerr + issueResponse" where
  "requestCertificate env vsp =
     (case se_JoinPath env [va_url vsp, ''v1'', va_pkiSecretsEnginePath vsp, ''issue'', va_role vsp] of
        Inl err \<Rightarrow> Inl err
      | Inr url \<Rightarrow>
          (case se_encode_issue env \<lparr>ir_CommonName = va_commonName vsp, ir_AltNames = va_altNames vsp,
                  ir_Ttl = va_ttl vsp, ir_RemoveRootsFromChain = True\<rparr> of
             Inl err \<Rightarrow> Inl err
           | Inr buf \<Rightarrow>
               (case se_Post env url ((''X-Vault-Token'', va_token vsp) #
                       (if length (va_namespace vsp) > 0 then [(''X-Vault-Namespace'', va_namespace vsp)] else [])) buf of
                  Inl err \<Rightarrow> Inl err
                | Inr (code, st, Inl err) \<Rightarrow> Inl err
                | Inr (code, st, Inr respBytes) \<Rightarrow>
                    if code \<noteq> 200 then Inl (Errorf ''failed to issue new certificate: %s'' [FStr respBytes])
                    else se_unmarshal_issue env respBytes)))"

text \<open>\<open>requestIssuer\<close> is \<open>requestCertificate\<close> outside the tests.\<close>

definition vault_Signer :: "signer_env \<Rightarrow> VaultSignerProvider \<Rightarrow> gerr + signer" where
  "vault_Signer env vsp =
     (if length (va_url vsp) = 0 then Inl (Errorf ''url is a required option'' [])
      else if length (va_token vsp) = 0 then Inl (Errorf ''token is a required option'' [])
      else if length (va_role vsp) = 0 then Inl (Errorf ''role is a required option'' [])
      else case requestCertificate env vsp of
             Inl err \<Rightarrow> Inl (Errorf ''failed to issue certificate: %w'' [FErr err])
           | Inr resp \<Rightarrow>
               (case TryParseCertificate (se_lib env) (id_Certificate (is_Data resp)) of
                  Inl err \<Rightarrow> Inl (Errorf ''could not parse certificate from response: %w'' [FErr err])
                | Inr cert \<Rightarrow>
                    (case mapE (TryParseCertificate (se_lib env)) (id_CaChain (is_Data resp)) of
                       Inl err \<Rightarrow> Inl (Errorf ''could not parse intermediate certificate from response: %w'' [FErr err])
                     | Inr intermediates \<Rightarrow>
                         NewSignerFromReader (se_lib env) (Inr (id_PrivateKey (is_Data resp)))
                           [SignWithCertificate (Some cert), SignWithIntermediates intermediates])))"

section \<open>Lemmas\<close>

lemma file_options:
  assumes "cert_options env fsp = Inr certOpts" and "intermediate_options env fsp = Inr intOpts"
    and "NewSigner key (certOpts @ intOpts) = Inr s"
  shows "\<exists>ks. NewKeySigner key SHA256 = Inr ks \<and>
    (if fp_CertPath fsp = [] then s = ks
     else (\<exists>leaf ints. loadCert env (fp_CertPath fsp) = Inr leaf \<and> mapE (loadCert env) (fp_IntermediatePaths fsp) = Inr ints \<and>
       s = X509Signer leaf [] ints ks))"
  using assms
  by (auto simp: cert_options_def intermediate_options_def NewSigner_def NewX509Signer_def SignWithCertificate_def
      SignWithIntermediates_def Let_def split: if_splits sum.splits)

lemma stripped_lines: "rev (dropWhile line_end (rev b)) = s \<Longrightarrow> \<exists>ends. b = s @ ends \<and> list_all line_end ends"
proof -
  assume "rev (dropWhile line_end (rev b)) = s"
  then have "b = s @ rev (takeWhile line_end (rev b))"
    by (metis rev_append rev_rev_ident takeWhile_dropWhile_id)
  moreover have "list_all line_end (rev (takeWhile line_end (rev b)))"
    by (auto simp: list_all_iff dest: set_takeWhileD)
  ultimately show ?thesis by blast
qed

section \<open>Properties\<close>

text \<open>C12. The file provider signs with the key of the file it names: its signer comes from that file, read with the
  passphrase that was given, read from a file, or found in the environment, in this order; it carries a
  certificate exactly when a path to one is given, with the listed intermediates and no roots.\<close>

theorem file_Signer_exact:
  assumes "file_Signer env fsp = Inr s"
  shows "\<exists>keyFile pass key ks. se_Open env (fp_KeyPath fsp) = Inr keyFile \<and>
    TryParseKeyFromReaderWithPassword (se_lib env) keyFile pass = Inr key \<and> NewKeySigner key SHA256 = Inr ks \<and>
    (case fp_Passphrase fsp of
       Some p \<Rightarrow> pass = Some p
     | None \<Rightarrow>
         if fp_PassphrasePath fsp = [] then pass = se_LookupEnv env ''WITNESS_KEY_PASSPHRASE''
         else \<exists>p ends. ReadFile env (fp_PassphrasePath fsp) = Inr (p @ ends) \<and> list_all line_end ends \<and>
                \<not> list_ex line_end p \<and> pass = Some p) \<and>
    (if fp_CertPath fsp = [] then s = ks
     else (\<exists>leaf ints. loadCert env (fp_CertPath fsp) = Inr leaf \<and> mapE (loadCert env) (fp_IntermediatePaths fsp) = Inr ints \<and>
       s = X509Signer leaf [] ints ks))"
proof -
  from assms obtain keyFile pass key certOpts intOpts where key: "se_Open env (fp_KeyPath fsp) = Inr keyFile"
    "TryParseKeyFromReaderWithPassword (se_lib env) keyFile pass = Inr key" and pass: "file_passphrase env fsp = Inr pass"
    and opts: "cert_options env fsp = Inr certOpts" "intermediate_options env fsp = Inr intOpts"
      "NewSigner key (certOpts @ intOpts) = Inr s"
    by (auto simp: file_Signer_def split: sum.splits)
  have "case fp_Passphrase fsp of Some p \<Rightarrow> pass = Some p | None \<Rightarrow>
      if fp_PassphrasePath fsp = [] then pass = se_LookupEnv env ''WITNESS_KEY_PASSPHRASE''
      else \<exists>p ends. ReadFile env (fp_PassphrasePath fsp) = Inr (p @ ends) \<and> list_all line_end ends \<and>
             \<not> list_ex line_end p \<and> pass = Some p"
  proof (cases "fp_Passphrase fsp = None \<and> fp_PassphrasePath fsp \<noteq> []")
    case True
    with pass obtain b where b: "ReadFile env (fp_PassphrasePath fsp) = Inr b"
      and p: "\<not> list_ex line_end (rev (dropWhile line_end (rev b)))" "pass = Some (rev (dropWhile line_end (rev b)))"
      by (auto simp: file_passphrase_def Let_def split: sum.splits if_splits)
    let ?p = "rev (dropWhile line_end (rev b))"
    from stripped_lines [OF refl, of b] obtain ends where ends: "b = ?p @ ends" "list_all line_end ends" by blast
    with b have "ReadFile env (fp_PassphrasePath fsp) = Inr (?p @ ends)" by simp
    with p ends(2) True show ?thesis by auto
  qed (use pass in \<open>auto simp: file_passphrase_def split: option.splits\<close>)
  with key file_options [OF opts] show ?thesis by blast
qed

text \<open>A sample: a key, a certificate for another key, and a passphrase file that ends in two line feeds.\<close>

definition sample_signer_lib :: crypto_lib where
  "sample_signer_lib = sample_lib\<lparr>lib_parseEC := \<lambda>b. if b = ''K'' then Inr (ECDSA_PrivateKey ''k'' ''k'') else Inl (LibError ''ec''),
     lib_pemutilParse := \<lambda>b pw. if pw = ''pw'' then Inr (ParsedPrivate (ECDSA_PrivateKey ''k'' ''k'')) else Inl (LibError ''passphrase'')\<rparr>"

definition sample_signer_env :: signer_env where
  "sample_signer_env =
     \<lparr>se_lib = sample_signer_lib,
      se_Open = map_sum (\<lambda>e. e) (\<lambda>b. Inr b) \<circ> (\<lambda>path. case map_of [(''key'', ''K''), (''cert'', ''Cx''), (''pass'', ''pw'' @ [CHR 0x0A, CHR 0x0A])] path of
         None \<Rightarrow> Inl (LibError ''open'') | Some b \<Rightarrow> Inr b),
      se_LookupEnv = \<lambda>k. None, se_FetchX509Context = \<lambda>p. Inl (LibError ''spiffe''), se_JoinPath = \<lambda>ps. Inr (concat ps),
      se_encode_issue = \<lambda>r. Inr [], se_Post = \<lambda>u h b. Inl (LibError ''post''), se_unmarshal_issue = \<lambda>b. Inl (LibError ''json''),
      se_ParseURL = \<lambda>u. Inr \<lparr>u_Scheme = ''https'', u_Host = ''f'', u_Hostname = ''f'', u_Port = []\<rparr>, se_Atoi = \<lambda>s. Inr 443,
      se_GenerateKey = Inr (''g'', ''g''), se_IsTerminal = False, se_OIDConnect = \<lambda>a b c. Inl (LibError ''oidc''),
      se_error_text = \<lambda>e. [], se_ParseSigned = \<lambda>t algs. Inr t, se_claims = \<lambda>t. Inr (''e@x'', []),
      se_prove = \<lambda>k s. Inr s, se_public_pem = \<lambda>p. Inr p, se_NewClient = \<lambda>t ins. Inr t,
      se_CreateSigningCertificate = \<lambda>c k req. if k = 1 then Inr (Some [''Cl'']) else Inl (LibError ''busy''),
      se_ctx_Err = \<lambda>k. None, se_status_code = \<lambda>e. Some ''Unavailable'', se_marshal_request = \<lambda>r. Inr [],
      se_unmarshal_certificate = \<lambda>b. Inr None, se_IsCA = \<lambda>c. cert_Raw c \<noteq> ''l'', se_query_audience = \<lambda>u. Inr [],
      se_add_audience = \<lambda>u a. u, se_NewRequest = \<lambda>u. None, se_Do = \<lambda>k h u b. Inl (LibError ''do''),
      se_unmarshal_token = \<lambda>b. Inr b\<rparr>"

theorem file_Signer_exact_witness:
  "\<exists>s. file_Signer sample_signer_env (file_New [WithKeyPath ''key'', WithKeyPassphrasePath ''pass'']) = Inr s \<and>
     NewKeySigner (ParsedPrivate (ECDSA_PrivateKey ''k'' ''k'')) SHA256 = Inr s"
proof -
  let ?fsp = "file_New [WithKeyPath ''key'', WithKeyPassphrasePath ''pass'']"
  obtain s where s: "file_Signer sample_signer_env ?fsp = Inr s"
    by (cases "file_Signer sample_signer_env ?fsp") (auto dest: arg_cong [where f = isl], code_simp)
  have fields: "fp_KeyPath ?fsp = ''key''" "fp_Passphrase ?fsp = None" "fp_PassphrasePath ?fsp = ''pass''" "fp_CertPath ?fsp = []"
    by (simp_all add: file_New_def WithKeyPath_def WithKeyPassphrasePath_def)
  from file_Signer_exact [OF s] obtain keyFile pass key where
    "se_Open sample_signer_env ''key'' = Inr keyFile" "TryParseKeyFromReaderWithPassword (se_lib sample_signer_env) keyFile pass = Inr key"
    "NewKeySigner key SHA256 = Inr s" "pass \<noteq> None" by (auto simp: fields)
  then have "NewKeySigner (ParsedPrivate (ECDSA_PrivateKey ''k'' ''k'')) SHA256 = Inr s"
    by (auto simp: sample_signer_env_def sample_signer_lib_def sample_lib_def TryParseKeyFromReaderWithPassword_def
        isSigstorePEMType_def split: if_splits)
  with s show ?thesis by blast
qed

text \<open>A certificate that does not belong to the key is taken all the same: with the key of one pair and the
  certificate of another, the file provider returns a signer, whose signatures the verifier of its own
  certificate rejects.\<close>

theorem foreign_certificate_taken:
  "file_Signer sample_signer_env (file_New [WithKeyPath ''key'', WithKeyPassphrase (Some ''pw''), WithCertPath ''cert'']) =
     Inr (X509Signer (sample_cert ''x'') [] [] (ECDSASigner ''k'' ''k'' SHA256)) \<and>
   Signer_Sign sample_signer_lib (X509Signer (sample_cert ''x'') [] [] (ECDSASigner ''k'' ''k'' SHA256)) (Inr ''m'') = Inr ''km'' \<and>
   (\<exists>v. NewVerifier (ParsedCert (sample_cert ''x'')) [cu_VerifyWithRoots [sample_cert ''r'']] = Inr v \<and>
      Verifier_Verify sample_signer_lib v (Inr ''m'') ''km'' = Some ErrVerifyFailed)"
proof (intro conjI exI)
  show "file_Signer sample_signer_env (file_New [WithKeyPath ''key'', WithKeyPassphrase (Some ''pw''), WithCertPath ''cert'']) =
     Inr (X509Signer (sample_cert ''x'') [] [] (ECDSASigner ''k'' ''k'' SHA256))" by code_simp
  show "Signer_Sign sample_signer_lib (X509Signer (sample_cert ''x'') [] [] (ECDSASigner ''k'' ''k'' SHA256)) (Inr ''m'') = Inr ''km''"
    by code_simp
  show "NewVerifier (ParsedCert (sample_cert ''x'')) [cu_VerifyWithRoots [sample_cert ''r'']] =
      Inr (X509Verifier (sample_cert ''x'') [sample_cert ''r''] [] (ECDSAVerifier ''x'' SHA256) zero_time)"
    by (simp add: NewVerifier_def NewX509Verifier_def cu_VerifyWithRoots_def sample_cert_def)
  show "Verifier_Verify sample_signer_lib (X509Verifier (sample_cert ''x'') [sample_cert ''r''] [] (ECDSAVerifier ''x'' SHA256) zero_time) (Inr ''m'') ''km'' =
      Some ErrVerifyFailed"
    by (simp add: sample_signer_lib_def sample_lib_def certificatesToPool_def Digest_def)
qed

end
