(* ===== verification/Fulcio_Signer.thy ===== *)
theory Fulcio_Signer
  imports Signer_Providers
begin

text \<open>
  The keyless signer: \<open>signer/fulcio/fulcio.go\<close> and \<open>signer/fulcio/github.go\<close>. It gets an identity token, proves
  possession of a fresh key, asks Fulcio for a certificate over gRPC or HTTP, and builds a signer from the chain
  it gets. Two loops try an exchange up to three times; they recurse over the number of attempts that are left.
\<close>

section \<open>The provider\<close>

definition fulcio_allowedJWTAlgorithms :: "string list" where
  "fulcio_allowedJWTAlgorithms =
     [''RS256'', ''RS384'', ''RS512'', ''PS256'', ''PS384'', ''PS512'', ''ES256'', ''ES384'', ''ES512'', ''EdDSA'']"

record FulcioSignerProvider =
  fu_FulcioURL :: string
  fu_OidcIssuer :: string
  fu_OidcClientID :: string
  fu_Token :: string
  fu_TokenPath :: string
  fu_OidcRedirectUrl :: string
  fu_UseHTTP :: bool

definition WithFulcioURL :: "string \<Rightarrow> FulcioSignerProvider \<Rightarrow> FulcioSignerProvider" where
  "WithFulcioURL url fsp = fsp\<lparr>fu_FulcioURL := url\<rparr>"
definition WithOidcIssuer :: "string \<Rightarrow> FulcioSignerProvider \<Rightarrow> FulcioSignerProvider" where
  "WithOidcIssuer issuer fsp = fsp\<lparr>fu_OidcIssuer := issuer\<rparr>"
definition WithOidcClientID :: "string \<Rightarrow> FulcioSignerProvider \<Rightarrow> FulcioSignerProvider" where
  "WithOidcClientID clientID fsp = fsp\<lparr>fu_OidcClientID := clientID\<rparr>"
definition fulcio_WithToken :: "string \<Rightarrow> FulcioSignerProvider \<Rightarrow> FulcioSignerProvider" where
  "fulcio_WithToken token fsp = fsp\<lparr>fu_Token := token\<rparr>"
definition WithOidcRedirectUrl :: "string \<Rightarrow> FulcioSignerProvider \<Rightarrow> FulcioSignerProvider" where
  "WithOidcRedirectUrl url fsp = fsp\<lparr>fu_OidcRedirectUrl := url\<rparr>"
definition WithTokenPath :: "string \<Rightarrow> FulcioSignerProvider \<Rightarrow> FulcioSignerProvider" where
  "WithTokenPath path fsp = fsp\<lparr>fu_TokenPath := path\<rparr>"
definition WithUseHttp :: "bool \<Rightarrow> FulcioSignerProvider \<Rightarrow> FulcioSignerProvider" where
  "WithUseHttp useHttp fsp = fsp\<lparr>fu_UseHTTP := useHttp\<rparr>"

definition fulcio_New :: "(FulcioSignerProvider \<Rightarrow> FulcioSignerProvider) list \<Rightarrow> FulcioSignerProvider" where
  "fulcio_New opts =
     fold (\<lambda>opt fsp. opt fsp) opts
       \<lparr>fu_FulcioURL = [], fu_OidcIssuer = [], fu_OidcClientID = [], fu_Token = [], fu_TokenPath = [],
        fu_OidcRedirectUrl = [], fu_UseHTTP = False\<rparr>"

definition maxRetries :: nat where "maxRetries = 3"

section \<open>The token of a GitHub job\<close>

definition body_text :: "bytes \<Rightarrow> string" where
  "body_text body = (if length body > 500 then take 500 body @ ''...'' else body)"

definition attempt_args :: "nat \<Rightarrow> fval list" where
  "attempt_args attempt = [FInt (int attempt + 1), FInt (int maxRetries)]"

text \<open>What a response says: a token, or the error of the attempt.\<close>

definition token_response :: "signer_env \<Rightarrow> nat \<Rightarrow> int \<times> reader \<Rightarrow> gerr + string" where
  "token_response env attempt resp =
     (case resp of
        (code, Inl err) \<Rightarrow> Inl (Errorf ''failed to read response body (attempt %d/%d): %w'' (attempt_args attempt @ [FErr err]))
      | (code, Inr bodyBytes) \<Rightarrow>
          if code \<noteq> 200
          then Inl (Errorf ''unexpected status code %d from GitHub Actions API (attempt %d/%d), body: %s''
                 (FInt code # attempt_args attempt @ [FStr (body_text bodyBytes)]))
          else case se_unmarshal_token env bodyBytes of
                 Inl err \<Rightarrow>
                   if has_prefix (trim_space (body_text bodyBytes)) ''<''
                   then Inl (Errorf ''received HTML response instead of JSON from GitHub Actions API (attempt %d/%d), possible authentication or network issue. Response: %s''
                          (attempt_args attempt @ [FStr (body_text bodyBytes)]))
                   else if trim_space bodyBytes = []
                   then Inl (Errorf ''received empty response from GitHub Actions API (attempt %d/%d)'' (attempt_args attempt))
                   else Inl (Errorf ''failed to parse JSON response from GitHub Actions API (attempt %d/%d): %w. Response body: %s''
                          (attempt_args attempt @ [FErr err, FStr (body_text bodyBytes)]))
               | Inr val \<Rightarrow>
                   if val = []
                   then Inl (Errorf ''received empty token value from GitHub Actions API (attempt %d/%d)'' (attempt_args attempt))
                   else Inr val)"

text \<open>The attempts. \<open>http1\<close> says that the client was replaced by one that speaks HTTP/1.1; the replacement tries
  at once, as a part of the same attempt, so an attempt has up to two exchanges. \<open>None\<close> as the error is a nil error.\<close>

primrec fetch_attempts ::
  "signer_env \<Rightarrow> string \<Rightarrow> string \<Rightarrow> nat \<Rightarrow> nat \<Rightarrow> bool \<Rightarrow> gerr option \<Rightarrow> gerr + string" where
  "fetch_attempts env reqURL bearer 0 attempt http1 lastErr =
     Inl (Errorf ''failed to fetch GitHub Actions token after %d attempts: %w''
       (FInt (int maxRetries) # (case lastErr of None \<Rightarrow> [] | Some err \<Rightarrow> [FErr err])))"
| "fetch_attempts env reqURL bearer (Suc left) attempt http1 lastErr =
     (case se_NewRequest env reqURL of
        Some err \<Rightarrow> Inl (Errorf ''failed to create request: %w'' [FErr err])
      | None \<Rightarrow>
          (let fallback = (\<lambda>err. contains (se_error_text env err) ''HTTP_1_1_REQUIRED'');
               first = se_Do env (2 * attempt) http1 reqURL bearer;
               (http1, resp) = (case first of
                  Inl err \<Rightarrow> if fallback err then (True, se_Do env (2 * attempt + 1) True reqURL bearer) else (http1, first)
                | Inr r \<Rightarrow> (http1, first))
           in case (case resp of
                      Inl err \<Rightarrow> Inl (Errorf ''failed to fetch token from GitHub Actions (attempt %d/%d): %w''
                                   (attempt_args attempt @ [FErr err]))
                    | Inr r \<Rightarrow> token_response env attempt r) of
                Inl err \<Rightarrow> fetch_attempts env reqURL bearer left (Suc attempt) http1 (Some err)
              | Inr token \<Rightarrow> Inr token))"

definition fulcio_fetchToken :: "signer_env \<Rightarrow> string \<Rightarrow> string \<Rightarrow> string \<Rightarrow> gerr + string" where
  "fulcio_fetchToken env tokenURL bearer audience =
     (if tokenURL = [] \<or> bearer = [] \<or> audience = []
      then Inl (Errorf ''tokenURL, bearer, and audience cannot be empty'' [])
      else case se_query_audience env tokenURL of
             Inl err \<Rightarrow> Inl (Errorf ''failed to parse token URL: %w'' [FErr err])
           | Inr present \<Rightarrow>
               if present \<noteq> audience \<and> present \<noteq> []
               then Inl (Errorf ''api error: tokenURL already has an audience, %s, and it does not match the audience, %s''
                      [FStr present, FStr audience])
               else fetch_attempts env (se_add_audience env tokenURL audience) bearer maxRetries 0 False None)"

section \<open>The certificate\<close>

text \<open>The subject of a token: its email, or else its subject.\<close>

definition token_subject :: "string \<times> string \<Rightarrow> string" where
  "token_subject claims = (if fst claims \<noteq> [] then fst claims else snd claims)"

definition certificate_request :: "signer_env \<Rightarrow> bytes \<times> bytes \<Rightarrow> string \<Rightarrow> string \<Rightarrow> gerr + signingRequest" where
  "certificate_request env key subject token =
     (case se_prove env key subject of
        Inl err \<Rightarrow> Inl err
      | Inr proof \<Rightarrow>
          (case se_public_pem env (fst key) of
             Inl err \<Rightarrow> Inl err
           | Inr pem \<Rightarrow> Inr \<lparr>cs_Token = token, cs_PublicKey = pem, cs_Proof = proof\<rparr>))"

definition isRetryable :: "signer_env \<Rightarrow> gerr \<Rightarrow> bool" where
  "isRetryable env err =
     (case se_status_code env err of
        Some code \<Rightarrow> code = ''Unavailable'' \<or> code = ''DeadlineExceeded''
      | None \<Rightarrow> \<not> list_ex (contains (se_error_text env err)) [''invalid token'', ''unauthorized'', ''permission denied'', ''unauthenticated''])"

text \<open>The attempts: the error of the context ends them at once; otherwise the last response, with nil for what is
  not there.\<close>

primrec certificate_attempts ::
  "signer_env \<Rightarrow> string \<Rightarrow> signingRequest \<Rightarrow> nat \<Rightarrow> nat \<Rightarrow> signingCertificate option \<times> gerr option \<Rightarrow>
     gerr + signingCertificate option \<times> gerr option" where
  "certificate_attempts env client req 0 attempt s = Inr s"
| "certificate_attempts env client req (Suc left) attempt s =
     (case (if attempt > 0 then se_ctx_Err env attempt else None) of
        Some err \<Rightarrow> Inl err
      | None \<Rightarrow>
          (case se_CreateSigningCertificate env client attempt req of
             Inr sc \<Rightarrow> Inr (Some sc, None)
           | Inl err \<Rightarrow>
               if isRetryable env err then certificate_attempts env client req left (Suc attempt) (None, Some err)
               else Inr (None, Some err)))"

definition attempts_error :: "signer_env \<Rightarrow> gerr \<Rightarrow> gerr" where
  "attempts_error env lastErr =
     (let text = se_error_text env lastErr
      in if contains text ''rpc error''
         then Errorf ''failed to communicate with Fulcio service after %d attempts: %w. This may indicate a network issue or Fulcio service unavailability''
                [FInt (int maxRetries), FErr lastErr]
         else if contains text ''invalid token'' \<or> contains text ''unauthorized''
         then Errorf ''fulcio rejected the OIDC token: %w. This may indicate token expiration or invalid issuer configuration'' [FErr lastErr]
         else Errorf ''failed to create signing certificate from Fulcio after %d attempts: %w'' [FInt (int maxRetries), FErr lastErr])"

definition getCert :: "signer_env \<Rightarrow> bytes \<times> bytes \<Rightarrow> string \<Rightarrow> string \<Rightarrow> gerr + signingCertificate option" where
  "getCert env key client token =
     (if token = [] then Inl (Errorf ''empty token provided to getCert'' [])
      else if \<not> contains token ''.'' then Inl (Errorf ''invalid token format: token does not appear to be a JWT (missing dots)'' [])
      else case se_ParseSigned env token fulcio_allowedJWTAlgorithms of
             Inl err \<Rightarrow>
               Inl (if contains (se_error_text env err) ''invalid character''
                    then Errorf ''failed to parse JWT token: invalid JSON in token payload - %w. This may indicate the OIDC token endpoint returned an error response instead of a token'' [FErr err]
                    else Errorf ''failed to parse jwt token for fulcio: %w'' [FErr err])
           | Inr t \<Rightarrow>
               (case se_claims env t of
                  Inl err \<Rightarrow> Inl (Errorf ''failed to extract claims from JWT token: %w'' [FErr err])
                | Inr claims \<Rightarrow>
                    if token_subject claims = []
                    then Inl (Errorf ''no email or subject claim found in token. Claims: email=%q, subject=%q'' [FStr (fst claims), FStr (snd claims)])
                    else case certificate_request env key (token_subject claims) token of
                           Inl err \<Rightarrow> Inl err
                         | Inr req \<Rightarrow>
                             (case certificate_attempts env client req maxRetries 0 (None, None) of
                                Inl err \<Rightarrow> Inl err
                              | Inr (sc, Some lastErr) \<Rightarrow> Inl (attempts_error env lastErr)
                              | Inr (sc, None) \<Rightarrow> Inr sc)))"

definition getCertHTTP :: "signer_env \<Rightarrow> bytes \<times> bytes \<Rightarrow> string \<Rightarrow> string \<Rightarrow> gerr + signingCertificate" where
  "getCertHTTP env key fulcioURL token =
     (case se_ParseSigned env token fulcio_allowedJWTAlgorithms of
        Inl err \<Rightarrow> Inl (Errorf ''failed to parse JWT token: %w'' [FErr err])
      | Inr t \<Rightarrow>
          (case se_claims env t of
             Inl err \<Rightarrow> Inl (Errorf ''failed to extract claims from JWT token: %w'' [FErr err])
           | Inr claims \<Rightarrow>
               if token_subject claims = [] then Inl (Errorf ''no email or subject claim found in token'' [])
               else case certificate_request env key (token_subject claims) token of
                      Inl err \<Rightarrow> Inl err
                    | Inr req \<Rightarrow>
                        (case se_marshal_request env req of
                           Inl err \<Rightarrow> Inl err
                         | Inr jsonPayload \<Rightarrow>
                             (case se_Post env (fulcioURL @ ''/api/v2/signingCert'')
                                     [(''Content-Type'', ''application/json''), (''Accept'', ''application/json'')] jsonPayload of
                                Inl err \<Rightarrow> Inl err
                              | Inr (code, st, Inl err) \<Rightarrow> Inl (Errorf ''failed to read response body: %w'' [FErr err])
                              | Inr (code, st, Inr body) \<Rightarrow>
                                  if code \<noteq> 200
                                  then Inl (Errorf ''HTTP request failed with status: %s, body: %s'' [FStr st, FStr body])
                                  else case se_unmarshal_certificate env body of
                                         Inl err \<Rightarrow> Inl (Errorf ''failed to unmarshal response: %w'' [FErr err])
                                       | Inr certResp \<Rightarrow> Inr certResp))))"

text \<open>\<open>net.JoinHostPort\<close>\<close>

definition JoinHostPort :: "string \<Rightarrow> string \<Rightarrow> string" where
  "JoinHostPort host port = (if CHR '':'' \<in> set host then ''['' @ host @ '']:'' @ port else host @ '':'' @ port)"

text \<open>\<open>strconv.Itoa\<close>\<close>

definition Itoa :: "int \<Rightarrow> string" where
  "Itoa n = (if n < 0 then ''-'' @ dec (nat (- n)) else dec (nat n))"

definition newClient :: "signer_env \<Rightarrow> string \<Rightarrow> int \<Rightarrow> bool \<Rightarrow> gerr + string" where
  "newClient env fulcioURL fulcioPort isInsecure =
     (case se_ParseURL env fulcioURL of
        Inl err \<Rightarrow> Inl err
      | Inr u \<Rightarrow>
          if (u_Scheme u \<noteq> ''https'' \<and> \<not> isInsecure) \<or> u_Host u = []
          then Inl (Errorf ''invalid Fulcio URL: %s'' [FStr fulcioURL])
          else se_NewClient env (''passthrough:///'' @ JoinHostPort (u_Hostname u) (Itoa fulcioPort)) isInsecure)"

section \<open>The signer\<close>

definition identity_token :: "signer_env \<Rightarrow> FulcioSignerProvider \<Rightarrow> gerr + string" where
  "identity_token env fsp =
     (if fu_Token fsp = [] \<and> fu_TokenPath fsp = [] \<and> signer_Getenv env ''GITHUB_ACTIONS'' = ''true''
      then (let tokenURL = signer_Getenv env ''ACTIONS_ID_TOKEN_REQUEST_URL'';
                requestToken = signer_Getenv env ''ACTIONS_ID_TOKEN_REQUEST_TOKEN''
            in if tokenURL = [] then Inl (Errorf ''ACTIONS_ID_TOKEN_REQUEST_URL is not set'' [])
               else if requestToken = [] then Inl (Errorf ''ACTIONS_ID_TOKEN_REQUEST_TOKEN is not set'' [])
               else case fulcio_fetchToken env tokenURL requestToken ''sigstore'' of
                      Inl err \<Rightarrow> Inl (Errorf ''failed to fetch GitHub Actions OIDC token: %w'' [FErr err])
                    | Inr raw \<Rightarrow> Inr raw)
      else if fu_TokenPath fsp \<noteq> [] \<and> fu_Token fsp \<noteq> []
      then Inl (Errorf ''only one of --fulcio-token-path or --fulcio-raw-token can be used'' [])
      else if fu_Token fsp \<noteq> [] \<and> fu_TokenPath fsp = [] then Inr (fu_Token fsp)
      else if fu_TokenPath fsp \<noteq> [] \<and> fu_Token fsp = []
      then (case ReadFile env (fu_TokenPath fsp) of
              Inl err \<Rightarrow> Inl (Errorf ''failed to read fulcio token from filepath %s: %w'' [FStr (fu_TokenPath fsp), FErr err])
            | Inr f \<Rightarrow> Inr f)
      else if fu_Token fsp = [] \<and> se_IsTerminal env
      then se_OIDConnect env (fu_OidcIssuer fsp) (fu_OidcClientID fsp) (fu_OidcRedirectUrl fsp)
      else Inl (Errorf ''no token provided'' []))"

text \<open>The loop over the chain: the last certificate that is not one of an authority is the leaf.\<close>

primrec split_chain ::
  "signer_env \<Rightarrow> nat \<Rightarrow> nat \<Rightarrow> bytes list \<Rightarrow> certificate list \<times> certificate option \<Rightarrow>
     gerr + certificate list \<times> certificate option" where
  "split_chain env n i [] s = Inr s"
| "split_chain env n i (certPEM # certs) s =
     (case lib_pem_decode (se_lib env) certPEM of
        None \<Rightarrow> Inl (Errorf ''failed to decode PEM block for certificate %d/%d'' [FInt (int i + 1), FInt (int n)])
      | Some certDER \<Rightarrow>
          (case lib_parseCert (se_lib env) (pem_Bytes certDER) of
             Inl err \<Rightarrow> Inl (Errorf ''failed to parse certificate %d/%d: %w'' [FInt (int i + 1), FInt (int n), FErr err])
           | Inr cert \<Rightarrow>
               split_chain env n (Suc i) certs
                 (if se_IsCA env cert then (fst s @ [cert], snd s) else (fst s, Some cert))))"

definition chain_panic :: string where "chain_panic = ''nil pointer dereference''"

definition fulcio_signer_of :: "signer_env \<Rightarrow> bytes \<times> bytes \<Rightarrow> signingCertificate option \<Rightarrow> (gerr + signer) outcome" where
  "fulcio_signer_of env key certResp =
     (case certResp of
        None \<Rightarrow> Panic chain_panic
      | Some None \<Rightarrow> Panic chain_panic
      | Some (Some certs) \<Rightarrow> Return
          (case split_chain env (length certs) 0 certs ([], None) of
             Inl err \<Rightarrow> Inl err
           | Inr (intermediateCerts, None) \<Rightarrow> Inl (Errorf ''no leaf certificate found in Fulcio response'' [])
           | Inr (intermediateCerts, Some leafCert) \<Rightarrow>
               NewX509Signer (Some (ECDSASigner (fst key) (snd key) SHA256)) (Some leafCert) intermediateCerts []))"

definition fulcio_port :: "signer_env \<Rightarrow> parsed_url \<Rightarrow> gerr + int" where
  "fulcio_port env u =
     (if u_Port u \<noteq> []
      then (case se_Atoi env (u_Port u) of
              Inl err \<Rightarrow> Inl (Errorf ''invalid port in Fulcio URL: %s'' [FStr (u_Port u)])
            | Inr p \<Rightarrow> Inr p)
      else Inr 443)"

definition fulcio_Signer :: "signer_env \<Rightarrow> FulcioSignerProvider \<Rightarrow> (gerr + signer) outcome" where
  "fulcio_Signer env fsp =
     (case se_ParseURL env (fu_FulcioURL fsp) of
        Inl err \<Rightarrow> Return (Inl err)
      | Inr u \<Rightarrow>
          (let scheme = (if u_Scheme u = [] then ''https'' else u_Scheme u)
           in case fulcio_port env u of
                Inl err \<Rightarrow> Return (Inl err)
              | Inr port \<Rightarrow>
                  if u_Host u = [] then Return (Inl (Errorf ''fulcio URL must include a host'' []))
                  else case se_GenerateKey env of
                         Inl err \<Rightarrow> Return (Inl err)
                       | Inr key \<Rightarrow>
                           (case identity_token env fsp of
                              Inl err \<Rightarrow> Return (Inl err)
                            | Inr raw \<Rightarrow>
                                if fu_UseHTTP fsp
                                then (case getCertHTTP env key (fu_FulcioURL fsp) raw of
                                        Inl err \<Rightarrow> Return (Inl (Errorf ''failed to obtain certificate from Fulcio: %w'' [FErr err]))
                                      | Inr certResp \<Rightarrow> fulcio_signer_of env key (Some certResp))
                                else (case newClient env (scheme @ ''://'' @ u_Host u) port (scheme = ''http'') of
                                        Inl err \<Rightarrow> Return (Inl err)
                                      | Inr client \<Rightarrow>
                                          (case getCert env key client raw of
                                             Inl err \<Rightarrow> Return (Inl (Errorf ''failed to obtain certificate from Fulcio: %w'' [FErr err]))
                                           | Inr certResp \<Rightarrow> fulcio_signer_of env key certResp)))))"

section \<open>Lemmas\<close>

lemma split_chain_ok:
  "split_chain env n i certs (ints, leaf) = Inr (ints', leaf') \<Longrightarrow>
     (\<forall>c \<in> set ints. se_IsCA env c) \<and> (\<forall>c. leaf = Some c \<longrightarrow> \<not> se_IsCA env c) \<Longrightarrow>
     (\<forall>c \<in> set ints'. se_IsCA env c) \<and> (\<forall>c. leaf' = Some c \<longrightarrow> \<not> se_IsCA env c)"
proof (induction certs arbitrary: i ints leaf)
  case (Cons pem certs)
  let ?s = "\<lambda>cert. if se_IsCA env cert then (fst (ints, leaf) @ [cert], snd (ints, leaf)) else (fst (ints, leaf), Some cert)"
  from Cons.prems(1) obtain cert where "split_chain env n (Suc i) certs (?s cert) = Inr (ints', leaf')"
    by (auto split: option.splits sum.splits simp del: fst_conv snd_conv)
  then show ?case
  proof (cases "se_IsCA env cert")
    case True
    with \<open>split_chain env n (Suc i) certs (?s cert) = _\<close> have "split_chain env n (Suc i) certs (ints @ [cert], leaf) = Inr (ints', leaf')" by simp
    then show ?thesis by (rule Cons.IH) (use Cons.prems(2) True in auto)
  next
    case False
    with \<open>split_chain env n (Suc i) certs (?s cert) = _\<close> have "split_chain env n (Suc i) certs (ints, Some cert) = Inr (ints', leaf')" by simp
    then show ?thesis by (rule Cons.IH) (use Cons.prems(2) False in auto)
  qed
qed simp

text \<open>When the attempts get a certificate: one succeeds, after attempts with an error that allows another, and the
  context is alive before each but the first.\<close>

definition attempt_succeeds :: "signer_env \<Rightarrow> string \<Rightarrow> signingRequest \<Rightarrow> nat \<Rightarrow> nat \<Rightarrow> signingCertificate \<Rightarrow> bool" where
  "attempt_succeeds env client req i k sc \<longleftrightarrow>
     se_CreateSigningCertificate env client (i + k) req = Inr sc \<and>
     (\<forall>j < k. \<exists>err. se_CreateSigningCertificate env client (i + j) req = Inl err \<and> isRetryable env err) \<and>
     (\<forall>j < Suc k. 0 < i + j \<longrightarrow> se_ctx_Err env (i + j) = None)"

lemma attempt_succeeds_0:
  "attempt_succeeds env client req i 0 sc \<longleftrightarrow>
     se_CreateSigningCertificate env client i req = Inr sc \<and> (0 < i \<longrightarrow> se_ctx_Err env i = None)"
  by (auto simp: attempt_succeeds_def)

lemma attempt_succeeds_Suc:
  "attempt_succeeds env client req i (Suc k) sc \<longleftrightarrow>
     (\<exists>err. se_CreateSigningCertificate env client i req = Inl err \<and> isRetryable env err) \<and>
     (0 < i \<longrightarrow> se_ctx_Err env i = None) \<and> attempt_succeeds env client req (Suc i) k sc"
  unfolding attempt_succeeds_def All_less_Suc2 by (simp add: conj_ac)

lemma Ex_less_Suc_shift: "(\<exists>k < Suc n. P k) \<longleftrightarrow> P 0 \<or> (\<exists>k < n. P (Suc k))"
  by (auto simp: less_Suc_eq_0_disj)

lemma certificate_attempts_iff:
  "certificate_attempts env client req n i (None, e) = Inr (Some sc, None) \<longleftrightarrow>
     (\<exists>k < n. attempt_succeeds env client req i k sc)"
proof (induction n arbitrary: i e)
  case (Suc n)
  show ?case
  proof (cases "0 < i \<and> se_ctx_Err env i \<noteq> None")
    case True
    then show ?thesis by (auto simp: Ex_less_Suc_shift attempt_succeeds_0 attempt_succeeds_Suc)
  next
    case False
    then have ctx: "(if i > 0 then se_ctx_Err env i else None) = None" by auto
    show ?thesis
    proof (cases "se_CreateSigningCertificate env client i req")
      case (Inl err)
      with False ctx Suc show ?thesis by (auto simp: Ex_less_Suc_shift attempt_succeeds_0 attempt_succeeds_Suc)
    next
      case (Inr sc')
      with False ctx show ?thesis by (auto simp: Ex_less_Suc_shift attempt_succeeds_0 attempt_succeeds_Suc)
    qed
  qed
qed simp

section \<open>Properties\<close>

text \<open>The certificate is requested up to three times and no more: the loop gets a certificate exactly when one of
  the first three requests yields it, all before failed with an error that allows another attempt, and the
  context was alive before each retry; what Fulcio would answer to a fourth makes no difference.\<close>

theorem three_certificate_attempts:
  "certificate_attempts env client req maxRetries 0 (None, None) = Inr (Some sc, None) \<longleftrightarrow>
     (\<exists>k < 3. se_CreateSigningCertificate env client k req = Inr sc \<and>
        (\<forall>j < k. \<exists>err. se_CreateSigningCertificate env client j req = Inl err \<and> isRetryable env err) \<and>
        (\<forall>j. 0 < j \<and> j \<le> k \<longrightarrow> se_ctx_Err env j = None))"
  unfolding maxRetries_def certificate_attempts_iff by (auto simp: attempt_succeeds_def less_Suc_eq_le)

definition sample_signing_request :: signingRequest where
  "sample_signing_request = \<lparr>cs_Token = ''h.p.s'', cs_PublicKey = ''p'', cs_Proof = ''s''\<rparr>"

theorem three_certificate_attempts_witness:
  "certificate_attempts sample_signer_env ''c'' sample_signing_request maxRetries 0 (None, None) = Inr (Some (Some [''Cl'']), None)"
proof (rule three_certificate_attempts [THEN iffD2], intro exI conjI)
  show "(1 :: nat) < 3" by simp
  show "se_CreateSigningCertificate sample_signer_env ''c'' 1 sample_signing_request = Inr (Some [''Cl''])"
    by (simp add: sample_signer_env_def)
  show "\<forall>j < 1. \<exists>err. se_CreateSigningCertificate sample_signer_env ''c'' j sample_signing_request = Inl err \<and>
      isRetryable sample_signer_env err"
    by (simp add: sample_signer_env_def isRetryable_def)
  show "\<forall>j. 0 < j \<and> j \<le> 1 \<longrightarrow> se_ctx_Err sample_signer_env j = None" by (simp add: sample_signer_env_def)
qed

text \<open>A signer from Fulcio holds a fresh key and a proper leaf: its certificate is none of an authority, its
  intermediates all are, and it signs with the key that was generated for it, over a certificate chain that
  Fulcio returned for a token of this provider.\<close>

theorem fulcio_signer_leaf:
  assumes "fulcio_Signer env fsp = Return (Inr s)"
  shows "\<exists>key leaf ints token. se_GenerateKey env = Inr key \<and> identity_token env fsp = Inr token \<and>
    s = X509Signer leaf [] ints (ECDSASigner (fst key) (snd key) SHA256) \<and>
    \<not> se_IsCA env leaf \<and> (\<forall>c \<in> set ints. se_IsCA env c)"
proof -
  have signer: "\<exists>leaf ints. s = X509Signer leaf [] ints (ECDSASigner (fst key) (snd key) SHA256) \<and>
      \<not> se_IsCA env leaf \<and> (\<forall>c \<in> set ints. se_IsCA env c)" if "fulcio_signer_of env key certResp = Return (Inr s)" for key certResp
  proof -
    from that obtain certs ints leaf where certs: "split_chain env (length certs) 0 certs ([], None) = Inr (ints, Some leaf)"
      and s: "s = X509Signer leaf [] ints (ECDSASigner (fst key) (snd key) SHA256)"
      by (auto simp: fulcio_signer_of_def NewX509Signer_def split: option.splits sum.splits)
    from split_chain_ok [OF certs] s show ?thesis by auto
  qed
  from assms obtain key token certResp where "se_GenerateKey env = Inr key" "identity_token env fsp = Inr token"
    "fulcio_signer_of env key certResp = Return (Inr s)"
    by (auto simp: fulcio_Signer_def Let_def split: sum.splits if_splits)
  with signer [OF this(3)] show ?thesis by blast
qed

definition sample_fulcio :: FulcioSignerProvider where
  "sample_fulcio = fulcio_New [WithFulcioURL ''https://f'', fulcio_WithToken ''h.p.s'']"

theorem fulcio_signer_leaf_witness:
  "fulcio_Signer sample_signer_env sample_fulcio = Return (Inr (X509Signer (sample_cert ''l'') [] [] (ECDSASigner ''g'' ''g'' SHA256))) \<and>
   \<not> se_IsCA sample_signer_env (sample_cert ''l'')"
proof
  show s: "fulcio_Signer sample_signer_env sample_fulcio = Return (Inr (X509Signer (sample_cert ''l'') [] [] (ECDSASigner ''g'' ''g'' SHA256)))"
    by code_simp
  from fulcio_signer_leaf [OF s] show "\<not> se_IsCA sample_signer_env (sample_cert ''l'')" by auto
qed

text \<open>A response without a certificate chain makes the Fulcio signer panic.\<close>

theorem missing_chain_panics:
  assumes "fu_UseHTTP fsp" and "se_ParseURL env (fu_FulcioURL fsp) = Inr u" and "u_Host u \<noteq> []" and "u_Port u = []"
    and "se_GenerateKey env = Inr key" and "identity_token env fsp = Inr raw"
    and "getCertHTTP env key (fu_FulcioURL fsp) raw = Inr None"
  shows "fulcio_Signer env fsp = Panic chain_panic"
  using assms by (simp add: fulcio_Signer_def fulcio_port_def fulcio_signer_of_def Let_def)

definition chainless_env :: signer_env where
  "chainless_env = sample_signer_env\<lparr>se_Post := \<lambda>u h b. Inr (200, ''200 OK'', Inr ''{}'')\<rparr>"

theorem missing_chain_panics_witness:
  "fulcio_Signer chainless_env (WithUseHttp True sample_fulcio) = Panic chain_panic"
proof (rule missing_chain_panics)
  show "se_ParseURL chainless_env (fu_FulcioURL (WithUseHttp True sample_fulcio)) =
      Inr \<lparr>u_Scheme = ''https'', u_Host = ''f'', u_Hostname = ''f'', u_Port = []\<rparr>"
    by (simp add: chainless_env_def sample_signer_env_def)
  show "se_GenerateKey chainless_env = Inr (''g'', ''g'')" by (simp add: chainless_env_def sample_signer_env_def)
  show "identity_token chainless_env (WithUseHttp True sample_fulcio) = Inr ''h.p.s''" by code_simp
  show "getCertHTTP chainless_env (''g'', ''g'') (fu_FulcioURL (WithUseHttp True sample_fulcio)) ''h.p.s'' = Inr None" by code_simp
qed (simp_all add: WithUseHttp_def sample_fulcio_def)

end
