(* ===== verification/Signer_Registration.thy ===== *)
theory Signer_Registration
  imports Fulcio_Signer
begin

text \<open>
  How the signer providers get into the registry of signers: the \<open>init\<close> functions of \<open>signer/file/file.go\<close>,
  \<open>signer/spiffe/spiffe.go\<close>, \<open>signer/vault/signerprovider.go\<close> and \<open>signer/fulcio/fulcio.go\<close>. An option's setter
  works on its own kind of provider and refuses any other.
\<close>

section \<open>Providers\<close>

datatype signer_provider =
    FileProvider FileSignerProvider
  | SpiffeProvider SpiffeSignerProvider
  | VaultProvider VaultSignerProvider
  | FulcioProvider FulcioSignerProvider
  | ForeignProvider string

text \<open>The setters of the file provider return its zero value when they refuse.\<close>

definition file_setter ::
  "('v \<Rightarrow> FileSignerProvider \<Rightarrow> FileSignerProvider) \<Rightarrow> signer_provider \<Rightarrow> 'v \<Rightarrow> signer_provider \<times> gerr option" where
  "file_setter with_opt sp v =
     (case sp of
        FileProvider ksp \<Rightarrow> (FileProvider (with_opt v ksp), None)
      | _ \<Rightarrow> (FileProvider (file_New []), Some (Errorf ''provided signer provider is not a file signer provider'' [])))"

definition spiffe_setter ::
  "('v \<Rightarrow> SpiffeSignerProvider \<Rightarrow> SpiffeSignerProvider) \<Rightarrow> signer_provider \<Rightarrow> 'v \<Rightarrow> signer_provider \<times> gerr option" where
  "spiffe_setter with_opt sp v =
     (case sp of
        SpiffeProvider ssp \<Rightarrow> (SpiffeProvider (with_opt v ssp), None)
      | _ \<Rightarrow> (sp, Some (Errorf ''provided signer provider is not a spiffe signer provider'' [])))"

definition vault_setter ::
  "('v \<Rightarrow> VaultSignerProvider \<Rightarrow> VaultSignerProvider) \<Rightarrow> signer_provider \<Rightarrow> 'v \<Rightarrow> signer_provider \<times> gerr option" where
  "vault_setter with_opt sp v =
     (case sp of
        VaultProvider vsp \<Rightarrow> (VaultProvider (with_opt v vsp), None)
      | _ \<Rightarrow> (sp, Some (Errorf ''provided signer provider is not a vault signer provider'' [])))"

definition fulcio_setter ::
  "('v \<Rightarrow> FulcioSignerProvider \<Rightarrow> FulcioSignerProvider) \<Rightarrow> signer_provider \<Rightarrow> 'v \<Rightarrow> signer_provider \<times> gerr option" where
  "fulcio_setter with_opt sp v =
     (case sp of
        FulcioProvider fsp \<Rightarrow> (FulcioProvider (with_opt v fsp), None)
      | _ \<Rightarrow> (sp, Some (Errorf ''provided signer provider is not a fulcio signer provider'' [])))"

section \<open>Registration\<close>

definition file_init :: "signer_provider Registry \<Rightarrow> signer_provider Registry" where
  "file_init r =
     fst (Register r ''file'' (\<lambda>_. FileProvider (file_New []))
       [StringConfigOption ''key-path'' ''Path to the file containing the private key'' '''' (file_setter WithKeyPath),
        StringPtrConfigOption ''key-passphrase'' ''Passphrase to decrypt the private key (prefer key-passphrase-path).'' None
          (file_setter WithKeyPassphrase),
        StringConfigOption ''key-passphrase-path'' ''Path to a file containing the private key passphrase.'' ''''
          (file_setter WithKeyPassphrasePath),
        StringConfigOption ''cert-path'' ''Path to the file containing the certificate for the private key'' ''''
          (file_setter WithCertPath),
        StringSliceConfigOption ''intermediate-paths''
          ([CHR ''P''] @ ''aths to files containing intermediates required to establish trust of the signer'' @ [CHR 0x27] @ ''s certificate to a root'')
          [] (file_setter WithIntermediatePaths)])"

definition spiffe_init :: "signer_provider Registry \<Rightarrow> signer_provider Registry" where
  "spiffe_init r =
     fst (Register r ''spiffe'' (\<lambda>_. SpiffeProvider (spiffe_New []))
       [StringConfigOption ''socket-path'' ''Path to the SPIFFE Workload API Socket'' '''' (spiffe_setter WithSocketPath)])"

definition vault_init :: "signer_provider Registry \<Rightarrow> signer_provider Registry" where
  "vault_init r =
     fst (Register r ''vault'' (\<lambda>_. VaultProvider (vault_New []))
       [StringConfigOption ''url'' ''Base url of the Vault instance to connect to'' '''' (vault_setter vault_WithUrl),
        StringConfigOption ''pki-secrets-engine-path'' ''Path to the Vault PKI Secrets Engine to use'' defaultPkiSecretsEnginePath
          (vault_setter WithPkiSecretsEnginePath),
        StringConfigOption ''token'' ''Token to use to connect to Vault'' '''' (vault_setter vault_WithToken),
        StringConfigOption ''namespace'' ''Vault namespace to use'' '''' (vault_setter WithNamespace),
        StringConfigOption ''role'' ''Name of the Vault role to generate the certificate for'' '''' (vault_setter WithRole),
        StringConfigOption ''commonname'' ''Common name to use for the generated certificate. Must be allowed by the vault role policy''
          '''' (vault_setter WithCommonName),
        StringSliceConfigOption ''altnames''
          ''Alt names to use for the generated certificate. All alt names must be allowed by the vault role policy''
          [] (vault_setter WithAltNames),
        DurationConfigOption ''ttl''
          (''Time to live for the generated certificate. Defaults to the vault role policy'' @ [CHR 0x27] @ ''s configured TTL if not provided'')
          0 (vault_setter WithTtl)])"

definition fulcio_init :: "signer_provider Registry \<Rightarrow> signer_provider Registry" where
  "fulcio_init r =
     fst (Register r ''fulcio'' (\<lambda>_. FulcioProvider (fulcio_New []))
       [StringConfigOption ''url'' ''Fulcio address to sign with'' '''' (fulcio_setter WithFulcioURL),
        StringConfigOption ''oidc-issuer'' ''OIDC issuer to use for authentication'' '''' (fulcio_setter WithOidcIssuer),
        StringConfigOption ''oidc-client-id'' ''OIDC client ID to use for authentication'' '''' (fulcio_setter WithOidcClientID),
        StringConfigOption ''token''
          ''Raw token string to use for authentication to fulcio (cannot be used in conjunction with --fulcio-token-path)''
          '''' (fulcio_setter fulcio_WithToken),
        StringConfigOption ''oidc-redirect-url''
          (''OIDC redirect URL (Optional). The default oidc-redirect-url is '' @ [CHR 0x27] @ ''http://localhost:0/auth/callback'' @ [CHR 0x27] @ ''.'')
          '''' (fulcio_setter WithOidcRedirectUrl),
        StringConfigOption ''token-path''
          ''Path to the file containing a raw token to use for authentication to fulcio (cannot be used in conjunction with --fulcio-token)''
          '''' (fulcio_setter WithTokenPath),
        BoolConfigOption ''use-http'' ''HTTP/REST mode for Fulcio'' False (fulcio_setter WithUseHttp)])"

text \<open>What the program's imports register.\<close>

definition signer_inits :: "signer_provider Registry \<Rightarrow> signer_provider Registry" where
  "signer_inits r = fulcio_init (vault_init (spiffe_init (file_init r)))"

text \<open>\<open>SignerProvider.Signer\<close>\<close>

fun provider_Signer :: "signer_env \<Rightarrow> (string \<Rightarrow> gerr + signer) \<Rightarrow> signer_provider \<Rightarrow> (gerr + signer) outcome" where
  "provider_Signer env foreign (FileProvider fsp) = Return (file_Signer env fsp)"
| "provider_Signer env foreign (SpiffeProvider ssp) = Return (spiffe_Signer env ssp)"
| "provider_Signer env foreign (VaultProvider vsp) = Return (vault_Signer env vsp)"
| "provider_Signer env foreign (FulcioProvider fsp) = fulcio_Signer env fsp"
| "provider_Signer env foreign (ForeignProvider name) = Return (foreign name)"

section \<open>Properties\<close>

text \<open>Every registered provider can be made by its name and starts from the documented defaults: all options of
  the file, SPIFFE and Fulcio providers are empty, and the Vault provider uses the engine at \<open>pki\<close>, which its
  constructor alone does not set.\<close>

theorem signer_defaults:
  "NewEntity zero (signer_inits r) ''file'' [] = (FileProvider (file_New []), None) \<and>
   NewEntity zero (signer_inits r) ''spiffe'' [] = (SpiffeProvider (spiffe_New []), None) \<and>
   NewEntity zero (signer_inits r) ''vault'' [] = (VaultProvider (vault_New [WithPkiSecretsEnginePath ''pki'']), None) \<and>
   NewEntity zero (signer_inits r) ''fulcio'' [] = (FulcioProvider (fulcio_New []), None)"
  by (simp add: signer_inits_def file_init_def spiffe_init_def vault_init_def fulcio_init_def NewEntity_def
      Registry_Entry_def Register_def Let_def update_conv StringConfigOption_def StringPtrConfigOption_def
      StringSliceConfigOption_def DurationConfigOption_def BoolConfigOption_def new_option_def file_setter_def
      spiffe_setter_def vault_setter_def fulcio_setter_def WithKeyPath_def WithKeyPassphrase_def
      WithKeyPassphrasePath_def WithCertPath_def WithIntermediatePaths_def WithSocketPath_def vault_WithUrl_def
      WithPkiSecretsEnginePath_def vault_WithToken_def WithNamespace_def WithRole_def WithCommonName_def WithAltNames_def
      WithTtl_def WithFulcioURL_def WithOidcIssuer_def WithOidcClientID_def fulcio_WithToken_def WithOidcRedirectUrl_def
      WithTokenPath_def WithUseHttp_def defaultPkiSecretsEnginePath_def file_New_def spiffe_New_def vault_New_def fulcio_New_def)

end
