(* ===== verification/K8s_Manifest.thy ===== *)
theory K8s_Manifest
  imports Attest_Context Go_Path "HOL-Library.Sublist"
begin

text \<open>
  The attestor of Kubernetes manifests: \<open>attestation/k8smanifest/k8s.go\<close> and \<open>util.go\<close>.

  Manifests are JSON objects, association lists of their members. The JSON and YAML codecs, the decoder of
  Kubernetes types, \<open>kubectl\<close>, the kubeconfig and the image registry are parameters, in \<open>k8s_env\<close>. A decoded
  object keeps what the attestor reads of it: the raw items of a list, a node, the Go type of a workload with
  the images of its containers.
\<close>

section \<open>Data\<close>

record RecordedImage =
  ri_Reference :: string
  ri_Digest :: "(string, string) gomap"

record RecordedObject =
  ro_FilePath :: string
  ro_Kind :: string
  ro_Name :: string
  ro_Data :: bytes
  ro_SubjectKey :: string
  ro_RecordedImages :: "RecordedImage list"

record RecordedNode =
  rn_Name :: string
  rn_Labels :: "(string, string) gomap"
  rn_MachineID :: string
  rn_NodeInfo :: string

record ClusterInfo =
  ci_Server :: string
  ci_RecordedNodes :: "(string, RecordedNode) gomap"

record k8s_attestor =
  ka_ServerSideDryRun :: bool
  ka_RecordClusterInfo :: bool
  ka_KubeconfigPath :: string
  ka_KubeContext :: string
  ka_IgnoreFields :: "string list"
  ka_IgnoreAnnotations :: "string list"
  ka_ephemeralFields :: "string list"
  ka_ephemeralAnn :: "string list"
  ka_RecordedDocs :: "RecordedObject list"
  ka_subjectDigests :: "(string, digest_set) gomap"
  ka_ClusterInfo :: ClusterInfo

text \<open>What the YAML decoder yields: a map with keys of any type, a map with strings as keys, a sequence, a scalar.\<close>

datatype yaml =
    YAnyMap "(yaml \<times> yaml) list"
  | YMap "(string \<times> yaml) list"
  | YSeq "yaml list"
  | YScalar string

datatype k8s_object =
    ListObject "bytes list"
  | NodeObject RecordedNode
  | Workload string "string list"
  | OtherObject string

record kubeconfig =
  kc_CurrentContext :: string
  kc_Clusters :: "(string, string) gomap"

type_synonym json_object = "(string, json) gomap"

record k8s_env =
  kv_order :: "(string, Product) gomap \<Rightarrow> (string, Product) gomap"
  kv_ReadFile :: "string \<Rightarrow> gerr + bytes"
  kv_Valid :: "bytes \<Rightarrow> bool"
  kv_Unmarshal :: "bytes \<Rightarrow> gerr + json"
  kv_Marshal :: "json \<Rightarrow> gerr + bytes"
  kv_yaml_Decode :: "bytes \<Rightarrow> yaml list"
  kv_show_key :: "yaml \<Rightarrow> string"
  kv_Marshal_yaml :: "yaml \<Rightarrow> gerr + bytes"
  kv_yaml_Marshal :: "json_object \<Rightarrow> gerr + bytes"
  kv_kubectl :: "string list \<Rightarrow> bytes \<Rightarrow> gerr + bytes"
  kv_decode :: "bytes \<Rightarrow> gerr + k8s_object \<times> string"
  kv_LoadFromFile :: "string \<Rightarrow> gerr + kubeconfig"
  kv_ParseReference :: "string \<Rightarrow> gerr + string"
  kv_remote_Get :: "string \<Rightarrow> gerr + string"

section \<open>The attestor and its options\<close>

definition k8smanifest_Name :: string where "k8smanifest_Name = ''k8smanifest''"
definition k8smanifest_Type :: string where "k8smanifest_Type = ''https://witness.dev/attestations/k8smanifest/v0.2''"

definition defaultEphemeralFields :: "string list" where
  "defaultEphemeralFields =
     [''metadata.resourceVersion'', ''metadata.uid'', ''metadata.creationTimestamp'', ''metadata.managedFields'',
      ''metadata.generation'', ''status'']"

definition defaultEphemeralAnnotations :: "string list" where
  "defaultEphemeralAnnotations =
     [''kubectl.kubernetes.io/last-applied-configuration'', ''deployment.kubernetes.io/revision'',
      ''witness.dev/content-hash'', ''cosign.sigstore.dev/message'', ''cosign.sigstore.dev/signature'',
      ''cosign.sigstore.dev/bundle'']"

definition k8s_New :: k8s_attestor where
  "k8s_New =
     \<lparr>ka_ServerSideDryRun = False, ka_RecordClusterInfo = False, ka_KubeconfigPath = [], ka_KubeContext = [],
      ka_IgnoreFields = [], ka_IgnoreAnnotations = [], ka_ephemeralFields = defaultEphemeralFields,
      ka_ephemeralAnn = defaultEphemeralAnnotations, ka_RecordedDocs = [], ka_subjectDigests = [],
      ka_ClusterInfo = \<lparr>ci_Server = [], ci_RecordedNodes = []\<rparr>\<rparr>"

definition WithServerSideDryRun :: "bool \<Rightarrow> k8s_attestor \<Rightarrow> k8s_attestor" where
  "WithServerSideDryRun dryRun a = a\<lparr>ka_ServerSideDryRun := dryRun\<rparr>"
definition WithKubeconfigPath :: "string \<Rightarrow> k8s_attestor \<Rightarrow> k8s_attestor" where
  "WithKubeconfigPath path a = a\<lparr>ka_KubeconfigPath := path\<rparr>"
definition WithKubeContext :: "string \<Rightarrow> k8s_attestor \<Rightarrow> k8s_attestor" where
  "WithKubeContext ctxName a = a\<lparr>ka_KubeContext := ctxName\<rparr>"
definition WithRecordClusterInfo :: "bool \<Rightarrow> k8s_attestor \<Rightarrow> k8s_attestor" where
  "WithRecordClusterInfo rec a = a\<lparr>ka_RecordClusterInfo := rec\<rparr>"

definition WithExtraIgnoreFields :: "string list \<Rightarrow> k8s_attestor \<Rightarrow> k8s_attestor" where
  "WithExtraIgnoreFields flds a =
     (let a = a\<lparr>ka_IgnoreFields := ka_IgnoreFields a @ flds\<rparr>
      in a\<lparr>ka_ephemeralFields := defaultEphemeralFields @ ka_IgnoreFields a\<rparr>)"

definition WithExtraIgnoreAnnotations :: "string list \<Rightarrow> k8s_attestor \<Rightarrow> k8s_attestor" where
  "WithExtraIgnoreAnnotations anns a =
     (let a = a\<lparr>ka_IgnoreAnnotations := ka_IgnoreAnnotations a @ anns\<rparr>
      in a\<lparr>ka_ephemeralAnn := defaultEphemeralAnnotations @ ka_IgnoreAnnotations a\<rparr>)"

section \<open>Removing what does not last\<close>

text \<open>A member that is an object, as \<open>obj[key].(map[string]interface{})\<close> finds it.\<close>

definition sub_object :: "json_object \<Rightarrow> string \<Rightarrow> json_object option" where
  "sub_object obj key = (case map_of obj key of Some (JObject sub) \<Rightarrow> Some sub | _ \<Rightarrow> None)"

fun remove_path :: "string list \<Rightarrow> json_object \<Rightarrow> json_object" where
  "remove_path [] obj = obj"
| "remove_path [p] obj = AList.delete p obj"
| "remove_path (p # q # ps) obj =
     (case sub_object obj p of
        None \<Rightarrow> obj
      | Some sub \<Rightarrow> AList.update p (JObject (remove_path (q # ps) sub)) obj)"

definition removeNested :: "json_object \<Rightarrow> string \<Rightarrow> json_object" where
  "removeNested obj path = remove_path (split_at (CHR ''.'') path) obj"

definition removeEphemeralAnnotations :: "json_object \<Rightarrow> string list \<Rightarrow> json_object" where
  "removeEphemeralAnnotations obj ephemeralKeys =
     (case sub_object obj ''metadata'' of
        None \<Rightarrow> obj
      | Some md \<Rightarrow>
          (case sub_object md ''annotations'' of
             None \<Rightarrow> obj
           | Some ann \<Rightarrow>
               AList.update ''metadata''
                 (JObject (AList.update ''annotations'' (JObject (fold AList.delete ephemeralKeys ann)) md)) obj))"

definition removeEphemeralFields :: "k8s_attestor \<Rightarrow> json_object \<Rightarrow> json_object" where
  "removeEphemeralFields a obj =
     removeEphemeralAnnotations (fold (\<lambda>ef obj. removeNested obj ef) (ka_ephemeralFields a) obj) (ka_ephemeralAnn a)"

section \<open>Images and nodes\<close>

definition DigestForRef :: "k8s_env \<Rightarrow> string \<Rightarrow> gerr + string" where
  "DigestForRef env reference =
     (case kv_ParseReference env reference of
        Inl err \<Rightarrow> Inl err
      | Inr ref \<Rightarrow> kv_remote_Get env ref)"

definition nil_error_panic :: string where "nil_error_panic = ''nil pointer dereference''"
definition type_panic :: string where "type_panic = ''interface conversion''"

definition newRecordedImage :: "k8s_env \<Rightarrow> string \<Rightarrow> RecordedImage outcome" where
  "newRecordedImage env img =
     (case DigestForRef env img of
        Inl err \<Rightarrow> Return \<lparr>ri_Reference = img, ri_Digest = []\<rparr>
      | Inr dig \<Rightarrow>
          if dig \<noteq> []
          then Return (case split_at (CHR '':'') dig of
                         [alg, hex] \<Rightarrow> \<lparr>ri_Reference = img, ri_Digest = [(alg, hex)]\<rparr>
                       | _ \<Rightarrow> \<lparr>ri_Reference = img, ri_Digest = []\<rparr>)
          else Panic nil_error_panic)"

text \<open>The Go type that \<open>recordImages\<close> asserts for a kind.\<close>

definition workload_type :: "string \<Rightarrow> string option" where
  "workload_type kind =
     map_of [(''Pod'', ''*v1.Pod''), (''Deployment'', ''*appsv1.Deployment''), (''ReplicaSet'', ''*appsv1.ReplicaSet''),
       (''StatefulSet'', ''*appsv1.StatefulSet''), (''DaemonSet'', ''*appsv1.DaemonSet''), (''Job'', ''*batchv1.Job''),
       (''CronJob'', ''*batchv1.CronJob'')] kind"

primrec mapO :: "('a \<Rightarrow> 'b outcome) \<Rightarrow> 'a list \<Rightarrow> 'b list outcome" where
  "mapO f [] = Return []"
| "mapO f (x # xs) = bindO (f x) (\<lambda>y. bindO (mapO f xs) (\<lambda>ys. Return (y # ys)))"

definition recordImages :: "k8s_env \<Rightarrow> k8s_object \<Rightarrow> string \<Rightarrow> RecordedImage list outcome" where
  "recordImages env obj kind =
     (case workload_type kind of
        None \<Rightarrow> Return []
      | Some t \<Rightarrow>
          (case obj of
             Workload t' images \<Rightarrow> if t' = t then mapO (newRecordedImage env) images else Panic type_panic
           | _ \<Rightarrow> Panic type_panic))"

definition recordNode :: "k8s_object \<Rightarrow> gerr + RecordedNode" where
  "recordNode obj =
     (case obj of
        NodeObject n \<Rightarrow> Inr n
      | _ \<Rightarrow> Inl (Errorf ''failed to type cast object to a node'' []))"

text \<open>The images and, when clusters are recorded, the node of one object.\<close>

definition record_object ::
  "k8s_env \<Rightarrow> k8s_object \<times> string \<Rightarrow> k8s_attestor \<Rightarrow> (k8s_attestor \<times> (gerr + RecordedImage list)) outcome" where
  "record_object env decoded a =
     (case decoded of (obj, kind) \<Rightarrow>
        bindO (recordImages env obj kind) (\<lambda>images. Return
          (if kind = ''Node'' \<and> ka_RecordClusterInfo a
           then (case recordNode obj of
                   Inl err \<Rightarrow> (a, Inl (Errorf ''failed to record node info: %w'' [FErr err]))
                 | Inr n \<Rightarrow>
                     (a\<lparr>ka_ClusterInfo := (ka_ClusterInfo a)
                         \<lparr>ci_RecordedNodes := AList.update (rn_MachineID n) n (ci_RecordedNodes (ka_ClusterInfo a))\<rparr>\<rparr>, Inr images))
           else (a, Inr images))))"

primrec record_items ::
  "k8s_env \<Rightarrow> string \<Rightarrow> bytes list \<Rightarrow> RecordedImage list \<Rightarrow> k8s_attestor \<Rightarrow>
     (k8s_attestor \<times> (gerr + RecordedImage list)) outcome" where
  "record_items env path [] images a = Return (a, Inr images)"
| "record_items env path (raw # items) images a =
     (case kv_decode env raw of
        Inl err \<Rightarrow> Return (a, Inl (Errorf ''failed to decode file %s. Continuing: %s'' [FStr path, FErr err]))
      | Inr decoded \<Rightarrow>
          bindO (record_object env decoded a) (\<lambda>(a, r).
            case r of
              Inl err \<Rightarrow> Return (a, Inl err)
            | Inr new \<Rightarrow> record_items env path items (images @ new) a))"

section \<open>Documents\<close>

text \<open>The result is a map, the nil map \<open>None\<close> when kubectl prints \<open>null\<close>.\<close>

definition runDryRun :: "k8s_env \<Rightarrow> k8s_attestor \<Rightarrow> json_object \<Rightarrow> gerr + json_object option" where
  "runDryRun env a doc =
     (case kv_yaml_Marshal env doc of
        Inl err \<Rightarrow> Inl err
      | Inr y \<Rightarrow>
          (case kv_kubectl env ([''apply'', ''--dry-run=server'', ''-o'', ''json'', ''-f'', ''-''] @
                  (if ka_KubeconfigPath a \<noteq> [] then [''--kubeconfig'', ka_KubeconfigPath a] else [])) y of
             Inl err \<Rightarrow> Inl (Errorf ''kubectl dry-run error: %s'' [FErr err])
           | Inr out \<Rightarrow>
               (case kv_Unmarshal env out of
                  Inr (JObject outMap) \<Rightarrow> Inr (Some outMap)
                | Inr JNull \<Rightarrow> Inr None
                | Inr _ \<Rightarrow> Inl (Errorf ''unmarshal after dry-run: not an object'' [])
                | Inl err \<Rightarrow> Inl (Errorf ''unmarshal after dry-run: %w'' [FErr err]))))"

definition doc_name :: "json_object \<Rightarrow> string" where
  "doc_name obj =
     (case sub_object obj ''metadata'' of
        None \<Rightarrow> ''unknown''
      | Some md \<Rightarrow> (case map_of md ''name'' of Some (JString nm) \<Rightarrow> if nm \<noteq> [] then nm else ''unknown'' | _ \<Rightarrow> ''unknown''))"

text \<open>The keys that the loop for a subject key tries, one after the other.\<close>

definition key_at :: "string \<Rightarrow> nat \<Rightarrow> string" where
  "key_at baseKey n = (if n = 1 then baseKey else baseKey @ ''#'' @ dec n)"

lemma key_at_inj: "0 < m \<Longrightarrow> 0 < n \<Longrightarrow> key_at b m = key_at b n \<Longrightarrow> m = n"
  by (auto simp: key_at_def split: if_splits dest: dec_inj)

function subject_key_loop :: "(string, digest_set) gomap \<Rightarrow> string \<Rightarrow> nat \<Rightarrow> string" where
  "subject_key_loop digests baseKey sfx =
     (if map_of digests (key_at baseKey (Suc sfx)) \<noteq> None then subject_key_loop digests baseKey (Suc sfx)
      else key_at baseKey (Suc sfx))"
  by pat_completeness auto

termination
proof (relation "measure (\<lambda>(digests, baseKey, sfx).
    card {n. sfx < n \<and> key_at baseKey n \<in> fst ` set digests})")
  fix digests :: "(string, digest_set) gomap" and baseKey sfx
  let ?left = "\<lambda>k. {n. k < n \<and> key_at baseKey n \<in> fst ` set digests}"
  assume "map_of digests (key_at baseKey (Suc sfx)) \<noteq> None"
  then have mem: "Suc sfx \<in> ?left sfx" by (simp add: map_of_None_iff)
  have "finite (key_at baseKey ` ?left sfx)" by (rule finite_subset [of _ "fst ` set digests"]) auto
  moreover have "inj_on (key_at baseKey) (?left sfx)" by (intro inj_onI key_at_inj [of _ _ baseKey]) auto
  ultimately have "finite (?left sfx)" by (rule finite_imageD)
  moreover have "?left (Suc sfx) \<subset> ?left sfx" using mem by auto
  ultimately show "((digests, baseKey, Suc sfx), digests, baseKey, sfx) \<in> measure (\<lambda>(digests, baseKey, sfx).
      card {n. sfx < n \<and> key_at baseKey n \<in> fst ` set digests})" by (simp add: psubset_card_mono)
qed simp

declare subject_key_loop.simps [simp del]

text \<open>The manifest after the dry run and the removals; \<open>None\<close> for a nil map.\<close>

definition final_object :: "k8s_env \<Rightarrow> k8s_attestor \<Rightarrow> json_object \<Rightarrow> json_object option" where
  "final_object env a doc =
     map_option (removeEphemeralFields a)
       (if ka_ServerSideDryRun a
        then (case runDryRun env a doc of Inl err \<Rightarrow> Some doc | Inr dryObj \<Rightarrow> dryObj) else Some doc)"

definition processDoc ::
  "k8s_env \<Rightarrow> json_object \<Rightarrow> string \<Rightarrow> k8s_attestor \<Rightarrow> (k8s_attestor \<times> (gerr + bytes \<times> RecordedObject)) outcome" where
  "processDoc env doc path a =
     (let finalObj = final_object env a doc
      in case kv_Marshal env (case finalObj of None \<Rightarrow> JNull | Some obj \<Rightarrow> JObject obj) of
           Inl err \<Rightarrow> Return (a, Inl (Errorf ''marshal error: %w'' [FErr err]))
         | Inr cleanBytes \<Rightarrow>
             (case kv_decode env cleanBytes of
                Inl err \<Rightarrow> Return (a, Inl (Errorf ''failed to decode file %s. Continuing: %s'' [FStr path, FErr err]))
              | Inr (obj, kind) \<Rightarrow>
                  (let kindVal = (if length kind > 0 then kind else ''UnknownKind'');
                       nameVal = (case finalObj of None \<Rightarrow> ''unknown'' | Some obj \<Rightarrow> doc_name obj)
                   in bindO (case obj of
                               ListObject items \<Rightarrow> record_items env path items [] a
                             | _ \<Rightarrow> record_object env (obj, kind) a)
                        (\<lambda>(a, r). Return
                           (case r of
                              Inl err \<Rightarrow> (a, Inl err)
                            | Inr recordedImages \<Rightarrow>
                                (let baseKey = ''k8smanifest:'' @ path @ '':'' @ kindVal @ '':'' @ nameVal
                                 in (a, Inr (cleanBytes,
                                      \<lparr>ro_FilePath = path, ro_Kind = kindVal, ro_Name = nameVal, ro_Data = [],
                                       ro_SubjectKey = subject_key_loop (ka_subjectDigests a) baseKey 0,
                                       ro_RecordedImages = recordedImages\<rparr>))))))))"

text \<open>\<open>convertKeys\<close> goes into the maps with keys of any type and into sequences, and leaves other maps alone.\<close>

fun convertKeys :: "(yaml \<Rightarrow> string) \<Rightarrow> yaml \<Rightarrow> yaml" where
  "convertKeys show_key (YAnyMap m) =
     YMap (fold (\<lambda>(k, v). AList.update k v) (map (\<lambda>(key, val). (show_key key, convertKeys show_key val)) m) [])"
| "convertKeys show_key (YSeq v) = YSeq (map (convertKeys show_key) v)"
| "convertKeys show_key (YMap m) = YMap m"
| "convertKeys show_key (YScalar s) = YScalar s"

text \<open>The documents that decode before the decoder fails or finds the end, of which those that encode are kept.\<close>

definition splitYAMLDocs :: "k8s_env \<Rightarrow> bytes \<Rightarrow> bytes list" where
  "splitYAMLDocs env content =
     (let out = List.map_filter (\<lambda>raw. case kv_Marshal_yaml env (convertKeys (kv_show_key env) raw) of
                  Inl err \<Rightarrow> None | Inr j \<Rightarrow> Some j) (kv_yaml_Decode env content)
      in if length out = 0 \<and> kv_Valid env content then [content] else out)"

text \<open>\<open>filepath.Ext\<close>: from the last dot of the last element.\<close>

definition filepath_Ext :: "string \<Rightarrow> string" where
  "filepath_Ext path =
     (let name = last (split_at (CHR ''/'') path)
      in if CHR ''.'' \<in> set name then CHR ''.'' # last (split_at (CHR ''.'') name) else [])"

definition isJSONorYAML :: "string \<Rightarrow> bool" where
  "isJSONorYAML path = (to_lower (filepath_Ext path) \<in> {''.json'', ''.yaml'', ''.yml''})"

text \<open>The documents of a file; \<open>None\<close> when the file is skipped.\<close>

definition file_docs :: "k8s_env \<Rightarrow> string \<Rightarrow> bytes \<Rightarrow> bytes list option" where
  "file_docs env path content =
     (if to_lower (filepath_Ext path) = ''.json''
      then if \<not> kv_Valid env content then None
           else (case kv_Unmarshal env content of
                   Inl err \<Rightarrow> None
                 | Inr (JArray arr) \<Rightarrow>
                     Some (List.map_filter (\<lambda>el. case kv_Marshal env el of Inl e \<Rightarrow> None | Inr b \<Rightarrow> Some b) arr)
                 | Inr _ \<Rightarrow> Some [content])
      else Some (splitYAMLDocs env content))"

definition record_doc :: "k8s_env \<Rightarrow> string \<Rightarrow> bytes \<Rightarrow> k8s_attestor \<Rightarrow> k8s_attestor outcome" where
  "record_doc env path doc a =
     (case kv_Unmarshal env doc of
        Inr (JObject docMap) \<Rightarrow>
          bindO (processDoc env docMap path a) (\<lambda>(a, r). Return
            (case r of
               Inl err \<Rightarrow> a
             | Inr (cleanBytes, robj) \<Rightarrow>
                 a\<lparr>ka_RecordedDocs := ka_RecordedDocs a @ [robj\<lparr>ro_Data := cleanBytes\<rparr>]\<rparr>))
      | _ \<Rightarrow> Return a)"

definition record_file :: "k8s_env \<Rightarrow> string \<Rightarrow> string \<times> Product \<Rightarrow> k8s_attestor \<Rightarrow> k8s_attestor outcome" where
  "record_file env workingDir entry a =
     (if \<not> isJSONorYAML (fst entry) then Return a
      else case kv_ReadFile env (filepath_Join workingDir (fst entry)) of
             Inl err \<Rightarrow> Return a
           | Inr content \<Rightarrow>
               (case file_docs env (fst entry) content of
                  None \<Rightarrow> Return a
                | Some docs \<Rightarrow> foldO (record_doc env (fst entry)) docs a))"

definition runRecordClusterInfo :: "k8s_env \<Rightarrow> k8s_attestor \<Rightarrow> k8s_attestor \<times> gerr option" where
  "runRecordClusterInfo env a =
     (case kv_LoadFromFile env (ka_KubeconfigPath a) of
        Inl err \<Rightarrow> (a, Some err)
      | Inr config \<Rightarrow>
          (let cc = (if ka_KubeContext a = [] \<and> kc_CurrentContext config \<noteq> [] then kc_CurrentContext config else ka_KubeContext a)
           in if cc = [] then (a, Some (Errorf ''kubernetes context not set'' []))
              else case map_of (kc_Clusters config) cc of
                     Some server \<Rightarrow> (a\<lparr>ka_ClusterInfo := (ka_ClusterInfo a)\<lparr>ci_Server := server\<rparr>\<rparr>, None)
                   | None \<Rightarrow> (a, Some (Errorf ''unable to find context %s in kubernetes config at path %s''
                               [FStr cc, FStr (ka_KubeconfigPath a)]))))"

definition k8s_Attest ::
  "k8s_env \<Rightarrow> 'd AttestationContext \<Rightarrow> k8s_attestor \<Rightarrow> (k8s_attestor \<times> gerr option) outcome" where
  "k8s_Attest env ctx a =
     (let products = kv_order env (ctx_Products ctx)
      in if length products = 0 then Return (a, None)
         else case (if ka_RecordClusterInfo a then runRecordClusterInfo env a else (a, None)) of
                (a, Some err) \<Rightarrow> Return (a, Some err)
              | (a, None) \<Rightarrow>
                  if \<not> list_ex (\<lambda>entry. isJSONorYAML (fst entry)) products then Return (a, None)
                  else bindO (foldO (record_file env (ac_workingDir ctx)) products a) (\<lambda>a. Return (a, None)))"

definition k8s_Subjects :: "k8s_attestor \<Rightarrow> (string, digest_set) gomap" where
  "k8s_Subjects a = put_all (ka_subjectDigests a) []"

section \<open>The member at a path\<close>

text \<open>What stands at a path of an object, the reference that the removals are proved against.\<close>

fun json_at :: "string list \<Rightarrow> json_object \<Rightarrow> json option" where
  "json_at [] obj = Some (JObject obj)"
| "json_at [p] obj = map_of obj p"
| "json_at (p # q # ps) obj = (case sub_object obj p of None \<Rightarrow> None | Some sub \<Rightarrow> json_at (q # ps) sub)"

lemma json_at_Cons:
  "json_at (p # ps) obj =
     (if ps = [] then map_of obj p else case sub_object obj p of None \<Rightarrow> None | Some sub \<Rightarrow> json_at ps sub)"
  by (cases ps) auto

lemma sub_object_update: "sub_object (AList.update k (JObject s) obj) p = (if p = k then Some s else sub_object obj p)"
  by (simp add: sub_object_def update_conv')

lemma sub_object_delete: "sub_object (AList.delete k obj) p = (if p = k then None else sub_object obj p)"
  by (simp add: sub_object_def delete_conv')

lemma json_at_removed:
  "q \<noteq> [] \<Longrightarrow> prefix q p \<Longrightarrow> json_at p (remove_path q obj) = None"
proof (induction q obj arbitrary: p rule: remove_path.induct)
  case (2 k obj)
  then obtain ps where "p = k # ps" by (auto simp: prefix_def)
  then show ?case by (simp add: json_at_Cons sub_object_delete delete_conv')
next
  case (3 k k' ks obj)
  then obtain ps where p: "p = k # ps" "prefix (k' # ks) ps" by (auto simp: prefix_def)
  then show ?case using 3(1) [of _ ps] by (auto simp: json_at_Cons sub_object_update split: option.splits)
qed simp

lemma json_at_kept:
  "q \<noteq> [] \<Longrightarrow> \<not> prefix q p \<Longrightarrow> \<not> prefix p q \<Longrightarrow> json_at p (remove_path q obj) = json_at p obj"
proof (induction q obj arbitrary: p rule: remove_path.induct)
  case (2 k obj)
  then obtain x ps where "p = x # ps" "x \<noteq> k" by (cases p) auto
  then show ?case by (simp add: json_at_Cons sub_object_delete delete_conv')
next
  case (3 k k' ks obj)
  then obtain x ps where p: "p = x # ps" by (cases p) auto
  show ?case
  proof (cases "x = k")
    case True
    with p 3 have "\<not> prefix (k' # ks) ps" "\<not> prefix ps (k' # ks)" by auto
    with p True show ?thesis using 3(1) [of _ ps] by (auto simp: json_at_Cons sub_object_update split: option.splits)
  next
    case False
    with p show ?thesis by (auto simp: json_at_Cons sub_object_update update_conv' split: option.splits)
  qed
qed simp

text \<open>A removed path stays removed: later removals add nothing.\<close>

lemma json_at_None_kept: "json_at p obj = None \<Longrightarrow> q \<noteq> [] \<Longrightarrow> json_at p (remove_path q obj) = None"
proof (induction q obj arbitrary: p rule: remove_path.induct)
  case (2 k obj)
  then obtain x ps where "p = x # ps" by (cases p) auto
  with 2 show ?case by (auto simp: json_at_Cons sub_object_delete delete_conv' split: option.splits)
next
  case (3 k k' ks obj)
  then obtain x ps where p: "p = x # ps" by (cases p) auto
  with 3 show ?case
    by (auto simp: json_at_Cons sub_object_update update_conv' split: option.splits if_splits)
       (auto simp: sub_object_def)
qed simp

lemma json_at_fold_removed:
  "\<forall>q \<in> set qs. q \<noteq> [] \<Longrightarrow> json_at p obj = None \<or> (\<exists>q \<in> set qs. prefix q p) \<Longrightarrow> json_at p (fold remove_path qs obj) = None"
  by (induction qs arbitrary: obj) (auto simp: json_at_removed json_at_None_kept)

lemma json_at_fold_kept:
  "\<forall>q \<in> set qs. q \<noteq> [] \<and> \<not> prefix q p \<and> \<not> prefix p q \<Longrightarrow> json_at p (fold remove_path qs obj) = json_at p obj"
  by (induction qs arbitrary: obj) (auto simp: json_at_kept)

lemma sub_object_map_of: "sub_object obj p = Some sub \<Longrightarrow> map_of obj p = Some (JObject sub)"
  by (auto simp: sub_object_def split: option.splits json.splits)

lemma removeEphemeralAnnotations_paths:
  "removeEphemeralAnnotations obj ks = fold remove_path (map (\<lambda>k. [''metadata'', ''annotations'', k]) ks) obj"
proof (induction ks arbitrary: obj)
  case Nil
  then show ?case by (auto simp: removeEphemeralAnnotations_def update_triv sub_object_map_of split: option.splits)
next
  case (Cons k ks)
  have "removeEphemeralAnnotations obj (k # ks) =
      removeEphemeralAnnotations (remove_path [''metadata'', ''annotations'', k] obj) ks"
    by (auto simp: removeEphemeralAnnotations_def sub_object_update update_triv sub_object_map_of split: option.splits)
  with Cons show ?case by simp
qed

text \<open>The paths that an attestor removes.\<close>

definition ephemeral_paths :: "k8s_attestor \<Rightarrow> string list list" where
  "ephemeral_paths a =
     map (split_at (CHR ''.'')) (ka_ephemeralFields a) @ map (\<lambda>k. [''metadata'', ''annotations'', k]) (ka_ephemeralAnn a)"

lemma removeEphemeralFields_paths: "removeEphemeralFields a obj = fold remove_path (ephemeral_paths a) obj"
proof -
  have "fold (\<lambda>ef obj. removeNested obj ef) fs obj = fold remove_path (map (split_at (CHR ''.'')) fs) obj" for fs obj
    by (induction fs arbitrary: obj) (simp_all add: removeNested_def)
  then show ?thesis by (simp add: removeEphemeralFields_def removeEphemeralAnnotations_paths ephemeral_paths_def)
qed

lemma ephemeral_paths_not_Nil: "q \<in> set (ephemeral_paths a) \<Longrightarrow> q \<noteq> []"
  by (auto simp: ephemeral_paths_def) (metis split_at_not_Nil)

section \<open>What the attestor keeps\<close>

lemma mapO_Return: "mapO f xs = Return ys \<Longrightarrow> list_all2 (\<lambda>x y. f x = Return y) xs ys"
  by (induction xs arbitrary: ys) auto

lemma record_object_digests:
  "record_object env d a = Return (a', r) \<Longrightarrow> ka_subjectDigests a' = ka_subjectDigests a \<and> ka_RecordedDocs a' = ka_RecordedDocs a"
  by (cases d) (auto simp: record_object_def split: if_splits sum.splits)

lemma record_items_digests:
  "record_items env path items images a = Return (a', r) \<Longrightarrow>
     ka_subjectDigests a' = ka_subjectDigests a \<and> ka_RecordedDocs a' = ka_RecordedDocs a"
proof (induction items arbitrary: images a)
  case (Cons raw items)
  show ?case
  proof (cases "kv_decode env raw")
    case (Inr d)
    with Cons.prems obtain b q where b: "record_object env d a = Return (b, q)"
      and rest: "(case q of Inl err \<Rightarrow> Return (b, Inl err) | Inr new \<Rightarrow> record_items env path items (images @ new) b) = Return (a', r)"
      by auto
    from rest have "ka_subjectDigests a' = ka_subjectDigests b \<and> ka_RecordedDocs a' = ka_RecordedDocs b"
      by (cases q) (auto dest: Cons.IH)
    with record_object_digests [OF b] show ?thesis by simp
  qed (use Cons.prems in simp)
qed simp

lemma subject_key_loop_empty: "subject_key_loop [] baseKey 0 = baseKey"
  by (subst subject_key_loop.simps) (simp add: key_at_def)

lemma subject_key_loop_fresh: "map_of digests (subject_key_loop digests baseKey n) = None"
  by (induction digests baseKey n rule: subject_key_loop.induct) (subst subject_key_loop.simps, auto)

text \<open>The attestor keeps an empty map of digests, and gives every document the plain key.\<close>

definition plain_keys :: "k8s_attestor \<Rightarrow> bool" where
  "plain_keys a \<longleftrightarrow> ka_subjectDigests a = [] \<and>
     list_all (\<lambda>d. ro_SubjectKey d = ''k8smanifest:'' @ ro_FilePath d @ '':'' @ ro_Kind d @ '':'' @ ro_Name d) (ka_RecordedDocs a)"

lemma bind_recorded:
  "bindO m (\<lambda>(a, r). Return (case r of Inl err \<Rightarrow> (a, Inl err) | Inr x \<Rightarrow> (a, Inr (f a x)))) = Return (a', r') \<longleftrightarrow>
     (\<exists>q. m = Return (a', q) \<and> r' = map_sum (\<lambda>e. e) (f a') q)"
proof (cases m)
  case (Return p)
  then show ?thesis by (cases p; cases "snd p") auto
qed simp

lemma processDoc_keys:
  assumes "processDoc env doc path a = Return (a', r)"
  shows "ka_subjectDigests a' = ka_subjectDigests a \<and> ka_RecordedDocs a' = ka_RecordedDocs a \<and>
    (ka_subjectDigests a = [] \<longrightarrow> (\<forall>b d. r = Inr (b, d) \<longrightarrow>
       ro_SubjectKey d = ''k8smanifest:'' @ ro_FilePath d @ '':'' @ ro_Kind d @ '':'' @ ro_Name d))"
proof (cases "kv_Marshal env (case final_object env a doc of None \<Rightarrow> JNull | Some obj \<Rightarrow> JObject obj)")
  case marshal: (Inr cleanBytes)
  show ?thesis
  proof (cases "kv_decode env cleanBytes")
    case (Inr d)
    obtain obj kind where d: "d = (obj, kind)" by fastforce
    let ?m = "case obj of ListObject items \<Rightarrow> record_items env path items [] a | _ \<Rightarrow> record_object env (obj, kind) a"
    have m: "ka_subjectDigests b = ka_subjectDigests a \<and> ka_RecordedDocs b = ka_RecordedDocs a" if "?m = Return (b, q)" for b q
      using that by (auto split: k8s_object.splits dest: record_object_digests record_items_digests)
    from assms marshal Inr d obtain q name where "?m = Return (a', q)" and "r = map_sum (\<lambda>e. e) (\<lambda>recordedImages. (cleanBytes,
        \<lparr>ro_FilePath = path, ro_Kind = (if length kind > 0 then kind else ''UnknownKind''), ro_Name = name, ro_Data = [],
         ro_SubjectKey = subject_key_loop (ka_subjectDigests a')
           (''k8smanifest:'' @ path @ '':'' @ (if length kind > 0 then kind else ''UnknownKind'') @ '':'' @ name) 0,
         ro_RecordedImages = recordedImages\<rparr>)) q"
      unfolding processDoc_def Let_def by (simp only: sum.case prod.case bind_recorded) blast
    with m [of a' q] show ?thesis by (cases q) (auto simp: subject_key_loop_empty)
  qed (use assms marshal in \<open>auto simp: processDoc_def Let_def\<close>)
qed (use assms in \<open>auto simp: processDoc_def Let_def\<close>)

lemma record_doc_plain:
  assumes "record_doc env path doc a = Return a'" and "plain_keys a"
  shows "plain_keys a'"
proof (cases "\<exists>docMap. kv_Unmarshal env doc = Inr (JObject docMap)")
  case True
  then obtain docMap where doc: "kv_Unmarshal env doc = Inr (JObject docMap)" by blast
  with assms(1) obtain b r where b: "processDoc env docMap path a = Return (b, r)"
    and a': "(case r of Inl err \<Rightarrow> b | Inr (cleanBytes, robj) \<Rightarrow>
      b\<lparr>ka_RecordedDocs := ka_RecordedDocs b @ [robj\<lparr>ro_Data := cleanBytes\<rparr>]\<rparr>) = a'"
    by (auto simp: record_doc_def)
  from processDoc_keys [OF b] a' assms(2) show ?thesis by (cases r) (auto simp: plain_keys_def)
next
  case False
  with assms show ?thesis by (auto simp: record_doc_def split: sum.splits json.splits)
qed

lemma record_file_plain: "record_file env wd entry a = Return a' \<Longrightarrow> plain_keys a \<Longrightarrow> plain_keys a'"
  by (auto simp: record_file_def split: if_splits sum.splits option.splits
      elim: foldO_invariant [where P = plain_keys] record_doc_plain)

lemma runRecordClusterInfo_plain: "runRecordClusterInfo env a = (a', e) \<Longrightarrow> plain_keys a \<Longrightarrow> plain_keys a'"
  by (auto simp: runRecordClusterInfo_def Let_def plain_keys_def split: sum.splits if_splits option.splits)

section \<open>Properties\<close>

text \<open>C40. What the Kubernetes attestor removes from a manifest: nothing is left at or under the path of an ephemeral
  field or annotation, and every member at a path that is neither above nor below one of these is kept.\<close>

theorem removeEphemeralFields_exact:
  "(\<forall>q \<in> set (ephemeral_paths a). prefix q p \<longrightarrow> json_at p (removeEphemeralFields a obj) = None) \<and>
   ((\<forall>q \<in> set (ephemeral_paths a). \<not> prefix q p \<and> \<not> prefix p q) \<longrightarrow>
      json_at p (removeEphemeralFields a obj) = json_at p obj)"
  unfolding removeEphemeralFields_paths
  by (intro conjI impI ballI json_at_fold_removed json_at_fold_kept) (auto dest: ephemeral_paths_not_Nil)

definition sample_manifest :: json_object where
  "sample_manifest =
     [(''kind'', JString ''Pod''),
      (''metadata'', JObject [(''name'', JString ''p''), (''uid'', JString ''1''),
         (''annotations'', JObject [(''a'', JNull), (''witness.dev/content-hash'', JString ''h'')])]),
      (''status'', JObject [])]"

theorem removeEphemeralFields_exact_witness:
  "json_at [''metadata'', ''uid''] (removeEphemeralFields k8s_New sample_manifest) = None \<and>
   json_at [''metadata'', ''name''] (removeEphemeralFields k8s_New sample_manifest) = Some (JString ''p'')"
proof
  have uid: "[''metadata'', ''uid''] \<in> set (ephemeral_paths k8s_New)" by code_simp
  from removeEphemeralFields_exact [of k8s_New "[''metadata'', ''uid'']" sample_manifest] uid
  show "json_at [''metadata'', ''uid''] (removeEphemeralFields k8s_New sample_manifest) = None" by blast
  have name: "\<forall>q \<in> set (ephemeral_paths k8s_New). \<not> prefix q [''metadata'', ''name''] \<and> \<not> prefix [''metadata'', ''name''] q"
    by code_simp
  have "json_at [''metadata'', ''name''] sample_manifest = Some (JString ''p'')" by code_simp
  with removeEphemeralFields_exact [of k8s_New "[''metadata'', ''name'']" sample_manifest] name
  show "json_at [''metadata'', ''name''] (removeEphemeralFields k8s_New sample_manifest) = Some (JString ''p'')" by simp
qed

text \<open>The Kubernetes attestor never has a subject: from an attestor without subject digests, which a new one is
  whatever its options, an attestation leads to one without, and every document it records has the plain key of
  its file, kind and name, so that the loop for a key of its own never finds one taken.\<close>

theorem k8s_no_subjects:
  assumes "k8s_Attest env ctx a = Return (a', e)" and "plain_keys a"
  shows "k8s_Subjects a' = [] \<and> plain_keys a'"
proof -
  have "plain_keys a'"
  proof (cases "length (kv_order env (ctx_Products ctx)) = 0")
    case True
    with assms show ?thesis by (simp add: k8s_Attest_def)
  next
    case False
    obtain b f where b: "(if ka_RecordClusterInfo a then runRecordClusterInfo env a else (a, None)) = (b, f)" by fastforce
    then have "plain_keys b" using assms(2) runRecordClusterInfo_plain by (auto split: if_splits)
    then show ?thesis using assms(1) False b
      by (auto simp: k8s_Attest_def Let_def split: option.splits if_splits
          elim: foldO_invariant [where P = plain_keys] record_file_plain)
  qed
  then show ?thesis by (simp add: plain_keys_def k8s_Subjects_def put_all_def)
qed

text \<open>A sample: a product with the manifest above, whose decoded form is a pod with one container.\<close>

definition sample_k8s_env :: k8s_env where
  "sample_k8s_env =
     \<lparr>kv_order = \<lambda>m. m, kv_ReadFile = \<lambda>p. Inr ''d'', kv_Valid = \<lambda>b. True, kv_Unmarshal = \<lambda>b. Inr (JObject sample_manifest),
      kv_Marshal = \<lambda>j. Inr ''c'', kv_yaml_Decode = \<lambda>b. [], kv_show_key = \<lambda>y. [], kv_Marshal_yaml = \<lambda>y. Inr [],
      kv_yaml_Marshal = \<lambda>obj. Inr [], kv_kubectl = \<lambda>args b. Inl (LibError ''kubectl''),
      kv_decode = \<lambda>b. Inr (Workload ''*v1.Pod'' [''img''], ''Pod''), kv_LoadFromFile = \<lambda>p. Inl (LibError ''load''),
      kv_ParseReference = \<lambda>r. Inr r, kv_remote_Get = \<lambda>r. Inr ''sha256:ab''\<rparr>"

definition sample_k8s_ctx :: "unit AttestationContext" where
  "sample_k8s_ctx = (sample_context [])\<lparr>ac_products := [(''m.json'', \<lparr>pr_MimeType = [], pr_Digest = []\<rparr>)]\<rparr>"

definition sample_k8s_result :: k8s_attestor where
  "sample_k8s_result = k8s_New\<lparr>ka_RecordedDocs :=
     [\<lparr>ro_FilePath = ''m.json'', ro_Kind = ''Pod'', ro_Name = ''p'', ro_Data = ''c'', ro_SubjectKey = ''k8smanifest:m.json:Pod:p'',
       ro_RecordedImages = [\<lparr>ri_Reference = ''img'', ri_Digest = [(''sha256'', ''ab'')]\<rparr>]\<rparr>]\<rparr>"

theorem k8s_no_subjects_witness:
  "k8s_Attest sample_k8s_env sample_k8s_ctx k8s_New = Return (sample_k8s_result, None) \<and> k8s_Subjects sample_k8s_result = []"
proof
  have fields: "ka_RecordClusterInfo k8s_New = False" "ka_RecordedDocs k8s_New = []" "ka_subjectDigests k8s_New = []"
    by (simp_all add: k8s_New_def)
  have reads: "kv_ReadFile sample_k8s_env p = Inr ''d''" "kv_Unmarshal sample_k8s_env b = Inr (JObject sample_manifest)"
      "kv_order sample_k8s_env m = m" "kv_Marshal sample_k8s_env j = Inr ''c''"
      "kv_decode sample_k8s_env b = Inr (Workload ''*v1.Pod'' [''img''], ''Pod'')" for p b m j
    by (simp_all add: sample_k8s_env_def)
  have name: "doc_name (removeEphemeralFields k8s_New sample_manifest) = ''p''" by code_simp
  have image: "record_object sample_k8s_env (Workload ''*v1.Pod'' [''img''], ''Pod'') k8s_New =
      Return (k8s_New, Inr [\<lparr>ri_Reference = ''img'', ri_Digest = [(''sha256'', ''ab'')]\<rparr>])" by code_simp
  have final: "final_object sample_k8s_env k8s_New sample_manifest = Some (removeEphemeralFields k8s_New sample_manifest)"
    by (simp add: final_object_def k8s_New_def)
  have kinds: "isJSONorYAML ''m.json''" "to_lower (filepath_Ext ''m.json'') = ''.json''" by code_simp+
  have process: "processDoc sample_k8s_env sample_manifest ''m.json'' k8s_New = Return (k8s_New, Inr (''c'',
      \<lparr>ro_FilePath = ''m.json'', ro_Kind = ''Pod'', ro_Name = ''p'', ro_Data = [], ro_SubjectKey = ''k8smanifest:m.json:Pod:p'',
       ro_RecordedImages = [\<lparr>ri_Reference = ''img'', ri_Digest = [(''sha256'', ''ab'')]\<rparr>]\<rparr>))"
    using image by (simp add: processDoc_def final name fields reads subject_key_loop_empty Let_def)
  have docs: "file_docs sample_k8s_env ''m.json'' ''d'' = Some [''d'']"
    by (simp add: file_docs_def kinds sample_k8s_env_def)
  have products: "ctx_Products sample_k8s_ctx = [(''m.json'', \<lparr>pr_MimeType = [], pr_Digest = []\<rparr>)]"
    by (simp add: ctx_Products_def sample_k8s_ctx_def put_all_def)
  show run: "k8s_Attest sample_k8s_env sample_k8s_ctx k8s_New = Return (sample_k8s_result, None)"
    by (simp add: k8s_Attest_def products reads fields kinds record_file_def docs record_doc_def process sample_k8s_result_def)
  have "plain_keys k8s_New" by (simp add: plain_keys_def k8s_New_def)
  from k8s_no_subjects [OF run this] show "k8s_Subjects sample_k8s_result = []" by simp
qed

text \<open>Images are recorded for the containers of a workload, in order; for a kind of workload whose decoded type
  is not the one the attestor asserts, as for a Deployment of an older API group, it panics.\<close>

theorem recordImages_exact:
  "(\<forall>images. recordImages env (Workload t refs) kind = Return images \<longrightarrow>
      (case workload_type kind of None \<Rightarrow> images = [] | Some t' \<Rightarrow> t' = t \<and> map ri_Reference images = refs)) \<and>
   (\<forall>t'. workload_type kind = Some t' \<longrightarrow> t' \<noteq> t \<longrightarrow> recordImages env (Workload t refs) kind = Panic type_panic)"
proof -
  have ref: "ri_Reference rc = img" if "newRecordedImage env img = Return rc" for img rc
    using that by (auto simp: newRecordedImage_def split: sum.splits if_splits list.splits)
  have "map ri_Reference images = refs" if "mapO (newRecordedImage env) refs = Return images" for images
    using mapO_Return [OF that] by (induction refs images rule: list_all2_induct) (auto dest: ref)
  then show ?thesis by (auto simp: recordImages_def split: option.splits if_splits)
qed

theorem recordImages_exact_witness:
  "recordImages sample_k8s_env (Workload ''*v1beta1.Deployment'' [''img'']) ''Deployment'' = Panic type_panic"
proof -
  have kind: "workload_type ''Deployment'' = Some ''*appsv1.Deployment''" and other: "''*appsv1.Deployment'' \<noteq> ''*v1beta1.Deployment''"
    by (simp_all add: workload_type_def)
  show ?thesis
    by (rule recordImages_exact [THEN conjunct2, THEN spec, THEN mp, OF kind, THEN mp, OF other])
qed

end
