(* ===== verification/Kms_Store.thy ===== *)
theory Kms_Store
  imports Kms Go_Path
begin

text \<open>
  The options of the clients of the key services: \<open>signer/kms/aws/client.go\<close>, \<open>azure/client.go\<close>, \<open>gcp/client.go\<close>
  and \<open>hashivault/options.go\<close>, and how \<open>kms.New\<close> fills them.

  A service registers one object with its options, and every provider holds pointers to these same objects. So
  they are a store here, \<open>kms_store\<close>, that is passed along, and a provider's \<open>Options\<close> map names to services. A
  setter works on a pair of a provider and the store.
\<close>

section \<open>Options\<close>

record awsClientOptions =
  aco_insecureSkipVerify :: bool
  aco_credentialsFile :: string
  aco_configFile :: string
  aco_profile :: string
  aco_verifyRemotely :: bool

definition WithInsecureSkipVerify :: "bool \<Rightarrow> awsClientOptions \<Rightarrow> awsClientOptions" where
  "WithInsecureSkipVerify insecure opts = opts\<lparr>aco_insecureSkipVerify := insecure\<rparr>"
definition aws_WithRemoteVerify :: "bool \<Rightarrow> awsClientOptions \<Rightarrow> awsClientOptions" where
  "aws_WithRemoteVerify remote opts = opts\<lparr>aco_verifyRemotely := remote\<rparr>"
definition aws_WithCredentialsFile :: "string \<Rightarrow> awsClientOptions \<Rightarrow> awsClientOptions" where
  "aws_WithCredentialsFile cred opts = opts\<lparr>aco_credentialsFile := cred\<rparr>"
definition WithConfigFile :: "string \<Rightarrow> awsClientOptions \<Rightarrow> awsClientOptions" where
  "WithConfigFile config opts = opts\<lparr>aco_configFile := config\<rparr>"
definition WithProfile :: "string \<Rightarrow> awsClientOptions \<Rightarrow> awsClientOptions" where
  "WithProfile profile opts = opts\<lparr>aco_profile := profile\<rparr>"

record azureClientOptions =
  zco_verifyRemotely :: bool

definition azure_WithRemoteVerify :: "bool \<Rightarrow> azureClientOptions \<Rightarrow> azureClientOptions" where
  "azure_WithRemoteVerify remote opts = opts\<lparr>zco_verifyRemotely := remote\<rparr>"

text \<open>The type of credentials, unset in a new object.\<close>

datatype credentials_type = Unset | ServiceAccount | AuthorizedUser

record gcpClientOptions =
  gco_credentialsFile :: string
  gco_credType :: credentials_type

definition gcp_WithCredentialsFile :: "string \<Rightarrow> gcpClientOptions \<Rightarrow> gcpClientOptions" where
  "gcp_WithCredentialsFile cred opts = opts\<lparr>gco_credentialsFile := cred\<rparr>"

text \<open>The argument of these two is not used.\<close>

definition WithSACredentialsType :: "bool \<Rightarrow> gcpClientOptions \<Rightarrow> gcpClientOptions" where
  "WithSACredentialsType credType opts = opts\<lparr>gco_credType := ServiceAccount\<rparr>"
definition WithAUCredentialsType :: "bool \<Rightarrow> gcpClientOptions \<Rightarrow> gcpClientOptions" where
  "WithAUCredentialsType credType opts = opts\<lparr>gco_credType := AuthorizedUser\<rparr>"

record hvClientOptions =
  hco_addr :: string
  hco_transitSecretEnginePath :: string
  hco_keyVersion :: int
  hco_keyPath :: string
  hco_authMethod :: string
  hco_tokenPath :: string
  hco_kubernetesSaTokenPath :: string
  hco_role :: string
  hco_kubernetesMountPath :: string

definition WithAddr :: "string \<Rightarrow> hvClientOptions \<Rightarrow> hvClientOptions" where
  "WithAddr addr hco = hco\<lparr>hco_addr := addr\<rparr>"
definition WithTokenFile :: "string \<Rightarrow> hvClientOptions \<Rightarrow> hvClientOptions" where
  "WithTokenFile tokenFile hco = hco\<lparr>hco_tokenPath := tokenFile\<rparr>"
definition WithTransitSecretEnginePath :: "string \<Rightarrow> hvClientOptions \<Rightarrow> hvClientOptions" where
  "WithTransitSecretEnginePath path hco = hco\<lparr>hco_transitSecretEnginePath := path\<rparr>"
definition WithAuthMethod :: "string \<Rightarrow> hvClientOptions \<Rightarrow> hvClientOptions" where
  "WithAuthMethod authMethod hco = hco\<lparr>hco_authMethod := authMethod\<rparr>"
definition WithKubernetesServiceAccountTokenPath :: "string \<Rightarrow> hvClientOptions \<Rightarrow> hvClientOptions" where
  "WithKubernetesServiceAccountTokenPath path hco = hco\<lparr>hco_kubernetesSaTokenPath := path\<rparr>"
definition hv_WithRole :: "string \<Rightarrow> hvClientOptions \<Rightarrow> hvClientOptions" where
  "hv_WithRole role hco = hco\<lparr>hco_role := role\<rparr>"
definition WithKubernetesAuthMountPath :: "string \<Rightarrow> hvClientOptions \<Rightarrow> hvClientOptions" where
  "WithKubernetesAuthMountPath path hco = hco\<lparr>hco_kubernetesMountPath := path\<rparr>"

definition defaultTransitSecretEnginePath :: string where "defaultTransitSecretEnginePath = ''transit''"
definition defaultAuthMethod :: string where "defaultAuthMethod = ''token''"
definition defaultKubernetesSATokenPath :: string where
  "defaultKubernetesSATokenPath = ''/var/run/secrets/kubernetes.io/serviceaccount/token''"
definition defaultKubernetesAuthMountPath :: string where "defaultKubernetesAuthMountPath = ''kubernetes''"

section \<open>The store\<close>

datatype kms_client = AwsClient | AzureClient | GcpClient | HashivaultClient

record kms_store =
  ks_aws :: awsClientOptions
  ks_azure :: azureClientOptions
  ks_gcp :: gcpClientOptions
  ks_hv :: hvClientOptions

type_synonym kms_provider = "kms_client KMSSignerProvider"
type_synonym kms_state = "kms_client SignerProvider \<times> kms_store"

text \<open>The objects that \<open>init\<close> registers.\<close>

definition fresh_store :: kms_store where
  "fresh_store =
     \<lparr>ks_aws = \<lparr>aco_insecureSkipVerify = False, aco_credentialsFile = [], aco_configFile = [], aco_profile = [],
        aco_verifyRemotely = False\<rparr>,
      ks_azure = \<lparr>zco_verifyRemotely = False\<rparr>,
      ks_gcp = \<lparr>gco_credentialsFile = [], gco_credType = Unset\<rparr>,
      ks_hv = \<lparr>hco_addr = [], hco_transitSecretEnginePath = [], hco_keyVersion = 0, hco_keyPath = [], hco_authMethod = [],
        hco_tokenPath = [], hco_kubernetesSaTokenPath = [], hco_role = [], hco_kubernetesMountPath = []\<rparr>\<rparr>"

fun ReferenceScheme :: "kms_client \<Rightarrow> string" where
  "ReferenceScheme AwsClient = ''awskms://''"
| "ReferenceScheme AzureClient = ''azurekms://''"
| "ReferenceScheme GcpClient = ''gcpkms://''"
| "ReferenceScheme HashivaultClient = ''hashivault://''"

fun client_ProviderName :: "kms_client \<Rightarrow> string" where
  "client_ProviderName HashivaultClient = ''kms-hashivault''"
| "client_ProviderName c = ''kms-'' @ trim_suffix (ReferenceScheme c) ''kms://''"

definition not_kms_provider :: gerr where
  "not_kms_provider = Errorf ''provided signer provider is not a kms signer provider'' []"

text \<open>A setter looks the service's object up in the provider's options, by its name.\<close>

definition named_setter ::
  "kms_client \<Rightarrow> string \<Rightarrow> ('v \<Rightarrow> kms_store \<Rightarrow> kms_store) \<Rightarrow> kms_state \<Rightarrow> 'v \<Rightarrow> kms_state \<times> gerr option" where
  "named_setter c complaint with_opt sp v =
     (case fst sp of
        OtherProvider n \<Rightarrow> (sp, Some not_kms_provider)
      | KMSProvider ksp \<Rightarrow>
          if map_of (ksp_Options ksp) (client_ProviderName c) = Some c then ((fst sp, with_opt v (snd sp)), None)
          else (sp, Some (Errorf complaint [])))"

definition aws_setter :: "('v \<Rightarrow> awsClientOptions \<Rightarrow> awsClientOptions) \<Rightarrow> kms_state \<Rightarrow> 'v \<Rightarrow> kms_state \<times> gerr option" where
  "aws_setter with_opt =
     named_setter AwsClient ''failed to get aws client options from aws kms signer provider''
       (\<lambda>v st. st\<lparr>ks_aws := with_opt v (ks_aws st)\<rparr>)"

definition azure_setter :: "('v \<Rightarrow> azureClientOptions \<Rightarrow> azureClientOptions) \<Rightarrow> kms_state \<Rightarrow> 'v \<Rightarrow> kms_state \<times> gerr option" where
  "azure_setter with_opt =
     named_setter AzureClient ''failed to get azure client options from azure kms signer provider''
       (\<lambda>v st. st\<lparr>ks_azure := with_opt v (ks_azure st)\<rparr>)"

definition hv_setter :: "('v \<Rightarrow> hvClientOptions \<Rightarrow> hvClientOptions) \<Rightarrow> kms_state \<Rightarrow> 'v \<Rightarrow> kms_state \<times> gerr option" where
  "hv_setter with_opt =
     named_setter HashivaultClient ''failed to get hashivault client options from kms signer provider''
       (\<lambda>v st. st\<lparr>ks_hv := with_opt v (ks_hv st)\<rparr>)"

text \<open>The setters of GCP look for an object of their type under any name, and return nil when there is none.\<close>

definition gcp_setter :: "('v \<Rightarrow> gcpClientOptions \<Rightarrow> gcpClientOptions) \<Rightarrow> kms_state \<Rightarrow> 'v \<Rightarrow> kms_state \<times> gerr option" where
  "gcp_setter with_opt sp v =
     (case fst sp of
        OtherProvider n \<Rightarrow> (sp, Some not_kms_provider)
      | KMSProvider ksp \<Rightarrow>
          if list_ex (\<lambda>(n, c). c = GcpClient) (ksp_Options ksp)
          then ((fst sp, (snd sp)\<lparr>ks_gcp := with_opt v (ks_gcp (snd sp))\<rparr>), None)
          else ((OtherProvider ''nil'', snd sp), Some (Errorf ''unable to find gcp client options in gcp kms signer provider'' [])))"

definition aws_Init :: "kms_state configurer list" where
  "aws_Init =
     [BoolConfigOption ''remote-verify'' ''verify signature using AWS KMS remote verification. If false, the public key will be pulled from AWS KMS and verification will take place locally''
        True (aws_setter aws_WithRemoteVerify),
      BoolConfigOption ''insecure-skip-verify'' ([CHR ''S''] @ ''kip verification of the server'' @ [CHR 0x27] @ ''s certificate chain and host name'')
        False (aws_setter WithInsecureSkipVerify),
      StringConfigOption ''credentials-file'' ''The shared credentials file to use with the AWS KMS signer provider'' ''''
        (aws_setter aws_WithCredentialsFile),
      StringConfigOption ''config-file'' ''The shared configuration file to use with the AWS KMS signer provider'' ''''
        (aws_setter WithConfigFile),
      StringConfigOption ''profile'' ''The shared configuration profile to use with the AWS KMS signer provider'' ''''
        (aws_setter WithProfile)]"

definition azure_Init :: "kms_state configurer list" where
  "azure_Init =
     [BoolConfigOption ''azure-remote-verify'' ''verify signature using Azure Key Vault remote verification. If false, the public key will be pulled from Azure Key Vault and verification will take place locally''
        True (azure_setter azure_WithRemoteVerify)]"

definition gcp_Init :: "kms_state configurer list" where
  "gcp_Init =
     [StringConfigOption ''credentials-file'' ''The credentials file to use with the GCP KMS signer provider'' ''''
        (gcp_setter gcp_WithCredentialsFile),
      BoolConfigOption ''service-account'' ([CHR ''S''] @ ''et if the credentials file'' @ [CHR 0x27] @ ''s type is a service account'')
        False (gcp_setter WithSACredentialsType),
      BoolConfigOption ''authorized-user'' ([CHR ''S''] @ ''et if the credentials file'' @ [CHR 0x27] @ ''s type is an authorized user'')
        False (gcp_setter WithAUCredentialsType)]"

definition hv_Init :: "kms_state configurer list" where
  "hv_Init =
     [StringConfigOption ''addr'' ''Address of the vault instance to connect to. Defaults to the environment variable VAULT_ADDR if unset''
        '''' (hv_setter WithAddr),
      StringConfigOption ''token-file'' ''File to read the Vault token from for token auth. Token will be read from the environment variable VAULT_TOKEN if unset''
        '''' (hv_setter WithTokenFile),
      StringConfigOption ''transit-secret-engine-path'' ''Path to the Vault Transit secret engine to use''
        defaultTransitSecretEnginePath (hv_setter WithTransitSecretEnginePath),
      StringConfigOption ''auth-method'' ''Method to use to authenticate with Vault. Currently supported methods are token and kubernetes''
        defaultAuthMethod (hv_setter WithAuthMethod),
      StringConfigOption ''kubernetes-service-account-token-path''
        ''Path to the file containing the token for the kubernetes service account when using the kubernetes auth method''
        defaultKubernetesSATokenPath (hv_setter WithKubernetesServiceAccountTokenPath),
      StringConfigOption ''role'' ''Role name to use when authenticating with the kubernetes auth method'' '''' (hv_setter hv_WithRole),
      StringConfigOption ''kubernetes-auth-mount-path'' ''Path where the kubernetes auth endpoint is mounted on the vault server''
        defaultKubernetesAuthMountPath (hv_setter WithKubernetesAuthMountPath)]"

fun client_Init :: "kms_client \<Rightarrow> kms_state configurer list" where
  "client_Init AwsClient = aws_Init"
| "client_Init AzureClient = azure_Init"
| "client_Init GcpClient = gcp_Init"
| "client_Init HashivaultClient = hv_Init"

text \<open>\<open>kms.New\<close> with the store, for the services in the order in which Go visits their map. The provider itself is
  not changed by the setters.\<close>

definition provider_options :: "kms_client list \<Rightarrow> (string, kms_client) gomap" where
  "provider_options clients = fold (\<lambda>c m. AList.update (client_ProviderName c) c m) clients []"

definition store_New ::
  "kms_client list \<Rightarrow> (kms_provider \<Rightarrow> kms_provider) list \<Rightarrow> kms_store \<Rightarrow> kms_provider \<times> kms_store" where
  "store_New clients opts st =
     (let ksp = (fold (\<lambda>opt ksp. opt ksp) opts
            \<lparr>ksp_Reference = [], ksp_KeyVersion = [], ksp_HashFunc = None, ksp_Options = []\<rparr>)
            \<lparr>ksp_Options := provider_options clients\<rparr>;
          allConfigurers = concat (map (\<lambda>(_, c). client_Init c) (ksp_Options ksp))
      in (ksp, snd (fst (SetDefaultVals (KMSProvider ksp, st) allConfigurers))))"

section \<open>The registry of verifiers\<close>

text \<open>\<open>signer/registry.go\<close> keeps a second registry, for providers of verifiers, and \<open>signer/kms\<close> is in both.\<close>

definition NewVerifierProvider ::
  "'o SignerProvider \<Rightarrow> 'o SignerProvider Registry \<Rightarrow> string \<Rightarrow>
     ('o SignerProvider \<Rightarrow> 'o SignerProvider \<times> gerr option) list \<Rightarrow> 'o SignerProvider \<times> gerr option" where
  "NewVerifierProvider zero verifierRegistry name opts = NewEntity zero verifierRegistry name opts"

definition kms_verifier_setter ::
  "(string \<Rightarrow> 'o KMSSignerProvider \<Rightarrow> 'o KMSSignerProvider) \<Rightarrow> 'o SignerProvider \<Rightarrow> string \<Rightarrow>
     'o SignerProvider \<times> gerr option" where
  "kms_verifier_setter with_opt sp v =
     (case sp of
        KMSProvider ksp \<Rightarrow> (KMSProvider (with_opt v ksp), None)
      | OtherProvider n \<Rightarrow> (sp, Some (Errorf ''provided verifier provider is not a kms verifier provider'' [])))"

definition kms_verifier_init :: "'o kms_services \<Rightarrow> 'o SignerProvider Registry \<Rightarrow> 'o SignerProvider Registry" where
  "kms_verifier_init ks verifierRegistry =
     fst (Register verifierRegistry ''kms'' (\<lambda>_. KMSProvider (kms_New ks []))
       [StringConfigOption ''ref'' ''The KMS Reference URI to use for connecting to the KMS service'' ''''
          (kms_verifier_setter WithRef),
        StringConfigOption ''hashType'' ''The hash type used for verifying'' ''sha256'' (kms_verifier_setter WithHash),
        StringConfigOption ''keyVersion'' ''The key version to use for signing'' '''' (kms_verifier_setter WithKeyVersion)])"

text \<open>A provider of either registry has SHA-256 by default, and no reference.\<close>

lemma NewVerifierProvider_kms:
  "\<exists>ksp. NewVerifierProvider zero (kms_verifier_init ks r) ''kms'' [] = (KMSProvider ksp, None) \<and>
     ksp_Reference ksp = '''' \<and> ksp_HashFunc ksp = Some SHA256"
  by (simp add: NewVerifierProvider_def kms_verifier_init_def NewEntity_known Register_def Registry_Entry_def Let_def
      update_conv StringConfigOption_def new_option_def kms_verifier_setter_def WithRef_def WithHash_def
      WithKeyVersion_def)

section \<open>Lemmas\<close>

lemma client_names: "client_ProviderName c = client_ProviderName d \<longleftrightarrow> c = d"
proof -
  have "client_ProviderName AwsClient = ''kms-aws''" "client_ProviderName AzureClient = ''kms-azure''"
    "client_ProviderName GcpClient = ''kms-gcp''" by code_simp+
  then show ?thesis by (cases c; cases d) (simp_all del: client_ProviderName.simps(2-))
qed

lemma provider_options_lookup:
  "map_of (provider_options clients) (client_ProviderName c) = (if c \<in> set clients then Some c else None)"
proof -
  have "map_of (fold (\<lambda>c m. AList.update (client_ProviderName c) c m) clients m) (client_ProviderName c) =
      (if c \<in> set clients then Some c else map_of m (client_ProviderName c))" for m
    by (induction clients arbitrary: m) (auto simp: update_conv' client_names)
  then show ?thesis by (simp add: provider_options_def)
qed

text \<open>The values of the options, those of the services among \<open>clients\<close>, after the defaults.\<close>

fun set_defaults :: "kms_client \<Rightarrow> kms_store \<Rightarrow> kms_store" where
  "set_defaults AwsClient st = st\<lparr>ks_aws := \<lparr>aco_insecureSkipVerify = False, aco_credentialsFile = [], aco_configFile = [],
     aco_profile = [], aco_verifyRemotely = True\<rparr>\<rparr>"
| "set_defaults AzureClient st = st\<lparr>ks_azure := \<lparr>zco_verifyRemotely = True\<rparr>\<rparr>"
| "set_defaults GcpClient st = st\<lparr>ks_gcp := \<lparr>gco_credentialsFile = [], gco_credType = AuthorizedUser\<rparr>\<rparr>"
| "set_defaults HashivaultClient st = st\<lparr>ks_hv := \<lparr>hco_addr = [], hco_transitSecretEnginePath = ''transit'',
     hco_keyVersion = hco_keyVersion (ks_hv st), hco_keyPath = hco_keyPath (ks_hv st), hco_authMethod = ''token'',
     hco_tokenPath = [], hco_kubernetesSaTokenPath = ''/var/run/secrets/kubernetes.io/serviceaccount/token'', hco_role = [],
     hco_kubernetesMountPath = ''kubernetes''\<rparr>\<rparr>"

lemma client_Init_defaults:
  assumes "map_of (ksp_Options ksp) (client_ProviderName c) = Some c"
  shows "SetDefaultVals (KMSProvider ksp, st) (client_Init c) = ((KMSProvider ksp, set_defaults c st), None)"
proof (cases c)
  case AwsClient
  with assms show ?thesis
    by (simp add: aws_Init_def BoolConfigOption_def StringConfigOption_def new_option_def aws_setter_def named_setter_def
        aws_WithRemoteVerify_def WithInsecureSkipVerify_def aws_WithCredentialsFile_def WithConfigFile_def WithProfile_def
        del: client_ProviderName.simps)
next
  case AzureClient
  with assms show ?thesis
    by (simp add: azure_Init_def BoolConfigOption_def new_option_def azure_setter_def named_setter_def azure_WithRemoteVerify_def
        del: client_ProviderName.simps)
next
  case GcpClient
  with assms have "list_ex (\<lambda>(n, c). c = GcpClient) (ksp_Options ksp)"
    by (auto simp: list_ex_iff dest!: map_of_SomeD simp del: client_ProviderName.simps)
  with GcpClient show ?thesis
    by (simp add: gcp_Init_def BoolConfigOption_def StringConfigOption_def new_option_def gcp_setter_def
        gcp_WithCredentialsFile_def WithSACredentialsType_def WithAUCredentialsType_def)
next
  case HashivaultClient
  with assms show ?thesis
    by (simp add: hv_Init_def StringConfigOption_def new_option_def hv_setter_def named_setter_def WithAddr_def WithTokenFile_def
        WithTransitSecretEnginePath_def WithAuthMethod_def WithKubernetesServiceAccountTokenPath_def hv_WithRole_def
        WithKubernetesAuthMountPath_def defaultTransitSecretEnginePath_def defaultAuthMethod_def
        defaultKubernetesSATokenPath_def defaultKubernetesAuthMountPath_def del: client_ProviderName.simps)
qed

lemma all_defaults:
  assumes "\<forall>(n, c) \<in> set ncs. map_of (ksp_Options ksp) (client_ProviderName c) = Some c"
  shows "SetDefaultVals (KMSProvider ksp, st) (concat (map (\<lambda>(_, c). client_Init c) ncs)) =
    ((KMSProvider ksp, fold set_defaults (map snd ncs) st), None)"
  using assms
proof (induction ncs arbitrary: st)
  case (Cons nc ncs)
  obtain n c where nc: "nc = (n, c)" by fastforce
  with Cons.prems have c: "map_of (ksp_Options ksp) (client_ProviderName c) = Some c" by auto
  have "SetDefaultVals (KMSProvider ksp, st) (client_Init c @ rest) =
      SetDefaultVals (KMSProvider ksp, set_defaults c st) rest" for rest
    using client_Init_defaults [OF c, of st] by (simp add: SetDefaultVals_append)
  with Cons nc show ?case by simp
qed simp

lemma set_defaults_commute: "set_defaults c (set_defaults d st) = set_defaults d (set_defaults c st)"
  by (cases c; cases d) simp_all

lemma fold_set_defaults:
  "ks_aws (fold set_defaults cs st) = (if AwsClient \<in> set cs then ks_aws (set_defaults AwsClient st) else ks_aws st)"
  "ks_azure (fold set_defaults cs st) = (if AzureClient \<in> set cs then ks_azure (set_defaults AzureClient st) else ks_azure st)"
  "ks_gcp (fold set_defaults cs st) = (if GcpClient \<in> set cs then ks_gcp (set_defaults GcpClient st) else ks_gcp st)"
  "ks_hv (fold set_defaults cs st) = (if HashivaultClient \<in> set cs then ks_hv (set_defaults HashivaultClient st) else ks_hv st)"
proof -
  have "ks_aws (fold set_defaults cs st) = (if AwsClient \<in> set cs then ks_aws (set_defaults AwsClient st) else ks_aws st) \<and>
      ks_azure (fold set_defaults cs st) = (if AzureClient \<in> set cs then ks_azure (set_defaults AzureClient st) else ks_azure st) \<and>
      ks_gcp (fold set_defaults cs st) = (if GcpClient \<in> set cs then ks_gcp (set_defaults GcpClient st) else ks_gcp st) \<and>
      ks_hv (fold set_defaults cs st) = (if HashivaultClient \<in> set cs then ks_hv (set_defaults HashivaultClient st) else ks_hv st)"
  proof (induction cs arbitrary: st)
    case (Cons c cs)
    then show ?case by (cases c) auto
  qed simp
  then show "ks_aws (fold set_defaults cs st) = (if AwsClient \<in> set cs then ks_aws (set_defaults AwsClient st) else ks_aws st)"
    "ks_azure (fold set_defaults cs st) = (if AzureClient \<in> set cs then ks_azure (set_defaults AzureClient st) else ks_azure st)"
    "ks_gcp (fold set_defaults cs st) = (if GcpClient \<in> set cs then ks_gcp (set_defaults GcpClient st) else ks_gcp st)"
    "ks_hv (fold set_defaults cs st) = (if HashivaultClient \<in> set cs then ks_hv (set_defaults HashivaultClient st) else ks_hv st)"
    by blast+
qed

lemma update_mem: "p \<in> set (AList.update k v al) \<Longrightarrow> p = (k, v) \<or> p \<in> set al"
  by (induction al) (auto split: if_splits)

lemma provider_options_mem: "(n, c) \<in> set (provider_options clients) \<Longrightarrow> n = client_ProviderName c \<and> c \<in> set clients"
proof -
  have "(n, c) \<in> set (fold (\<lambda>c m. AList.update (client_ProviderName c) c m) clients m) \<Longrightarrow>
      (n, c) \<in> set m \<or> (n = client_ProviderName c \<and> c \<in> set clients)" for m
  proof (induction clients arbitrary: m)
    case (Cons d ds)
    then show ?case by (auto dest!: Cons.IH update_mem)
  qed simp
  then show "(n, c) \<in> set (provider_options clients) \<Longrightarrow> n = client_ProviderName c \<and> c \<in> set clients"
    by (force simp: provider_options_def)
qed

section \<open>Properties\<close>

text \<open>What a new KMS provider leaves in the options of the services, whichever order they are visited in: every
  option of a registered service has its default, so remote verification is on for AWS and Azure, and GCP's
  credentials count as those of an authorized user, a default that no flag asks for; other services keep their
  options, and Vault keeps the key version and path of the provider before.\<close>

theorem New_defaults:
  assumes "store_New clients opts st = (ksp, st')"
  shows "ksp_Options ksp = provider_options clients \<and>
    ks_aws st' = (if AwsClient \<in> set clients
      then \<lparr>aco_insecureSkipVerify = False, aco_credentialsFile = [], aco_configFile = [], aco_profile = [], aco_verifyRemotely = True\<rparr>
      else ks_aws st) \<and>
    ks_azure st' = (if AzureClient \<in> set clients then \<lparr>zco_verifyRemotely = True\<rparr> else ks_azure st) \<and>
    ks_gcp st' = (if GcpClient \<in> set clients then \<lparr>gco_credentialsFile = [], gco_credType = AuthorizedUser\<rparr> else ks_gcp st) \<and>
    ks_hv st' = (if HashivaultClient \<in> set clients
      then (ks_hv st)\<lparr>hco_addr := [], hco_transitSecretEnginePath := ''transit'', hco_authMethod := ''token'', hco_tokenPath := [],
        hco_kubernetesSaTokenPath := ''/var/run/secrets/kubernetes.io/serviceaccount/token'', hco_role := [],
        hco_kubernetesMountPath := ''kubernetes''\<rparr>
      else ks_hv st)"
proof -
  let ?os = "provider_options clients"
  have "\<forall>(n, c) \<in> set ?os. map_of ?os (client_ProviderName c) = Some c"
    by (auto simp: provider_options_lookup dest: provider_options_mem simp del: client_ProviderName.simps)
  then have st': "st' = fold set_defaults (map snd ?os) st" and ksp: "ksp_Options ksp = ?os"
    using assms by (auto simp: store_New_def Let_def all_defaults)
  have mem: "c \<in> snd ` set ?os \<longleftrightarrow> c \<in> set clients" for c
  proof
    show "c \<in> snd ` set ?os \<Longrightarrow> c \<in> set clients" by (auto dest: provider_options_mem)
    show "c \<in> set clients \<Longrightarrow> c \<in> snd ` set ?os"
      using provider_options_lookup [of clients c] by (force dest: map_of_SomeD)
  qed
  show ?thesis using ksp by (simp add: st' fold_set_defaults mem)
qed

definition vault_store :: kms_store where
  "vault_store = fresh_store\<lparr>ks_hv := (ks_hv fresh_store)\<lparr>hco_keyVersion := 3\<rparr>\<rparr>"

theorem New_defaults_witness:
  "\<exists>ksp st. store_New [HashivaultClient, GcpClient] [] vault_store = (ksp, st) \<and>
     gco_credType (ks_gcp st) = AuthorizedUser \<and> hco_keyVersion (ks_hv st) = 3"
proof -
  obtain ksp st where new: "store_New [HashivaultClient, GcpClient] [] vault_store = (ksp, st)" by fastforce
  from New_defaults [OF new] have "gco_credType (ks_gcp st) = AuthorizedUser \<and> hco_keyVersion (ks_hv st) = 3"
    by (simp add: vault_store_def)
  with new show ?thesis by blast
qed

text \<open>Providers share their options: local verification, asked for through a first provider, is undone for it as
  well when a second provider is made.\<close>

theorem options_are_shared:
  assumes "store_New clients opts1 st = (ksp1, st1)" and "AwsClient \<in> set clients"
    and "aws_setter aws_WithRemoteVerify (KMSProvider ksp1, st1) False = (sp, e)"
    and "store_New clients opts2 (snd sp) = (ksp2, st2)"
  shows "e = None \<and> \<not> aco_verifyRemotely (ks_aws (snd sp)) \<and> aco_verifyRemotely (ks_aws st2)"
proof -
  have "ksp_Options ksp1 = provider_options clients" using assms(1) by (auto simp: store_New_def Let_def)
  then have "map_of (ksp_Options ksp1) (client_ProviderName AwsClient) = Some AwsClient"
    using assms(2) by (simp only: provider_options_lookup if_True)
  with assms(3) have e: "e = None" and sp: "\<not> aco_verifyRemotely (ks_aws (snd sp))"
    by (auto simp: aws_setter_def named_setter_def aws_WithRemoteVerify_def simp del: client_ProviderName.simps)
  let ?os = "provider_options clients"
  have "\<forall>(n, c) \<in> set ?os. map_of ?os (client_ProviderName c) = Some c"
    by (auto simp: provider_options_lookup dest: provider_options_mem simp del: client_ProviderName.simps)
  then have st2: "st2 = fold set_defaults (map snd ?os) (snd sp)"
    using assms(4) by (auto simp: store_New_def Let_def all_defaults)
  have "AwsClient \<in> set (map snd ?os)" using assms(2) provider_options_lookup [of clients AwsClient] by (force dest: map_of_SomeD)
  with e sp show ?thesis by (simp add: st2 fold_set_defaults)
qed

theorem options_are_shared_witness:
  "\<exists>ksp st. store_New [AwsClient] [] fresh_store = (ksp, st) \<and>
     aco_verifyRemotely (ks_aws (snd (store_New [AwsClient] [] (snd (fst (aws_setter aws_WithRemoteVerify (KMSProvider ksp, st) False))))))"
proof -
  obtain ksp st where new: "store_New [AwsClient] [] fresh_store = (ksp, st)" by fastforce
  obtain sp e where set: "aws_setter aws_WithRemoteVerify (KMSProvider ksp, st) False = (sp, e)" by fastforce
  obtain ksp2 st2 where new2: "store_New [AwsClient] [] (snd sp) = (ksp2, st2)" by fastforce
  from options_are_shared [OF new _ set new2] have "aco_verifyRemotely (ks_aws st2)" by simp
  with new set new2 show ?thesis by auto
qed

end
