(* ===== verification/Kms_Cache.thy ===== *)
theory Kms_Cache
  imports Crypto_Types
begin

text \<open>
  The cache that the clients of the key services keep for one entry: \<open>getCMK\<close> of \<open>signer/kms/aws/client.go\<close>,
  \<open>getKeyBundle\<close> of \<open>azure/client.go\<close> and \<open>getCKV\<close> of \<open>gcp/client.go\<close> are the same loop over package \<open>ttlcache\<close>.
  The package is a parameter, and \<open>ttl_laws\<close> what its documentation says of it. Times are seconds; a use of the
  cache reads the clock once.
\<close>

record ('c, 'v) ttl_cache =
  tc_New :: 'c
  tc_Get :: "'c \<Rightarrow> int \<Rightarrow> 'v option"
  tc_Set :: "'c \<Rightarrow> 'v \<Rightarrow> int \<Rightarrow> int \<Rightarrow> 'c"
  tc_Delete :: "'c \<Rightarrow> 'c"

text \<open>An entry is there until its time is over; with a time of 0 it stays.\<close>

definition ttl_laws :: "('c, 'v) ttl_cache \<Rightarrow> bool" where
  "ttl_laws tc \<longleftrightarrow>
     (\<forall>t. tc_Get tc (tc_New tc) t = None) \<and>
     (\<forall>c v ttl t t'. t \<le> t' \<and> (ttl = 0 \<or> t' < t + ttl) \<longrightarrow> tc_Get tc (tc_Set tc c v ttl t) t' = Some v) \<and>
     (\<forall>c v ttl t t'. 0 < ttl \<and> t + ttl < t' \<longrightarrow> tc_Get tc (tc_Set tc c v ttl t) t' = None) \<and>
     (\<forall>c v ttl t t' u. tc_Get tc (tc_Set tc c v ttl t) t' = Some u \<longrightarrow> u = v) \<and>
     (\<forall>c t. tc_Get tc (tc_Delete tc c) t = None)"

text \<open>A lookup with a loader: what \<open>load\<close> yields is stored unless it is an error.\<close>

definition cached :: "('c, 'v) ttl_cache \<Rightarrow> int \<Rightarrow> int \<Rightarrow> (gerr + 'v) \<Rightarrow> 'c \<Rightarrow> 'c \<times> (gerr + 'v)" where
  "cached tc ttl now load c =
     (case tc_Get tc c now of
        Some v \<Rightarrow> (c, Inr v)
      | None \<Rightarrow>
          (case load of
             Inl err \<Rightarrow> (c, Inl err)
           | Inr v \<Rightarrow> (tc_Set tc c v ttl now, Inr v)))"

text \<open>What the cache holds was loaded, and not longer ago than the time to live. \<open>src\<close> gives what a load yields at
  each time.\<close>

definition cache_fresh :: "('c, 'v) ttl_cache \<Rightarrow> int \<Rightarrow> (int \<Rightarrow> gerr + 'v) \<Rightarrow> int \<Rightarrow> 'c \<Rightarrow> bool" where
  "cache_fresh tc ttl src now c \<longleftrightarrow>
     (\<forall>t \<ge> now. \<forall>v. tc_Get tc c t = Some v \<longrightarrow> (\<exists>t0 \<le> now. (ttl \<noteq> 0 \<longrightarrow> t \<le> t0 + ttl) \<and> src t0 = Inr v))"

lemma cache_fresh_New: "ttl_laws tc \<Longrightarrow> cache_fresh tc ttl src now (tc_New tc)"
  by (simp add: cache_fresh_def ttl_laws_def)

lemma cache_fresh_later: "cache_fresh tc ttl src now c \<Longrightarrow> now \<le> now' \<Longrightarrow> cache_fresh tc ttl src now' c"
  unfolding cache_fresh_def by (meson order_trans)

lemma cache_fresh_Set:
  "ttl_laws tc \<Longrightarrow> 0 \<le> ttl \<Longrightarrow> src now = Inr v \<Longrightarrow> cache_fresh tc ttl src now (tc_Set tc c v ttl now)"
  unfolding cache_fresh_def
proof (intro allI impI exI [of _ now] conjI)
  fix t u
  assume laws: "ttl_laws tc" and ttl: "0 \<le> ttl" and v: "src now = Inr v" and t: "now \<le> t"
    and u: "tc_Get tc (tc_Set tc c v ttl now) t = Some u"
  from laws u have "u = v" by (simp add: ttl_laws_def)
  with v show "src now = Inr u" by simp
  show "ttl \<noteq> 0 \<Longrightarrow> t \<le> now + ttl"
  proof (rule ccontr)
    assume "ttl \<noteq> 0" "\<not> t \<le> now + ttl"
    with laws ttl have "tc_Get tc (tc_Set tc c v ttl now) t = None" by (simp add: ttl_laws_def)
    with u show False by simp
  qed
qed simp

text \<open>A lookup keeps this, and what it returns is no older.\<close>

lemma cached_fresh:
  assumes "ttl_laws tc" and "0 \<le> ttl" and "cache_fresh tc ttl src now c" and "cached tc ttl now (src now) c = (c', r)"
  shows "cache_fresh tc ttl src now c' \<and>
    (\<forall>v. r = Inr v \<longrightarrow> (\<exists>t0 \<le> now. (ttl \<noteq> 0 \<longrightarrow> now \<le> t0 + ttl) \<and> src t0 = Inr v))"
proof (cases "tc_Get tc c now")
  case None
  show ?thesis
  proof (cases "src now")
    case (Inr v)
    with None assms(4) have "c' = tc_Set tc c v ttl now" "r = Inr v" by (simp_all add: cached_def)
    moreover have "cache_fresh tc ttl src now (tc_Set tc c v ttl now)"
      by (rule cache_fresh_Set [of tc, where src = src]) (use assms Inr in auto)
    moreover have "\<exists>t0 \<le> now. (ttl \<noteq> 0 \<longrightarrow> now \<le> t0 + ttl) \<and> src t0 = Inr v" using Inr assms(2) by (intro exI [of _ now]) simp
    ultimately show ?thesis by simp
  qed (use None assms in \<open>auto simp: cached_def\<close>)
next
  case (Some v)
  with assms have "c' = c" "r = Inr v" by (auto simp: cached_def)
  with Some assms(3) show ?thesis by (auto simp: cache_fresh_def)
qed

text \<open>Within the time to live there is no second load.\<close>

lemma cached_again:
  assumes "ttl_laws tc" and "0 < ttl" and "cached tc ttl now load (tc_New tc) = (c, Inr v)" and "now \<le> now'" and "now' < now + ttl"
  shows "cached tc ttl now' load' c = (c, Inr v)"
  using assms by (auto simp: cached_def ttl_laws_def split: option.splits sum.splits)

text \<open>A call whose error is wrapped.\<close>

lemma wrapped_Inr: "(case x of Inl e \<Rightarrow> Inl (f e) | Inr y \<Rightarrow> Inr (g y)) = Inr z \<longleftrightarrow> (\<exists>y. x = Inr y \<and> z = g y)"
  by (cases x) auto

lemma case_Return: "(case x of Inl e \<Rightarrow> Return (f e) | Inr y \<Rightarrow> g y) = Return z \<longleftrightarrow>
    (\<exists>e. x = Inl e \<and> z = f e) \<or> (\<exists>y. x = Inr y \<and> g y = Return z)"
  by (cases x) auto

section \<open>A cache for the samples\<close>

text \<open>The entry with the time it was set at and its time to live.\<close>

definition sample_cache :: "(('v \<times> int \<times> int) option, 'v) ttl_cache" where
  "sample_cache =
     \<lparr>tc_New = None,
      tc_Get = \<lambda>c t. (case c of None \<Rightarrow> None | Some (v, ttl, t0) \<Rightarrow> if ttl = 0 \<or> t < t0 + ttl then Some v else None),
      tc_Set = \<lambda>c v ttl t. Some (v, ttl, t), tc_Delete = \<lambda>c. None\<rparr>"

lemma sample_cache_laws: "ttl_laws sample_cache"
  by (auto simp: ttl_laws_def sample_cache_def split: if_splits)

end
