(* ===== verification/Go_Regexp.thy ===== *)
theory Go_Regexp
  imports Go_Prelude
begin

text \<open>
  Go's regular expressions, as far as the references of the key services need them: concatenation, choice, greedy
  repetition, capturing groups, and anchors at both ends.

  A match is what is left of the text with the captured groups. The matches of an expression are listed in the
  order of preference of package \<open>regexp\<close>: leftmost-first, with repetitions that prefer more. An expression that
  is anchored at its end takes the first match that leaves nothing.
\<close>

section \<open>Expressions and their matches\<close>

datatype regexp =
    REmpty
  | RChar "char \<Rightarrow> bool"
  | RSeq regexp regexp
  | RAlt regexp regexp
  | RStar regexp
  | RGroup nat regexp

type_synonym match = "string \<times> (nat, string) gomap"

definition then_match :: "(string \<Rightarrow> match list) \<Rightarrow> match \<Rightarrow> match list" where
  "then_match m found = map (\<lambda>(rest, caps). (rest, put_all caps (snd found))) (m (fst found))"

text \<open>Repetition, as often as there are characters left: an iteration that takes none is not followed by another.\<close>

primrec star_match :: "nat \<Rightarrow> (string \<Rightarrow> match list) \<Rightarrow> string \<Rightarrow> match list" where
  "star_match 0 m s = [(s, [])]"
| "star_match (Suc n) m s =
     concat (map (\<lambda>found. if length (fst found) < length s then then_match (star_match n m) found else []) (m s)) @ [(s, [])]"

definition char_match :: "(char \<Rightarrow> bool) \<Rightarrow> string \<Rightarrow> match list" where
  "char_match P s = (case s of [] \<Rightarrow> [] | c # cs \<Rightarrow> if P c then [(cs, [])] else [])"

primrec rmatch :: "regexp \<Rightarrow> string \<Rightarrow> match list" where
  "rmatch REmpty s = [(s, [])]"
| "rmatch (RChar P) s = char_match P s"
| "rmatch (RSeq a b) s = concat (map (then_match (rmatch b)) (rmatch a s))"
| "rmatch (RAlt a b) s = rmatch a s @ rmatch b s"
| "rmatch (RStar r) s = star_match (length s) (rmatch r) s"
| "rmatch (RGroup n r) s =
     map (\<lambda>(rest, caps). (rest, AList.update n (take (length s - length rest) s) caps)) (rmatch r s)"

definition RPlus :: "regexp \<Rightarrow> regexp" where "RPlus r = RSeq r (RStar r)"
definition ROpt :: "regexp \<Rightarrow> regexp" where "ROpt r = RAlt r REmpty"
definition RSeqs :: "regexp list \<Rightarrow> regexp" where "RSeqs rs = foldr RSeq rs REmpty"
definition RLit :: "string \<Rightarrow> regexp" where "RLit cs = foldr (\<lambda>c. RSeq (RChar (\<lambda>x. x = c))) cs REmpty"
definition RTimes :: "nat \<Rightarrow> regexp \<Rightarrow> regexp" where "RTimes n r = RSeqs (replicate n r)"

text \<open>\<open>FindStringSubmatch\<close> of an expression that is anchored at both ends, and \<open>MatchString\<close>. A group that took no
  part is the empty string.\<close>

definition full_match :: "regexp \<Rightarrow> string \<Rightarrow> (nat, string) gomap option" where
  "full_match r s = map_option snd (List.find (\<lambda>found. fst found = []) (rmatch r s))"

definition MatchString :: "regexp \<Rightarrow> string \<Rightarrow> bool" where
  "MatchString r s = (full_match r s \<noteq> None)"

definition submatch :: "(nat, string) gomap \<Rightarrow> nat \<Rightarrow> string" where
  "submatch caps n = (case map_of caps n of None \<Rightarrow> [] | Some s \<Rightarrow> s)"

text \<open>Classes of characters.\<close>

definition in_range :: "char \<Rightarrow> char \<Rightarrow> char \<Rightarrow> bool" where
  "in_range lo hi c \<longleftrightarrow> of_char lo \<le> (of_char c :: nat) \<and> of_char c \<le> (of_char hi :: nat)"

definition digit_class :: "char \<Rightarrow> bool" where
  "digit_class c \<longleftrightarrow> in_range (CHR ''0'') (CHR ''9'') c"

definition lower_class :: "char \<Rightarrow> bool" where
  "lower_class c \<longleftrightarrow> in_range (CHR ''a'') (CHR ''z'') c"

definition upper_class :: "char \<Rightarrow> bool" where
  "upper_class c \<longleftrightarrow> in_range (CHR ''A'') (CHR ''Z'') c"

definition word_class :: "char \<Rightarrow> bool" where
  "word_class c \<longleftrightarrow> digit_class c \<or> lower_class c \<or> upper_class c \<or> c = CHR ''_''"

definition no_slash :: "char \<Rightarrow> bool" where "no_slash c \<longleftrightarrow> c \<noteq> CHR ''/''"
definition no_newline :: "char \<Rightarrow> bool" where "no_newline c \<longleftrightarrow> c \<noteq> CHR 0x0A"

section \<open>What matches\<close>

text \<open>A match takes \<open>w\<close> and captures \<open>caps\<close>.\<close>

definition takes :: "regexp \<Rightarrow> string \<Rightarrow> string \<Rightarrow> string \<Rightarrow> (nat, string) gomap \<Rightarrow> bool" where
  "takes r s w rest caps \<longleftrightarrow> s = w @ rest \<and> (rest, caps) \<in> set (rmatch r s)"

text \<open>The groups of an expression: the only ones that its matches capture, each once.\<close>

primrec groups :: "regexp \<Rightarrow> nat set" where
  "groups REmpty = {}"
| "groups (RChar P) = {}"
| "groups (RSeq a b) = groups a \<union> groups b"
| "groups (RAlt a b) = groups a \<union> groups b"
| "groups (RStar r) = groups r"
| "groups (RGroup n r) = insert n (groups r)"

lemma groups_Seqs: "groups (RSeqs rs) = (\<Union>r \<in> set rs. groups r)"
  by (induction rs) (auto simp: RSeqs_def)

lemma groups_simps [simp]:
  "groups (RLit l) = {}" "groups (ROpt r) = groups r" "groups (RPlus r) = groups r" "groups (RTimes (Suc n) r) = groups r"
  by (induction l) (auto simp: RLit_def ROpt_def RPlus_def RTimes_def groups_Seqs)

definition caps_of :: "nat set \<Rightarrow> (nat, string) gomap \<Rightarrow> bool" where
  "caps_of G caps \<longleftrightarrow> gomap_ok caps \<and> fst ` set caps \<subseteq> G"

lemma caps_of_put_all: "caps_of G c1 \<Longrightarrow> caps_of G c2 \<Longrightarrow> caps_of G (put_all c2 c1)"
proof -
  assume c: "caps_of G c1" "caps_of G c2"
  have "fst ` set (put_all c2 c1) = dom (map_of (put_all c2 c1))" by (rule dom_map_of_conv_image_fst [symmetric])
  also have "\<dots> = fst ` set c2 \<union> fst ` set c1" unfolding dom_put_all by (simp add: dom_map_of_conv_image_fst)
  also have "\<dots> \<subseteq> G" using c by (auto simp: caps_of_def)
  finally show ?thesis using c by (simp add: caps_of_def)
qed

lemma caps_of_mono: "caps_of G caps \<Longrightarrow> G \<subseteq> H \<Longrightarrow> caps_of H caps"
  by (auto simp: caps_of_def)

lemma then_match_mem:
  "(rest', caps') \<in> set (then_match m found) \<longleftrightarrow> (\<exists>caps. (rest', caps) \<in> set (m (fst found)) \<and> caps' = put_all caps (snd found))"
  by (auto simp: then_match_def)

lemma star_match_suffix:
  assumes m: "\<And>s rest caps. (rest, caps) \<in> set (m s) \<Longrightarrow> \<exists>w. s = w @ rest"
  shows "(rest, caps) \<in> set (star_match n m s) \<Longrightarrow> \<exists>w. s = w @ rest"
proof (induction n arbitrary: s rest caps)
  case (Suc n)
  show ?case
  proof (cases "(rest, caps) = (s, [])")
    case False
    with Suc.prems obtain mid caps1 caps2 where "(mid, caps1) \<in> set (m s)" "(rest, caps2) \<in> set (star_match n m mid)"
      by (auto simp: then_match_mem split: if_splits)
    with m [of mid caps1 s] Suc.IH [of rest caps2 mid] show ?thesis by auto
  qed simp
qed simp

lemma rmatch_suffix: "(rest, caps) \<in> set (rmatch r s) \<Longrightarrow> \<exists>w. s = w @ rest"
proof (induction r arbitrary: s rest caps)
  case (RChar P)
  then show ?case by (cases s) (auto simp: char_match_def split: if_splits)
next
  case (RSeq a b)
  then obtain mid caps1 caps2 where "(mid, caps1) \<in> set (rmatch a s)" "(rest, caps2) \<in> set (rmatch b mid)"
    by (auto simp: then_match_mem)
  with RSeq.IH(1) [of mid caps1 s] RSeq.IH(2) [of rest caps2 mid] show ?case by auto
next
  case (RStar r)
  show ?case by (rule star_match_suffix [of "rmatch r"]) (use RStar in auto)
qed auto

lemma star_match_caps:
  assumes m: "\<And>s rest caps. (rest, caps) \<in> set (m s) \<Longrightarrow> caps_of G caps"
  shows "(rest, caps) \<in> set (star_match n m s) \<Longrightarrow> caps_of G caps"
proof (induction n arbitrary: s rest caps)
  case (Suc n)
  show ?case
  proof (cases "(rest, caps) = (s, [])")
    case False
    with Suc.prems obtain mid caps1 caps2 where "(mid, caps1) \<in> set (m s)" "(rest, caps2) \<in> set (star_match n m mid)"
      "caps = put_all caps2 caps1" by (auto simp: then_match_mem split: if_splits)
    with m [of mid caps1 s] Suc.IH [of rest caps2 mid] show ?thesis by (simp add: caps_of_put_all)
  qed (simp add: caps_of_def)
qed (simp add: caps_of_def)

lemma rmatch_caps: "(rest, caps) \<in> set (rmatch r s) \<Longrightarrow> caps_of (groups r) caps"
proof (induction r arbitrary: s rest caps)
  case (RChar P)
  then show ?case by (cases s) (auto simp: char_match_def caps_of_def split: if_splits)
next
  case (RSeq a b)
  then obtain mid caps1 caps2 where "(mid, caps1) \<in> set (rmatch a s)" "(rest, caps2) \<in> set (rmatch b mid)"
    and caps: "caps = put_all caps2 caps1" by (auto simp: then_match_mem)
  with RSeq.IH(1) [of mid caps1 s] RSeq.IH(2) [of rest caps2 mid]
  have "caps_of (groups a \<union> groups b) caps1" "caps_of (groups a \<union> groups b) caps2" by (auto elim: caps_of_mono)
  then show ?case using caps by (simp add: caps_of_put_all)
next
  case (RAlt a b)
  then have "caps_of (groups a) caps \<or> caps_of (groups b) caps" by auto
  then show ?case by (auto elim: caps_of_mono)
next
  case (RStar r)
  then show ?case using star_match_caps [of "rmatch r" "groups r"] by auto
next
  case (RGroup n r)
  then obtain caps' w where "(rest, caps') \<in> set (rmatch r s)" and caps: "caps = AList.update n w caps'" by auto
  with RGroup.IH have "caps_of (groups r) caps'" by blast
  then show ?case using caps by (auto simp: caps_of_def dom_update)
qed (simp add: caps_of_def)

lemma takes_caps: "takes r s w rest caps \<Longrightarrow> caps_of (groups r) caps"
  by (auto simp: takes_def intro: rmatch_caps)

lemma takes_no_groups: "takes r s w rest caps \<Longrightarrow> groups r = {} \<Longrightarrow> caps = []"
  using takes_caps [of r s w rest caps] by (simp add: caps_of_def)

lemma rmatch_takes: "(rest, caps) \<in> set (rmatch r s) \<longleftrightarrow> (\<exists>w. takes r s w rest caps)"
  using rmatch_suffix by (fastforce simp: takes_def)

lemma takes_Empty: "takes REmpty s w rest caps \<longleftrightarrow> w = [] \<and> s = rest \<and> caps = []"
  by (auto simp: takes_def)

lemma takes_Char: "takes (RChar P) s w rest caps \<longleftrightarrow> (\<exists>c. P c \<and> w = [c] \<and> s = c # rest \<and> caps = [])"
  by (auto simp: takes_def char_match_def split: list.splits if_splits)

lemma takes_Seq:
  "takes (RSeq a b) s w rest caps \<longleftrightarrow>
     (\<exists>w1 w2 caps1 caps2. w = w1 @ w2 \<and> takes a s w1 (w2 @ rest) caps1 \<and> takes b (w2 @ rest) w2 rest caps2 \<and>
        caps = put_all caps2 caps1)"
proof
  assume "takes (RSeq a b) s w rest caps"
  then obtain mid caps1 caps2 where s: "s = w @ rest" and a: "(mid, caps1) \<in> set (rmatch a s)"
    and b: "(rest, caps2) \<in> set (rmatch b mid)" and caps: "caps = put_all caps2 caps1"
    by (auto simp: takes_def then_match_mem)
  from rmatch_suffix [OF a] obtain w1 where w1: "s = w1 @ mid" by blast
  from rmatch_suffix [OF b] obtain w2 where w2: "mid = w2 @ rest" by blast
  from s w1 w2 have "w = w1 @ w2" by simp
  moreover have "takes a s w1 (w2 @ rest) caps1" using a w1 w2 by (simp add: takes_def)
  moreover have "takes b (w2 @ rest) w2 rest caps2" using b w2 by (simp add: takes_def)
  ultimately show "\<exists>w1 w2 caps1 caps2. w = w1 @ w2 \<and> takes a s w1 (w2 @ rest) caps1 \<and> takes b (w2 @ rest) w2 rest caps2 \<and>
      caps = put_all caps2 caps1" using caps by blast
next
  assume "\<exists>w1 w2 caps1 caps2. w = w1 @ w2 \<and> takes a s w1 (w2 @ rest) caps1 \<and> takes b (w2 @ rest) w2 rest caps2 \<and>
      caps = put_all caps2 caps1"
  then obtain w1 w2 caps1 caps2 where "w = w1 @ w2" and a: "takes a s w1 (w2 @ rest) caps1"
    and b: "takes b (w2 @ rest) w2 rest caps2" and caps: "caps = put_all caps2 caps1" by blast
  then have "s = w @ rest" by (simp add: takes_def)
  moreover have "(rest, caps) \<in> set (then_match (rmatch b) (w2 @ rest, caps1))"
    using b caps by (auto simp: then_match_mem takes_def)
  ultimately show "takes (RSeq a b) s w rest caps" using a by (force simp: takes_def)
qed

lemma takes_Alt: "takes (RAlt a b) s w rest caps \<longleftrightarrow> takes a s w rest caps \<or> takes b s w rest caps"
  by (auto simp: takes_def)

lemma takes_Group:
  "takes (RGroup n r) s w rest caps \<longleftrightarrow> (\<exists>caps'. takes r s w rest caps' \<and> caps = AList.update n w caps')"
proof -
  have "take (length s - length rest') s = w'" if "s = w' @ rest'" for w' rest' using that by simp
  then have "(rest, caps) \<in> set (rmatch (RGroup n r) s) \<longleftrightarrow> (\<exists>caps'. (rest, caps') \<in> set (rmatch r s) \<and> caps = AList.update n w caps')"
    if "s = w @ rest" using that by force
  then show ?thesis by (auto simp: takes_def)
qed

lemma takes_Opt: "takes (ROpt r) s w rest caps \<longleftrightarrow> takes r s w rest caps \<or> (w = [] \<and> s = rest \<and> caps = [])"
  by (simp add: ROpt_def takes_Alt takes_Empty)

lemma takes_text: "takes r s w rest caps \<Longrightarrow> s = w @ rest"
  by (simp add: takes_def)

lemma takes_Lit: "takes (RLit l) s w rest caps \<longleftrightarrow> w = l \<and> s = l @ rest \<and> caps = []"
  unfolding RLit_def
  by (induction l arbitrary: s w caps) (auto simp: takes_Empty takes_Seq takes_Char)

lemma star_match_class:
  "length s \<le> n \<Longrightarrow> (rest, caps) \<in> set (star_match n (char_match P) s) \<longleftrightarrow>
     caps = [] \<and> (\<exists>w. s = w @ rest \<and> list_all P w)"
proof (induction n arbitrary: s rest caps)
  case (Suc n)
  show ?case
  proof (cases s)
    case (Cons c cs)
    with Suc.prems have "length cs \<le> n" by simp
    note IH = Suc.IH [OF this]
    from Cons have "(rest, caps) \<in> set (star_match (Suc n) (char_match P) s) \<longleftrightarrow>
        (P c \<and> (\<exists>w. cs = w @ rest \<and> list_all P w) \<and> caps = []) \<or> (rest = s \<and> caps = [])"
      by (auto simp: then_match_mem char_match_def [of P "c # cs"] IH)
    also have "\<dots> \<longleftrightarrow> caps = [] \<and> (\<exists>w. s = w @ rest \<and> list_all P w)"
      using Cons by (auto simp: Cons_eq_append_conv)
    finally show ?thesis .
  qed (auto simp: char_match_def)
qed auto

lemma takes_Star_Char: "takes (RStar (RChar P)) s w rest caps \<longleftrightarrow> s = w @ rest \<and> list_all P w \<and> caps = []"
proof -
  have "rmatch (RChar P) = char_match P" by (rule ext) simp
  then show ?thesis by (auto simp: takes_def star_match_class)
qed

lemma takes_Plus_Char:
  "takes (RPlus (RChar P)) s w rest caps \<longleftrightarrow> s = w @ rest \<and> w \<noteq> [] \<and> list_all P w \<and> caps = []"
  by (cases w) (auto simp: RPlus_def takes_Seq takes_Char takes_Star_Char)

lemma takes_Times_Char:
  "takes (RTimes n (RChar P)) s w rest caps \<longleftrightarrow> s = w @ rest \<and> length w = n \<and> list_all P w \<and> caps = []"
  unfolding RTimes_def RSeqs_def
  by (induction n arbitrary: s w caps) (auto simp: takes_Empty takes_Seq takes_Char length_Suc_conv)

lemma takes_Seqs_Nil: "takes (RSeqs []) s w rest caps \<longleftrightarrow> w = [] \<and> s = rest \<and> caps = []"
  by (simp add: RSeqs_def takes_Empty)

lemma takes_Seqs_Cons:
  "takes (RSeqs (r # rs)) s w rest caps \<longleftrightarrow>
     (\<exists>w1 w2 caps1 caps2. w = w1 @ w2 \<and> takes r s w1 (w2 @ rest) caps1 \<and> takes (RSeqs rs) (w2 @ rest) w2 rest caps2 \<and>
        caps = put_all caps2 caps1)"
  by (simp add: RSeqs_def takes_Seq)

lemmas takes_simps = takes_Empty takes_Char takes_Alt takes_Group takes_Opt takes_Lit takes_Star_Char takes_Plus_Char
  takes_Times_Char takes_Seqs_Nil takes_Seqs_Cons

lemma full_match_SomeD: "full_match r s = Some caps \<Longrightarrow> takes r s s [] caps"
proof -
  assume "full_match r s = Some caps"
  then obtain found where "List.find (\<lambda>found. fst found = []) (rmatch r s) = Some found" and caps: "caps = snd found"
    by (auto simp: full_match_def)
  then have "found \<in> set (rmatch r s)" "fst found = []" by (auto simp: find_Some_iff)
  with caps show ?thesis by (cases found) (simp add: takes_def)
qed

lemma full_match_None: "full_match r s = None \<longleftrightarrow> (\<forall>caps. \<not> takes r s s [] caps)"
  by (auto simp: full_match_def find_None_iff takes_def)

lemma MatchString_iff: "MatchString r s \<longleftrightarrow> (\<exists>caps. takes r s s [] caps)"
  by (auto simp: MatchString_def full_match_None)

text \<open>When all matches capture the same, that is what is found.\<close>

lemma full_match_unique: "takes r s s [] caps \<Longrightarrow> (\<And>caps'. takes r s s [] caps' \<Longrightarrow> caps' = caps) \<Longrightarrow> full_match r s = Some caps"
  by (metis full_match_None full_match_SomeD not_Some_eq)

lemma slash_split:
  "list_all no_slash a \<Longrightarrow> list_all no_slash b \<Longrightarrow> a @ CHR ''/'' # x = b @ CHR ''/'' # y \<longleftrightarrow> a = b \<and> x = y"
proof (induction a arbitrary: b)
  case Nil
  then show ?case by (cases b) (auto simp: no_slash_def)
next
  case (Cons c a)
  then show ?case by (cases b) (auto simp: no_slash_def)
qed

section \<open>Reading a text part by part\<close>

text \<open>A concatenation matches the whole text, and \<open>f\<close> gives what its groups capture.\<close>

definition reads :: "regexp list \<Rightarrow> string \<Rightarrow> (nat \<Rightarrow> string) \<Rightarrow> bool" where
  "reads rs s f \<longleftrightarrow> (\<exists>caps. takes (RSeqs rs) s s [] caps \<and> f = submatch caps)"

lemma submatch_put_all:
  "gomap_ok c2 \<Longrightarrow> submatch (put_all c2 c1) n = (case map_of c2 n of Some w \<Rightarrow> w | None \<Rightarrow> submatch c1 n)"
  by (simp add: submatch_def map_of_put_all_ok map_add_def split: option.splits)

lemma submatch_Nil: "submatch [] = (\<lambda>n. [])"
  by (simp add: submatch_def fun_eq_iff)

lemma reads_Nil: "reads [] s f \<longleftrightarrow> s = [] \<and> f = (\<lambda>n. [])"
  by (auto simp: reads_def takes_Seqs_Nil submatch_Nil)

lemma reads_plain:
  assumes "groups r = {}"
  shows "reads (r # rs) s f \<longleftrightarrow> (\<exists>w s2 c. s = w @ s2 \<and> takes r s w s2 c \<and> reads rs s2 f)"
proof -
  have sub: "submatch (put_all c2 []) = submatch c2" if "caps_of G c2" for c2 G
    using that by (auto simp: map_of_put_all_ok map_add_def caps_of_def fun_eq_iff submatch_def split: option.splits)
  show ?thesis
  proof
    assume "reads (r # rs) s f"
    then obtain w1 w2 c1 c2 where "s = w1 @ w2" "takes r s w1 w2 c1" "takes (RSeqs rs) w2 w2 [] c2" "f = submatch (put_all c2 c1)"
      by (auto simp: reads_def takes_Seqs_Cons)
    moreover from this have "c1 = []" using takes_no_groups assms by blast
    ultimately show "\<exists>w s2 c. s = w @ s2 \<and> takes r s w s2 c \<and> reads rs s2 f"
      using sub [OF takes_caps [of "RSeqs rs" w2 w2 "[]" c2]] by (auto simp: reads_def)
  next
    assume "\<exists>w s2 c. s = w @ s2 \<and> takes r s w s2 c \<and> reads rs s2 f"
    then obtain w1 w2 c1 c2 where s: "s = w1 @ w2" and r: "takes r s w1 w2 c1" and rs: "takes (RSeqs rs) w2 w2 [] c2" and f: "f = submatch c2"
      by (auto simp: reads_def)
    from r have "c1 = []" using takes_no_groups assms by blast
    with r rs s have "takes (RSeqs (r # rs)) s s [] (put_all c2 [])" unfolding takes_Seqs_Cons by force
    moreover have "f = submatch (put_all c2 [])" using f sub [OF takes_caps [OF rs]] by simp
    ultimately show "reads (r # rs) s f" by (auto simp: reads_def)
  qed
qed

lemma reads_Lit: "reads (RLit l # rs) s f \<longleftrightarrow> (\<exists>s2. s = l @ s2 \<and> reads rs s2 f)"
  by (subst reads_plain) (auto simp: takes_Lit)

lemma reads_Alt_Lits: "reads (RAlt (RLit a) (RLit b) # rs) s f \<longleftrightarrow> (\<exists>s2. (s = a @ s2 \<or> s = b @ s2) \<and> reads rs s2 f)"
  by (subst reads_plain) (auto simp: takes_Lit takes_Alt)

lemma reads_Group:
  assumes "groups r = {}" and "i \<notin> groups (RSeqs rs)"
  shows "reads (RGroup i r # rs) s f \<longleftrightarrow> (\<exists>w s2 c g. s = w @ s2 \<and> takes r s w s2 c \<and> reads rs s2 g \<and> f = g(i := w))"
proof -
  have sub: "submatch (put_all c2 (AList.update i w [])) = (submatch c2)(i := w)" if "caps_of (groups (RSeqs rs)) c2" for c2 w
  proof -
    have "map_of c2 i = None" using that assms(2) by (auto simp: caps_of_def map_of_eq_None_iff)
    with that show ?thesis by (auto simp: map_of_put_all_ok map_add_def caps_of_def fun_eq_iff submatch_def split: option.splits)
  qed
  show ?thesis
  proof
    assume "reads (RGroup i r # rs) s f"
    then obtain w1 w2 c c2 where "s = w1 @ w2" "takes r s w1 w2 c" "takes (RSeqs rs) w2 w2 [] c2" "f = submatch (put_all c2 (AList.update i w1 c))"
      by (auto simp: reads_def takes_Seqs_Cons takes_Group)
    moreover from this have "c = []" using takes_no_groups assms by blast
    ultimately show "\<exists>w s2 c g. s = w @ s2 \<and> takes r s w s2 c \<and> reads rs s2 g \<and> f = g(i := w)"
      using sub [OF takes_caps [of "RSeqs rs" w2 w2 "[]" c2]] unfolding reads_def by blast
  next
    assume "\<exists>w s2 c g. s = w @ s2 \<and> takes r s w s2 c \<and> reads rs s2 g \<and> f = g(i := w)"
    then obtain w1 w2 c c2 where s: "s = w1 @ w2" and r: "takes r s w1 w2 c" and rs: "takes (RSeqs rs) w2 w2 [] c2"
      and f: "f = (submatch c2)(i := w1)" by (auto simp: reads_def)
    from r have "c = []" using takes_no_groups assms by blast
    with r have group: "takes (RGroup i r) s w1 (w2 @ []) (AList.update i w1 [])" by (auto simp: takes_Group)
    from rs have tail: "takes (RSeqs rs) (w2 @ []) w2 [] c2" by simp
    have "takes (RSeqs (RGroup i r # rs)) s s [] (put_all c2 (AList.update i w1 []))"
      by (rule takes_Seqs_Cons [THEN iffD2], intro exI conjI, rule s, rule group, rule tail, rule refl)
    moreover have "f = submatch (put_all c2 (AList.update i w1 []))" using f sub [OF takes_caps [OF rs]] by simp
    ultimately show "reads (RGroup i r # rs) s f" by (auto simp: reads_def)
  qed
qed

lemma reads_Opt_last: "reads [ROpt (RSeqs rs)] s f \<longleftrightarrow> reads rs s f \<or> (s = [] \<and> f = (\<lambda>n. []))"
  by (auto simp: reads_def takes_Seqs_Cons takes_Seqs_Nil takes_Opt submatch_Nil)

lemma full_match_reads: "full_match (RSeqs rs) s = Some caps \<Longrightarrow> reads rs s (submatch caps)"
  by (auto simp: reads_def dest: full_match_SomeD)

lemma reads_full_match: "reads rs s f \<Longrightarrow> \<exists>caps. full_match (RSeqs rs) s = Some caps"
  using full_match_None [of "RSeqs rs" s] by (auto simp: reads_def)

end
