(* ===== verification/Kms_Aws.thy ===== *)
theory Kms_Aws
  imports Kms_Store Kms_Cache Go_Regexp
begin

text \<open>
  The AWS key service: \<open>signer/kms/aws/client.go\<close> and \<open>signer.go\<close>.

  The AWS SDK, the home directory library and the file system are parameters, in \<open>aws_env\<close>; what the service
  answers may depend on the time. The client's state is its cache, the options are read through the store.
\<close>

section \<open>References\<close>

definition hex_class :: "char \<Rightarrow> bool" where
  "hex_class c \<longleftrightarrow> in_range (CHR ''A'') (CHR ''F'') c \<or> in_range (CHR ''a'') (CHR ''f'') c \<or> digit_class c"

definition opt_char :: "char \<Rightarrow> regexp" where "opt_char c = ROpt (RChar (\<lambda>x. x = c))"

definition uuidRE :: regexp where
  "uuidRE = RSeqs [opt_char (CHR ''m''), opt_char (CHR ''r''), opt_char (CHR ''k''), opt_char (CHR ''-''),
     RTimes 8 (RChar hex_class), opt_char (CHR ''-''), RTimes 4 (RChar hex_class), opt_char (CHR ''-''),
     RTimes 4 (RChar hex_class), opt_char (CHR ''-''), RTimes 4 (RChar hex_class), opt_char (CHR ''-''),
     RTimes 12 (RChar hex_class)]"

definition arnRE :: regexp where
  "arnRE = RSeqs [RLit ''arn:'', RAlt (RLit ''aws'') (RAlt (RLit ''aws-us-gov'') (RLit ''aws-cn'')), RLit '':kms:'',
     RPlus (RChar (\<lambda>c. lower_class c \<or> digit_class c \<or> c = CHR ''-'')), RLit '':'', RTimes 12 (RChar digit_class), RLit '':'']"

definition aliasRE :: regexp where
  "aliasRE = RGroup 3 (RSeqs [RLit ''alias/'', RStar (RChar no_newline)])"

text \<open>The part after the host, of \<open>keyIDRE\<close>, \<open>keyARNRE\<close>, \<open>aliasNameRE\<close> and \<open>aliasARNRE\<close>; then the whole expressions.\<close>

definition key_parts :: "regexp list" where
  "key_parts = [uuidRE, RSeqs [arnRE, RLit ''key/'', uuidRE], aliasRE, RSeqs [arnRE, aliasRE]]"

definition aws_RE :: "regexp \<Rightarrow> regexp" where
  "aws_RE part = RSeqs [RLit ''awskms://'', RGroup 1 (RStar (RChar no_slash)), RLit ''/'', RGroup 2 part]"

definition allREs :: "regexp list" where "allREs = map aws_RE key_parts"

definition aws_ValidReference :: "string \<Rightarrow> gerr option" where
  "aws_ValidReference ref =
     (if list_ex (\<lambda>re. MatchString re ref) allREs then None
      else Some (Errorf ''kms specification should be in the format awskms://[ENDPOINT]/[ID/ALIAS/ARN] (endpoint optional)'' []))"

text \<open>The first expression that matches gives the parts; the alias is the third group, where there is one.\<close>

definition aws_ParseReference :: "string \<Rightarrow> gerr + string \<times> string \<times> string" where
  "aws_ParseReference resourceID =
     (case List.map_filter (\<lambda>re. full_match re resourceID) allREs of
        [] \<Rightarrow> Inl (Errorf ''invalid awskms format %q'' [FStr resourceID])
      | v # vs \<Rightarrow> Inr (submatch v 1, submatch v 2, submatch v 3))"

section \<open>The client\<close>

datatype aws_algorithm =
    RsassaPssSha256 | RsassaPssSha384 | RsassaPssSha512
  | RsassaPkcs1V15Sha256 | RsassaPkcs1V15Sha384 | RsassaPkcs1V15Sha512
  | EcdsaSha256 | EcdsaSha384 | EcdsaSha512
  | OtherAlgorithm string

datatype aws_key_spec = Rsa2048 | Rsa3072 | Rsa4096 | EccNistP256 | EccNistP384 | EccNistP521

text \<open>A key: the algorithms of its metadata, \<open>None\<close> for nil metadata, and its public part.\<close>

record cmk =
  cmk_KeyMetadata :: "aws_algorithm list option"
  cmk_PublicKey :: public_key

datatype aws_load_option =
    InsecureHTTPClient
  | SharedCredentialsFiles "string list"
  | SharedConfigFiles "string list"
  | SharedConfigProfile string

text \<open>A client of the SDK: its configuration and its base endpoint.\<close>

type_synonym aws_handle = "string \<times> string option"

record aws_env =
  aws_lib :: crypto_lib
  aws_Expand :: "string \<Rightarrow> gerr + string"
  aws_ReadFile :: "string \<Rightarrow> gerr + bytes"
  aws_LoadDefaultConfig :: "aws_load_option list \<Rightarrow> gerr + string"
  aws_GetPublicKey :: "aws_handle \<Rightarrow> int \<Rightarrow> string \<Rightarrow> gerr + bytes"
  aws_DescribeKey :: "aws_handle \<Rightarrow> int \<Rightarrow> string \<Rightarrow> gerr + aws_algorithm list option"
  aws_call_Sign :: "aws_handle \<Rightarrow> string \<Rightarrow> bytes \<Rightarrow> aws_algorithm \<Rightarrow> gerr + bytes"
  aws_call_Verify :: "aws_handle \<Rightarrow> string \<Rightarrow> bytes \<Rightarrow> aws_algorithm \<Rightarrow> bytes \<Rightarrow> gerr option"

record 'c awsClient =
  awc_client :: aws_handle
  awc_endpoint :: string
  awc_keyID :: string
  awc_alias :: string
  awc_keyCache :: 'c

definition aws_setupClient :: "aws_env \<Rightarrow> kms_store \<Rightarrow> string \<Rightarrow> kms_provider \<Rightarrow> gerr + aws_handle" where
  "aws_setupClient env st endpoint ksp =
     (if \<not> list_ex (\<lambda>(n, c). c = AwsClient) (ksp_Options ksp)
      then Inl (Errorf ''unable to find aws client options in aws kms signer provider'' [])
      else
        (let options = ks_aws st;
             insecure = (if aco_insecureSkipVerify options then [InsecureHTTPClient] else []);
             credentials = (if aco_credentialsFile options \<noteq> []
               then (case aws_Expand env (aco_credentialsFile options) of
                       Inl err \<Rightarrow> Inl (Errorf ''expanding credentials file to full path: %w'' [FErr err])
                     | Inr f \<Rightarrow>
                         (case aws_ReadFile env f of
                            Inl err \<Rightarrow> Inl (Errorf ''error reading credentials file: %w'' [FErr err])
                          | Inr _ \<Rightarrow> Inr [SharedCredentialsFiles [f]]))
               else Inr []);
             config = (if aco_configFile options \<noteq> []
               then (case aws_Expand env (aco_configFile options) of
                       Inl err \<Rightarrow> Inl (Errorf ''expanding credentials file to full path: %w'' [FErr err])
                     | Inr f \<Rightarrow> Inr [SharedConfigFiles [f]])
               else Inr []);
             profile = (if aco_profile options \<noteq> [] then [SharedConfigProfile (aco_profile options)] else [])
         in case credentials of
              Inl err \<Rightarrow> Inl err
            | Inr credentials \<Rightarrow>
                (case config of
                   Inl err \<Rightarrow> Inl err
                 | Inr config \<Rightarrow>
                     (case aws_LoadDefaultConfig env (insecure @ credentials @ config @ profile) of
                        Inl err \<Rightarrow> Inl (Errorf ''loading AWS config: %w'' [FErr err])
                      | Inr cfg \<Rightarrow> Inr (cfg, if endpoint \<noteq> [] then Some (''https://'' @ endpoint) else None)))))"

definition newAWSClient ::
  "aws_env \<Rightarrow> ('c, cmk) ttl_cache \<Rightarrow> kms_store \<Rightarrow> kms_provider \<Rightarrow> gerr + 'c awsClient" where
  "newAWSClient env tc st ksp =
     (case aws_ValidReference (ksp_Reference ksp) of
        Some err \<Rightarrow> Inl err
      | None \<Rightarrow>
          (case aws_ParseReference (ksp_Reference ksp) of
             Inl err \<Rightarrow> Inl err
           | Inr (endpoint, keyID, alias) \<Rightarrow>
               (case aws_setupClient env st endpoint ksp of
                  Inl err \<Rightarrow> Inl err
                | Inr client \<Rightarrow>
                    Inr \<lparr>awc_client = client, awc_endpoint = endpoint, awc_keyID = keyID, awc_alias = alias,
                         awc_keyCache = tc_New tc\<rparr>)))"

definition aws_fetchPublicKey :: "aws_env \<Rightarrow> int \<Rightarrow> 'c awsClient \<Rightarrow> gerr + public_key" where
  "aws_fetchPublicKey env now a =
     (case aws_GetPublicKey env (awc_client a) now (awc_keyID a) of
        Inl err \<Rightarrow> Inl (Errorf ''getting public key: %w'' [FErr err])
      | Inr out \<Rightarrow>
          (case lib_parsePKIX (aws_lib env) out of
             Inl err \<Rightarrow> Inl (Errorf ''parsing public key: %w'' [FErr err])
           | Inr key \<Rightarrow> Inr key))"

definition aws_fetchKeyMetadata :: "aws_env \<Rightarrow> int \<Rightarrow> 'c awsClient \<Rightarrow> gerr + aws_algorithm list option" where
  "aws_fetchKeyMetadata env now a =
     (case aws_DescribeKey env (awc_client a) now (awc_keyID a) of
        Inl err \<Rightarrow> Inl (Errorf ''getting key metadata: %w'' [FErr err])
      | Inr out \<Rightarrow> Inr out)"

definition fetchCMK :: "aws_env \<Rightarrow> int \<Rightarrow> 'c awsClient \<Rightarrow> gerr + cmk" where
  "fetchCMK env now a =
     (case aws_fetchPublicKey env now a of
        Inl err \<Rightarrow> Inl err
      | Inr key \<Rightarrow>
          (case aws_fetchKeyMetadata env now a of
             Inl err \<Rightarrow> Inl err
           | Inr algs \<Rightarrow> Inr \<lparr>cmk_KeyMetadata = algs, cmk_PublicKey = key\<rparr>))"

definition getCMK :: "aws_env \<Rightarrow> ('c, cmk) ttl_cache \<Rightarrow> int \<Rightarrow> 'c awsClient \<Rightarrow> 'c awsClient \<times> (gerr + cmk)" where
  "getCMK env tc now a =
     (case cached tc 300 now (fetchCMK env now a) (awc_keyCache a) of (c, r) \<Rightarrow> (a\<lparr>awc_keyCache := c\<rparr>, r))"

definition index_panic :: string where "index_panic = ''index out of range''"
definition metadata_panic :: string where "metadata_panic = ''nil pointer dereference''"

text \<open>The first algorithm of the key; a key that signs with none makes the code panic.\<close>

definition first_algorithm :: "cmk \<Rightarrow> aws_algorithm outcome" where
  "first_algorithm c =
     (case cmk_KeyMetadata c of
        None \<Rightarrow> Panic metadata_panic
      | Some [] \<Rightarrow> Panic index_panic
      | Some (alg # algs) \<Rightarrow> Return alg)"

fun algorithm_hash :: "aws_algorithm \<Rightarrow> crypto_hash option" where
  "algorithm_hash RsassaPssSha256 = Some SHA256"
| "algorithm_hash RsassaPkcs1V15Sha256 = Some SHA256"
| "algorithm_hash EcdsaSha256 = Some SHA256"
| "algorithm_hash RsassaPssSha384 = Some SHA384"
| "algorithm_hash RsassaPkcs1V15Sha384 = Some SHA384"
| "algorithm_hash EcdsaSha384 = Some SHA384"
| "algorithm_hash RsassaPssSha512 = Some SHA512"
| "algorithm_hash RsassaPkcs1V15Sha512 = Some SHA512"
| "algorithm_hash EcdsaSha512 = Some SHA512"
| "algorithm_hash (OtherAlgorithm a) = None"

definition cmk_HashFunc :: "cmk \<Rightarrow> crypto_hash option outcome" where
  "cmk_HashFunc c = bindO (first_algorithm c) (\<lambda>alg. Return (algorithm_hash alg))"

definition awsSupportedAlgorithms :: "aws_key_spec list" where
  "awsSupportedAlgorithms = [Rsa2048, Rsa3072, Rsa4096, EccNistP256, EccNistP384, EccNistP521]"

definition awsSupportedHashFuncs :: "crypto_hash list" where
  "awsSupportedHashFuncs = [SHA256, SHA384, SHA512]"

text \<open>\<open>ComputeDigest\<close> for a hash that may be the zero hash, which it does not support.\<close>

definition kms_ComputeDigest ::
  "crypto_lib \<Rightarrow> reader \<Rightarrow> crypto_hash option \<Rightarrow> crypto_hash list \<Rightarrow> gerr + bytes" where
  "kms_ComputeDigest lib message hf supported =
     (case hf of
        None \<Rightarrow> Inl (Errorf ''unsupported hash algorithm: %q not in %v'' [FStr ''unknown hash value 0'', FStrs (map hash_string supported)])
      | Some h \<Rightarrow> map_sum (\<lambda>e. e) fst (ComputeDigest lib message h (Some supported)))"

definition aws_getHashFunc ::
  "aws_env \<Rightarrow> ('c, cmk) ttl_cache \<Rightarrow> int \<Rightarrow> 'c awsClient \<Rightarrow> ('c awsClient \<times> (gerr + crypto_hash option)) outcome" where
  "aws_getHashFunc env tc now a =
     (case getCMK env tc now a of
        (a, Inl err) \<Rightarrow> Return (a, Inl err)
      | (a, Inr c) \<Rightarrow> bindO (cmk_HashFunc c) (\<lambda>h. Return (a, Inr h)))"

definition aws_sign ::
  "aws_env \<Rightarrow> ('c, cmk) ttl_cache \<Rightarrow> int \<Rightarrow> 'c awsClient \<Rightarrow> bytes \<Rightarrow> ('c awsClient \<times> (gerr + bytes)) outcome" where
  "aws_sign env tc now a digest =
     (case getCMK env tc now a of
        (a, Inl err) \<Rightarrow> Return (a, Inl err)
      | (a, Inr c) \<Rightarrow>
          bindO (first_algorithm c) (\<lambda>alg. Return
            (a, case aws_call_Sign env (awc_client a) (awc_keyID a) digest alg of
                  Inl err \<Rightarrow> Inl (Errorf ''signing with kms: %w'' [FErr err])
                | Inr sig \<Rightarrow> Inr sig)))"

definition aws_verifyRemotely ::
  "aws_env \<Rightarrow> ('c, cmk) ttl_cache \<Rightarrow> int \<Rightarrow> 'c awsClient \<Rightarrow> bytes \<Rightarrow> reader \<Rightarrow> ('c awsClient \<times> gerr option) outcome" where
  "aws_verifyRemotely env tc now a sig message =
     (case getCMK env tc now a of
        (a, Inl err) \<Rightarrow> Return (a, Some err)
      | (a, Inr c) \<Rightarrow>
          bindO (cmk_HashFunc c) (\<lambda>h.
            case kms_ComputeDigest (aws_lib env) message h awsSupportedHashFuncs of
              Inl err \<Rightarrow> Return (a, Some err)
            | Inr digest \<Rightarrow>
                bindO (first_algorithm c) (\<lambda>alg. Return
                  (a, case aws_call_Verify env (awc_client a) (awc_keyID a) digest alg sig of
                        Some err \<Rightarrow> Some (Errorf ''unable to verify signature: %w'' [FErr err])
                      | None \<Rightarrow> None))))"

definition hash_panic :: string where "hash_panic = ''crypto: requested hash function #0 is unavailable''"

text \<open>Local verification with the zero hash panics where the verifier computes the digest: for RSA and ECDSA keys.\<close>

definition cmk_Verifier :: "cmk \<Rightarrow> crypto_hash option \<Rightarrow> gerr + verifier" where
  "cmk_Verifier c h =
     NewVerifier (ParsedPublic (cmk_PublicKey c)) [cu_VerifyWithHash (case h of None \<Rightarrow> SHA256 | Some h \<Rightarrow> h)]"

definition aws_verifyLocally ::
  "aws_env \<Rightarrow> ('c, cmk) ttl_cache \<Rightarrow> int \<Rightarrow> 'c awsClient \<Rightarrow> bytes \<Rightarrow> reader \<Rightarrow> ('c awsClient \<times> gerr option) outcome" where
  "aws_verifyLocally env tc now a sig message =
     (case getCMK env tc now a of
        (a, Inl err) \<Rightarrow> Return (a, Some err)
      | (a, Inr c) \<Rightarrow>
          bindO (cmk_HashFunc c) (\<lambda>h.
            case cmk_Verifier c h of
              Inl err \<Rightarrow> Return (a, Some err)
            | Inr verifier \<Rightarrow>
                if h = None \<and> (case cmk_PublicKey c of RSA_PublicKey k \<Rightarrow> True | ECDSA_PublicKey k \<Rightarrow> True | _ \<Rightarrow> False)
                then Panic hash_panic
                else Return (a, Verifier_Verify (aws_lib env) verifier message sig)))"

definition aws_verify ::
  "aws_env \<Rightarrow> ('c, cmk) ttl_cache \<Rightarrow> kms_store \<Rightarrow> int \<Rightarrow> 'c awsClient \<Rightarrow> bytes \<Rightarrow> reader \<Rightarrow>
     ('c awsClient \<times> gerr option) outcome" where
  "aws_verify env tc st now a sig message =
     (if aco_verifyRemotely (ks_aws st) then aws_verifyRemotely env tc now a sig message
      else aws_verifyLocally env tc now a sig message)"

section \<open>The signer\<close>

record 'c aws_SignerVerifier =
  asv_reference :: string
  asv_client :: "'c awsClient"
  asv_hashFunc :: crypto_hash

definition aws_LoadSignerVerifier ::
  "aws_env \<Rightarrow> ('c, cmk) ttl_cache \<Rightarrow> kms_store \<Rightarrow> kms_provider \<Rightarrow> gerr + 'c aws_SignerVerifier" where
  "aws_LoadSignerVerifier env tc st ksp =
     (case newAWSClient env tc st ksp of
        Inl err \<Rightarrow> Inl err
      | Inr client \<Rightarrow>
          (case ksp_HashFunc ksp of
             None \<Rightarrow> Inl (Errorf ''unsupported hash function: %v'' [FStr ''unknown hash value 0''])
           | Some h \<Rightarrow>
               if List.member awsSupportedHashFuncs h
               then Inr \<lparr>asv_reference = ksp_Reference ksp, asv_client = client, asv_hashFunc = h\<rparr>
               else Inl (Errorf ''unsupported hash function: %v'' [FStr (hash_string h)])))"

definition aws_KeyID :: "'c aws_SignerVerifier \<Rightarrow> gerr + string" where
  "aws_KeyID sv = Inr (asv_reference sv)"

text \<open>\<open>Sign\<close> looks the key up twice, at \<open>now\<close> for the hash function and at \<open>now'\<close> for the algorithm.\<close>

definition aws_Sign ::
  "aws_env \<Rightarrow> ('c, cmk) ttl_cache \<Rightarrow> int \<Rightarrow> int \<Rightarrow> 'c aws_SignerVerifier \<Rightarrow> reader \<Rightarrow>
     ('c aws_SignerVerifier \<times> (gerr + bytes)) outcome" where
  "aws_Sign env tc now now' sv message =
     bindO (aws_getHashFunc env tc now (asv_client sv)) (\<lambda>(a, r).
       case r of
         Inl err \<Rightarrow> Return (sv\<lparr>asv_client := a\<rparr>, Inl (Errorf ''getting fetching default hash function: %w'' [FErr err]))
       | Inr hf \<Rightarrow>
           (case kms_ComputeDigest (aws_lib env) message hf awsSupportedHashFuncs of
              Inl err \<Rightarrow> Return (sv\<lparr>asv_client := a\<rparr>, Inl err)
            | Inr digest \<Rightarrow>
                bindO (aws_sign env tc now' a digest) (\<lambda>(a, r). Return (sv\<lparr>asv_client := a\<rparr>, r))))"

definition aws_Bytes :: "aws_env \<Rightarrow> int \<Rightarrow> 'c aws_SignerVerifier \<Rightarrow> gerr + bytes" where
  "aws_Bytes env now sv =
     (case aws_fetchPublicKey env now (asv_client sv) of
        Inl err \<Rightarrow> Inl err
      | Inr p \<Rightarrow> PublicPemBytes (aws_lib env) p)"

definition aws_Verify ::
  "aws_env \<Rightarrow> ('c, cmk) ttl_cache \<Rightarrow> kms_store \<Rightarrow> int \<Rightarrow> 'c aws_SignerVerifier \<Rightarrow> reader \<Rightarrow> bytes \<Rightarrow>
     ('c aws_SignerVerifier \<times> gerr option) outcome" where
  "aws_Verify env tc st now sv message sig =
     bindO (aws_verify env tc st now (asv_client sv) sig message) (\<lambda>(a, r). Return (sv\<lparr>asv_client := a\<rparr>, r))"

definition aws_SupportedAlgorithms :: "(aws_key_spec \<Rightarrow> string) \<Rightarrow> string list" where
  "aws_SupportedAlgorithms show_spec = map show_spec awsSupportedAlgorithms"

definition aws_DefaultAlgorithm :: "(aws_key_spec \<Rightarrow> string) \<Rightarrow> string" where
  "aws_DefaultAlgorithm show_spec = show_spec EccNistP256"

section \<open>Lemmas on references\<close>

lemma key_parts_groups: "part \<in> set key_parts \<Longrightarrow> groups part \<subseteq> {3}"
  by (auto simp: key_parts_def uuidRE_def arnRE_def aliasRE_def opt_char_def groups_Seqs numeral_eq_Suc)

text \<open>A reference matches exactly when it is a host and a key, and these are what is captured.\<close>

lemma takes_two_groups:
  "takes (RSeqs [RLit l1, RGroup i r1, RLit l2, RGroup j r2]) s s [] caps \<longleftrightarrow>
     (\<exists>e k c1 c2. s = l1 @ e @ l2 @ k \<and> takes r1 (e @ l2 @ k) e (l2 @ k) c1 \<and> takes r2 k k [] c2 \<and>
        caps = put_all (put_all (put_all (AList.update j k c2) []) (AList.update i e c1)) [])"
  (is "?L = ?R")
proof
  assume ?L
  then show ?R by (simp add: takes_Seqs_Cons takes_Seqs_Nil takes_Lit takes_Group) (elim exE conjE, hypsubst_thin, blast)
next
  assume ?R
  then obtain e k c1 c2 where s: "s = l1 @ e @ l2 @ k" and e: "takes r1 (e @ l2 @ k) e (l2 @ k) c1" and k: "takes r2 k k [] c2"
    and caps: "caps = put_all (put_all (put_all (AList.update j k c2) []) (AList.update i e c1)) []" by blast
  show ?L unfolding takes_Seqs_Cons takes_Seqs_Nil takes_Lit takes_Group
    using s e k caps
    by simp (intro exI [of _ "put_all (put_all (AList.update j k c2) []) (AList.update i e c1)"] conjI, blast, rule refl)
qed

lemma takes_aws_RE:
  "takes (aws_RE part) ref ref [] caps \<longleftrightarrow>
    (\<exists>e k c. list_all no_slash e \<and> ref = ''awskms://'' @ e @ ''/'' @ k \<and> takes part k k [] c \<and>
       caps = put_all (put_all (put_all (AList.update 2 k c) []) [(1, e)]) [])"
  unfolding aws_RE_def takes_two_groups takes_Star_Char by simp blast

lemma aws_caps:
  assumes part: "groups part \<subseteq> {3}" and c: "takes part k k [] c"
  shows "submatch (put_all (put_all (put_all (AList.update 2 k c) []) [(1, e)]) []) 1 = e"
    "submatch (put_all (put_all (put_all (AList.update 2 k c) []) [(1, e)]) []) 2 = k"
proof -
  have ok: "gomap_ok c" and keys: "fst ` set c \<subseteq> {3}"
    using takes_caps [OF c] part by (auto simp: caps_of_def)
  then have one: "map_of c (Suc 0) = None" by (force simp: map_of_eq_None_iff)
  show "submatch (put_all (put_all (put_all (AList.update 2 k c) []) [(1, e)]) []) 1 = e"
    "submatch (put_all (put_all (put_all (AList.update 2 k c) []) [(1, e)]) []) 2 = k"
    using ok one by (simp_all add: submatch_def map_of_put_all_ok update_conv' map_add_def gomap_ok_def [of "[_]"])
qed

text \<open>A key, of one of the four forms.\<close>

definition aws_key :: "string \<Rightarrow> bool" where
  "aws_key k \<longleftrightarrow> list_ex (\<lambda>part. MatchString part k) key_parts"

lemma aws_reference_parts:
  assumes "re \<in> set allREs" and "full_match re ref = Some caps"
  shows "list_all no_slash (submatch caps 1) \<and> aws_key (submatch caps 2) \<and>
    ref = ''awskms://'' @ submatch caps 1 @ ''/'' @ submatch caps 2"
proof -
  from assms(1) obtain part where part: "part \<in> set key_parts" and re: "re = aws_RE part" by (auto simp: allREs_def)
  from full_match_SomeD [OF assms(2)] re have "takes (aws_RE part) ref ref [] caps" by simp
  then obtain e k c where e: "list_all no_slash e"
    and ref: "ref = ''awskms://'' @ e @ ''/'' @ k" and k: "takes part k k [] c"
    and caps: "caps = put_all (put_all (put_all (AList.update 2 k c) []) [(1, e)]) []"
    unfolding takes_aws_RE by blast
  have "submatch caps 1 = e" "submatch caps 2 = k" unfolding caps using aws_caps [OF key_parts_groups [OF part] k] by simp_all
  moreover have "aws_key k" using part k by (auto simp: aws_key_def list_ex_iff MatchString_iff)
  ultimately show ?thesis using e ref by simp
qed

section \<open>Lemmas on the cache\<close>

lemma fetchCMK_client: "awc_client a = awc_client b \<Longrightarrow> awc_keyID a = awc_keyID b \<Longrightarrow> fetchCMK env t a = fetchCMK env t b"
  unfolding fetchCMK_def aws_fetchPublicKey_def aws_fetchKeyMetadata_def by (simp cong: sum.case_cong)

lemma getCMK_client: "getCMK env tc now a = (a', r) \<Longrightarrow> awc_client a' = awc_client a \<and> awc_keyID a' = awc_keyID a"
  by (auto simp: getCMK_def split: prod.splits)

lemma getCMK_fresh:
  assumes "ttl_laws tc" and "cache_fresh tc 300 (\<lambda>t. fetchCMK env t a) now (awc_keyCache a)" and "getCMK env tc now a = (a', r)"
  shows "cache_fresh tc 300 (\<lambda>t. fetchCMK env t a) now (awc_keyCache a') \<and>
    (\<forall>c. r = Inr c \<longrightarrow> (\<exists>t0 \<le> now. now \<le> t0 + 300 \<and> fetchCMK env t0 a = Inr c))"
proof -
  from assms(3) obtain c where c: "cached tc 300 now (fetchCMK env now a) (awc_keyCache a) = (c, r)" and a': "awc_keyCache a' = c"
    by (auto simp: getCMK_def split: prod.splits)
  from cached_fresh [OF assms(1) _ assms(2) c] a' show ?thesis by simp
qed

lemma getCMK_again:
  assumes "ttl_laws tc" and "awc_keyCache a = tc_New tc" and "getCMK env tc now a = (a', Inr c)" and "now \<le> now'" and "now' < now + 300"
  shows "getCMK env tc now' a' = (a', Inr c)"
proof -
  from assms(3) obtain d where d: "cached tc 300 now (fetchCMK env now a) (tc_New tc) = (d, Inr c)" and a': "a' = a\<lparr>awc_keyCache := d\<rparr>"
    using assms(2) by (auto simp: getCMK_def split: prod.splits)
  from cached_again [OF assms(1) _ d assms(4)] assms(5) a' show ?thesis by (simp add: getCMK_def)
qed

lemma kms_ComputeDigest_ok:
  "kms_ComputeDigest lib (Inr msg) hf supported = Inr digest \<longleftrightarrow> (\<exists>h. hf = Some h \<and> h \<in> set supported \<and> digest = lib_hash lib h msg)"
  by (cases hf) (auto simp: kms_ComputeDigest_def ComputeDigest_def isSupportedAlg_def Digest_def)

section \<open>Properties\<close>

text \<open>Which references the AWS provider takes: exactly those with a host without a slash and a key in one of the
  four documented forms, and it finds just this host and this key in them.\<close>

theorem aws_reference_exact:
  "(\<exists>alias. aws_ParseReference ref = Inr (e, k, alias)) \<longleftrightarrow>
     list_all no_slash e \<and> aws_key k \<and> ref = ''awskms://'' @ e @ ''/'' @ k"
proof
  assume "\<exists>alias. aws_ParseReference ref = Inr (e, k, alias)"
  then obtain v vs where found: "List.map_filter (\<lambda>re. full_match re ref) allREs = v # vs" and parts: "e = submatch v 1" "k = submatch v 2"
    by (auto simp: aws_ParseReference_def split: list.splits)
  have "v \<in> set (List.map_filter (\<lambda>re. full_match re ref) allREs)" by (simp add: found)
  then obtain re where "re \<in> set allREs" "full_match re ref = Some v" by (auto simp: map_filter_def)
  from aws_reference_parts [OF this] parts show "list_all no_slash e \<and> aws_key k \<and> ref = ''awskms://'' @ e @ ''/'' @ k" by simp
next
  assume ek: "list_all no_slash e \<and> aws_key k \<and> ref = ''awskms://'' @ e @ ''/'' @ k"
  then obtain part c where part: "part \<in> set key_parts" "takes part k k [] c" by (auto simp: aws_key_def list_ex_iff MatchString_iff)
  with ek have "\<exists>caps. takes (aws_RE part) ref ref [] caps" unfolding takes_aws_RE by blast
  then obtain caps where "full_match (aws_RE part) ref = Some caps" using full_match_None by blast
  with part have "List.map_filter (\<lambda>re. full_match re ref) allREs \<noteq> []"
    by (auto simp: map_filter_def allREs_def filter_empty_conv)
  then obtain v vs where found: "List.map_filter (\<lambda>re. full_match re ref) allREs = v # vs" by (cases "List.map_filter (\<lambda>re. full_match re ref) allREs") auto
  have "v \<in> set (List.map_filter (\<lambda>re. full_match re ref) allREs)" by (simp add: found)
  then obtain re where "re \<in> set allREs" "full_match re ref = Some v" by (auto simp: map_filter_def)
  from aws_reference_parts [OF this] ek
  have "submatch v 1 @ ''/'' @ submatch v 2 = e @ ''/'' @ k" "list_all no_slash (submatch v 1)" by simp_all
  with ek slash_split have "submatch v 1 = e" "submatch v 2 = k" by auto
  then show "\<exists>alias. aws_ParseReference ref = Inr (e, k, alias)" by (auto simp: aws_ParseReference_def found)
qed

text \<open>The key an AWS signature is made with is never old: the algorithm of a signature was read from the service
  within the five minutes before, whatever was signed before, and the cache stays in this state.\<close>

theorem aws_sign_recent_key:
  assumes "ttl_laws tc" and "cache_fresh tc 300 (\<lambda>t. fetchCMK env t a) now (awc_keyCache a)"
    and "aws_sign env tc now a digest = Return (a', Inr sig)"
  shows "(\<exists>t0 c alg. t0 \<le> now \<and> now \<le> t0 + 300 \<and> fetchCMK env t0 a = Inr c \<and> first_algorithm c = Return alg \<and>
      aws_call_Sign env (awc_client a) (awc_keyID a) digest alg = Inr sig) \<and>
    cache_fresh tc 300 (\<lambda>t. fetchCMK env t a') now (awc_keyCache a')"
proof -
  obtain b r where b: "getCMK env tc now a = (b, r)" by fastforce
  with assms(3) obtain c alg where c: "r = Inr c" and alg: "first_algorithm c = Return alg" and a': "a' = b"
    and sig: "aws_call_Sign env (awc_client b) (awc_keyID b) digest alg = Inr sig"
    by (cases r) (auto simp: aws_sign_def wrapped_Inr)
  note fresh = getCMK_fresh [OF assms(1,2) b] and same = getCMK_client [OF b]
  from fresh c obtain t0 where "t0 \<le> now" "now \<le> t0 + 300" "fetchCMK env t0 a = Inr c" by blast
  moreover have "(\<lambda>t. fetchCMK env t a') = (\<lambda>t. fetchCMK env t a)" using a' same by (auto intro: fetchCMK_client)
  ultimately show ?thesis using fresh alg sig same a' by auto
qed

text \<open>C13. What AWS signs it also verifies: for a client with an empty cache and remote verification, when the service
  accepts its own signatures, a signature that \<open>Sign\<close> returns verifies for the same message within five minutes,
  since both compute the digest that belongs to the key's first algorithm.\<close>

theorem aws_sign_then_verify:
  assumes laws: "ttl_laws tc" and new: "awc_keyCache (asv_client sv) = tc_New tc" and remote: "aco_verifyRemotely (ks_aws st)"
    and service: "\<forall>digest alg sig. aws_call_Sign env (awc_client (asv_client sv)) (awc_keyID (asv_client sv)) digest alg = Inr sig \<longrightarrow>
      aws_call_Verify env (awc_client (asv_client sv)) (awc_keyID (asv_client sv)) digest alg sig = None"
    and times: "now \<le> now'" "now' \<le> now''" "now'' < now + 300"
    and signed: "aws_Sign env tc now now' sv (Inr msg) = Return (sv', Inr sig)"
  shows "aws_Verify env tc st now'' sv' (Inr msg) sig = Return (sv', None)"
proof -
  let ?a = "asv_client sv"
  obtain b r where b: "getCMK env tc now ?a = (b, r)" by fastforce
  with signed obtain c where r: "r = Inr c" by (cases r) (auto simp: aws_Sign_def aws_getHashFunc_def)
  note again = getCMK_again [OF laws new b [unfolded r]] and same = getCMK_client [OF b]
  have at: "getCMK env tc now' b = (b, Inr c)" "getCMK env tc now'' b = (b, Inr c)" using again times by auto
  from signed b r at obtain alg where alg: "first_algorithm c = Return alg"
    by (cases "first_algorithm c") (auto simp: aws_Sign_def aws_getHashFunc_def cmk_HashFunc_def)
  with signed b r at obtain h where h: "algorithm_hash alg = Some h" "h \<in> set awsSupportedHashFuncs"
    and sig: "aws_call_Sign env (awc_client b) (awc_keyID b) (lib_hash (aws_lib env) h msg) alg = Inr sig" and sv': "sv' = sv\<lparr>asv_client := b\<rparr>"
    by (auto simp: aws_Sign_def aws_getHashFunc_def cmk_HashFunc_def aws_sign_def kms_ComputeDigest_ok case_Return wrapped_Inr)
  from service sig same have ok: "aws_call_Verify env (awc_client b) (awc_keyID b) (lib_hash (aws_lib env) h msg) alg sig = None" by simp
  have digest: "kms_ComputeDigest (aws_lib env) (Inr msg) (Some h) awsSupportedHashFuncs = Inr (lib_hash (aws_lib env) h msg)"
    using h by (simp add: kms_ComputeDigest_ok)
  show ?thesis using at alg h ok digest remote
    by (simp add: aws_Verify_def aws_verify_def aws_verifyRemotely_def cmk_HashFunc_def sv')
qed

section \<open>Samples\<close>

text \<open>A key whose signature is the digest, read back by the service.\<close>

definition sample_aws_env :: aws_env where
  "sample_aws_env =
     \<lparr>aws_lib = sample_lib, aws_Expand = \<lambda>f. Inr f, aws_ReadFile = \<lambda>f. Inr [], aws_LoadDefaultConfig = \<lambda>opts. Inr ''cfg'',
      aws_GetPublicKey = \<lambda>h t k. Inr ''Ek'', aws_DescribeKey = \<lambda>h t k. Inr (Some [EcdsaSha384]),
      aws_call_Sign = \<lambda>h k digest alg. Inr digest,
      aws_call_Verify = \<lambda>h k digest alg sig. if sig = digest then None else Some (LibError ''signature'')\<rparr>"

definition sample_aws_signer :: "(cmk \<times> int \<times> int) option aws_SignerVerifier" where
  "sample_aws_signer =
     \<lparr>asv_reference = ''awskms:///alias/a'',
      asv_client = \<lparr>awc_client = (''cfg'', None), awc_endpoint = [], awc_keyID = ''alias/a'', awc_alias = ''alias/a'', awc_keyCache = None\<rparr>,
      asv_hashFunc = SHA256\<rparr>"

theorem aws_reference_exact_witness: "\<exists>alias. aws_ParseReference ''awskms://h:4566/alias/a'' = Inr (''h:4566'', ''alias/a'', alias)"
proof (rule aws_reference_exact [THEN iffD2], intro conjI)
  show "list_all no_slash ''h:4566''" by (simp add: no_slash_def)
  have "takes aliasRE ''alias/a'' ''alias/a'' [] (AList.update 3 ''alias/a'' [])"
    unfolding aliasRE_def takes_simps by (auto simp: no_newline_def)
  then show "aws_key ''alias/a''" by (auto simp: aws_key_def key_parts_def MatchString_iff)
  show "''awskms://h:4566/alias/a'' = ''awskms://'' @ ''h:4566'' @ ''/'' @ ''alias/a''" by simp
qed

theorem aws_sign_recent_key_witness:
  "\<exists>a' c. aws_sign sample_aws_env sample_cache 10 (asv_client sample_aws_signer) ''d'' = Return (a', Inr ''d'') \<and>
     fetchCMK sample_aws_env 10 (asv_client sample_aws_signer) = Inr c \<and> first_algorithm c = Return EcdsaSha384"
proof -
  let ?a = "asv_client sample_aws_signer"
  have "returned (aws_sign sample_aws_env sample_cache 10 ?a ''d'') = (?a\<lparr>awc_keyCache :=
      Some (\<lparr>cmk_KeyMetadata = Some [EcdsaSha384], cmk_PublicKey = ECDSA_PublicKey ''k''\<rparr>, 300, 10)\<rparr>, Inr ''d'')"
    and "aws_sign sample_aws_env sample_cache 10 ?a ''d'' \<noteq> Panic s" for s
    by code_simp (simp add: aws_sign_def getCMK_def cached_def sample_cache_def sample_aws_signer_def sample_aws_env_def
        fetchCMK_def aws_fetchPublicKey_def aws_fetchKeyMetadata_def sample_lib_def first_algorithm_def)
  then obtain a' where signed: "aws_sign sample_aws_env sample_cache 10 ?a ''d'' = Return (a', Inr ''d'')"
    by (cases "aws_sign sample_aws_env sample_cache 10 ?a ''d''") auto
  have fresh: "cache_fresh sample_cache 300 (\<lambda>t. fetchCMK sample_aws_env t ?a) 10 (awc_keyCache ?a)"
    using cache_fresh_New [OF sample_cache_laws] by (simp add: sample_aws_signer_def sample_cache_def)
  from aws_sign_recent_key [OF sample_cache_laws fresh signed] obtain t0 c alg where
    c: "fetchCMK sample_aws_env t0 ?a = Inr c" "first_algorithm c = Return alg" by blast
  have "fetchCMK sample_aws_env t0 ?a = Inr \<lparr>cmk_KeyMetadata = Some [EcdsaSha384], cmk_PublicKey = ECDSA_PublicKey ''k''\<rparr>" for t0
    by (simp add: fetchCMK_def aws_fetchPublicKey_def aws_fetchKeyMetadata_def sample_aws_env_def sample_lib_def)
  with c signed show ?thesis by (auto simp: first_algorithm_def)
qed

definition remote_store :: kms_store where
  "remote_store = fresh_store\<lparr>ks_aws := (ks_aws fresh_store)\<lparr>aco_verifyRemotely := True\<rparr>\<rparr>"

theorem aws_sign_then_verify_witness:
  "\<exists>sv'. aws_Sign sample_aws_env sample_cache 10 11 sample_aws_signer (Inr ''m'') = Return (sv', Inr ''m'') \<and>
     aws_Verify sample_aws_env sample_cache remote_store 12 sv' (Inr ''m'') ''m'' = Return (sv', None)"
proof -
  have "case aws_Sign sample_aws_env sample_cache 10 11 sample_aws_signer (Inr ''m'') of
      Return (sv', Inr sig) \<Rightarrow> sig = ''m'' | _ \<Rightarrow> False" by code_simp
  then obtain sv' where signed: "aws_Sign sample_aws_env sample_cache 10 11 sample_aws_signer (Inr ''m'') = Return (sv', Inr ''m'')"
    by (auto split: outcome.splits prod.splits sum.splits)
  have "aws_Verify sample_aws_env sample_cache remote_store 12 sv' (Inr ''m'') ''m'' = Return (sv', None)"
  proof (rule aws_sign_then_verify [OF sample_cache_laws _ _ _ _ _ _ signed])
    show "awc_keyCache (asv_client sample_aws_signer) = tc_New sample_cache" by (simp add: sample_aws_signer_def sample_cache_def)
    show "aco_verifyRemotely (ks_aws remote_store)" by (simp add: remote_store_def)
  qed (simp_all add: sample_aws_env_def)
  with signed show ?thesis by blast
qed

end
