(* ===== verification/Kms_Gcp.thy ===== *)
theory Kms_Gcp
  imports Kms_Store Kms_Cache Go_Regexp "HOL-Library.Word"
begin

unbundle bit_operations_syntax

text \<open>
  The GCP key service: \<open>signer/kms/gcp/client.go\<close> and \<open>signer.go\<close>.

  The GCP client is a parameter, in \<open>gcp_env\<close>; what the service answers may depend on the time. The checksum of
  \<open>hash/crc32\<close> with the Castagnoli polynomial is written out on 32 bits.
\<close>

section \<open>References\<close>

definition path_segment :: regexp where "path_segment = RPlus (RChar no_slash)"

definition gcp_tail :: "regexp list" where
  "gcp_tail =
     [ROpt (RSeqs [RLit ''/'', RAlt (RLit ''cryptoKeyVersions'') (RLit ''versions''), RLit ''/'', RGroup 5 path_segment])]"

definition gcp_RE :: regexp where
  "gcp_RE = RSeqs (RLit ''gcpkms://projects/'' # RGroup 1 path_segment # RLit ''/locations/'' # RGroup 2 path_segment #
     RLit ''/keyRings/'' # RGroup 3 path_segment # RLit ''/cryptoKeys/'' # RGroup 4 path_segment # gcp_tail)"

definition gcp_ValidReference :: "string \<Rightarrow> gerr option" where
  "gcp_ValidReference ref =
     (if \<not> MatchString gcp_RE ref
      then Some (Errorf ''kms specification should be in the format gcpkms://projects/[PROJECT_ID]/locations/[LOCATION]/keyRings/[KEY_RING]/cryptoKeys/[KEY]/cryptoKeyVersions/[VERSION]'' [])
      else None)"

definition gcp_parseReference :: "string \<Rightarrow> gerr + string \<times> string \<times> string \<times> string \<times> string" where
  "gcp_parseReference resourceID =
     (case full_match gcp_RE resourceID of
        None \<Rightarrow> Inl (Errorf ''invalid gcpkms format %q'' [FStr resourceID])
      | Some v \<Rightarrow> Inr (submatch v 1, submatch v 2, submatch v 3, submatch v 4, submatch v 5))"

section \<open>The client\<close>

datatype gcp_algorithm =
    EC_SIGN_P256_SHA256 | EC_SIGN_P384_SHA384
  | RSA_SIGN_PKCS1_2048_SHA256 | RSA_SIGN_PKCS1_3072_SHA256 | RSA_SIGN_PKCS1_4096_SHA256 | RSA_SIGN_PKCS1_4096_SHA512
  | RSA_SIGN_PSS_2048_SHA256 | RSA_SIGN_PSS_3072_SHA256 | RSA_SIGN_PSS_4096_SHA256 | RSA_SIGN_PSS_4096_SHA512
  | OtherVersionAlgorithm string

definition algorithmMap :: "(string, gcp_algorithm) gomap" where
  "algorithmMap =
     [(''ecdsa-p256-sha256'', EC_SIGN_P256_SHA256), (''ecdsa-p384-sha384'', EC_SIGN_P384_SHA384),
      (''rsa-pkcs1v15-2048-sha256'', RSA_SIGN_PKCS1_2048_SHA256), (''rsa-pkcs1v15-3072-sha256'', RSA_SIGN_PKCS1_3072_SHA256),
      (''rsa-pkcs1v15-4096-sha256'', RSA_SIGN_PKCS1_4096_SHA256), (''rsa-pkcs1v15-4096-sha512'', RSA_SIGN_PKCS1_4096_SHA512),
      (''rsa-pss-2048-sha256'', RSA_SIGN_PSS_2048_SHA256), (''rsa-pss-3072-sha256'', RSA_SIGN_PSS_3072_SHA256),
      (''rsa-pss-4096-sha256'', RSA_SIGN_PSS_4096_SHA256), (''rsa-pss-4096-sha512'', RSA_SIGN_PSS_4096_SHA512)]"

record gcp_key_version =
  gkv_Name :: string
  gkv_Algorithm :: gcp_algorithm

record cryptoKeyVersion =
  ckv_CryptoKeyVersion :: gcp_key_version
  ckv_Verifier :: verifier
  ckv_PublicKey :: public_key
  ckv_HashFunc :: crypto_hash

text \<open>A response to a signing request; a checksum may be missing.\<close>

record gcp_signed =
  gs_Signature :: bytes
  gs_VerifiedDigestCrc32C :: bool
  gs_SignatureCrc32C :: "int option"

record gcp_env =
  gcp_lib :: crypto_lib
  gcp_NewClient :: "(credentials_type \<times> string) option \<Rightarrow> gerr + string"
  gcp_asymmetric_sign_key :: "string \<Rightarrow> int \<Rightarrow> string \<Rightarrow> gerr + bool"
  gcp_GetCryptoKeyVersion :: "string \<Rightarrow> int \<Rightarrow> string \<Rightarrow> gerr + gcp_key_version"
  gcp_first_enabled_version :: "string \<Rightarrow> int \<Rightarrow> string \<Rightarrow> gerr + gcp_key_version"
  gcp_GetPublicKey :: "string \<Rightarrow> int \<Rightarrow> string \<Rightarrow> gerr + bytes"
  gcp_AsymmetricSign :: "string \<Rightarrow> string \<Rightarrow> crypto_hash \<Rightarrow> bytes \<Rightarrow> int option \<Rightarrow> gerr + gcp_signed"

record 'c gcpClient =
  gc_projectID :: string
  gc_locationID :: string
  gc_keyRing :: string
  gc_keyName :: string
  gc_version :: string
  gc_kvCache :: 'c
  gc_client :: string

definition newGCPClient ::
  "gcp_env \<Rightarrow> ('c, cryptoKeyVersion) ttl_cache \<Rightarrow> kms_store \<Rightarrow> kms_provider \<Rightarrow> gerr + 'c gcpClient" where
  "newGCPClient env tc st ksp =
     (case gcp_ValidReference (ksp_Reference ksp) of
        Some err \<Rightarrow> Inl err
      | None \<Rightarrow>
          (case gcp_parseReference (ksp_Reference ksp) of
             Inl err \<Rightarrow> Inl err
           | Inr (projectID, locationID, keyRing, keyName, version) \<Rightarrow>
               if \<not> list_ex (\<lambda>(n, c). c = GcpClient) (ksp_Options ksp)
               then Inl (Errorf ''unable to find gcp client options in gcp kms signer provider'' [])
               else
                 (case gcp_NewClient env (if gco_credentialsFile (ks_gcp st) \<noteq> []
                         then Some (gco_credType (ks_gcp st), gco_credentialsFile (ks_gcp st)) else None) of
                    Inl err \<Rightarrow> Inl (Errorf ''new gcp kms client: %w'' [FErr err])
                  | Inr client \<Rightarrow>
                      Inr \<lparr>gc_projectID = projectID, gc_locationID = locationID, gc_keyRing = keyRing, gc_keyName = keyName,
                           gc_version = version, gc_kvCache = tc_New tc, gc_client = client\<rparr>)))"

definition gcp_fetchPublicKey :: "gcp_env \<Rightarrow> int \<Rightarrow> 'c gcpClient \<Rightarrow> string \<Rightarrow> gerr + public_key" where
  "gcp_fetchPublicKey env now g name =
     (case gcp_GetPublicKey env (gc_client g) now name of
        Inl err \<Rightarrow> Inl (Errorf ''public key: %w'' [FErr err])
      | Inr pem \<Rightarrow> UnmarshalPEMToPublicKey (gcp_lib env) pem)"

fun version_hash :: "gcp_algorithm \<Rightarrow> crypto_hash option" where
  "version_hash RSA_SIGN_PKCS1_2048_SHA256 = Some SHA256"
| "version_hash RSA_SIGN_PKCS1_3072_SHA256 = Some SHA256"
| "version_hash EC_SIGN_P256_SHA256 = Some SHA256"
| "version_hash RSA_SIGN_PSS_2048_SHA256 = Some SHA256"
| "version_hash RSA_SIGN_PSS_3072_SHA256 = Some SHA256"
| "version_hash RSA_SIGN_PSS_4096_SHA256 = Some SHA256"
| "version_hash RSA_SIGN_PKCS1_4096_SHA256 = Some SHA256"
| "version_hash EC_SIGN_P384_SHA384 = Some SHA384"
| "version_hash RSA_SIGN_PKCS1_4096_SHA512 = Some SHA512"
| "version_hash RSA_SIGN_PSS_4096_SHA512 = Some SHA512"
| "version_hash (OtherVersionAlgorithm a) = None"

definition gcp_parent :: "'c gcpClient \<Rightarrow> string" where
  "gcp_parent g =
     ''projects/'' @ gc_projectID g @ ''/locations/'' @ gc_locationID g @ ''/keyRings/'' @ gc_keyRing g @ ''/cryptoKeys/'' @ gc_keyName g"

text \<open>The version of the reference, or else the first of the enabled ones, by descending name.\<close>

definition gcp_version :: "gcp_env \<Rightarrow> int \<Rightarrow> 'c gcpClient \<Rightarrow> gerr + gcp_key_version" where
  "gcp_version env now g =
     (if gc_version g \<noteq> []
      then gcp_GetCryptoKeyVersion env (gc_client g) now (gcp_parent g @ ''/cryptoKeyVersions/'' @ gc_version g)
      else (case gcp_first_enabled_version env (gc_client g) now (gcp_parent g) of
              Inl err \<Rightarrow> Inl (Errorf ''unable to find an enabled key version in GCP KMS: %w'' [FErr err])
            | Inr kv \<Rightarrow> Inr kv))"

definition keyVersionName :: "gcp_env \<Rightarrow> int \<Rightarrow> 'c gcpClient \<Rightarrow> gerr + cryptoKeyVersion" where
  "keyVersionName env now g =
     (case gcp_asymmetric_sign_key env (gc_client g) now (gcp_parent g) of
        Inl err \<Rightarrow> Inl err
      | Inr False \<Rightarrow> Inl (Errorf ''specified key cannot be used to sign'' [])
      | Inr True \<Rightarrow>
          (case gcp_version env now g of
             Inl err \<Rightarrow> Inl err
           | Inr kv \<Rightarrow>
               (case gcp_fetchPublicKey env now g (gkv_Name kv) of
                  Inl err \<Rightarrow> Inl (Errorf ''unable to fetch public key while creating signer: %w'' [FErr err])
                | Inr pubKey \<Rightarrow>
                    (case version_hash (gkv_Algorithm kv) of
                       None \<Rightarrow> Inl (Errorf ''unknown algorithm specified by KMS'' [])
                     | Some h \<Rightarrow>
                         (case NewVerifier (ParsedPublic pubKey) [cu_VerifyWithHash h] of
                            Inl err \<Rightarrow> Inl (Errorf ''initializing internal verifier: %w'' [FErr err])
                          | Inr v \<Rightarrow>
                              Inr \<lparr>ckv_CryptoKeyVersion = kv, ckv_Verifier = v, ckv_PublicKey = pubKey, ckv_HashFunc = h\<rparr>)))))"

definition getCKV ::
  "gcp_env \<Rightarrow> ('c, cryptoKeyVersion) ttl_cache \<Rightarrow> int \<Rightarrow> 'c gcpClient \<Rightarrow> 'c gcpClient \<times> (gerr + cryptoKeyVersion)" where
  "getCKV env tc now g =
     (case cached tc (if gc_version g \<noteq> [] then 0 else 300) now (keyVersionName env now g) (gc_kvCache g) of
        (c, r) \<Rightarrow> (g\<lparr>gc_kvCache := c\<rparr>, r))"

definition gcp_Verifier ::
  "gcp_env \<Rightarrow> ('c, cryptoKeyVersion) ttl_cache \<Rightarrow> int \<Rightarrow> 'c gcpClient \<Rightarrow> 'c gcpClient \<times> (gerr + verifier)" where
  "gcp_Verifier env tc now g =
     (case getCKV env tc now g of
        (g, Inl err) \<Rightarrow> (g, Inl (Errorf ''transient error while getting KMS verifier: %w'' [FErr err]))
      | (g, Inr crv) \<Rightarrow> (g, Inr (ckv_Verifier crv)))"

definition gcp_getHashFunc ::
  "gcp_env \<Rightarrow> ('c, cryptoKeyVersion) ttl_cache \<Rightarrow> int \<Rightarrow> 'c gcpClient \<Rightarrow> 'c gcpClient \<times> (gerr + crypto_hash)" where
  "gcp_getHashFunc env tc now g =
     (case getCKV env tc now g of
        (g, Inl err) \<Rightarrow> (g, Inl err)
      | (g, Inr ckv) \<Rightarrow> (g, Inr (ckv_HashFunc ckv)))"

definition gcp_public ::
  "gcp_env \<Rightarrow> ('c, cryptoKeyVersion) ttl_cache \<Rightarrow> int \<Rightarrow> 'c gcpClient \<Rightarrow> 'c gcpClient \<times> (gerr + public_key)" where
  "gcp_public env tc now g =
     (case getCKV env tc now g of
        (g, Inl err) \<Rightarrow> (g, Inl (Errorf ''transient error getting info from KMS: %w'' [FErr err]))
      | (g, Inr crv) \<Rightarrow> (g, Inr (ckv_PublicKey crv)))"

section \<open>Checksums\<close>

text \<open>CRC-32C, bit by bit from the lowest: the polynomial is \<open>0x82F63B78\<close> in reversed order.\<close>

definition crc_bit :: "32 word \<Rightarrow> 32 word" where
  "crc_bit c = (if bit c 0 then drop_bit 1 c XOR 0x82F63B78 else drop_bit 1 c)"

definition crc_byte :: "32 word \<Rightarrow> char \<Rightarrow> 32 word" where
  "crc_byte c b = (crc_bit ^^ 8) (c XOR word_of_nat (of_char b))"

definition crc32c :: "bytes \<Rightarrow> 32 word" where
  "crc32c bs = NOT (foldl crc_byte (NOT 0) bs)"

section \<open>Signing and verifying\<close>

definition checksum_panic :: string where "checksum_panic = ''nil pointer dereference''"

definition gcp_sign ::
  "gcp_env \<Rightarrow> ('c, cryptoKeyVersion) ttl_cache \<Rightarrow> int \<Rightarrow> 'c gcpClient \<Rightarrow> bytes \<Rightarrow> crypto_hash \<Rightarrow> 32 word \<Rightarrow>
     ('c gcpClient \<times> (gerr + bytes)) outcome" where
  "gcp_sign env tc now g digest alg crc =
     (case getCKV env tc now g of
        (g, Inl err) \<Rightarrow> Return (g, Inl err)
      | (g, Inr ckv) \<Rightarrow>
          if alg \<notin> {SHA256, SHA384, SHA512} then Return (g, Inl (Errorf ''unsupported hash function'' []))
          else case gcp_AsymmetricSign env (gc_client g) (gkv_Name (ckv_CryptoKeyVersion ckv)) alg digest
                      (if crc \<noteq> 0 then Some (uint crc) else None) of
                 Inl err \<Rightarrow> Return (g, Inl (Errorf ''calling GCP AsymmetricSign: %w'' [FErr err]))
               | Inr resp \<Rightarrow>
                   if crc \<noteq> 0 \<and> \<not> gs_VerifiedDigestCrc32C resp
                   then Return (g, Inl (Errorf ''AsymmetricSign: request corrupted in-transit'' []))
                   else case gs_SignatureCrc32C resp of
                          None \<Rightarrow> Panic checksum_panic
                        | Some checksum \<Rightarrow>
                            if uint (crc32c (gs_Signature resp)) \<noteq> checksum
                            then Return (g, Inl (Errorf ''AsymmetricSign: response corrupted in-transit'' []))
                            else Return (g, Inr (gs_Signature resp)))"

text \<open>A reader after a verifier has read it: nothing is left of a message.\<close>

definition drained :: "reader \<Rightarrow> reader" where
  "drained r = (case r of Inl err \<Rightarrow> Inl err | Inr msg \<Rightarrow> Inr [])"

text \<open>Verification, at \<open>now\<close>, and again at \<open>now'\<close> with a key that is loaded anew, from what is left of the message.\<close>

definition gcp_verify ::
  "gcp_env \<Rightarrow> ('c, cryptoKeyVersion) ttl_cache \<Rightarrow> int \<Rightarrow> int \<Rightarrow> 'c gcpClient \<Rightarrow> reader \<Rightarrow> bytes \<Rightarrow> 'c gcpClient \<times> gerr option" where
  "gcp_verify env tc now now' g message sig =
     (case getCKV env tc now g of
        (g, Inl err) \<Rightarrow> (g, Some (Errorf ''transient error getting info from KMS: %w'' [FErr err]))
      | (g, Inr crv) \<Rightarrow>
          (case Verifier_Verify (gcp_lib env) (ckv_Verifier crv) message sig of
             None \<Rightarrow> (g, None)
           | Some err \<Rightarrow>
               if gc_version g = []
               then (case getCKV env tc now' (g\<lparr>gc_kvCache := tc_Delete tc (gc_kvCache g)\<rparr>) of
                       (g, Inl err) \<Rightarrow> (g, Some (Errorf ''transient error getting info from KMS: %w'' [FErr err]))
                     | (g, Inr crv) \<Rightarrow> (g, Verifier_Verify (gcp_lib env) (ckv_Verifier crv) (drained message) sig))
               else (g, Some (Errorf ''failed to verify for fixed version: %w'' [FErr err]))))"

section \<open>The signer\<close>

definition gcpSupportedHashFuncs :: "crypto_hash list" where
  "gcpSupportedHashFuncs = [SHA256, SHA512, SHA384]"

record 'c gcp_SignerVerifier =
  gsv_reference :: string
  gsv_client :: "'c gcpClient"
  gsv_hashFunc :: crypto_hash

definition gcp_LoadSignerVerifier ::
  "gcp_env \<Rightarrow> ('c, cryptoKeyVersion) ttl_cache \<Rightarrow> kms_store \<Rightarrow> kms_provider \<Rightarrow> gerr + 'c gcp_SignerVerifier" where
  "gcp_LoadSignerVerifier env tc st ksp =
     (case newGCPClient env tc st ksp of
        Inl err \<Rightarrow> Inl err
      | Inr client \<Rightarrow>
          (case ksp_HashFunc ksp of
             None \<Rightarrow> Inl (Errorf ''unsupported hash function: %v'' [FStr ''unknown hash value 0''])
           | Some h \<Rightarrow>
               if List.member gcpSupportedHashFuncs h
               then Inr \<lparr>gsv_reference = ksp_Reference ksp, gsv_client = client, gsv_hashFunc = h\<rparr>
               else Inl (Errorf ''unsupported hash function: %v'' [FStr (hash_string h)])))"

definition gcp_KeyID :: "'c gcp_SignerVerifier \<Rightarrow> gerr + string" where
  "gcp_KeyID sv = Inr (gsv_reference sv)"

definition gcp_Sign ::
  "gcp_env \<Rightarrow> ('c, cryptoKeyVersion) ttl_cache \<Rightarrow> int \<Rightarrow> int \<Rightarrow> 'c gcp_SignerVerifier \<Rightarrow> reader \<Rightarrow>
     ('c gcp_SignerVerifier \<times> (gerr + bytes)) outcome" where
  "gcp_Sign env tc now now' sv message =
     (case gcp_getHashFunc env tc now (gsv_client sv) of
        (g, Inl err) \<Rightarrow> Return (sv\<lparr>gsv_client := g\<rparr>, Inl (Errorf ''failed to get default hash function: %w'' [FErr err]))
      | (g, Inr hf) \<Rightarrow>
          (case ComputeDigest (gcp_lib env) message hf (Some gcpSupportedHashFuncs) of
             Inl err \<Rightarrow> Return (sv\<lparr>gsv_client := g\<rparr>, Inl err)
           | Inr (digest, h) \<Rightarrow>
               bindO (gcp_sign env tc now' g digest hf (crc32c digest)) (\<lambda>(g, r). Return (sv\<lparr>gsv_client := g\<rparr>, r))))"

definition gcp_PublicKey ::
  "gcp_env \<Rightarrow> ('c, cryptoKeyVersion) ttl_cache \<Rightarrow> int \<Rightarrow> 'c gcp_SignerVerifier \<Rightarrow> 'c gcp_SignerVerifier \<times> (gerr + public_key)" where
  "gcp_PublicKey env tc now sv = (case gcp_public env tc now (gsv_client sv) of (g, r) \<Rightarrow> (sv\<lparr>gsv_client := g\<rparr>, r))"

definition gcp_Bytes ::
  "gcp_env \<Rightarrow> ('c, cryptoKeyVersion) ttl_cache \<Rightarrow> int \<Rightarrow> 'c gcp_SignerVerifier \<Rightarrow> 'c gcp_SignerVerifier \<times> (gerr + bytes)" where
  "gcp_Bytes env tc now sv =
     (case getCKV env tc now (gsv_client sv) of
        (g, Inl err) \<Rightarrow> (sv\<lparr>gsv_client := g\<rparr>, Inl (Errorf ''failed to get KMS key version: %w'' [FErr err]))
      | (g, Inr ckv) \<Rightarrow> (sv\<lparr>gsv_client := g\<rparr>, PublicPemBytes (gcp_lib env) (ckv_PublicKey ckv)))"

definition gcp_Verify ::
  "gcp_env \<Rightarrow> ('c, cryptoKeyVersion) ttl_cache \<Rightarrow> int \<Rightarrow> int \<Rightarrow> 'c gcp_SignerVerifier \<Rightarrow> reader \<Rightarrow> bytes \<Rightarrow>
     'c gcp_SignerVerifier \<times> gerr option" where
  "gcp_Verify env tc now now' sv message sig =
     (case gcp_verify env tc now now' (gsv_client sv) message sig of (g, err) \<Rightarrow> (sv\<lparr>gsv_client := g\<rparr>, err))"

definition gcp_SupportedAlgorithms :: "string list" where
  "gcp_SupportedAlgorithms = map fst algorithmMap"

definition gcp_DefaultAlgorithm :: string where "gcp_DefaultAlgorithm = ''ecdsa-p256-sha256''"

section \<open>Lemmas\<close>

definition segment :: "string \<Rightarrow> bool" where
  "segment s \<longleftrightarrow> s \<noteq> [] \<and> list_all no_slash s"

text \<open>A reference for its parts; without a version it ends with the key.\<close>

definition gcp_reference :: "string \<Rightarrow> string \<Rightarrow> string \<Rightarrow> string \<Rightarrow> string \<Rightarrow> string" where
  "gcp_reference p l r k tail =
     ''gcpkms://projects/'' @ p @ ''/locations/'' @ l @ ''/keyRings/'' @ r @ ''/cryptoKeys/'' @ k @ tail"

definition version_tail :: "string \<Rightarrow> string \<Rightarrow> bool" where
  "version_tail v tail \<longleftrightarrow>
     (v = [] \<and> tail = []) \<or> (segment v \<and> (tail = ''/cryptoKeyVersions/'' @ v \<or> tail = ''/versions/'' @ v))"

lemma groups_path [simp]: "groups path_segment = {}"
  by (simp add: path_segment_def)

lemma groups_gcp_tail: "groups (RSeqs gcp_tail) = {5}"
  by (simp add: gcp_tail_def groups_Seqs)

lemma reads_segment:
  "i \<notin> groups (RSeqs rs) \<Longrightarrow> reads (RGroup i path_segment # rs) s f \<longleftrightarrow>
     (\<exists>w s2 g. s = w @ s2 \<and> segment w \<and> reads rs s2 g \<and> f = g(i := w))"
  by (subst reads_Group) (auto simp: path_segment_def takes_Plus_Char segment_def)

lemma reads_named_segment:
  "i \<notin> groups (RSeqs rs) \<Longrightarrow> reads (RLit l # RGroup i path_segment # rs) s f \<longleftrightarrow>
     (\<exists>w s2 g. s = l @ w @ s2 \<and> segment w \<and> reads rs s2 g \<and> f = g(i := w))"
  unfolding reads_Lit by (auto simp: reads_segment)

lemma reads_version:
  "reads [RLit ''/'', RAlt (RLit ''cryptoKeyVersions'') (RLit ''versions''), RLit ''/'', RGroup 5 path_segment] s f \<longleftrightarrow>
     (\<exists>v. segment v \<and> (s = ''/cryptoKeyVersions/'' @ v \<or> s = ''/versions/'' @ v) \<and> f = (\<lambda>n. [])(5 := v))"
proof -
  have "reads [RGroup 5 path_segment] s f \<longleftrightarrow> segment s \<and> f = (\<lambda>n. [])(5 := s)" for s f
    by (subst reads_segment) (auto simp: groups_Seqs reads_Nil)
  then show ?thesis unfolding reads_Lit reads_Alt_Lits by auto
qed

lemma versions:
  assumes "F [] = z"
  shows "(\<exists>v. P v \<and> (s = a @ v \<or> s = b @ v) \<and> f = F v) \<or> (s = [] \<and> f = z) \<longleftrightarrow>
    (\<exists>v. ((v = [] \<and> s = []) \<or> (P v \<and> (s = a @ v \<or> s = b @ v))) \<and> f = F v)"
  using assms by blast

lemma reads_gcp_tail: "reads gcp_tail s f \<longleftrightarrow> (\<exists>v. version_tail v s \<and> f = (\<lambda>n. [])(5 := v))"
proof -
  have none: "(\<lambda>n. [])(5 := []) = (\<lambda>n. [] :: string)" by (simp add: fun_eq_iff)
  have "reads gcp_tail s f \<longleftrightarrow>
      (\<exists>v. segment v \<and> (s = ''/cryptoKeyVersions/'' @ v \<or> s = ''/versions/'' @ v) \<and> f = (\<lambda>n. [])(5 := v)) \<or> (s = [] \<and> f = (\<lambda>n. []))"
    unfolding gcp_tail_def reads_Opt_last reads_version ..
  also have "\<dots> \<longleftrightarrow> (\<exists>v. version_tail v s \<and> f = (\<lambda>n. [])(5 := v))"
    unfolding version_tail_def by (rule versions) (rule none)
  finally show ?thesis .
qed

lemma gcp_match:
  "full_match gcp_RE ref = Some caps \<Longrightarrow> \<exists>p l r k v tail. segment p \<and> segment l \<and> segment r \<and> segment k \<and> version_tail v tail \<and>
     ref = gcp_reference p l r k tail \<and> submatch caps = (\<lambda>n. [])(5 := v, 4 := k, 3 := r, 2 := l, 1 := p)"
proof -
  assume "full_match gcp_RE ref = Some caps"
  then have "reads (RLit ''gcpkms://projects/'' # RGroup 1 path_segment # RLit ''/locations/'' # RGroup 2 path_segment #
     RLit ''/keyRings/'' # RGroup 3 path_segment # RLit ''/cryptoKeys/'' # RGroup 4 path_segment # gcp_tail) ref (submatch caps)"
    unfolding gcp_RE_def by (rule full_match_reads)
  then obtain p s1 g1 where p: "ref = ''gcpkms://projects/'' @ p @ s1" "segment p" "submatch caps = g1(1 := p)"
    and "reads (RLit ''/locations/'' # RGroup 2 path_segment #
      RLit ''/keyRings/'' # RGroup 3 path_segment # RLit ''/cryptoKeys/'' # RGroup 4 path_segment # gcp_tail) s1 g1"
    by (subst (asm) reads_named_segment) (auto simp: groups_Seqs gcp_tail_def)
  then obtain l s2 g2 where l: "s1 = ''/locations/'' @ l @ s2" "segment l" "g1 = g2(2 := l)"
    and "reads (RLit ''/keyRings/'' # RGroup 3 path_segment # RLit ''/cryptoKeys/'' # RGroup 4 path_segment # gcp_tail) s2 g2"
    by (subst (asm) reads_named_segment) (auto simp: groups_Seqs gcp_tail_def)
  then obtain r s3 g3 where r: "s2 = ''/keyRings/'' @ r @ s3" "segment r" "g2 = g3(3 := r)"
    and "reads (RLit ''/cryptoKeys/'' # RGroup 4 path_segment # gcp_tail) s3 g3"
    by (subst (asm) reads_named_segment) (auto simp: groups_Seqs gcp_tail_def)
  then obtain k s4 g4 where k: "s3 = ''/cryptoKeys/'' @ k @ s4" "segment k" "g3 = g4(4 := k)" and "reads gcp_tail s4 g4"
    by (subst (asm) reads_named_segment) (auto simp: groups_gcp_tail)
  then obtain v where v: "version_tail v s4" "g4 = (\<lambda>n. [])(5 := v)" by (auto simp: reads_gcp_tail)
  show ?thesis
  proof (intro exI conjI)
    show "ref = gcp_reference p l r k s4" unfolding gcp_reference_def p(1) l(1) r(1) k(1) by simp
    show "submatch caps = (\<lambda>n. [])(5 := v, 4 := k, 3 := r, 2 := l, 1 := p)" unfolding p(3) l(3) r(3) k(3) v(2) by simp
  qed (use p l r k v in auto)
qed

lemma gcp_matches:
  assumes "segment p" "segment l" "segment r" "segment k" "version_tail v tail"
  shows "\<exists>caps. full_match gcp_RE (gcp_reference p l r k tail) = Some caps"
proof -
  have "reads gcp_tail tail ((\<lambda>n. [])(5 := v))" using assms by (auto simp: reads_gcp_tail)
  then have "\<exists>f. reads (RLit ''/cryptoKeys/'' # RGroup 4 path_segment # gcp_tail) (''/cryptoKeys/'' @ k @ tail) f"
    using assms by (subst reads_named_segment) (auto simp: groups_gcp_tail)
  then have "\<exists>f. reads (RLit ''/keyRings/'' # RGroup 3 path_segment # RLit ''/cryptoKeys/'' # RGroup 4 path_segment # gcp_tail)
      (''/keyRings/'' @ r @ ''/cryptoKeys/'' @ k @ tail) f"
    using assms by (subst reads_named_segment) (simp add: groups_Seqs gcp_tail_def, blast)
  then have "\<exists>f. reads (RLit ''/locations/'' # RGroup 2 path_segment # RLit ''/keyRings/'' # RGroup 3 path_segment #
      RLit ''/cryptoKeys/'' # RGroup 4 path_segment # gcp_tail) (''/locations/'' @ l @ ''/keyRings/'' @ r @ ''/cryptoKeys/'' @ k @ tail) f"
    using assms by (subst reads_named_segment) (simp add: groups_Seqs gcp_tail_def, blast)
  then have "\<exists>f. reads (RLit ''gcpkms://projects/'' # RGroup 1 path_segment # RLit ''/locations/'' # RGroup 2 path_segment #
      RLit ''/keyRings/'' # RGroup 3 path_segment # RLit ''/cryptoKeys/'' # RGroup 4 path_segment # gcp_tail)
      (gcp_reference p l r k tail) f"
    unfolding gcp_reference_def using assms by (subst reads_named_segment) (simp add: groups_Seqs gcp_tail_def, blast)
  then show ?thesis unfolding gcp_RE_def by (blast intro: reads_full_match)
qed

text \<open>The parts of a reference are determined.\<close>

lemma segment_slash: "segment a \<Longrightarrow> segment b \<Longrightarrow> a @ CHR ''/'' # x = b @ CHR ''/'' # y \<longleftrightarrow> a = b \<and> x = y"
  by (simp add: segment_def slash_split)

lemma segment_no_slash: "segment a \<Longrightarrow> CHR ''/'' \<notin> set a"
  by (auto simp: segment_def list_all_iff no_slash_def)

lemma version_tail_cases:
  "version_tail v tail \<Longrightarrow> (v = [] \<and> tail = []) \<or> (segment v \<and> (\<exists>t. tail = CHR ''/'' # t \<and> (t = ''cryptoKeyVersions/'' @ v \<or> t = ''versions/'' @ v)))"
  by (auto simp: version_tail_def)

lemma key_and_tail:
  assumes "segment k" "segment k'" "version_tail v tail" "version_tail v' tail'" "k @ tail = k' @ tail'"
  shows "k = k' \<and> v = v'"
proof (cases tail)
  case Nil
  with assms(3) have v: "v = []" by (auto simp: version_tail_def segment_def)
  show ?thesis
  proof (cases tail')
    case Nil
    with assms(4) have "v' = []" by (auto simp: version_tail_def segment_def)
    with v assms(5) Nil \<open>tail = []\<close> show ?thesis by simp
  next
    case (Cons c t)
    with assms(4) have "c = CHR ''/''" by (auto simp: version_tail_def)
    with assms(5) Cons \<open>tail = []\<close> have "CHR ''/'' \<in> set k" by simp
    with segment_no_slash [OF assms(1)] show ?thesis by simp
  qed
next
  case (Cons c t)
  with assms(3) have c: "c = CHR ''/''" and t: "t = ''cryptoKeyVersions/'' @ v \<or> t = ''versions/'' @ v"
    by (auto simp: version_tail_def)
  show ?thesis
  proof (cases tail')
    case Nil
    with assms(5) Cons c have "CHR ''/'' \<in> set k'" by (metis append_Nil2 in_set_conv_decomp)
    with segment_no_slash [OF assms(2)] show ?thesis by simp
  next
    case (Cons c' t')
    with assms(4) have c': "c' = CHR ''/''" and t': "t' = ''cryptoKeyVersions/'' @ v' \<or> t' = ''versions/'' @ v'"
      by (auto simp: version_tail_def)
    from assms(5) Cons \<open>tail = c # t\<close> c c' segment_slash [OF assms(1,2)] have "k = k'" "t = t'" by simp_all
    with t t' show ?thesis by auto
  qed
qed

lemma gcp_reference_parts:
  assumes "gcp_reference p l r k tail = gcp_reference p' l' r' k' tail'"
    and "segment p" "segment l" "segment r" "segment p'" "segment l'" "segment r'"
  shows "p = p' \<and> l = l' \<and> r = r' \<and> k @ tail = k' @ tail'"
  using assms by (simp add: gcp_reference_def segment_slash)

text \<open>The cache has no part in what is loaded.\<close>

lemma cache_update:
  "gc_client (g\<lparr>gc_kvCache := c\<rparr>) = gc_client g" "gcp_parent (g\<lparr>gc_kvCache := c\<rparr>) = gcp_parent g"
  "gcp_version env t (g\<lparr>gc_kvCache := c\<rparr>) = gcp_version env t g"
  "gcp_fetchPublicKey env t (g\<lparr>gc_kvCache := c\<rparr>) n = gcp_fetchPublicKey env t g n"
  by (simp_all add: gcp_parent_def gcp_version_def gcp_fetchPublicKey_def)

lemma keyVersionName_cache: "keyVersionName env t (g\<lparr>gc_kvCache := c\<rparr>) = keyVersionName env t g"
  unfolding keyVersionName_def cache_update ..

section \<open>Properties\<close>

text \<open>Which references the GCP provider takes, and what it reads from them: exactly the documented ones, with
  four parts without slashes and possibly a version, whose two spellings it both takes; the parts are those
  that were put together.\<close>

theorem gcp_reference_exact:
  "gcp_parseReference ref = Inr (p, l, r, k, v) \<longleftrightarrow>
     segment p \<and> segment l \<and> segment r \<and> segment k \<and> (\<exists>tail. version_tail v tail \<and> ref = gcp_reference p l r k tail)"
proof
  assume "gcp_parseReference ref = Inr (p, l, r, k, v)"
  then obtain caps where "full_match gcp_RE ref = Some caps"
    and "submatch caps 1 = p" "submatch caps 2 = l" "submatch caps 3 = r" "submatch caps 4 = k" "submatch caps 5 = v"
    by (auto simp: gcp_parseReference_def split: option.splits)
  with gcp_match [OF this(1)]
  show "segment p \<and> segment l \<and> segment r \<and> segment k \<and> (\<exists>tail. version_tail v tail \<and> ref = gcp_reference p l r k tail)"
    by auto
next
  assume R: "segment p \<and> segment l \<and> segment r \<and> segment k \<and> (\<exists>tail. version_tail v tail \<and> ref = gcp_reference p l r k tail)"
  then obtain tail where tail: "version_tail v tail" and ref: "ref = gcp_reference p l r k tail" by blast
  with R gcp_matches obtain caps where caps: "full_match gcp_RE ref = Some caps" by blast
  from gcp_match [OF this] obtain p' l' r' k' v' tail' where seg: "segment p'" "segment l'" "segment r'" "segment k'" "version_tail v' tail'"
    and ref': "ref = gcp_reference p' l' r' k' tail'" and f: "submatch caps = (\<lambda>n. [])(5 := v', 4 := k', 3 := r', 2 := l', 1 := p')"
    by blast
  have "p = p' \<and> l = l' \<and> r = r' \<and> k @ tail = k' @ tail'"
    by (rule gcp_reference_parts) (use ref ref' R seg in auto)
  moreover from this have "k = k' \<and> v = v'" using key_and_tail R seg tail by blast
  ultimately show "gcp_parseReference ref = Inr (p, l, r, k, v)" using caps f by (simp add: gcp_parseReference_def)
qed

theorem gcp_reference_exact_witness:
  "gcp_parseReference ''gcpkms://projects/p/locations/l/keyRings/r/cryptoKeys/k/versions/1'' = Inr (''p'', ''l'', ''r'', ''k'', ''1'')"
proof (rule gcp_reference_exact [THEN iffD2], intro conjI exI)
  show "version_tail ''1'' ''/versions/1''" by (simp add: version_tail_def segment_def no_slash_def)
  show "''gcpkms://projects/p/locations/l/keyRings/r/cryptoKeys/k/versions/1'' = gcp_reference ''p'' ''l'' ''r'' ''k'' ''/versions/1''"
    by (simp add: gcp_reference_def)
qed (simp_all add: segment_def no_slash_def)

text \<open>A signature of a rotated key is not recognised: without a fixed version, when the cached key does not accept
  a signature, the key is loaded anew, but the new key is given what the first verification left of the message,
  which is nothing; so the verdict does not depend on whether the new key signed the message.\<close>

theorem rotated_key_verdict:
  assumes "ttl_laws tc" and "gc_version g = []"
    and "getCKV env tc now g = (g1, Inr old)" and "Verifier_Verify (gcp_lib env) (ckv_Verifier old) (Inr msg) sig = Some err"
    and "keyVersionName env now' g = Inr new"
  shows "snd (gcp_verify env tc now now' g (Inr msg) sig) = Verifier_Verify (gcp_lib env) (ckv_Verifier new) (Inr []) sig"
proof -
  from assms(3) obtain c where g1: "g1 = g\<lparr>gc_kvCache := c\<rparr>" by (auto simp: getCKV_def split: prod.splits)
  let ?g = "g1\<lparr>gc_kvCache := tc_Delete tc (gc_kvCache g1)\<rparr>"
  have "keyVersionName env now' ?g = keyVersionName env now' g" unfolding g1 keyVersionName_cache ..
  with assms(1,5) have "\<exists>g2. getCKV env tc now' ?g = (g2, Inr new)"
    by (auto simp: getCKV_def cached_def ttl_laws_def)
  then obtain g2 where "getCKV env tc now' ?g = (g2, Inr new)" by blast
  with assms g1 show ?thesis by (simp add: gcp_verify_def drained_def)
qed

text \<open>What the key's first load yields is the hash of its algorithm, and without an expiry of the entry in between a
  second read gives the same version.\<close>

lemma keyVersionName_hash:
  "keyVersionName env now g = Inr ckv \<Longrightarrow> version_hash (gkv_Algorithm (ckv_CryptoKeyVersion ckv)) = Some (ckv_HashFunc ckv)"
  by (auto simp: keyVersionName_def split: sum.splits bool.splits option.splits)

lemma getCKV_again:
  assumes "ttl_laws tc" and "gc_kvCache g = tc_New tc" and first: "getCKV env tc now g = (g1, Inr ckv1)"
    and "now \<le> now'" and "gc_version g \<noteq> [] \<or> now' < now + 300" and again: "snd (getCKV env tc now' g1) = Inr ckv2"
  shows "keyVersionName env now g = Inr ckv1 \<and> ckv2 = ckv1"
proof -
  let ?ttl = "if gc_version g \<noteq> [] then 0 else 300 :: int"
  have none: "tc_Get tc (tc_New tc) now = None" using assms(1) by (simp add: ttl_laws_def)
  with first assms(2) have load: "keyVersionName env now g = Inr ckv1"
    and g1: "g1 = g\<lparr>gc_kvCache := tc_Set tc (tc_New tc) ckv1 ?ttl now\<rparr>"
    by (auto simp: getCKV_def cached_def split: sum.splits)
  have "tc_Get tc (tc_Set tc (tc_New tc) ckv1 ?ttl now) now' = Some ckv1"
    using assms(1,4,5) unfolding ttl_laws_def by (auto split: if_splits)
  with again g1 have "ckv2 = ckv1" by (auto simp: getCKV_def cached_def)
  with load show ?thesis by blast
qed

text \<open>C15. A GCP signature arrived as it was sent: its CRC-32C is the one of the response and the service says that it
  saw the digest of the message whose checksum was sent. \<open>Sign\<close> reads the version of the key twice: the hash is the
  one of the version it read first (\<open>first\<close>), whatever hash the signer was created with, although the comment on
  \<open>Sign\<close> says otherwise, and the version asked to sign is the one it read second (\<open>ckv\<close>). When the client's cache was
  empty, and the version is pinned by the reference or the second read comes within five minutes, the two are the
  version the service had at the first read, and the hash is the one of its algorithm; an entry that expires between
  the two reads can make them differ (\<open>gcp_replaced_version\<close>).\<close>

theorem gcp_signature_intact:
  assumes "gcp_Sign env tc now now' sv (Inr msg) = Return (sv', Inr sig)"
  shows "\<exists>g first ckv resp. getCKV env tc now (gsv_client sv) = (g, Inr first) \<and> snd (getCKV env tc now' g) = Inr ckv \<and>
    (let hf = ckv_HashFunc first; digest = lib_hash (gcp_lib env) hf msg
     in gcp_AsymmetricSign env (gc_client g) (gkv_Name (ckv_CryptoKeyVersion ckv)) hf digest
          (if crc32c digest = 0 then None else Some (uint (crc32c digest))) = Inr resp \<and>
        gs_Signature resp = sig \<and> gs_SignatureCrc32C resp = Some (uint (crc32c sig)) \<and>
        (crc32c digest \<noteq> 0 \<longrightarrow> gs_VerifiedDigestCrc32C resp)) \<and>
    (ttl_laws tc \<and> gc_kvCache (gsv_client sv) = tc_New tc \<and> now \<le> now' \<and> (gc_version (gsv_client sv) \<noteq> [] \<or> now' < now + 300) \<longrightarrow>
       first = ckv \<and> keyVersionName env now (gsv_client sv) = Inr ckv \<and>
       version_hash (gkv_Algorithm (ckv_CryptoKeyVersion ckv)) = Some (ckv_HashFunc first))"
proof -
  obtain g r where g: "getCKV env tc now (gsv_client sv) = (g, r)" by fastforce
  with assms obtain first where r: "r = Inr first" by (cases r) (auto simp: gcp_Sign_def gcp_getHashFunc_def)
  define hf where "hf = ckv_HashFunc first"
  have hash: "gcp_getHashFunc env tc now (gsv_client sv) = (g, Inr hf)" using g r by (simp add: gcp_getHashFunc_def hf_def)
  let ?digest = "lib_hash (gcp_lib env) hf msg"
  have supported: "isSupportedAlg hf (Some gcpSupportedHashFuncs)"
    using assms hash by (auto simp: gcp_Sign_def ComputeDigest_def split: if_splits)
  with assms hash have sign: "\<exists>g'. gcp_sign env tc now' g ?digest hf (crc32c ?digest) = Return (g', Inr sig)"
    by (auto simp: gcp_Sign_def ComputeDigest_def Digest_def)
  obtain g2 q where g2: "getCKV env tc now' g = (g2, q)" by fastforce
  with sign obtain ckv where q: "q = Inr ckv" by (cases q) (auto simp: gcp_sign_def)
  have same: "gc_client g2 = gc_client g" using g2 by (auto simp: getCKV_def split: prod.splits)
  from sign g2 q same obtain resp where
    resp: "gcp_AsymmetricSign env (gc_client g) (gkv_Name (ckv_CryptoKeyVersion ckv)) hf ?digest
      (if crc32c ?digest \<noteq> 0 then Some (uint (crc32c ?digest)) else None) = Inr resp"
    by (cases "gcp_AsymmetricSign env (gc_client g) (gkv_Name (ckv_CryptoKeyVersion ckv)) hf ?digest
      (if crc32c ?digest \<noteq> 0 then Some (uint (crc32c ?digest)) else None)") (auto simp: gcp_sign_def split: if_splits)
  with sign g2 q same have got: "gs_Signature resp = sig" "gs_SignatureCrc32C resp = Some (uint (crc32c sig))"
    "crc32c ?digest \<noteq> 0 \<longrightarrow> gs_VerifiedDigestCrc32C resp"
    by (auto simp: gcp_sign_def split: if_splits option.splits)
  have none: "(if crc32c ?digest = 0 then None else Some (uint (crc32c ?digest))) =
      (if crc32c ?digest \<noteq> 0 then Some (uint (crc32c ?digest)) else None)" by simp
  have second: "snd (getCKV env tc now' g) = Inr ckv" using g2 q by simp
  show ?thesis
  proof (rule exI [of _ g], rule exI [of _ first], rule exI [of _ ckv], rule exI [of _ resp], intro conjI impI)
    show "getCKV env tc now (gsv_client sv) = (g, Inr first)" using g r by simp
    show "snd (getCKV env tc now' g) = Inr ckv" by (rule second)
    show "let hf = ckv_HashFunc first; digest = lib_hash (gcp_lib env) hf msg
     in gcp_AsymmetricSign env (gc_client g) (gkv_Name (ckv_CryptoKeyVersion ckv)) hf digest
          (if crc32c digest = 0 then None else Some (uint (crc32c digest))) = Inr resp \<and>
        gs_Signature resp = sig \<and> gs_SignatureCrc32C resp = Some (uint (crc32c sig)) \<and>
        (crc32c digest \<noteq> 0 \<longrightarrow> gs_VerifiedDigestCrc32C resp)"
      unfolding Let_def hf_def [symmetric] none using resp got by blast
    assume fresh: "ttl_laws tc \<and> gc_kvCache (gsv_client sv) = tc_New tc \<and> now \<le> now' \<and>
      (gc_version (gsv_client sv) \<noteq> [] \<or> now' < now + 300)"
    have "keyVersionName env now (gsv_client sv) = Inr first \<and> ckv = first"
      by (rule getCKV_again [OF _ _ g [unfolded r] _ _ second]) (use fresh in blast)+
    then show "first = ckv" "keyVersionName env now (gsv_client sv) = Inr ckv"
      and "version_hash (gkv_Algorithm (ckv_CryptoKeyVersion ckv)) = Some (ckv_HashFunc first)"
      using keyVersionName_hash by auto
  qed
qed

section \<open>Samples\<close>

text \<open>A key that is rotated at time 20, from \<open>o\<close> to \<open>n\<close>.\<close>

definition sample_gcp_env :: gcp_env where
  "sample_gcp_env =
     \<lparr>gcp_lib = sample_lib\<lparr>lib_pem_decode := \<lambda>b. Some \<lparr>pem_Type = ''PUBLIC KEY'', pem_Headers = [], pem_Bytes = b\<rparr>\<rparr>,
      gcp_NewClient = \<lambda>creds. Inr ''c'', gcp_asymmetric_sign_key = \<lambda>h t k. Inr True,
      gcp_GetCryptoKeyVersion = \<lambda>h t n. Inr \<lparr>gkv_Name = n, gkv_Algorithm = EC_SIGN_P256_SHA256\<rparr>,
      gcp_first_enabled_version = \<lambda>h t p. Inr \<lparr>gkv_Name = p, gkv_Algorithm = EC_SIGN_P256_SHA256\<rparr>,
      gcp_GetPublicKey = \<lambda>h t n. Inr (if t < 20 then ''Eo'' else ''En''),
      gcp_AsymmetricSign = \<lambda>h n alg d crc. Inr \<lparr>gs_Signature = ''o'' @ d, gs_VerifiedDigestCrc32C = True,
        gs_SignatureCrc32C = Some (uint (crc32c (''o'' @ d)))\<rparr>\<rparr>"

definition sample_gcp_client :: "(cryptoKeyVersion \<times> int \<times> int) option gcpClient" where
  "sample_gcp_client =
     \<lparr>gc_projectID = ''p'', gc_locationID = ''l'', gc_keyRing = ''r'', gc_keyName = ''k'', gc_version = [], gc_kvCache = None, gc_client = ''c''\<rparr>"

definition sample_key_version :: "string \<Rightarrow> cryptoKeyVersion" where
  "sample_key_version k =
     \<lparr>ckv_CryptoKeyVersion = \<lparr>gkv_Name = ''projects/p/locations/l/keyRings/r/cryptoKeys/k'', gkv_Algorithm = EC_SIGN_P256_SHA256\<rparr>,
      ckv_Verifier = ECDSAVerifier k SHA256, ckv_PublicKey = ECDSA_PublicKey k, ckv_HashFunc = SHA256\<rparr>"

lemma sample_versions:
  "keyVersionName sample_gcp_env t sample_gcp_client = Inr (sample_key_version (if t < 20 then ''o'' else ''n''))"
proof (cases "t < 20")
  case True
  then show ?thesis
    by (simp add: keyVersionName_def gcp_version_def gcp_fetchPublicKey_def gcp_parent_def sample_gcp_env_def sample_gcp_client_def
        UnmarshalPEMToPublicKey_def sample_lib_def NewVerifier_def cu_VerifyWithHash_def sample_key_version_def)
next
  case False
  then show ?thesis
    by (simp add: keyVersionName_def gcp_version_def gcp_fetchPublicKey_def gcp_parent_def sample_gcp_env_def sample_gcp_client_def
        UnmarshalPEMToPublicKey_def sample_lib_def NewVerifier_def cu_VerifyWithHash_def sample_key_version_def)
qed

theorem rotated_key_verdict_witness:
  "snd (gcp_verify sample_gcp_env sample_cache 10 30 sample_gcp_client (Inr ''m'') ''nm'') = Some ErrVerifyFailed \<and>
   Verifier_Verify (gcp_lib sample_gcp_env) (ckv_Verifier (sample_key_version ''n'')) (Inr ''m'') ''nm'' = None"
proof
  have old: "\<exists>g1. getCKV sample_gcp_env sample_cache 10 sample_gcp_client = (g1, Inr (sample_key_version ''o''))"
    using sample_versions [of 10] by (simp add: getCKV_def cached_def sample_gcp_client_def sample_cache_def)
  then obtain g1 where g1: "getCKV sample_gcp_env sample_cache 10 sample_gcp_client = (g1, Inr (sample_key_version ''o''))" by blast
  have reject: "Verifier_Verify (gcp_lib sample_gcp_env) (ckv_Verifier (sample_key_version ''o'')) (Inr ''m'') ''nm'' = Some ErrVerifyFailed"
    "Verifier_Verify (gcp_lib sample_gcp_env) (ckv_Verifier (sample_key_version ''n'')) (Inr []) ''nm'' = Some ErrVerifyFailed"
    by (simp_all add: sample_key_version_def sample_gcp_env_def sample_lib_def Digest_def)
  have "gc_version sample_gcp_client = []" by (simp add: sample_gcp_client_def)
  moreover have "keyVersionName sample_gcp_env 30 sample_gcp_client = Inr (sample_key_version ''n'')" by (simp add: sample_versions)
  ultimately have "snd (gcp_verify sample_gcp_env sample_cache 10 30 sample_gcp_client (Inr ''m'') ''nm'') =
      Verifier_Verify (gcp_lib sample_gcp_env) (ckv_Verifier (sample_key_version ''n'')) (Inr []) ''nm''"
    using rotated_key_verdict [OF sample_cache_laws _ g1 reject(1)] by blast
  with reject show "snd (gcp_verify sample_gcp_env sample_cache 10 30 sample_gcp_client (Inr ''m'') ''nm'') = Some ErrVerifyFailed" by simp
  show "Verifier_Verify (gcp_lib sample_gcp_env) (ckv_Verifier (sample_key_version ''n'')) (Inr ''m'') ''nm'' = None"
    by (simp add: sample_key_version_def sample_gcp_env_def sample_lib_def Digest_def)
qed

definition sample_gcp_signer :: "(cryptoKeyVersion \<times> int \<times> int) option gcp_SignerVerifier" where
  "sample_gcp_signer = \<lparr>gsv_reference = ''gcpkms://'', gsv_client = sample_gcp_client, gsv_hashFunc = SHA512\<rparr>"

theorem gcp_signature_intact_witness:
  "\<exists>sv'. gcp_Sign sample_gcp_env sample_cache 10 11 sample_gcp_signer (Inr ''m'') = Return (sv', Inr ''om'') \<and>
     (\<exists>g. getCKV sample_gcp_env sample_cache 10 sample_gcp_client = (g, Inr (sample_key_version ''o'')) \<and>
       version_hash (gkv_Algorithm (ckv_CryptoKeyVersion (sample_key_version ''o''))) = Some SHA256)"
proof -
  obtain g1 where g1: "g1 = sample_gcp_client\<lparr>gc_kvCache := Some (sample_key_version ''o'', 300, 10)\<rparr>" by blast
  have get: "getCKV sample_gcp_env sample_cache 10 sample_gcp_client = (g1, Inr (sample_key_version ''o''))"
    using sample_versions [of 10] by (simp add: getCKV_def cached_def sample_gcp_client_def sample_cache_def g1)
  have again: "getCKV sample_gcp_env sample_cache 11 g1 = (g1, Inr (sample_key_version ''o''))"
    by (simp add: getCKV_def cached_def sample_cache_def g1)
  have lib: "lib_hash (gcp_lib sample_gcp_env) h d = d" for h d by (simp add: sample_gcp_env_def sample_lib_def)
  have remote: "gcp_AsymmetricSign sample_gcp_env h n alg d crc = Inr \<lparr>gs_Signature = ''o'' @ d, gs_VerifiedDigestCrc32C = True,
        gs_SignatureCrc32C = Some (uint (crc32c (''o'' @ d)))\<rparr>" for h n alg d crc by (simp add: sample_gcp_env_def)
  have "\<exists>sv'. gcp_Sign sample_gcp_env sample_cache 10 11 sample_gcp_signer (Inr ''m'') = Return (sv', Inr ''om'')"
    by (simp add: gcp_Sign_def gcp_getHashFunc_def get again gcp_sign_def sample_gcp_signer_def ComputeDigest_def isSupportedAlg_def
        gcpSupportedHashFuncs_def Digest_def lib remote) (simp add: sample_key_version_def)
  then obtain sv' where signed: "gcp_Sign sample_gcp_env sample_cache 10 11 sample_gcp_signer (Inr ''m'') = Return (sv', Inr ''om'')" by blast
  have new: "gc_kvCache (gsv_client sample_gcp_signer) = tc_New sample_cache" "gsv_client sample_gcp_signer = sample_gcp_client"
    by (simp_all add: sample_gcp_signer_def sample_gcp_client_def sample_cache_def)
  from gcp_signature_intact [OF signed] sample_cache_laws new obtain g ckv
    where read: "getCKV sample_gcp_env sample_cache 10 sample_gcp_client = (g, Inr ckv)"
      and hash: "version_hash (gkv_Algorithm (ckv_CryptoKeyVersion ckv)) = Some (ckv_HashFunc ckv)"
    by auto
  from read get have ckv: "ckv = sample_key_version ''o''" by simp
  have "ckv_HashFunc (sample_key_version ''o'') = SHA256" by (simp add: sample_key_version_def)
  with read hash ckv signed show ?thesis by auto
qed

text \<open>An entry that expires between the two reads of \<open>Sign\<close> at times 309 and 311 lets the hash of the version it held,
  SHA-256, be sent with the name of its successor, whose algorithm is for SHA-384.\<close>

definition replaced_gcp_env :: gcp_env where
  "replaced_gcp_env = sample_gcp_env\<lparr>gcp_first_enabled_version := \<lambda>h t p. Inr
     (if t < 300 then \<lparr>gkv_Name = ''1'', gkv_Algorithm = EC_SIGN_P256_SHA256\<rparr> else \<lparr>gkv_Name = ''2'', gkv_Algorithm = EC_SIGN_P384_SHA384\<rparr>),
     gcp_AsymmetricSign := \<lambda>h n alg d crc. (let sig = n @ (if alg = SHA256 then ''-256'' else ''-384'')
       in Inr \<lparr>gs_Signature = sig, gs_VerifiedDigestCrc32C = True, gs_SignatureCrc32C = Some (uint (crc32c sig))\<rparr>)\<rparr>"

lemma gcp_replaced_version:
  "\<exists>ckv g sv'. getCKV replaced_gcp_env sample_cache 10 sample_gcp_client = (g, Inr ckv) \<and>
     gcp_Sign replaced_gcp_env sample_cache 309 311 (sample_gcp_signer\<lparr>gsv_client := g\<rparr>) (Inr ''m'') = Return (sv', Inr ''2-256'')"
proof -
  have versions: "keyVersionName replaced_gcp_env t (sample_gcp_client\<lparr>gc_kvCache := c\<rparr>) =
      Inr \<lparr>ckv_CryptoKeyVersion = (if t < 300 then \<lparr>gkv_Name = ''1'', gkv_Algorithm = EC_SIGN_P256_SHA256\<rparr>
             else \<lparr>gkv_Name = ''2'', gkv_Algorithm = EC_SIGN_P384_SHA384\<rparr>),
           ckv_Verifier = ECDSAVerifier (if t < 20 then ''o'' else ''n'') (if t < 300 then SHA256 else SHA384),
           ckv_PublicKey = ECDSA_PublicKey (if t < 20 then ''o'' else ''n''), ckv_HashFunc = (if t < 300 then SHA256 else SHA384)\<rparr>" for t c
    by (simp add: keyVersionName_def gcp_version_def gcp_fetchPublicKey_def gcp_parent_def replaced_gcp_env_def sample_gcp_env_def
        sample_gcp_client_def UnmarshalPEMToPublicKey_def sample_lib_def NewVerifier_def cu_VerifyWithHash_def)
  have "sample_gcp_client = sample_gcp_client\<lparr>gc_kvCache := None\<rparr>" by (simp add: sample_gcp_client_def)
  then have first: "keyVersionName replaced_gcp_env 10 sample_gcp_client = Inr \<lparr>ckv_CryptoKeyVersion = \<lparr>gkv_Name = ''1'',
      gkv_Algorithm = EC_SIGN_P256_SHA256\<rparr>, ckv_Verifier = ECDSAVerifier ''o'' SHA256, ckv_PublicKey = ECDSA_PublicKey ''o'',
      ckv_HashFunc = SHA256\<rparr>" using versions [of 10 None] by simp
  have unpinned: "gc_version sample_gcp_client = []" "gc_kvCache sample_gcp_client = None" "gc_client sample_gcp_client = ''c''"
    by (simp_all add: sample_gcp_client_def)
  have lib: "lib_hash (gcp_lib replaced_gcp_env) h d = d" for h d by (simp add: replaced_gcp_env_def sample_gcp_env_def sample_lib_def)
  have remote: "gcp_AsymmetricSign replaced_gcp_env h n SHA256 d crc = Inr \<lparr>gs_Signature = n @ ''-256'', gs_VerifiedDigestCrc32C = True,
      gs_SignatureCrc32C = Some (uint (crc32c (n @ ''-256'')))\<rparr>" for h n d crc by (simp add: replaced_gcp_env_def Let_def)
  show ?thesis
    by (simp add: getCKV_def cached_def sample_cache_def unpinned first gcp_Sign_def gcp_getHashFunc_def ComputeDigest_def
        isSupportedAlg_def gcpSupportedHashFuncs_def Digest_def lib gcp_sign_def versions remote)
qed

end
