(* ===== verification/Kms_Azure.thy ===== *)
theory Kms_Azure
  imports Kms_Store Kms_Cache Go_Regexp "HOL-Library.Word"
begin

text \<open>
  The Azure key service: \<open>signer/kms/azure/client.go\<close> and \<open>signer.go\<close>.

  The Azure SDK and the encoding of public keys are parameters, in \<open>azure_env\<close>; what the service answers may
  depend on the time.
\<close>

section \<open>References\<close>

definition azure_RE :: "regexp list" where
  "azure_RE =
     [RLit ''azurekms://'', RGroup 1 (RSeqs [RPlus (RChar no_slash), RLit ''.vault.azure.net'']), RLit ''/'',
      RGroup 2 (RPlus (RChar no_slash)), ROpt (RSeqs [RLit ''/'', RGroup 3 (RPlus (RChar no_slash))])]"

definition azure_ValidReference :: "string \<Rightarrow> gerr option" where
  "azure_ValidReference ref =
     (if \<not> MatchString (RSeqs azure_RE) ref
      then Some (Errorf ''kms specification should be in the format azurekms://[VAULT_NAME].vault.azure.net/[KEY_NAME][/KEY_VERSION]'' [])
      else None)"

text \<open>The URL of the vault, the name of the key and its version, which is empty when there is none.\<close>

definition azure_ParseReference :: "string \<Rightarrow> gerr + string \<times> string \<times> string" where
  "azure_ParseReference resourceID =
     (case full_match (RSeqs azure_RE) resourceID of
        None \<Rightarrow> Inl (Errorf ''invalid azurekms format %q'' [FStr resourceID])
      | Some matches \<Rightarrow> Inr (''https://'' @ submatch matches 1 @ ''/'', submatch matches 2, submatch matches 3))"

section \<open>Keys\<close>

text \<open>A JSON web key, with \<open>None\<close> for a nil pointer or a nil slice, and a key bundle of the service.\<close>

record json_web_key =
  jwk_Kty :: "string option"
  jwk_N :: "bytes option"
  jwk_E :: "bytes option"
  jwk_X :: "bytes option"
  jwk_Y :: "bytes option"
  jwk_Crv :: "string option"
  jwk_KeyOps :: "string list"

type_synonym azkeys_bundle = "json_web_key option"

datatype azure_curve = P256 | P384 | P521
datatype azure_public = AzureRSA int int | AzureEC azure_curve int int
datatype azure_signature = RS256 | RS384 | RS512 | PS256 | PS384 | PS512 | ES256 | ES256K | ES384 | ES512

record keyBundle =
  kb_Key :: azkeys_bundle
  kb_PublicKey :: azure_public

text \<open>\<open>big.Int.SetBytes\<close>, big-endian, and \<open>Int64\<close> of its low 64 bits.\<close>

definition big_SetBytes :: "bytes \<Rightarrow> int" where
  "big_SetBytes bs = fold (\<lambda>b n. 256 * n + of_char b) bs 0"

definition big_Int64 :: "int \<Rightarrow> int" where
  "big_Int64 n = sint (word_of_int n :: 64 word)"

definition extractRSAPublicKey :: "json_web_key \<Rightarrow> gerr + azure_public" where
  "extractRSAPublicKey jwk =
     (case (jwk_N jwk, jwk_E jwk) of
        (Some nBytes, Some eBytes) \<Rightarrow> Inr (AzureRSA (big_SetBytes nBytes) (big_Int64 (big_SetBytes eBytes)))
      | _ \<Rightarrow> Inl (Errorf ''RSA key is missing required parameters'' []))"

definition extractECPublicKey :: "json_web_key \<Rightarrow> gerr + azure_public" where
  "extractECPublicKey jwk =
     (case (jwk_X jwk, jwk_Y jwk, jwk_Crv jwk) of
        (Some xBytes, Some yBytes, Some crv) \<Rightarrow>
          (let x = big_SetBytes xBytes; y = big_SetBytes yBytes
           in if crv = ''P-256'' then Inr (AzureEC P256 x y)
              else if crv = ''P-384'' then Inr (AzureEC P384 x y)
              else if crv = ''P-521'' then Inr (AzureEC P521 x y)
              else if crv = ''P-256K'' then Inl (Errorf ''curve %s is not supported'' [FStr crv])
              else Inl (Errorf ''unsupported curve: %s'' [FStr crv]))
      | _ \<Rightarrow> Inl (Errorf ''EC key is missing required parameters'' []))"

definition azure_HashFunc :: "keyBundle \<Rightarrow> crypto_hash" where
  "azure_HashFunc k =
     (if (case kb_Key k of None \<Rightarrow> True | Some jwk \<Rightarrow> jwk_KeyOps jwk = []) then SHA256
      else (case kb_PublicKey k of
              AzureRSA n e \<Rightarrow> SHA256
            | AzureEC P256 x y \<Rightarrow> SHA256
            | AzureEC P384 x y \<Rightarrow> SHA384
            | AzureEC P521 x y \<Rightarrow> SHA512))"

definition azure_SigningAlgorithm :: "keyBundle \<Rightarrow> azure_signature" where
  "azure_SigningAlgorithm k =
     (case kb_PublicKey k of
        AzureRSA n e \<Rightarrow> RS256
      | AzureEC P256 x y \<Rightarrow> ES256
      | AzureEC P384 x y \<Rightarrow> ES384
      | AzureEC P521 x y \<Rightarrow> ES512)"

section \<open>The client\<close>

type_synonym azure_handle = string

text \<open>\<open>az_rsa\<close> and \<open>az_ec\<close> encode a public key; a credential is a name.\<close>

record azure_env =
  az_lib :: crypto_lib
  az_rsa :: "int \<Rightarrow> int \<Rightarrow> bytes"
  az_ec :: "azure_curve \<Rightarrow> int \<Rightarrow> int \<Rightarrow> bytes"
  az_NewDefaultAzureCredential :: "gerr + string"
  az_NewClient :: "string \<Rightarrow> string \<Rightarrow> gerr + azure_handle"
  az_GetKey :: "azure_handle \<Rightarrow> int \<Rightarrow> string \<Rightarrow> string \<Rightarrow> gerr + azkeys_bundle"
  az_call_Sign :: "azure_handle \<Rightarrow> string \<Rightarrow> string \<Rightarrow> azure_signature \<Rightarrow> bytes \<Rightarrow> gerr + bytes option"
  az_call_Verify :: "azure_handle \<Rightarrow> string \<Rightarrow> string \<Rightarrow> azure_signature \<Rightarrow> bytes \<Rightarrow> bytes \<Rightarrow> gerr + bool option"

definition azure_key :: "azure_env \<Rightarrow> azure_public \<Rightarrow> public_key" where
  "azure_key env p = (case p of AzureRSA n e \<Rightarrow> RSA_PublicKey (az_rsa env n e) | AzureEC c x y \<Rightarrow> ECDSA_PublicKey (az_ec env c x y))"

record 'c azureClient =
  azc_client :: azure_handle
  azc_vaultURL :: string
  azc_keyName :: string
  azc_keyVersion :: string
  azc_keyCache :: 'c

definition azure_setupClient :: "azure_env \<Rightarrow> string \<Rightarrow> kms_provider \<Rightarrow> gerr + azure_handle" where
  "azure_setupClient env vaultURL ksp =
     (if \<not> list_ex (\<lambda>(n, c). c = AzureClient) (ksp_Options ksp)
      then Inl (Errorf ''unable to find azure client options in azure kms signer provider'' [])
      else (case az_NewDefaultAzureCredential env of
              Inl err \<Rightarrow> Inl (Errorf ''failed to obtain Azure credential: %w'' [FErr err])
            | Inr cred \<Rightarrow>
                (case az_NewClient env vaultURL cred of
                   Inl err \<Rightarrow> Inl (Errorf ''failed to create Azure Key Vault client: %w'' [FErr err])
                 | Inr client \<Rightarrow> Inr client)))"

definition newAzureClient :: "azure_env \<Rightarrow> ('c, keyBundle) ttl_cache \<Rightarrow> kms_provider \<Rightarrow> gerr + 'c azureClient" where
  "newAzureClient env tc ksp =
     (case azure_ValidReference (ksp_Reference ksp) of
        Some err \<Rightarrow> Inl err
      | None \<Rightarrow>
          (case azure_ParseReference (ksp_Reference ksp) of
             Inl err \<Rightarrow> Inl err
           | Inr (vaultURL, keyName, keyVersion) \<Rightarrow>
               (case azure_setupClient env vaultURL ksp of
                  Inl err \<Rightarrow> Inl err
                | Inr client \<Rightarrow>
                    Inr \<lparr>azc_client = client, azc_vaultURL = vaultURL, azc_keyName = keyName, azc_keyVersion = keyVersion,
                         azc_keyCache = tc_New tc\<rparr>)))"

definition azure_fetchKey :: "azure_env \<Rightarrow> int \<Rightarrow> 'c azureClient \<Rightarrow> gerr + azkeys_bundle" where
  "azure_fetchKey env now a =
     (case az_GetKey env (azc_client a) now (azc_keyName a) (azc_keyVersion a) of
        Inl err \<Rightarrow> Inl (Errorf ''failed to get key from Azure Key Vault: %w'' [FErr err])
      | Inr b \<Rightarrow> Inr b)"

definition kty_panic :: string where "kty_panic = ''nil pointer dereference''"

text \<open>A key without a type makes the code panic.\<close>

definition fetchKeyBundle :: "azure_env \<Rightarrow> int \<Rightarrow> 'c azureClient \<Rightarrow> (gerr + keyBundle) outcome" where
  "fetchKeyBundle env now a =
     (case azure_fetchKey env now a of
        Inl err \<Rightarrow> Return (Inl err)
      | Inr None \<Rightarrow> Return (Inl (Errorf ''key data is missing from Azure Key Vault response'' []))
      | Inr (Some jwk) \<Rightarrow>
          (case jwk_Kty jwk of
             None \<Rightarrow> Panic kty_panic
           | Some kty \<Rightarrow>
               if kty \<noteq> ''RSA'' \<and> kty \<noteq> ''EC'' then Return (Inl (Errorf ''unsupported key type: %s'' [FStr kty]))
               else (case (if kty = ''RSA'' then extractRSAPublicKey jwk else extractECPublicKey jwk) of
                       Inl err \<Rightarrow> Return (Inl (Errorf ''failed to extract public key: %w'' [FErr err]))
                     | Inr key \<Rightarrow> Return (Inr \<lparr>kb_Key = Some jwk, kb_PublicKey = key\<rparr>))))"

definition getKeyBundle ::
  "azure_env \<Rightarrow> ('c, keyBundle) ttl_cache \<Rightarrow> int \<Rightarrow> 'c azureClient \<Rightarrow> ('c azureClient \<times> (gerr + keyBundle)) outcome" where
  "getKeyBundle env tc now a =
     (case tc_Get tc (azc_keyCache a) now of
        Some k \<Rightarrow> Return (a, Inr k)
      | None \<Rightarrow>
          bindO (fetchKeyBundle env now a) (\<lambda>load.
            case load of
              Inl err \<Rightarrow> Return (a, Inl err)
            | Inr k \<Rightarrow> Return (a\<lparr>azc_keyCache := tc_Set tc (azc_keyCache a) k 300 now\<rparr>, Inr k)))"

definition azure_fetchPublicKey ::
  "azure_env \<Rightarrow> ('c, keyBundle) ttl_cache \<Rightarrow> int \<Rightarrow> 'c azureClient \<Rightarrow> ('c azureClient \<times> (gerr + public_key)) outcome" where
  "azure_fetchPublicKey env tc now a =
     bindO (getKeyBundle env tc now a) (\<lambda>(a, r). Return (a, map_sum (\<lambda>e. e) (\<lambda>k. azure_key env (kb_PublicKey k)) r))"

definition azure_getHashFunc ::
  "azure_env \<Rightarrow> ('c, keyBundle) ttl_cache \<Rightarrow> int \<Rightarrow> 'c azureClient \<Rightarrow> ('c azureClient \<times> (gerr + crypto_hash)) outcome" where
  "azure_getHashFunc env tc now a =
     bindO (getKeyBundle env tc now a) (\<lambda>(a, r). Return (a, map_sum (\<lambda>e. e) azure_HashFunc r))"

text \<open>Signing; the service signs for an elliptic curve too, but the signature is not returned.\<close>

definition azure_sign ::
  "azure_env \<Rightarrow> ('c, keyBundle) ttl_cache \<Rightarrow> int \<Rightarrow> 'c azureClient \<Rightarrow> bytes \<Rightarrow> ('c azureClient \<times> (gerr + bytes)) outcome" where
  "azure_sign env tc now a digest =
     bindO (getKeyBundle env tc now a) (\<lambda>(a, r). Return (a,
       case r of
         Inl err \<Rightarrow> Inl err
       | Inr key \<Rightarrow>
           (case az_call_Sign env (azc_client a) (azc_keyName a) (azc_keyVersion a) (azure_SigningAlgorithm key) digest of
              Inl err \<Rightarrow> Inl (Errorf ''failed to sign with Azure Key Vault: %w'' [FErr err])
            | Inr None \<Rightarrow> Inl (Errorf ''signature result is missing from Azure Key Vault response'' [])
            | Inr (Some sig) \<Rightarrow>
                (case kb_PublicKey key of
                   AzureEC c x y \<Rightarrow> Inl (Errorf ''ECDSA signature format conversion not yet implemented'' [])
                 | AzureRSA n e \<Rightarrow> Inr sig))))"

definition azureSupportedHashFuncs :: "crypto_hash list" where
  "azureSupportedHashFuncs = [SHA256, SHA384, SHA512]"

definition azure_verifyRemotely ::
  "azure_env \<Rightarrow> ('c, keyBundle) ttl_cache \<Rightarrow> int \<Rightarrow> 'c azureClient \<Rightarrow> bytes \<Rightarrow> reader \<Rightarrow> ('c azureClient \<times> gerr option) outcome"
where
  "azure_verifyRemotely env tc now a sig message =
     bindO (getKeyBundle env tc now a) (\<lambda>(a, r). Return (a,
       case r of
         Inl err \<Rightarrow> Some err
       | Inr key \<Rightarrow>
           (case ComputeDigest (az_lib env) message (azure_HashFunc key) (Some azureSupportedHashFuncs) of
              Inl err \<Rightarrow> Some err
            | Inr (digest, h) \<Rightarrow>
                (case az_call_Verify env (azc_client a) (azc_keyName a) (azc_keyVersion a) (azure_SigningAlgorithm key) digest sig of
                   Inl err \<Rightarrow> Some (Errorf ''unable to verify signature: %w'' [FErr err])
                 | Inr valid \<Rightarrow> if valid \<noteq> Some True then Some (Errorf ''signature verification failed'' []) else None))))"

definition kb_Verifier :: "azure_env \<Rightarrow> keyBundle \<Rightarrow> gerr + verifier" where
  "kb_Verifier env k = NewVerifier (ParsedPublic (azure_key env (kb_PublicKey k))) [cu_VerifyWithHash (azure_HashFunc k)]"

definition azure_verify ::
  "azure_env \<Rightarrow> ('c, keyBundle) ttl_cache \<Rightarrow> kms_store \<Rightarrow> int \<Rightarrow> 'c azureClient \<Rightarrow> bytes \<Rightarrow> reader \<Rightarrow>
     ('c azureClient \<times> gerr option) outcome" where
  "azure_verify env tc st now a sig message =
     (if zco_verifyRemotely (ks_azure st) then azure_verifyRemotely env tc now a sig message
      else bindO (getKeyBundle env tc now a) (\<lambda>(a, r). Return (a,
             case r of
               Inl err \<Rightarrow> Some err
             | Inr key \<Rightarrow>
                 (case kb_Verifier env key of
                    Inl err \<Rightarrow> Some err
                  | Inr verifier \<Rightarrow> Verifier_Verify (az_lib env) verifier message sig))))"

section \<open>The signer\<close>

definition azureSupportedAlgorithms :: "azure_signature list" where
  "azureSupportedAlgorithms = [RS256, RS384, RS512, PS256, PS384, PS512, ES256, ES256K, ES384, ES512]"

record 'c azure_SignerVerifier =
  zsv_reference :: string
  zsv_client :: "'c azureClient"
  zsv_hashFunc :: crypto_hash

text \<open>A hash that the service does not support counts as SHA-256.\<close>

definition azure_LoadSignerVerifier ::
  "azure_env \<Rightarrow> ('c, keyBundle) ttl_cache \<Rightarrow> kms_provider \<Rightarrow> gerr + 'c azure_SignerVerifier" where
  "azure_LoadSignerVerifier env tc ksp =
     (case newAzureClient env tc ksp of
        Inl err \<Rightarrow> Inl err
      | Inr client \<Rightarrow>
          Inr \<lparr>zsv_reference = ksp_Reference ksp, zsv_client = client,
               zsv_hashFunc = (case ksp_HashFunc ksp of
                   None \<Rightarrow> SHA256
                 | Some h \<Rightarrow> if List.member azureSupportedHashFuncs h then h else SHA256)\<rparr>)"

definition azure_KeyID :: "'c azure_SignerVerifier \<Rightarrow> gerr + string" where
  "azure_KeyID sv = Inr (zsv_reference sv)"

text \<open>\<open>Sign\<close> looks the key up twice, at \<open>now\<close> for the hash function and at \<open>now'\<close> for the algorithm.\<close>

definition azure_Sign ::
  "azure_env \<Rightarrow> ('c, keyBundle) ttl_cache \<Rightarrow> int \<Rightarrow> int \<Rightarrow> 'c azure_SignerVerifier \<Rightarrow> reader \<Rightarrow>
     ('c azure_SignerVerifier \<times> (gerr + bytes)) outcome" where
  "azure_Sign env tc now now' sv message =
     bindO (azure_getHashFunc env tc now (zsv_client sv)) (\<lambda>(a, r).
       case r of
         Inl err \<Rightarrow> Return (sv\<lparr>zsv_client := a\<rparr>, Inl (Errorf ''getting fetching default hash function: %w'' [FErr err]))
       | Inr hf \<Rightarrow>
           (case ComputeDigest (az_lib env) message hf (Some azureSupportedHashFuncs) of
              Inl err \<Rightarrow> Return (sv\<lparr>zsv_client := a\<rparr>, Inl err)
            | Inr (digest, h) \<Rightarrow>
                bindO (azure_sign env tc now' a digest) (\<lambda>(a, r). Return (sv\<lparr>zsv_client := a\<rparr>, r))))"

definition azure_Bytes ::
  "azure_env \<Rightarrow> ('c, keyBundle) ttl_cache \<Rightarrow> int \<Rightarrow> 'c azure_SignerVerifier \<Rightarrow> ('c azure_SignerVerifier \<times> (gerr + bytes)) outcome"
where
  "azure_Bytes env tc now sv =
     bindO (azure_fetchPublicKey env tc now (zsv_client sv)) (\<lambda>(a, r). Return (sv\<lparr>zsv_client := a\<rparr>,
       case r of Inl err \<Rightarrow> Inl err | Inr p \<Rightarrow> PublicPemBytes (az_lib env) p))"

definition azure_Verify ::
  "azure_env \<Rightarrow> ('c, keyBundle) ttl_cache \<Rightarrow> kms_store \<Rightarrow> int \<Rightarrow> 'c azure_SignerVerifier \<Rightarrow> reader \<Rightarrow> bytes \<Rightarrow>
     ('c azure_SignerVerifier \<times> gerr option) outcome" where
  "azure_Verify env tc st now sv message sig =
     bindO (azure_verify env tc st now (zsv_client sv) sig message) (\<lambda>(a, r). Return (sv\<lparr>zsv_client := a\<rparr>, r))"

fun azure_signature_name :: "azure_signature \<Rightarrow> string" where
  "azure_signature_name RS256 = ''RS256''"
| "azure_signature_name RS384 = ''RS384''"
| "azure_signature_name RS512 = ''RS512''"
| "azure_signature_name PS256 = ''PS256''"
| "azure_signature_name PS384 = ''PS384''"
| "azure_signature_name PS512 = ''PS512''"
| "azure_signature_name ES256 = ''ES256''"
| "azure_signature_name ES256K = ''ES256K''"
| "azure_signature_name ES384 = ''ES384''"
| "azure_signature_name ES512 = ''ES512''"

definition azure_SupportedAlgorithms :: "string list" where
  "azure_SupportedAlgorithms = map azure_signature_name azureSupportedAlgorithms"

definition azure_DefaultAlgorithm :: string where
  "azure_DefaultAlgorithm = azure_signature_name ES256"

section \<open>Lemmas\<close>

definition azure_segment :: "string \<Rightarrow> bool" where
  "azure_segment s \<longleftrightarrow> s \<noteq> [] \<and> list_all no_slash s"

definition azure_vault :: "string \<Rightarrow> bool" where
  "azure_vault s \<longleftrightarrow> (\<exists>name. azure_segment name \<and> s = name @ ''.vault.azure.net'')"

definition azure_version :: "string \<Rightarrow> string \<Rightarrow> bool" where
  "azure_version v tail \<longleftrightarrow> (v = [] \<and> tail = []) \<or> (azure_segment v \<and> tail = CHR ''/'' # v)"

lemma azure_vault_segment: "azure_vault s \<Longrightarrow> azure_segment s"
  by (auto simp: azure_vault_def azure_segment_def no_slash_def)

lemma reads_version_tail:
  "reads [ROpt (RSeqs [RLit ''/'', RGroup 3 (RPlus (RChar no_slash))])] s f \<longleftrightarrow>
     (\<exists>v. azure_version v s \<and> f = (\<lambda>n. [])(3 := v))"
proof -
  have none: "(\<lambda>n::nat. [])(3 := []) = (\<lambda>n. [] :: string)" by (simp add: fun_eq_iff)
  have "reads [RGroup 3 (RPlus (RChar no_slash))] s f \<longleftrightarrow> azure_segment s \<and> f = (\<lambda>n. [])(3 := s)" for s f
    by (subst reads_Group) (auto simp: groups_Seqs reads_Nil takes_Plus_Char azure_segment_def)
  then have "reads [ROpt (RSeqs [RLit ''/'', RGroup 3 (RPlus (RChar no_slash))])] s f \<longleftrightarrow>
      (\<exists>v. s = ''/'' @ v \<and> azure_segment v \<and> f = (\<lambda>n. [])(3 := v)) \<or> (s = [] \<and> f = (\<lambda>n. []))"
    unfolding reads_Opt_last reads_Lit by simp
  with none show ?thesis by (auto simp: azure_version_def)
qed

lemma reads_azure:
  "reads azure_RE ref f \<longleftrightarrow> (\<exists>h k v tail. azure_vault h \<and> azure_segment k \<and> azure_version v tail \<and>
     ref = ''azurekms://'' @ h @ ''/'' @ k @ tail \<and> f = (\<lambda>n. [])(3 := v, 2 := k, 1 := h))"
proof -
  have key: "reads (RGroup 2 (RPlus (RChar no_slash)) # [ROpt (RSeqs [RLit ''/'', RGroup 3 (RPlus (RChar no_slash))])]) s f \<longleftrightarrow>
      (\<exists>k v tail. azure_segment k \<and> azure_version v tail \<and> s = k @ tail \<and> f = (\<lambda>n. [])(3 := v, 2 := k))" for s f
    by (subst reads_Group) (auto simp: groups_Seqs takes_Plus_Char reads_version_tail azure_segment_def)
  have host: "takes (RSeqs [RPlus (RChar no_slash), RLit ''.vault.azure.net'']) s w rest c \<longleftrightarrow> s = w @ rest \<and> azure_vault w \<and> c = []" for s w rest c
    by (auto simp: takes_Seqs_Cons takes_Seqs_Nil takes_Plus_Char takes_Lit azure_vault_def azure_segment_def)
  have rest: "reads (RLit ''/'' # RGroup 2 (RPlus (RChar no_slash)) # [ROpt (RSeqs [RLit ''/'', RGroup 3 (RPlus (RChar no_slash))])]) s g \<longleftrightarrow>
      (\<exists>k v tail. azure_segment k \<and> azure_version v tail \<and> s = ''/'' @ k @ tail \<and> g = (\<lambda>n. [])(3 := v, 2 := k))" for s g
    unfolding reads_Lit key by blast
  have "reads (RGroup 1 (RSeqs [RPlus (RChar no_slash), RLit ''.vault.azure.net'']) # RLit ''/'' # RGroup 2 (RPlus (RChar no_slash)) #
        [ROpt (RSeqs [RLit ''/'', RGroup 3 (RPlus (RChar no_slash))])]) s f \<longleftrightarrow>
      (\<exists>h k v tail. azure_vault h \<and> azure_segment k \<and> azure_version v tail \<and> s = h @ ''/'' @ k @ tail \<and>
        f = (\<lambda>n. [])(3 := v, 2 := k, 1 := h))" for s
    by (subst reads_Group, simp add: groups_Seqs, simp add: groups_Seqs) (unfold rest host, blast)
  then show ?thesis unfolding azure_RE_def reads_Lit by blast
qed

lemma azure_version_inj:
  assumes "azure_segment k" "azure_segment k'" "azure_version v tail" "azure_version v' tail'" "k @ tail = k' @ tail'"
  shows "k = k' \<and> v = v'"
proof -
  have no: "CHR ''/'' \<notin> set k" "CHR ''/'' \<notin> set k'"
    using assms(1,2) by (auto simp: azure_segment_def list_all_iff no_slash_def)
  show ?thesis
  proof (cases "tail = [] \<or> tail' = []")
    case True
    then show ?thesis using assms(3-5) no by (fastforce simp: azure_version_def azure_segment_def)
  next
    case False
    with assms(3-5) slash_split [of k k' v v'] assms(1,2) show ?thesis by (auto simp: azure_version_def azure_segment_def)
  qed
qed

lemma getKeyBundle_first:
  assumes "ttl_laws tc" and "azc_keyCache a = tc_New tc" and "getKeyBundle env tc now a = Return (b, Inr k)"
  shows "fetchKeyBundle env now a = Return (Inr k) \<and> b = a\<lparr>azc_keyCache := tc_Set tc (tc_New tc) k 300 now\<rparr>"
proof -
  from assms(1,2) have "tc_Get tc (azc_keyCache a) now = None" by (simp add: ttl_laws_def)
  with assms(3) obtain load where load: "fetchKeyBundle env now a = Return load" and
    "(case load of Inl err \<Rightarrow> Return (a, Inl err)
      | Inr k \<Rightarrow> Return (a\<lparr>azc_keyCache := tc_Set tc (azc_keyCache a) k 300 now\<rparr>, Inr k)) = Return (b, Inr k)"
    by (auto simp: getKeyBundle_def)
  with assms(2) show ?thesis by (cases load) auto
qed

lemma getKeyBundle_again:
  assumes "ttl_laws tc" and "azc_keyCache a = tc_New tc" and "getKeyBundle env tc now a = Return (b, Inr k)"
    and "now \<le> now'" and "now' < now + 300"
  shows "getKeyBundle env tc now' b = Return (b, Inr k)"
proof -
  from getKeyBundle_first [OF assms(1-3)] have "azc_keyCache b = tc_Set tc (tc_New tc) k 300 now" by simp
  moreover have "tc_Get tc (tc_Set tc (tc_New tc) k 300 now) now' = Some k" using assms(1,4,5) by (simp add: ttl_laws_def)
  ultimately show ?thesis by (simp add: getKeyBundle_def)
qed

lemma getKeyBundle_client:
  assumes "getKeyBundle env tc now a = Return (b, r)"
  shows "azc_client b = azc_client a \<and> azc_keyName b = azc_keyName a \<and> azc_keyVersion b = azc_keyVersion a"
proof (cases "tc_Get tc (azc_keyCache a) now")
  case None
  with assms obtain load where "(case load of Inl err \<Rightarrow> Return (a, Inl err)
      | Inr k \<Rightarrow> Return (a\<lparr>azc_keyCache := tc_Set tc (azc_keyCache a) k 300 now\<rparr>, Inr k)) = Return (b, r)"
    by (auto simp: getKeyBundle_def)
  then show ?thesis by (cases load) auto
qed (use assms in \<open>simp add: getKeyBundle_def\<close>)

section \<open>Properties\<close>

text \<open>Which references the Azure provider takes: those with a vault below \<open>vault.azure.net\<close>, a key and maybe a
  version, each without a slash, and it finds just these in them.\<close>

theorem azure_reference_exact:
  "azure_ParseReference ref = Inr (url, k, v) \<longleftrightarrow>
     (\<exists>h tail. azure_vault h \<and> azure_segment k \<and> azure_version v tail \<and> url = ''https://'' @ h @ ''/'' \<and>
        ref = ''azurekms://'' @ h @ ''/'' @ k @ tail)" (is "?L \<longleftrightarrow> ?R")
proof
  assume ?L
  then obtain m where m: "full_match (RSeqs azure_RE) ref = Some m"
    and parts: "url = ''https://'' @ submatch m 1 @ ''/''" "k = submatch m 2" "v = submatch m 3"
    by (auto simp: azure_ParseReference_def split: option.splits)
  from full_match_reads [OF m] parts show ?R unfolding reads_azure by auto
next
  assume ?R
  then obtain h tail where h: "azure_vault h" "azure_segment k" "azure_version v tail" "url = ''https://'' @ h @ ''/''"
    and ref: "ref = ''azurekms://'' @ h @ ''/'' @ k @ tail" by blast
  then have "reads azure_RE ref ((\<lambda>n. [])(3 := v, 2 := k, 1 := h))" unfolding reads_azure by blast
  from reads_full_match [OF this] obtain m where m: "full_match (RSeqs azure_RE) ref = Some m" by blast
  from full_match_reads [OF m] obtain h' k' v' tail' where h': "azure_vault h'" "azure_segment k'" "azure_version v' tail'"
    and ref': "ref = ''azurekms://'' @ h' @ ''/'' @ k' @ tail'" and sub: "submatch m = (\<lambda>n. [])(3 := v', 2 := k', 1 := h')"
    unfolding reads_azure by blast
  from ref ref' slash_split [of h h' "k @ tail" "k' @ tail'"] azure_vault_segment [OF h(1)] azure_vault_segment [OF h'(1)]
  have "h = h'" "k @ tail = k' @ tail'" by (auto simp: azure_segment_def)
  with azure_version_inj [OF h(2) h'(2) h(3) h'(3)] have "h = h'" "k = k'" "v = v'" by auto
  with m sub h(4) show ?L by (simp add: azure_ParseReference_def)
qed

text \<open>C14. What Azure signs also verifies, remotely and locally: a signature that \<open>Sign\<close> returns, with a client whose
  cache is empty, was made with RS256 on the SHA-256 digest of the message with an RSA key, so never with an elliptic
  curve, whatever hash the signer was created with (\<open>zsv_hashFunc\<close>, which \<open>Sign\<close> does not read, although the comment
  on it says that the digest is computed with that hash), and within five minutes \<open>Verify\<close> accepts it for the message, when the service accepts its own signatures
  and these are PKCS #1 v1.5 signatures for the public key it hands out.\<close>

theorem azure_sign_then_verify:
  assumes laws: "ttl_laws tc" and new: "azc_keyCache (zsv_client sv) = tc_New tc"
    and remote: "\<forall>alg digest sig. az_call_Sign env (azc_client (zsv_client sv)) (azc_keyName (zsv_client sv)) (azc_keyVersion (zsv_client sv)) alg digest = Inr (Some sig) \<longrightarrow>
      az_call_Verify env (azc_client (zsv_client sv)) (azc_keyName (zsv_client sv)) (azc_keyVersion (zsv_client sv)) alg digest sig = Inr (Some True)"
    and pkcs: "\<forall>t k n e digest sig. fetchKeyBundle env t (zsv_client sv) = Return (Inr k) \<and> kb_PublicKey k = AzureRSA n e \<and>
      az_call_Sign env (azc_client (zsv_client sv)) (azc_keyName (zsv_client sv)) (azc_keyVersion (zsv_client sv)) RS256 digest = Inr (Some sig) \<longrightarrow>
      lib_verifyPKCS1v15 (az_lib env) (az_rsa env n e) SHA256 digest sig = None"
    and times: "now \<le> now'" "now' \<le> now''" "now'' < now + 300"
    and signed: "azure_Sign env tc now now' sv (Inr msg) = Return (sv', Inr sig)"
  shows "az_call_Sign env (azc_client (zsv_client sv)) (azc_keyName (zsv_client sv)) (azc_keyVersion (zsv_client sv))
      RS256 (lib_hash (az_lib env) SHA256 msg) = Inr (Some sig) \<and>
    azure_Verify env tc st now'' sv' (Inr msg) sig = Return (sv', None)"
proof -
  let ?a = "zsv_client sv"
  from signed obtain b r where b: "getKeyBundle env tc now ?a = Return (b, r)"
    by (auto simp: azure_Sign_def azure_getHashFunc_def)
  with signed obtain k where r: "r = Inr k" by (cases r) (auto simp: azure_Sign_def azure_getHashFunc_def)
  note again = getKeyBundle_again [OF laws new b [unfolded r]] and same = getKeyBundle_client [OF b]
  have at: "getKeyBundle env tc now' b = Return (b, Inr k)" "getKeyBundle env tc now'' b = Return (b, Inr k)"
    using again times by auto
  from getKeyBundle_first [OF laws new b [unfolded r]] have fetched: "fetchKeyBundle env now ?a = Return (Inr k)" ..
  from signed b r at obtain n e where rsa: "kb_PublicKey k = AzureRSA n e"
    and sig: "az_call_Sign env (azc_client b) (azc_keyName b) (azc_keyVersion b) RS256 (lib_hash (az_lib env) SHA256 msg) = Inr (Some sig)"
    and sv': "sv' = sv\<lparr>zsv_client := b\<rparr>"
    by (cases "kb_PublicKey k")
      (auto simp: azure_Sign_def azure_getHashFunc_def azure_sign_def ComputeDigest_def Digest_def azure_HashFunc_def azure_SigningAlgorithm_def
        split: if_splits sum.splits option.splits)
  have hash: "azure_HashFunc k = SHA256" "azure_SigningAlgorithm k = RS256"
    using rsa by (simp_all add: azure_HashFunc_def azure_SigningAlgorithm_def)
  from remote sig same
  have "az_call_Verify env (azc_client b) (azc_keyName b) (azc_keyVersion b) RS256 (lib_hash (az_lib env) SHA256 msg) sig = Inr (Some True)"
    by simp
  moreover have "ComputeDigest (az_lib env) (Inr msg) SHA256 (Some azureSupportedHashFuncs) = Inr (lib_hash (az_lib env) SHA256 msg, SHA256)"
    by (simp add: ComputeDigest_def isSupportedAlg_def azureSupportedHashFuncs_def Digest_def)
  moreover have "lib_verifyPKCS1v15 (az_lib env) (az_rsa env n e) SHA256 (lib_hash (az_lib env) SHA256 msg) sig = None"
    using pkcs [rule_format, of now k n e] fetched rsa sig same by simp
  ultimately show ?thesis using at hash rsa sig same
    by (auto simp: azure_Verify_def azure_verify_def azure_verifyRemotely_def sv' kb_Verifier_def azure_key_def NewVerifier_def
        cu_VerifyWithHash_def Digest_def split: option.splits)
qed

section \<open>Samples\<close>

text \<open>An RSA key whose signatures are the digest after the modulus 5.\<close>

definition sample_azure_env :: azure_env where
  "sample_azure_env =
     \<lparr>az_lib = sample_lib\<lparr>lib_verifyPKCS1v15 := \<lambda>k h d sig. if sig = d then None else Some (LibError ''pkcs1v15'')\<rparr>,
      az_rsa = \<lambda>n e. ''k'', az_ec = \<lambda>c x y. ''c'', az_NewDefaultAzureCredential = Inr ''cred'', az_NewClient = \<lambda>u c. Inr u,
      az_GetKey = \<lambda>h t n v. Inr (Some \<lparr>jwk_Kty = Some ''RSA'', jwk_N = Some [CHR 0x05], jwk_E = Some [CHR 0x03], jwk_X = None,
        jwk_Y = None, jwk_Crv = None, jwk_KeyOps = [''sign'']\<rparr>),
      az_call_Sign = \<lambda>h n v alg d. Inr (Some d),
      az_call_Verify = \<lambda>h n v alg d sig. Inr (Some (sig = d))\<rparr>"

definition sample_azure_signer :: "(keyBundle \<times> int \<times> int) option azure_SignerVerifier" where
  "sample_azure_signer =
     \<lparr>zsv_reference = ''azurekms://v.vault.azure.net/k'',
      zsv_client = \<lparr>azc_client = ''c'', azc_vaultURL = ''https://v.vault.azure.net/'', azc_keyName = ''k'', azc_keyVersion = [],
        azc_keyCache = None\<rparr>,
      zsv_hashFunc = SHA512\<rparr>"

definition sample_key_bundle :: keyBundle where
  "sample_key_bundle = \<lparr>kb_Key = Some \<lparr>jwk_Kty = Some ''RSA'', jwk_N = Some [CHR 0x05], jwk_E = Some [CHR 0x03], jwk_X = None,
     jwk_Y = None, jwk_Crv = None, jwk_KeyOps = [''sign'']\<rparr>, kb_PublicKey = AzureRSA 5 3\<rparr>"

lemma sample_bundle: "fetchKeyBundle sample_azure_env t a = Return (Inr sample_key_bundle)"
  by (simp add: fetchKeyBundle_def azure_fetchKey_def sample_azure_env_def extractRSAPublicKey_def big_SetBytes_def big_Int64_def
      sample_key_bundle_def)

theorem azure_sign_then_verify_witness:
  "\<exists>sv'. azure_Sign sample_azure_env sample_cache 10 11 sample_azure_signer (Inr ''m'') = Return (sv', Inr ''m'') \<and>
     azure_Verify sample_azure_env sample_cache fresh_store 12 sv' (Inr ''m'') ''m'' = Return (sv', None)"
proof -
  let ?a = "zsv_client sample_azure_signer"
  let ?b = "?a\<lparr>azc_keyCache := Some (sample_key_bundle, 300, 10)\<rparr>"
  have new: "azc_keyCache ?a = tc_New sample_cache" by (simp add: sample_azure_signer_def sample_cache_def)
  have first: "getKeyBundle sample_azure_env sample_cache 10 ?a = Return (?b, Inr sample_key_bundle)"
    by (simp add: getKeyBundle_def sample_bundle sample_cache_def sample_azure_signer_def)
  have "getKeyBundle sample_azure_env sample_cache 11 ?b = Return (?b, Inr sample_key_bundle)"
    by (simp add: getKeyBundle_def sample_cache_def)
  moreover have "azure_HashFunc sample_key_bundle = SHA256" "kb_PublicKey sample_key_bundle = AzureRSA 5 3"
    by (simp_all add: azure_HashFunc_def sample_key_bundle_def)
  moreover have "lib_hash (az_lib sample_azure_env) h d = d" "az_call_Sign sample_azure_env c n v alg d = Inr (Some d)" for h d c n v alg
    by (simp_all add: sample_azure_env_def sample_lib_def)
  ultimately obtain sv' where signed: "azure_Sign sample_azure_env sample_cache 10 11 sample_azure_signer (Inr ''m'') = Return (sv', Inr ''m'')"
    using first by (simp add: azure_Sign_def azure_getHashFunc_def azure_sign_def ComputeDigest_def isSupportedAlg_def
        azureSupportedHashFuncs_def Digest_def)
  have "azure_Verify sample_azure_env sample_cache fresh_store 12 sv' (Inr ''m'') ''m'' = Return (sv', None)"
    by (rule azure_sign_then_verify [OF sample_cache_laws new _ _ _ _ _ signed, THEN conjunct2])
      (simp_all add: sample_azure_env_def)
  with signed show ?thesis by blast
qed

end
