(* ===== verification/Kms_Hashivault.thy ===== *)
theory Kms_Hashivault
  imports Kms_Store Go_Regexp Base64 Command_Run
begin

text \<open>
  The Vault key service: \<open>client.go\<close>, \<open>auth.go\<close> and \<open>signer.go\<close> of \<open>signer/kms/hashivault\<close>; its options are in
  \<open>Kms_Store\<close>.

  The Vault client and the file system are parameters, in \<open>hv_env\<close>. Loading a signer writes to the shared options, so
  it works on the store. The renewal of the token runs beside the signer: it is a loop over the events it sees.
\<close>

section \<open>References\<close>

definition path_class :: "char \<Rightarrow> bool" where
  "path_class c \<longleftrightarrow> word_class c \<or> c = CHR ''-'' \<or> c = CHR ''.''"

definition path_RE :: regexp where
  "path_RE =
     RSeqs [RChar word_class, ROpt (RGroup 2 (RSeqs [ROpt (RGroup 3 (RPlus (RChar path_class))), RChar word_class]))]"

definition referenceRegex :: regexp where
  "referenceRegex = RSeqs [RLit ''hashivault://'', RGroup 1 path_RE]"

definition hv_ValidReference :: "string \<Rightarrow> gerr option" where
  "hv_ValidReference ref =
     (if \<not> MatchString referenceRegex ref
      then Some (Errorf ''kms specification should be in the format hashivault://<key>'' []) else None)"

definition hv_parseReference :: "string \<Rightarrow> gerr + string" where
  "hv_parseReference resourceID =
     (case full_match referenceRegex resourceID of
        None \<Rightarrow> Inl (Errorf ''invalid vault format %q'' [FStr resourceID])
      | Some v \<Rightarrow> Inr (submatch v 1))"

section \<open>The client\<close>

text \<open>A client of Vault with its token, and what a login yields. A response is its data; \<open>None\<close> is a nil response.\<close>

record vault_client =
  vc_handle :: string
  vc_token :: string

record vault_secret =
  vs_ClientToken :: string
  vs_LeaseDuration :: int

datatype hv_arg = ArgString string | ArgBool bool | ArgInt int

type_synonym vault_response = "(string, json) gomap option"

record hv_env =
  hv_lib :: crypto_lib
  hv_NewClient :: "string option \<Rightarrow> gerr + vault_client"
  hv_ReadFile :: "string \<Rightarrow> gerr + bytes"
  hv_NewKubernetesAuth :: "string \<Rightarrow> string \<Rightarrow> string \<Rightarrow> gerr + string"
  hv_Login :: "nat \<Rightarrow> vault_client \<Rightarrow> string \<Rightarrow> gerr + vault_secret"
  hv_NewLifetimeWatcher :: "nat \<Rightarrow> vault_client \<Rightarrow> vault_secret option \<Rightarrow> gerr option"
  hv_Write :: "vault_client \<Rightarrow> string \<Rightarrow> (string, hv_arg) gomap \<Rightarrow> gerr + vault_response"
  hv_Read :: "vault_client \<Rightarrow> string \<Rightarrow> gerr + vault_response"

record hv_client =
  hvc_client :: "vault_client option"
  hvc_keyPath :: string
  hvc_transitSecretsEnginePath :: string
  hvc_keyVersion :: int
  hvc_authMethod :: string
  hvc_tokenPath :: string
  hvc_kubernetesAuthMountPath :: string
  hvc_kubernetesSaTokenPath :: string
  hvc_role :: string

text \<open>Logging in, for the \<open>n\<close>-th time; with a token there is nothing to renew. The Vault client keeps the token.\<close>

definition hv_login :: "hv_env \<Rightarrow> nat \<Rightarrow> hv_client \<Rightarrow> hv_client \<times> (gerr + vault_secret option)" where
  "hv_login env n c =
     (case hvc_client c of
        None \<Rightarrow> (c, Inl (Errorf ''vault client cannot be nil for login'' []))
      | Some vc \<Rightarrow>
          if to_lower (hvc_authMethod c) = ''token''
          then (case (if hvc_tokenPath c \<noteq> []
                      then (case hv_ReadFile env (hvc_tokenPath c) of
                              Inl err \<Rightarrow> Inl (Errorf ''could not read vault token file: %w'' [FErr err])
                            | Inr tokenBytes \<Rightarrow> Inr tokenBytes)
                      else Inr []) of
                  Inl err \<Rightarrow> (c, Inl err)
                | Inr token \<Rightarrow>
                    (if token \<noteq> [] then c\<lparr>hvc_client := Some (vc\<lparr>vc_token := token\<rparr>)\<rparr> else c, Inr None))
          else if to_lower (hvc_authMethod c) = ''kubernetes''
          then (case hv_NewKubernetesAuth env (hvc_role c) (hvc_kubernetesSaTokenPath c) (hvc_kubernetesAuthMountPath c) of
                  Inl err \<Rightarrow> (c, Inl (Errorf ''could not create kubernetes auth method: %w'' [FErr err]))
                | Inr authMethod \<Rightarrow>
                    (case hv_Login env n vc authMethod of
                       Inl err \<Rightarrow> (c, Inl (Errorf ''could not login with kubernetes auth method: %w'' [FErr err]))
                     | Inr authInfo \<Rightarrow>
                         (c\<lparr>hvc_client := Some (vc\<lparr>vc_token := vs_ClientToken authInfo\<rparr>)\<rparr>, Inr (Some authInfo))))
          else (c, Inl (Errorf ''unknown auth method: %v'' [FStr (hvc_authMethod c)])))"

text \<open>A new client, with the secret that a renewal starts from beside it, if any.\<close>

definition hv_newClient :: "hv_env \<Rightarrow> hvClientOptions \<Rightarrow> gerr + hv_client \<times> vault_secret option" where
  "hv_newClient env opts =
     (case hv_NewClient env (if hco_addr opts \<noteq> [] then Some (hco_addr opts) else None) of
        Inl err \<Rightarrow> Inl (Errorf ''could not create vault client: %w'' [FErr err])
      | Inr vaultClient \<Rightarrow>
          (case hv_login env 0 \<lparr>hvc_client = Some vaultClient, hvc_keyPath = hco_keyPath opts,
                  hvc_transitSecretsEnginePath = hco_transitSecretEnginePath opts, hvc_keyVersion = hco_keyVersion opts,
                  hvc_authMethod = hco_authMethod opts, hvc_tokenPath = hco_tokenPath opts,
                  hvc_kubernetesAuthMountPath = hco_kubernetesMountPath opts,
                  hvc_kubernetesSaTokenPath = hco_kubernetesSaTokenPath opts, hvc_role = hco_role opts\<rparr> of
             (c, Inl err) \<Rightarrow> Inl (Errorf ''could not authenticate with vault: %w'' [FErr err])
           | (c, Inr authInfo) \<Rightarrow> Inr (c, authInfo)))"

definition supportedHashesToString :: "(crypto_hash, string) gomap" where
  "supportedHashesToString = [(SHA224, ''sha2-224''), (SHA256, ''sha2-256''), (SHA384, ''sha2-384''), (SHA512, ''sha2-512'')]"

definition response_panic :: string where "response_panic = ''nil pointer dereference''"

text \<open>A call whose response is nil, though there is no error, makes the code panic.\<close>

definition with_data ::
  "(vault_client \<Rightarrow> gerr + vault_response) \<Rightarrow> hv_client \<Rightarrow> string \<Rightarrow> ((string, json) gomap \<Rightarrow> gerr + 'a) \<Rightarrow> (gerr + 'a) outcome"
where
  "with_data call c complaint f =
     (case hvc_client c of
        None \<Rightarrow> Panic response_panic
      | Some vc \<Rightarrow>
          (case call vc of
             Inl err \<Rightarrow> Return (Inl (Errorf complaint [FErr err]))
           | Inr None \<Rightarrow> Panic response_panic
           | Inr (Some data) \<Rightarrow> Return (f data)))"

definition transit_path :: "hv_client \<Rightarrow> string \<Rightarrow> string \<Rightarrow> string" where
  "transit_path c op hashStr =
     ''/'' @ hvc_transitSecretsEnginePath c @ ''/'' @ op @ ''/'' @ hvc_keyPath c @ ''/'' @ hashStr"

definition sign_args :: "hv_client \<Rightarrow> bytes \<Rightarrow> (string, hv_arg) gomap" where
  "sign_args c digest =
     [(''input'', ArgString (EncodeToString digest)), (''prehashed'', ArgBool True),
      (''key_version'', ArgInt (hvc_keyVersion c)), (''signature_algorithm'', ArgString ''pkcs1v15'')]"

definition hv_sign :: "hv_env \<Rightarrow> hv_client \<Rightarrow> bytes \<Rightarrow> crypto_hash \<Rightarrow> (gerr + bytes) outcome" where
  "hv_sign env c digest hashFunc =
     (case map_of supportedHashesToString hashFunc of
        None \<Rightarrow> Return (Inl (Errorf ''unsupported hash algorithm: %v'' [FStr (hash_string hashFunc)]))
      | Some hashStr \<Rightarrow>
          with_data (\<lambda>vc. hv_Write env vc (transit_path c ''sign'' hashStr) (sign_args c digest)) c ''could not sign: %w'' (\<lambda>data.
            case map_of data ''signature'' of
              None \<Rightarrow> Inl (Errorf ''no signature in response: %w'' [])
            | Some (JString sigStr) \<Rightarrow> Inr sigStr
            | Some _ \<Rightarrow> Inl (Errorf ''invalid signature in response'' [])))"

fun go_type :: "json \<Rightarrow> string" where
  "go_type JNull = ''<nil>''"
| "go_type (JBool b) = ''bool''"
| "go_type (JNumber n) = ''json.Number''"
| "go_type (JString s) = ''string''"
| "go_type (JArray js) = ''[]interface {}''"
| "go_type (JObject fs) = ''map[string]interface {}''"

text \<open>The version of the key is not part of the request.\<close>

definition verify_args :: "bytes \<Rightarrow> bytes \<Rightarrow> (string, hv_arg) gomap" where
  "verify_args digest sig =
     [(''signature_algorithm'', ArgString ''pkcs1v15''), (''input'', ArgString (EncodeToString digest)),
      (''signature'', ArgString sig), (''prehashed'', ArgBool True)]"

definition hv_verify :: "hv_env \<Rightarrow> hv_client \<Rightarrow> reader \<Rightarrow> bytes \<Rightarrow> crypto_hash \<Rightarrow> gerr option outcome" where
  "hv_verify env c r sig hashFunc =
     (case map_of supportedHashesToString hashFunc of
        None \<Rightarrow> Return (Some (Errorf ''unsupported hash algorithm: %v'' [FStr (hash_string hashFunc)]))
      | Some hashStr \<Rightarrow>
          (case Digest (hv_lib env) r hashFunc of
             Inl err \<Rightarrow> Return (Some (Errorf ''could not calculate digest: %w'' [FErr err]))
           | Inr digest \<Rightarrow>
               bindO (with_data (\<lambda>vc. hv_Write env vc (transit_path c ''verify'' hashStr) (verify_args digest sig)) c
                        ''could not verify: %w'' (\<lambda>data.
                   case map_of data ''valid'' of
                     None \<Rightarrow> Inl (Errorf ''invalid response'' [])
                   | Some (JBool valid) \<Rightarrow> if \<not> valid then Inl (Errorf ''failed verification'' []) else Inr ()
                   | Some v \<Rightarrow> Inl (Errorf ''expected valid to be bool but is %T'' [FStr (go_type v)])))
                 (\<lambda>r. Return (case r of Inl err \<Rightarrow> Some err | Inr u \<Rightarrow> None))))"

definition latest_version :: "(string, json) gomap \<Rightarrow> gerr + string" where
  "latest_version data =
     (case map_of data ''latest_version'' of
        None \<Rightarrow> Inl (Errorf ''latest key version not in response'' [])
      | Some (JNumber n) \<Rightarrow> Inr n
      | Some _ \<Rightarrow> Inl (Errorf ''latest version not a number'' []))"

definition public_key_of :: "(string, json) gomap \<Rightarrow> string \<Rightarrow> gerr + bytes" where
  "public_key_of data keyVersion =
     (case map_of data ''keys'' of
        None \<Rightarrow> Inl (Errorf ''no keys in response'' [])
      | Some (JObject keysMap) \<Rightarrow>
          (case map_of keysMap keyVersion of
             None \<Rightarrow> Inl (Errorf ''could not find key with version %v'' [FStr keyVersion])
           | Some (JObject keyMap) \<Rightarrow>
               (case map_of keyMap ''public_key'' of
                  None \<Rightarrow> Inl (Errorf ''public key not in key data'' [])
                | Some (JString publicKeyStr) \<Rightarrow> Inr publicKeyStr
                | Some _ \<Rightarrow> Inl (Errorf ''unexpected public key data in response'' []))
           | Some _ \<Rightarrow> Inl (Errorf ''unexpected key data format in response'' []))
      | Some _ \<Rightarrow> Inl (Errorf ''unexpected keys value in response'' []))"

definition getPublicKeyBytes :: "hv_env \<Rightarrow> hv_client \<Rightarrow> (gerr + bytes) outcome" where
  "getPublicKeyBytes env c =
     with_data (\<lambda>vc. hv_Read env vc (''/'' @ hvc_transitSecretsEnginePath c @ ''/keys/'' @ hvc_keyPath c)) c ''could not read key: %w''
       (\<lambda>data. case (if itoa (hvc_keyVersion c) = ''0'' then latest_version data else Inr (itoa (hvc_keyVersion c))) of
                 Inl err \<Rightarrow> Inl err
               | Inr keyVersion \<Rightarrow> public_key_of data keyVersion)"

section \<open>The renewal of the token\<close>

text \<open>What the loop of \<open>renewAuth\<close> may see: the context is done, the watcher is done, or it renewed the token.\<close>

datatype watch_event = ContextDone | WatcherDone "gerr option" | Renewed int

datatype renew_error = ContextDoneErr | NeedLoginErr "gerr option" | OtherRenewErr gerr

text \<open>The error with the events that are left; \<open>None\<close> while the loop waits.\<close>

fun watch :: "watch_event list \<Rightarrow> (renew_error \<times> watch_event list) option" where
  "watch [] = None"
| "watch (ContextDone # es) = Some (ContextDoneErr, es)"
| "watch (WatcherDone err # es) = Some (NeedLoginErr err, es)"
| "watch (Renewed d # es) = watch es"

definition renewAuth ::
  "hv_env \<Rightarrow> nat \<Rightarrow> hv_client \<Rightarrow> vault_secret option \<Rightarrow> watch_event list \<Rightarrow> (renew_error \<times> watch_event list) option" where
  "renewAuth env n c authInfo es =
     (case hvc_client c of
        None \<Rightarrow> Some (OtherRenewErr (Errorf ''could not create vault token watcher: %w'' []), es)
      | Some vc \<Rightarrow>
          (case hv_NewLifetimeWatcher env n vc authInfo of
             Some err \<Rightarrow> Some (OtherRenewErr (Errorf ''could not create vault token watcher: %w'' [FErr err]), es)
           | None \<Rightarrow> watch es))"

lemma watch_shorter: "watch es = Some (e, rest) \<Longrightarrow> length rest < length es"
  by (induction es rule: watch.induct) auto

lemma renewAuth_shorter: "renewAuth env n c a es = Some (NeedLoginErr err, rest) \<Longrightarrow> length rest < length es"
  by (auto simp: renewAuth_def split: option.splits dest: watch_shorter)

datatype renewal = NothingToRenew | Waiting | StoppedByContext | LoginFailed gerr | RenewalFailed gerr

text \<open>The loop after the first login, \<open>n\<close> counts the logins; then \<open>periodicallyRenewAuth\<close>.\<close>

function renew_loop ::
  "hv_env \<Rightarrow> nat \<Rightarrow> hv_client \<Rightarrow> vault_secret option \<Rightarrow> watch_event list \<Rightarrow> hv_client \<times> renewal" where
  "renew_loop env n c authInfo es =
     (case renewAuth env n c authInfo es of
        None \<Rightarrow> (c, Waiting)
      | Some (ContextDoneErr, rest) \<Rightarrow> (c, StoppedByContext)
      | Some (NeedLoginErr err, rest) \<Rightarrow>
          (case hv_login env n c of
             (c, Inl err) \<Rightarrow> (c, LoginFailed err)
           | (c, Inr authInfo) \<Rightarrow> renew_loop env (Suc n) c authInfo rest)
      | Some (OtherRenewErr err, rest) \<Rightarrow> (c, RenewalFailed err))"
  by pat_completeness auto
termination
  by (relation "measure (\<lambda>(env, n, c, a, es). length es)") (auto dest: renewAuth_shorter)

declare renew_loop.simps [simp del]

definition periodicallyRenewAuth ::
  "hv_env \<Rightarrow> hv_client \<Rightarrow> vault_secret option \<Rightarrow> watch_event list \<Rightarrow> hv_client \<times> renewal" where
  "periodicallyRenewAuth env c authInfo es =
     (if authInfo = None then (c, NothingToRenew) else renew_loop env 1 c authInfo es)"

section \<open>The signer\<close>

record hv_SignerVerifier =
  hsv_reference :: string
  hsv_hashFunc :: crypto_hash
  hsv_client :: hv_client

text \<open>\<open>strconv.ParseInt\<close> in base 10, for a number of the given width.\<close>

definition ParseInt :: "nat \<Rightarrow> string \<Rightarrow> gerr + int" where
  "ParseInt bits s =
     (let (neg, ds) = (if s \<noteq> [] \<and> (hd s = CHR ''-'' \<or> hd s = CHR ''+'') then (hd s = CHR ''-'', tl s) else (False, s))
      in if ds = [] then Inl (LibError ''strconv.ParseInt: invalid syntax'')
         else (case parse_digits ds 0 of
                 None \<Rightarrow> Inl (LibError ''strconv.ParseInt: invalid syntax'')
               | Some n \<Rightarrow>
                   (let i = (if neg then - n else n)
                    in if i < - (2 ^ (bits - 1)) \<or> 2 ^ (bits - 1) \<le> i then Inl (LibError ''strconv.ParseInt: value out of range'')
                       else Inr i)))"

text \<open>The path and the version of the key are written to the shared options; an empty version leaves the one before.\<close>

definition hv_LoadSignerVerifier ::
  "hv_env \<Rightarrow> kms_store \<Rightarrow> kms_provider \<Rightarrow> kms_store \<times> (gerr + hv_SignerVerifier \<times> vault_secret option)" where
  "hv_LoadSignerVerifier env st ksp =
     (if map_of (ksp_Options ksp) ''kms-hashivault'' \<noteq> Some HashivaultClient
      then (st, Inl (Errorf ''unexpected client options type: %T'' []))
      else (case hv_parseReference (ksp_Reference ksp) of
              Inl err \<Rightarrow> (st, Inl (Errorf ''could not parse vault ref: %w'' [FErr err]))
            | Inr keyPath \<Rightarrow>
                (let st = st\<lparr>ks_hv := (ks_hv st)\<lparr>hco_keyPath := keyPath\<rparr>\<rparr>
                 in case ksp_HashFunc ksp of
                      None \<Rightarrow> (st, Inl (Errorf ''vault does not support provided hash function %v'' [FStr ''unknown hash value 0'']))
                    | Some h \<Rightarrow>
                        if map_of supportedHashesToString h = None
                        then (st, Inl (Errorf ''vault does not support provided hash function %v'' [FStr (hash_string h)]))
                        else (case (if ksp_KeyVersion ksp \<noteq> [] then ParseInt 32 (ksp_KeyVersion ksp) else Inr (hco_keyVersion (ks_hv st))) of
                                Inl err \<Rightarrow> (st, Inl (Errorf ''invalid vault key version %v: %w'' [FStr (ksp_KeyVersion ksp), FErr err]))
                              | Inr keyVer \<Rightarrow>
                                  (let st = st\<lparr>ks_hv := (ks_hv st)\<lparr>hco_keyVersion := keyVer\<rparr>\<rparr>
                                   in case hv_newClient env (ks_hv st) of
                                        Inl err \<Rightarrow> (st, Inl (Errorf ''could not create vault client: %w'' [FErr err]))
                                      | Inr (client, authInfo) \<Rightarrow>
                                          (st, Inr (\<lparr>hsv_reference = ksp_Reference ksp, hsv_hashFunc = h, hsv_client = client\<rparr>,
                                            authInfo)))))))"

definition hv_KeyID :: "hv_SignerVerifier \<Rightarrow> gerr + string" where
  "hv_KeyID sv = Inr (hsv_reference sv)"

definition hv_Sign :: "hv_env \<Rightarrow> hv_SignerVerifier \<Rightarrow> reader \<Rightarrow> (gerr + bytes) outcome" where
  "hv_Sign env sv r =
     (case Digest (hv_lib env) r (hsv_hashFunc sv) of
        Inl err \<Rightarrow> Return (Inl (Errorf ''could not calculate digest: %w'' [FErr err]))
      | Inr digest \<Rightarrow> hv_sign env (hsv_client sv) digest (hsv_hashFunc sv))"

definition hv_Bytes :: "hv_env \<Rightarrow> hv_SignerVerifier \<Rightarrow> (gerr + bytes) outcome" where
  "hv_Bytes env sv = getPublicKeyBytes env (hsv_client sv)"

definition hv_Verify :: "hv_env \<Rightarrow> hv_SignerVerifier \<Rightarrow> reader \<Rightarrow> bytes \<Rightarrow> gerr option outcome" where
  "hv_Verify env sv r sig = hv_verify env (hsv_client sv) r sig (hsv_hashFunc sv)"

section \<open>Lemmas\<close>

definition hv_path :: "string \<Rightarrow> bool" where
  "hv_path p \<longleftrightarrow> p \<noteq> [] \<and> word_class (hd p) \<and> word_class (last p) \<and> list_all path_class p"

lemma word_path_class: "word_class c \<Longrightarrow> path_class c"
  by (simp add: path_class_def)

lemma hv_path_cases: "hv_path p \<longleftrightarrow> (\<exists>c. word_class c \<and> (p = [c] \<or> (\<exists>m d. word_class d \<and> list_all path_class m \<and> p = c # m @ [d])))"
proof
  assume p: "hv_path p"
  then obtain c q where q: "p = c # q" "word_class c" by (cases p) (auto simp: hv_path_def)
  show "\<exists>c. word_class c \<and> (p = [c] \<or> (\<exists>m d. word_class d \<and> list_all path_class m \<and> p = c # m @ [d]))"
  proof (cases q rule: rev_cases)
    case (snoc m d)
    with p q show ?thesis by (auto simp: hv_path_def)
  qed (use q in auto)
qed (auto simp: hv_path_def word_path_class)

lemma takes_path_inner:
  "(\<exists>c. takes (RSeqs [ROpt (RGroup 3 (RPlus (RChar path_class))), RChar word_class]) w w [] c) \<longleftrightarrow>
     (\<exists>m d. word_class d \<and> list_all path_class m \<and> w = m @ [d])" (is "?L \<longleftrightarrow> ?R")
proof
  assume ?L
  then show ?R by (fastforce simp: takes_Seqs_Cons takes_Seqs_Nil takes_Char takes_Opt takes_Group takes_Plus_Char)
next
  assume ?R
  then obtain m d where d: "word_class d" "list_all path_class m" "w = m @ [d]" by blast
  then have "\<exists>c. takes (ROpt (RGroup 3 (RPlus (RChar path_class)))) (m @ [d]) m [d] c"
    by (cases "m = []") (auto simp: takes_Opt takes_Group takes_Plus_Char)
  then obtain c where "takes (ROpt (RGroup 3 (RPlus (RChar path_class)))) (m @ [d]) m [d] c" by blast
  with d show ?L unfolding takes_Seqs_Cons takes_Seqs_Nil takes_Char by force
qed

lemma takes_path_tail:
  "(\<exists>c. takes (RSeqs [ROpt (RGroup 2 r)]) w w [] c) \<longleftrightarrow> w = [] \<or> (\<exists>c. takes r w w [] c)"
proof -
  have "(\<exists>c. takes (RSeqs [ROpt (RGroup 2 r)]) w w [] c) \<longleftrightarrow> (\<exists>c. takes (ROpt (RGroup 2 r)) w w [] c)"
    by (auto simp: takes_Seqs_Cons takes_Seqs_Nil)
  also have "\<dots> \<longleftrightarrow> w = [] \<or> (\<exists>c. takes r w w [] c)" by (auto simp: takes_Opt takes_Group)
  finally show ?thesis .
qed

lemma takes_head:
  "(\<exists>c. takes (RSeqs (RChar P # rs)) w w [] c) \<longleftrightarrow> (\<exists>x v. w = x # v \<and> P x \<and> (\<exists>c. takes (RSeqs rs) v v [] c))"
proof
  assume "\<exists>c. takes (RSeqs (RChar P # rs)) w w [] c"
  then obtain w1 w2 c1 c2 where "w = w1 @ w2" "takes (RChar P) w w1 (w2 @ []) c1" "takes (RSeqs rs) (w2 @ []) w2 [] c2"
    unfolding takes_Seqs_Cons by blast
  then show "\<exists>x v. w = x # v \<and> P x \<and> (\<exists>c. takes (RSeqs rs) v v [] c)" by (auto simp: takes_Char)
next
  assume "\<exists>x v. w = x # v \<and> P x \<and> (\<exists>c. takes (RSeqs rs) v v [] c)"
  then obtain x v c where w: "w = [x] @ v" and x: "takes (RChar P) w [x] (v @ []) []" and v: "takes (RSeqs rs) (v @ []) v [] c"
    by (auto simp: takes_Char)
  show "\<exists>c. takes (RSeqs (RChar P # rs)) w w [] c"
    by (intro exI takes_Seqs_Cons [THEN iffD2] conjI, rule w, rule x, rule v, rule refl)
qed

lemma takes_path: "(\<exists>c. takes path_RE w w [] c) \<longleftrightarrow> hv_path w"
  unfolding path_RE_def takes_head takes_path_tail takes_path_inner hv_path_cases by blast

lemma takes_reference: "takes referenceRegex ref ref [] caps \<Longrightarrow> \<exists>p. hv_path p \<and> ref = ''hashivault://'' @ p \<and> submatch caps 1 = p"
proof -
  assume "takes referenceRegex ref ref [] caps"
  then obtain w c where c: "takes path_RE w w [] c" and ref: "ref = ''hashivault://'' @ w"
    and caps: "caps = put_all (put_all [] (AList.update 1 w c)) []"
    by (auto simp: referenceRegex_def takes_Seqs_Cons takes_Seqs_Nil takes_Lit takes_Group)
  have "gomap_ok c" using takes_caps [OF c] by (simp add: caps_of_def)
  then have "submatch caps 1 = w" by (simp add: caps submatch_def map_of_put_all_ok update_conv' map_add_def)
  with c ref takes_path show ?thesis by blast
qed

lemma reference_takes: "hv_path p \<Longrightarrow> \<exists>caps. takes referenceRegex (''hashivault://'' @ p) (''hashivault://'' @ p) [] caps"
proof -
  assume "hv_path p"
  then obtain c where "takes path_RE p p [] c" using takes_path by blast
  then have "takes (RSeqs [RGroup 1 path_RE]) p p [] (put_all [] (AList.update 1 p c))"
    unfolding takes_Seqs_Cons takes_Seqs_Nil takes_Group by force
  then show ?thesis unfolding referenceRegex_def takes_Seqs_Cons [of "RLit _"] takes_Lit by force
qed

lemma hv_login_keeps:
  "hv_login env n c = (c', r) \<Longrightarrow> hvc_keyVersion c' = hvc_keyVersion c \<and> hvc_keyPath c' = hvc_keyPath c \<and>
     hvc_transitSecretsEnginePath c' = hvc_transitSecretsEnginePath c"
  by (auto simp: hv_login_def split: option.splits if_splits sum.splits)

lemma hv_newClient_keeps:
  "hv_newClient env opts = Inr (c, a) \<Longrightarrow> hvc_keyVersion c = hco_keyVersion opts \<and> hvc_keyPath c = hco_keyPath opts"
  by (auto simp: hv_newClient_def split: sum.splits prod.splits dest!: hv_login_keeps)

text \<open>The decimal numerals of an integer: digits (the characters 48 to 57), after at most one sign.\<close>

definition digits_value :: "string \<Rightarrow> int" where
  "digits_value ds = foldl (\<lambda>a c. 10 * a + (of_char c - 48)) 0 ds"

definition decimal :: "string \<Rightarrow> int \<Rightarrow> bool" where
  "decimal s n \<longleftrightarrow> (\<exists>sign ds. s = sign @ ds \<and> sign \<in> {[], ''+'', ''-''} \<and> ds \<noteq> [] \<and>
     (\<forall>c \<in> set ds. (of_char c :: nat) \<in> {48..57}) \<and> n = (if sign = ''-'' then - digits_value ds else digits_value ds))"

lemma parse_digits_foldl:
  "parse_digits ds acc =
     (if \<forall>c \<in> set ds. (of_char c :: nat) \<in> {48..57} then Some (foldl (\<lambda>a c. 10 * a + (of_char c - 48)) acc ds) else None)"
  by (induction ds arbitrary: acc) (simp_all add: digit_value_def)

lemma parse_digits_value:
  "parse_digits ds 0 = Some n \<longleftrightarrow> (\<forall>c \<in> set ds. (of_char c :: nat) \<in> {48..57}) \<and> n = digits_value ds"
  by (auto simp: parse_digits_foldl digits_value_def)

lemma decimal_signs:
  "decimal s n \<longleftrightarrow>
     (s \<noteq> [] \<and> (\<forall>c \<in> set s. (of_char c :: nat) \<in> {48..57}) \<and> n = digits_value s) \<or>
     (\<exists>ds. s = CHR ''+'' # ds \<and> ds \<noteq> [] \<and> (\<forall>c \<in> set ds. (of_char c :: nat) \<in> {48..57}) \<and> n = digits_value ds) \<or>
     (\<exists>ds. s = CHR ''-'' # ds \<and> ds \<noteq> [] \<and> (\<forall>c \<in> set ds. (of_char c :: nat) \<in> {48..57}) \<and> n = - digits_value ds)"
  unfolding decimal_def
  by (simp del: atLeastAtMost_iff add: conj_disj_distribL conj_disj_distribR ex_disj_distrib)

lemma decimal_cases:
  "decimal s n \<longleftrightarrow>
     (case s of [] \<Rightarrow> False
      | c # ds \<Rightarrow> if c = CHR ''-'' then ds \<noteq> [] \<and> parse_digits ds 0 = Some (- n)
                 else if c = CHR ''+'' then ds \<noteq> [] \<and> parse_digits ds 0 = Some n else parse_digits s 0 = Some n)"
proof (cases s)
  case (Cons c ds)
  have sign: "(of_char (CHR ''-'') :: nat) \<notin> {48..57}" "(of_char (CHR ''+'') :: nat) \<notin> {48..57}" by simp_all
  have "decimal s n \<longleftrightarrow>
      (\<forall>c \<in> set s. (of_char c :: nat) \<in> {48..57}) \<and> n = digits_value s \<or>
      c = CHR ''+'' \<and> ds \<noteq> [] \<and> (\<forall>c \<in> set ds. (of_char c :: nat) \<in> {48..57}) \<and> n = digits_value ds \<or>
      c = CHR ''-'' \<and> ds \<noteq> [] \<and> (\<forall>c \<in> set ds. (of_char c :: nat) \<in> {48..57}) \<and> n = - digits_value ds"
    unfolding decimal_signs Cons by auto
  also have "\<dots> \<longleftrightarrow> (if c = CHR ''-'' then ds \<noteq> [] \<and> parse_digits ds 0 = Some (- n)
                 else if c = CHR ''+'' then ds \<noteq> [] \<and> parse_digits ds 0 = Some n else parse_digits s 0 = Some n)"
    unfolding parse_digits_value using sign Cons by (auto simp del: atLeastAtMost_iff)
  finally show ?thesis by (simp add: Cons)
qed (simp add: decimal_def)

text \<open>What \<open>ParseInt\<close> accepts are the numerals of the numbers of its width.\<close>

lemma ParseInt_decimal:
  "ParseInt bits s = Inr i \<longleftrightarrow> decimal s i \<and> - (2 ^ (bits - 1)) \<le> i \<and> i < 2 ^ (bits - 1)"
  unfolding decimal_cases ParseInt_def Let_def
  by (cases s) (auto split: option.splits if_splits)

text \<open>The rendering of a number is one of its numerals.\<close>

lemma digits_value_snoc: "digits_value (ds @ [c]) = 10 * digits_value ds + (of_char c - 48)"
  by (simp add: digits_value_def)

lemma dec_numeral: "digits_value (dec n) = int n \<and> (\<forall>c \<in> set (dec n). (of_char c :: nat) \<in> {48..57})"
proof (induction n rule: dec.induct)
  case (1 n)
  have digit: "(of_char (digit_char i) :: nat) = 48 + i" "(of_char (digit_char i) :: int) = 48 + int i" if "i < 10" for i
    using that by (simp add: digit_char_def, subst of_nat_of_char [symmetric], simp add: digit_char_def)
  show ?case
  proof (cases "n < 10")
    case True
    then show ?thesis by (subst (1 2) dec.simps) (simp add: digit digits_value_def)
  next
    case False
    have "10 * int (n div 10) + int (n mod 10) = int n" by presburger
    with 1 False show ?thesis by (subst (1 2) dec.simps) (auto simp: digit digits_value_snoc)
  qed
qed

lemma itoa_decimal: "decimal (itoa i) i"
proof (cases "i < 0")
  case True
  then show ?thesis unfolding decimal_def itoa_def
    by (intro exI [of _ "''-''"] exI [of _ "dec (nat (- i))"]) (simp add: dec_numeral [of "nat (- i)", simplified])
next
  case False
  then show ?thesis unfolding decimal_def itoa_def
    by (intro exI [of _ "[]"] exI [of _ "dec (nat i)"]) (simp add: dec_numeral [of "nat i", simplified])
qed

text \<open>What loading a signer leaves.\<close>

lemma hv_Load_ok:
  assumes "hv_LoadSignerVerifier env st ksp = (st', Inr (sv, a))"
  shows "hv_parseReference (ksp_Reference ksp) = Inr (hvc_keyPath (hsv_client sv)) \<and>
    (if ksp_KeyVersion ksp = [] then hvc_keyVersion (hsv_client sv) = hco_keyVersion (ks_hv st)
     else ParseInt 32 (ksp_KeyVersion ksp) = Inr (hvc_keyVersion (hsv_client sv))) \<and>
    hco_keyVersion (ks_hv st') = hvc_keyVersion (hsv_client sv) \<and> hco_keyPath (ks_hv st') = hvc_keyPath (hsv_client sv)"
proof -
  from assms obtain path where path: "hv_parseReference (ksp_Reference ksp) = Inr path"
    by (auto simp: hv_LoadSignerVerifier_def split: if_splits sum.splits)
  from assms path obtain h where h: "ksp_HashFunc ksp = Some h" "map_of supportedHashesToString h \<noteq> None"
    by (auto simp: hv_LoadSignerVerifier_def Let_def split: if_splits option.splits)
  from assms path h obtain v where v: "(if ksp_KeyVersion ksp \<noteq> [] then ParseInt 32 (ksp_KeyVersion ksp) else Inr (hco_keyVersion (ks_hv st))) = Inr v"
    by (auto simp: hv_LoadSignerVerifier_def Let_def split: if_splits sum.splits)
  let ?st = "st\<lparr>ks_hv := (ks_hv st)\<lparr>hco_keyPath := path, hco_keyVersion := v\<rparr>\<rparr>"
  from assms path h v have "(case hv_newClient env (ks_hv ?st) of
      Inl err \<Rightarrow> (?st, Inl (Errorf ''could not create vault client: %w'' [FErr err]))
    | Inr (client, authInfo) \<Rightarrow> (?st, Inr (\<lparr>hsv_reference = ksp_Reference ksp, hsv_hashFunc = h, hsv_client = client\<rparr>, authInfo))) =
      (st', Inr (sv, a))"
    by (auto simp: hv_LoadSignerVerifier_def Let_def split: if_splits)
  then obtain c where c: "hv_newClient env (ks_hv ?st) = Inr (c, a)" and st': "st' = ?st" and sv: "hsv_client sv = c"
    by (auto split: sum.splits)
  from hv_newClient_keeps [OF c] st' sv path v show ?thesis by (auto split: if_splits)
qed

lemma New_versions_kept:
  assumes "store_New clients opts st = (ksp, st')"
  shows "hco_keyVersion (ks_hv st') = hco_keyVersion (ks_hv st)"
proof -
  let ?os = "provider_options clients"
  have "\<forall>(n, c) \<in> set ?os. map_of ?os (client_ProviderName c) = Some c"
    by (auto simp: provider_options_lookup dest: provider_options_mem simp del: client_ProviderName.simps)
  then have "st' = fold set_defaults (map snd ?os) st" using assms by (auto simp: store_New_def Let_def all_defaults)
  then show ?thesis by (simp add: fold_set_defaults)
qed

lemma itoa_zero: "itoa i = ''0'' \<longleftrightarrow> i = 0"
proof -
  have "dec 0 = ''0''" by code_simp
  then have "dec n = ''0'' \<longleftrightarrow> n = 0" for n using dec_inj [of n 0] by auto
  then show ?thesis by (auto simp: itoa_def)
qed

lemma renew_loop_goes_on:
  assumes "hvc_client c = Some vc" and "to_lower (hvc_authMethod c) = ''kubernetes''"
    and "hv_NewKubernetesAuth env (hvc_role c) (hvc_kubernetesSaTokenPath c) (hvc_kubernetesAuthMountPath c) = Inr m"
    and logins: "\<forall>n v. hv_Login env n v m = Inr (s n)" and watchers: "\<forall>n v a. hv_NewLifetimeWatcher env n v a = None"
  shows "\<exists>c' vc'. renew_loop env k c a es = (c', if ContextDone \<in> set es then StoppedByContext else Waiting) \<and>
    hvc_client c' = Some vc' \<and>
    vc_token vc' = (case length (filter (\<lambda>e. \<exists>err. e = WatcherDone err) (takeWhile (\<lambda>e. e \<noteq> ContextDone) es)) of
      0 \<Rightarrow> vc_token vc | Suc n \<Rightarrow> vs_ClientToken (s (k + n)))"
  using assms(1-3)
proof (induction es arbitrary: k c vc a)
  case Nil
  then show ?case by (simp add: renew_loop.simps renewAuth_def watchers)
next
  case (Cons e es)
  show ?case
  proof (cases e)
    case ContextDone
    with Cons.prems show ?thesis by (simp add: renew_loop.simps renewAuth_def watchers)
  next
    case (WatcherDone err)
    let ?vc = "vc\<lparr>vc_token := vs_ClientToken (s k)\<rparr>"
    let ?n = "length (filter (\<lambda>e. \<exists>err. e = WatcherDone err) (takeWhile (\<lambda>e. e \<noteq> ContextDone) es))"
    have login: "hv_login env k c = (c\<lparr>hvc_client := Some ?vc\<rparr>, Inr (Some (s k)))"
      using Cons.prems logins by (simp add: hv_login_def)
    have step: "renew_loop env k c a (WatcherDone err # es) = renew_loop env (Suc k) (c\<lparr>hvc_client := Some ?vc\<rparr>) (Some (s k)) es"
      using Cons.prems(1) login by (simp add: renew_loop.simps [of env k] renewAuth_def watchers)
    have "\<exists>c' vc'. renew_loop env (Suc k) (c\<lparr>hvc_client := Some ?vc\<rparr>) (Some (s k)) es =
        (c', if ContextDone \<in> set es then StoppedByContext else Waiting) \<and> hvc_client c' = Some vc' \<and>
        vc_token vc' = (case ?n of 0 \<Rightarrow> vc_token ?vc | Suc n \<Rightarrow> vs_ClientToken (s (Suc k + n)))"
      using Cons.prems by (intro Cons.IH) simp_all
    then obtain c' vc' where loop: "renew_loop env (Suc k) (c\<lparr>hvc_client := Some ?vc\<rparr>) (Some (s k)) es =
        (c', if ContextDone \<in> set es then StoppedByContext else Waiting)" and vc': "hvc_client c' = Some vc'"
      and token: "vc_token vc' = (case ?n of 0 \<Rightarrow> vc_token ?vc | Suc n \<Rightarrow> vs_ClientToken (s (Suc k + n)))" by blast
    show ?thesis
    proof (intro exI conjI)
      show "renew_loop env k c a (e # es) = (c', if ContextDone \<in> set (e # es) then StoppedByContext else Waiting)"
        unfolding WatcherDone step loop by simp
      show "vc_token vc' = (case length (filter (\<lambda>e. \<exists>err. e = WatcherDone err) (takeWhile (\<lambda>e. e \<noteq> ContextDone) (e # es))) of
          0 \<Rightarrow> vc_token vc | Suc n \<Rightarrow> vs_ClientToken (s (k + n)))"
        unfolding token by (simp add: WatcherDone split: nat.splits)
    qed (rule vc')
  next
    case (Renewed d)
    have step: "renew_loop env k c a (Renewed d # es) = renew_loop env k c a es"
      by (subst (1 2) renew_loop.simps) (use Cons.prems(1) in \<open>simp add: renewAuth_def watchers\<close>)
    from Cons.IH [OF Cons.prems] show ?thesis unfolding Renewed step by simp
  qed
qed

section \<open>Properties\<close>

text \<open>Which references the Vault provider takes: a path of letters, digits, underscores, dots and dashes that begins
  and ends with neither a dot nor a dash; the path is what it finds.\<close>

theorem hv_reference_exact:
  "hv_parseReference ref = Inr p \<longleftrightarrow> hv_path p \<and> ref = ''hashivault://'' @ p"
proof
  assume "hv_parseReference ref = Inr p"
  then obtain caps where "full_match referenceRegex ref = Some caps" and p: "p = submatch caps 1"
    by (auto simp: hv_parseReference_def split: option.splits)
  from full_match_SomeD [OF this(1)] have "takes referenceRegex ref ref [] caps" .
  with takes_reference p show "hv_path p \<and> ref = ''hashivault://'' @ p" by blast
next
  assume p: "hv_path p \<and> ref = ''hashivault://'' @ p"
  with reference_takes full_match_None obtain caps where caps: "full_match referenceRegex ref = Some caps" by blast
  from takes_reference [OF full_match_SomeD [OF caps]] p have "submatch caps 1 = p" by auto
  with caps show "hv_parseReference ref = Inr p" by (simp add: hv_parseReference_def)
qed

text \<open>The version of a Vault key outlives its signer: a second provider, made by \<open>New\<close> in between and without a
  version of its own, gets a signer for the version of the first, where a fresh program would give it version 0, the
  latest.\<close>

theorem key_version_carries_over:
  assumes "hv_LoadSignerVerifier env st ksp1 = (st1, Inr (sv1, a1))" and "ksp_KeyVersion ksp1 \<noteq> []"
    and "store_New clients opts st1 = (ksp2, st2)" and "ksp_KeyVersion ksp2 = []"
    and "hv_LoadSignerVerifier env st2 ksp2 = (st3, Inr (sv2, a2))"
  shows "ParseInt 32 (ksp_KeyVersion ksp1) = Inr (hvc_keyVersion (hsv_client sv2))"
proof -
  have "hco_keyVersion (ks_hv st2) = hco_keyVersion (ks_hv st1)" using New_versions_kept [OF assms(3)] .
  with hv_Load_ok [OF assms(1)] hv_Load_ok [OF assms(5)] assms(2,4) show ?thesis by simp
qed

text \<open>C16. The requested version of a key is the one that is used, exactly: with options of the provider, a reference
  that parses and a supported hash, a version that is a decimal numeral of a 32-bit number becomes the version of the
  shared options, whatever was there, and any other version (no number, or one that needs more bits) is refused with
  the options' version as it was; an empty one keeps the options' version. A client that results has the version of the
  options, and that is what it sends with a digest to be signed. Every 32-bit number has a numeral, its rendering.\<close>

theorem hv_key_version_exact:
  assumes options: "map_of (ksp_Options ksp) ''kms-hashivault'' = Some HashivaultClient"
    and ref: "hv_parseReference (ksp_Reference ksp) = Inr path"
    and hash: "ksp_HashFunc ksp = Some h" "map_of supportedHashesToString h \<noteq> None"
    and load: "hv_LoadSignerVerifier env st ksp = (st', r)"
  shows "(\<forall>n. decimal (ksp_KeyVersion ksp) n \<and> - (2 ^ 31) \<le> n \<and> n < 2 ^ 31 \<longrightarrow> hco_keyVersion (ks_hv st') = n) \<and>
    (ksp_KeyVersion ksp = [] \<longrightarrow> hco_keyVersion (ks_hv st') = hco_keyVersion (ks_hv st)) \<and>
    (ksp_KeyVersion ksp \<noteq> [] \<and> \<not> (\<exists>n. decimal (ksp_KeyVersion ksp) n \<and> - (2 ^ 31) \<le> n \<and> n < 2 ^ 31) \<longrightarrow>
       (\<exists>err. r = Inl (Errorf ''invalid vault key version %v: %w'' [FStr (ksp_KeyVersion ksp), FErr err])) \<and>
       hco_keyVersion (ks_hv st') = hco_keyVersion (ks_hv st)) \<and>
    (\<forall>sv a digest. r = Inr (sv, a) \<longrightarrow> hvc_keyVersion (hsv_client sv) = hco_keyVersion (ks_hv st') \<and>
       map_of (sign_args (hsv_client sv) digest) ''key_version'' = Some (ArgInt (hco_keyVersion (ks_hv st')))) \<and>
    (\<forall>i. decimal (itoa i) i)"
proof -
  let ?path = "st\<lparr>ks_hv := (ks_hv st)\<lparr>hco_keyPath := path\<rparr>\<rparr>"
  note parse = ParseInt_decimal [of 32 "ksp_KeyVersion ksp", simplified]
  have refused: "r = Inl (Errorf ''invalid vault key version %v: %w'' [FStr (ksp_KeyVersion ksp), FErr err]) \<and> st' = ?path"
    if "ksp_KeyVersion ksp \<noteq> []" "ParseInt 32 (ksp_KeyVersion ksp) = Inl err" for err
    using load options ref hash that by (auto simp: hv_LoadSignerVerifier_def Let_def)
  have stored: "hco_keyVersion (ks_hv st') = v"
    if "(if ksp_KeyVersion ksp \<noteq> [] then ParseInt 32 (ksp_KeyVersion ksp) else Inr (hco_keyVersion (ks_hv st))) = Inr v" for v
    using load options ref hash that by (auto simp: hv_LoadSignerVerifier_def Let_def split: sum.splits if_splits)
  have "hco_keyVersion (ks_hv st') = n" if n: "decimal (ksp_KeyVersion ksp) n" "- (2 ^ 31) \<le> n" "n < 2 ^ 31" for n
  proof -
    from n parse have "ParseInt 32 (ksp_KeyVersion ksp) = Inr n" by simp
    moreover have "ksp_KeyVersion ksp \<noteq> []" using n(1) by (auto simp: decimal_def)
    ultimately show ?thesis using stored by simp
  qed
  moreover have "(\<exists>err. r = Inl (Errorf ''invalid vault key version %v: %w'' [FStr (ksp_KeyVersion ksp), FErr err])) \<and>
      hco_keyVersion (ks_hv st') = hco_keyVersion (ks_hv st)"
    if "ksp_KeyVersion ksp \<noteq> []" "\<not> (\<exists>n. decimal (ksp_KeyVersion ksp) n \<and> - (2 ^ 31) \<le> n \<and> n < 2 ^ 31)"
  proof -
    from that(2) parse obtain err where "ParseInt 32 (ksp_KeyVersion ksp) = Inl err"
      by (cases "ParseInt 32 (ksp_KeyVersion ksp)") auto
    with refused that(1) show ?thesis by auto
  qed
  moreover have "hvc_keyVersion (hsv_client sv) = hco_keyVersion (ks_hv st') \<and>
      map_of (sign_args (hsv_client sv) digest) ''key_version'' = Some (ArgInt (hco_keyVersion (ks_hv st')))" if "r = Inr (sv, a)" for sv a digest
    using hv_Load_ok [OF load [unfolded that]] by (simp add: sign_args_def)
  ultimately show ?thesis using stored itoa_decimal by simp
qed

text \<open>What Vault signs also verifies: when the transit engine accepts the signatures it made for a key, on whichever
  version, a signature that \<open>Sign\<close> returns is accepted by \<open>Verify\<close> for the same message.\<close>

theorem hv_sign_then_verify:
  assumes transit: "\<forall>vc h digest data sig. hvc_client (hsv_client sv) = Some vc \<and>
      hv_Write env vc (transit_path (hsv_client sv) ''sign'' h) (sign_args (hsv_client sv) digest) = Inr (Some data) \<and>
      map_of data ''signature'' = Some (JString sig) \<longrightarrow>
      (\<exists>answer. hv_Write env vc (transit_path (hsv_client sv) ''verify'' h) (verify_args digest sig) = Inr (Some answer) \<and>
        map_of answer ''valid'' = Some (JBool True))"
    and signed: "hv_Sign env sv (Inr msg) = Return (Inr sig)"
  shows "hv_Verify env sv (Inr msg) sig = Return None"
proof -
  let ?digest = "lib_hash (hv_lib env) (hsv_hashFunc sv) msg"
  from signed obtain h where h: "map_of supportedHashesToString (hsv_hashFunc sv) = Some h"
    by (auto simp: hv_Sign_def hv_sign_def Digest_def split: option.splits)
  with signed obtain vc data where vc: "hvc_client (hsv_client sv) = Some vc"
    and data: "hv_Write env vc (transit_path (hsv_client sv) ''sign'' h) (sign_args (hsv_client sv) ?digest) = Inr (Some data)"
    and found: "(case map_of data ''signature'' of None \<Rightarrow> Inl (Errorf ''no signature in response: %w'' [])
       | Some (JString sigStr) \<Rightarrow> Inr sigStr | Some _ \<Rightarrow> Inl (Errorf ''invalid signature in response'' [])) = Inr sig"
    by (auto simp: hv_Sign_def hv_sign_def Digest_def with_data_def split: option.splits sum.splits)
  from found have "map_of data ''signature'' = Some (JString sig)" by (auto split: option.splits json.splits)
  with transit vc data obtain answer where
    "hv_Write env vc (transit_path (hsv_client sv) ''verify'' h) (verify_args ?digest sig) = Inr (Some answer)"
    "map_of answer ''valid'' = Some (JBool True)" by blast
  with h vc show ?thesis by (simp add: hv_Verify_def hv_verify_def with_data_def Digest_def)
qed

text \<open>The renewal goes on until the context is done: with the Kubernetes method, when every login succeeds and every
  watcher can be made, the loop logs in anew each time its watcher is done and never stops for another reason; the
  client then has the token of its last login.\<close>

theorem renewal_goes_on:
  assumes client: "hvc_client c = Some vc" and how: "to_lower (hvc_authMethod c) = ''kubernetes''"
    and auth: "hv_NewKubernetesAuth env (hvc_role c) (hvc_kubernetesSaTokenPath c) (hvc_kubernetesAuthMountPath c) = Inr m"
    and logins: "\<forall>n v. hv_Login env n v m = Inr (s n)" and watchers: "\<forall>n v a. hv_NewLifetimeWatcher env n v a = None"
  shows "\<exists>c' vc'. periodicallyRenewAuth env c (Some a) es = (c', if ContextDone \<in> set es then StoppedByContext else Waiting) \<and>
    hvc_client c' = Some vc' \<and>
    (let n = length (filter (\<lambda>e. \<exists>err. e = WatcherDone err) (takeWhile (\<lambda>e. e \<noteq> ContextDone) es))
     in vc_token vc' = (if n = 0 then vc_token vc else vs_ClientToken (s n)))"
proof -
  from renew_loop_goes_on [OF client how auth logins watchers, of 1 "Some a" es]
  obtain c' vc' where loop: "renew_loop env 1 c (Some a) es = (c', if ContextDone \<in> set es then StoppedByContext else Waiting)"
    and vc': "hvc_client c' = Some vc'" and token: "vc_token vc' =
      (case length (filter (\<lambda>e. \<exists>err. e = WatcherDone err) (takeWhile (\<lambda>e. e \<noteq> ContextDone) es)) of
        0 \<Rightarrow> vc_token vc | Suc n \<Rightarrow> vs_ClientToken (s (1 + n)))" by blast
  show ?thesis
    by (intro exI [of _ c'] exI [of _ vc'] conjI, simp only: periodicallyRenewAuth_def loop if_False option.distinct, rule vc',
        simp add: token Let_def split: nat.splits)
qed

text \<open>The public key of a Vault signer: the one the service has under the version of the client, or under the latest
  version when the client's is 0.\<close>

theorem hv_public_key_exact:
  "hv_Bytes env sv = Return (Inr pem) \<longleftrightarrow>
     (\<exists>vc data keys ver info. hvc_client (hsv_client sv) = Some vc \<and>
        hv_Read env vc (''/'' @ hvc_transitSecretsEnginePath (hsv_client sv) @ ''/keys/'' @ hvc_keyPath (hsv_client sv)) = Inr (Some data) \<and>
        (if hvc_keyVersion (hsv_client sv) = 0 then map_of data ''latest_version'' = Some (JNumber ver)
         else ver = itoa (hvc_keyVersion (hsv_client sv))) \<and>
        map_of data ''keys'' = Some (JObject keys) \<and> map_of keys ver = Some (JObject info) \<and>
        map_of info ''public_key'' = Some (JString pem))"
proof -
  let ?c = "hsv_client sv"
  have ver: "latest_version data = Inr v \<longleftrightarrow> map_of data ''latest_version'' = Some (JNumber v)" for data v
    by (auto simp: latest_version_def split: option.splits json.splits)
  have key: "public_key_of data v = Inr pem \<longleftrightarrow> (\<exists>keys info. map_of data ''keys'' = Some (JObject keys) \<and>
      map_of keys v = Some (JObject info) \<and> map_of info ''public_key'' = Some (JString pem))" for data v
    by (auto simp: public_key_of_def split: option.splits json.splits)
  have "(case (if itoa (hvc_keyVersion ?c) = ''0'' then latest_version data else Inr (itoa (hvc_keyVersion ?c))) of
        Inl err \<Rightarrow> Inl err | Inr keyVersion \<Rightarrow> public_key_of data keyVersion) = Inr pem \<longleftrightarrow>
      (\<exists>v. (if hvc_keyVersion ?c = 0 then map_of data ''latest_version'' = Some (JNumber v) else v = itoa (hvc_keyVersion ?c)) \<and>
        public_key_of data v = Inr pem)" for data
    unfolding itoa_zero by (cases "latest_version data") (auto simp: ver [symmetric])
  then show ?thesis
    unfolding hv_Bytes_def getPublicKeyBytes_def with_data_def
    by (auto simp: key split: option.splits sum.splits)
qed

section \<open>Samples\<close>

definition sample_hv_env :: hv_env where
  "sample_hv_env =
     \<lparr>hv_lib = sample_lib, hv_NewClient = \<lambda>addr. Inr \<lparr>vc_handle = ''v'', vc_token = ''t''\<rparr>, hv_ReadFile = \<lambda>f. Inr [],
      hv_NewKubernetesAuth = \<lambda>role sa mount. Inr ''m'', hv_Login = \<lambda>n v m. Inr \<lparr>vs_ClientToken = dec n, vs_LeaseDuration = 60\<rparr>,
      hv_NewLifetimeWatcher = \<lambda>n v a. None,
      hv_Write = \<lambda>v path args. Inr (Some (if map_of args ''signature'' = None then [(''signature'', JString ''vault:v1:s'')]
        else [(''valid'', JBool True)])),
      hv_Read = \<lambda>v path. Inr None\<rparr>"

definition sample_hv_client :: hv_client where
  "sample_hv_client =
     \<lparr>hvc_client = Some \<lparr>vc_handle = ''v'', vc_token = ''t''\<rparr>, hvc_keyPath = ''k'', hvc_transitSecretsEnginePath = ''transit'',
      hvc_keyVersion = 3, hvc_authMethod = ''kubernetes'', hvc_tokenPath = [], hvc_kubernetesAuthMountPath = ''kubernetes'',
      hvc_kubernetesSaTokenPath = [], hvc_role = ''r''\<rparr>"

definition sample_hv_provider :: "string \<Rightarrow> kms_provider" where
  "sample_hv_provider version =
     \<lparr>ksp_Reference = ''hashivault://k'', ksp_KeyVersion = version, ksp_HashFunc = Some SHA256,
      ksp_Options = [(''kms-hashivault'', HashivaultClient)]\<rparr>"

definition sample_hv_opts :: "string \<Rightarrow> (kms_provider \<Rightarrow> kms_provider) list" where
  "sample_hv_opts version = [\<lambda>ksp. sample_hv_provider version]"

lemma sample_reference: "hv_parseReference ''hashivault://k'' = Inr ''k''"
  by code_simp

lemma sample_token: "to_lower ''token'' = ''token''"
  by code_simp

lemma sample_ParseInt: "ParseInt 32 ''3'' = Inr 3"
  by code_simp

text \<open>With the options that \<open>New\<close> leaves, a signer is loaded.\<close>

lemma sample_hv_load:
  assumes "hco_authMethod (ks_hv st) = ''token''" and "hco_tokenPath (ks_hv st) = []" and "version = [] \<or> version = ''3''"
  shows "\<exists>st' sv a. hv_LoadSignerVerifier sample_hv_env st (sample_hv_provider version) = (st', Inr (sv, a)) \<and>
    hvc_keyVersion (hsv_client sv) = (if version = [] then hco_keyVersion (ks_hv st) else 3)"
  using assms
  by (auto simp: hv_LoadSignerVerifier_def sample_hv_provider_def sample_reference sample_ParseInt supportedHashesToString_def
      hv_newClient_def sample_hv_env_def hv_login_def sample_token)

lemma sample_New: "\<exists>st'. store_New [HashivaultClient] (sample_hv_opts version) st = (sample_hv_provider version, st') \<and>
    hco_authMethod (ks_hv st') = ''token'' \<and> hco_tokenPath (ks_hv st') = []"
proof -
  let ?os = "provider_options [HashivaultClient]"
  have os: "?os = [(''kms-hashivault'', HashivaultClient)]" by (simp add: provider_options_def)
  have same: "(sample_hv_provider version)\<lparr>ksp_Options := [(''kms-hashivault'', HashivaultClient)]\<rparr> = sample_hv_provider version"
    by (simp add: sample_hv_provider_def)
  have options: "ksp_Options (sample_hv_provider version) = ?os" by (simp add: os sample_hv_provider_def)
  have "\<forall>(n, c) \<in> set ?os. map_of (ksp_Options (sample_hv_provider version)) (client_ProviderName c) = Some c"
    by (simp add: os sample_hv_provider_def)
  from all_defaults [OF this] show ?thesis by (simp add: store_New_def sample_hv_opts_def Let_def os same options)
qed

theorem key_version_carries_over_witness:
  "\<exists>st2 st3 sv2 a2. store_New [HashivaultClient] (sample_hv_opts []) vault_store = (sample_hv_provider [], st2) \<and>
     hv_LoadSignerVerifier sample_hv_env st2 (sample_hv_provider []) = (st3, Inr (sv2, a2)) \<and> hvc_keyVersion (hsv_client sv2) = 3"
proof -
  obtain st0 where st0: "store_New [HashivaultClient] (sample_hv_opts ''3'') fresh_store = (sample_hv_provider ''3'', st0)"
    "hco_authMethod (ks_hv st0) = ''token''" "hco_tokenPath (ks_hv st0) = []"
    using sample_New [of "''3''" fresh_store] by blast
  obtain st1 sv1 a1 where one: "hv_LoadSignerVerifier sample_hv_env st0 (sample_hv_provider ''3'') = (st1, Inr (sv1, a1))"
    using sample_hv_load [OF st0(2,3), of "''3''"] by auto
  obtain st2 where st2: "store_New [HashivaultClient] (sample_hv_opts []) st1 = (sample_hv_provider [], st2)"
    "hco_authMethod (ks_hv st2) = ''token''" "hco_tokenPath (ks_hv st2) = []"
    using sample_New [of "[]" st1] by blast
  obtain st3 sv2 a2 where two: "hv_LoadSignerVerifier sample_hv_env st2 (sample_hv_provider []) = (st3, Inr (sv2, a2))"
    using sample_hv_load [OF st2(2,3), of "[]"] by auto
  have version: "ksp_KeyVersion (sample_hv_provider v) = v" for v by (simp add: sample_hv_provider_def)
  from key_version_carries_over [OF one _ st2(1) _ two] have "ParseInt 32 ''3'' = Inr (hvc_keyVersion (hsv_client sv2))"
    by (simp add: version)
  then have "hvc_keyVersion (hsv_client sv2) = 3" by (simp add: sample_ParseInt)
  obtain st4 where st4: "store_New [HashivaultClient] (sample_hv_opts []) vault_store = (sample_hv_provider [], st4)"
    "hco_authMethod (ks_hv st4) = ''token''" "hco_tokenPath (ks_hv st4) = []"
    using sample_New [of "[]" vault_store] by blast
  have "hco_keyVersion (ks_hv st4) = 3" using New_versions_kept [OF st4(1)] by (simp add: vault_store_def)
  with st4 sample_hv_load [OF st4(2,3), of "[]"] show ?thesis by auto
qed

theorem hv_key_version_exact_witness:
  "(\<exists>st' r. hv_LoadSignerVerifier sample_hv_env vault_store (sample_hv_provider (itoa 7)) = (st', r) \<and> hco_keyVersion (ks_hv st') = 7) \<and>
   (\<exists>st' err. hv_LoadSignerVerifier sample_hv_env vault_store (sample_hv_provider ''2147483648'') = (st', Inl err) \<and>
      hco_keyVersion (ks_hv st') = 3)"
proof -
  have valid: "map_of (ksp_Options (sample_hv_provider v)) ''kms-hashivault'' = Some HashivaultClient"
    "hv_parseReference (ksp_Reference (sample_hv_provider v)) = Inr ''k''" "ksp_HashFunc (sample_hv_provider v) = Some SHA256"
    "ksp_KeyVersion (sample_hv_provider v) = v" for v
    by (simp_all add: sample_hv_provider_def sample_reference)
  have hash: "map_of supportedHashesToString SHA256 \<noteq> None" by (simp add: supportedHashesToString_def)
  obtain st1 r1 where one: "hv_LoadSignerVerifier sample_hv_env vault_store (sample_hv_provider (itoa 7)) = (st1, r1)" by fastforce
  obtain st2 r2 where two: "hv_LoadSignerVerifier sample_hv_env vault_store (sample_hv_provider ''2147483648'') = (st2, r2)" by fastforce
  note exact = hv_key_version_exact [OF valid(1-3) hash, unfolded valid(4)]
  have seven: "hco_keyVersion (ks_hv st1) = 7" using exact [OF one] itoa_decimal [of 7] by simp
  have "ParseInt 32 ''2147483648'' = Inl (LibError ''strconv.ParseInt: value out of range'')" by code_simp
  then have "\<not> (\<exists>n. decimal ''2147483648'' n \<and> - (2 ^ 31) \<le> n \<and> n < 2 ^ 31)"
    using ParseInt_decimal [of 32 "''2147483648''"] by auto
  with exact [OF two] have "(\<exists>err. r2 = Inl err) \<and> hco_keyVersion (ks_hv st2) = hco_keyVersion (ks_hv vault_store)" by blast
  then have "(\<exists>err. r2 = Inl err) \<and> hco_keyVersion (ks_hv st2) = 3" by (simp add: vault_store_def)
  with one two seven show ?thesis by auto
qed

definition sample_hv_signer :: hv_SignerVerifier where
  "sample_hv_signer = \<lparr>hsv_reference = ''hashivault://k'', hsv_hashFunc = SHA256, hsv_client = sample_hv_client\<rparr>"

theorem hv_sign_then_verify_witness:
  "hv_Sign sample_hv_env sample_hv_signer (Inr ''m'') = Return (Inr ''vault:v1:s'') \<and>
   hv_Verify sample_hv_env sample_hv_signer (Inr ''m'') ''vault:v1:s'' = Return None"
proof
  show signed: "hv_Sign sample_hv_env sample_hv_signer (Inr ''m'') = Return (Inr ''vault:v1:s'')"
    by (simp add: hv_Sign_def hv_sign_def Digest_def with_data_def sample_hv_signer_def sample_hv_client_def sample_hv_env_def
        supportedHashesToString_def sign_args_def)
  show "hv_Verify sample_hv_env sample_hv_signer (Inr ''m'') ''vault:v1:s'' = Return None"
    by (rule hv_sign_then_verify [OF _ signed]) (simp add: sample_hv_env_def verify_args_def)
qed

theorem renewal_goes_on_witness:
  "\<exists>c' vc'. periodicallyRenewAuth sample_hv_env sample_hv_client (Some a) [Renewed 60, WatcherDone None, ContextDone] = (c', StoppedByContext) \<and>
     hvc_client c' = Some vc' \<and> vc_token vc' = dec 1"
proof -
  have "\<exists>c' vc'. periodicallyRenewAuth sample_hv_env sample_hv_client (Some a) [Renewed 60, WatcherDone None, ContextDone] =
      (c', if ContextDone \<in> set [Renewed 60, WatcherDone None, ContextDone] then StoppedByContext else Waiting) \<and>
    hvc_client c' = Some vc' \<and>
    (let n = length (filter (\<lambda>e. \<exists>err. e = WatcherDone err) (takeWhile (\<lambda>e. e \<noteq> ContextDone) [Renewed 60, WatcherDone None, ContextDone]))
     in vc_token vc' = (if n = 0 then vc_token \<lparr>vc_handle = ''v'', vc_token = ''t''\<rparr>
          else vs_ClientToken \<lparr>vs_ClientToken = dec n, vs_LeaseDuration = 60\<rparr>))"
  proof (rule renewal_goes_on)
    show "to_lower (hvc_authMethod sample_hv_client) = ''kubernetes''" unfolding sample_hv_client_def by code_simp
  qed (simp_all add: sample_hv_client_def sample_hv_env_def)
  then show ?thesis by (simp add: Let_def)
qed

end
