(* ===== verification/Cloud_Attestors.thy ===== *)
theory Cloud_Attestors
  imports Ci_Attestors Base64 Keys
begin

text \<open>
  The attestors of the identity of a cloud instance: \<open>attestation/aws-iid/aws-iid.go\<close> (with the look-up of
  \<open>aws-certs.go\<close>) and \<open>attestation/gcp-iit/gcp-iit.go\<close>.

  The metadata services, the AWS configuration, the PEM and X.509 codecs and the JSON decoder are parameters. A pointer that
  a constructor may return as nil is an option.
\<close>

section \<open>AWS\<close>

definition aws_iid_Name :: string where "aws_iid_Name = ''aws''"
definition aws_iid_Type :: string where "aws_iid_Type = ''https://witness.dev/attestations/aws/v0.1''"
definition docPath :: string where "docPath = ''instance-identity/document''"
definition sigPath :: string where "sigPath = ''instance-identity/signature''"

text \<open>The fields of the SDK's \<open>InstanceIdentityDocument\<close> that the attestor reads.\<close>

record identity_document =
  iid_InstanceID :: string
  iid_AccountID :: string
  iid_ImageID :: string
  iid_PrivateIP :: string
  iid_Region :: string

text \<open>The attestor; of the AWS configuration it reads the region.\<close>

record aws_attestor =
  aw_Document :: identity_document
  aw_hashes :: "digest_value list"
  aw_Region :: string
  aw_awsCert :: string
  aw_RawIID :: string
  aw_RawSig :: string
  aw_PublicKey :: string

text \<open>\<open>aw_regionCerts\<close> is the table \<open>awsRegionCerts\<close> of \<open>aws-certs.go\<close>. \<open>json.Unmarshal\<close> decodes into a document and may leave
  it partly changed; \<open>aw_pem_Decode\<close> returns also what follows the block; the clock is read once or twice.\<close>

record iid_env =
  aw_lib :: crypto_lib
  aw_LoadDefaultConfig :: "gerr + string"
  aw_GetDynamicData :: "string \<Rightarrow> gerr + reader"
  aw_unmarshal :: "bytes \<Rightarrow> identity_document \<Rightarrow> identity_document \<times> gerr option"
  aw_regionCerts :: "(string, string) gomap"
  aw_pem_Decode :: "bytes \<Rightarrow> pem_block option \<times> bytes"
  aw_validity :: "certificate \<Rightarrow> gtime \<times> gtime"
  aw_algorithm :: "certificate \<Rightarrow> string"
  aw_now :: "nat \<Rightarrow> gtime"

definition WithAWSRegionCert :: "string \<Rightarrow> aws_attestor \<Rightarrow> aws_attestor" where
  "WithAWSRegionCert awsCert a = a\<lparr>aw_awsCert := awsCert\<rparr>"

definition no_document :: identity_document where
  "no_document = \<lparr>iid_InstanceID = [], iid_AccountID = [], iid_ImageID = [], iid_PrivateIP = [], iid_Region = []\<rparr>"

text \<open>\<open>New\<close> logs an error of the configuration and returns nil.\<close>

definition aws_iid_New :: "iid_env \<Rightarrow> (aws_attestor \<Rightarrow> aws_attestor) list \<Rightarrow> aws_attestor option" where
  "aws_iid_New env opts =
     (let attestor = fold (\<lambda>opt a. opt a) opts
            \<lparr>aw_Document = no_document, aw_hashes = [], aw_Region = [], aw_awsCert = [], aw_RawIID = [], aw_RawSig = [], aw_PublicKey = []\<rparr>
      in case aw_LoadDefaultConfig env of Inl err \<Rightarrow> None | Inr region \<Rightarrow> Some (attestor\<lparr>aw_Region := region\<rparr>))"

text \<open>The setter of the option \<open>region-cert\<close>, on an attestor of this type.\<close>

definition region_cert_setter :: "string \<Rightarrow> aws_attestor option \<Rightarrow> aws_attestor option outcome" where
  "region_cert_setter val a =
     (case a of None \<Rightarrow> Panic nil_panic | Some attestor \<Rightarrow> Return (Some (WithAWSRegionCert val attestor)))"

definition getIID :: "iid_env \<Rightarrow> aws_attestor \<Rightarrow> aws_attestor \<times> gerr option" where
  "getIID env a =
     (case aw_GetDynamicData env docPath of
        Inl err \<Rightarrow> (a, Some (Errorf ''failed to get instance identity document: %w'' [FErr err]))
      | Inr (Inl err) \<Rightarrow> (a, Some (Errorf ''failed to read instance identity document: %w'' [FErr err]))
      | Inr (Inr content) \<Rightarrow>
          (let a = a\<lparr>aw_RawIID := content\<rparr>
           in case aw_GetDynamicData env sigPath of
                Inl err \<Rightarrow> (a, Some (Errorf ''failed to get instance identity signature: %w'' [FErr err]))
              | Inr (Inl err) \<Rightarrow> (a, Some (Errorf ''failed to read instance identity document: %w'' [FErr err]))
              | Inr (Inr content) \<Rightarrow>
                  (let a = a\<lparr>aw_RawSig := content\<rparr>
                   in case aw_unmarshal env (aw_RawIID a) (aw_Document a) of
                        (doc, Some err) \<Rightarrow>
                          (a\<lparr>aw_Document := doc\<rparr>, Some (Errorf ''failed to unmarshal instance identity document: %w'' [FErr err]))
                      | (doc, None) \<Rightarrow> (a\<lparr>aw_Document := doc\<rparr>, None))))"

definition getRegionCert :: "iid_env \<Rightarrow> string \<Rightarrow> gerr + string" where
  "getRegionCert env region =
     (case map_of (aw_regionCerts env) region of
        None \<Rightarrow> Inl (Errorf ''AWS region %s cert must be provided as input'' [FStr region])
      | Some cert \<Rightarrow> Inr cert)"

definition getAWSCAPublicKey :: "iid_env \<Rightarrow> string \<Rightarrow> string \<Rightarrow> (gerr + bytes) outcome" where
  "getAWSCAPublicKey env awsRegion awsCert =
     (case (if awsCert = [] then getRegionCert env awsRegion else Inr awsCert) of
        Inl err \<Rightarrow> Return (Inl err)
      | Inr awsCert \<Rightarrow>
          (case aw_pem_Decode env awsCert of
             (block, rest) \<Rightarrow>
               if rest \<noteq> [] then Return (Inl (Errorf ''failed to decode PEM block containing the public key'' []))
               else (case block of
                       None \<Rightarrow> Panic nil_panic
                     | Some blk \<Rightarrow>
                         (case lib_parseCert (aw_lib env) (pem_Bytes blk) of
                            Inl err \<Rightarrow> Return (Inl (Errorf ''failed to parse certificate: %w'' [FErr err]))
                          | Inr cert \<Rightarrow>
                              (case aw_validity env cert of
                                 (notBefore, notAfter) \<Rightarrow>
                                   if aw_now env 0 < notBefore \<or> aw_now env 1 > notAfter
                                   then Return (Inl (Errorf ''%s: certificate is not valid at the current time'' [FStr awsRegion]))
                                   else (case cert_PublicKey cert of
                                           RSA_PublicKey key \<Rightarrow> Return (Inr key)
                                         | _ \<Rightarrow> Return (Inl (Errorf ''%s: unexpected public key algorithm: %v''
                                                  [FStr awsRegion, FStr (aw_algorithm env cert)]))))))))"

definition iid_Verify :: "iid_env \<Rightarrow> aws_attestor \<Rightarrow> (aws_attestor \<times> gerr option) outcome" where
  "iid_Verify env a =
     (if aw_RawIID a = [] \<or> aw_RawSig a = []
      then Return (a, Some (Errorf ''instance identity document or signature is empty'' []))
      else case StdEncoding_Decode (aw_RawSig a) of
             None \<Rightarrow> Return (a, Some (Errorf ''failed to decode signature: %w'' [FErr (LibError ''illegal base64 data'')]))
           | Some sigBytes \<Rightarrow>
               (let region = (if aw_Region a = [] then iid_Region (aw_Document a) else aw_Region a)
                in bindO (getAWSCAPublicKey env region (aw_awsCert a)) (\<lambda>r.
                     case r of
                       Inl err \<Rightarrow> Return (a, Some (Errorf ''failed to get AWS public key: %w'' [FErr err]))
                     | Inr key \<Rightarrow>
                         (case PublicPemBytes (aw_lib env) (RSA_PublicKey key) of
                            Inl err \<Rightarrow> Return (a, Some (Errorf ''failed to marshal public key: %w'' [FErr err]))
                          | Inr pem \<Rightarrow>
                              Return (a\<lparr>aw_PublicKey := pem\<rparr>,
                                lib_verifyPKCS1v15 (aw_lib env) key SHA256 (lib_hash (aw_lib env) SHA256 (aw_RawIID a)) sigBytes)))))"

definition aws_iid_Attest ::
  "iid_env \<Rightarrow> 'd AttestationContext \<Rightarrow> aws_attestor option \<Rightarrow> (aws_attestor \<times> gerr option) outcome" where
  "aws_iid_Attest env ctx attestor =
     (case attestor of
        None \<Rightarrow> Panic nil_panic
      | Some a \<Rightarrow>
          (case getIID env (a\<lparr>aw_hashes := ac_hashes ctx\<rparr>) of
             (a, Some err) \<Rightarrow> Return (a, Some err)
           | (a, None) \<Rightarrow> iid_Verify env a))"

definition aws_iid_Subjects :: "crypto_lib \<Rightarrow> aws_attestor \<Rightarrow> (string, digest_set) gomap" where
  "aws_iid_Subjects lib a =
     (let doc = aw_Document a
      in record_subject lib ''privateip:'' (iid_PrivateIP doc)
           (record_subject lib ''imageid:'' (iid_ImageID doc)
             (record_subject lib ''accountid:'' (iid_AccountID doc)
               (record_subject lib ''instanceid:'' (iid_InstanceID doc) []))))"

section \<open>Google Cloud\<close>

definition gcp_iit_Name :: string where "gcp_iit_Name = ''gcp-iit''"
definition gcp_iit_Type :: string where "gcp_iit_Type = ''https://witness.dev/attestations/gcp-iit/v0.1''"
definition gcp_jwksUrl :: string where "gcp_jwksUrl = ''https://www.googleapis.com/oauth2/v3/certs''"
definition defaultIdentityTokenHost :: string where "defaultIdentityTokenHost = ''metadata.google.internal''"
definition identityTokenAudience :: string where "identityTokenAudience = ''witness-node-attestor''"
definition defaultServiceAccount :: string where "defaultServiceAccount = ''default''"
definition InstanceMetadataUrl :: string where
  "InstanceMetadataUrl = ''http://metadata.google.internal/computeMetadata/v1/instance/''"

record gcp_attestor =
  gi_JWT :: "jwt_attestor option"
  gi_ProjectID :: string
  gi_ProjectNumber :: string
  gi_InstanceZone :: string
  gi_InstanceID :: string
  gi_InstanceHostname :: string
  gi_InstanceCreationTimestamp :: string
  gi_InstanceConfidentiality :: string
  gi_LicenceID :: "string list"
  gi_ClusterName :: string
  gi_ClusterUID :: string
  gi_ClusterLocation :: string
  gi_isWorkloadIdentity :: bool

definition gcp_iit_New :: gcp_attestor where
  "gcp_iit_New =
     \<lparr>gi_JWT = None, gi_ProjectID = [], gi_ProjectNumber = [], gi_InstanceZone = [], gi_InstanceID = [], gi_InstanceHostname = [],
      gi_InstanceCreationTimestamp = [], gi_InstanceConfidentiality = [], gi_LicenceID = [], gi_ClusterName = [],
      gi_ClusterUID = [], gi_ClusterLocation = [], gi_isWorkloadIdentity = False\<rparr>"

text \<open>The metadata service: the status of a response and its body, for a request with the header \<open>Metadata-Flavor\<close>.\<close>

type_synonym metadata_service = "string \<Rightarrow> gerr + (int \<times> reader)"

definition getMetadata :: "metadata_service \<Rightarrow> string \<Rightarrow> gerr + bytes" where
  "getMetadata serve url =
     (case serve url of
        Inl err \<Rightarrow> Inl err
      | Inr (code, body) \<Rightarrow>
          if code \<noteq> 200 then Inl (Errorf ''unexpected status code for route: %d'' [FInt code])
          else body)"

text \<open>The keys of the query are sorted; nothing in the host and the account that are used needs escaping.\<close>

definition identityTokenURL :: "string \<Rightarrow> string \<Rightarrow> string" where
  "identityTokenURL host serviceAccount =
     ''http://'' @ host @ ''/computeMetadata/v1/instance/service-accounts/'' @ serviceAccount @ ''/identity?audience='' @
     identityTokenAudience @ ''&format=full''"

text \<open>An assertion \<open>x.(string)\<close> without a second result, and the one of \<open>licence_id\<close> to \<open>[]string\<close>: a decoded JSON array is a
  \<open>[]interface{}\<close>, so no value has this type.\<close>

definition assert_string :: "json option \<Rightarrow> string outcome" where
  "assert_string v = (case v of Some (JString s) \<Rightarrow> Return s | _ \<Rightarrow> Panic ''interface conversion: interface {} is not string'')"

definition assert_strings :: "json option \<Rightarrow> string list outcome" where
  "assert_strings v = Panic ''interface conversion: interface {} is not []string''"

text \<open>A claim, where a missing one and a null are both nil.\<close>

definition claim_value :: "jwt_attestor \<Rightarrow> string \<Rightarrow> json option" where
  "claim_value j name = (case map_of (jw_Claims j) name of Some JNull \<Rightarrow> None | v \<Rightarrow> v)"

definition parseJWTProjectInfo :: "jwt_attestor \<Rightarrow> (string \<times> string \<times> gerr option) outcome" where
  "parseJWTProjectInfo j =
     (case claim_value j ''email'' of
        None \<Rightarrow> Return ([], [], Some (Errorf ''unable to find email claim'' []))
      | v \<Rightarrow> bindO (assert_string v) (\<lambda>email.
          let strs = split_at (CHR ''@'') email
          in if length strs \<noteq> 2 then Return ([], [], Some (Errorf ''unable to parse email: %s'' [FStr email]))
             else (let domain = strs ! 1; projectInfo = hd (split_at (CHR ''.'') domain);
                       projectInfoSplit = split_at (CHR ''-'') projectInfo
                   in Return (last projectInfoSplit, join_strings ''-'' (butlast projectInfoSplit), None))))"

text \<open>\<open>getInstanceData\<close>: what cannot be retrieved is the empty string, and an error of the project's is only logged. The
  endpoints of the project are asked too and their answers not used.\<close>

definition instance_metadata :: "metadata_service \<Rightarrow> string \<Rightarrow> string" where
  "instance_metadata serve path =
     (case getMetadata serve (InstanceMetadataUrl @ path) of Inl err \<Rightarrow> [] | Inr data \<Rightarrow> data)"

definition getInstanceData :: "metadata_service \<Rightarrow> jwt_attestor \<Rightarrow> gcp_attestor \<Rightarrow> gcp_attestor outcome" where
  "getInstanceData serve j a =
     (let a = a\<lparr>gi_ClusterName := instance_metadata serve ''attributes/cluster-name'',
                gi_ClusterUID := instance_metadata serve ''attributes/cluster-uid'',
                gi_ClusterLocation := instance_metadata serve ''attributes/cluster-location'',
                gi_InstanceHostname := instance_metadata serve ''hostname'',
                gi_InstanceID := instance_metadata serve ''id'', gi_InstanceZone := instance_metadata serve ''zone''\<rparr>
      in bindO (parseJWTProjectInfo j)
           (\<lambda>(projID, projNum, err). Return (a\<lparr>gi_ProjectID := projID, gi_ProjectNumber := projNum\<rparr>)))"

definition google_claim :: "json option \<Rightarrow> gcp_attestor \<Rightarrow> gcp_attestor outcome" where
  "google_claim v a =
     (case v of
        Some (JObject obj) \<Rightarrow>
          (let field = (\<lambda>name. map_of obj name)
           in bindO (assert_string (field ''project_id'')) (\<lambda>projectID.
              bindO (assert_string (field ''project_number'')) (\<lambda>projectNumber.
              bindO (assert_string (field ''zone'')) (\<lambda>zone.
              bindO (assert_string (field ''instance_id'')) (\<lambda>instanceID.
              bindO (assert_string (field ''instance_name'')) (\<lambda>hostname.
              bindO (assert_string (field ''instance_creation_timestamp'')) (\<lambda>created.
              bindO (assert_string (field ''instance_confidentiality'')) (\<lambda>confidentiality.
              bindO (assert_strings (field ''licence_id'')) (\<lambda>licences.
                Return (a\<lparr>gi_ProjectID := projectID, gi_ProjectNumber := projectNumber, gi_InstanceZone := zone,
                  gi_InstanceID := instanceID, gi_InstanceHostname := hostname, gi_InstanceCreationTimestamp := created,
                  gi_InstanceConfidentiality := confidentiality, gi_LicenceID := licences\<rparr>))))))))))
      | _ \<Rightarrow> Panic ''interface conversion: interface {} is not map[string]interface {}'')"

definition gcp_iit_Attest ::
  "ci_env \<Rightarrow> metadata_service \<Rightarrow> gcp_attestor \<Rightarrow> (gcp_attestor \<times> gerr option) outcome" where
  "gcp_iit_Attest env serve a =
     (case getMetadata serve (identityTokenURL defaultIdentityTokenHost defaultServiceAccount) of
        Inl err \<Rightarrow>
          Return (a, Some (Errorf ''rpc error: code = Internal desc = unable to retrieve valid identity token: %v'' [FErr err]))
      | Inr it \<Rightarrow>
          (case jwt_Attest env (jwt_New [WithToken it, WithJWKSUrl gcp_jwksUrl]) of
             (j, Some err) \<Rightarrow> Return (a\<lparr>gi_JWT := Some j\<rparr>, Some err)
           | (j, None) \<Rightarrow>
               (let a = a\<lparr>gi_JWT := Some j, gi_isWorkloadIdentity := (gi_isWorkloadIdentity a \<or> claim_value j ''google'' = None)\<rparr>
                in bindO (if gi_isWorkloadIdentity a then getInstanceData serve j a else google_claim (claim_value j ''google'') a)
                     (\<lambda>a. Return (a, None)))))"

definition gcp_iit_Subjects :: "crypto_lib \<Rightarrow> gcp_attestor \<Rightarrow> (string, digest_set) gomap" where
  "gcp_iit_Subjects lib a =
     record_subject lib ''clusteruid:'' (gi_ClusterUID a)
       (record_subject lib ''projectnumber:'' (gi_ProjectNumber a)
         (record_subject lib ''projectid:'' (gi_ProjectID a)
           (record_subject lib ''instancename:'' (gi_InstanceHostname a)
             (record_subject lib ''instanceid:'' (gi_InstanceID a) []))))"

section \<open>Lemmas\<close>

lemma assert_string_return: "assert_string v = Return s \<longleftrightarrow> v = Some (JString s)"
  by (auto simp: assert_string_def split: option.splits json.splits)

lemma bindO_never: "(\<And>x. \<exists>s. f x = Panic s) \<Longrightarrow> \<exists>s. bindO m f = Panic s"
  by (cases m) auto

lemma google_claim_panics: "\<exists>s. google_claim v a = Panic s"
proof (cases "\<exists>obj. v = Some (JObject obj)")
  case True
  then show ?thesis by (auto simp: google_claim_def Let_def assert_strings_def intro!: bindO_never)
qed (auto simp: google_claim_def split: option.splits json.splits)

lemma split_at_not_in: "p \<in> set (split_at c s) \<Longrightarrow> c \<notin> set p"
  by (induction s arbitrary: p) (auto split: if_splits list.splits)

lemma split_at_nonempty: "split_at c s \<noteq> []"
  by (induction s) (auto split: list.splits)

lemma join_strings_butlast:
  "ps \<noteq> [] \<Longrightarrow> join_strings sep ps = join_strings sep (butlast ps) @ (if tl ps = [] then [] else sep) @ last ps"
proof (induction sep ps rule: join_strings.induct)
  case (3 sep x y xs)
  then show ?case by (cases xs) auto
qed auto

lemma split_at_single: "tl (split_at c s) = [] \<longleftrightarrow> c \<notin> set s"
proof (induction s)
  case (Cons x s)
  then show ?case using split_at_nonempty [of c s] by (cases "split_at c s") auto
qed simp

lemma split_at_last_hyphen:
  "s = join_strings [c] (butlast (split_at c s)) @ (if c \<in> set s then [c] else []) @ last (split_at c s)"
  using split_at_join [of c s] join_strings_butlast [OF split_at_nonempty, of "[c]" c s] split_at_single [of c s] by auto

text \<open>What the checks of an AWS document passed.\<close>

lemma getAWSCAPublicKey_success:
  assumes "getAWSCAPublicKey env region given = Return (Inr key)"
  shows "\<exists>cert blk x509. (if given = [] then getRegionCert env region else Inr given) = Inr cert \<and>
    aw_pem_Decode env cert = (Some blk, []) \<and> lib_parseCert (aw_lib env) (pem_Bytes blk) = Inr x509 \<and>
    cert_PublicKey x509 = RSA_PublicKey key \<and> fst (aw_validity env x509) \<le> aw_now env 0 \<and> aw_now env 1 \<le> snd (aw_validity env x509)"
proof (cases "if given = [] then getRegionCert env region else Inr given")
  case (Inr cert)
  have "\<exists>blk x509. aw_pem_Decode env cert = (Some blk, []) \<and> lib_parseCert (aw_lib env) (pem_Bytes blk) = Inr x509 \<and>
    cert_PublicKey x509 = RSA_PublicKey key \<and> fst (aw_validity env x509) \<le> aw_now env 0 \<and> aw_now env 1 \<le> snd (aw_validity env x509)"
    using assms unfolding getAWSCAPublicKey_def Inr
    by (auto split: prod.splits if_splits option.splits sum.splits public_key.splits)
  with Inr show ?thesis by blast
next
  case (Inl err)
  with assms show ?thesis by (simp add: getAWSCAPublicKey_def)
qed

lemma iid_Verify_success:
  assumes "iid_Verify env a = Return (a', None)"
  shows "\<exists>bs key pem. aw_RawIID a \<noteq> [] \<and> StdEncoding_Decode (aw_RawSig a) = Some bs \<and>
    getAWSCAPublicKey env (if aw_Region a = [] then iid_Region (aw_Document a) else aw_Region a) (aw_awsCert a) = Return (Inr key) \<and>
    PublicPemBytes (aw_lib env) (RSA_PublicKey key) = Inr pem \<and> a' = a\<lparr>aw_PublicKey := pem\<rparr> \<and>
    lib_verifyPKCS1v15 (aw_lib env) key SHA256 (lib_hash (aw_lib env) SHA256 (aw_RawIID a)) bs = None"
proof -
  let ?region = "if aw_Region a = [] then iid_Region (aw_Document a) else aw_Region a"
  from assms obtain bs where raw: "aw_RawIID a \<noteq> []" "aw_RawSig a \<noteq> []" "StdEncoding_Decode (aw_RawSig a) = Some bs"
    by (cases "StdEncoding_Decode (aw_RawSig a)") (auto simp: iid_Verify_def split: if_splits)
  with assms obtain r where r: "getAWSCAPublicKey env ?region (aw_awsCert a) = Return r"
    by (cases "getAWSCAPublicKey env ?region (aw_awsCert a)") (simp_all add: iid_Verify_def)
  with assms raw obtain key where key: "r = Inr key" by (cases r) (simp_all add: iid_Verify_def)
  with assms raw r obtain pem where pem: "PublicPemBytes (aw_lib env) (RSA_PublicKey key) = Inr pem"
    by (cases "PublicPemBytes (aw_lib env) (RSA_PublicKey key)") (simp_all add: iid_Verify_def)
  from assms raw r key pem show ?thesis
    by (intro exI [of _ bs] exI [of _ key] exI [of _ pem]) (simp add: iid_Verify_def)
qed

text \<open>What \<open>parseJWTProjectInfo\<close> takes from an e-mail address.\<close>

lemma parse_project_info:
  assumes "parseJWTProjectInfo j = Return (projID, projNum, err)"
  shows "CHR ''-'' \<notin> set projID \<and>
    (case claim_value j ''email'' of
       Some (JString email) \<Rightarrow>
         if length (split_at (CHR ''@'') email) = 2
         then hd (split_at (CHR ''.'') (split_at (CHR ''@'') email ! 1)) =
           projNum @ (if CHR ''-'' \<in> set (hd (split_at (CHR ''.'') (split_at (CHR ''@'') email ! 1))) then ''-'' else []) @ projID
         else projID = [] \<and> projNum = []
     | v \<Rightarrow> v = None \<and> projID = [] \<and> projNum = [])"
proof (cases "claim_value j ''email''")
  case None
  with assms show ?thesis by (simp add: parseJWTProjectInfo_def)
next
  case (Some v)
  with assms obtain email where email: "v = JString email" by (auto simp: parseJWTProjectInfo_def assert_string_return)
  let ?label = "hd (split_at (CHR ''.'') (split_at (CHR ''@'') email ! 1))"
  show ?thesis
  proof (cases "length (split_at (CHR ''@'') email) = 2")
    case True
    with assms Some email have "projID = last (split_at (CHR ''-'') ?label)" "projNum = join_strings ''-'' (butlast (split_at (CHR ''-'') ?label))"
      by (auto simp: parseJWTProjectInfo_def assert_string_def Let_def)
    moreover from this have "CHR ''-'' \<notin> set projID" using split_at_not_in split_at_nonempty last_in_set by metis
    ultimately show ?thesis using Some email True split_at_last_hyphen [of ?label "CHR ''-''"] by simp
  next
    case False
    with assms Some email show ?thesis by (auto simp: parseJWTProjectInfo_def assert_string_def Let_def)
  qed
qed

section \<open>Properties\<close>

text \<open>C32. What a successful AWS attestation stands for: the recorded document and signature are what the metadata service
  returned; the signature, base64-decoded, is one over the SHA-256 of exactly the recorded document, under the RSA key of a
  certificate that was valid when it was checked; this certificate is the operator's or, without one, that of the region of
  the configuration or, without one, of the region that the document itself names; the public key that is recorded is the
  one that was used; and the fields of the subjects were decoded from the signed document.\<close>

theorem aws_identity_verified:
  assumes "aws_iid_Attest env ctx (Some a) = Return (a', None)"
  shows "\<exists>content signature bs cert key pem blk.
    aw_GetDynamicData env docPath = Inr (Inr content) \<and> aw_RawIID a' = content \<and> content \<noteq> [] \<and>
    aw_GetDynamicData env sigPath = Inr (Inr signature) \<and> aw_RawSig a' = signature \<and>
    aw_unmarshal env content (aw_Document a) = (aw_Document a', None) \<and>
    StdEncoding_Decode signature = Some bs \<and>
    (if aw_awsCert a \<noteq> [] then cert = aw_awsCert a
     else map_of (aw_regionCerts env) (if aw_Region a = [] then iid_Region (aw_Document a') else aw_Region a) = Some cert) \<and>
    aw_pem_Decode env cert = (Some blk, []) \<and>
    (\<exists>x509. lib_parseCert (aw_lib env) (pem_Bytes blk) = Inr x509 \<and> cert_PublicKey x509 = RSA_PublicKey key \<and>
       fst (aw_validity env x509) \<le> aw_now env 0 \<and> aw_now env 1 \<le> snd (aw_validity env x509)) \<and>
    PublicPemBytes (aw_lib env) (RSA_PublicKey key) = Inr pem \<and> aw_PublicKey a' = pem \<and>
    lib_verifyPKCS1v15 (aw_lib env) key SHA256 (lib_hash (aw_lib env) SHA256 content) bs = None"
proof -
  let ?a = "a\<lparr>aw_hashes := ac_hashes ctx\<rparr>"
  from assms obtain b where get: "getIID env ?a = (b, None)" and verify: "iid_Verify env b = Return (a', None)"
    by (auto simp: aws_iid_Attest_def split: prod.splits option.splits)
  from get obtain content signature doc where fetched: "aw_GetDynamicData env docPath = Inr (Inr content)"
    "aw_GetDynamicData env sigPath = Inr (Inr signature)" "aw_unmarshal env content (aw_Document a) = (doc, None)"
    and b: "b = ?a\<lparr>aw_RawIID := content, aw_RawSig := signature, aw_Document := doc\<rparr>"
    by (auto simp: getIID_def Let_def split: sum.splits prod.splits option.splits)
  let ?region = "if aw_Region a = [] then iid_Region doc else aw_Region a"
  from iid_Verify_success [OF verify] obtain bs key pem where v: "content \<noteq> []" "StdEncoding_Decode signature = Some bs"
    "getAWSCAPublicKey env ?region (aw_awsCert a) = Return (Inr key)"
    "PublicPemBytes (aw_lib env) (RSA_PublicKey key) = Inr pem" "a' = b\<lparr>aw_PublicKey := pem\<rparr>"
    "lib_verifyPKCS1v15 (aw_lib env) key SHA256 (lib_hash (aw_lib env) SHA256 content) bs = None"
    unfolding b by (auto cong del: if_weak_cong)
  from getAWSCAPublicKey_success [OF v(3)] obtain cert blk x509 where
    cert: "(if aw_awsCert a = [] then getRegionCert env ?region else Inr (aw_awsCert a)) = Inr cert"
    and chain: "aw_pem_Decode env cert = (Some blk, [])"
    "lib_parseCert (aw_lib env) (pem_Bytes blk) = Inr x509" "cert_PublicKey x509 = RSA_PublicKey key"
    "fst (aw_validity env x509) \<le> aw_now env 0" "aw_now env 1 \<le> snd (aw_validity env x509)" by blast
  have same: "aw_RawIID a' = content" "aw_RawSig a' = signature" "aw_Document a' = doc" "aw_PublicKey a' = pem"
    by (simp_all add: v(5) b)
  have which: "if aw_awsCert a \<noteq> [] then cert = aw_awsCert a
    else map_of (aw_regionCerts env) (if aw_Region a = [] then iid_Region (aw_Document a') else aw_Region a) = Some cert"
    using cert by (auto simp: getRegionCert_def same split: if_splits option.splits)
  have decoded: "aw_unmarshal env content (aw_Document a) = (aw_Document a', None)" by (simp add: same fetched)
  show ?thesis
    by (intro exI conjI; rule fetched(1) same(1) v(1) fetched(2) same(2) decoded v(2) which chain v(4) same(4) v(6))
qed

text \<open>C33. What a Google Cloud attestation does, in every case. Without the identity token of the metadata service it fails and
  records nothing; with one that does not verify it fails and records the token alone. A verified token with the claim
  \<open>google\<close> makes it panic, whatever the claim holds, except on an attestor that saw a token without the claim before: such
  an attestor succeeds with the claim, which it does not read. Without the claim, or on such an attestor, an e-mail claim
  that is not a string makes it panic, and otherwise it succeeds: the instance is described by the metadata service alone,
  and of the host's first label in the e-mail claim the part after the last hyphen becomes the project's identifier and the
  part before it the project's number, both empty when there is no e-mail claim or it has not exactly one \<open>@\<close>.\<close>

theorem gcp_attested_exact:
  "case getMetadata serve (identityTokenURL defaultIdentityTokenHost defaultServiceAccount) of
     Inl err \<Rightarrow> \<exists>e. gcp_iit_Attest env serve a = Return (a, Some e)
   | Inr it \<Rightarrow>
       (case jwt_Attest env (jwt_New [WithToken it, WithJWKSUrl gcp_jwksUrl]) of
          (j, Some err) \<Rightarrow> gcp_iit_Attest env serve a = Return (a\<lparr>gi_JWT := Some j\<rparr>, Some err)
        | (j, None) \<Rightarrow>
            if \<not> gi_isWorkloadIdentity a \<and> claim_value j ''google'' \<noteq> None
            then \<exists>s. gcp_iit_Attest env serve a = Panic s
            else if \<exists>v. claim_value j ''email'' = Some v \<and> (\<nexists>email. v = JString email)
            then \<exists>s. gcp_iit_Attest env serve a = Panic s
            else \<exists>a'. gcp_iit_Attest env serve a = Return (a', None) \<and> gi_JWT a' = Some j \<and> gi_isWorkloadIdentity a' \<and>
              gi_InstanceID a' = instance_metadata serve ''id'' \<and> gi_InstanceHostname a' = instance_metadata serve ''hostname'' \<and>
              gi_InstanceZone a' = instance_metadata serve ''zone'' \<and>
              gi_ClusterUID a' = instance_metadata serve ''attributes/cluster-uid'' \<and>
              CHR ''-'' \<notin> set (gi_ProjectID a') \<and>
              (case claim_value j ''email'' of
                 Some (JString email) \<Rightarrow>
                   if length (split_at (CHR ''@'') email) = 2
                   then hd (split_at (CHR ''.'') (split_at (CHR ''@'') email ! 1)) =
                     gi_ProjectNumber a' @ (if CHR ''-'' \<in> set (hd (split_at (CHR ''.'') (split_at (CHR ''@'') email ! 1))) then ''-'' else []) @
                     gi_ProjectID a'
                   else gi_ProjectID a' = [] \<and> gi_ProjectNumber a' = []
               | _ \<Rightarrow> gi_ProjectID a' = [] \<and> gi_ProjectNumber a' = []))"
proof (cases "getMetadata serve (identityTokenURL defaultIdentityTokenHost defaultServiceAccount)")
  case (Inr it)
  obtain j e where jwt: "jwt_Attest env (jwt_New [WithToken it, WithJWKSUrl gcp_jwksUrl]) = (j, e)" by fastforce
  show ?thesis
  proof (cases e)
    case None
    let ?w = "gi_isWorkloadIdentity a \<or> claim_value j ''google'' = None"
    let ?a = "a\<lparr>gi_JWT := Some j, gi_isWorkloadIdentity := ?w\<rparr>"
    have run: "gcp_iit_Attest env serve a =
        bindO (if ?w then getInstanceData serve j ?a else google_claim (claim_value j ''google'') ?a) (\<lambda>a. Return (a, None))"
      by (simp add: gcp_iit_Attest_def Inr jwt None Let_def)
    show ?thesis
    proof (cases ?w)
      case False
      then have "\<exists>s. gcp_iit_Attest env serve a = Panic s"
        using google_claim_panics [of "claim_value j ''google''" ?a] unfolding run by auto
      with False show ?thesis by (simp add: Inr jwt None)
    next
      case w: True
      have info: "gcp_iit_Attest env serve a = bindO (parseJWTProjectInfo j) (\<lambda>(projID, projNum, err).
          Return (a\<lparr>gi_JWT := Some j, gi_isWorkloadIdentity := True, gi_ClusterName := instance_metadata serve ''attributes/cluster-name'',
            gi_ClusterUID := instance_metadata serve ''attributes/cluster-uid'',
            gi_ClusterLocation := instance_metadata serve ''attributes/cluster-location'',
            gi_InstanceHostname := instance_metadata serve ''hostname'', gi_InstanceID := instance_metadata serve ''id'',
            gi_InstanceZone := instance_metadata serve ''zone'', gi_ProjectID := projID, gi_ProjectNumber := projNum\<rparr>, None))"
        unfolding run using w by (cases "parseJWTProjectInfo j") (auto simp: getInstanceData_def Let_def split: prod.splits)
      show ?thesis
      proof (cases "parseJWTProjectInfo j")
        case (Return p)
        obtain projID projNum err where p: "p = (projID, projNum, err)" by (cases p)
        from parse_project_info [OF Return [unfolded p]] w show ?thesis
          unfolding info Return p by (auto simp: Inr jwt None split: option.splits json.splits)
      next
        case (Panic s)
        then have "\<exists>v. claim_value j ''email'' = Some v \<and> (\<nexists>email. v = JString email)"
          by (auto simp: parseJWTProjectInfo_def assert_string_def Let_def split: option.splits json.splits if_splits)
        with w show ?thesis by (simp add: Inr jwt None info Panic)
      qed
    qed
  qed (simp add: Inr jwt gcp_iit_Attest_def)
qed (simp add: gcp_iit_Attest_def)

section \<open>Samples\<close>

definition sample_iid_env :: iid_env where
  "sample_iid_env =
     \<lparr>aw_lib = sample_lib\<lparr>lib_parseCert := \<lambda>b. Inr ((sample_cert b)\<lparr>cert_PublicKey := RSA_PublicKey b\<rparr>),
        lib_marshalPKIX := \<lambda>k. Inr ''key'', lib_verifyPKCS1v15 := \<lambda>k h d sig. if sig = d then None else Some ErrVerifyFailed\<rparr>,
      aw_LoadDefaultConfig = Inr ''us-east-1'',
      aw_GetDynamicData = \<lambda>path. Inr (Inr (if path = docPath then ''doc'' else ''ZG9j'')),
      aw_unmarshal = \<lambda>bs doc. (doc\<lparr>iid_InstanceID := ''i-1''\<rparr>, None), aw_regionCerts = [(''us-east-1'', ''cert'')],
      aw_pem_Decode = \<lambda>bs. (Some \<lparr>pem_Type = ''CERTIFICATE'', pem_Headers = [], pem_Bytes = bs\<rparr>, []),
      aw_validity = \<lambda>c. (0, 10), aw_algorithm = \<lambda>c. ''RSA'', aw_now = \<lambda>n. 5\<rparr>"

theorem aws_identity_verified_witness:
  "\<exists>a a'. aws_iid_New sample_iid_env [] = Some a \<and>
     aws_iid_Attest sample_iid_env (sample_context [] :: unit AttestationContext) (Some a) = Return (a', None) \<and>
     aw_RawIID a' = ''doc'' \<and> aw_PublicKey a' = ''key''"
proof -
  let ?ctx = "sample_context [] :: unit AttestationContext"
  obtain a where a: "aws_iid_New sample_iid_env [] = Some a" and fields: "aw_awsCert a = []" "aw_Region a = ''us-east-1''"
    by (simp add: aws_iid_New_def sample_iid_env_def)
  have sig: "StdEncoding_Decode ''ZG9j'' = Some ''doc''" by code_simp
  have "\<exists>a'. aws_iid_Attest sample_iid_env ?ctx (Some a) = Return (a', None)"
    by (simp add: aws_iid_Attest_def getIID_def iid_Verify_def getAWSCAPublicKey_def getRegionCert_def sig fields sample_iid_env_def
        docPath_def sigPath_def PublicPemBytes_def sample_cert_def sample_lib_def Let_def)
  then obtain a' where run: "aws_iid_Attest sample_iid_env ?ctx (Some a) = Return (a', None)" by blast
  from aws_identity_verified [OF run] a run show ?thesis
    by (intro exI [of _ a] exI [of _ a'])
      (auto simp: sample_iid_env_def docPath_def sigPath_def PublicPemBytes_def sample_lib_def)
qed

definition sample_gcp_claims :: "(string, json) gomap" where
  "sample_gcp_claims = [(''email'', JString ''sa@my-proj-7.iam.gserviceaccount.com'')]"

theorem gcp_attested_exact_witness:
  "(\<exists>a'. gcp_iit_Attest (sample_ci_env\<lparr>ci_http_Get := \<lambda>url. Inr (Inr ''keys''), ci_token_Claims := \<lambda>t jwks. Inr sample_gcp_claims\<rparr>)
       (\<lambda>url. Inr (200, Inr ''token'')) gcp_iit_New = Return (a', None) \<and> gi_InstanceID a' = ''token'') \<and>
   (\<exists>s. gcp_iit_Attest (sample_ci_env\<lparr>ci_http_Get := \<lambda>url. Inr (Inr ''keys''),
         ci_token_Claims := \<lambda>t jwks. Inr ((''google'', JObject []) # sample_gcp_claims)\<rparr>)
       (\<lambda>url. Inr (200, Inr ''token'')) gcp_iit_New = Panic s)"
proof -
  let ?env = "\<lambda>claims. sample_ci_env\<lparr>ci_http_Get := \<lambda>url. Inr (Inr ''keys''), ci_token_Claims := \<lambda>t jwks. Inr claims\<rparr>"
  let ?serve = "\<lambda>url. Inr (200, Inr ''token'')"
  have token: "getMetadata ?serve url = Inr ''token''" for url by (simp add: getMetadata_def)
  have jwt: "\<exists>j. jwt_Attest (?env claims) (jwt_New [WithToken ''token'', WithJWKSUrl gcp_jwksUrl]) = (j, None) \<and> jw_Claims j = claims"
    if "claims = sample_gcp_claims \<or> claims = (''google'', JObject []) # sample_gcp_claims" for claims
    using that by (auto simp: sample_gcp_claims_def jwt_Attest_def sample_ci_env_def jwt_New_def WithToken_def WithJWKSUrl_def Let_def)
  obtain j where j: "jwt_Attest (?env sample_gcp_claims) (jwt_New [WithToken ''token'', WithJWKSUrl gcp_jwksUrl]) = (j, None)"
    "jw_Claims j = sample_gcp_claims" using jwt by blast
  obtain k where k: "jwt_Attest (?env ((''google'', JObject []) # sample_gcp_claims)) (jwt_New [WithToken ''token'', WithJWKSUrl gcp_jwksUrl]) = (k, None)"
    "jw_Claims k = (''google'', JObject []) # sample_gcp_claims" using jwt by blast
  have claims: "claim_value j ''google'' = None" "claim_value j ''email'' = Some (JString ''sa@my-proj-7.iam.gserviceaccount.com'')"
    "claim_value k ''google'' \<noteq> None" "\<not> gi_isWorkloadIdentity gcp_iit_New"
    by (simp_all add: claim_value_def j(2) k(2) sample_gcp_claims_def gcp_iit_New_def)
  show ?thesis
    using gcp_attested_exact [where serve = ?serve and env = "?env sample_gcp_claims" and a = gcp_iit_New]
      gcp_attested_exact [where serve = ?serve and env = "?env ((''google'', JObject []) # sample_gcp_claims)" and a = gcp_iit_New] claims
    by (auto simp: token j(1) k(1) instance_metadata_def)
qed

end
