(* ===== verification/Network_Types.thy ===== *)
theory Network_Types
  imports Command_Run Keys "HOL-Library.Word"
begin

text \<open>
  What the network trace records: \<open>types/types.go\<close>, \<open>types/config.go\<close>, \<open>proxy/recorder.go\<close> and \<open>bpf/maps.go\<close> of
  \<open>attestation/networktrace\<close>, with what they use of package \<open>net\<close>. Counters keep their width.
\<close>

section \<open>Addresses\<close>

text \<open>A \<open>net.IP\<close> is its bytes; the nil address has none.\<close>

type_synonym net_ip = bytes

definition byte :: "nat \<Rightarrow> char" where "byte n = char_of n"
definition byte_val :: "char \<Rightarrow> nat" where "byte_val c = of_char c"

definition v4_mapped :: "net_ip \<Rightarrow> bool" where
  "v4_mapped ip \<longleftrightarrow> length ip = 16 \<and> take 10 ip = replicate 10 (byte 0) \<and> ip ! 10 = byte 255 \<and> ip ! 11 = byte 255"

definition ip_To4 :: "net_ip \<Rightarrow> net_ip option" where
  "ip_To4 ip = (if length ip = 4 then Some ip else if v4_mapped ip then Some (drop 12 ip) else None)"

fun hex_number :: "nat \<Rightarrow> string" where
  "hex_number n = (if n < 16 then [hex_digit n] else hex_number (n div 16) @ [hex_digit (n mod 16)])"

declare hex_number.simps [simp del]

definition dotted :: "net_ip \<Rightarrow> string" where
  "dotted ip = join_strings ''.'' (map (\<lambda>b. dec (byte_val b)) ip)"

text \<open>The groups of an IPv6 address, and the first longest run of at least two groups that are zero.\<close>

fun ip_groups :: "bytes \<Rightarrow> nat list" where
  "ip_groups (a # b # bs) = (byte_val a * 256 + byte_val b) # ip_groups bs"
| "ip_groups bs = []"

definition zero_run :: "nat list \<Rightarrow> nat \<Rightarrow> nat" where
  "zero_run gs i = length (takeWhile (\<lambda>g. g = 0) (drop i gs))"

definition longest_run :: "nat list \<Rightarrow> (nat \<times> nat) option" where
  "longest_run gs =
     fold (\<lambda>i best. if 2 \<le> zero_run gs i \<and> (case best of None \<Rightarrow> True | Some (j, n) \<Rightarrow> n < zero_run gs i)
                    then Some (i, zero_run gs i) else best)
       [0..<length gs] None"

definition v6_string :: "net_ip \<Rightarrow> string" where
  "v6_string ip =
     (let gs = ip_groups ip; text = (\<lambda>gs. join_strings '':'' (map hex_number gs))
      in case longest_run gs of
           None \<Rightarrow> text gs
         | Some (i, n) \<Rightarrow> text (take i gs) @ ''::'' @ text (drop (i + n) gs))"

text \<open>\<open>IP.String\<close>\<close>

definition ip_String :: "net_ip \<Rightarrow> string" where
  "ip_String ip =
     (if ip = [] then ''<nil>''
      else case ip_To4 ip of
             Some v4 \<Rightarrow> dotted v4
           | None \<Rightarrow> if length ip = 16 then v6_string ip else ''?'' @ HexEncode ip)"

text \<open>\<open>net.ParseIP\<close>: four decimal numbers without leading zeros, or the groups of an IPv6 address with at most one \<open>::\<close>
  and maybe an IPv4 address at the end. It returns 16 bytes.\<close>

definition dec_digit :: "char \<Rightarrow> nat option" where
  "dec_digit c = (if 48 \<le> byte_val c \<and> byte_val c \<le> 57 then Some (byte_val c - 48) else None)"

definition v6_digit :: "char \<Rightarrow> nat option" where
  "v6_digit c =
     (let n = byte_val c
      in if 48 \<le> n \<and> n \<le> 57 then Some (n - 48)
         else if 97 \<le> n \<and> n \<le> 102 then Some (n - 87)
         else if 65 \<le> n \<and> n \<le> 70 then Some (n - 55) else None)"

definition parse_octet :: "string \<Rightarrow> nat option" where
  "parse_octet s =
     (if s = [] \<or> 3 < length s \<or> (1 < length s \<and> hd s = CHR ''0'') \<or> list_ex (\<lambda>c. dec_digit c = None) s then None
      else (let n = foldl (\<lambda>n c. 10 * n + the (dec_digit c)) 0 s in if 255 < n then None else Some n))"

definition parse_v4 :: "string \<Rightarrow> bytes option" where
  "parse_v4 s =
     (let parts = map parse_octet (split_at (CHR ''.'') s)
      in if length parts = 4 \<and> None \<notin> set parts then Some (map (\<lambda>p. byte (the p)) parts) else None)"

text \<open>The groups before and after the \<open>::\<close>, \<open>acc\<close> the bytes so far; the rest begins with a digit, or is empty after \<open>::\<close>.\<close>

function v6_loop :: "string \<Rightarrow> bytes \<Rightarrow> nat option \<Rightarrow> (bytes \<times> nat option) option" where
  "v6_loop s acc ellipsis =
     (let digits = takeWhile (\<lambda>c. v6_digit c \<noteq> None) s; rest = dropWhile (\<lambda>c. v6_digit c \<noteq> None) s
      in if 16 \<le> length acc \<or> digits = [] \<or> 4 < length digits then None
         else if rest \<noteq> [] \<and> hd rest = CHR ''.''
         then (if (ellipsis = None \<and> length acc \<noteq> 12) \<or> 16 < length acc + 4 then None
               else (case parse_v4 s of None \<Rightarrow> None | Some v4 \<Rightarrow> Some (acc @ v4, ellipsis)))
         else (let n = foldl (\<lambda>n c. 16 * n + the (v6_digit c)) 0 digits; acc = acc @ [byte (n div 256), byte (n mod 256)]
               in case rest of
                    [] \<Rightarrow> Some (acc, ellipsis)
                  | c # cs \<Rightarrow>
                      if c \<noteq> CHR '':'' \<or> cs = [] then None
                      else if hd cs = CHR '':''
                      then (if ellipsis \<noteq> None then None
                            else if tl cs = [] then Some (acc, Some (length acc))
                            else if 16 \<le> length acc then None
                            else v6_loop (tl cs) acc (Some (length acc)))
                      else if 16 \<le> length acc then None
                      else v6_loop cs acc ellipsis))"
  by pat_completeness auto
termination
proof (relation "measure (\<lambda>(s, acc, e). length s)")
  fix s :: string and digits rest acc' c cs
  assume rest: "rest = dropWhile (\<lambda>c. v6_digit c \<noteq> None) s" and cs: "rest = c # cs"
  have "length rest \<le> length s" unfolding rest by (rule length_dropWhile_le)
  with cs have "length cs < length s" by simp
  then show "((cs, acc', e), s, acc, e) \<in> measure (\<lambda>(s, acc, e). length s)" for acc' acc :: bytes and e :: "nat option" by simp
  from \<open>length cs < length s\<close> show "((tl cs, acc', e'), s, acc, e) \<in> measure (\<lambda>(s, acc, e). length s)"
    for acc' acc :: bytes and e e' :: "nat option" by simp
qed auto

declare v6_loop.simps [simp del]

definition parse_v6 :: "string \<Rightarrow> bytes option" where
  "parse_v6 s =
     (let leading = take 2 s = ''::''
      in if leading \<and> length s = 2 then Some (replicate 16 (byte 0))
         else case (if leading then v6_loop (drop 2 s) [] (Some 0) else v6_loop s [] None) of
                None \<Rightarrow> None
              | Some (bs, ellipsis) \<Rightarrow>
                  (case ellipsis of
                     None \<Rightarrow> if length bs = 16 then Some bs else None
                   | Some i \<Rightarrow>
                       if length bs < 16 then Some (take i bs @ replicate (16 - length bs) (byte 0) @ drop i bs) else None))"

definition ParseIP :: "string \<Rightarrow> net_ip option" where
  "ParseIP s =
     (case List.find (\<lambda>c. c = CHR ''.'' \<or> c = CHR '':'' \<or> c = CHR ''%'') s of
        None \<Rightarrow> None
      | Some c \<Rightarrow>
          if c = CHR ''.''
          then map_option (\<lambda>v4. replicate 10 (byte 0) @ [byte 255, byte 255] @ v4) (parse_v4 s)
          else if c = CHR '':'' then parse_v6 s else None)"

section \<open>Configuration\<close>

record PayloadConfig =
  pc_RecordPayload :: bool
  pc_RecordPayloadHash :: bool
  pc_MaxPayloadSize :: int

definition DefaultPayloadConfig :: PayloadConfig where
  "DefaultPayloadConfig = \<lparr>pc_RecordPayload = False, pc_RecordPayloadHash = True, pc_MaxPayloadSize = 1024 * 1024\<rparr>"

definition DefaultProxyPort :: "16 word" where "DefaultProxyPort = 8888"
definition DefaultProxyBindIPv4 :: string where "DefaultProxyBindIPv4 = ''127.0.0.1''"

record network_config =
  ncf_ObservePIDs :: "32 word list"
  ncf_ObserveCgroups :: "string list"
  ncf_ObserveCommands :: "string list"
  ncf_ObserveChildTree :: bool
  ncf_ProxyPort :: "16 word"
  ncf_ProxyBindIPv4 :: string
  ncf_Payload :: PayloadConfig

definition DefaultConfig :: network_config where
  "DefaultConfig =
     \<lparr>ncf_ObservePIDs = [], ncf_ObserveCgroups = [], ncf_ObserveCommands = [], ncf_ObserveChildTree = True,
      ncf_ProxyPort = DefaultProxyPort, ncf_ProxyBindIPv4 = DefaultProxyBindIPv4, ncf_Payload = DefaultPayloadConfig\<rparr>"

section \<open>Payloads\<close>

record Payload =
  py_Size :: int
  py_Data :: bytes
  py_Hash :: string
  py_Truncated :: bool

definition slice_panic :: string where "slice_panic = ''slice bounds out of range''"

text \<open>A payload above a limit is cut to the limit; a negative limit makes the slice expression panic.\<close>

definition NewPayload :: "crypto_lib \<Rightarrow> bytes \<Rightarrow> PayloadConfig \<Rightarrow> Payload outcome" where
  "NewPayload lib data config =
     (if data = [] then Return \<lparr>py_Size = 0, py_Data = [], py_Hash = [], py_Truncated = False\<rparr>
      else
        (let p = \<lparr>py_Size = int (length data), py_Data = [],
               py_Hash = (if pc_RecordPayloadHash config then HexEncode (lib_hash lib SHA256 data) else []), py_Truncated = False\<rparr>
         in if \<not> pc_RecordPayload config then Return p
            else if pc_MaxPayloadSize config = 0 \<or> int (length data) \<le> pc_MaxPayloadSize config then Return (p\<lparr>py_Data := data\<rparr>)
            else if pc_MaxPayloadSize config < 0 then Panic slice_panic
            else Return (p\<lparr>py_Truncated := True, py_Data := take (nat (pc_MaxPayloadSize config)) data\<rparr>)))"

record TCPPayload =
  tp_Timestamp :: gtime
  tp_Direction :: string
  tp_Payload :: Payload

section \<open>Connections and their summary\<close>

text \<open>An error is kept as its message, \<open>None\<close> for the empty one.\<close>

record Connection =
  cn_ID :: string
  cn_Protocol :: string
  cn_StartTime :: gtime
  cn_EndTime :: gtime
  cn_PID :: "32 word"
  cn_Comm :: string
  cn_CgroupID :: "64 word"
  cn_IP :: "net_ip option"
  cn_Port :: "16 word"
  cn_Hostname :: string
  cn_TCPPayloads :: "TCPPayload list"
  cn_BytesSent :: "64 word"
  cn_BytesReceived :: "64 word"
  cn_Error :: "fval option"

record NetworkSummary =
  nsu_TotalConnections :: int
  nsu_ProtocolCounts :: "(string, int) gomap"
  nsu_UniqueHosts :: "string list"
  nsu_UniqueIPs :: "string list"
  nsu_TotalBytesSent :: "64 word"
  nsu_TotalBytesReceived :: "64 word"

definition count_protocol :: "string \<Rightarrow> (string, int) gomap \<Rightarrow> (string, int) gomap" where
  "count_protocol p m = AList.update p ((case map_of m p of None \<Rightarrow> 0 | Some n \<Rightarrow> n) + 1) m"

text \<open>One connection in the loop of \<open>ComputeSummary\<close>, with the sets of hosts and addresses.\<close>

type_synonym summary_state = "NetworkSummary \<times> string goset \<times> string goset"

definition summary_step :: "Connection \<Rightarrow> summary_state \<Rightarrow> summary_state" where
  "summary_step conn st =
     (case st of (summary, hostSet, ipSet) \<Rightarrow>
       (summary\<lparr>nsu_ProtocolCounts := count_protocol (cn_Protocol conn) (nsu_ProtocolCounts summary),
                nsu_TotalBytesSent := nsu_TotalBytesSent summary + cn_BytesSent conn,
                nsu_TotalBytesReceived := nsu_TotalBytesReceived summary + cn_BytesReceived conn\<rparr>,
        if cn_Hostname conn \<noteq> [] then AList.update (cn_Hostname conn) () hostSet else hostSet,
        case cn_IP conn of None \<Rightarrow> ipSet | Some ip \<Rightarrow> AList.update (ip_String ip) () ipSet))"

definition ComputeSummary :: "Connection list \<Rightarrow> NetworkSummary" where
  "ComputeSummary connections =
     (case fold summary_step connections
             (\<lparr>nsu_TotalConnections = int (length connections), nsu_ProtocolCounts = [], nsu_UniqueHosts = [], nsu_UniqueIPs = [],
               nsu_TotalBytesSent = 0, nsu_TotalBytesReceived = 0\<rparr>, [], []) of
        (summary, hostSet, ipSet) \<Rightarrow>
          summary\<lparr>nsu_UniqueHosts := map fst hostSet, nsu_UniqueIPs := map fst ipSet\<rparr>)"

section \<open>What the kernel knows of a connection\<close>

definition MaxCommLen :: nat where "MaxCommLen = 16"

type_synonym comm_field = "8 word list"

record orig_dst_val =
  od_OrigIp :: "32 word"
  od_OrigPort :: "16 word"
  od_CgroupId :: "64 word"
  od_Pid :: "32 word"
  od_Comm :: comm_field

record orig_dst_val_v6 =
  ov_OrigIp :: "8 word list"
  ov_OrigPort :: "16 word"
  ov_CgroupId :: "64 word"
  ov_Pid :: "32 word"
  ov_Comm :: comm_field

definition word_char :: "8 word \<Rightarrow> char" where "word_char w = byte (unat w)"
definition char_word :: "char \<Rightarrow> 8 word" where "char_word c = of_nat (byte_val c)"

text \<open>\<open>binary.LittleEndian.PutUint32\<close>\<close>

definition little_endian :: "32 word \<Rightarrow> bytes" where
  "little_endian w = map (\<lambda>i. byte (unat w div 256 ^ i mod 256)) [0, 1, 2, 3]"

definition big_endian :: "bytes \<Rightarrow> 32 word" where
  "big_endian bs = of_nat (foldl (\<lambda>n b. 256 * n + byte_val b) 0 bs)"

definition GetOrigIP :: "orig_dst_val \<Rightarrow> net_ip" where
  "GetOrigIP v = little_endian (od_OrigIp v)"

definition GetOrigIP_v6 :: "orig_dst_val_v6 \<Rightarrow> net_ip" where
  "GetOrigIP_v6 v = map word_char (ov_OrigIp v)"

text \<open>A name is up to the first zero; a string that is stored is cut to 16 bytes, with no zero at its end then.\<close>

definition int8SliceToString :: "comm_field \<Rightarrow> string" where
  "int8SliceToString s = map word_char (takeWhile (\<lambda>v. v \<noteq> 0) s)"

definition StringToCommInt8 :: "string \<Rightarrow> comm_field" where
  "StringToCommInt8 s = map char_word (take MaxCommLen s) @ replicate (MaxCommLen - length s) 0"

record ConnectionMetadata =
  md_SockCookie :: "64 word"
  md_PID :: "32 word"
  md_CgroupID :: "64 word"
  md_Comm :: string
  md_OrigIP :: net_ip
  md_OrigPort :: "16 word"

definition ToConnectionMetadata :: "orig_dst_val \<Rightarrow> 64 word \<Rightarrow> ConnectionMetadata" where
  "ToConnectionMetadata v cookie =
     \<lparr>md_SockCookie = cookie, md_PID = od_Pid v, md_CgroupID = od_CgroupId v, md_Comm = int8SliceToString (od_Comm v),
      md_OrigIP = GetOrigIP v, md_OrigPort = od_OrigPort v\<rparr>"

definition ToConnectionMetadata_v6 :: "orig_dst_val_v6 \<Rightarrow> 64 word \<Rightarrow> ConnectionMetadata" where
  "ToConnectionMetadata_v6 v cookie =
     \<lparr>md_SockCookie = cookie, md_PID = ov_Pid v, md_CgroupID = ov_CgroupId v, md_Comm = int8SliceToString (ov_Comm v),
      md_OrigIP = GetOrigIP_v6 v, md_OrigPort = ov_OrigPort v\<rparr>"

definition metadata_String :: "ConnectionMetadata \<Rightarrow> string" where
  "metadata_String m =
     ''pid='' @ dec (unat (md_PID m)) @ '' comm='' @ md_Comm m @ '' (orig: '' @ ip_String (md_OrigIP m) @ '':'' @
     dec (unat (md_OrigPort m)) @ '') cgroup='' @ dec (unat (md_CgroupID m))"

section \<open>Recording a connection\<close>

datatype Direction = ClientToServer | ServerToClient

fun Direction_String :: "Direction \<Rightarrow> string" where
  "Direction_String ClientToServer = ''client_to_server''"
| "Direction_String ServerToClient = ''server_to_client''"

record ConnectionRecorder =
  rec_config :: PayloadConfig
  rec_conn :: Connection

text \<open>The clock is read for the identifier and for the start.\<close>

definition NewConnectionRecorder ::
  "gtime \<Rightarrow> gtime \<Rightarrow> ConnectionMetadata \<Rightarrow> string \<Rightarrow> PayloadConfig \<Rightarrow> ConnectionRecorder" where
  "NewConnectionRecorder now now' metadata protocol config =
     \<lparr>rec_config = config,
      rec_conn = \<lparr>cn_ID = dec (unat (md_SockCookie metadata)) @ ''-'' @ itoa now, cn_Protocol = protocol, cn_StartTime = now',
        cn_EndTime = zero_time, cn_PID = md_PID metadata, cn_Comm = md_Comm metadata, cn_CgroupID = md_CgroupID metadata,
        cn_IP = Some (md_OrigIP metadata), cn_Port = md_OrigPort metadata, cn_Hostname = [], cn_TCPPayloads = [],
        cn_BytesSent = 0, cn_BytesReceived = 0, cn_Error = None\<rparr>\<rparr>"

definition RecordTCPPayloadDirect ::
  "crypto_lib \<Rightarrow> gtime \<Rightarrow> Direction \<Rightarrow> bytes \<Rightarrow> ConnectionRecorder \<Rightarrow> ConnectionRecorder outcome" where
  "RecordTCPPayloadDirect lib now direction data r =
     bindO (NewPayload lib data (rec_config r)) (\<lambda>payload.
       let conn = rec_conn r;
           conn = conn\<lparr>cn_TCPPayloads := cn_TCPPayloads conn @
             [\<lparr>tp_Timestamp = now, tp_Direction = Direction_String direction, tp_Payload = payload\<rparr>]\<rparr>
       in Return (r\<lparr>rec_conn :=
            (if direction = ClientToServer then conn\<lparr>cn_BytesSent := cn_BytesSent conn + of_nat (length data)\<rparr>
             else conn\<lparr>cn_BytesReceived := cn_BytesReceived conn + of_nat (length data)\<rparr>)\<rparr>))"

definition SetProtocol :: "string \<Rightarrow> ConnectionRecorder \<Rightarrow> ConnectionRecorder" where
  "SetProtocol protocol r = r\<lparr>rec_conn := (rec_conn r)\<lparr>cn_Protocol := protocol\<rparr>\<rparr>"

definition SetError :: "gerr option \<Rightarrow> ConnectionRecorder \<Rightarrow> ConnectionRecorder" where
  "SetError err r =
     (case err of None \<Rightarrow> r | Some e \<Rightarrow> r\<lparr>rec_conn := (rec_conn r)\<lparr>cn_Error := Some (error_message e)\<rparr>\<rparr>)"

definition recorder_Finish :: "gtime \<Rightarrow> ConnectionRecorder \<Rightarrow> Connection" where
  "recorder_Finish now r = (rec_conn r)\<lparr>cn_EndTime := now\<rparr>"

section \<open>Lemmas\<close>

lemma byte_val_byte [simp]: "n < 256 \<Longrightarrow> byte_val (byte n) = n"
  by (simp add: byte_val_def byte_def)

lemma byte_byte_val [simp]: "byte (byte_val c) = c"
  by (simp add: byte_val_def byte_def)

lemma byte_val_less [simp]: "byte_val c < 256"
  unfolding byte_val_def by (rule nat_of_char_less_256)

lemma char_word_char [simp]: "char_word (word_char w) = w"
proof -
  have "unat w < 2 ^ LENGTH(8)" by (rule unsigned_less)
  then have "unat w < 256" by simp
  then show ?thesis by (simp add: char_word_def word_char_def)
qed

lemma word_char_word [simp]: "word_char (char_word c) = c"
proof -
  have "unat (of_nat (byte_val c) :: 8 word) = byte_val c"
    using byte_val_less [of c] by (simp add: unat_of_nat)
  then show ?thesis by (simp add: char_word_def word_char_def)
qed

lemma char_word_zero: "char_word c = 0 \<longleftrightarrow> c = byte 0"
  by (metis word_char_word char_word_char word_char_def unat_0)

lemma split_at_none: "c \<notin> set x \<Longrightarrow> split_at c x = [x]"
  by (induction x) auto

lemma dec_digit_char: "i < 10 \<Longrightarrow> dec_digit (digit_char i) = Some i"
  by (simp add: dec_digit_def digit_char_def byte_val_def)

lemma dec_read: "foldl (\<lambda>n c. 10 * n + the (dec_digit c)) 0 (dec n) = n \<and> (\<forall>c \<in> set (dec n). dec_digit c \<noteq> None)"
proof (induction n rule: dec.induct)
  case (1 n)
  show ?case
  proof (cases "n < 10")
    case True
    then show ?thesis by (subst (1 2) dec.simps) (simp add: dec_digit_char)
  next
    case False
    with 1 show ?thesis by (subst (1 2) dec.simps) (auto simp: dec_digit_char)
  qed
qed

lemma dec_hd: "0 < n \<Longrightarrow> hd (dec n) \<noteq> CHR ''0''"
proof (induction n rule: dec.induct)
  case (1 n)
  show ?case
  proof (cases "n < 10")
    case True
    have "digit_char 0 = CHR ''0''" by code_simp
    with True have "digit_char n = CHR ''0'' \<Longrightarrow> n = 0" using digit_char_inj [of n 0] by simp
    with True 1(2) show ?thesis by (subst dec.simps) auto
  next
    case False
    with 1 show ?thesis by (subst dec.simps) simp
  qed
qed

lemma dec_length: "n < 10 \<Longrightarrow> length (dec n) = 1" "n < 1000 \<Longrightarrow> length (dec n) \<le> 3"
  by (simp add: dec.simps [of n]) (simp add: dec.simps [of n] dec.simps [of "n div 10"] dec.simps [of "n div 100"] div_mult2_eq [symmetric])

lemma octet: "n < 256 \<Longrightarrow> parse_octet (dec n) = Some n" "CHR ''.'' \<notin> set (dec n)" "CHR '':'' \<notin> set (dec n)" "CHR ''%'' \<notin> set (dec n)"
proof -
  have digits: "dec_digit c \<noteq> None" if "c \<in> set (dec n)" for c using dec_read [of n] that by blast
  have "dec_digit (CHR ''.'') = None" "dec_digit (CHR '':'') = None" "dec_digit (CHR ''%'') = None"
    by (simp_all add: dec_digit_def byte_val_def)
  then show "CHR ''.'' \<notin> set (dec n)" "CHR '':'' \<notin> set (dec n)" "CHR ''%'' \<notin> set (dec n)" using digits by blast+
  assume n: "n < 256"
  have "1 < length (dec n) \<Longrightarrow> hd (dec n) \<noteq> CHR ''0''" using dec_hd [of n] dec_length(1) [of n] by (cases "n = 0") auto
  moreover have "\<not> list_ex (\<lambda>c. dec_digit c = None) (dec n)" using digits by (auto simp: list_ex_iff)
  moreover have "length (dec n) \<le> 3" using dec_length(2) [of n] n by simp
  moreover have "foldl (\<lambda>n c. 10 * n + the (dec_digit c)) 0 (dec n) = n" using dec_read [of n] by blast
  ultimately show "parse_octet (dec n) = Some n" using n by (auto simp: parse_octet_def)
qed

text \<open>A dotted address is read back.\<close>

lemma parse_v4_dotted: "length ip = 4 \<Longrightarrow> parse_v4 (dotted ip) = Some ip"
proof -
  assume "length ip = 4"
  then obtain a b c d where ip: "ip = [a, b, c, d]" by (auto simp: length_Suc_conv numeral_eq_Suc)
  have "split_at (CHR ''.'') (dotted ip) = map (\<lambda>b. dec (byte_val b)) ip"
    by (simp add: dotted_def ip split_at_append split_at_none octet(2))
  then show ?thesis by (simp add: parse_v4_def ip octet(1))
qed

lemma find_first: "(\<And>x. x \<in> set xs \<Longrightarrow> \<not> P x) \<Longrightarrow> P y \<Longrightarrow> List.find P (xs @ y # ys) = Some y"
  by (induction xs) auto

lemma ParseIP_dotted:
  assumes "length ip = 4"
  shows "ParseIP (dotted ip) = Some (replicate 10 (byte 0) @ [byte 255, byte 255] @ ip)"
proof -
  obtain a b c d where ip: "ip = [a, b, c, d]" using assms by (auto simp: length_Suc_conv numeral_eq_Suc)
  let ?P = "\<lambda>c. c = CHR ''.'' \<or> c = CHR '':'' \<or> c = CHR ''%''"
  have "\<exists>rest. dotted ip = dec (byte_val a) @ CHR ''.'' # rest" by (simp add: dotted_def ip)
  then obtain rest where rest: "dotted ip = dec (byte_val a) @ CHR ''.'' # rest" by blast
  have "List.find ?P (dotted ip) = Some (CHR ''.'')"
    unfolding rest by (rule find_first) (use octet(2-4) [of "byte_val a"] in auto)
  then show ?thesis by (simp add: ParseIP_def parse_v4_dotted [OF assms])
qed

lemma To4_mapped: "length ip = 4 \<Longrightarrow> ip_To4 (replicate 10 (byte 0) @ [byte 255, byte 255] @ ip) = Some ip"
proof -
  assume "length ip = 4"
  moreover have "replicate 10 (byte 0) @ [byte 255, byte 255] @ ip =
      [byte 0, byte 0, byte 0, byte 0, byte 0, byte 0, byte 0, byte 0, byte 0, byte 0, byte 255, byte 255] @ ip"
    by (simp add: numeral_eq_Suc)
  ultimately show ?thesis by (simp add: ip_To4_def v4_mapped_def numeral_eq_Suc)
qed

lemma count_protocol_map: "map_of (count_protocol p m) q = (if q = p then Some ((case map_of m p of None \<Rightarrow> 0 | Some n \<Rightarrow> n) + 1) else map_of m q)"
  by (simp add: count_protocol_def update_conv')

lemma keys_update: "fst ` set (AList.update k v m) = insert k (fst ` set m)"
  by (induction m) auto

lemma summary_step_state:
  "summary_step c (s, hs, ips) =
     (s\<lparr>nsu_ProtocolCounts := count_protocol (cn_Protocol c) (nsu_ProtocolCounts s),
        nsu_TotalBytesSent := nsu_TotalBytesSent s + cn_BytesSent c,
        nsu_TotalBytesReceived := nsu_TotalBytesReceived s + cn_BytesReceived c\<rparr>,
      if cn_Hostname c \<noteq> [] then AList.update (cn_Hostname c) () hs else hs,
      case cn_IP c of None \<Rightarrow> ips | Some ip \<Rightarrow> AList.update (ip_String ip) () ips)"
  by (simp add: summary_step_def)

lemma summary_loop:
  assumes "fold summary_step conns (s, hs, ips) = (s', hs', ips')" and "gomap_ok hs" and "gomap_ok ips"
  shows "nsu_TotalConnections s' = nsu_TotalConnections s \<and> gomap_ok hs' \<and> gomap_ok ips' \<and>
    nsu_TotalBytesSent s' = nsu_TotalBytesSent s + (\<Sum>c \<leftarrow> conns. cn_BytesSent c) \<and>
    nsu_TotalBytesReceived s' = nsu_TotalBytesReceived s + (\<Sum>c \<leftarrow> conns. cn_BytesReceived c) \<and>
    fst ` set hs' = fst ` set hs \<union> {cn_Hostname c |c. c \<in> set conns \<and> cn_Hostname c \<noteq> []} \<and>
    fst ` set ips' = fst ` set ips \<union> {ip_String ip |ip. \<exists>c \<in> set conns. cn_IP c = Some ip} \<and>
    (\<forall>p. map_of (nsu_ProtocolCounts s') p =
       (case length (filter (\<lambda>c. cn_Protocol c = p) conns) of 0 \<Rightarrow> map_of (nsu_ProtocolCounts s) p
        | Suc n \<Rightarrow> Some ((case map_of (nsu_ProtocolCounts s) p of None \<Rightarrow> 0 | Some k \<Rightarrow> k) + int (Suc n))))"
  using assms
proof (induction conns arbitrary: s hs ips)
  case (Cons c conns)
  obtain s1 hs1 ips1 where step: "summary_step c (s, hs, ips) = (s1, hs1, ips1)" by (cases "summary_step c (s, hs, ips)") auto
  have s1: "s1 = s\<lparr>nsu_ProtocolCounts := count_protocol (cn_Protocol c) (nsu_ProtocolCounts s),
        nsu_TotalBytesSent := nsu_TotalBytesSent s + cn_BytesSent c,
        nsu_TotalBytesReceived := nsu_TotalBytesReceived s + cn_BytesReceived c\<rparr>"
    and hs1: "hs1 = (if cn_Hostname c \<noteq> [] then AList.update (cn_Hostname c) () hs else hs)"
    and ips1: "ips1 = (case cn_IP c of None \<Rightarrow> ips | Some ip \<Rightarrow> AList.update (ip_String ip) () ips)"
    using step unfolding summary_step_state by simp_all
  have ok: "gomap_ok hs1" "gomap_ok ips1"
    using Cons.prems(2,3) by (auto simp: hs1 ips1 gomap_ok_def distinct_update split: option.splits)
  have hosts: "fst ` set hs1 = fst ` set hs \<union> {h. h = cn_Hostname c \<and> h \<noteq> []}"
    unfolding hs1 by (auto simp: keys_update)
  have ips: "fst ` set ips1 = fst ` set ips \<union> {ip_String ip |ip. cn_IP c = Some ip}"
    unfolding ips1 by (simp add: keys_update split: option.splits)
  have counts: "map_of (nsu_ProtocolCounts s1) p = (if p = cn_Protocol c then Some ((case map_of (nsu_ProtocolCounts s) p of None \<Rightarrow> 0 | Some n \<Rightarrow> n) + 1)
      else map_of (nsu_ProtocolCounts s) p)" for p
    unfolding s1 by (simp add: count_protocol_map)
  have "fold summary_step conns (s1, hs1, ips1) = (s', hs', ips')" using Cons.prems(1) step by simp
  note IH = Cons.IH [OF this ok]
  show ?case
  proof (intro conjI allI)
    show "nsu_TotalBytesSent s' = nsu_TotalBytesSent s + (\<Sum>c \<leftarrow> c # conns. cn_BytesSent c)"
      "nsu_TotalBytesReceived s' = nsu_TotalBytesReceived s + (\<Sum>c \<leftarrow> c # conns. cn_BytesReceived c)"
      using IH by (simp_all add: s1 add.assoc)
    show "fst ` set hs' = fst ` set hs \<union> {cn_Hostname d |d. d \<in> set (c # conns) \<and> cn_Hostname d \<noteq> []}"
      using IH unfolding hosts by auto
    show "fst ` set ips' = fst ` set ips \<union> {ip_String ip |ip. \<exists>d \<in> set (c # conns). cn_IP d = Some ip}"
      using IH unfolding ips by auto
    fix p
    let ?n = "length (filter (\<lambda>c. cn_Protocol c = p) conns)"
    from IH have "map_of (nsu_ProtocolCounts s') p = (case ?n of 0 \<Rightarrow> map_of (nsu_ProtocolCounts s1) p
        | Suc n \<Rightarrow> Some ((case map_of (nsu_ProtocolCounts s1) p of None \<Rightarrow> 0 | Some k \<Rightarrow> k) + int (Suc n)))" by blast
    then show "map_of (nsu_ProtocolCounts s') p =
       (case length (filter (\<lambda>c. cn_Protocol c = p) (c # conns)) of 0 \<Rightarrow> map_of (nsu_ProtocolCounts s) p
        | Suc n \<Rightarrow> Some ((case map_of (nsu_ProtocolCounts s) p of None \<Rightarrow> 0 | Some k \<Rightarrow> k) + int (Suc n)))"
      unfolding counts by (auto split: nat.splits)
  qed (use IH in \<open>simp_all add: s1\<close>)
qed auto

lemma sum_words: "unat (\<Sum>x \<leftarrow> xs. f x :: 64 word) = (\<Sum>x \<leftarrow> xs. unat (f x)) mod 2 ^ 64"
proof (induction xs)
  case (Cons x xs)
  then show ?case by (simp add: unat_word_ariths mod_simps)
qed simp

section \<open>Properties\<close>

text \<open>The summary of a trace: the counts per protocol, the hosts and the addresses, each once, and the total of the
  bytes in each direction, modulo 2^64.\<close>

theorem ComputeSummary_exact:
  "nsu_TotalConnections (ComputeSummary conns) = int (length conns) \<and>
   (\<forall>p. map_of (nsu_ProtocolCounts (ComputeSummary conns)) p =
      (let n = length (filter (\<lambda>c. cn_Protocol c = p) conns) in if n = 0 then None else Some (int n))) \<and>
   distinct (nsu_UniqueHosts (ComputeSummary conns)) \<and> distinct (nsu_UniqueIPs (ComputeSummary conns)) \<and>
   set (nsu_UniqueHosts (ComputeSummary conns)) = cn_Hostname ` set conns - {[]} \<and>
   set (nsu_UniqueIPs (ComputeSummary conns)) = {ip_String ip |ip. Some ip \<in> cn_IP ` set conns} \<and>
   unat (nsu_TotalBytesSent (ComputeSummary conns)) = (\<Sum>c \<leftarrow> conns. unat (cn_BytesSent c)) mod 2 ^ 64 \<and>
   unat (nsu_TotalBytesReceived (ComputeSummary conns)) = (\<Sum>c \<leftarrow> conns. unat (cn_BytesReceived c)) mod 2 ^ 64"
proof -
  let ?s = "\<lparr>nsu_TotalConnections = int (length conns), nsu_ProtocolCounts = [], nsu_UniqueHosts = [], nsu_UniqueIPs = [],
     nsu_TotalBytesSent = 0, nsu_TotalBytesReceived = 0\<rparr>"
  obtain s' hs' ips' where loop: "fold summary_step conns (?s, [], []) = (s', hs', ips')"
    by (cases "fold summary_step conns (?s, [], [])") auto
  from summary_loop [OF loop] have facts: "nsu_TotalConnections s' = int (length conns)" "gomap_ok hs'" "gomap_ok ips'"
    "nsu_TotalBytesSent s' = (\<Sum>c \<leftarrow> conns. cn_BytesSent c)" "nsu_TotalBytesReceived s' = (\<Sum>c \<leftarrow> conns. cn_BytesReceived c)"
    "fst ` set hs' = {cn_Hostname c |c. c \<in> set conns \<and> cn_Hostname c \<noteq> []}"
    "fst ` set ips' = {ip_String ip |ip. \<exists>c \<in> set conns. cn_IP c = Some ip}"
    "\<forall>p. map_of (nsu_ProtocolCounts s') p = (case length (filter (\<lambda>c. cn_Protocol c = p) conns) of 0 \<Rightarrow> None | Suc n \<Rightarrow> Some (int (Suc n)))"
    by (simp_all add: gomap_ok_def cong: option.case_cong nat.case_cong)
  have summary: "ComputeSummary conns = s'\<lparr>nsu_UniqueHosts := map fst hs', nsu_UniqueIPs := map fst ips'\<rparr>"
    by (simp add: ComputeSummary_def loop)
  have hosts: "{cn_Hostname c |c. c \<in> set conns \<and> cn_Hostname c \<noteq> []} = cn_Hostname ` set conns - {[]}" by auto
  have ips: "{ip_String ip |ip. \<exists>c \<in> set conns. cn_IP c = Some ip} = {ip_String ip |ip. Some ip \<in> cn_IP ` set conns}" by force
  have counts: "map_of (nsu_ProtocolCounts s') p =
      (let n = length (filter (\<lambda>c. cn_Protocol c = p) conns) in if n = 0 then None else Some (int n))" for p
    using facts(8) by (simp add: Let_def split: nat.splits)
  show ?thesis unfolding summary using facts(1-7) counts hosts ips by (simp add: sum_words gomap_ok_def)
qed

text \<open>What is kept of a payload: nothing but its size when it is empty; otherwise its hash when that is asked for, and,
  when payloads are asked for, a prefix as long as the limit allows, marked as truncated just when it is not all. It
  panics just when a payload above a negative limit is to be kept.\<close>

theorem NewPayload_exact:
  "case NewPayload lib data config of
     Return p \<Rightarrow>
       py_Size p = int (length data) \<and>
       py_Hash p = (if data \<noteq> [] \<and> pc_RecordPayloadHash config then HexEncode (lib_hash lib SHA256 data) else []) \<and>
       py_Data p = (if \<not> pc_RecordPayload config then [] else if pc_MaxPayloadSize config = 0 then data
         else take (nat (pc_MaxPayloadSize config)) data) \<and>
       py_Truncated p = (pc_RecordPayload config \<and> py_Data p \<noteq> data)
   | Panic s \<Rightarrow> data \<noteq> [] \<and> pc_RecordPayload config \<and> pc_MaxPayloadSize config < 0"
  by (auto simp: NewPayload_def Let_def not_le)

text \<open>The name of a command that is asked for, as the kernel reads it: its first 16 bytes up to a zero. A name of 16
  bytes or more fills the field, so there is no zero in it.\<close>

theorem comm_roundtrip:
  "int8SliceToString (StringToCommInt8 s) = takeWhile (\<lambda>c. c \<noteq> byte 0) (take MaxCommLen s) \<and>
   length (StringToCommInt8 s) = MaxCommLen \<and> (MaxCommLen \<le> length s \<and> byte 0 \<notin> set s \<longrightarrow> 0 \<notin> set (StringToCommInt8 s))"
proof (intro conjI impI)
  have "takeWhile (\<lambda>v. v \<noteq> 0) (map char_word xs @ replicate n 0) = map char_word (takeWhile (\<lambda>c. c \<noteq> byte 0) xs)" for xs n
    by (induction xs) (auto simp: char_word_zero takeWhile_replicate)
  then show "int8SliceToString (StringToCommInt8 s) = takeWhile (\<lambda>c. c \<noteq> byte 0) (take MaxCommLen s)"
    by (simp add: int8SliceToString_def StringToCommInt8_def comp_def)
  show "length (StringToCommInt8 s) = MaxCommLen" by (simp add: StringToCommInt8_def)
  show "MaxCommLen \<le> length s \<and> byte 0 \<notin> set s \<Longrightarrow> 0 \<notin> set (StringToCommInt8 s)"
    by (auto simp: StringToCommInt8_def char_word_zero dest!: in_set_takeD)
qed

end
