(* ===== verification/Network_Bpf.thy ===== *)
theory Network_Bpf
  imports Network_Types
begin

text \<open>
  The user's side of the BPF programs: \<open>attestation/networktrace/bpf/bpf.go\<close>.

  The kernel and the ebpf library are parameters, in \<open>bpf_env\<close>: whether each call fails. What \<open>Load\<close> does to the
  kernel is the list of resources it holds, in the order they were made.
\<close>

section \<open>Loading\<close>

record LoadConfig =
  lc_CgroupPath :: string
  lc_ProxyPort :: "16 word"
  lc_ProxyIPv4 :: string

datatype bpf_resource = ConnectObjects | SockopsObjects | CgroupLink string

text \<open>The attachments in their order, with the name in the error message.\<close>

definition attachments :: "string list" where "attachments = [''connect4'', ''connect6'', ''sockops'']"

record bpf_env =
  be_RemoveMemlock :: "gerr option"
  be_stat :: "string \<Rightarrow> gerr + 64 word"
  be_loadConnect :: "gerr option"
  be_setVariable :: "string \<Rightarrow> 32 word \<Rightarrow> gerr option"
  be_connectObjects :: "gerr option"
  be_loadSockops :: "gerr option"
  be_setSockops :: "32 word \<Rightarrow> gerr option"
  be_sockopsObjects :: "gerr option"
  be_program :: "string \<Rightarrow> bool"
  be_AttachCgroup :: "string \<Rightarrow> string \<Rightarrow> gerr option"
  be_close :: "bpf_resource \<Rightarrow> gerr option"
  be_BootTime :: "gerr + 64 word \<times> 64 word"

definition wrap_err :: "string \<Rightarrow> gerr option \<Rightarrow> gerr + unit" where
  "wrap_err complaint e = (case e of None \<Rightarrow> Inr () | Some err \<Rightarrow> Inl (Errorf complaint [FErr err]))"

definition GetCurrentNetns :: "bpf_env \<Rightarrow> gerr + 32 word" where
  "GetCurrentNetns env =
     (case be_stat env ''/proc/self/ns/net'' of
        Inl err \<Rightarrow> Inl (Errorf ''stat /proc/self/ns/net: %w'' [FErr err])
      | Inr ino \<Rightarrow> Inr (ucast ino))"

definition ipToUint32 :: "string \<Rightarrow> gerr + 32 word" where
  "ipToUint32 ipStr =
     (case ParseIP ipStr of
        None \<Rightarrow> Inl (Errorf ''invalid IP address: %s'' [FStr ipStr])
      | Some ip \<Rightarrow>
          (case ip_To4 ip of
             None \<Rightarrow> Inl (Errorf ''not an IPv4 address: %s'' [FStr ipStr])
           | Some ip4 \<Rightarrow> Inr (big_endian ip4)))"

text \<open>Closing goes from the last resource to the first and does not stop at an error; the kernel drops them, whatever
  their close reports.\<close>

fun close_all :: "bpf_env \<Rightarrow> bpf_resource list \<Rightarrow> bpf_resource list \<Rightarrow> bpf_resource list \<times> gerr list" where
  "close_all env [] live = (live, [])"
| "close_all env (r # rs) live =
     (case close_all env rs (removeAll r live) of
        (live, errs) \<Rightarrow> (live, (case be_close env r of None \<Rightarrow> errs | Some err \<Rightarrow> err # errs)))"

definition State_Close :: "bpf_env \<Rightarrow> bpf_resource list \<Rightarrow> bpf_resource list \<Rightarrow> bpf_resource list \<times> gerr option" where
  "State_Close env closers live =
     (case close_all env (rev closers) live of
        (live, errs) \<Rightarrow> (live, if errs \<noteq> [] then Some (Errorf ''errors closing bpf state: %v'' (map FErr errs)) else None))"

text \<open>The attachments, with the closers so far; an error closes them, and what closing reports is dropped.\<close>

fun attach_all ::
  "bpf_env \<Rightarrow> string \<Rightarrow> string list \<Rightarrow> bpf_resource list \<Rightarrow> bpf_resource list \<Rightarrow> bpf_resource list \<times> (gerr + bpf_resource list)" where
  "attach_all env path [] closers live = (live, Inr closers)"
| "attach_all env path (name # names) closers live =
     (if \<not> be_program env name
      then (fst (State_Close env closers live), Inl (Errorf ''program not found for %s'' [FStr name]))
      else case be_AttachCgroup env path name of
             Some err \<Rightarrow> (fst (State_Close env closers live), Inl (Errorf ''attach %s: %w'' [FStr name, FErr err]))
           | None \<Rightarrow> attach_all env path names (closers @ [CgroupLink name]) (live @ [CgroupLink name]))"

text \<open>What is checked before the first resource is made: the port, the address and the network namespace.\<close>

definition load_settings :: "bpf_env \<Rightarrow> LoadConfig \<Rightarrow> gerr + 32 word \<times> 32 word \<times> 32 word" where
  "load_settings env cfg =
     (case wrap_err ''remove memlock: %w'' (be_RemoveMemlock env) of
        Inl err \<Rightarrow> Inl err
      | Inr _ \<Rightarrow>
          (case GetCurrentNetns env of
             Inl err \<Rightarrow> Inl (Errorf ''get current netns: %w'' [FErr err])
           | Inr netns \<Rightarrow>
               (let proxyPort = (if lc_ProxyPort cfg = 0 then DefaultProxyPort else lc_ProxyPort cfg);
                    proxyIP = (if lc_ProxyIPv4 cfg = [] then DefaultProxyBindIPv4 else lc_ProxyIPv4 cfg)
                in case ipToUint32 proxyIP of
                     Inl err \<Rightarrow> Inl (Errorf ''convert proxy IP: %w'' [FErr err])
                   | Inr ip \<Rightarrow> Inr (ucast proxyPort, ip, netns))))"

definition connect_spec :: "bpf_env \<Rightarrow> 32 word \<Rightarrow> 32 word \<Rightarrow> 32 word \<Rightarrow> gerr + unit" where
  "connect_spec env port ip netns =
     (case wrap_err ''load connect spec: %w'' (be_loadConnect env) of
        Inl err \<Rightarrow> Inl err
      | Inr _ \<Rightarrow>
          (case wrap_err ''set proxy_port in connect: %w'' (be_setVariable env ''proxy_port'' port) of
             Inl err \<Rightarrow> Inl err
           | Inr _ \<Rightarrow>
               (case wrap_err ''set proxy_ip in connect: %w'' (be_setVariable env ''proxy_ip'' ip) of
                  Inl err \<Rightarrow> Inl err
                | Inr _ \<Rightarrow> wrap_err ''set host_netns_inum in connect: %w'' (be_setVariable env ''host_netns_inum'' netns))))"

definition sockops_spec :: "bpf_env \<Rightarrow> 32 word \<Rightarrow> gerr + unit" where
  "sockops_spec env netns =
     (case wrap_err ''load sockops spec: %w'' (be_loadSockops env) of
        Inl err \<Rightarrow> Inl err
      | Inr _ \<Rightarrow> wrap_err ''set host_netns_inum in sockops: %w'' (be_setSockops env netns))"

text \<open>\<open>Load\<close>, on the resources that live in the kernel; it returns the closers of its state.\<close>

definition bpf_Load :: "bpf_env \<Rightarrow> LoadConfig \<Rightarrow> bpf_resource list \<Rightarrow> bpf_resource list \<times> (gerr + bpf_resource list)" where
  "bpf_Load env cfg live =
     (case load_settings env cfg of
        Inl err \<Rightarrow> (live, Inl err)
      | Inr (port, ip, netns) \<Rightarrow>
          (case connect_spec env port ip netns of
             Inl err \<Rightarrow> (live, Inl err)
           | Inr _ \<Rightarrow>
               (case be_connectObjects env of
                  Some err \<Rightarrow> (live, Inl (Errorf ''load connect objects: %w'' [FErr err]))
                | None \<Rightarrow>
                    (let live = live @ [ConnectObjects]
                     in case sockops_spec env netns of
                          Inl err \<Rightarrow> (fst (close_all env [ConnectObjects] live), Inl err)
                        | Inr _ \<Rightarrow>
                            (case be_sockopsObjects env of
                               Some err \<Rightarrow>
                                 (fst (close_all env [ConnectObjects] live), Inl (Errorf ''load sockops objects: %w'' [FErr err]))
                             | None \<Rightarrow>
                                 attach_all env (lc_CgroupPath cfg) attachments [ConnectObjects, SockopsObjects]
                                   (live @ [SockopsObjects]))))))"

section \<open>The maps\<close>

text \<open>The maps that the program reads and writes. Writing may fail, which \<open>bm_full\<close> decides for each map.\<close>

datatype bpf_map = InjectionTimeMap | PIDAllowlist | CommAllowlist | CgroupAllowlist

record bpf_maps =
  bm_OrigDst :: "(64 word, orig_dst_val) gomap"
  bm_OrigDstV6 :: "(64 word, orig_dst_val_v6) gomap"
  bm_PIDAllowlist :: "(32 word, 8 word) gomap"
  bm_CommAllowlist :: "(comm_field, 8 word) gomap"
  bm_CgroupAllowlist :: "(64 word, 8 word) gomap"
  bm_InjectionTime :: "64 word"
  bm_full :: "bpf_map \<Rightarrow> gerr option"

definition no_such_key :: gerr where "no_such_key = LibError ''key does not exist''"

definition LookupOrigDst :: "bpf_maps \<Rightarrow> 64 word \<Rightarrow> gerr + ConnectionMetadata" where
  "LookupOrigDst m sockCookie =
     (case map_of (bm_OrigDst m) sockCookie of
        None \<Rightarrow> Inl no_such_key
      | Some v \<Rightarrow> Inr (ToConnectionMetadata v sockCookie))"

definition LookupOrigDstV6 :: "bpf_maps \<Rightarrow> 64 word \<Rightarrow> gerr + ConnectionMetadata" where
  "LookupOrigDstV6 m sockCookie =
     (case map_of (bm_OrigDstV6 m) sockCookie of
        None \<Rightarrow> Inl no_such_key
      | Some v \<Rightarrow> Inr (ToConnectionMetadata_v6 v sockCookie))"

definition GetBootTimeNs :: "bpf_env \<Rightarrow> gerr + 64 word" where
  "GetBootTimeNs env =
     (case be_BootTime env of
        Inl err \<Rightarrow> Inl (Errorf ''clock_gettime CLOCK_BOOTTIME: %w'' [FErr err])
      | Inr (sec, nsec) \<Rightarrow> Inr (sec * 1000000000 + nsec))"

definition GetCgroupID :: "bpf_env \<Rightarrow> string \<Rightarrow> gerr + 64 word" where
  "GetCgroupID env cgroupPath =
     (case be_stat env cgroupPath of
        Inl err \<Rightarrow> Inl (Errorf ''stat cgroup %s: %w'' [FStr cgroupPath, FErr err])
      | Inr ino \<Rightarrow> Inr ino)"

text \<open>One loop of \<open>LoadUserConfig\<close> stops at its first error; what was put before stays.\<close>

fun put_loop :: "('x \<Rightarrow> bpf_maps \<Rightarrow> bpf_maps \<times> gerr option) \<Rightarrow> 'x list \<Rightarrow> bpf_maps \<Rightarrow> bpf_maps \<times> gerr option" where
  "put_loop put [] m = (m, None)"
| "put_loop put (x # xs) m = (case put x m of (m, Some err) \<Rightarrow> (m, Some err) | (m, None) \<Rightarrow> put_loop put xs m)"

definition put_pid :: "bool \<Rightarrow> 32 word \<Rightarrow> bpf_maps \<Rightarrow> bpf_maps \<times> gerr option" where
  "put_pid childTree pid m =
     (case bm_full m PIDAllowlist of
        Some err \<Rightarrow> (m, Some (Errorf ''put pid %d in allowlist: %w'' [FInt (int (unat pid)), FErr err]))
      | None \<Rightarrow> (m\<lparr>bm_PIDAllowlist := AList.update pid (if childTree then 1 else 0) (bm_PIDAllowlist m)\<rparr>, None))"

definition put_comm :: "string \<Rightarrow> bpf_maps \<Rightarrow> bpf_maps \<times> gerr option" where
  "put_comm comm m =
     (case bm_full m CommAllowlist of
        Some err \<Rightarrow> (m, Some (Errorf ''put comm %s in allowlist: %w'' [FStr comm, FErr err]))
      | None \<Rightarrow> (m\<lparr>bm_CommAllowlist := AList.update (StringToCommInt8 comm) 1 (bm_CommAllowlist m)\<rparr>, None))"

definition put_cgroup :: "bpf_env \<Rightarrow> string \<Rightarrow> bpf_maps \<Rightarrow> bpf_maps \<times> gerr option" where
  "put_cgroup env cgroupPath m =
     (case GetCgroupID env cgroupPath of
        Inl err \<Rightarrow> (m, Some (Errorf ''get cgroup id for %s: %w'' [FStr cgroupPath, FErr err]))
      | Inr cgroupID \<Rightarrow>
          (case bm_full m CgroupAllowlist of
             Some err \<Rightarrow> (m, Some (Errorf ''put cgroup %s in allowlist: %w'' [FStr cgroupPath, FErr err]))
           | None \<Rightarrow> (m\<lparr>bm_CgroupAllowlist := AList.update cgroupID 1 (bm_CgroupAllowlist m)\<rparr>, None)))"

definition LoadUserConfig :: "bpf_env \<Rightarrow> network_config \<Rightarrow> bpf_maps \<Rightarrow> bpf_maps \<times> gerr option" where
  "LoadUserConfig env config m =
     (case GetBootTimeNs env of
        Inl err \<Rightarrow> (m, Some (Errorf ''get boot time: %w'' [FErr err]))
      | Inr injectionTime \<Rightarrow>
          (case bm_full m InjectionTimeMap of
             Some err \<Rightarrow> (m, Some (Errorf ''set injection_time: %w'' [FErr err]))
           | None \<Rightarrow>
               (case put_loop (put_pid (ncf_ObserveChildTree config)) (ncf_ObservePIDs config) (m\<lparr>bm_InjectionTime := injectionTime\<rparr>) of
                  (m, Some err) \<Rightarrow> (m, Some err)
                | (m, None) \<Rightarrow>
                    (case put_loop put_comm (ncf_ObserveCommands config) m of
                       (m, Some err) \<Rightarrow> (m, Some err)
                     | (m, None) \<Rightarrow> put_loop (put_cgroup env) (ncf_ObserveCgroups config) m))))"

section \<open>Lemmas\<close>

lemma close_all_live: "fst (close_all env rs live) = filter (\<lambda>r. r \<notin> set rs) live"
proof (induction rs arbitrary: live)
  case (Cons r rs)
  have "filter (\<lambda>x. x \<notin> set rs) (removeAll r live) = filter (\<lambda>x. x \<notin> set (r # rs)) live"
    by (induction live) auto
  with Cons [of "removeAll r live"] show ?case by (auto split: prod.splits)
qed simp

lemma State_Close_live: "fst (State_Close env closers live) = filter (\<lambda>r. r \<notin> set closers) live"
  using close_all_live [of env "rev closers" live] by (auto simp: State_Close_def split: prod.splits)

lemma attach_all_live:
  "attach_all env path names closers closers = (live, r) \<Longrightarrow>
     (case r of Inl err \<Rightarrow> live = [] | Inr all \<Rightarrow> live = all \<and> all = closers @ map CgroupLink names)"
proof (induction names arbitrary: closers)
  case (Cons name names)
  show ?case
  proof (cases "be_program env name \<and> be_AttachCgroup env path name = None")
    case True
    with Cons.prems have "attach_all env path names (closers @ [CgroupLink name]) (closers @ [CgroupLink name]) = (live, r)" by simp
    from Cons.IH [OF this] show ?thesis by (auto split: sum.splits)
  next
    case False
    with Cons.prems show ?thesis by (auto simp: State_Close_live split: if_splits option.splits)
  qed
qed auto

lemma bpf_Load_live:
  assumes "bpf_Load env cfg [] = (live, r)"
  shows "case r of Inl err \<Rightarrow> live = [] | Inr closers \<Rightarrow> live = closers \<and>
    closers = [ConnectObjects, SockopsObjects] @ map CgroupLink attachments"
  using assms attach_all_live [of env "lc_CgroupPath cfg" attachments "[ConnectObjects, SockopsObjects]" live r]
  by (auto simp: bpf_Load_def Let_def close_all_live split: sum.splits option.splits prod.splits)

lemma put_loop_all:
  assumes "put_loop put xs m = (m', None)"
    and "\<And>x m m'. put x m = (m', None) \<Longrightarrow> P x m'"
    and "\<And>x y m m'. put x m = (m', None) \<Longrightarrow> P y m \<Longrightarrow> P y m'"
  shows "\<forall>x \<in> set xs. P x m'"
proof -
  have "put_loop put xs m = (m', None) \<Longrightarrow> (\<forall>x \<in> set ys. P x m) \<Longrightarrow> \<forall>x \<in> set ys \<union> set xs. P x m'" for ys
  proof (induction xs arbitrary: m ys)
    case (Cons x xs)
    from Cons.prems(1) obtain m1 where m1: "put x m = (m1, None)" "put_loop put xs m1 = (m', None)"
      by (auto split: prod.splits option.splits)
    have "\<forall>y \<in> set (x # ys). P y m1" using m1(1) assms(2,3) Cons.prems(2) by auto
    from Cons.IH [OF m1(2) this] show ?case by simp
  qed simp
  from this [of "[]"] assms(1) show ?thesis by simp
qed

lemma put_loop_keeps:
  "put_loop put xs m = (m', e) \<Longrightarrow> (\<And>x m m' e. put x m = (m', e) \<Longrightarrow> f m' = f m) \<Longrightarrow> f m' = f m"
proof (induction xs arbitrary: m)
  case (Cons x xs)
  obtain m1 e1 where m1: "put x m = (m1, e1)" by fastforce
  with Cons.prems(2) have "f m1 = f m" by blast
  with Cons m1 show ?case by (cases e1) auto
qed simp

lemma put_pid_keeps:
  "put_pid t x m = (m', e) \<Longrightarrow> bm_InjectionTime m' = bm_InjectionTime m \<and> bm_CommAllowlist m' = bm_CommAllowlist m \<and>
     bm_CgroupAllowlist m' = bm_CgroupAllowlist m"
  by (auto simp: put_pid_def split: option.splits)

lemma put_comm_keeps:
  "put_comm x m = (m', e) \<Longrightarrow> bm_InjectionTime m' = bm_InjectionTime m \<and> bm_PIDAllowlist m' = bm_PIDAllowlist m \<and>
     bm_CgroupAllowlist m' = bm_CgroupAllowlist m"
  by (auto simp: put_comm_def split: option.splits)

lemma put_cgroup_keeps:
  "put_cgroup env x m = (m', e) \<Longrightarrow> bm_InjectionTime m' = bm_InjectionTime m \<and> bm_PIDAllowlist m' = bm_PIDAllowlist m \<and>
     bm_CommAllowlist m' = bm_CommAllowlist m"
  by (auto simp: put_cgroup_def split: option.splits sum.splits)

lemma big_endian_bytes:
  "big_endian [a, b, c, d] = of_nat (byte_val a * 2 ^ 24 + byte_val b * 2 ^ 16 + byte_val c * 2 ^ 8 + byte_val d)"
  by (simp add: big_endian_def algebra_simps)

section \<open>Properties\<close>

text \<open>Loading leaks nothing: when \<open>Load\<close> fails, at whichever step, none of its resources is left in the kernel; when it
  succeeds, the program's objects and all three attachments are there, and closing the state removes them all, even
  when closing one of them reports an error.\<close>

theorem Load_leaks_nothing:
  "case bpf_Load env cfg [] of
     (live, Inl err) \<Rightarrow> live = []
   | (live, Inr closers) \<Rightarrow>
       live = [ConnectObjects, SockopsObjects, CgroupLink ''connect4'', CgroupLink ''connect6'', CgroupLink ''sockops''] \<and>
       fst (State_Close env closers live) = []"
proof -
  obtain live r where load: "bpf_Load env cfg [] = (live, r)" by fastforce
  from bpf_Load_live [OF load] show ?thesis unfolding load by (auto simp: State_Close_live attachments_def split: sum.splits)
qed

text \<open>What is observed after the configuration was loaded without an error: the time of the injection is the time
  since boot, every process asked for is allowed, with its children as configured, and so is every command, under the
  first 16 bytes of its name, and every control group, under the number of its directory.\<close>

theorem LoadUserConfig_observes:
  assumes "LoadUserConfig env config m = (m', None)"
  shows "GetBootTimeNs env = Inr (bm_InjectionTime m') \<and>
    (\<forall>pid \<in> set (ncf_ObservePIDs config). map_of (bm_PIDAllowlist m') pid = Some (if ncf_ObserveChildTree config then 1 else 0)) \<and>
    (\<forall>comm \<in> set (ncf_ObserveCommands config). map_of (bm_CommAllowlist m') (StringToCommInt8 comm) = Some 1) \<and>
    (\<forall>path \<in> set (ncf_ObserveCgroups config). \<exists>id. GetCgroupID env path = Inr id \<and> map_of (bm_CgroupAllowlist m') id = Some 1)"
proof -
  from assms obtain t where t: "GetBootTimeNs env = Inr t" by (cases "GetBootTimeNs env") (auto simp: LoadUserConfig_def)
  let ?m = "m\<lparr>bm_InjectionTime := t\<rparr>" and ?child = "ncf_ObserveChildTree config"
  from assms t obtain m1 m2 where one: "put_loop (put_pid ?child) (ncf_ObservePIDs config) ?m = (m1, None)"
    and two: "put_loop put_comm (ncf_ObserveCommands config) m1 = (m2, None)"
    and three: "put_loop (put_cgroup env) (ncf_ObserveCgroups config) m2 = (m', None)"
    by (auto simp: LoadUserConfig_def split: option.splits prod.splits)
  have "\<forall>pid \<in> set (ncf_ObservePIDs config). map_of (bm_PIDAllowlist m1) pid = Some (if ?child then 1 else 0)"
    by (rule put_loop_all [OF one]) (auto simp: put_pid_def update_conv' split: option.splits if_splits)
  moreover have "\<forall>comm \<in> set (ncf_ObserveCommands config). map_of (bm_CommAllowlist m2) (StringToCommInt8 comm) = Some 1"
    by (rule put_loop_all [OF two]) (auto simp: put_comm_def update_conv' split: option.splits if_splits)
  moreover have "\<forall>path \<in> set (ncf_ObserveCgroups config). \<exists>id. GetCgroupID env path = Inr id \<and> map_of (bm_CgroupAllowlist m') id = Some 1"
    by (rule put_loop_all [OF three]) (auto simp: put_cgroup_def update_conv' split: option.splits sum.splits if_splits)
  moreover have "bm_InjectionTime m1 = t"
    using put_loop_keeps [OF one, of bm_InjectionTime] put_pid_keeps by fastforce
  moreover have "bm_InjectionTime m2 = bm_InjectionTime m1" "bm_PIDAllowlist m2 = bm_PIDAllowlist m1"
    using put_loop_keeps [OF two, of bm_InjectionTime] put_loop_keeps [OF two, of bm_PIDAllowlist] put_comm_keeps by blast+
  moreover have "bm_InjectionTime m' = bm_InjectionTime m2" "bm_PIDAllowlist m' = bm_PIDAllowlist m2"
    "bm_CommAllowlist m' = bm_CommAllowlist m2"
    using put_loop_keeps [OF three, of bm_InjectionTime] put_loop_keeps [OF three, of bm_PIDAllowlist]
      put_loop_keeps [OF three, of bm_CommAllowlist] put_cgroup_keeps by blast+
  ultimately show ?thesis using t by simp
qed

text \<open>The address of the proxy reaches the kernel as it was written: an IPv4 address that is printed and read gives the
  number whose bytes, from the most significant one, are the address.\<close>

theorem proxy_address_roundtrip:
  assumes "ip = [a, b, c, d]"
  shows "ipToUint32 (ip_String ip) = Inr (of_nat (byte_val a * 2 ^ 24 + byte_val b * 2 ^ 16 + byte_val c * 2 ^ 8 + byte_val d))"
proof -
  have "ip_String ip = dotted ip" using assms by (simp add: ip_String_def ip_To4_def)
  moreover have "length ip = 4" using assms by simp
  ultimately show ?thesis using assms by (simp add: ipToUint32_def ParseIP_dotted To4_mapped big_endian_bytes del: append_Cons append_Nil)
qed

section \<open>Samples\<close>

definition sample_bpf_env :: bpf_env where
  "sample_bpf_env =
     \<lparr>be_RemoveMemlock = None, be_stat = \<lambda>p. Inr 7, be_loadConnect = None, be_setVariable = \<lambda>v w. None, be_connectObjects = None,
      be_loadSockops = None, be_setSockops = \<lambda>w. None, be_sockopsObjects = None, be_program = \<lambda>n. True,
      be_AttachCgroup = \<lambda>p n. None, be_close = \<lambda>r. None, be_BootTime = Inr (1, 5)\<rparr>"

definition sample_bpf_maps :: bpf_maps where
  "sample_bpf_maps =
     \<lparr>bm_OrigDst = [(9, \<lparr>od_OrigIp = 0x0100000A, od_OrigPort = 443, od_CgroupId = 1, od_Pid = 77, od_Comm = [99, 0]\<rparr>)], bm_OrigDstV6 = [],
      bm_PIDAllowlist = [], bm_CommAllowlist = [], bm_CgroupAllowlist = [], bm_InjectionTime = 0, bm_full = \<lambda>m. None\<rparr>"

definition sample_network_config :: network_config where
  "sample_network_config = DefaultConfig\<lparr>ncf_ObservePIDs := [77], ncf_ObserveCommands := [''curl'']\<rparr>"

theorem LoadUserConfig_observes_witness:
  "\<exists>m'. LoadUserConfig sample_bpf_env sample_network_config sample_bpf_maps = (m', None) \<and>
     map_of (bm_PIDAllowlist m') 77 = Some 1 \<and> bm_InjectionTime m' = 1000000005"
proof -
  obtain m' e where load: "LoadUserConfig sample_bpf_env sample_network_config sample_bpf_maps = (m', e)" by fastforce
  have "e = None" using load
    by (simp add: LoadUserConfig_def GetBootTimeNs_def sample_bpf_env_def sample_network_config_def DefaultConfig_def sample_bpf_maps_def
        put_pid_def put_comm_def)
  with load have load: "LoadUserConfig sample_bpf_env sample_network_config sample_bpf_maps = (m', None)" by simp
  have "GetBootTimeNs sample_bpf_env = Inr 1000000005" by (simp add: GetBootTimeNs_def sample_bpf_env_def)
  moreover have "77 \<in> set (ncf_ObservePIDs sample_network_config)" "ncf_ObserveChildTree sample_network_config"
    by (simp_all add: sample_network_config_def DefaultConfig_def)
  ultimately show ?thesis using LoadUserConfig_observes [OF load] load by auto
qed

theorem proxy_address_roundtrip_witness:
  "ipToUint32 (ip_String [byte 127, byte 0, byte 0, byte 1]) = Inr 0x7F000001"
  using proxy_address_roundtrip [OF refl, of "byte 127" "byte 0" "byte 0" "byte 1"] by simp

end
