(* ===== verification/Network_Proxy.thy ===== *)
theory Network_Proxy
  imports Network_Bpf
begin

text \<open>
  The transparent proxy: \<open>attestation/networktrace/proxy/tcp.go\<close>.

  A connection is a script of what its two ends do: the chunks that are read from one, and what writing each of them
  to the other gives. The proxy with its goroutines is a step relation.
\<close>

section \<open>Copying\<close>

definition ErrShortWrite :: gerr where "ErrShortWrite = LibError ''short write''"

text \<open>\<open>io.Copy\<close> from one end to a \<open>MultiWriter\<close> of the other end and a buffer. A chunk comes with the number of bytes that the
  other end took and its error; the reader ends with an error, or \<open>None\<close> at the end of the stream. The results are the
  bytes that the other end got, the bytes in the buffer, and the error.\<close>

type_synonym chunk = "bytes \<times> nat \<times> gerr option"

fun io_copy :: "chunk list \<Rightarrow> gerr option \<Rightarrow> bytes \<times> bytes \<times> gerr option" where
  "io_copy [] readErr = ([], [], readErr)"
| "io_copy ((data, n, writeErr) # chunks) readErr =
     (case writeErr of
        Some err \<Rightarrow> (take n data, [], Some err)
      | None \<Rightarrow>
          if n \<noteq> length data then (take n data, [], Some ErrShortWrite)
          else (case io_copy chunks readErr of (got, buf, err) \<Rightarrow> (data @ got, data @ buf, err)))"

record conn_script =
  cs_isTCP :: bool
  cs_SyscallConn :: "gerr option"
  cs_Control :: "gerr option"
  cs_getsockopt :: "gerr + 64 word"
  cs_LocalIP :: "net_ip option"
  cs_Dial :: "string \<Rightarrow> gerr option"
  cs_toServer :: "chunk list"
  cs_clientEnd :: "gerr option"
  cs_toClient :: "chunk list"
  cs_serverEnd :: "gerr option"
  cs_clientFirst :: bool
  cs_forced :: bool
  cs_now :: "nat \<Rightarrow> gtime"

text \<open>What \<open>errors.Is\<close> says of an error, for \<open>io.EOF\<close> and \<open>net.ErrClosed\<close>.\<close>

record proxy_env =
  px_lib :: crypto_lib
  px_isEOF :: "gerr \<Rightarrow> bool"
  px_isClosed :: "gerr \<Rightarrow> bool"

text \<open>The first error that is not the end of a stream, in the order in which the two directions end.\<close>

definition copy_error :: "proxy_env \<Rightarrow> gerr option \<Rightarrow> gerr option \<Rightarrow> gerr option" where
  "copy_error env err1 err2 =
     (case err1 of
        Some e \<Rightarrow> if \<not> px_isEOF env e then Some e
          else (case err2 of Some e \<Rightarrow> if \<not> px_isEOF env e then Some e else None | None \<Rightarrow> None)
      | None \<Rightarrow> (case err2 of Some e \<Rightarrow> if \<not> px_isEOF env e then Some e else None | None \<Rightarrow> None))"

definition bidirectionalCopy :: "proxy_env \<Rightarrow> conn_script \<Rightarrow> bytes \<times> bytes \<times> gerr option" where
  "bidirectionalCopy env cs =
     (case (io_copy (cs_toServer cs) (cs_clientEnd cs), io_copy (cs_toClient cs) (cs_serverEnd cs)) of
        ((d1, clientToServer, errC), (d2, serverToClient, errS)) \<Rightarrow>
          (clientToServer, serverToClient,
           if cs_clientFirst cs then copy_error env errC errS else copy_error env errS errC))"

section \<open>One connection\<close>

text \<open>\<open>recordConnection\<close> up to the send on the channel; the clock is read five times.\<close>

definition recordConnection ::
  "crypto_lib \<Rightarrow> (nat \<Rightarrow> gtime) \<Rightarrow> PayloadConfig \<Rightarrow> ConnectionMetadata \<Rightarrow> bytes \<Rightarrow> bytes \<Rightarrow> gerr option \<Rightarrow> Connection outcome" where
  "recordConnection lib now config metadata c2sData s2cData connErr =
     bindO (RecordTCPPayloadDirect lib (now 2) ClientToServer c2sData (NewConnectionRecorder (now 0) (now 1) metadata ''tcp'' config))
       (\<lambda>r. bindO (RecordTCPPayloadDirect lib (now 3) ServerToClient s2cData r)
         (\<lambda>r. Return (recorder_Finish (now 4) (SetError connErr r))))"

definition getConnectionMetadata :: "bpf_maps \<Rightarrow> 64 word \<Rightarrow> bool \<Rightarrow> gerr + ConnectionMetadata" where
  "getConnectionMetadata maps sockCookie isIPv6 =
     (if isIPv6
      then (case LookupOrigDstV6 maps sockCookie of
              Inl err \<Rightarrow> Inl (Errorf ''lookup IPv6 original destination: %w'' [FErr err])
            | Inr metadata \<Rightarrow> Inr metadata)
      else (case LookupOrigDst maps sockCookie of
              Inl err \<Rightarrow> Inl (Errorf ''lookup IPv4 original destination: %w'' [FErr err])
            | Inr metadata \<Rightarrow> Inr metadata))"

definition dial_target :: "ConnectionMetadata \<Rightarrow> string" where
  "dial_target metadata =
     (if ip_To4 (md_OrigIP metadata) = None
      then ''['' @ ip_String (md_OrigIP metadata) @ '']:'' @ dec (unat (md_OrigPort metadata))
      else ip_String (md_OrigIP metadata) @ '':'' @ dec (unat (md_OrigPort metadata)))"

text \<open>The ends of the connection that are open, and what \<open>HandleConnection\<close> leaves: its error, and the connection that is
  handed to a goroutine for the channel.\<close>

datatype conn_end = ClientEnd | ServerEnd

record handled =
  hd_open :: "conn_end list"
  hd_error :: "gerr option"
  hd_recorded :: "Connection outcome option"

definition give_up :: "conn_end list \<Rightarrow> gerr \<Rightarrow> handled" where
  "give_up ends err = \<lparr>hd_open = removeAll ClientEnd ends, hd_error = Some err, hd_recorded = None\<rparr>"

definition GetSocketCookie :: "conn_script \<Rightarrow> gerr + 64 word" where
  "GetSocketCookie cs =
     (case cs_getsockopt cs of
        Inl err \<Rightarrow> Inl (Errorf ''getsockopt SO_COOKIE: %w'' [FErr err])
      | Inr cookie \<Rightarrow> Inr cookie)"

definition HandleConnection :: "proxy_env \<Rightarrow> PayloadConfig \<Rightarrow> bpf_maps \<Rightarrow> conn_script \<Rightarrow> conn_end list \<Rightarrow> handled" where
  "HandleConnection env config maps cs ends =
     (if \<not> cs_isTCP cs then give_up ends (Errorf ''not a TCP connection'' [])
      else case cs_SyscallConn cs of
             Some err \<Rightarrow> give_up ends (Errorf ''get syscall conn: %w'' [FErr err])
           | None \<Rightarrow>
               (case cs_Control cs of
                  Some err \<Rightarrow> give_up ends (Errorf ''raw conn control: %w'' [FErr err])
                | None \<Rightarrow>
                    (case GetSocketCookie cs of
                       Inl err \<Rightarrow> give_up ends (Errorf ''get socket cookie: %w'' [FErr err])
                     | Inr sockCookie \<Rightarrow>
                         (let isIPv6 = (case cs_LocalIP cs of None \<Rightarrow> False | Some ip \<Rightarrow> ip_To4 ip = None)
                          in case getConnectionMetadata maps sockCookie isIPv6 of
                               Inl err \<Rightarrow> give_up ends (Errorf ''get connection metadata: %w'' [FErr err])
                             | Inr metadata \<Rightarrow>
                                 (case cs_Dial cs (dial_target metadata) of
                                    Some err \<Rightarrow> give_up ends (Errorf ''connect to original destination: %w'' [FErr err])
                                  | None \<Rightarrow>
                                      (let ends = ends @ [ServerEnd]
                                       in case bidirectionalCopy env cs of
                                            (clientToServer, serverToClient, copyErr) \<Rightarrow>
                                              (let copyErr = (case copyErr of
                                                     None \<Rightarrow> None
                                                   | Some e \<Rightarrow> if cs_forced cs \<or> px_isEOF env e \<or> px_isClosed env e then None else Some e)
                                               in \<lparr>hd_open = removeAll ClientEnd (removeAll ServerEnd ends), hd_error = copyErr,
                                                   hd_recorded = Some (recordConnection (px_lib env) (cs_now cs) config metadata
                                                     clientToServer serverToClient copyErr)\<rparr>)))))))"

section \<open>The proxy and its goroutines\<close>

text \<open>Listening: the IPv6 listener, then the IPv4 one; the channel \<open>ready\<close> is closed only when both are there.\<close>

record listen_result =
  lr_listeners :: "string list"
  lr_ready :: bool
  lr_error :: "gerr option"

definition proxy_listen :: "(string \<Rightarrow> gerr option) \<Rightarrow> 16 word \<Rightarrow> string \<Rightarrow> listen_result" where
  "proxy_listen listen port bindIPv4 =
     (let addr = ''[::1]:'' @ dec (unat port); addrV4 = bindIPv4 @ '':'' @ dec (unat port)
      in case listen addr of
           Some err \<Rightarrow> \<lparr>lr_listeners = [], lr_ready = False, lr_error = Some (Errorf ''listen on %s: %w'' [FStr addr, FErr err])\<rparr>
         | None \<Rightarrow>
             (case listen addrV4 of
                Some err \<Rightarrow> \<lparr>lr_listeners = removeAll addr [addr], lr_ready = False,
                  lr_error = Some (Errorf ''listen on %s: %w'' [FStr addrV4, FErr err])\<rparr>
              | None \<Rightarrow> \<lparr>lr_listeners = [addr, addrV4], lr_ready = True, lr_error = None\<rparr>))"

text \<open>The state of the proxy once it is ready. \<open>ps_accepted\<close> holds the connections that a listener has returned and that are
  not yet in the wait group, \<open>ps_handling\<close> those in the wait group with what they will record, if anything. A send on a
  closed channel is a panic.\<close>

record proxy_state =
  ps_cancelled :: bool
  ps_open :: bool
  ps_accepted :: "Connection option list"
  ps_handling :: "Connection option list"
  ps_waited :: bool
  ps_closed :: bool
  ps_sent :: "Connection list"
  ps_panicked :: bool

definition proxy_ready :: proxy_state where
  "proxy_ready =
     \<lparr>ps_cancelled = False, ps_open = True, ps_accepted = [], ps_handling = [], ps_waited = False, ps_closed = False, ps_sent = [],
      ps_panicked = False\<rparr>"

text \<open>The steps: a listener returns a connection; its handler starts; a handler ends without or with a record; the context
  is cancelled; \<open>Start\<close> closes the listeners, waits for the handlers and returns; \<open>waitAndCleanup\<close> closes the channel.\<close>

inductive proxy_step :: "proxy_state \<Rightarrow> proxy_state \<Rightarrow> bool" where
  accept: "ps_open s \<Longrightarrow> proxy_step s (s\<lparr>ps_accepted := c # ps_accepted s\<rparr>)"
| handle: "ps_accepted s = xs @ c # ys \<Longrightarrow>
     proxy_step s (s\<lparr>ps_accepted := xs @ ys, ps_handling := c # ps_handling s\<rparr>)"
| finish: "ps_handling s = xs @ None # ys \<Longrightarrow> proxy_step s (s\<lparr>ps_handling := xs @ ys\<rparr>)"
| send: "ps_handling s = xs @ Some c # ys \<Longrightarrow>
     proxy_step s (if ps_closed s then s\<lparr>ps_panicked := True\<rparr>
                   else s\<lparr>ps_handling := xs @ ys, ps_sent := ps_sent s @ [c]\<rparr>)"
| cancel: "proxy_step s (s\<lparr>ps_cancelled := True\<rparr>)"
| stop_listening: "ps_cancelled s \<Longrightarrow> proxy_step s (s\<lparr>ps_open := False\<rparr>)"
| wait: "ps_cancelled s \<Longrightarrow> \<not> ps_open s \<Longrightarrow> ps_handling s = [] \<Longrightarrow> proxy_step s (s\<lparr>ps_waited := True\<rparr>)"
| close_channel: "ps_waited s \<Longrightarrow> proxy_step s (s\<lparr>ps_closed := True\<rparr>)"

inductive_cases proxy_stepE: "proxy_step s t"

text \<open>The states that the proxy reaches; \<open>timely\<close> excludes that a handler starts after \<open>Start\<close> has waited.\<close>

inductive proxy_reachable :: "bool \<Rightarrow> proxy_state \<Rightarrow> bool" for timely where
  ready: "proxy_reachable timely proxy_ready"
| step: "proxy_reachable timely s \<Longrightarrow> proxy_step s t \<Longrightarrow> (timely \<and> ps_waited s \<longrightarrow> ps_handling t = []) \<Longrightarrow> proxy_reachable timely t"

section \<open>Lemmas\<close>

text \<open>The buffer is what the other end took, up to a chunk whose write failed.\<close>

lemma io_copy_buffer:
  "io_copy chunks e = (got, buf, err) \<Longrightarrow> (\<exists>rest. got = buf @ rest \<and> (err = e \<longrightarrow> e = None \<longrightarrow> rest = [])) \<and>
     (\<exists>rest. concat (map fst chunks) = got @ rest)"
proof (induction chunks arbitrary: got buf)
  case (Cons c chunks)
  obtain data n werr where c: "c = (data, n, werr)" by (cases c)
  show ?case
  proof (cases "werr = None \<and> n = length data")
    case True
    obtain g b where rec: "io_copy chunks e = (g, b, err)" and gb: "got = data @ g" "buf = data @ b"
      using Cons.prems True c by (auto split: prod.splits)
    from Cons.IH [OF rec] gb c show ?thesis by auto
  next
    case False
    with Cons.prems c have "got = take n data" "buf = []" "err \<noteq> None" by (auto split: option.splits if_splits)
    moreover have "\<exists>rest. concat (map fst (c # chunks)) = take n data @ rest"
      using c by (intro exI [of _ "drop n data @ concat (map fst chunks)"]) simp
    ultimately show ?thesis by auto
  qed
qed auto

lemma io_copy_complete: "io_copy chunks e = (got, buf, None) \<Longrightarrow> got = buf \<and> buf = concat (map fst chunks)"
proof (induction chunks arbitrary: got buf)
  case (Cons c chunks)
  then show ?case by (cases c) (auto split: option.splits if_splits prod.splits)
qed auto

lemma recordConnection_fields:
  assumes "recordConnection lib now config metadata c2s s2c err = Return c"
  shows "cn_PID c = md_PID metadata \<and> cn_Comm c = md_Comm metadata \<and> cn_CgroupID c = md_CgroupID metadata \<and>
    cn_IP c = Some (md_OrigIP metadata) \<and> cn_Port c = md_OrigPort metadata \<and>
    cn_BytesSent c = of_nat (length c2s) \<and> cn_BytesReceived c = of_nat (length s2c) \<and>
    cn_Error c = map_option error_message err \<and>
    (\<exists>p q. NewPayload lib c2s config = Return p \<and> NewPayload lib s2c config = Return q \<and>
      map (\<lambda>t. (tp_Direction t, tp_Payload t)) (cn_TCPPayloads c) = [(''client_to_server'', p), (''server_to_client'', q)])"
  using assms
  by (auto simp: recordConnection_def RecordTCPPayloadDirect_def NewConnectionRecorder_def recorder_Finish_def SetError_def Let_def
      split: option.splits)

lemma HandleConnection_closed: "hd_open (HandleConnection env config maps cs [ClientEnd]) = []"
  by (auto simp: HandleConnection_def give_up_def Let_def split: option.splits sum.splits prod.splits)

section \<open>Properties\<close>

text \<open>C23. What is recorded of a connection: handling it closes both of its ends, whatever happens. When a record is made, it
  names the process and the destination that the kernel has under the cookie of the socket; what it counts as sent are
  bytes that the server got, in order, and all that the client sent when this direction ended without an error; and
  likewise for what was received.\<close>

theorem connection_recorded_exact:
  assumes "HandleConnection env config maps cs [ClientEnd] = h"
  shows "hd_open h = [] \<and>
    (\<forall>c. hd_recorded h = Some (Return c) \<longrightarrow>
      (\<exists>cookie md sent buf1 err1 received buf2 err2.
         GetSocketCookie cs = Inr cookie \<and>
         getConnectionMetadata maps cookie (case cs_LocalIP cs of None \<Rightarrow> False | Some ip \<Rightarrow> ip_To4 ip = None) = Inr md \<and>
         cs_Dial cs (dial_target md) = None \<and>
         cn_PID c = md_PID md \<and> cn_Comm c = md_Comm md \<and> cn_IP c = Some (md_OrigIP md) \<and> cn_Port c = md_OrigPort md \<and>
         io_copy (cs_toServer cs) (cs_clientEnd cs) = (sent, buf1, err1) \<and> prefix buf1 sent \<and>
         (err1 = None \<longrightarrow> buf1 = concat (map fst (cs_toServer cs))) \<and> cn_BytesSent c = of_nat (length buf1) \<and>
         io_copy (cs_toClient cs) (cs_serverEnd cs) = (received, buf2, err2) \<and> prefix buf2 received \<and>
         (err2 = None \<longrightarrow> buf2 = concat (map fst (cs_toClient cs))) \<and> cn_BytesReceived c = of_nat (length buf2)))"
proof (intro conjI allI impI)
  show "hd_open h = []" using assms HandleConnection_closed by blast
next
  fix c
  assume c: "hd_recorded h = Some (Return c)"
  obtain sent buf1 err1 where one: "io_copy (cs_toServer cs) (cs_clientEnd cs) = (sent, buf1, err1)" by (metis prod_cases3)
  obtain received buf2 err2 where two: "io_copy (cs_toClient cs) (cs_serverEnd cs) = (received, buf2, err2)" by (metis prod_cases3)
  obtain err where copy: "bidirectionalCopy env cs = (buf1, buf2, err)" by (simp add: bidirectionalCopy_def one two)
  from assms c have tcp: "cs_isTCP cs" "cs_SyscallConn cs = None" "cs_Control cs = None"
    by (auto simp: HandleConnection_def give_up_def Let_def split: option.splits if_splits)
  with assms c obtain cookie where cookie: "GetSocketCookie cs = Inr cookie"
    by (cases "GetSocketCookie cs") (auto simp: HandleConnection_def give_up_def Let_def)
  let ?v6 = "case cs_LocalIP cs of None \<Rightarrow> False | Some ip \<Rightarrow> ip_To4 ip = None"
  from tcp cookie assms c obtain md where md: "getConnectionMetadata maps cookie ?v6 = Inr md"
    by (cases "getConnectionMetadata maps cookie ?v6") (auto simp: HandleConnection_def give_up_def Let_def)
  from tcp cookie md assms c have dial: "cs_Dial cs (dial_target md) = None"
    by (cases "cs_Dial cs (dial_target md)") (auto simp: HandleConnection_def give_up_def Let_def)
  from tcp cookie md dial copy assms c
  have "\<exists>e. recordConnection (px_lib env) (cs_now cs) config md buf1 buf2 e = Return c"
    by (auto simp: HandleConnection_def Let_def)
  then obtain e where recorded: "recordConnection (px_lib env) (cs_now cs) config md buf1 buf2 e = Return c" by blast
  note facts = recordConnection_fields [OF recorded]
  have "prefix buf1 sent" "prefix buf2 received"
    using io_copy_buffer [OF one] io_copy_buffer [OF two] by (auto simp: prefix_def)
  moreover have "err1 = None \<Longrightarrow> buf1 = concat (map fst (cs_toServer cs))" "err2 = None \<Longrightarrow> buf2 = concat (map fst (cs_toClient cs))"
    using one two io_copy_complete by blast+
  ultimately show "\<exists>cookie md sent buf1 err1 received buf2 err2.
         GetSocketCookie cs = Inr cookie \<and> getConnectionMetadata maps cookie ?v6 = Inr md \<and> cs_Dial cs (dial_target md) = None \<and>
         cn_PID c = md_PID md \<and> cn_Comm c = md_Comm md \<and> cn_IP c = Some (md_OrigIP md) \<and> cn_Port c = md_OrigPort md \<and>
         io_copy (cs_toServer cs) (cs_clientEnd cs) = (sent, buf1, err1) \<and> prefix buf1 sent \<and>
         (err1 = None \<longrightarrow> buf1 = concat (map fst (cs_toServer cs))) \<and> cn_BytesSent c = of_nat (length buf1) \<and>
         io_copy (cs_toClient cs) (cs_serverEnd cs) = (received, buf2, err2) \<and> prefix buf2 received \<and>
         (err2 = None \<longrightarrow> buf2 = concat (map fst (cs_toClient cs))) \<and> cn_BytesReceived c = of_nat (length buf2)"
    using cookie md dial one two facts by blast
qed

lemma proxy_timely_invariant:
  "proxy_reachable True s \<Longrightarrow> \<not> ps_panicked s \<and> (ps_waited s \<longrightarrow> ps_handling s = []) \<and> (ps_closed s \<longrightarrow> ps_waited s)"
proof (induction rule: proxy_reachable.induct)
  case (step s t)
  from step(2) step(3,4) show ?case by cases auto
qed (simp add: proxy_ready_def)

lemma any_step: "proxy_reachable False s \<Longrightarrow> proxy_step s t \<Longrightarrow> proxy_reachable False t"
  by (rule proxy_reachable.step) simp_all

text \<open>How a handler comes to start late.\<close>

lemma late_handler: "\<exists>s. proxy_reachable False s \<and> ps_panicked s"
proof -
  define c :: Connection where "c = undefined"
  let ?s1 = "proxy_ready\<lparr>ps_accepted := [Some c]\<rparr>"
  let ?s2 = "?s1\<lparr>ps_cancelled := True\<rparr>"
  let ?s3 = "?s2\<lparr>ps_open := False\<rparr>"
  let ?s4 = "?s3\<lparr>ps_waited := True\<rparr>"
  let ?s5 = "?s4\<lparr>ps_closed := True\<rparr>"
  let ?s6 = "?s5\<lparr>ps_accepted := [], ps_handling := [Some c]\<rparr>"
  let ?s7 = "?s6\<lparr>ps_panicked := True\<rparr>"
  have 1: "proxy_step proxy_ready ?s1" using proxy_step.accept [of proxy_ready "Some c"] by (simp add: proxy_ready_def)
  have 2: "proxy_step ?s1 ?s2" by (rule proxy_step.cancel)
  have 3: "proxy_step ?s2 ?s3" by (rule proxy_step.stop_listening) simp
  have 4: "proxy_step ?s3 ?s4" by (rule proxy_step.wait) (simp_all add: proxy_ready_def)
  have 5: "proxy_step ?s4 ?s5" by (rule proxy_step.close_channel) simp
  have 6: "proxy_step ?s5 ?s6" using proxy_step.handle [of ?s5 "[]" "Some c" "[]"] by (simp add: proxy_ready_def)
  have 7: "proxy_step ?s6 ?s7" using proxy_step.send [of ?s6 "[]" c "[]"] by simp
  have "proxy_reachable False ?s7"
    by (rule any_step [OF any_step [OF any_step [OF any_step [OF any_step [OF any_step [OF any_step
      [OF proxy_reachable.ready 1] 2] 3] 4] 5] 6] 7])
  then show ?thesis by fastforce
qed

text \<open>The proxy ends in order when no handler starts late: then nothing is sent on the closed channel, and once the
  channel is closed every connection that was being handled has been recorded or given up. But a connection that a
  listener returned just before it was closed may be handled after \<open>Start\<close> has waited, and its record is a send on the
  closed channel, which ends the program.\<close>

theorem proxy_shutdown:
  "(\<forall>s. proxy_reachable True s \<longrightarrow> \<not> ps_panicked s \<and> (ps_closed s \<longrightarrow> ps_handling s = [])) \<and>
   (\<exists>s. proxy_reachable False s \<and> ps_panicked s)"
  using proxy_timely_invariant late_handler by blast

theorem proxy_shutdown_witness: "\<not> ps_panicked proxy_ready"
  using proxy_shutdown proxy_reachable.ready by blast

section \<open>Samples\<close>

definition sample_proxy_env :: proxy_env where
  "sample_proxy_env = \<lparr>px_lib = sample_lib, px_isEOF = \<lambda>_. False, px_isClosed = \<lambda>_. False\<rparr>"

definition sample_conn :: conn_script where
  "sample_conn =
     \<lparr>cs_isTCP = True, cs_SyscallConn = None, cs_Control = None, cs_getsockopt = Inr 9, cs_LocalIP = Some [byte 127, byte 0, byte 0, byte 1],
      cs_Dial = \<lambda>_. None, cs_toServer = [(''GET'', 3, None), ('' /'', 2, None)], cs_clientEnd = None, cs_toClient = [(''OK'', 2, None)],
      cs_serverEnd = None, cs_clientFirst = True, cs_forced = False, cs_now = int\<rparr>"

lemma NewPayload_default: "\<exists>p. NewPayload lib data DefaultPayloadConfig = Return p"
  by (simp add: NewPayload_def DefaultPayloadConfig_def Let_def)

lemma recordConnection_default: "\<exists>c. recordConnection lib now DefaultPayloadConfig md c2s s2c err = Return c"
proof -
  obtain p q where "NewPayload lib c2s DefaultPayloadConfig = Return p" "NewPayload lib s2c DefaultPayloadConfig = Return q"
    using NewPayload_default by metis
  then show ?thesis by (simp add: recordConnection_def RecordTCPPayloadDirect_def NewConnectionRecorder_def Let_def)
qed

theorem connection_recorded_exact_witness:
  "\<exists>c. hd_recorded (HandleConnection sample_proxy_env DefaultPayloadConfig sample_bpf_maps sample_conn [ClientEnd]) = Some (Return c) \<and>
     cn_PID c = 77 \<and> cn_Port c = 443 \<and> cn_BytesSent c = 5 \<and> cn_BytesReceived c = 2"
proof -
  let ?h = "HandleConnection sample_proxy_env DefaultPayloadConfig sample_bpf_maps sample_conn [ClientEnd]"
  have cookie: "GetSocketCookie sample_conn = Inr 9" by (simp add: GetSocketCookie_def sample_conn_def)
  have addr: "(case cs_LocalIP sample_conn of None \<Rightarrow> False | Some ip \<Rightarrow> ip_To4 ip = None) = False"
    by (simp add: sample_conn_def ip_To4_def)
  obtain md where md: "getConnectionMetadata sample_bpf_maps 9 False = Inr md" and vals: "md_PID md = 77" "md_OrigPort md = 443"
    by (simp add: getConnectionMetadata_def LookupOrigDst_def sample_bpf_maps_def ToConnectionMetadata_def)
  have tcp: "cs_isTCP sample_conn" "cs_SyscallConn sample_conn = None" "cs_Control sample_conn = None" "cs_Dial sample_conn t = None" for t
    by (simp_all add: sample_conn_def)
  obtain buf1 buf2 e where copy: "bidirectionalCopy sample_proxy_env sample_conn = (buf1, buf2, e)" by (metis prod_cases3)
  have "\<exists>e. hd_recorded ?h = Some (recordConnection (px_lib sample_proxy_env) (cs_now sample_conn) DefaultPayloadConfig md buf1 buf2 e)"
    by (simp add: HandleConnection_def tcp cookie addr md copy Let_def) (rule exI, rule refl)
  with recordConnection_default obtain c where c: "hd_recorded ?h = Some (Return c)" by metis
  have ends: "cs_clientEnd sample_conn = None" "cs_serverEnd sample_conn = None" by (simp_all add: sample_conn_def)
  have sent: "io_copy (cs_toServer sample_conn) None = (''GET /'', ''GET /'', None)"
    and received: "io_copy (cs_toClient sample_conn) None = (''OK'', ''OK'', None)" by (simp_all add: sample_conn_def)
  from connection_recorded_exact [OF refl, of sample_proxy_env DefaultPayloadConfig sample_bpf_maps sample_conn] c cookie addr md ends sent received
  show ?thesis by (intro exI [of _ c]) (auto simp: vals)
qed

end
