(* ===== verification/Network_Trace.thy ===== *)
theory Network_Trace
  imports Network_Proxy
begin

text \<open>
  The network trace attestor: \<open>attestation/networktrace/networktrace.go\<close>.

  \<open>Attest\<close> loads the BPF programs, starts the proxy and registers two hooks, as functions; from then on it waits, and what
  the hooks, the proxy, the collector, the caller's context and \<open>waitAndCleanup\<close> do is a step relation.
\<close>

section \<open>State\<close>

definition network_Name :: string where "network_Name = ''network-trace''"
definition network_Type :: string where "network_Type = ''https://witness.dev/attestations/network-trace/v0.1''"

record NetworkTrace =
  nt_StartTime :: gtime
  nt_EndTime :: gtime
  nt_Connections :: "Connection list"
  nt_Summary :: NetworkSummary
  nt_Config :: network_config

text \<open>The attestor keeps a pointer to the hooks that it declared its own in; it is nil before. The hooks themselves are in the
  attestation context, so the operations take and return them.\<close>

record network_attestor =
  na_config :: network_config
  na_NetworkTrace :: NetworkTrace
  na_hooks :: bool

definition no_summary :: NetworkSummary where
  "no_summary =
     \<lparr>nsu_TotalConnections = 0, nsu_ProtocolCounts = [], nsu_UniqueHosts = [], nsu_UniqueIPs = [], nsu_TotalBytesSent = 0,
      nsu_TotalBytesReceived = 0\<rparr>"

definition no_network_config :: network_config where
  "no_network_config =
     \<lparr>ncf_ObservePIDs = [], ncf_ObserveCgroups = [], ncf_ObserveCommands = [], ncf_ObserveChildTree = False, ncf_ProxyPort = 0,
      ncf_ProxyBindIPv4 = [], ncf_Payload = \<lparr>pc_RecordPayload = False, pc_RecordPayloadHash = False, pc_MaxPayloadSize = 0\<rparr>\<rparr>"

definition NewWithConfig :: "network_config \<Rightarrow> network_attestor" where
  "NewWithConfig config =
     \<lparr>na_config = config,
      na_NetworkTrace = \<lparr>nt_StartTime = zero_time, nt_EndTime = zero_time, nt_Connections = [], nt_Summary = no_summary,
        nt_Config = no_network_config\<rparr>,
      na_hooks = False\<rparr>"

definition network_New :: network_attestor where "network_New = NewWithConfig DefaultConfig"

definition network_DeclareHooks ::
  "ExecuteHooks \<Rightarrow> network_attestor \<Rightarrow> ExecuteHooks \<times> network_attestor \<times> gerr option" where
  "network_DeclareHooks hooks n =
     (case Declare network_Name StagePreExec hooks of
        (hooks, Some err) \<Rightarrow> (hooks, n, Some err)
      | (hooks, None) \<Rightarrow>
          (case Declare network_Name StagePreExit hooks of
             (hooks, Some err) \<Rightarrow> (hooks, n, Some err)
           | (hooks, None) \<Rightarrow> (hooks, n\<lparr>na_hooks := True\<rparr>, None)))"

section \<open>Setting up\<close>

definition initBPF :: "bpf_env \<Rightarrow> network_attestor \<Rightarrow> bpf_resource list \<Rightarrow> bpf_resource list \<times> (gerr + bpf_resource list)" where
  "initBPF env n live =
     bpf_Load env
       \<lparr>lc_CgroupPath = ''/sys/fs/cgroup'', lc_ProxyPort = ncf_ProxyPort (na_config n), lc_ProxyIPv4 = ncf_ProxyBindIPv4 (na_config n)\<rparr>
       live"

text \<open>\<open>initProxies\<close> starts the proxy in a goroutine and waits for its channel \<open>ready\<close>; the error of the proxy is only logged.
  \<open>None\<close>: it waits forever.\<close>

definition initProxies :: "(string \<Rightarrow> gerr option) \<Rightarrow> network_attestor \<Rightarrow> proxy_state option" where
  "initProxies listen n =
     (if lr_ready (proxy_listen listen (ncf_ProxyPort (na_config n)) (ncf_ProxyBindIPv4 (na_config n))) then Some proxy_ready else None)"

text \<open>\<open>registerHooks\<close>, with the functions as the hooks know them; what they do is below. The channel of each hook is closed right
  after it is registered.\<close>

definition registerHooks ::
  "(int \<Rightarrow> gerr option) \<Rightarrow> (int \<Rightarrow> gerr option) \<Rightarrow> network_attestor \<Rightarrow> ExecuteHooks \<Rightarrow> (ExecuteHooks \<times> (gerr + nat list)) outcome" where
  "registerHooks preExec preExit n hooks =
     (if \<not> na_hooks n then Panic nil_panic
      else case RegisterHook StagePreExec network_Name preExec hooks of
             (hooks, Inl err) \<Rightarrow> Return (hooks, Inl err)
           | (hooks, Inr r1) \<Rightarrow>
               (case RegisterHook StagePreExit network_Name preExit hooks of
                  (hooks, Inl err) \<Rightarrow> Return (hooks, Inl err)
                | (hooks, Inr r2) \<Rightarrow> Return (hooks, Inr [r1, r2])))"

text \<open>\<open>Attest\<close> until it waits: how it ended, or the closers of the BPF state and the channels of the hooks that are closed. An
  error after the programs were loaded closes their state on the way out.\<close>

datatype attest_setup = SetupFailed gerr | SetupBlocked | SetupDone "bpf_resource list" "nat list"

definition attest_until_wait ::
  "bpf_env \<Rightarrow> (string \<Rightarrow> gerr option) \<Rightarrow> (int \<Rightarrow> gerr option) \<Rightarrow> (int \<Rightarrow> gerr option) \<Rightarrow> network_attestor \<Rightarrow> ExecuteHooks \<Rightarrow>
     bpf_resource list \<Rightarrow> (ExecuteHooks \<times> bpf_resource list \<times> attest_setup) outcome" where
  "attest_until_wait env listen preExec preExit n hooks live =
     (case initBPF env n live of
        (live, Inl err) \<Rightarrow> Return (hooks, live, SetupFailed err)
      | (live, Inr closers) \<Rightarrow>
          (case initProxies listen n of
             None \<Rightarrow> Return (hooks, live, SetupBlocked)
           | Some _ \<Rightarrow>
               bindO (registerHooks preExec preExit n hooks)
                 (\<lambda>(hooks, r). case r of
                    Inl err \<Rightarrow> Return (hooks, fst (State_Close env closers live), SetupFailed err)
                  | Inr ready \<Rightarrow> Return (hooks, live, SetupDone closers ready))))"

section \<open>Tracing\<close>

text \<open>Where \<open>waitAndCleanup\<close> is: before the \<open>select\<close>, waiting for the proxy, waiting for the collector, or returned.\<close>

datatype trace_phase = Waiting | Stopping | Draining | Returned "gerr option"

record trace_state =
  ts_attestor :: network_attestor
  ts_maps :: bpf_maps
  ts_proxy :: proxy_state
  ts_ctxErr :: "gerr option"
  ts_shutdown :: bool
  ts_phase :: trace_phase
  ts_live :: "bpf_resource list"
  ts_panicked :: bool


text \<open>The two hooks. A process id is cut to 32 bits; closing the channel twice panics.\<close>

definition preExec_hook :: "bpf_env \<Rightarrow> gtime \<Rightarrow> int \<Rightarrow> trace_state \<Rightarrow> trace_state \<times> gerr option" where
  "preExec_hook env now pid s =
     (let n = ts_attestor s;
          config = (na_config n)\<lparr>ncf_ObservePIDs := ncf_ObservePIDs (na_config n) @ [word_of_int pid]\<rparr>;
          n = n\<lparr>na_config := config, na_NetworkTrace := (na_NetworkTrace n)\<lparr>nt_StartTime := now, nt_Config := config\<rparr>\<rparr>
      in case LoadUserConfig env config (ts_maps s) of
           (maps, err) \<Rightarrow> (s\<lparr>ts_attestor := n, ts_maps := maps\<rparr>, err))"

definition preExit_hook :: "gtime \<Rightarrow> int \<Rightarrow> trace_state \<Rightarrow> trace_state \<times> gerr option" where
  "preExit_hook now pid s =
     (let n = ts_attestor s; n = n\<lparr>na_NetworkTrace := (na_NetworkTrace n)\<lparr>nt_EndTime := now\<rparr>\<rparr>
      in (if ts_shutdown s then s\<lparr>ts_attestor := n, ts_panicked := True\<rparr> else s\<lparr>ts_attestor := n, ts_shutdown := True\<rparr>, None))"

text \<open>The collector takes one connection of those that were sent; \<open>waitAndCleanup\<close> in its four steps.\<close>

definition connections :: "trace_state \<Rightarrow> Connection list" where
  "connections s = nt_Connections (na_NetworkTrace (ts_attestor s))"

definition collect :: "Connection \<Rightarrow> trace_state \<Rightarrow> trace_state" where
  "collect c s =
     (let n = ts_attestor s
      in s\<lparr>ts_attestor := n\<lparr>na_NetworkTrace := (na_NetworkTrace n)\<lparr>nt_Connections := connections s @ [c]\<rparr>\<rparr>\<rparr>)"

definition stop_proxy :: "trace_state \<Rightarrow> trace_state" where
  "stop_proxy s = s\<lparr>ts_phase := Stopping, ts_proxy := (ts_proxy s)\<lparr>ps_cancelled := True\<rparr>\<rparr>"

definition close_connChannel :: "trace_state \<Rightarrow> trace_state" where
  "close_connChannel s = s\<lparr>ts_phase := Draining, ts_proxy := (ts_proxy s)\<lparr>ps_closed := True\<rparr>\<rparr>"

definition summarize :: "bpf_env \<Rightarrow> bpf_resource list \<Rightarrow> trace_state \<Rightarrow> trace_state" where
  "summarize env closers s =
     (let n = ts_attestor s
      in s\<lparr>ts_attestor := n\<lparr>na_NetworkTrace := (na_NetworkTrace n)\<lparr>nt_Summary := ComputeSummary (connections s)\<rparr>\<rparr>,
           ts_phase := Returned (ts_ctxErr s), ts_live := fst (State_Close env closers (ts_live s))\<rparr>)"

text \<open>A step of the proxy that is its own: it neither cancels its context nor closes the channel. A connection that was accepted
  before the listeners closed may get its handler only after the proxy has waited for its handlers, or after the channel
  is closed.\<close>

definition own_step :: "proxy_state \<Rightarrow> proxy_state \<Rightarrow> bool" where
  "own_step p q \<longleftrightarrow> proxy_step p q \<and> ps_cancelled q = ps_cancelled p \<and> ps_closed q = ps_closed p"

inductive trace_step :: "bpf_env \<Rightarrow> bpf_resource list \<Rightarrow> trace_state \<Rightarrow> trace_state \<Rightarrow> bool" for env closers where
  pre_exec: "trace_step env closers s (fst (preExec_hook env now pid s))"
| pre_exit: "trace_step env closers s (fst (preExit_hook now pid s))"
| proxy_move: "own_step (ts_proxy s) p \<Longrightarrow> trace_step env closers s (s\<lparr>ts_proxy := p\<rparr>)"
| cancelled: "ts_ctxErr s = None \<Longrightarrow>
     trace_step env closers s (s\<lparr>ts_ctxErr := Some err, ts_proxy := (ts_proxy s)\<lparr>ps_cancelled := True\<rparr>\<rparr>)"
| collected: "ps_sent (ts_proxy s) = connections s @ c # cs \<Longrightarrow> trace_step env closers s (collect c s)"
| wake: "ts_phase s = Waiting \<Longrightarrow> ts_shutdown s \<or> ts_ctxErr s \<noteq> None \<Longrightarrow> trace_step env closers s (stop_proxy s)"
| proxy_done: "ts_phase s = Stopping \<Longrightarrow> ps_waited (ts_proxy s) \<Longrightarrow> trace_step env closers s (close_connChannel s)"
| drained: "ts_phase s = Draining \<Longrightarrow> ps_sent (ts_proxy s) = connections s \<Longrightarrow> trace_step env closers s (summarize env closers s)"

inductive_cases trace_stepE: "trace_step env closers s t"



section \<open>Lemmas\<close>





















lemma network_declares:
  assumes "map_of (declarations hooks) (decl network_Name StagePreExec) = None"
    and "map_of (declarations hooks) (decl network_Name StagePreExit) = None"
    and "network_DeclareHooks hooks n = (hooks', n', e)"
  shows "e = None \<and> n' = n\<lparr>na_hooks := True\<rparr> \<and>
    map_of (declarations hooks') (decl network_Name StagePreExec) = Some False \<and>
    map_of (declarations hooks') (decl network_Name StagePreExit) = Some False"
proof (cases rule: Declare_cases [of hooks network_Name StagePreExec])
  case (fresh h1)
  show ?thesis
  proof (cases rule: Declare_cases [of h1 network_Name StagePreExit])
    case duplicate
    with fresh(3) assms(2) show ?thesis by (simp add: update_conv' StagePreExec_def StagePreExit_def)
  next
    case (fresh h2)
    with \<open>Declare network_Name StagePreExec hooks = (h1, None)\<close>
      \<open>declarations h1 = AList.update (decl network_Name StagePreExec) False (declarations hooks)\<close> assms(3)
    show ?thesis by (auto simp: network_DeclareHooks_def update_conv' StagePreExec_def StagePreExit_def)
  qed
qed (use assms in simp)

lemma network_registers:
  assumes "map_of (declarations hooks) (decl network_Name StagePreExec) = Some False"
    and "map_of (declarations hooks) (decl network_Name StagePreExit) = Some False" and "na_hooks n"
  shows "\<exists>hooks' r1 r2. registerHooks preExec preExit n hooks = Return (hooks', Inr [r1, r2]) \<and>
    HasHooks StagePreExec hooks' \<and> HasHooks StagePreExit hooks'"
proof (cases rule: RegisterHook_cases [of hooks network_Name StagePreExec preExec])
  case one: (registered h1)
  show ?thesis
  proof (cases rule: RegisterHook_cases [of h1 network_Name StagePreExit preExit])
    case refused
    with one(3) assms(2) show ?thesis by (simp add: update_conv' StagePreExec_def StagePreExit_def)
  next
    case two: (registered h2)
    with one assms(3) show ?thesis by (auto simp: registerHooks_def HasHooks_def)
  qed
qed (use assms in simp)

section \<open>Properties\<close>


text \<open>C24. Setting up the attestor: on hooks that hold none of its own, declaring them succeeds, and then \<open>Attest\<close> gets to wait just
  when the programs load and the proxy can listen, with both hooks registered; when the programs do not load it fails with
  their error and holds nothing; when the proxy cannot listen it waits forever for it to be ready, with the programs
  attached and no hook registered.\<close>

theorem network_setup_exact:
  assumes "map_of (declarations hooks) (decl network_Name StagePreExec) = None"
    and "map_of (declarations hooks) (decl network_Name StagePreExit) = None"
    and "network_DeclareHooks hooks n = (hooks', n', e)"
  shows "e = None \<and>
    (\<exists>hooks'' live r. attest_until_wait env listen preExec preExit n' hooks' [] = Return (hooks'', live, r) \<and>
       (case snd (initBPF env n []) of
          Inl err \<Rightarrow> hooks'' = hooks' \<and> live = [] \<and> r = SetupFailed err
        | Inr closers \<Rightarrow>
            live = closers \<and> length closers = 5 \<and>
            (if lr_ready (proxy_listen listen (ncf_ProxyPort (na_config n)) (ncf_ProxyBindIPv4 (na_config n)))
             then (\<exists>r1 r2. r = SetupDone closers [r1, r2]) \<and> HasHooks StagePreExec hooks'' \<and> HasHooks StagePreExit hooks''
             else r = SetupBlocked \<and> hooks'' = hooks')))"
proof -
  from network_declares [OF assms] have e: "e = None" and n': "n' = n\<lparr>na_hooks := True\<rparr>"
    and d: "map_of (declarations hooks') (decl network_Name StagePreExec) = Some False"
      "map_of (declarations hooks') (decl network_Name StagePreExit) = Some False" by blast+
  have "na_hooks n'" by (simp add: n')
  from network_registers [OF d this, of preExec preExit]
  obtain hooks'' r1 r2 where reg: "registerHooks preExec preExit n' hooks' = Return (hooks'', Inr [r1, r2])"
    "HasHooks StagePreExec hooks''" "HasHooks StagePreExit hooks''" by blast
  have bpf: "initBPF env n' [] = initBPF env n []" and conf: "na_config n' = na_config n"
    by (simp_all add: initBPF_def n')
  obtain live r where load: "initBPF env n [] = (live, r)" by fastforce
  have "case r of Inl err \<Rightarrow> live = [] | Inr closers \<Rightarrow> live = closers \<and> length closers = 5"
    using bpf_Load_live [OF load [unfolded initBPF_def]] by (auto simp: attachments_def split: sum.splits)
  with reg load e show ?thesis
    by (auto simp: attest_until_wait_def bpf conf initProxies_def split: sum.splits)
qed

section \<open>Samples\<close>

lemma sample_bpf_load: "\<exists>live closers. initBPF sample_bpf_env network_New [] = (live, Inr closers)"
proof -
  have "dotted [byte 127, byte 0, byte 0, byte 1] = DefaultProxyBindIPv4" by code_simp
  then have "ipToUint32 DefaultProxyBindIPv4 = Inr 0x7F000001"
    using ParseIP_dotted [of "[byte 127, byte 0, byte 0, byte 1]"] To4_mapped [of "[byte 127, byte 0, byte 0, byte 1]"]
    by (simp add: ipToUint32_def big_endian_bytes del: append_Cons append_Nil)
  then show ?thesis
    by (simp add: initBPF_def bpf_Load_def load_settings_def sample_bpf_env_def wrap_err_def GetCurrentNetns_def network_New_def
        NewWithConfig_def DefaultConfig_def DefaultProxyBindIPv4_def DefaultProxyPort_def connect_spec_def sockops_spec_def attachments_def)
qed



theorem network_setup_exact_witness:
  "\<exists>hooks' n' hooks'' live. network_DeclareHooks no_hooks network_New = (hooks', n', None) \<and>
     attest_until_wait sample_bpf_env (\<lambda>_. Some ErrShortWrite) (\<lambda>_. None) (\<lambda>_. None) n' hooks' [] = Return (hooks'', live, SetupBlocked)"
proof -
  obtain hooks' n' e where d: "network_DeclareHooks no_hooks network_New = (hooks', n', e)" by (metis prod_cases3)
  have none: "map_of (declarations no_hooks) x = None" for x by (simp add: no_hooks_def declarations_def)
  have blocked: "\<not> lr_ready (proxy_listen (\<lambda>_. Some ErrShortWrite) p a)" for p a by (simp add: proxy_listen_def Let_def)
  obtain live closers where load: "initBPF sample_bpf_env network_New [] = (live, Inr closers)"
    using sample_bpf_load by blast
  from network_setup_exact [OF none none d, of sample_bpf_env "\<lambda>_. Some ErrShortWrite" "\<lambda>_. None" "\<lambda>_. None"] load blocked d
  show ?thesis by auto
qed

end
