(* ===== verification/Context_Invariant.thy ===== *)
theory Context_Invariant
  imports Attest_Context Network_Trace
begin

text \<open>
  The state of a run, as every run leaves it: what the options of \<open>attestation/context.go\<close>, the goroutines of a stage and
  the declaration of hooks keep of the attestation context.
\<close>

section \<open>Well-formed contexts\<close>

text \<open>The options of \<open>context.go\<close> and \<open>context_env.go\<close>.\<close>

inductive provided_option :: "'d context_option \<Rightarrow> bool" where
  "provided_option (WithOutputWriters w)"
| "provided_option (WithHashes hashes)"
| "provided_option (WithWorkingDir dir)"
| "provided_option (WithDirHashGlob glob_Compile globs)"
| "provided_option (WithEnvCapturer additional excluded disable filter_vars)"
| "provided_option WithEnvFilterVarsEnabled"
| "provided_option (WithEnvAdditionalKeys ks)"
| "provided_option (WithEnvExcludeKeys ks)"
| "provided_option WithEnvDisableDefaultSensitiveList"

text \<open>An attestor that completed without an error.\<close>

definition completed_well :: "'d AttestationContext \<Rightarrow> 'd attestor \<Rightarrow> bool" where
  "completed_well ctx a \<longleftrightarrow> (\<exists>cpl \<in> set (ac_completedAttestors ctx). cpl_Attestor cpl = a \<and> cpl_Error cpl = None)"

definition context_typed :: "'d AttestationContext \<Rightarrow> bool" where
  "context_typed ctx \<longleftrightarrow>
     gomap_ok (ac_materials ctx) \<and> gomap_ok (ac_products ctx) \<and> ac_hashes ctx \<noteq> [] \<and> ac_workingDir ctx \<noteq> [] \<and>
     length (ac_dirHashGlobCompiled ctx) = length (ac_dirHashGlob ctx) \<and> hooks_inv (ac_executeHooks ctx) \<and>
     (\<forall>p d. (p, d) \<in> set (ac_materials ctx) \<longrightarrow>
        (\<exists>a m. completed_well ctx a \<and> att_Materials a = Some m \<and> (p, d) \<in> set m)) \<and>
     (\<forall>p d. (p, d) \<in> set (ac_products ctx) \<longrightarrow>
        (\<exists>a m. completed_well ctx a \<and> att_Products a = Some m \<and> (p, d) \<in> set m))"

text \<open>An attestor whose declaration of hooks keeps them in order, as every sequence of \<open>Declare\<close> does.\<close>

definition declares_in_order :: "'d attestor \<Rightarrow> bool" where
  "declares_in_order a \<longleftrightarrow> (\<forall>d. att_DeclareHooks a = Some d \<longrightarrow> (\<forall>h. hooks_inv h \<longrightarrow> hooks_inv (fst (d h))))"

section \<open>Lemmas\<close>

lemma map_update_entries: "kv \<in> set (AList.update k v m) \<Longrightarrow> kv = (k, v) \<or> kv \<in> set m"
  by (induction m) (auto split: if_splits)

lemma put_all_entries: "kv \<in> set (put_all src m) \<Longrightarrow> kv \<in> set m \<or> kv \<in> set src"
proof (induction src arbitrary: m)
  case (Cons x src)
  then show ?case using map_update_entries [of kv "fst x" "snd x" m] by fastforce
qed simp

lemma option_typed:
  assumes "provided_option opt" "context_typed ctx" "ac_completedAttestors ctx = []"
  shows "context_typed (opt ctx) \<and> ac_completedAttestors (opt ctx) = []"
  using assms
  by cases
    (auto simp: context_typed_def completed_well_def WithOutputWriters_def WithHashes_def WithWorkingDir_def WithDirHashGlob_def WithEnvCapturer_def
      WithEnvFilterVarsEnabled_def WithEnvAdditionalKeys_def WithEnvExcludeKeys_def WithEnvDisableDefaultSensitiveList_def)

lemma options_typed:
  "\<forall>opt \<in> set opts. provided_option opt \<Longrightarrow> context_typed ctx \<Longrightarrow> ac_completedAttestors ctx = [] \<Longrightarrow>
     context_typed (fold (\<lambda>opt ctx. opt ctx) opts ctx)"
proof (induction opts arbitrary: ctx)
  case (Cons opt opts)
  with option_typed [of opt ctx] show ?case by simp
qed simp

lemma NewContext_typed:
  assumes "NewContext (Inr wd) stepName attestors opts = Inr ctx" "wd \<noteq> []" "\<forall>opt \<in> set opts. provided_option opt"
  shows "context_typed ctx"
proof -
  have "context_typed \<lparr>ac_attestors = attestors, ac_workingDir = wd, ac_dirHashGlob = [], ac_dirHashGlobCompiled = [],
             ac_hashes = [plain_digest SHA256, gitoid_digest SHA256, gitoid_digest SHA1],
             ac_completedAttestors = [], ac_products = [], ac_materials = [], ac_stepName = stepName,
             ac_environmentCapturer = environment_New [], ac_outputWriters = [], ac_executeHooks = no_hooks\<rparr>"
    using assms(2) by (simp add: context_typed_def no_hooks_inv)
  from options_typed [OF assms(3) this] assms(1) show ?thesis by (simp add: NewContext_def)
qed

text \<open>A goroutine that has recorded its attestor belongs to one that completed without an error.\<close>

fun goroutine_typed :: "'d AttestationContext \<Rightarrow> 'd goroutine \<Rightarrow> bool" where
  "goroutine_typed ctx (Recorded a) = completed_well ctx a"
| "goroutine_typed ctx (Material_Added a) = completed_well ctx a"
| "goroutine_typed ctx g = True"

lemma goroutine_typed_mono:
  "goroutine_typed ctx g \<Longrightarrow> (\<And>a. completed_well ctx a \<Longrightarrow> completed_well ctx' a) \<Longrightarrow> goroutine_typed ctx' g"
  by (cases g) auto

lemma completion_typed:
  assumes "context_typed ctx"
  shows "context_typed (ctx\<lparr>ac_completedAttestors := ac_completedAttestors ctx @ [cpl]\<rparr>) \<and>
    (\<forall>a. completed_well ctx a \<longrightarrow> completed_well (ctx\<lparr>ac_completedAttestors := ac_completedAttestors ctx @ [cpl]\<rparr>) a)"
proof -
  let ?ctx = "ctx\<lparr>ac_completedAttestors := ac_completedAttestors ctx @ [cpl]\<rparr>"
  have mono: "completed_well ?ctx a" if "completed_well ctx a" for a using that by (auto simp: completed_well_def)
  have "\<exists>a m. completed_well ?ctx a \<and> att_Materials a = Some m \<and> (p, d) \<in> set m" if "(p, d) \<in> set (ac_materials ctx)" for p d
    using assms that mono by (fastforce simp: context_typed_def)
  moreover have "\<exists>a m. completed_well ?ctx a \<and> att_Products a = Some m \<and> (p, d) \<in> set m" if "(p, d) \<in> set (ac_products ctx)" for p d
    using assms that mono by (fastforce simp: context_typed_def)
  ultimately have "context_typed ?ctx" using assms unfolding context_typed_def by simp
  with mono show ?thesis by blast
qed

lemma goroutine_turn_typed:
  assumes "goroutine_turn attest now t g ctx = (g', ctx')" "context_typed ctx" "goroutine_typed ctx g"
  shows "context_typed ctx' \<and> goroutine_typed ctx' g' \<and> (\<forall>a. completed_well ctx a \<longrightarrow> completed_well ctx' a)"
proof (cases g)
  case (Starting a)
  with assms show ?thesis by (auto split: outcome.splits prod.splits)
next
  case (Attested a st err)
  let ?cpl = "\<lparr>cpl_Attestor = a, cpl_StartTime = st, cpl_EndTime = now t, cpl_Error = err\<rparr>"
  from assms(1) Attested have ctx': "ctx' = ctx\<lparr>ac_completedAttestors := ac_completedAttestors ctx @ [?cpl]\<rparr>"
    and g': "g' = (if err = None then Recorded a else Finished)" by auto
  have "goroutine_typed ctx' g'" by (simp add: g' ctx' completed_well_def)
  with completion_typed [OF assms(2)] show ?thesis unfolding ctx' by blast
next
  case (Recorded a)
  show ?thesis
  proof (cases "att_Materials a")
    case (Some mats)
    with assms Recorded have ctx': "ctx' = addMaterials mats ctx" "g' = Material_Added a" by auto
    have same: "completed_well ctx' = completed_well ctx" by (rule ext) (simp add: completed_well_def ctx' addMaterials_def)
    from assms Recorded have well: "completed_well ctx a" by simp
    have "\<exists>b m. completed_well ctx b \<and> att_Materials b = Some m \<and> (p, d) \<in> set m" if "(p, d) \<in> set (put_all mats (ac_materials ctx))" for p d
      using put_all_entries [OF that] assms(2) well Some by (auto simp: context_typed_def)
    with assms(2) have "context_typed ctx'" by (simp add: context_typed_def same) (simp add: ctx' addMaterials_def)
    with well show ?thesis by (simp add: ctx'(2) same)
  qed (use assms Recorded in auto)
next
  case (Material_Added a)
  show ?thesis
  proof (cases "att_Products a")
    case (Some prods)
    with assms Material_Added have ctx': "ctx' = addProducts prods ctx" "g' = Finished" by auto
    have same: "completed_well ctx' = completed_well ctx" by (rule ext) (simp add: completed_well_def ctx' addProducts_def)
    from assms Material_Added have well: "completed_well ctx a" by simp
    have "\<exists>b m. completed_well ctx b \<and> att_Products b = Some m \<and> (p, d) \<in> set m" if "(p, d) \<in> set (put_all prods (ac_products ctx))" for p d
      using put_all_entries [OF that] assms(2) well Some by (auto simp: context_typed_def)
    with assms(2) have "context_typed ctx'" by (simp add: context_typed_def same) (simp add: ctx' addProducts_def)
    then show ?thesis by (simp add: ctx'(2) same)
  qed (use assms Material_Added in auto)
qed (use assms in auto)

lemma turn_typed:
  assumes "context_typed (sg_ctx sg)" "\<forall>g \<in> set (sg_threads sg). goroutine_typed (sg_ctx sg) g"
  shows "context_typed (sg_ctx (turn attest now i sg)) \<and>
    (\<forall>g \<in> set (sg_threads (turn attest now i sg)). goroutine_typed (sg_ctx (turn attest now i sg)) g)"
proof (cases "i < length (sg_threads sg)")
  case True
  obtain g ctx where g: "goroutine_turn attest now (sg_ticks sg) (sg_threads sg ! i) (sg_ctx sg) = (g, ctx)" by fastforce
  have "goroutine_typed (sg_ctx sg) (sg_threads sg ! i)" using True assms(2) by simp
  from goroutine_turn_typed [OF g assms(1) this]
  have step: "context_typed ctx" "goroutine_typed ctx g" "\<And>a. completed_well (sg_ctx sg) a \<Longrightarrow> completed_well ctx a" by blast+
  have "goroutine_typed ctx h" if "h \<in> set ((sg_threads sg)[i := g])" for h
    using set_update_subset_insert [of "sg_threads sg" i g] that step(2) assms(2) goroutine_typed_mono [OF _ step(3)] by blast
  with step(1) True g show ?thesis by (simp add: turn_def)
qed (use assms in \<open>simp add: turn_def\<close>)

lemma run_stage_typed:
  assumes "run_stage attest now schedule atts ctx ticks = Return (ctx', ticks')" "context_typed ctx"
  shows "context_typed ctx'"
proof -
  let ?sg = "\<lparr>sg_ctx = ctx, sg_threads = map Starting atts, sg_ticks = ticks\<rparr>"
  have "context_typed (sg_ctx sg) \<and> (\<forall>g \<in> set (sg_threads sg). goroutine_typed (sg_ctx sg) g) \<Longrightarrow>
    context_typed (sg_ctx (fold (turn attest now) is sg)) \<and>
      (\<forall>g \<in> set (sg_threads (fold (turn attest now) is sg)). goroutine_typed (sg_ctx (fold (turn attest now) is sg)) g)" for "is" sg
    by (induction "is" arbitrary: sg) (simp_all add: turn_typed)
  from this [of ?sg] assms(2) have "context_typed (sg_ctx (fold (turn attest now) (schedule @ concat (map (replicate 4) [0..<length atts])) ?sg))"
    by (simp del: fold_append)
  with assms(1) show ?thesis by (auto simp: run_stage_def Let_def split: list.splits)
qed

lemma declare_hooks_typed:
  "\<forall>a \<in> set atts. declares_in_order a \<Longrightarrow> hooks_inv h \<Longrightarrow> hooks_inv (fst (declare_hooks atts h))"
proof (induction atts arbitrary: h)
  case (Cons a atts)
  show ?case
  proof (cases "att_DeclareHooks a")
    case None
    with Cons show ?thesis by simp
  next
    case (Some d)
    obtain h' e where d: "d h = (h', e)" by fastforce
    from Cons.prems Some d have "hooks_inv h'" by (auto simp: declares_in_order_def dest: spec [of _ h])
    with Cons Some d show ?thesis by (cases e) simp_all
  qed
qed simp

lemma hooks_typed: "context_typed ctx \<Longrightarrow> hooks_inv h \<Longrightarrow> context_typed (ctx\<lparr>ac_executeHooks := h\<rparr>)"
  by (simp add: context_typed_def completed_well_def)

lemma run_stages_typed:
  assumes "\<forall>a \<in> set (attestors_of m ExecuteRunType). declares_in_order a"
  shows "run_stages attest now schedule m ks ctx ticks = Return (ctx', e) \<Longrightarrow> context_typed ctx \<Longrightarrow> context_typed ctx'"
proof (induction ks arbitrary: ctx ticks)
  case (Cons k ks)
  obtain ctx1 err where pre: "(if k = ExecuteRunType
             then (let (h, err) = declare_hooks (attestors_of m k) (ac_executeHooks ctx)
                   in (ctx\<lparr>ac_executeHooks := h\<rparr>, err))
             else (ctx, refuse_hooks k (attestors_of m k))) = (ctx1, err)" by fastforce
  have "hooks_inv (ac_executeHooks ctx)" using Cons.prems(2) by (simp add: context_typed_def)
  with pre have typed: "context_typed ctx1"
  proof (cases "k = ExecuteRunType")
    case True
    with pre have "ctx1 = ctx\<lparr>ac_executeHooks := fst (declare_hooks (attestors_of m k) (ac_executeHooks ctx))\<rparr>"
      by (auto split: prod.splits)
    with True hooks_typed [OF Cons.prems(2) declare_hooks_typed [OF assms \<open>hooks_inv (ac_executeHooks ctx)\<close>]] show ?thesis by simp
  qed (use pre Cons.prems(2) in simp)
  show ?case
  proof (cases err)
    case None
    with Cons.prems(1) pre obtain ctx2 ticks2 where
      stage: "run_stage attest now (schedule k) (attestors_of m k) ctx1 ticks = Return (ctx2, ticks2)" and
      rest: "run_stages attest now schedule m ks ctx2 ticks2 = Return (ctx', e)" by auto
    from Cons.IH [OF rest run_stage_typed [OF stage typed]] show ?thesis .
  next
    case (Some e')
    with Cons.prems(1) pre typed show ?thesis by auto
  qed
qed simp

text \<open>Declaring the hooks of the network trace is in order.\<close>

lemma network_declares_in_order: "hooks_inv h \<Longrightarrow> hooks_inv (fst (network_DeclareHooks h n))"
  using Declare_inv [of h network_Name StagePreExec] Declare_inv [of "fst (Declare network_Name StagePreExec h)" network_Name StagePreExit]
  by (auto simp: network_DeclareHooks_def split: prod.splits option.splits)

text \<open>A run whose attestors do not panic returns.\<close>

lemma run_stages_return:
  "(\<And>a. no_panic attest a) \<Longrightarrow> \<exists>ctx' e. run_stages attest now schedule m ks ctx ticks = Return (ctx', e)"
proof (induction ks arbitrary: ctx ticks)
  case (Cons k ks)
  obtain ctx1 err where pre: "(if k = ExecuteRunType
             then (let (h, err) = declare_hooks (attestors_of m k) (ac_executeHooks ctx)
                   in (ctx\<lparr>ac_executeHooks := h\<rparr>, err))
             else (ctx, refuse_hooks k (attestors_of m k))) = (ctx1, err)" by fastforce
  obtain ctx2 ticks2 where "run_stage attest now (schedule k) (attestors_of m k) ctx1 ticks = Return (ctx2, ticks2)"
    using run_stage_calm [of "attestors_of m k" attest] Cons.prems by (metis surj_pair)
  with pre Cons show ?case by (cases err) simp_all
qed simp

lemma RunAttestors_returns:
  assumes "\<And>a. no_panic attest a"
  shows "\<exists>ctx' e. RunAttestors attest now schedule ctx = Return (ctx', e)"
  using run_stages_return [OF assms] by (auto simp: RunAttestors_def split: sum.splits)

section \<open>Property\<close>

text \<open>C28. The attestation context is well-formed however it was configured and however a run ended, with or without an error and for
  every interleaving of its goroutines: materials and products have one entry for each path, each of them reported by an
  attestor that completed without an error; there is a hash and a working directory; each directory glob has its compiled
  form at its place; and the hooks are in order.\<close>

theorem context_well_formed:
  assumes "NewContext (Inr wd) stepName attestors opts = Inr ctx" and "wd \<noteq> []" and "\<forall>opt \<in> set opts. provided_option opt"
    and "\<forall>a \<in> set (ac_attestors ctx). declares_in_order a"
    and "RunAttestors attest now schedule ctx = Return (ctx', e)"
  shows "context_typed ctx'"
proof (cases "\<exists>m. group_attestors (ac_attestors ctx) = Inr m")
  case False
  then obtain err where "group_attestors (ac_attestors ctx) = Inl err" by (cases "group_attestors (ac_attestors ctx)") auto
  with assms(5) NewContext_typed [OF assms(1-3)] show ?thesis by (simp add: RunAttestors_def)
next
  case True
  then obtain m where m: "group_attestors (ac_attestors ctx) = Inr m" by blast
  have "\<forall>a \<in> set (attestors_of m ExecuteRunType). declares_in_order a"
    using assms(4) by (simp add: group_attestors_result(1) [OF m])
  from run_stages_typed [OF this] assms(5) m NewContext_typed [OF assms(1-3)] show ?thesis
    by (auto simp: RunAttestors_def split: if_splits)
qed

definition sample_tracer :: "unit attestor" where
  "sample_tracer =
     Attestor network_Name network_Type ExecuteRunType None (Some [(''f'', [])]) None None None None
       (Some (\<lambda>h. (fst (network_DeclareHooks h network_New), snd (snd (network_DeclareHooks h network_New))))) None ()"

theorem context_well_formed_witness:
  "\<exists>ctx ctx' e. NewContext (Inr ''wd'') ''build'' [sample_tracer] [WithHashes []] = Inr ctx \<and>
     RunAttestors (\<lambda>a c. Return (a, None)) (\<lambda>_. 0) (\<lambda>_. []) ctx = Return (ctx', e) \<and> context_typed ctx'"
proof -
  obtain ctx where ctx: "NewContext (Inr ''wd'') ''build'' [sample_tracer] [WithHashes []] = Inr ctx" "ac_attestors ctx = [sample_tracer]"
    by (simp add: NewContext_def WithHashes_def)
  have order: "\<forall>a \<in> set (ac_attestors ctx). declares_in_order a"
    unfolding ctx(2) using network_declares_in_order by (auto simp: declares_in_order_def sample_tracer_def)
  have opts: "\<forall>opt \<in> set [WithHashes [] :: unit context_option]. provided_option opt" by (simp add: provided_option.intros)
  obtain ctx' e where run: "RunAttestors (\<lambda>a c. Return (a, None)) (\<lambda>_. 0) (\<lambda>_. []) ctx = Return (ctx', e)"
    using RunAttestors_returns [of "\<lambda>a c. Return (a, None)"] by (fastforce simp: no_panic_def)
  from context_well_formed [OF ctx(1) _ opts order run] ctx(1) run show ?thesis by blast
qed

end
