(* ===== verification/Spec2Isabelle.thy ===== *)
theory Spec2Isabelle
  imports Verify_Sample Secret_Scanner Provenance_Attestors Image_Attestors Package_Attestors
    Signer_Registration K8s_Manifest Kms_Aws Kms_Gcp Kms_Azure Kms_Hashivault Cloud_Attestors
    Context_Invariant
begin

text \<open>
  A verification development for go-witness, a Go library that runs attestors around a build step,
  signs what they attest as in-toto statements in DSSE envelopes, and verifies such envelopes against a
  signed policy.

  \<^bold>\<open>The program and its theories.\<close>

  \<^item> \<open>Go_Prelude\<close> has what the Go code uses of the language: maps as association lists whose keys occur
    once (\<open>gomap\<close>), outcomes that may be a panic, loops that stop at an error, and decimal printing.
  \<^item> \<open>Crypto_Types\<close> has the data types of \<open>cryptoutil\<close>, \<open>timestamp\<close> and \<open>dsse\<close>, one datatype of errors with a
    constructor per error type of the source, and the record of the cryptographic libraries, which is
    a parameter of every definition that uses them.
  \<^item> \<open>Digest_Set\<close>: \<open>cryptoutil/digestset.go\<close>, \<open>gitoid.go\<close>, \<open>dirhash.go\<close>. Equality of digest sets, their JSON
    form, and what equal digests say about the bytes.
  \<^item> \<open>Keys\<close>: \<open>cryptoutil/util.go\<close>, \<open>rsa.go\<close>, \<open>ecdsa.go\<close>, \<open>ed25519.go\<close>, \<open>x509.go\<close>, \<open>signer.go\<close>, \<open>verifier.go\<close>.
    Parsing of keys, and the locale of a signature scheme with its interpretation on these signers.
  \<^item> \<open>Timestamp\<close>: \<open>timestamp/\<close>. A timestamp is bound to the signature it was made for.
  \<^item> \<open>Dsse\<close>: \<open>dsse/\<close>. The pre-authentication encoding, signing, and verification with a threshold,
    certificates and timestamp authorities.
  \<^item> \<open>Registry\<close>: \<open>registry/\<close>. Registries of factories, with the locale of a table of entries.
  \<^item> \<open>Intoto\<close>: \<open>intoto/statement.go\<close>, \<open>slsa/verificationsummary.go\<close>.
  \<^item> \<open>Environment\<close>: \<open>environment/\<close>. Which environment variables are captured.
  \<^item> \<open>Execute_Hooks\<close>: \<open>attestation/execute_hooks.go\<close>, as operations and as a step relation.
  \<^item> \<open>Attestation\<close>: \<open>attestation/factory.go\<close>, \<open>attestation/collection.go\<close>. Attestors are records of what
    their interface methods return, with a state of any type.
  \<^item> \<open>Attest_Context\<close>: \<open>attestation/context.go\<close>, \<open>context_env.go\<close>. A run of attestors, stage by stage, with
    the goroutines of a stage interleaved by a schedule.
  \<^item> \<open>Archivista\<close>: \<open>archivista/\<close>, the client of the attestation store.
  \<^item> \<open>Source\<close>: \<open>source/\<close>. Memory, Archivista, combined and verifying sources; the locale of what a source
    promises, interpreted on the memory source and on combinations of sources.
  \<^item> \<open>Kms\<close>: \<open>signer/registry.go\<close>, \<open>signer/kms/signerprovider.go\<close>.
  \<^item> \<open>Constraints\<close>: \<open>policy/constraints.go\<close> and the functionaries of \<open>policy/step.go\<close>.
  \<^item> \<open>Policy_Step\<close>: \<open>policy/step.go\<close>, \<open>policy/rego.go\<close>. What a step expects of a collection.
  \<^item> \<open>Policy\<close> and \<open>Policy_Correct\<close>: \<open>policy/policy.go\<close>, its definitions and what they guarantee.
  \<^item> \<open>Policy_Signature\<close>: \<open>internal/policy/policy.go\<close>, the signature of the policy itself.
  \<^item> \<open>Policy_Verify_Attestor\<close>: \<open>attestation/policyverify/\<close>, the attestor that verifies a policy.
  \<^item> \<open>Base64\<close> and \<open>Go_Path\<close> have what the code uses of the standard library: base64, and splitting and
    cleaning of strings and paths.
  \<^item> \<open>File_Record\<close>: \<open>attestation/file/file.go\<close>. Recording the files of a directory, through symbolic links.
  \<^item> \<open>Command_Run\<close>: \<open>attestation/commandrun/\<close> on Linux, amd64. Running a command, plainly, with hooks or traced.
  \<^item> \<open>Artifact_Attestors\<close>: \<open>attestation/material/\<close>, \<open>attestation/product/\<close>, on top of the two.
  \<^item> \<open>Secret_Encoding\<close>, \<open>Secret_Scan\<close> and \<open>Secret_Scanner\<close>: \<open>attestation/secretscan/\<close>. Finding and decoding
    encoded text; detector, allowlists, findings and environment variables; the recursive scan, and the attestor.
  \<^item> \<open>Ci_Attestors\<close>: \<open>attestation/environment/\<close>, \<open>jwt/\<close>, \<open>github/\<close>, \<open>gitlab/\<close>, \<open>jenkins/\<close> and \<open>aws-codebuild/\<close>. What is
    attested of the build's environment and of the system that runs it.
  \<^item> \<open>Git_Attestor\<close>: \<open>attestation/git/\<close>, with both ways to the status of the working tree; \<open>git_status_exact\<close> says what each records.
  \<^item> \<open>Provenance_Attestors\<close>: \<open>attestation/link/\<close> and \<open>attestation/slsa/\<close>, which retell the other attestations.
  \<^item> \<open>Document_Attestors\<close>: \<open>attestation/sbom/\<close>, \<open>sarif/\<close>, \<open>vex/\<close>, \<open>maven/\<close> and \<open>lockfiles/\<close>. The locale of a scan for
    a report, interpreted on the SARIF and the VEX attestor.
  \<^item> \<open>Image_Attestors\<close>: \<open>attestation/docker/\<close> with \<open>internal/docker/\<close>, and \<open>attestation/oci/\<close>.
  \<^item> \<open>Package_Attestors\<close>: \<open>attestation/system-packages/\<close> and \<open>attestation/omnitrail/\<close>, with the line scanner.
  \<^item> \<open>K8s_Manifest\<close>: \<open>attestation/k8smanifest/\<close>. What is removed from a manifest and recorded of it.
  \<^item> \<open>Signer_Providers\<close>, \<open>Fulcio_Signer\<close> and \<open>Signer_Registration\<close>: \<open>signer/file/\<close>, \<open>spiffe/\<close>, \<open>vault/\<close> and \<open>fulcio/\<close>.
    Where a signer comes from; the attempts to get a token and a certificate recurse over those that are left.
  \<^item> \<open>Go_Regexp\<close>: what the key services use of package \<open>regexp\<close>, as expressions with a matching relation; \<open>Kms_Cache\<close>: a
    cache whose entry expires, a parameter with the laws it documents.
  \<^item> \<open>Kms_Store\<close>, \<open>Kms_Aws\<close>, \<open>Kms_Gcp\<close>, \<open>Kms_Azure\<close> and \<open>Kms_Hashivault\<close>: \<open>signer/kms/\<close>. The options that the providers share,
    and the clients of the four services with their references, caches, signing and verification; the loop that renews
    a Vault token recurses over the events that it sees.
  \<^item> \<open>Cloud_Attestors\<close>: \<open>attestation/aws-iid/\<close> and \<open>attestation/gcp-iit/\<close>. What the identity of a cloud instance rests on.
  \<^item> \<open>Network_Types\<close>, \<open>Network_Bpf\<close>, \<open>Network_Proxy\<close> and \<open>Network_Trace\<close>: \<open>attestation/networktrace/\<close>. What is recorded of a
    connection, with the addresses of package \<open>net\<close>; loading the BPF programs and their maps; the proxy, as a function on
    the script of a connection and as a step relation; and the attestor, whose hooks, proxy, collector and clean-up
    interleave in another.
  \<^item> \<open>Context_Invariant\<close>: that every run of attestors leaves a well-formed context.
  \<^item> \<open>Run\<close>: \<open>run.go\<close>, \<open>sign.go\<close>, \<open>verify.go\<close>, the entry points. A run and its signed collection; \<open>Verify\<close>. \<open>Verify_Sample\<close> has a run of
    \<open>Verify\<close> that passes.

  \<^bold>\<open>Conventions.\<close> A Go function with an error result returns a sum, or a pair with an optional error where
  the caller may use both; a function that can panic returns an \<open>outcome\<close>. Iteration over a Go map goes
  through the association list, whose order is arbitrary, and theorems that matter for it are stated for
  every order. Time is an integer count of nanoseconds; the clock, the working directory, the HTTP
  services, the glob, Rego, X.509 and JSON libraries are parameters. Most loops run over finite lists
  and need no fuel; the depth of a policy search is the search depth option of the code. Recording a
  directory recurses once per symbolic link at most, so its depth is the number of links plus one
  (\<open>RecordArtifacts_terminates\<close> shows that this is enough), and the secret scanner's recursion is over the
  four layers below its limit.

  \<^bold>\<open>What the theorems show.\<close> The soundness theorems go from the bytes up: \<open>preauthEncode_injective\<close> and
  \<open>Envelope_Verify_sound\<close> (what a verified envelope guarantees), \<open>VerifiedSource_sound\<close> (what a verifying
  source returns), \<open>checkFunctionaries_exact\<close>, \<open>validateAttestations_exact\<close> and
  \<open>verifyCollectionArtifacts_exact\<close> (what the three checks of a step decide), and \<open>Policy_Verify_sound\<close>
  (what a passed policy guarantees). \<open>Verify_end_to_end\<close> below carries this to the entry point, and
  \<open>run_collection_verifies\<close> is its counterpart for what a run signs. Others give the exact behaviour of the memory source, of capturing
  the environment, of the hooks and of a run of attestors under every interleaving; \<open>context_well_formed\<close> is the
  invariant of the state that such a run leaves. The signers of the key services have their round trips
  (\<open>aws_sign_then_verify\<close>, \<open>azure_sign_then_verify\<close>), under named hypotheses on what the service accepts and on the
  cache; the network trace is followed from the handling of one connection (\<open>connection_recorded_exact\<close>) to the
  complete trace (\<open>network_trace_complete\<close>), which says for every interleaving when \<open>Attest\<close> returns and what it has then, and
  what more holds when no handler starts after the proxy has waited for its handlers; the program's own race between the
  two is an execution of the model. \<open>RecordArtifacts_exact\<close> has the recording of a directory with its symbolic links, as a
  relation without a bound, and \<open>trace_follows_command\<close> shows that a trace ends with its command. Several theorems
  state behaviour of the code that its authors will not have intended, such as
  \<open>failed_verifier_satisfies_constraints\<close>.

  \<^bold>\<open>Not modelled.\<close> The registration of attestors in \<open>init\<close> functions, whose flags are glue over
  \<open>Registry\<close>; JSON schemas and struct tags; the tracing of commands outside Linux on amd64; the BPF programs, which are C, and
  their generated bindings; the AWS certificates themselves, which are data and a parameter, and the tool that checks them; the timers of the network proxy,
  which are choices of the script of a connection; logging; schema generation; generated code.
\<close>

section \<open>Verification from end to end\<close>

text \<open>C1. What a passed verification guarantees, from the envelope of the policy to the build steps. When
  \<open>Verify\<close> returns no error, with a collection source and the attestors of the package's own options only,
  and the policy has its steps under their names, then the policy's envelope passed the check of its
  signature; its payload decodes to a policy that has not expired, whose keys, roots and timestamp
  authorities load; the summary says so; and every step of the policy has passed collections, each signed
  by one of the step's functionaries under the policy's own keys and roots and holding the attestations the
  step expects with their Rego policies satisfied, one of which agrees with the artifacts of every step it
  takes artifacts from.\<close>

theorem Verify_end_to_end:
  assumes verified: "Verify rn env verifiers opts = Return (vr, None)"
    and attest: "rn_attest rn = verify_attest ve others"
    and vo: "vo = fold (\<lambda>opt vo. opt vo) opts \<lparr>vf_attestorOptions = [], vf_verifyPolicySignatureOptions = [],
        vf_runOptions = [], vf_signers = [], vf_kmsProviderOptions = []\<rparr>"
    and alone: "ro_attestors (new_runOptions ''policyverify'' (vf_runOptions vo)) = []"
    and harmless: "\<forall>opt \<in> set (ro_attestationOpts (new_runOptions ''policyverify''
        (verify_run_options env verifiers vo))). harmless opt"
    and source: "pva_collectionSource (verify_attestor env verifiers vo) = Some src"
    and order: "\<And>d steps. set (ve_order ve d steps) = set steps"
    and named: "\<And>pol. ve_Unmarshal ve (env_Payload env) = Inr pol \<Longrightarrow> gomap_ok (pol_Steps pol) \<and>
        (\<forall>(name, step) \<in> set (pol_Steps pol). step_Name step = name)"
  shows "\<exists>pol keys bundles authorities options.
    VerifyPolicySignature (ve_lib ve) (ve_certs ve) (ve_signatureNow ve) env
      (pva_options (verify_attestor env verifiers vo)) = Return None \<and>
    ve_Unmarshal ve (env_Payload env) = Inr pol \<and> ve_expiryNow ve \<le> pol_Expires pol \<and>
    PublicKeyVerifiers (ve_lib ve) (ve_kms ve) (pva_kmsProviderOptions (verify_attestor env verifiers vo)) pol = Inr keys \<and>
    TrustBundles (ve_lib ve) pol = Inr bundles \<and> TimestampAuthorityTrustBundles (ve_lib ve) pol = Inr authorities \<and>
    options = fold (\<lambda>opt vo. opt vo) (policy_verifyOpts keys bundles authorities) default_options \<and>
    vs_VerificationResult (vr_VerificationSummary vr) = PassedVerificationResult \<and>
    (\<forall>(name, step) \<in> set (pol_Steps pol). \<exists>r. map_of (vr_StepResults vr) name = Some r \<and> sr_Passed r \<noteq> [] \<and>
       (\<forall>c \<in> set (sr_Passed r).
          signed_by_functionary (ve_lib ve) (ve_certs ve) (ve_searchNow ve) options bundles step c \<and>
          attestations_ok (ve_rego ve) step c) \<and>
       (\<exists>c \<in> set (sr_Passed r). \<forall>from \<in> set (step_ArtifactsFrom step).
          \<exists>d \<in> set (passed_of (vr_StepResults vr) from).
            artifacts_agree (Collection_Materials (ce_Collection c)) (Collection_Artifacts (ce_Collection d))))"
proof -
  let ?a = "verify_attestor env verifiers vo"
  obtain hashes a' where att: "policyverify_Attest ve hashes ?a = Return (a', None)"
    and passed: "vs_VerificationResult (pva_VerificationSummary a') = PassedVerificationResult"
    and vr: "vr_StepResults vr = pva_stepResults a'" "vr_VerificationSummary vr = pva_VerificationSummary a'"
    by (rule Verify_passed [OF verified attest vo alone harmless])
  from policyverify_Attest_ok [OF att] obtain pol keys bundles authorities accepted where
    sig: "VerifyPolicySignature (ve_lib ve) (ve_certs ve) (ve_signatureNow ve) env (pva_options ?a) = Return None"
    and pol: "ve_Unmarshal ve (env_Payload env) = Inr pol"
    and keys: "PublicKeyVerifiers (ve_lib ve) (ve_kms ve) (pva_kmsProviderOptions ?a) pol = Inr keys"
    and bundles: "TrustBundles (ve_lib ve) pol = Inr bundles"
    and authorities: "TimestampAuthorityTrustBundles (ve_lib ve) pol = Inr authorities"
    and ver: "verify_with_source ve pol (pva_subjectDigests ?a) (policy_verifyOpts keys bundles authorities)
      (Some src) = Return (accepted, pva_stepResults a', None)"
    and summary: "verificationSummaryFromResults (ve_lib ve) (ve_summaryNow ve) hashes env (pva_stepResults a')
      accepted = (pva_VerificationSummary a', None)"
    unfolding source verify_attestor_envelope by blast
  from summary_result [OF summary] passed have "accepted"
    by (cases accepted) (use passed_not_failed in \<open>auto simp: eq_commute\<close>)
  with ver have "verify_with_source ve pol (pva_subjectDigests ?a) (policy_verifyOpts keys bundles authorities)
      (Some src) = Return (True, pva_stepResults a', None)" by simp
  note guar = Policy_Verify_guarantees [OF passed_with_source [OF this] _ refl]
  from guar named [OF pol] order bundles sig pol keys authorities passed show ?thesis
    unfolding vr
    by (fastforce simp: WithSubjectDigests_def WithVerifiedSource_def)
qed

theorem Verify_end_to_end_witness:
  "\<exists>vr options c. Verify sample_verify_run sample_envelope [Some (ECDSAVerifier ''k'' SHA256)] sample_verify_options =
      Return (vr, None) \<and> c \<in> set (passed_of (vr_StepResults vr) ''build'') \<and>
     signed_by_functionary sample_lib sample_cert_lib (\<lambda>_ _ _. 0) options []
       (sample_step\<lparr>step_Functionaries := [sample_functionary]\<rparr>) c"
proof -
  let ?vo = "fold (\<lambda>opt vo. opt vo) sample_verify_options \<lparr>vf_attestorOptions = [],
      vf_verifyPolicySignatureOptions = [], vf_runOptions = [], vf_signers = [], vf_kmsProviderOptions = []\<rparr>"
  let ?vs = "[Some (ECDSAVerifier ''k'' SHA256)]"
  obtain vr where vr: "Verify sample_verify_run sample_envelope ?vs sample_verify_options = Return (vr, None)"
    by (rule sample_verify_passes)
  have steps: "pol_Steps sample_pass_policy = [(''build'', sample_step\<lparr>step_Functionaries := [sample_functionary]\<rparr>)]"
    and roots: "TrustBundles sample_lib sample_pass_policy = Inr []"
    by (simp_all add: sample_pass_policy_def sample_policy_def TrustBundles_def trustBundlesFromRoots_def)
  have src: "pva_collectionSource (verify_attestor sample_envelope ?vs ?vo) = Some [sample_found]"
    and alone: "ro_attestors (new_runOptions ''policyverify'' (vf_runOptions ?vo)) = []"
    and harmless: "\<forall>opt \<in> set (ro_attestationOpts (new_runOptions ''policyverify''
        (verify_run_options sample_envelope ?vs ?vo))). harmless opt"
    by (simp_all add: sample_verify_options_def vf_WithCollectionSource_def vf_WithSubjectDigests_def
        verify_attestor_def policyverify_New_def pva_VerifyWithKMSProviderOptions_def VerifyWithPolicyEnvelope_def
        VerifyWithPolicyVerificationOptions_def pva_VerifyWithCollectionSource_def pva_VerifyWithSubjectDigests_def
        new_runOptions_def verify_run_options_def RunWithAttestors_def RunWithInsecure_def)
  have attest: "rn_attest sample_verify_run = verify_attest sample_verify_env (\<lambda>a c. Return (a, None))"
    by (simp add: sample_verify_run_def)
  have fields: "ve_lib sample_verify_env = sample_lib" "ve_certs sample_verify_env = sample_cert_lib"
    "ve_searchNow sample_verify_env = (\<lambda>_ _ _. 0)" "ve_order sample_verify_env = (\<lambda>_ steps. steps)"
    "ve_Unmarshal sample_verify_env = (\<lambda>_. Inr sample_pass_policy)"
    by (simp_all add: sample_verify_env_def)
  have named: "gomap_ok (pol_Steps sample_pass_policy)" "step_Name sample_step = ''build''"
    by (simp_all add: steps gomap_ok_def sample_step_def)
  from Verify_end_to_end [OF vr attest refl alone harmless src] obtain options r where
    "map_of (vr_StepResults vr) ''build'' = Some r" "sr_Passed r \<noteq> []"
    "\<forall>c \<in> set (sr_Passed r). signed_by_functionary sample_lib sample_cert_lib (\<lambda>_ _ _. 0) options []
       (sample_step\<lparr>step_Functionaries := [sample_functionary]\<rparr>) c"
    using named by (fastforce simp: fields steps roots)
  with vr show ?thesis by (fastforce simp: passed_of_def neq_Nil_conv)
qed

end
